(* ===== verification/Prelude.thy ===== *)
theory Prelude
  imports Main
    "HOL-Library.AList"
    "HOL-Library.Sublist"
    "HOL-Library.Char_ord"
    "HOL-Library.List_Lexorder"
    "HOL-Library.Product_Lexorder"
    "HOL-Library.Word"
begin

text \<open>
  Shared vocabulary of the development: the parts of Python's strings, dictionaries and
  numbers that the scanner uses, as executable definitions, with the generic lemmas the
  component theories rest on.

  Text is a \<^typ>\<open>string\<close> of ASCII characters: \<open>py_lower\<close>, \<open>py_upper\<close>,
  \<open>py_strip\<close> and the digit tests are the restriction of \<^verbatim>\<open>str.lower\<close>,
  \<^verbatim>\<open>str.upper\<close>, \<^verbatim>\<open>str.strip\<close> and \<^verbatim>\<open>\d\<close> to code points below 128.
  A \<^verbatim>\<open>dict\<close> is an association list in insertion order, updated with
  \<^const>\<open>AList.update\<close>, which overwrites in place or appends, as CPython does.
\<close>

named_theorems py_simps \<open>definitions of the Python primitives, for evaluation\<close>

section \<open>Characters and case\<close>

definition char_code :: "char \<Rightarrow> nat" where
  "char_code c = of_char c"

definition is_upper :: "char \<Rightarrow> bool" where
  "is_upper c \<longleftrightarrow> 65 \<le> char_code c \<and> char_code c \<le> 90"

definition is_lower :: "char \<Rightarrow> bool" where
  "is_lower c \<longleftrightarrow> 97 \<le> char_code c \<and> char_code c \<le> 122"

definition is_digit :: "char \<Rightarrow> bool" where
  "is_digit c \<longleftrightarrow> 48 \<le> char_code c \<and> char_code c \<le> 57"

text \<open>\<^verbatim>\<open>str.isspace\<close> on ASCII: tab to carriage return, the four separators, space.\<close>

definition is_space :: "char \<Rightarrow> bool" where
  "is_space c \<longleftrightarrow> (9 \<le> char_code c \<and> char_code c \<le> 13) \<or> (28 \<le> char_code c \<and> char_code c \<le> 32)"

definition lower_char :: "char \<Rightarrow> char" where
  "lower_char c = (if is_upper c then char_of (char_code c + 32) else c)"

definition upper_char :: "char \<Rightarrow> char" where
  "upper_char c = (if is_lower c then char_of (char_code c - 32) else c)"

definition py_lower :: "string \<Rightarrow> string" where
  "py_lower s = map lower_char s"

definition py_upper :: "string \<Rightarrow> string" where
  "py_upper s = map upper_char s"

abbreviation newline :: char where
  "newline \<equiv> CHR 0x0A"

text \<open>
  Evaluation on character literals, bit by bit (least significant first), so that the
  conversions and tests compute by \<open>simp\<close> and \<open>code_simp\<close> without numerals.
\<close>

lemma is_upper_Char [py_simps, code]:
  "is_upper (Char b0 b1 b2 b3 b4 b5 b6 b7) \<longleftrightarrow>
     \<not> b7 \<and> b6 \<and> \<not> b5 \<and> (b0 \<or> b1 \<or> b2 \<or> b3 \<or> b4) \<and> \<not> (b4 \<and> b3 \<and> (b2 \<or> b1 \<and> b0))"
  by (cases b0; cases b1; cases b2; cases b3; cases b4; cases b5; cases b6; cases b7)
     (simp_all add: is_upper_def char_code_def)

lemma is_lower_Char [py_simps, code]:
  "is_lower (Char b0 b1 b2 b3 b4 b5 b6 b7) \<longleftrightarrow>
     \<not> b7 \<and> b6 \<and> b5 \<and> (b0 \<or> b1 \<or> b2 \<or> b3 \<or> b4) \<and> \<not> (b4 \<and> b3 \<and> (b2 \<or> b1 \<and> b0))"
  by (cases b0; cases b1; cases b2; cases b3; cases b4; cases b5; cases b6; cases b7)
     (simp_all add: is_lower_def char_code_def)

lemma is_digit_Char [py_simps, code]:
  "is_digit (Char b0 b1 b2 b3 b4 b5 b6 b7) \<longleftrightarrow>
     \<not> b7 \<and> \<not> b6 \<and> b5 \<and> b4 \<and> \<not> (b3 \<and> (b2 \<or> b1))"
  by (cases b0; cases b1; cases b2; cases b3; cases b4; cases b5; cases b6; cases b7)
     (simp_all add: is_digit_def char_code_def)

lemma is_space_Char [py_simps, code]:
  "is_space (Char b0 b1 b2 b3 b4 b5 b6 b7) \<longleftrightarrow>
     \<not> b7 \<and> \<not> b6 \<and>
     (if b5 then \<not> b4 \<and> \<not> b3 \<and> \<not> b2 \<and> \<not> b1 \<and> \<not> b0
      else if b4 then b3 \<and> b2
      else b3 \<and> (b0 \<or> b1 \<or> b2) \<and> \<not> (b2 \<and> b1))"
  by (cases b0; cases b1; cases b2; cases b3; cases b4; cases b5; cases b6; cases b7)
     (simp_all add: is_space_def char_code_def)

lemma lower_char_Char [py_simps, code]:
  "lower_char (Char b0 b1 b2 b3 b4 b5 b6 b7) =
     (if is_upper (Char b0 b1 b2 b3 b4 b5 b6 b7) then Char b0 b1 b2 b3 b4 True b6 b7
      else Char b0 b1 b2 b3 b4 b5 b6 b7)"
  by (cases b0; cases b1; cases b2; cases b3; cases b4; cases b5; cases b6; cases b7)
     (simp_all add: lower_char_def is_upper_Char char_code_def char_of_def bit_0)

lemma upper_char_Char [py_simps, code]:
  "upper_char (Char b0 b1 b2 b3 b4 b5 b6 b7) =
     (if is_lower (Char b0 b1 b2 b3 b4 b5 b6 b7) then Char b0 b1 b2 b3 b4 False b6 b7
      else Char b0 b1 b2 b3 b4 b5 b6 b7)"
  by (cases b0; cases b1; cases b2; cases b3; cases b4; cases b5; cases b6; cases b7)
     (simp_all add: upper_char_def is_lower_Char char_code_def char_of_def bit_0)

lemmas case_simps [py_simps] = py_lower_def py_upper_def

lemma char_code_char_of: "n < 256 \<Longrightarrow> char_code (char_of n) = n"
  by (simp add: char_code_def)

lemma char_code_inject [simp]: "char_code c = char_code d \<longleftrightarrow> c = d"
  by (simp add: char_code_def)

lemma char_code_less: "char_code c < 256"
  unfolding char_code_def by (metis of_char_mod_256 mod_less_divisor zero_less_numeral)

lemma char_of_char_code [simp]: "char_of (char_code c) = c"
  by (simp add: char_code_def)

lemma lower_char_lower_char [simp]: "lower_char (lower_char c) = lower_char c"
  by (auto simp: lower_char_def is_upper_def char_code_char_of)

lemma lower_upper_char [simp]: "lower_char (upper_char c) = lower_char c"
  by (auto simp: lower_char_def upper_char_def is_upper_def is_lower_def char_code_char_of)

lemma upper_lower_char [simp]: "upper_char (lower_char c) = upper_char c"
  by (auto simp: lower_char_def upper_char_def is_upper_def is_lower_def char_code_char_of)

lemma upper_char_upper_char [simp]: "upper_char (upper_char c) = upper_char c"
  by (auto simp: upper_char_def is_lower_def char_code_char_of)

lemma py_case_idem [simp]:
  "py_lower (py_lower s) = py_lower s" "py_lower (py_upper s) = py_lower s"
  "py_upper (py_lower s) = py_upper s" "py_upper (py_upper s) = py_upper s"
  by (simp_all add: py_lower_def py_upper_def)

lemma length_py_case [simp]: "length (py_lower s) = length s" "length (py_upper s) = length s"
  by (simp_all add: py_lower_def py_upper_def)

lemma py_case_append [simp]:
  "py_lower (s @ t) = py_lower s @ py_lower t" "py_upper (s @ t) = py_upper s @ py_upper t"
  by (simp_all add: py_lower_def py_upper_def)

lemma py_upper_Nil [simp]: "py_upper [] = []" "py_lower [] = []"
  by (simp_all add: py_lower_def py_upper_def)

lemma py_upper_Cons: "py_upper (c # s) = upper_char c # py_upper s"
  by (simp add: py_upper_def)

section \<open>Prefixes, substrings, stripping and splitting\<close>

text \<open>A character outside ASCII in a message is the bytes of its UTF-8 form.\<close>

definition DASH :: string where "DASH = [CHR 0xE2, CHR 0x80, CHR 0x94]"

definition ARROW :: string where "ARROW = [CHR 0xE2, CHR 0x86, CHR 0x92]"

definition startswith :: "string \<Rightarrow> string \<Rightarrow> bool" where
  "startswith s p = prefix p s"

definition startswith_any :: "string \<Rightarrow> string list \<Rightarrow> bool" where
  "startswith_any s ps = list_ex (startswith s) ps"

definition endswith :: "string \<Rightarrow> string \<Rightarrow> bool" where
  "endswith s p = suffix p s"

text \<open>\<^verbatim>\<open>p in s\<close>: \<open>p\<close> occurs in \<open>s\<close> as a contiguous substring.\<close>

definition contains :: "string \<Rightarrow> string \<Rightarrow> bool" where
  "contains s p = sublist p s"

definition contains_any :: "string \<Rightarrow> string list \<Rightarrow> bool" where
  "contains_any s ps = list_ex (contains s) ps"

definition lstrip_set :: "(char \<Rightarrow> bool) \<Rightarrow> string \<Rightarrow> string" where
  "lstrip_set p s = dropWhile p s"

definition rstrip_set :: "(char \<Rightarrow> bool) \<Rightarrow> string \<Rightarrow> string" where
  "rstrip_set p s = rev (dropWhile p (rev s))"

definition py_strip :: "string \<Rightarrow> string" where
  "py_strip s = rstrip_set is_space (lstrip_set is_space s)"

text \<open>\<^verbatim>\<open>s.partition(c)\<close> for a one-character separator, without the separator itself.\<close>

definition partition_char :: "char \<Rightarrow> string \<Rightarrow> string \<times> string" where
  "partition_char c s = (takeWhile (\<lambda>x. x \<noteq> c) s, tl (dropWhile (\<lambda>x. x \<noteq> c) s))"

text \<open>\<^verbatim>\<open>s.rpartition(c)[2]\<close>: what follows the last \<open>c\<close>, all of \<open>s\<close> when there is none.\<close>

definition after_last :: "char \<Rightarrow> string \<Rightarrow> string" where
  "after_last c s = rev (takeWhile (\<lambda>x. x \<noteq> c) (rev s))"

text \<open>\<^verbatim>\<open>s.split(c)\<close>: always at least one piece.\<close>

fun split_on :: "char \<Rightarrow> string \<Rightarrow> string list" where
  "split_on c [] = [[]]"
| "split_on c (x # xs) =
     (if x = c then [] # split_on c xs
      else (case split_on c xs of [] \<Rightarrow> [[x]] | p # ps \<Rightarrow> (x # p) # ps))"

text \<open>\<^verbatim>\<open>s.split()\<close>: the maximal runs of non-space characters.\<close>

fun split_ws_aux :: "string \<Rightarrow> string \<Rightarrow> string list" where
  "split_ws_aux acc [] = (if acc = [] then [] else [rev acc])"
| "split_ws_aux acc (c # s) =
     (if is_space c then (if acc = [] then split_ws_aux [] s else rev acc # split_ws_aux [] s)
      else split_ws_aux (c # acc) s)"

definition split_ws :: "string \<Rightarrow> string list" where
  "split_ws s = split_ws_aux [] s"

fun join_with :: "string \<Rightarrow> string list \<Rightarrow> string" where
  "join_with sep [] = []"
| "join_with sep [s] = s"
| "join_with sep (s # t # ss) = s @ sep @ join_with sep (t # ss)"

lemma rstrip_set_id: "s \<noteq> [] \<Longrightarrow> \<not> p (last s) \<Longrightarrow> rstrip_set p s = s"
  by (simp add: rstrip_set_def dropWhile_eq_self_iff [THEN iffD2] hd_rev)

lemma split_on_not_Nil [simp]: "split_on c s \<noteq> []"
  by (cases s) (auto split: list.splits)

lemma split_on_no_sep: "c \<notin> set s \<Longrightarrow> split_on c s = [s]"
  by (induction s) auto

lemma split_on_sep: "c \<notin> set s \<Longrightarrow> split_on c (s @ c # t) = s # split_on c t"
  by (induction s) auto

lemma split_on_parts: "p \<in> set (split_on c s) \<Longrightarrow> c \<notin> set p"
  by (induction s arbitrary: p) (auto split: if_splits list.splits)

lemma join_split_on: "join_with [c] (split_on c s) = s"
proof (induction s)
  case (Cons x xs)
  obtain p ps where s: "split_on c xs = p # ps"
    by (cases "split_on c xs") auto
  with Cons show ?case by (cases ps) auto
qed simp

lemma split_on_join: "cells \<noteq> [] \<Longrightarrow> list_all (\<lambda>s. c \<notin> set s) cells \<Longrightarrow> split_on c (join_with [c] cells) = cells"
  by (induction "[c]" cells rule: join_with.induct) (simp_all add: split_on_no_sep split_on_sep)

lemma join_chars: "set (join_with [c] ts) \<subseteq> insert c (\<Union>t \<in> set ts. set t)"
  by (induction "[c]" ts rule: join_with.induct) auto

lemma join_ends:
  "ts \<noteq> [] \<Longrightarrow> \<forall>t \<in> set ts. t \<noteq> [] \<Longrightarrow>
   join_with [c] ts \<noteq> [] \<and> hd (join_with [c] ts) = hd (hd ts) \<and> last (join_with [c] ts) = last (last ts)"
  by (induction "[c]" ts rule: join_with.induct) auto

lemma py_strip_ends: "s \<noteq> [] \<Longrightarrow> \<not> is_space (hd s) \<Longrightarrow> \<not> is_space (last s) \<Longrightarrow> py_strip s = s"
  by (cases s) (simp_all add: py_strip_def lstrip_set_def rstrip_set_id)

lemma py_strip_blank: "is_space c \<Longrightarrow> py_strip (c # s) = py_strip s"
  by (simp add: py_strip_def lstrip_set_def)

lemma split_ws_aux_nonempty: "w \<in> set (split_ws_aux acc s) \<Longrightarrow> w \<noteq> []"
  by (induction acc s rule: split_ws_aux.induct) (auto split: if_splits)

lemmas text_simps [py_simps] =
  startswith_def startswith_any_def endswith_def contains_def contains_any_def sublist_code
  suffix_to_prefix

lemma startswith_append [simp]: "startswith (p @ s) p"
  by (simp add: startswith_def)

section \<open>Lines\<close>

text \<open>\<^verbatim>\<open>str.splitlines()\<close>: line feed, carriage return (with the line feed after it), vertical tab, form feed
  and the separators 0x1C to 0x1E end a line.\<close>

definition line_break :: "char \<Rightarrow> bool" where
  "line_break c \<longleftrightarrow> (10 \<le> char_code c \<and> char_code c \<le> 13) \<or> (28 \<le> char_code c \<and> char_code c \<le> 30)"

function lines_from :: "string \<Rightarrow> string \<Rightarrow> string list" where
  "lines_from acc [] = (if acc = [] then [] else [rev acc])"
| "lines_from acc (c # s) =
     (if c = CHR 0x0D \<and> s \<noteq> [] \<and> hd s = newline then rev acc # lines_from [] (tl s)
      else if line_break c then rev acc # lines_from [] s
      else lines_from (c # acc) s)"
  by pat_completeness auto
termination
  by (relation "measure (\<lambda>(acc, s). length s)") auto

definition splitlines :: "string \<Rightarrow> string list" where
  "splitlines s = lines_from [] s"

lemma line_break_space: "line_break c \<Longrightarrow> is_space c"
  by (auto simp: line_break_def is_space_def)

lemma lines_from_line:
  "list_all (\<lambda>c. \<not> line_break c) s \<Longrightarrow> lines_from acc (s @ newline # t) = (rev acc @ s) # lines_from [] t"
  by (induction s arbitrary: acc) (auto simp: line_break_def char_code_def)

lemma splitlines_lines:
  "list_all (list_all (\<lambda>c. \<not> line_break c)) ls \<Longrightarrow> splitlines (concat (map (\<lambda>l. l @ [newline]) ls)) = ls"
  by (induction ls) (simp_all add: splitlines_def lines_from_line)

lemma lstrip_append: "u \<noteq> [] \<Longrightarrow> \<not> p (hd u) \<Longrightarrow> lstrip_set p (s @ u) = lstrip_set p s @ u"
  by (induction s) (auto simp: lstrip_set_def neq_Nil_conv)

section \<open>Decimal numbers\<close>

definition digit_char :: "nat \<Rightarrow> char" where
  "digit_char d = char_of (48 + d)"

definition digit_val :: "char \<Rightarrow> nat" where
  "digit_val c = char_code c - 48"

fun show_nat :: "nat \<Rightarrow> string" where
  "show_nat n = (if n < 10 then [digit_char n] else show_nat (n div 10) @ [digit_char (n mod 10)])"

declare show_nat.simps [simp del]

definition show_int :: "int \<Rightarrow> string" where
  "show_int i = (if i < 0 then CHR ''-'' # show_nat (nat (- i)) else show_nat (nat i))"

text \<open>\<^verbatim>\<open>int(s)\<close> for a string of ASCII digits.\<close>

definition nat_of_digits :: "string \<Rightarrow> nat" where
  "nat_of_digits s = foldl (\<lambda>n c. 10 * n + digit_val c) 0 s"

definition all_digits :: "string \<Rightarrow> bool" where
  "all_digits s \<longleftrightarrow> s \<noteq> [] \<and> list_all is_digit s"

lemma digit_char_eval [py_simps]:
  "digit_char 0 = CHR ''0''" "digit_char 1 = CHR ''1''" "digit_char (Suc 0) = CHR ''1''"
  "digit_char 2 = CHR ''2''" "digit_char 3 = CHR ''3''" "digit_char 4 = CHR ''4''"
  "digit_char 5 = CHR ''5''" "digit_char 6 = CHR ''6''" "digit_char 7 = CHR ''7''"
  "digit_char 8 = CHR ''8''" "digit_char 9 = CHR ''9''"
  by (simp_all add: digit_char_def char_of_def bit_0)

lemma digit_char_code: "d < 10 \<Longrightarrow> char_code (digit_char d) = 48 + d"
  by (simp add: digit_char_def char_code_char_of)

lemma digit_val_digit_char [simp]: "d < 10 \<Longrightarrow> digit_val (digit_char d) = d"
  by (simp add: digit_val_def digit_char_code)

lemma is_digit_digit_char [simp]: "d < 10 \<Longrightarrow> is_digit (digit_char d)"
  by (simp add: is_digit_def digit_char_code)

lemma nat_of_digits_snoc: "nat_of_digits (s @ [c]) = 10 * nat_of_digits s + digit_val c"
  by (simp add: nat_of_digits_def)

lemma show_nat_not_Nil [simp]: "show_nat n \<noteq> []"
  by (subst show_nat.simps) simp

lemma show_nat_digits: "list_all is_digit (show_nat n)"
proof (induction n rule: show_nat.induct)
  case (1 n)
  show ?case by (subst show_nat.simps) (use 1 in auto)
qed

lemma all_digits_show_nat [simp]: "all_digits (show_nat n)"
  by (simp add: all_digits_def show_nat_digits)

lemma nat_of_digits_show_nat [simp]: "nat_of_digits (show_nat n) = n"
proof (induction n rule: show_nat.induct)
  case (1 n)
  show ?case
  proof (cases "n < 10")
    case True
    then show ?thesis by (subst show_nat.simps) (simp add: nat_of_digits_def)
  next
    case False
    with 1 have "nat_of_digits (show_nat (n div 10)) = n div 10" by simp
    with False show ?thesis by (subst show_nat.simps) (simp add: nat_of_digits_snoc)
  qed
qed

lemma upper_char_digit [simp]: "is_digit c \<Longrightarrow> upper_char c = c"
  by (simp add: upper_char_def is_digit_def is_lower_def)

lemma lower_char_digit [simp]: "is_digit c \<Longrightarrow> lower_char c = c"
  by (simp add: lower_char_def is_digit_def is_upper_def)

lemma py_upper_digits [simp]: "list_all is_digit s \<Longrightarrow> py_upper s = s"
  by (induction s) (simp_all add: py_upper_def)

lemma py_lower_digits [simp]: "list_all is_digit s \<Longrightarrow> py_lower s = s"
  by (induction s) (simp_all add: py_lower_def)

lemma py_upper_show_nat [simp]: "py_upper (show_nat n) = show_nat n"
  by (simp add: show_nat_digits)

section \<open>Dictionaries\<close>

type_synonym 'v dict = "(string \<times> 'v) list"

abbreviation dict_get :: "'v dict \<Rightarrow> string \<Rightarrow> 'v option" where
  "dict_get d k \<equiv> map_of d k"

abbreviation dict_set :: "string \<Rightarrow> 'v \<Rightarrow> 'v dict \<Rightarrow> 'v dict" where
  "dict_set \<equiv> AList.update"

text \<open>\<^verbatim>\<open>{**d, **e}\<close>: the entries of \<open>e\<close> win, keys keep their first position.\<close>

definition dict_merge :: "'v dict \<Rightarrow> 'v dict \<Rightarrow> 'v dict" where
  "dict_merge d e = foldl (\<lambda>m (k, v). dict_set k v m) d e"

definition dict_wf :: "'v dict \<Rightarrow> bool" where
  "dict_wf d \<longleftrightarrow> distinct (map fst d)"

lemma map_of_dict_set [simp]: "map_of (dict_set k v d) = (map_of d)(k \<mapsto> v)"
  by (rule update_conv')

lemma dict_merge_Nil [simp]: "dict_merge d [] = d"
  by (simp add: dict_merge_def)

lemma dict_merge_Cons: "dict_merge d ((k, v) # e) = dict_merge (dict_set k v d) e"
  by (simp add: dict_merge_def)

lemma dict_get_merge:
  "dict_wf e \<Longrightarrow> dict_get (dict_merge d e) k = (case dict_get e k of None \<Rightarrow> dict_get d k | Some v \<Rightarrow> Some v)"
proof (induction e arbitrary: d)
  case (Cons p e)
  obtain k' v where p: "p = (k', v)" by force
  from Cons.prems p have "dict_wf e" and "map_of e k' = None"
    by (auto simp: dict_wf_def map_of_eq_None_iff)
  then show ?case
    using Cons.IH [of "dict_set k' v d"] by (auto simp: p dict_merge_Cons split: option.splits)
qed simp

lemma dict_wf_set [simp]: "dict_wf d \<Longrightarrow> dict_wf (dict_set k v d)"
  by (simp add: dict_wf_def distinct_update)

lemma dict_wf_merge: "dict_wf d \<Longrightarrow> dict_wf (dict_merge d e)"
  by (induction e arbitrary: d) (auto simp: dict_merge_Cons)

text \<open>\<^verbatim>\<open>list(dict.fromkeys(xs))\<close>: duplicates removed, first occurrence kept.\<close>

fun dedupe_aux :: "'a list \<Rightarrow> 'a list \<Rightarrow> 'a list" where
  "dedupe_aux seen [] = []"
| "dedupe_aux seen (x # xs) =
     (if x \<in> set seen then dedupe_aux seen xs else x # dedupe_aux (x # seen) xs)"

definition dedupe :: "'a list \<Rightarrow> 'a list" where
  "dedupe xs = dedupe_aux [] xs"

lemma set_dedupe_aux: "set (dedupe_aux seen xs) = set xs - set seen"
  by (induction seen xs rule: dedupe_aux.induct) auto

lemma distinct_dedupe_aux: "distinct (dedupe_aux seen xs)"
  by (induction seen xs rule: dedupe_aux.induct) (auto simp: set_dedupe_aux)

lemma set_dedupe [simp]: "set (dedupe xs) = set xs"
  by (simp add: dedupe_def set_dedupe_aux)

lemma distinct_dedupe [simp]: "distinct (dedupe xs)"
  by (simp add: dedupe_def distinct_dedupe_aux)

lemma dedupe_aux_id: "distinct xs \<Longrightarrow> set xs \<inter> set seen = {} \<Longrightarrow> dedupe_aux seen xs = xs"
  by (induction seen xs rule: dedupe_aux.induct) auto

lemma dedupe_id: "distinct xs \<Longrightarrow> dedupe xs = xs"
  by (simp add: dedupe_def dedupe_aux_id)

end
