(* ===== verification/Py_Float.thy ===== *)
theory Py_Float
  imports Complex_Main "HOL-Library.Log_Nat" Prelude
begin

text \<open>
  The floating-point arithmetic the scores use. A finite double is its exact rational value;
  every operation is the exact rational one followed by \<open>fl\<close>, rounding to nearest, ties to
  even, at 53 bits. The magnitudes that occur (percentages, years, seconds) are far inside
  the normal range, so overflow and subnormals do not arise. \<open>py_round\<close> is
  \<^verbatim>\<open>round(x)\<close> and \<open>py_round1\<close> is \<^verbatim>\<open>round(x, 1)\<close>: CPython rounds the exact value of the
  double to one decimal, half to even, and converts back.
\<close>

section \<open>Rounding to an integer\<close>

definition py_round :: "rat \<Rightarrow> int" where
  "py_round x =
     (let n = \<lfloor>x\<rfloor>; d = x - of_int n
      in if d < 1 / 2 then n else if 1 / 2 < d then n + 1 else if even n then n else n + 1)"

lemma py_round_of_int [simp]: "py_round (of_int n) = n"
  by (simp add: py_round_def)

lemma py_round_bounds: "\<lfloor>x\<rfloor> \<le> py_round x \<and> py_round x \<le> \<lfloor>x\<rfloor> + 1"
  by (simp add: py_round_def Let_def)

lemma py_round_mono:
  assumes "x \<le> y"
  shows "py_round x \<le> py_round y"
proof (cases "\<lfloor>x\<rfloor> = \<lfloor>y\<rfloor>")
  case True
  with assms show ?thesis by (auto simp: py_round_def Let_def)
next
  case False
  with floor_mono [OF assms] have "\<lfloor>x\<rfloor> + 1 \<le> \<lfloor>y\<rfloor>" by linarith
  with py_round_bounds [of x] py_round_bounds [of y] show ?thesis by linarith
qed

section \<open>Rounding to 53 bits\<close>

text \<open>The binary exponent of a positive rational: \<open>2 ^ e \<le> x < 2 ^ (e + 1)\<close>.\<close>

definition bin_exp :: "rat \<Rightarrow> int" where
  "bin_exp x =
     (let (p, q) = quotient_of x; k = int (floorlog 2 (nat p)) - int (floorlog 2 (nat q))
      in if 2 powi k \<le> x then k else k - 1)"

definition fl_pos :: "rat \<Rightarrow> rat" where
  "fl_pos x = (let u = 2 powi (bin_exp x - 52) in of_int (py_round (x / u)) * u)"

definition fl :: "rat \<Rightarrow> rat" where
  "fl x = (if x = 0 then 0 else if x < 0 then - fl_pos (- x) else fl_pos x)"

definition py_round1 :: "rat \<Rightarrow> rat" where
  "py_round1 x = fl (of_int (py_round (x * 10)) / 10)"

lemma powi_div_pow: "(2 :: rat) ^ a / 2 ^ b = 2 powi (int a - int b)"
  by (simp add: power_int_diff)

lemma floorlog2_bounds:
  assumes "0 < n"
  shows "(2 :: rat) powi (int (floorlog 2 (nat n)) - 1) \<le> of_int n"
    and "(of_int n :: rat) < 2 powi int (floorlog 2 (nat n))"
proof -
  let ?f = "floorlog 2 (nat n)"
  have f: "1 \<le> ?f" using assms by (simp add: floorlog_def)
  have "2 ^ (?f - 1) \<le> nat n \<and> nat n < 2 ^ ?f" using assms by (intro floorlog_bounds) simp_all
  then have "int (2 ^ (?f - 1)) \<le> int (nat n)" "int (nat n) < int (2 ^ ?f)"
    by (simp_all only: of_nat_le_iff of_nat_less_iff)
  with assms have "(2 :: int) ^ (?f - 1) \<le> n" "n < 2 ^ ?f" by simp_all
  then have "of_int (2 ^ (?f - 1)) \<le> (of_int n :: rat)" "(of_int n :: rat) < of_int (2 ^ ?f)"
    by (simp_all only: of_int_le_iff of_int_less_iff)
  moreover have "int ?f - 1 = int (?f - 1)" using f by simp
  ultimately show "(2 :: rat) powi (int ?f - 1) \<le> of_int n" "(of_int n :: rat) < 2 powi int ?f"
    by (simp_all only: power_int_of_nat of_int_power of_int_numeral)
qed

lemma bin_exp_bounds:
  assumes "0 < x"
  shows "2 powi bin_exp x \<le> x \<and> x < 2 powi (bin_exp x + 1)"
proof -
  obtain p q where pq: "quotient_of x = (p, q)" by force
  then have q: "0 < q" and x: "x = of_int p / of_int q"
    using quotient_of_denom_pos quotient_of_div by blast+
  with assms have p: "0 < p" by (simp add: zero_less_divide_iff)
  let ?a = "int (floorlog 2 (nat p))" and ?b = "int (floorlog 2 (nat q))"
  have "x < 2 powi ?a / 2 powi (?b - 1)"
    unfolding x using floorlog2_bounds [OF p] floorlog2_bounds [OF q] p q
    by (intro frac_less) simp_all
  then have hi: "x < 2 powi (?a - ?b + 1)"
    by (simp add: power_int_diff power_int_add field_simps)
  have "2 powi (?a - 1) / 2 powi ?b \<le> x"
    unfolding x using floorlog2_bounds [OF p] floorlog2_bounds [OF q] p q
    by (intro frac_le) simp_all
  then have lo: "2 powi (?a - ?b - 1) \<le> x"
    by (simp add: power_int_diff power_int_add field_simps)
  show ?thesis using lo hi by (simp add: bin_exp_def pq Let_def add.commute)
qed

lemma bin_exp_mono:
  assumes "0 < x" and "x \<le> y"
  shows "bin_exp x \<le> bin_exp y"
proof (rule ccontr)
  assume "\<not> ?thesis"
  then have "(2 :: rat) powi (bin_exp y + 1) \<le> 2 powi bin_exp x"
    by (intro power_int_increasing) simp_all
  with bin_exp_bounds [of x] bin_exp_bounds [of y] assms show False by simp
qed

lemma fl_pos_bounds:
  assumes "0 < x"
  shows "2 powi bin_exp x \<le> fl_pos x \<and> fl_pos x \<le> 2 powi (bin_exp x + 1)"
proof -
  let ?u = "2 powi (bin_exp x - 52) :: rat"
  have u: "0 < ?u" by simp
  have e: "of_int (2 ^ 52) * ?u = 2 powi bin_exp x" "of_int (2 ^ 53) * ?u = 2 powi (bin_exp x + 1)"
    by (simp_all add: power_int_diff power_int_add)
  from bin_exp_bounds [OF assms] u have "of_int (2 ^ 52) \<le> x / ?u" "x / ?u \<le> of_int (2 ^ 53)"
    unfolding e [symmetric] by (simp_all add: field_simps)
  then have "2 ^ 52 \<le> py_round (x / ?u)" "py_round (x / ?u) \<le> 2 ^ 53"
    using py_round_mono py_round_of_int by metis+
  then have "of_int (2 ^ 52) * ?u \<le> fl_pos x" "fl_pos x \<le> of_int (2 ^ 53) * ?u"
    unfolding fl_pos_def Let_def using u by (simp_all only: mult_le_cancel_right_pos of_int_le_iff)
  then show ?thesis by (simp only: e)
qed

lemma fl_pos_mono:
  assumes "0 < x" and "x \<le> y"
  shows "fl_pos x \<le> fl_pos y"
proof (cases "bin_exp x = bin_exp y")
  case True
  from assms(2) have "x / 2 powi (bin_exp y - 52) \<le> y / 2 powi (bin_exp y - 52)"
    by (simp add: divide_right_mono)
  then show ?thesis
    unfolding fl_pos_def Let_def True by (simp add: mult_right_mono py_round_mono)
next
  case False
  with bin_exp_mono [OF assms] have "(2 :: rat) powi (bin_exp x + 1) \<le> 2 powi bin_exp y"
    by (intro power_int_increasing) simp_all
  with fl_pos_bounds [of x] fl_pos_bounds [of y] assms show ?thesis by simp
qed

lemma fl_pos_nonneg: "0 < x \<Longrightarrow> 0 < fl_pos x"
  using fl_pos_bounds [of x] zero_less_power_int [of "2 :: rat" "bin_exp x"] by linarith

lemma fl_zero [simp]: "fl 0 = 0"
  by (simp add: fl_def)

lemma fl_minus: "fl (- x) = - fl x"
  by (simp add: fl_def)

lemma fl_mono:
  assumes "x \<le> y"
  shows "fl x \<le> fl y"
  using assms fl_pos_mono [of x y] fl_pos_mono [of "- y" "- x"] fl_pos_nonneg [of "- x"] fl_pos_nonneg [of y]
  by (auto simp: fl_def)

lemma fl_nonneg: "0 \<le> x \<Longrightarrow> 0 \<le> fl x"
  using fl_mono [of 0 x] by simp

text \<open>Integers below \<open>2 ^ 53\<close> are doubles.\<close>

lemma fl_of_nat:
  assumes "n < 2 ^ 53"
  shows "fl (of_nat n) = of_nat n"
proof (cases "n = 0")
  case False
  let ?x = "of_nat n :: rat"
  have x: "0 < ?x" using False by simp
  have "(2 :: rat) powi bin_exp ?x \<le> of_nat n" using bin_exp_bounds [OF x] by simp
  also have "\<dots> < of_nat (2 ^ 53)" using assms by (simp only: of_nat_less_iff)
  finally have "(2 :: rat) powi bin_exp ?x < 2 powi 53" by simp
  then have "bin_exp ?x < 53"
    using power_int_increasing [of 53 "bin_exp ?x" "2 :: rat"] by linarith
  define k where "k = nat (52 - bin_exp ?x)"
  with \<open>bin_exp ?x < 53\<close> have k: "bin_exp ?x - 52 = - int k" by simp
  have "?x / 2 powi (bin_exp ?x - 52) = of_int (int n * 2 ^ k)"
    unfolding k by (simp add: power_int_minus field_simps)
  then have "fl_pos ?x = of_int (int n * 2 ^ k) * 2 powi (- int k)"
    by (simp only: fl_pos_def Let_def py_round_of_int k)
  also have "\<dots> = ?x" by (simp add: power_int_minus)
  finally show ?thesis using x by (simp add: fl_def)
qed simp

section \<open>Rounded ratios of counts\<close>

lemma ratio_le:
  assumes "w \<le> n * d"
  shows "(of_nat w / of_nat d :: rat) \<le> of_nat n"
proof (cases "d = 0")
  case False
  then have pos: "(0 :: rat) < of_nat d" by simp
  from assms have "(of_nat w :: rat) \<le> of_nat (n * d)" by (simp only: of_nat_le_iff)
  then show ?thesis unfolding pos_divide_le_eq [OF pos] by (simp only: of_nat_mult)
qed simp

lemma ratio_ge:
  assumes "0 < d" and "n * d \<le> w"
  shows "of_nat n \<le> (of_nat w / of_nat d :: rat)"
proof -
  from assms(1) have pos: "(0 :: rat) < of_nat d" by simp
  from assms(2) have "(of_nat (n * d) :: rat) \<le> of_nat w" by (simp only: of_nat_le_iff)
  then show ?thesis unfolding pos_le_divide_eq [OF pos] by (simp only: of_nat_mult)
qed

lemma py_round_fl_le:
  assumes "x \<le> of_nat n" and "n < 2 ^ 53"
  shows "py_round (fl x) \<le> int n"
proof -
  have "py_round (fl x) \<le> py_round (of_nat n)"
    using fl_mono [OF assms(1)] fl_of_nat [OF assms(2)] by (intro py_round_mono) simp
  then show ?thesis using py_round_of_int [of "int n"] by simp
qed

lemma py_round_fl_ge:
  assumes "of_nat n \<le> x" and "n < 2 ^ 53"
  shows "int n \<le> py_round (fl x)"
proof -
  have "py_round (of_nat n) \<le> py_round (fl x)"
    using fl_mono [OF assms(1)] fl_of_nat [OF assms(2)] by (intro py_round_mono) simp
  then show ?thesis using py_round_of_int [of "int n"] by simp
qed

end
