(* ===== verification/Core_Types.thy ===== *)
theory Core_Types
  imports Prelude
begin

text \<open>
  \<^verbatim>\<open>core/types.py\<close> and the row types of \<^verbatim>\<open>store/schema.py\<close> that the pure layers read:
  the enumerations with their string values, JSON values (the \<^verbatim>\<open>evidence\<close> and
  \<^verbatim>\<open>remediation\<close> dictionaries), \<^verbatim>\<open>Finding\<close> and \<^verbatim>\<open>FindingRow\<close>.
  Points in time are integers (microseconds); a calendar date is its ISO text.
\<close>

section \<open>JSON values\<close>

text \<open>A float is carried as its \<^verbatim>\<open>repr\<close> text: only its truth value and text are ever read.\<close>

datatype json =
    JNull
  | JBool bool
  | JInt int
  | JFloat string
  | JStr string
  | JList "json list"
  | JObj "(string \<times> json) list"

type_synonym pydict = "json dict"

text \<open>Python's truth value of a JSON value.\<close>

fun truthy :: "json \<Rightarrow> bool" where
  "truthy JNull = False"
| "truthy (JBool b) = b"
| "truthy (JInt i) = (i \<noteq> 0)"
| "truthy (JFloat r) = (r \<notin> {''0.0'', ''-0.0''})"
| "truthy (JStr s) = (s \<noteq> [])"
| "truthy (JList xs) = (xs \<noteq> [])"
| "truthy (JObj d) = (d \<noteq> [])"

text \<open>\<^verbatim>\<open>d.get(k)\<close> read as a truth value: absent keys and falsy values coincide.\<close>

definition get_truthy :: "pydict \<Rightarrow> string \<Rightarrow> json option" where
  "get_truthy d k = (case dict_get d k of Some v \<Rightarrow> if truthy v then Some v else None | None \<Rightarrow> None)"

text \<open>
  \<^verbatim>\<open>repr\<close> of a string: single quotes, unless the text has a single and no double quote;
  backslash, the quote and the control characters are escaped.
\<close>

definition hex_digit :: "nat \<Rightarrow> char" where
  "hex_digit d = (if d < 10 then char_of (48 + d) else char_of (87 + d))"

definition repr_char :: "char \<Rightarrow> char \<Rightarrow> string" where
  "repr_char q c =
     (if c = q \<or> c = CHR 0x5C then [CHR 0x5C, c]
      else if c = CHR 0x09 then [CHR 0x5C, CHR ''t'']
      else if c = CHR 0x0A then [CHR 0x5C, CHR ''n'']
      else if c = CHR 0x0D then [CHR 0x5C, CHR ''r'']
      else if char_code c < 32 \<or> char_code c = 127
        then [CHR 0x5C, CHR ''x'', hex_digit (char_code c div 16), hex_digit (char_code c mod 16)]
      else [c])"

definition py_repr_str :: "string \<Rightarrow> string" where
  "py_repr_str s =
     (let q = (if CHR 0x27 \<in> set s \<and> CHR 0x22 \<notin> set s then CHR 0x22 else CHR 0x27)
      in q # concat (map (repr_char q) s) @ [q])"

fun py_repr :: "json \<Rightarrow> string" where
  "py_repr JNull = ''None''"
| "py_repr (JBool b) = (if b then ''True'' else ''False'')"
| "py_repr (JInt i) = show_int i"
| "py_repr (JFloat r) = r"
| "py_repr (JStr s) = py_repr_str s"
| "py_repr (JList xs) = ''['' @ join_with '', '' (map py_repr xs) @ '']''"
| "py_repr (JObj d) =
     ''{'' @ join_with '', '' (map (\<lambda>(k, v). py_repr_str k @ '': '' @ py_repr v) d) @ ''}''"

text \<open>\<^verbatim>\<open>str(v)\<close>: \<^verbatim>\<open>repr\<close> except on strings.\<close>

fun py_str :: "json \<Rightarrow> string" where
  "py_str (JStr s) = s"
| "py_str v = py_repr v"

lemma get_truthy_SomeD: "get_truthy d k = Some v \<Longrightarrow> dict_get d k = Some v \<and> truthy v"
  by (auto simp: get_truthy_def split: option.splits if_splits)

section \<open>Enumerations\<close>

datatype capability = ROOT | NET_RAW | DAC_READ_SEARCH | KUBECTL | CONTAINER_RT

fun capability_value :: "capability \<Rightarrow> string" where
  "capability_value ROOT = ''root''"
| "capability_value NET_RAW = ''net_raw''"
| "capability_value DAC_READ_SEARCH = ''dac_read_search''"
| "capability_value KUBECTL = ''kubectl''"
| "capability_value CONTAINER_RT = ''container_rt''"

datatype probe_family =
  HOST | SBOM | NETWORK | FILESYSTEM | CODE | VPN | STORAGE | CONTAINER | APP | SIGN
  | DNS_EMAIL | PQC_META | AUX | OT

fun probe_family_value :: "probe_family \<Rightarrow> string" where
  "probe_family_value HOST = ''host''"
| "probe_family_value SBOM = ''sbom''"
| "probe_family_value NETWORK = ''network''"
| "probe_family_value FILESYSTEM = ''filesystem''"
| "probe_family_value CODE = ''code''"
| "probe_family_value VPN = ''vpn''"
| "probe_family_value STORAGE = ''storage''"
| "probe_family_value CONTAINER = ''container''"
| "probe_family_value APP = ''app''"
| "probe_family_value SIGN = ''sign''"
| "probe_family_value DNS_EMAIL = ''dns_email''"
| "probe_family_value PQC_META = ''pqc_meta''"
| "probe_family_value AUX = ''aux''"
| "probe_family_value OT = ''ot''"

text \<open>\<^verbatim>\<open>Classification.INFO\<close> and \<^verbatim>\<open>.ERROR\<close> are \<open>CLS_INFO\<close> and \<open>CLS_ERROR\<close> here:
  \<^verbatim>\<open>Severity\<close> has an \<^verbatim>\<open>INFO\<close> of its own.\<close>

datatype classification =
  SANGAT_TINGGI | TINGGI | SEDERHANA | RENDAH | PQC_READY | CLS_INFO | CLS_ERROR

fun classification_value :: "classification \<Rightarrow> string" where
  "classification_value SANGAT_TINGGI = ''sangat-tinggi''"
| "classification_value TINGGI = ''tinggi''"
| "classification_value SEDERHANA = ''sederhana''"
| "classification_value RENDAH = ''rendah''"
| "classification_value PQC_READY = ''pqc-ready''"
| "classification_value CLS_INFO = ''info''"
| "classification_value CLS_ERROR = ''error''"

datatype severity = CRIT | HIGH | MED | LOW | SEV_INFO

fun severity_value :: "severity \<Rightarrow> string" where
  "severity_value CRIT = ''crit''"
| "severity_value HIGH = ''high''"
| "severity_value MED = ''med''"
| "severity_value LOW = ''low''"
| "severity_value SEV_INFO = ''info''"

fun severity_numeric :: "severity \<Rightarrow> nat" where
  "severity_numeric SEV_INFO = 0"
| "severity_numeric LOW = 1"
| "severity_numeric MED = 2"
| "severity_numeric HIGH = 3"
| "severity_numeric CRIT = 4"

text \<open>The severities are ordered by their numeric rank, the order a CI gate compares them in.\<close>

instantiation severity :: linorder
begin

definition less_eq_severity :: "severity \<Rightarrow> severity \<Rightarrow> bool" where
  "less_eq_severity a b \<longleftrightarrow> severity_numeric a \<le> severity_numeric b"

definition less_severity :: "severity \<Rightarrow> severity \<Rightarrow> bool" where
  "less_severity a b \<longleftrightarrow> severity_numeric a < severity_numeric b"

instance
proof
  fix a b :: severity
  show "a \<le> b \<Longrightarrow> b \<le> a \<Longrightarrow> a = b"
    by (cases a; cases b) (simp_all add: less_eq_severity_def)
qed (auto simp: less_eq_severity_def less_severity_def)

end

lemma classification_value_inject: "classification_value a = classification_value b \<longleftrightarrow> a = b"
  by (cases a; cases b) simp_all

lemma severity_value_inject: "severity_value a = severity_value b \<longleftrightarrow> a = b"
  by (cases a; cases b) simp_all

section \<open>Findings and finding rows\<close>

record finding =
  probe_id :: string
  algorithm :: string
  classification :: classification
  severity :: severity
  title :: string
  component_purl :: "string option"
  evidence :: pydict
  remediation :: pydict
  confidence :: string
  created_at :: int

text \<open>A stored finding: the enumerations are their string values, any text for an ingested one.\<close>

record finding_row =
  fr_id :: nat
  fr_scan_id :: nat
  fr_component_id :: "nat option"
  fr_probe_id :: string
  fr_algorithm :: string
  fr_classification :: string
  fr_severity :: string
  fr_title :: string
  fr_evidence :: pydict
  fr_remediation :: pydict
  fr_created_at :: int

end
