(* ===== verification/Finding_Parity.thy ===== *)
theory Finding_Parity
  imports Core_Types
begin

text \<open>
  \<^verbatim>\<open>core/parity.py\<close>: the host-agnostic identity of a finding and the drift rows between two
  scans of a host. The regular expressions are recognisers on tokens; \<^verbatim>\<open>re.sub\<close> of the host
  name is a left-to-right scan that keeps the previous character for the look-behind.
\<close>

definition DRIFT_PROBE :: string where
  "DRIFT_PROBE = ''fleet.drift''"

definition MAX_TITLE_NORMALISE :: nat where
  "MAX_TITLE_NORMALISE = 512"

definition MAX_DRIFT_ROWS :: nat where
  "MAX_DRIFT_ROWS = 500"

definition MAX_DRIFT_NORMALISE :: nat where
  "MAX_DRIFT_NORMALISE = 50000"

text \<open>What parity reads of a row: \<^verbatim>\<open>FindingRow\<close> and the \<^verbatim>\<open>SimpleNamespace\<close> of an ingested
  finding both have these four attributes.\<close>

record row_view =
  rv_probe_id :: string
  rv_algorithm :: string
  rv_title :: string
  rv_evidence :: pydict

definition view_of_row :: "finding_row \<Rightarrow> row_view" where
  "view_of_row r =
     \<lparr>rv_probe_id = fr_probe_id r, rv_algorithm = fr_algorithm r, rv_title = fr_title r,
      rv_evidence = fr_evidence r\<rparr>"

definition is_drift :: "string \<Rightarrow> bool" where
  "is_drift pid \<longleftrightarrow> pid = DRIFT_PROBE"

section \<open>Token recognisers\<close>

definition is_alnum :: "char \<Rightarrow> bool" where
  "is_alnum c \<longleftrightarrow> is_digit c \<or> is_upper c \<or> is_lower c"

definition is_word :: "char \<Rightarrow> bool" where
  "is_word c \<longleftrightarrow> is_alnum c \<or> c = CHR ''_''"

definition is_hex :: "char \<Rightarrow> bool" where
  "is_hex c \<longleftrightarrow> is_digit c \<or> c \<in> set ''abcdefABCDEF''"

definition H16 :: "string \<Rightarrow> bool" where
  "H16 s \<longleftrightarrow> 1 \<le> length s \<and> length s \<le> 4 \<and> list_all is_hex s"

text \<open>Eight groups, or up to six groups each followed by a colon, one more colon, and up to six
  groups: read off the pieces between the colons.\<close>

definition IPV6 :: "string \<Rightarrow> bool" where
  "IPV6 s =
     (let parts = split_on CHR '':'' s;
          pre = takeWhile (\<lambda>p. p \<noteq> []) parts;
          rest = drop (length pre) parts
      in length parts = 8 \<and> list_all H16 parts \<or>
         length pre \<le> 6 \<and> list_all H16 pre \<and>
         (case rest of
            [] \<Rightarrow> False
          | _ # post \<Rightarrow> post = [[]] \<or> 1 \<le> length post \<and> length post \<le> 6 \<and> list_all H16 post))"

definition IPV4 :: "string \<Rightarrow> bool" where
  "IPV4 s =
     (let parts = split_on CHR ''.'' s
      in length parts = 4 \<and>
         list_all (\<lambda>p. 1 \<le> length p \<and> length p \<le> 3 \<and> list_all is_digit p) parts)"

definition before_last :: "char \<Rightarrow> string \<Rightarrow> string" where
  "before_last c s = rev (tl (dropWhile (\<lambda>x. x \<noteq> c) (rev s)))"

text \<open>\<^verbatim>\<open>_HOSTPORT.fullmatch\<close>: the port group. The port has no colon, so it follows the last one.\<close>

definition bracketed_v6 :: "string \<Rightarrow> bool" where
  "bracketed_v6 h \<longleftrightarrow>
     length h \<ge> 3 \<and> hd h = CHR ''['' \<and> last h = CHR '']'' \<and>
     list_all (\<lambda>c. is_hex c \<or> c = CHR '':'') (butlast (tl h))"

definition host_name :: "string \<Rightarrow> bool" where
  "host_name h \<longleftrightarrow>
     h \<noteq> [] \<and> is_alnum (hd h) \<and> list_all (\<lambda>c. is_alnum c \<or> c \<in> set ''._-'') (tl h)"

definition HOSTPORT :: "string \<Rightarrow> string option" where
  "HOSTPORT s =
     (if CHR '':'' \<in> set s
      then (let port = after_last CHR '':'' s; h = before_last CHR '':'' s
            in if 1 \<le> length port \<and> length port \<le> 5 \<and> list_all is_digit port \<and>
                  (bracketed_v6 h \<or> IPV4 h \<or> host_name h)
               then Some port else None)
      else None)"

definition LITERAL :: "string \<Rightarrow> bool" where
  "LITERAL s \<longleftrightarrow> IPV4 s \<or> IPV6 s"

text \<open>\<^verbatim>\<open>_NAME.match\<close>: what follows the matched name.\<close>

definition NAME_rest :: "string \<Rightarrow> string option" where
  "NAME_rest s =
     (case s of
        [] \<Rightarrow> None
      | c # t \<Rightarrow> if is_alnum c then Some (dropWhile (\<lambda>x. is_word x \<or> x \<in> set ''.-'') t) else None)"

section \<open>Normalised titles\<close>

definition is_open :: "char \<Rightarrow> bool" where
  "is_open c \<longleftrightarrow> c \<in> {CHR ''('', CHR 0x22, CHR 0x27}"

definition is_close :: "char \<Rightarrow> bool" where
  "is_close c \<longleftrightarrow> c \<in> {CHR '','', CHR '';'', CHR ''.'', CHR '')'', CHR 0x22, CHR 0x27}"

definition norm_token :: "string \<Rightarrow> bool \<Rightarrow> string" where
  "norm_token tok after_at =
     (let stripped = lstrip_set is_open tok;
          lead = take (length tok - length stripped) tok;
          core = rstrip_set is_close stripped;
          tail = drop (length core) stripped;
          core' = (case HOSTPORT core of
                     Some port \<Rightarrow> ''<host>:'' @ port
                   | None \<Rightarrow>
                       if LITERAL core then ''<host>''
                       else (case (if after_at then NAME_rest core else None) of
                               Some rest \<Rightarrow> ''<host>'' @ rest
                             | None \<Rightarrow> core))
      in lead @ core' @ tail)"

definition not_before :: "char option \<Rightarrow> bool" where
  "not_before prev = (case prev of None \<Rightarrow> True | Some c \<Rightarrow> \<not> (is_word c \<or> c \<in> set ''.-''))"

definition not_after :: "string \<Rightarrow> bool" where
  "not_after s = (case s of [] \<Rightarrow> True | c # _ \<Rightarrow> \<not> (is_word c \<or> c = CHR ''-''))"

definition host_at :: "string \<Rightarrow> char option \<Rightarrow> string \<Rightarrow> bool" where
  "host_at h prev s \<longleftrightarrow>
     h \<noteq> [] \<and> not_before prev \<and> length h \<le> length s \<and>
     py_lower (take (length h) s) = py_lower h \<and> not_after (drop (length h) s)"

function sub_host :: "string \<Rightarrow> char option \<Rightarrow> string \<Rightarrow> string" where
  "sub_host h prev [] = []"
| "sub_host h prev (c # s) =
     (if host_at h prev (c # s)
      then ''<host>'' @ sub_host h (Some (last (take (length h) (c # s)))) (drop (length h) (c # s))
      else c # sub_host h (Some c) s)"
  by pat_completeness auto
termination
  by (relation "measure (\<lambda>(h, prev, s). length s)") (auto simp: host_at_def)

fun norm_tokens :: "string \<Rightarrow> string list \<Rightarrow> string list" where
  "norm_tokens prev [] = []"
| "norm_tokens prev (t # ts) = (let t' = norm_token t (prev = ''at'') in t' # norm_tokens t' ts)"

definition norm_title :: "string \<Rightarrow> string \<Rightarrow> string" where
  "norm_title ttl host =
     (let t = take MAX_TITLE_NORMALISE ttl;
          t' = (if host \<noteq> [] then sub_host (take 253 host) None t else t)
      in join_with '' '' (norm_tokens [] (split_ws t')))"

section \<open>Parity keys and drift\<close>

type_synonym parity_key = "string \<times> string \<times> string"

definition str_or_empty :: "pydict \<Rightarrow> string \<Rightarrow> string" where
  "str_or_empty ev k = (case get_truthy ev k of Some v \<Rightarrow> py_str v | None \<Rightarrow> [])"

definition parity_key :: "string \<Rightarrow> string \<Rightarrow> string \<Rightarrow> pydict \<Rightarrow> parity_key" where
  "parity_key pid alg ttl ev =
     (case get_truthy ev ''path'' of
        Some v \<Rightarrow> (pid, alg, ''path='' @ take MAX_TITLE_NORMALISE (py_str v))
      | None \<Rightarrow>
          (let norm = norm_title ttl (str_or_empty ev ''host'');
               port = after_last CHR '':'' (take MAX_TITLE_NORMALISE (str_or_empty ev ''endpoint''))
           in if all_digits port \<and> length port \<le> 5 \<and> \<not> contains norm (CHR '':'' # port)
              then (pid, alg, norm @ '' [:'' @ port @ '']'')
              else (pid, alg, norm)))"

definition row_key :: "row_view \<Rightarrow> parity_key" where
  "row_key r = parity_key (rv_probe_id r) (rv_algorithm r) (rv_title r) (rv_evidence r)"

definition raw_key :: "row_view \<Rightarrow> parity_key" where
  "raw_key r = (rv_probe_id r, rv_algorithm r, rv_title r)"

text \<open>\<^verbatim>\<open>{key(r): r for r in rows}\<close>: the last row of a key wins, at the key's first position.\<close>

definition key_map :: "(row_view \<Rightarrow> parity_key) \<Rightarrow> row_view list \<Rightarrow> (parity_key \<times> row_view) list" where
  "key_map key rows = foldl (\<lambda>m r. AList.update (key r) r m) [] rows"

definition drift_summary :: "int \<Rightarrow> nat \<Rightarrow> nat \<Rightarrow> finding" where
  "drift_summary now added removed =
     \<lparr>probe_id = DRIFT_PROBE, algorithm = ''N/A'', classification = CLS_INFO, severity = SEV_INFO,
      title = ''drift: '' @ show_nat added @ '' added, '' @ show_nat removed @ '' removed (truncated)'',
      component_purl = None,
      evidence = [(''change'', JStr ''summary''), (''added'', JInt (int added)),
                  (''removed'', JInt (int removed)), (''truncated'', JBool True)],
      remediation = [], confidence = ''high'', created_at = now\<rparr>"

definition drift_finding :: "int \<Rightarrow> string \<Rightarrow> row_view \<Rightarrow> finding" where
  "drift_finding now change r =
     \<lparr>probe_id = DRIFT_PROBE, algorithm = ''N/A'', classification = CLS_INFO, severity = SEV_INFO,
      title = ''drift: '' @ change @ '' '' @ rv_probe_id r @ '' '' @ rv_algorithm r,
      component_purl = None,
      evidence = [(''change'', JStr change), (''probe_id'', JStr (rv_probe_id r)),
                  (''algorithm'', JStr (rv_algorithm r)),
                  (''title'', JStr (take MAX_TITLE_NORMALISE (rv_title r)))],
      remediation = [], confidence = ''high'', created_at = now\<rparr>"

type_synonym change = "string \<times> parity_key \<times> row_view"

text \<open>The sorted list of changes between two key maps, added ones first.\<close>

definition drift_changes :: "row_view list \<Rightarrow> row_view list \<Rightarrow> change list" where
  "drift_changes prev_rows cur_rows =
     (let prev = key_map row_key prev_rows; cur = key_map row_key cur_rows
      in sort_key (\<lambda>(ch, k, r). (ch, k))
           (map (\<lambda>(k, r). (''added'', k, r)) (filter (\<lambda>(k, r). k \<notin> set (map fst prev)) cur) @
            map (\<lambda>(k, r). (''removed'', k, r)) (filter (\<lambda>(k, r). k \<notin> set (map fst cur)) prev)))"

definition drift_rows :: "int \<Rightarrow> row_view list \<Rightarrow> row_view list \<Rightarrow> finding list \<times> nat" where
  "drift_rows now previous current =
     (let prev_rows = filter (\<lambda>r. \<not> is_drift (rv_probe_id r)) previous;
          cur_rows = filter (\<lambda>r. \<not> is_drift (rv_probe_id r)) current
      in if length prev_rows + length cur_rows > MAX_DRIFT_NORMALISE
         then (let p = dedupe (map raw_key prev_rows); c = dedupe (map raw_key cur_rows);
                   added = length (filter (\<lambda>k. k \<notin> set p) c);
                   removed = length (filter (\<lambda>k. k \<notin> set c) p)
               in (if added \<noteq> 0 \<or> removed \<noteq> 0 then [drift_summary now added removed] else [],
                   added + removed))
         else (let changes = drift_changes prev_rows cur_rows;
                   rows = map (\<lambda>(ch, k, r). drift_finding now ch r) (take MAX_DRIFT_ROWS changes);
                   added = length (filter (\<lambda>(ch, k, r). ch = ''added'') changes)
               in (if length changes > MAX_DRIFT_ROWS
                   then rows @ [drift_summary now added (length changes - added)] else rows,
                   length changes)))"

section \<open>Properties of drift\<close>

lemma keys_foldl_update:
  "set (map fst (foldl (\<lambda>m r. AList.update (key r) r m) m rows)) = set (map fst m) \<union> key ` set rows"
  by (induction rows arbitrary: m) (auto simp: dom_update)

lemma distinct_foldl_update:
  "distinct (map fst m) \<Longrightarrow> distinct (map fst (foldl (\<lambda>m r. AList.update (key r) r m) m rows))"
  by (induction rows arbitrary: m) (auto simp: distinct_update)

lemma key_map_keys [simp]: "fst ` set (key_map key rows) = key ` set rows"
  using keys_foldl_update [of key "[]" rows] by (simp add: key_map_def)

lemma key_map_distinct [simp]: "distinct (map fst (key_map key rows))"
  by (simp add: key_map_def distinct_foldl_update)

lemma length_filter_keys:
  assumes "distinct (map fst m)"
  shows "length (filter (\<lambda>(k, r). k \<notin> A) m) = card (fst ` set m - A)"
proof -
  have "length (filter (\<lambda>(k, r). k \<notin> A) m) = length (filter (\<lambda>k. k \<notin> A) (map fst m))"
    by (simp add: filter_map comp_def case_prod_unfold)
  also have "\<dots> = card (set (filter (\<lambda>k. k \<notin> A) (map fst m)))"
    using assms by (simp only: distinct_card distinct_filter)
  also have "set (filter (\<lambda>k. k \<notin> A) (map fst m)) = fst ` set m - A" by auto
  finally show ?thesis .
qed

lemma length_drift_changes:
  "length (drift_changes prev_rows cur_rows) =
     card (row_key ` set cur_rows - row_key ` set prev_rows) +
     card (row_key ` set prev_rows - row_key ` set cur_rows)"
  by (simp add: drift_changes_def Let_def length_filter_keys)

text \<open>The identities drift is counted over: parity keys, or raw triples above the cap.\<close>

definition drift_ids :: "row_view list \<Rightarrow> row_view list \<Rightarrow> row_view list \<Rightarrow> parity_key set" where
  "drift_ids previous current rows =
     (let big = length (filter (\<lambda>r. \<not> is_drift (rv_probe_id r)) previous) +
                length (filter (\<lambda>r. \<not> is_drift (rv_probe_id r)) current) > MAX_DRIFT_NORMALISE
      in (if big then raw_key else row_key) ` {r \<in> set rows. \<not> is_drift (rv_probe_id r)})"

lemma length_filter_dedupe:
  "length (filter (\<lambda>k. k \<notin> A) (dedupe xs)) = card (set xs - A)"
proof -
  have "length (filter (\<lambda>k. k \<notin> A) (dedupe xs)) = card (set (filter (\<lambda>k. k \<notin> A) (dedupe xs)))"
    by (simp only: distinct_card distinct_filter distinct_dedupe)
  also have "set (filter (\<lambda>k. k \<notin> A) (dedupe xs)) = set xs - A" by auto
  finally show ?thesis .
qed

text \<open>The change count \<^verbatim>\<open>drift_rows\<close> reports is exact in both regimes: it is the size of the
  symmetric difference of the two scans' finding identities, whatever duplicates and earlier
  drift markers the inputs hold and however many rows the cap drops.\<close>

theorem drift_count_exact:
  "snd (drift_rows now previous current) =
     card (drift_ids previous current current - drift_ids previous current previous) +
     card (drift_ids previous current previous - drift_ids previous current current)"
  by (simp add: drift_rows_def Let_def drift_ids_def length_drift_changes length_filter_dedupe)

lemma drift_summary_shape:
  "probe_id (drift_summary now a r) = DRIFT_PROBE" "classification (drift_summary now a r) = CLS_INFO"
  "severity (drift_summary now a r) = SEV_INFO" "algorithm (drift_summary now a r) = ''N/A''"
  by (simp_all add: drift_summary_def)

lemma drift_finding_shape:
  "probe_id (drift_finding now ch r) = DRIFT_PROBE" "classification (drift_finding now ch r) = CLS_INFO"
  "severity (drift_finding now ch r) = SEV_INFO" "algorithm (drift_finding now ch r) = ''N/A''"
  by (simp_all add: drift_finding_def)

text \<open>What is stored for a drift stays small and inert: at most 500 change rows and one
  summary row, every row an INFO \<^verbatim>\<open>fleet.drift\<close> marker with algorithm N/A, and there is a row
  exactly when something changed, so the cap never hides that a host drifted.\<close>

theorem drift_rows_bounded_and_inert:
  "length (fst (drift_rows now previous current)) \<le> 501 \<and>
   (fst (drift_rows now previous current) = [] \<longleftrightarrow> snd (drift_rows now previous current) = 0) \<and>
   list_all (\<lambda>f. probe_id f = DRIFT_PROBE \<and> classification f = CLS_INFO \<and> severity f = SEV_INFO \<and>
      algorithm f = ''N/A'') (fst (drift_rows now previous current))"
  by (auto simp: drift_rows_def Let_def MAX_DRIFT_ROWS_def list_all_iff drift_summary_shape
      drift_finding_shape)

section \<open>Properties of parity keys\<close>

lemma split_ws_aux_word:
  "list_all (\<lambda>c. \<not> is_space c) w \<Longrightarrow> split_ws_aux acc (w @ s) = split_ws_aux (rev w @ acc) s"
  by (induction w arbitrary: acc) auto

definition word_token :: "string \<Rightarrow> bool" where
  "word_token w \<longleftrightarrow> w \<noteq> [] \<and> list_all (\<lambda>c. \<not> is_space c) w"

lemma is_space_blank [simp]: "is_space CHR '' ''"
  by (simp add: is_space_Char)

lemma split_ws_join: "list_all word_token ws \<Longrightarrow> split_ws (join_with '' '' ws) = ws"
proof (induction ws)
  case (Cons s ws)
  then show ?case
    using split_ws_aux_word [of s "[]" "[]"]
      split_ws_aux_word [of s "[]" "'' '' @ join_with '' '' ws"]
    by (cases ws) (simp_all add: split_ws_def word_token_def)
qed (simp add: split_ws_def)

lemma norm_tokens_replace:
  assumes "\<And>b. norm_token t b = norm_token t' b"
  shows "norm_tokens p (ws @ t # ws') = norm_tokens p (ws @ t' # ws')"
  by (induction ws arbitrary: p) (simp_all add: assms)

lemma takeWhile_rev_digits: "c \<notin> set p \<Longrightarrow> takeWhile (\<lambda>x. x \<noteq> c) (rev p @ c # s) = rev p"
  by (subst takeWhile_append2) auto

lemma dropWhile_rev_digits: "c \<notin> set p \<Longrightarrow> dropWhile (\<lambda>x. x \<noteq> c) (rev p @ c # s) = c # s"
  by (subst dropWhile_append2) auto

lemma digits_no_colon: "list_all is_digit p \<Longrightarrow> CHR '':'' \<notin> set p"
  by (auto simp: list_all_iff is_digit_Char)

text \<open>A port as the token grammar takes it: one to five digits.\<close>

definition port_text :: "string \<Rightarrow> bool" where
  "port_text p \<longleftrightarrow> 1 \<le> length p \<and> length p \<le> 5 \<and> list_all is_digit p"

lemma HOSTPORT_host_name:
  "host_name h \<Longrightarrow> port_text p \<Longrightarrow> HOSTPORT (h @ CHR '':'' # p) = Some p"
  by (simp add: HOSTPORT_def after_last_def before_last_def takeWhile_rev_digits
      dropWhile_rev_digits digits_no_colon port_text_def Let_def)

lemma not_open_alnum: "is_alnum c \<Longrightarrow> \<not> is_open c"
  by (auto simp: is_open_def is_alnum_def is_digit_Char is_upper_Char is_lower_Char)

lemma not_close_digit: "is_digit c \<Longrightarrow> \<not> is_close c"
  by (auto simp: is_close_def is_digit_Char)

lemma norm_token_hostport:
  assumes "host_name h" and "port_text p"
  shows "norm_token (h @ CHR '':'' # p) b = ''<host>:'' @ p"
proof -
  let ?t = "h @ CHR '':'' # p"
  have "lstrip_set is_open ?t = ?t"
    using assms(1) by (cases h) (simp_all add: lstrip_set_def host_name_def not_open_alnum)
  moreover have "\<not> is_close (last ?t)"
    using assms(2) by (cases p rule: rev_cases) (simp_all add: port_text_def not_close_digit)
  then have "rstrip_set is_close ?t = ?t"
    by (rule rstrip_set_id [rotated]) simp
  ultimately show ?thesis
    by (simp add: norm_token_def HOSTPORT_host_name [OF assms])
qed

lemma norm_title_hostport:
  assumes "list_all word_token (ws @ (h @ CHR '':'' # p) # ws')" and "host_name h" and "port_text p"
    and "length (join_with '' '' (ws @ (h @ CHR '':'' # p) # ws')) \<le> MAX_TITLE_NORMALISE"
  shows "norm_title (join_with '' '' (ws @ (h @ CHR '':'' # p) # ws')) [] =
     join_with '' '' (norm_tokens [] (ws @ (''web:'' @ p) # ws'))"
proof -
  have "host_name ''web''" by (simp add: host_name_def is_alnum_def is_lower_Char)
  then have "norm_tokens [] (ws @ (h @ CHR '':'' # p) # ws') = norm_tokens [] (ws @ (''web:'' @ p) # ws')"
    using norm_token_hostport [OF assms(2,3)] norm_token_hostport [OF _ assms(3), of "''web''"]
    by (intro norm_tokens_replace) simp
  then show ?thesis
    using assms(1,4) by (simp add: norm_title_def split_ws_join)
qed

text \<open>A finding keeps its identity when its host is renamed: two titles that differ only in
  the host name of a \<^verbatim>\<open>host:port\<close> token have the same parity key, so a primary and its
  disaster-recovery peer compare equal.\<close>

theorem parity_key_host_agnostic:
  assumes "list_all word_token (ws @ (h1 @ CHR '':'' # p) # ws')"
    and "list_all word_token (ws @ (h2 @ CHR '':'' # p) # ws')"
    and "host_name h1" and "host_name h2" and "port_text p"
    and "length (join_with '' '' (ws @ (h1 @ CHR '':'' # p) # ws')) \<le> MAX_TITLE_NORMALISE"
    and "length (join_with '' '' (ws @ (h2 @ CHR '':'' # p) # ws')) \<le> MAX_TITLE_NORMALISE"
    and "get_truthy ev ''host'' = None"
  shows "parity_key pid alg (join_with '' '' (ws @ (h1 @ CHR '':'' # p) # ws')) ev =
         parity_key pid alg (join_with '' '' (ws @ (h2 @ CHR '':'' # p) # ws')) ev"
proof -
  have "str_or_empty ev ''host'' = []" using assms(8) by (simp add: str_or_empty_def)
  then show ?thesis
    unfolding parity_key_def
    by (simp only: norm_title_hostport [OF assms(1,3,5,6)] norm_title_hostport [OF assms(2,4,5,7)])
qed

theorem parity_key_host_agnostic_witness:
  "parity_key ''net.tls'' ''RSA'' ''TLS on db-1:443 weak'' [] =
   parity_key ''net.tls'' ''RSA'' ''TLS on 10.0.0.7:443 weak'' []"
  using parity_key_host_agnostic [of "[''TLS'', ''on'']" "''db-1''" "''443''" "[''weak'']" "''10.0.0.7''" "[]"
      "''net.tls''" "''RSA''"]
  by (simp add: word_token_def host_name_def port_text_def is_alnum_def MAX_TITLE_NORMALISE_def
      get_truthy_def py_simps)

text \<open>The IPv6 literals that start with a double colon are not recognised: the loopback
  address \<^verbatim>\<open>::1\<close> stays in a title, while \<^verbatim>\<open>fe80::1\<close> is replaced, so findings on such an
  address do not compare equal across hosts.\<close>

theorem ipv6_leading_double_colon_kept:
  "norm_title ''peer ::1 uses RSA'' [] = ''peer ::1 uses RSA'' \<and>
   norm_title ''peer fe80::1 uses RSA'' [] = ''peer <host> uses RSA'' \<and>
   parity_key ''p'' ''A'' ''peer ::1 uses RSA'' [] \<noteq> parity_key ''p'' ''A'' ''peer fe80::1 uses RSA'' []"
  by code_simp

end
