(* ===== verification/Agility.thy ===== *)
theory Agility
  imports Py_Float Finding_Parity
begin

text \<open>
  \<^verbatim>\<open>core/agility.py\<close>: how cheaply the cryptography of a quantum-vulnerable finding can be
  changed, as a first-match rule table over probe-id prefixes, and the mean over a scan.
\<close>

definition VULNERABLE :: "string list" where
  "VULNERABLE = [''sangat-tinggi'', ''tinggi'', ''sederhana'']"

text \<open>(prefixes, score, source label); the first match wins.\<close>

definition AGILITY_RULES :: "(string list \<times> nat \<times> string) list" where
  "AGILITY_RULES =
     [([''fs.conf.ibmi_sysval''], 10, ''hardware''),
      ([''hw.'', ''host.tpm'', ''ot.''], 10, ''hardware''),
      ([''storage.'', ''vpn.''], 20, ''rebuild''),
      ([''code.''], 30, ''source''),
      ([''sbom.'', ''container.''], 50, ''dependency''),
      ([''fs.cert.'', ''fs.keystore.'', ''email.'', ''dns.'', ''sign.'', ''trust.'', ''host.cloud_kms'',
        ''fs.keyref.cloud''], 70, ''rotate''),
      ([''net.''], 80, ''server-config''),
      ([''host.crypto_policies'', ''host.java.security'', ''host.openssl.'', ''fs.conf.'', ''app.'',
        ''host.ssh.'', ''host.gnutls'', ''host.nss'', ''host.windows.schannel'', ''k8s.'', ''fs.iac.''],
       90, ''config'')]"

fun first_rule :: "string \<Rightarrow> (string list \<times> nat \<times> string) list \<Rightarrow> (nat \<times> string) option" where
  "first_rule pid [] = None"
| "first_rule pid ((ps, score, src) # rs) =
     (if startswith_any pid ps then Some (score, src) else first_rule pid rs)"

definition finding_agility :: "string \<Rightarrow> pydict \<Rightarrow> nat" where
  "finding_agility pid ev =
     (if pid = ''fs.binary.crypto''
      then (if dict_get ev ''detection'' = Some (JStr ''constant-signature'')
               \<or> dict_get ev ''linked'' = Some (JStr ''embedded'') then 20 else 50)
      else (case first_rule pid AGILITY_RULES of Some (score, _) \<Rightarrow> score | None \<Rightarrow> 50))"

definition agility_source :: "string \<Rightarrow> pydict \<Rightarrow> string" where
  "agility_source pid ev =
     (if pid = ''fs.binary.crypto''
      then (if finding_agility pid ev = 20 then ''rebuild'' else ''dependency'')
      else (case first_rule pid AGILITY_RULES of Some (_, src) \<Rightarrow> src | None \<Rightarrow> ''unknown''))"

record agility_result =
  ag_score :: int
  ag_band :: string
  ag_by_source :: "nat dict"

definition agility_rows :: "finding_row list \<Rightarrow> finding_row list" where
  "agility_rows findings =
     filter (\<lambda>f. fr_classification f \<in> set VULNERABLE \<and> \<not> is_drift (fr_probe_id f)) findings"

text \<open>One iteration of the loop: the running total and the per-source counts.\<close>

definition agility_step :: "nat \<times> nat dict \<Rightarrow> finding_row \<Rightarrow> nat \<times> nat dict" where
  "agility_step acc f =
     (let (tot, by) = acc; src = agility_source (fr_probe_id f) (fr_evidence f)
      in (tot + finding_agility (fr_probe_id f) (fr_evidence f),
          dict_set src (case dict_get by src of Some n \<Rightarrow> n + 1 | None \<Rightarrow> 1) by))"

definition agility_score_findings :: "finding_row list \<Rightarrow> agility_result" where
  "agility_score_findings findings =
     (let rows = agility_rows findings
      in if rows = [] then \<lparr>ag_score = 100, ag_band = ''high'', ag_by_source = []\<rparr>
         else (let (tot, by) = foldl agility_step (0, []) rows;
                   score = py_round (fl (of_nat tot / of_nat (length rows)))
               in \<lparr>ag_score = score,
                   ag_band = (if score \<ge> 70 then ''high'' else if score \<ge> 40 then ''medium'' else ''low''),
                   ag_by_source = by\<rparr>))"

section \<open>Properties\<close>

lemma first_rule_in: "first_rule pid rs = Some (sc, src) \<Longrightarrow> \<exists>ps. (ps, sc, src) \<in> set rs"
  by (induction rs) (auto split: if_splits)

lemma AGILITY_RULES_range: "list_all (\<lambda>(ps, sc, src). 10 \<le> sc \<and> sc \<le> 90) AGILITY_RULES"
  by (simp add: AGILITY_RULES_def)

lemma finding_agility_range: "10 \<le> finding_agility pid ev \<and> finding_agility pid ev \<le> 90"
  using AGILITY_RULES_range
  by (fastforce simp: finding_agility_def list_all_iff dest: first_rule_in split: option.split prod.split)

lemma fst_foldl_agility:
  "fst (foldl agility_step (t, by) rows) =
     t + sum_list (map (\<lambda>f. finding_agility (fr_probe_id f) (fr_evidence f)) rows)"
  by (induction rows arbitrary: t "by") (simp_all add: agility_step_def Let_def)

lemma sum_list_range:
  "(\<And>x. x \<in> set xs \<Longrightarrow> a \<le> f x \<and> f x \<le> (b :: nat)) \<Longrightarrow>
   a * length xs \<le> sum_list (map f xs) \<and> sum_list (map f xs) \<le> b * length xs"
  by (induction xs) (auto simp: add_mono)

lemma sum_values_update:
  "dict_wf d \<Longrightarrow>
   sum_list (map snd (dict_set k (case dict_get d k of Some n \<Rightarrow> n + 1 | None \<Rightarrow> 1) d)) =
     Suc (sum_list (map snd d))"
proof (induction d)
  case (Cons p d)
  then show ?case by (cases p) (auto simp: dict_wf_def)
qed simp

lemma snd_foldl_agility:
  "dict_wf by \<Longrightarrow> dict_wf (snd (foldl agility_step (t, by) rows)) \<and>
   sum_list (map snd (snd (foldl agility_step (t, by) rows))) = sum_list (map snd by) + length rows"
  by (induction rows arbitrary: t "by") (simp_all add: agility_step_def Let_def sum_values_update)

text \<open>The agility score is well calibrated: with no quantum-vulnerable finding it is 100,
  otherwise the rounded mean stays between the worst (10, hardware) and the best (90,
  configuration) rule, and the per-source counts add up to the number of vulnerable findings,
  drift markers never among them.\<close>

theorem agility_score_calibrated:
  "(agility_rows fs = [] \<longrightarrow> ag_score (agility_score_findings fs) = 100) \<and>
   (agility_rows fs \<noteq> [] \<longrightarrow>
      10 \<le> ag_score (agility_score_findings fs) \<and> ag_score (agility_score_findings fs) \<le> 90) \<and>
   sum_list (map snd (ag_by_source (agility_score_findings fs))) = length (agility_rows fs) \<and>
   list_all (\<lambda>f. \<not> is_drift (fr_probe_id f)) (agility_rows fs)"
proof -
  let ?rows = "agility_rows fs" and ?p = "foldl agility_step (0, []) (agility_rows fs)"
  have rng: "10 * length ?rows \<le> fst ?p" "fst ?p \<le> 90 * length ?rows"
    using sum_list_range [of ?rows 10 "\<lambda>f. finding_agility (fr_probe_id f) (fr_evidence f)" 90]
    by (simp_all add: fst_foldl_agility finding_agility_range)
  have "int 10 \<le> py_round (fl (of_nat (fst ?p) / of_nat (length ?rows)))" if "?rows \<noteq> []"
    using that rng(1) by (intro py_round_fl_ge ratio_ge) simp_all
  moreover have "py_round (fl (of_nat (fst ?p) / of_nat (length ?rows))) \<le> int 90"
    using rng(2) by (intro py_round_fl_le ratio_le) simp_all
  moreover have "sum_list (map snd (snd ?p)) = length ?rows"
    using snd_foldl_agility [of "[]" 0 ?rows] by (simp add: dict_wf_def)
  moreover have "list_all (\<lambda>f. \<not> is_drift (fr_probe_id f)) ?rows"
    by (simp add: agility_rows_def list_all_iff)
  ultimately show ?thesis
    by (cases "?rows = []") (simp_all add: Let_def agility_score_findings_def case_prod_unfold)
qed

definition agility_sample :: "finding_row list" where
  "agility_sample =
     [\<lparr>fr_id = 1, fr_scan_id = 1, fr_component_id = None, fr_probe_id = ''net.tls.https'',
       fr_algorithm = ''RSA-2048'', fr_classification = ''tinggi'', fr_severity = ''high'',
       fr_title = ''weak'', fr_evidence = [], fr_remediation = [], fr_created_at = 0\<rparr>]"

theorem agility_score_calibrated_witness:
  "agility_rows agility_sample \<noteq> [] \<and> ag_score (agility_score_findings agility_sample) \<le> 90 \<and>
   ag_score (agility_score_findings []) = 100"
proof -
  have "agility_rows agility_sample \<noteq> []"
    by (simp add: agility_rows_def agility_sample_def VULNERABLE_def is_drift_def DRIFT_PROBE_def)
  moreover have "agility_rows [] = []" by (simp add: agility_rows_def)
  ultimately show ?thesis
    using agility_score_calibrated [of agility_sample] agility_score_calibrated [of "[]"] by simp
qed

end
