(* ===== verification/Migration_Score.thy ===== *)
theory Migration_Score
  imports Py_Float Core_Types
begin

text \<open>
  \<^verbatim>\<open>core/migration_score.py\<close>: the four-weight migration-readiness score. The score is computed
  in floating point exactly as the code does, including the rounding to one decimal.
\<close>

definition PQC_FRAGMENTS :: "string list" where
  "PQC_FRAGMENTS =
     [''ml-kem'', ''mlkem'', ''ml-dsa'', ''mldsa'', ''slh-dsa'', ''slhdsa'', ''fn-dsa'',
      ''kyber'', ''dilithium'', ''falcon'', ''sphincs'']"

definition CLASSICAL_FRAGMENTS :: "string list" where
  "CLASSICAL_FRAGMENTS =
     [''ecdsa'', ''ecdh'', ''ed25519'', ''ed448'', ''rsa'',
      ''x25519'', ''x448'', ''p-256'', ''p256'', ''p-384'', ''p384'', ''p-521'', ''p521'',
      ''secp256'', ''secp384'', ''secp521'', ''brainpool'', ''nistp'']"

definition is_hybrid :: "string \<Rightarrow> bool" where
  "is_hybrid alg =
     (let a = py_lower alg
      in contains a ''+'' \<or> contains_any a PQC_FRAGMENTS \<and> contains_any a CLASSICAL_FRAGMENTS)"

definition band_for :: "rat \<Rightarrow> string" where
  "band_for score =
     (if score \<ge> 90 then ''EXCELLENT'' else if score \<ge> 70 then ''GOOD''
      else if score \<ge> 50 then ''MODERATE'' else if score \<ge> 25 then ''POOR'' else ''CRITICAL'')"

record migration_readiness =
  mr_total :: nat
  mr_safe :: nat
  mr_hybrid :: nat
  mr_partial :: nat
  mr_vulnerable :: nat
  mr_score :: rat
  mr_band :: string

text \<open>The four counters of the loop; unknown classifications leave them alone.\<close>

record weights =
  w_safe :: nat
  w_hybrid :: nat
  w_partial :: nat
  w_vulnerable :: nat

definition weigh :: "weights \<Rightarrow> finding_row \<Rightarrow> weights" where
  "weigh w f =
     (let classif = fr_classification f
      in if classif \<in> {''info'', ''error''} then w
         else if is_hybrid (fr_algorithm f) then w\<lparr>w_hybrid := w_hybrid w + 1\<rparr>
         else if classif = ''pqc-ready'' then w\<lparr>w_safe := w_safe w + 1\<rparr>
         else if classif \<in> {''sederhana'', ''rendah''} then w\<lparr>w_partial := w_partial w + 1\<rparr>
         else if classif \<in> {''sangat-tinggi'', ''tinggi''} then w\<lparr>w_vulnerable := w_vulnerable w + 1\<rparr>
         else w)"

definition weigh_all :: "finding_row list \<Rightarrow> weights" where
  "weigh_all findings =
     foldl weigh \<lparr>w_safe = 0, w_hybrid = 0, w_partial = 0, w_vulnerable = 0\<rparr> findings"

definition migration_score_findings :: "finding_row list \<Rightarrow> migration_readiness" where
  "migration_score_findings findings =
     (let w = weigh_all findings;
          tot = w_safe w + w_hybrid w + w_partial w + w_vulnerable w
      in if tot = 0
         then \<lparr>mr_total = 0, mr_safe = 0, mr_hybrid = 0, mr_partial = 0, mr_vulnerable = 0,
               mr_score = 100, mr_band = ''EXCELLENT''\<rparr>
         else (let weighted = w_safe w * 100 + w_hybrid w * 80 + w_partial w * 30;
                   score = py_round1 (fl (fl (of_nat weighted / of_nat (tot * 100)) * 100))
               in \<lparr>mr_total = tot, mr_safe = w_safe w, mr_hybrid = w_hybrid w,
                   mr_partial = w_partial w, mr_vulnerable = w_vulnerable w,
                   mr_score = score, mr_band = band_for score\<rparr>))"

section \<open>Properties\<close>

text \<open>A crypto asset of the score: a known classification other than INFO and ERROR, or any
  hybrid name outside those two.\<close>

definition gradable :: "finding_row \<Rightarrow> bool" where
  "gradable f \<longleftrightarrow>
     fr_classification f \<notin> {''info'', ''error''} \<and>
     (is_hybrid (fr_algorithm f) \<or>
      fr_classification f \<in> {''pqc-ready'', ''sederhana'', ''rendah'', ''sangat-tinggi'', ''tinggi''})"

definition weight_total :: "weights \<Rightarrow> nat" where
  "weight_total w = w_safe w + w_hybrid w + w_partial w + w_vulnerable w"

lemma weigh_total: "weight_total (weigh w f) = weight_total w + (if gradable f then 1 else 0)"
  by (simp add: weigh_def gradable_def weight_total_def Let_def)

lemma foldl_weigh_total:
  "weight_total (foldl weigh w fs) = weight_total w + length (filter gradable fs)"
  by (induction fs arbitrary: w) (simp_all add: weigh_total)

lemma weigh_all_total: "weight_total (weigh_all fs) = length (filter gradable fs)"
  by (simp add: weigh_all_def foldl_weigh_total) (simp add: weight_total_def)

lemma fl_100: "fl 100 = 100"
  using fl_of_nat [of 100] by simp

lemma fl_1: "fl 1 = 1"
  using fl_of_nat [of 1] by simp

lemma py_round1_range:
  assumes "0 \<le> x" and "x \<le> 100"
  shows "0 \<le> py_round1 x \<and> py_round1 x \<le> 100"
proof -
  have "py_round 0 \<le> py_round (x * 10)" "py_round (x * 10) \<le> py_round (of_int 1000)"
    using assms by (intro py_round_mono; simp)+
  then have r: "0 \<le> py_round (x * 10)" "py_round (x * 10) \<le> 1000"
    using py_round_of_int [of 0] py_round_of_int [of 1000] by simp_all
  then have "(of_int (py_round (x * 10)) / 10 :: rat) \<le> 100" by simp
  with r fl_mono [of _ 100] fl_nonneg show ?thesis by (auto simp: py_round1_def fl_100)
qed

lemma weighted_score_range:
  assumes "w \<le> t * 100"
  shows "0 \<le> fl (fl (of_nat w / of_nat (t * 100)) * 100) \<and>
         fl (fl (of_nat w / of_nat (t * 100)) * 100) \<le> 100"
proof -
  have "(of_nat w / of_nat (t * 100) :: rat) \<le> of_nat 1"
    using assms by (intro ratio_le) simp
  then have "fl (of_nat w / of_nat (t * 100)) \<le> 1"
    using fl_mono [of "of_nat w / of_nat (t * 100)" 1] by (simp add: fl_1)
  then have "fl (of_nat w / of_nat (t * 100)) * 100 \<le> 100" by simp
  from fl_mono [OF this] show ?thesis
    by (simp add: fl_100 fl_nonneg)
qed

text \<open>The migration score grades every gradable finding exactly once and is a percentage:
  the four counts add up to the total, the total is the number of gradable findings, the score
  lies in 0..100 through every floating-point step, its band is the one of its value, and a
  scan with nothing to grade scores 100 (EXCELLENT).\<close>

theorem migration_score_sound:
  "mr_total (migration_score_findings fs) = length (filter gradable fs) \<and>
   mr_safe (migration_score_findings fs) + mr_hybrid (migration_score_findings fs) +
     mr_partial (migration_score_findings fs) + mr_vulnerable (migration_score_findings fs)
     = mr_total (migration_score_findings fs) \<and>
   0 \<le> mr_score (migration_score_findings fs) \<and> mr_score (migration_score_findings fs) \<le> 100 \<and>
   mr_band (migration_score_findings fs) = band_for (mr_score (migration_score_findings fs)) \<and>
   (filter gradable fs = [] \<longrightarrow> mr_score (migration_score_findings fs) = 100)"
proof -
  let ?w = "weigh_all fs"
  have t: "w_safe ?w + w_hybrid ?w + w_partial ?w + w_vulnerable ?w = length (filter gradable fs)"
    using weigh_all_total [of fs] by (simp add: weight_total_def)
  have "w_safe ?w * 100 + w_hybrid ?w * 80 + w_partial ?w * 30 \<le> length (filter gradable fs) * 100"
    using t by linarith
  note py_round1_range [OF weighted_score_range [OF this, THEN conjunct1]
      weighted_score_range [OF this, THEN conjunct2]]
  then show ?thesis
    using t by (auto simp: migration_score_findings_def Let_def band_for_def)
qed

theorem migration_score_sound_witness:
  "mr_score (migration_score_findings []) = 100 \<and> filter gradable [] = []"
  using migration_score_sound [of "[]"] by simp

lemma fl_100_exact: "fl (fl (of_nat (t * 100) / of_nat (t * 100)) * 100) = (if t = 0 then 0 else 100)"
  by (simp add: fl_1 fl_100)

text \<open>A fully migrated scan gets the full score: when at least one finding is graded and all
  of them are pure post-quantum, the score is exactly 100 and the band EXCELLENT; when all of
  them are quantum-broken, it is exactly 0 and CRITICAL.\<close>

theorem migration_score_extremes:
  "(mr_total (migration_score_findings fs) \<noteq> 0 \<and>
      mr_safe (migration_score_findings fs) = mr_total (migration_score_findings fs) \<longrightarrow>
      mr_score (migration_score_findings fs) = 100 \<and> mr_band (migration_score_findings fs) = ''EXCELLENT'') \<and>
   (mr_total (migration_score_findings fs) \<noteq> 0 \<and>
      mr_vulnerable (migration_score_findings fs) = mr_total (migration_score_findings fs) \<longrightarrow>
      mr_score (migration_score_findings fs) = 0 \<and> mr_band (migration_score_findings fs) = ''CRITICAL'')"
proof -
  have r: "py_round1 100 = 100" "py_round1 0 = 0"
    using py_round_of_int [of 1000] py_round_of_int [of 0] by (simp_all add: py_round1_def fl_100)
  show ?thesis
    using r fl_1 fl_100
    by (auto simp: migration_score_findings_def Let_def band_for_def)
qed

definition migration_sample :: "string \<Rightarrow> finding_row list" where
  "migration_sample c =
     [\<lparr>fr_id = 1, fr_scan_id = 1, fr_component_id = None, fr_probe_id = ''fs.cert.x509'',
       fr_algorithm = ''X'', fr_classification = c, fr_severity = ''high'',
       fr_title = ''t'', fr_evidence = [], fr_remediation = [], fr_created_at = 0\<rparr>]"

theorem migration_score_extremes_witness:
  "mr_score (migration_score_findings (migration_sample ''pqc-ready'')) = 100 \<and>
   mr_score (migration_score_findings (migration_sample ''tinggi'')) = 0"
proof -
  have "\<not> is_hybrid ''X''" by code_simp
  then have w: "weigh_all (migration_sample ''pqc-ready'') = \<lparr>w_safe = 1, w_hybrid = 0, w_partial = 0, w_vulnerable = 0\<rparr>"
    "weigh_all (migration_sample ''tinggi'') = \<lparr>w_safe = 0, w_hybrid = 0, w_partial = 0, w_vulnerable = 1\<rparr>"
    by (simp_all add: weigh_all_def migration_sample_def weigh_def)
  show ?thesis
    using migration_score_extremes [of "migration_sample ''pqc-ready''"]
      migration_score_extremes [of "migration_sample ''tinggi''"]
    by (simp add: migration_score_findings_def w Let_def)
qed

end
