(* ===== verification/Exposure.thy ===== *)
theory Exposure
  imports Migration_Score "HOL-Library.Multiset"
begin

text \<open>
  \<^verbatim>\<open>core/exposure.py\<close>: the per-asset exposure register. Three 1-3 axes multiply into an
  exposure of 1..27, the rows are sorted worst first and capped at 200.
\<close>

definition MAX_ROWS :: nat where
  "MAX_ROWS = 200"

record exposure_row =
  xr_finding_ref :: string
  xr_algorithm :: string
  xr_criticality :: nat
  xr_longevity :: nat
  xr_feasibility :: nat
  xr_exposure :: nat
  xr_tier :: string

definition is_vulnerable :: "finding_row \<Rightarrow> bool" where
  "is_vulnerable f =
     (if is_hybrid (fr_algorithm f) then False else fr_classification f \<in> {''sangat-tinggi'', ''tinggi''})"

definition criticality :: "finding_row \<Rightarrow> nat" where
  "criticality f = (if fr_severity f = ''crit'' then 3 else if fr_severity f = ''high'' then 2 else 1)"

definition longevity :: "string \<Rightarrow> nat" where
  "longevity pid =
     (if startswith_any pid [''fs.cert'', ''fs.keystore'', ''fs.db'', ''secrets.'', ''sign.'']
         \<or> contains pid ''.kms'' then 3
      else if startswith_any pid [''net.'', ''fs.conf'', ''vpn.''] \<or> contains pid ''tls'' then 2
      else 1)"

definition feasibility :: "string \<Rightarrow> nat" where
  "feasibility pid =
     (if startswith_any pid [''fs.conf'', ''net.''] \<or> contains pid ''config'' then 1
      else if startswith_any pid [''code.'', ''sbom.'', ''fs.db'', ''host.'', ''container.'', ''ot.'']
         \<or> contains_any pid [''binary'', ''appliance'', ''firmware''] then 3
      else 2)"

definition tier :: "nat \<Rightarrow> string" where
  "tier e = (if e \<ge> 18 then ''CRITICAL'' else if e \<ge> 9 then ''HIGH'' else if e \<ge> 4 then ''MEDIUM'' else ''LOW'')"

definition LOCATOR_KEYS :: "string list" where
  "LOCATOR_KEYS = [''endpoint'', ''host'', ''target'', ''path'', ''file'', ''location'']"

fun locator_from :: "pydict \<Rightarrow> string list \<Rightarrow> string" where
  "locator_from ev [] = []"
| "locator_from ev (key # keys) =
     (case get_truthy ev key of
        Some v \<Rightarrow>
          (let txt = py_str v;
               txt' = (case (if key = ''host'' then get_truthy ev ''port'' else None) of
                         Some port \<Rightarrow> txt @ '':'' @ py_str port
                       | None \<Rightarrow> txt)
           in take 60 txt')
      | None \<Rightarrow> locator_from ev keys)"

definition locator :: "finding_row \<Rightarrow> string" where
  "locator f = locator_from (fr_evidence f) LOCATOR_KEYS"

definition row_for :: "finding_row \<Rightarrow> exposure_row" where
  "row_for f =
     (let pid = py_lower (fr_probe_id f);
          c = criticality f; l = longevity pid; fe = feasibility pid;
          e = c * l * fe;
          loc = locator f
      in \<lparr>xr_finding_ref = (if loc \<noteq> [] then fr_probe_id f @ ''@'' @ loc else fr_probe_id f),
          xr_algorithm = fr_algorithm f, xr_criticality = c, xr_longevity = l,
          xr_feasibility = fe, xr_exposure = e, xr_tier = tier e\<rparr>)"

definition row_order :: "exposure_row \<Rightarrow> int \<times> string \<times> string" where
  "row_order r = (- int (xr_exposure r), xr_finding_ref r, xr_algorithm r)"

definition build_register :: "finding_row list \<Rightarrow> exposure_row list" where
  "build_register findings = take MAX_ROWS (sort_key row_order (map row_for (filter is_vulnerable findings)))"

text \<open>\<^verbatim>\<open>counts[r.tier] += 1\<close>; an unknown tier would be a \<^verbatim>\<open>KeyError\<close>, here \<open>None\<close>.\<close>

fun tier_counts_from :: "nat dict \<Rightarrow> exposure_row list \<Rightarrow> nat dict option" where
  "tier_counts_from d [] = Some d"
| "tier_counts_from d (r # rs) =
     (case dict_get d (xr_tier r) of
        None \<Rightarrow> None
      | Some n \<Rightarrow> tier_counts_from (dict_set (xr_tier r) (n + 1) d) rs)"

definition tier_counts :: "exposure_row list \<Rightarrow> nat dict option" where
  "tier_counts rows = tier_counts_from [(''CRITICAL'', 0), (''HIGH'', 0), (''MEDIUM'', 0), (''LOW'', 0)] rows"

section \<open>Properties\<close>

lemma axis_range:
  "1 \<le> criticality f \<and> criticality f \<le> 3" "1 \<le> longevity pid \<and> longevity pid \<le> 3"
  "1 \<le> feasibility pid \<and> feasibility pid \<le> 3"
  by (simp_all add: criticality_def longevity_def feasibility_def)

definition row_ok :: "exposure_row \<Rightarrow> bool" where
  "row_ok r \<longleftrightarrow>
     xr_exposure r = xr_criticality r * xr_longevity r * xr_feasibility r \<and>
     1 \<le> xr_exposure r \<and> xr_exposure r \<le> 27 \<and> xr_tier r = tier (xr_exposure r)"

lemma row_for_ok: "row_ok (row_for f)"
proof -
  have "1 * 1 * 1 \<le> criticality f * longevity p * feasibility p" for p
    by (intro mult_le_mono axis_range [THEN conjunct1])
  moreover have "criticality f * longevity p * feasibility p \<le> 3 * 3 * 3" for p
    by (intro mult_le_mono axis_range [THEN conjunct2])
  ultimately show ?thesis by (simp add: row_ok_def row_for_def Let_def)
qed

text \<open>The register is the right worklist: its rows are quantum-vulnerable findings scored in
  1..27 with the matching tier, in worst-first order, at most 200 of them; together with the rows
  the cap drops they are all the vulnerable findings, and every dropped row ranks at or after
  every kept one.\<close>

theorem register_is_worst_first_prefix:
  "\<exists>rest.
     mset (build_register fs) + mset rest = mset (map row_for (filter is_vulnerable fs)) \<and>
     sorted (map row_order (build_register fs @ rest)) \<and>
     length (build_register fs) = min 200 (length (filter is_vulnerable fs)) \<and>
     list_all row_ok (build_register fs)"
proof -
  let ?rows = "sort_key row_order (map row_for (filter is_vulnerable fs))"
  have "mset (take 200 ?rows) + mset (drop 200 ?rows) = mset (map row_for (filter is_vulnerable fs))"
    by (metis append_take_drop_id mset_append mset_sort)
  moreover have "sorted (map row_order (take 200 ?rows @ drop 200 ?rows))"
    by (simp only: append_take_drop_id sorted_sort_key)
  moreover have "list_all row_ok (take 200 ?rows)"
    using set_take_subset [of 200 ?rows] by (auto simp: list_all_iff row_for_ok)
  moreover have "length (take 200 ?rows) = min 200 (length (filter is_vulnerable fs))"
    by simp
  ultimately show ?thesis
    unfolding build_register_def MAX_ROWS_def by blast
qed

definition tier_names :: "string list" where
  "tier_names = [''CRITICAL'', ''HIGH'', ''MEDIUM'', ''LOW'']"

lemma tier_in_names: "tier e \<in> set tier_names"
  by (simp add: tier_def tier_names_def)

lemma tier_counts_from_exact:
  assumes "list_all (\<lambda>r. xr_tier r \<in> set ts) rows" and "set ts \<subseteq> fst ` set d"
  shows "\<exists>d'. tier_counts_from d rows = Some d' \<and>
     (\<forall>t. dict_get d' t = map_option (\<lambda>n. n + length (filter (\<lambda>r. xr_tier r = t) rows)) (dict_get d t))"
  using assms
proof (induction rows arbitrary: d)
  case Nil
  then show ?case by (simp add: option.map_ident)
next
  case (Cons r rows)
  then have "xr_tier r \<in> fst ` set d" by auto
  then obtain n where n: "dict_get d (xr_tier r) = Some n"
    by (metis domIff dom_map_of_conv_image_fst not_None_eq)
  have "set ts \<subseteq> fst ` set (dict_set (xr_tier r) (n + 1) d)"
    using Cons.prems by (auto simp: dom_update [unfolded set_map])
  with Cons obtain d' where "tier_counts_from (dict_set (xr_tier r) (n + 1) d) rows = Some d'"
    and "\<forall>t. dict_get d' t = map_option (\<lambda>n. n + length (filter (\<lambda>r. xr_tier r = t) rows))
          (dict_get (dict_set (xr_tier r) (n + 1) d) t)"
    by (metis list.pred_inject(2))
  with n show ?case by auto
qed

text \<open>The tier summary of a register never fails and counts each tier exactly: for each of the
  four tiers it gives the number of register rows of that tier, zero included.\<close>

theorem tier_counts_exact:
  "\<exists>d. tier_counts (build_register fs) = Some d \<and>
     list_all (\<lambda>t. dict_get d t = Some (length (filter (\<lambda>r. xr_tier r = t) (build_register fs)))) tier_names"
proof -
  have "set (build_register fs) \<subseteq> row_for ` set fs"
    using set_take_subset [of MAX_ROWS "sort_key row_order (map row_for (filter is_vulnerable fs))"]
    by (auto simp: build_register_def)
  then have "list_all (\<lambda>r. xr_tier r \<in> set tier_names) (build_register fs)"
    by (auto simp: list_all_iff row_for_def Let_def tier_in_names)
  from tier_counts_from_exact [OF this, of "[(''CRITICAL'', 0), (''HIGH'', 0), (''MEDIUM'', 0), (''LOW'', 0)]"]
  show ?thesis by (auto simp: tier_counts_def tier_names_def)
qed

end
