(* ===== verification/Mosca.thy ===== *)
theory Mosca
  imports Py_Float
begin

text \<open>
  \<^verbatim>\<open>core/mosca.py\<close>: Mosca's inequality on three horizons in years. \<^verbatim>\<open>float(n)\<close> and the two
  operations round to a double; the sentences of \<^verbatim>\<open>summary_lines\<close> are not modelled.
\<close>

record mosca_inputs =
  data_lifetime_years :: rat
  migration_years :: rat
  threat_years :: rat

record mosca_result =
  mo_x :: rat
  mo_y :: rat
  mo_z :: rat
  sum_xy :: rat
  gap_years :: rat
  at_risk :: bool
  verdict :: string

definition mosca_assess :: "mosca_inputs \<Rightarrow> mosca_result" where
  "mosca_assess inputs =
     (let x = fl (data_lifetime_years inputs); y = fl (migration_years inputs);
          z = fl (threat_years inputs);
          s = fl (x + y); gap = fl (s - z); risk = (gap > 0)
      in \<lparr>mo_x = x, mo_y = y, mo_z = z, sum_xy = s, gap_years = gap, at_risk = risk,
          verdict = (if risk then ''at-risk'' else ''ok'')\<rparr>)"

lemma fl_pos_iff: "0 < fl x \<longleftrightarrow> 0 < x"
  using fl_pos_nonneg [of x] fl_pos_nonneg [of "- x"] by (auto simp: fl_def)

text \<open>The verdict is Mosca's inequality: an asset is at risk exactly when the rounded sum
  X + Y strictly exceeds Z (so the boundary X + Y = Z is safe), and for whole years below
  \<open>2 ^ 52\<close> no rounding intervenes at all.\<close>

theorem mosca_verdict_iff:
  "(at_risk (mosca_assess i) \<longleftrightarrow> fl (threat_years i) < sum_xy (mosca_assess i)) \<and>
   verdict (mosca_assess i) = (if at_risk (mosca_assess i) then ''at-risk'' else ''ok'') \<and>
   (x < 2 ^ 52 \<and> y < 2 ^ 52 \<and> z < 2 ^ 52 \<longrightarrow>
      at_risk (mosca_assess \<lparr>data_lifetime_years = of_nat x, migration_years = of_nat y,
        threat_years = of_nat z\<rparr>) = (z < x + y))"
proof (intro conjI impI)
  assume b: "x < 2 ^ 52 \<and> y < 2 ^ 52 \<and> z < 2 ^ 52"
  then have e: "fl (of_nat x) = of_nat x" "fl (of_nat y) = of_nat y" "fl (of_nat z) = of_nat z"
    "fl (of_nat (x + y)) = of_nat (x + y)"
    by (intro fl_of_nat; simp)+
  have "(0 < (of_nat (x + y) - of_nat z :: rat)) = (z < x + y)"
    by (simp only: diff_gt_0_iff_gt of_nat_less_iff)
  with e show "at_risk (mosca_assess \<lparr>data_lifetime_years = of_nat x, migration_years = of_nat y,
      threat_years = of_nat z\<rparr>) = (z < x + y)"
    by (simp add: mosca_assess_def Let_def fl_pos_iff)
qed (auto simp: mosca_assess_def Let_def fl_pos_iff)

theorem mosca_verdict_iff_witness:
  "at_risk (mosca_assess \<lparr>data_lifetime_years = of_nat 10, migration_years = of_nat 5,
     threat_years = of_nat 10\<rparr>) \<and>
   \<not> at_risk (mosca_assess \<lparr>data_lifetime_years = of_nat 5, migration_years = of_nat 5,
     threat_years = of_nat 10\<rparr>)"
proof -
  let ?i = "\<lparr>data_lifetime_years = 0, migration_years = 0, threat_years = 0\<rparr> :: mosca_inputs"
  show ?thesis
    using mosca_verdict_iff [of ?i 10 5 10, THEN conjunct2, THEN conjunct2, THEN mp]
      mosca_verdict_iff [of ?i 5 5 10, THEN conjunct2, THEN conjunct2, THEN mp]
    by simp
qed

end
