(* ===== verification/Confidence.thy ===== *)
theory Confidence
  imports Core_Types
begin

text \<open>
  \<^verbatim>\<open>core/confidence.py\<close>: the detection confidence of a finding. The two regular expressions
  are recognisers on the lower-cased path and on the snippet.
\<close>

definition C_HIGH :: string where "C_HIGH = ''high''"

definition C_MEDIUM :: string where "C_MEDIUM = ''medium''"

definition C_LOW :: string where "C_LOW = ''low''"

definition LOW_SIGNAL_DIRS :: "string list" where
  "LOW_SIGNAL_DIRS =
     [''test'', ''tests'', ''__tests__'', ''spec'', ''specs'', ''example'', ''examples'', ''fixture'',
      ''fixtures'', ''testdata'', ''vendor'', ''thirdparty'', ''third_party'', ''third-party'',
      ''node_modules'', ''site-packages'', ''dist'', ''build'']"

definition strip_final_nl :: "string \<Rightarrow> string" where
  "strip_final_nl s = (if s \<noteq> [] \<and> last s = newline then butlast s else s)"

text \<open>\<^verbatim>\<open>\.(spec|test)\.[a-z]+$\<close>.\<close>

definition spec_suffix :: "string \<Rightarrow> bool" where
  "spec_suffix p =
     (let ext = after_last CHR ''.'' p; stem = take (length p - length ext) p
      in CHR ''.'' \<in> set p \<and> ext \<noteq> [] \<and> list_all is_lower ext \<and>
         (endswith stem ''.spec.'' \<or> endswith stem ''.test.''))"

definition LOW_SIGNAL_PATH :: "string \<Rightarrow> bool" where
  "LOW_SIGNAL_PATH path =
     (let p = strip_final_nl (py_lower path)
      in list_ex (\<lambda>c. c \<in> set LOW_SIGNAL_DIRS) (split_on CHR ''/'' p) \<or> spec_suffix p \<or>
         endswith p ''.min.js'' \<or> endswith p ''.min.css'' \<or>
         endswith p ''.md'' \<or> endswith p ''.rst'' \<or> endswith p ''.txt'')"

definition COMMENT_START :: "string \<Rightarrow> bool" where
  "COMMENT_START s =
     startswith_any (lstrip_set is_space s)
       [''#'', ''//'', ''/*'', ''*'', ''--'', '';'', ''<!--'', [CHR 0x22, CHR 0x22, CHR 0x22],
        [CHR 0x27, CHR 0x27, CHR 0x27]]"

definition is_low_signal_source :: "pydict \<Rightarrow> bool" where
  "is_low_signal_source ev =
     (let path = (case get_truthy ev ''file'' of
                    Some v \<Rightarrow> py_str v
                  | None \<Rightarrow> (case get_truthy ev ''path'' of Some v \<Rightarrow> py_str v | None \<Rightarrow> []));
          snippet = (case get_truthy ev ''snippet'' of Some v \<Rightarrow> py_str v | None \<Rightarrow> [])
      in if path \<noteq> [] \<and> LOW_SIGNAL_PATH path then True
         else snippet \<noteq> [] \<and> COMMENT_START snippet)"

text \<open>\<^verbatim>\<open>assess\<close> after the probe's own override has been looked at.\<close>

definition assess_unforced :: "string \<Rightarrow> pydict \<Rightarrow> string" where
  "assess_unforced pid ev =
     (if get_truthy ev ''verified'' \<noteq> None then C_HIGH
      else if startswith pid ''code.'' then (if is_low_signal_source ev then C_LOW else C_MEDIUM)
      else if startswith_any pid [''sbom.'', ''cve.''] then C_MEDIUM
      else if endswith pid ''.sniff'' \<or> contains pid ''sniff'' \<or> get_truthy ev ''advertised'' \<noteq> None
        then C_LOW
      else C_HIGH)"

definition forced_confidence :: "pydict \<Rightarrow> string option" where
  "forced_confidence ev =
     (case dict_get ev ''confidence'' of
        Some (JStr c) \<Rightarrow> if c \<in> {C_HIGH, C_MEDIUM, C_LOW} then Some c else None
      | _ \<Rightarrow> None)"

definition assess :: "string \<Rightarrow> pydict \<Rightarrow> string" where
  "assess pid ev = (case forced_confidence ev of Some c \<Rightarrow> c | None \<Rightarrow> assess_unforced pid ev)"

section \<open>Properties\<close>

lemma assess_unforced_level: "assess_unforced pid ev \<in> {C_HIGH, C_MEDIUM, C_LOW}"
  by (simp add: assess_unforced_def)

lemma forced_confidence_level: "forced_confidence ev = Some c \<Longrightarrow> c \<in> {C_HIGH, C_MEDIUM, C_LOW}"
  by (auto simp: forced_confidence_def split: option.splits json.splits if_splits)

lemma assess_level: "assess pid ev \<in> {C_HIGH, C_MEDIUM, C_LOW}"
  using assess_unforced_level [of pid ev] forced_confidence_level [of ev]
  by (auto simp: assess_def split: option.splits)

text \<open>Confidence is stable under storage: the level is always high, medium or low, and writing
  it back into the evidence, as the runner does before a finding is stored, fixes it: assessing
  the stored evidence again gives the same level whatever the probe.\<close>

theorem assess_stable:
  "assess pid ev \<in> {C_HIGH, C_MEDIUM, C_LOW} \<and>
   assess pid' (dict_set ''confidence'' (JStr (assess pid ev)) ev) = assess pid ev"
  using assess_level [of pid ev] by (simp add: assess_def [of pid'] forced_confidence_def)

text \<open>Probabilistic detections are never reported as certain: a source-code, SBOM, CVE or sniffed
  finding that neither carries an explicit level nor was verified on the wire is at most medium.\<close>

theorem probabilistic_never_high:
  assumes "forced_confidence ev = None" and "get_truthy ev ''verified'' = None"
    and "startswith_any pid [''code.'', ''sbom.'', ''cve.''] \<or> contains pid ''sniff''"
  shows "assess pid ev \<noteq> C_HIGH"
  using assms by (auto simp: assess_def assess_unforced_def startswith_any_def C_HIGH_def C_MEDIUM_def
      C_LOW_def)

theorem probabilistic_never_high_witness:
  "assess ''code.ts.go'' [(''file'', JStr ''src/tests/a.go'')] \<noteq> C_HIGH"
  by (rule probabilistic_never_high) (simp_all add: forced_confidence_def get_truthy_def py_simps)

end
