(* ===== verification/Key_Health.thy ===== *)
theory Key_Health
  imports Prelude "HOL-Library.Log_Nat"
begin

text \<open>
  \<^verbatim>\<open>core/keyhealth.py\<close>: the public-key health checks. The moduli are the Python integers
  they are in the code; \<^verbatim>\<open>_multiplicative_order\<close> is a loop with its termination proof. The
  two issue sentences are constructors.
\<close>

section \<open>The checks\<close>

definition ROCA_PRIMES :: "int list" where
  "ROCA_PRIMES = [3, 5, 7, 11, 13, 17, 19, 23, 29, 31, 37, 41, 43, 47, 53, 59, 61, 67,
    71, 73, 79, 83, 89, 97, 101, 103, 107, 109, 113, 127, 131, 137, 139,
    149, 151, 157, 163, 167]"

function order_loop :: "int \<Rightarrow> int \<Rightarrow> int \<Rightarrow> int \<Rightarrow> int" where
  "order_loop a m val order =
     (if val = 1 then order
      else if order + 1 > m then 0
      else order_loop a m ((val * a) mod m) (order + 1))"
  by pat_completeness auto
termination
  by (relation "measure (\<lambda>(a, m, val, order). nat (m - order))") auto

declare order_loop.simps [simp del]

definition multiplicative_order :: "int \<Rightarrow> int \<Rightarrow> int" where
  "multiplicative_order a m = (if gcd a m \<noteq> 1 then 0 else order_loop a m (a mod m) 1)"

fun powers_loop :: "nat \<Rightarrow> int \<Rightarrow> int \<Rightarrow> int \<Rightarrow> int list" where
  "powers_loop 0 g p val = []"
| "powers_loop (Suc n) g p val = val # powers_loop n g p ((val * g) mod p)"

definition is_roca_vulnerable :: "int \<Rightarrow> bool" where
  "is_roca_vulnerable modulus \<longleftrightarrow>
     modulus \<ge> 3 \<and>
     list_all (\<lambda>prime. let order = multiplicative_order 65537 prime in
        order = 0 \<or> modulus mod prime \<in> set (powers_loop (nat order) 65537 prime 1)) ROCA_PRIMES"

datatype key_issue = ShortModulus int | Roca

record key_health =
  ok :: bool
  issues :: "key_issue list"

text \<open>\<^verbatim>\<open>int.bit_length\<close>: the digits of the absolute value, 0 for 0.\<close>

definition bit_length :: "int \<Rightarrow> int" where
  "bit_length n = int (floorlog 2 (nat \<bar>n\<bar>))"

definition analyze_rsa_modulus :: "int \<Rightarrow> int option \<Rightarrow> key_health" where
  "analyze_rsa_modulus modulus bits_arg =
     (let bits = (case bits_arg of Some b \<Rightarrow> b | None \<Rightarrow> bit_length modulus);
          iss = (if bits < 1024 then [ShortModulus bits] else []) @
                (if is_roca_vulnerable modulus then [Roca] else [])
      in \<lparr>ok = (iss = []), issues = iss\<rparr>)"

section \<open>The order loop finds the multiplicative order\<close>

lemma power_repeats:
  fixes a m :: int
  assumes "1 < m" and "coprime a m"
  shows "\<exists>k. 0 < k \<and> int k \<le> m \<and> a ^ k mod m = 1"
proof -
  let ?f = "\<lambda>k. a ^ k mod m"
  have "?f ` {..nat m} \<subseteq> {0..<m}"
    using assms by auto
  moreover have "card {0..<m} < card {..nat m}"
    using assms by simp
  ultimately have "\<not> inj_on ?f {..nat m}"
    by (meson card_inj_on_le finite_atLeastLessThan_int not_le)
  then obtain i j where ij: "i < j" "j \<le> nat m" "?f i = ?f j"
    by (auto simp: inj_on_def) (metis nat_neq_iff)
  have "a ^ j - a ^ i = a ^ i * (a ^ (j - i) - 1)"
    using ij(1) by (simp add: right_diff_distrib flip: power_add)
  with ij(3) have "m dvd a ^ i * (a ^ (j - i) - 1)"
    by (metis mod_eq_dvd_iff)
  moreover have "coprime m (a ^ i)"
    using assms(2) by (simp add: coprime_commute)
  ultimately have "m dvd a ^ (j - i) - 1"
    by (simp add: coprime_dvd_mult_right_iff)
  then have "a ^ (j - i) mod m = 1"
    using assms(1) by (metis mod_eq_dvd_iff mod_pos_pos_trivial zero_le_one)
  with ij assms(1) show ?thesis
    by (intro exI [of _ "j - i"]) auto
qed

lemma order_loop_least:
  assumes "1 < m" and "a ^ k mod m = 1" and "n \<le> k" and "int k \<le> m" and "0 < n"
    and "\<And>i. 0 < i \<Longrightarrow> i < n \<Longrightarrow> a ^ i mod m \<noteq> 1"
  shows "\<exists>l. order_loop a m (a ^ n mod m) (int n) = int l \<and> 0 < l \<and> int l \<le> m \<and>
    a ^ l mod m = 1 \<and> (\<forall>i. 0 < i \<and> i < l \<longrightarrow> a ^ i mod m \<noteq> 1)"
  using assms
proof (induction "k - n" arbitrary: n rule: less_induct)
  case less
  show ?case
  proof (cases "a ^ n mod m = 1")
    case True
    then have "order_loop a m (a ^ n mod m) (int n) = int n"
      by (simp add: order_loop.simps)
    with True less.prems show ?thesis by force
  next
    case False
    with less.prems have nk: "n < k" by (metis le_neq_implies_less)
    have "\<not> int n + 1 > m" using nk less.prems(4) by simp
    moreover have "a ^ n mod m * a mod m = a ^ Suc n mod m"
      by (simp add: mod_mult_right_eq mult.commute)
    ultimately have "order_loop a m (a ^ n mod m) (int n) = order_loop a m (a ^ Suc n mod m) (int (Suc n))"
      using False by (subst order_loop.simps) (simp add: add.commute)
    with less.hyps [of "Suc n"] less.prems nk False show ?thesis
      by (metis Suc_leI diff_less_mono2 lessI less_SucE zero_less_Suc)
  qed
qed

lemma multiplicative_order_is_least:
  assumes "1 < m" and "coprime a m"
  shows "\<exists>l. multiplicative_order a m = int l \<and> 0 < l \<and> int l \<le> m \<and> a ^ l mod m = 1 \<and>
    (\<forall>i. 0 < i \<and> i < l \<longrightarrow> a ^ i mod m \<noteq> 1)"
proof -
  obtain k where "0 < k" "int k \<le> m" "a ^ k mod m = 1"
    using power_repeats [OF assms] by blast
  then show ?thesis
    using order_loop_least [of m a k 1] assms by (simp add: multiplicative_order_def)
qed

section \<open>The fingerprint\<close>

lemma set_powers_loop: "set (powers_loop n g p (g ^ s mod p)) = (\<lambda>k. g ^ (s + k) mod p) ` {..<n}"
proof (induction n arbitrary: s)
  case (Suc n)
  have "g ^ s mod p * g mod p = g ^ Suc s mod p"
    by (simp add: mod_mult_right_eq mult.commute)
  with Suc [of "Suc s"] show ?case
    by (simp add: lessThan_Suc_eq_insert_0 image_image)
qed simp

lemma power_mod_order:
  fixes g p :: int
  assumes "g ^ l mod p = 1"
  shows "g ^ k mod p = g ^ (k mod l) mod p"
proof -
  have "g ^ k = (g ^ l) ^ (k div l) * g ^ (k mod l)"
    by (metis mult_div_mod_eq power_add power_mult)
  moreover have "(g ^ l) ^ (k div l) mod p = 1 mod p"
    by (metis assms mod_mod_trivial power_mod power_one)
  ultimately show ?thesis
    by (metis mod_mult_left_eq mult_1)
qed

lemma set_powers_order:
  assumes "1 < p" and "coprime g p"
  shows "set (powers_loop (nat (multiplicative_order g p)) g p 1) = range (\<lambda>k. g ^ k mod p)"
proof -
  obtain l where l: "multiplicative_order g p = int l" "0 < l" "g ^ l mod p = 1"
    using multiplicative_order_is_least [OF assms] by blast
  have "set (powers_loop l g p 1) = (\<lambda>k. g ^ k mod p) ` {..<l}"
    using set_powers_loop [of l g p 0] assms(1) by simp
  also have "\<dots> = range (\<lambda>k. g ^ k mod p)"
    using power_mod_order [OF l(3)] l(2) by (auto intro!: image_eqI [where x = "_ mod l"])
  finally show ?thesis using l(1) by simp
qed

lemma ROCA_PRIMES_gcd: "list_all (\<lambda>p. 1 < p \<and> gcd 65537 p = 1) ROCA_PRIMES"
  by code_simp

lemma ROCA_PRIMES_coprime: "p \<in> set ROCA_PRIMES \<Longrightarrow> 1 < p \<and> coprime 65537 p"
  using ROCA_PRIMES_gcd by (simp add: list_all_iff coprime_iff_gcd_eq_1)

text \<open>The ROCA test decides the published fingerprint: a modulus is flagged exactly when
  it is at least 3 and congruent to a power of 65537 modulo each of the 38 primes. The bounded
  order loop never gives up on those primes, so no prime is skipped.\<close>

theorem is_roca_vulnerable_iff:
  "is_roca_vulnerable N \<longleftrightarrow>
     3 \<le> N \<and> (\<forall>p \<in> set ROCA_PRIMES. \<exists>k. N mod p = 65537 ^ k mod p)"
proof -
  have "(multiplicative_order 65537 p = 0 \<or>
      N mod p \<in> set (powers_loop (nat (multiplicative_order 65537 p)) 65537 p 1)) \<longleftrightarrow>
      (\<exists>k. N mod p = 65537 ^ k mod p)" if "p \<in> set ROCA_PRIMES" for p
    using multiplicative_order_is_least [of p 65537] ROCA_PRIMES_coprime [OF that]
    by (auto simp: set_powers_order)
  then show ?thesis
    by (simp add: is_roca_vulnerable_def Let_def list_all_iff)
qed

theorem is_roca_vulnerable_iff_witness:
  "is_roca_vulnerable 65537 \<and> \<not> is_roca_vulnerable (65537 * 2)"
proof -
  have "is_roca_vulnerable 65537"
    unfolding is_roca_vulnerable_iff by (auto intro: exI [of _ 1])
  moreover have "\<forall>k. (65537 ^ k mod 11 :: int) \<noteq> 65537 * 2 mod 11"
  proof
    fix k
    have "(65537 ^ k mod 11 :: int) \<in> {1, 10}"
    proof (induction k)
      case (Suc k)
      have "(65537 ^ Suc k mod 11 :: int) = 65537 * (65537 ^ k mod 11) mod 11"
        by (simp add: mod_mult_right_eq)
      with Suc show ?case by auto
    qed simp
    then show "(65537 ^ k mod 11 :: int) \<noteq> 65537 * 2 mod 11" by auto
  qed
  moreover have "(11::int) \<in> set ROCA_PRIMES" by (simp add: ROCA_PRIMES_def)
  ultimately show ?thesis unfolding is_roca_vulnerable_iff by metis
qed

text \<open>The verdict lists exactly the failed checks, and is clean only when both pass.\<close>

lemma bit_length_gt_iff: "int n < bit_length N \<longleftrightarrow> 2 ^ n \<le> \<bar>N\<bar>"
proof -
  have "n < floorlog 2 (nat \<bar>N\<bar>) \<longleftrightarrow> 2 ^ n \<le> nat \<bar>N\<bar>"
    using floorlog_le_iff [of 2 "nat \<bar>N\<bar>" n] by (simp add: not_le [symmetric])
  also have "\<dots> \<longleftrightarrow> 2 ^ n \<le> \<bar>N\<bar>"
    by (simp add: le_nat_iff)
  finally show ?thesis by (simp add: bit_length_def)
qed

lemma analyze_rsa_modulus_ok:
  "ok (analyze_rsa_modulus N None) \<longleftrightarrow> 2 ^ 1023 \<le> \<bar>N\<bar> \<and> \<not> is_roca_vulnerable N"
proof -
  have "\<not> bit_length N < 1024 \<longleftrightarrow> 2 ^ 1023 \<le> \<bar>N\<bar>"
    unfolding bit_length_gt_iff [symmetric] by (auto simp: not_less)
  then show ?thesis
    by (auto simp: analyze_rsa_modulus_def Let_def)
qed

end
