(* ===== verification/Targets.thy ===== *)
theory Targets
  imports Prelude
begin

text \<open>
  \<^verbatim>\<open>runner/targets.py\<close>: the parsing of user-supplied scan targets shared by the command line,
  the daemon's API and the web form. Scan paths stay text (\<^verbatim>\<open>Path(p)\<close> only wraps it).
\<close>

section \<open>Operations\<close>

definition OT_DEFAULT_PORTS :: "nat dict" where
  "OT_DEFAULT_PORTS =
    [(''modbus'', 502), (''s7'', 102), (''opcua'', 4840), (''dnp3'', 20000), (''bacnet'', 47808),
     (''iec104'', 2404), (''mms'', 102), (''ethernetip'', 44818), (''dicom'', 2762), (''hl7'', 2575)]"

record ot_target =
  ot_host :: string
  ot_port :: nat
  proto_hint :: "string option"

text \<open>\<^verbatim>\<open>s.split(sep, 1)[1]\<close>: what follows the first occurrence of the separator, if any.\<close>

fun after_first :: "string \<Rightarrow> string \<Rightarrow> string option" where
  "after_first sep [] = (if sep = [] then Some [] else None)"
| "after_first sep (c # s) =
     (if startswith (c # s) sep then Some (drop (length sep) (c # s)) else after_first sep s)"

definition normalise_server_target :: "string \<Rightarrow> string option" where
  "normalise_server_target raw =
     (let s = py_strip raw in
      if s = [] then None
      else
        (let s1 = (case after_first ''://'' s of Some t \<Rightarrow> t | None \<Rightarrow> s);
             s2 = py_strip (fst (partition_char (CHR ''/'') s1))
         in if s2 = [] then None else Some s2))"

definition part_at :: "string list \<Rightarrow> nat \<Rightarrow> string" where
  "part_at parts i = (if i < length parts then py_strip (parts ! i) else [])"

definition parse_ot_target :: "string \<Rightarrow> ot_target option" where
  "parse_ot_target raw =
     (let s = py_strip raw in
      if s = [] then None
      else
        (let parts = split_on (CHR '':'') s; host = py_strip (hd parts) in
         if host = [] then None
         else
           (let second = part_at parts 1; third = part_at parts 2;
                port = (if second \<noteq> [] \<and> all_digits second then Some (nat_of_digits second) else None);
                proto1 = (if second \<noteq> [] \<and> \<not> all_digits second then Some (py_lower second) else None);
                proto = (if third \<noteq> [] then Some (py_lower third) else proto1);
                p = (case port of Some n \<Rightarrow> n
                     | None \<Rightarrow> (case dict_get OT_DEFAULT_PORTS (case proto of Some q \<Rightarrow> q | None \<Rightarrow> [])
                               of Some n \<Rightarrow> n | None \<Rightarrow> 0))
            in if p = 0 then None
               else Some \<lparr>ot_host = host, ot_port = p, proto_hint = proto\<rparr>)))"

definition parse_scan_inputs ::
  "string option \<Rightarrow> string list option \<Rightarrow> string list option
    \<Rightarrow> string list \<times> string option \<times> ot_target list" where
  "parse_scan_inputs target paths ot =
     (filter (\<lambda>p. py_strip p \<noteq> []) (case paths of Some ps \<Rightarrow> ps | None \<Rightarrow> []),
      (case target of Some t \<Rightarrow> if t = [] then None else normalise_server_target t | None \<Rightarrow> None),
      List.map_filter parse_ot_target (case ot of Some os \<Rightarrow> os | None \<Rightarrow> []))"

section \<open>Stripping\<close>

definition stripped :: "string \<Rightarrow> bool" where
  "stripped s \<longleftrightarrow> s = [] \<or> \<not> is_space (hd s) \<and> \<not> is_space (last s)"

lemma stripped_py_strip: "stripped (py_strip s)"
proof -
  let ?t = "dropWhile is_space s"
  have r: "py_strip s = rev (dropWhile is_space (rev ?t))"
    by (simp add: py_strip_def rstrip_set_def lstrip_set_def)
  show ?thesis
  proof (cases "py_strip s = []")
    case False
    then have d: "dropWhile is_space (rev ?t) \<noteq> []" by (simp add: r)
    then have l: "\<not> is_space (last (py_strip s))"
      by (simp add: r last_rev hd_dropWhile)
    obtain u where u: "?t = py_strip s @ u"
      by (metis r rev_append rev_rev_ident takeWhile_dropWhile_id)
    with False have "hd ?t = hd (py_strip s)" "?t \<noteq> []" by auto
    with l False show ?thesis by (metis hd_dropWhile stripped_def)
  qed (simp add: stripped_def)
qed

lemma py_strip_stripped: "stripped s \<Longrightarrow> py_strip s = s"
  by (cases "s = []")
     (auto simp: stripped_def py_strip_def lstrip_set_def rstrip_set_id
        dropWhile_eq_self_iff [THEN iffD2] rstrip_set_def [of _ "[]"])

lemma set_py_strip: "set (py_strip s) \<subseteq> set s"
  by (auto simp: py_strip_def rstrip_set_def lstrip_set_def dest!: set_dropWhileD)

lemma stripped_no_space: "\<forall>c \<in> set s. \<not> is_space c \<Longrightarrow> stripped s"
  by (cases s) (auto simp: stripped_def)

section \<open>Properties\<close>

lemma after_first_None: "CHR ''/'' \<notin> set s \<Longrightarrow> after_first ''://'' s = None"
  by (induction s) (auto simp: startswith_def prefix_def)

lemma normalise_server_target_shape:
  "normalise_server_target raw = Some t \<Longrightarrow> t \<noteq> [] \<and> stripped t \<and> CHR ''/'' \<notin> set t"
  using set_py_strip set_takeWhileD
  by (fastforce simp: normalise_server_target_def Let_def partition_char_def stripped_py_strip
      split: if_splits)

text \<open>A normalised server target is a fixed point: it is non-empty, has no scheme, path or
  outer blanks left, and normalising it again changes nothing, so a target that travels from the
  web form through the API to the scan context is interpreted identically at every hop.\<close>

theorem normalise_server_target_idem:
  "normalise_server_target raw = Some t \<Longrightarrow>
     t \<noteq> [] \<and> CHR ''/'' \<notin> set t \<and> normalise_server_target t = Some t"
proof -
  assume "normalise_server_target raw = Some t"
  then have t: "t \<noteq> []" "stripped t" "CHR ''/'' \<notin> set t"
    using normalise_server_target_shape by blast+
  from t(3) have tw: "takeWhile (\<lambda>x. x \<noteq> CHR ''/'') t = t"
    by (auto simp: takeWhile_eq_all_conv)
  from t show ?thesis
    by (simp add: normalise_server_target_def Let_def py_strip_stripped after_first_None partition_char_def tw)
qed

theorem normalise_server_target_idem_witness:
  "normalise_server_target ''example.com:8443'' = Some ''example.com:8443''"
proof -
  have "normalise_server_target '' https://example.com:8443/a?b '' = Some ''example.com:8443''"
    by (simp add: normalise_server_target_def Let_def partition_char_def py_strip_def
        rstrip_set_def lstrip_set_def py_simps)
  from normalise_server_target_idem [OF this] show ?thesis by blast
qed

text \<open>The text form of an OT target.\<close>

definition show_ot_target :: "ot_target \<Rightarrow> string" where
  "show_ot_target t = ot_host t @ '':'' @ show_nat (ot_port t) @
     (case proto_hint t of None \<Rightarrow> [] | Some p \<Rightarrow> '':'' @ p)"

definition clean_field :: "string \<Rightarrow> bool" where
  "clean_field s \<longleftrightarrow> s \<noteq> [] \<and> list_all (\<lambda>c. \<not> is_space c \<and> c \<noteq> CHR '':'') s"

lemma clean_field_digits: "clean_field (show_nat n)"
  using show_nat_digits [of n] by (auto simp: clean_field_def list_all_iff is_digit_def is_space_def char_code_def)

lemma clean_fieldD:
  "clean_field s \<Longrightarrow> s \<noteq> []" "clean_field s \<Longrightarrow> CHR '':'' \<notin> set s"
  "clean_field s \<Longrightarrow> py_strip s = s" "clean_field s \<Longrightarrow> c \<in> set s \<Longrightarrow> \<not> is_space c"
  by (auto simp: clean_field_def list_all_iff intro: py_strip_stripped stripped_no_space)

lemmas clean_show_nat = clean_fieldD [OF clean_field_digits]

text \<open>Printing and parsing an OT endpoint round-trips: for a host and a lower-case protocol
  without blanks or colons and a positive port, \<^verbatim>\<open>parse_ot_target\<close> recovers exactly the target
  whose text it was given; and whatever it accepts names a host and a positive port.\<close>

theorem parse_ot_target_roundtrip:
  "(parse_ot_target raw = Some u \<longrightarrow> ot_host u \<noteq> [] \<and> 0 < ot_port u) \<and>
   (clean_field (ot_host t) \<and> 0 < ot_port t \<and>
    (\<forall>p. proto_hint t = Some p \<longrightarrow> clean_field p \<and> py_lower p = p) \<longrightarrow>
    parse_ot_target (show_ot_target t) = Some t)"
proof (intro conjI impI)
  assume a: "clean_field (ot_host t) \<and> 0 < ot_port t \<and>
    (\<forall>p. proto_hint t = Some p \<longrightarrow> clean_field p \<and> py_lower p = p)"
  then have h: "clean_field (ot_host t)" and n: "0 < ot_port t" by blast+
  have ns: "\<not> is_space (CHR '':'')" by (simp add: py_simps)
  have "\<forall>c \<in> set (show_ot_target t). \<not> is_space c"
    using a ns clean_fieldD(4) [OF h] clean_show_nat(4) clean_fieldD(4)
    by (cases "proto_hint t") (auto simp: show_ot_target_def)
  then have s: "py_strip (show_ot_target t) = show_ot_target t"
    by (intro py_strip_stripped stripped_no_space)
  show "parse_ot_target (show_ot_target t) = Some t"
  proof (cases "proto_hint t")
    case None
    have "split_on (CHR '':'') (show_ot_target t) = [ot_host t, show_nat (ot_port t)]"
      by (simp add: show_ot_target_def None split_on_sep split_on_no_sep clean_fieldD(2) [OF h]
          clean_show_nat(2))
    with s h n None show ?thesis
      by (simp add: parse_ot_target_def Let_def part_at_def clean_fieldD(1,3) clean_show_nat
          show_ot_target_def [of t])
  next
    case (Some p)
    with a have p: "clean_field p" "py_lower p = p" by blast+
    have "split_on (CHR '':'') (show_ot_target t) = [ot_host t, show_nat (ot_port t), p]"
      by (simp add: show_ot_target_def Some split_on_sep split_on_no_sep clean_fieldD(2) [OF h]
          clean_fieldD(2) [OF p(1)] clean_show_nat(2))
    with s h n Some p show ?thesis
      by (simp add: parse_ot_target_def Let_def part_at_def clean_fieldD(1,3) clean_show_nat
          show_ot_target_def [of t])
  qed
qed (auto simp: parse_ot_target_def Let_def split: if_splits)

theorem parse_ot_target_roundtrip_witness:
  "parse_ot_target (show_ot_target \<lparr>ot_host = ''plc1'', ot_port = 502, proto_hint = Some ''modbus''\<rparr>) =
     Some \<lparr>ot_host = ''plc1'', ot_port = 502, proto_hint = Some ''modbus''\<rparr>"
  using parse_ot_target_roundtrip [of "[]" undefined
      "\<lparr>ot_host = ''plc1'', ot_port = 502, proto_hint = Some ''modbus''\<rparr>"]
  by (simp add: clean_field_def py_simps)

end
