(* ===== verification/Compliance.thy ===== *)
theory Compliance
  imports Core_Types
begin

text \<open>
  \<^verbatim>\<open>compliance/engine.py\<close>: the rule matcher and the evaluation of a finding against every
  loaded framework. A rule's \<^verbatim>\<open>match\<close> dictionary holds whatever the YAML file said, so the
  conversions \<^verbatim>\<open>int(expected)\<close> and \<^verbatim>\<open>for x in expected\<close> can raise: an evaluation is
  the verdicts it yields and the error that cuts it short, if any. The probe registry is the list of its (id, family) pairs.
  Reading the YAML files is not modelled; a deadline is its ISO text.
\<close>

section \<open>Data\<close>

datatype match_error = ValueError | TypeError

record framework_verdict =
  fv_framework :: string
  fv_clause :: string
  fv_verdict :: string
  fv_deadline :: "string option"
  fv_note :: string

record rule =
  r_match :: pydict
  r_clause :: string
  r_verdict :: string
  r_deadline :: "string option"
  r_note :: string

record framework_rules =
  fw_framework :: string
  fw_title :: string
  fw_rules :: "rule list"

section \<open>Conversions\<close>

text \<open>\<^verbatim>\<open>int(s)\<close> on text: surrounding blanks, a sign, digit groups joined by single underscores.\<close>

definition int_of_groups :: "string \<Rightarrow> match_error + int" where
  "int_of_groups s =
     (let gs = split_on (CHR ''_'') s in
      if list_all all_digits gs then Inr (int (nat_of_digits (concat gs))) else Inl ValueError)"

definition int_of_text :: "string \<Rightarrow> match_error + int" where
  "int_of_text raw =
     (case py_strip raw of
        [] \<Rightarrow> Inl ValueError
      | c # s \<Rightarrow>
          if c = CHR ''-'' then (case int_of_groups s of Inr n \<Rightarrow> Inr (- n) | Inl e \<Rightarrow> Inl e)
          else if c = CHR ''+'' then int_of_groups s
          else int_of_groups (c # s))"

text \<open>\<^verbatim>\<open>int(v)\<close>; of a float, the digits before the point of its \<^verbatim>\<open>repr\<close>.\<close>

fun py_int :: "json \<Rightarrow> match_error + int" where
  "py_int (JInt i) = Inr i"
| "py_int (JBool b) = Inr (if b then 1 else 0)"
| "py_int (JStr s) = int_of_text s"
| "py_int (JFloat r) = int_of_text (takeWhile (\<lambda>c. c \<noteq> CHR ''.'') r)"
| "py_int _ = Inl TypeError"

text \<open>The texts \<^verbatim>\<open>{str(x) for x in v}\<close>: a string iterates by character, a dictionary by key.\<close>

fun str_items :: "json \<Rightarrow> match_error + string list" where
  "str_items (JList xs) = Inr (map py_str xs)"
| "str_items (JStr s) = Inr (map (\<lambda>c. [c]) s)"
| "str_items (JObj d) = Inr (map fst d)"
| "str_items _ = Inl TypeError"

text \<open>\<^verbatim>\<open>re.findall(r"\d+", s)\<close>: the maximal runs of digits.\<close>

fun digit_runs_aux :: "string \<Rightarrow> string \<Rightarrow> string list" where
  "digit_runs_aux acc [] = (if acc = [] then [] else [rev acc])"
| "digit_runs_aux acc (c # s) =
     (if is_digit c then digit_runs_aux (c # acc) s
      else (if acc = [] then digit_runs_aux [] s else rev acc # digit_runs_aux [] s))"

definition digit_runs :: "string \<Rightarrow> string list" where
  "digit_runs s = digit_runs_aux [] s"

section \<open>Matching and evaluation\<close>

definition family_index :: "(string \<times> probe_family) list \<Rightarrow> string dict" where
  "family_index registry = foldl (\<lambda>d (i, fam). dict_set i (probe_family_value fam) d) [] registry"

definition family_of :: "(string \<times> probe_family) list \<Rightarrow> string \<Rightarrow> string option" where
  "family_of registry pid = dict_get (family_index registry) pid"

definition matches :: "(string \<times> probe_family) list \<Rightarrow> string \<Rightarrow> json \<Rightarrow> finding \<Rightarrow> match_error + bool" where
  "matches registry key expected f =
     (let a = py_upper (algorithm f) in
      if key = ''algorithm'' then Inr (contains a (py_upper (py_str expected)))
      else if key = ''algorithm_exact'' then Inr (a = py_upper (py_str expected))
      else if key \<in> {''key_size_lt'', ''key_size_ge''} then
        (let nums = digit_runs (algorithm f) in
         if nums = [] then Inr False
         else
           (let bits = int (Max (set (map nat_of_digits nums))) in
            case py_int expected of Inl e \<Rightarrow> Inl e
            | Inr n \<Rightarrow> Inr (if key = ''key_size_lt'' then bits < n else bits \<ge> n)))
      else if key = ''classification'' then Inr (classification_value (classification f) = py_str expected)
      else if key = ''classification_in'' then
        (case str_items expected of Inl e \<Rightarrow> Inl e
         | Inr xs \<Rightarrow> Inr (classification_value (classification f) \<in> set xs))
      else if key = ''probe_id'' then Inr (probe_id f = py_str expected)
      else if key = ''probe_id_prefix'' then Inr (startswith (probe_id f) (py_str expected))
      else if key = ''probe_family'' then Inr (family_of registry (probe_id f) = Some (py_str expected))
      else Inr False)"

text \<open>\<^verbatim>\<open>all(...)\<close> stops at the first false key; an error before it propagates.\<close>

fun all_match :: "(string \<times> probe_family) list \<Rightarrow> pydict \<Rightarrow> finding \<Rightarrow> match_error + bool" where
  "all_match registry [] f = Inr True"
| "all_match registry ((key, expected) # m) f =
     (case matches registry key expected f of
        Inl e \<Rightarrow> Inl e
      | Inr b \<Rightarrow> if b then all_match registry m f else Inr False)"

definition applies :: "(string \<times> probe_family) list \<Rightarrow> rule \<Rightarrow> finding \<Rightarrow> match_error + bool" where
  "applies registry r f = all_match registry (r_match r) f"

definition verdict_of :: "framework_rules \<Rightarrow> rule \<Rightarrow> framework_verdict" where
  "verdict_of fw r =
     \<lparr>fv_framework = fw_framework fw, fv_clause = r_clause r, fv_verdict = r_verdict r,
      fv_deadline = r_deadline r, fv_note = r_note r\<rparr>"

fun evaluate_rules ::
  "(string \<times> probe_family) list \<Rightarrow> framework_rules \<Rightarrow> rule list \<Rightarrow> finding \<Rightarrow>
   framework_verdict list \<times> match_error option" where
  "evaluate_rules registry fw [] f = ([], None)"
| "evaluate_rules registry fw (r # rs) f =
     (case applies registry r f of Inl e \<Rightarrow> ([], Some e)
      | Inr b \<Rightarrow>
          (case evaluate_rules registry fw rs f of
             (vs, err) \<Rightarrow> (if b then verdict_of fw r # vs else vs, err)))"

text \<open>\<^verbatim>\<open>evaluate\<close> is a generator: a consumer has seen the verdicts yielded so far when a later rule
  raises. The result is what it yields, and the error that ends it, if any.\<close>

fun evaluate ::
  "(string \<times> probe_family) list \<Rightarrow> framework_rules list \<Rightarrow> finding \<Rightarrow>
   framework_verdict list \<times> match_error option" where
  "evaluate registry [] f = ([], None)"
| "evaluate registry (fw # fws) f =
     (case evaluate_rules registry fw (fw_rules fw) f of
        (vs, Some e) \<Rightarrow> (vs, Some e)
      | (vs, None) \<Rightarrow> (case evaluate registry fws f of (ws, err) \<Rightarrow> (vs @ ws, err)))"

section \<open>Well-typed rules\<close>

text \<open>A match entry whose conversion cannot raise: an integer bound, a list of classes.\<close>

definition entry_ok :: "string \<times> json \<Rightarrow> bool" where
  "entry_ok e \<longleftrightarrow>
     (fst e \<in> {''key_size_lt'', ''key_size_ge''} \<longrightarrow> (\<exists>i. snd e = JInt i)) \<and>
     (fst e = ''classification_in'' \<longrightarrow> (\<exists>xs. snd e = JList xs))"

definition frameworks_ok :: "framework_rules list \<Rightarrow> bool" where
  "frameworks_ok fws \<longleftrightarrow> list_all (\<lambda>fw. list_all (\<lambda>r. list_all entry_ok (r_match r)) (fw_rules fw)) fws"

definition known_keys :: "string set" where
  "known_keys = {''algorithm'', ''algorithm_exact'', ''key_size_lt'', ''key_size_ge'', ''classification'',
     ''classification_in'', ''probe_id'', ''probe_id_prefix'', ''probe_family''}"

text \<open>The documented meaning of a rule: every declared key evaluates to true.\<close>

definition fires :: "(string \<times> probe_family) list \<Rightarrow> rule \<Rightarrow> finding \<Rightarrow> bool" where
  "fires registry r f \<longleftrightarrow> list_all (\<lambda>(k, v). matches registry k v f = Inr True) (r_match r)"

lemma if_ok: "(c \<Longrightarrow> \<exists>b. x = Inr b) \<Longrightarrow> (\<not> c \<Longrightarrow> \<exists>b. y = Inr b) \<Longrightarrow> \<exists>b. (if c then x else y) = Inr b"
  by simp

lemma Inr_ok: "\<exists>b. Inr x = Inr b"
  by simp

lemma matches_unknown: "k \<notin> known_keys \<Longrightarrow> matches registry k v f = Inr False"
  unfolding matches_def Let_def known_keys_def by simp

lemma matches_key_size:
  "matches registry ''key_size_lt'' (JInt n) f =
     Inr (digit_runs (algorithm f) \<noteq> [] \<and> int (Max (set (map nat_of_digits (digit_runs (algorithm f))))) < n)"
  "matches registry ''key_size_ge'' (JInt n) f =
     Inr (digit_runs (algorithm f) \<noteq> [] \<and> n \<le> int (Max (set (map nat_of_digits (digit_runs (algorithm f))))))"
  by (simp_all add: matches_def Let_def)

lemma entry_okD:
  "entry_ok (k, v) \<Longrightarrow> k \<in> {''key_size_lt'', ''key_size_ge''} \<Longrightarrow> \<exists>i. v = JInt i"
  "entry_ok (k, v) \<Longrightarrow> k = ''classification_in'' \<Longrightarrow> \<exists>xs. v = JList xs"
  unfolding entry_ok_def fst_conv snd_conv
  by (erule conjunct1 [THEN mp], assumption) (erule conjunct2 [THEN mp], assumption)

lemma matches_total:
  assumes "entry_ok (k, v)"
  shows "\<exists>b. matches registry k v f = Inr b"
proof (cases "k \<in> {''key_size_lt'', ''key_size_ge''}")
  case True
  obtain i where "v = JInt i"
    using entry_okD(1) [OF assms True] by (rule exE)
  with True show ?thesis
    by (elim insertE emptyE) (simp_all only: matches_key_size Inr_ok)
next
  case size: False
  show ?thesis
  proof (cases "k = ''classification_in''")
    case True
    obtain xs where "v = JList xs"
      using entry_okD(2) [OF assms True] by (rule exE)
    with True show ?thesis by (simp add: matches_def Let_def)
  next
    case False
    show ?thesis
      unfolding matches_def Let_def
      by (intro if_ok Inr_ok) (simp_all only: size False simp_thms)
  qed
qed

lemma all_match_ok:
  "list_all entry_ok m \<Longrightarrow>
     all_match registry m f = Inr (list_all (\<lambda>(k, v). matches registry k v f = Inr True) m)"
proof (induction m)
  case (Cons e m)
  obtain k v where e: "e = (k, v)" by force
  with Cons matches_total [of k v registry f] show ?case by auto
qed simp

lemma applies_ok: "list_all entry_ok (r_match r) \<Longrightarrow> applies registry r f = Inr (fires registry r f)"
  by (simp add: applies_def fires_def all_match_ok)

lemma evaluate_rules_ok:
  "list_all (\<lambda>r. list_all entry_ok (r_match r)) rs \<Longrightarrow>
     evaluate_rules registry fw rs f = (map (verdict_of fw) (filter (\<lambda>r. fires registry r f) rs), None)"
  by (induction rs) (auto simp: applies_ok)

text \<open>For rule files whose size bounds are integers and whose class lists are lists, the
  engine raises on no finding, and yields, framework by framework and in file order, exactly one
  verdict for each rule all of whose declared keys hold.\<close>

theorem evaluate_spec:
  "frameworks_ok fws \<Longrightarrow>
     evaluate registry fws f =
       (concat (map (\<lambda>fw. map (verdict_of fw) (filter (\<lambda>r. fires registry r f) (fw_rules fw))) fws), None)"
  by (induction fws) (auto simp: frameworks_ok_def evaluate_rules_ok)

definition rsa_rule :: rule where
  "rsa_rule = \<lparr>r_match = [(''algorithm'', JStr ''rsa''), (''key_size_lt'', JInt 3072)],
     r_clause = ''CNSA2:RSA-deprecated'', r_verdict = ''non-compliant'',
     r_deadline = Some ''2030-12-31'', r_note = ''''\<rparr>"

definition cnsa_sample :: framework_rules where
  "cnsa_sample = \<lparr>fw_framework = ''cnsa2'', fw_title = ''CNSA 2.0'', fw_rules = [rsa_rule]\<rparr>"

definition rsa_finding :: finding where
  "rsa_finding = \<lparr>probe_id = ''net.tls'', algorithm = ''RSA-2048'', classification = TINGGI,
     severity = HIGH, title = ''t'', component_purl = None, evidence = [], remediation = [],
     confidence = ''high'', created_at = 0\<rparr>"

theorem evaluate_spec_witness:
  "evaluate [] [cnsa_sample] rsa_finding = ([verdict_of cnsa_sample rsa_rule], None)"
proof -
  have ok: "frameworks_ok [cnsa_sample]"
    by (simp add: frameworks_ok_def cnsa_sample_def rsa_rule_def entry_ok_def)
  have "fires [] rsa_rule rsa_finding"
    by (simp add: fires_def rsa_rule_def rsa_finding_def matches_def Let_def digit_runs_def
        nat_of_digits_def digit_val_def char_code_def py_simps)
  then show ?thesis
    using evaluate_spec [OF ok, of "[]" rsa_finding] by (simp add: cnsa_sample_def)
qed

text \<open>Matching is conservative and partitions by key size: a rule with an unknown key never
  fires, and on a finding whose algorithm names a size exactly one of \<^verbatim>\<open>key_size_lt: n\<close> and
  \<^verbatim>\<open>key_size_ge: n\<close> holds (neither when no number occurs in the name).\<close>

lemma matches_key_size_partition:
  "((\<exists>v. (k, v) \<in> set (r_match r)) \<and> k \<notin> known_keys \<longrightarrow> \<not> fires registry r f) \<and>
   (digit_runs (algorithm f) \<noteq> [] \<longrightarrow>
      (matches registry ''key_size_lt'' (JInt n) f = Inr b \<longleftrightarrow>
       matches registry ''key_size_ge'' (JInt n) f = Inr (\<not> b))) \<and>
   (digit_runs (algorithm f) = [] \<longrightarrow>
      matches registry ''key_size_lt'' (JInt n) f = Inr False \<and> matches registry ''key_size_ge'' (JInt n) f = Inr False)"
proof (intro conjI impI)
  assume "(\<exists>v. (k, v) \<in> set (r_match r)) \<and> k \<notin> known_keys"
  then show "\<not> fires registry r f"
    using matches_unknown [of k registry _ f] by (force simp: fires_def list_all_iff)
qed (simp_all only: matches_key_size, auto)

end
