(* ===== verification/Alg.thy ===== *)
theory Alg
  imports Core_Types
begin

text \<open>
  \<^verbatim>\<open>core/alg.py\<close>: canonical algorithm names, the post-quantum threat classification, the
  harvest-now-decrypt-later test and the migration deadlines. Each regular expression of the
  module is a matcher function; \<^verbatim>\<open>$\<close> also matches before one final newline, as in Python.
\<close>

section \<open>Name tables\<close>

definition OID_MAP :: "string dict" where
  "OID_MAP = [
     (''1.2.840.113549.1.1.1'', ''RSA''),
     (''1.2.840.113549.1.1.5'', ''RSA-SHA1''),
     (''1.2.840.113549.1.1.11'', ''RSA-SHA256''),
     (''1.2.840.113549.1.1.12'', ''RSA-SHA384''),
     (''1.2.840.113549.1.1.13'', ''RSA-SHA512''),
     (''1.2.840.113549.1.1.14'', ''RSA-SHA224''),
     (''1.2.840.113549.1.1.10'', ''RSA-PSS''),
     (''1.2.840.10045.4.1'', ''ECDSA-SHA1''),
     (''1.2.840.10045.4.3.1'', ''ECDSA-SHA224''),
     (''1.2.840.10045.4.3.2'', ''ECDSA-SHA256''),
     (''1.2.840.10045.4.3.3'', ''ECDSA-SHA384''),
     (''1.2.840.10045.4.3.4'', ''ECDSA-SHA512''),
     (''1.3.101.112'', ''Ed25519''),
     (''1.3.101.113'', ''Ed448''),
     (''1.2.840.10040.4.1'', ''DSA''),
     (''1.2.840.10040.4.3'', ''DSA-SHA1''),
     (''2.16.840.1.101.3.4.3.2'', ''DSA-SHA256''),
     (''2.16.840.1.101.3.4.3.17'', ''ML-DSA-44''),
     (''2.16.840.1.101.3.4.3.18'', ''ML-DSA-65''),
     (''2.16.840.1.101.3.4.3.19'', ''ML-DSA-87''),
     (''1.3.6.1.4.1.2.267.7.4.4'', ''ML-DSA-44''),
     (''1.3.6.1.4.1.2.267.7.6.5'', ''ML-DSA-65''),
     (''1.3.6.1.4.1.2.267.7.8.7'', ''ML-DSA-87''),
     (''1.3.6.1.5.5.7.6.37'', ''ML-DSA-44+RSA2048-PSS''),
     (''1.3.6.1.5.5.7.6.38'', ''ML-DSA-44+RSA2048-PKCS15''),
     (''1.3.6.1.5.5.7.6.39'', ''ML-DSA-44+Ed25519''),
     (''1.3.6.1.5.5.7.6.40'', ''ML-DSA-44+ECDSA-P256''),
     (''1.3.6.1.5.5.7.6.41'', ''ML-DSA-65+RSA3072-PSS''),
     (''1.3.6.1.5.5.7.6.42'', ''ML-DSA-65+RSA3072-PKCS15''),
     (''1.3.6.1.5.5.7.6.43'', ''ML-DSA-65+RSA4096-PSS''),
     (''1.3.6.1.5.5.7.6.44'', ''ML-DSA-65+RSA4096-PKCS15''),
     (''1.3.6.1.5.5.7.6.45'', ''ML-DSA-65+ECDSA-P256''),
     (''1.3.6.1.5.5.7.6.46'', ''ML-DSA-65+ECDSA-P384''),
     (''1.3.6.1.5.5.7.6.47'', ''ML-DSA-65+ECDSA-brainpoolP256r1''),
     (''1.3.6.1.5.5.7.6.48'', ''ML-DSA-65+Ed25519''),
     (''1.3.6.1.5.5.7.6.49'', ''ML-DSA-87+ECDSA-P384''),
     (''1.3.6.1.5.5.7.6.50'', ''ML-DSA-87+ECDSA-brainpoolP384r1''),
     (''1.3.6.1.5.5.7.6.51'', ''ML-DSA-87+Ed448''),
     (''1.3.6.1.5.5.7.6.52'', ''ML-DSA-87+RSA3072-PSS''),
     (''1.3.6.1.5.5.7.6.53'', ''ML-DSA-87+RSA4096-PSS''),
     (''1.3.6.1.5.5.7.6.54'', ''ML-DSA-87+ECDSA-P521''),
     (''2.16.840.1.101.3.4.3.20'', ''SLH-DSA-SHA2-128s''),
     (''2.16.840.1.101.3.4.3.21'', ''SLH-DSA-SHA2-128f''),
     (''2.16.840.1.101.3.4.3.22'', ''SLH-DSA-SHA2-192s''),
     (''2.16.840.1.101.3.4.3.23'', ''SLH-DSA-SHA2-192f''),
     (''2.16.840.1.101.3.4.3.24'', ''SLH-DSA-SHA2-256s''),
     (''2.16.840.1.101.3.4.3.25'', ''SLH-DSA-SHA2-256f''),
     (''2.16.840.1.101.3.4.3.26'', ''SLH-DSA-SHAKE-128s''),
     (''2.16.840.1.101.3.4.3.27'', ''SLH-DSA-SHAKE-128f''),
     (''2.16.840.1.101.3.4.3.28'', ''SLH-DSA-SHAKE-192s''),
     (''2.16.840.1.101.3.4.3.29'', ''SLH-DSA-SHAKE-192f''),
     (''2.16.840.1.101.3.4.3.30'', ''SLH-DSA-SHAKE-256s''),
     (''2.16.840.1.101.3.4.3.31'', ''SLH-DSA-SHAKE-256f''),
     (''2.16.840.1.101.3.4.3.32'', ''HashML-DSA-44''),
     (''2.16.840.1.101.3.4.3.33'', ''HashML-DSA-65''),
     (''2.16.840.1.101.3.4.3.34'', ''HashML-DSA-87''),
     (''2.16.840.1.101.3.4.3.35'', ''HashSLH-DSA-SHA2-128s''),
     (''2.16.840.1.101.3.4.3.36'', ''HashSLH-DSA-SHA2-128f''),
     (''2.16.840.1.101.3.4.3.37'', ''HashSLH-DSA-SHA2-192s''),
     (''2.16.840.1.101.3.4.3.38'', ''HashSLH-DSA-SHA2-192f''),
     (''2.16.840.1.101.3.4.3.39'', ''HashSLH-DSA-SHA2-256s''),
     (''2.16.840.1.101.3.4.3.40'', ''HashSLH-DSA-SHA2-256f''),
     (''2.16.840.1.101.3.4.3.41'', ''HashSLH-DSA-SHAKE-128s''),
     (''2.16.840.1.101.3.4.3.42'', ''HashSLH-DSA-SHAKE-128f''),
     (''2.16.840.1.101.3.4.3.43'', ''HashSLH-DSA-SHAKE-192s''),
     (''2.16.840.1.101.3.4.3.44'', ''HashSLH-DSA-SHAKE-192f''),
     (''2.16.840.1.101.3.4.3.45'', ''HashSLH-DSA-SHAKE-256s''),
     (''2.16.840.1.101.3.4.3.46'', ''HashSLH-DSA-SHAKE-256f''),
     (''2.16.840.1.101.3.4.4.1'', ''ML-KEM-512''),
     (''2.16.840.1.101.3.4.4.2'', ''ML-KEM-768''),
     (''2.16.840.1.101.3.4.4.3'', ''ML-KEM-1024''),
     (''1.3.9999.3.6'', ''Falcon-512''),
     (''1.3.9999.3.9'', ''Falcon-1024''),
     (''1.3.14.3.2.26'', ''SHA-1''),
     (''2.16.840.1.101.3.4.2.1'', ''SHA-256''),
     (''2.16.840.1.101.3.4.2.2'', ''SHA-384''),
     (''2.16.840.1.101.3.4.2.3'', ''SHA-512''),
     (''1.2.840.113549.2.5'', ''MD5'')]"

definition FRIENDLY_MAP :: "string dict" where
  "FRIENDLY_MAP = [
     (''sha256withrsaencryption'', ''RSA-SHA256''),
     (''sha384withrsaencryption'', ''RSA-SHA384''),
     (''sha512withrsaencryption'', ''RSA-SHA512''),
     (''sha224withrsaencryption'', ''RSA-SHA224''),
     (''sha1withrsaencryption'', ''RSA-SHA1''),
     (''md5withrsaencryption'', ''RSA-MD5''),
     (''rsassa-pss'', ''RSA-PSS''),
     (''rsassapss'', ''RSA-PSS''),
     (''ecdsa-with-sha1'', ''ECDSA-SHA1''),
     (''ecdsa-with-sha224'', ''ECDSA-SHA224''),
     (''ecdsa-with-sha256'', ''ECDSA-SHA256''),
     (''ecdsa-with-sha384'', ''ECDSA-SHA384''),
     (''ecdsa-with-sha512'', ''ECDSA-SHA512''),
     (''ed25519'', ''Ed25519''),
     (''ed448'', ''Ed448''),
     (''dsa-with-sha1'', ''DSA-SHA1''),
     (''dsa-with-sha256'', ''DSA-SHA256''),
     (''id-ml-kem-512'', ''ML-KEM-512''),
     (''id-ml-kem-768'', ''ML-KEM-768''),
     (''id-ml-kem-1024'', ''ML-KEM-1024''),
     (''id-ml-dsa-44'', ''ML-DSA-44''),
     (''id-ml-dsa-65'', ''ML-DSA-65''),
     (''id-ml-dsa-87'', ''ML-DSA-87''),
     (''kyber512'', ''ML-KEM-512''),
     (''kyber768'', ''ML-KEM-768''),
     (''kyber1024'', ''ML-KEM-1024''),
     (''dilithium2'', ''ML-DSA-44''),
     (''dilithium3'', ''ML-DSA-65''),
     (''dilithium5'', ''ML-DSA-87'')]"

definition normalise :: "string \<Rightarrow> string" where
  "normalise s =
     (case dict_get OID_MAP s of
        Some n \<Rightarrow> n
      | None \<Rightarrow>
          (case dict_get FRIENDLY_MAP (py_strip (py_lower s)) of
             Some n \<Rightarrow> n
           | None \<Rightarrow> py_upper s))"

section \<open>Matchers for the module's regular expressions\<close>

definition chomp_nl :: "string \<Rightarrow> string" where
  "chomp_nl s = (if s \<noteq> [] \<and> last s = newline then butlast s else s)"

text \<open>\<^verbatim>\<open>^<p>-?(\d+)$\<close> on an upper-cased name: the number, if the name has that shape.\<close>

definition sized_match :: "string \<Rightarrow> string \<Rightarrow> nat option" where
  "sized_match p a =
     (if startswith a p
      then (let r = drop (length p) a;
                d = chomp_nl (case r of [] \<Rightarrow> r | c # t \<Rightarrow> if c = CHR ''-'' then t else r)
            in if all_digits d then Some (nat_of_digits d) else None)
      else None)"

definition RSA_RE :: "string \<Rightarrow> nat option" where
  "RSA_RE a = sized_match ''RSA'' a"

text \<open>The alternatives \<^verbatim>\<open>DH|DHE|FFDHE\<close> are tried in order, the first full match wins.\<close>

definition DH_RE :: "string \<Rightarrow> nat option" where
  "DH_RE a =
     (case sized_match ''DH'' a of
        Some n \<Rightarrow> Some n
      | None \<Rightarrow> (case sized_match ''DHE'' a of Some n \<Rightarrow> Some n | None \<Rightarrow> sized_match ''FFDHE'' a))"

definition DSA_RE :: "string \<Rightarrow> nat option" where
  "DSA_RE a = sized_match ''DSA'' a"

definition ec_bits_at :: "string \<Rightarrow> bool" where
  "ec_bits_at t =
     list_ex (\<lambda>p. startswith t p \<and>
                  (let d = take 3 (drop (length p) t) in length d = 3 \<and> list_all is_digit d))
       [''P-'', ''P'', ''SECP'', ''PRIME'']"

definition EC_BITS_RE :: "string \<Rightarrow> bool" where
  "EC_BITS_RE a = list_ex ec_bits_at (suffixes a)"

section \<open>Classification\<close>

definition PQC_READY_PREFIXES :: "string list" where
  "PQC_READY_PREFIXES =
     [''ML-KEM'', ''ML-DSA'', ''SLH-DSA'', ''FN-DSA'', ''FALCON'', ''SPHINCS'',
      ''DILITHIUM'', ''KYBER'', ''FRODOKEM'', ''NTRU'', ''CLASSIC-MCELIECE'',
      ''BIKE'', ''HQC'', ''XMSS'', ''LMS'', ''HASHML-DSA'', ''HASHSLH-DSA'',
      ''MAYO'', ''SNOVA'', ''CROSSRSDP'', ''CROSS-RSDP'', ''HAWK'', ''SQISIGN'', ''UOV'']"

definition PQC_HYBRID_FRAGMENTS :: "string list" where
  "PQC_HYBRID_FRAGMENTS = [''MLKEM'', ''MLDSA'', ''ML-KEM'', ''ML-DSA'']"

definition BROKEN :: "string list" where
  "BROKEN =
     [''MD5'', ''MD4'', ''MD2'', ''RSA-MD5'',
      ''SHA-1'', ''SHA1'', ''RSA-SHA1'', ''ECDSA-SHA1'', ''DSA-SHA1'',
      ''RC4'', ''RC2'', ''DES'', ''3DES'', ''TRIPLEDES'', ''TDES'']"

definition pqc_ready :: "string \<Rightarrow> bool" where
  "pqc_ready a \<longleftrightarrow> startswith_any a PQC_READY_PREFIXES \<or> contains_any a PQC_HYBRID_FRAGMENTS"

text \<open>The cascade of \<^verbatim>\<open>classify\<close> on the normalised, upper-cased name.\<close>

definition classify_name :: "string \<Rightarrow> classification" where
  "classify_name a =
     (if pqc_ready a then PQC_READY
      else if a \<in> set BROKEN \<or> a = ''DSA'' then SANGAT_TINGGI
      else case RSA_RE a of
        Some n \<Rightarrow> (if n < 3072 then SANGAT_TINGGI else TINGGI)
      | None \<Rightarrow>
      if startswith_any a [''RSA-'', ''RSA''] \<or> a = ''RSA'' then TINGGI
      else case DH_RE a of
        Some n \<Rightarrow> (if n < 3072 then SANGAT_TINGGI else TINGGI)
      | None \<Rightarrow>
      if DSA_RE a \<noteq> None then SANGAT_TINGGI
      else if startswith_any a [''ECDSA'', ''ECDH'', ''ED25519'', ''ED448'', ''SM2'']
           \<or> a \<in> {''ECDSA'', ''EDDSA''} \<or> EC_BITS_RE a then TINGGI
      else if startswith a ''TLS_'' \<and> (contains a ''AES_256'' \<or> contains a ''CHACHA20'') then RENDAH
      else if startswith a ''TLS_'' \<and> contains a ''AES_128'' then SEDERHANA
      else if startswith a ''AES-128'' \<or> a = ''AES-128''
        then (if contains a ''GCM'' \<or> contains a ''CCM'' then SEDERHANA else TINGGI)
      else if startswith_any a [''AES-192'', ''AES-256'', ''CHACHA20''] \<or> a \<in> {''AES-192'', ''AES-256''}
        then RENDAH
      else if a \<in> {''SHA-224'', ''SHA224''} then SEDERHANA
      else if a \<in> {''SHA-256'', ''SHA256'', ''SHA3-256''} then SEDERHANA
      else if a \<in> {''SHA-384'', ''SHA384'', ''SHA-512'', ''SHA512'', ''SHA3-384'', ''SHA3-512''}
        then RENDAH
      else CLS_INFO)"

definition classify :: "string \<Rightarrow> classification" where
  "classify alg = classify_name (py_upper (normalise alg))"

section \<open>Harvest-now-decrypt-later and deadlines\<close>

definition KEY_ESTABLISHMENT_RE :: "string \<Rightarrow> bool" where
  "KEY_ESTABLISHMENT_RE a =
     startswith_any a [''RSA'', ''DH'', ''DHE'', ''FFDHE'', ''ECDH'', ''ECDHE'', ''X25519'', ''X448'']"

definition is_key_establishment :: "string \<Rightarrow> bool" where
  "is_key_establishment alg =
     (let a = py_upper (normalise alg) in if pqc_ready a then False else KEY_ESTABLISHMENT_RE a)"

definition hndl_exposed :: "string \<Rightarrow> bool" where
  "hndl_exposed alg = is_key_establishment alg"

definition CNSA2_HNDL_DEADLINE :: string where
  "CNSA2_HNDL_DEADLINE = ''2030-01-01''"

definition CNSA2_FULL_DEADLINE :: string where
  "CNSA2_FULL_DEADLINE = ''2035-01-01''"

definition migration_deadline :: "string \<Rightarrow> classification option \<Rightarrow> string option" where
  "migration_deadline alg cls_arg =
     (let cls = (case cls_arg of Some c \<Rightarrow> c | None \<Rightarrow> classify alg)
      in if cls \<in> {PQC_READY, RENDAH, CLS_INFO, CLS_ERROR} then None
         else if hndl_exposed alg then Some CNSA2_HNDL_DEADLINE
         else Some CNSA2_FULL_DEADLINE)"

section \<open>Properties\<close>

subsection \<open>Letter case\<close>

definition caseless :: "string \<Rightarrow> bool" where
  "caseless s = list_all (\<lambda>c. \<not> is_upper c \<and> \<not> is_lower c) s"

lemma lower_char_fixed: "\<not> is_upper (lower_char c) \<Longrightarrow> \<not> is_lower (lower_char c) \<Longrightarrow> lower_char c = c"
  by (auto simp: lower_char_def is_upper_def is_lower_def char_code_char_of split: if_splits)

lemma upper_char_fixed: "\<not> is_upper (upper_char c) \<Longrightarrow> \<not> is_lower (upper_char c) \<Longrightarrow> upper_char c = c"
  by (auto simp: upper_char_def is_upper_def is_lower_def char_code_char_of split: if_splits)

lemma caseless_map:
  "caseless (map lower_char s) \<Longrightarrow> map lower_char s = s"
  "caseless (map upper_char s) \<Longrightarrow> map upper_char s = s"
  by (auto simp: caseless_def list_all_iff intro!: map_idI lower_char_fixed upper_char_fixed)

lemma caseless_py_case: "caseless s \<Longrightarrow> py_lower s = s" "caseless s \<Longrightarrow> py_upper s = s"
  by (induction s)
     (auto simp: caseless_def py_lower_def py_upper_def lower_char_def upper_char_def)

lemma OID_MAP_caseless: "list_all (\<lambda>p. caseless (fst p)) OID_MAP"
  by code_simp

lemma OID_MAP_key_caseless: "dict_get OID_MAP s = Some n \<Longrightarrow> caseless s"
  using OID_MAP_caseless by (fastforce simp: list_all_iff dest: map_of_SomeD)

lemma dict_get_OID_lower: "dict_get OID_MAP (py_lower s) = dict_get OID_MAP s"
proof (cases "caseless (py_lower s) \<or> caseless s")
  case True
  then have "py_lower s = s"
    using caseless_map(1) [of s] caseless_py_case(1) [of s] by (auto simp: py_lower_def)
  then show ?thesis by simp
next
  case False
  then have "dict_get OID_MAP (py_lower s) = None" "dict_get OID_MAP s = None"
    by (metis OID_MAP_key_caseless option.exhaust)+
  then show ?thesis by simp
qed

lemma dict_get_OID_upper: "dict_get OID_MAP (py_upper s) = dict_get OID_MAP s"
  using dict_get_OID_lower [of "py_upper s"] dict_get_OID_lower [of s] by simp

lemma normalise_lower [simp]: "normalise (py_lower s) = normalise s"
  by (simp add: normalise_def dict_get_OID_lower split: option.splits)

lemma normalise_upper [simp]: "normalise (py_upper s) = normalise s"
  by (simp add: normalise_def dict_get_OID_upper split: option.splits)

text \<open>The classification, the harvest-now-decrypt-later flag and the deadline of a name do
  not depend on its letter case: for every name they are those of its lower-cased and of its
  upper-cased spelling, although the OID table is looked up case-sensitively.\<close>

theorem classify_ignores_case:
  "classify (py_lower s) = classify s \<and> classify (py_upper s) = classify s \<and>
   hndl_exposed (py_lower s) = hndl_exposed s \<and> hndl_exposed (py_upper s) = hndl_exposed s \<and>
   migration_deadline (py_lower s) c = migration_deadline s c \<and>
   migration_deadline (py_upper s) c = migration_deadline s c"
  by (simp only: classify_def hndl_exposed_def is_key_establishment_def migration_deadline_def
      normalise_lower normalise_upper simp_thms)

subsection \<open>Modulus sizes\<close>

lemma not_space_digit: "is_digit c \<Longrightarrow> \<not> is_space c"
  by (auto simp: is_digit_def is_space_def)

lemma py_strip_id: "s \<noteq> [] \<Longrightarrow> \<not> is_space (hd s) \<Longrightarrow> \<not> is_space (last s) \<Longrightarrow> py_strip s = s"
  by (simp add: py_strip_def lstrip_set_def rstrip_set_def dropWhile_eq_self_iff [THEN iffD2] hd_rev)

lemma last_show_nat_digit: "is_digit (last (show_nat n))"
  by (metis all_digits_def all_digits_show_nat last_in_set list.pred_set)

lemma py_strip_show_nat: "p \<noteq> [] \<Longrightarrow> \<not> is_space (hd p) \<Longrightarrow> py_strip (p @ show_nat n) = p @ show_nat n"
  by (rule py_strip_id) (simp_all add: not_space_digit last_show_nat_digit)

lemma FRIENDLY_MAP_no_rsa_size: "list_all (\<lambda>p. \<not> prefix ''rsa-'' (fst p)) FRIENDLY_MAP"
  by code_simp

lemma FRIENDLY_MAP_rsa_size: "dict_get FRIENDLY_MAP (''rsa-'' @ s) = None"
proof (cases "dict_get FRIENDLY_MAP (''rsa-'' @ s)")
  case (Some v)
  then show ?thesis
    using FRIENDLY_MAP_no_rsa_size by (fastforce simp: list_all_iff dest: map_of_SomeD)
qed simp

lemma py_case_RSA: "py_lower ''RSA-'' = ''rsa-''" "py_upper ''RSA-'' = ''RSA-''"
  by (simp_all add: py_simps)

lemma OID_MAP_rsa: "dict_get OID_MAP (''RSA-'' @ s) = None"
  using OID_MAP_key_caseless [of "''RSA-'' @ s"]
  by (cases "dict_get OID_MAP (''RSA-'' @ s)") (auto simp: caseless_def is_upper_def char_code_def)

lemma normalise_rsa_size: "normalise (''RSA-'' @ show_nat n) = ''RSA-'' @ show_nat n"
proof -
  have "py_lower (''RSA-'' @ show_nat n) = ''rsa-'' @ show_nat n"
    by (simp only: py_case_append py_case_RSA py_lower_digits [OF show_nat_digits])
  moreover have "py_strip (''rsa-'' @ show_nat n) = ''rsa-'' @ show_nat n"
    by (rule py_strip_show_nat) (simp_all add: is_space_def char_code_def)
  moreover have "py_upper (''RSA-'' @ show_nat n) = ''RSA-'' @ show_nat n"
    by (simp only: py_case_append py_case_RSA py_upper_show_nat)
  ultimately show ?thesis
    unfolding normalise_def by (simp only: OID_MAP_rsa FRIENDLY_MAP_rsa_size option.case)
qed

lemma digits_no_M: "list_all is_digit s \<Longrightarrow> CHR ''M'' \<notin> set s"
  by (auto simp: list_all_iff is_digit_def char_code_def)

lemma not_sublist_char: "c \<in> set p \<Longrightarrow> c \<notin> set s \<Longrightarrow> \<not> sublist p s"
  by (meson set_mono_sublist subsetD)

lemma pqc_ready_rsa_size: "\<not> pqc_ready (''RSA-'' @ show_nat n)"
proof -
  have "CHR ''M'' \<notin> set (''RSA-'' @ show_nat n)"
    using digits_no_M [OF show_nat_digits] by simp
  then have "\<not> sublist p (''RSA-'' @ show_nat n)" if "CHR ''M'' \<in> set p" for p
    using that by (rule not_sublist_char [rotated])
  then show ?thesis
    by (simp add: pqc_ready_def startswith_any_def startswith_def PQC_READY_PREFIXES_def
        contains_any_def contains_def PQC_HYBRID_FRAGMENTS_def)
qed

lemma show_nat_hd_digit: "show_nat n = c # t \<Longrightarrow> is_digit c"
  using show_nat_digits [of n] by simp

lemma rsa_size_not_broken: "''RSA-'' @ show_nat n \<notin> set BROKEN \<and> ''RSA-'' @ show_nat n \<noteq> ''DSA''"
  using show_nat_hd_digit [of n] by (auto simp: BROKEN_def is_digit_def char_code_def)

lemma chomp_nl_digits: "list_all is_digit s \<Longrightarrow> chomp_nl s = s"
  by (cases s rule: rev_cases) (auto simp: chomp_nl_def is_digit_def char_code_def)

lemma RSA_RE_size: "RSA_RE (''RSA-'' @ show_nat n) = Some n"
  by (simp add: RSA_RE_def sized_match_def startswith_def chomp_nl_digits show_nat_digits)

text \<open>Every RSA modulus size is graded against the 3072-bit threshold: for all \<open>n\<close>, the
  name \<^verbatim>\<open>RSA-n\<close> is in the worst tier below 3072 bits and quantum-broken from 3072 bits on, and
  it always carries the early (2030) key-establishment deadline.\<close>

theorem classify_rsa_size:
  "classify (''RSA-'' @ show_nat n) = (if n < 3072 then SANGAT_TINGGI else TINGGI) \<and>
   migration_deadline (''RSA-'' @ show_nat n) None = Some CNSA2_HNDL_DEADLINE"
proof -
  have a: "py_upper (normalise (''RSA-'' @ show_nat n)) = ''RSA-'' @ show_nat n"
    by (simp only: normalise_rsa_size py_case_append py_case_RSA py_upper_show_nat)
  have c: "classify (''RSA-'' @ show_nat n) = (if n < 3072 then SANGAT_TINGGI else TINGGI)"
    unfolding classify_def classify_name_def a
    by (simp only: pqc_ready_rsa_size rsa_size_not_broken RSA_RE_size option.case if_False simp_thms)
  have "hndl_exposed (''RSA-'' @ show_nat n)"
    unfolding hndl_exposed_def is_key_establishment_def a
    using pqc_ready_rsa_size [of n]
    by (simp add: KEY_ESTABLISHMENT_RE_def startswith_any_def startswith_def)
  with c show ?thesis by (simp add: migration_deadline_def)
qed

subsection \<open>The key-establishment deadline\<close>

lemma classify_name_rsa_ecdh:
  assumes "startswith a ''RSA'' \<or> startswith a ''ECDH''" and "\<not> pqc_ready a"
  shows "classify_name a \<in> {SANGAT_TINGGI, TINGGI}"
proof -
  have "classify_name a \<in> {SANGAT_TINGGI, TINGGI}" if "startswith a ''RSA''"
    using that assms(2) by (simp add: classify_name_def startswith_any_def split: option.split)
  moreover have "classify_name a \<in> {SANGAT_TINGGI, TINGGI}" if "startswith a ''ECDH''"
    using that assms(2) by (simp add: classify_name_def startswith_any_def split: option.split)
  ultimately show ?thesis using assms(1) by blast
qed

text \<open>No classical RSA or ECDH name escapes the early deadline: whenever the normalised
  upper-cased name starts with \<^verbatim>\<open>RSA\<close> or \<^verbatim>\<open>ECDH\<close> and carries no post-quantum part, it is
  harvest-now-decrypt-later exposed and must be migrated by the 2030 milestone.\<close>

theorem rsa_ecdh_migrate_by_2030:
  assumes "startswith (py_upper (normalise alg)) ''RSA'' \<or> startswith (py_upper (normalise alg)) ''ECDH''"
    and "\<not> pqc_ready (py_upper (normalise alg))"
  shows "hndl_exposed alg \<and> migration_deadline alg None = Some CNSA2_HNDL_DEADLINE"
proof -
  have "hndl_exposed alg"
    using assms by (auto simp: hndl_exposed_def is_key_establishment_def KEY_ESTABLISHMENT_RE_def
        startswith_any_def)
  with classify_name_rsa_ecdh [OF assms] show ?thesis
    by (auto simp: migration_deadline_def classify_def)
qed

theorem rsa_ecdh_migrate_by_2030_witness:
  "hndl_exposed ''ecdhe'' \<and> migration_deadline ''ecdhe'' None = Some CNSA2_HNDL_DEADLINE"
  by (rule rsa_ecdh_migrate_by_2030) code_simp+

text \<open>The bare elliptic-curve exchange names do escape it: \<^verbatim>\<open>X25519\<close> and \<^verbatim>\<open>X448\<close> are
  harvest-now-decrypt-later exposed, yet \<^verbatim>\<open>classify\<close> leaves them unclassified (INFO), so they
  get no migration deadline at all; the DSA-with-SHA-256 signature OID is left unclassified too.\<close>

theorem bare_curves_have_no_deadline:
  "hndl_exposed ''X25519'' \<and> classify ''X25519'' = CLS_INFO \<and> migration_deadline ''X25519'' None = None \<and>
   hndl_exposed ''X448'' \<and> classify ''X448'' = CLS_INFO \<and> migration_deadline ''X448'' None = None \<and>
   classify ''2.16.840.1.101.3.4.3.2'' = CLS_INFO"
  by code_simp

subsection \<open>The standardised post-quantum OIDs\<close>

text \<open>
  The arcs the standards assign: ML-DSA, SLH-DSA and their pre-hash variants (NIST CSOR
  3.4.3.17 to 46), ML-KEM (3.4.4.1 to 3), and the composite ML-DSA signatures
  (PKIX algorithms 37 to 54).
\<close>

definition pqc_standard_oids :: "string list" where
  "pqc_standard_oids =
     map (\<lambda>i. ''2.16.840.1.101.3.4.3.'' @ show_nat i) [17..<20] @
     map (\<lambda>i. ''1.3.6.1.5.5.7.6.'' @ show_nat i) [37..<55] @
     map (\<lambda>i. ''2.16.840.1.101.3.4.3.'' @ show_nat i) [20..<47] @
     map (\<lambda>i. ''2.16.840.1.101.3.4.4.'' @ show_nat i) [1..<4]"

text \<open>The classical OIDs of the table: RSA, DSA, ECDSA, EdDSA and the bare hashes.\<close>

definition classical_oid :: "string \<Rightarrow> bool" where
  "classical_oid s \<longleftrightarrow>
     startswith_any s [''1.2.840.'', ''1.3.101.'', ''1.3.14.'', ''2.16.840.1.101.3.4.2.''] \<or>
     s = ''2.16.840.1.101.3.4.3.2''"

lemma show_nat_digit: "n < 10 \<Longrightarrow> show_nat n = [digit_char n]"
  by (subst show_nat.simps) simp

lemma show_nat_two: "10 \<le> n \<Longrightarrow> n < 100 \<Longrightarrow> show_nat n = [digit_char (n div 10), digit_char (n mod 10)]"
  by (subst show_nat.simps) (simp add: show_nat_digit)

definition standard_oid :: "string \<Rightarrow> bool" where
  "standard_oid s =
     (\<not> classical_oid s \<and> \<not> startswith_any s [''1.3.6.1.4.1.2.267.'', ''1.3.9999.''])"

lemmas oid_class_simps =
  standard_oid_def classical_oid_def startswith_any_def startswith_def

lemma pqc_standard_oids_eval: "pqc_standard_oids = filter standard_oid (map fst OID_MAP)"
  unfolding pqc_standard_oids_def
  by (simp add: show_nat_digit show_nat_two upt_conv_Cons digit_char_eval OID_MAP_def oid_class_simps
      numeral_2_eq_2 [symmetric] numeral_3_eq_3 [symmetric])

lemma dict_get_fst: "k \<in> set (map fst m) \<Longrightarrow> \<exists>v. dict_get m k = Some v \<and> (k, v) \<in> set m"
  by (metis (no_types, lifting) map_of_SomeD map_of_eq_None_iff not_None_eq set_map)

lemma OID_MAP_ready:
  "list_all (\<lambda>p. standard_oid (fst p) \<longrightarrow> startswith_any (py_upper (snd p)) PQC_READY_PREFIXES) OID_MAP"
  by (simp add: OID_MAP_def oid_class_simps py_simps PQC_READY_PREFIXES_def)

lemma OID_MAP_classical:
  "map (\<lambda>p. py_upper (snd p)) (filter (\<lambda>p. classical_oid (fst p)) OID_MAP) =
     [''RSA'', ''RSA-SHA1'', ''RSA-SHA256'', ''RSA-SHA384'', ''RSA-SHA512'', ''RSA-SHA224'',
      ''RSA-PSS'', ''ECDSA-SHA1'', ''ECDSA-SHA224'', ''ECDSA-SHA256'', ''ECDSA-SHA384'',
      ''ECDSA-SHA512'', ''ED25519'', ''ED448'', ''DSA'', ''DSA-SHA1'', ''DSA-SHA256'',
      ''SHA-1'', ''SHA-256'', ''SHA-384'', ''SHA-512'', ''MD5'']"
  by (simp add: OID_MAP_def oid_class_simps py_simps)

lemma pqc_ready_no_L: "CHR ''L'' \<notin> set a \<Longrightarrow> pqc_ready a = startswith_any a PQC_READY_PREFIXES"
  by (simp add: pqc_ready_def contains_any_def contains_def PQC_HYBRID_FRAGMENTS_def
      not_sublist_char [of "CHR ''L''"])

lemma classical_names_not_ready:
  "list_all (\<lambda>a. \<not> pqc_ready a)
     (map (\<lambda>p. py_upper (snd p)) (filter (\<lambda>p. classical_oid (fst p)) OID_MAP))"
  by (simp add: OID_MAP_classical pqc_ready_no_L PQC_READY_PREFIXES_def startswith_any_def
      startswith_def)

lemma classify_OID: "dict_get OID_MAP oid = Some n \<Longrightarrow> classify oid = classify_name (py_upper n)"
  by (simp add: classify_def normalise_def)

lemma if_neqI: "x \<noteq> p \<Longrightarrow> y \<noteq> p \<Longrightarrow> (if c then x else y) \<noteq> p"
  by simp

lemma case_option_neqI: "x \<noteq> p \<Longrightarrow> (\<And>v. f v \<noteq> p) \<Longrightarrow> (case q of None \<Rightarrow> x | Some v \<Rightarrow> f v) \<noteq> p"
  by (cases q) simp_all

lemma classify_name_ready_iff: "classify_name a = PQC_READY \<longleftrightarrow> pqc_ready a"
proof
  show "pqc_ready a" if "classify_name a = PQC_READY"
  proof (rule ccontr)
    assume "\<not> pqc_ready a"
    then have "classify_name a \<noteq> PQC_READY"
      unfolding classify_name_def if_not_P [OF \<open>\<not> pqc_ready a\<close>]
      by (intro if_neqI case_option_neqI classification.distinct)
    with that show False by simp
  qed
qed (simp add: classify_name_def)

text \<open>Recall and precision on the OID table: each of the 51 standardised post-quantum OIDs
  classifies as PQC-ready, and none of the classical OIDs of the table does.\<close>

theorem pqc_oids_are_ready:
  "length pqc_standard_oids = 51 \<and> list_all (\<lambda>oid. classify oid = PQC_READY) pqc_standard_oids \<and>
   list_all (\<lambda>oid. classify oid \<noteq> PQC_READY) (filter classical_oid (map fst OID_MAP))"
proof (intro conjI)
  show "length pqc_standard_oids = 51"
    by (simp add: pqc_standard_oids_def)
  have "classify oid = PQC_READY" if "oid \<in> set (map fst OID_MAP)" and "standard_oid oid" for oid
    using dict_get_fst [OF that(1)] that(2) OID_MAP_ready
    by (auto simp: list_all_iff classify_OID classify_name_ready_iff pqc_ready_def)
  then show "list_all (\<lambda>oid. classify oid = PQC_READY) pqc_standard_oids"
    by (auto simp: pqc_standard_oids_eval list_all_iff)
  have "classify oid \<noteq> PQC_READY" if "oid \<in> set (map fst OID_MAP)" and "classical_oid oid" for oid
    using dict_get_fst [OF that(1)] that(2) classical_names_not_ready
    by (auto simp: list_all_iff classify_OID classify_name_ready_iff)
  then show "list_all (\<lambda>oid. classify oid \<noteq> PQC_READY) (filter classical_oid (map fst OID_MAP))"
    by (auto simp: list_all_iff)
qed

end
