(* ===== verification/Row_Table.thy ===== *)
theory Row_Table
  imports Prelude
begin

text \<open>
  A database table as the list of its rows in primary-key order, with the four statements the
  store issues: insert, fetch by key, conditional update, conditional delete. The locale
  \<open>row_table\<close> is the interface the store relies on; each table of \<^verbatim>\<open>store/schema.py\<close>
  interprets it in the theory \<open>Store\<close>. How a fresh key is chosen is the database's
  business: a table only asks that a new key exceeds the old ones.
\<close>

definition get_row :: "('r \<Rightarrow> nat) \<Rightarrow> nat \<Rightarrow> 'r list \<Rightarrow> 'r option" where
  "get_row key i rows = find (\<lambda>r. key r = i) rows"

definition add_row :: "'r \<Rightarrow> 'r list \<Rightarrow> 'r list" where
  "add_row r rows = rows @ [r]"

definition update_where :: "('r \<Rightarrow> bool) \<Rightarrow> ('r \<Rightarrow> 'r) \<Rightarrow> 'r list \<Rightarrow> 'r list" where
  "update_where p f rows = map (\<lambda>r. if p r then f r else r) rows"

definition delete_where :: "('r \<Rightarrow> bool) \<Rightarrow> 'r list \<Rightarrow> 'r list" where
  "delete_where p rows = filter (\<lambda>r. \<not> p r) rows"

definition keys_ok :: "('r \<Rightarrow> nat) \<Rightarrow> 'r list \<Rightarrow> bool" where
  "keys_ok key rows \<longleftrightarrow> sorted_wrt (<) (map key rows)"

locale row_table =
  fixes key :: "'r \<Rightarrow> nat"
    and get :: "nat \<Rightarrow> 'r list \<Rightarrow> 'r option"
    and add :: "'r \<Rightarrow> 'r list \<Rightarrow> 'r list"
    and upd :: "('r \<Rightarrow> bool) \<Rightarrow> ('r \<Rightarrow> 'r) \<Rightarrow> 'r list \<Rightarrow> 'r list"
    and del :: "('r \<Rightarrow> bool) \<Rightarrow> 'r list \<Rightarrow> 'r list"
    and ok :: "'r list \<Rightarrow> bool"
  assumes get_iff: "ok rows \<Longrightarrow> get i rows = Some r \<longleftrightarrow> r \<in> set rows \<and> key r = i"
    and ok_empty: "ok []"
    and ok_add: "ok rows \<Longrightarrow> \<forall>r' \<in> set rows. key r' < key r \<Longrightarrow> ok (add r rows)"
    and ok_upd: "ok rows \<Longrightarrow> \<forall>r \<in> set rows. p r \<longrightarrow> key (f r) = key r \<Longrightarrow> ok (upd p f rows)"
    and ok_del: "ok rows \<Longrightarrow> ok (del p rows)"
    and set_add: "set (add r rows) = insert r (set rows)"
    and set_upd: "set (upd p f rows) = (\<lambda>r. if p r then f r else r) ` set rows"
    and set_del: "set (del p rows) = {r \<in> set rows. \<not> p r}"
begin

lemma get_None_iff: "ok rows \<Longrightarrow> get i rows = None \<longleftrightarrow> i \<notin> key ` set rows"
proof -
  assume o: "ok rows"
  have "get i rows \<noteq> None \<longleftrightarrow> i \<in> key ` set rows"
    by (auto simp: get_iff [OF o])
  then show ?thesis by blast
qed

lemma key_inj: "ok rows \<Longrightarrow> r \<in> set rows \<Longrightarrow> r' \<in> set rows \<Longrightarrow> key r = key r' \<Longrightarrow> r = r'"
  using get_iff [of rows "key r"] by (metis option.inject)

lemma get_add:
  assumes "ok rows" and "\<forall>r' \<in> set rows. key r' < key r"
  shows "get i (add r rows) = (if i = key r then Some r else get i rows)"
proof -
  have o: "ok (add r rows)" using assms by (rule ok_add)
  show ?thesis
  proof (cases "i = key r")
    case True
    then show ?thesis using get_iff [OF o] by (simp add: set_add)
  next
    case False
    then have "get i (add r rows) = Some x \<longleftrightarrow> get i rows = Some x" for x
      using get_iff [OF o] get_iff [OF assms(1)] by (auto simp: set_add)
    with False show ?thesis by (metis not_Some_eq)
  qed
qed

lemma get_del:
  assumes "ok rows"
  shows "get i (del p rows) = (case get i rows of Some r \<Rightarrow> if p r then None else Some r | None \<Rightarrow> None)"
proof (cases "get i rows")
  case None
  then have "i \<notin> key ` set (del p rows)"
    using get_None_iff [OF assms] by (auto simp: set_del)
  then have "get i (del p rows) = None"
    using get_None_iff [OF ok_del [OF assms]] by blast
  with None show ?thesis by simp
next
  case (Some r)
  then have r: "r \<in> set rows" "key r = i" using get_iff [OF assms] by auto
  show ?thesis
  proof (cases "p r")
    case True
    then have "i \<notin> key ` set (del p rows)"
      using r key_inj [OF assms] by (auto simp: set_del)
    with True Some show ?thesis using get_None_iff [OF ok_del [OF assms]] by simp
  next
    case False
    with r Some show ?thesis using get_iff [OF ok_del [OF assms]] by (simp add: set_del)
  qed
qed

lemma get_upd:
  assumes "ok rows" and "\<And>r. r \<in> set rows \<Longrightarrow> p r \<Longrightarrow> key (f r) = key r"
  shows "get i (upd p f rows) = map_option (\<lambda>r. if p r then f r else r) (get i rows)"
proof -
  have o: "ok (upd p f rows)" using assms by (intro ok_upd) auto
  show ?thesis
  proof (cases "get i rows")
    case None
    then have "i \<notin> key ` set (upd p f rows)"
      using get_None_iff [OF assms(1)] assms(2) by (auto simp: set_upd image_iff)
    then have "get i (upd p f rows) = None"
      using get_None_iff [OF o] by blast
    with None show ?thesis by simp
  next
    case (Some r)
    then have "r \<in> set rows" "key r = i" using get_iff [OF assms(1)] by auto
    with Some show ?thesis using get_iff [OF o] assms(2) by (auto simp: set_upd)
  qed
qed

end

lemma find_key:
  "sorted_wrt (<) (map key rows) \<Longrightarrow> find (\<lambda>r. key r = (i :: nat)) rows = Some r \<longleftrightarrow> r \<in> set rows \<and> key r = i"
  by (induction rows) auto

lemma row_table_list:
  "row_table key (get_row key) add_row update_where delete_where (keys_ok key)"
proof
  show "keys_ok key rows \<Longrightarrow> \<forall>r \<in> set rows. p r \<longrightarrow> key (f r) = key r \<Longrightarrow>
      keys_ok key (update_where p f rows)" for rows p f
    by (induction rows) (auto simp: keys_ok_def update_where_def)
  show "keys_ok key rows \<Longrightarrow> keys_ok key (delete_where p rows)" for rows p
    by (induction rows) (auto simp: keys_ok_def delete_where_def)
qed (auto simp: keys_ok_def get_row_def add_row_def update_where_def delete_where_def find_key
    sorted_wrt_append)

end
