(* ===== verification/Bands.thy ===== *)
theory Bands
  imports Py_Float Finding_Parity
begin

text \<open>
  \<^verbatim>\<open>core/bands.py\<close>: the traffic-light band and the crypto surface of a finding, their counts
  and the readiness score. The functions read stored rows, whose classification is text.
\<close>

section \<open>Bands\<close>

datatype band = Green | Yellow | Red | Grey

definition PQC_ALGO_FRAGMENTS :: "string list" where
  "PQC_ALGO_FRAGMENTS =
     [''ml-kem'', ''ml-dsa'', ''slh-dsa'', ''fn-dsa'', ''kyber'', ''dilithium'', ''falcon'', ''sphincs'',
      ''frodokem'', ''ntru'', ''saber'', ''classic-mceliece'', ''bike'', ''hqc'', ''xmss'', ''lms'',
      ''mlkem'', ''mldsa'']"

definition classify_band :: "finding_row \<Rightarrow> band" where
  "classify_band f =
     (let classif = fr_classification f;
          algo = py_strip (py_lower (fr_algorithm f));
          pid = py_lower (fr_probe_id f)
      in if classif = ''pqc-ready'' \<or> contains_any algo PQC_ALGO_FRAGMENTS then Green
         else if classif \<in> {''info'', ''error''} \<or> algo = [] \<or> algo = ''n/a'' then Grey
         else if startswith_any pid [''code.'', ''sbom.'', ''fs.cert.''] \<or> pid = ''trust.system_roots''
           then Red
         else Yellow)"

section \<open>Surfaces\<close>

datatype surface = S_tls | S_ssh | S_vpn | S_cert | S_code | S_data | S_other

definition SURFACE_ORDER :: "surface list" where
  "SURFACE_ORDER = [S_tls, S_ssh, S_vpn, S_cert, S_code, S_data]"

definition classify_surface :: "finding_row \<Rightarrow> surface" where
  "classify_surface f =
     (let pid = py_lower (fr_probe_id f)
      in if contains pid ''tls'' \<or> contains pid ''starttls'' then S_tls
         else if startswith pid ''net.ssh'' \<or> contains pid ''.ssh.'' then S_ssh
         else if startswith pid ''vpn.'' \<or> contains pid ''wireguard'' \<or> contains pid ''tailscale''
              \<or> contains pid ''openvpn'' \<or> contains pid ''ipsec'' then S_vpn
         else if contains pid ''cert'' \<or> contains pid ''x509'' \<or> contains pid ''trust''
              \<or> startswith pid ''sign.'' then S_cert
         else if startswith_any pid [''code.'', ''sbom.''] then S_code
         else if startswith_any pid [''fs.'', ''storage.'', ''secrets.'', ''container.'', ''host.'']
           then S_data
         else S_other)"

section \<open>Counts\<close>

record band_counts =
  green :: nat
  yellow :: nat
  red :: nat
  grey :: nat
  total :: nat

definition empty_band_counts :: band_counts where
  "empty_band_counts = \<lparr>green = 0, yellow = 0, red = 0, grey = 0, total = 0\<rparr>"

text \<open>\<^verbatim>\<open>counts[band] += 1; counts["total"] += 1\<close>.\<close>

fun bump_band :: "band \<Rightarrow> band_counts \<Rightarrow> band_counts" where
  "bump_band Green c = c\<lparr>green := green c + 1, total := total c + 1\<rparr>"
| "bump_band Yellow c = c\<lparr>yellow := yellow c + 1, total := total c + 1\<rparr>"
| "bump_band Red c = c\<lparr>red := red c + 1, total := total c + 1\<rparr>"
| "bump_band Grey c = c\<lparr>grey := grey c + 1, total := total c + 1\<rparr>"

definition count_step :: "band_counts \<Rightarrow> finding_row \<Rightarrow> band_counts" where
  "count_step c f = (if is_drift (fr_probe_id f) then c else bump_band (classify_band f) c)"

definition count_bands :: "finding_row list \<Rightarrow> band_counts" where
  "count_bands findings = foldl count_step empty_band_counts findings"

text \<open>The breakdown table in \<^verbatim>\<open>SURFACE_ORDER\<close>; rows of surface \<^verbatim>\<open>other\<close> are skipped.\<close>

definition breakdown_step :: "(surface \<times> band_counts) list \<Rightarrow> finding_row \<Rightarrow> (surface \<times> band_counts) list" where
  "breakdown_step t f =
     (let s = classify_surface f
      in if s = S_other \<or> is_drift (fr_probe_id f) then t
         else map (\<lambda>(s', c). if s' = s then (s', bump_band (classify_band f) c) else (s', c)) t)"

definition surface_breakdown :: "finding_row list \<Rightarrow> (surface \<times> band_counts) list" where
  "surface_breakdown findings =
     foldl breakdown_step (map (\<lambda>s. (s, empty_band_counts)) SURFACE_ORDER) findings"

definition readiness_score :: "band_counts \<Rightarrow> int" where
  "readiness_score c =
     (let weighted = green c * 100 + yellow c * 50;
          denom = green c + yellow c + red c
      in if denom = 0 then 0 else py_round (fl (of_nat weighted / of_nat denom)))"

section \<open>Properties\<close>

definition band_sum :: "band_counts \<Rightarrow> nat" where
  "band_sum c = green c + yellow c + red c + grey c"

lemma bump_band_counts [simp]:
  "band_sum (bump_band b c) = band_sum c + 1" "total (bump_band b c) = total c + 1"
  by (cases b; simp add: band_sum_def)+

lemma count_step_counts:
  "band_sum (count_step c f) = band_sum c + (if is_drift (fr_probe_id f) then 0 else 1)"
  "total (count_step c f) = total c + (if is_drift (fr_probe_id f) then 0 else 1)"
  by (simp_all add: count_step_def)

lemma foldl_count_step:
  "band_sum (foldl count_step c fs) = band_sum c + length (filter (\<lambda>f. \<not> is_drift (fr_probe_id f)) fs)"
  "total (foldl count_step c fs) = total c + length (filter (\<lambda>f. \<not> is_drift (fr_probe_id f)) fs)"
  by (induction fs arbitrary: c) (simp_all add: count_step_counts)

text \<open>The band counts partition the findings: the four bands add up to the total, and the
  total is the number of findings that are not drift markers.\<close>

theorem count_bands_partition:
  "green (count_bands fs) + yellow (count_bands fs) + red (count_bands fs) + grey (count_bands fs)
     = total (count_bands fs) \<and>
   total (count_bands fs) = length (filter (\<lambda>f. \<not> is_drift (fr_probe_id f)) fs)"
  using foldl_count_step [of empty_band_counts fs]
  by (simp add: count_bands_def band_sum_def empty_band_counts_def)

lemma breakdown_step_map:
  "set ss \<subseteq> set SURFACE_ORDER \<Longrightarrow>
   breakdown_step (map (\<lambda>s. (s, g s)) ss) f =
     map (\<lambda>s. (s, if classify_surface f = s then count_step (g s) f else g s)) ss"
  by (auto simp: breakdown_step_def Let_def count_step_def SURFACE_ORDER_def)

lemma foldl_breakdown_step:
  "set ss \<subseteq> set SURFACE_ORDER \<Longrightarrow>
   foldl breakdown_step (map (\<lambda>s. (s, g s)) ss) fs =
     map (\<lambda>s. (s, foldl count_step (g s) (filter (\<lambda>f. classify_surface f = s) fs))) ss"
  by (induction fs arbitrary: g) (auto simp: breakdown_step_map)

text \<open>The one-pass surface matrix equals its specification: each of the six surfaces, in
  order, carries the band counts of exactly the findings on that surface.\<close>

theorem surface_breakdown_spec:
  "surface_breakdown fs =
     map (\<lambda>s. (s, count_bands (filter (\<lambda>f. classify_surface f = s) fs))) SURFACE_ORDER"
  by (simp add: surface_breakdown_def count_bands_def foldl_breakdown_step)

text \<open>Two scores over the same number of rated assets compare as their weights do.\<close>

lemma readiness_mono:
  assumes "green c + yellow c + red c = green d + yellow d + red d"
    and "green c * 100 + yellow c * 50 \<le> green d * 100 + yellow d * 50"
  shows "readiness_score c \<le> readiness_score d"
proof -
  have "of_nat (green c * 100 + yellow c * 50) / of_nat (green d + yellow d + red d) \<le>
      (of_nat (green d * 100 + yellow d * 50) / of_nat (green d + yellow d + red d) :: rat)"
    using assms(2) by (intro divide_right_mono) (simp_all only: of_nat_le_iff of_nat_0_le_iff)
  then show ?thesis
    unfolding readiness_score_def Let_def assms(1) using fl_mono py_round_mono by simp
qed

text \<open>The readiness score is a percentage for every count, through the floating-point
  division and the half-even rounding: it lies between 0 and 100, is 100 when every rated asset
  is green and 0 when every one is red.\<close>

theorem readiness_score_range:
  "0 \<le> readiness_score c \<and> readiness_score c \<le> 100 \<and>
   (yellow c + red c = 0 \<and> green c \<noteq> 0 \<longrightarrow> readiness_score c = 100) \<and>
   (green c + yellow c = 0 \<longrightarrow> readiness_score c = 0)"
proof (cases "green c + yellow c + red c = 0")
  case False
  let ?w = "green c * 100 + yellow c * 50" and ?d = "green c + yellow c + red c"
  have "(of_nat ?w / of_nat ?d :: rat) \<le> of_nat 100" by (rule ratio_le) simp
  then have "py_round (fl (of_nat ?w / of_nat ?d)) \<le> int 100"
    by (rule py_round_fl_le) simp
  moreover have "int 0 \<le> py_round (fl (of_nat ?w / of_nat ?d))"
    by (rule py_round_fl_ge) simp_all
  moreover have "fl 100 = 100" using fl_of_nat [of 100] by simp
  ultimately show ?thesis
    using False py_round_of_int [of 100] py_round_of_int [of 0] by (auto simp: readiness_score_def Let_def)
qed (auto simp: readiness_score_def)

theorem readiness_score_range_witness:
  "readiness_score \<lparr>green = 3, yellow = 0, red = 0, grey = 2, total = 5\<rparr> = 100 \<and>
   readiness_score \<lparr>green = 0, yellow = 0, red = 4, grey = 0, total = 4\<rparr> = 0"
  using readiness_score_range [of "\<lparr>green = 3, yellow = 0, red = 0, grey = 2, total = 5\<rparr>"]
    readiness_score_range [of "\<lparr>green = 0, yellow = 0, red = 4, grey = 0, total = 4\<rparr>"]
  by simp

text \<open>Migrating an asset never lowers the score: turning one red asset yellow, or one yellow
  asset green, gives a score at least as high.\<close>

theorem readiness_score_rewards_migration:
  "readiness_score (c\<lparr>red := Suc r\<rparr>) \<le> readiness_score (c\<lparr>red := r, yellow := Suc (yellow c)\<rparr>) \<and>
   readiness_score (c\<lparr>yellow := Suc y\<rparr>) \<le> readiness_score (c\<lparr>yellow := y, green := Suc (green c)\<rparr>)"
  by (intro conjI readiness_mono) simp_all

end
