(* ===== verification/Store.thy ===== *)
theory Store
  imports Row_Table Bands
begin

text \<open>
  \<^verbatim>\<open>store/schema.py\<close> and the scan, finding, view, baseline and host operations of
  \<^verbatim>\<open>store/repo.py\<close>. A \<open>db\<close> holds one list of rows per table, in primary-key order. An
  operation is one committed session: it returns an error (the session rolls back, the database
  is unchanged) or its result with the new database. What a session takes from outside is an
  \<open>env\<close>: the key the database assigns to a new row, the clock, a fresh UUID, and the two
  ISO date parsers. \<open>env_ok\<close> is what the code relies on there: a new key exceeds the keys
  in the table. Foreign keys are declared but not enforced by SQLite, so inserts do not check them.
\<close>

section \<open>Schema\<close>

record scan =
  sc_id :: nat
  sc_started_at :: int
  sc_finished_at :: "int option"
  sc_host_fingerprint :: "string option"
  sc_mode :: string
  sc_status :: string
  sc_label :: "string option"
  sc_probe_versions :: pydict
  sc_tool_versions :: pydict
  sc_host_id :: "nat option"
  sc_scan_uuid :: "string option"

record host =
  h_id :: nat
  h_machine_id :: string
  h_hostname :: string
  h_os :: string
  h_labels :: pydict
  h_agent_version :: string
  h_first_seen :: int
  h_last_seen :: int
  h_token_hash :: "string option"
  h_revoked :: bool

record component_row =
  co_id :: nat
  co_scan_id :: nat
  co_purl :: string
  co_type :: string
  co_name :: string
  co_version :: "string option"
  co_location :: string
  co_discovered_by :: string
  co_attributes :: pydict

record graph_edge =
  ge_id :: nat
  ge_scan_id :: nat
  ge_src_id :: nat
  ge_dst_id :: nat
  ge_edge_type :: string
  ge_attrs :: pydict

record framework_view =
  vw_id :: nat
  vw_finding_id :: nat
  vw_framework :: string
  vw_clause :: string
  vw_verdict :: string
  vw_deadline :: "string option"

record baseline =
  bl_id :: nat
  bl_scan_id :: nat
  bl_label :: string
  bl_created_at :: int
  bl_notes :: "string option"

record db =
  scans :: "scan list"
  hosts :: "host list"
  components :: "component_row list"
  findings :: "finding_row list"
  edges :: "graph_edge list"
  fviews :: "framework_view list"
  baselines :: "baseline list"

definition empty_db :: db where
  "empty_db = \<lparr>scans = [], hosts = [], components = [], findings = [], edges = [], fviews = [], baselines = []\<rparr>"

datatype repo_error = RValueError | RKeyError | RTypeError | RIntegrityError

type_synonym 'a session = "db \<Rightarrow> repo_error + 'a \<times> db"

record env =
  env_alloc :: "nat list \<Rightarrow> nat"
  env_now :: int
  env_uuid :: string
  env_parse_dt :: "string \<Rightarrow> int option"
  env_parse_date :: "string \<Rightarrow> string option"

definition env_ok :: "env \<Rightarrow> bool" where
  "env_ok e \<longleftrightarrow> (\<forall>ks. \<forall>k \<in> set ks. k < env_alloc e ks)"

text \<open>SQLite's choice for an \<^verbatim>\<open>INTEGER PRIMARY KEY\<close>: one more than the largest key in use.\<close>

definition sqlite_rowid :: "nat list \<Rightarrow> nat" where
  "sqlite_rowid ks = Suc (fold max ks 0)"

section \<open>Scans\<close>

definition uuid_taken :: "string option \<Rightarrow> db \<Rightarrow> bool" where
  "uuid_taken u d \<longleftrightarrow> u \<noteq> None \<and> u \<in> sc_scan_uuid ` set (scans d)"

text \<open>Inserting a scan: the unique index \<^verbatim>\<open>ix_scans_scan_uuid\<close> rejects a UUID in use.\<close>

definition insert_scan :: "env \<Rightarrow> (nat \<Rightarrow> scan) \<Rightarrow> nat session" where
  "insert_scan e mk d =
     (let s = mk (env_alloc e (map sc_id (scans d)))
      in if uuid_taken (sc_scan_uuid s) d then Inl RIntegrityError
         else Inr (sc_id s, d\<lparr>scans := add_row s (scans d)\<rparr>))"

definition new_running_scan ::
  "env \<Rightarrow> string \<Rightarrow> pydict \<Rightarrow> pydict \<Rightarrow> string option \<Rightarrow> string option \<Rightarrow> nat \<Rightarrow> scan" where
  "new_running_scan e mode pv tv fp u i =
     \<lparr>sc_id = i, sc_started_at = env_now e, sc_finished_at = None, sc_host_fingerprint = fp,
      sc_mode = mode, sc_status = ''running'', sc_label = None, sc_probe_versions = pv,
      sc_tool_versions = tv, sc_host_id = None,
      sc_scan_uuid = Some (case u of Some x \<Rightarrow> if x = [] then env_uuid e else x | None \<Rightarrow> env_uuid e)\<rparr>"

definition create_scan ::
  "env \<Rightarrow> string \<Rightarrow> pydict \<Rightarrow> pydict \<Rightarrow> string option \<Rightarrow> string option \<Rightarrow> nat session" where
  "create_scan e mode pv tv fp u d = insert_scan e (new_running_scan e mode pv tv fp u) d"

definition running :: "scan \<Rightarrow> bool" where
  "running s \<longleftrightarrow> sc_status s = ''running''"

definition has_running_scan :: "db \<Rightarrow> bool" where
  "has_running_scan d \<longleftrightarrow> list_ex running (scans d)"

definition begin_scan_if_idle ::
  "env \<Rightarrow> string \<Rightarrow> pydict \<Rightarrow> pydict \<Rightarrow> string option \<Rightarrow> string option \<Rightarrow> nat option session" where
  "begin_scan_if_idle e mode pv tv fp u d =
     (if list_ex running (scans d) then Inr (None, d)
      else (case insert_scan e (new_running_scan e mode pv tv fp u) d of
              Inl err \<Rightarrow> Inl err
            | Inr (i, d') \<Rightarrow> Inr (Some i, d')))"

definition finish_scan :: "env \<Rightarrow> nat \<Rightarrow> string \<Rightarrow> unit session" where
  "finish_scan e sid st d =
     (case get_row sc_id sid (scans d) of
        None \<Rightarrow> Inl RValueError
      | Some _ \<Rightarrow>
          Inr ((), d\<lparr>scans := update_where (\<lambda>s. sc_id s = sid)
                      (\<lambda>s. s\<lparr>sc_status := st, sc_finished_at := Some (env_now e)\<rparr>) (scans d)\<rparr>))"

text \<open>Newest first; the descending index gives rows of equal start time in descending key order.\<close>

definition list_scans :: "db \<Rightarrow> scan list" where
  "list_scans d = rev (sort_key sc_started_at (scans d))"

definition get_scan :: "nat \<Rightarrow> db \<Rightarrow> scan option" where
  "get_scan sid d = get_row sc_id sid (scans d)"

definition get_scan_id_by_uuid :: "string \<Rightarrow> db \<Rightarrow> nat option" where
  "get_scan_id_by_uuid u d = map_option sc_id (find (\<lambda>s. sc_scan_uuid s = Some u) (scans d))"

definition host_history :: "nat \<Rightarrow> nat \<Rightarrow> db \<Rightarrow> scan list" where
  "host_history hid limit d = take limit (rev (filter (\<lambda>s. sc_host_id s = Some hid) (scans d)))"

section \<open>Findings and framework views\<close>

definition insert_finding :: "env \<Rightarrow> (nat \<Rightarrow> finding_row) \<Rightarrow> db \<Rightarrow> nat \<times> db" where
  "insert_finding e mk d =
     (let r = mk (env_alloc e (map fr_id (findings d)))
      in (fr_id r, d\<lparr>findings := add_row r (findings d)\<rparr>))"

definition insert_view :: "env \<Rightarrow> (nat \<Rightarrow> framework_view) \<Rightarrow> db \<Rightarrow> nat \<times> db" where
  "insert_view e mk d =
     (let v = mk (env_alloc e (map vw_id (fviews d)))
      in (vw_id v, d\<lparr>fviews := add_row v (fviews d)\<rparr>))"

definition row_of_finding :: "nat \<Rightarrow> finding \<Rightarrow> nat \<Rightarrow> finding_row" where
  "row_of_finding sid f i =
     \<lparr>fr_id = i, fr_scan_id = sid, fr_component_id = None, fr_probe_id = probe_id f,
      fr_algorithm = algorithm f, fr_classification = classification_value (classification f),
      fr_severity = severity_value (severity f), fr_title = title f, fr_evidence = evidence f,
      fr_remediation = remediation f, fr_created_at = created_at f\<rparr>"

definition record_finding :: "env \<Rightarrow> nat \<Rightarrow> finding \<Rightarrow> nat session" where
  "record_finding e sid f d = Inr (insert_finding e (row_of_finding sid f) d)"

definition record_probe_error :: "env \<Rightarrow> nat \<Rightarrow> string \<Rightarrow> string \<Rightarrow> nat session" where
  "record_probe_error e sid pid message d =
     Inr (insert_finding e
       (\<lambda>i. \<lparr>fr_id = i, fr_scan_id = sid, fr_component_id = None, fr_probe_id = pid,
             fr_algorithm = ''N/A'', fr_classification = ''error'', fr_severity = ''info'',
             fr_title = ''probe error: '' @ message, fr_evidence = [(''error'', JStr message)],
             fr_remediation = [], fr_created_at = env_now e\<rparr>) d)"

definition list_findings :: "nat \<Rightarrow> db \<Rightarrow> finding_row list" where
  "list_findings sid d = sort_key fr_created_at (filter (\<lambda>r. fr_scan_id r = sid) (findings d))"

text \<open>\<^verbatim>\<open>grouped[r.scan_id].append(r)\<close> over one ordered query for all ids.\<close>

definition group_append :: "(nat \<times> finding_row list) list \<Rightarrow> finding_row \<Rightarrow> (nat \<times> finding_row list) list" where
  "group_append g r = map (\<lambda>(i, rs). if i = fr_scan_id r then (i, rs @ [r]) else (i, rs)) g"

definition list_findings_bulk :: "nat list \<Rightarrow> db \<Rightarrow> (nat \<times> finding_row list) list" where
  "list_findings_bulk sids d =
     foldl group_append (map (\<lambda>i. (i, [])) (dedupe sids))
       (sort_key fr_created_at (filter (\<lambda>r. fr_scan_id r \<in> set sids) (findings d)))"

definition record_framework_view ::
  "env \<Rightarrow> nat \<Rightarrow> string \<Rightarrow> string \<Rightarrow> string \<Rightarrow> string option \<Rightarrow> nat session" where
  "record_framework_view e fid fw cl vd dl d =
     Inr (insert_view e (\<lambda>i. \<lparr>vw_id = i, vw_finding_id = fid, vw_framework = fw, vw_clause = cl,
       vw_verdict = vd, vw_deadline = dl\<rparr>) d)"

definition list_framework_views :: "nat \<Rightarrow> string option \<Rightarrow> db \<Rightarrow> framework_view list" where
  "list_framework_views sid fw d =
     filter (\<lambda>v. list_ex (\<lambda>r. fr_id r = vw_finding_id v \<and> fr_scan_id r = sid) (findings d) \<and>
       (case fw of None \<Rightarrow> True | Some x \<Rightarrow> vw_framework v = x)) (fviews d)"

definition drift_counts :: "nat list \<Rightarrow> db \<Rightarrow> (nat \<times> nat) list" where
  "drift_counts sids d =
     (let rows = filter (\<lambda>r. fr_scan_id r \<in> set sids \<and> fr_probe_id r = DRIFT_PROBE) (findings d)
      in map (\<lambda>i. (i, length (filter (\<lambda>r. fr_scan_id r = i) rows))) (dedupe (map fr_scan_id rows)))"

section \<open>Baselines and diffs\<close>

definition create_baseline :: "env \<Rightarrow> nat \<Rightarrow> string \<Rightarrow> string option \<Rightarrow> nat session" where
  "create_baseline e sid lbl notes d =
     (case get_row sc_id sid (scans d) of
        None \<Rightarrow> Inl RValueError
      | Some _ \<Rightarrow>
          (let b = \<lparr>bl_id = env_alloc e (map bl_id (baselines d)), bl_scan_id = sid, bl_label = lbl,
                    bl_created_at = env_now e, bl_notes = notes\<rparr>
           in Inr (bl_id b, d\<lparr>baselines := add_row b (baselines d)\<rparr>)))"

definition list_baselines :: "db \<Rightarrow> baseline list" where
  "list_baselines d = rev (sort_key bl_created_at (baselines d))"

definition get_baseline :: "nat \<Rightarrow> db \<Rightarrow> baseline option" where
  "get_baseline i d = get_row bl_id i (baselines d)"

record finding_diff =
  added :: "finding_row list"
  removed :: "finding_row list"
  common :: nat

definition diff_key :: "bool \<Rightarrow> finding_row \<Rightarrow> parity_key" where
  "diff_key parity f = (if parity then row_key (view_of_row f) else raw_key (view_of_row f))"

definition diff_findings :: "nat \<Rightarrow> nat \<Rightarrow> bool \<Rightarrow> db \<Rightarrow> finding_diff" where
  "diff_findings cur_id base_id parity d =
     (let cur = filter (\<lambda>f. fr_probe_id f \<noteq> DRIFT_PROBE) (list_findings cur_id d);
          base = filter (\<lambda>f. fr_probe_id f \<noteq> DRIFT_PROBE) (list_findings base_id d);
          bk = diff_key parity ` set base; ck = diff_key parity ` set cur
      in \<lparr>added = filter (\<lambda>f. diff_key parity f \<notin> bk) cur,
          removed = filter (\<lambda>f. diff_key parity f \<notin> ck) base,
          common = card (ck \<inter> bk)\<rparr>)"

section \<open>Deleting a scan\<close>

definition delete_scan :: "nat \<Rightarrow> db \<Rightarrow> db" where
  "delete_scan sid d =
     (let fids = map fr_id (filter (\<lambda>r. fr_scan_id r = sid) (findings d))
      in d\<lparr>fviews := delete_where (\<lambda>v. vw_finding_id v \<in> set fids) (fviews d),
          findings := delete_where (\<lambda>r. fr_scan_id r = sid) (findings d),
          baselines := delete_where (\<lambda>b. bl_scan_id b = sid) (baselines d),
          edges := delete_where (\<lambda>g. ge_scan_id g = sid) (edges d),
          components := delete_where (\<lambda>c. co_scan_id c = sid) (components d),
          scans := delete_where (\<lambda>s. sc_id s = sid) (scans d)\<rparr>)"

definition delete_scans :: "nat list \<Rightarrow> db \<Rightarrow> db" where
  "delete_scans sids d = fold delete_scan sids d"

definition FLEET_ROLLUP_LABEL :: string where
  "FLEET_ROLLUP_LABEL = ''fleet-rollup''"

text \<open>An hour in microseconds.\<close>

definition rollup_grace :: int where
  "rollup_grace = 3600 * 1000000"

definition stale_rollup :: "int \<Rightarrow> scan \<Rightarrow> bool" where
  "stale_rollup now s \<longleftrightarrow>
     sc_label s = Some FLEET_ROLLUP_LABEL \<and> sc_started_at s < now - rollup_grace \<and>
     dict_get (sc_tool_versions s) ''temporary'' = Some (JBool True)"

definition delete_stale_rollups :: "env \<Rightarrow> db \<Rightarrow> nat \<times> db" where
  "delete_stale_rollups e d =
     (let ids = map sc_id (filter (stale_rollup (env_now e)) (scans d))
      in (length ids, delete_scans ids d))"

definition reconcile_running_scans :: "env \<Rightarrow> db \<Rightarrow> nat \<times> db" where
  "reconcile_running_scans e d =
     (let stale = filter running (scans d);
          d' = d\<lparr>scans := update_where running
                 (\<lambda>s. s\<lparr>sc_status := ''interrupted'',
                        sc_finished_at := (case sc_finished_at s of None \<Rightarrow> Some (env_now e) | t \<Rightarrow> t)\<rparr>) (scans d)\<rparr>
      in (length stale, snd (delete_stale_rollups e d')))"

definition newest_done :: "nat \<Rightarrow> db \<Rightarrow> nat option" where
  "newest_done hid d =
     (case map sc_id (filter (\<lambda>s. sc_host_id s = Some hid \<and> sc_status s = ''done'') (scans d)) of
        [] \<Rightarrow> None
      | i # is \<Rightarrow> Some (fold max is i))"

definition prune_victims :: "nat \<Rightarrow> nat \<Rightarrow> db \<Rightarrow> nat list" where
  "prune_victims hid keep d =
     filter (\<lambda>i. Some i \<noteq> newest_done hid d)
       (drop keep (rev (map sc_id (filter (\<lambda>s. sc_host_id s = Some hid \<and>
          sc_id s \<notin> set (map bl_scan_id (baselines d))) (scans d)))))"

definition prune_host :: "nat \<Rightarrow> int \<Rightarrow> nat session" where
  "prune_host hid keep d =
     (if keep < 1 then Inl RValueError
      else (let old = prune_victims hid (nat keep) d in Inr (length old, delete_scans old d)))"

fun prune_hosts :: "nat list \<Rightarrow> int \<Rightarrow> nat session" where
  "prune_hosts [] keep d = Inr (0, d)"
| "prune_hosts (hid # hids) keep d =
     (case prune_host hid keep d of Inl err \<Rightarrow> Inl err
      | Inr (n, d') \<Rightarrow>
          (case prune_hosts hids keep d' of Inl err \<Rightarrow> Inl err | Inr (m, d'') \<Rightarrow> Inr (n + m, d'')))"

definition prune_scans :: "env \<Rightarrow> int \<Rightarrow> nat session" where
  "prune_scans e keep d =
     (if keep < 1 then Inl RValueError
      else (let d' = snd (delete_stale_rollups e d) in prune_hosts (map h_id (hosts d')) keep d'))"

end
