(* ===== verification/Store_Laws.thy ===== *)
theory Store_Laws
  imports Store
begin

text \<open>
  The laws of the store: every table of the schema is a \<open>row_table\<close>, the database invariant
  (keys, unique columns, referential integrity), and the retention, deletion and diff operations
  of \<^verbatim>\<open>store/repo.py\<close>.
\<close>

section \<open>The tables interpret the interface\<close>

interpretation scan_t: row_table sc_id "get_row sc_id" add_row update_where delete_where "keys_ok sc_id"
  by (rule row_table_list)

interpretation host_t: row_table h_id "get_row h_id" add_row update_where delete_where "keys_ok h_id"
  by (rule row_table_list)

interpretation finding_t: row_table fr_id "get_row fr_id" add_row update_where delete_where "keys_ok fr_id"
  by (rule row_table_list)

interpretation view_t: row_table vw_id "get_row vw_id" add_row update_where delete_where "keys_ok vw_id"
  by (rule row_table_list)

interpretation baseline_t: row_table bl_id "get_row bl_id" add_row update_where delete_where "keys_ok bl_id"
  by (rule row_table_list)

interpretation component_t: row_table co_id "get_row co_id" add_row update_where delete_where "keys_ok co_id"
  by (rule row_table_list)

interpretation edge_t: row_table ge_id "get_row ge_id" add_row update_where delete_where "keys_ok ge_id"
  by (rule row_table_list)

lemmas table_oks = scan_t.ok_del host_t.ok_del finding_t.ok_del view_t.ok_del baseline_t.ok_del
  component_t.ok_del edge_t.ok_del

lemmas row_sets [simp] = scan_t.set_del scan_t.set_add host_t.set_add host_t.set_del finding_t.set_del
  finding_t.set_add view_t.set_del view_t.set_add baseline_t.set_del baseline_t.set_add
  component_t.set_del edge_t.set_del scan_t.set_upd host_t.set_upd

section \<open>The invariant\<close>

definition unique_on :: "('r \<Rightarrow> 'k option) \<Rightarrow> 'r list \<Rightarrow> bool" where
  "unique_on f rows \<longleftrightarrow> (\<forall>r \<in> set rows. \<forall>r' \<in> set rows. f r \<noteq> None \<and> f r = f r' \<longrightarrow> r = r')"

definition db_ok :: "db \<Rightarrow> bool" where
  "db_ok d \<longleftrightarrow>
     keys_ok sc_id (scans d) \<and> keys_ok h_id (hosts d) \<and> keys_ok fr_id (findings d) \<and>
     keys_ok vw_id (fviews d) \<and> keys_ok bl_id (baselines d) \<and> keys_ok co_id (components d) \<and>
     keys_ok ge_id (edges d) \<and> unique_on sc_scan_uuid (scans d) \<and>
     unique_on (\<lambda>h. Some (h_machine_id h)) (hosts d) \<and> unique_on h_token_hash (hosts d)"

definition refs_ok :: "db \<Rightarrow> bool" where
  "refs_ok d \<longleftrightarrow>
     fr_scan_id ` set (findings d) \<subseteq> sc_id ` set (scans d) \<and>
     vw_finding_id ` set (fviews d) \<subseteq> fr_id ` set (findings d) \<and>
     bl_scan_id ` set (baselines d) \<subseteq> sc_id ` set (scans d) \<and>
     co_scan_id ` set (components d) \<subseteq> sc_id ` set (scans d) \<and>
     ge_scan_id ` set (edges d) \<subseteq> sc_id ` set (scans d) \<and>
     (\<forall>s \<in> set (scans d). \<forall>h. sc_host_id s = Some h \<longrightarrow> h \<in> h_id ` set (hosts d))"

lemma db_ok_empty [simp]: "db_ok empty_db"
  by (simp add: db_ok_def empty_db_def keys_ok_def unique_on_def)

lemma refs_ok_empty [simp]: "refs_ok empty_db"
  by (simp add: refs_ok_def empty_db_def)

lemma db_okD:
  "db_ok d \<Longrightarrow> keys_ok sc_id (scans d)" "db_ok d \<Longrightarrow> keys_ok h_id (hosts d)"
  "db_ok d \<Longrightarrow> keys_ok fr_id (findings d)" "db_ok d \<Longrightarrow> keys_ok vw_id (fviews d)"
  "db_ok d \<Longrightarrow> keys_ok bl_id (baselines d)"
  by (simp_all add: db_ok_def)

lemma unique_on_delete: "unique_on f rows \<Longrightarrow> unique_on f (delete_where p rows)"
  by (auto simp: unique_on_def delete_where_def)

lemma unique_on_add:
  assumes "unique_on f rows" and "f r = None \<or> f r \<notin> f ` set rows"
  shows "unique_on f (add_row r rows)"
  unfolding unique_on_def
proof (intro ballI impI)
  fix a b
  assume ab: "a \<in> set (add_row r rows)" "b \<in> set (add_row r rows)" "f a \<noteq> None \<and> f a = f b"
  with assms(2) have "a = r \<longleftrightarrow> b = r"
    by (metis add_row_def image_eqI Un_iff empty_iff insert_iff list.set(1) list.simps(15) set_append)
  with ab assms(1) show "a = b" by (auto simp: unique_on_def add_row_def)
qed

lemma fresh_key: "env_ok e \<Longrightarrow> \<forall>r \<in> set rows. key r < env_alloc e (map key rows)"
  by (auto simp: env_ok_def)

lemma fold_max_ge: "(k :: nat) \<le> fold max ks k"
  by (induction ks arbitrary: k) (simp, metis fold_simps(2) max.boundedE)

lemma fold_max_mem: "x \<in> set ks \<Longrightarrow> x \<le> fold max ks (k :: nat)"
  by (induction ks arbitrary: k) (auto intro: order_trans [OF _ fold_max_ge])

lemma sqlite_rowid_fresh: "k \<in> set ks \<Longrightarrow> k < sqlite_rowid ks"
  by (simp add: sqlite_rowid_def fold_max_mem less_Suc_eq_le)

section \<open>Deleting scans\<close>

lemma delete_scan_sel:
  "scans (delete_scan i d) = delete_where (\<lambda>s. sc_id s = i) (scans d)"
  "hosts (delete_scan i d) = hosts d"
  "findings (delete_scan i d) = delete_where (\<lambda>r. fr_scan_id r = i) (findings d)"
  "baselines (delete_scan i d) = delete_where (\<lambda>b. bl_scan_id b = i) (baselines d)"
  "edges (delete_scan i d) = delete_where (\<lambda>g. ge_scan_id g = i) (edges d)"
  "components (delete_scan i d) = delete_where (\<lambda>c. co_scan_id c = i) (components d)"
  "fviews (delete_scan i d) =
     delete_where (\<lambda>v. vw_finding_id v \<in> fr_id ` {r \<in> set (findings d). fr_scan_id r = i}) (fviews d)"
  by (simp_all add: delete_scan_def Let_def)

lemma delete_scan_db_ok: "db_ok d \<Longrightarrow> db_ok (delete_scan i d)"
  by (simp add: db_ok_def delete_scan_sel table_oks unique_on_delete)

lemma delete_scan_refs_ok:
  assumes "db_ok d" and "refs_ok d"
  shows "refs_ok (delete_scan i d)"
proof -
  have "fr_id r \<in> fr_id ` {r \<in> set (findings d). fr_scan_id r \<noteq> i}"
    if "r \<in> set (findings d)" "fr_id r \<notin> fr_id ` {r \<in> set (findings d). fr_scan_id r = i}" for r
    using that by blast
  with assms(2) show ?thesis
    by (fastforce simp: refs_ok_def delete_scan_sel image_subset_iff image_iff)
qed

lemma list_findings_delete:
  "list_findings j (delete_scan i d) = (if j = i then [] else list_findings j d)"
  by (auto simp: list_findings_def delete_scan_sel delete_where_def
      intro!: arg_cong [where f = "sort_key fr_created_at"] filter_cong)

lemma delete_scans_Nil [simp]: "delete_scans [] d = d"
  and delete_scans_Cons: "delete_scans (i # is) d = delete_scans is (delete_scan i d)"
  by (simp_all add: delete_scans_def)

lemma delete_scans_sel:
  "scans (delete_scans is d) = delete_where (\<lambda>s. sc_id s \<in> set is) (scans d)"
  "hosts (delete_scans is d) = hosts d"
  "findings (delete_scans is d) = delete_where (\<lambda>r. fr_scan_id r \<in> set is) (findings d)"
  "baselines (delete_scans is d) = delete_where (\<lambda>b. bl_scan_id b \<in> set is) (baselines d)"
  by (induction "is" arbitrary: d)
     (simp_all add: delete_scans_Cons delete_scan_sel delete_where_def conj_commute)

lemma delete_scans_ok:
  "db_ok d \<Longrightarrow> db_ok (delete_scans is d)"
  "db_ok d \<Longrightarrow> refs_ok d \<Longrightarrow> refs_ok (delete_scans is d)"
  by (induction "is" arbitrary: d) (simp_all add: delete_scans_Cons delete_scan_db_ok delete_scan_refs_ok)

lemma list_findings_delete_scans:
  "j \<notin> set is \<Longrightarrow> list_findings j (delete_scans is d) = list_findings j d"
  by (induction "is" arbitrary: d) (simp_all add: delete_scans_Cons list_findings_delete)

lemma list_framework_views_delete:
  assumes "db_ok d" and "j \<noteq> i"
  shows "list_framework_views j fw (delete_scan i d) = list_framework_views j fw d"
proof -
  let ?gone = "fr_id ` {r \<in> set (findings d). fr_scan_id r = i}"
  let ?own = "\<lambda>v. \<exists>r \<in> set (findings d). fr_id r = vw_finding_id v \<and> fr_scan_id r = j"
  have own: "\<not> vw_finding_id v \<in> ?gone" if "?own v" for v
  proof
    assume "vw_finding_id v \<in> ?gone"
    then obtain r where r: "r \<in> set (findings d)" "fr_id r = vw_finding_id v" "fr_scan_id r = i" by auto
    from that obtain r' where r': "r' \<in> set (findings d)" "fr_id r' = vw_finding_id v" "fr_scan_id r' = j" by blast
    have "r = r'"
      by (rule finding_t.key_inj [OF db_okD(3) [OF assms(1)] r(1) r'(1)]) (simp add: r r')
    with r r' assms(2) show False by simp
  qed
  have "(\<exists>r \<in> set (findings (delete_scan i d)). fr_id r = vw_finding_id v \<and> fr_scan_id r = j) = ?own v" for v
    using assms(2) by (auto simp: delete_scan_sel)
  note own_del = this
  have "list_framework_views j fw (delete_scan i d) =
      filter (\<lambda>v. vw_finding_id v \<notin> ?gone \<and> ?own v \<and> (case fw of None \<Rightarrow> True | Some x \<Rightarrow> vw_framework v = x)) (fviews d)"
    by (simp only: list_framework_views_def list_ex_iff delete_scan_sel(7) delete_where_def filter_filter
        own_del)
  also have "\<dots> = list_framework_views j fw d"
    unfolding list_framework_views_def list_ex_iff
    by (rule filter_cong [OF refl]) (use own in blast)
  finally show ?thesis .
qed

lemma get_scan_delete:
  assumes "db_ok d"
  shows "get_scan j (delete_scan i d) = (if j = i then None else get_scan j d)"
proof (cases "get_row sc_id j (scans d)")
  case None
  then show ?thesis
    by (simp add: get_scan_def delete_scan_sel(1) scan_t.get_del [OF db_okD(1) [OF assms]])
next
  case (Some s)
  then have "sc_id s = j" using scan_t.get_iff [OF db_okD(1) [OF assms]] by blast
  with Some show ?thesis
    by (simp add: get_scan_def delete_scan_sel(1) scan_t.get_del [OF db_okD(1) [OF assms]])
qed

text \<open>Deleting a scan removes it with everything that hangs on it and nothing else: afterwards
  the scan and its findings are gone, no row refers to a missing one, and every other scan keeps
  its row, its findings and its framework views.\<close>

theorem delete_scan_exact:
  "db_ok d \<Longrightarrow> refs_ok d \<Longrightarrow>
     db_ok (delete_scan i d) \<and> refs_ok (delete_scan i d) \<and>
     get_scan i (delete_scan i d) = None \<and> list_findings i (delete_scan i d) = [] \<and>
     (j \<noteq> i \<longrightarrow>
        get_scan j (delete_scan i d) = get_scan j d \<and>
        list_findings j (delete_scan i d) = list_findings j d \<and>
        list_framework_views j fw (delete_scan i d) = list_framework_views j fw d)"
  by (simp add: delete_scan_db_ok delete_scan_refs_ok list_findings_delete list_framework_views_delete
      get_scan_delete)

section \<open>Retention\<close>

lemma drop_rev_newer:
  assumes "sorted_wrt (<) xs"
  shows "i \<in> set (drop k (rev xs)) \<longleftrightarrow> i \<in> set xs \<and> k \<le> card {j \<in> set xs. i < (j :: nat)}"
  using assms
proof (induction xs arbitrary: k rule: rev_induct)
  case (snoc x xs)
  then have lt: "\<forall>y \<in> set xs. y < x" and s: "sorted_wrt (<) xs" by (auto simp: sorted_wrt_append)
  have top: "{j \<in> set (xs @ [x]). x < j} = {}" using lt by auto
  have old: "card {j \<in> set (xs @ [x]). i < j} = Suc (card {j \<in> set xs. i < j})" if "i \<in> set xs"
  proof -
    have "{j \<in> set (xs @ [x]). i < j} = insert x {j \<in> set xs. i < j}" using lt that by auto
    moreover have "x \<notin> {j \<in> set xs. i < j}" using lt by auto
    ultimately show ?thesis by simp
  qed
  show ?case
  proof (cases k)
    case (Suc m)
    have "i \<in> set (drop k (rev (xs @ [x]))) \<longleftrightarrow> i \<in> set xs \<and> m \<le> card {j \<in> set xs. i < j}"
      using snoc.IH [OF s, of m] Suc by simp
    also have "\<dots> \<longleftrightarrow> i \<in> set (xs @ [x]) \<and> k \<le> card {j \<in> set (xs @ [x]). i < j}"
    proof (cases "i \<in> set xs")
      case True
      with old [OF True] Suc show ?thesis by simp
    next
      case False
      have "card {j \<in> set (xs @ [x]). x < j} = 0" unfolding top by simp
      with False Suc show ?thesis by (metis Un_iff empty_iff insert_iff list.set(1,2) not_less_eq_eq set_append zero_le)
    qed
    finally show ?thesis .
  qed simp
qed simp

definition baselined :: "db \<Rightarrow> nat \<Rightarrow> bool" where
  "baselined d i \<longleftrightarrow> i \<in> bl_scan_id ` set (baselines d)"

text \<open>The rank of a scan among its host's scans that are not baselined: how many are newer.\<close>

definition newer_unpinned :: "nat \<Rightarrow> db \<Rightarrow> nat \<Rightarrow> nat" where
  "newer_unpinned hid d i =
     card {s \<in> set (scans d). sc_host_id s = Some hid \<and> \<not> baselined d (sc_id s) \<and> i < sc_id s}"

lemma set_prune_victims:
  assumes "db_ok d"
  shows "i \<in> set (prune_victims hid keep d) \<longleftrightarrow>
    Some i \<noteq> newest_done hid d \<and> keep \<le> newer_unpinned hid d i \<and>
    (\<exists>s \<in> set (scans d). sc_id s = i \<and> sc_host_id s = Some hid \<and> \<not> baselined d i)"
proof -
  let ?P = "\<lambda>s. sc_host_id s = Some hid \<and> sc_id s \<notin> set (map bl_scan_id (baselines d))"
  let ?xs = "map sc_id (filter ?P (scans d))"
  have k: "sorted_wrt (<) (map sc_id (scans d))"
    using db_okD(1) [OF assms] by (simp add: keys_ok_def)
  then have "sorted_wrt (<) ?xs"
    using scan_t.ok_del [of "scans d" "\<lambda>s. \<not> ?P s"] by (simp add: keys_ok_def delete_where_def)
  moreover have "card {j \<in> set ?xs. i < j} = newer_unpinned hid d i"
  proof -
    have "{j \<in> set ?xs. i < j} =
        sc_id ` {s \<in> set (scans d). sc_host_id s = Some hid \<and> \<not> baselined d (sc_id s) \<and> i < sc_id s}"
      by (auto simp: baselined_def)
    moreover have "inj_on sc_id (set (scans d))"
      using scan_t.key_inj [OF db_okD(1) [OF assms]] by (auto intro: inj_onI)
    ultimately show ?thesis
      unfolding newer_unpinned_def by (metis (no_types, lifting) card_image inj_on_subset mem_Collect_eq subsetI)
  qed
  ultimately show ?thesis
    by (auto simp: prune_victims_def drop_rev_newer baselined_def)
qed

lemma distinct_prune_victims: "db_ok d \<Longrightarrow> distinct (prune_victims hid keep d)"
proof -
  assume "db_ok d"
  then have "distinct (map sc_id (scans d))"
    using db_okD(1) by (simp add: keys_ok_def strict_sorted_iff)
  then show ?thesis
    by (simp add: prune_victims_def distinct_map_filter)
qed

text \<open>C26. Retention keeps exactly what it promises. With \<open>keep\<close> at least 1 a prune of a
  host never fails, touches no other host, and keeps a scan of this host exactly when it is
  baselined, is the host's newest finished scan, or has fewer than \<open>keep\<close> newer scans that are
  not baselined; every scan it keeps has all its findings, and the database stays consistent.\<close>

theorem prune_host_retention:
  assumes "db_ok d" and "refs_ok d" and "1 \<le> keep"
  shows "\<exists>n d'. prune_host hid keep d = Inr (n, d') \<and>
    set (scans d') = {s \<in> set (scans d). sc_host_id s \<noteq> Some hid \<or> baselined d (sc_id s) \<or>
      newest_done hid d = Some (sc_id s) \<or> newer_unpinned hid d (sc_id s) < nat keep} \<and>
    n + length (scans d') = length (scans d) \<and>
    (\<forall>s \<in> set (scans d'). list_findings (sc_id s) d' = list_findings (sc_id s) d) \<and>
    set (baselines d') = set (baselines d) \<and> db_ok d' \<and> refs_ok d'"
proof -
  let ?v = "prune_victims hid (nat keep) d"
  let ?d = "delete_scans ?v d"
  have inj: "inj_on sc_id (set (scans d))"
    using scan_t.key_inj [OF db_okD(1) [OF assms(1)]] by (auto intro: inj_onI)
  have v: "sc_id s \<in> set ?v \<longleftrightarrow> \<not> (sc_host_id s \<noteq> Some hid \<or> baselined d (sc_id s) \<or>
      newest_done hid d = Some (sc_id s) \<or> newer_unpinned hid d (sc_id s) < nat keep)"
    if "s \<in> set (scans d)" for s
    using that inj_onD [OF inj] by (auto simp: set_prune_victims [OF assms(1)] not_less)
  have sub: "set ?v \<subseteq> sc_id ` set (scans d)"
    by (auto simp: set_prune_victims [OF assms(1)])
  have "length (filter (\<lambda>s. sc_id s \<in> set ?v) (scans d)) = length ?v"
  proof -
    have "distinct (scans d)"
      using db_okD(1) [OF assms(1)] by (auto simp: keys_ok_def strict_sorted_iff distinct_map)
    then have "length (filter (\<lambda>s. sc_id s \<in> set ?v) (scans d)) = card {s \<in> set (scans d). sc_id s \<in> set ?v}"
      by (metis distinct_card distinct_filter set_filter)
    also have "\<dots> = card (sc_id ` {s \<in> set (scans d). sc_id s \<in> set ?v})"
      by (intro card_image [symmetric] inj_on_subset [OF inj]) auto
    also have "sc_id ` {s \<in> set (scans d). sc_id s \<in> set ?v} = set ?v" using sub by auto
    finally show ?thesis by (simp add: distinct_card distinct_prune_victims [OF assms(1)])
  qed
  then have n: "length ?v + length (scans ?d) = length (scans d)"
    using sum_length_filter_compl [of "\<lambda>s. sc_id s \<in> set ?v" "scans d"]
    by (simp add: delete_scans_sel delete_where_def)
  have b: "set (baselines ?d) = set (baselines d)"
    by (auto simp: delete_scans_sel set_prune_victims [OF assms(1)] baselined_def)
  have "prune_host hid keep d = Inr (length ?v, ?d)"
    using assms(3) by (simp add: prune_host_def Let_def)
  then show ?thesis
    using v n b assms
    by (intro exI [of _ "length ?v"] exI [of _ ?d])
       (auto simp: delete_scans_sel list_findings_delete_scans delete_scans_ok)
qed

section \<open>A small database\<close>

definition sample_scan :: "nat \<Rightarrow> string \<Rightarrow> scan" where
  "sample_scan i st =
     \<lparr>sc_id = i, sc_started_at = 0, sc_finished_at = Some 1, sc_host_fingerprint = None, sc_mode = ''user'',
      sc_status = st, sc_label = None, sc_probe_versions = [], sc_tool_versions = [],
      sc_host_id = Some 1, sc_scan_uuid = Some (show_nat i)\<rparr>"

definition sample_host :: host where
  "sample_host =
     \<lparr>h_id = 1, h_machine_id = ''m-1'', h_hostname = ''web1'', h_os = ''linux'', h_labels = [],
      h_agent_version = [], h_first_seen = 0, h_last_seen = 0, h_token_hash = None, h_revoked = False\<rparr>"

definition sample_db :: db where
  "sample_db = empty_db\<lparr>scans := [sample_scan 1 ''done'', sample_scan 2 ''failed'', sample_scan 3 ''failed''],
     hosts := [sample_host]\<rparr>"

lemma sample_db_ok: "db_ok sample_db" "refs_ok sample_db"
  by (simp_all add: db_ok_def refs_ok_def sample_db_def empty_db_def keys_ok_def unique_on_def
      sample_scan_def sample_host_def show_nat.simps py_simps)

theorem delete_scan_exact_witness:
  "get_scan 2 (delete_scan 2 sample_db) = None \<and> get_scan 1 (delete_scan 2 sample_db) = get_scan 1 sample_db"
  using delete_scan_exact [OF sample_db_ok, of 2 1 None] by simp

theorem prune_host_retention_witness:
  "\<exists>n d'. prune_host 1 1 sample_db = Inr (n, d') \<and> n + length (scans d') = 3 \<and>
     (\<exists>s. s \<in> set (scans d') \<and> sc_id s = 1 \<and> sc_status s = ''done'')"
proof -
  obtain n d' where p: "prune_host 1 1 sample_db = Inr (n, d')" "n + length (scans d') = length (scans sample_db)"
    and "set (scans d') = {s \<in> set (scans sample_db). sc_host_id s \<noteq> Some 1 \<or> baselined sample_db (sc_id s) \<or>
      newest_done 1 sample_db = Some (sc_id s) \<or> newer_unpinned 1 sample_db (sc_id s) < nat 1}"
    using prune_host_retention [OF sample_db_ok, of 1 1] by auto
  then have "sample_scan 1 ''done'' \<in> set (scans d')"
    by (simp add: sample_db_def newest_done_def sample_scan_def)
  with p show ?thesis by (auto simp: sample_db_def sample_scan_def)
qed

end
