(* ===== verification/Scan_Bundle.thy ===== *)
theory Scan_Bundle
  imports Finding_Parity
begin

text \<open>
  \<^verbatim>\<open>store/bundle.py\<close>, the reading side: the limits, \<^verbatim>\<open>HostIdentity\<close>, \<^verbatim>\<open>ScanBundle\<close>,
  the label check and \<^verbatim>\<open>load_bundle\<close> with each of its rejections. Decompression and JSON
  parsing are parameters: \<open>inflate data cap\<close> is \<^verbatim>\<open>d.decompress(data, cap)\<close> with the flag
  of a left-over tail (\<^const>\<open>None\<close> for \<^verbatim>\<open>zlib.error\<close>), \<open>json_loads raw\<close> is
  \<^const>\<open>None\<close> where \<^verbatim>\<open>json.loads\<close> raises.
\<close>

section \<open>Limits and data\<close>

definition BUNDLE_SCHEMA_VERSION :: nat where
  "BUNDLE_SCHEMA_VERSION = 1"

definition MAX_GZIP_BYTES :: nat where
  "MAX_GZIP_BYTES = 8 * 1024 * 1024"

definition MAX_RAW_BYTES :: nat where
  "MAX_RAW_BYTES = 50 * 1024 * 1024"

definition MAX_FINDINGS :: nat where
  "MAX_FINDINGS = 200000"

definition MAX_LABELS :: nat where
  "MAX_LABELS = 64"

definition MAX_LABEL_KEY :: nat where
  "MAX_LABEL_KEY = 64"

definition MAX_LABEL_VALUE :: nat where
  "MAX_LABEL_VALUE = 256"

datatype bundle_error = BundleInvalid | BundleTooLarge

record host_identity =
  hi_machine_id :: string
  hi_hostname :: string
  hi_os :: string
  hi_labels :: pydict
  hi_agent_version :: string

record scan_bundle =
  schema_version :: nat
  b_scan_uuid :: string
  b_host :: host_identity
  b_scan :: pydict
  b_findings :: "pydict list"
  dropped_drift :: nat

type_synonym byte = "8 word"
type_synonym inflate_fn = "byte list \<Rightarrow> nat \<Rightarrow> (byte list \<times> bool) option"
type_synonym json_loads_fn = "byte list \<Rightarrow> json option"

section \<open>Field access\<close>

fun is_obj :: "json \<Rightarrow> bool" where
  "is_obj (JObj _) = True"
| "is_obj _ = False"

fun obj_of :: "json \<Rightarrow> pydict" where
  "obj_of (JObj d) = d"
| "obj_of _ = []"

definition req_str :: "pydict \<Rightarrow> string \<Rightarrow> bool \<Rightarrow> bundle_error + string" where
  "req_str d key nonempty =
     (case (case dict_get d key of Some v \<Rightarrow> v | None \<Rightarrow> if nonempty then JNull else JStr []) of
        JStr s \<Rightarrow> if nonempty \<and> s = [] then Inl BundleInvalid else Inr s
      | _ \<Rightarrow> Inl BundleInvalid)"

fun check_label :: "string \<times> json \<Rightarrow> bool" where
  "check_label (k, JStr v) \<longleftrightarrow> length k \<le> MAX_LABEL_KEY \<and> length v \<le> MAX_LABEL_VALUE"
| "check_label (k, _) \<longleftrightarrow> False"

text \<open>Every rejection of \<^verbatim>\<open>check_labels\<close> is \<^verbatim>\<open>BundleInvalid\<close>, so only acceptance is computed.\<close>

definition check_labels :: "pydict \<Rightarrow> bool" where
  "check_labels labels \<longleftrightarrow> length labels \<le> MAX_LABELS \<and> list_all check_label labels"

text \<open>\<^verbatim>\<open>v != 1\<close> in Python: the integer, \<^verbatim>\<open>True\<close> and \<^verbatim>\<open>1.0\<close> are all equal to 1.\<close>

fun version_ok :: "json option \<Rightarrow> bool" where
  "version_ok (Some (JInt i)) = (i = int BUNDLE_SCHEMA_VERSION)"
| "version_ok (Some (JBool b)) = b"
| "version_ok (Some (JFloat r)) = (r = ''1.0'')"
| "version_ok _ = False"

definition is_drift_finding :: "pydict \<Rightarrow> bool" where
  "is_drift_finding f \<longleftrightarrow> dict_get f ''probe_id'' = Some (JStr DRIFT_PROBE)"

definition strip_server_keys :: "pydict \<Rightarrow> pydict" where
  "strip_server_keys f =
     (case dict_get f ''evidence'' of
        Some (JObj ev) \<Rightarrow> dict_set ''evidence'' (JObj (AList.delete ''_fleet'' ev)) f
      | _ \<Rightarrow> f)"

definition null_default :: "json option \<Rightarrow> json \<Rightarrow> json" where
  "null_default v d = (case v of None \<Rightarrow> d | Some JNull \<Rightarrow> d | Some x \<Rightarrow> x)"

fun load_identity :: "pydict \<Rightarrow> pydict \<Rightarrow> bundle_error + host_identity" where
  "load_identity h labels =
     (case req_str h ''machine_id'' True of Inl e \<Rightarrow> Inl e | Inr m \<Rightarrow>
      case req_str h ''hostname'' False of Inl e \<Rightarrow> Inl e | Inr n \<Rightarrow>
      case req_str h ''os'' False of Inl e \<Rightarrow> Inl e | Inr os \<Rightarrow>
      case req_str h ''agent_version'' False of Inl e \<Rightarrow> Inl e | Inr av \<Rightarrow>
        Inr \<lparr>hi_machine_id = m, hi_hostname = n, hi_os = os, hi_labels = labels, hi_agent_version = av\<rparr>)"

section \<open>Loading\<close>

text \<open>The checks on the parsed document, in the order the code makes them.\<close>

definition load_doc :: "json \<Rightarrow> bundle_error + scan_bundle" where
  "load_doc doc =
     (if \<not> is_obj doc \<or> \<not> version_ok (dict_get (obj_of doc) ''schema_version'') then Inl BundleInvalid
      else
        (let d = obj_of doc;
             h = null_default (dict_get d ''host'') JNull;
             scan = null_default (dict_get d ''scan'') JNull;
             findings = null_default (dict_get d ''findings'') (JList []);
             labels = null_default (if is_obj h then dict_get (obj_of h) ''labels'' else None) (JObj [])
         in if \<not> (is_obj h \<and> is_obj scan \<and> is_obj labels) then Inl BundleInvalid
            else
              (case findings of
                 JList fs \<Rightarrow>
                   if length fs > MAX_FINDINGS then Inl BundleTooLarge
                   else if \<not> list_all is_obj fs then Inl BundleInvalid
                   else
                     (let kept = filter (\<lambda>f. \<not> is_drift_finding f) (map obj_of fs);
                          dropped = length fs - length kept;
                          clean = map strip_server_keys kept
                      in if \<not> check_labels (obj_of labels) then Inl BundleInvalid
                         else
                           (case load_identity (obj_of h) (obj_of labels) of Inl e \<Rightarrow> Inl e
                            | Inr host \<Rightarrow>
                                (case req_str d ''scan_uuid'' True of Inl e \<Rightarrow> Inl e
                                 | Inr u \<Rightarrow>
                                     Inr \<lparr>schema_version = BUNDLE_SCHEMA_VERSION, b_scan_uuid = u,
                                          b_host = host, b_scan = obj_of scan,
                                          b_findings = clean, dropped_drift = dropped\<rparr>)))
               | _ \<Rightarrow> Inl BundleInvalid)))"

definition load_bundle :: "inflate_fn \<Rightarrow> json_loads_fn \<Rightarrow> byte list \<Rightarrow> bundle_error + scan_bundle" where
  "load_bundle inflate json_loads data =
     (if length data > MAX_GZIP_BYTES then Inl BundleTooLarge
      else
        (case inflate data (MAX_RAW_BYTES + 1) of
           None \<Rightarrow> Inl BundleInvalid
         | Some (raw, tail) \<Rightarrow>
             if length raw > MAX_RAW_BYTES \<or> tail then Inl BundleTooLarge
             else (case json_loads raw of None \<Rightarrow> Inl BundleInvalid | Some doc \<Rightarrow> load_doc doc)))"

section \<open>What an accepted bundle guarantees\<close>

definition sanitised :: "pydict \<Rightarrow> bool" where
  "sanitised f \<longleftrightarrow> \<not> is_drift_finding f \<and>
     (\<forall>ev. dict_get f ''evidence'' = Some (JObj ev) \<longrightarrow> dict_get ev ''_fleet'' = None)"

definition bundle_ok :: "scan_bundle \<Rightarrow> bool" where
  "bundle_ok b \<longleftrightarrow>
     schema_version b = BUNDLE_SCHEMA_VERSION \<and> b_scan_uuid b \<noteq> [] \<and> hi_machine_id (b_host b) \<noteq> [] \<and>
     check_labels (hi_labels (b_host b)) \<and>
     length (b_findings b) + dropped_drift b \<le> MAX_FINDINGS \<and> list_all sanitised (b_findings b)"

lemma strip_server_keys_other: "k \<noteq> ''evidence'' \<Longrightarrow> dict_get (strip_server_keys f) k = dict_get f k"
  by (simp add: strip_server_keys_def split: option.splits json.splits)

lemma sanitised_strip: "\<not> is_drift_finding f \<Longrightarrow> sanitised (strip_server_keys f)"
  by (simp add: sanitised_def is_drift_finding_def strip_server_keys_other)
     (auto simp: strip_server_keys_def delete_conv' split: option.splits json.splits)

lemma req_str_nonempty: "req_str d k True = Inr s \<Longrightarrow> s \<noteq> [] \<and> dict_get d k = Some (JStr s)"
  by (simp add: req_str_def split: option.splits json.splits if_splits)

lemma load_identity_fields:
  "load_identity h labels = Inr i \<Longrightarrow> hi_machine_id i \<noteq> [] \<and> hi_labels i = labels"
  by (auto split: sum.splits dest: req_str_nonempty)

lemma load_doc_ok:
  assumes "load_doc doc = Inr b"
  shows "bundle_ok b"
proof -
  let ?fs = "null_default (dict_get (obj_of doc) ''findings'') (JList [])"
  obtain fs host labels u scan where fs: "?fs = JList fs" "length fs \<le> MAX_FINDINGS"
    and l: "check_labels labels"
    and h: "load_identity host labels = Inr (b_host b)"
    and u: "req_str (obj_of doc) ''scan_uuid'' True = Inr (b_scan_uuid b)"
    and b: "schema_version b = BUNDLE_SCHEMA_VERSION"
      "b_findings b = map strip_server_keys (filter (\<lambda>f. \<not> is_drift_finding f) (map obj_of fs))"
      "dropped_drift b = length fs - length (filter (\<lambda>f. \<not> is_drift_finding f) (map obj_of fs))"
    using assms unfolding load_doc_def Let_def
    by (simp split: if_splits json.splits sum.splits del: load_identity.simps) force
  have "length (filter (\<lambda>f. \<not> is_drift_finding f) (map obj_of fs)) \<le> length fs"
    by (metis length_filter_le length_map)
  with fs b have "length (b_findings b) + dropped_drift b \<le> MAX_FINDINGS" by simp
  moreover have "list_all sanitised (b_findings b)"
    by (auto simp: b list_all_iff intro: sanitised_strip)
  ultimately show ?thesis
    using load_identity_fields [OF h] req_str_nonempty [OF u] l b(1) by (simp add: bundle_ok_def)
qed


definition sample_doc :: json where
  "sample_doc = JObj
     [(''schema_version'', JInt 1), (''scan_uuid'', JStr ''u-1''),
      (''host'', JObj [(''machine_id'', JStr ''m-1''), (''hostname'', JStr ''web1'')]),
      (''scan'', JObj [(''status'', JStr ''done'')]),
      (''findings'', JList
        [JObj [(''probe_id'', JStr ''net.tls''), (''evidence'', JObj [(''_fleet'', JNull), (''port'', JInt 443)])],
         JObj [(''probe_id'', JStr ''fleet.drift'')]])]"

definition sample_bundle :: scan_bundle where
  "sample_bundle =
     \<lparr>schema_version = 1, b_scan_uuid = ''u-1'',
      b_host = \<lparr>hi_machine_id = ''m-1'', hi_hostname = ''web1'', hi_os = '''', hi_labels = [], hi_agent_version = ''''\<rparr>,
      b_scan = [(''status'', JStr ''done'')],
      b_findings = [[(''probe_id'', JStr ''net.tls''), (''evidence'', JObj [(''port'', JInt 443)])]],
      dropped_drift = 1\<rparr>"

lemma load_sample: "load_bundle (\<lambda>d cap. Some (d, False)) (\<lambda>raw. Some sample_doc) [] = Inr sample_bundle"
  by (simp add: load_bundle_def load_doc_def sample_doc_def sample_bundle_def null_default_def req_str_def
      is_drift_finding_def strip_server_keys_def check_labels_def BUNDLE_SCHEMA_VERSION_def MAX_FINDINGS_def
      DRIFT_PROBE_def AList.delete_eq)


end
