(* ===== verification/Store_Fleet.thy ===== *)
theory Store_Fleet
  imports Store_Laws Scan_Bundle
begin

text \<open>
  The fleet half of \<^verbatim>\<open>store/repo.py\<close>: hosts and their tokens, the ingest of a bundle (with
  every conversion that can raise), the fleet summary and the temporary fleet rollup.
\<close>

section \<open>Hosts\<close>

definition py_or :: "string \<Rightarrow> string \<Rightarrow> string" where
  "py_or a b = (if a \<noteq> [] then a else b)"

definition apply_identity :: "env \<Rightarrow> host_identity \<Rightarrow> host \<Rightarrow> host" where
  "apply_identity e ident h =
     h\<lparr>h_hostname := py_or (hi_hostname ident) (h_hostname h), h_os := py_or (hi_os ident) (h_os h),
       h_labels := dict_merge (h_labels h) (hi_labels ident),
       h_agent_version := py_or (hi_agent_version ident) (h_agent_version h), h_last_seen := env_now e\<rparr>"

definition new_host :: "env \<Rightarrow> string \<Rightarrow> nat \<Rightarrow> host" where
  "new_host e m i =
     \<lparr>h_id = i, h_machine_id = m, h_hostname = [], h_os = [], h_labels = [], h_agent_version = [],
      h_first_seen = env_now e, h_last_seen = env_now e, h_token_hash = None, h_revoked = False\<rparr>"

definition get_host :: "nat \<Rightarrow> db \<Rightarrow> host option" where
  "get_host i d = get_row h_id i (hosts d)"

definition get_host_by_machine_id :: "string \<Rightarrow> db \<Rightarrow> host option" where
  "get_host_by_machine_id m d = find (\<lambda>h. h_machine_id h = m) (hosts d)"

definition get_host_by_token_hash :: "string \<Rightarrow> db \<Rightarrow> host option" where
  "get_host_by_token_hash t d = find (\<lambda>h. h_token_hash h = Some t) (hosts d)"

definition list_hosts :: "db \<Rightarrow> host list" where
  "list_hosts d = sort_key (\<lambda>h. (h_hostname h, h_id h)) (hosts d)"

definition set_token :: "string option \<Rightarrow> host \<Rightarrow> host" where
  "set_token t h = (case t of None \<Rightarrow> h | Some x \<Rightarrow> h\<lparr>h_token_hash := Some x\<rparr>)"

text \<open>The unique column \<^verbatim>\<open>token_hash\<close> rejects a hash another host holds.\<close>

definition upsert_host :: "env \<Rightarrow> host_identity \<Rightarrow> string option \<Rightarrow> host session" where
  "upsert_host e ident t d =
     (let h0 = (case get_host_by_machine_id (hi_machine_id ident) d of
                  Some h \<Rightarrow> h
                | None \<Rightarrow> new_host e (hi_machine_id ident) (env_alloc e (map h_id (hosts d))));
          h = set_token t (apply_identity e ident h0)
      in if t \<noteq> None \<and> list_ex (\<lambda>h'. h_id h' \<noteq> h_id h \<and> h_token_hash h' = t) (hosts d) then Inl RIntegrityError
         else Inr (h, d\<lparr>hosts :=
           (if get_host_by_machine_id (hi_machine_id ident) d = None then add_row h (hosts d)
            else update_where (\<lambda>h'. h_id h' = h_id h) (\<lambda>_. h) (hosts d))\<rparr>))"

definition revoke_host :: "nat \<Rightarrow> db \<Rightarrow> bool \<times> db" where
  "revoke_host hid d =
     (case get_row h_id hid (hosts d) of
        None \<Rightarrow> (False, d)
      | Some _ \<Rightarrow> (True, d\<lparr>hosts := update_where (\<lambda>h. h_id h = hid)
                            (\<lambda>h. h\<lparr>h_revoked := True, h_token_hash := None\<rparr>) (hosts d)\<rparr>))"

definition unrevoke_host :: "nat \<Rightarrow> db \<Rightarrow> bool \<times> db" where
  "unrevoke_host hid d =
     (case get_row h_id hid (hosts d) of
        None \<Rightarrow> (False, d)
      | Some _ \<Rightarrow> (True, d\<lparr>hosts := update_where (\<lambda>h. h_id h = hid) (\<lambda>h. h\<lparr>h_revoked := False\<rparr>) (hosts d)\<rparr>))"

section \<open>Conversions of bundle values\<close>

text \<open>\<^verbatim>\<open>str(d.get(k, default))\<close>.\<close>

definition str_get :: "pydict \<Rightarrow> string \<Rightarrow> string \<Rightarrow> string" where
  "str_get d k dflt = (case dict_get d k of Some v \<Rightarrow> py_str v | None \<Rightarrow> dflt)"

text \<open>A dictionary key as it is written to the JSON column.\<close>

fun json_key :: "json \<Rightarrow> repo_error + string" where
  "json_key (JStr s) = Inr s"
| "json_key (JInt i) = Inr (show_int i)"
| "json_key (JFloat r) = Inr r"
| "json_key (JBool b) = Inr (if b then ''true'' else ''false'')"
| "json_key JNull = Inr ''null''"
| "json_key _ = Inl RTypeError"

text \<open>One element of an iterable given to \<^verbatim>\<open>dict(...)\<close>: it must itself have two elements.\<close>

fun dict_item :: "json \<Rightarrow> repo_error + string \<times> json" where
  "dict_item (JList [k, v]) = (case json_key k of Inl e \<Rightarrow> Inl e | Inr s \<Rightarrow> Inr (s, v))"
| "dict_item (JList _) = Inl RValueError"
| "dict_item (JStr [a, b]) = Inr ([a], JStr [b])"
| "dict_item (JStr _) = Inl RValueError"
| "dict_item (JObj [(a, _), (b, _)]) = Inr (a, JStr b)"
| "dict_item (JObj _) = Inl RValueError"
| "dict_item _ = Inl RTypeError"

fun dict_items :: "json list \<Rightarrow> pydict \<Rightarrow> repo_error + pydict" where
  "dict_items [] d = Inr d"
| "dict_items (x # xs) d = (case dict_item x of Inl e \<Rightarrow> Inl e | Inr (k, v) \<Rightarrow> dict_items xs (dict_set k v d))"

fun py_dict :: "json \<Rightarrow> repo_error + pydict" where
  "py_dict (JObj d) = Inr d"
| "py_dict (JList xs) = dict_items xs []"
| "py_dict (JStr s) = dict_items (map (\<lambda>c. JStr [c]) s) []"
| "py_dict _ = Inl RTypeError"

text \<open>\<^verbatim>\<open>dict(d.get(k) or {})\<close>.\<close>

definition dict_or_empty :: "pydict \<Rightarrow> string \<Rightarrow> repo_error + pydict" where
  "dict_or_empty d k = (case get_truthy d k of None \<Rightarrow> Inr [] | Some v \<Rightarrow> py_dict v)"

definition parse_dt :: "env \<Rightarrow> json option \<Rightarrow> int option" where
  "parse_dt e v = (case v of None \<Rightarrow> None
     | Some x \<Rightarrow> if truthy x then env_parse_dt e (py_str x) else None)"

definition INGEST_STATUSES :: "string list" where
  "INGEST_STATUSES = [''done'', ''failed'', ''interrupted'']"

section \<open>Ingest\<close>

record ingest_result =
  ir_scan_id :: nat
  stored_findings :: nat
  stored_views :: nat
  duplicate :: bool
  ir_drift :: nat

text \<open>Conversion of a list, stopping at the first error.\<close>

fun map_res :: "('a \<Rightarrow> 'e + 'b) \<Rightarrow> 'a list \<Rightarrow> 'e + 'b list" where
  "map_res f [] = Inr []"
| "map_res f (x # xs) =
     (case f x of Inl e \<Rightarrow> Inl e
      | Inr y \<Rightarrow> (case map_res f xs of Inl e \<Rightarrow> Inl e | Inr ys \<Rightarrow> Inr (y # ys)))"

definition current_view :: "pydict \<Rightarrow> repo_error + row_view" where
  "current_view f =
     (case dict_get f ''probe_id'' of
        None \<Rightarrow> Inl RKeyError
      | Some p \<Rightarrow>
          (case dict_or_empty f ''evidence'' of
             Inl e \<Rightarrow> Inl e
           | Inr ev \<Rightarrow> Inr \<lparr>rv_probe_id = py_str p, rv_algorithm = str_get f ''algorithm'' ''N/A'',
                          rv_title = str_get f ''title'' [], rv_evidence = ev\<rparr>))"

definition bundle_drift :: "env \<Rightarrow> scan_bundle \<Rightarrow> nat \<Rightarrow> db \<Rightarrow> repo_error + finding list \<times> nat" where
  "bundle_drift e b hid d =
     (let st = str_get (b_scan b) ''status'' ''done'' in
      if st \<in> set INGEST_STATUSES \<and> st \<noteq> ''done'' then Inr ([], 0)
      else if uuid_taken (Some (b_scan_uuid b)) d then Inr ([], 0)
      else
        (case newest_done hid d of
           None \<Rightarrow> Inr ([], 0)
         | Some prev_id \<Rightarrow>
             (let prev = filter (\<lambda>r. fr_scan_id r = prev_id) (findings d) in
              case map_res current_view (filter (\<lambda>f. \<not> is_drift_finding f) (b_findings b)) of
                Inl err \<Rightarrow> Inl err
              | Inr cur \<Rightarrow> Inr (drift_rows (env_now e) (map view_of_row prev) cur))))"

definition ingest_row :: "env \<Rightarrow> nat \<Rightarrow> pydict \<Rightarrow> repo_error + (nat \<Rightarrow> finding_row)" where
  "ingest_row e sid f =
     (case dict_get f ''probe_id'' of
        None \<Rightarrow> Inl RKeyError
      | Some p \<Rightarrow>
          (case dict_or_empty f ''evidence'' of Inl err \<Rightarrow> Inl err
           | Inr ev \<Rightarrow>
               (case dict_or_empty f ''remediation'' of Inl err \<Rightarrow> Inl err
                | Inr rm \<Rightarrow> Inr (\<lambda>i.
                    \<lparr>fr_id = i, fr_scan_id = sid, fr_component_id = None, fr_probe_id = py_str p,
                     fr_algorithm = str_get f ''algorithm'' ''N/A'',
                     fr_classification = str_get f ''classification'' ''info'',
                     fr_severity = str_get f ''severity'' ''info'',
                     fr_title = str_get f ''title'' [], fr_evidence = ev, fr_remediation = rm,
                     fr_created_at = (case parse_dt e (dict_get f ''created_at'') of
                        Some t \<Rightarrow> t | None \<Rightarrow> env_now e)\<rparr>))))"

definition view_deadline :: "env \<Rightarrow> pydict \<Rightarrow> repo_error + string option" where
  "view_deadline e v =
     (case get_truthy v ''deadline'' of
        None \<Rightarrow> Inr None
      | Some (JStr s) \<Rightarrow> (case env_parse_date e s of None \<Rightarrow> Inl RValueError | Some t \<Rightarrow> Inr (Some t))
      | Some _ \<Rightarrow> Inl RTypeError)"

text \<open>The fields of one framework view: framework, clause, verdict, deadline.\<close>

fun view_fields :: "env \<Rightarrow> json \<Rightarrow> repo_error + string \<times> string \<times> string \<times> string option" where
  "view_fields e (JObj v) =
     (case (dict_get v ''framework'', dict_get v ''clause'', dict_get v ''verdict'') of
        (Some a, Some b, Some c) \<Rightarrow>
          (case view_deadline e v of Inl err \<Rightarrow> Inl err | Inr dl \<Rightarrow> Inr (py_str a, py_str b, py_str c, dl))
      | _ \<Rightarrow> Inl RKeyError)"
| "view_fields e _ = Inl RTypeError"

text \<open>\<^verbatim>\<open>f.get("views") or []\<close>; iterating a non-empty text or object yields texts, which have no
  string keys.\<close>

definition views_of :: "pydict \<Rightarrow> repo_error + json list" where
  "views_of f =
     (case get_truthy f ''views'' of
        None \<Rightarrow> Inr [] | Some (JList vs) \<Rightarrow> Inr vs | Some _ \<Rightarrow> Inl RTypeError)"

definition insert_views ::
  "env \<Rightarrow> nat \<Rightarrow> (string \<times> string \<times> string \<times> string option) list \<Rightarrow> db \<Rightarrow> db" where
  "insert_views e fid vs d =
     foldl (\<lambda>d (fw, cl, vd, dl). snd (insert_view e (\<lambda>i. \<lparr>vw_id = i, vw_finding_id = fid,
       vw_framework = fw, vw_clause = cl, vw_verdict = vd, vw_deadline = dl\<rparr>) d)) d vs"

fun ingest_findings :: "env \<Rightarrow> nat \<Rightarrow> pydict list \<Rightarrow> nat \<times> nat \<Rightarrow> (nat \<times> nat) session" where
  "ingest_findings e sid [] n d = Inr (n, d)"
| "ingest_findings e sid (f # fs) (n_f, n_v) d =
     (case ingest_row e sid f of Inl err \<Rightarrow> Inl err
      | Inr mk \<Rightarrow>
          (case insert_finding e mk d of (fid, d1) \<Rightarrow>
             (case views_of f of Inl err \<Rightarrow> Inl err
              | Inr raw \<Rightarrow>
                  (case map_res (view_fields e) raw of Inl err \<Rightarrow> Inl err
                   | Inr vs \<Rightarrow> ingest_findings e sid fs (n_f + 1, n_v + length vs) (insert_views e fid vs d1)))))"

definition insert_drift :: "env \<Rightarrow> nat \<Rightarrow> finding list \<Rightarrow> db \<Rightarrow> db" where
  "insert_drift e sid fs d = foldl (\<lambda>d f. snd (insert_finding e (row_of_finding sid f) d)) d fs"

definition ingest_scan :: "env \<Rightarrow> scan_bundle \<Rightarrow> nat \<Rightarrow> pydict \<Rightarrow> pydict \<Rightarrow> nat \<Rightarrow> scan" where
  "ingest_scan e b hid pv tv i =
     (let sc = b_scan b; st = str_get sc ''status'' ''done'' in
      \<lparr>sc_id = i,
       sc_started_at = (case parse_dt e (dict_get sc ''started_at'') of Some t \<Rightarrow> t | None \<Rightarrow> env_now e),
       sc_finished_at = parse_dt e (dict_get sc ''finished_at''),
       sc_host_fingerprint = Some (hi_hostname (b_host b)), sc_mode = str_get sc ''mode'' ''user'',
       sc_status = (if st \<in> set INGEST_STATUSES then st else ''done''), sc_label = None,
       sc_probe_versions = pv, sc_tool_versions = tv, sc_host_id = Some hid,
       sc_scan_uuid = Some (b_scan_uuid b)\<rparr>)"

definition touch_host :: "env \<Rightarrow> host_identity \<Rightarrow> nat \<Rightarrow> db \<Rightarrow> db" where
  "touch_host e ident hid d =
     d\<lparr>hosts := update_where (\<lambda>h. h_id h = hid) (apply_identity e ident) (hosts d)\<rparr>"

definition store_bundle :: "env \<Rightarrow> scan_bundle \<Rightarrow> nat \<Rightarrow> finding list \<times> nat \<Rightarrow> ingest_result session" where
  "store_bundle e b hid dr d =
     (case dict_or_empty (b_scan b) ''probe_versions'' of Inl err \<Rightarrow> Inl err
      | Inr pv \<Rightarrow>
     (case dict_or_empty (b_scan b) ''tool_versions'' of Inl err \<Rightarrow> Inl err
      | Inr tv \<Rightarrow>
     (case insert_scan e (ingest_scan e b hid pv tv) d of Inl err \<Rightarrow> Inl err
      | Inr (sid, d1) \<Rightarrow>
     (case ingest_findings e sid (b_findings b) (0, 0) d1 of Inl err \<Rightarrow> Inl err
      | Inr ((n_f, n_v), d2) \<Rightarrow>
          Inr (\<lparr>ir_scan_id = sid, stored_findings = n_f, stored_views = n_v, duplicate = False,
                ir_drift = snd dr\<rparr>,
               touch_host e (b_host b) hid (insert_drift e sid (fst dr) d2))))))"

definition ingest_bundle :: "env \<Rightarrow> scan_bundle \<Rightarrow> nat \<Rightarrow> ingest_result session" where
  "ingest_bundle e b hid d =
     (case bundle_drift e b hid d of Inl err \<Rightarrow> Inl err
      | Inr dr \<Rightarrow>
          (case get_row h_id hid (hosts d) of
             None \<Rightarrow> Inl RValueError
           | Some h \<Rightarrow>
               (case find (\<lambda>s. sc_scan_uuid s = Some (b_scan_uuid b)) (scans d) of
                  Some s \<Rightarrow>
                    if sc_host_id s \<noteq> Some hid then Inl RValueError
                    else Inr (\<lparr>ir_scan_id = sc_id s, stored_findings = 0, stored_views = 0,
                               duplicate = True, ir_drift = 0\<rparr>, d)
                | None \<Rightarrow> store_bundle e b hid dr d)))"

section \<open>The fleet summary\<close>

type_synonym group = "nat \<times> string \<times> string \<times> string \<times> string"

definition group_cols :: "finding_row \<Rightarrow> group" where
  "group_cols r = (fr_scan_id r, fr_classification r, fr_algorithm r, fr_probe_id r, fr_severity r)"

text \<open>\<^verbatim>\<open>SELECT cols, count(*) ... GROUP BY cols\<close>.\<close>

definition grouped :: "finding_row list \<Rightarrow> (group \<times> nat) list" where
  "grouped rows = map (\<lambda>g. (g, length (filter (\<lambda>r. group_cols r = g) rows))) (dedupe (map group_cols rows))"

record tally =
  ta_bands :: band_counts
  ta_crit :: nat
  ta_high :: nat
  ta_drift :: nat

definition empty_tally :: tally where
  "empty_tally = \<lparr>ta_bands = empty_band_counts, ta_crit = 0, ta_high = 0, ta_drift = 0\<rparr>"

text \<open>The columns of a result row, as \<^verbatim>\<open>classify_band\<close> reads them.\<close>

definition group_row :: "group \<Rightarrow> finding_row" where
  "group_row g = (case g of (sid, cls, alg, pid, sev) \<Rightarrow>
     \<lparr>fr_id = 0, fr_scan_id = sid, fr_component_id = None, fr_probe_id = pid, fr_algorithm = alg,
      fr_classification = cls, fr_severity = sev, fr_title = [], fr_evidence = [],
      fr_remediation = [], fr_created_at = 0\<rparr>)"

fun add_band :: "band \<Rightarrow> nat \<Rightarrow> band_counts \<Rightarrow> band_counts" where
  "add_band Green n c = c\<lparr>green := green c + n, total := total c + n\<rparr>"
| "add_band Yellow n c = c\<lparr>yellow := yellow c + n, total := total c + n\<rparr>"
| "add_band Red n c = c\<lparr>red := red c + n, total := total c + n\<rparr>"
| "add_band Grey n c = c\<lparr>grey := grey c + n, total := total c + n\<rparr>"

definition tally_group :: "tally \<Rightarrow> group \<Rightarrow> nat \<Rightarrow> tally" where
  "tally_group t g n =
     (let r = group_row g in
      if fr_probe_id r = DRIFT_PROBE then t\<lparr>ta_drift := ta_drift t + n\<rparr>
      else t\<lparr>ta_bands := add_band (classify_band r) n (ta_bands t),
             ta_crit := ta_crit t + (if fr_severity r = ''crit'' then n else 0),
             ta_high := ta_high t + (if fr_severity r = ''high'' then n else 0)\<rparr>)"

definition tally_step :: "(nat \<times> tally) list \<Rightarrow> group \<times> nat \<Rightarrow> (nat \<times> tally) list" where
  "tally_step m gn =
     (let t = (case map_of m (fst (fst gn)) of Some t \<Rightarrow> t | None \<Rightarrow> empty_tally)
      in AList.update (fst (fst gn)) (tally_group t (fst gn) (snd gn)) m)"

record host_summary =
  hs_host :: host
  hs_scan_id :: "nat option"
  hs_finished_at :: "int option"
  hs_readiness :: "int option"
  hs_crit :: nat
  hs_high :: nat
  hs_total :: nat
  hs_drift :: nat

definition summarise_host :: "db \<Rightarrow> (nat \<times> tally) list \<Rightarrow> host \<Rightarrow> host_summary" where
  "summarise_host d tallies h =
     (case newest_done (h_id h) d of
        None \<Rightarrow> \<lparr>hs_host = h, hs_scan_id = None, hs_finished_at = None, hs_readiness = None,
                hs_crit = 0, hs_high = 0, hs_total = 0, hs_drift = 0\<rparr>
      | Some sid \<Rightarrow>
          (let t = (case map_of tallies sid of Some t \<Rightarrow> t | None \<Rightarrow> empty_tally); c = ta_bands t;
               rated = green c + yellow c + red c
           in \<lparr>hs_host = h, hs_scan_id = Some sid,
               hs_finished_at = (case get_row sc_id sid (scans d) of Some s \<Rightarrow> sc_finished_at s | None \<Rightarrow> None),
               hs_readiness = Some (if rated \<noteq> 0 then readiness_score c else 100),
               hs_crit = ta_crit t, hs_high = ta_high t, hs_total = total c, hs_drift = ta_drift t\<rparr>))"

definition latest_ids :: "db \<Rightarrow> nat list" where
  "latest_ids d = List.map_filter (\<lambda>h. newest_done h d) (dedupe (List.map_filter sc_host_id
     (filter (\<lambda>s. sc_status s = ''done'') (scans d))))"

definition fleet_summary :: "db \<Rightarrow> host_summary list" where
  "fleet_summary d =
     (let rows = filter (\<lambda>r. fr_scan_id r \<in> set (latest_ids d)) (findings d);
          tallies = foldl tally_step [] (grouped rows)
      in map (summarise_host d tallies) (list_hosts d))"

section \<open>The temporary fleet rollup\<close>

definition fleet_mark :: "host \<Rightarrow> json" where
  "fleet_mark h = JObj [(''host'', JStr (h_hostname h)), (''host_id'', JInt (int (h_id h))),
     (''machine_id'', JStr (h_machine_id h))]"

definition rollup_row :: "nat \<Rightarrow> json \<Rightarrow> finding_row \<Rightarrow> nat \<Rightarrow> finding_row" where
  "rollup_row rid mark r i =
     r\<lparr>fr_id := i, fr_scan_id := rid, fr_component_id := None,
       fr_evidence := dict_set ''_fleet'' mark (fr_evidence r)\<rparr>"

text \<open>The batched insert of one host's rows; returns the map from old to new finding ids.\<close>

fun rollup_rows :: "env \<Rightarrow> nat \<Rightarrow> json \<Rightarrow> finding_row list \<Rightarrow> db \<Rightarrow> (nat \<times> nat) list \<times> db" where
  "rollup_rows e rid mark [] d = ([], d)"
| "rollup_rows e rid mark (r # rs) d =
     (case insert_finding e (rollup_row rid mark r) d of (i, d1) \<Rightarrow>
        (case rollup_rows e rid mark rs d1 of (m, d2) \<Rightarrow> ((fr_id r, i) # m, d2)))"

definition rollup_views :: "env \<Rightarrow> (nat \<times> nat) list \<Rightarrow> framework_view list \<Rightarrow> db \<Rightarrow> db" where
  "rollup_views e new_id vs d =
     foldl (\<lambda>d v. snd (insert_view e (\<lambda>i. v\<lparr>vw_id := i, vw_finding_id := the (map_of new_id (vw_finding_id v))\<rparr>) d)) d vs"

definition rollup_host :: "env \<Rightarrow> nat \<Rightarrow> db \<Rightarrow> host \<times> nat \<Rightarrow> db" where
  "rollup_host e rid d x =
     (let src = filter (\<lambda>r. fr_scan_id r = snd x \<and> fr_probe_id r \<noteq> DRIFT_PROBE) (findings d)
      in case rollup_rows e rid (fleet_mark (fst x)) src d of (new_id, d1) \<Rightarrow>
           rollup_views e new_id (filter (\<lambda>v. vw_finding_id v \<in> set (map fr_id src)) (fviews d1)) d1)"

definition rollup_scan :: "env \<Rightarrow> nat \<Rightarrow> nat \<Rightarrow> scan" where
  "rollup_scan e n i =
     \<lparr>sc_id = i, sc_started_at = env_now e, sc_finished_at = Some (env_now e),
      sc_host_fingerprint = Some ''fleet'', sc_mode = ''user'', sc_status = ''done'',
      sc_label = Some FLEET_ROLLUP_LABEL, sc_probe_versions = [],
      sc_tool_versions = [(''hosts'', JInt (int n)), (''temporary'', JBool True)],
      sc_host_id = None, sc_scan_uuid = Some (env_uuid e)\<rparr>"

definition summary_scans :: "db \<Rightarrow> (host \<times> nat) list" where
  "summary_scans d = List.map_filter (\<lambda>x. map_option (\<lambda>i. (hs_host x, i)) (hs_scan_id x)) (fleet_summary d)"

definition materialize_fleet_rollup :: "env \<Rightarrow> nat option session" where
  "materialize_fleet_rollup e d =
     (let summary = summary_scans d in
      if summary = [] then Inr (None, d)
      else (case insert_scan e (rollup_scan e (length summary)) d of
              Inl err \<Rightarrow> Inl err
            | Inr (rid, d1) \<Rightarrow> Inr (Some rid, foldl (rollup_host e rid) d1 summary)))"

end
