(* ===== verification/Ingest_Laws.thy ===== *)
theory Ingest_Laws
  imports Store_Fleet
begin

text \<open>
  What the writing sessions of \<^verbatim>\<open>store/repo.py\<close> do to the database. Both the ingest of a
  bundle and the fleet rollup only append findings and views that belong to one new scan; the
  relation \<open>extends\<close> captures this, and gives the invariant, the isolation of the other
  scans, and that deleting the new scan undoes the session.
\<close>

section \<open>Growing one scan\<close>

definition extends :: "nat \<Rightarrow> db \<Rightarrow> db \<Rightarrow> bool" where
  "extends sid d d' \<longleftrightarrow>
     (\<exists>fs vs. d' = d\<lparr>findings := findings d @ fs, fviews := fviews d @ vs\<rparr> \<and>
        (\<forall>r \<in> set fs. fr_scan_id r = sid) \<and>
        (\<forall>v \<in> set vs. vw_finding_id v \<in> fr_id ` {r \<in> set (findings d'). fr_scan_id r = sid}) \<and>
        (keys_ok fr_id (findings d) \<longrightarrow> keys_ok fr_id (findings d')) \<and>
        (keys_ok vw_id (fviews d) \<longrightarrow> keys_ok vw_id (fviews d')))"

lemma extends_refl [simp]: "extends sid d d"
  unfolding extends_def by (intro exI [of _ "[]"]) simp

lemma extends_trans [trans]:
  assumes "extends sid d1 d2" and "extends sid d2 d3"
  shows "extends sid d1 d3"
proof -
  obtain fs vs where 1: "d2 = d1\<lparr>findings := findings d1 @ fs, fviews := fviews d1 @ vs\<rparr>"
      "\<forall>r \<in> set fs. fr_scan_id r = sid"
      "\<forall>v \<in> set vs. vw_finding_id v \<in> fr_id ` {r \<in> set (findings d2). fr_scan_id r = sid}"
      "keys_ok fr_id (findings d1) \<longrightarrow> keys_ok fr_id (findings d2)"
      "keys_ok vw_id (fviews d1) \<longrightarrow> keys_ok vw_id (fviews d2)"
    using assms(1) unfolding extends_def by blast
  obtain gs ws where 2: "d3 = d2\<lparr>findings := findings d2 @ gs, fviews := fviews d2 @ ws\<rparr>"
      "\<forall>r \<in> set gs. fr_scan_id r = sid"
      "\<forall>v \<in> set ws. vw_finding_id v \<in> fr_id ` {r \<in> set (findings d3). fr_scan_id r = sid}"
      "keys_ok fr_id (findings d2) \<longrightarrow> keys_ok fr_id (findings d3)"
      "keys_ok vw_id (fviews d2) \<longrightarrow> keys_ok vw_id (fviews d3)"
    using assms(2) unfolding extends_def by blast
  have "set (findings d2) \<subseteq> set (findings d3)" using 2(1) by simp
  with 1(3) have "\<forall>v \<in> set vs. vw_finding_id v \<in> fr_id ` {r \<in> set (findings d3). fr_scan_id r = sid}"
    by blast
  with 1 2 show ?thesis
    unfolding extends_def by (intro exI [of _ "fs @ gs"] exI [of _ "vs @ ws"]) auto
qed

lemma insert_finding_extends:
  assumes "env_ok e" and "\<And>i. fr_id (mk i) = i" and "\<And>i. fr_scan_id (mk i) = sid"
  shows "extends sid d (snd (insert_finding e mk d))"
proof -
  let ?r = "mk (env_alloc e (map fr_id (findings d)))"
  have "keys_ok fr_id (findings d) \<Longrightarrow> keys_ok fr_id (add_row ?r (findings d))"
    using fresh_key [OF assms(1), of "findings d" fr_id] assms(2) by (intro finding_t.ok_add) auto
  then show ?thesis
    unfolding extends_def
    by (intro exI [of _ "[?r]"] exI [of _ "[]"]) (simp add: insert_finding_def Let_def add_row_def assms)
qed

lemma insert_view_extends:
  assumes "env_ok e" and "\<And>i. vw_id (mk i) = i"
    and "\<And>i. vw_finding_id (mk i) \<in> fr_id ` {r \<in> set (findings d). fr_scan_id r = sid}"
  shows "extends sid d (snd (insert_view e mk d))"
proof -
  let ?v = "mk (env_alloc e (map vw_id (fviews d)))"
  have "keys_ok vw_id (fviews d) \<Longrightarrow> keys_ok vw_id (add_row ?v (fviews d))"
    using fresh_key [OF assms(1), of "fviews d" vw_id] assms(2) by (intro view_t.ok_add) auto
  moreover have "vw_finding_id ?v \<in> fr_id ` {r \<in> set (findings d). fr_scan_id r = sid}"
    by (rule assms(3))
  ultimately show ?thesis
    unfolding extends_def
    by (intro exI [of _ "[]"] exI [of _ "[?v]"]) (simp add: insert_view_def Let_def add_row_def)
qed

lemma extends_findings_mono: "extends sid d d' \<Longrightarrow> set (findings d) \<subseteq> set (findings d')"
  by (auto simp: extends_def)

lemma extends_same:
  "extends sid d d' \<Longrightarrow> scans d' = scans d \<and> hosts d' = hosts d \<and> baselines d' = baselines d \<and>
     components d' = components d \<and> edges d' = edges d"
  by (auto simp: extends_def)

lemma extends_list_findings: "extends sid d d' \<Longrightarrow> j \<noteq> sid \<Longrightarrow> list_findings j d' = list_findings j d"
proof -
  assume "extends sid d d'" and j: "j \<noteq> sid"
  then obtain fs where "findings d' = findings d @ fs" "\<forall>r \<in> set fs. fr_scan_id r = sid"
    unfolding extends_def by auto
  with j have "filter (\<lambda>r. fr_scan_id r = j) (findings d') = filter (\<lambda>r. fr_scan_id r = j) (findings d)"
    by (auto simp: filter_empty_conv)
  then show ?thesis by (simp add: list_findings_def)
qed

lemma extends_db_ok: "extends sid d d' \<Longrightarrow> db_ok d \<Longrightarrow> db_ok d'"
  by (auto simp: extends_def db_ok_def)

lemma refs_okD: "refs_ok d \<Longrightarrow> vw_finding_id ` set (fviews d) \<subseteq> fr_id ` set (findings d)"
  by (simp add: refs_ok_def)

lemma extends_refs_ok:
  assumes "extends sid d d'" and "refs_ok d" and "sid \<in> sc_id ` set (scans d)"
  shows "refs_ok d'"
proof -
  obtain fs vs where d': "d' = d\<lparr>findings := findings d @ fs, fviews := fviews d @ vs\<rparr>"
      "\<forall>r \<in> set fs. fr_scan_id r = sid"
      "\<forall>v \<in> set vs. vw_finding_id v \<in> fr_id ` {r \<in> set (findings d'). fr_scan_id r = sid}"
    using assms(1) unfolding extends_def by blast
  have "fr_scan_id ` set (findings d') \<subseteq> sc_id ` set (scans d')"
    using d' assms(2,3) by (auto simp: refs_ok_def)
  moreover have "vw_finding_id ` set (fviews d') \<subseteq> fr_id ` set (findings d')"
  proof -
    have "vw_finding_id ` set (fviews d) \<subseteq> fr_id ` set (findings d)"
      using assms(2) by (rule refs_okD)
    moreover have "set (findings d) \<subseteq> set (findings d')" by (simp add: d'(1))
    moreover have "vw_finding_id ` set vs \<subseteq> fr_id ` set (findings d')" using d'(3) by blast
    moreover have "set (fviews d') = set (fviews d) \<union> set vs" by (simp add: d'(1))
    ultimately show ?thesis by blast
  qed
  ultimately show ?thesis using d'(1) assms(2) by (simp add: refs_ok_def)
qed

section \<open>Inserting a scan\<close>

lemma insert_scan_cases:
  assumes "insert_scan e mk d = Inr (i, d')" and "env_ok e" and "\<And>i. sc_id (mk i) = i"
  shows "i = env_alloc e (map sc_id (scans d))" "d' = d\<lparr>scans := add_row (mk i) (scans d)\<rparr>"
    "\<forall>s \<in> set (scans d). sc_id s < i" "\<not> uuid_taken (sc_scan_uuid (mk i)) d"
  using assms fresh_key [OF assms(2), of "scans d" sc_id]
  by (auto simp: insert_scan_def Let_def split: if_splits)

lemma insert_scan_ok:
  assumes "insert_scan e mk d = Inr (i, d')" and "env_ok e" and "\<And>i. sc_id (mk i) = i"
    and "db_ok d"
  shows "db_ok d'"
proof -
  note c = insert_scan_cases [OF assms(1-3)]
  have "keys_ok sc_id (add_row (mk i) (scans d))"
    using c(3) assms(3,4) by (intro scan_t.ok_add) (auto simp: db_okD)
  moreover have "unique_on sc_scan_uuid (add_row (mk i) (scans d))"
    using c(4) assms(4) by (intro unique_on_add) (auto simp: uuid_taken_def db_ok_def)
  ultimately show ?thesis using assms(4) c(2) by (simp add: db_ok_def)
qed

lemma insert_scan_refs:
  assumes "insert_scan e mk d = Inr (i, d')" and "env_ok e" and "\<And>i. sc_id (mk i) = i"
    and "refs_ok d" and "\<And>h. sc_host_id (mk i) = Some h \<Longrightarrow> h \<in> h_id ` set (hosts d)"
  shows "refs_ok d'"
  using assms(4,5) insert_scan_cases(2) [OF assms(1-3)]
  by (auto simp: refs_ok_def add_row_def)

text \<open>Deleting the scan a session created takes the database back to where it was.\<close>

lemma delete_where_none: "\<forall>r \<in> set rows. \<not> p r \<Longrightarrow> delete_where p rows = rows"
  by (simp add: delete_where_def filter_id_conv)

lemma delete_where_append:
  "delete_where p (xs @ ys) = delete_where p xs @ delete_where p ys"
  by (simp add: delete_where_def)

lemma delete_where_all: "\<forall>r \<in> set rows. p r \<Longrightarrow> delete_where p rows = []"
  by (simp add: delete_where_def filter_empty_conv)

lemma delete_created_scan:
  assumes "insert_scan e mk d = Inr (i, d1)" and "env_ok e" and "\<And>i. sc_id (mk i) = i"
    and "extends i d1 d2" and "db_ok d" and "refs_ok d"
  shows "delete_scan i d2 = d"
proof -
  note c = insert_scan_cases [OF assms(1-3)]
  obtain fs vs where d2: "d2 = d1\<lparr>findings := findings d1 @ fs, fviews := fviews d1 @ vs\<rparr>"
      "\<forall>r \<in> set fs. fr_scan_id r = i"
      "\<forall>v \<in> set vs. vw_finding_id v \<in> fr_id ` {r \<in> set (findings d2). fr_scan_id r = i}"
      "keys_ok fr_id (findings d2)"
    using assms(4,5) c(2) unfolding extends_def by (auto simp: db_ok_def)
  have fresh: "i \<notin> sc_id ` set (scans d)" using c(3) by auto
  with assms(6) have old: "i \<notin> fr_scan_id ` set (findings d)" "i \<notin> bl_scan_id ` set (baselines d)"
      "i \<notin> co_scan_id ` set (components d)" "i \<notin> ge_scan_id ` set (edges d)"
    by (auto simp: refs_ok_def)
  have new: "{r \<in> set (findings d2). fr_scan_id r = i} = set fs"
    using d2(1,2) old(1) c(2) by auto
  have "vw_finding_id v \<notin> fr_id ` set fs" if v: "v \<in> set (fviews d)" for v
  proof
    assume "vw_finding_id v \<in> fr_id ` set fs"
    then obtain r where r: "r \<in> set fs" "fr_id r = vw_finding_id v" by auto
    obtain r' where r': "r' \<in> set (findings d)" "fr_id r' = vw_finding_id v"
      using assms(6) v by (auto simp: refs_ok_def)
    have "r = r'"
      using r r' d2(1) c(2) by (intro finding_t.key_inj [OF d2(4)]) auto
    with r r' d2(2) old(1) show False by auto
  qed
  with d2 new c(2) have "fviews (delete_scan i d2) = fviews d"
    by (simp add: delete_scan_sel delete_where_append delete_where_none delete_where_all)
  moreover have "findings (delete_scan i d2) = findings d"
    using d2 c(2) old(1) by (simp add: delete_scan_sel delete_where_append delete_where_all)
      (auto intro: delete_where_none)
  moreover have "scans (delete_scan i d2) = scans d"
    using d2(1) c(2) fresh assms(3)
    by (simp add: delete_scan_sel add_row_def delete_where_append delete_where_all)
      (auto intro: delete_where_none)
  moreover have "baselines (delete_scan i d2) = baselines d" "components (delete_scan i d2) = components d"
    "edges (delete_scan i d2) = edges d" "hosts (delete_scan i d2) = hosts d"
    using d2(1) c(2) old by (auto simp: delete_scan_sel intro!: delete_where_none)
  ultimately show ?thesis by simp
qed

section \<open>Ingest\<close>

lemma insert_finding_row:
  "insert_finding e mk d = (fid, d1) \<Longrightarrow> (\<And>i. fr_id (mk i) = i) \<Longrightarrow> mk fid \<in> set (findings d1)"
  by (auto simp: insert_finding_def Let_def add_row_def)

lemma insert_views_extends:
  assumes "env_ok e" and "fid \<in> fr_id ` {r \<in> set (findings d). fr_scan_id r = sid}"
  shows "extends sid d (insert_views e fid vs d)"
  using assms(2)
proof (induction vs arbitrary: d)
  case (Cons x vs)
  obtain fw cl vd dl where x: "x = (fw, cl, vd, dl)" by (cases x)
  let ?d = "snd (insert_view e (\<lambda>i. \<lparr>vw_id = i, vw_finding_id = fid, vw_framework = fw, vw_clause = cl,
    vw_verdict = vd, vw_deadline = dl\<rparr>) d)"
  have 1: "extends sid d ?d"
    using Cons.prems by (intro insert_view_extends [OF assms(1)]) simp_all
  then have "extends sid ?d (insert_views e fid vs ?d)"
    using Cons.prems extends_findings_mono [OF 1] by (intro Cons.IH) blast
  with 1 have "extends sid d (insert_views e fid vs ?d)" by (rule extends_trans)
  then show ?case by (simp add: insert_views_def x)
qed (simp add: insert_views_def)

lemma ingest_row_fields:
  "ingest_row e sid f = Inr mk \<Longrightarrow> fr_id (mk i) = i \<and> fr_scan_id (mk i) = sid"
  by (auto simp: ingest_row_def split: option.splits sum.splits)

lemma ingest_findings_Cons:
  assumes "ingest_findings e sid (f # fs) (n_f, n_v) d = Inr (m, d')"
  obtains mk fid d1 raw vs where "ingest_row e sid f = Inr mk" "insert_finding e mk d = (fid, d1)"
    "views_of f = Inr raw" "map_res (view_fields e) raw = Inr vs"
    "ingest_findings e sid fs (n_f + 1, n_v + length vs) (insert_views e fid vs d1) = Inr (m, d')"
  using assms by (auto split: sum.splits prod.splits)

lemma ingest_findings_extends:
  assumes "env_ok e"
  shows "ingest_findings e sid fs (n_f, n_v) d = Inr (m, d') \<Longrightarrow> extends sid d d'"
proof (induction fs arbitrary: n_f n_v d)
  case (Cons f fs)
  from Cons.prems obtain mk fid d1 raw vs where *: "ingest_row e sid f = Inr mk"
    "insert_finding e mk d = (fid, d1)"
    "ingest_findings e sid fs (n_f + 1, n_v + length vs) (insert_views e fid vs d1) = Inr (m, d')"
    by (rule ingest_findings_Cons)
  note mk = ingest_row_fields [OF *(1)]
  have "extends sid d d1"
    using insert_finding_extends [OF assms, of mk sid d] mk *(2) by simp
  also have "extends sid d1 (insert_views e fid vs d1)"
    using insert_finding_row [OF *(2)] mk by (intro insert_views_extends [OF assms]) force
  also have "extends sid (insert_views e fid vs d1) d'"
    using *(3) by (rule Cons.IH)
  finally show ?case .
qed simp

lemma ingest_findings_count: "ingest_findings e sid fs (n_f, n_v) d = Inr ((a, b), d') \<Longrightarrow> a = n_f + length fs"
proof (induction fs arbitrary: n_f n_v d)
  case (Cons f fs)
  from Cons.prems obtain mk fid d1 raw vs where
    "ingest_findings e sid fs (n_f + 1, n_v + length vs) (insert_views e fid vs d1) = Inr ((a, b), d')"
    by (rule ingest_findings_Cons)
  with Cons.IH show ?case by fastforce
qed simp

lemma insert_drift_extends: "env_ok e \<Longrightarrow> extends sid d (insert_drift e sid fs d)"
proof (induction fs arbitrary: d)
  case (Cons f fs)
  have "extends sid d (snd (insert_finding e (row_of_finding sid f) d))"
    using Cons.prems by (intro insert_finding_extends) (simp_all add: row_of_finding_def)
  also have "extends sid \<dots> (insert_drift e sid fs (snd (insert_finding e (row_of_finding sid f) d)))"
    using Cons.prems by (rule Cons.IH)
  finally show ?case by (simp add: insert_drift_def)
qed (simp add: insert_drift_def)

lemma apply_identity_keeps [simp]:
  "h_id (apply_identity e ident h) = h_id h" "h_machine_id (apply_identity e ident h) = h_machine_id h"
  "h_token_hash (apply_identity e ident h) = h_token_hash h" "h_revoked (apply_identity e ident h) = h_revoked h"
  by (simp_all add: apply_identity_def)

lemma unique_on_update:
  assumes "unique_on f rows" and "\<And>r. f (g r) = f r"
  shows "unique_on f (update_where p g rows)"
  unfolding unique_on_def update_where_def
proof (intro ballI impI)
  fix a b
  assume "a \<in> set (map (\<lambda>r. if p r then g r else r) rows)" "b \<in> set (map (\<lambda>r. if p r then g r else r) rows)"
    and ab: "f a \<noteq> None \<and> f a = f b"
  then obtain x y where x: "x \<in> set rows" "a = (if p x then g x else x)"
    and y: "y \<in> set rows" "b = (if p y then g y else y)" by auto
  then have "f x \<noteq> None \<and> f x = f y" using ab assms(2) by (auto split: if_splits)
  with x y assms(1) show "a = b" by (auto simp: unique_on_def)
qed

lemma update_where_keys:
  "(\<And>r. key (f r) = key r) \<Longrightarrow> key ` set (update_where p f rows) = key ` set rows"
  unfolding update_where_def set_map image_image by (rule image_cong) simp_all

lemma touch_host_ok:
  "db_ok d \<Longrightarrow> db_ok (touch_host e ident hid d)" "refs_ok d \<Longrightarrow> refs_ok (touch_host e ident hid d)"
proof -
  assume "db_ok d"
  then show "db_ok (touch_host e ident hid d)"
    by (simp add: db_ok_def touch_host_def host_t.ok_upd unique_on_update)
next
  have "h_id ` set (update_where (\<lambda>h. h_id h = hid) (apply_identity e ident) (hosts d)) = h_id ` set (hosts d)"
    by (rule update_where_keys) simp
  then show "refs_ok d \<Longrightarrow> refs_ok (touch_host e ident hid d)"
    by (simp add: refs_ok_def touch_host_def del: row_sets)
qed

lemma ingest_scan_fields [simp]:
  "sc_id (ingest_scan e b hid pv tv i) = i" "sc_host_id (ingest_scan e b hid pv tv i) = Some hid"
  "sc_scan_uuid (ingest_scan e b hid pv tv i) = Some (b_scan_uuid b)"
  by (simp_all add: ingest_scan_def Let_def)

lemma store_bundle_cases:
  assumes "store_bundle e b hid dr d = Inr (res, d')" and "env_ok e"
  obtains pv tv d1 d2 where
    "insert_scan e (ingest_scan e b hid pv tv) d = Inr (ir_scan_id res, d1)"
    "extends (ir_scan_id res) d1 d2" "d' = touch_host e (b_host b) hid d2"
    "stored_findings res = length (b_findings b)" "\<not> duplicate res"
proof -
  obtain pv tv sid d1 n_f n_v d2 where *: "insert_scan e (ingest_scan e b hid pv tv) d = Inr (sid, d1)"
    "ingest_findings e sid (b_findings b) (0, 0) d1 = Inr ((n_f, n_v), d2)"
    "res = \<lparr>ir_scan_id = sid, stored_findings = n_f, stored_views = n_v, duplicate = False, ir_drift = snd dr\<rparr>"
    "d' = touch_host e (b_host b) hid (insert_drift e sid (fst dr) d2)"
    using assms(1) unfolding store_bundle_def by (auto split: sum.splits prod.splits)
  have "extends sid d1 d2" using assms(2) *(2) by (rule ingest_findings_extends)
  also have "extends sid d2 (insert_drift e sid (fst dr) d2)" by (rule insert_drift_extends [OF assms(2)])
  finally show ?thesis
    using * ingest_findings_count [OF *(2)] by (intro that [of pv tv d1]) simp_all
qed

lemma find_uuid:
  assumes "db_ok d" and "s \<in> set (scans d)" and "sc_scan_uuid s = Some u"
  shows "find (\<lambda>s. sc_scan_uuid s = Some u) (scans d) = Some s"
proof (cases "find (\<lambda>s. sc_scan_uuid s = Some u) (scans d)")
  case None
  with assms show ?thesis by (auto simp: find_None_iff)
next
  case (Some t)
  then have "t \<in> set (scans d)" "sc_scan_uuid t = Some u" by (auto simp: find_Some_iff)
  with assms Some show ?thesis by (auto simp: db_ok_def unique_on_def)
qed

text \<open>What a successful ingest has done: nothing for a known scan of this host, otherwise a new
  scan that only grew.\<close>

lemma ingest_bundle_cases:
  assumes "ingest_bundle e b hid d = Inr (res, d')" and "env_ok e"
  obtains (known) s where "s \<in> set (scans d)" "sc_scan_uuid s = Some (b_scan_uuid b)"
      "sc_host_id s = Some hid" "ir_scan_id res = sc_id s" "duplicate res" "stored_findings res = 0" "d' = d"
      "hid \<in> h_id ` set (hosts d)"
  | (fresh) pv tv d1 d2 where
      "insert_scan e (ingest_scan e b hid pv tv) d = Inr (ir_scan_id res, d1)"
      "extends (ir_scan_id res) d1 d2" "d' = touch_host e (b_host b) hid d2"
      "stored_findings res = length (b_findings b)" "\<not> duplicate res" "hid \<in> h_id ` set (hosts d)"
proof -
  obtain dr h where dr: "bundle_drift e b hid d = Inr dr" and h: "get_row h_id hid (hosts d) = Some h"
    using assms(1) by (auto simp: ingest_bundle_def split: sum.splits option.splits)
  from h have hid: "hid \<in> h_id ` set (hosts d)"
    by (auto simp: get_row_def find_Some_iff)
  show ?thesis
  proof (cases "find (\<lambda>s. sc_scan_uuid s = Some (b_scan_uuid b)) (scans d)")
    case (Some s)
    then have s: "s \<in> set (scans d)" "sc_scan_uuid s = Some (b_scan_uuid b)"
      by (auto simp: find_Some_iff)
    have "sc_host_id s = Some hid" "d' = d" "ir_scan_id res = sc_id s" "duplicate res" "stored_findings res = 0"
      using assms(1) Some dr h by (auto simp: ingest_bundle_def split: if_splits)
    with s hid show ?thesis by (intro known)
  next
    case None
    then have "store_bundle e b hid dr d = Inr (res, d')"
      using assms(1) dr h by (simp add: ingest_bundle_def)
    then show ?thesis
      using assms(2) by (rule store_bundle_cases) (rule fresh [OF _ _ _ _ _ hid])
  qed
qed

lemma touch_host_same [simp]:
  "scans (touch_host e ident hid d) = scans d" "findings (touch_host e ident hid d) = findings d"
  "fviews (touch_host e ident hid d) = fviews d" "baselines (touch_host e ident hid d) = baselines d"
  by (simp_all add: touch_host_def)

lemma list_findings_cong: "findings d = findings d' \<Longrightarrow> list_findings j d = list_findings j d'"
  by (simp add: list_findings_def)


text \<open>C7. Ingest is idempotent: sending a bundle again after it was stored, at any later time, is
  reported as a duplicate of the same scan and leaves the database as it is.\<close>

theorem ingest_bundle_idempotent:
  assumes "env_ok e" and "db_ok d" and "refs_ok d" and "ingest_bundle e b hid d = Inr (res, d')"
  shows "ingest_bundle e' b hid d' =
    Inr (\<lparr>ir_scan_id = ir_scan_id res, stored_findings = 0, stored_views = 0, duplicate = True, ir_drift = 0\<rparr>, d')"
proof -
  have "\<exists>s. s \<in> set (scans d') \<and> sc_scan_uuid s = Some (b_scan_uuid b) \<and> sc_host_id s = Some hid \<and>
      sc_id s = ir_scan_id res \<and> db_ok d' \<and> hid \<in> h_id ` set (hosts d')"
    using assms(4,1)
  proof (cases rule: ingest_bundle_cases)
    case (known s)
    then show ?thesis using assms(2) by (intro exI [of _ s]) simp
  next
    case (fresh pv tv d1 d2)
    note c = insert_scan_cases [OF fresh(1) assms(1) ingest_scan_fields(1)]
    have "db_ok d'"
      using insert_scan_ok [OF fresh(1) assms(1) ingest_scan_fields(1) assms(2)]
        extends_db_ok [OF fresh(2)] fresh(3) by (simp add: touch_host_ok)
    moreover have "scans d' = add_row (ingest_scan e b hid pv tv (ir_scan_id res)) (scans d)"
      using extends_same [OF fresh(2)] c(2) fresh(3) by simp
    moreover have "h_id ` set (hosts d') = h_id ` set (hosts d)"
      using extends_same [OF fresh(2)] c(2) fresh(3)
      by (simp add: touch_host_def update_where_keys del: row_sets)
    ultimately show ?thesis
      using fresh(6)
      by (intro exI [of _ "ingest_scan e b hid pv tv (ir_scan_id res)"]) (simp add: add_row_def)
  qed
  then obtain s where s: "s \<in> set (scans d')" "sc_scan_uuid s = Some (b_scan_uuid b)"
    "sc_host_id s = Some hid" "sc_id s = ir_scan_id res" "db_ok d'" "hid \<in> h_id ` set (hosts d')"
    by blast
  have "uuid_taken (Some (b_scan_uuid b)) d'" using s(1,2) by (force simp: uuid_taken_def)
  then have "bundle_drift e' b hid d' = Inr ([], 0)" by (simp add: bundle_drift_def Let_def)
  moreover obtain h where "get_row h_id hid (hosts d') = Some h"
    using s(6) host_t.get_None_iff [OF db_okD(2) [OF s(5)]] by auto
  ultimately show ?thesis
    using find_uuid [OF s(5,1,2)] s(3,4) by (simp add: ingest_bundle_def)
qed

section \<open>A concrete ingest\<close>

definition sqlite_env :: env where
  "sqlite_env = \<lparr>env_alloc = sqlite_rowid, env_now = 100, env_uuid = ''u-0'', env_parse_dt = (\<lambda>_. None),
     env_parse_date = (\<lambda>s. Some s)\<rparr>"

definition enrolled_db :: db where
  "enrolled_db = empty_db\<lparr>hosts := [sample_host]\<rparr>"

lemma sqlite_env_ok: "env_ok sqlite_env"
  by (simp add: env_ok_def sqlite_env_def sqlite_rowid_fresh)

lemma enrolled_db_ok: "db_ok enrolled_db" "refs_ok enrolled_db"
  by (simp_all add: db_ok_def refs_ok_def enrolled_db_def empty_db_def keys_ok_def unique_on_def)

lemmas ingest_eval = ingest_bundle_def bundle_drift_def store_bundle_def insert_scan_def uuid_taken_def
  newest_done_def ingest_row_def dict_or_empty_def get_truthy_def views_of_def insert_finding_def
  insert_views_def insert_drift_def str_get_def get_row_def Let_def

lemma ingest_sample: "\<exists>res d'. ingest_bundle sqlite_env sample_bundle 1 enrolled_db = Inr (res, d') \<and> \<not> duplicate res"
  by (simp add: ingest_eval sample_bundle_def enrolled_db_def empty_db_def sample_host_def INGEST_STATUSES_def)


theorem ingest_bundle_idempotent_witness:
  "\<exists>res d'. ingest_bundle sqlite_env sample_bundle 1 enrolled_db = Inr (res, d') \<and> \<not> duplicate res \<and>
     (\<exists>res'. ingest_bundle sqlite_env sample_bundle 1 d' = Inr (res', d') \<and> duplicate res')"
proof -
  obtain res d' where i: "ingest_bundle sqlite_env sample_bundle 1 enrolled_db = Inr (res, d')" "\<not> duplicate res"
    using ingest_sample by blast
  from ingest_bundle_idempotent [OF sqlite_env_ok enrolled_db_ok i(1), of sqlite_env] i show ?thesis
    by auto
qed

end
