(* ===== verification/Fleet_Rollup.thy ===== *)
theory Fleet_Rollup
  imports Ingest_Laws
begin

text \<open>
  The fleet summary and the temporary rollup of \<^verbatim>\<open>store/repo.py\<close>: the grouped query gives the
  counts of the row-by-row reference, and the rollup is a faithful copy that its deletion undoes.
\<close>

section \<open>The grouped query counts rows\<close>

lemma sum_list_distinct_indicator:
  "distinct gs \<Longrightarrow> set (map f rows) \<subseteq> set gs \<Longrightarrow>
   sum_list (map (\<lambda>g. if P g then length (filter (\<lambda>r. f r = g) rows) else 0) gs) =
     length (filter (\<lambda>r. P (f r)) rows)"
proof (induction rows)
  case (Cons r rows)
  have 1: "sum_list (map (\<lambda>g. if P g then length (filter (\<lambda>r. f r = g) (r # rows)) else 0) gs) =
      sum_list (map (\<lambda>g. if P g then length (filter (\<lambda>r. f r = g) rows) else 0) gs) +
      sum_list (map (\<lambda>g. if P g \<and> g = f r then 1 else 0) gs)"
    by (simp add: sum_list_addf [symmetric]) (rule arg_cong [where f = sum_list], auto)
  have 2: "sum_list (map (\<lambda>g. if P g \<and> g = f r then 1 else 0) gs) = (if P (f r) then 1 else (0 :: nat))"
  proof -
    have "sum_list (map (\<lambda>g. if P g \<and> g = f r then 1 else (0::nat)) gs) =
        (\<Sum>g \<in> set gs. if g = f r then (if P g then 1 else 0) else 0)"
      using Cons.prems(1) by (subst sum_list_distinct_conv_sum_set) (simp, rule sum.cong, simp_all)
    also have "\<dots> = (if P (f r) then 1 else 0)"
      using Cons.prems(2) by (subst sum.delta) auto
    finally show ?thesis .
  qed
  show ?case unfolding 1 2 using Cons by simp
qed auto

definition group_sum :: "(group \<Rightarrow> bool) \<Rightarrow> (group \<times> nat) list \<Rightarrow> nat" where
  "group_sum P gs = sum_list (map (\<lambda>(g, n). if P g then n else 0) gs)"

lemma group_sum_grouped: "group_sum P (grouped rows) = length (filter (\<lambda>r. P (group_cols r)) rows)"
  using sum_list_distinct_indicator [of "dedupe (map group_cols rows)" group_cols rows P]
  by (simp add: group_sum_def grouped_def comp_def)

lemma group_sum_simps [simp]:
  "group_sum P [] = 0" "group_sum P ((g, n) # gs) = (if P g then n else 0) + group_sum P gs"
  by (simp_all add: group_sum_def)

section \<open>Tallies\<close>

definition rated_in :: "band \<Rightarrow> group \<Rightarrow> bool" where
  "rated_in b g \<longleftrightarrow> fr_probe_id (group_row g) \<noteq> DRIFT_PROBE \<and> classify_band (group_row g) = b"

definition sev_in :: "string \<Rightarrow> group \<Rightarrow> bool" where
  "sev_in s g \<longleftrightarrow> fr_probe_id (group_row g) \<noteq> DRIFT_PROBE \<and> fr_severity (group_row g) = s"

definition drift_in :: "group \<Rightarrow> bool" where
  "drift_in g \<longleftrightarrow> fr_probe_id (group_row g) = DRIFT_PROBE"

definition tally_groups :: "tally \<Rightarrow> (group \<times> nat) list \<Rightarrow> tally" where
  "tally_groups t gs = foldl (\<lambda>t (g, n). tally_group t g n) t gs"

lemma add_band_sel:
  "green (add_band b n c) = green c + (if b = Green then n else 0)"
  "yellow (add_band b n c) = yellow c + (if b = Yellow then n else 0)"
  "red (add_band b n c) = red c + (if b = Red then n else 0)"
  "grey (add_band b n c) = grey c + (if b = Grey then n else 0)"
  "total (add_band b n c) = total c + n"
  by (cases b; simp)+

lemma tally_group_sel:
  "green (ta_bands (tally_group t g n)) = green (ta_bands t) + (if rated_in Green g then n else 0)"
  "yellow (ta_bands (tally_group t g n)) = yellow (ta_bands t) + (if rated_in Yellow g then n else 0)"
  "red (ta_bands (tally_group t g n)) = red (ta_bands t) + (if rated_in Red g then n else 0)"
  "grey (ta_bands (tally_group t g n)) = grey (ta_bands t) + (if rated_in Grey g then n else 0)"
  "total (ta_bands (tally_group t g n)) = total (ta_bands t) + (if \<not> drift_in g then n else 0)"
  "ta_crit (tally_group t g n) = ta_crit t + (if sev_in ''crit'' g then n else 0)"
  "ta_high (tally_group t g n) = ta_high t + (if sev_in ''high'' g then n else 0)"
  "ta_drift (tally_group t g n) = ta_drift t + (if drift_in g then n else 0)"
  by (simp_all add: tally_group_def Let_def rated_in_def sev_in_def drift_in_def add_band_sel)

lemma tally_groups_sel:
  "green (ta_bands (tally_groups t gs)) = green (ta_bands t) + group_sum (rated_in Green) gs"
  "yellow (ta_bands (tally_groups t gs)) = yellow (ta_bands t) + group_sum (rated_in Yellow) gs"
  "red (ta_bands (tally_groups t gs)) = red (ta_bands t) + group_sum (rated_in Red) gs"
  "grey (ta_bands (tally_groups t gs)) = grey (ta_bands t) + group_sum (rated_in Grey) gs"
  "total (ta_bands (tally_groups t gs)) = total (ta_bands t) + group_sum (\<lambda>g. \<not> drift_in g) gs"
  "ta_crit (tally_groups t gs) = ta_crit t + group_sum (sev_in ''crit'') gs"
  "ta_high (tally_groups t gs) = ta_high t + group_sum (sev_in ''high'') gs"
  "ta_drift (tally_groups t gs) = ta_drift t + group_sum drift_in gs"
  by (induction gs arbitrary: t) (auto simp: tally_groups_def tally_group_sel split: prod.splits)

lemma tally_step_lookup:
  "(case map_of (foldl tally_step m gs) i of Some t \<Rightarrow> t | None \<Rightarrow> empty_tally) =
   tally_groups (case map_of m i of Some t \<Rightarrow> t | None \<Rightarrow> empty_tally) (filter (\<lambda>(g, n). fst g = i) gs)"
  by (induction gs arbitrary: m) (auto simp: tally_groups_def tally_step_def Let_def update_conv')

lemma group_sum_filter: "group_sum P (filter (\<lambda>(g, n). fst g = i) gs) = group_sum (\<lambda>g. P g \<and> fst g = i) gs"
  by (induction gs) (auto simp: group_sum_def)

lemma group_row_cols [simp]:
  "fr_probe_id (group_row (group_cols r)) = fr_probe_id r" "fr_severity (group_row (group_cols r)) = fr_severity r"
  "classify_band (group_row (group_cols r)) = classify_band r" "fst (group_cols r) = fr_scan_id r"
  by (simp_all add: group_row_def group_cols_def classify_band_def)

section \<open>The reference counts\<close>

lemma count_step_sel:
  "green (count_step c r) = green c + (if rated_in Green (group_cols r) then 1 else 0)"
  "yellow (count_step c r) = yellow c + (if rated_in Yellow (group_cols r) then 1 else 0)"
  "red (count_step c r) = red c + (if rated_in Red (group_cols r) then 1 else 0)"
  "grey (count_step c r) = grey c + (if rated_in Grey (group_cols r) then 1 else 0)"
  "total (count_step c r) = total c + (if \<not> drift_in (group_cols r) then 1 else 0)"
  by (cases "classify_band r"; simp add: count_step_def rated_in_def drift_in_def is_drift_def)+

lemma count_bands_sel:
  "green (count_bands rs) = length (filter (\<lambda>r. rated_in Green (group_cols r)) rs)"
  "yellow (count_bands rs) = length (filter (\<lambda>r. rated_in Yellow (group_cols r)) rs)"
  "red (count_bands rs) = length (filter (\<lambda>r. rated_in Red (group_cols r)) rs)"
  "grey (count_bands rs) = length (filter (\<lambda>r. rated_in Grey (group_cols r)) rs)"
  "total (count_bands rs) = length (filter (\<lambda>r. \<not> drift_in (group_cols r)) rs)"
proof -
  have "green (foldl count_step c rs) = green c + length (filter (\<lambda>r. rated_in Green (group_cols r)) rs) \<and>
    yellow (foldl count_step c rs) = yellow c + length (filter (\<lambda>r. rated_in Yellow (group_cols r)) rs) \<and>
    red (foldl count_step c rs) = red c + length (filter (\<lambda>r. rated_in Red (group_cols r)) rs) \<and>
    grey (foldl count_step c rs) = grey c + length (filter (\<lambda>r. rated_in Grey (group_cols r)) rs) \<and>
    total (foldl count_step c rs) = total c + length (filter (\<lambda>r. \<not> drift_in (group_cols r)) rs)" for c
    by (induction rs arbitrary: c) (simp_all add: count_step_sel)
  from this [of empty_band_counts] show
    "green (count_bands rs) = length (filter (\<lambda>r. rated_in Green (group_cols r)) rs)"
    "yellow (count_bands rs) = length (filter (\<lambda>r. rated_in Yellow (group_cols r)) rs)"
    "red (count_bands rs) = length (filter (\<lambda>r. rated_in Red (group_cols r)) rs)"
    "grey (count_bands rs) = length (filter (\<lambda>r. rated_in Grey (group_cols r)) rs)"
    "total (count_bands rs) = length (filter (\<lambda>r. \<not> drift_in (group_cols r)) rs)"
    by (simp_all add: count_bands_def empty_band_counts_def)
qed

lemma tally_of_scan:
  assumes "sid \<in> set (latest_ids d)"
  shows "group_sum P (filter (\<lambda>(g, n). fst g = sid)
      (grouped (filter (\<lambda>r. fr_scan_id r \<in> set (latest_ids d)) (findings d)))) =
    length (filter (\<lambda>r. P (group_cols r)) (list_findings sid d))"
proof -
  have "length (filter Q (sort_key k xs)) = length (filter Q xs)" for Q and k :: "finding_row \<Rightarrow> int" and xs
    by (metis filter_sort length_sort)
  then show ?thesis
    using assms by (simp add: group_sum_filter group_sum_grouped list_findings_def)
      (rule arg_cong [where f = length], auto intro: filter_cong)
qed

lemma newest_done_latest: "newest_done h d = Some i \<Longrightarrow> i \<in> set (latest_ids d)"
proof -
  assume n: "newest_done h d = Some i"
  then have "map sc_id (filter (\<lambda>s. sc_host_id s = Some h \<and> sc_status s = ''done'') (scans d)) \<noteq> []"
    by (auto simp: newest_done_def)
  then obtain s where "s \<in> set (scans d)" "sc_host_id s = Some h" "sc_status s = ''done''"
    by (auto simp: filter_empty_conv)
  then have "h \<in> set (dedupe (List.map_filter sc_host_id (filter (\<lambda>s. sc_status s = ''done'') (scans d))))"
    by (force simp: List.map_filter_def)
  with n show ?thesis unfolding latest_ids_def by (force simp: List.map_filter_def)
qed

text \<open>The specification of one line of the summary, from the host's newest finished scan.\<close>

definition fleet_line :: "db \<Rightarrow> host \<Rightarrow> host_summary" where
  "fleet_line d h =
     (case newest_done (h_id h) d of
        None \<Rightarrow> \<lparr>hs_host = h, hs_scan_id = None, hs_finished_at = None, hs_readiness = None,
                 hs_crit = 0, hs_high = 0, hs_total = 0, hs_drift = 0\<rparr>
      | Some sid \<Rightarrow>
          (let rows = list_findings sid d; c = count_bands rows;
               real = filter (\<lambda>r. fr_probe_id r \<noteq> DRIFT_PROBE) rows
           in \<lparr>hs_host = h, hs_scan_id = Some sid,
               hs_finished_at = (case get_scan sid d of Some s \<Rightarrow> sc_finished_at s | None \<Rightarrow> None),
               hs_readiness = Some (if green c + yellow c + red c \<noteq> 0 then readiness_score c else 100),
               hs_crit = length (filter (\<lambda>r. fr_severity r = ''crit'') real),
               hs_high = length (filter (\<lambda>r. fr_severity r = ''high'') real),
               hs_total = total c,
               hs_drift = length (filter (\<lambda>r. fr_probe_id r = DRIFT_PROBE) rows)\<rparr>))"

lemma summarise_host_line:
  "summarise_host d (foldl tally_step [] (grouped (filter (\<lambda>r. fr_scan_id r \<in> set (latest_ids d)) (findings d)))) h =
     fleet_line d h"
  (is "summarise_host d ?m h = _")
proof (cases "newest_done (h_id h) d")
  case (Some sid)
  let ?t = "case map_of ?m sid of Some t \<Rightarrow> t | None \<Rightarrow> empty_tally"
  note l = newest_done_latest [OF Some]
  note sel = tally_step_lookup [of "[]", simplified] tally_groups_sel tally_of_scan [OF l]
  have bands: "ta_bands ?t = count_bands (list_findings sid d)"
    by (rule band_counts.equality)
       (simp_all add: sel count_bands_sel empty_tally_def empty_band_counts_def)
  have "ta_crit ?t = length (filter (\<lambda>r. sev_in ''crit'' (group_cols r)) (list_findings sid d))"
    "ta_high ?t = length (filter (\<lambda>r. sev_in ''high'' (group_cols r)) (list_findings sid d))"
    "ta_drift ?t = length (filter (\<lambda>r. drift_in (group_cols r)) (list_findings sid d))"
    by (simp_all add: sel empty_tally_def)
  with bands show ?thesis
    by (simp add: summarise_host_def fleet_line_def Some Let_def get_scan_def sev_in_def drift_in_def conj_commute)
qed (simp add: summarise_host_def fleet_line_def)

lemma fleet_summary_lines: "fleet_summary d = map (fleet_line d) (list_hosts d)"
  by (simp add: fleet_summary_def Let_def summarise_host_line)

text \<open>C34. The three-statement fleet summary agrees with the per-host reference: a host's line
  names its newest finished scan, and its counts are the band counts, the severities and the drift
  markers of that scan's findings, read row by row (a host with nothing rated is fully ready).\<close>

theorem fleet_summary_reference: "fleet_summary d = map (fleet_line d) (list_hosts d)"
  by (rule fleet_summary_lines)

section \<open>The rollup\<close>

lemma rollup_rows_extends:
  assumes "env_ok e"
  shows "rollup_rows e rid mark rs d = (m, d') \<Longrightarrow>
    extends rid d d' \<and> map fst m = map fr_id rs \<and>
    snd ` set m \<subseteq> fr_id ` {r \<in> set (findings d'). fr_scan_id r = rid}"
proof (induction rs arbitrary: d m)
  case (Cons r rs)
  obtain i d1 m2 where *: "insert_finding e (rollup_row rid mark r) d = (i, d1)"
    "rollup_rows e rid mark rs d1 = (m2, d')" "m = (fr_id r, i) # m2"
    using Cons.prems by (auto split: prod.splits)
  have mk: "fr_id (rollup_row rid mark r j) = j" "fr_scan_id (rollup_row rid mark r j) = rid" for j
    by (simp_all add: rollup_row_def)
  have 1: "extends rid d d1"
    using insert_finding_extends [OF assms, of "rollup_row rid mark r" rid d] mk *(1) by simp
  note 2 = Cons.IH [OF *(2)]
  have "rollup_row rid mark r i \<in> set (findings d')"
    using insert_finding_row [OF *(1) mk(1)] extends_findings_mono 2 by blast
  then have "i \<in> fr_id ` {r \<in> set (findings d'). fr_scan_id r = rid}"
    using mk by (intro image_eqI [of _ _ "rollup_row rid mark r i"]) simp_all
  with 1 2 *(3) show ?case by (auto intro: extends_trans)
qed simp

lemma rollup_views_extends:
  assumes "env_ok e" and "snd ` set m \<subseteq> fr_id ` {r \<in> set (findings d). fr_scan_id r = rid}"
    and "\<forall>v \<in> set vs. vw_finding_id v \<in> set (map fst m)"
  shows "extends rid d (rollup_views e m vs d)"
  using assms(2,3)
proof (induction vs arbitrary: d)
  case (Cons v vs)
  let ?d = "snd (insert_view e (\<lambda>i. v\<lparr>vw_id := i, vw_finding_id := the (map_of m (vw_finding_id v))\<rparr>) d)"
  obtain j where j: "map_of m (vw_finding_id v) = Some j"
    using Cons.prems(2) by (metis list.set_intros(1) map_of_eq_None_iff not_Some_eq set_map)
  then have "j \<in> snd ` set m" by (force dest: map_of_SomeD)
  with Cons.prems(1) j have 1: "extends rid d ?d"
    by (intro insert_view_extends [OF assms(1)]) auto
  have "extends rid ?d (rollup_views e m vs ?d)"
  proof (rule Cons.IH)
    have "fr_id ` {r \<in> set (findings d). fr_scan_id r = rid} \<subseteq> fr_id ` {r \<in> set (findings ?d). fr_scan_id r = rid}"
      using extends_findings_mono [OF 1] by blast
    with Cons.prems(1) show "snd ` set m \<subseteq> fr_id ` {r \<in> set (findings ?d). fr_scan_id r = rid}"
      by (rule order_trans)
  qed (use Cons.prems(2) in simp)
  with 1 have "extends rid d (rollup_views e m vs ?d)" by (rule extends_trans)
  then show ?case by (simp add: rollup_views_def)
qed (simp add: rollup_views_def)

lemma rollup_host_extends: "env_ok e \<Longrightarrow> extends rid d (rollup_host e rid d x)"
proof -
  assume e: "env_ok e"
  let ?src = "filter (\<lambda>r. fr_scan_id r = snd x \<and> fr_probe_id r \<noteq> DRIFT_PROBE) (findings d)"
  obtain m d1 where r: "rollup_rows e rid (fleet_mark (fst x)) ?src d = (m, d1)" by force
  note 1 = rollup_rows_extends [OF e r]
  have "extends rid d1 (rollup_views e m (filter (\<lambda>v. vw_finding_id v \<in> set (map fr_id ?src)) (fviews d1)) d1)"
    using 1 by (intro rollup_views_extends [OF e]) auto
  with 1 r show ?thesis by (auto simp: rollup_host_def Let_def intro: extends_trans)
qed

lemma foldl_rollup_extends: "env_ok e \<Longrightarrow> extends rid d (foldl (rollup_host e rid) d xs)"
  by (induction xs arbitrary: d) (auto intro: extends_trans rollup_host_extends)

lemma materialize_cases:
  assumes "materialize_fleet_rollup e d = Inr (Some rid, d')"
  obtains d1 where "insert_scan e (rollup_scan e (length (summary_scans d))) d = Inr (rid, d1)"
    "d' = foldl (rollup_host e rid) d1 (summary_scans d)"
  using assms by (auto simp: materialize_fleet_rollup_def Let_def split: if_splits sum.splits)

lemma rollup_deleted:
  assumes "env_ok e" and "db_ok d" and "refs_ok d" and "materialize_fleet_rollup e d = Inr (Some rid, d')"
  shows "delete_scan rid d' = d \<and> db_ok d' \<and> refs_ok d' \<and> get_scan rid d = None \<and>
    (\<forall>j. j \<noteq> rid \<longrightarrow> get_scan j d' = get_scan j d \<and> list_findings j d' = list_findings j d)"
proof -
  obtain d1 where i: "insert_scan e (rollup_scan e (length (summary_scans d))) d = Inr (rid, d1)"
    and d': "d' = foldl (rollup_host e rid) d1 (summary_scans d)"
    using assms(4) by (rule materialize_cases)
  have id: "\<And>i. sc_id (rollup_scan e (length (summary_scans d)) i) = i" by (simp add: rollup_scan_def)
  note c = insert_scan_cases [OF i assms(1) id]
  have x: "extends rid d1 d'" unfolding d' by (rule foldl_rollup_extends [OF assms(1)])
  have ok: "db_ok d'"
    using extends_db_ok [OF x insert_scan_ok [OF i assms(1) id assms(2)]] .
  have "refs_ok d1"
    by (rule insert_scan_refs [OF i assms(1) id assms(3)]) (simp add: rollup_scan_def)
  then have "refs_ok d'"
    using c(2) id by (intro extends_refs_ok [OF x]) (auto simp: add_row_def)
  moreover have "get_scan j d' = get_scan j d" if "j \<noteq> rid" for j
    using that c(3) extends_same [OF x] c(2) id
    by (simp add: get_scan_def scan_t.get_add [OF db_okD(1) [OF assms(2)]])
  moreover have "list_findings j d' = list_findings j d" if "j \<noteq> rid" for j
    using extends_list_findings [OF x that] c(2) by (simp add: list_findings_def)
  moreover have "get_scan rid d = None"
    using c(3) by (auto simp: get_scan_def scan_t.get_None_iff [OF db_okD(1) [OF assms(2)]])
  ultimately show ?thesis
    using delete_created_scan [OF i assms(1) id x assms(2,3)] ok by simp
qed

text \<open>An export of the whole fleet leaves no trace: while it exists, the temporary rollup scan
  changes no other scan, and deleting it (as the caller must) restores the database exactly.\<close>

theorem fleet_rollup_undone:
  assumes "env_ok e" and "db_ok d" and "refs_ok d" and "materialize_fleet_rollup e d = Inr (Some rid, d')"
  shows "delete_scan rid d' = d \<and> db_ok d' \<and> refs_ok d' \<and> get_scan rid d = None \<and>
    (\<forall>j. j \<noteq> rid \<longrightarrow> get_scan j d' = get_scan j d \<and> list_findings j d' = list_findings j d)"
  using assms by (rule rollup_deleted)

definition reporting_db :: db where
  "reporting_db = sample_db\<lparr>findings := [\<lparr>fr_id = 1, fr_scan_id = 1, fr_component_id = None,
     fr_probe_id = ''net.tls'', fr_algorithm = ''RSA-2048'', fr_classification = ''tinggi'', fr_severity = ''high'',
     fr_title = ''t'', fr_evidence = [], fr_remediation = [], fr_created_at = 0\<rparr>]\<rparr>"

lemma reporting_db_ok: "db_ok reporting_db" "refs_ok reporting_db"
  using sample_db_ok
  by (simp_all add: db_ok_def refs_ok_def reporting_db_def keys_ok_def) (simp add: sample_db_def sample_scan_def empty_db_def)

theorem fleet_rollup_undone_witness:
  "\<exists>rid d'. materialize_fleet_rollup sqlite_env reporting_db = Inr (Some rid, d') \<and>
     delete_scan rid d' = reporting_db"
proof -
  have "summary_scans reporting_db \<noteq> []"
    by (simp add: summary_scans_def fleet_summary_lines list_hosts_def reporting_db_def sample_db_def
        sample_host_def fleet_line_def newest_done_def sample_scan_def Let_def List.map_filter_def)
  then have "\<exists>rid d'. materialize_fleet_rollup sqlite_env reporting_db = Inr (Some rid, d')"
    by (simp add: materialize_fleet_rollup_def Let_def insert_scan_def uuid_taken_def rollup_scan_def
        sqlite_env_def reporting_db_def sample_db_def sample_scan_def show_nat.simps py_simps)
  then obtain rid d' where m: "materialize_fleet_rollup sqlite_env reporting_db = Inr (Some rid, d')"
    by blast
  then show ?thesis using fleet_rollup_undone [OF sqlite_env_ok reporting_db_ok m] by blast
qed

end
