(* ===== verification/Fleet.thy ===== *)
theory Fleet
  imports Fleet_Rollup Compliance Py_Float
begin

text \<open>
  \<^verbatim>\<open>daemon/fleet.py\<close>: the collector's endpoints. A handler is a function from the request and
  the collector's state to an HTTP error status or a response, with the new state. SHA-256 of a
  token, the fresh token, decompression and JSON parsing are parameters of the handlers; a request
  body arrives as its declared length and its chunks. The token bucket computes in doubles, as the
  code does.
\<close>

section \<open>The token bucket\<close>

definition INGEST_BURST :: rat where
  "INGEST_BURST = 10"

definition INGEST_MIN_INTERVAL_S :: rat where
  "INGEST_MIN_INTERVAL_S = 60"

type_synonym buckets = "(nat \<times> rat \<times> rat) list"

definition take_token :: "rat \<Rightarrow> nat \<Rightarrow> buckets \<Rightarrow> bool \<times> buckets" where
  "take_token now k st =
     (case (case map_of st k of Some v \<Rightarrow> v | None \<Rightarrow> (INGEST_BURST, now)) of (tokens, last_t) \<Rightarrow>
        (let filled = (if INGEST_MIN_INTERVAL_S > 0
                       then min INGEST_BURST (fl (tokens + fl (fl (now - last_t) / INGEST_MIN_INTERVAL_S)))
                       else INGEST_BURST);
             ok = (filled \<ge> 1)
         in (ok, AList.update k (if ok then fl (filled - 1) else filled, now) st)))"

section \<open>Requests\<close>

type_synonym status = nat

text \<open>The body with its declared \<^verbatim>\<open>Content-Length\<close>; \<^verbatim>\<open>413\<close> past the cap, also while reading.\<close>

fun read_chunks :: "nat \<Rightarrow> nat \<Rightarrow> byte list list \<Rightarrow> status + byte list" where
  "read_chunks cap sz [] = Inr []"
| "read_chunks cap sz (c # cs) =
     (if sz + length c > cap then Inl 413
      else (case read_chunks cap (sz + length c) cs of Inl e \<Rightarrow> Inl e | Inr rest \<Rightarrow> Inr (c @ rest)))"

definition read_capped :: "string option \<Rightarrow> byte list list \<Rightarrow> nat \<Rightarrow> status + byte list" where
  "read_capped content_length chunks cap =
     (let declared = (case content_length of
            None \<Rightarrow> 0
          | Some s \<Rightarrow> if s = [] then 0 else (case int_of_text s of Inr n \<Rightarrow> n | Inl _ \<Rightarrow> 0))
      in if declared > int cap then Inl 413 else read_chunks cap 0 chunks)"

definition MAX_ENROLL_BYTES :: nat where
  "MAX_ENROLL_BYTES = 64 * 1024"

definition TERMINAL_STATUSES :: "string list" where
  "TERMINAL_STATUSES = [''done'', ''failed'', ''interrupted'']"

definition agent_host :: "(string \<Rightarrow> string) \<Rightarrow> string \<Rightarrow> db \<Rightarrow> status + host" where
  "agent_host hash_token auth d =
     (if \<not> startswith (py_lower auth) ''bearer '' then Inl 401
      else (case get_host_by_token_hash (hash_token (py_strip (drop 7 auth))) d of
              None \<Rightarrow> Inl 401
            | Some h \<Rightarrow> if h_revoked h then Inl 401 else Inr h))"

section \<open>Enrollment\<close>

definition str_labels :: "pydict \<Rightarrow> pydict" where
  "str_labels d = map (\<lambda>(k, v). (k, JStr (py_str v))) d"

text \<open>The identity of an enrollment request, after the token check.\<close>

definition enroll_identity :: "pydict \<Rightarrow> status + host_identity" where
  "enroll_identity body =
     (case dict_get body ''host'' of
        Some (JObj h) \<Rightarrow>
          (case get_truthy h ''machine_id'' of
             None \<Rightarrow> Inl 400
           | Some m \<Rightarrow>
               (case (case get_truthy h ''labels'' of None \<Rightarrow> JObj [] | Some l \<Rightarrow> l) of
                  JObj labels \<Rightarrow>
                    if \<not> check_labels (str_labels labels) then Inl 400
                    else Inr \<lparr>hi_machine_id = py_str m, hi_hostname = str_get h ''hostname'' [],
                              hi_os = str_get h ''os'' [], hi_labels = str_labels labels,
                              hi_agent_version = str_get h ''agent_version'' []\<rparr>
                | _ \<Rightarrow> Inl 400))
      | _ \<Rightarrow> Inl 400)"

definition enroll_request ::
  "json_loads_fn \<Rightarrow> string option \<Rightarrow> string option \<Rightarrow> byte list list \<Rightarrow> status + host_identity" where
  "enroll_request json_loads enroll_token content_length chunks =
     (case enroll_token of
        None \<Rightarrow> Inl 503
      | Some secret \<Rightarrow>
          if secret = [] then Inl 503
          else
            (case read_capped content_length chunks MAX_ENROLL_BYTES of
               Inl e \<Rightarrow> Inl e
             | Inr raw \<Rightarrow>
                 (case json_loads raw of
                    Some (JObj body) \<Rightarrow>
                      if str_or_empty body ''enroll_token'' \<noteq> secret then Inl 403
                      else enroll_identity body
                  | _ \<Rightarrow> Inl 400)))"

text \<open>The two sessions of the handler: the revocation check, then the write.\<close>

definition enroll_check :: "host_identity \<Rightarrow> db \<Rightarrow> bool" where
  "enroll_check ident d =
     (case get_host_by_machine_id (hi_machine_id ident) d of None \<Rightarrow> True | Some h \<Rightarrow> \<not> h_revoked h)"

definition enroll_commit ::
  "env \<Rightarrow> (string \<Rightarrow> string) \<Rightarrow> string \<Rightarrow> host_identity \<Rightarrow> db \<Rightarrow> (status + nat \<times> string) \<times> db" where
  "enroll_commit e hash_token token ident d =
     (case upsert_host e ident (Some (hash_token token)) d of
        Inl _ \<Rightarrow> (Inl 500, d)
      | Inr (h, d') \<Rightarrow> (Inr (h_id h, token), d'))"

definition enroll ::
  "env \<Rightarrow> (string \<Rightarrow> string) \<Rightarrow> json_loads_fn \<Rightarrow> string \<Rightarrow> string option \<Rightarrow> string option \<Rightarrow> byte list list
    \<Rightarrow> db \<Rightarrow> (status + nat \<times> string) \<times> db" where
  "enroll e hash_token json_loads token enroll_token content_length chunks d =
     (case enroll_request json_loads enroll_token content_length chunks of
        Inl s \<Rightarrow> (Inl s, d)
      | Inr ident \<Rightarrow>
          if enroll_check ident d then enroll_commit e hash_token token ident d else (Inl 403, d))"

section \<open>Ingest\<close>

record collector =
  store :: db
  limiter :: buckets

definition load_status :: "bundle_error \<Rightarrow> status" where
  "load_status err = (case err of BundleTooLarge \<Rightarrow> 413 | BundleInvalid \<Rightarrow> 400)"

text \<open>The bundle of an authenticated host: read, loaded, from this machine, of a finished scan.\<close>

definition ingest_request ::
  "inflate_fn \<Rightarrow> json_loads_fn \<Rightarrow> host \<Rightarrow> string option \<Rightarrow> byte list list \<Rightarrow> status + scan_bundle" where
  "ingest_request inflate json_loads h content_length chunks =
     (case read_capped content_length chunks MAX_GZIP_BYTES of
        Inl s \<Rightarrow> Inl s
      | Inr data \<Rightarrow>
          (case load_bundle inflate json_loads data of
             Inl err \<Rightarrow> Inl (load_status err)
           | Inr b \<Rightarrow>
               if hi_machine_id (b_host b) \<noteq> h_machine_id h then Inl 403
               else (case dict_get (b_scan b) ''status'' of
                       Some (JStr s) \<Rightarrow> if s \<in> set TERMINAL_STATUSES then Inr b else Inl 400
                     | _ \<Rightarrow> Inl 400)))"

text \<open>The write and the retention that follows a new scan; a failing prune skips the sweep and is
  only logged.\<close>

definition retain :: "env \<Rightarrow> int \<Rightarrow> nat \<Rightarrow> db \<Rightarrow> db" where
  "retain e keep hid d =
     (case prune_host hid keep d of Inl _ \<Rightarrow> d | Inr (n, d') \<Rightarrow> snd (delete_stale_rollups e d'))"

definition ingest_store ::
  "env \<Rightarrow> int \<Rightarrow> scan_bundle \<Rightarrow> nat \<Rightarrow> db \<Rightarrow> (status + ingest_result) \<times> db" where
  "ingest_store e keep b hid d =
     (case ingest_bundle e b hid d of
        Inl RIntegrityError \<Rightarrow>
          (case get_scan_id_by_uuid (b_scan_uuid b) d of
             None \<Rightarrow> (Inl 400, d)
           | Some i \<Rightarrow> (Inr \<lparr>ir_scan_id = i, stored_findings = 0, stored_views = 0, duplicate = True, ir_drift = 0\<rparr>, d))
      | Inl _ \<Rightarrow> (Inl 400, d)
      | Inr (res, d') \<Rightarrow> (Inr res, if duplicate res then d' else retain e keep hid d'))"

definition ingest ::
  "env \<Rightarrow> (string \<Rightarrow> string) \<Rightarrow> inflate_fn \<Rightarrow> json_loads_fn \<Rightarrow> int \<Rightarrow> rat \<Rightarrow> string \<Rightarrow> string option
    \<Rightarrow> byte list list \<Rightarrow> collector \<Rightarrow> (status + ingest_result) \<times> collector" where
  "ingest e hash_token inflate json_loads keep clock auth content_length chunks c =
     (case agent_host hash_token auth (store c) of
        Inl s \<Rightarrow> (Inl s, c)
      | Inr h \<Rightarrow>
          (case take_token clock (h_id h) (limiter c) of (ok, st) \<Rightarrow>
             (let c1 = c\<lparr>limiter := st\<rparr> in
              if \<not> ok then (Inl 429, c1)
              else
                (case ingest_request inflate json_loads h content_length chunks of
                   Inl s \<Rightarrow> (Inl s, c1)
                 | Inr b \<Rightarrow>
                     (case ingest_store e keep b (h_id h) (store c) of (res, d') \<Rightarrow>
                        (res, c1\<lparr>store := d'\<rparr>))))))"

definition revoke :: "nat \<Rightarrow> db \<Rightarrow> (status + bool) \<times> db" where
  "revoke hid d = (case revoke_host hid d of (b, d') \<Rightarrow> (if b then Inr True else Inl 404, d'))"

definition fleet_host :: "nat \<Rightarrow> db \<Rightarrow> status + host \<times> scan list" where
  "fleet_host hid d =
     (case get_host hid d of None \<Rightarrow> Inl 404 | Some h \<Rightarrow> Inr (h, host_history hid 50 d))"

end
