(* ===== verification/Fleet_Laws.thy ===== *)
theory Fleet_Laws
  imports Fleet
begin

text \<open>
  The collector as a state machine: its requests, the operator's commands and the local scanner's
  sessions as one step relation, with the invariant of every reachable state by rule induction;
  then authentication, revocation and the rate limit of \<^verbatim>\<open>daemon/fleet.py\<close>.
\<close>

section \<open>Invariant\<close>

definition one_running :: "db \<Rightarrow> bool" where
  "one_running d \<longleftrightarrow> (\<forall>s \<in> set (scans d). \<forall>s' \<in> set (scans d). running s \<and> running s' \<longrightarrow> s = s')"

definition tokens_ok :: "db \<Rightarrow> bool" where
  "tokens_ok d \<longleftrightarrow> (\<forall>h \<in> set (hosts d). h_revoked h \<longrightarrow> h_token_hash h = None)"

definition store_inv :: "db \<Rightarrow> bool" where
  "store_inv d \<longleftrightarrow> db_ok d \<and> refs_ok d \<and> one_running d \<and> tokens_ok d"

lemma store_invD:
  "store_inv d \<Longrightarrow> db_ok d" "store_inv d \<Longrightarrow> refs_ok d" "store_inv d \<Longrightarrow> one_running d"
  "store_inv d \<Longrightarrow> tokens_ok d"
  by (simp_all add: store_inv_def)

lemma one_running_subset: "set (scans d') \<subseteq> set (scans d) \<Longrightarrow> one_running d \<Longrightarrow> one_running d'"
  by (auto simp: one_running_def)

lemma delete_scan_inv: "store_inv d \<Longrightarrow> store_inv (delete_scan i d)"
  using one_running_subset [of "delete_scan i d" d]
  by (simp add: store_inv_def delete_scan_db_ok delete_scan_refs_ok delete_scan_sel tokens_ok_def)

lemma delete_scans_inv: "store_inv d \<Longrightarrow> store_inv (delete_scans is d)"
  by (induction "is" arbitrary: d) (simp_all add: delete_scans_Cons delete_scan_inv)

lemma delete_stale_rollups_inv: "store_inv d \<Longrightarrow> store_inv (snd (delete_stale_rollups e d))"
  by (simp add: delete_stale_rollups_def Let_def delete_scans_inv)

lemma prune_host_inv: "prune_host hid keep d = Inr (n, d') \<Longrightarrow> store_inv d \<Longrightarrow> store_inv d'"
  by (auto simp: prune_host_def Let_def delete_scans_inv split: if_splits)

lemma prune_hosts_inv: "prune_hosts hids keep d = Inr (n, d') \<Longrightarrow> store_inv d \<Longrightarrow> store_inv d'"
proof (induction hids arbitrary: d n)
  case (Cons hid hids)
  then obtain m d1 k where "prune_host hid keep d = Inr (m, d1)" "prune_hosts hids keep d1 = Inr (k, d')"
    by (auto split: sum.splits)
  with Cons show ?case by (blast intro: prune_host_inv)
qed simp

lemma prune_scans_inv: "prune_scans e keep d = Inr (n, d') \<Longrightarrow> store_inv d \<Longrightarrow> store_inv d'"
  by (auto simp: prune_scans_def Let_def split: if_splits dest: prune_hosts_inv intro: delete_stale_rollups_inv)

lemma retain_inv: "store_inv d \<Longrightarrow> store_inv (retain e keep hid d)"
  by (auto simp: retain_def split: sum.splits dest: prune_host_inv intro!: delete_stale_rollups_inv)

section \<open>Scans and findings\<close>

lemma insert_scan_inv:
  assumes "insert_scan e mk d = Inr (i, d')" and "env_ok e" and "\<And>i. sc_id (mk i) = i"
    and "store_inv d" and "\<And>h. sc_host_id (mk i) = Some h \<Longrightarrow> h \<in> h_id ` set (hosts d)"
    and "running (mk i) \<Longrightarrow> \<not> has_running_scan d"
  shows "store_inv d'"
proof -
  note c = insert_scan_cases [OF assms(1-3)]
  have "one_running d'"
    using store_invD(3) [OF assms(4)] assms(6) c(2)
    by (auto simp: one_running_def has_running_scan_def list_ex_iff add_row_def)
  moreover have "tokens_ok d'" using store_invD(4) [OF assms(4)] c(2) by (simp add: tokens_ok_def)
  ultimately show ?thesis
    using insert_scan_ok [OF assms(1-3)] insert_scan_refs [OF assms(1-3)] assms(4,5)
    by (simp add: store_inv_def)
qed

lemma extends_inv:
  assumes "extends sid d d'" and "store_inv d" and "sid \<in> sc_id ` set (scans d)"
  shows "store_inv d'"
  using extends_same [OF assms(1)] extends_db_ok [OF assms(1)] extends_refs_ok [OF assms(1)] assms(2,3)
  by (simp add: store_inv_def one_running_def tokens_ok_def)

lemma touch_host_inv: "store_inv d \<Longrightarrow> store_inv (touch_host e ident hid d)"
  by (auto simp: store_inv_def touch_host_ok one_running_def tokens_ok_def) (auto simp: touch_host_def)

lemma ingest_bundle_inv:
  assumes "ingest_bundle e b hid d = Inr (res, d')" and "env_ok e" and "store_inv d"
  shows "store_inv d'"
  using assms(1,2)
proof (cases rule: ingest_bundle_cases)
  case (fresh pv tv d1 d2)
  have "\<not> running (ingest_scan e b hid pv tv i)" for i
    by (auto simp: running_def ingest_scan_def Let_def INGEST_STATUSES_def)
  then have 1: "store_inv d1"
    using fresh(6) by (intro insert_scan_inv [OF fresh(1) assms(2) ingest_scan_fields(1) assms(3)]) simp_all
  have "ir_scan_id res \<in> sc_id ` set (scans d1)"
    using insert_scan_cases(2) [OF fresh(1) assms(2) ingest_scan_fields(1)] by (simp add: add_row_def)
  from extends_inv [OF fresh(2) 1 this] fresh(3) show ?thesis by (simp add: touch_host_inv)
qed (use assms(3) in simp)

lemma begin_scan_inv:
  assumes "begin_scan_if_idle e mode pv tv fp u d = Inr (r, d')" and "env_ok e" and "store_inv d"
  shows "store_inv d'"
proof (cases "has_running_scan d")
  case True
  then show ?thesis using assms by (simp add: begin_scan_if_idle_def has_running_scan_def)
next
  case False
  then obtain i where "insert_scan e (new_running_scan e mode pv tv fp u) d = Inr (i, d')"
    using assms(1) by (auto simp: begin_scan_if_idle_def has_running_scan_def split: sum.splits)
  from insert_scan_inv [OF this assms(2) _ assms(3)] False show ?thesis
    by (simp add: new_running_scan_def)
qed

lemma update_scan_ok:
  assumes "\<And>s. sc_id (f s) = sc_id s" "\<And>s. sc_scan_uuid (f s) = sc_scan_uuid s" "\<And>s. sc_host_id (f s) = sc_host_id s"
  shows "db_ok d \<Longrightarrow> db_ok (d\<lparr>scans := update_where p f (scans d)\<rparr>)"
    and "refs_ok d \<Longrightarrow> refs_ok (d\<lparr>scans := update_where p f (scans d)\<rparr>)"
proof -
  show "db_ok d \<Longrightarrow> db_ok (d\<lparr>scans := update_where p f (scans d)\<rparr>)"
    using assms(1,2) by (simp add: db_ok_def scan_t.ok_upd unique_on_update)
  have "sc_id ` set (update_where p f (scans d)) = sc_id ` set (scans d)"
    using assms(1) by (rule update_where_keys)
  then show "refs_ok d \<Longrightarrow> refs_ok (d\<lparr>scans := update_where p f (scans d)\<rparr>)"
    using assms(3) by (auto simp: refs_ok_def)
qed

lemma update_scan_inv:
  assumes "store_inv d" and "\<And>s. p s \<Longrightarrow> \<not> running (f s)"
    and "\<And>s. sc_id (f s) = sc_id s" "\<And>s. sc_scan_uuid (f s) = sc_scan_uuid s" "\<And>s. sc_host_id (f s) = sc_host_id s"
  shows "store_inv (d\<lparr>scans := update_where p f (scans d)\<rparr>)"
proof -
  have "one_running (d\<lparr>scans := update_where p f (scans d)\<rparr>)"
    using store_invD(3) [OF assms(1)] assms(2) by (auto simp: one_running_def)
  then show ?thesis
    using update_scan_ok [OF assms(3-5), of d p] store_invD [OF assms(1)] by (simp add: store_inv_def tokens_ok_def)
qed

lemma finish_scan_inv:
  "finish_scan e sid st d = Inr (r, d') \<Longrightarrow> st \<noteq> ''running'' \<Longrightarrow> store_inv d \<Longrightarrow> store_inv d'"
  by (auto simp: finish_scan_def split: option.splits intro!: update_scan_inv) (simp add: running_def)

lemma reconcile_inv: "store_inv d \<Longrightarrow> store_inv (snd (reconcile_running_scans e d))"
  unfolding reconcile_running_scans_def Let_def snd_conv
  by (intro delete_stale_rollups_inv update_scan_inv) (simp_all add: running_def)

lemma record_finding_inv:
  "record_finding e sid f d = Inr (i, d') \<Longrightarrow> env_ok e \<Longrightarrow> sid \<in> sc_id ` set (scans d) \<Longrightarrow> store_inv d \<Longrightarrow> store_inv d'"
  using insert_finding_extends [of e "row_of_finding sid f" sid d]
  by (auto simp: record_finding_def row_of_finding_def dest: extends_inv)

lemma record_probe_error_inv:
  "record_probe_error e sid pid msg d = Inr (i, d') \<Longrightarrow> env_ok e \<Longrightarrow> sid \<in> sc_id ` set (scans d) \<Longrightarrow>
   store_inv d \<Longrightarrow> store_inv d'"
  unfolding record_probe_error_def sum.inject
  by (drule arg_cong [where f = snd], simp only: snd_conv, erule subst,
      rule extends_inv [OF insert_finding_extends [where sid = sid]]) simp_all

lemma record_view_inv:
  assumes "record_framework_view e fid fw cl vd dl d = Inr (i, d')" and "env_ok e" and "store_inv d"
    and "r \<in> set (findings d)" and "fr_id r = fid"
  shows "store_inv d'"
proof -
  have "extends (fr_scan_id r) d d'"
    using insert_view_extends [of e "\<lambda>i. \<lparr>vw_id = i, vw_finding_id = fid, vw_framework = fw, vw_clause = cl,
      vw_verdict = vd, vw_deadline = dl\<rparr>" d "fr_scan_id r"] assms
    by (force simp: record_framework_view_def)
  moreover have "fr_scan_id r \<in> sc_id ` set (scans d)"
    using store_invD(2) [OF assms(3)] assms(4) by (auto simp: refs_ok_def)
  ultimately show ?thesis using assms(3) by (blast intro: extends_inv)
qed

lemma create_baseline_inv:
  assumes "create_baseline e sid lbl notes d = Inr (i, d')" and "env_ok e" and "store_inv d"
  shows "store_inv d'"
proof -
  define b where "b = \<lparr>bl_id = env_alloc e (map bl_id (baselines d)), bl_scan_id = sid, bl_label = lbl,
    bl_created_at = env_now e, bl_notes = notes\<rparr>"
  obtain s where s: "get_row sc_id sid (scans d) = Some s" and d': "d' = d\<lparr>baselines := add_row b (baselines d)\<rparr>"
    using assms(1) by (auto simp: create_baseline_def Let_def b_def split: option.splits)
  have b: "bl_id b = env_alloc e (map bl_id (baselines d))" "bl_scan_id b = sid" by (simp_all add: b_def)
  have "sid \<in> sc_id ` set (scans d)"
    using s scan_t.get_iff [OF db_okD(1) [OF store_invD(1) [OF assms(3)]]] by auto
  moreover have "keys_ok bl_id (add_row b (baselines d))"
    using fresh_key [OF assms(2), of "baselines d" bl_id] b(1) store_invD(1) [OF assms(3)]
    by (intro baseline_t.ok_add) (auto simp: db_okD)
  ultimately show ?thesis
    using assms(3) b d' by (simp add: store_inv_def db_ok_def refs_ok_def one_running_def tokens_ok_def)
qed

lemma materialize_inv:
  assumes "materialize_fleet_rollup e d = Inr (r, d')" and "env_ok e" and "store_inv d"
  shows "store_inv d'"
proof (cases r)
  case None
  then show ?thesis using assms by (auto simp: materialize_fleet_rollup_def Let_def split: if_splits sum.splits)
next
  case (Some rid)
  with assms(1) obtain d1 where i: "insert_scan e (rollup_scan e (length (summary_scans d))) d = Inr (rid, d1)"
    and d': "d' = foldl (rollup_host e rid) d1 (summary_scans d)"
    using materialize_cases by blast
  have id: "\<And>i. sc_id (rollup_scan e (length (summary_scans d)) i) = i" by (simp add: rollup_scan_def)
  have "store_inv d1"
    by (rule insert_scan_inv [OF i assms(2) id assms(3)]) (simp_all add: rollup_scan_def running_def)
  moreover have "rid \<in> sc_id ` set (scans d1)"
    using insert_scan_cases(2) [OF i assms(2) id] id by (simp add: add_row_def)
  ultimately show ?thesis
    unfolding d' by (intro extends_inv [OF foldl_rollup_extends [OF assms(2)]])
qed

section \<open>Hosts\<close>

lemma find_machine:
  "get_host_by_machine_id m d = Some h \<Longrightarrow> h \<in> set (hosts d) \<and> h_machine_id h = m"
  "get_host_by_machine_id m d = None \<Longrightarrow> \<forall>h \<in> set (hosts d). h_machine_id h \<noteq> m"
  by (auto simp: get_host_by_machine_id_def find_Some_iff find_None_iff)

text \<open>Replacing one row by a variant that keeps its key.\<close>

lemma replace_row:
  assumes "keys_ok h_id hs" and "h0 \<in> set hs" and "h_id h = h_id h0"
  shows "set (update_where (\<lambda>x. h_id x = h_id h) (\<lambda>_. h) hs) = insert h (set hs - {h0})"
proof -
  have "h_id x = h_id h \<longleftrightarrow> x = h0" if "x \<in> set hs" for x
    using host_t.key_inj [OF assms(1) that assms(2)] assms(3) by auto
  then show ?thesis using assms(2) by (auto simp: update_where_def)
qed

lemma unique_on_replace:
  assumes "unique_on f hs" and "set hs' = insert h (set hs - {h0})"
    and "\<And>x. x \<in> set hs \<Longrightarrow> x \<noteq> h0 \<Longrightarrow> f x \<noteq> None \<Longrightarrow> f x \<noteq> f h"
  shows "unique_on f hs'"
  using assms unfolding unique_on_def assms(2) by (metis Diff_iff insert_iff singletonI)

lemma upsert_host_inv:
  assumes "upsert_host e ident (Some t) d = Inr (h, d')" and "env_ok e" and "store_inv d" and "enroll_check ident d"
  shows "store_inv d'"
proof -
  let ?m = "hi_machine_id ident"
  have inv: "db_ok d" "tokens_ok d" using assms(3) by (simp_all add: store_invD)
  have free: "h' \<in> set (hosts d) \<Longrightarrow> h_id h' \<noteq> h_id h \<Longrightarrow> h_token_hash h' \<noteq> Some t" for h'
    using assms(1) by (auto simp: upsert_host_def Let_def list_ex_iff split: if_splits)
  show ?thesis
  proof (cases "get_host_by_machine_id ?m d")
    case None
    have h: "h = set_token (Some t) (apply_identity e ident (new_host e ?m (env_alloc e (map h_id (hosts d)))))"
      "d' = d\<lparr>hosts := add_row h (hosts d)\<rparr>"
      using assms(1) None by (auto simp: upsert_host_def Let_def split: if_splits)
    have f: "h_id h = env_alloc e (map h_id (hosts d))" "h_machine_id h = ?m" "\<not> h_revoked h" "h_token_hash h = Some t"
      by (simp_all add: h(1) set_token_def new_host_def)
    have fresh: "\<forall>h' \<in> set (hosts d). h_id h' < h_id h" using fresh_key [OF assms(2)] f(1) by simp
    have "keys_ok h_id (add_row h (hosts d))"
      using inv(1) fresh by (intro host_t.ok_add) (auto simp: db_okD)
    moreover have "unique_on (\<lambda>h. Some (h_machine_id h)) (add_row h (hosts d))"
      using inv(1) find_machine(2) [OF None] f(2) by (intro unique_on_add) (auto simp: db_ok_def)
    moreover have "unique_on h_token_hash (add_row h (hosts d))"
      using inv(1) free fresh f(4) by (intro unique_on_add) (force simp: db_ok_def)+
    ultimately show ?thesis
      using assms(3) h(2) f(3) by (auto simp: store_inv_def db_ok_def refs_ok_def one_running_def tokens_ok_def)
  next
    case (Some h0)
    have h: "h = set_token (Some t) (apply_identity e ident h0)"
      "d' = d\<lparr>hosts := update_where (\<lambda>h'. h_id h' = h_id h) (\<lambda>_. h) (hosts d)\<rparr>"
      using assms(1) Some by (auto simp: upsert_host_def Let_def split: if_splits)
    have f: "h_id h = h_id h0" "h_machine_id h = h_machine_id h0" "h_revoked h = h_revoked h0" "h_token_hash h = Some t"
      by (simp_all add: h(1) set_token_def)
    have h0: "h0 \<in> set (hosts d)" "\<not> h_revoked h0"
      using find_machine(1) [OF Some] assms(4) Some by (auto simp: enroll_check_def)
    have set': "set (hosts d') = insert h (set (hosts d) - {h0})"
      using replace_row [OF db_okD(2) [OF inv(1)] h0(1) f(1)] h(2) by simp
    have other: "h_id x \<noteq> h_id h" if "x \<in> set (hosts d)" "x \<noteq> h0" for x
      using host_t.key_inj [OF db_okD(2) [OF inv(1)] that(1) h0(1)] that(2) f(1) by auto
    have "keys_ok h_id (hosts d')"
      using db_okD(2) [OF inv(1)] h(2) by (simp add: host_t.ok_upd)
    moreover have "unique_on (\<lambda>h. Some (h_machine_id h)) (hosts d')"
      using inv(1) h0(1) f(2) by (intro unique_on_replace [OF _ set']) (auto simp: db_ok_def unique_on_def)
    moreover have "unique_on h_token_hash (hosts d')"
      using inv(1) free other f(4) by (intro unique_on_replace [OF _ set']) (auto simp: db_ok_def)
    moreover have "h_id ` set (hosts d') = h_id ` set (hosts d)"
      unfolding set' using h0(1) f(1) by auto
    moreover have "tokens_ok d'"
      using inv(2) f(3) h0(2) by (auto simp: tokens_ok_def set')
    ultimately show ?thesis
      using assms(3) h(2) by (simp add: store_inv_def db_ok_def refs_ok_def one_running_def del: row_sets)
  qed
qed

lemma enroll_inv:
  "enroll e H jl tok secret cl ch d = (r, d') \<Longrightarrow> env_ok e \<Longrightarrow> store_inv d \<Longrightarrow> store_inv d'"
  by (auto simp: enroll_def enroll_commit_def split: sum.splits if_splits dest: upsert_host_inv)

lemma update_host_inv:
  assumes "store_inv d" and "\<And>h. h_id (f h) = h_id h" "\<And>h. h_machine_id (f h) = h_machine_id h"
    and "\<And>h. h_token_hash (f h) = None \<or> h_token_hash (f h) = h_token_hash h"
    and "\<And>h. h_revoked (f h) \<Longrightarrow> h_token_hash (f h) = None"
  shows "store_inv (d\<lparr>hosts := update_where p f (hosts d)\<rparr>)"
proof -
  have "unique_on h_token_hash (update_where p f (hosts d))"
    using store_invD(1) [OF assms(1)] assms(4)
    unfolding db_ok_def unique_on_def update_where_def by (auto split: if_splits) (metis option.distinct(1))+
  moreover have "keys_ok h_id (update_where p f (hosts d))"
    using store_invD(1) [OF assms(1)] assms(2) by (simp add: db_okD host_t.ok_upd)
  moreover have "unique_on (\<lambda>h. Some (h_machine_id h)) (update_where p f (hosts d))"
    using store_invD(1) [OF assms(1)] assms(3) by (simp add: db_ok_def unique_on_update)
  moreover have "h_id ` set (update_where p f (hosts d)) = h_id ` set (hosts d)"
    using assms(2) by (rule update_where_keys)
  ultimately show ?thesis
    using assms(1,5) by (auto simp: store_inv_def db_ok_def refs_ok_def one_running_def tokens_ok_def)
qed

lemma revoke_host_inv: "store_inv d \<Longrightarrow> store_inv (snd (revoke_host hid d))"
  by (auto simp: revoke_host_def split: option.splits intro!: update_host_inv)

lemma unrevoke_host_inv: "store_inv d \<Longrightarrow> store_inv (snd (unrevoke_host hid d))"
  by (auto simp: unrevoke_host_def split: option.splits intro!: update_host_inv)

lemma ingest_inv:
  assumes "ingest e H infl jl keep clk auth cl ch c = (r, c')" and "env_ok e" and "store_inv (store c)"
  shows "store_inv (store c')"
proof -
  have "store_inv d'" if "ingest_store e keep b hid (store c) = (res, d')" for b hid res d'
    using that assms(2,3)
    by (auto simp: ingest_store_def split: sum.splits repo_error.splits option.splits if_splits
        dest: ingest_bundle_inv intro!: retain_inv)
  with assms(1,3) show ?thesis
    by (auto simp: ingest_def Let_def split: sum.splits prod.splits if_splits)
qed

section \<open>The collector as a state machine\<close>

text \<open>One step is one request handled, one operator command, or one session of a local scan. The
  scanner records findings only for a scan it created and finishes it with a final status.\<close>

inductive collector_step :: "collector \<Rightarrow> collector \<Rightarrow> bool" where
  Enroll: "env_ok e \<Longrightarrow> enroll e H jl tok secret cl ch (store c) = (r, d') \<Longrightarrow> collector_step c (c\<lparr>store := d'\<rparr>)"
| Ingest: "env_ok e \<Longrightarrow> ingest e H infl jl keep clk auth cl ch c = (r, c') \<Longrightarrow> collector_step c c'"
| Revoke: "revoke hid (store c) = (r, d') \<Longrightarrow> collector_step c (c\<lparr>store := d'\<rparr>)"
| Unrevoke: "unrevoke_host hid (store c) = (r, d') \<Longrightarrow> collector_step c (c\<lparr>store := d'\<rparr>)"
| Begin: "env_ok e \<Longrightarrow> begin_scan_if_idle e mode pv tv fp u (store c) = Inr (i, d') \<Longrightarrow>
    collector_step c (c\<lparr>store := d'\<rparr>)"
| Record: "env_ok e \<Longrightarrow> sid \<in> sc_id ` set (scans (store c)) \<Longrightarrow> record_finding e sid f (store c) = Inr (i, d') \<Longrightarrow>
    collector_step c (c\<lparr>store := d'\<rparr>)"
| Record_Error: "env_ok e \<Longrightarrow> sid \<in> sc_id ` set (scans (store c)) \<Longrightarrow>
    record_probe_error e sid pid msg (store c) = Inr (i, d') \<Longrightarrow> collector_step c (c\<lparr>store := d'\<rparr>)"
| Record_View: "env_ok e \<Longrightarrow> r \<in> set (findings (store c)) \<Longrightarrow> fr_id r = fid \<Longrightarrow>
    record_framework_view e fid fw cla vd dl (store c) = Inr (i, d') \<Longrightarrow> collector_step c (c\<lparr>store := d'\<rparr>)"
| Finish: "st \<noteq> ''running'' \<Longrightarrow> finish_scan e sid st (store c) = Inr (u, d') \<Longrightarrow> collector_step c (c\<lparr>store := d'\<rparr>)"
| Baseline: "env_ok e \<Longrightarrow> create_baseline e sid lbl notes (store c) = Inr (i, d') \<Longrightarrow>
    collector_step c (c\<lparr>store := d'\<rparr>)"
| Reconcile: "reconcile_running_scans e (store c) = (n, d') \<Longrightarrow> collector_step c (c\<lparr>store := d'\<rparr>)"
| Delete: "collector_step c (c\<lparr>store := delete_scan i (store c)\<rparr>)"
| Prune: "prune_scans e k (store c) = Inr (n, d') \<Longrightarrow> collector_step c (c\<lparr>store := d'\<rparr>)"
| Rollup: "env_ok e \<Longrightarrow> materialize_fleet_rollup e (store c) = Inr (r, d') \<Longrightarrow> collector_step c (c\<lparr>store := d'\<rparr>)"

definition initial_collector :: collector where
  "initial_collector = \<lparr>store = empty_db, limiter = []\<rparr>"

lemma store_inv_empty [simp]: "store_inv empty_db"
  by (simp add: store_inv_def one_running_def tokens_ok_def) (simp add: empty_db_def)

lemma revoke_inv: "revoke hid d = (r, d') \<Longrightarrow> store_inv d \<Longrightarrow> store_inv d'"
  using revoke_host_inv [of d hid] by (auto simp: revoke_def split: prod.splits)

lemma collector_step_inv: "collector_step c c' \<Longrightarrow> store_inv (store c) \<Longrightarrow> store_inv (store c')"
proof (induction rule: collector_step.induct)
  case (Unrevoke hid c r d')
  then show ?case using unrevoke_host_inv [of "store c" hid] by simp
next
  case (Reconcile e c n d')
  then show ?case using reconcile_inv [of "store c" e] by simp
qed (simp_all add: enroll_inv ingest_inv revoke_inv begin_scan_inv record_finding_inv record_probe_error_inv
    record_view_inv finish_scan_inv create_baseline_inv delete_scan_inv prune_scans_inv materialize_inv)

lemma reachable_inv: "collector_step\<^sup>*\<^sup>* initial_collector c \<Longrightarrow> store_inv (store c)"
  by (induction rule: rtranclp_induct) (auto simp: initial_collector_def dest: collector_step_inv)



section \<open>Authentication and revocation\<close>

lemma agent_host_sound:
  "agent_host H auth d = Inr h \<Longrightarrow>
     h \<in> set (hosts d) \<and> \<not> h_revoked h \<and> h_token_hash h = Some (H (py_strip (drop 7 auth)))"
  by (auto simp: agent_host_def get_host_by_token_hash_def find_Some_iff split: if_splits option.splits)

lemma retain_scans: "set (scans (retain e keep hid d)) \<subseteq> set (scans d)"
  by (auto simp: retain_def prune_host_def delete_stale_rollups_def Let_def delete_scans_sel
      split: sum.splits if_splits)

lemma ingest_bundle_new_scans:
  assumes "ingest_bundle e b hid d = Inr (res, d')" and "env_ok e" and "s \<in> set (scans d')" "s \<notin> set (scans d)"
  shows "sc_host_id s = Some hid \<and> sc_scan_uuid s = Some (b_scan_uuid b)"
  using assms(1,2)
proof (cases rule: ingest_bundle_cases)
  case (fresh pv tv d1 d2)
  then show ?thesis
    using insert_scan_cases(2) [OF fresh(1) assms(2) ingest_scan_fields(1)] extends_same [OF fresh(2)] assms(3,4)
    by (auto simp: add_row_def)
qed (use assms(3,4) in simp)

lemma ingest_store_scans:
  assumes "ingest_store e keep b hid d = (res, d')" and "s \<in> set (scans d')" and "s \<notin> set (scans d)"
  shows "\<exists>ires d1. ingest_bundle e b hid d = Inr (ires, d1) \<and> s \<in> set (scans d1)"
proof (cases "ingest_bundle e b hid d")
  case (Inl err)
  then have "d' = d" using assms(1) by (auto simp: ingest_store_def split: repo_error.splits option.splits)
  with assms show ?thesis by simp
next
  case (Inr p)
  obtain ires d1 where p: "p = (ires, d1)" by force
  have "d' = (if duplicate ires then d1 else retain e keep hid d1)"
    using assms(1) Inr p by (simp add: ingest_store_def)
  with assms(2) have "s \<in> set (scans d1)" using retain_scans [of e keep hid d1] by (auto split: if_splits)
  with Inr p show ?thesis by blast
qed


text \<open>Revocation kills the token for good: after a host was revoked no bearer token
  authenticates as it, not even once an operator has approved the host again, until it enrolls anew.\<close>

theorem revocation_kills_token:
  assumes "revoke_host hid d = (True, d1)" and "unrevoke_host hid d1 = (True, d2)"
    and "agent_host H auth d1 = Inr h \<or> agent_host H auth d2 = Inr h"
  shows "h_id h \<noteq> hid"
proof -
  have h1: "hosts d1 = update_where (\<lambda>h. h_id h = hid) (\<lambda>h. h\<lparr>h_revoked := True, h_token_hash := None\<rparr>) (hosts d)"
    using assms(1) by (auto simp: revoke_host_def split: option.splits)
  have h2: "hosts d2 = update_where (\<lambda>h. h_id h = hid) (\<lambda>h. h\<lparr>h_revoked := False\<rparr>) (hosts d1)"
    using assms(2) by (auto simp: unrevoke_host_def split: option.splits)
  have 1: "h_token_hash x = None" if "x \<in> set (hosts d1)" "h_id x = hid" for x
    using that unfolding h1 update_where_def set_map by (elim imageE) (simp split: if_splits)
  have 2: "h_token_hash x = None" if "x \<in> set (hosts d2)" "h_id x = hid" for x
    using that 1 unfolding h2 update_where_def set_map by (elim imageE) (simp split: if_splits)
  from assms(3) agent_host_sound 1 2 show ?thesis by (metis option.distinct(1))
qed

definition live_host :: host where
  "live_host = sample_host\<lparr>h_token_hash := Some ''t''\<rparr>"

definition live_db :: db where
  "live_db = empty_db\<lparr>hosts := [live_host, sample_host\<lparr>h_id := 2, h_machine_id := ''m-2'', h_token_hash := Some ''w''\<rparr>]\<rparr>"

lemma live_db_inv: "store_inv live_db"
  by (simp add: store_inv_def db_ok_def refs_ok_def one_running_def tokens_ok_def live_db_def live_host_def
      empty_db_def keys_ok_def unique_on_def sample_host_def)

definition race_ident :: host_identity where
  "race_ident = \<lparr>hi_machine_id = ''m-1'', hi_hostname = ''web1'', hi_os = ''linux'', hi_labels = [], hi_agent_version = []\<rparr>"

theorem revocation_kills_token_witness:
  "\<exists>d1 d2 h. revoke_host 1 live_db = (True, d1) \<and> unrevoke_host 1 d1 = (True, d2) \<and>
     agent_host id ''Bearer w'' d2 = Inr h \<and> h_id h \<noteq> 1"
proof -
  let ?d1 = "snd (revoke_host 1 live_db)"
  let ?d2 = "snd (unrevoke_host 1 ?d1)"
  have r: "revoke_host 1 live_db = (True, ?d1)" "unrevoke_host 1 ?d1 = (True, ?d2)"
    by (simp_all add: revoke_host_def unrevoke_host_def live_db_def live_host_def sample_host_def get_row_def update_where_def)
  have "\<exists>h. agent_host id ''Bearer w'' ?d2 = Inr h"
    by (simp add: agent_host_def get_host_by_token_hash_def revoke_host_def unrevoke_host_def live_db_def live_host_def
        sample_host_def get_row_def update_where_def py_strip_def lstrip_set_def rstrip_set_def py_simps)
  then obtain h where h: "agent_host id ''Bearer w'' ?d2 = Inr h" by blast
  from revocation_kills_token [OF r] h have "h_id h \<noteq> 1" by blast
  with r h show ?thesis by blast
qed


section \<open>The rate limit\<close>

definition bucket_ok :: "rat \<Rightarrow> buckets \<Rightarrow> bool" where
  "bucket_ok now st \<longleftrightarrow> (\<forall>k t l. map_of st k = Some (t, l) \<longrightarrow> 0 \<le> t \<and> t \<le> INGEST_BURST \<and> l \<le> now)"

text \<open>The outcomes of a sequence of requests of one host at one instant.\<close>

fun take_many :: "rat \<Rightarrow> nat \<Rightarrow> nat \<Rightarrow> buckets \<Rightarrow> bool list \<times> buckets" where
  "take_many now k 0 st = ([], st)"
| "take_many now k (Suc n) st =
     (case take_token now k st of (b, st1) \<Rightarrow> (case take_many now k n st1 of (bs, st2) \<Rightarrow> (b # bs, st2)))"

lemma fl_small_nat: "n \<le> 10 \<Longrightarrow> fl (of_nat n) = of_nat n"
  by (rule fl_of_nat) simp

lemma fl_le_10: "x \<le> 10 \<Longrightarrow> fl x \<le> 10"
  using fl_mono [of x 10] fl_small_nat [of 10] by simp

lemma take_token_same_instant:
  assumes "map_of st k = Some (of_nat n, now)" and "n \<le> 10"
  shows "take_token now k st = (n \<noteq> 0, AList.update k (of_nat (n - 1), now) st)"
proof (cases n)
  case 0
  with assms show ?thesis
    by (simp add: take_token_def Let_def INGEST_BURST_def INGEST_MIN_INTERVAL_S_def)
next
  case (Suc m)
  then have "fl (of_nat n - 1) = (of_nat m :: rat)" using fl_small_nat [of m] assms(2) by simp
  moreover have "fl (of_nat n) = (of_nat n :: rat)" using assms(2) by (rule fl_small_nat)
  moreover have "(of_nat n :: rat) \<le> 10" using assms(2) by simp
  ultimately show ?thesis
    using assms Suc by (simp add: take_token_def Let_def INGEST_BURST_def INGEST_MIN_INTERVAL_S_def min_absorb2)
qed

lemma take_many_from:
  "map_of st k = Some (of_nat m, now) \<Longrightarrow> m \<le> 10 \<Longrightarrow>
   fst (take_many now k n st) = replicate (min n m) True @ replicate (n - m) False"
proof (induction n arbitrary: m st)
  case (Suc n)
  let ?st = "AList.update k (of_nat (m - 1), now) st"
  have "map_of ?st k = Some (of_nat (m - 1), now)" by (simp add: update_conv')
  from Suc.IH [OF this] Suc.prems have
    "fst (take_many now k n ?st) = replicate (min n (m - 1)) True @ replicate (n - (m - 1)) False" by simp
  with take_token_same_instant [OF Suc.prems] show ?case
    by (cases m) (auto split: prod.splits)
qed simp

text \<open>C37. The rate limit bounds a host's bursts whatever the clock does: the bucket of every host
  stays between 0 and 10 tokens as time advances, one host's requests never touch another's bucket,
  and of any number of requests at one instant a new host gets exactly the first ten.\<close>

theorem token_bucket_bounds:
  "(bucket_ok last_t st \<and> last_t \<le> now \<longrightarrow> bucket_ok now (snd (take_token now k st))) \<and>
   (k' \<noteq> k \<longrightarrow> map_of (snd (take_token now k st)) k' = map_of st k') \<and>
   (map_of st k = None \<longrightarrow>
      fst (take_many now k n st) = replicate (min n 10) True @ replicate (n - 10) False)"
proof (intro conjI impI)
  assume a: "bucket_ok last_t st \<and> last_t \<le> now"
  define v where "v = (case map_of st k of Some v \<Rightarrow> v | None \<Rightarrow> (INGEST_BURST, now))"
  have v: "0 \<le> fst v" "snd v \<le> now"
    using a by (auto simp: v_def bucket_ok_def INGEST_BURST_def split: option.splits) force+
  define filled where "filled = min INGEST_BURST (fl (fst v + fl (fl (now - snd v) / INGEST_MIN_INTERVAL_S)))"
  have f: "0 \<le> filled" "filled \<le> 10"
  proof -
    have "0 \<le> fl (fl (now - snd v) / INGEST_MIN_INTERVAL_S)"
      using fl_nonneg [of "now - snd v"] v(2) by (intro fl_nonneg) (simp add: INGEST_MIN_INTERVAL_S_def)
    with v(1) have "0 \<le> fl (fst v + fl (fl (now - snd v) / INGEST_MIN_INTERVAL_S))"
      by (intro fl_nonneg) simp
    then show "0 \<le> filled" "filled \<le> 10" by (simp_all add: filled_def INGEST_BURST_def)
  qed
  have t: "take_token now k st = (1 \<le> filled, AList.update k (if 1 \<le> filled then fl (filled - 1) else filled, now) st)"
    by (simp add: take_token_def v_def filled_def Let_def INGEST_MIN_INTERVAL_S_def split: prod.split)
  show "bucket_ok now (snd (take_token now k st))"
    unfolding bucket_ok_def t
  proof (intro allI impI)
    fix ka x l
    assume m: "map_of (snd (1 \<le> filled, AList.update k (if 1 \<le> filled then fl (filled - 1) else filled, now) st)) ka
      = Some (x, l)"
    show "0 \<le> x \<and> x \<le> INGEST_BURST \<and> l \<le> now"
    proof (cases "ka = k")
      case True
      with m f fl_le_10 [of "filled - 1"] fl_nonneg [of "filled - 1"] show ?thesis
        by (auto simp: update_conv' INGEST_BURST_def split: if_splits)
    next
      case False
      with m have "map_of st ka = Some (x, l)" by (simp add: update_conv')
      with a show ?thesis unfolding bucket_ok_def by force
    qed
  qed
next
  assume "map_of st k = None"
  moreover have "fl (9 :: rat) = 9" "fl (10 :: rat) = 10"
    using fl_small_nat [of 9] fl_small_nat [of 10] by simp_all
  ultimately have t: "take_token now k st = (True, AList.update k (of_nat 9, now) st)"
    by (simp add: take_token_def Let_def INGEST_BURST_def INGEST_MIN_INTERVAL_S_def)
  show "fst (take_many now k n st) = replicate (min n 10) True @ replicate (n - 10) False"
  proof (cases n)
    case (Suc m)
    have "fst (take_many now k m (AList.update k (of_nat 9, now) st)) = replicate (min m 9) True @ replicate (m - 9) False"
      by (rule take_many_from) (simp_all add: update_conv')
    with t Suc show ?thesis by (auto split: prod.splits)
  qed simp
qed (simp add: take_token_def Let_def update_conv' split: prod.splits)

theorem token_bucket_bounds_witness:
  "fst (take_many 0 1 12 []) = replicate 10 True @ replicate 2 False"
  using token_bucket_bounds [of 0 "[]" 0 1 2 12] by simp

section \<open>An accepted request\<close>

lemma ingest_live:
  "\<exists>res c'. ingest sqlite_env id (\<lambda>d cap. Some (d, False)) (\<lambda>raw. Some sample_doc) 12 0 ''Bearer t'' None []
     \<lparr>store = live_db, limiter = []\<rparr> = (Inr res, c') \<and> length (scans (store c')) = 1"
proof -
  have a: "agent_host id ''Bearer t'' live_db = Inr live_host"
    by (simp add: agent_host_def get_host_by_token_hash_def live_db_def live_host_def sample_host_def
        py_strip_def lstrip_set_def rstrip_set_def py_simps)
  have "fl 10 = (10 :: rat)" using fl_small_nat [of 10] by simp
  then have t: "fst (take_token 0 (h_id live_host) [])"
    by (simp add: take_token_def Let_def INGEST_BURST_def INGEST_MIN_INTERVAL_S_def)
  have r: "ingest_request (\<lambda>d cap. Some (d, False)) (\<lambda>raw. Some sample_doc) live_host None [] = Inr sample_bundle"
    using load_sample
    by (simp add: ingest_request_def read_capped_def sample_bundle_def live_host_def sample_host_def TERMINAL_STATUSES_def)
  have "\<exists>res d'. ingest_store sqlite_env 12 sample_bundle 1 live_db = (Inr res, d') \<and> length (scans d') = 1"
    by (simp add: ingest_store_def ingest_eval sample_bundle_def live_db_def live_host_def empty_db_def
        sample_host_def INGEST_STATUSES_def retain_def prune_host_def prune_victims_def delete_stale_rollups_def
        stale_rollup_def ingest_scan_def touch_host_def add_row_def)
  with a t r show ?thesis
    by (auto simp: ingest_def Let_def live_host_def sample_host_def split: prod.splits)
qed


end
