(* ===== verification/Bundle_Transfer.thy ===== *)
theory Bundle_Transfer
  imports Ingest_Laws
begin

text \<open>
  The writing side of \<^verbatim>\<open>store/bundle.py\<close> and what arrives at the collector: \<^verbatim>\<open>dump_bundle\<close>
  on the agent, \<^verbatim>\<open>load_bundle\<close> and the row conversion of the ingest on the other end. Text
  serialisation, compression and \<^verbatim>\<open>isoformat\<close> are parameters (\<open>json_dumps\<close>,
  \<open>gzip\<close>, \<open>isoformat\<close>).
\<close>

section \<open>Dumping\<close>

definition iso_json :: "(int \<Rightarrow> string) \<Rightarrow> int option \<Rightarrow> json" where
  "iso_json isoformat t = (case t of None \<Rightarrow> JNull | Some x \<Rightarrow> JStr (isoformat x))"

definition view_json :: "framework_view \<Rightarrow> json" where
  "view_json v = JObj [(''framework'', JStr (vw_framework v)), (''clause'', JStr (vw_clause v)),
     (''verdict'', JStr (vw_verdict v)),
     (''deadline'', case vw_deadline v of None \<Rightarrow> JNull | Some s \<Rightarrow> JStr s)]"

definition finding_json :: "(int \<Rightarrow> string) \<Rightarrow> framework_view list \<Rightarrow> finding_row \<Rightarrow> pydict" where
  "finding_json isoformat vs r =
     [(''probe_id'', JStr (fr_probe_id r)), (''algorithm'', JStr (fr_algorithm r)),
      (''classification'', JStr (fr_classification r)), (''severity'', JStr (fr_severity r)),
      (''title'', JStr (fr_title r)), (''evidence'', JObj (fr_evidence r)),
      (''remediation'', JObj (fr_remediation r)), (''created_at'', JStr (isoformat (fr_created_at r))),
      (''views'', JList (map view_json vs))]"

definition views_of_finding :: "nat \<Rightarrow> db \<Rightarrow> framework_view list" where
  "views_of_finding fid d = filter (\<lambda>v. vw_finding_id v = fid) (fviews d)"

definition scan_rows :: "nat \<Rightarrow> db \<Rightarrow> finding_row list" where
  "scan_rows sid d = sort_key fr_id (filter (\<lambda>r. fr_scan_id r = sid) (findings d))"

definition identity_json :: "host_identity \<Rightarrow> json" where
  "identity_json h = JObj [(''machine_id'', JStr (hi_machine_id h)), (''hostname'', JStr (hi_hostname h)),
     (''os'', JStr (hi_os h)), (''labels'', JObj (hi_labels h)), (''agent_version'', JStr (hi_agent_version h))]"

definition scan_json :: "(int \<Rightarrow> string) \<Rightarrow> scan \<Rightarrow> pydict" where
  "scan_json isoformat s =
     [(''started_at'', JStr (isoformat (sc_started_at s))), (''finished_at'', iso_json isoformat (sc_finished_at s)),
      (''mode'', JStr (sc_mode s)), (''status'', JStr (sc_status s)),
      (''probe_versions'', JObj (sc_probe_versions s)), (''tool_versions'', JObj (sc_tool_versions s))]"

definition dump_doc :: "(int \<Rightarrow> string) \<Rightarrow> scan \<Rightarrow> host_identity \<Rightarrow> db \<Rightarrow> json" where
  "dump_doc isoformat s h d = JObj
     [(''schema_version'', JInt (int BUNDLE_SCHEMA_VERSION)),
      (''scan_uuid'', case sc_scan_uuid s of None \<Rightarrow> JNull | Some u \<Rightarrow> JStr u),
      (''host'', identity_json h), (''scan'', JObj (scan_json isoformat s)),
      (''findings'', JList (map (\<lambda>r. JObj (finding_json isoformat (views_of_finding (fr_id r) d) r)) (scan_rows (sc_id s) d)))]"

datatype dump_error = ScanNotFound | DumpTooLarge

definition dump_bundle ::
  "(json \<Rightarrow> byte list) \<Rightarrow> (byte list \<Rightarrow> byte list) \<Rightarrow> (int \<Rightarrow> string) \<Rightarrow> nat \<Rightarrow> host_identity \<Rightarrow> db
    \<Rightarrow> dump_error + byte list" where
  "dump_bundle json_dumps gzip isoformat sid h d =
     (case get_scan sid d of
        None \<Rightarrow> Inl ScanNotFound
      | Some s \<Rightarrow>
          (let raw = json_dumps (dump_doc isoformat s h d)
           in if length raw > MAX_RAW_BYTES then Inl DumpTooLarge else Inr (gzip raw)))"

section \<open>What arrives\<close>

definition received :: "nat \<Rightarrow> finding_row \<Rightarrow> nat \<Rightarrow> finding_row" where
  "received sid r i = r\<lparr>fr_evidence := AList.delete ''_fleet'' (fr_evidence r),
     fr_id := i, fr_scan_id := sid, fr_component_id := None\<rparr>"

lemma finding_json_drift: "is_drift_finding (finding_json isoformat vs r) \<longleftrightarrow> fr_probe_id r = DRIFT_PROBE"
  by (simp add: is_drift_finding_def finding_json_def)

lemma strip_finding_json:
  "strip_server_keys (finding_json isoformat vs r) =
     finding_json isoformat vs (r\<lparr>fr_evidence := AList.delete ''_fleet'' (fr_evidence r)\<rparr>)"
  by (simp add: strip_server_keys_def finding_json_def)

lemma ingest_row_json:
  assumes "env_parse_dt e (isoformat (fr_created_at r)) = Some (fr_created_at r)" and "isoformat (fr_created_at r) \<noteq> []"
  shows "ingest_row e sid (finding_json isoformat vs r) =
    Inr (\<lambda>i. r\<lparr>fr_id := i, fr_scan_id := sid, fr_component_id := None\<rparr>)"
  using assms by (auto simp: ingest_row_def finding_json_def dict_or_empty_def get_truthy_def str_get_def parse_dt_def)

lemma view_fields_json:
  assumes "\<And>s. vw_deadline v = Some s \<Longrightarrow> s \<noteq> [] \<and> env_parse_date e s = Some s"
  shows "view_fields e (view_json v) = Inr (vw_framework v, vw_clause v, vw_verdict v, vw_deadline v)"
  using assms by (cases "vw_deadline v") (auto simp: view_json_def view_deadline_def get_truthy_def)

lemma map_res_views:
  "\<forall>v \<in> set vs. \<forall>s. vw_deadline v = Some s \<longrightarrow> s \<noteq> [] \<and> env_parse_date e s = Some s \<Longrightarrow>
   map_res (view_fields e) (map view_json vs) = Inr (map (\<lambda>v. (vw_framework v, vw_clause v, vw_verdict v, vw_deadline v)) vs)"
  by (induction vs) (auto simp: view_fields_json simp del: view_fields.simps)

lemma views_of_json: "views_of (finding_json isoformat vs r) = Inr (map view_json vs)"
  by (cases vs) (simp_all add: views_of_def finding_json_def get_truthy_def)

lemma load_identity_json:
  "hi_machine_id h \<noteq> [] \<Longrightarrow>
   (case identity_json h of JObj d \<Rightarrow> load_identity d (hi_labels h) | _ \<Rightarrow> Inl BundleInvalid) = Inr h"
  by (simp add: identity_json_def req_str_def)

lemma load_dump_doc:
  assumes "sc_scan_uuid s = Some u" and "u \<noteq> []" and "hi_machine_id h \<noteq> []" and "check_labels (hi_labels h)"
    and "length (scan_rows (sc_id s) d) \<le> MAX_FINDINGS"
  shows "load_doc (dump_doc isoformat s h d) = Inr
    \<lparr>schema_version = BUNDLE_SCHEMA_VERSION, b_scan_uuid = u, b_host = h, b_scan = scan_json isoformat s,
     b_findings = map (\<lambda>r. finding_json isoformat (views_of_finding (fr_id r) d) (r\<lparr>fr_evidence := AList.delete ''_fleet'' (fr_evidence r)\<rparr>))
       (filter (\<lambda>r. fr_probe_id r \<noteq> DRIFT_PROBE) (scan_rows (sc_id s) d)),
     dropped_drift = length (filter (\<lambda>r. fr_probe_id r = DRIFT_PROBE) (scan_rows (sc_id s) d))\<rparr>"
proof -
  let ?rows = "scan_rows (sc_id s) d"
  let ?js = "map (\<lambda>r. finding_json isoformat (views_of_finding (fr_id r) d) r) ?rows"
  have kept: "filter (\<lambda>f. \<not> is_drift_finding f) ?js =
      map (\<lambda>r. finding_json isoformat (views_of_finding (fr_id r) d) r) (filter (\<lambda>r. fr_probe_id r \<noteq> DRIFT_PROBE) ?rows)"
    by (simp add: filter_map comp_def finding_json_drift)
  have n: "length ?rows - length (filter (\<lambda>r. fr_probe_id r \<noteq> DRIFT_PROBE) ?rows) =
      length (filter (\<lambda>r. fr_probe_id r = DRIFT_PROBE) ?rows)"
    using sum_length_filter_compl [of "\<lambda>r. fr_probe_id r = DRIFT_PROBE" ?rows] by simp
  show ?thesis
    using assms kept n
    by (simp add: load_doc_def dump_doc_def Let_def null_default_def identity_json_def req_str_def list_all_iff
        comp_def strip_finding_json)
qed

text \<open>C23. A scan survives its journey: with codecs that invert each other, what the agent dumps for
  a finished scan loads at the collector as that scan's identity, and the row the ingest builds for
  each finding is the agent's row, in order, with the same texts, evidence, remediation and time and
  the same framework views; only drift rows and fleet attribution, which the collector owns, are
  left behind.\<close>

theorem bundle_roundtrip:
  assumes codec: "length (json_dumps (dump_doc isoformat s h d)) \<le> MAX_RAW_BYTES \<Longrightarrow>
        inflate (gzip (json_dumps (dump_doc isoformat s h d))) (MAX_RAW_BYTES + 1) =
          Some (json_dumps (dump_doc isoformat s h d), False)"
      "json_loads (json_dumps (dump_doc isoformat s h d)) = Some (dump_doc isoformat s h d)"
    and times: "\<forall>r \<in> set (scan_rows sid d). isoformat (fr_created_at r) \<noteq> [] \<and>
      env_parse_dt e (isoformat (fr_created_at r)) = Some (fr_created_at r)"
    and dates: "\<forall>v \<in> set (fviews d). \<forall>x. vw_deadline v = Some x \<longrightarrow> x \<noteq> [] \<and> env_parse_date e x = Some x"
    and scan: "get_scan sid d = Some s" "sc_id s = sid" "sc_scan_uuid s = Some u" "u \<noteq> []"
    and host: "hi_machine_id h \<noteq> []" "check_labels (hi_labels h)"
    and caps: "dump_bundle json_dumps gzip isoformat sid h d = Inr data" "length data \<le> MAX_GZIP_BYTES"
      "length (scan_rows sid d) \<le> MAX_FINDINGS"
  shows "\<exists>b. load_bundle inflate json_loads data = Inr b \<and> b_scan_uuid b = u \<and> b_host b = h \<and>
    str_get (b_scan b) ''status'' ''done'' = sc_status s \<and>
    map (ingest_row e sid') (b_findings b) =
      map (\<lambda>r. Inr (received sid' r)) (filter (\<lambda>r. fr_probe_id r \<noteq> DRIFT_PROBE) (scan_rows sid d)) \<and>
    map (\<lambda>f. map_res (view_fields e) (projr (views_of f))) (b_findings b) =
      map (\<lambda>r. Inr (map (\<lambda>v. (vw_framework v, vw_clause v, vw_verdict v, vw_deadline v)) (views_of_finding (fr_id r) d)))
        (filter (\<lambda>r. fr_probe_id r \<noteq> DRIFT_PROBE) (scan_rows sid d))"
proof -
  let ?raw = "json_dumps (dump_doc isoformat s h d)"
  have raw: "length ?raw \<le> MAX_RAW_BYTES" "data = gzip ?raw"
    using caps(1) scan(1) by (auto simp: dump_bundle_def Let_def split: if_splits)
  then have l: "load_bundle inflate json_loads data = load_doc (dump_doc isoformat s h d)"
    using caps(2) codec(1) [OF raw(1)] codec(2) by (simp add: load_bundle_def)
  have views: "map_res (view_fields e) (map view_json (views_of_finding i d)) =
      Inr (map (\<lambda>v. (vw_framework v, vw_clause v, vw_verdict v, vw_deadline v)) (views_of_finding i d))" for i
    using dates by (intro map_res_views) (auto simp: views_of_finding_def)
  have row: "ingest_row e sid' (finding_json isoformat vs (r\<lparr>fr_evidence := ev\<rparr>)) =
      Inr (\<lambda>i. r\<lparr>fr_evidence := ev, fr_id := i, fr_scan_id := sid', fr_component_id := None\<rparr>)"
    if "r \<in> set (scan_rows sid d)" for vs r ev
    using times that by (subst ingest_row_json) simp_all
  show ?thesis
    unfolding l load_dump_doc [OF scan(3,4) host, of d isoformat, simplified scan(2), OF caps(3)]
    by (simp add: comp_def row received_def [abs_def] views_of_json views str_get_def scan_json_def)
qed

definition agent_db :: db where
  "agent_db = empty_db\<lparr>scans := [sample_scan 1 ''done''],
     findings := [\<lparr>fr_id = 1, fr_scan_id = 1, fr_component_id = None,
       fr_probe_id = ''net.tls'', fr_algorithm = ''RSA-2048'', fr_classification = ''tinggi'', fr_severity = ''high'',
       fr_title = ''t'', fr_evidence = [(''_fleet'', JNull)], fr_remediation = [], fr_created_at = 7\<rparr>],
     fviews := [\<lparr>vw_id = 1, vw_finding_id = 1, vw_framework = ''cnsa2'', vw_clause = ''c'', vw_verdict = ''v'',
       vw_deadline = Some ''2030-12-31''\<rparr>]\<rparr>"

definition agent_env :: env where
  "agent_env = sqlite_env\<lparr>env_parse_dt := (\<lambda>s. if s = ''7'' then Some 7 else None)\<rparr>"

theorem bundle_roundtrip_witness:
  "\<exists>b. load_bundle (\<lambda>data cap. Some (data, False))
        (\<lambda>raw. Some (dump_doc (\<lambda>_. ''7'') (sample_scan 1 ''done'') (b_host sample_bundle) agent_db)) [] = Inr b \<and>
     b_scan_uuid b = ''1'' \<and> length (b_findings b) = 1"
proof -
  have rows: "scan_rows 1 agent_db = findings agent_db"
    by (simp add: scan_rows_def agent_db_def)
  have times: "\<forall>r \<in> set (scan_rows 1 agent_db). ''7'' \<noteq> [] \<and> env_parse_dt agent_env ''7'' = Some (fr_created_at r)"
    unfolding rows by (simp add: agent_db_def agent_env_def)
  let ?load = "load_bundle (\<lambda>data cap. Some (data, False))
    (\<lambda>raw. Some (dump_doc (\<lambda>_. ''7'') (sample_scan 1 ''done'') (b_host sample_bundle) agent_db)) []"
  have "\<exists>b. ?load = Inr b \<and> b_scan_uuid b = show_nat 1 \<and> b_host b = b_host sample_bundle \<and>
    str_get (b_scan b) ''status'' ''done'' = sc_status (sample_scan 1 ''done'') \<and>
    map (ingest_row agent_env 5) (b_findings b) =
      map (\<lambda>r. Inr (received 5 r)) (filter (\<lambda>r. fr_probe_id r \<noteq> DRIFT_PROBE) (scan_rows 1 agent_db)) \<and>
    map (\<lambda>f. map_res (view_fields agent_env) (projr (views_of f))) (b_findings b) =
      map (\<lambda>r. Inr (map (\<lambda>v. (vw_framework v, vw_clause v, vw_verdict v, vw_deadline v)) (views_of_finding (fr_id r) agent_db)))
        (filter (\<lambda>r. fr_probe_id r \<noteq> DRIFT_PROBE) (scan_rows 1 agent_db))"
    by (rule bundle_roundtrip [where json_dumps = "\<lambda>_. []" and gzip = id, OF _ _ times])
       (simp_all add: agent_db_def scan_rows_def agent_env_def sqlite_env_def get_scan_def get_row_def
         sample_scan_def sample_bundle_def check_labels_def MAX_LABELS_def MAX_FINDINGS_def dump_bundle_def Let_def empty_db_def)
  then obtain b where b: "?load = Inr b" "b_scan_uuid b = show_nat 1"
    "map (ingest_row agent_env 5) (b_findings b) =
      map (\<lambda>r. Inr (received 5 r)) (filter (\<lambda>r. fr_probe_id r \<noteq> DRIFT_PROBE) (scan_rows 1 agent_db))"
    by blast
  from arg_cong [OF b(3), of length] have "length (b_findings b) = 1"
    unfolding rows by (simp add: agent_db_def DRIFT_PROBE_def)
  with b show ?thesis by (simp add: show_nat.simps py_simps)
qed

end
