(* ===== verification/Merge.thy ===== *)
theory Merge
  imports Fleet_Rollup
begin

text \<open>
  \<^verbatim>\<open>store/merge.py\<close>: folding per-host databases into one. A source is its file stem with its
  database; every scan is copied with new ids, and a rollup scan unions the latest finished scan of
  each source. The copies are written into one session of the target.
\<close>

section \<open>Copying a scan\<close>

definition copy_row :: "nat \<Rightarrow> pydict \<Rightarrow> finding_row \<Rightarrow> nat \<Rightarrow> finding_row" where
  "copy_row sid extra r i =
     r\<lparr>fr_id := i, fr_scan_id := sid, fr_component_id := None, fr_evidence := dict_merge (fr_evidence r) extra\<rparr>"

definition view_tuple :: "framework_view \<Rightarrow> string \<times> string \<times> string \<times> string option" where
  "view_tuple v = (vw_framework v, vw_clause v, vw_verdict v, vw_deadline v)"

fun copy_rows :: "env \<Rightarrow> db \<Rightarrow> nat \<Rightarrow> pydict \<Rightarrow> finding_row list \<Rightarrow> db \<Rightarrow> db" where
  "copy_rows e src sid extra [] d = d"
| "copy_rows e src sid extra (r # rs) d =
     (case insert_finding e (copy_row sid extra r) d of (i, d1) \<Rightarrow>
        copy_rows e src sid extra rs
          (insert_views e i (map view_tuple (filter (\<lambda>v. vw_finding_id v = fr_id r) (fviews src))) d1))"

text \<open>The copied scan has no host id and no UUID, so the unique index never rejects it.\<close>

definition copied_scan :: "scan \<Rightarrow> string \<Rightarrow> nat \<Rightarrow> scan" where
  "copied_scan s hname i =
     \<lparr>sc_id = i, sc_started_at = sc_started_at s, sc_finished_at = sc_finished_at s,
      sc_host_fingerprint = Some hname, sc_mode = sc_mode s, sc_status = sc_status s,
      sc_label = sc_label s, sc_probe_versions = sc_probe_versions s,
      sc_tool_versions = sc_tool_versions s, sc_host_id = None, sc_scan_uuid = None\<rparr>"

definition add_scan :: "env \<Rightarrow> (nat \<Rightarrow> scan) \<Rightarrow> db \<Rightarrow> nat \<times> db" where
  "add_scan e mk d =
     (let s = mk (env_alloc e (map sc_id (scans d))) in (sc_id s, d\<lparr>scans := add_row s (scans d)\<rparr>))"

definition copy_scan :: "env \<Rightarrow> db \<Rightarrow> string \<Rightarrow> scan \<Rightarrow> db \<Rightarrow> nat \<times> nat \<times> db" where
  "copy_scan e src hname s d =
     (case add_scan e (copied_scan s hname) d of (i, d1) \<Rightarrow>
        (let rows = list_findings (sc_id s) src
         in (i, length rows, copy_rows e src i [] rows d1)))"

section \<open>Merging\<close>

record merge_report =
  mr_sources :: nat
  scans_copied :: nat
  findings_copied :: nat
  rollup_scan_id :: "nat option"
  rollup_hosts :: "string list"

definition host_of :: "string \<Rightarrow> scan \<Rightarrow> string" where
  "host_of stem s = (case sc_host_fingerprint s of None \<Rightarrow> stem | Some h \<Rightarrow> if h = [] then stem else h)"

fun copy_scans :: "env \<Rightarrow> db \<Rightarrow> string \<Rightarrow> scan list \<Rightarrow> merge_report \<Rightarrow> db \<Rightarrow> merge_report \<times> db" where
  "copy_scans e src stem [] rep d = (rep, d)"
| "copy_scans e src stem (s # ss) rep d =
     (case copy_scan e src (host_of stem s) s d of (i, n, d1) \<Rightarrow>
        copy_scans e src stem ss
          (rep\<lparr>scans_copied := scans_copied rep + 1, findings_copied := findings_copied rep + n\<rparr>) d1)"

definition latest_done :: "string \<Rightarrow> db \<Rightarrow> (string \<times> db \<times> scan) option" where
  "latest_done stem src =
     (case filter (\<lambda>s. sc_status s = ''done'' \<and> sc_label s \<noteq> Some FLEET_ROLLUP_LABEL)
             (sort_key sc_started_at (scans src)) of
        [] \<Rightarrow> None
      | done \<Rightarrow> Some (host_of stem (last done), src, last done))"

fun merge_sources ::
  "env \<Rightarrow> (string \<times> db) list \<Rightarrow> merge_report \<Rightarrow> db \<Rightarrow> (string \<times> db \<times> scan) list \<times> merge_report \<times> db" where
  "merge_sources e [] rep d = ([], rep, d)"
| "merge_sources e ((stem, src) # sources) rep d =
     (case copy_scans e src stem (sort_key sc_started_at (scans src)) (rep\<lparr>mr_sources := mr_sources rep + 1\<rparr>) d
      of (rep1, d1) \<Rightarrow>
        (case merge_sources e sources rep1 d1 of (latest, rep2, d2) \<Rightarrow>
           ((case latest_done stem src of None \<Rightarrow> latest | Some x \<Rightarrow> x # latest), rep2, d2)))"

definition merge_mark :: "string \<Rightarrow> pydict" where
  "merge_mark h = [(''_fleet'', JObj [(''host'', JStr h), (''host_id'', JNull), (''machine_id'', JNull)])]"

definition merge_rollup_scan :: "env \<Rightarrow> nat \<Rightarrow> nat \<Rightarrow> scan" where
  "merge_rollup_scan e n i =
     \<lparr>sc_id = i, sc_started_at = env_now e, sc_finished_at = Some (env_now e),
      sc_host_fingerprint = Some ''fleet'', sc_mode = ''user'', sc_status = ''done'',
      sc_label = Some FLEET_ROLLUP_LABEL, sc_probe_versions = [],
      sc_tool_versions = [(''hosts'', JInt (int n))], sc_host_id = None, sc_scan_uuid = None\<rparr>"

definition rollup_source :: "env \<Rightarrow> nat \<Rightarrow> db \<Rightarrow> string \<times> db \<times> scan \<Rightarrow> db" where
  "rollup_source e rid d x =
     (case x of (h, src, s) \<Rightarrow>
        copy_rows e src rid (merge_mark h) (filter (\<lambda>r. fr_scan_id r = sc_id s) (findings src)) d)"

definition merge_dbs :: "env \<Rightarrow> (string \<times> db) list \<Rightarrow> bool \<Rightarrow> db \<Rightarrow> merge_report \<times> db" where
  "merge_dbs e sources rollup d =
     (case merge_sources e sources
         \<lparr>mr_sources = 0, scans_copied = 0, findings_copied = 0, rollup_scan_id = None, rollup_hosts = []\<rparr> d
      of (latest, rep, d1) \<Rightarrow>
        if rollup \<and> latest \<noteq> [] then
          (case add_scan e (merge_rollup_scan e (length latest)) d1 of (rid, d2) \<Rightarrow>
             (rep\<lparr>rollup_hosts := map fst latest, rollup_scan_id := Some rid\<rparr>,
              foldl (rollup_source e rid) d2 latest))
        else (rep, d1))"

section \<open>What merging preserves\<close>

lemma add_scan_insert: "sc_scan_uuid (mk (env_alloc e (map sc_id (scans d)))) = None \<Longrightarrow> insert_scan e mk d = Inr (add_scan e mk d)"
  by (simp add: insert_scan_def add_scan_def uuid_taken_def Let_def)

lemma copy_row_fields [simp]: "fr_id (copy_row sid extra r i) = i" "fr_scan_id (copy_row sid extra r i) = sid"
  by (simp_all add: copy_row_def)

lemma copy_rows_extends: "env_ok e \<Longrightarrow> extends sid d (copy_rows e src sid extra rs d)"
proof (induction rs arbitrary: d)
  case (Cons r rs)
  obtain i d1 where i: "insert_finding e (copy_row sid extra r) d = (i, d1)" by force
  let ?d = "insert_views e i (map view_tuple (filter (\<lambda>v. vw_finding_id v = fr_id r) (fviews src))) d1"
  have "extends sid d d1"
    using insert_finding_extends [OF Cons.prems, of "copy_row sid extra r" sid d] i by simp
  also have "extends sid d1 ?d"
    using insert_finding_row [OF i] by (intro insert_views_extends [OF Cons.prems]) force
  also have "extends sid ?d (copy_rows e src sid extra rs ?d)" using Cons.prems by (rule Cons.IH)
  finally show ?case using i by simp
qed simp

text \<open>The rows of a copied scan, in order, are the source's rows up to their ids.\<close>

lemma insert_views_findings [simp]: "findings (insert_views e i vs d) = findings d"
  by (induction vs arbitrary: d) (auto simp: insert_views_def insert_view_def Let_def)

lemma copy_rows_findings:
  "\<exists>fs. findings (copy_rows e src sid extra rs d) = findings d @ fs \<and>
     map (\<lambda>r. r\<lparr>fr_id := 0\<rparr>) fs = map (\<lambda>r. copy_row sid extra r 0) rs"
proof (induction rs arbitrary: d)
  case (Cons r rs)
  obtain i d1 where i: "insert_finding e (copy_row sid extra r) d = (i, d1)" by force
  then have d1: "findings d1 = findings d @ [copy_row sid extra r i]"
    by (auto simp: insert_finding_def Let_def add_row_def)
  let ?d = "insert_views e i (map view_tuple (filter (\<lambda>v. vw_finding_id v = fr_id r) (fviews src))) d1"
  obtain fs where fs: "findings (copy_rows e src sid extra rs ?d) = findings ?d @ fs"
    "map (\<lambda>r. r\<lparr>fr_id := 0\<rparr>) fs = map (\<lambda>r. copy_row sid extra r 0) rs"
    using Cons.IH by blast
  with i d1 show ?case
    by (intro exI [of _ "copy_row sid extra r i # fs"]) (simp add: copy_row_def)
qed simp

definition merge_inv :: "db \<Rightarrow> db \<Rightarrow> bool" where
  "merge_inv d d' \<longleftrightarrow> (db_ok d \<longrightarrow> db_ok d') \<and> (db_ok d \<and> refs_ok d \<longrightarrow> refs_ok d') \<and>
     (db_ok d \<and> refs_ok d \<longrightarrow> (\<forall>s \<in> set (scans d). get_scan (sc_id s) d' = Some s \<and>
        list_findings (sc_id s) d' = list_findings (sc_id s) d)) \<and> set (scans d) \<subseteq> set (scans d')"

lemma merge_inv_refl [simp]: "db_ok d \<Longrightarrow> merge_inv d d"
  using scan_t.get_iff [OF db_okD(1), of d] by (auto simp: merge_inv_def get_scan_def)

lemma merge_inv_trans [trans]: "merge_inv d1 d2 \<Longrightarrow> merge_inv d2 d3 \<Longrightarrow> merge_inv d1 d3"
  unfolding merge_inv_def by (metis subsetD subset_trans)

lemma grown_scan_inv:
  assumes "env_ok e" and "add_scan e mk d = (i, d1)" and "extends i d1 d2"
    and "\<And>i. sc_id (mk i) = i" "\<And>i. sc_scan_uuid (mk i) = None" "\<And>i. sc_host_id (mk i) = None"
  shows "merge_inv d d2"
proof -
  have ins: "insert_scan e mk d = Inr (i, d1)" using assms(2,5) add_scan_insert by metis
  note c = insert_scan_cases [OF ins assms(1,4)]
  have ok: "db_ok d2" if "db_ok d"
    using extends_db_ok [OF assms(3) insert_scan_ok [OF ins assms(1,4) that]] .
  have "refs_ok d2" if "refs_ok d"
  proof -
    have "refs_ok d1" using assms(6) by (intro insert_scan_refs [OF ins assms(1,4) that]) simp
    then show ?thesis using c(2) assms(4) by (intro extends_refs_ok [OF assms(3)]) (auto simp: add_row_def)
  qed
  moreover have "get_scan (sc_id s) d2 = Some s \<and> list_findings (sc_id s) d2 = list_findings (sc_id s) d"
    if "db_ok d" "s \<in> set (scans d)" for s
  proof -
    have "s \<in> set (scans d2)" "sc_id s \<noteq> i" using that c extends_same [OF assms(3)] by (auto simp: add_row_def)
    then show ?thesis
      using scan_t.get_iff [OF db_okD(1) [OF ok [OF that(1)]]] extends_list_findings [OF assms(3)] c(2)
      by (auto simp: get_scan_def list_findings_def)
  qed
  moreover have "set (scans d) \<subseteq> set (scans d2)"
    using c(2) extends_same [OF assms(3)] by (auto simp: add_row_def)
  ultimately show ?thesis using ok by (simp add: merge_inv_def)
qed

lemma copy_scan_inv: "env_ok e \<Longrightarrow> copy_scan e src h s d = (i, n, d') \<Longrightarrow> merge_inv d d'"
  by (auto simp: copy_scan_def Let_def split: prod.splits
      intro!: grown_scan_inv [where mk = "copied_scan s h"] copy_rows_extends) (simp_all add: copied_scan_def)

lemma copy_scans_inv:
  "env_ok e \<Longrightarrow> db_ok d \<Longrightarrow> copy_scans e src stem ss rep d = (rep', d') \<Longrightarrow>
   merge_inv d d' \<and> mr_sources rep' = mr_sources rep \<and> scans_copied rep' = scans_copied rep + length ss \<and>
   findings_copied rep' = findings_copied rep + sum_list (map (\<lambda>s. length (list_findings (sc_id s) src)) ss)"
proof (induction ss arbitrary: rep d)
  case (Cons s ss)
  obtain i n d1 where c: "copy_scan e src (host_of stem s) s d = (i, n, d1)" by (metis prod_cases3)
  note 1 = copy_scan_inv [OF Cons.prems(1) c]
  have n: "n = length (list_findings (sc_id s) src)"
    using c by (auto simp: copy_scan_def Let_def split: prod.splits)
  have "db_ok d1" using 1 Cons.prems(2) by (simp add: merge_inv_def)
  from Cons.IH [OF Cons.prems(1) this] Cons.prems(3) c n 1 show ?case
    by (auto intro: merge_inv_trans)
qed auto

lemma merge_sources_inv:
  "env_ok e \<Longrightarrow> db_ok d \<Longrightarrow> merge_sources e sources rep d = (latest, rep', d') \<Longrightarrow>
   merge_inv d d' \<and> mr_sources rep' = mr_sources rep + length sources \<and>
   scans_copied rep' = scans_copied rep + sum_list (map (\<lambda>(_, src). length (scans src)) sources) \<and>
   latest = List.map_filter (\<lambda>(stem, src). latest_done stem src) sources"
proof (induction sources arbitrary: rep d latest)
  case (Cons x sources)
  obtain stem src where x: "x = (stem, src)" by force
  obtain rep1 d1 where c: "copy_scans e src stem (sort_key sc_started_at (scans src))
      (rep\<lparr>mr_sources := mr_sources rep + 1\<rparr>) d = (rep1, d1)" by force
  obtain l2 where m: "merge_sources e sources rep1 d1 = (l2, rep', d')"
    and l: "latest = (case latest_done stem src of None \<Rightarrow> l2 | Some x \<Rightarrow> x # l2)"
    using Cons.prems(3) x c by (auto split: prod.splits)
  note 1 = copy_scans_inv [OF Cons.prems(1,2) c]
  then have "db_ok d1" using Cons.prems(2) by (simp add: merge_inv_def)
  from Cons.IH [OF Cons.prems(1) this m] 1 l x show ?case
    by (auto simp: List.map_filter_def split: option.splits intro: merge_inv_trans)
qed (auto simp: List.map_filter_def)

lemma foldl_rollup_source_extends: "env_ok e \<Longrightarrow> extends rid d (foldl (rollup_source e rid) d xs)"
  by (induction xs arbitrary: d)
     (auto simp: rollup_source_def split: prod.splits intro: extends_trans copy_rows_extends)

lemma foldl_rollup_source_findings:
  "\<exists>fs. findings (foldl (rollup_source e rid) d xs) = findings d @ fs \<and>
     map (\<lambda>r. r\<lparr>fr_id := 0\<rparr>) fs =
       concat (map (\<lambda>(h, src, s). map (\<lambda>r. copy_row rid (merge_mark h) r 0)
         (filter (\<lambda>r. fr_scan_id r = sc_id s) (findings src))) xs)"
proof (induction xs arbitrary: d)
  case (Cons x xs)
  obtain h src s where x: "x = (h, src, s)" by (metis prod_cases3)
  obtain fs where fs: "findings (rollup_source e rid d x) = findings d @ fs"
    "map (\<lambda>r. r\<lparr>fr_id := 0\<rparr>) fs = map (\<lambda>r. copy_row rid (merge_mark h) r 0) (filter (\<lambda>r. fr_scan_id r = sc_id s) (findings src))"
    using copy_rows_findings by (fastforce simp: rollup_source_def x)
  obtain gs where "findings (foldl (rollup_source e rid) (rollup_source e rid d x) xs) = findings (rollup_source e rid d x) @ gs"
    "map (\<lambda>r. r\<lparr>fr_id := 0\<rparr>) gs = concat (map (\<lambda>(h, src, s). map (\<lambda>r. copy_row rid (merge_mark h) r 0)
         (filter (\<lambda>r. fr_scan_id r = sc_id s) (findings src))) xs)"
    using Cons.IH by blast
  with fs x show ?case by (intro exI [of _ "fs @ gs"]) simp
qed simp

text \<open>A merge copies every scan of every source, keeps the target consistent and its own scans
  untouched, and its rollup scan holds, source by source, exactly the findings of each source's
  latest finished scan that is not itself a rollup, marked with the host they came from.\<close>

theorem merge_dbs_rollup:
  assumes "env_ok e" and "db_ok d" and "refs_ok d" and "merge_dbs e sources True d = (rep, d')"
  defines "latest \<equiv> List.map_filter (\<lambda>(stem, src). latest_done stem src) sources"
  shows "db_ok d' \<and> refs_ok d' \<and>
    (\<forall>s \<in> set (scans d). get_scan (sc_id s) d' = Some s \<and> list_findings (sc_id s) d' = list_findings (sc_id s) d) \<and>
    scans_copied rep = sum_list (map (\<lambda>(_, src). length (scans src)) sources) \<and>
    (latest \<noteq> [] \<longrightarrow> (\<exists>rid. rollup_scan_id rep = Some rid \<and> rollup_hosts rep = map fst latest \<and>
       map (\<lambda>r. r\<lparr>fr_id := 0\<rparr>) (filter (\<lambda>r. fr_scan_id r = rid) (findings d')) =
         concat (map (\<lambda>(h, src, s). map (\<lambda>r. copy_row rid (merge_mark h) r 0)
           (filter (\<lambda>r. fr_scan_id r = sc_id s) (findings src))) latest)))"
proof -
  obtain rep1 d1 where m: "merge_sources e sources
      \<lparr>mr_sources = 0, scans_copied = 0, findings_copied = 0, rollup_scan_id = None, rollup_hosts = []\<rparr> d
      = (latest, rep1, d1)"
    using merge_sources_inv [OF assms(1,2)] latest_def by (metis prod_cases3)
  note 1 = merge_sources_inv [OF assms(1,2) m]
  then have ok1: "db_ok d1" "refs_ok d1" using assms(2,3) by (auto simp: merge_inv_def)
  show ?thesis
  proof (cases "latest = []")
    case True
    with assms(4) m have "rep = rep1" "d' = d1" by (simp_all add: merge_dbs_def)
    with 1 True assms(2,3) show ?thesis by (auto simp: merge_inv_def)
  next
    case False
    obtain rid d2 where a: "add_scan e (merge_rollup_scan e (length latest)) d1 = (rid, d2)" by force
    have r: "rep = rep1\<lparr>rollup_hosts := map fst latest, rollup_scan_id := Some rid\<rparr>"
      "d' = foldl (rollup_source e rid) d2 latest"
      using assms(4) m False a by (simp_all add: merge_dbs_def)
    have 2: "merge_inv d1 d'"
      unfolding r(2) by (rule grown_scan_inv [OF assms(1) a foldl_rollup_source_extends [OF assms(1)]])
        (simp_all add: merge_rollup_scan_def)
    have "insert_scan e (merge_rollup_scan e (length latest)) d1 = Inr (rid, d2)"
      using a add_scan_insert [of "merge_rollup_scan e (length latest)" e d1] by (simp add: merge_rollup_scan_def)
    note c = insert_scan_cases [OF this assms(1)]
    have old: "\<forall>r \<in> set (findings d2). fr_scan_id r \<noteq> rid"
      using c(2,3) ok1(2) by (fastforce simp: merge_rollup_scan_def refs_ok_def)
    obtain fs where fs: "findings d' = findings d2 @ fs"
      "map (\<lambda>r. r\<lparr>fr_id := 0\<rparr>) fs = concat (map (\<lambda>(h, src, s). map (\<lambda>r. copy_row rid (merge_mark h) r 0)
         (filter (\<lambda>r. fr_scan_id r = sc_id s) (findings src))) latest)"
      using foldl_rollup_source_findings r(2) by blast
    have "\<forall>r \<in> set fs. fr_scan_id r = rid"
      using foldl_rollup_source_extends [OF assms(1), of rid d2 latest] fs(1) r(2) unfolding extends_def by auto
    then have "filter (\<lambda>r. fr_scan_id r = rid) (findings d') = fs"
      using fs(1) old by (simp add: filter_empty_conv filter_id_conv)
    then show ?thesis
      using merge_inv_trans [OF 1 [THEN conjunct1] 2] 1 assms(2,3) r(1) fs(2) by (auto simp: merge_inv_def)
  qed
qed

theorem merge_dbs_rollup_witness:
  "\<exists>rep d'. merge_dbs sqlite_env [(''hostA'', reporting_db)] True empty_db = (rep, d') \<and>
     scans_copied rep = 3 \<and> rollup_hosts rep = [''hostA''] \<and> db_ok d'"
proof -
  obtain rep d' where m: "merge_dbs sqlite_env [(''hostA'', reporting_db)] True empty_db = (rep, d')" by force
  have l: "List.map_filter (\<lambda>(stem, src). latest_done stem src) [(''hostA'', reporting_db)] =
      [(''hostA'', reporting_db, sample_scan 1 ''done'')]"
    by (simp add: List.map_filter_def latest_done_def reporting_db_def sample_db_def sample_scan_def host_of_def)
  from merge_dbs_rollup [OF sqlite_env_ok db_ok_empty refs_ok_empty m] m show ?thesis
    unfolding l by (auto simp: reporting_db_def sample_db_def)
qed

end
