(* ===== verification/Bytes.thy ===== *)
theory Bytes
  imports Prelude "HOL-Library.Monad_Syntax"
begin

text \<open>
  Byte strings as the wire-format helpers use them: Python's slices, \<^verbatim>\<open>int.from_bytes\<close> and
  the big-endian codes of \<^verbatim>\<open>struct\<close>. Packing a number that does not fit and unpacking a slice
  of the wrong length raise \<^verbatim>\<open>struct.error\<close>, which is \<^const>\<open>None\<close> here. The locale
  \<open>fixed_code\<close> is the contract of such a code; the widths used interpret it.
\<close>

type_synonym byte = "8 word"

definition slice :: "nat \<Rightarrow> nat \<Rightarrow> 'a list \<Rightarrow> 'a list" where
  "slice i j xs = take (j - i) (drop i xs)"

definition be_nat :: "byte list \<Rightarrow> nat" where
  "be_nat bs = foldl (\<lambda>n b. 256 * n + unat b) 0 bs"

definition byte_of :: "nat \<Rightarrow> byte" where
  "byte_of n = word_of_nat n"

definition pack_B :: "nat \<Rightarrow> byte list option" where
  "pack_B n = (if n < 256 then Some [byte_of n] else None)"

definition pack_H :: "nat \<Rightarrow> byte list option" where
  "pack_H n = (if n < 65536 then Some [byte_of (n div 256), byte_of (n mod 256)] else None)"

definition pack_I :: "nat \<Rightarrow> byte list option" where
  "pack_I n = (if n < 4294967296
     then Some [byte_of (n div 16777216), byte_of (n div 65536 mod 256), byte_of (n div 256 mod 256), byte_of (n mod 256)]
     else None)"

definition unpack_be :: "nat \<Rightarrow> byte list \<Rightarrow> nat option" where
  "unpack_be k bs = (if length bs = k then Some (be_nat bs) else None)"

definition zeros :: "nat \<Rightarrow> byte list" where
  "zeros n = replicate n 0"

text \<open>The low \<open>n\<close> big-endian digits of a number.\<close>

fun be_digits :: "nat \<Rightarrow> nat \<Rightarrow> byte list" where
  "be_digits 0 v = []"
| "be_digits (Suc n) v = be_digits n (v div 256) @ [byte_of (v mod 256)]"

section \<open>Facts\<close>

lemma length_zeros [simp]: "length (zeros n) = n"
  by (simp add: zeros_def)

lemma unat_byte_of: "n < 256 \<Longrightarrow> unat (byte_of n) = n"
  by (simp add: byte_of_def unat_of_nat take_bit_nat_eq_self)

lemma unat_byte_less: "unat (b :: byte) < 256"
  using unsigned_less [of b] by simp

lemma be_nat_Nil [simp]: "be_nat [] = 0"
  by (simp add: be_nat_def)

lemma be_nat_snoc [simp]: "be_nat (bs @ [b]) = 256 * be_nat bs + unat b"
  by (simp add: be_nat_def)

lemma foldl_be_nat: "foldl (\<lambda>n b. 256 * n + unat b) m bs = m * 256 ^ length bs + be_nat bs"
proof (induction bs arbitrary: m)
  case (Cons b bs)
  have "be_nat (b # bs) = unat b * 256 ^ length bs + be_nat bs"
    using Cons [of "unat b"] by (simp add: be_nat_def)
  with Cons [of "256 * m + unat b"] show ?case by (simp add: algebra_simps)
qed simp

lemma be_nat_Cons: "be_nat (b # bs) = unat b * 256 ^ length bs + be_nat bs"
  using foldl_be_nat [of "unat b" bs] by (simp add: be_nat_def)

lemma be_nat_less: "be_nat bs < 256 ^ length bs"
proof (induction bs)
  case (Cons b bs)
  have "be_nat (b # bs) < (unat b + 1) * 256 ^ length bs"
    using Cons by (simp add: be_nat_Cons algebra_simps)
  also have "\<dots> \<le> 256 ^ length (b # bs)"
    using unat_byte_less [of b] by (simp add: mult_le_mono1)
  finally show ?case .
qed simp

lemma length_be_digits [simp]: "length (be_digits n v) = n"
  by (induction n arbitrary: v) simp_all

lemma be_nat_be_digits: "v < 256 ^ n \<Longrightarrow> be_nat (be_digits n v) = v"
proof (induction n arbitrary: v)
  case (Suc n)
  then have "v div 256 < 256 ^ n" by (simp add: less_mult_imp_div_less mult.commute)
  with Suc.IH show ?case by (simp add: unat_byte_of)
qed simp

lemma length_slice: "j \<le> length xs \<Longrightarrow> length (slice i j xs) = j - i"
  by (simp add: slice_def)

lemma slice_append_left [simp]: "j \<le> length xs \<Longrightarrow> slice i j (xs @ ys) = slice i j xs"
  by (simp add: slice_def)

lemma slice_append_right: "length xs \<le> i \<Longrightarrow> slice i j (xs @ ys) = slice (i - length xs) (j - length xs) ys"
  by (simp add: slice_def)

lemma slice_full [simp]: "slice 0 (length xs) xs = xs"
  by (simp add: slice_def)

section \<open>The codes\<close>

locale fixed_code =
  fixes pack :: "nat \<Rightarrow> byte list option"
    and width :: nat
  assumes pack_fits: "n < 256 ^ width \<Longrightarrow> \<exists>bs. pack n = Some bs \<and> length bs = width \<and> be_nat bs = n"
    and pack_range: "pack n = Some bs \<Longrightarrow> n < 256 ^ width"
begin

lemma pack_SomeD: "pack n = Some bs \<Longrightarrow> length bs = width \<and> be_nat bs = n"
  using pack_fits pack_range by (metis option.inject)

lemma unpack_pack: "pack n = Some bs \<Longrightarrow> unpack_be width bs = Some n"
  using pack_SomeD by (simp add: unpack_be_def)

lemma pack_inj: "pack n = Some bs \<Longrightarrow> pack m = Some bs \<Longrightarrow> n = m"
  using pack_SomeD by metis

end

interpretation u8: fixed_code pack_B 1
  by unfold_locales (auto simp: pack_B_def be_nat_def unat_byte_of split: if_splits)

interpretation u16: fixed_code pack_H 2
  by unfold_locales (auto simp: pack_H_def be_nat_def unat_byte_of split: if_splits)

lemma u32_digits:
  "16777216 * (n div 16777216) + 65536 * (n div 65536 mod 256) + 256 * (n div 256 mod 256) + n mod 256 = (n :: nat)"
proof -
  have "n div 16777216 = n div 256 div 256 div 256" "n div 65536 = n div 256 div 256"
    by (simp_all add: div_mult2_eq [symmetric])
  then have "256 * (256 * (256 * (n div 16777216) + n div 65536 mod 256) + n div 256 mod 256) + n mod 256 = n"
    by (simp only: mult_div_mod_eq)
  then show ?thesis by simp
qed

interpretation u32: fixed_code pack_I 4
  by unfold_locales (auto simp: pack_I_def be_nat_def unat_byte_of u32_digits split: if_splits)

section \<open>Formats with an explicit byte order\<close>

text \<open>
  Python's \<^verbatim>\<open>struct\<close> with an explicit byte order: a format is the list of its field widths, and
  unpacking fails (\<^verbatim>\<open>struct.error\<close>) unless the slice has exactly the width of the format. The writer
  \<open>struct_pack\<close> is what the round trips of the container formats use.
\<close>

section \<open>Fields and formats\<close>

definition endian_nat :: "bool \<Rightarrow> byte list \<Rightarrow> nat" where
  "endian_nat big bs = be_nat (if big then bs else rev bs)"

fun unpack_fields :: "bool \<Rightarrow> nat list \<Rightarrow> byte list \<Rightarrow> nat list" where
  "unpack_fields big [] bs = []"
| "unpack_fields big (w # ws) bs = endian_nat big (take w bs) # unpack_fields big ws (drop w bs)"

definition struct_unpack :: "bool \<Rightarrow> nat list \<Rightarrow> byte list \<Rightarrow> nat list option" where
  "struct_unpack big ws bs = (if length bs = sum_list ws then Some (unpack_fields big ws bs) else None)"

text \<open>A field read as a signed number.\<close>

definition signed_field :: "nat \<Rightarrow> nat \<Rightarrow> int" where
  "signed_field w n = (if 2 * n < 256 ^ w then int n else int n - 256 ^ w)"

definition endian_bytes :: "bool \<Rightarrow> nat \<Rightarrow> nat \<Rightarrow> byte list" where
  "endian_bytes big w n = (if big then be_digits w n else rev (be_digits w n))"

fun struct_pack :: "bool \<Rightarrow> (nat \<times> nat) list \<Rightarrow> byte list" where
  "struct_pack big [] = []"
| "struct_pack big ((w, n) # fs) = endian_bytes big w n @ struct_pack big fs"

section \<open>Laws\<close>

lemma length_endian_bytes [simp]: "length (endian_bytes big w n) = w"
  by (simp add: endian_bytes_def)

lemma endian_nat_bytes: "n < 256 ^ w \<Longrightarrow> endian_nat big (endian_bytes big w n) = n"
  by (simp add: endian_nat_def endian_bytes_def be_nat_be_digits)

lemma length_struct_pack [simp]: "length (struct_pack big fs) = sum_list (map fst fs)"
  by (induction fs) auto

lemma unpack_fields_pack:
  "list_all (\<lambda>(w, n). n < 256 ^ w) fs \<Longrightarrow> unpack_fields big (map fst fs) (struct_pack big fs) = map snd fs"
  by (induction fs) (auto simp: endian_nat_bytes)

lemma struct_unpack_pack:
  "list_all (\<lambda>(w, n). n < 256 ^ w) fs \<Longrightarrow> ws = map fst fs \<Longrightarrow>
   struct_unpack big ws (struct_pack big fs) = Some (map snd fs)"
  by (simp add: struct_unpack_def unpack_fields_pack)

lemma length_unpack_fields [simp]: "length (unpack_fields big ws bs) = length ws"
  by (induction ws arbitrary: bs) simp_all

lemma struct_unpack_length: "struct_unpack big ws bs = Some fs \<Longrightarrow> length fs = length ws \<and> length bs = sum_list ws"
  by (auto simp: struct_unpack_def split: if_splits)

lemma endian_nat_less: "endian_nat big bs < 256 ^ length bs"
  using be_nat_less [of bs] be_nat_less [of "rev bs"] by (simp add: endian_nat_def)

text \<open>Reading a block back out of the bytes around it.\<close>

lemma slice_block: "i = length pre \<Longrightarrow> j = i + length b \<Longrightarrow> slice i j (pre @ b @ post) = b"
  by (simp add: slice_def)

lemma slice_split: "i \<le> j \<Longrightarrow> j \<le> k \<Longrightarrow> slice i k xs = slice i j xs @ slice j k xs"
proof -
  assume "i \<le> j" "j \<le> k"
  then have "k - i = (j - i) + (k - j)" "drop (j - i) (drop i xs) = drop j xs" by simp_all
  then show ?thesis by (simp add: slice_def take_add)
qed

lemma length_slice_le: "length (slice i j xs) = min (j - i) (length xs - i)"
  by (simp add: slice_def)

text \<open>\<open>b\<close> stands at offset \<open>off\<close> of the data.\<close>

definition block_at :: "byte list \<Rightarrow> nat \<Rightarrow> byte list \<Rightarrow> bool" where
  "block_at data off b \<longleftrightarrow> off + length b \<le> length data \<and> slice off (off + length b) data = b"

lemma block_at_mid: "off = length pre \<Longrightarrow> block_at (pre @ b @ post) off b"
  by (simp add: block_at_def slice_block)

lemma block_at_append: "block_at data off (a @ b) \<longleftrightarrow> block_at data off a \<and> block_at data (off + length a) b"
proof (cases "off + length a + length b \<le> length data")
  case True
  have "slice off (off + (length a + length b)) data =
      slice off (off + length a) data @ slice (off + length a) (off + length a + length b) data"
    using slice_split [of off "off + length a" "off + (length a + length b)" data] by (simp add: add.assoc)
  moreover have "length (slice off (off + length a) data) = length a"
    using True by (simp add: length_slice_le)
  ultimately show ?thesis using True by (auto simp: block_at_def add.assoc)
qed (auto simp: block_at_def)

lemma block_at_slice: "block_at data off b \<Longrightarrow> e = off + length b \<Longrightarrow> slice off e data = b"
  by (simp add: block_at_def)

lemma block_at_concat_Cons: "block_at data off (concat (b # bs)) \<longleftrightarrow> block_at data off b \<and> block_at data (off + length b) (concat bs)"
  by (simp add: block_at_append)

lemma block_at_whole: "block_at data 0 data"
  by (simp add: block_at_def)

lemma block_at_bound: "block_at data off b \<Longrightarrow> off + length b \<le> length data"
  by (simp add: block_at_def)

end
