(* ===== verification/Ike.thy ===== *)
theory Ike
  imports Bytes Core_Types
begin

text \<open>
  \<^verbatim>\<open>probes/_ike_packet.py\<close>: the IKE_SA_INIT builder and the SA payload parser. Every
  \<^verbatim>\<open>struct.pack\<close> and \<^verbatim>\<open>struct.unpack\<close> can raise, so builders and parsers return an
  option; that the parsers never do is a theorem. The random SPI and nonce are arguments.
\<close>

section \<open>Constants and names\<close>

definition IKE_VERSION :: nat where "IKE_VERSION = 32"

definition EXCHANGE_IKE_SA_INIT :: nat where "EXCHANGE_IKE_SA_INIT = 34"

definition FLAG_INITIATOR :: nat where "FLAG_INITIATOR = 8"

definition PAYLOAD_NONE :: nat where "PAYLOAD_NONE = 0"

definition PAYLOAD_SA :: nat where "PAYLOAD_SA = 33"

definition PAYLOAD_KE :: nat where "PAYLOAD_KE = 34"

definition PAYLOAD_NONCE :: nat where "PAYLOAD_NONCE = 40"

definition PROTO_IKE :: nat where "PROTO_IKE = 1"

definition T_ENCR :: nat where "T_ENCR = 1"

definition T_PRF :: nat where "T_PRF = 2"

definition T_INTEG :: nat where "T_INTEG = 3"

definition T_DH :: nat where "T_DH = 4"

definition ATTR_KEY_LENGTH :: nat where "ATTR_KEY_LENGTH = 14"

definition TYPE_NAMES :: "(nat \<times> string) list" where
  "TYPE_NAMES = [(T_ENCR, ''ENCR''), (T_PRF, ''PRF''), (T_INTEG, ''INTEG''), (T_DH, ''DH'')]"

definition ENCR_NAMES :: "(nat \<times> string) list" where
  "ENCR_NAMES = [(2, ''DES''), (3, ''3DES''), (11, ''NULL''), (12, ''AES-CBC''), (13, ''AES-CTR''),
     (20, ''AES-GCM-16''), (28, ''CHACHA20-POLY1305'')]"

definition PRF_NAMES :: "(nat \<times> string) list" where
  "PRF_NAMES = [(1, ''PRF-HMAC-MD5''), (2, ''PRF-HMAC-SHA1''), (5, ''PRF-HMAC-SHA256''),
     (6, ''PRF-HMAC-SHA384''), (7, ''PRF-HMAC-SHA512'')]"

definition INTEG_NAMES :: "(nat \<times> string) list" where
  "INTEG_NAMES = [(0, ''NONE''), (1, ''HMAC-MD5-96''), (2, ''HMAC-SHA1-96''), (12, ''HMAC-SHA256-128''),
     (13, ''HMAC-SHA384-192''), (14, ''HMAC-SHA512-256'')]"

definition DH_NAMES :: "(nat \<times> string) list" where
  "DH_NAMES = [(1, ''MODP-768''), (2, ''MODP-1024''), (5, ''MODP-1536''), (14, ''MODP-2048''),
     (15, ''MODP-3072''), (16, ''MODP-4096''), (19, ''ECP-256''), (20, ''ECP-384''), (21, ''ECP-521''),
     (31, ''Curve25519''), (32, ''Curve448''), (35, ''ML-KEM-512''), (36, ''ML-KEM-768''), (37, ''ML-KEM-1024'')]"

definition PQC_DH_IDS :: "nat list" where
  "PQC_DH_IDS = [35, 36, 37]"

definition TF_NAME_TABLES :: "(nat \<times> (nat \<times> string) list) list" where
  "TF_NAME_TABLES = [(T_ENCR, ENCR_NAMES), (T_PRF, PRF_NAMES), (T_INTEG, INTEG_NAMES), (T_DH, DH_NAMES)]"

definition transform_name :: "nat \<Rightarrow> nat \<Rightarrow> nat option \<Rightarrow> string" where
  "transform_name tf_type tf_id key_len =
     (case map_of (case map_of TF_NAME_TABLES tf_type of Some t \<Rightarrow> t | None \<Rightarrow> []) tf_id of
        None \<Rightarrow> (case map_of TYPE_NAMES tf_type of Some n \<Rightarrow> n | None \<Rightarrow> ''TYPE'' @ show_nat tf_type)
               @ ''-ID'' @ show_nat tf_id
      | Some base \<Rightarrow>
          (case key_len of
             Some k \<Rightarrow> if tf_type = T_ENCR \<and> startswith base ''AES'' then base @ ''-'' @ show_nat k else base
           | None \<Rightarrow> base))"

definition classify_transform :: "nat \<Rightarrow> nat \<Rightarrow> nat option \<Rightarrow> classification" where
  "classify_transform tf_type tf_id key_len =
     (if tf_type = T_ENCR then
        (if tf_id = 2 then SANGAT_TINGGI
         else if tf_id = 3 then TINGGI
         else if tf_id \<in> {12, 13, 20} then
           (case key_len of Some k \<Rightarrow> if k \<ge> 192 then RENDAH else SEDERHANA | None \<Rightarrow> SEDERHANA)
         else if tf_id = 28 then RENDAH
         else CLS_INFO)
      else if tf_type = T_DH then
        (if tf_id \<in> set PQC_DH_IDS then PQC_READY
         else if map_of DH_NAMES tf_id \<noteq> None then TINGGI
         else CLS_INFO)
      else if tf_type \<in> {T_PRF, T_INTEG} then
        (let name = transform_name tf_type tf_id None in
         if contains name ''MD5'' \<or> contains name ''SHA1'' then TINGGI
         else if contains name ''SHA256'' then SEDERHANA
         else if contains name ''SHA384'' \<or> contains name ''SHA512'' then RENDAH
         else CLS_INFO)
      else CLS_INFO)"

record ike_transform =
  it_type :: nat
  it_id :: nat
  it_key_len :: "nat option"
  it_name :: string
  it_classification :: classification

definition describe_transform :: "nat \<Rightarrow> nat \<Rightarrow> nat option \<Rightarrow> ike_transform" where
  "describe_transform tf_type tf_id key_len =
     \<lparr>it_type = tf_type, it_id = tf_id, it_key_len = key_len, it_name = transform_name tf_type tf_id key_len,
      it_classification = classify_transform tf_type tf_id key_len\<rparr>"

section \<open>Encoders\<close>

type_synonym spec = "nat \<times> nat \<times> nat option"

text \<open>\<^verbatim>\<open>struct.pack(">BxH", a, b)\<close>.\<close>

definition pack_BxH :: "nat \<Rightarrow> nat \<Rightarrow> byte list option" where
  "pack_BxH a b = do { x \<leftarrow> pack_B a; y \<leftarrow> pack_H b; Some (x @ zeros 1 @ y) }"

definition transform_bytes :: "spec \<Rightarrow> bool \<Rightarrow> byte list option" where
  "transform_bytes sp follows =
     (case sp of (tf_type, tf_id, key_len) \<Rightarrow> do {
        attrs \<leftarrow> (case key_len of None \<Rightarrow> Some []
          | Some k \<Rightarrow> do { a \<leftarrow> pack_H (32768 + ATTR_KEY_LENGTH); b \<leftarrow> pack_H k; Some (a @ b) });
        hd' \<leftarrow> pack_BxH tf_type tf_id;
        let body = hd' @ attrs;
        fst' \<leftarrow> pack_BxH (if follows then 3 else 0) (4 + length body);
        Some (fst' @ body) })"

fun transforms_block :: "spec list \<Rightarrow> byte list option" where
  "transforms_block [] = Some []"
| "transforms_block (sp # sps) = do {
     x \<leftarrow> transform_bytes sp (sps \<noteq> []);
     rest \<leftarrow> transforms_block sps;
     Some (x @ rest) }"

definition proposal :: "nat \<Rightarrow> spec list \<Rightarrow> byte list option" where
  "proposal prop_num specs = do {
     tf_block \<leftarrow> transforms_block specs;
     a \<leftarrow> pack_BxH 0 (8 + length tf_block);
     b \<leftarrow> pack_B prop_num;
     c \<leftarrow> pack_B PROTO_IKE;
     e \<leftarrow> pack_B 0;
     f \<leftarrow> pack_B (length specs);
     Some (a @ b @ c @ e @ f @ tf_block) }"

definition generic_payload :: "nat \<Rightarrow> byte list \<Rightarrow> byte list option" where
  "generic_payload next_payload body = do {
     h \<leftarrow> pack_BxH next_payload (4 + length body);
     Some (h @ body) }"

definition build_sa_payload :: "spec list \<Rightarrow> nat \<Rightarrow> byte list option" where
  "build_sa_payload specs next_payload = do {
     body \<leftarrow> proposal 1 specs;
     generic_payload next_payload body }"

definition ke_payload :: "nat \<Rightarrow> byte list \<Rightarrow> nat \<Rightarrow> byte list option" where
  "ke_payload dh_group ke_data next_payload = do {
     a \<leftarrow> pack_H dh_group;
     b \<leftarrow> pack_H 0;
     generic_payload next_payload (a @ b @ ke_data) }"

definition nonce_payload :: "byte list \<Rightarrow> nat \<Rightarrow> byte list option" where
  "nonce_payload nonce next_payload = generic_payload next_payload nonce"

definition OFFERED_SPECS :: "spec list" where
  "OFFERED_SPECS =
     [(T_ENCR, 20, Some 256), (T_ENCR, 12, Some 256), (T_ENCR, 12, Some 128), (T_ENCR, 3, None),
      (T_PRF, 7, None), (T_PRF, 6, None), (T_PRF, 5, None), (T_PRF, 2, None),
      (T_INTEG, 14, None), (T_INTEG, 13, None), (T_INTEG, 12, None), (T_INTEG, 2, None),
      (T_DH, 36, None), (T_DH, 31, None), (T_DH, 21, None), (T_DH, 20, None), (T_DH, 19, None),
      (T_DH, 15, None), (T_DH, 14, None)]"

definition KE_GROUP :: nat where "KE_GROUP = 14"

definition KE_LEN :: nat where "KE_LEN = 256"

definition offered_transforms :: "ike_transform list" where
  "offered_transforms = map (\<lambda>(t, i, k). describe_transform t i k) OFFERED_SPECS"

text \<open>\<^verbatim>\<open>struct.pack("8s", b)\<close>: padded with zeros or cut to eight bytes.\<close>

definition pack_8s :: "byte list \<Rightarrow> byte list" where
  "pack_8s bs = take 8 (bs @ zeros 8)"

definition build_ike_sa_init :: "byte list \<Rightarrow> byte list \<Rightarrow> byte list option" where
  "build_ike_sa_init initiator_spi nonce = do {
     sa \<leftarrow> build_sa_payload OFFERED_SPECS PAYLOAD_KE;
     ke \<leftarrow> ke_payload KE_GROUP (zeros KE_LEN) PAYLOAD_NONCE;
     ni \<leftarrow> nonce_payload nonce PAYLOAD_NONE;
     let payloads = sa @ ke @ ni;
     a \<leftarrow> pack_B PAYLOAD_SA;
     b \<leftarrow> pack_B IKE_VERSION;
     c \<leftarrow> pack_B EXCHANGE_IKE_SA_INIT;
     f \<leftarrow> pack_B FLAG_INITIATOR;
     m \<leftarrow> pack_I 0;
     l \<leftarrow> pack_I (28 + length payloads);
     Some (pack_8s initiator_spi @ zeros 8 @ a @ b @ c @ f @ m @ l @ payloads) }"

section \<open>Decoders\<close>

text \<open>\<^verbatim>\<open>struct.unpack(">BxH", bs)\<close> wants exactly four bytes.\<close>

definition unpack_BxH :: "byte list \<Rightarrow> (nat \<times> nat) option" where
  "unpack_BxH bs = (if length bs = 4 then Some (unat (bs ! 0), be_nat (slice 2 4 bs)) else None)"

function attr_key_length :: "byte list \<Rightarrow> nat \<Rightarrow> nat option option" where
  "attr_key_length attrs i =
     (if i + 4 \<le> length attrs then
        (case unpack_be 2 (slice i (i + 2) attrs) of
           None \<Rightarrow> None
         | Some af_type \<Rightarrow>
             (case unpack_be 2 (slice (i + 2) (i + 4) attrs) of
                None \<Rightarrow> None
              | Some value \<Rightarrow>
                  if af_type \<ge> 32768 then
                    (if af_type mod 32768 = ATTR_KEY_LENGTH then Some (Some value) else attr_key_length attrs (i + 4))
                  else attr_key_length attrs (i + 4 + value)))
      else Some None)"
  by pat_completeness auto
termination
  by (relation "measure (\<lambda>(attrs, i). length attrs - i)") auto

declare attr_key_length.simps [simp del]

fun parse_transforms :: "byte list \<Rightarrow> nat \<Rightarrow> nat \<Rightarrow> nat \<Rightarrow> ike_transform list option" where
  "parse_transforms data prop_end t_off 0 = Some []"
| "parse_transforms data prop_end t_off (Suc n) =
     (if t_off + 8 > length data then Some []
      else do {
        (flag, tf_len) \<leftarrow> unpack_BxH (slice t_off (t_off + 4) data);
        (tf_type, tf_id) \<leftarrow> unpack_BxH (slice (t_off + 4) (t_off + 8) data);
        if tf_len < 8 \<or> t_off + tf_len > length data \<or> t_off \<ge> prop_end then Some []
        else do {
          key_len \<leftarrow> attr_key_length (slice (t_off + 8) (t_off + tf_len) data) 0;
          rest \<leftarrow> parse_transforms data prop_end (t_off + tf_len) n;
          Some (describe_transform tf_type tf_id key_len # rest) } })"

definition parse_sa_payload :: "byte list \<Rightarrow> ike_transform list option" where
  "parse_sa_payload data =
     (if length data < 8 then Some []
      else if 4 + 8 > length data then Some []
      else do {
        (first, prop_len) \<leftarrow> unpack_BxH (slice 4 8 data);
        let h = slice 8 12 data;
        if length h \<noteq> 4 then None
        else
          (let spi_size = unat (h ! 2); num_tf = unat (h ! 3);
               prop_end = (if prop_len \<ge> 8 then min (4 + prop_len) (length data) else length data)
           in parse_transforms data prop_end (12 + spi_size) num_tf) })"

function walk_payloads :: "byte list \<Rightarrow> nat \<Rightarrow> nat \<Rightarrow> byte list option option" where
  "walk_payloads msg next_payload off =
     (if next_payload \<noteq> PAYLOAD_NONE \<and> off + 4 \<le> length msg then
        (let h = slice off (off + 4) msg in
         if length h \<noteq> 4 then None
         else
           (let plen = be_nat (slice 2 4 h) in
            if plen < 4 \<or> off + plen > length msg then Some None
            else if next_payload = PAYLOAD_SA then Some (Some (slice off (off + plen) msg))
            else walk_payloads msg (unat (h ! 0)) (off + plen)))
      else Some None)"
  by pat_completeness auto
termination
  by (relation "measure (\<lambda>(msg, nxt, off). length msg - off)") auto

declare walk_payloads.simps [simp del]

definition extract_sa_payload :: "byte list \<Rightarrow> byte list option option" where
  "extract_sa_payload msg =
     (if length msg < 28 then Some None else walk_payloads msg (unat (msg ! 16)) 28)"

section \<open>The parsers never raise\<close>

lemma unpack_BxH_slice: "i + 4 \<le> length data \<Longrightarrow> \<exists>a b. unpack_BxH (slice i (i + 4) data) = Some (a, b)"
  by (simp add: unpack_BxH_def length_slice)

lemma attr_key_length_total: "\<exists>r. attr_key_length attrs i = Some r"
proof (induction attrs i rule: attr_key_length.induct)
  case (1 attrs i)
  show ?case
  proof (cases "i + 4 \<le> length attrs")
    case True
    obtain t v where tv: "unpack_be 2 (slice i (i + 2) attrs) = Some t" "unpack_be 2 (slice (i + 2) (i + 4) attrs) = Some v"
      using True by (auto simp: unpack_be_def length_slice)
    then show ?thesis
      using 1 [OF True tv] True by (subst attr_key_length.simps) auto
  qed (simp add: attr_key_length.simps)
qed

lemma parse_transforms_total: "\<exists>r. parse_transforms data prop_end t_off n = Some r"
proof (induction n arbitrary: t_off)
  case (Suc n)
  show ?case
  proof (cases "t_off + 8 \<le> length data")
    case True
    obtain a b where ab: "unpack_BxH (slice t_off (t_off + 4) data) = Some (a, b)"
      using unpack_BxH_slice [of t_off data] True by auto
    obtain c e where ce: "unpack_BxH (slice (t_off + 4) (t_off + 8) data) = Some (c, e)"
      using unpack_BxH_slice [of "t_off + 4" data] True by (auto simp: add.assoc)
    obtain k where "attr_key_length (slice (t_off + 8) (t_off + b) data) 0 = Some k"
      using attr_key_length_total by blast
    moreover obtain r where "parse_transforms data prop_end (t_off + b) n = Some r" using Suc by blast
    ultimately show ?thesis using True ab ce by simp
  qed simp
qed simp

lemma walk_payloads_total: "\<exists>r. walk_payloads msg nxt off = Some r"
proof (induction msg nxt off rule: walk_payloads.induct)
  case (1 msg nxt off)
  then show ?case
    by (subst walk_payloads.simps) (auto simp: Let_def length_slice)
qed

lemma parse_sa_payload_total: "\<exists>r. parse_sa_payload data = Some r"
proof (cases "12 \<le> length data")
  case True
  obtain a b where "unpack_BxH (slice 4 8 data) = Some (a, b)"
    using unpack_BxH_slice [of 4 data] True by auto
  then show ?thesis
    using True parse_transforms_total by (simp add: parse_sa_payload_def Let_def length_slice)
qed (simp add: parse_sa_payload_def)

text \<open>The IKE parsers are total: no byte string, however malformed, makes the payload walk or
  the SA decoder raise or run forever; every unpack sees exactly the bytes it needs.\<close>

theorem ike_parsers_total:
  "(\<exists>r. extract_sa_payload msg = Some r) \<and> (\<exists>r. parse_sa_payload data = Some r)"
  by (simp add: extract_sa_payload_def walk_payloads_total parse_sa_payload_total)

section \<open>Building and parsing agree\<close>

lemma zeros_one [simp]: "zeros (Suc 0) = [0]"
  by (simp add: zeros_def)

lemma pack_BxH_SomeD:
  assumes "pack_BxH a b = Some bs"
  shows "length bs = 4 \<and> unpack_BxH bs = Some (a, b) \<and> unat (bs ! 0) = a \<and> be_nat (slice 2 4 bs) = b"
proof -
  obtain x y where xy: "pack_B a = Some x" "pack_H b = Some y" "bs = x @ zeros 1 @ y"
    using assms by (auto simp: pack_BxH_def bind_eq_Some_conv)
  have x: "length x = 1" "be_nat x = a" using u8.pack_SomeD [OF xy(1)] by auto
  have y: "length y = 2" "be_nat y = b" using u16.pack_SomeD [OF xy(2)] by auto
  from x obtain c where "x = [c]" "unat c = a" by (auto simp: length_Suc_conv be_nat_def)
  with xy(3) y show ?thesis
    by (simp add: unpack_BxH_def slice_def)
qed

lemma transform_bytes_SomeD:
  assumes "transform_bytes (t, i, k) follows = Some bs"
  shows "8 \<le> length bs \<and> (\<exists>f. unpack_BxH (slice 0 4 bs) = Some (f, length bs)) \<and>
    unpack_BxH (slice 4 8 bs) = Some (t, i) \<and> attr_key_length (drop 8 bs) 0 = Some k"
proof -
  obtain attrs h f where a: "(case k of None \<Rightarrow> Some []
      | Some k \<Rightarrow> do { a \<leftarrow> pack_H (32768 + ATTR_KEY_LENGTH); b \<leftarrow> pack_H k; Some (a @ b) }) = Some attrs"
    and h: "pack_BxH t i = Some h" and f: "pack_BxH (if follows then 3 else 0) (4 + length (h @ attrs)) = Some f"
    and bs: "bs = f @ h @ attrs"
    using assms by (auto simp: transform_bytes_def Let_def bind_eq_Some_conv)
  note hd = pack_BxH_SomeD [OF h] and fd = pack_BxH_SomeD [OF f]
  have attr: "attr_key_length attrs 0 = Some k"
  proof (cases k)
    case None
    with a show ?thesis by (simp add: attr_key_length.simps)
  next
    case (Some n)
    with a obtain x y where "pack_H (32768 + ATTR_KEY_LENGTH) = Some x" "pack_H n = Some y" "attrs = x @ y"
      by (auto simp: bind_eq_Some_conv)
    then show ?thesis
      using u16.pack_SomeD [of "32768 + ATTR_KEY_LENGTH" x] u16.pack_SomeD [of n y] Some
      by (simp add: attr_key_length.simps unpack_be_def slice_def ATTR_KEY_LENGTH_def)
  qed
  have "slice 0 4 bs = f" "slice 4 8 bs = h" "drop 8 bs = attrs"
    using hd fd bs by (simp_all add: slice_def)
  moreover have "length bs = 4 + length (h @ attrs)" using fd bs by simp
  ultimately show ?thesis using hd fd attr by auto
qed

lemma slice_after: "length pre = i \<Longrightarrow> slice (i + a) (i + b) (pre @ xs) = slice a b xs"
  by (simp add: slice_def)

lemma parse_transforms_block:
  assumes "transforms_block specs = Some block" and "prop_end = length pre + length block"
  shows "parse_transforms (pre @ block @ post) prop_end (length pre) (length specs) =
    Some (map (\<lambda>(t, i, k). describe_transform t i k) specs)"
  using assms
proof (induction specs arbitrary: pre block)
  case (Cons sp specs)
  obtain t i k where sp: "sp = (t, i, k)" by (metis prod_cases3)
  obtain x rest where x: "transform_bytes (t, i, k) (specs \<noteq> []) = Some x"
    and rest: "transforms_block specs = Some rest" "block = x @ rest"
    using Cons.prems(1) by (auto simp: sp bind_eq_Some_conv)
  obtain f where d: "8 \<le> length x" "unpack_BxH (slice 0 4 x) = Some (f, length x)"
    "unpack_BxH (slice 4 8 x) = Some (t, i)" "attr_key_length (drop 8 x) 0 = Some k"
    using transform_bytes_SomeD [OF x] by blast
  let ?data = "pre @ block @ post"
  have "slice (length pre) (length pre + 4) ?data = slice 0 4 x"
    "slice (length pre + 4) (length pre + 8) ?data = slice 4 8 x"
    "slice (length pre + 8) (length pre + length x) ?data = drop 8 x"
    using slice_after [of pre "length pre" 0 4 "block @ post"] slice_after [of pre "length pre" 4 8 "block @ post"]
      slice_after [of pre "length pre" 8 "length x" "block @ post"] d(1) rest(2)
    by (simp_all add: slice_def)
  moreover have "parse_transforms ?data prop_end (length pre + length x) (length specs) =
      Some (map (\<lambda>(t, i, k). describe_transform t i k) specs)"
    using Cons.IH [OF rest(1), of "pre @ x"] Cons.prems(2) rest(2) by simp
  ultimately show ?case
    using d rest(2) Cons.prems(2) by (auto simp: sp)
qed simp

lemma parse_build_sa_payload:
  assumes "build_sa_payload specs np = Some p"
  shows "parse_sa_payload p = Some (map (\<lambda>(t, i, k). describe_transform t i k) specs)"
proof -
  obtain block a b c e f h body where tb: "transforms_block specs = Some block"
    and a: "pack_BxH 0 (8 + length block) = Some a" and b: "pack_B 1 = Some b" and c: "pack_B PROTO_IKE = Some c"
    and e: "pack_B 0 = Some e" and f: "pack_B (length specs) = Some f"
    and body: "body = a @ b @ c @ e @ f @ block" and h: "pack_BxH np (4 + length body) = Some h" and p: "p = h @ body"
    using assms by (auto simp: build_sa_payload_def proposal_def generic_payload_def bind_eq_Some_conv)
  have l: "length h = 4" "length a = 4" using pack_BxH_SomeD [OF h] pack_BxH_SomeD [OF a] by auto
  obtain b' c' e' f' where one: "b = [b']" "c = [c']" "e = [e']" "f = [f']" "unat e' = 0" "unat f' = length specs"
    using u8.pack_SomeD [OF b] u8.pack_SomeD [OF c] u8.pack_SomeD [OF e] u8.pack_SomeD [OF f]
    by (auto simp: length_Suc_conv be_nat_def)
  let ?pre = "h @ a @ [b', c', e', f']"
  have pp: "p = ?pre @ block" using p body one by simp
  have s: "slice 4 8 p = a" "slice 8 12 p = [b', c', e', f']" using l pp by (simp_all add: slice_def)
  have "parse_transforms (?pre @ block @ []) (length ?pre + length block) (length ?pre) (length specs) =
      Some (map (\<lambda>(t, i, k). describe_transform t i k) specs)"
    by (rule parse_transforms_block [OF tb]) simp
  with s l pack_BxH_SomeD [OF a] one pp show ?thesis
    by (simp add: parse_sa_payload_def Let_def)
qed

lemma walk_payloads_sa:
  assumes "build_sa_payload specs np = Some sa" and "length pre = off"
  shows "walk_payloads (pre @ sa @ post) PAYLOAD_SA off = Some (Some sa)"
proof -
  obtain h body where h: "pack_BxH np (4 + length body) = Some h" and sa: "sa = h @ body"
    using assms(1) by (auto simp: build_sa_payload_def generic_payload_def bind_eq_Some_conv)
  note d = pack_BxH_SomeD [OF h]
  have "slice off (off + 4) (pre @ sa @ post) = h" "slice off (off + length sa) (pre @ sa @ post) = sa"
    using assms(2) sa d by (simp_all add: slice_def)
  with d sa assms(2) show ?thesis
    by (subst walk_payloads.simps) (simp add: Let_def PAYLOAD_SA_def PAYLOAD_NONE_def)
qed

text \<open>What the probe sends decodes to what it meant: the SA payload of any transform list that
  can be encoded parses back to exactly those transforms with their names and classifications, and
  the payload walk finds it in the full IKE_SA_INIT request, for every SPI and nonce.\<close>

theorem ike_sa_init_roundtrip:
  "(build_sa_payload specs np = Some p \<longrightarrow>
      parse_sa_payload p = Some (map (\<lambda>(t, i, k). describe_transform t i k) specs)) \<and>
   (build_ike_sa_init spi nonce = Some msg \<longrightarrow>
      (\<exists>sa. extract_sa_payload msg = Some (Some sa) \<and> parse_sa_payload sa = Some offered_transforms))"
proof (intro conjI impI)
  assume "build_ike_sa_init spi nonce = Some msg"
  then obtain sa ke ni a b c f m l where sa: "build_sa_payload OFFERED_SPECS PAYLOAD_KE = Some sa"
    and a: "pack_B PAYLOAD_SA = Some a" and "pack_B IKE_VERSION = Some b" "pack_B EXCHANGE_IKE_SA_INIT = Some c"
      "pack_B FLAG_INITIATOR = Some f" "pack_I 0 = Some m" "pack_I (28 + length (sa @ ke @ ni)) = Some l"
    and msg: "msg = pack_8s spi @ zeros 8 @ a @ b @ c @ f @ m @ l @ sa @ ke @ ni"
    by (auto simp: build_ike_sa_init_def Let_def bind_eq_Some_conv)
  then have len: "length b = 1" "length c = 1" "length f = 1" "length m = 4" "length l = 4"
    using u8.pack_SomeD u32.pack_SomeD by auto
  obtain a' where a': "a = [a']" "unat a' = PAYLOAD_SA"
    using u8.pack_SomeD [OF a] by (auto simp: length_Suc_conv be_nat_def)
  have l8: "length (pack_8s spi) = 8" by (simp add: pack_8s_def zeros_def)
  let ?pre = "pack_8s spi @ zeros 8 @ a @ b @ c @ f @ m @ l"
  have "length ?pre = 28" using len l8 a' by (simp add: zeros_def)
  moreover have "msg = ?pre @ sa @ ke @ ni" using msg by simp
  moreover have "msg ! 16 = a'" using msg l8 a' by (simp add: nth_append zeros_def)
  ultimately have "extract_sa_payload msg = Some (Some sa)"
    using walk_payloads_sa [OF sa, of ?pre 28 "ke @ ni"] a'(2) by (simp add: extract_sa_payload_def)
  with parse_build_sa_payload [OF sa] show
    "\<exists>sa. extract_sa_payload msg = Some (Some sa) \<and> parse_sa_payload sa = Some offered_transforms"
    by (auto simp: offered_transforms_def)
qed (rule parse_build_sa_payload)

lemma build_ike_sa_init_ok: "\<exists>msg. build_ike_sa_init [] [] = Some msg"
  by (simp add: build_ike_sa_init_def build_sa_payload_def proposal_def OFFERED_SPECS_def transform_bytes_def
      pack_BxH_def pack_B_def pack_H_def pack_I_def generic_payload_def ke_payload_def nonce_payload_def zeros_def
      Let_def KE_GROUP_def KE_LEN_def PAYLOAD_KE_def PAYLOAD_NONCE_def PAYLOAD_NONE_def PAYLOAD_SA_def IKE_VERSION_def
      EXCHANGE_IKE_SA_INIT_def FLAG_INITIATOR_def PROTO_IKE_def T_ENCR_def T_PRF_def T_INTEG_def T_DH_def
      ATTR_KEY_LENGTH_def)

theorem ike_sa_init_roundtrip_witness:
  "\<exists>msg sa. build_ike_sa_init [] [] = Some msg \<and> extract_sa_payload msg = Some (Some sa) \<and>
     parse_sa_payload sa = Some offered_transforms"
proof -
  obtain msg where m: "build_ike_sa_init [] [] = Some msg" using build_ike_sa_init_ok by blast
  with ike_sa_init_roundtrip [of "[]" 0 "[]" "[]" "[]" msg] show ?thesis by blast
qed

end
