(* ===== verification/Krb.thy ===== *)
theory Krb
  imports Bytes
begin

text \<open>
  \<^verbatim>\<open>probes/_krb_asn1.py\<close>: the DER encoders and decoders of the Kerberos probe. A decoder that
  raises \<^verbatim>\<open>IndexError\<close> or \<^verbatim>\<open>ValueError\<close> is \<^const>\<open>None\<close>. The digit loop of
  \<^verbatim>\<open>_der_int\<close> shifts right until zero, which a negative number never reaches: it is a partial
  function, and \<^const>\<open>None\<close> there means that it does not return.
\<close>

section \<open>Constants\<close>

definition KRB_PVNO :: int where "KRB_PVNO = 5"

definition MSG_TYPE_AS_REQ :: int where "MSG_TYPE_AS_REQ = 10"

definition MSG_TYPE_AS_REP :: int where "MSG_TYPE_AS_REP = 11"

definition MSG_TYPE_KRB_ERROR :: int where "MSG_TYPE_KRB_ERROR = 30"

definition TAG_INTEGER :: byte where "TAG_INTEGER = 0x02"

definition TAG_BIT_STRING :: byte where "TAG_BIT_STRING = 0x03"

definition TAG_SEQUENCE :: byte where "TAG_SEQUENCE = 0x30"

definition TAG_GENERAL_STRING :: byte where "TAG_GENERAL_STRING = 0x1B"

definition TAG_GENERALIZED_TIME :: byte where "TAG_GENERALIZED_TIME = 0x18"

definition TAG_APP_AS_REQ :: byte where "TAG_APP_AS_REQ = 0x6A"

definition TAG_APP_AS_REP :: byte where "TAG_APP_AS_REP = 0x6B"

definition TAG_APP_KRB_ERROR :: byte where "TAG_APP_KRB_ERROR = 0x7E"

definition PA_ETYPE_INFO :: int where "PA_ETYPE_INFO = 11"

definition PA_ETYPE_INFO2 :: int where "PA_ETYPE_INFO2 = 19"

definition NT_PRINCIPAL :: int where "NT_PRINCIPAL = 1"

definition NT_SRV_INST :: int where "NT_SRV_INST = 2"

definition DEFAULT_TILL :: string where "DEFAULT_TILL = ''20370913024805Z''"

definition DEFAULT_NONCE :: int where "DEFAULT_NONCE = 0x51455343"

section \<open>Encoders\<close>

fun len_digits :: "nat \<Rightarrow> byte list \<Rightarrow> byte list" where
  "len_digits n body = (if n = 0 then body else len_digits (n div 256) (byte_of (n mod 256) # body))"

declare len_digits.simps [simp del]

definition der_len :: "nat \<Rightarrow> byte list" where
  "der_len n = (if n < 128 then [byte_of n]
     else (let body = len_digits n [] in byte_of (128 + length body) # body))"

definition tlv :: "byte \<Rightarrow> byte list \<Rightarrow> byte list" where
  "tlv tag value = tag # der_len (length value) @ value"

partial_function (option) int_digits :: "int \<Rightarrow> byte list \<Rightarrow> byte list option" where
  "int_digits v body = (if v = 0 then Some body else int_digits (v div 256) (byte_of (nat (v mod 256)) # body))"

definition der_int :: "int \<Rightarrow> byte list option" where
  "der_int n =
     (if n = 0 then Some (tlv TAG_INTEGER [0])
      else do {
        body \<leftarrow> int_digits n [];
        Some (tlv TAG_INTEGER (if unat (hd body) \<ge> 128 then 0 # body else body)) })"

definition ascii :: "string \<Rightarrow> byte list" where
  "ascii s = map (\<lambda>c. byte_of (char_code c)) s"

definition der_gstr :: "string \<Rightarrow> byte list" where
  "der_gstr s = tlv TAG_GENERAL_STRING (ascii s)"

definition seq :: "byte list list \<Rightarrow> byte list" where
  "seq items = tlv TAG_SEQUENCE (concat items)"

definition ctx :: "nat \<Rightarrow> byte list \<Rightarrow> byte list" where
  "ctx n value = tlv (byte_of (160 + n)) value"

definition kdc_options :: "byte list" where
  "kdc_options = tlv TAG_BIT_STRING (0 # zeros 4)"

definition principal_name :: "int \<Rightarrow> string list \<Rightarrow> byte list option" where
  "principal_name name_type components = do {
     t \<leftarrow> der_int name_type;
     Some (seq [ctx 0 t, ctx 1 (seq (map der_gstr components))]) }"

fun der_ints :: "int list \<Rightarrow> byte list list option" where
  "der_ints [] = Some []"
| "der_ints (n # ns) = do { x \<leftarrow> der_int n; xs \<leftarrow> der_ints ns; Some (x # xs) }"

definition req_body :: "string \<Rightarrow> string \<Rightarrow> int list \<Rightarrow> byte list option" where
  "req_body realm princ etypes = do {
     cname \<leftarrow> principal_name NT_PRINCIPAL [princ];
     sname \<leftarrow> principal_name NT_SRV_INST [''krbtgt'', realm];
     nonce \<leftarrow> der_int DEFAULT_NONCE;
     es \<leftarrow> der_ints etypes;
     Some (seq [ctx 0 kdc_options, ctx 1 cname, ctx 2 (der_gstr realm), ctx 3 sname,
       ctx 5 (tlv TAG_GENERALIZED_TIME (ascii DEFAULT_TILL)), ctx 7 nonce, ctx 8 (seq es)]) }"

definition build_as_req :: "string \<Rightarrow> string \<Rightarrow> int list \<Rightarrow> byte list option" where
  "build_as_req realm princ etypes = do {
     body \<leftarrow> req_body realm princ etypes;
     pvno \<leftarrow> der_int KRB_PVNO;
     mt \<leftarrow> der_int MSG_TYPE_AS_REQ;
     Some (tlv TAG_APP_AS_REQ (seq [ctx 1 pvno, ctx 2 mt, ctx 4 body])) }"

section \<open>Decoders\<close>

definition read_tlv :: "byte list \<Rightarrow> nat \<Rightarrow> (byte \<times> byte list \<times> nat) option" where
  "read_tlv data off =
     (if off + 1 \<ge> length data then None
      else
        (let tag = data ! off; first = unat (data ! (off + 1)); o2 = off + 2;
             num = (if first \<ge> 128 then first - 128 else 0);
             len = (if first \<ge> 128 then be_nat (slice o2 (o2 + num) data) else first);
             o3 = o2 + num; value = slice o3 (o3 + len) data
         in if length value \<noteq> len then None else Some (tag, value, o3 + len)))"

lemma read_tlv_advances: "read_tlv data off = Some (tag, value, off') \<Longrightarrow> off + 2 \<le> off'"
  by (auto simp: read_tlv_def Let_def split: if_splits)

lemma read_tlv_bound: "read_tlv data off = Some (tag, value, off') \<Longrightarrow> off + 1 < length data"
  by (auto simp: read_tlv_def Let_def split: if_splits)

function context_loop :: "byte list \<Rightarrow> nat \<Rightarrow> (nat \<times> byte list) list \<Rightarrow> (nat \<times> byte list) list option" where
  "context_loop body off flds =
     (if off < length body then
        (case read_tlv body off of
           None \<Rightarrow> None
         | Some (tag, value, off') \<Rightarrow>
             context_loop body off'
               (if 160 \<le> unat tag \<and> unat tag \<le> 191 then AList.update (unat tag mod 32) value flds else flds))
      else Some flds)"
  by pat_completeness auto
termination
  by (relation "measure (\<lambda>(body, off, flds). length body - off)") (auto dest: read_tlv_advances)

declare context_loop.simps [simp del]

definition context_fields :: "byte list \<Rightarrow> (nat \<times> byte list) list option" where
  "context_fields seq_body = context_loop seq_body 0 []"

text \<open>\<^verbatim>\<open>int.from_bytes(b, "big", signed=True)\<close>: two's complement of the given length.\<close>

definition signed_be :: "byte list \<Rightarrow> int" where
  "signed_be bs = (if bs \<noteq> [] \<and> unat (hd bs) \<ge> 128 then int (be_nat bs) - 256 ^ length bs else int (be_nat bs))"

definition decode_int :: "byte list \<Rightarrow> int option" where
  "decode_int tlv_bytes = (case read_tlv tlv_bytes 0 of None \<Rightarrow> None | Some (_, value, _) \<Rightarrow> Some (signed_be value))"

function info_loop :: "byte list \<Rightarrow> nat \<Rightarrow> int list \<Rightarrow> int list option" where
  "info_loop body off out =
     (if off < length body then
        (case read_tlv body off of
           None \<Rightarrow> None
         | Some (_, entry, off') \<Rightarrow>
             (case context_fields entry of
                None \<Rightarrow> None
              | Some ef \<Rightarrow>
                  (case map_of ef 0 of
                     None \<Rightarrow> info_loop body off' out
                   | Some x \<Rightarrow> (case decode_int x of None \<Rightarrow> None | Some i \<Rightarrow> info_loop body off' (out @ [i])))))
      else Some out)"
  by pat_completeness auto
termination
  by (relation "measure (\<lambda>(body, off, out). length body - off)") (auto dest: read_tlv_advances)

declare info_loop.simps [simp del]

definition etypes_from_info :: "byte list \<Rightarrow> int list option" where
  "etypes_from_info info_der = (case read_tlv info_der 0 of None \<Rightarrow> None | Some (_, body, _) \<Rightarrow> info_loop body 0 [])"

text \<open>The etypes of one PA-DATA entry; none unless it is an ETYPE-INFO(2).\<close>

definition padata_etypes :: "(nat \<times> byte list) list \<Rightarrow> int list option" where
  "padata_etypes pf =
     (case (map_of pf 1, map_of pf 2) of
        (Some t, Some v) \<Rightarrow>
          (case decode_int t of
             None \<Rightarrow> None
           | Some pt \<Rightarrow>
               if pt \<in> {PA_ETYPE_INFO, PA_ETYPE_INFO2} then
                 (case read_tlv v 0 of None \<Rightarrow> None | Some (_, pval, _) \<Rightarrow> etypes_from_info pval)
               else Some [])
      | _ \<Rightarrow> Some [])"

function method_loop :: "byte list \<Rightarrow> nat \<Rightarrow> int list \<Rightarrow> int list option" where
  "method_loop body off out =
     (if off < length body then
        (case read_tlv body off of
           None \<Rightarrow> None
         | Some (_, pa, off') \<Rightarrow>
             (case context_fields pa of
                None \<Rightarrow> None
              | Some pf \<Rightarrow> (case padata_etypes pf of None \<Rightarrow> None | Some es \<Rightarrow> method_loop body off' (out @ es))))
      else Some out)"
  by pat_completeness auto
termination
  by (relation "measure (\<lambda>(body, off, out). length body - off)") (auto dest: read_tlv_advances)

declare method_loop.simps [simp del]

definition etypes_from_methoddata :: "byte list \<Rightarrow> int list option" where
  "etypes_from_methoddata md = (case read_tlv md 0 of None \<Rightarrow> None | Some (_, body, _) \<Rightarrow> method_loop body 0 [])"

record kdc_reply =
  msg_type :: "int option"
  etypes :: "int list"
  error_code :: "int option"

definition no_reply :: kdc_reply where
  "no_reply = \<lparr>msg_type = None, etypes = [], error_code = None\<rparr>"

text \<open>Each assignment that succeeded before a raise stays in the result.\<close>

definition parse_krb_error :: "(nat \<times> byte list) list \<Rightarrow> kdc_reply" where
  "parse_krb_error flds =
     (let r = no_reply\<lparr>msg_type := Some MSG_TYPE_KRB_ERROR\<rparr> in
      case (case map_of flds 6 of None \<Rightarrow> Some None | Some x \<Rightarrow> map_option Some (decode_int x)) of
        None \<Rightarrow> r
      | Some ec \<Rightarrow>
          (let r1 = r\<lparr>error_code := ec\<rparr> in
           case map_of flds 12 of
             None \<Rightarrow> r1
           | Some x \<Rightarrow>
               (case read_tlv x 0 of
                  None \<Rightarrow> r1
                | Some (_, edata, _) \<Rightarrow>
                    (case etypes_from_methoddata edata of None \<Rightarrow> r1 | Some es \<Rightarrow> r1\<lparr>etypes := dedupe es\<rparr>))))"

definition parse_as_rep :: "(nat \<times> byte list) list \<Rightarrow> kdc_reply" where
  "parse_as_rep flds =
     (let r = no_reply\<lparr>msg_type := Some MSG_TYPE_AS_REP\<rparr> in
      case (case map_of flds 2 of None \<Rightarrow> Some [] | Some x \<Rightarrow> etypes_from_methoddata x) of
        None \<Rightarrow> r
      | Some es \<Rightarrow>
          (case (case map_of flds 6 of
                   None \<Rightarrow> Some []
                 | Some x \<Rightarrow>
                     (case read_tlv x 0 of
                        None \<Rightarrow> None
                      | Some (_, enc, _) \<Rightarrow>
                          (case context_fields enc of
                             None \<Rightarrow> None
                           | Some ef \<Rightarrow> (case map_of ef 0 of None \<Rightarrow> Some [] | Some y \<Rightarrow> map_option (\<lambda>i. [i]) (decode_int y)))))
           of None \<Rightarrow> r | Some e \<Rightarrow> r\<lparr>etypes := dedupe (es @ e)\<rparr>))"

definition parse_kdc_reply :: "byte list \<Rightarrow> kdc_reply" where
  "parse_kdc_reply data =
     (case read_tlv data 0 of
        None \<Rightarrow> no_reply
      | Some (tag, body, _) \<Rightarrow>
          (case read_tlv body 0 of
             None \<Rightarrow> no_reply
           | Some (_, seq_body, _) \<Rightarrow>
               (case context_fields seq_body of
                  None \<Rightarrow> no_reply
                | Some flds \<Rightarrow>
                    if tag = TAG_APP_KRB_ERROR then parse_krb_error flds
                    else if tag = TAG_APP_AS_REP then parse_as_rep flds
                    else no_reply)))"

section \<open>Lengths and tags\<close>

lemma len_digits_append: "len_digits n body = len_digits n [] @ body"
proof (induction n arbitrary: body rule: less_induct)
  case (less n)
  show ?case
  proof (cases "n = 0")
    case False
    then have "n div 256 < n" by simp
    from less [OF this, of "byte_of (n mod 256) # body"] less [OF this, of "[byte_of (n mod 256)]"] False show ?thesis
      by (subst (1 2) len_digits.simps) simp
  qed (simp add: len_digits.simps)
qed

lemma len_digits_step: "n \<noteq> 0 \<Longrightarrow> len_digits n [] = len_digits (n div 256) [] @ [byte_of (n mod 256)]"
  by (subst len_digits.simps) (simp add: len_digits_append [of _ "[_]"])

lemma be_nat_len_digits: "be_nat (len_digits n []) = n"
proof (induction n rule: less_induct)
  case (less n)
  show ?case
  proof (cases "n = 0")
    case False
    with less [of "n div 256"] show ?thesis by (simp add: len_digits_step unat_byte_of)
  qed (simp add: len_digits.simps)
qed

lemma length_len_digits: "n < 256 ^ k \<Longrightarrow> length (len_digits n []) \<le> k"
proof (induction k arbitrary: n)
  case (Suc k)
  show ?case
  proof (cases "n = 0")
    case False
    have "n div 256 < 256 ^ k" using Suc.prems by (simp add: less_mult_imp_div_less mult.commute)
    with Suc.IH False show ?thesis by (simp add: len_digits_step)
  qed (simp add: len_digits.simps)
qed (simp add: len_digits.simps)

text \<open>A value whose length a definite-length DER header can carry.\<close>

definition small :: "byte list \<Rightarrow> bool" where
  "small v \<longleftrightarrow> length v < 256 ^ 127"

lemma nth_slice_pre: "length pre = i \<Longrightarrow> (pre @ xs) ! (i + k) = xs ! k"
  by (simp add: nth_append)

lemma read_tlv_tlv:
  assumes "small v"
  shows "read_tlv (pre @ tlv tag v @ post) (length pre) = Some (tag, v, length pre + length (tlv tag v))"
proof (cases "length v < 128")
  case True
  then show ?thesis
    by (simp add: read_tlv_def tlv_def der_len_def Let_def nth_append unat_byte_of slice_def)
next
  case False
  let ?b = "len_digits (length v) []"
  have k: "length ?b \<le> 127" using assms unfolding small_def by (rule length_len_digits)
  then have u: "unat (byte_of (128 + length ?b)) = 128 + length ?b" by (intro unat_byte_of) simp
  have "slice (length pre + 2) (length pre + 2 + length ?b) (pre @ tlv tag v @ post) = ?b"
    using False by (simp add: tlv_def der_len_def Let_def slice_def)
  moreover have "slice (length pre + 2 + length ?b) (length pre + 2 + length ?b + length v) (pre @ tlv tag v @ post) = v"
    using False by (simp add: tlv_def der_len_def Let_def slice_def)
  moreover have "(pre @ tlv tag v @ post) ! length pre = tag"
    "unat ((pre @ tlv tag v @ post) ! (length pre + 1)) = 128 + length ?b"
    using False u by (simp_all add: tlv_def der_len_def Let_def nth_append)
  moreover have "length (tlv tag v) = 2 + length ?b + length v"
    using False by (simp add: tlv_def der_len_def Let_def)
  ultimately show ?thesis
    by (simp add: read_tlv_def Let_def be_nat_len_digits)
qed

lemmas read_tlv_head = read_tlv_tlv [of _ "[]" _ "[]", simplified]

section \<open>Integers\<close>

lemma int_digits_nat: "int_digits (int n) body = Some (len_digits n body)"
proof (induction n arbitrary: body rule: less_induct)
  case (less n)
  show ?case
  proof (cases "n = 0")
    case False
    have e: "int n div 256 = int (n div 256)" "nat (int n mod 256) = n mod 256"
      by (simp_all add: zdiv_int nat_mod_distrib)
    have "int_digits (int n) body = int_digits (int n div 256) (byte_of (nat (int n mod 256)) # body)"
      using False by (subst int_digits.simps) simp
    also have "\<dots> = int_digits (int (n div 256)) (byte_of (n mod 256) # body)" by (simp only: e)
    also have "\<dots> = Some (len_digits (n div 256) (byte_of (n mod 256) # body))" using False by (intro less) simp
    also have "\<dots> = Some (len_digits n body)" using False by (subst (2) len_digits.simps) simp
    finally show ?thesis .
  qed (simp add: int_digits.simps len_digits.simps)
qed

lemma int_digits_nonneg: "int_digits v body = Some bs \<Longrightarrow> 0 \<le> v"
  by (erule int_digits.raw_induct [rotated, where P = "\<lambda>v _ _. 0 \<le> v"])
     (metis order_refl pos_imp_zdiv_nonneg_iff zero_less_numeral)

lemma len_digits_not_Nil: "n \<noteq> 0 \<Longrightarrow> len_digits n [] \<noteq> []"
  by (simp add: len_digits_step)

text \<open>The minimal two's-complement body of a positive number.\<close>

definition int_body :: "nat \<Rightarrow> byte list" where
  "int_body n = (if n = 0 then [0]
     else (let b = len_digits n [] in if unat (hd b) \<ge> 128 then 0 # b else b))"

lemma der_int_nat: "der_int (int n) = Some (tlv TAG_INTEGER (int_body n))"
  by (simp add: der_int_def int_digits_nat int_body_def Let_def)

lemma der_int_code [code]: "der_int n = (if n < 0 then None else Some (tlv TAG_INTEGER (int_body (nat n))))"
proof (cases "n < 0")
  case True
  then have "int_digits n [] = None" using int_digits_nonneg by (metis not_Some_eq not_less)
  with True show ?thesis by (simp add: der_int_def)
qed (use der_int_nat [of "nat n"] in simp)

lemma signed_be_int_body: "signed_be (int_body n) = int n"
  using be_nat_len_digits [of n] by (auto simp: int_body_def signed_be_def Let_def be_nat_Cons)

lemma length_int_body: "n < 256 ^ k \<Longrightarrow> length (int_body n) \<le> Suc k"
  using length_len_digits [of n k] by (auto simp: int_body_def Let_def)

lemma small_int_body: "n < 256 ^ 1000 \<Longrightarrow> small (int_body n)"
proof -
  assume "n < 256 ^ 1000"
  then have "length (int_body n) \<le> 1001" using length_int_body [of n 1000] by simp
  also have "\<dots> < 256 ^ 127" by simp
  finally show ?thesis by (simp add: small_def)
qed

lemma decode_int_body: "n < 256 ^ 1000 \<Longrightarrow> decode_int (tlv TAG_INTEGER (int_body n)) = Some (int n)"
  by (simp only: decode_int_def read_tlv_head small_int_body signed_be_int_body option.case prod.case)

text \<open>The integer encoder returns exactly for the numbers it can encode, and then the decoder
  reads the number back: \<^verbatim>\<open>_der_int\<close> loops forever on a negative number, and for every other
  number (up to \<open>256 ^ 1000\<close>) \<^verbatim>\<open>_decode_int\<close> recovers it, the sign-guard byte included.\<close>

theorem der_int_roundtrip:
  "(der_int n \<noteq> None \<longleftrightarrow> 0 \<le> n) \<and>
   (der_int n = Some bs \<and> n < 256 ^ 1000 \<longrightarrow> decode_int bs = Some n)"
proof -
  have pos: "0 \<le> n" if "der_int n = Some bs" for bs
    using that int_digits_nonneg by (auto simp: der_int_def bind_eq_Some_conv split: if_splits)
  have "decode_int bs = Some n" if d: "der_int n = Some bs" "n < 256 ^ 1000"
  proof -
    obtain k where k: "n = int k" using pos [OF d(1)] by (rule nonneg_int_cases)
    have "k < 256 ^ 1000" using d(2) unfolding k by (metis of_nat_less_iff of_nat_numeral of_nat_power)
    then have "decode_int (tlv TAG_INTEGER (int_body k)) = Some (int k)" by (rule decode_int_body)
    with d(1) show ?thesis by (simp add: k der_int_nat)
  qed
  moreover have "der_int n \<noteq> None" if "0 \<le> n" using that der_int_nat by (metis nonneg_int_cases option.distinct(1))
  ultimately show ?thesis using pos by blast
qed

theorem der_int_roundtrip_witness:
  "\<exists>bs. der_int 0x51455343 = Some bs \<and> decode_int bs = Some 0x51455343"
proof -
  obtain bs where "der_int 0x51455343 = Some bs"
    using der_int_roundtrip [of "0x51455343" "[]"] by auto
  with der_int_roundtrip [of "0x51455343" bs] show ?thesis by simp
qed

section \<open>Sequences of fields\<close>

lemma context_loop_fields:
  assumes "\<forall>(n, v) \<in> set items. n < 32 \<and> small v"
  shows "context_loop (pre @ concat (map (\<lambda>(n, v). ctx n v) items)) (length pre) flds =
    Some (foldl (\<lambda>m (n, v). AList.update n v m) flds items)"
  using assms
proof (induction items arbitrary: pre flds)
  case (Cons x items)
  obtain n v where x: "x = (n, v)" by force
  have n: "n < 32" "small v" using Cons.prems x by auto
  let ?rest = "concat (map (\<lambda>(n, v). ctx n v) items)"
  let ?data = "pre @ concat (map (\<lambda>(n, v). ctx n v) (x # items))"
  have u: "unat (byte_of (160 + n)) = 160 + n" using n(1) by (intro unat_byte_of) simp
  have r: "read_tlv ?data (length pre) = Some (byte_of (160 + n), v, length pre + length (ctx n v))"
    using read_tlv_tlv [OF n(2), of pre "byte_of (160 + n)" ?rest] by (simp add: x ctx_def)
  have "context_loop (pre @ ctx n v @ ?rest) (length (pre @ ctx n v)) (AList.update n v flds) =
      Some (foldl (\<lambda>m (n, v). AList.update n v m) (AList.update n v flds) items)"
    using Cons.IH [of "pre @ ctx n v" "AList.update n v flds"] Cons.prems x by simp
  moreover have "length pre < length ?data" by (simp add: x ctx_def tlv_def)
  moreover have "(160 + n) mod 32 = n"
  proof -
    have "(160 + n) mod 32 = (n + 32 * 5) mod 32" by (simp only: add.commute mult.commute, simp)
    also have "\<dots> = n" using n(1) by (simp only: mod_mult_self2 mod_less)
    finally show ?thesis .
  qed
  ultimately show ?case
    using r u n(1) by (subst context_loop.simps) (simp add: x)
qed (simp add: context_loop.simps)

lemma context_fields_ctx:
  "\<forall>(n, v) \<in> set items. n < 32 \<and> small v \<Longrightarrow>
   context_fields (concat (map (\<lambda>(n, v). ctx n v) items)) = Some (foldl (\<lambda>m (n, v). AList.update n v m) [] items)"
  using context_loop_fields [of items "[]" "[]"] by (simp add: context_fields_def)

lemma small_mono: "length v \<le> length w \<Longrightarrow> small w \<Longrightarrow> small v"
  by (simp add: small_def)

lemma length_tlv: "length v < length (tlv t v)"
  by (simp add: tlv_def)

lemma small_tlvD: "small (tlv t v) \<Longrightarrow> small v"
  by (rule small_mono [OF less_imp_le [OF length_tlv]])

lemma small_ctxD: "small (ctx n v) \<Longrightarrow> small v"
  unfolding ctx_def by (rule small_tlvD)

lemma small_concatD: "small (concat xs) \<Longrightarrow> x \<in> set xs \<Longrightarrow> small x"
  by (rule small_mono [of x "concat xs"]) (auto simp: in_set_conv_decomp)

lemma small_seqD: "small (seq xs) \<Longrightarrow> x \<in> set xs \<Longrightarrow> small x"
  unfolding seq_def using small_tlvD small_concatD by blast

text \<open>A sequence of integers, as the KDC reads the offered etypes.\<close>

fun read_ints :: "nat \<Rightarrow> byte list \<Rightarrow> int list option" where
  "read_ints 0 body = Some []"
| "read_ints (Suc k) body = do {
     (tag, value, n) \<leftarrow> read_tlv body 0;
     rest \<leftarrow> read_ints k (drop n body);
     Some (signed_be value # rest) }"

lemma read_ints_der:
  "\<forall>n \<in> set ns. n < 256 ^ 1000 \<Longrightarrow>
   read_ints (length ns) (concat (map (\<lambda>n. tlv TAG_INTEGER (int_body n)) ns)) = Some (map int ns)"
proof (induction ns)
  case (Cons n ns)
  have "read_tlv (tlv TAG_INTEGER (int_body n) @ concat (map (\<lambda>n. tlv TAG_INTEGER (int_body n)) ns)) 0 =
      Some (TAG_INTEGER, int_body n, length (tlv TAG_INTEGER (int_body n)))"
    using read_tlv_tlv [OF small_int_body, of n "[]"] Cons.prems by simp
  with Cons show ?case by (simp add: signed_be_int_body)
qed simp

lemma der_ints_nat: "der_ints (map int ns) = Some (map (\<lambda>n. tlv TAG_INTEGER (int_body n)) ns)"
  by (induction ns) (simp_all add: der_int_nat)

text \<open>The etypes a KDC finds in a request: [4] of the KDC-REQ, then [8] of its body.\<close>

definition requested_etypes :: "nat \<Rightarrow> byte list \<Rightarrow> int list option" where
  "requested_etypes k msg = do {
     (tag, kdc_req, _) \<leftarrow> read_tlv msg 0;
     (_, sb, _) \<leftarrow> read_tlv kdc_req 0;
     fs \<leftarrow> context_fields sb;
     body \<leftarrow> map_of fs 4;
     (_, rb, _) \<leftarrow> read_tlv body 0;
     gs \<leftarrow> context_fields rb;
     es \<leftarrow> map_of gs 8;
     (_, eb, _) \<leftarrow> read_tlv es 0;
     if tag = TAG_APP_AS_REQ then read_ints k eb else None }"

lemma read_seq: "small (concat xs) \<Longrightarrow> read_tlv (seq xs) 0 = Some (TAG_SEQUENCE, concat xs, length (seq xs))"
  using read_tlv_head [of "concat xs"] by (simp add: seq_def)

lemma read_seq_ctx:
  assumes "\<forall>(n, v) \<in> set items. n < 32" and "small (concat (map (\<lambda>(n, v). ctx n v) items))"
  shows "context_fields (concat (map (\<lambda>(n, v). ctx n v) items)) = Some (foldl (\<lambda>m (n, v). AList.update n v m) [] items)"
proof (rule context_fields_ctx, safe)
  fix n v
  assume i: "(n, v) \<in> set items"
  then show "n < 32" using assms(1) by auto
  have "ctx n v \<in> set (map (\<lambda>(n, v). ctx n v) items)" using i by (force simp: image_iff)
  with assms(2) show "small v" using small_concatD small_ctxD by blast
qed

text \<open>The request the Kerberos probe builds is well-formed DER that offers exactly the given
  encryption types: for every realm, principal and list of non-negative etypes, decoding the
  message along the path RFC 4120 gives yields that list.\<close>

theorem build_as_req_offers:
  assumes "build_as_req realm princ (map int es) = Some msg" and "small msg" and "\<forall>n \<in> set es. n < 256 ^ 1000"
  shows "requested_etypes (length es) msg = Some (map int es)"
proof -
  obtain cname sname nonce body pvno mt where
    b: "body = seq [ctx 0 kdc_options, ctx 1 cname, ctx 2 (der_gstr realm), ctx 3 sname,
       ctx 5 (tlv TAG_GENERALIZED_TIME (ascii DEFAULT_TILL)), ctx 7 nonce,
       ctx 8 (seq (map (\<lambda>n. tlv TAG_INTEGER (int_body n)) es))]"
    and m: "msg = tlv TAG_APP_AS_REQ (seq [ctx 1 pvno, ctx 2 mt, ctx 4 body])"
    using assms(1) by (auto simp: build_as_req_def req_body_def der_ints_nat bind_eq_Some_conv)
  let ?ints = "concat (map (\<lambda>n. tlv TAG_INTEGER (int_body n)) es)"
  let ?I = "[(1, pvno), (2, mt), (4, body)]"
  let ?J = "[(0, kdc_options), (1, cname), (2, der_gstr realm), (3, sname),
    (5, tlv TAG_GENERALIZED_TIME (ascii DEFAULT_TILL)), (7, nonce), (8, seq (map (\<lambda>n. tlv TAG_INTEGER (int_body n)) es))]"
  have s1: "small (seq [ctx 1 pvno, ctx 2 mt, ctx 4 body])" using assms(2) unfolding m by (rule small_tlvD)
  then have sI: "small (concat (map (\<lambda>(n, v). ctx n v) ?I))" unfolding seq_def using small_tlvD by simp
  have sb: "small body" using small_seqD [OF s1, of "ctx 4 body"] small_ctxD by simp
  then have sJ: "small (concat (map (\<lambda>(n, v). ctx n v) ?J))" unfolding b seq_def using small_tlvD by simp
  have "small (ctx 8 (seq (map (\<lambda>n. tlv TAG_INTEGER (int_body n)) es)))"
    using sJ by (rule small_concatD) simp
  then have se: "small ?ints" unfolding seq_def using small_ctxD small_tlvD by blast
  have 1: "read_tlv msg 0 = Some (TAG_APP_AS_REQ, seq [ctx 1 pvno, ctx 2 mt, ctx 4 body], length msg)"
    unfolding m by (rule read_tlv_head [OF s1])
  have 2: "read_tlv (seq [ctx 1 pvno, ctx 2 mt, ctx 4 body]) 0 =
      Some (TAG_SEQUENCE, concat (map (\<lambda>(n, v). ctx n v) ?I), length (seq [ctx 1 pvno, ctx 2 mt, ctx 4 body]))"
    using read_seq [of "[ctx 1 pvno, ctx 2 mt, ctx 4 body]"] sI by simp
  have 3: "read_tlv body 0 = Some (TAG_SEQUENCE, concat (map (\<lambda>(n, v). ctx n v) ?J), length body)"
    unfolding b using sJ by (subst read_seq) simp_all
  have 4: "read_tlv (seq (map (\<lambda>n. tlv TAG_INTEGER (int_body n)) es)) 0 =
      Some (TAG_SEQUENCE, ?ints, length (seq (map (\<lambda>n. tlv TAG_INTEGER (int_body n)) es)))"
    by (rule read_seq [OF se])
  have 5: "context_fields (concat (map (\<lambda>(n, v). ctx n v) ?I)) = Some (foldl (\<lambda>m (n, v). AList.update n v m) [] ?I)"
    "context_fields (concat (map (\<lambda>(n, v). ctx n v) ?J)) = Some (foldl (\<lambda>m (n, v). AList.update n v m) [] ?J)"
    by (rule read_seq_ctx; use sI sJ in simp)+
  have 6: "map_of (foldl (\<lambda>m (n, v). AList.update n v m) [] ?I) 4 = Some body"
    "map_of (foldl (\<lambda>m (n, v). AList.update n v m) [] ?J) 8 = Some (seq (map (\<lambda>n. tlv TAG_INTEGER (int_body n)) es))"
    by (simp_all add: update_conv')
  show ?thesis
    unfolding requested_etypes_def 1
    by (simp only: option.case prod.case Option.bind.bind_lunit 2 3 4 5 6 simp_thms if_True read_ints_der [OF assms(3)])
qed

lemma length_tlv_short: "length v < 128 \<Longrightarrow> length (tlv t v) = length v + 2"
  by (simp add: tlv_def der_len_def)

lemma length_tlv_long: "128 \<le> length v \<Longrightarrow> length v < 256 \<Longrightarrow> length (tlv t v) = length v + 3"
  by (cases v) (simp_all add: tlv_def der_len_def Let_def len_digits.simps)

lemma length_int_body_short: "n < 128 \<Longrightarrow> length (int_body n) = 1"
  by (simp add: int_body_def Let_def len_digits.simps unat_byte_of)

lemma small_bound: "length v < 1000 \<Longrightarrow> small v"
proof -
  assume "length v < 1000"
  also have "(1000 :: nat) < 256 ^ 127" by simp
  finally show ?thesis by (simp only: small_def)
qed

lemma length_nonce: "length (int_body 0x51455343) = 4"
  by (simp add: int_body_def Let_def len_digits.simps unat_byte_of)

theorem build_as_req_offers_witness:
  "\<exists>msg. build_as_req ''AB'' ''u'' [18, 23] = Some msg \<and> requested_etypes 2 msg = Some [18, 23]"
proof -
  have "map_option (\<lambda>m. length m < 1000) (build_as_req ''AB'' ''u'' [18, 23]) = Some True"
    by (simp add: build_as_req_def req_body_def principal_name_def der_int_code KRB_PVNO_def MSG_TYPE_AS_REQ_def
      NT_PRINCIPAL_def NT_SRV_INST_def DEFAULT_NONCE_def DEFAULT_TILL_def seq_def ctx_def der_gstr_def ascii_def
      kdc_options_def zeros_def length_tlv_short length_tlv_long length_int_body_short length_nonce)
  then obtain msg where m: "build_as_req ''AB'' ''u'' [18, 23] = Some msg" "length msg < 1000" by auto
  then have "small msg" by (intro small_bound)
  then have "requested_etypes (length [18, 23 :: nat]) msg = Some (map int [18, 23])"
    using m(1) by (intro build_as_req_offers [of "''AB''" "''u''" "[18, 23]" msg]) simp_all
  with m(1) show ?thesis by (simp add: numeral_2_eq_2)
qed

end
