(* ===== verification/Pcap.thy ===== *)
theory Pcap
  imports Bytes
begin

unbundle bit_operations_syntax

text \<open>
  \<^verbatim>\<open>probes/_pcap.py\<close>, first half: iterating the packets of a pcap or pcapng file and decoding
  a link-layer frame down to its TCP or UDP segment. A generator is the list of what it yields.
  \<^verbatim>\<open>struct.error\<close> and \<^verbatim>\<open>IndexError\<close> are \<^const>\<open>None\<close>; the decoders below a
  \<^verbatim>\<open>try\<close> return an option of an option, the outer one for the exception.
\<close>

declare add_2_eq_Suc [simp del] add_2_eq_Suc' [simp del]

section \<open>Capture files\<close>

datatype endian = Big | Little

definition unpack_en :: "endian \<Rightarrow> nat \<Rightarrow> byte list \<Rightarrow> nat option" where
  "unpack_en en k bs = (case en of Big \<Rightarrow> unpack_be k bs | Little \<Rightarrow> unpack_be k (rev bs))"

definition PCAP_MAGIC_BE :: "byte list list" where
  "PCAP_MAGIC_BE = [[0xa1, 0xb2, 0xc3, 0xd4], [0xa1, 0xb2, 0x3c, 0x4d]]"

definition PCAP_MAGIC_LE :: "byte list list" where
  "PCAP_MAGIC_LE = [[0xd4, 0xc3, 0xb2, 0xa1], [0x4d, 0x3c, 0xb2, 0xa1]]"

definition PCAPNG_SHB :: "byte list" where
  "PCAPNG_SHB = [0x0a, 0x0d, 0x0d, 0x0a]"

type_synonym packet = "byte list \<times> nat"

function classic_loop :: "byte list \<Rightarrow> endian \<Rightarrow> nat \<Rightarrow> nat \<Rightarrow> packet list" where
  "classic_loop data en linktype pos =
     (if pos + 16 \<le> length data then
        (case unpack_en en 4 (slice (pos + 8) (pos + 12) data) of
           None \<Rightarrow> []
         | Some incl_len \<Rightarrow>
             if incl_len = 0 \<or> pos + 16 + incl_len > length data then []
             else (slice (pos + 16) (pos + 16 + incl_len) data, linktype)
                    # classic_loop data en linktype (pos + 16 + incl_len))
      else [])"
  by pat_completeness auto
termination
  by (relation "measure (\<lambda>(data, en, lt, pos). length data - pos)") auto

declare classic_loop.simps [simp del]

definition iter_classic :: "byte list \<Rightarrow> endian \<Rightarrow> packet list" where
  "iter_classic data en =
     (if length data < 24 then []
      else (case unpack_en en 4 (slice 20 24 data) of
              None \<Rightarrow> []
            | Some linktype \<Rightarrow> classic_loop data en linktype 24))"

text \<open>One block body; the interface table grows by side effect.\<close>

definition pcapng_block :: "nat \<Rightarrow> byte list \<Rightarrow> nat list \<Rightarrow> endian \<Rightarrow> (packet option \<times> nat list) option" where
  "pcapng_block block_type body iface_lts en =
     (if block_type = 1 then
        (if length body \<ge> 2 then do {
           lt \<leftarrow> unpack_en en 2 (slice 0 2 body);
           Some (None, iface_lts @ [lt]) }
         else Some (None, iface_lts))
      else if block_type = 6 then
        (if length body < 20 then Some (None, iface_lts)
         else do {
           iface_id \<leftarrow> unpack_en en 4 (slice 0 4 body);
           caplen \<leftarrow> unpack_en en 4 (slice 12 16 body);
           Some (Some (slice 20 (20 + caplen) body, if iface_id < length iface_lts then iface_lts ! iface_id else 1),
                 iface_lts) })
      else if block_type = 3 then
        (if length body < 4 then Some (None, iface_lts)
         else do {
           origlen \<leftarrow> unpack_en en 4 (slice 0 4 body);
           Some (Some (slice 4 (4 + origlen) body, case iface_lts of [] \<Rightarrow> 1 | lt # _ \<Rightarrow> lt), iface_lts) })
      else Some (None, iface_lts))"

text \<open>The body of the \<^verbatim>\<open>try\<close> of the block loop: the byte order, the interface table and the
  packet it leaves behind, and the block length. \<^const>\<open>None\<close> is a \<^verbatim>\<open>return\<close>. The end of the
  body slice is never negative: \<open>iter_packets\<close> has checked that the block at offset 0 is a
  section header, so any other block starts at 12 or later.\<close>

definition pcapng_step ::
  "byte list \<Rightarrow> endian \<Rightarrow> nat list \<Rightarrow> nat \<Rightarrow> (endian \<times> nat list \<times> packet option \<times> nat) option" where
  "pcapng_step data en iface_lts pos =
     (if slice pos (pos + 4) data = PCAPNG_SHB then do {
        en' \<leftarrow> (if slice (pos + 8) (pos + 12) data = [0x1a, 0x2b, 0x3c, 0x4d] then Some Big
                else if slice (pos + 8) (pos + 12) data = [0x4d, 0x3c, 0x2b, 0x1a] then Some Little
                else None);
        total_len \<leftarrow> unpack_en en' 4 (slice (pos + 4) (pos + 8) data);
        Some (en', [], None, total_len) }
      else do {
        total_len \<leftarrow> unpack_en en 4 (slice (pos + 4) (pos + 8) data);
        block_type \<leftarrow> unpack_en en 4 (slice pos (pos + 4) data);
        if pos + total_len \<le> length data then do {
          (pkt, lts) \<leftarrow> pcapng_block block_type (slice (pos + 8) (pos + total_len - 4) data) iface_lts en;
          Some (en, lts, pkt, total_len) }
        else Some (en, iface_lts, None, total_len) })"

definition yield_opt :: "packet option \<Rightarrow> packet list" where
  "yield_opt p = (case p of None \<Rightarrow> [] | Some x \<Rightarrow> [x])"

function pcapng_loop :: "byte list \<Rightarrow> endian \<Rightarrow> nat list \<Rightarrow> nat \<Rightarrow> packet list" where
  "pcapng_loop data en iface_lts pos =
     (if pos + 12 \<le> length data then
        (case pcapng_step data en iface_lts pos of
           None \<Rightarrow> []
         | Some (en', lts, pkt, total_len) \<Rightarrow>
             yield_opt pkt @
             (if total_len < 12 \<or> pos + total_len > length data then []
              else pcapng_loop data en' lts (pos + total_len)))
      else [])"
  by pat_completeness auto
termination
  by (relation "measure (\<lambda>(data, en, lts, pos). length data - pos)") auto

declare pcapng_loop.simps [simp del]

definition iter_pcapng :: "byte list \<Rightarrow> packet list" where
  "iter_pcapng data = pcapng_loop data Little [] 0"

definition iter_packets :: "byte list \<Rightarrow> packet list" where
  "iter_packets data =
     (if length data < 4 then []
      else if take 4 data \<in> set PCAP_MAGIC_BE then iter_classic data Big
      else if take 4 data \<in> set PCAP_MAGIC_LE then iter_classic data Little
      else if take 4 data = PCAPNG_SHB then iter_pcapng data
      else [])"

section \<open>Addresses\<close>

fun show_hex :: "nat \<Rightarrow> string" where
  "show_hex n = (let d = n mod 16; c = (if d < 10 then digit_char d else char_of (87 + d))
     in if n < 16 then [c] else show_hex (n div 16) @ [c])"

declare show_hex.simps [simp del]

definition inet_ntop4 :: "byte list \<Rightarrow> string" where
  "inet_ntop4 bs = join_with ''.'' (map (\<lambda>b. show_nat (unat b)) bs)"

fun u16s :: "byte list \<Rightarrow> nat list" where
  "u16s (a # b # bs) = be_nat [a, b] # u16s bs"
| "u16s _ = []"

text \<open>The C library's IPv6 text form: the first longest run of two or more zero words becomes
  \<^verbatim>\<open>::\<close>, and IPv4-compatible and IPv4-mapped addresses end in dotted form.\<close>

fun zero_runs :: "nat \<Rightarrow> nat \<Rightarrow> nat list \<Rightarrow> (nat \<times> nat) list" where
  "zero_runs i len [] = (if len > 0 then [(i - len, len)] else [])"
| "zero_runs i len (w # ws) =
     (if w = 0 then zero_runs (i + 1) (len + 1) ws
      else (if len > 0 then [(i - len, len)] else []) @ zero_runs (i + 1) 0 ws)"

definition best_run :: "nat list \<Rightarrow> (nat \<times> nat) option" where
  "best_run ws =
     foldl (\<lambda>b r. case b of None \<Rightarrow> if snd r \<ge> 2 then Some r else None
                          | Some r0 \<Rightarrow> if snd r > snd r0 then Some r else Some r0)
       None (zero_runs 0 0 ws)"

definition inet_ntop6 :: "byte list \<Rightarrow> string" where
  "inet_ntop6 bs =
     (let ws = u16s bs in
      case best_run ws of
        None \<Rightarrow> join_with '':'' (map show_hex ws)
      | Some (i, n) \<Rightarrow>
          (let dotted = (i = 0 \<and> (n = 6 \<or> n = 5 \<and> ws ! 5 = 65535));
               tail = (if dotted then map show_hex (slice (i + n) 6 ws) @ [inet_ntop4 (drop 12 bs)]
                       else map show_hex (drop (i + n) ws))
           in join_with '':'' (map show_hex (take i ws)) @ ''::'' @ join_with '':'' tail))"

section \<open>Frames\<close>

record segment =
  proto :: string
  src_ip :: string
  src_port :: nat
  dst_ip :: string
  dst_port :: nat
  payload :: "byte list"
  seq_no :: nat

definition seg_src :: "segment \<Rightarrow> string" where
  "seg_src s = src_ip s @ '':'' @ show_nat (src_port s)"

definition seg_dst :: "segment \<Rightarrow> string" where
  "seg_dst s = dst_ip s @ '':'' @ show_nat (dst_port s)"

definition at :: "byte list \<Rightarrow> nat \<Rightarrow> byte option" where
  "at bs i = (if i < length bs then Some (bs ! i) else None)"

definition u16_at :: "byte list \<Rightarrow> nat \<Rightarrow> nat option" where
  "u16_at bs i = unpack_be 2 (slice i (i + 2) bs)"

definition decode_l4 :: "nat \<Rightarrow> string \<Rightarrow> string \<Rightarrow> byte list \<Rightarrow> segment option option" where
  "decode_l4 p src dst pl =
     (if p = 6 then
        (if length pl < 20 then Some None
         else do {
           sport \<leftarrow> u16_at pl 0;
           dport \<leftarrow> u16_at pl 2;
           sq \<leftarrow> unpack_be 4 (slice 4 8 pl);
           b \<leftarrow> at pl 12;
           let data_off = unat (drop_bit 4 b) * 4;
           if data_off < 20 \<or> length pl < data_off then Some None
           else Some (Some \<lparr>proto = ''tcp'', src_ip = src, src_port = sport, dst_ip = dst, dst_port = dport,
                            payload = drop data_off pl, seq_no = sq\<rparr>) })
      else if p = 17 then
        (if length pl < 8 then Some None
         else do {
           sport \<leftarrow> u16_at pl 0;
           dport \<leftarrow> u16_at pl 2;
           Some (Some \<lparr>proto = ''udp'', src_ip = src, src_port = sport, dst_ip = dst, dst_port = dport,
                       payload = drop 8 pl, seq_no = 0\<rparr>) })
      else Some None)"

definition decode_ipv4 :: "byte list \<Rightarrow> segment option option" where
  "decode_ipv4 data =
     (if length data < 20 then Some None
      else do {
        b \<leftarrow> at data 0;
        let ihl = unat (b AND 0x0F) * 4;
        if ihl < 20 \<or> length data < ihl then Some None
        else do {
          p \<leftarrow> at data 9;
          total_len \<leftarrow> u16_at data 2;
          let src = inet_ntop4 (slice 12 16 data);
          let dst = inet_ntop4 (slice 16 20 data);
          let pl = (if ihl < total_len \<and> total_len \<le> length data then slice ihl total_len data else drop ihl data);
          decode_l4 (unat p) src dst pl } })"

definition decode_ipv6 :: "byte list \<Rightarrow> segment option option" where
  "decode_ipv6 data =
     (if length data < 40 then Some None
      else do {
        next_hdr \<leftarrow> at data 6;
        plen \<leftarrow> u16_at data 4;
        let src = inet_ntop6 (slice 8 24 data);
        let dst = inet_ntop6 (slice 24 40 data);
        let pl = (if plen \<noteq> 0 then slice 40 (40 + plen) data else drop 40 data);
        decode_l4 (unat next_hdr) src dst pl })"

definition decode_l3 :: "byte list \<Rightarrow> nat \<Rightarrow> segment option option" where
  "decode_l3 data eth_type =
     (if eth_type = 0x0800 then decode_ipv4 data
      else if eth_type = 0x86DD then decode_ipv6 data
      else Some None)"

function vlan_loop :: "byte list \<Rightarrow> nat \<Rightarrow> nat \<Rightarrow> segment option option" where
  "vlan_loop frame eth_type off =
     (if eth_type = 0x8100 \<or> eth_type = 0x88A8 then
        (if length frame < off + 4 then Some None
         else (case u16_at frame (off + 2) of None \<Rightarrow> None | Some t \<Rightarrow> vlan_loop frame t (off + 4)))
      else decode_l3 (drop off frame) eth_type)"
  by pat_completeness auto
termination
  by (relation "measure (\<lambda>(frame, t, off). length frame - off)") auto

declare vlan_loop.simps [simp del]

definition decode_ethernet :: "byte list \<Rightarrow> segment option option" where
  "decode_ethernet frame =
     (if length frame < 14 then Some None
      else do {
        eth_type \<leftarrow> u16_at frame 12;
        vlan_loop frame eth_type 14 })"

definition decode_body :: "byte list \<Rightarrow> nat \<Rightarrow> segment option option" where
  "decode_body frame linktype =
     (if linktype = 1 then decode_ethernet frame
      else if linktype = 113 then
        (if length frame < 16 then Some None
         else do {
           eth_type \<leftarrow> u16_at frame 14;
           decode_l3 (drop 16 frame) eth_type })
      else if linktype \<in> {101, 12, 14} then
        (if frame = [] then Some None
         else do {
           b \<leftarrow> at frame 0;
           let version = unat (drop_bit 4 b);
           if version = 4 then decode_ipv4 frame
           else if version = 6 then decode_ipv6 frame
           else Some None })
      else Some None)"

definition decode_packet :: "byte list \<Rightarrow> nat \<Rightarrow> segment option" where
  "decode_packet frame linktype = (case decode_body frame linktype of None \<Rightarrow> None | Some r \<Rightarrow> r)"

section \<open>Truncated captures\<close>

lemma unpack_en_length: "length bs = k \<Longrightarrow> \<exists>n. unpack_en en k bs = Some n"
  by (cases en) (simp_all add: unpack_en_def unpack_be_def)

lemma classic_loop_append: "prefix (classic_loop d en lt pos) (classic_loop (d @ e) en lt pos)"
proof (induction d en lt pos rule: classic_loop.induct)
  case (1 d en lt pos)
  show ?case
  proof (cases "pos + 16 \<le> length d")
    case True
    then obtain n where n: "unpack_en en 4 (slice (pos + 8) (pos + 12) d) = Some n"
      using unpack_en_length [of "slice (pos + 8) (pos + 12) d" 4] by (auto simp: length_slice)
    show ?thesis
    proof (cases "n = 0 \<or> pos + 16 + n > length d")
      case False
      have "prefix (classic_loop d en lt (pos + 16 + n)) (classic_loop (d @ e) en lt (pos + 16 + n))"
        using 1 [OF True n] False by simp
      with True False n show ?thesis
        by (simp add: classic_loop.simps [of d] classic_loop.simps [of "d @ e" _ _ pos])
    qed (use True n in \<open>simp add: classic_loop.simps [of d]\<close>)
  qed (simp add: classic_loop.simps [of d])
qed

lemma iter_classic_append: "prefix (iter_classic d en) (iter_classic (d @ e) en)"
  using classic_loop_append by (auto simp: iter_classic_def split: option.splits)

lemma unpack_slice: "j \<le> length d \<Longrightarrow> i + k = j \<Longrightarrow> \<exists>n. unpack_en en k (slice i j d) = Some n"
  by (rule unpack_en_length) (simp add: length_slice)

lemma pcapng_block_total: "\<exists>pkt lts'. pcapng_block t body lts en = Some (pkt, lts')"
proof -
  have "\<exists>n. unpack_en en 2 (slice 0 2 body) = Some n" if "length body \<ge> 2"
    using that by (intro unpack_slice) simp_all
  moreover have "\<exists>n. unpack_en en 4 (slice 0 4 body) = Some n" if "length body \<ge> 4"
    using that by (intro unpack_slice) simp_all
  moreover have "\<exists>n. unpack_en en 4 (slice 12 16 body) = Some n" if "length body \<ge> 20"
    using that by (intro unpack_slice) simp_all
  ultimately show ?thesis by (auto simp: pcapng_block_def)
qed

text \<open>A block that fits is read the same way however the file goes on; one that does not yields
  nothing and ends the iteration.\<close>

lemma pcapng_step_append:
  assumes "pos + 12 \<le> length d" and "pcapng_step d en lts pos = Some (en', lts', pkt, n)"
  shows "pos + n \<le> length d \<Longrightarrow> pcapng_step (d @ e) en lts pos = Some (en', lts', pkt, n)"
    and "length d < pos + n \<Longrightarrow> pkt = None"
  using assms by (auto simp: pcapng_step_def bind_eq_Some_conv split: if_splits)

lemma pcapng_loop_append: "prefix (pcapng_loop d en lts pos) (pcapng_loop (d @ e) en lts pos)"
proof (induction d en lts pos rule: pcapng_loop.induct)
  case (1 d en lts pos)
  show ?case
  proof (cases "pos + 12 \<le> length d \<and> pcapng_step d en lts pos \<noteq> None")
    case True
    then obtain en' lts' pkt n where st: "pos + 12 \<le> length d" "pcapng_step d en lts pos = Some (en', lts', pkt, n)"
      by auto
    note app = pcapng_step_append [OF st]
    show ?thesis
    proof (cases "n < 12 \<or> pos + n > length d")
      case True
      with st app show ?thesis
        by (cases "length d < pos + n")
           (auto simp: pcapng_loop.simps [of d] pcapng_loop.simps [of "d @ e"] yield_opt_def)
    next
      case False
      have "prefix (pcapng_loop d en' lts' (pos + n)) (pcapng_loop (d @ e) en' lts' (pos + n))"
        using 1 [OF st(1) st(2) refl refl refl] False by simp
      with st app(1) False show ?thesis
        by (simp add: pcapng_loop.simps [of d en] pcapng_loop.simps [of "d @ e" en])
    qed
  next
    case False
    then have "pcapng_loop d en lts pos = []" by (subst pcapng_loop.simps) (cases "pcapng_step d en lts pos"; simp)
    then show ?thesis by simp
  qed
qed

text \<open>Truncation never invents a packet: cutting a capture file at any byte, pcap or pcapng, of
  either byte order, leaves a prefix of the packets of the whole file.\<close>

theorem iter_packets_truncated: "prefix (iter_packets (take n data)) (iter_packets data)"
proof (cases "length (take n data) < 4")
  case False
  then have "take 4 (take n data) = take 4 data" by simp
  moreover have "data = take n data @ drop n data" by simp
  ultimately show ?thesis
    using iter_classic_append [of "take n data" _ "drop n data"] pcapng_loop_append [of "take n data" Little "[]" 0 "drop n data"]
      False
    by (auto simp: iter_packets_def iter_pcapng_def)
qed (simp add: iter_packets_def)

end
