(* ===== verification/Pcap_Laws.thy ===== *)
theory Pcap_Laws
  imports Pcap
begin

unbundle bit_operations_syntax

text \<open>
  What the capture reader of \<open>Pcap\<close> recovers: reference encoders for capture files and frames,
  and the theorems that the reader inverts them. The fields the reader ignores (timestamps,
  checksums, addresses of the link layer, options) are arbitrary bytes.
\<close>

section \<open>Capture files\<close>

definition pack_en :: "endian \<Rightarrow> nat \<Rightarrow> byte list option" where
  "pack_en en n = (case en of Big \<Rightarrow> pack_I n | Little \<Rightarrow> map_option rev (pack_I n))"

lemma unpack_pack_en: "pack_en en n = Some bs \<Longrightarrow> length bs = 4 \<and> unpack_en en 4 bs = Some n"
  by (cases en) (auto simp: pack_en_def unpack_en_def dest: u32.pack_SomeD u32.unpack_pack)

record pcap_record =
  stamp :: "byte list"
  orig_len :: "byte list"
  frame :: "byte list"

text \<open>A record is 8 bytes of time stamp, the captured length, 4 bytes of original length, the frame.\<close>

definition record_bytes :: "endian \<Rightarrow> pcap_record \<Rightarrow> byte list option" where
  "record_bytes en r = map_option (\<lambda>n. stamp r @ n @ orig_len r @ frame r) (pack_en en (length (frame r)))"

fun records_bytes :: "endian \<Rightarrow> pcap_record list \<Rightarrow> byte list option" where
  "records_bytes en [] = Some []"
| "records_bytes en (r # rs) = do { x \<leftarrow> record_bytes en r; xs \<leftarrow> records_bytes en rs; Some (x @ xs) }"

definition record_ok :: "pcap_record \<Rightarrow> bool" where
  "record_ok r \<longleftrightarrow> length (stamp r) = 8 \<and> length (orig_len r) = 4 \<and> frame r \<noteq> []"

definition pcap_file :: "endian \<Rightarrow> byte list \<Rightarrow> byte list \<Rightarrow> nat \<Rightarrow> pcap_record list \<Rightarrow> byte list option" where
  "pcap_file en magic hdr linktype rs = do {
     lt \<leftarrow> pack_en en linktype;
     body \<leftarrow> records_bytes en rs;
     Some (magic @ hdr @ lt @ body) }"

definition magics :: "endian \<Rightarrow> byte list list" where
  "magics en = (case en of Big \<Rightarrow> PCAP_MAGIC_BE | Little \<Rightarrow> PCAP_MAGIC_LE)"

lemma magics_disjoint: "list_all (\<lambda>m. m \<notin> set PCAP_MAGIC_BE) PCAP_MAGIC_LE"
  by code_simp

lemma slice_mid: "length pre = i \<Longrightarrow> i + length xs = j \<Longrightarrow> slice i j (pre @ xs @ post) = xs"
  by (auto simp: slice_def)

lemma at_mid: "length pre = i \<Longrightarrow> at (pre @ b # post) i = Some b"
  by (auto simp: at_def nth_append)

lemma classic_loop_records:
  assumes "list_all record_ok rs" and "records_bytes en rs = Some body"
  shows "classic_loop (pre @ body) en lt (length pre) = map (\<lambda>r. (frame r, lt)) rs"
  using assms
proof (induction rs arbitrary: pre body)
  case Nil
  then show ?case by (simp add: classic_loop.simps)
next
  case (Cons r rs)
  then obtain n rest where n: "pack_en en (length (frame r)) = Some n" and rest: "records_bytes en rs = Some rest"
    and body: "body = (stamp r @ n @ orig_len r @ frame r) @ rest"
    by (auto simp: record_bytes_def bind_eq_Some_conv)
  have ok: "length (stamp r) = 8" "length (orig_len r) = 4" "frame r \<noteq> []"
    using Cons.prems(1) by (simp_all add: record_ok_def)
  have n4: "length n = 4" "unpack_en en 4 n = Some (length (frame r))" using unpack_pack_en [OF n] by simp_all
  let ?d = "pre @ body" and ?pos = "length pre"
  have len: "slice (?pos + 8) (?pos + 12) ?d = n"
    using slice_mid [of "pre @ stamp r" "?pos + 8" n "?pos + 12" "orig_len r @ frame r @ rest"] ok n4 body by simp
  have fr: "slice (?pos + 16) (?pos + 16 + length (frame r)) ?d = frame r"
    using slice_mid [of "pre @ stamp r @ n @ orig_len r" "?pos + 16" "frame r" "?pos + 16 + length (frame r)" rest] ok n4 body
    by simp
  have "classic_loop ?d en lt (?pos + 16 + length (frame r)) = map (\<lambda>r. (frame r, lt)) rs"
    using Cons.IH [OF _ rest, of "pre @ stamp r @ n @ orig_len r @ frame r"] Cons.prems(1) ok n4 body by (simp add: add.assoc)
  moreover have "?pos + 16 + length (frame r) \<le> length ?d" using ok n4 body by simp
  ultimately show ?case
    using len fr ok n4 by (subst classic_loop.simps) (simp add: add.assoc)
qed

lemma iter_packets_frames:
  assumes "magic \<in> set (magics en)" and "length hdr = 16" and "list_all record_ok rs"
    and "pcap_file en magic hdr linktype rs = Some data"
  shows "iter_packets data = map (\<lambda>r. (frame r, linktype)) rs"
proof -
  obtain lt body where lt: "pack_en en linktype = Some lt" and body: "records_bytes en rs = Some body"
    and data: "data = magic @ hdr @ lt @ body"
    using assms(4) by (auto simp: pcap_file_def bind_eq_Some_conv)
  have m: "length magic = 4" using assms(1) by (cases en) (auto simp: magics_def PCAP_MAGIC_BE_def PCAP_MAGIC_LE_def)
  have l: "length lt = 4" "unpack_en en 4 lt = Some linktype" using unpack_pack_en [OF lt] by simp_all
  have "slice 20 24 data = lt" using slice_mid [of "magic @ hdr" 20 lt 24 body] m l assms(2) data by simp
  moreover have "classic_loop data en linktype 24 = map (\<lambda>r. (frame r, linktype)) rs"
    using classic_loop_records [OF assms(3) body, of "magic @ hdr @ lt"] m l assms(2) data by simp
  ultimately have "iter_classic data en = map (\<lambda>r. (frame r, linktype)) rs"
    using m l assms(2) data by (simp add: iter_classic_def)
  moreover have t: "take 4 data = magic" "\<not> length data < 4" using m data by simp_all
  have "iter_packets data = iter_classic data en"
  proof (cases en)
    case Little
    then have "magic \<notin> set PCAP_MAGIC_BE" using assms(1) magics_disjoint by (simp add: magics_def list_all_iff)
    with assms(1) Little show ?thesis by (simp add: iter_packets_def t magics_def)
  qed (use assms(1) in \<open>simp add: iter_packets_def t magics_def\<close>)
  ultimately show ?thesis by simp
qed

text \<open>Reading inverts writing: a pcap file in either byte order, with microsecond or nanosecond
  magic, yields exactly the frames that were written, in order, with the link type of the header.\<close>

theorem iter_packets_pcap_file:
  assumes "magic \<in> set (magics en)" and "length hdr = 16" and "list_all record_ok rs"
    and "pcap_file en magic hdr linktype rs = Some data"
  shows "iter_packets data = map (\<lambda>r. (frame r, linktype)) rs"
  using assms by (rule iter_packets_frames)

theorem iter_packets_pcap_file_witness:
  "iter_packets ([0xd4, 0xc3, 0xb2, 0xa1] @ zeros 16 @ [1, 0, 0, 0] @ zeros 8 @ [2, 0, 0, 0] @ zeros 4 @ [7, 8]) = [([7, 8], 1)]"
  by (subst iter_packets_pcap_file [of "[0xd4, 0xc3, 0xb2, 0xa1]" Little "zeros 16"
        "[\<lparr>stamp = zeros 8, orig_len = zeros 4, frame = [7, 8]\<rparr>]" 1])
     (simp_all add: magics_def PCAP_MAGIC_LE_def record_ok_def zeros_def pcap_file_def pack_en_def pack_I_def
        record_bytes_def byte_of_def)

section \<open>Decoding never raises\<close>

lemma u16_at_Some: "i + 2 \<le> length bs \<Longrightarrow> u16_at bs i = Some (be_nat (slice i (i + 2) bs))"
  by (simp add: u16_at_def unpack_be_def length_slice)

lemma at_Some: "i < length bs \<Longrightarrow> at bs i = Some (bs ! i)"
  by (simp add: at_def)

lemma unpack_be_slice: "j \<le> length d \<Longrightarrow> i + k = j \<Longrightarrow> unpack_be k (slice i j d) = Some (be_nat (slice i j d))"
  by (auto simp: unpack_be_def length_slice)

lemmas reads = u16_at_Some at_Some unpack_be_slice

lemma decode_l4_total [simp]: "\<exists>r. decode_l4 p src dst pl = Some r"
  by (auto simp: decode_l4_def reads Let_def)

lemma decode_ipv4_total [simp]: "\<exists>r. decode_ipv4 data = Some r"
proof (cases "length data < 20")
  case False
  then have "at data 0 = Some (data ! 0)" by (intro at_Some) linarith
  with False show ?thesis by (auto simp: decode_ipv4_def reads Let_def)
qed (simp add: decode_ipv4_def)

lemma decode_ipv6_total [simp]: "\<exists>r. decode_ipv6 data = Some r"
  by (cases "length data < 40") (auto simp: decode_ipv6_def reads Let_def)

lemma decode_l3_total [simp]: "\<exists>r. decode_l3 data t = Some r"
  by (simp add: decode_l3_def)

lemma vlan_loop_total [simp]: "\<exists>r. vlan_loop fr t off = Some r"
proof (induction fr t off rule: vlan_loop.induct)
  case (1 fr t off)
  then show ?case by (subst vlan_loop.simps) (simp add: reads)
qed

lemma decode_body_total: "\<exists>r. decode_body fr lt = Some r"
  by (cases "fr = []"; cases "length fr < 16"; cases "length fr < 14")
     (auto simp: decode_body_def decode_ethernet_def reads Let_def)

section \<open>Frames\<close>

text \<open>The bytes of a frame: link-layer addresses, VLAN tags, an IPv4 packet with options, padding.\<close>

definition tag_ok :: "byte list \<times> byte list \<Rightarrow> bool" where
  "tag_ok t \<longleftrightarrow> fst t \<in> {[0x81, 0x00], [0x88, 0xA8]} \<and> length (snd t) = 2"

definition ethernet_frame :: "byte list \<Rightarrow> (byte list \<times> byte list) list \<Rightarrow> byte list \<Rightarrow> byte list \<Rightarrow> byte list" where
  "ethernet_frame macs tags eth_type pkt = macs @ concat (map (\<lambda>(t, tci). t @ tci) tags) @ eth_type @ pkt"

record ipv4_header =
  ip_ihl :: nat
  ip_tos :: byte
  ip_mid :: "byte list"
  ip_proto :: byte
  ip_sum :: "byte list"
  ip_src :: "byte list"
  ip_dst :: "byte list"
  ip_opts :: "byte list"

definition ipv4_ok :: "ipv4_header \<Rightarrow> bool" where
  "ipv4_ok h \<longleftrightarrow> 5 \<le> ip_ihl h \<and> ip_ihl h \<le> 15 \<and> length (ip_mid h) = 5 \<and> length (ip_sum h) = 2 \<and>
     length (ip_src h) = 4 \<and> length (ip_dst h) = 4 \<and> length (ip_opts h) = (ip_ihl h - 5) * 4"

definition ipv4_packet :: "ipv4_header \<Rightarrow> byte list \<Rightarrow> byte list option" where
  "ipv4_packet h pl = map_option
     (\<lambda>total. [byte_of (64 + ip_ihl h), ip_tos h] @ total @ ip_mid h @ [ip_proto h] @ ip_sum h @ ip_src h @ ip_dst h
        @ ip_opts h @ pl)
     (pack_H (ip_ihl h * 4 + length pl))"

record tcp_header =
  th_sport :: nat
  th_dport :: nat
  th_seq :: nat
  th_ack :: "byte list"
  th_off :: nat
  th_rest :: "byte list"
  th_opts :: "byte list"

definition tcp_ok :: "tcp_header \<Rightarrow> bool" where
  "tcp_ok h \<longleftrightarrow> 5 \<le> th_off h \<and> th_off h \<le> 15 \<and> length (th_ack h) = 4 \<and> length (th_rest h) = 7 \<and>
     length (th_opts h) = (th_off h - 5) * 4"

definition tcp_bytes :: "tcp_header \<Rightarrow> byte list \<Rightarrow> byte list option" where
  "tcp_bytes h data = do {
     sp \<leftarrow> pack_H (th_sport h); dp \<leftarrow> pack_H (th_dport h); sq \<leftarrow> pack_I (th_seq h);
     Some (sp @ dp @ sq @ th_ack h @ [byte_of (16 * th_off h)] @ th_rest h @ th_opts h @ data) }"

lemma vlan_loop_tags:
  assumes "list_all tag_ok tags" and "length et = 2" and "be_nat et \<notin> {0x8100, 0x88A8}" and "length pre + 2 = off"
  shows "vlan_loop (pre @ concat (map (\<lambda>(t, tci). t @ tci) tags) @ et @ pkt)
       (be_nat (slice (off - 2) off (pre @ concat (map (\<lambda>(t, tci). t @ tci) tags) @ et @ pkt))) off
     = decode_l3 pkt (be_nat et)"
  using assms(1,4)
proof (induction tags arbitrary: pre off)
  case Nil
  then have "slice (off - 2) off (pre @ et @ pkt) = et" using assms(2) by (auto simp: slice_def)
  with Nil assms(2,3) show ?case by (subst vlan_loop.simps) auto
next
  case (Cons tag tags)
  obtain t tci where tag: "tag = (t, tci)" by (cases tag)
  then have t: "length t = 2" "length tci = 2" "be_nat t = 0x8100 \<or> be_nat t = 0x88A8"
    using Cons.prems(1) by (auto simp: tag_ok_def be_nat_def)
  let ?rest = "concat (map (\<lambda>(t, tci). t @ tci) tags) @ et @ pkt"
  let ?f = "pre @ t @ tci @ ?rest"
  have s: "slice (off - 2) off ?f = t" using slice_mid [of pre "off - 2" t off] t Cons.prems(2) by auto
  have "length ?f \<ge> off + 4" using t assms(2) Cons.prems(2) by simp
  moreover from this have "u16_at ?f (off + 2) = Some (be_nat (slice (off + 2) (off + 4) ?f))"
    using u16_at_Some [of "off + 2" ?f] by (simp add: numeral_eq_Suc)
  ultimately have "vlan_loop ?f (be_nat t) off = vlan_loop ?f (be_nat (slice (off + 2) (off + 4) ?f)) (off + 4)"
    using t by (subst vlan_loop.simps) auto
  also have "\<dots> = decode_l3 pkt (be_nat et)"
    using Cons.IH [of "pre @ t @ tci" "off + 4"] Cons.prems t by (simp add: add.commute [of 2])
  finally show ?case using s by (simp add: tag)
qed

lemma byte_nibbles:
  "n < 256 \<Longrightarrow> unat (drop_bit 4 (byte_of n)) = n div 16"
  "n < 256 \<Longrightarrow> unat (byte_of n AND 0x0F) = n mod 16"
proof -
  assume n: "n < 256"
  show "unat (drop_bit 4 (byte_of n)) = n div 16"
    unfolding unat_drop_bit_eq unat_byte_of [OF n] by (simp add: drop_bit_eq_div)
  have "byte_of n AND 0x0F = take_bit 4 (byte_of n)" by (simp add: take_bit_eq_mask mask_eq_exp_minus_1)
  then have e: "unat (byte_of n AND 0x0F) = unat (take_bit 4 (byte_of n))" by (rule arg_cong)
  show "unat (byte_of n AND 0x0F) = n mod 16"
    unfolding e unsigned_take_bit_eq by (simp add: unat_byte_of n take_bit_eq_mod)
qed

lemma decode_l4_tcp:
  assumes "tcp_ok h" and "tcp_bytes h data = Some pl"
  shows "decode_l4 6 src dst pl = Some (Some \<lparr>proto = ''tcp'', src_ip = src, src_port = th_sport h, dst_ip = dst,
     dst_port = th_dport h, payload = data, seq_no = th_seq h\<rparr>)"
proof -
  obtain sp dp sq where p: "pack_H (th_sport h) = Some sp" "pack_H (th_dport h) = Some dp" "pack_I (th_seq h) = Some sq"
    and pl: "pl = sp @ dp @ sq @ th_ack h @ [byte_of (16 * th_off h)] @ th_rest h @ th_opts h @ data"
    using assms(2) by (auto simp: tcp_bytes_def bind_eq_Some_conv)
  have n: "length sp = 2" "length dp = 2" "length sq = 4"
    "be_nat sp = th_sport h" "be_nat dp = th_dport h" "be_nat sq = th_seq h"
    using u16.pack_SomeD [OF p(1)] u16.pack_SomeD [OF p(2)] u32.pack_SomeD [OF p(3)] by simp_all
  have ok: "5 \<le> th_off h" "th_off h \<le> 15" "length (th_ack h) = 4" "length (th_rest h) = 7" "length (th_opts h) = (th_off h - 5) * 4"
    using assms(1) by (simp_all add: tcp_ok_def)
  have len: "length pl = th_off h * 4 + length data" using n ok by (simp add: pl)
  have s: "slice 0 2 pl = sp" "slice 2 4 pl = dp" "slice 4 8 pl = sq"
    using slice_mid [of "[]" 0 sp 2] slice_mid [of sp 2 dp 4] slice_mid [of "sp @ dp" 4 sq 8] n by (simp_all add: pl)
  have o: "pl ! 12 = byte_of (16 * th_off h)" using n ok by (simp add: pl nth_append)
  have "length (sp @ dp @ sq @ th_ack h @ [byte_of (16 * th_off h)] @ th_rest h @ th_opts h) = th_off h * 4" using n ok by simp
  then have "drop (th_off h * 4) pl = data"
    using append_eq_conv_conj [of "sp @ dp @ sq @ th_ack h @ [byte_of (16 * th_off h)] @ th_rest h @ th_opts h" data pl] by (simp add: pl)
  with n ok s o len show ?thesis
    by (simp add: decode_l4_def u16_at_def unpack_be_def at_def byte_nibbles Let_def)
qed

lemma decode_ipv4_packet:
  assumes "ipv4_ok h" and "ipv4_packet h pl = Some pkt" and "pl \<noteq> []"
  shows "decode_ipv4 (pkt @ padding) = decode_l4 (unat (ip_proto h)) (inet_ntop4 (ip_src h)) (inet_ntop4 (ip_dst h)) pl"
proof -
  obtain tl where p: "pack_H (ip_ihl h * 4 + length pl) = Some tl"
    and pkt: "pkt = [byte_of (64 + ip_ihl h), ip_tos h] @ tl @ ip_mid h @ [ip_proto h] @ ip_sum h @ ip_src h @ ip_dst h @ ip_opts h @ pl"
    using assms(2) by (auto simp: ipv4_packet_def)
  have n: "length tl = 2" "be_nat tl = ip_ihl h * 4 + length pl" using u16.pack_SomeD [OF p] by simp_all
  have ok: "5 \<le> ip_ihl h" "ip_ihl h \<le> 15" "length (ip_mid h) = 5" "length (ip_sum h) = 2"
     "length (ip_src h) = 4" "length (ip_dst h) = 4" "length (ip_opts h) = (ip_ihl h - 5) * 4"
    using assms(1) by (simp_all add: ipv4_ok_def)
  let ?d = "pkt @ padding" and ?ihl = "ip_ihl h * 4"
  let ?a = "[byte_of (64 + ip_ihl h), ip_tos h]"
  have len: "length pkt = ?ihl + length pl" using n ok by (simp add: pkt)
  have i: "?d ! 0 = byte_of (64 + ip_ihl h)" by (simp add: pkt)
  have "64 + ip_ihl h = ip_ihl h + 16 * 4" "ip_ihl h < 16" using ok by simp_all
  then have "(64 + ip_ihl h) mod 16 = ip_ihl h" by (metis mod_less mod_mult_self2)
  then have ihl: "unat (byte_of (64 + ip_ihl h) AND 0x0F) = ip_ihl h"
    using byte_nibbles(2) [of "64 + ip_ihl h"] ok by simp
  have s: "slice 2 4 ?d = tl" "slice 12 16 ?d = ip_src h" "slice 16 20 ?d = ip_dst h" "slice ?ihl (?ihl + length pl) ?d = pl"
    using slice_mid [of ?a 2 tl 4]
      slice_mid [of "?a @ tl @ ip_mid h @ [ip_proto h] @ ip_sum h" 12 "ip_src h" 16]
      slice_mid [of "?a @ tl @ ip_mid h @ [ip_proto h] @ ip_sum h @ ip_src h" 16 "ip_dst h" 20]
      slice_mid [of "?a @ tl @ ip_mid h @ [ip_proto h] @ ip_sum h @ ip_src h @ ip_dst h @ ip_opts h" ?ihl pl "?ihl + length pl"]
      n ok by (simp_all add: pkt)
  have p9: "?d ! 9 = ip_proto h" using n ok by (simp add: pkt nth_append)
  have "length ?d \<ge> 20" "0 < length pl" using len ok assms(3) by simp_all
  with n ok s i ihl p9 len show ?thesis
    by (simp add: decode_ipv4_def u16_at_def unpack_be_def at_def Let_def)
qed

lemma decode_packet_frame:
  assumes "length macs = 12" and "list_all tag_ok tags" and "ipv4_ok ih" and "ip_proto ih = 6" and "tcp_ok th"
    and "tcp_bytes th data = Some pl" and "ipv4_packet ih pl = Some pkt"
  shows "decode_packet (ethernet_frame macs tags [0x08, 0x00] (pkt @ padding)) 1 =
     Some \<lparr>proto = ''tcp'', src_ip = inet_ntop4 (ip_src ih), src_port = th_sport th, dst_ip = inet_ntop4 (ip_dst ih),
           dst_port = th_dport th, payload = data, seq_no = th_seq th\<rparr>"
proof -
  let ?f = "ethernet_frame macs tags [0x08, 0x00] (pkt @ padding)"
  have "pl \<noteq> []" using assms(6) by (auto simp: tcp_bytes_def bind_eq_Some_conv)
  then have "decode_l3 (pkt @ padding) 0x0800 = Some (Some \<lparr>proto = ''tcp'', src_ip = inet_ntop4 (ip_src ih),
       src_port = th_sport th, dst_ip = inet_ntop4 (ip_dst ih), dst_port = th_dport th, payload = data, seq_no = th_seq th\<rparr>)"
    using decode_ipv4_packet [OF assms(3,7)] decode_l4_tcp [OF assms(5,6)] assms(4) by (simp add: decode_l3_def)
  moreover have "vlan_loop ?f (be_nat (slice 12 14 ?f)) 14 = decode_l3 (pkt @ padding) 0x0800"
    using vlan_loop_tags [OF assms(2), of "[0x08, 0x00]" macs 14 "pkt @ padding"] assms(1)
    by (simp add: ethernet_frame_def be_nat_def)
  moreover have "length ?f \<ge> 14" using assms(1) by (simp add: ethernet_frame_def)
  ultimately show ?thesis
    by (simp add: decode_packet_def decode_body_def decode_ethernet_def u16_at_Some)
qed

text \<open>The decoder reads a TCP segment out of any Ethernet frame that carries one: whatever the
  link-layer addresses, however many 802.1Q or 802.1ad tags, with IP and TCP options and with
  padding after the IP packet, the result has the ports, sequence number and exactly the payload
  bytes of the segment.\<close>

theorem decode_packet_tcp:
  assumes "length macs = 12" and "list_all tag_ok tags" and "ipv4_ok ih" and "ip_proto ih = 6" and "tcp_ok th"
    and "tcp_bytes th data = Some pl" and "ipv4_packet ih pl = Some pkt"
  shows "decode_packet (ethernet_frame macs tags [0x08, 0x00] (pkt @ padding)) 1 =
     Some \<lparr>proto = ''tcp'', src_ip = inet_ntop4 (ip_src ih), src_port = th_sport th, dst_ip = inet_ntop4 (ip_dst ih),
           dst_port = th_dport th, payload = data, seq_no = th_seq th\<rparr>"
  using assms by (rule decode_packet_frame)

definition sample_ip :: ipv4_header where
  "sample_ip = \<lparr>ip_ihl = 5, ip_tos = 0, ip_mid = zeros 5, ip_proto = 6, ip_sum = zeros 2, ip_src = [10, 0, 0, 1],
     ip_dst = [10, 0, 0, 2], ip_opts = []\<rparr>"

definition sample_tcp :: tcp_header where
  "sample_tcp = \<lparr>th_sport = 443, th_dport = 50000, th_seq = 7, th_ack = zeros 4, th_off = 5, th_rest = zeros 7, th_opts = []\<rparr>"

theorem decode_packet_tcp_witness:
  "\<exists>pl pkt. tcp_bytes sample_tcp [22, 3] = Some pl \<and> ipv4_packet sample_ip pl = Some pkt \<and>
     map_option payload (decode_packet (ethernet_frame (zeros 12) [([0x81, 0x00], zeros 2)] [0x08, 0x00] (pkt @ zeros 4)) 1) =
     Some [22, 3]"
proof -
  obtain pl where pl: "tcp_bytes sample_tcp [22, 3] = Some pl" "length pl = 22"
    by (simp add: tcp_bytes_def sample_tcp_def pack_H_def pack_I_def zeros_def)
  then obtain pkt where pkt: "ipv4_packet sample_ip pl = Some pkt"
    by (simp add: ipv4_packet_def sample_ip_def pack_H_def)
  have "map_option payload (decode_packet (ethernet_frame (zeros 12) [([0x81, 0x00], zeros 2)] [0x08, 0x00] (pkt @ zeros 4)) 1)
      = Some [22, 3]"
    using decode_packet_tcp [OF _ _ _ _ _ pl(1) pkt, of "zeros 12" "[([0x81, 0x00], zeros 2)]" "zeros 4"]
    by (simp add: zeros_def tag_ok_def ipv4_ok_def tcp_ok_def sample_ip_def sample_tcp_def)
  with pl(1) pkt show ?thesis by blast
qed

end
