(* ===== verification/Tls_Hello.thy ===== *)
theory Tls_Hello
  imports Pcap
begin

text \<open>
  \<^verbatim>\<open>probes/_pcap.py\<close>, second half: the TLS ClientHello and ServerHello fields and the SSH
  KEXINIT name-lists of a TCP payload. The functions called inside a \<^verbatim>\<open>try\<close> return an option of
  an option, the outer one for \<^verbatim>\<open>struct.error\<close> and \<^verbatim>\<open>IndexError\<close>. Text is ASCII: a byte
  above 127 is decoded to one stand-in character, which is neither a blank nor a separator.
\<close>

section \<open>TLS\<close>

record client_hello =
  ch_legacy_version :: nat
  ch_cipher_suites :: "nat list"
  ch_versions :: "nat list"
  ch_groups :: "nat list"
  ch_key_share_groups :: "nat list"

record server_hello =
  sh_legacy_version :: nat
  sh_cipher :: nat
  sh_selected_version :: "nat option"
  sh_group :: "nat option"

datatype tls_hello = ClientHello client_hello | ServerHello server_hello

text \<open>\<^verbatim>\<open>range(0, m, 2)\<close>, and the list comprehensions over it.\<close>

definition evens :: "nat \<Rightarrow> nat list" where
  "evens m = map ((*) 2) [0..<(m + 1) div 2]"

fun collect :: "('a \<Rightarrow> 'b option) \<Rightarrow> 'a list \<Rightarrow> 'b list option" where
  "collect f [] = Some []"
| "collect f (x # xs) = do { y \<leftarrow> f x; ys \<leftarrow> collect f xs; Some (y # ys) }"

definition u16_list :: "byte list \<Rightarrow> nat list option" where
  "u16_list bs = collect (u16_at bs) (evens (length bs - 1))"

text \<open>The extension loop of both hellos, with its body as an argument.\<close>

function ext_loop :: "(nat \<Rightarrow> byte list \<Rightarrow> 'a \<Rightarrow> 'a option) \<Rightarrow> byte list \<Rightarrow> nat \<Rightarrow> 'a \<Rightarrow> 'a option" where
  "ext_loop step exts i acc =
     (if i + 4 \<le> length exts then
        (case u16_at exts i of
           None \<Rightarrow> None
         | Some et \<Rightarrow>
             (case u16_at exts (i + 2) of
                None \<Rightarrow> None
              | Some el \<Rightarrow>
                  (case step et (slice (i + 4) (i + 4 + el) exts) acc of
                     None \<Rightarrow> None
                   | Some acc' \<Rightarrow> ext_loop step exts (i + 4 + el) acc')))
      else Some acc)"
  by pat_completeness auto
termination
  by (relation "measure (\<lambda>(step, exts, i, acc). length exts - i)") auto

declare ext_loop.simps [simp del]

function key_share_loop :: "byte list \<Rightarrow> nat \<Rightarrow> nat list option" where
  "key_share_loop entries j =
     (if j + 4 \<le> length entries then
        (case u16_at entries j of
           None \<Rightarrow> None
         | Some g \<Rightarrow>
             (case u16_at entries (j + 2) of
                None \<Rightarrow> None
              | Some klen \<Rightarrow> map_option ((#) g) (key_share_loop entries (j + 4 + klen))))
      else Some [])"
  by pat_completeness auto
termination
  by (relation "measure (\<lambda>(entries, j). length entries - j)") auto

declare key_share_loop.simps [simp del]

definition parse_key_share_groups :: "byte list \<Rightarrow> nat list option" where
  "parse_key_share_groups entries = key_share_loop entries 0"

type_synonym client_exts = "nat list \<times> nat list \<times> nat list"

definition client_ext :: "nat \<Rightarrow> byte list \<Rightarrow> client_exts \<Rightarrow> client_exts option" where
  "client_ext et ev acc =
     (case acc of (versions, supported_groups, key_share_groups) \<Rightarrow>
        if et = 0x002B \<and> ev \<noteq> [] then do {
          n \<leftarrow> at ev 0;
          vs \<leftarrow> collect (\<lambda>j. unpack_be 2 (slice (1 + j) (3 + j) ev)) (evens (unat n - 1));
          Some (vs, supported_groups, key_share_groups) }
        else if et = 0x000A \<and> length ev \<ge> 2 then do {
          n \<leftarrow> u16_at ev 0;
          gs \<leftarrow> u16_list (slice 2 (2 + n) ev);
          Some (versions, supported_groups @ gs, key_share_groups) }
        else if et = 0x0033 \<and> length ev \<ge> 2 then do {
          n \<leftarrow> u16_at ev 0;
          gs \<leftarrow> parse_key_share_groups (slice 2 (2 + n) ev);
          Some (versions, supported_groups, key_share_groups @ gs) }
        else Some acc)"

definition parse_client_extensions :: "byte list \<Rightarrow> client_exts option" where
  "parse_client_extensions exts = ext_loop client_ext exts 0 ([], [], [])"

definition parse_client_hello :: "byte list \<Rightarrow> client_hello option option" where
  "parse_client_hello body =
     (if length body < 35 then Some None
      else do {
        legacy_version \<leftarrow> u16_at body 0;
        sid_len \<leftarrow> at body 34;
        let off = 35 + unat sid_len;
        if length body < off + 2 then Some None
        else do {
          cs_len \<leftarrow> u16_at body off;
          ciphers \<leftarrow> u16_list (slice (off + 2) (off + 2 + cs_len) body);
          let off = off + 2 + cs_len;
          if length body < off + 1 then
            Some (Some \<lparr>ch_legacy_version = legacy_version, ch_cipher_suites = ciphers, ch_versions = [],
                        ch_groups = [], ch_key_share_groups = []\<rparr>)
          else do {
            comp_len \<leftarrow> at body off;
            let off = off + 1 + unat comp_len;
            (versions, supported_groups, key_share_groups) \<leftarrow>
              (if length body \<ge> off + 2 then do {
                 ext_total \<leftarrow> u16_at body off;
                 parse_client_extensions (slice (off + 2) (off + 2 + ext_total) body) }
               else Some ([], [], []));
            Some (Some \<lparr>ch_legacy_version = legacy_version, ch_cipher_suites = ciphers, ch_versions = versions,
                        ch_groups = dedupe (supported_groups @ key_share_groups),
                        ch_key_share_groups = key_share_groups\<rparr>) } } })"

definition server_ext :: "nat \<Rightarrow> byte list \<Rightarrow> nat option \<times> nat option \<Rightarrow> (nat option \<times> nat option) option" where
  "server_ext et ev acc =
     (if et = 0x002B \<and> length ev \<ge> 2 then map_option (\<lambda>v. (Some v, snd acc)) (u16_at ev 0)
      else if et = 0x0033 \<and> length ev \<ge> 2 then map_option (\<lambda>g. (fst acc, Some g)) (u16_at ev 0)
      else Some acc)"

definition parse_server_extensions :: "byte list \<Rightarrow> (nat option \<times> nat option) option" where
  "parse_server_extensions exts = ext_loop server_ext exts 0 (None, None)"

definition parse_server_hello :: "byte list \<Rightarrow> server_hello option option" where
  "parse_server_hello body =
     (if length body < 35 then Some None
      else do {
        legacy_version \<leftarrow> u16_at body 0;
        sid_len \<leftarrow> at body 34;
        let off = 35 + unat sid_len;
        if length body < off + 3 then Some None
        else do {
          cipher \<leftarrow> u16_at body off;
          let off = off + 3;
          (selected_version, g) \<leftarrow>
            (if length body \<ge> off + 2 then do {
               ext_total \<leftarrow> u16_at body off;
               parse_server_extensions (slice (off + 2) (off + 2 + ext_total) body) }
             else Some (None, None));
          Some (Some \<lparr>sh_legacy_version = legacy_version, sh_cipher = cipher,
                      sh_selected_version = selected_version, sh_group = g\<rparr>) } })"

definition tls_handshake_body :: "byte list \<Rightarrow> tls_hello option option" where
  "tls_handshake_body pl =
     (if length pl < 9 \<or> pl ! 0 \<noteq> 0x16 then Some None
      else do {
        rec_len \<leftarrow> u16_at pl 3;
        let hs = slice 5 (5 + rec_len) pl;
        if length hs < 4 then Some None
        else do {
          msg_type \<leftarrow> at hs 0;
          let hs_len = be_nat (slice 1 4 hs);
          let body = slice 4 (4 + hs_len) hs;
          if msg_type = 0x01 then map_option (map_option ClientHello) (parse_client_hello body)
          else if msg_type = 0x02 then map_option (map_option ServerHello) (parse_server_hello body)
          else Some None } })"

definition parse_tls_handshake :: "byte list \<Rightarrow> tls_hello option" where
  "parse_tls_handshake pl = (case tls_handshake_body pl of None \<Rightarrow> None | Some r \<Rightarrow> r)"

section \<open>SSH\<close>

record ssh_kexinit =
  banner :: "string option"
  kex_algorithms :: "string list"
  server_host_key_algorithms :: "string list"

definition decode_text :: "byte list \<Rightarrow> string" where
  "decode_text bs = map (\<lambda>b. if unat b < 128 then char_of (unat b) else CHR 0xFF) bs"

definition name_list :: "string \<Rightarrow> string list" where
  "name_list value = filter (\<lambda>t. t \<noteq> []) (map py_strip (split_on (CHR '','') value))"

fun name_lists :: "byte list \<Rightarrow> nat \<Rightarrow> nat \<Rightarrow> string list list option option" where
  "name_lists pl i 0 = Some (Some [])"
| "name_lists pl i (Suc k) =
     (if i + 4 > length pl then Some None
      else do {
        ln \<leftarrow> unpack_be 4 (slice i (i + 4) pl);
        rest \<leftarrow> name_lists pl (i + 4 + ln) k;
        Some (map_option ((#) (name_list (decode_text (slice (i + 4) (i + 4 + ln) pl)))) rest) })"

text \<open>The banner line, when there is one, and what follows it.\<close>

definition split_banner :: "byte list \<Rightarrow> (string option \<times> byte list) option" where
  "split_banner pl =
     (if take 4 pl = [0x53, 0x53, 0x48, 0x2D] then
        (if 0x0A \<in> set pl then
           (let nl = length (takeWhile (\<lambda>b. b \<noteq> 0x0A) pl)
            in Some (Some (decode_text (rev (dropWhile (\<lambda>b. b = 0x0D \<or> b = 0x0A) (rev (take nl pl))))), drop (nl + 1) pl))
         else None)
      else Some (None, pl))"

definition ssh_kexinit_body :: "byte list \<Rightarrow> ssh_kexinit option option" where
  "ssh_kexinit_body pl =
     (case split_banner pl of
        None \<Rightarrow> Some None
      | Some (ban, data) \<Rightarrow>
          if length data < 6 then Some None
          else do {
            pkt_len \<leftarrow> unpack_be 4 (slice 0 4 data);
            pad_len \<leftarrow> at data 4;
            let body_len = int pkt_len - 1 - int (unat pad_len);
            if body_len \<le> 0 then Some None
            else
              (let ssh_payload = slice 5 (5 + nat body_len) data in
               if ssh_payload = [] \<or> ssh_payload ! 0 \<noteq> 20 then Some None
               else do {
                 r \<leftarrow> name_lists ssh_payload 17 2;
                 (case r of
                    None \<Rightarrow> Some None
                  | Some ls \<Rightarrow>
                      Some (Some \<lparr>banner = ban, kex_algorithms = ls ! 0, server_host_key_algorithms = ls ! 1\<rparr>)) }) })"

definition parse_ssh_kexinit :: "byte list \<Rightarrow> ssh_kexinit option" where
  "parse_ssh_kexinit pl = (case ssh_kexinit_body pl of None \<Rightarrow> None | Some r \<Rightarrow> r)"

end
