(* ===== verification/Tls_Laws.thy ===== *)
theory Tls_Laws
  imports Tls_Hello Pcap_Laws
begin

text \<open>
  What the TLS parser of \<open>Tls_Hello\<close> recovers: reference encoders of a ClientHello and its
  extensions, and the theorem that the parser reads back what a client offered.
\<close>

section \<open>What a client offers\<close>

text \<open>Reference encoders of the structures the parser reads.\<close>

definition enc16 :: "nat \<Rightarrow> byte list" where
  "enc16 n = [byte_of (n div 256), byte_of (n mod 256)]"

lemma length_enc16 [simp]: "length (enc16 n) = 2"
  by (simp add: enc16_def)

lemma be_nat_enc16 [simp]: "n < 65536 \<Longrightarrow> be_nat (enc16 n) = n"
  by (simp add: enc16_def be_nat_def unat_byte_of)

lemma u16_at_enc16: "n < 65536 \<Longrightarrow> length pre = i \<Longrightarrow> u16_at (pre @ enc16 n @ post) i = Some n"
  using slice_mid [of pre i "enc16 n" "i + 2" post] by (simp add: u16_at_def unpack_be_def)

lemma u16_at_shift: "length pre = k \<Longrightarrow> u16_at (pre @ bs) (k + i) = u16_at bs i"
  by (simp add: u16_at_def slice_def)

lemma collect_map: "collect f (map g xs) = collect (\<lambda>x. f (g x)) xs"
  by (induction xs) simp_all

lemma evens_add2: "evens (k + 2 - 1) = 0 # map ((+) 2) (evens (k - 1))"
proof -
  have "(k + 2 - 1 + 1) div 2 = Suc ((k - 1 + 1) div 2)" by (cases k) simp_all
  then show ?thesis by (simp add: evens_def upt_conv_Cons map_Suc_upt [symmetric] comp_def del: upt_Suc)
qed

lemma u16_list_Nil [simp]: "u16_list [] = Some []"
  by (simp add: u16_list_def evens_def)

lemma u16_list_Cons:
  assumes "n < 65536"
  shows "u16_list (enc16 n @ bs) = map_option ((#) n) (u16_list bs)"
proof -
  have "evens (length (enc16 n @ bs) - 1) = 0 # map ((+) 2) (evens (length bs - 1))"
    using evens_add2 [of "length bs"] by (simp add: add.commute)
  moreover have "u16_at (enc16 n @ bs) 0 = Some n" using u16_at_enc16 [OF assms, of "[]" 0 bs] by simp
  moreover have "u16_at (enc16 n @ bs) (2 + i) = u16_at bs i" for i by (rule u16_at_shift) simp
  ultimately show ?thesis
    by (simp add: u16_list_def collect_map map_option_case split: bind_splits option.splits)
qed

definition words_ok :: "nat list \<Rightarrow> bool" where
  "words_ok ns \<longleftrightarrow> list_all (\<lambda>n. n < 65536) ns"

definition enc_words :: "nat list \<Rightarrow> byte list" where
  "enc_words ns = concat (map enc16 ns)"

lemma u16_list_enc: "words_ok ns \<Longrightarrow> u16_list (enc_words ns) = Some ns"
  by (induction ns) (simp_all add: words_ok_def enc_words_def u16_list_Cons)

lemma length_enc_words [simp]: "length (enc_words ns) = 2 * length ns"
  by (induction ns) (simp_all add: enc_words_def)

definition enc_ext :: "nat \<times> byte list \<Rightarrow> byte list" where
  "enc_ext x = enc16 (fst x) @ enc16 (length (snd x)) @ snd x"

lemma enc_ext_pair: "enc_ext (et, ev) = enc16 et @ enc16 (length ev) @ ev"
  by (simp add: enc_ext_def)

definition ext_ok :: "nat \<times> byte list \<Rightarrow> bool" where
  "ext_ok x \<longleftrightarrow> fst x < 65536 \<and> length (snd x) < 65536"

fun run_exts :: "(nat \<Rightarrow> byte list \<Rightarrow> 'a \<Rightarrow> 'a option) \<Rightarrow> (nat \<times> byte list) list \<Rightarrow> 'a \<Rightarrow> 'a option" where
  "run_exts step [] acc = Some acc"
| "run_exts step (x # xs) acc = do { acc' \<leftarrow> step (fst x) (snd x) acc; run_exts step xs acc' }"

lemma enc_ext_head:
  assumes "ext_ok x"
  shows "u16_at (pre @ enc_ext x @ post) (length pre) = Some (fst x)"
    and "u16_at (pre @ enc_ext x @ post) (length pre + 2) = Some (length (snd x))"
  using assms u16_at_enc16 [of "fst x" pre "length pre"] u16_at_enc16 [of "length (snd x)" "pre @ enc16 (fst x)" "length pre + 2"]
  by (simp_all add: enc_ext_def ext_ok_def)

lemma ext_loop_enc:
  assumes "list_all ext_ok xs"
  shows "ext_loop step (pre @ concat (map enc_ext xs)) (length pre) acc = run_exts step xs acc"
  using assms
proof (induction xs arbitrary: pre acc)
  case Nil
  then show ?case by (simp add: ext_loop.simps)
next
  case (Cons x xs)
  obtain et ev where x: "x = (et, ev)" by (cases x)
  let ?rest = "concat (map enc_ext xs)"
  let ?d = "pre @ enc16 et @ enc16 (length ev) @ ev @ ?rest" and ?i = "length pre"
  have h: "u16_at ?d ?i = Some et" "u16_at ?d (?i + 2) = Some (length ev)"
    using enc_ext_head [of "(et, ev)" pre ?rest] Cons.prems by (simp_all add: x enc_ext_pair)
  have s: "slice (?i + 4) (?i + 4 + length ev) ?d = ev"
    using slice_mid [of "pre @ enc16 et @ enc16 (length ev)" "?i + 4" ev "?i + 4 + length ev" ?rest] by simp
  have "ext_loop step ?d (?i + 4 + length ev) acc' = run_exts step xs acc'" for acc'
    using Cons.IH [of "pre @ enc16 et @ enc16 (length ev) @ ev" acc'] Cons.prems by (simp add: add.assoc)
  moreover have "?i + 4 \<le> length ?d" by simp
  ultimately show ?case
    using h s by (simp add: x enc_ext_pair ext_loop.simps [of step ?d ?i] split: option.splits bind_splits)
qed

lemma key_share_loop_enc:
  assumes "list_all ext_ok xs"
  shows "key_share_loop (pre @ concat (map enc_ext xs)) (length pre) = Some (map fst xs)"
  using assms
proof (induction xs arbitrary: pre)
  case Nil
  then show ?case by (simp add: key_share_loop.simps)
next
  case (Cons x xs)
  obtain et ev where x: "x = (et, ev)" by (cases x)
  let ?rest = "concat (map enc_ext xs)"
  let ?d = "pre @ enc16 et @ enc16 (length ev) @ ev @ ?rest" and ?i = "length pre"
  have h: "u16_at ?d ?i = Some et" "u16_at ?d (?i + 2) = Some (length ev)"
    using enc_ext_head [of "(et, ev)" pre ?rest] Cons.prems by (simp_all add: x enc_ext_pair)
  have "key_share_loop ?d (?i + 4 + length ev) = Some (map fst xs)"
    using Cons.IH [of "pre @ enc16 et @ enc16 (length ev) @ ev"] Cons.prems by (simp add: add.assoc)
  moreover have "?i + 4 \<le> length ?d" by simp
  ultimately show ?case
    using h by (simp add: x enc_ext_pair key_share_loop.simps [of ?d ?i])
qed

text \<open>The extensions of a ClientHello that matter, and any other one.\<close>

datatype hello_ext =
    SupportedVersions "nat list"
  | SupportedGroups "nat list"
  | KeyShares "(nat \<times> byte list) list"
  | OtherExt nat "byte list"

fun raw_ext :: "hello_ext \<Rightarrow> nat \<times> byte list" where
  "raw_ext (SupportedVersions vs) = (0x002B, byte_of (2 * length vs) # enc_words vs)"
| "raw_ext (SupportedGroups gs) = (0x000A, enc16 (2 * length gs) @ enc_words gs)"
| "raw_ext (KeyShares ks) =
     (0x0033, enc16 (length (concat (map enc_ext ks))) @ concat (map enc_ext ks))"
| "raw_ext (OtherExt et ev) = (et, ev)"

fun hello_ext_ok :: "hello_ext \<Rightarrow> bool" where
  "hello_ext_ok (SupportedVersions vs) \<longleftrightarrow> words_ok vs \<and> length vs < 128"
| "hello_ext_ok (SupportedGroups gs) \<longleftrightarrow> words_ok gs \<and> length gs < 32767"
| "hello_ext_ok (KeyShares ks) \<longleftrightarrow> list_all ext_ok ks \<and> length (concat (map enc_ext ks)) < 65534"
| "hello_ext_ok (OtherExt et ev) \<longleftrightarrow> ext_ok (et, ev) \<and> et \<notin> {0x002B, 0x000A, 0x0033}"

fun hello_ext_acc :: "hello_ext \<Rightarrow> client_exts \<Rightarrow> client_exts" where
  "hello_ext_acc (SupportedVersions vs) (v, g, k) = (vs, g, k)"
| "hello_ext_acc (SupportedGroups gs) (v, g, k) = (v, g @ gs, k)"
| "hello_ext_acc (KeyShares ks) (v, g, k) = (v, g, k @ map fst ks)"
| "hello_ext_acc (OtherExt et ev) acc = acc"

lemma raw_ext_ok: "hello_ext_ok x \<Longrightarrow> ext_ok (raw_ext x)"
  by (cases x) (auto simp: ext_ok_def)

lemma client_ext_versions:
  assumes "words_ok vs" and "length vs < 128"
  shows "client_ext 0x002B (byte_of (2 * length vs) # enc_words vs) (v, g, k) = Some (vs, g, k)"
proof -
  have "unpack_be 2 (slice (1 + j) (3 + j) (b # bs)) = u16_at bs j" for j b and bs :: "byte list"
    by (simp add: u16_at_def slice_def)
  then show ?thesis
    using assms u16_list_enc [OF assms(1)] by (simp add: client_ext_def at_def unat_byte_of u16_list_def)
qed

lemma client_ext_raw: "hello_ext_ok x \<Longrightarrow> client_ext (fst (raw_ext x)) (snd (raw_ext x)) acc = Some (hello_ext_acc x acc)"
proof (cases acc)
  case (fields v g k)
  assume ok: "hello_ext_ok x"
  have w: "u16_at (enc16 n @ bs) 0 = Some n" "slice 2 (2 + length bs) (enc16 n @ bs) = bs" if "n < 65536" for n bs
    using u16_at_enc16 [OF that, of "[]" 0 bs] by (simp_all add: slice_def)
  show ?thesis
  proof (cases x)
    case (SupportedVersions vs)
    with ok fields client_ext_versions show ?thesis by simp
  next
    case (SupportedGroups gs)
    then have "slice 2 (2 + 2 * length gs) (enc16 (2 * length gs) @ enc_words gs) = enc_words gs"
      using ok w(2) [of "2 * length gs" "enc_words gs"] by simp
    with SupportedGroups ok fields w(1) [of "2 * length gs" "enc_words gs"] u16_list_enc show ?thesis
      by (simp add: client_ext_def)
  next
    case (KeyShares ks)
    let ?b = "concat (map enc_ext ks)"
    have "parse_key_share_groups ?b = Some (map fst ks)"
      using key_share_loop_enc [of ks "[]"] KeyShares ok by (simp add: parse_key_share_groups_def)
    with KeyShares ok fields w [of "length ?b" ?b] show ?thesis by (simp add: client_ext_def)
  next
    case (OtherExt et ev)
    with ok fields show ?thesis by (simp add: client_ext_def)
  qed
qed

lemma parse_client_extensions_enc:
  assumes "list_all hello_ext_ok xs"
  shows "parse_client_extensions (concat (map (\<lambda>x. enc_ext (raw_ext x)) xs)) = Some (foldl (\<lambda>a x. hello_ext_acc x a) ([], [], []) xs)"
proof -
  have "run_exts client_ext (map raw_ext xs) acc = Some (foldl (\<lambda>a x. hello_ext_acc x a) acc xs)" for acc
    using assms by (induction xs arbitrary: acc) (simp_all add: client_ext_raw)
  moreover have "list_all ext_ok (map raw_ext xs)" using assms by (induction xs) (simp_all add: raw_ext_ok)
  ultimately show ?thesis
    using ext_loop_enc [of "map raw_ext xs" client_ext "[]"] by (simp add: parse_client_extensions_def comp_def)
qed

definition client_hello_bytes ::
  "nat \<Rightarrow> byte list \<Rightarrow> byte list \<Rightarrow> nat list \<Rightarrow> byte list \<Rightarrow> hello_ext list \<Rightarrow> byte list" where
  "client_hello_bytes ver rnd sid cs cm xs =
     (let exts = concat (map (\<lambda>x. enc_ext (raw_ext x)) xs) in
      enc16 ver @ rnd @ [byte_of (length sid)] @ sid @ enc16 (2 * length cs) @ enc_words cs @ [byte_of (length cm)] @ cm
        @ enc16 (length exts) @ exts)"

definition enc24 :: "nat \<Rightarrow> byte list" where
  "enc24 n = [byte_of (n div 65536), byte_of (n div 256 mod 256), byte_of (n mod 256)]"

definition handshake_record :: "byte \<Rightarrow> byte list \<Rightarrow> byte list" where
  "handshake_record msg_type body =
     (let hs = msg_type # enc24 (length body) @ body in [0x16, 0x03, 0x01] @ enc16 (length hs) @ hs)"

lemma enc24_facts: "length (enc24 n) = 3" "n < 16777216 \<Longrightarrow> be_nat (enc24 n) = n"
proof -
  assume "n < 16777216"
  moreover have "n div 65536 = n div 256 div 256" by (simp add: div_mult2_eq [symmetric])
  moreover from this have "256 * (256 * (n div 65536) + n div 256 mod 256) + n mod 256 = n" by simp
  ultimately show "be_nat (enc24 n) = n" by (simp add: enc24_def be_nat_def unat_byte_of)
qed (simp add: enc24_def)

lemma parse_client_hello_enc:
  assumes "ver < 65536" and "length rnd = 32" and "length sid < 256" and "words_ok cs" and "length cs < 32768"
    and "length cm < 256" and "list_all hello_ext_ok xs"
    and "length (concat (map (\<lambda>x. enc_ext (raw_ext x)) xs)) < 65536"
    and "foldl (\<lambda>a x. hello_ext_acc x a) ([], [], []) xs = (vs, gs, ks)"
  shows "parse_client_hello (client_hello_bytes ver rnd sid cs cm xs) =
     Some (Some \<lparr>ch_legacy_version = ver, ch_cipher_suites = cs, ch_versions = vs, ch_groups = dedupe (gs @ ks),
                 ch_key_share_groups = ks\<rparr>)"
proof -
  let ?e = "concat (map (\<lambda>x. enc_ext (raw_ext x)) xs)"
  let ?d = "client_hello_bytes ver rnd sid cs cm xs"
  let ?p1 = "enc16 ver @ rnd" and ?s = "length sid" and ?c = "2 * length cs"
  let ?p2 = "?p1 @ [byte_of ?s] @ sid"
  let ?p3 = "?p2 @ enc16 ?c @ enc_words cs"
  let ?p4 = "?p3 @ [byte_of (length cm)] @ cm"
  have d: "?d = ?p4 @ enc16 (length ?e) @ ?e" by (simp add: client_hello_bytes_def Let_def)
  have 1: "u16_at ?d 0 = Some ver" unfolding d using u16_at_enc16 [OF assms(1), of "[]" 0] by simp
  have 2: "at ?d 34 = Some (byte_of ?s)" unfolding d using at_mid [of ?p1 34 "byte_of ?s"] assms(2) by simp
  have 3: "u16_at ?d (35 + ?s) = Some ?c" unfolding d using u16_at_enc16 [of ?c ?p2 "35 + ?s"] assms by simp
  have 4: "slice (35 + ?s + 2) (35 + ?s + 2 + ?c) ?d = enc_words cs" unfolding d
    using slice_mid [of "?p2 @ enc16 ?c" "35 + ?s + 2" "enc_words cs" "35 + ?s + 2 + ?c"] assms(2) by simp
  let ?o = "35 + ?s + 2 + ?c"
  have 5: "at ?d ?o = Some (byte_of (length cm))" unfolding d using at_mid [of ?p3 ?o "byte_of (length cm)"] assms(2) by simp
  let ?q = "?o + 1 + length cm"
  have 6: "u16_at ?d ?q = Some (length ?e)" unfolding d
    using u16_at_enc16 [of "length ?e" ?p4 ?q ?e] assms(2,8) by simp
  have 7: "slice (?q + 2) (?q + 2 + length ?e) ?d = ?e" unfolding d
    using slice_mid [of "?p4 @ enc16 (length ?e)" "?q + 2" ?e "?q + 2 + length ?e" "[]"] assms(2) by simp
  have len: "length ?d = ?q + 2 + length ?e" unfolding d using assms(2) by simp
  have u: "unat (byte_of ?s) = ?s" "unat (byte_of (length cm)) = length cm" using assms(3,6) by (simp_all add: unat_byte_of)
  have n: "\<not> length ?d < 35" "\<not> length ?d < 35 + ?s + 2" "\<not> length ?d < ?o + 1" "length ?d \<ge> ?q + 2" using len by linarith+
  show ?thesis
    unfolding parse_client_hello_def
    by (simp only: n if_False if_True Let_def 1 2 Option.bind.bind_lunit u 3 4 u16_list_enc [OF assms(4)] 5 6 7
        parse_client_extensions_enc [OF assms(7)] assms(9) prod.case)
qed

lemma parse_client_record:
  assumes "ver < 65536" and "length rnd = 32" and "length sid < 256" and "words_ok cs" and "length cs < 32768"
    and "length cm < 256" and "list_all hello_ext_ok xs"
    and "length (client_hello_bytes ver rnd sid cs cm xs) < 65532"
    and "foldl (\<lambda>a x. hello_ext_acc x a) ([], [], []) xs = (vs, gs, ks)"
  shows "parse_tls_handshake (handshake_record 0x01 (client_hello_bytes ver rnd sid cs cm xs) @ rest) =
     Some (ClientHello \<lparr>ch_legacy_version = ver, ch_cipher_suites = cs, ch_versions = vs, ch_groups = dedupe (gs @ ks),
                         ch_key_share_groups = ks\<rparr>)"
proof -
  let ?b = "client_hello_bytes ver rnd sid cs cm xs"
  let ?hs = "0x01 # enc24 (length ?b) @ ?b"
  have e: "length (concat (map (\<lambda>x. enc_ext (raw_ext x)) xs)) < 65536" using assms(8) by (simp add: client_hello_bytes_def Let_def)
  have hs: "length ?hs < 65536" "length ?hs \<ge> 4" using assms(8) enc24_facts(1) by simp_all
  let ?d = "[0x16, 0x03, 0x01] @ enc16 (length ?hs) @ ?hs @ rest"
  have r: "u16_at ?d 3 = Some (length ?hs)" using u16_at_enc16 [OF hs(1), of "[0x16, 0x03, 0x01]" 3] by simp
  have s: "slice 5 (5 + length ?hs) ?d = ?hs"
    using slice_mid [of "[0x16, 0x03, 0x01] @ enc16 (length ?hs)" 5 ?hs "5 + length ?hs" rest] by simp
  have b: "be_nat (slice 1 4 ?hs) = length ?b" "slice 4 (4 + length ?b) ?hs = ?b"
    using slice_mid [of "[0x01]" 1 "enc24 (length ?b)" 4 ?b] slice_mid [of "0x01 # enc24 (length ?b)" 4 ?b "4 + length ?b" "[]"]
      enc24_facts [of "length ?b"] assms(8) by simp_all
  have z: "?d ! 0 = 0x16" "at ?hs 0 = Some 0x01" by (simp_all add: at_def)
  have n: "\<not> length ?d < 9" "\<not> length ?hs < 4" using hs(2) by simp_all
  have "handshake_record 0x01 ?b @ rest = ?d" by (simp add: handshake_record_def Let_def)
  moreover have "tls_handshake_body ?d = Some (Some (ClientHello \<lparr>ch_legacy_version = ver, ch_cipher_suites = cs,
      ch_versions = vs, ch_groups = dedupe (gs @ ks), ch_key_share_groups = ks\<rparr>))"
    unfolding tls_handshake_body_def
    by (simp only: n z simp_thms if_False if_True r Option.bind.bind_lunit Let_def s b option.map
        parse_client_hello_enc [OF assms(1-7) e assms(9)])
  ultimately show ?thesis by (simp add: parse_tls_handshake_def)
qed

text \<open>What the client offered is what the inventory shows: for every ClientHello, with any session
  id, compression list and extensions in any order, and whatever follows it in the stream, the
  parser recovers the cipher suites, the versions and the groups, the supported groups first and a
  key-share group not listed there after them, without duplicates.\<close>

theorem parse_tls_client_hello:
  assumes "ver < 65536" and "length rnd = 32" and "length sid < 256" and "words_ok cs" and "length cs < 32768"
    and "length cm < 256" and "list_all hello_ext_ok xs"
    and "length (client_hello_bytes ver rnd sid cs cm xs) < 65532"
    and "foldl (\<lambda>a x. hello_ext_acc x a) ([], [], []) xs = (vs, gs, ks)"
  shows "parse_tls_handshake (handshake_record 0x01 (client_hello_bytes ver rnd sid cs cm xs) @ rest) =
     Some (ClientHello \<lparr>ch_legacy_version = ver, ch_cipher_suites = cs, ch_versions = vs, ch_groups = dedupe (gs @ ks),
                         ch_key_share_groups = ks\<rparr>)"
  using assms by (rule parse_client_record)

theorem parse_tls_client_hello_witness:
  "parse_tls_handshake (handshake_record 0x01
      (client_hello_bytes 0x0303 (zeros 32) [] [0x1301] [0] [SupportedGroups [0x001D, 0x11EC], KeyShares [(0x001D, [1, 2])]])) =
   Some (ClientHello \<lparr>ch_legacy_version = 0x0303, ch_cipher_suites = [0x1301], ch_versions = [],
     ch_groups = [0x001D, 0x11EC], ch_key_share_groups = [0x001D]\<rparr>)"
  using parse_tls_client_hello [where ver = "0x0303" and rnd = "zeros 32" and sid = "[]" and cs = "[0x1301]" and cm = "[0]"
      and xs = "[SupportedGroups [0x001D, 0x11EC], KeyShares [(0x001D, [1, 2])]]" and rest = "[]"]
  by (simp add: zeros_def words_ok_def ext_ok_def enc_ext_def client_hello_bytes_def Let_def dedupe_def)

end
