(* ===== verification/Key_Schedule.thy ===== *)
theory Key_Schedule
  imports Bytes
begin

unbundle bit_operations_syntax

text \<open>
  \<^verbatim>\<open>probes/_tls13_keyschedule.py\<close>: HKDF, the handshake traffic keys of TLS 1.3 and opening one
  encrypted record. The digest and HMAC of \<^verbatim>\<open>hashlib\<close> and \<^verbatim>\<open>hmac\<close> and the AEAD of the
  \<^verbatim>\<open>cryptography\<close> package are arguments; what is used of them is a hypothesis where a
  theorem needs it. \<^const>\<open>None\<close> is an exception: a \<^verbatim>\<open>ValueError\<close> of \<^verbatim>\<open>bytes\<close>, a
  \<^verbatim>\<open>KeyError\<close>, a \<^verbatim>\<open>struct.error\<close> or an \<^verbatim>\<open>OverflowError\<close>.
\<close>

type_synonym digest_fn = "string \<Rightarrow> byte list \<Rightarrow> byte list"
type_synonym hmac_fn = "string \<Rightarrow> byte list \<Rightarrow> byte list \<Rightarrow> byte list"

text \<open>\<^verbatim>\<open>open key nonce ciphertext associated_data\<close>; \<^const>\<open>None\<close> when decryption raises.\<close>

type_synonym aead_fn = "byte list \<Rightarrow> byte list \<Rightarrow> byte list \<Rightarrow> byte list \<Rightarrow> byte list option"

section \<open>HKDF\<close>

definition CIPHER_SUITES :: "(nat \<times> string \<times> nat \<times> bool) list" where
  "CIPHER_SUITES = [(0x1301, ''sha256'', 16, False), (0x1302, ''sha384'', 32, False), (0x1303, ''sha256'', 32, True)]"

text \<open>The two digests of the table.\<close>

definition digest_size :: "string \<Rightarrow> nat" where
  "digest_size h = (if h = ''sha256'' then 32 else 48)"

definition hkdf_extract :: "hmac_fn \<Rightarrow> byte list \<Rightarrow> byte list \<Rightarrow> string \<Rightarrow> byte list" where
  "hkdf_extract hmac salt ikm h = hmac h (if salt = [] then zeros (digest_size h) else salt) ikm"

text \<open>The loop over \<^verbatim>\<open>i\<close>; \<^verbatim>\<open>bytes([i])\<close> raises from 256 on.\<close>

fun expand_loop :: "hmac_fn \<Rightarrow> string \<Rightarrow> byte list \<Rightarrow> byte list \<Rightarrow> byte list \<Rightarrow> nat \<Rightarrow> nat \<Rightarrow> byte list option" where
  "expand_loop hmac h prk info t i 0 = Some []"
| "expand_loop hmac h prk info t i (Suc k) =
     (if i < 256 then
        (let t' = hmac h prk (t @ info @ [byte_of i])
         in map_option ((@) t') (expand_loop hmac h prk info t' (i + 1) k))
      else None)"

definition hkdf_expand :: "hmac_fn \<Rightarrow> byte list \<Rightarrow> byte list \<Rightarrow> nat \<Rightarrow> string \<Rightarrow> byte list option" where
  "hkdf_expand hmac prk info len h =
     (let n = (len + digest_size h - 1) div digest_size h
      in map_option (take len) (expand_loop hmac h prk info [] 1 n))"

definition ascii_bytes :: "string \<Rightarrow> byte list" where
  "ascii_bytes s = map (\<lambda>c. byte_of (char_code c)) s"

definition hkdf_expand_label :: "hmac_fn \<Rightarrow> byte list \<Rightarrow> string \<Rightarrow> byte list \<Rightarrow> nat \<Rightarrow> string \<Rightarrow> byte list option" where
  "hkdf_expand_label hmac secret label ctxt len h = do {
     let full_label = ascii_bytes (''tls13 '' @ label);
     l2 \<leftarrow> pack_H len;
     ln \<leftarrow> pack_B (length full_label);
     cn \<leftarrow> pack_B (length ctxt);
     hkdf_expand hmac secret (l2 @ ln @ full_label @ cn @ ctxt) len h }"

definition derive_secret :: "hmac_fn \<Rightarrow> byte list \<Rightarrow> string \<Rightarrow> byte list \<Rightarrow> string \<Rightarrow> byte list option" where
  "derive_secret hmac secret label transcript h = hkdf_expand_label hmac secret label transcript (digest_size h) h"

section \<open>Handshake keys\<close>

record handshake_keys =
  hk_hash_name :: string
  hk_key_len :: nat
  hk_is_chacha :: bool
  hk_handshake_secret :: "byte list"
  hk_client_hs_secret :: "byte list"
  hk_server_hs_secret :: "byte list"
  hk_client_key :: "byte list"
  hk_client_iv :: "byte list"
  hk_server_key :: "byte list"
  hk_server_iv :: "byte list"

definition handshake_traffic_keys :: "digest_fn \<Rightarrow> hmac_fn \<Rightarrow> byte list \<Rightarrow> byte list \<Rightarrow> nat \<Rightarrow> handshake_keys option" where
  "handshake_traffic_keys digest hmac shared_secret hello_transcript cipher_suite = do {
     (h, key_len, is_chacha) \<leftarrow> map_of CIPHER_SUITES cipher_suite;
     let empty_hash = digest h [];
     let th = digest h hello_transcript;
     let early_secret = hkdf_extract hmac [] (zeros (digest_size h)) h;
     derived \<leftarrow> derive_secret hmac early_secret ''derived'' empty_hash h;
     let handshake_secret = hkdf_extract hmac derived shared_secret h;
     client_hs \<leftarrow> derive_secret hmac handshake_secret ''c hs traffic'' th h;
     server_hs \<leftarrow> derive_secret hmac handshake_secret ''s hs traffic'' th h;
     ck \<leftarrow> hkdf_expand_label hmac client_hs ''key'' [] key_len h;
     ci \<leftarrow> hkdf_expand_label hmac client_hs ''iv'' [] 12 h;
     sk \<leftarrow> hkdf_expand_label hmac server_hs ''key'' [] key_len h;
     si \<leftarrow> hkdf_expand_label hmac server_hs ''iv'' [] 12 h;
     Some \<lparr>hk_hash_name = h, hk_key_len = key_len, hk_is_chacha = is_chacha, hk_handshake_secret = handshake_secret,
           hk_client_hs_secret = client_hs, hk_server_hs_secret = server_hs, hk_client_key = ck, hk_client_iv = ci,
           hk_server_key = sk, hk_server_iv = si\<rparr> }"

section \<open>Records\<close>

text \<open>\<^verbatim>\<open>int.to_bytes(n, "big")\<close>.\<close>

definition to_bytes :: "nat \<Rightarrow> nat \<Rightarrow> byte list option" where
  "to_bytes n v = (if v < 256 ^ n then Some (be_digits n v) else None)"

definition xor_bytes :: "byte list \<Rightarrow> byte list \<Rightarrow> byte list" where
  "xor_bytes xs ys = map2 (XOR) xs ys"

definition record_nonce :: "byte list \<Rightarrow> nat \<Rightarrow> byte list option" where
  "record_nonce iv seq = map_option (xor_bytes iv) (to_bytes (length iv) seq)"

text \<open>The inner plaintext without zero padding and content type.\<close>

definition strip_inner :: "byte list \<Rightarrow> byte list option" where
  "strip_inner inner =
     (case dropWhile (\<lambda>b. b = 0) (rev inner) of [] \<Rightarrow> None | _ # r \<Rightarrow> Some (rev r))"

definition aead_open :: "aead_fn \<Rightarrow> aead_fn \<Rightarrow> byte list \<Rightarrow> byte list \<Rightarrow> nat \<Rightarrow> byte list \<Rightarrow> bool \<Rightarrow> byte list option option" where
  "aead_open aesgcm chacha key iv seq rec is_chacha =
     (if length rec < 5 then Some None
      else do {
        nonce \<leftarrow> record_nonce iv seq;
        Some (case (if is_chacha then chacha else aesgcm) key nonce (drop 5 rec) (take 5 rec) of
                None \<Rightarrow> None
              | Some inner \<Rightarrow> strip_inner inner) })"

section \<open>Facts\<close>

lemma digest_size_pos: "0 < digest_size h" "digest_size h \<le> 48"
  by (simp_all add: digest_size_def)

lemma expand_loop_length:
  assumes "\<And>k m. length (hmac h k m) = digest_size h" and "expand_loop hmac h prk info t i k = Some okm"
  shows "length okm = k * digest_size h"
  using assms(2)
proof (induction k arbitrary: t i okm)
  case (Suc k)
  then show ?case by (auto simp: assms(1) Let_def split: if_splits)
qed simp

lemma expand_loop_defined: "i + k \<le> 256 \<Longrightarrow> \<exists>okm. expand_loop hmac h prk info t i k = Some okm"
  by (induction k arbitrary: t i) (simp_all add: Let_def)

text \<open>More blocks only append.\<close>

lemma expand_loop_more:
  "expand_loop hmac h prk info t i (k + j) = Some okm \<Longrightarrow> \<exists>pre suf. expand_loop hmac h prk info t i k = Some pre \<and> okm = pre @ suf"
proof (induction k arbitrary: t i okm)
  case (Suc k)
  then show ?case by (fastforce simp: Let_def split: if_splits)
qed simp

lemma xor_bytes_cancel: "length xs = length ys \<Longrightarrow> xor_bytes xs (xor_bytes xs ys) = ys"
  by (induction xs ys rule: list_induct2) (simp_all add: xor_bytes_def bit.xor_left_self)

lemma blocks_bound:
  assumes "len \<le> 255 * digest_size h"
  shows "(len + digest_size h - 1) div digest_size h \<le> 255" and "len \<le> (len + digest_size h - 1) div digest_size h * digest_size h"
proof -
  have d: "0 < digest_size h" by (rule digest_size_pos)
  have "(len + digest_size h - 1) div digest_size h < 256"
    using assms d by (intro less_mult_imp_div_less) simp
  then show "(len + digest_size h - 1) div digest_size h \<le> 255" by simp
  have "digest_size h * ((len + digest_size h - 1) div digest_size h) + (len + digest_size h - 1) mod digest_size h = len + digest_size h - 1"
    by (rule mult_div_mod_eq)
  moreover have "(len + digest_size h - 1) mod digest_size h < digest_size h" using d by simp
  ultimately show "len \<le> (len + digest_size h - 1) div digest_size h * digest_size h"
    unfolding mult.commute [of _ "digest_size h"] by linarith
qed

lemma hkdf_expand_block:
  assumes "\<And>k m. length (hmac h k m) = digest_size h" and "len \<le> 255 * digest_size h"
  shows "\<exists>okm. hkdf_expand hmac prk info len h = Some okm \<and> length okm = len \<and>
     (\<forall>m \<le> len. hkdf_expand hmac prk info m h = Some (take m okm))"
proof -
  let ?n = "\<lambda>len. (len + digest_size h - 1) div digest_size h"
  obtain ok where ok: "expand_loop hmac h prk info [] 1 (?n len) = Some ok"
    using expand_loop_defined [of 1 "?n len"] blocks_bound(1) [OF assms(2)] by fastforce
  have len: "length ok = ?n len * digest_size h" using expand_loop_length [OF assms(1) ok] .
  have sub: "hkdf_expand hmac prk info m h = Some (take m (take len ok))" if "m \<le> len" for m
  proof -
    have "?n m \<le> ?n len" using that by (intro div_le_mono) simp
    then obtain j where j: "?n len = ?n m + j" using le_Suc_ex by blast
    obtain pre suf where p: "expand_loop hmac h prk info [] 1 (?n m) = Some pre" "ok = pre @ suf"
      using expand_loop_more [OF ok [unfolded j]] by blast
    have "m \<le> length pre"
      using expand_loop_length [OF assms(1) p(1)] blocks_bound(2) [of m h] that assms(2) by simp
    with p that show ?thesis by (simp add: hkdf_expand_def Let_def min_def)
  qed
  have "length (take len ok) = len" using len blocks_bound(2) [OF assms(2)] by simp
  with sub [of len] sub show ?thesis by auto
qed

text \<open>HKDF-Expand delivers: with an HMAC of the digest's length it returns for every length up to
  255 blocks, the output has exactly that length, and a shorter output is a prefix of a longer one.\<close>

theorem hkdf_expand_exact:
  assumes "\<And>k m. length (hmac h k m) = digest_size h" and "len \<le> 255 * digest_size h"
  shows "\<exists>okm. hkdf_expand hmac prk info len h = Some okm \<and> length okm = len \<and>
     (\<forall>m \<le> len. hkdf_expand hmac prk info m h = Some (take m okm))"
  using hkdf_expand_block [of hmac h len prk info] assms by blast

theorem hkdf_expand_exact_witness:
  "\<exists>okm. hkdf_expand (\<lambda>h k m. zeros (digest_size h)) [1] [2] 100 ''sha256'' = Some okm \<and> length okm = 100 \<and>
     (\<forall>m \<le> 100. hkdf_expand (\<lambda>h k m. zeros (digest_size h)) [1] [2] m ''sha256'' = Some (take m okm))"
  by (rule hkdf_expand_exact) (simp_all add: zeros_def digest_size_def)

lemma hkdf_expand_label_ok:
  assumes "\<And>k m. length (hmac h k m) = digest_size h" and "len \<le> 48" and "length label < 250" and "length ctxt < 256"
  shows "\<exists>okm. hkdf_expand_label hmac secret label ctxt len h = Some okm \<and> length okm = len"
proof -
  have "len \<le> 255 * digest_size h" using assms(2) by (simp add: digest_size_def)
  then have "\<exists>okm. hkdf_expand hmac secret info len h = Some okm \<and> length okm = len" for info
    using hkdf_expand_block [of hmac h len secret] assms(1) by blast
  with assms(2-4) show ?thesis
    by (simp add: hkdf_expand_label_def ascii_bytes_def pack_H_def pack_B_def Let_def)
qed



text \<open>No nonce is used twice under one key: two record sequence numbers that fit the IV have the
  same nonce only when they are equal.\<close>

theorem record_nonce_inj:
  "record_nonce iv m = Some n1 \<and> record_nonce iv n = Some n1 \<longrightarrow> m = n"
proof (intro impI, elim conjE)
  assume m: "record_nonce iv m = Some n1" and n: "record_nonce iv n = Some n1"
  have b: "m < 256 ^ length iv" "n1 = xor_bytes iv (be_digits (length iv) m)"
    using m by (auto simp: record_nonce_def to_bytes_def split: if_splits)
  have c: "n < 256 ^ length iv" "n1 = xor_bytes iv (be_digits (length iv) n)"
    using n by (auto simp: record_nonce_def to_bytes_def split: if_splits)
  have "be_digits (length iv) m = be_digits (length iv) n"
    using xor_bytes_cancel [of iv "be_digits (length iv) m", folded b(2)]
      xor_bytes_cancel [of iv "be_digits (length iv) n", folded c(2)] length_be_digits by metis
  then show "m = n" using be_nat_be_digits [OF b(1)] be_nat_be_digits [OF c(1)] by metis
qed

theorem record_nonce_inj_witness:
  "record_nonce (zeros 12) 0 \<noteq> None \<and> record_nonce (zeros 12) 1 \<noteq> record_nonce (zeros 12) 0"
proof -
  obtain x where "record_nonce (zeros 12) 0 = Some x" by (simp add: record_nonce_def to_bytes_def zeros_def)
  with record_nonce_inj [of "zeros 12" 1 x 0] show ?thesis by auto
qed

lemma strip_inner_padded: "ct \<noteq> 0 \<Longrightarrow> strip_inner (pt @ ct # zeros k) = Some pt"
proof -
  assume "ct \<noteq> 0"
  moreover have "dropWhile (\<lambda>b. b = 0) (zeros k @ ys) = dropWhile (\<lambda>b. b = 0) ys" for ys :: "byte list"
    by (induction k) (simp_all add: zeros_def)
  moreover have "rev (zeros k) = zeros k" by (simp add: zeros_def)
  ultimately show ?thesis by (simp add: strip_inner_def)
qed

text \<open>Opening inverts sealing: when the AEAD decrypts what its counterpart sealed, opening the
  record of a sealed inner plaintext with any content type and any amount of padding returns
  exactly the plaintext.\<close>

theorem aead_open_sealed:
  assumes "\<And>k n p a. chacha k n (seal k n p a) a = Some p" and "length hdr = 5" and "ct \<noteq> 0"
    and "record_nonce iv seq = Some nonce"
  shows "aead_open aesgcm chacha key iv seq (hdr @ seal key nonce (pt @ ct # zeros pad) hdr) True = Some (Some pt)"
  using assms by (simp add: aead_open_def strip_inner_padded)

theorem aead_open_sealed_witness:
  "aead_open (\<lambda>k n c a. None) (\<lambda>k n c a. Some c) [1] (zeros 12) 3 ([23, 3, 3, 0, 9] @ [7, 8, 22] @ zeros 2) True = Some (Some [7, 8])"
proof -
  obtain nonce where n: "record_nonce (zeros 12) 3 = Some nonce" by (simp add: record_nonce_def to_bytes_def zeros_def)
  show ?thesis
    using aead_open_sealed [where chacha = "\<lambda>k n c a. Some c" and seal = "\<lambda>k n p a. p" and hdr = "[23, 3, 3, 0, 9]" and ct = 22
        and pad = 2 and pt = "[7, 8]", OF _ _ _ n]
    by simp
qed

end
