(* ===== verification/Quic.thy ===== *)
theory Quic
  imports Key_Schedule Pcap
begin

unbundle bit_operations_syntax

text \<open>
  \<^verbatim>\<open>probes/_quic.py\<close>: from the UDP payload of a QUIC client Initial packet to the TLS
  handshake bytes in its CRYPTO frames. The HMAC, the AES block and the AES-GCM decryption are
  arguments. \<open>extract_client_hello\<close> returns an option of an option, the outer one for an
  exception that escapes; that none does is a theorem.
\<close>

section \<open>Versions and keys\<close>

definition QUIC_V1 :: nat where "QUIC_V1 = 0x00000001"

definition QUIC_V2 :: nat where "QUIC_V2 = 0x6B3343CF"

definition VERSIONS :: "(nat \<times> byte list \<times> string) list" where
  "VERSIONS =
     [(QUIC_V1, [0x38, 0x76, 0x2c, 0xf7, 0xf5, 0x59, 0x34, 0xb3, 0x4d, 0x17, 0x9a, 0xe6, 0xa4, 0xc8, 0x0c, 0xad, 0xcc, 0xbb,
        0x7f, 0x0a], ''quic''),
      (QUIC_V2, [0x0d, 0xed, 0xe3, 0xde, 0xf7, 0x00, 0xa6, 0xdb, 0x81, 0x93, 0x81, 0xbe, 0x6e, 0x26, 0x9d, 0xcb, 0xf9, 0xbd,
        0x2e, 0xd9], ''quicv2'')]"

definition INITIAL_TYPE :: "nat \<Rightarrow> nat" where
  "INITIAL_TYPE v = (if v = QUIC_V1 then 0 else 1)"

definition SAMPLE_LEN :: nat where "SAMPLE_LEN = 16"

definition MAX_QUIC :: nat where "MAX_QUIC = 65536"

definition derive_initial_keys ::
  "hmac_fn \<Rightarrow> byte list \<Rightarrow> nat \<Rightarrow> (byte list \<times> byte list \<times> byte list) option option" where
  "derive_initial_keys hmac dcid version =
     (case map_of VERSIONS version of
        None \<Rightarrow> Some None
      | Some (salt, pfx) \<Rightarrow> do {
          let initial_secret = hkdf_extract hmac salt dcid ''sha256'';
          cis \<leftarrow> hkdf_expand_label hmac initial_secret ''client in'' [] 32 ''sha256'';
          key \<leftarrow> hkdf_expand_label hmac cis (pfx @ '' key'') [] 16 ''sha256'';
          iv \<leftarrow> hkdf_expand_label hmac cis (pfx @ '' iv'') [] 12 ''sha256'';
          hp \<leftarrow> hkdf_expand_label hmac cis (pfx @ '' hp'') [] 16 ''sha256'';
          Some (Some (key, iv, hp)) })"

section \<open>Variable-length integers and frames\<close>

definition varint :: "byte list \<Rightarrow> nat \<Rightarrow> (nat \<times> nat) option" where
  "varint buf off =
     (if off \<ge> length buf then None
      else
        (let len = 2 ^ unat (drop_bit 6 (buf ! off)) in
         if off + len > length buf then None
         else Some (foldl (\<lambda>v b. v * 256 + unat b) (unat (buf ! off AND 0x3F)) (slice (off + 1) (off + len) buf), off + len)))"

lemma varint_next: "varint buf off = Some (v, n) \<Longrightarrow> off < n \<and> n \<le> length buf"
  by (auto simp: varint_def Let_def split: if_splits)

fun skip_varints :: "byte list \<Rightarrow> nat \<Rightarrow> nat \<Rightarrow> nat option" where
  "skip_varints buf off 0 = Some off"
| "skip_varints buf off (Suc k) = (case varint buf off of None \<Rightarrow> None | Some (_, n) \<Rightarrow> skip_varints buf n k)"

lemma skip_varints_next: "skip_varints buf off k = Some n \<Longrightarrow> off \<le> n"
  by (induction k arbitrary: off) (fastforce dest: varint_next split: option.splits)+

type_synonym chunks = "(nat \<times> byte list) list"

text \<open>The frame loop returns the chunks it has when it stops.\<close>

function frames_loop :: "byte list \<Rightarrow> nat \<Rightarrow> chunks \<Rightarrow> chunks" where
  "frames_loop frames off chunks =
     (if off < length frames then
        (let ftype = frames ! off in
         if ftype = 0x00 \<or> ftype = 0x01 then frames_loop frames (off + 1) chunks
         else if ftype = 0x02 \<or> ftype = 0x03 then
           (case skip_varints frames (off + 1) 4 of
              None \<Rightarrow> chunks
            | Some off' \<Rightarrow> frames_loop frames off' chunks)
         else if ftype = 0x06 then
           (case varint frames (off + 1) of
              None \<Rightarrow> chunks
            | Some (c_off, p) \<Rightarrow>
                (case varint frames p of
                   None \<Rightarrow> chunks
                 | Some (c_len, q) \<Rightarrow>
                     frames_loop frames (q + c_len) (AList.update c_off (slice q (q + c_len) frames) chunks)))
         else chunks)
      else chunks)"
  by pat_completeness auto
termination
  by (relation "measure (\<lambda>(frames, off, chunks). length frames - off)")
     (auto dest!: varint_next skip_varints_next)

declare frames_loop.simps [simp del]

fun join_loop :: "byte list \<Rightarrow> chunks \<Rightarrow> byte list" where
  "join_loop out [] = out"
| "join_loop out ((offset, c) # cs) = (if offset \<noteq> length out then out else join_loop (out @ c) cs)"

definition join_chunks :: "chunks \<Rightarrow> byte list option" where
  "join_chunks chunks =
     (if chunks = [] then None
      else (let out = join_loop [] (sort_key fst chunks) in if out = [] then None else Some out))"

definition reassemble_crypto :: "byte list \<Rightarrow> byte list option" where
  "reassemble_crypto frames = join_chunks (frames_loop frames 0 [])"

section \<open>Initial packets\<close>

record initial_packet =
  ip_version :: nat
  ip_dcid :: "byte list"
  ip_length :: nat
  ip_pn_offset :: nat

text \<open>The unprotected part of the long header; an \<^verbatim>\<open>IndexError\<close> is caught and returns \<^const>\<open>None\<close>.\<close>

definition parse_initial :: "byte list \<Rightarrow> initial_packet option" where
  "parse_initial b =
     (if b = [] \<or> b ! 0 AND 0x80 = 0 \<or> length b > MAX_QUIC \<or> length b < 7 then None
      else
        (let version = be_nat (slice 1 5 b) in
         if map_of VERSIONS version = None then None
         else if unat (drop_bit 4 (b ! 0 AND 0x30)) \<noteq> INITIAL_TYPE version then None
         else do {
           dl \<leftarrow> at b 5;
           let dcid = slice 6 (6 + unat dl) b;
           sl \<leftarrow> at b (6 + unat dl);
           (token_len, o1) \<leftarrow> varint b (6 + unat dl + 1 + unat sl);
           (len, pn_offset) \<leftarrow> varint b (o1 + token_len);
           Some \<lparr>ip_version = version, ip_dcid = dcid, ip_length = len, ip_pn_offset = pn_offset\<rparr> }))"

type_synonym block_fn = "byte list \<Rightarrow> byte list \<Rightarrow> byte list"

text \<open>Removing header protection and opening the payload, once the keys are known.\<close>

definition open_initial ::
  "block_fn \<Rightarrow> aead_fn \<Rightarrow> byte list \<Rightarrow> initial_packet \<Rightarrow> byte list \<Rightarrow> byte list \<Rightarrow> byte list \<Rightarrow> byte list option option" where
  "open_initial aes_ecb aesgcm b ip key iv hp =
     (let pn_offset = ip_pn_offset ip;
          sample = slice (pn_offset + 4) (pn_offset + 4 + SAMPLE_LEN) b in
      if length sample < SAMPLE_LEN then Some None
      else do {
        let mask = aes_ecb hp sample;
        m0 \<leftarrow> at mask 0;
        let first = b ! 0 XOR (m0 AND 0x0F);
        let pn_len = unat (first AND 0x03) + 1;
        if pn_offset + pn_len > length b then Some None
        else if length mask < pn_len + 1 then None
        else do {
          let pn_bytes = xor_bytes (slice pn_offset (pn_offset + pn_len) b) (slice 1 (1 + pn_len) mask);
          let header = first # slice 1 pn_offset b @ pn_bytes;
          let ciphertext = slice (pn_offset + pn_len) (pn_offset + ip_length ip) b;
          if length ciphertext < 16 then Some None
          else do {
            pn12 \<leftarrow> to_bytes 12 (be_nat pn_bytes);
            if length iv < 12 then None
            else
              Some (case aesgcm key (xor_bytes (take 12 iv) pn12) ciphertext header of
                      None \<Rightarrow> None
                    | Some plaintext \<Rightarrow> reassemble_crypto plaintext) } } })"

definition extract_client_hello :: "hmac_fn \<Rightarrow> block_fn \<Rightarrow> aead_fn \<Rightarrow> byte list \<Rightarrow> byte list option option" where
  "extract_client_hello hmac aes_ecb aesgcm b =
     (case parse_initial b of
        None \<Rightarrow> Some None
      | Some ip \<Rightarrow> do {
          keys \<leftarrow> derive_initial_keys hmac (ip_dcid ip) (ip_version ip);
          (case keys of
             None \<Rightarrow> Some None
           | Some (key, iv, hp) \<Rightarrow> open_initial aes_ecb aesgcm b ip key iv hp) })"

end
