(* ===== verification/Quic_Laws.thy ===== *)
theory Quic_Laws
  imports Quic Pcap_Laws "HOL-Library.Multiset"
begin

unbundle bit_operations_syntax

text \<open>
  What \<open>Quic\<close> recovers: variable-length integers, the handshake stream from CRYPTO frames in any
  order, and the stream from a protected Initial packet, all against reference encoders of RFC 9000
  and RFC 9001.
\<close>

section \<open>Variable-length integers\<close>

definition varint_width :: "nat \<Rightarrow> nat" where
  "varint_width v = (if v < 64 then 0 else if v < 16384 then 1 else if v < 1073741824 then 2 else 3)"

text \<open>The two top bits of the first byte carry the width.\<close>

definition enc_varint :: "nat \<Rightarrow> byte list" where
  "enc_varint v = (let k = varint_width v in be_digits (2 ^ k) (k * 64 * 256 ^ (2 ^ k - 1) + v))"

lemma foldl_from: "foldl (\<lambda>v b. v * 256 + unat b) m bs = m * 256 ^ length bs + be_nat bs"
  using foldl_be_nat [of m bs] by (simp add: mult.commute)

lemma length_enc_varint [simp]: "length (enc_varint v) = 2 ^ varint_width v"
  by (simp add: enc_varint_def Let_def)

lemma varint_width_bounds:
  assumes "v < 2 ^ 62"
  shows "varint_width v < 4" and "v < 64 * 256 ^ (2 ^ varint_width v - 1)"
  using assms by (auto simp: varint_width_def)

lemma be_digits_Cons: "be_digits (Suc n) v = byte_of (v div 256 ^ n mod 256) # be_digits n v"
  by (induction n arbitrary: v) (simp_all add: div_mult2_eq)

lemma be_digits_mod: "be_digits n (a * 256 ^ n + v) = be_digits n v"
proof (induction n arbitrary: v)
  case (Suc n)
  have "(a * 256 ^ Suc n + v) div 256 = a * 256 ^ n + v div 256" by (simp add: algebra_simps)
  moreover have "(a * 256 ^ Suc n + v) mod 256 = v mod 256"
    by (metis mod_mult_self3 mult.assoc mult.commute power_Suc)
  ultimately show ?case using Suc.IH by simp
qed simp

lemma byte_top_bits: "n < 256 \<Longrightarrow> unat (drop_bit 6 (byte_of n)) = n div 64" "n < 256 \<Longrightarrow> unat (byte_of n AND 0x3F) = n mod 64"
proof -
  assume n: "n < 256"
  show "unat (drop_bit 6 (byte_of n)) = n div 64"
    unfolding unat_drop_bit_eq unat_byte_of [OF n] by (simp add: drop_bit_eq_div)
  have "byte_of n AND 0x3F = take_bit 6 (byte_of n)" by (simp add: take_bit_eq_mask mask_eq_exp_minus_1)
  then have e: "unat (byte_of n AND 0x3F) = unat (take_bit 6 (byte_of n))" by (rule arg_cong)
  show "unat (byte_of n AND 0x3F) = n mod 64"
    unfolding e unsigned_take_bit_eq by (simp add: unat_byte_of n take_bit_eq_mod)
qed

lemma enc_varint_shape:
  assumes "v < 2 ^ 62"
  obtains b bs where "enc_varint v = b # bs" "unat (drop_bit 6 b) = varint_width v"
    "unat (b AND 0x3F) * 256 ^ length bs + be_nat bs = v" "Suc (length bs) = 2 ^ varint_width v"
proof -
  define k where "k = varint_width v"
  define n where "n = (2 :: nat) ^ k - 1"
  have n: "(2 :: nat) ^ k = Suc n" by (simp add: n_def)
  have kv: "k < 4" "v < 64 * 256 ^ n" using varint_width_bounds [OF assms] by (simp_all add: k_def n_def)
  define q where "q = v div 256 ^ n"
  have q: "q < 64" using kv(2) by (simp add: q_def less_mult_imp_div_less)
  have "(k * 64 * 256 ^ n + v) div 256 ^ n = k * 64 + q" by (simp add: q_def)
  moreover have small: "k * 64 + q < 256" using kv(1) q by simp
  ultimately have d: "enc_varint v = byte_of (k * 64 + q) # be_digits n v"
    unfolding enc_varint_def Let_def k_def [symmetric] n_def [symmetric] n be_digits_Cons
    using be_digits_mod [of n "k * 64" v] by simp
  have "be_nat (be_digits n v) = v mod 256 ^ n"
    using be_digits_mod [of n "v div 256 ^ n" "v mod 256 ^ n"] be_nat_be_digits [of "v mod 256 ^ n" n]
    by (simp only: div_mult_mod_eq mod_less_divisor zero_less_power zero_less_numeral)
  then have "unat (byte_of (k * 64 + q) AND 0x3F) * 256 ^ n + be_nat (be_digits n v) = v"
    using byte_top_bits(2) [OF small] q div_mult_mod_eq [of v "256 ^ n"] by (simp add: q_def)
  moreover have "unat (drop_bit 6 (byte_of (k * 64 + q))) = k" using byte_top_bits(1) [OF small] q by simp
  ultimately show ?thesis using that [OF d] n by (simp add: k_def)
qed

lemma varint_enc:
  assumes "v < 2 ^ 62" and "length pre = off"
  shows "varint (pre @ enc_varint v @ post) off = Some (v, off + length (enc_varint v))"
proof -
  obtain b bs where e: "enc_varint v = b # bs" "unat (drop_bit 6 b) = varint_width v"
    "unat (b AND 0x3F) * 256 ^ length bs + be_nat bs = v" "Suc (length bs) = 2 ^ varint_width v"
    using enc_varint_shape [OF assms(1)] by blast
  let ?d = "pre @ (b # bs) @ post"
  have "?d ! off = b" using assms(2) by (simp add: nth_append)
  moreover have "slice (off + 1) (off + Suc (length bs)) ?d = bs"
    using slice_mid [of "pre @ [b]" "off + 1" bs "off + Suc (length bs)" post] assms(2) by simp
  ultimately show ?thesis
    using e assms(2) by (simp add: varint_def Let_def foldl_from)
qed

section \<open>Frames\<close>

datatype quic_frame = Padding | Ping | Ack "nat list" | Crypto nat "byte list"

fun enc_frame :: "quic_frame \<Rightarrow> byte list" where
  "enc_frame Padding = [0x00]"
| "enc_frame Ping = [0x01]"
| "enc_frame (Ack vs) = 0x02 # concat (map enc_varint vs)"
| "enc_frame (Crypto off data) = 0x06 # enc_varint off @ enc_varint (length data) @ data"

fun frame_ok :: "quic_frame \<Rightarrow> bool" where
  "frame_ok (Ack vs) \<longleftrightarrow> length vs = 4 \<and> list_all (\<lambda>v. v < 2 ^ 62) vs"
| "frame_ok (Crypto off data) \<longleftrightarrow> off < 2 ^ 62 \<and> length data < 2 ^ 62"
| "frame_ok _ \<longleftrightarrow> True"

fun add_frame :: "chunks \<Rightarrow> quic_frame \<Rightarrow> chunks" where
  "add_frame cs (Crypto off data) = AList.update off data cs"
| "add_frame cs _ = cs"

lemma skip_varints_enc:
  assumes "list_all (\<lambda>v. v < 2 ^ 62) vs" and "length pre = off"
  shows "skip_varints (pre @ concat (map enc_varint vs) @ post) off (length vs) = Some (off + length (concat (map enc_varint vs)))"
  using assms
proof (induction vs arbitrary: pre off)
  case (Cons v vs)
  have "varint (pre @ enc_varint v @ concat (map enc_varint vs) @ post) off = Some (v, off + length (enc_varint v))"
    using Cons.prems by (intro varint_enc) simp_all
  with Cons.IH [of "pre @ enc_varint v" "off + length (enc_varint v)"] Cons.prems show ?case by simp
qed simp

lemma frames_loop_step:
  assumes "frame_ok f" and "length pre = off"
  shows "frames_loop (pre @ enc_frame f @ post) off cs = frames_loop (pre @ enc_frame f @ post) (off + length (enc_frame f)) (add_frame cs f)"
proof (cases f)
  case (Ack vs)
  have "skip_varints (pre @ enc_frame f @ post) (off + 1) 4 = Some (off + length (enc_frame f))"
    using skip_varints_enc [of vs "pre @ [0x02]" "off + 1" post] assms by (simp add: Ack)
  with Ack assms show ?thesis by (subst frames_loop.simps) (simp add: nth_append)
next
  case (Crypto o' data)
  let ?d = "pre @ enc_frame f @ post" and ?p = "off + 1 + length (enc_varint o')"
  let ?q = "?p + length (enc_varint (length data))"
  have "varint ?d (off + 1) = Some (o', ?p)"
    using varint_enc [of o' "pre @ [0x06]" "off + 1" "enc_varint (length data) @ data @ post"] assms by (simp add: Crypto)
  moreover have "varint ?d ?p = Some (length data, ?q)"
    using varint_enc [of "length data" "pre @ [0x06] @ enc_varint o'" ?p "data @ post"] assms by (simp add: Crypto)
  moreover have "slice ?q (?q + length data) ?d = data"
    using slice_mid [of "pre @ [0x06] @ enc_varint o' @ enc_varint (length data)" ?q data "?q + length data" post] assms
    by (simp add: Crypto)
  moreover have "off + length (enc_frame f) = ?q + length data" by (simp add: Crypto)
  moreover have "?d ! off = 0x06" "off < length ?d" using assms(2) by (simp_all add: Crypto nth_append)
  ultimately show ?thesis by (subst frames_loop.simps) (simp add: Crypto add.assoc)
qed (use assms in \<open>subst frames_loop.simps, simp add: nth_append\<close>)+

lemma frames_loop_enc:
  assumes "list_all frame_ok fs"
  shows "frames_loop (pre @ concat (map enc_frame fs)) (length pre) cs = foldl add_frame cs fs"
  using assms
proof (induction fs arbitrary: pre cs)
  case Nil
  then show ?case by (simp add: frames_loop.simps)
next
  case (Cons f fs)
  have "frames_loop (pre @ enc_frame f @ concat (map enc_frame fs)) (length pre) cs =
      frames_loop ((pre @ enc_frame f) @ concat (map enc_frame fs)) (length (pre @ enc_frame f)) (add_frame cs f)"
    using frames_loop_step [of f pre "length pre" "concat (map enc_frame fs)" cs] Cons.prems by simp
  with Cons.IH [of "pre @ enc_frame f"] Cons.prems show ?case by simp
qed

section \<open>Reassembly\<close>

text \<open>A stream cut into pieces, each with the offset where it starts.\<close>

fun pieces :: "nat \<Rightarrow> byte list list \<Rightarrow> chunks" where
  "pieces off [] = []"
| "pieces off (p # ps) = (off, p) # pieces (off + length p) ps"

fun crypto_of :: "quic_frame list \<Rightarrow> chunks" where
  "crypto_of [] = []"
| "crypto_of (Crypto off data # fs) = (off, data) # crypto_of fs"
| "crypto_of (_ # fs) = crypto_of fs"

lemma pieces_offsets: "(o', p) \<in> set (pieces off ps) \<Longrightarrow> off \<le> o'"
  by (induction ps arbitrary: off) fastforce+

lemma sorted_pieces: "list_all (\<lambda>p. p \<noteq> []) ps \<Longrightarrow> sorted (map fst (pieces off ps)) \<and> distinct (map fst (pieces off ps))"
proof (induction ps arbitrary: off)
  case (Cons p ps)
  then have "0 < length p" by simp
  then have "off < o'" if "(o', q) \<in> set (pieces (off + length p) ps)" for o' q
    using pieces_offsets [OF that] by linarith
  with Cons.IH [of "off + length p"] Cons.prems show ?case by fastforce
qed simp

lemma join_pieces: "join_loop out (pieces (length out) ps) = out @ concat ps"
proof (induction ps arbitrary: out)
  case (Cons p ps)
  show ?case using Cons.IH [of "out @ p"] by simp
qed simp

lemma update_append_new: "k \<notin> set (map fst cs) \<Longrightarrow> AList.update k v cs = cs @ [(k, v)]"
  by (induction cs) auto

lemma foldl_add_frame:
  "distinct (map fst cs @ map fst (crypto_of fs)) \<Longrightarrow> foldl add_frame cs fs = cs @ crypto_of fs"
proof (induction fs arbitrary: cs rule: crypto_of.induct)
  case (2 off data fs)
  then have "AList.update off data cs = cs @ [(off, data)]" by (simp add: update_append_new)
  with "2.IH" [of "cs @ [(off, data)]"] "2.prems" show ?case by simp
qed simp_all

lemma key_filter_unique:
  assumes "distinct (map fst xs)" and "distinct (map fst ys)" and "mset xs = mset ys"
  shows "filter (\<lambda>x. k = fst x) ys = filter (\<lambda>x. k = fst x) xs"
proof -
  have u: "filter (\<lambda>x. k = fst x) zs = (case map_of zs k of None \<Rightarrow> [] | Some v \<Rightarrow> [(k, v)])" if "distinct (map fst zs)"
    for zs :: "('a \<times> 'b) list"
    using that
  proof (induction zs)
    case (Cons z zs)
    have "filter (\<lambda>x. fst z = fst x) zs = []" using Cons.prems by (auto simp: filter_empty_conv image_iff)
    with Cons show ?case by (cases z) auto
  qed simp
  have "map_of xs = map_of ys" using assms by (metis map_of_inject_set mset_eq_setD)
  then show ?thesis using u [OF assms(1)] u [OF assms(2)] by simp
qed

lemma reassemble_crypto_pieces:
  assumes "list_all frame_ok fs" and "list_all (\<lambda>p. p \<noteq> []) ps" and "ps \<noteq> []"
    and "mset (crypto_of fs) = mset (pieces 0 ps)"
  shows "reassemble_crypto (concat (map enc_frame fs)) = Some (concat ps)"
proof -
  have s: "sorted (map fst (pieces 0 ps))" "distinct (map fst (pieces 0 ps))" using sorted_pieces [OF assms(2)] by simp_all
  have "mset (map fst (crypto_of fs)) = mset (map fst (pieces 0 ps))" using assms(4) by simp
  then have d: "distinct (map fst (crypto_of fs))" using s(2) by (metis mset_eq_imp_distinct_iff)
  then have "frames_loop (concat (map enc_frame fs)) 0 [] = crypto_of fs"
    using frames_loop_enc [OF assms(1), of "[]" "[]"] foldl_add_frame [of "[]" fs] by simp
  moreover have "sort_key fst (crypto_of fs) = pieces 0 ps"
  proof (rule properties_for_sort_key)
    show "mset (pieces 0 ps) = mset (crypto_of fs)" using assms(4) by simp
    fix k assume "k \<in> set (pieces 0 ps)"
    show "filter (\<lambda>x. fst k = fst x) (pieces 0 ps) = filter (\<lambda>x. fst k = fst x) (crypto_of fs)"
      using key_filter_unique [OF d s(2) assms(4)] by simp
  qed (rule s(1))
  moreover have "crypto_of fs \<noteq> []" using assms(3,4) by (cases ps) auto
  moreover have "concat ps \<noteq> []" using assms(2,3) by (cases ps) auto
  ultimately show ?thesis
    using join_pieces [of "[]" ps] by (simp add: reassemble_crypto_def join_chunks_def Let_def)
qed

text \<open>Reassembly restores the stream: the CRYPTO frames of a stream cut into any pieces, sent in any
  order and mixed with PADDING, PING and ACK frames, give back exactly the stream.\<close>

theorem reassemble_crypto_any_order:
  assumes "list_all frame_ok fs" and "list_all (\<lambda>p. p \<noteq> []) ps" and "ps \<noteq> []"
    and "mset (crypto_of fs) = mset (pieces 0 ps)"
  shows "reassemble_crypto (concat (map enc_frame fs)) = Some (concat ps)"
  using assms by (rule reassemble_crypto_pieces)

theorem reassemble_crypto_any_order_witness:
  "reassemble_crypto (concat (map enc_frame [Ping, Crypto 2 [9], Padding, Crypto 0 [7, 8]])) = Some [7, 8, 9]"
  using reassemble_crypto_any_order [of "[Ping, Crypto 2 [9], Padding, Crypto 0 [7, 8]]" "[[7, 8], [9]]"]
  by (simp add: add_mset_commute)

section \<open>Protected packets\<close>

text \<open>The long header up to the packet number, and header protection, as in RFC 9001.\<close>

definition initial_tail :: "nat \<Rightarrow> byte list \<Rightarrow> byte list \<Rightarrow> byte list \<Rightarrow> nat \<Rightarrow> byte list" where
  "initial_tail version dcid scid token len =
     be_digits 4 version @ [byte_of (length dcid)] @ dcid @ [byte_of (length scid)] @ scid @ enc_varint (length token) @ token
       @ enc_varint len"

definition first_byte :: "nat \<Rightarrow> nat \<Rightarrow> byte" where
  "first_byte version pn_len = byte_of (192 + 16 * INITIAL_TYPE version + (pn_len - 1))"

definition protect :: "block_fn \<Rightarrow> byte list \<Rightarrow> byte \<Rightarrow> byte list \<Rightarrow> byte list \<Rightarrow> byte list \<Rightarrow> byte list" where
  "protect aes_ecb hp b0 tail pn ct =
     (let mask = aes_ecb hp (slice (4 - length pn) (20 - length pn) ct)
      in (b0 XOR (mask ! 0 AND 0x0F)) # tail @ xor_bytes pn (slice 1 (1 + length pn) mask) @ ct)"

definition initial_bytes ::
  "block_fn \<Rightarrow> (byte list \<Rightarrow> byte list \<Rightarrow> byte list \<Rightarrow> byte list \<Rightarrow> byte list) \<Rightarrow> byte list \<Rightarrow> byte list \<Rightarrow> byte list
    \<Rightarrow> nat \<Rightarrow> byte list \<Rightarrow> byte list \<Rightarrow> byte list \<Rightarrow> nat \<Rightarrow> nat \<Rightarrow> byte list \<Rightarrow> byte list" where
  "initial_bytes aes_ecb seal key iv hp version dcid scid token pn_len pn pt =
     (let b0 = first_byte version pn_len;
          tail = initial_tail version dcid scid token (pn_len + length pt + 16);
          pnb = be_digits pn_len pn
      in protect aes_ecb hp b0 tail pnb (seal key (xor_bytes iv (be_digits 12 pn)) pt (b0 # tail @ pnb)))"

lemma masked_and: "(f XOR (m AND 0x0F)) AND 0x80 = f AND 0x80" "(f XOR (m AND 0x0F)) AND 0x30 = f AND 0x30"
  for f m :: byte
proof -
  have "(m AND 0x0F) AND 0x80 = m AND (0x0F AND 0x80)" "(m AND 0x0F) AND 0x30 = m AND (0x0F AND 0x30)" by (simp_all only: and.assoc)
  then have "(m AND 0x0F) AND 0x80 = 0" "(m AND 0x0F) AND 0x30 = 0" by simp_all
  then show "(f XOR (m AND 0x0F)) AND 0x80 = f AND 0x80" "(f XOR (m AND 0x0F)) AND 0x30 = f AND 0x30"
    by (simp_all only: bit.conj_xor_distrib2) simp_all
qed

lemma first_byte_bits:
  assumes "pn_len \<in> {1, 2, 3, 4}"
  shows "first_byte version pn_len AND 0x80 \<noteq> 0"
    and "unat (drop_bit 4 (first_byte version pn_len AND 0x30)) = INITIAL_TYPE version"
    and "unat (first_byte version pn_len AND 0x03) + 1 = pn_len"
  using assms by (auto simp: first_byte_def INITIAL_TYPE_def byte_of_def)

lemma xor_bytes_cancel_right: "length xs = length ys \<Longrightarrow> xor_bytes (xor_bytes xs ys) ys = xs"
  by (induction xs ys rule: list_induct2) (simp_all add: xor_bytes_def xor.assoc)

lemma parse_initial_enc:
  assumes "b0 AND 0x80 \<noteq> 0" and "unat (drop_bit 4 (b0 AND 0x30)) = INITIAL_TYPE version"
    and "version \<in> {QUIC_V1, QUIC_V2}" and "length dcid < 256" and "length scid < 256"
    and "length token < 2 ^ 62" and "len < 2 ^ 62"
    and "length (b0 # initial_tail version dcid scid token len @ post) \<le> MAX_QUIC"
  shows "parse_initial (b0 # initial_tail version dcid scid token len @ post) =
     Some \<lparr>ip_version = version, ip_dcid = dcid, ip_length = len,
           ip_pn_offset = 1 + length (initial_tail version dcid scid token len)\<rparr>"
proof -
  let ?b = "b0 # initial_tail version dcid scid token len @ post"
  let ?dl = "length dcid" and ?sl = "length scid" and ?tk = "enc_varint (length token)"
  let ?p1 = "b0 # be_digits 4 version" and ?r1 = "dcid @ [byte_of ?sl] @ scid @ ?tk @ token @ enc_varint len @ post"
  let ?p2 = "?p1 @ [byte_of ?dl] @ dcid"
  let ?p3 = "?p2 @ [byte_of ?sl] @ scid"
  let ?p4 = "?p3 @ ?tk @ token"
  let ?o1 = "6 + ?dl + 1 + ?sl + length ?tk"
  have b: "?b = ?p1 @ byte_of ?dl # ?r1" by (simp add: initial_tail_def)
  have v: "version < 256 ^ 4" using assms(3) by (auto simp: QUIC_V1_def QUIC_V2_def)
  have 1: "be_nat (slice 1 5 ?b) = version"
    unfolding b using slice_mid [of "[b0]" 1 "be_digits 4 version" 5] be_nat_be_digits [OF v] by simp
  have 2: "at ?b 5 = Some (byte_of ?dl)" unfolding b by (rule at_mid) simp
  have 3: "slice 6 (6 + ?dl) ?b = dcid" unfolding b
    using slice_mid [of "?p1 @ [byte_of ?dl]" 6 dcid "6 + ?dl"] by simp
  have 4: "at ?b (6 + ?dl) = Some (byte_of ?sl)" unfolding b
    using at_mid [of ?p2 "6 + ?dl" "byte_of ?sl" "scid @ ?tk @ token @ enc_varint len @ post"] by simp
  have 5: "varint ?b (6 + ?dl + 1 + ?sl) = Some (length token, ?o1)" unfolding b
    using varint_enc [OF assms(6), of ?p3 "6 + ?dl + 1 + ?sl" "token @ enc_varint len @ post"] by simp
  have 6: "varint ?b (?o1 + length token) = Some (len, ?o1 + length token + length (enc_varint len))" unfolding b
    using varint_enc [OF assms(7), of ?p4 "?o1 + length token" post] by (simp add: add.assoc)
  have u: "unat (byte_of ?dl) = ?dl" "unat (byte_of ?sl) = ?sl" using assms(4,5) by (simp_all add: unat_byte_of)
  have k: "map_of VERSIONS version \<noteq> None" using assms(3) by (auto simp: VERSIONS_def)
  have l: "\<not> length ?b < 7" "\<not> MAX_QUIC < length ?b" "?b \<noteq> []" "?b ! 0 = b0"
    using assms(8) by (simp_all add: initial_tail_def)
  have o: "?o1 + length token + length (enc_varint len) = 1 + length (initial_tail version dcid scid token len)"
    by (simp add: initial_tail_def)
  show ?thesis
    unfolding parse_initial_def
    by (simp only: l assms(1,2) k if_False simp_thms Let_def 1 2 Option.bind.bind_lunit u 3 4 5 6 o prod.case)
qed

text \<open>Unprotecting gives back the header and the packet number, so the payload opens.\<close>

lemma open_initial_protected:
  assumes "\<And>k s. length (aes_ecb k s) = 16" and "pn_len \<in> {1, 2, 3, 4}" and "pn < 256 ^ pn_len"
    and "length ct \<ge> 20" and "length iv = 12"
    and "ip = \<lparr>ip_version = v, ip_dcid = dcid, ip_length = pn_len + length ct, ip_pn_offset = 1 + length tail\<rparr>"
  shows "open_initial aes_ecb aesgcm (protect aes_ecb hp (first_byte v pn_len) tail (be_digits pn_len pn) ct) ip key iv hp =
     Some (case aesgcm key (xor_bytes iv (be_digits 12 pn)) ct (first_byte v pn_len # tail @ be_digits pn_len pn) of
             None \<Rightarrow> None | Some plaintext \<Rightarrow> reassemble_crypto plaintext)"
proof -
  define mask where "mask = aes_ecb hp (slice (4 - pn_len) (20 - pn_len) ct)"
  define b0 where "b0 = first_byte v pn_len"
  define pnb where "pnb = be_digits pn_len pn"
  define pnx where "pnx = xor_bytes pnb (slice 1 (1 + pn_len) mask)"
  define f where "f = b0 XOR (mask ! 0 AND 0x0F)"
  let ?b = "f # tail @ pnx @ ct" and ?o = "1 + length tail"
  have m: "length mask = 16" by (simp add: mask_def assms(1))
  have pl: "1 \<le> pn_len" "pn_len \<le> 4" using assms(2) by auto
  have ms: "length (slice 1 (1 + pn_len) mask) = pn_len" using m pl by (simp add: length_slice)
  have px: "length pnx = pn_len" using ms by (simp add: pnx_def xor_bytes_def pnb_def)
  have b: "protect aes_ecb hp b0 tail pnb ct = ?b"
    by (simp add: protect_def Let_def f_def pnx_def mask_def pnb_def)
  have smp: "slice (?o + 4) (?o + 4 + SAMPLE_LEN) ?b = slice (4 - pn_len) (20 - pn_len) ct"
    using drop_append [of "5 + length tail" "f # tail @ pnx" ct] px pl by (simp add: slice_def SAMPLE_LEN_def)
  have "length (slice (4 - pn_len) (20 - pn_len) ct) = 16" using assms(4) pl by (simp add: length_slice)
  then have sl: "\<not> length (slice (4 - pn_len) (20 - pn_len) ct) < SAMPLE_LEN" by (simp add: SAMPLE_LEN_def)
  have m0: "at mask 0 = Some (mask ! 0)" using m by (simp add: at_def)
  have f0: "f XOR (mask ! 0 AND 0x0F) = b0" by (simp add: f_def xor.assoc)
  have pnl: "unat (b0 AND 0x03) + 1 = pn_len" using first_byte_bits(3) [OF assms(2)] by (simp add: b0_def)
  have sp: "slice ?o (?o + pn_len) ?b = pnx" "slice 1 ?o ?b = tail"
    "slice (?o + pn_len) (?o + (pn_len + length ct)) ?b = ct"
    using slice_mid [of "f # tail" ?o pnx "?o + pn_len" ct] slice_mid [of "[f]" 1 tail ?o "pnx @ ct"]
      slice_mid [of "f # tail @ pnx" "?o + pn_len" ct "?o + (pn_len + length ct)" "[]"] px by simp_all
  have pu: "xor_bytes pnx (slice 1 (1 + pn_len) mask) = pnb"
    unfolding pnx_def using ms by (intro xor_bytes_cancel_right) (simp add: pnb_def)
  have pn: "be_nat pnb = pn" using assms(3) by (simp add: pnb_def be_nat_be_digits)
  have "(256 :: nat) ^ pn_len \<le> 256 ^ 12" using pl by (intro power_increasing) simp_all
  then have "pn < 256 ^ 12" using assms(3) by (rule less_le_trans [rotated])
  then have t: "to_bytes 12 pn = Some (be_digits 12 pn)" by (simp add: to_bytes_def)
  have z: "?b ! 0 = f" "\<not> length ?b < ?o + pn_len" "\<not> length mask < pn_len + 1" "\<not> length ct < 16" "\<not> length iv < 12" "take 12 iv = iv"
    using px m pl assms(4,5) by simp_all
  show ?thesis
    unfolding b0_def [symmetric] pnb_def [symmetric] b open_initial_def assms(6)
    by (simp only: Let_def initial_packet.simps smp sl if_False mask_def [symmetric] m0 Option.bind.bind_lunit z f0 pnl sp pu pn t)
qed

lemma derive_initial_keys_ok:
  assumes "\<And>k m. length (hmac ''sha256'' k m) = 32" and "version \<in> {QUIC_V1, QUIC_V2}"
  shows "\<exists>key iv hp. derive_initial_keys hmac dcid version = Some (Some (key, iv, hp)) \<and> length iv = 12"
proof -
  obtain salt pfx where e: "map_of VERSIONS version = Some (salt, pfx)" "length pfx < 100"
    using assms(2) by (auto simp: VERSIONS_def QUIC_V1_def QUIC_V2_def)
  have h: "\<And>k m. length (hmac ''sha256'' k m) = digest_size ''sha256''" by (simp add: assms(1) digest_size_def)
  have ok: "\<exists>okm. hkdf_expand_label hmac s l [] n ''sha256'' = Some okm \<and> length okm = n" if "n \<le> 48" "length l < 250" for s l n
    using hkdf_expand_label_ok [of hmac "''sha256''" n l "[]" s] h that by simp
  obtain cis where "hkdf_expand_label hmac (hkdf_extract hmac salt dcid ''sha256'') ''client in'' [] 32 ''sha256'' = Some cis"
    using ok [of 32 "''client in''" "hkdf_extract hmac salt dcid ''sha256''"] by auto
  with ok [of 16 "pfx @ '' key''" cis] ok [of 12 "pfx @ '' iv''" cis] ok [of 16 "pfx @ '' hp''" cis] e show ?thesis
    by (auto simp: derive_initial_keys_def Let_def)
qed

text \<open>The scanner sees into QUIC: for version 1 and 2, any connection ids, token and packet number of
  any length, the handshake stream that a client put into the CRYPTO frames of a protected Initial
  packet is what the extractor returns, in whatever pieces and order the frames carry it.\<close>

theorem extract_client_hello_initial:
  assumes "\<And>k m. length (hmac ''sha256'' k m) = 32" and "\<And>k s. length (aes_ecb k s) = 16"
    and "\<And>k n p a. aesgcm k n (seal k n p a) a = Some p" and "\<And>k n p a. length (seal k n p a) = length p + 16"
    and "version \<in> {QUIC_V1, QUIC_V2}" and "derive_initial_keys hmac dcid version = Some (Some (key, iv, hp))"
    and "length dcid < 256" and "length scid < 256" and "pn_len \<in> {1, 2, 3, 4}" and "pn < 256 ^ pn_len"
    and "pt = concat (map enc_frame fs)" and "length pt \<ge> 4"
    and "length (initial_bytes aes_ecb seal key iv hp version dcid scid token pn_len pn pt) \<le> MAX_QUIC"
    and "list_all frame_ok fs" and "list_all (\<lambda>p. p \<noteq> []) ps" and "ps \<noteq> []" and "mset (crypto_of fs) = mset (pieces 0 ps)"
  shows "extract_client_hello hmac aes_ecb aesgcm
      (initial_bytes aes_ecb seal key iv hp version dcid scid token pn_len pn pt) = Some (Some (concat ps))"
proof -
  define b0 where "b0 = first_byte version pn_len"
  define tail where "tail = initial_tail version dcid scid token (pn_len + length pt + 16)"
  define pnb where "pnb = be_digits pn_len pn"
  define ct where "ct = seal key (xor_bytes iv (be_digits 12 pn)) pt (b0 # tail @ pnb)"
  let ?b = "initial_bytes aes_ecb seal key iv hp version dcid scid token pn_len pn pt"
  have b: "?b = protect aes_ecb hp b0 tail pnb ct"
    by (simp add: initial_bytes_def Let_def b0_def tail_def pnb_def ct_def)
  have ct: "length ct = length pt + 16" by (simp add: ct_def assms(4))
  have iv: "length iv = 12" using derive_initial_keys_ok [of hmac version dcid] assms(1,5,6) by auto
  obtain f post where p: "?b = f # tail @ post" "f = b0 XOR (aes_ecb hp (slice (4 - pn_len) (20 - pn_len) ct) ! 0 AND 0x0F)"
    by (simp add: b protect_def Let_def pnb_def)
  have len: "length token < 2 ^ 62" "pn_len + length pt + 16 < 2 ^ 62"
  proof -
    have "length ?b \<ge> length token + length ct" "pn_len \<le> 4"
      using assms(9) by (auto simp: b protect_def Let_def tail_def initial_tail_def)
    then show "length token < 2 ^ 62" "pn_len + length pt + 16 < 2 ^ 62" using assms(13) ct by (simp_all add: MAX_QUIC_def)
  qed
  have fb: "f AND 0x80 \<noteq> 0" "unat (drop_bit 4 (f AND 0x30)) = INITIAL_TYPE version"
    unfolding p(2) masked_and b0_def using first_byte_bits(1,2) [OF assms(9)] by simp_all
  let ?ip = "\<lparr>ip_version = version, ip_dcid = dcid, ip_length = pn_len + length ct, ip_pn_offset = 1 + length tail\<rparr>"
  have "parse_initial ?b = Some ?ip"
    using parse_initial_enc [OF fb assms(5,7,8) len, of post] assms(13) p(1) ct by (simp add: tail_def add.assoc)
  moreover have "open_initial aes_ecb aesgcm ?b ?ip key iv hp = Some (reassemble_crypto pt)"
    unfolding b b0_def pnb_def
    by (subst open_initial_protected [OF assms(2,9,10) _ iv refl])
       (simp_all add: ct assms(4,12) ct_def [unfolded b0_def pnb_def] assms(3))
  moreover have "reassemble_crypto pt = Some (concat ps)"
    unfolding assms(11) by (rule reassemble_crypto_pieces [OF assms(14-17)])
  ultimately show ?thesis by (simp add: extract_client_hello_def assms(6))
qed

theorem extract_client_hello_initial_witness:
  "\<exists>key iv hp. derive_initial_keys (\<lambda>h k m. zeros 32) [1, 2] QUIC_V1 = Some (Some (key, iv, hp)) \<and>
     extract_client_hello (\<lambda>h k m. zeros 32) (\<lambda>k s. zeros 16) (\<lambda>k n c a. Some (take (length c - 16) c))
       (initial_bytes (\<lambda>k s. zeros 16) (\<lambda>k n p a. p @ zeros 16) key iv hp QUIC_V1 [1, 2] [] [] 1 5
          (concat (map enc_frame [Crypto 1 [9], Crypto 0 [1]]))) = Some (Some [1, 9])"
proof -
  let ?hmac = "\<lambda>(h :: string) (k :: byte list) (m :: byte list). zeros 32"
  obtain key iv hp where k: "derive_initial_keys ?hmac [1, 2] QUIC_V1 = Some (Some (key, iv, hp))"
    using derive_initial_keys_ok [of ?hmac QUIC_V1 "[1, 2]"] by (auto simp: zeros_def)
  have "extract_client_hello ?hmac (\<lambda>k s. zeros 16) (\<lambda>k n c a. Some (take (length c - 16) c))
       (initial_bytes (\<lambda>k s. zeros 16) (\<lambda>k n p a. p @ zeros 16) key iv hp QUIC_V1 [1, 2] [] [] 1 5
          (concat (map enc_frame [Crypto 1 [9], Crypto 0 [1]]))) = Some (Some (concat [[1], [9]]))"
    by (rule extract_client_hello_initial [OF _ _ _ _ _ k, where fs = "[Crypto 1 [9], Crypto 0 [1]]"])
       (simp_all add: zeros_def initial_bytes_def Let_def protect_def initial_tail_def varint_width_def MAX_QUIC_def
          xor_bytes_def length_slice add_mset_commute)
  with k show ?thesis by auto
qed

lemma extract_client_hello_defined:
  assumes "\<And>k m. length (hmac ''sha256'' k m) = 32" and "\<And>k s. length (aes_ecb k s) = 16"
  shows "extract_client_hello hmac aes_ecb aesgcm b \<noteq> None"
proof (cases "parse_initial b")
  case (Some ip)
  then have v: "ip_version ip \<in> {QUIC_V1, QUIC_V2}"
    by (auto simp: parse_initial_def Let_def VERSIONS_def bind_eq_Some_conv split: if_splits)
  obtain key iv hp where k: "derive_initial_keys hmac (ip_dcid ip) (ip_version ip) = Some (Some (key, iv, hp))" "length iv = 12"
    using derive_initial_keys_ok [of hmac "ip_version ip" "ip_dcid ip"] assms(1) v by auto
  have "open_initial aes_ecb aesgcm b ip key iv hp \<noteq> None"
  proof -
    let ?mask = "aes_ecb hp (slice (ip_pn_offset ip + 4) (ip_pn_offset ip + 4 + SAMPLE_LEN) b)"
    let ?x = "(b ! 0 XOR (?mask ! 0 AND 0x0F)) AND 0x03"
    have "unat ?x < 4"
    proof -
      have "?x = take_bit 2 (b ! 0 XOR (?mask ! 0 AND 0x0F))" by (simp add: take_bit_eq_mask mask_eq_exp_minus_1)
      then have "unat ?x = take_bit 2 (unat (b ! 0 XOR (?mask ! 0 AND 0x0F)))" by (simp only: unsigned_take_bit_eq)
      then show ?thesis using take_bit_nat_less_exp [of 2 "unat (b ! 0 XOR (?mask ! 0 AND 0x0F))"] by simp
    qed
    then have l: "\<not> length ?mask < unat ?x + 1 + 1" by (simp add: assms(2))
    have "be_nat (xor_bytes p q) < 256 ^ 12" if "length p \<le> 12" for p q
    proof -
      have "be_nat (xor_bytes p q) < 256 ^ length (xor_bytes p q)" by (rule be_nat_less)
      also have "\<dots> \<le> 256 ^ 12" using that by (intro power_increasing) (simp_all add: xor_bytes_def)
      finally show ?thesis .
    qed
    moreover have "length (slice (ip_pn_offset ip) (ip_pn_offset ip + (unat ?x + 1)) b) \<le> 12"
      using \<open>unat ?x < 4\<close> by (simp add: slice_def)
    ultimately have t: "to_bytes 12 (be_nat (xor_bytes (slice (ip_pn_offset ip) (ip_pn_offset ip + (unat ?x + 1)) b) q)) =
        Some (be_digits 12 (be_nat (xor_bytes (slice (ip_pn_offset ip) (ip_pn_offset ip + (unat ?x + 1)) b) q)))" for q
      by (simp add: to_bytes_def)
    have m: "at ?mask 0 = Some (?mask ! 0)" using assms(2) by (simp add: at_def)
    show ?thesis
      unfolding open_initial_def Let_def m
      by (simp only: Option.bind.bind_lunit l t if_False k(2) less_irrefl) simp
  qed
  with Some k show ?thesis by (simp add: extract_client_hello_def)
qed (simp add: extract_client_hello_def)

text \<open>The extractor never raises on what arrives on the wire: for every UDP payload it either
  declines or returns handshake bytes, whatever the decryption does.\<close>

theorem extract_client_hello_total:
  assumes "\<And>k m. length (hmac ''sha256'' k m) = 32" and "\<And>k s. length (aes_ecb k s) = 16"
  shows "extract_client_hello hmac aes_ecb aesgcm b \<noteq> None"
  using extract_client_hello_defined [of hmac aes_ecb] assms by blast

theorem extract_client_hello_total_witness:
  "extract_client_hello (\<lambda>h k m. zeros 32) (\<lambda>k s. zeros 16) (\<lambda>k n c a. None) [0xC0, 0, 0, 0, 1, 0, 0] \<noteq> None"
  by (rule extract_client_hello_total) (simp_all add: zeros_def)

end
