(* ===== verification/Suite_Class.thy ===== *)
theory Suite_Class
  imports Alg
begin

text \<open>
  \<^verbatim>\<open>probes/_severity.py\<close>: the severity of a classification and the classification of a TLS
  cipher suite by its RFC name.
\<close>

definition sev_for :: "classification \<Rightarrow> severity" where
  "sev_for c = (case c of
      SANGAT_TINGGI \<Rightarrow> CRIT | TINGGI \<Rightarrow> HIGH | SEDERHANA \<Rightarrow> MED | RENDAH \<Rightarrow> LOW
    | PQC_READY \<Rightarrow> SEV_INFO | CLS_INFO \<Rightarrow> SEV_INFO | CLS_ERROR \<Rightarrow> SEV_INFO)"

definition WEAK_SUBSTR :: "(string \<times> classification) list" where
  "WEAK_SUBSTR = [(''RC4'', SANGAT_TINGGI), (''RC2'', SANGAT_TINGGI), (''3DES'', SANGAT_TINGGI),
     (''DES_CBC'', SANGAT_TINGGI), (''_DES_'', SANGAT_TINGGI), (''EXPORT'', SANGAT_TINGGI),
     (''EXP_'', SANGAT_TINGGI), (''NULL'', SANGAT_TINGGI), (''ANON'', SANGAT_TINGGI), (''MD5'', SANGAT_TINGGI)]"

definition classify_cipher_token :: "string \<Rightarrow> classification" where
  "classify_cipher_token token =
     (let direct = classify (normalise token) in
      if direct \<noteq> CLS_INFO then direct
      else (case find (\<lambda>(needle, cls). contains (py_upper token) needle) WEAK_SUBSTR of
              Some (_, cls) \<Rightarrow> cls
            | None \<Rightarrow> CLS_INFO))"

definition classify_suite :: "string \<Rightarrow> classification" where
  "classify_suite name =
     (let up = py_upper name; base = classify_cipher_token name in
      if base = SANGAT_TINGGI then base
      else if endswith up ''_CBC_SHA'' then SANGAT_TINGGI
      else if contains up ''_RSA_WITH'' \<and> \<not> contains up ''DHE'' then TINGGI
      else if contains up ''ECDHE'' \<or> contains up ''ECDH_'' \<or> contains up ''DHE_'' then TINGGI
      else base)"

text \<open>Severity is monotone: a worse classification never has a lower severity, and only the
  four vulnerable classes are above informational.\<close>

lemma sev_for_info: "sev_for c = SEV_INFO \<longleftrightarrow> c \<in> {PQC_READY, CLS_INFO, CLS_ERROR}"
  by (cases c) (simp_all add: sev_for_def)

end
