(* ===== verification/Capture.thy ===== *)
theory Capture
  imports Tls_Hello Quic Suite_Class
begin

text \<open>
  \<^verbatim>\<open>probes/fs_pcap_crypto.py\<close>: the cryptography that the handshakes of a capture file show. The
  file's bytes, its name and path and the clock are arguments, as are the cryptographic primitives of
  \<open>Quic\<close>; walking directories is not modelled. A generator is the list it yields; \<^const>\<open>None\<close> is
  an exception that reaches \<^verbatim>\<open>_scan_file\<close>, which stops there and keeps what it emitted.
\<close>

section \<open>Tables\<close>

definition MAX_FINDINGS_PER_FILE :: nat where "MAX_FINDINGS_PER_FILE = 512"

definition TLS_VERSIONS :: "(nat \<times> string) list" where
  "TLS_VERSIONS = [(0x0300, ''SSLv3''), (0x0301, ''TLS 1.0''), (0x0302, ''TLS 1.1''), (0x0303, ''TLS 1.2''),
     (0x0304, ''TLS 1.3'')]"

definition WEAK_TLS_VERSIONS :: "nat list" where
  "WEAK_TLS_VERSIONS = [0x0300, 0x0301, 0x0302]"

definition TLS_GROUPS :: "(nat \<times> string \<times> bool) list" where
  "TLS_GROUPS =
    [(0x001D, ''x25519'', False),
     (0x0017, ''secp256r1'', False),
     (0x0018, ''secp384r1'', False),
     (0x0019, ''secp521r1'', False),
     (0x0100, ''ffdhe2048'', False),
     (0x0101, ''ffdhe3072'', False),
     (0x0102, ''ffdhe4096'', False),
     (0x11EC, ''X25519MLKEM768'', True),
     (0x11EB, ''SecP256r1MLKEM768'', True),
     (0x11ED, ''SecP384r1MLKEM1024'', True),
     (0x6399, ''X25519Kyber768Draft00'', True),
     (0x639A, ''SecP256r1Kyber768Draft00'', True)]"

definition SUITE_NAMES :: "(nat \<times> string) list" where
  "SUITE_NAMES =
    [(0x0000, ''TLS_NULL_WITH_NULL_NULL''),
     (0x0001, ''TLS_RSA_WITH_NULL_MD5''),
     (0x0002, ''TLS_RSA_WITH_NULL_SHA''),
     (0x0004, ''TLS_RSA_WITH_RC4_128_MD5''),
     (0x0005, ''TLS_RSA_WITH_RC4_128_SHA''),
     (0x000A, ''TLS_RSA_WITH_3DES_EDE_CBC_SHA''),
     (0x002F, ''TLS_RSA_WITH_AES_128_CBC_SHA''),
     (0x0035, ''TLS_RSA_WITH_AES_256_CBC_SHA''),
     (0x003C, ''TLS_RSA_WITH_AES_128_CBC_SHA256''),
     (0x009C, ''TLS_RSA_WITH_AES_128_GCM_SHA256''),
     (0x009D, ''TLS_RSA_WITH_AES_256_GCM_SHA384''),
     (0x0033, ''TLS_DHE_RSA_WITH_AES_128_CBC_SHA''),
     (0x0039, ''TLS_DHE_RSA_WITH_AES_256_CBC_SHA''),
     (0x0067, ''TLS_DHE_RSA_WITH_AES_128_CBC_SHA256''),
     (0x009E, ''TLS_DHE_RSA_WITH_AES_128_GCM_SHA256''),
     (0x009F, ''TLS_DHE_RSA_WITH_AES_256_GCM_SHA384''),
     (0xC007, ''TLS_ECDHE_ECDSA_WITH_RC4_128_SHA''),
     (0xC009, ''TLS_ECDHE_ECDSA_WITH_AES_128_CBC_SHA''),
     (0xC00A, ''TLS_ECDHE_ECDSA_WITH_AES_256_CBC_SHA''),
     (0xC011, ''TLS_ECDHE_RSA_WITH_RC4_128_SHA''),
     (0xC012, ''TLS_ECDHE_RSA_WITH_3DES_EDE_CBC_SHA''),
     (0xC013, ''TLS_ECDHE_RSA_WITH_AES_128_CBC_SHA''),
     (0xC014, ''TLS_ECDHE_RSA_WITH_AES_256_CBC_SHA''),
     (0xC027, ''TLS_ECDHE_RSA_WITH_AES_128_CBC_SHA256''),
     (0xC02B, ''TLS_ECDHE_ECDSA_WITH_AES_128_GCM_SHA256''),
     (0xC02C, ''TLS_ECDHE_ECDSA_WITH_AES_256_GCM_SHA384''),
     (0xC02F, ''TLS_ECDHE_RSA_WITH_AES_128_GCM_SHA256''),
     (0xC030, ''TLS_ECDHE_RSA_WITH_AES_256_GCM_SHA384''),
     (0xCCA8, ''TLS_ECDHE_RSA_WITH_CHACHA20_POLY1305_SHA256''),
     (0xCCA9, ''TLS_ECDHE_ECDSA_WITH_CHACHA20_POLY1305_SHA256''),
     (0x1301, ''TLS_AES_128_GCM_SHA256''),
     (0x1302, ''TLS_AES_256_GCM_SHA384''),
     (0x1303, ''TLS_CHACHA20_POLY1305_SHA256''),
     (0x1304, ''TLS_AES_128_CCM_SHA256'')]"

definition SSH_HOSTKEY_ALIASES :: "(string \<times> string) list" where
  "SSH_HOSTKEY_ALIASES =
    [(''ssh-rsa'', ''RSA-2048''),
     (''rsa-sha2-256'', ''RSA-2048''),
     (''rsa-sha2-512'', ''RSA-2048''),
     (''ssh-dss'', ''DSA''),
     (''ecdsa-sha2-nistp256'', ''ECDSA-SHA256''),
     (''ecdsa-sha2-nistp384'', ''ECDSA-SHA384''),
     (''ecdsa-sha2-nistp521'', ''ECDSA-SHA512''),
     (''ssh-ed25519'', ''Ed25519''),
     (''ssh-ed448'', ''Ed448'')]"

section \<open>Classification of what was negotiated\<close>

type_synonym hit = "string \<times> string \<times> classification"

definition classify_ssh_kex :: "string \<Rightarrow> string \<times> classification" where
  "classify_ssh_kex token =
     (let low = py_lower token in
      if contains_any low [''sntrup'', ''mlkem'', ''ml-kem'', ''kyber''] then (token, PQC_READY)
      else if startswith low ''curve25519'' then (token, TINGGI)
      else if startswith_any low [''ecdh-sha2'', ''ecdh''] then (token, TINGGI)
      else if startswith low ''diffie-hellman-group1-'' \<or> endswith low ''group1-sha1'' then (token, SANGAT_TINGGI)
      else if startswith low ''diffie-hellman'' then (token, TINGGI)
      else (token, CLS_INFO))"

definition classify_ssh_hostkey :: "string \<Rightarrow> string \<times> classification" where
  "classify_ssh_hostkey token =
     (let low = py_lower token in
      if contains_any low [''mldsa'', ''ml-dsa'', ''dilithium'', ''sphincs'', ''falcon''] then (token, PQC_READY)
      else (token, classify (case map_of SSH_HOSTKEY_ALIASES low of Some c \<Rightarrow> c | None \<Rightarrow> normalise token)))"

definition suite_hit :: "nat \<Rightarrow> hit list" where
  "suite_hit code =
     (case map_of SUITE_NAMES code of
        None \<Rightarrow> []
      | Some name \<Rightarrow> (let cls = classify_suite name in if cls \<noteq> CLS_INFO then [(''tls'', name, cls)] else []))"

text \<open>\<^verbatim>\<open>f"group-0x{g:04x}"\<close>.\<close>

definition group_name :: "nat \<Rightarrow> string" where
  "group_name g = (let h = show_hex g in ''group-0x'' @ replicate (4 - length h) (CHR ''0'') @ h)"

definition offer_hit :: "nat \<Rightarrow> hit list" where
  "offer_hit code =
     (case map_of TLS_GROUPS code of
        None \<Rightarrow> []
      | Some (name, is_pqc) \<Rightarrow> if is_pqc then [(''tls'', name, PQC_READY)] else [])"

definition version_hit :: "nat \<Rightarrow> hit list" where
  "version_hit v =
     (if v \<in> set WEAK_TLS_VERSIONS then [(''tls'', the (map_of TLS_VERSIONS v), SANGAT_TINGGI)] else [])"

definition group_hit :: "nat \<Rightarrow> hit list" where
  "group_hit g =
     (case map_of TLS_GROUPS g of
        None \<Rightarrow> [(''tls'', group_name g, TINGGI)]
      | Some (name, is_pqc) \<Rightarrow> [(''tls'', name, if is_pqc then PQC_READY else TINGGI)])"

definition analyze_tls :: "tls_hello \<Rightarrow> hit list" where
  "analyze_tls tls =
     (case tls of
        ClientHello ch \<Rightarrow>
          concat (map suite_hit (ch_cipher_suites ch)) @ concat (map offer_hit (ch_groups ch))
      | ServerHello sh \<Rightarrow>
          (let effective = (case sh_selected_version sh of
                 None \<Rightarrow> sh_legacy_version sh
               | Some v \<Rightarrow> if v \<noteq> 0 then v else sh_legacy_version sh)
           in version_hit effective @ suite_hit (sh_cipher sh) @
              (case sh_group sh of None \<Rightarrow> [] | Some g \<Rightarrow> group_hit g)))"

definition ssh_hits :: "(string \<Rightarrow> string \<times> classification) \<Rightarrow> string list \<Rightarrow> hit list" where
  "ssh_hits f tokens =
     map (\<lambda>(alg, cls). (''ssh'', alg, cls)) (filter (\<lambda>(alg, cls). cls \<noteq> CLS_INFO) (map f tokens))"

definition analyze_ssh :: "ssh_kexinit \<Rightarrow> hit list" where
  "analyze_ssh ssh = ssh_hits classify_ssh_kex (kex_algorithms ssh) @
     ssh_hits classify_ssh_hostkey (server_host_key_algorithms ssh)"

definition wrap_tls_record :: "byte list \<Rightarrow> byte list option" where
  "wrap_tls_record handshake = map_option (\<lambda>l. [0x16, 0x03, 0x03] @ l @ handshake) (pack_H (length handshake))"

text \<open>\<open>quic\<close> is \<open>extract_client_hello\<close> applied to its primitives.\<close>

definition analyze :: "(byte list \<Rightarrow> byte list option option) \<Rightarrow> byte list \<Rightarrow> string \<Rightarrow> hit list option" where
  "analyze quic pl pr =
     (if pr = ''udp'' then do {
        ch \<leftarrow> quic pl;
        (case ch of
           None \<Rightarrow> Some []
         | Some hs \<Rightarrow> do {
             wrapped \<leftarrow> wrap_tls_record hs;
             Some (case parse_tls_handshake wrapped of
                     None \<Rightarrow> []
                   | Some tls \<Rightarrow> map (\<lambda>(_, alg, cls). (''quic'', alg, cls)) (analyze_tls tls)) }) }
      else
        Some (case parse_tls_handshake pl of
                Some tls \<Rightarrow> analyze_tls tls
              | None \<Rightarrow> (case parse_ssh_kexinit pl of None \<Rightarrow> [] | Some ssh \<Rightarrow> analyze_ssh ssh)))"

section \<open>Scanning a file\<close>

record capture_file =
  cf_name :: string
  cf_path :: string
  cf_data :: "byte list"

definition PROBE_ID :: string where "PROBE_ID = ''fs.pcap.crypto''"

definition pcap_finding :: "int \<Rightarrow> capture_file \<Rightarrow> segment \<Rightarrow> hit \<Rightarrow> finding" where
  "pcap_finding now f seg h =
     (case h of (pr, alg, cls) \<Rightarrow>
        \<lparr>probe_id = PROBE_ID, algorithm = alg, classification = cls, severity = sev_for cls,
         title = cf_name f @ '': '' @ py_upper pr @ '' '' @ alg @ '' negotiated ('' @ seg_src seg @ '' -> '' @ seg_dst seg @ '')'',
         component_purl = None,
         evidence = [(''file'', JStr (cf_path f)), (''src'', JStr (seg_src seg)), (''dst'', JStr (seg_dst seg)), (''proto'', JStr pr)],
         remediation = [], confidence = ''high'', created_at = now\<rparr>)"

text \<open>The dash of the title is written as two hyphens here.\<close>

definition cap_note :: "int \<Rightarrow> capture_file \<Rightarrow> finding" where
  "cap_note now f =
     \<lparr>probe_id = PROBE_ID, algorithm = ''N/A'', classification = CLS_INFO, severity = SEV_INFO,
      title = cf_name f @ '': finding cap ('' @ show_nat MAX_FINDINGS_PER_FILE @ '') reached '' @ DASH @ '' output truncated'',
      component_purl = None,
      evidence = [(''file'', JStr (cf_path f)), (''cap'', JInt (int MAX_FINDINGS_PER_FILE))],
      remediation = [], confidence = ''high'', created_at = now\<rparr>"

definition hit_key :: "segment \<Rightarrow> hit \<Rightarrow> string \<times> string \<times> string" where
  "hit_key seg h = (case h of (pr, alg, cls) \<Rightarrow> (pr, seg_src seg @ ''->'' @ seg_dst seg, alg))"

record scan_state =
  ss_seen :: "(string \<times> string \<times> string) list"
  ss_out :: "finding list"
  ss_capped :: bool

fun emit_hits :: "int \<Rightarrow> capture_file \<Rightarrow> segment \<Rightarrow> hit list \<Rightarrow> scan_state \<Rightarrow> scan_state" where
  "emit_hits now f seg [] st = st"
| "emit_hits now f seg (h # hs) st =
     (if hit_key seg h \<in> set (ss_seen st) then emit_hits now f seg hs st
      else
        (let st1 = st\<lparr>ss_seen := hit_key seg h # ss_seen st\<rparr> in
         if length (ss_out st) \<ge> MAX_FINDINGS_PER_FILE then st1\<lparr>ss_capped := True\<rparr>
         else emit_hits now f seg hs (st1\<lparr>ss_out := ss_out st @ [pcap_finding now f seg h]\<rparr>)))"

text \<open>The packet loop; the flag says whether an exception ended it.\<close>

fun scan_packets ::
  "(byte list \<Rightarrow> byte list option option) \<Rightarrow> int \<Rightarrow> capture_file \<Rightarrow> packet list \<Rightarrow> scan_state \<Rightarrow> bool \<times> scan_state" where
  "scan_packets quic now f [] st = (False, st)"
| "scan_packets quic now f ((fr, lt) # ps) st =
     (case decode_packet fr lt of
        None \<Rightarrow> scan_packets quic now f ps st
      | Some seg \<Rightarrow>
          if proto seg \<notin> {''tcp'', ''udp''} \<or> payload seg = [] then scan_packets quic now f ps st
          else
            (case analyze quic (payload seg) (proto seg) of
               None \<Rightarrow> (True, st)
             | Some hs \<Rightarrow>
                 (let st' = emit_hits now f seg hs st in
                  if ss_capped st' then (False, st') else scan_packets quic now f ps st')))"

definition scan_file :: "(byte list \<Rightarrow> byte list option option) \<Rightarrow> int \<Rightarrow> capture_file \<Rightarrow> finding list" where
  "scan_file quic now f =
     (case scan_packets quic now f (iter_packets (cf_data f)) \<lparr>ss_seen = [], ss_out = [], ss_capped = False\<rparr> of
        (raised, st) \<Rightarrow> ss_out st @ (if \<not> raised \<and> ss_capped st then [cap_note now f] else []))"

end
