(* ===== verification/Capped_Report.thy ===== *)
theory Capped_Report
  imports Prelude
begin

text \<open>
  The reporting loop that several probes share: observations come one by one, an observation whose key has
  been seen is passed over, the others are emitted until a cap is reached, and the first new one beyond it
  sets a flag that ends the loop. The locale states what one turn of such a loop promises; what the whole
  loop reports is proved once from that, and the probes interpret it on their own loops.
\<close>

section \<open>The loop and its reference\<close>

fun distinct_by :: "('a \<Rightarrow> 'k) \<Rightarrow> 'k list \<Rightarrow> 'a list \<Rightarrow> 'a list" where
  "distinct_by key seen [] = []"
| "distinct_by key seen (x # xs) =
     (if key x \<in> set seen then distinct_by key seen xs else x # distinct_by key (key x # seen) xs)"

lemma distinct_by_keys: "key ` set (distinct_by key seen xs) = key ` set xs - set seen"
  by (induction key seen xs rule: distinct_by.induct) auto

lemma distinct_distinct_by: "distinct (map key (distinct_by key seen xs))"
  by (induction key seen xs rule: distinct_by.induct) (simp_all add: distinct_by_keys)

lemma distinct_by_subset: "set (distinct_by key seen xs) \<subseteq> set xs"
  by (induction key seen xs rule: distinct_by.induct) auto

fun run_until :: "('s \<Rightarrow> bool) \<Rightarrow> ('x \<Rightarrow> 's \<Rightarrow> 's) \<Rightarrow> 'x list \<Rightarrow> 's \<Rightarrow> 's" where
  "run_until stop step [] st = st"
| "run_until stop step (x # xs) st = (let st' = step x st in if stop st' then st' else run_until stop step xs st')"

lemma run_until_append:
  "\<not> stop st \<Longrightarrow> run_until stop step (xs @ ys) st =
     (let st' = run_until stop step xs st in if stop st' then st' else run_until stop step ys st')"
  by (induction xs arbitrary: st) (auto simp: Let_def)

section \<open>The contract of one turn\<close>

locale capped_report =
  fixes step :: "'x \<Rightarrow> 's \<Rightarrow> 's"
    and key :: "'x \<Rightarrow> 'k"
    and render :: "'x \<Rightarrow> 'f"
    and seen :: "'s \<Rightarrow> 'k list"
    and out :: "'s \<Rightarrow> 'f list"
    and capped :: "'s \<Rightarrow> bool"
    and tidy :: "'s \<Rightarrow> bool"
    and cap :: nat
  assumes step_seen: "tidy st \<Longrightarrow> key x \<in> set (seen st) \<Longrightarrow> step x st = st"
    and step_new: "tidy st \<Longrightarrow> key x \<notin> set (seen st) \<Longrightarrow> length (out st) < cap \<Longrightarrow>
      out (step x st) = out st @ [render x] \<and> seen (step x st) = key x # seen st \<and> capped (step x st) = capped st \<and> tidy (step x st)"
    and step_full: "tidy st \<Longrightarrow> key x \<notin> set (seen st) \<Longrightarrow> cap \<le> length (out st) \<Longrightarrow> out (step x st) = out st \<and> capped (step x st)"
begin

lemma reports:
  assumes "tidy st" "\<not> capped st" "length (out st) \<le> cap"
  shows "out (run_until capped step xs st) =
      out st @ map render (take (cap - length (out st)) (distinct_by key (seen st) xs)) \<and>
    (capped (run_until capped step xs st) \<longleftrightarrow> cap < length (out st) + length (distinct_by key (seen st) xs))"
  using assms
proof (induction xs arbitrary: st)
  case (Cons x xs)
  show ?case
  proof (cases "key x \<in> set (seen st)")
    case True
    with Cons step_seen [of st x] show ?thesis by simp
  next
    case new: False
    show ?thesis
    proof (cases "length (out st) < cap")
      case True
      note n = step_new [OF Cons.prems(1) new True]
      obtain k where k: "cap - length (out st) = Suc k" using True by (cases "cap - length (out st)") auto
      then have k': "cap - Suc (length (out st)) = k" by simp
      show ?thesis using Cons.IH [of "step x st"] Cons.prems(2, 3) True new n by (simp add: k k')
    next
      case False
      with Cons.prems new step_full [OF Cons.prems(1) new] show ?thesis by simp
    qed
  qed
qed simp

lemma uncapped:
  assumes "tidy st" "\<not> capped st" "\<not> capped (run_until capped step xs st)"
  shows "tidy (run_until capped step xs st) \<and> set (seen (run_until capped step xs st)) = set (seen st) \<union> key ` set xs"
  using assms
proof (induction xs arbitrary: st)
  case (Cons x xs)
  show ?case
  proof (cases "key x \<in> set (seen st)")
    case True
    with Cons step_seen [of st x] show ?thesis by auto
  next
    case new: False
    show ?thesis
    proof (cases "length (out st) < cap")
      case True
      from Cons.IH [of "step x st"] Cons.prems step_new [OF Cons.prems(1) new True] show ?thesis by auto
    next
      case False
      with Cons.prems new step_full [OF Cons.prems(1) new] show ?thesis by simp
    qed
  qed
qed simp

corollary reports_all:
  assumes "tidy st" "\<not> capped st" "out st = []" "seen st = []"
  shows "out (run_until capped step xs st) = map render (take cap (distinct_by key [] xs))"
    and "capped (run_until capped step xs st) \<longleftrightarrow> cap < length (distinct_by key [] xs)"
  using reports [OF assms(1, 2)] assms by simp_all

end

end
