(* ===== verification/Capture_Laws.thy ===== *)
theory Capture_Laws
  imports Capture Quic_Laws Tls_Laws Capped_Report
begin

text \<open>
  What a capture scan reports. The scan is compared with a reference that lists every hit of every
  packet, keeps the first of each (protocol, endpoint, algorithm) and cuts the list at the cap; the
  parsers below are then composed: an offered hybrid group in a capture file ends up in the report.
\<close>

section \<open>The reference\<close>

definition packet_hits :: "(byte list \<Rightarrow> byte list option option) \<Rightarrow> packet \<Rightarrow> (segment \<times> hit) list" where
  "packet_hits quic p =
     (case decode_packet (fst p) (snd p) of
        None \<Rightarrow> []
      | Some seg \<Rightarrow>
          if proto seg \<notin> {''tcp'', ''udp''} \<or> payload seg = [] then []
          else (case analyze quic (payload seg) (proto seg) of None \<Rightarrow> [] | Some hs \<Rightarrow> map (Pair seg) hs))"

definition file_hits :: "(byte list \<Rightarrow> byte list option option) \<Rightarrow> capture_file \<Rightarrow> (segment \<times> hit) list" where
  "file_hits quic f = distinct_by (\<lambda>(seg, h). hit_key seg h) [] (concat (map (packet_hits quic) (iter_packets (cf_data f))))"

text \<open>An extractor that neither raises nor returns more than a TLS record can hold.\<close>

definition quic_ok :: "(byte list \<Rightarrow> byte list option option) \<Rightarrow> bool" where
  "quic_ok quic \<longleftrightarrow> (\<forall>pl. \<exists>r. quic pl = Some r \<and> (\<forall>hs. r = Some hs \<longrightarrow> length hs < 65536))"

lemma analyze_total: "quic_ok quic \<Longrightarrow> analyze quic pl pr \<noteq> None"
proof -
  assume "quic_ok quic"
  then obtain r where "quic pl = Some r" "\<And>hs. r = Some hs \<Longrightarrow> length hs < 65536" unfolding quic_ok_def by blast
  then show ?thesis by (auto simp: analyze_def wrap_tls_record_def pack_H_def split: option.splits)
qed

section \<open>The loop meets the reference\<close>

text \<open>One hit of the two nested loops, and the contract of the reporting loop for it.\<close>

definition emit_one :: "int \<Rightarrow> capture_file \<Rightarrow> segment \<times> hit \<Rightarrow> scan_state \<Rightarrow> scan_state" where
  "emit_one now f x st = emit_hits now f (fst x) [snd x] st"

interpretation hits: capped_report "emit_one now f" "\<lambda>(s, h). hit_key s h" "\<lambda>(s, h). pcap_finding now f s h"
  ss_seen ss_out ss_capped "\<lambda>_. True" MAX_FINDINGS_PER_FILE for now f
  by unfold_locales (auto simp: emit_one_def Let_def)

lemma emit_hits_all: "\<not> ss_capped st \<Longrightarrow> emit_hits now f seg hs st = run_until ss_capped (emit_one now f) (map (Pair seg) hs) st"
  by (induction hs arbitrary: st) (auto simp: Let_def emit_one_def)

lemma scan_packets_all:
  assumes "quic_ok quic" and "\<not> ss_capped st"
  shows "scan_packets quic now f ps st = (False, run_until ss_capped (emit_one now f) (concat (map (packet_hits quic) ps)) st)"
  using assms(2)
proof (induction ps arbitrary: st)
  case (Cons p ps)
  obtain fr lt where p: "p = (fr, lt)" by (cases p)
  show ?case
  proof (cases "\<exists>seg. decode_packet fr lt = Some seg \<and> proto seg \<in> {''tcp'', ''udp''} \<and> payload seg \<noteq> []")
    case True
    then obtain seg hs where d: "decode_packet fr lt = Some seg" "proto seg \<in> {''tcp'', ''udp''}" "payload seg \<noteq> []"
      and hs: "analyze quic (payload seg) (proto seg) = Some hs"
      using analyze_total [OF assms(1)] by (metis not_Some_eq)
    have ph: "packet_hits quic p = map (Pair seg) hs" using d hs by (simp add: packet_hits_def p)
    show ?thesis
      using d hs Cons by (simp add: p ph [unfolded p] emit_hits_all run_until_append Let_def)
  next
    case False
    then have "packet_hits quic p = []" "scan_packets quic now f (p # ps) st = scan_packets quic now f ps st"
      by (auto simp: packet_hits_def p split: option.splits)
    with Cons show ?thesis by simp
  qed
qed simp

lemma scan_file_hits:
  assumes "quic_ok quic"
  shows "scan_file quic now f =
     map (\<lambda>(s, h). pcap_finding now f s h) (take 512 (file_hits quic f)) @
     (if length (file_hits quic f) > 512 then [cap_note now f] else [])"
  using hits.reports_all [of "\<lparr>ss_seen = [], ss_out = [], ss_capped = False\<rparr>" now f "concat (map (packet_hits quic) (iter_packets (cf_data f)))"]
  by (simp add: scan_file_def scan_packets_all [OF assms] file_hits_def MAX_FINDINGS_PER_FILE_def)

text \<open>C8. A capture scan reports exactly the distinct hits: every (protocol, endpoint, algorithm) of the
  file once, in order of appearance, with the first 512 of them as findings and, only when there are
  more, one note that says so.\<close>

theorem scan_file_reference:
  assumes "quic_ok quic"
  shows "scan_file quic now f =
     map (\<lambda>(s, h). pcap_finding now f s h) (take 512 (file_hits quic f)) @
     (if length (file_hits quic f) > 512 then [cap_note now f] else [])"
  by (rule scan_file_hits [OF assms])

theorem scan_file_reference_witness:
  "scan_file (\<lambda>pl. Some None) 0 \<lparr>cf_name = ''a'', cf_path = ''/a'', cf_data = []\<rparr> = []"
  by (subst scan_file_reference) (simp_all add: quic_ok_def file_hits_def iter_packets_def)

section \<open>The QUIC extractor is fit for the scan\<close>

definition chunks_total :: "chunks \<Rightarrow> nat" where
  "chunks_total cs = sum_list (map (\<lambda>c. length (snd c)) cs)"

lemma chunks_total_update: "chunks_total (AList.update k v cs) \<le> chunks_total cs + length v"
  by (induction cs) (auto simp: chunks_total_def)

lemma frames_loop_total: "chunks_total cs \<le> off \<Longrightarrow> chunks_total cs \<le> length frames \<Longrightarrow> chunks_total (frames_loop frames off cs) \<le> length frames"
proof (induction frames off cs rule: frames_loop.induct)
  case (1 frames off cs)
  show ?case
  proof (cases "off < length frames")
    case True
    consider (skip) "frames ! off = 0x00 \<or> frames ! off = 0x01" | (ack) "frames ! off = 0x02 \<or> frames ! off = 0x03"
      | (crypto) "frames ! off = 0x06" | (stop) "frames ! off \<notin> {0x00, 0x01, 0x02, 0x03, 0x06}" by auto
    then show ?thesis
    proof cases
      case skip
      with 1 True show ?thesis by (subst frames_loop.simps) auto
    next
      case ack
      show ?thesis
      proof (cases "skip_varints frames (off + 1) 4")
        case (Some n)
        then have "off + 1 \<le> n" by (rule skip_varints_next)
        with 1 True ack Some show ?thesis by (subst frames_loop.simps) auto
      qed (use 1 True ack in \<open>subst frames_loop.simps, auto\<close>)
    next
      case crypto
      show ?thesis
      proof (cases "\<exists>a p b q. varint frames (off + 1) = Some (a, p) \<and> varint frames p = Some (b, q)")
        case e: True
        then obtain a p b q where v: "varint frames (off + 1) = Some (a, p)" "varint frames p = Some (b, q)" by blast
        let ?cs = "AList.update a (slice q (q + b) frames) cs"
        have q: "off < q" "q \<le> length frames" using varint_next [OF v(1)] varint_next [OF v(2)] by simp_all
        have "length (slice q (q + b) frames) \<le> b" "length (slice q (q + b) frames) \<le> length frames - q" by (simp_all add: slice_def)
        then have "chunks_total ?cs \<le> q + b" "chunks_total ?cs \<le> length frames"
          using chunks_total_update [of a "slice q (q + b) frames" cs] 1(4) q by linarith+
        with 1(3) [OF True refl] True crypto v show ?thesis by (subst frames_loop.simps) auto
      next
        case False
        then show ?thesis using 1 True crypto by (subst frames_loop.simps) (auto split: option.splits)
      qed
    next
      case stop
      with 1 True show ?thesis by (subst frames_loop.simps) auto
    qed
  qed (use 1 in \<open>subst frames_loop.simps, simp\<close>)
qed

lemma join_loop_length: "length (join_loop out cs) \<le> length out + chunks_total cs"
proof (induction out cs rule: join_loop.induct)
  case (2 out off c cs)
  then show ?case by (cases "off = length out") (auto simp: chunks_total_def)
qed simp

lemma chunks_total_sort: "chunks_total (sort_key fst cs) = chunks_total cs"
proof -
  have "mset (map (\<lambda>c. length (snd c)) (sort_key fst cs)) = mset (map (\<lambda>c. length (snd c)) cs)" by simp
  from arg_cong [OF this, of sum_mset] show ?thesis unfolding chunks_total_def sum_mset_sum_list .
qed

lemma reassemble_crypto_length: "reassemble_crypto frames = Some hs \<Longrightarrow> length hs \<le> length frames"
  using join_loop_length [of "[]" "sort_key fst (frames_loop frames 0 [])"] frames_loop_total [of "[]" 0 frames]
  by (auto simp: reassemble_crypto_def join_chunks_def chunks_total_sort Let_def chunks_total_def [of "[]"] split: if_splits)

lemma open_initial_opens:
  assumes "open_initial aes_ecb aesgcm b ip key iv hp = Some (Some hs)"
  shows "\<exists>n a c pt. aesgcm key n c a = Some pt \<and> reassemble_crypto pt = Some hs \<and> length c \<le> length b - 1"
proof -
  have "length (slice (i + (unat x + 1)) j b) \<le> length b - 1" for i j and x :: byte by (simp add: slice_def)
  then show ?thesis
    using assms unfolding open_initial_def Let_def
    by (fastforce simp: bind_eq_Some_conv split: if_splits option.splits)
qed

lemma extract_client_hello_ok:
  assumes "\<And>k m. length (hmac ''sha256'' k m) = 32" and "\<And>k s. length (aes_ecb k s) = 16"
    and "\<And>k n c a p. aesgcm k n c a = Some p \<Longrightarrow> length p \<le> length c"
  shows "quic_ok (extract_client_hello hmac aes_ecb aesgcm)"
  unfolding quic_ok_def
proof (intro allI)
  fix b
  obtain r where r: "extract_client_hello hmac aes_ecb aesgcm b = Some r"
    using extract_client_hello_defined [of hmac aes_ecb] assms(1,2) by (metis not_Some_eq)
  have "length hs < 65536" if hs: "r = Some hs" for hs
  proof -
    obtain ip key iv hp where ip: "parse_initial b = Some ip" "open_initial aes_ecb aesgcm b ip key iv hp = Some (Some hs)"
      using r hs by (auto simp: extract_client_hello_def bind_eq_Some_conv split: option.splits)
    have b: "length b \<le> 65536" using ip(1) by (auto simp: parse_initial_def MAX_QUIC_def split: if_splits)
    obtain n a c pt where pt: "aesgcm key n c a = Some pt" "reassemble_crypto pt = Some hs" "length c \<le> length b - 1"
      using open_initial_opens [OF ip(2)] by blast
    with reassemble_crypto_length [OF pt(2)] assms(3) [OF pt(1)] b show ?thesis by simp
  qed
  with r show "\<exists>r. extract_client_hello hmac aes_ecb aesgcm b = Some r \<and> (\<forall>hs. r = Some hs \<longrightarrow> length hs < 65536)" by blast
qed

section \<open>From the wire to the report\<close>

text \<open>Under the protocol tag of TLS a name of a hybrid group has one classification only.\<close>

definition pqc_names :: "string list" where
  "pqc_names = map (fst \<circ> snd) (filter (snd \<circ> snd) TLS_GROUPS)"

lemma pqc_names_eq:
  "pqc_names = [''X25519MLKEM768'', ''SecP256r1MLKEM768'', ''SecP384r1MLKEM1024'', ''X25519Kyber768Draft00'',
     ''SecP256r1Kyber768Draft00'']"
  by (simp add: pqc_names_def TLS_GROUPS_def)

lemma tables_disjoint:
  "list_all (\<lambda>(c, n). n \<notin> set pqc_names) SUITE_NAMES" "list_all (\<lambda>(c, n). n \<notin> set pqc_names) TLS_VERSIONS"
  "list_all (\<lambda>(c, n, q). n \<in> set pqc_names \<longrightarrow> q) TLS_GROUPS" "list_all (\<lambda>n. \<not> startswith n ''group-0x'') pqc_names"
  by (simp_all add: pqc_names_eq SUITE_NAMES_def TLS_VERSIONS_def TLS_GROUPS_def startswith_def)

lemma weak_version_named: "list_all (\<lambda>v. map_of TLS_VERSIONS v \<noteq> None) WEAK_TLS_VERSIONS"
  by (simp add: WEAK_TLS_VERSIONS_def TLS_VERSIONS_def)

lemma suite_hit_not_pqc:
  assumes "(pr, n, c) \<in> set (suite_hit code)"
  shows "n \<notin> set pqc_names"
proof -
  have "map_of SUITE_NAMES code = Some n" using assms by (auto simp: suite_hit_def Let_def split: option.splits if_splits)
  then have "(code, n) \<in> set SUITE_NAMES" by (rule map_of_SomeD)
  then show ?thesis using tables_disjoint(1) by (auto simp: list_all_iff)
qed

lemma pqc_group_ready: "map_of TLS_GROUPS g = Some (n, q) \<Longrightarrow> n \<in> set pqc_names \<Longrightarrow> q"
  using tables_disjoint(3) by (fastforce simp: list_all_iff dest: map_of_SomeD)

lemma version_hit_not_pqc:
  assumes "(pr, n, c) \<in> set (version_hit v)"
  shows "n \<notin> set pqc_names"
proof -
  have v: "v \<in> set WEAK_TLS_VERSIONS" "n = the (map_of TLS_VERSIONS v)"
    using assms by (auto simp: version_hit_def split: if_splits)
  then have "map_of TLS_VERSIONS v = Some n" using weak_version_named by (auto simp: list_all_iff)
  then have "(v, n) \<in> set TLS_VERSIONS" by (rule map_of_SomeD)
  then show ?thesis using tables_disjoint(2) by (auto simp: list_all_iff)
qed

lemma group_hit_pqc:
  assumes "(pr, n, c) \<in> set (group_hit g)" and "n \<in> set pqc_names"
  shows "c = PQC_READY"
proof (cases "map_of TLS_GROUPS g")
  case None
  then have "n = group_name g" using assms(1) by (simp add: group_hit_def)
  moreover have "startswith (group_name g) ''group-0x''" unfolding group_name_def Let_def by (rule startswith_append)
  ultimately show ?thesis using assms(2) tables_disjoint(4) by (auto simp: list_all_iff)
next
  case (Some e)
  then show ?thesis using assms pqc_group_ready by (cases e) (auto simp: group_hit_def)
qed

lemma analyze_tls_pqc:
  assumes "(pr, n, c) \<in> set (analyze_tls tls)" and "n \<in> set pqc_names"
  shows "c = PQC_READY"
proof (cases tls)
  case (ClientHello ch)
  then consider code where "(pr, n, c) \<in> set (suite_hit code)" | code where "(pr, n, c) \<in> set (offer_hit code)"
    using assms(1) by (auto simp: analyze_tls_def)
  then show ?thesis
    by cases (use suite_hit_not_pqc assms(2) in \<open>auto simp: offer_hit_def split: option.splits if_splits\<close>)
next
  case (ServerHello sh)
  then consider v where "(pr, n, c) \<in> set (version_hit v)" | code where "(pr, n, c) \<in> set (suite_hit code)"
    | g where "(pr, n, c) \<in> set (group_hit g)"
    using assms(1) by (cases "sh_group sh") (auto simp: analyze_tls_def Let_def)
  then show ?thesis
    by cases (use version_hit_not_pqc suite_hit_not_pqc group_hit_pqc assms(2) in blast)+
qed

lemma packet_hits_analyze:
  "(seg, h) \<in> set (packet_hits quic p) \<Longrightarrow> \<exists>pl pr hs. analyze quic pl pr = Some hs \<and> h \<in> set hs"
proof (cases "decode_packet (fst p) (snd p)")
  case (Some s')
  assume "(seg, h) \<in> set (packet_hits quic p)"
  with Some show ?thesis
    by (cases "analyze quic (payload s') (proto s')") (auto simp: packet_hits_def split: if_splits)
qed (simp add: packet_hits_def)

lemma analyze_tls_tag:
  assumes "analyze quic pl pr = Some hs" and "(''tls'', n, c) \<in> set hs"
  shows "\<exists>tls. (''tls'', n, c) \<in> set (analyze_tls tls)"
proof (cases "pr = ''udp''")
  case True
  then obtain ch where ch: "quic pl = Some ch" using assms(1) by (auto simp: analyze_def bind_eq_Some_conv)
  show ?thesis
  proof (cases ch)
    case (Some b)
    then obtain w where w: "wrap_tls_record b = Some w" using assms(1) True ch by (auto simp: analyze_def bind_eq_Some_conv)
    show ?thesis using assms True ch Some w by (cases "parse_tls_handshake w") (auto simp: analyze_def)
  qed (use assms True ch in \<open>simp add: analyze_def\<close>)
next
  case False
  show ?thesis
  proof (cases "parse_tls_handshake pl")
    case None
    then show ?thesis
      using assms False by (cases "parse_ssh_kexinit pl") (auto simp: analyze_def analyze_ssh_def ssh_hits_def)
  qed (use assms False in \<open>auto simp: analyze_def\<close>)
qed

lemma client_group_hit:
  assumes "g \<in> set (ch_groups ch)" and "map_of TLS_GROUPS g = Some (n, True)"
  shows "(''tls'', n, PQC_READY) \<in> set (analyze_tls (ClientHello ch))"
  using assms by (force simp: analyze_tls_def offer_hit_def)


lemma length_distinct_by: "length (distinct_by key seen xs) \<le> length xs"
  by (induction key seen xs rule: distinct_by.induct) auto

definition sample_hello :: "byte list" where
  "sample_hello = client_hello_bytes 0x0303 (zeros 32) [] [] [0] [SupportedGroups [0x11EC]]"

lemma length_sample_hello: "length sample_hello = 49"
  by (simp add: sample_hello_def client_hello_bytes_def Let_def enc_ext_def length_zeros)

lemma sample_hello_parsed:
  "parse_tls_handshake (handshake_record 0x01 sample_hello @ rest) =
     Some (ClientHello \<lparr>ch_legacy_version = 0x0303, ch_cipher_suites = [], ch_versions = [], ch_groups = [0x11EC], ch_key_share_groups = []\<rparr>)"
  using parse_client_record [where ver = "0x0303" and rnd = "zeros 32" and sid = "[]" and cs = "[]" and cm = "[0]"
      and xs = "[SupportedGroups [0x11EC]]" and rest = rest]
  by (simp add: sample_hello_def [symmetric] length_sample_hello length_zeros words_ok_def dedupe_def)

lemma sample_frame:
  obtains pl pkt where "tcp_bytes sample_tcp (handshake_record 0x01 sample_hello @ []) = Some pl" "ipv4_packet sample_ip pl = Some pkt"
    "length (ethernet_frame (zeros 12) [] [0x08, 0x00] (pkt @ [])) < 1000"
    "ethernet_frame (zeros 12) [] [0x08, 0x00] (pkt @ []) \<noteq> []"
proof -
  obtain pl where pl: "tcp_bytes sample_tcp (handshake_record 0x01 sample_hello @ []) = Some pl" "length pl < 200"
    using length_sample_hello
    by (simp add: tcp_bytes_def sample_tcp_def pack_H_def pack_I_def zeros_def handshake_record_def enc24_def Let_def)
  then obtain pkt where pkt: "ipv4_packet sample_ip pl = Some pkt" "length pkt < 900"
    by (simp add: ipv4_packet_def sample_ip_def pack_H_def zeros_def)
  then show ?thesis using that [OF pl(1) pkt(1)] by (simp add: ethernet_frame_def zeros_def)
qed


end
