(* ===== verification/Srcstrip.thy ===== *)
theory Srcstrip
  imports Prelude
begin

text \<open>
  \<^verbatim>\<open>core/srcstrip.py\<close>: blanking comments and literals of source text before the detection
  patterns run. A pattern of the module is the function that gives the length of its match at the
  start of a text, if there is one, with the choices of Python's \<^verbatim>\<open>re\<close>: alternatives in order,
  greedy and lazy repetition with backtracking. No step of \<^verbatim>\<open>strip_noncode\<close> can raise, so its
  catch-all branch is not needed here.
\<close>

section \<open>Lexical forms\<close>

type_synonym form = "string \<Rightarrow> nat option"

text \<open>The rest of a literal after its opening quote, closing quote included:
  \<^verbatim>\<open>(?:\\.|[^q\\\n])*q\<close>. The dot matches no newline.\<close>

fun quoted_rest :: "char \<Rightarrow> string \<Rightarrow> nat option" where
  "quoted_rest q [] = None"
| "quoted_rest q [c] = (if c = q then Some 1 else None)"
| "quoted_rest q (c # d # cs) =
     (if c = q then Some 1
      else if c = CHR 0x5C then (if d = newline then None else map_option ((+) 2) (quoted_rest q cs))
      else if c = newline then None
      else map_option Suc (quoted_rest q (d # cs)))"

definition quoted :: "char \<Rightarrow> form" where
  "quoted q s = (case s of [] \<Rightarrow> None | c # cs \<Rightarrow> if c = q then map_option Suc (quoted_rest q cs) else None)"

definition DQ :: form where
  "DQ = quoted (CHR 0x22)"

definition SQ_STR :: form where
  "SQ_STR = quoted (CHR 0x27)"

definition CHAR_LIT :: form where
  "CHAR_LIT s =
     (case s of
        a # b # c # cs \<Rightarrow>
          if a \<noteq> CHR 0x27 then None
          else if b = CHR 0x5C then (if c \<noteq> newline \<and> cs \<noteq> [] \<and> hd cs = CHR 0x27 then Some 4 else None)
          else if b \<noteq> CHR 0x27 \<and> b \<noteq> newline \<and> c = CHR 0x27 then Some 3
          else None
      | _ \<Rightarrow> None)"

text \<open>The first occurrence of a terminator, as a lazy \<^verbatim>\<open>[\s\S]*?\<close> finds it.\<close>

fun lazy_upto :: "string \<Rightarrow> string \<Rightarrow> nat option" where
  "lazy_upto t s = (if startswith s t then Some (length t)
     else (case s of [] \<Rightarrow> None | c # cs \<Rightarrow> map_option Suc (lazy_upto t cs)))"

declare lazy_upto.simps [simp del]

definition BLOCK :: form where
  "BLOCK s = (if startswith s ''/*'' then map_option ((+) 2) (lazy_upto ''*/'' (drop 2 s)) else None)"

definition line_from :: "string \<Rightarrow> form" where
  "line_from p s = (if startswith s p then Some (length p + length (takeWhile (\<lambda>c. c \<noteq> newline) (drop (length p) s))) else None)"

definition LINE_SLASH :: form where
  "LINE_SLASH = line_from ''//''"

definition LINE_HASH :: form where
  "LINE_HASH = line_from ''#''"

definition BACKTICK :: form where
  "BACKTICK s =
     (case s of
        [] \<Rightarrow> None
      | c # cs \<Rightarrow>
          if c = CHR 0x60 \<and> CHR 0x60 \<in> set cs then Some (length (takeWhile (\<lambda>x. x \<noteq> CHR 0x60) cs) + 2) else None)"

definition raw_from :: form where
  "raw_from s =
     (let hashes = takeWhile (\<lambda>c. c = CHR ''#'') s; r = drop (length hashes) s in
      if startswith r [CHR 0x22] then map_option ((+) (length hashes + 1)) (lazy_upto (CHR 0x22 # hashes) (drop 1 r)) else None)"

definition RUST_RAW :: form where
  "RUST_RAW s =
     (if startswith s ''br'' then map_option ((+) 2) (raw_from (drop 2 s))
      else if startswith s ''r'' then map_option ((+) 1) (raw_from (drop 1 s))
      else None)"

text \<open>\<^verbatim>\<open>(?:""|[^"])*"\<close>: a doubled quote continues the literal, and is taken as the closing one only
  when no later quote closes it.\<close>

fun verbatim_rest :: "string \<Rightarrow> nat option" where
  "verbatim_rest [] = None"
| "verbatim_rest [c] = (if c = CHR 0x22 then Some 1 else None)"
| "verbatim_rest (c # d # cs) =
     (if c = CHR 0x22 then
        (if d = CHR 0x22 then (case verbatim_rest cs of Some n \<Rightarrow> Some (n + 2) | None \<Rightarrow> Some 1) else Some 1)
      else map_option Suc (verbatim_rest (d # cs)))"

definition CSHARP_VERBATIM :: form where
  "CSHARP_VERBATIM s = (if startswith s [CHR ''@'', CHR 0x22] then map_option ((+) 2) (verbatim_rest (drop 2 s)) else None)"

definition LANG_FORMS :: "(string \<times> form list) list" where
  "LANG_FORMS =
     [(''go'', [BLOCK, LINE_SLASH, BACKTICK, DQ, CHAR_LIT]),
      (''java'', [BLOCK, LINE_SLASH, DQ, CHAR_LIT]),
      (''javascript'', [BLOCK, LINE_SLASH, BACKTICK, DQ, SQ_STR]),
      (''php'', [BLOCK, LINE_SLASH, LINE_HASH, DQ, SQ_STR]),
      (''rust'', [BLOCK, LINE_SLASH, RUST_RAW, DQ, CHAR_LIT]),
      (''csharp'', [BLOCK, LINE_SLASH, CSHARP_VERBATIM, DQ, CHAR_LIT])]"

section \<open>Blanking\<close>

text \<open>The first alternative that matches at the start of the text. No form matches the empty text.\<close>

fun first_match :: "form list \<Rightarrow> form" where
  "first_match [] s = None"
| "first_match (f # fs) s = (case f s of Some n \<Rightarrow> Some n | None \<Rightarrow> first_match fs s)"

text \<open>\<^verbatim>\<open>finditer\<close>: the spans of the matches, left to right; the search resumes after a match. (Every
  form consumes something; the one-character minimum stands for Python's rule for empty matches.)\<close>

function find_spans :: "form list \<Rightarrow> string \<Rightarrow> nat \<Rightarrow> (nat \<times> nat) list" where
  "find_spans fs s pos =
     (if pos < length s then
        (case first_match fs (drop pos s) of
           None \<Rightarrow> find_spans fs s (pos + 1)
         | Some n \<Rightarrow> (pos, pos + n) # find_spans fs s (pos + max 1 n))
      else [])"
  by pat_completeness auto
termination
  by (relation "measure (\<lambda>(fs, s, pos). length s - pos)") auto

declare find_spans.simps [simp del]

definition blank :: "char \<Rightarrow> char" where
  "blank c = (if c \<noteq> newline then CHR '' '' else c)"

definition blank_span :: "string \<Rightarrow> nat \<times> nat \<Rightarrow> string" where
  "blank_span chars sp = (case sp of (a, b) \<Rightarrow> take a chars @ map blank (take (b - a) (drop a chars)) @ drop (max a b) chars)"

definition strip_noncode :: "string \<Rightarrow> string \<Rightarrow> string" where
  "strip_noncode source lang =
     (case map_of LANG_FORMS lang of
        None \<Rightarrow> source
      | Some fs \<Rightarrow> foldl blank_span source (find_spans fs source 0))"

text \<open>The matches of a detection pattern over the original text are an argument, each with its start.\<close>

definition code_finditer :: "(nat \<times> 'm) list \<Rightarrow> string \<Rightarrow> string \<Rightarrow> (nat \<times> 'm) list" where
  "code_finditer matches text scan_text =
     filter (\<lambda>(i, m). \<not> (i < length scan_text \<and> text ! i \<noteq> scan_text ! i)) matches"

section \<open>Laws\<close>

text \<open>
  What blanking keeps and what it removes. First the contract every language relies on: the result
  has the length and the line structure of the source and differs from it only by spaces. Then that
  the span-based code equals a one-pass reference, and from the reference that exactly the comments
  and literals of a Java text are blanked.
\<close>

section \<open>Only spaces are written\<close>

definition masks :: "string \<Rightarrow> string \<Rightarrow> bool" where
  "masks = list_all2 (\<lambda>c d. d = c \<or> c \<noteq> newline \<and> d = CHR '' '')"

lemma masks_refl [simp]: "masks s s"
  by (simp add: masks_def list_all2_refl)

lemma masks_trans: "masks s t \<Longrightarrow> masks t u \<Longrightarrow> masks s u"
  by (simp add: masks_def list_all2_conv_all_nth) metis

lemma masks_append: "masks a b \<Longrightarrow> masks c d \<Longrightarrow> masks (a @ c) (b @ d)"
  by (simp add: masks_def list_all2_appendI)

lemma masks_blank: "masks s (map blank s)"
  by (induction s) (auto simp: masks_def blank_def)

lemma masks_blank_span: "masks s (blank_span s (a, b))"
proof -
  have "s = take a s @ take (b - a) (drop a s) @ drop (max a b) s"
    by (metis append_take_drop_id drop_drop le_add_diff_inverse2 max.cobounded1 max_def diff_is_0_eq' nat_le_linear append_Nil take_0)
  moreover have "masks (take a s @ take (b - a) (drop a s) @ drop (max a b) s) (blank_span s (a, b))"
    by (simp add: blank_span_def masks_append masks_blank)
  ultimately show ?thesis by simp
qed

lemma masks_spans: "masks s (foldl blank_span s sps)"
proof (induction sps arbitrary: s)
  case (Cons sp sps)
  obtain a b where "sp = (a, b)" by (cases sp)
  with masks_trans [OF masks_blank_span Cons.IH] show ?case by simp
qed simp

lemma strip_masks: "masks s (strip_noncode s lang)"
  by (auto simp: strip_noncode_def masks_spans split: option.splits)

lemma masks_newlines: "masks s t \<Longrightarrow> filter ((=) newline) (take i t) = filter ((=) newline) (take i s)"
proof (induction s arbitrary: t i)
  case (Cons c s)
  then obtain d t' where t: "t = d # t'" "masks s t'" "d = c \<or> c \<noteq> newline \<and> d = CHR '' ''"
    by (auto simp: masks_def list_all2_Cons1)
  then show ?case using Cons.IH [OF t(2)] by (cases i) auto
qed (simp add: masks_def)

text \<open>Offsets and line numbers survive: for every language, known or not, the blanked text has the
  length of the source, at each place either the source's character or a space for one that is not a
  newline, and the same number of newlines before any offset.\<close>

theorem strip_noncode_offsets:
  "length (strip_noncode s lang) = length s \<and>
   (\<forall>i < length s. strip_noncode s lang ! i = s ! i \<or> s ! i \<noteq> newline \<and> strip_noncode s lang ! i = CHR '' '') \<and>
   (\<forall>i. count_list (take i (strip_noncode s lang)) newline = count_list (take i s) newline)"
proof -
  have m: "masks s (strip_noncode s lang)" by (rule strip_masks)
  then have "length (strip_noncode s lang) = length s"
    "\<forall>i < length s. strip_noncode s lang ! i = s ! i \<or> s ! i \<noteq> newline \<and> strip_noncode s lang ! i = CHR '' ''"
    by (auto simp: masks_def list_all2_conv_all_nth)
  moreover have "count_list (take i (strip_noncode s lang)) newline = count_list (take i s) newline" for i
    using arg_cong [OF masks_newlines [OF m, of i], of length] by (simp add: count_list_eq_length_filter)
  ultimately show ?thesis by blast
qed

theorem strip_noncode_offsets_witness:
  "length (strip_noncode ''a//b'' ''java'') = 4"
  using strip_noncode_offsets [of "''a//b''" "''java''"] by simp

section \<open>The one-pass reference\<close>

definition form_ok :: "form \<Rightarrow> bool" where
  "form_ok f \<longleftrightarrow> (\<forall>s n. f s = Some n \<longrightarrow> 1 \<le> n \<and> n \<le> length s)"

lemma form_okI: "(\<And>s n. f s = Some n \<Longrightarrow> 1 \<le> n \<and> n \<le> length s) \<Longrightarrow> form_ok f"
  by (simp add: form_ok_def)

lemma quoted_rest_le: "quoted_rest q s = Some n \<Longrightarrow> n \<le> length s"
  by (induction q s arbitrary: n rule: quoted_rest.induct) (auto split: if_splits)

lemma lazy_upto_le: "lazy_upto t s = Some n \<Longrightarrow> length t \<le> n \<and> n \<le> length s"
proof (induction s arbitrary: n)
  case Nil
  then show ?case by (subst (asm) lazy_upto.simps) (auto simp: startswith_def split: if_splits)
next
  case (Cons c s)
  show ?case
  proof (cases "startswith (c # s) t")
    case True
    with Cons.prems show ?thesis by (subst (asm) lazy_upto.simps) (auto simp: startswith_def dest: prefix_length_le)
  next
    case False
    then obtain k where "lazy_upto t s = Some k" "n = Suc k" using Cons.prems by (subst (asm) lazy_upto.simps) auto
    with Cons.IH [of k] show ?thesis by simp
  qed
qed

lemma verbatim_rest_le: "verbatim_rest s = Some n \<Longrightarrow> n \<le> length s"
  by (induction s arbitrary: n rule: verbatim_rest.induct) (fastforce split: if_splits option.splits)+

lemma startswith_length: "startswith s p \<Longrightarrow> length p \<le> length s"
  by (simp add: startswith_def prefix_length_le)

lemma forms_ok:
  "form_ok DQ" "form_ok SQ_STR" "form_ok CHAR_LIT" "form_ok BLOCK" "form_ok LINE_SLASH" "form_ok LINE_HASH"
  "form_ok BACKTICK" "form_ok RUST_RAW" "form_ok CSHARP_VERBATIM"
proof -
  have q: "form_ok (quoted q)" for q
    by (rule form_okI) (auto simp: quoted_def dest: quoted_rest_le split: list.splits if_splits)
  then show "form_ok DQ" "form_ok SQ_STR" by (simp_all add: DQ_def SQ_STR_def)
  show "form_ok CHAR_LIT"
    by (rule form_okI) (auto simp: CHAR_LIT_def Suc_le_eq split: list.splits if_splits)
  show "form_ok BLOCK"
  proof (rule form_okI)
    fix s n assume "BLOCK s = Some n"
    then obtain k where k: "startswith s ''/*''" "lazy_upto ''*/'' (drop 2 s) = Some k" "n = 2 + k"
      by (auto simp: BLOCK_def split: if_splits)
    with lazy_upto_le [OF k(2)] startswith_length [OF k(1)] show "1 \<le> n \<and> n \<le> length s" by (auto simp: le_diff_conv2)
  qed
  have l: "form_ok (line_from p)" if "p \<noteq> []" for p
  proof (rule form_okI)
    fix s n assume "line_from p s = Some n"
    then have k: "startswith s p" "n = length p + length (takeWhile (\<lambda>c. c \<noteq> newline) (drop (length p) s))"
      by (auto simp: line_from_def split: if_splits)
    have "length (takeWhile (\<lambda>c. c \<noteq> newline) (drop (length p) s)) \<le> length (drop (length p) s)" by (rule length_takeWhile_le)
    with k startswith_length [OF k(1)] that show "1 \<le> n \<and> n \<le> length s" by (cases p) simp_all
  qed
  then show "form_ok LINE_SLASH" "form_ok LINE_HASH" by (simp_all add: LINE_SLASH_def LINE_HASH_def)
  show "form_ok BACKTICK"
  proof (rule form_okI)
    fix s n assume b: "BACKTICK s = Some n"
    then obtain cs where s: "s = CHR 0x60 # cs" "CHR 0x60 \<in> set cs" "n = length (takeWhile (\<lambda>x. x \<noteq> CHR 0x60) cs) + 2"
      by (auto simp: BACKTICK_def split: list.splits if_splits)
    have "takeWhile (\<lambda>x. x \<noteq> CHR 0x60) cs \<noteq> cs" using s(2) by (metis (mono_tags, lifting) set_takeWhileD)
    then have "length (takeWhile (\<lambda>x. x \<noteq> CHR 0x60) cs) < length cs"
      by (metis le_neq_implies_less length_takeWhile_le take_all_iff takeWhile_eq_take order_refl)
    with s show "1 \<le> n \<and> n \<le> length s" by simp
  qed
  have r: "n \<le> length s" if raw: "raw_from s = Some n" for s n
  proof -
    let ?h = "takeWhile (\<lambda>c. c = CHR ''#'') s"
    obtain k where k: "startswith (drop (length ?h) s) [CHR 0x22]" "lazy_upto (CHR 0x22 # ?h) (drop 1 (drop (length ?h) s)) = Some k"
      "n = length ?h + 1 + k"
      using raw by (auto simp: raw_from_def Let_def split: if_splits)
    have "length ?h + 1 \<le> length s" using startswith_length [OF k(1)] by simp
    moreover have "k \<le> length s - (length ?h + 1)" using lazy_upto_le [OF k(2)] by simp
    ultimately show ?thesis using k(3) by linarith
  qed
  show "form_ok RUST_RAW"
    by (rule form_okI) (auto simp: RUST_RAW_def dest!: r startswith_length split: if_splits)
  show "form_ok CSHARP_VERBATIM"
    by (rule form_okI) (auto simp: CSHARP_VERBATIM_def dest!: verbatim_rest_le startswith_length split: if_splits)
qed

lemma first_match_ok: "list_all form_ok fs \<Longrightarrow> first_match fs s = Some n \<Longrightarrow> 1 \<le> n \<and> n \<le> length s"
  by (induction fs) (auto simp: form_ok_def split: option.splits)

lemma lang_forms_ok: "map_of LANG_FORMS lang = Some fs \<Longrightarrow> list_all form_ok fs"
  by (drule map_of_SomeD) (auto simp: LANG_FORMS_def forms_ok)

text \<open>One pass over the text: blank a match and go on after it, or keep a character.\<close>

function blank_pass :: "form list \<Rightarrow> string \<Rightarrow> string" where
  "blank_pass fs [] = []"
| "blank_pass fs (c # cs) =
     (case first_match fs (c # cs) of
        None \<Rightarrow> c # blank_pass fs cs
      | Some n \<Rightarrow> map blank (take (max 1 n) (c # cs)) @ blank_pass fs (drop (max 1 n) (c # cs)))"
  by pat_completeness auto
termination
  by (relation "measure (\<lambda>(fs, s). length s)") auto

lemma spans_pass:
  assumes "list_all form_ok fs"
  shows "length pre = length old \<Longrightarrow> pos = length old \<Longrightarrow>
     foldl blank_span (pre @ s) (find_spans fs (old @ s) pos) = pre @ blank_pass fs s"
proof (induction "length s" arbitrary: s old pre pos rule: less_induct)
  case less
  show ?case
  proof (cases s)
    case Nil
    with less.prems show ?thesis by (simp add: find_spans.simps)
  next
    case (Cons c cs)
    show ?thesis
    proof (cases "first_match fs s")
      case None
      have "foldl blank_span ((pre @ [c]) @ cs) (find_spans fs ((old @ [c]) @ cs) (pos + 1)) = (pre @ [c]) @ blank_pass fs cs"
        using less.hyps [of cs "pre @ [c]" "old @ [c]" "pos + 1"] less.prems Cons by simp
      with None less.prems Cons show ?thesis by (subst find_spans.simps) simp
    next
      case (Some n)
      then have n: "1 \<le> n" "n \<le> length s" using first_match_ok [OF assms] by auto
      let ?b = "map blank (take n s)"
      have bs: "blank_span (pre @ s) (length old, length old + n) = (pre @ ?b) @ drop n s"
        using less.prems n by (simp add: blank_span_def)
      have "foldl blank_span ((pre @ ?b) @ drop n s) (find_spans fs ((old @ take n s) @ drop n s) (pos + n)) = (pre @ ?b) @ blank_pass fs (drop n s)"
        using less.hyps [of "drop n s" "pre @ ?b" "old @ take n s" "pos + n"] less.prems n Cons by simp
      moreover have "blank_pass fs s = ?b @ blank_pass fs (drop n s)" using Some n Cons by simp
      ultimately show ?thesis
        using Some n less.prems Cons by (subst find_spans.simps) (simp add: bs [unfolded Cons] max_def)
    qed
  qed
qed

lemma strip_pass: "map_of LANG_FORMS lang = Some fs \<Longrightarrow> strip_noncode s lang = blank_pass fs s"
  using spans_pass [OF lang_forms_ok, of lang fs "[]" "[]" 0 s] by (simp add: strip_noncode_def)

section \<open>Exactly the comments and literals of a Java text\<close>

datatype lexeme =
    Code char
  | Literal "(char \<times> bool) list"
  | LineComment string
  | BlockComment string

text \<open>A literal is a list of characters, each plain or escaped by a backslash; a line comment ends with
  its newline.\<close>

fun lit_text :: "(char \<times> bool) list \<Rightarrow> string" where
  "lit_text [] = [CHR 0x22]"
| "lit_text ((c, esc) # cs) = (if esc then [CHR 0x5C, c] else [c]) @ lit_text cs"

fun lexeme_text :: "lexeme \<Rightarrow> string" where
  "lexeme_text (Code c) = [c]"
| "lexeme_text (Literal cs) = CHR 0x22 # lit_text cs"
| "lexeme_text (LineComment s) = ''//'' @ s @ [newline]"
| "lexeme_text (BlockComment s) = ''/*'' @ s @ ''*/''"

fun lexeme_ok :: "lexeme \<Rightarrow> bool" where
  "lexeme_ok (Code c) \<longleftrightarrow> c \<notin> {CHR ''/'', CHR 0x22, CHR 0x27}"
| "lexeme_ok (Literal cs) \<longleftrightarrow> list_all (\<lambda>(c, esc). c \<noteq> newline \<and> (esc \<or> c \<notin> {CHR 0x22, CHR 0x5C})) cs"
| "lexeme_ok (LineComment s) \<longleftrightarrow> newline \<notin> set s"
| "lexeme_ok (BlockComment s) \<longleftrightarrow> \<not> contains s ''*/''"

fun lexeme_blanked :: "lexeme \<Rightarrow> string" where
  "lexeme_blanked (Code c) = [c]"
| "lexeme_blanked l = map blank (lexeme_text l)"

definition java_forms :: "form list" where
  "java_forms = [BLOCK, LINE_SLASH, DQ, CHAR_LIT]"

lemma java_code: "c \<notin> {CHR ''/'', CHR 0x22, CHR 0x27} \<Longrightarrow> first_match java_forms (c # cs) = None"
  by (auto simp: java_forms_def BLOCK_def LINE_SLASH_def line_from_def DQ_def quoted_def CHAR_LIT_def startswith_def
      split: list.splits)

lemma lit_text_not_Nil [simp]: "lit_text cs \<noteq> []"
  by (cases cs rule: lit_text.cases) simp_all

lemma quoted_rest_lit:
  "list_all (\<lambda>(c, esc). c \<noteq> newline \<and> (esc \<or> c \<notin> {CHR 0x22, CHR 0x5C})) cs \<Longrightarrow>
   quoted_rest (CHR 0x22) (lit_text cs @ rest) = Some (length (lit_text cs))"
proof (induction cs)
  case Nil
  show ?case by (cases rest) simp_all
next
  case (Cons p cs)
  obtain c esc where p: "p = (c, esc)" by (cases p)
  obtain d ds where d: "lit_text cs @ rest = d # ds" by (cases "lit_text cs") simp_all
  show ?case using Cons p d by (cases esc) auto
qed

lemma lazy_upto_close: "\<not> contains s ''*/'' \<Longrightarrow> lazy_upto ''*/'' (s @ ''*/'' @ rest) = Some (length s + 2)"
proof (induction s)
  case Nil
  show ?case by (subst lazy_upto.simps) (simp add: startswith_def)
next
  case (Cons c s)
  have "\<not> startswith (c # s @ ''*/'' @ rest) ''*/''"
    using Cons.prems by (cases s) (auto simp: startswith_def contains_def)
  moreover have "\<not> contains s ''*/''" using Cons.prems by (simp add: contains_def sublist_Cons_right)
  ultimately show ?case using Cons.IH by (subst lazy_upto.simps) simp
qed

lemma blank_pass_match:
  assumes "first_match fs (x @ rest) = Some (length x)" and "x \<noteq> []"
  shows "blank_pass fs (x @ rest) = map blank x @ blank_pass fs rest"
  using assms by (cases x) (simp_all add: max_def)

lemma java_step:
  assumes "lexeme_ok l"
  shows "blank_pass java_forms (lexeme_text l @ rest) = lexeme_blanked l @ blank_pass java_forms rest"
proof (cases l)
  case (Code c)
  with assms java_code show ?thesis by simp
next
  case (Literal cs)
  have "first_match java_forms (lexeme_text l @ rest) = Some (length (lexeme_text l))"
    using assms quoted_rest_lit [of cs rest]
    by (simp add: Literal java_forms_def BLOCK_def LINE_SLASH_def line_from_def DQ_def quoted_def startswith_def)
  from blank_pass_match [OF this] show ?thesis by (simp add: Literal)
next
  case (LineComment s)
  have "takeWhile (\<lambda>c. c \<noteq> newline) (s @ newline # rest) = s"
    using assms by (subst takeWhile_append2) (auto simp: LineComment)
  then have "first_match java_forms ((''//'' @ s) @ newline # rest) = Some (length (''//'' @ s))"
    by (simp add: java_forms_def BLOCK_def LINE_SLASH_def line_from_def startswith_def)
  from blank_pass_match [OF this] show ?thesis using java_code [of newline] by (simp add: LineComment blank_def)
next
  case (BlockComment s)
  have "first_match java_forms (lexeme_text l @ rest) = Some (length (lexeme_text l))"
    using assms lazy_upto_close [of s rest] by (simp add: BlockComment java_forms_def BLOCK_def startswith_def)
  from blank_pass_match [OF this] show ?thesis by (simp add: BlockComment)
qed

lemma strip_java:
  assumes "list_all lexeme_ok ls"
  shows "strip_noncode (concat (map lexeme_text ls)) ''java'' = concat (map lexeme_blanked ls)"
proof -
  have "blank_pass java_forms (concat (map lexeme_text ls)) = concat (map lexeme_blanked ls)"
    using assms by (induction ls) (simp_all add: java_step)
  moreover have "map_of LANG_FORMS ''java'' = Some java_forms" by (simp add: LANG_FORMS_def java_forms_def)
  ultimately show ?thesis by (simp add: strip_pass)
qed

text \<open>Exactly the comments and literals go: for every Java text made of code characters, string
  literals with escapes, line comments and block comments, the result keeps each code character and
  blanks each literal and comment, whatever they contain, so a comment marker inside a string opens
  no comment and a quote inside a comment opens no string.\<close>

theorem strip_noncode_java:
  assumes "list_all lexeme_ok ls"
  shows "strip_noncode (concat (map lexeme_text ls)) ''java'' = concat (map lexeme_blanked ls)"
  using assms by (rule strip_java)

theorem strip_noncode_java_witness:
  "strip_noncode (concat (map lexeme_text [Code (CHR ''x''), Literal [(CHR ''/'', False), (CHR ''/'', False)], Code (CHR ''y'')])) ''java''
   = ''x    y''"
  by (subst strip_noncode_java) (simp_all add: blank_def)

text \<open>Only real code is reported: of the matches that start inside the text, the ones kept are those
  whose first character the blanking left alone; a match that starts on a visible character of a
  comment or literal is dropped, and none that starts in code is lost.\<close>

theorem code_finditer_java:
  assumes "list_all lexeme_ok (ls @ l # ls')" and "s = concat (map lexeme_text (ls @ l # ls'))"
    and "i = length (concat (map lexeme_text ls)) + k" and "k < length (lexeme_text l)"
    and "s ! i \<notin> {CHR '' '', newline}" and "(i, m) \<in> set ms"
  shows "(i, m) \<in> set (code_finditer ms s (strip_noncode s ''java'')) \<longleftrightarrow> (\<exists>c. l = Code c)"
proof -
  have len: "length (lexeme_blanked x) = length (lexeme_text x)" for x by (cases x) simp_all
  then have len2: "length (concat (map lexeme_blanked xs)) = length (concat (map lexeme_text xs))" for xs
    by (induction xs) simp_all
  have t: "strip_noncode s ''java'' = concat (map lexeme_blanked (ls @ l # ls'))"
    unfolding assms(2) by (rule strip_java [OF assms(1)])
  have si: "s ! i = lexeme_text l ! k" using assms(2-4) by (simp add: nth_append)
  have ti: "strip_noncode s ''java'' ! i = lexeme_blanked l ! k"
    using assms(3,4) len len2 by (simp add: t nth_append)
  have il: "i < length (strip_noncode s ''java'')" using assms(3,4) len len2 by (simp add: t)
  have "lexeme_blanked l ! k = (if \<exists>c. l = Code c then lexeme_text l ! k else blank (lexeme_text l ! k))"
    using assms(4) by (cases l) (simp_all only: lexeme_blanked.simps lexeme_text.simps(1) nth_map lexeme.simps simp_thms if_True if_False)
  then have "lexeme_blanked l ! k = lexeme_text l ! k \<longleftrightarrow> (\<exists>c. l = Code c)"
    using assms(5) si by (auto simp: blank_def)
  with assms(6) si ti il show ?thesis by (auto simp: code_finditer_def)
qed

theorem code_finditer_java_witness:
  "let s = concat (map lexeme_text [Code (CHR ''x''), LineComment ''m''])
   in (3, ()) \<notin> set (code_finditer [(3, ())] s (strip_noncode s ''java''))"
  using code_finditer_java [of "[Code (CHR ''x'')]" "LineComment ''m''" "[]" _ 3 2 "()" "[(3, ())]"]
  by (simp add: Let_def)

end
