(* ===== verification/Snippets.thy ===== *)
theory Snippets
  imports Core_Types
begin

text \<open>
  \<^verbatim>\<open>core/remediation_snippets.py\<close>: the migration family of an algorithm name, the table of
  before/after snippets per family and language, and the lookup with its generic fallback.
\<close>

definition family :: "string \<Rightarrow> string option" where
  "family alg =
     (let a = py_strip (map (\<lambda>c. if c = CHR ''_'' then CHR ''-'' else c) (py_upper alg)) in
      if a = [] \<or> a = ''N/A'' then None
      else if startswith_any a [''MD5'', ''MD4'', ''MD2'', ''SHA-1'', ''SHA1''] then Some ''weak-hash''
      else if startswith_any a [''3DES'', ''TDES'', ''DES-EDE'', ''DES3'', ''TRIPLEDES''] then Some ''des''
      else if startswith a ''DES'' then Some ''des''
      else if startswith_any a [''RC4'', ''ARCFOUR'', ''ARC4''] then Some ''rc4''
      else if startswith_any a [''TLS1.0'', ''TLSV1.0'', ''TLS-1.0'', ''TLSV1.1'', ''TLS1.1'', ''TLS-1.1'', ''SSLV3'', ''SSL3'',
        ''SSLV2'', ''SSL2''] then Some ''weak-tls''
      else if startswith a ''RSA'' then Some ''rsa''
      else if startswith_any a [''ECDSA'', ''ED25519'', ''ED448'', ''DSA'', ''SM2''] then Some ''ecdsa''
      else if startswith_any a [''DH'', ''DHE'', ''ECDH'', ''ECDHE'', ''DIFFIE'', ''X25519'', ''X448'', ''FFDHE''] then Some ''dh''
      else None)"

record snippet =
  sn_before :: string
  sn_after :: string
  sn_note :: string

definition SNIPPETS_weak_hash :: "(string \<times> snippet) list" where
  "SNIPPETS_weak_hash =
     [(''python'', \<lparr>sn_before = ''import hashlib'' @ [CHR 0x0A] @ ''digest = hashlib.md5(data).hexdigest()'',
        sn_after = ''import hashlib'' @ [CHR 0x0A] @ ''digest = hashlib.sha256(data).hexdigest()'',
        sn_note = ''MD5/SHA-1 are collision-broken. Use SHA-256 (FIPS 180-4); for password hashing use scrypt/argon2, not a bare hash.''\<rparr>),
      (''java'', \<lparr>sn_before = ''MessageDigest md = MessageDigest.getInstance('' @ [CHR 0x22] @ ''MD5'' @ [CHR 0x22] @ '');'',
        sn_after = ''MessageDigest md = MessageDigest.getInstance('' @ [CHR 0x22] @ ''SHA-256'' @ [CHR 0x22] @ '');'',
        sn_note = ''Replace MD5/SHA-1 with SHA-256. The provider ships it by default; no extra dependency needed.''\<rparr>),
      (''go'', \<lparr>sn_before = ''import '' @ [CHR 0x22] @ ''crypto/md5'' @ [CHR 0x22] @ [CHR 0x0A] @ ''h := md5.New()'',
        sn_after = ''import '' @ [CHR 0x22] @ ''crypto/sha256'' @ [CHR 0x22] @ [CHR 0x0A] @ ''h := sha256.New()'',
        sn_note = ''Swap crypto/md5 or crypto/sha1 for crypto/sha256.''\<rparr>),
      (''javascript'', \<lparr>sn_before = ''const h = crypto.createHash('' @ [CHR 0x27] @ ''md5'' @ [CHR 0x27] @ '').update(data).digest('' @ [CHR 0x27] @ ''hex'' @ [CHR 0x27] @ '');'',
        sn_after = ''const h = crypto.createHash('' @ [CHR 0x27] @ ''sha256'' @ [CHR 0x27] @ '').update(data).digest('' @ [CHR 0x27] @ ''hex'' @ [CHR 0x27] @ '');'',
        sn_note = ''Use '' @ [CHR 0x27] @ ''sha256'' @ [CHR 0x27] @ '' with Node'' @ [CHR 0x27] @ ''s crypto, or crypto.subtle.digest('' @ [CHR 0x27] @ ''SHA-256'' @ [CHR 0x27] @ '', ...) in the browser/WebCrypto.''\<rparr>),
      (''generic'', \<lparr>sn_before = ''digest = MD5(data)  // or SHA-1'',
        sn_after = ''digest = SHA-256(data)'',
        sn_note = ''Replace MD5/SHA-1 with SHA-256 (FIPS 180-4) everywhere it is used for integrity or signatures.''\<rparr>)]"

definition SNIPPETS_des :: "(string \<times> snippet) list" where
  "SNIPPETS_des =
     [(''python'', \<lparr>sn_before = ''from Crypto.Cipher import DES3'' @ [CHR 0x0A] @ ''cipher = DES3.new(key, DES3.MODE_CBC, iv)'',
        sn_after = ''from cryptography.hazmat.primitives.ciphers.aead import AESGCM'' @ [CHR 0x0A] @ ''aes = AESGCM(key)  # 32-byte key'' @ [CHR 0x0A] @ ''ct = aes.encrypt(nonce, data, aad)'',
        sn_note = ''DES/3DES are obsolete (64-bit block, small keys). Use AES-256-GCM (FIPS 197) for authenticated encryption.''\<rparr>),
      (''java'', \<lparr>sn_before = ''Cipher c = Cipher.getInstance('' @ [CHR 0x22] @ ''DES/CBC/PKCS5Padding'' @ [CHR 0x22] @ '');'',
        sn_after = ''Cipher c = Cipher.getInstance('' @ [CHR 0x22] @ ''AES/GCM/NoPadding'' @ [CHR 0x22] @ '');  // 256-bit key'',
        sn_note = ''Move DES/3DES to AES-256-GCM. Use a 12-byte random IV per message and never reuse it under the same key.''\<rparr>),
      (''go'', \<lparr>sn_before = ''import '' @ [CHR 0x22] @ ''crypto/des'' @ [CHR 0x22] @ [CHR 0x0A] @ ''block, _ := des.NewCipher(key)'',
        sn_after = ''import ('' @ [CHR 0x22] @ ''crypto/aes'' @ [CHR 0x22] @ ''; '' @ [CHR 0x22] @ ''crypto/cipher'' @ [CHR 0x22] @ '')'' @ [CHR 0x0A] @ ''block, _ := aes.NewCipher(key)  // 32-byte key'' @ [CHR 0x0A] @ ''gcm, _ := cipher.NewGCM(block)'',
        sn_note = ''Replace crypto/des with crypto/aes + cipher.NewGCM for AES-256-GCM authenticated encryption.''\<rparr>),
      (''javascript'', \<lparr>sn_before = ''const c = crypto.createCipheriv('' @ [CHR 0x27] @ ''des-ede3-cbc'' @ [CHR 0x27] @ '', key, iv);'',
        sn_after = ''const c = crypto.createCipheriv('' @ [CHR 0x27] @ ''aes-256-gcm'' @ [CHR 0x27] @ '', key, iv);  // 32-byte key'',
        sn_note = ''Use '' @ [CHR 0x27] @ ''aes-256-gcm'' @ [CHR 0x27] @ '' and read the auth tag via cipher.getAuthTag() after finalising.''\<rparr>),
      (''generic'', \<lparr>sn_before = ''cipher = DES/3DES(key, ...)'',
        sn_after = ''cipher = AES-256-GCM(key, nonce, ...)'',
        sn_note = ''Retire DES/3DES; adopt AES-256-GCM (FIPS 197) with a unique nonce per message.''\<rparr>)]"

definition SNIPPETS_rc4 :: "(string \<times> snippet) list" where
  "SNIPPETS_rc4 =
     [(''python'', \<lparr>sn_before = ''# RC4 stream cipher (broken keystream biases)'',
        sn_after = ''from cryptography.hazmat.primitives.ciphers.aead import AESGCM'' @ [CHR 0x0A] @ ''ct = AESGCM(key).encrypt(nonce, data, aad)  # or ChaCha20Poly1305'',
        sn_note = ''RC4 is prohibited. Use AES-256-GCM or ChaCha20-Poly1305 AEAD.''\<rparr>),
      (''java'', \<lparr>sn_before = ''Cipher c = Cipher.getInstance('' @ [CHR 0x22] @ ''RC4'' @ [CHR 0x22] @ '');'',
        sn_after = ''Cipher c = Cipher.getInstance('' @ [CHR 0x22] @ ''AES/GCM/NoPadding'' @ [CHR 0x22] @ '');  // 256-bit key'',
        sn_note = ''Replace RC4 with AES-256-GCM authenticated encryption.''\<rparr>),
      (''go'', \<lparr>sn_before = ''import '' @ [CHR 0x22] @ ''crypto/rc4'' @ [CHR 0x22] @ [CHR 0x0A] @ ''c, _ := rc4.NewCipher(key)'',
        sn_after = ''import ('' @ [CHR 0x22] @ ''crypto/aes'' @ [CHR 0x22] @ ''; '' @ [CHR 0x22] @ ''crypto/cipher'' @ [CHR 0x22] @ '')'' @ [CHR 0x0A] @ ''block, _ := aes.NewCipher(key)'' @ [CHR 0x0A] @ ''gcm, _ := cipher.NewGCM(block)'',
        sn_note = ''crypto/rc4 is deprecated. Use AES-256-GCM, or golang.org/x/crypto/chacha20poly1305.''\<rparr>),
      (''javascript'', \<lparr>sn_before = ''const c = crypto.createCipheriv('' @ [CHR 0x27] @ ''rc4'' @ [CHR 0x27] @ '', key, '' @ [CHR 0x27] @ [CHR 0x27] @ '');'',
        sn_after = ''const c = crypto.createCipheriv('' @ [CHR 0x27] @ ''aes-256-gcm'' @ [CHR 0x27] @ '', key, iv);  // 32-byte key'',
        sn_note = ''Use '' @ [CHR 0x27] @ ''aes-256-gcm'' @ [CHR 0x27] @ '' (or '' @ [CHR 0x27] @ ''chacha20-poly1305'' @ [CHR 0x27] @ '') instead of RC4.''\<rparr>),
      (''generic'', \<lparr>sn_before = ''cipher = RC4(key)'',
        sn_after = ''cipher = AES-256-GCM(key, nonce, ...)'',
        sn_note = ''RC4 is broken. Move to AES-256-GCM or ChaCha20-Poly1305.''\<rparr>)]"

definition SNIPPETS_rsa :: "(string \<times> snippet) list" where
  "SNIPPETS_rsa =
     [(''python'', \<lparr>sn_before = ''from cryptography.hazmat.primitives.asymmetric import rsa'' @ [CHR 0x0A] @ ''key = rsa.generate_private_key(public_exponent=65537, key_size=2048)'',
        sn_after = ''# Interim: raise to RSA-3072+; target: ML-DSA-65 (FIPS 204).'' @ [CHR 0x0A] @ ''# ML-DSA is not yet in '' @ [CHR 0x60] @ ''cryptography'' @ [CHR 0x60] @ ''; use an OQS provider today, e.g.'' @ [CHR 0x0A] @ ''#   import oqs; sig = oqs.Signature('' @ [CHR 0x27] @ ''ML-DSA-65'' @ [CHR 0x27] @ '')'' @ [CHR 0x0A] @ ''# and deploy hybrid (ML-DSA + ECDSA) during transition.'',
        sn_note = ''RSA signatures/keys are quantum-vulnerable. Migrate signing to ML-DSA-65 (FIPS 204); for key establishment see the DH family (ML-KEM, FIPS 203). Deploy hybrid during transition.''\<rparr>),
      (''java'', \<lparr>sn_before = ''KeyPairGenerator g = KeyPairGenerator.getInstance('' @ [CHR 0x22] @ ''RSA'' @ [CHR 0x22] @ '');'' @ [CHR 0x0A] @ ''g.initialize(2048);'',
        sn_after = ''// BouncyCastle PQC provider (bcpqc):'' @ [CHR 0x0A] @ ''KeyPairGenerator g = KeyPairGenerator.getInstance('' @ [CHR 0x0A] @ ''        '' @ [CHR 0x22] @ ''ML-DSA'' @ [CHR 0x22] @ '', '' @ [CHR 0x22] @ ''BCPQC'' @ [CHR 0x22] @ '');  // signatures, FIPS 204'' @ [CHR 0x0A] @ ''// Key establishment -> '' @ [CHR 0x22] @ ''ML-KEM'' @ [CHR 0x22] @ '' (FIPS 203); deploy hybrid.'',
        sn_note = ''Register org.bouncycastle.pqc.jcajce.provider and generate ML-DSA (sign) / ML-KEM (KEM) keys. Run hybrid with the existing RSA/ECDSA key during transition.''\<rparr>),
      (''go'', \<lparr>sn_before = ''import '' @ [CHR 0x22] @ ''crypto/rsa'' @ [CHR 0x22] @ [CHR 0x0A] @ ''key, _ := rsa.GenerateKey(rand.Reader, 2048)'',
        sn_after = ''// Signatures -> ML-DSA-65 (FIPS 204) via a PQC library today'' @ [CHR 0x0A] @ ''// (e.g. cloudflare/circl sign/mldsa). Key establishment ->'' @ [CHR 0x0A] @ ''// crypto/mlkem (Go 1.24+): mlkem.GenerateKey768(). Hybrid.'',
        sn_note = ''Move RSA signing to ML-DSA-65 (FIPS 204). For KEMs, Go 1.24+ ships crypto/mlkem; deploy hybrid ML-KEM + X25519.''\<rparr>),
      (''javascript'', \<lparr>sn_before = ''crypto.generateKeyPairSync('' @ [CHR 0x27] @ ''rsa'' @ [CHR 0x27] @ '', { modulusLength: 2048 });'',
        sn_after = ''// Node WebCrypto has no ML-DSA/ML-KEM yet. Use an OQS-based'' @ [CHR 0x0A] @ ''// binding (e.g. liboqs-node) for ML-DSA-65 signatures and'' @ [CHR 0x0A] @ ''// ML-KEM-768 key establishment; deploy hybrid during rollout.'',
        sn_note = ''RSA is quantum-vulnerable. Adopt ML-DSA-65 (FIPS 204) for signing and ML-KEM-768 (FIPS 203) for key establishment via a PQC library; run hybrid during transition.''\<rparr>),
      (''generic'', \<lparr>sn_before = ''certificate/key signed with RSA-2048'',
        sn_after = ''reissue with ML-DSA-65 (FIPS 204), or a hybrid ML-DSA-65 + ECDSA-P256 certificate during transition'',
        sn_note = ''Plan reissuance to an ML-DSA (or hybrid) certificate; for TLS key exchange enable a hybrid ML-KEM group (X25519MLKEM768).''\<rparr>)]"

definition SNIPPETS_ecdsa :: "(string \<times> snippet) list" where
  "SNIPPETS_ecdsa =
     [(''python'', \<lparr>sn_before = ''from cryptography.hazmat.primitives.asymmetric import ec'' @ [CHR 0x0A] @ ''key = ec.generate_private_key(ec.SECP256R1())'',
        sn_after = ''# Target: ML-DSA-65 (FIPS 204). Not yet in '' @ [CHR 0x60] @ ''cryptography'' @ [CHR 0x60] @ '';'' @ [CHR 0x0A] @ ''# use an OQS provider today:'' @ [CHR 0x0A] @ ''#   import oqs; sig = oqs.Signature('' @ [CHR 0x27] @ ''ML-DSA-65'' @ [CHR 0x27] @ '')'' @ [CHR 0x0A] @ ''# and deploy hybrid (ML-DSA + ECDSA) during transition.'',
        sn_note = ''ECDSA/EdDSA are quantum-vulnerable. Migrate signing to ML-DSA-65 (FIPS 204); deploy hybrid during transition.''\<rparr>),
      (''java'', \<lparr>sn_before = ''KeyPairGenerator g = KeyPairGenerator.getInstance('' @ [CHR 0x22] @ ''EC'' @ [CHR 0x22] @ '');'' @ [CHR 0x0A] @ ''g.initialize(new ECGenParameterSpec('' @ [CHR 0x22] @ ''secp256r1'' @ [CHR 0x22] @ ''));'',
        sn_after = ''// BouncyCastle PQC provider (bcpqc):'' @ [CHR 0x0A] @ ''KeyPairGenerator g = KeyPairGenerator.getInstance('' @ [CHR 0x0A] @ ''        '' @ [CHR 0x22] @ ''ML-DSA'' @ [CHR 0x22] @ '', '' @ [CHR 0x22] @ ''BCPQC'' @ [CHR 0x22] @ '');  // signatures, FIPS 204'',
        sn_note = ''Register the BouncyCastle PQC provider and generate ML-DSA keys. Run hybrid with the existing ECDSA key during rollout.''\<rparr>),
      (''go'', \<lparr>sn_before = ''import '' @ [CHR 0x22] @ ''crypto/ecdsa'' @ [CHR 0x22] @ [CHR 0x0A] @ ''key, _ := ecdsa.GenerateKey(elliptic.P256(), rand.Reader)'',
        sn_after = ''// Move signing to ML-DSA-65 (FIPS 204) via a PQC library'' @ [CHR 0x0A] @ ''// today (e.g. cloudflare/circl sign/mldsa); deploy hybrid'' @ [CHR 0x0A] @ ''// ML-DSA + ECDSA during transition.'',
        sn_note = ''ECDSA is quantum-vulnerable. Migrate signing to ML-DSA-65 (FIPS 204); deploy hybrid during transition.''\<rparr>),
      (''javascript'', \<lparr>sn_before = ''crypto.generateKeyPairSync('' @ [CHR 0x27] @ ''ec'' @ [CHR 0x27] @ '', { namedCurve: '' @ [CHR 0x27] @ ''P-256'' @ [CHR 0x27] @ '' });'',
        sn_after = ''// WebCrypto has no ML-DSA yet. Use an OQS-based binding'' @ [CHR 0x0A] @ ''// (e.g. liboqs-node) for ML-DSA-65 signatures; run hybrid'' @ [CHR 0x0A] @ ''// (ML-DSA + ECDSA) during transition.'',
        sn_note = ''Adopt ML-DSA-65 (FIPS 204) for signing via a PQC library; deploy hybrid during transition.''\<rparr>),
      (''generic'', \<lparr>sn_before = ''certificate/key signed with ECDSA-P256'',
        sn_after = ''reissue with ML-DSA-65 (FIPS 204), or a hybrid ML-DSA-65 + ECDSA-P256 certificate during transition'',
        sn_note = ''Plan reissuance to an ML-DSA (or hybrid) certificate; enable a hybrid ML-KEM group (X25519MLKEM768) for TLS key exchange.''\<rparr>)]"

definition SNIPPETS_dh :: "(string \<times> snippet) list" where
  "SNIPPETS_dh =
     [(''python'', \<lparr>sn_before = ''from cryptography.hazmat.primitives.asymmetric import dh'' @ [CHR 0x0A] @ ''params = dh.generate_parameters(generator=2, key_size=2048)'',
        sn_after = ''# Key establishment target: ML-KEM-768 (FIPS 203), deployed'' @ [CHR 0x0A] @ ''# hybrid as X25519MLKEM768. Use an OQS provider today:'' @ [CHR 0x0A] @ ''#   import oqs; kem = oqs.KeyEncapsulation('' @ [CHR 0x27] @ ''ML-KEM-768'' @ [CHR 0x27] @ '')'',
        sn_note = ''Classical (EC)DH is harvest-now-decrypt-later exposed. Migrate key establishment to hybrid ML-KEM-768 first.''\<rparr>),
      (''go'', \<lparr>sn_before = ''// (EC)DH key agreement, e.g. crypto/ecdh P256'',
        sn_after = ''// Go 1.24+: import '' @ [CHR 0x22] @ ''crypto/mlkem'' @ [CHR 0x22] @ [CHR 0x0A] @ ''dk, _ := mlkem.GenerateKey768()  // deploy hybrid X25519MLKEM768'',
        sn_note = ''Go 1.24+ ships crypto/mlkem. Prefer the hybrid X25519MLKEM768 group; migrate key establishment first (HNDL).''\<rparr>),
      (''generic'', \<lparr>sn_before = ''key exchange using classical (EC)DH'',
        sn_after = ''enable hybrid ML-KEM key establishment (X25519MLKEM768, FIPS 203) and prefer it in the negotiated group list'',
        sn_note = ''Diffie-Hellman is harvest-now-decrypt-later exposed. Move key establishment to hybrid ML-KEM-768 as the first step.''\<rparr>)]"

definition SNIPPETS_weak_tls :: "(string \<times> snippet) list" where
  "SNIPPETS_weak_tls =
     [(''generic'', \<lparr>sn_before = ''protocols: TLSv1.0, TLSv1.1  (or SSLv2/SSLv3)'',
        sn_after = ''protocols: TLSv1.2, TLSv1.3'' @ [CHR 0x0A] @ ''groups: X25519MLKEM768:X25519:P-256'',
        sn_note = ''Disable SSLv2/SSLv3/TLS 1.0/1.1. Require TLS 1.2+ (prefer 1.3) and offer the hybrid X25519MLKEM768 group for PQC key establishment.''\<rparr>)]"

definition SNIPPETS :: "(string \<times> (string \<times> snippet) list) list" where
  "SNIPPETS = [(''weak-hash'', SNIPPETS_weak_hash), (''des'', SNIPPETS_des), (''rc4'', SNIPPETS_rc4), (''rsa'', SNIPPETS_rsa), (''ecdsa'', SNIPPETS_ecdsa), (''dh'', SNIPPETS_dh), (''weak-tls'', SNIPPETS_weak_tls)]"

text \<open>\<open>dict_get\<close> on a family outside the table would be a \<^verbatim>\<open>KeyError\<close>; every family is in it
  (\<open>family_listed\<close>), so the model returns \<^const>\<open>None\<close> there.\<close>

definition snippet_for :: "string \<Rightarrow> string option \<Rightarrow> pydict option" where
  "snippet_for alg language =
     (case family alg of
        None \<Rightarrow> None
      | Some f \<Rightarrow>
          (case dict_get SNIPPETS f of
             None \<Rightarrow> None
           | Some lang_table \<Rightarrow>
               (let lang = (case language of None \<Rightarrow> None | Some l \<Rightarrow> if l = [] then None else Some (py_lower l));
                    entry = (case lang of None \<Rightarrow> None | Some l \<Rightarrow> dict_get lang_table l);
                    hit = (case entry of
                      Some x \<Rightarrow> Some (the lang, x)
                    | None \<Rightarrow> map_option (Pair ''generic'') (dict_get lang_table ''generic''))
                in map_option (\<lambda>(l, x). [(''language'', JStr l), (''before'', JStr (sn_before x)),
                     (''after'', JStr (sn_after x)), (''note'', JStr (sn_note x))]) hit)))"

lemma family_listed: "family alg = Some f \<Longrightarrow> f \<in> fst ` set SNIPPETS"
  by (auto simp: family_def SNIPPETS_def Let_def split: if_splits)

lemma generic_listed: "(f, t) \<in> set SNIPPETS \<Longrightarrow> dict_get t ''generic'' \<noteq> None"
  by (auto simp: SNIPPETS_def SNIPPETS_weak_hash_def SNIPPETS_des_def SNIPPETS_rc4_def SNIPPETS_rsa_def SNIPPETS_ecdsa_def SNIPPETS_dh_def SNIPPETS_weak_tls_def)

end
