(* ===== verification/Remediation.thy ===== *)
theory Remediation
  imports Alg Snippets
begin

text \<open>
  \<^verbatim>\<open>core/remediation.py\<close>: the replacement descriptor of an algorithm and the enrichment the
  runner applies to each finding before it is stored. The in-place update of the finding is the
  returned finding.
\<close>

section \<open>Operations\<close>

definition PROBE_LANG :: "string set" where
  "PROBE_LANG = {''python'', ''java'', ''go'', ''javascript''}"

definition lang_from_probe_id :: "string \<Rightarrow> string option" where
  "lang_from_probe_id pid =
     (let parts = split_on (CHR ''.'') pid in
      if length parts \<ge> 3 \<and> hd parts = ''code'' then
        (let tail = last parts in if tail \<in> PROBE_LANG then Some tail else None)
      else None)"

definition attach_snippet :: "finding \<Rightarrow> finding" where
  "attach_snippet f =
     (if get_truthy (remediation f) ''snippet'' \<noteq> None then f
      else
        (case snippet_for (algorithm f) (lang_from_probe_id (probe_id f)) of
           None \<Rightarrow> f
         | Some s \<Rightarrow> f\<lparr>remediation := dict_set ''snippet'' (JObj s) (remediation f)\<rparr>))"

definition KEM_TARGET :: pydict where
  "KEM_TARGET =
     [(''replacement'', JStr ''ML-KEM-768''), (''hybrid'', JStr ''X25519MLKEM768''),
      (''standard'', JStr ''FIPS 203''), (''kind'', JStr ''key-establishment'')]"

definition SIG_TARGET :: pydict where
  "SIG_TARGET =
     [(''replacement'', JStr ''ML-DSA-65''),
      (''alternative'', JStr ''SLH-DSA-SHA2-192s (FIPS 205, hash-based, for firmware/roots)''),
      (''standard'', JStr ''FIPS 204''), (''kind'', JStr ''signature'')]"

definition target_for :: "string \<Rightarrow> pydict option" where
  "target_for alg =
     (let a = py_upper (normalise alg) in
      if is_key_establishment alg then Some KEM_TARGET
      else if startswith_any a [''RSA'', ''ECDSA'', ''ED25519'', ''ED448'', ''DSA'', ''SM2''] then Some SIG_TARGET
      else if startswith a ''AES-128'' \<or> a = ''AES-128'' then
        Some [(''replacement'', JStr ''AES-256''), (''standard'', JStr ''FIPS 197''), (''kind'', JStr ''symmetric''),
          (''note'', JStr ''Grover halves the effective key length; use a 256-bit key.'')]
      else if a \<in> {''MD5'', ''MD4'', ''MD2'', ''SHA-1'', ''SHA1''} then
        Some [(''replacement'', JStr ''SHA-256''), (''standard'', JStr ''FIPS 180-4''), (''kind'', JStr ''hash''),
          (''note'', JStr ''Legacy hash is collision-broken; migrate before PQC work.'')]
      else None)"

definition HNDL_RATIONALE :: string where
  "HNDL_RATIONALE = ''Harvest-now-decrypt-later: traffic captured today is decryptable once a cryptographically-relevant quantum computer exists. Migrate key establishment first.''"

definition suggest :: "string \<Rightarrow> classification option \<Rightarrow> pydict option" where
  "suggest alg cls =
     (case target_for alg of
        None \<Rightarrow> None
      | Some target \<Rightarrow>
          (let out = dict_merge [(''current'', JStr (normalise alg))] target;
               out = (case migration_deadline alg cls of
                  Some dl \<Rightarrow> if dl = [] then out else dict_set ''deadline'' (JStr dl) out
                | None \<Rightarrow> out)
           in Some (if hndl_exposed alg
                    then dict_set ''rationale'' (JStr HNDL_RATIONALE) (dict_set ''hndl'' (JBool True) out)
                    else out)))"

definition enrich :: "finding \<Rightarrow> finding" where
  "enrich f =
     (if get_truthy (remediation f) ''replacement'' \<noteq> None then attach_snippet f
      else if classification f \<in> {PQC_READY, CLS_INFO, CLS_ERROR} then f
      else
        (case suggest (algorithm f) (Some (classification f)) of
           None \<Rightarrow> attach_snippet f
         | Some descriptor \<Rightarrow> attach_snippet (f\<lparr>remediation := dict_merge descriptor (remediation f)\<rparr>)))"

section \<open>The descriptor\<close>

lemma target_for_replacement: "target_for alg = Some t \<Longrightarrow> \<exists>r. dict_get t ''replacement'' = Some (JStr r) \<and> r \<noteq> []"
  by (auto simp: target_for_def Let_def KEM_TARGET_def SIG_TARGET_def split: if_splits)

lemma dict_wf_target: "target_for alg = Some t \<Longrightarrow> dict_wf t"
  by (auto simp: target_for_def Let_def KEM_TARGET_def SIG_TARGET_def dict_wf_def split: if_splits)

lemma dict_wf_suggest: "suggest alg cls = Some d \<Longrightarrow> dict_wf d"
proof -
  have "dict_wf (dict_merge [(''current'', v)] t)" for v :: json and t
    by (rule dict_wf_merge) (simp add: dict_wf_def)
  then show "suggest alg cls = Some d \<Longrightarrow> dict_wf d"
    by (auto simp: suggest_def Let_def split: option.splits if_splits)
qed

lemma suggest_replacement:
  "suggest alg cls = Some d \<Longrightarrow> \<exists>r. dict_get d ''replacement'' = Some (JStr r) \<and> r \<noteq> []"
  using target_for_replacement [of alg] dict_wf_target [of alg]
  by (auto simp: suggest_def Let_def dict_get_merge split: option.splits if_splits)

lemma suggest_deadline:
  assumes "suggest alg cls = Some d" and "migration_deadline alg cls = Some dl"
  shows "dict_get d ''deadline'' = Some (JStr dl)"
  using assms by (auto simp: suggest_def Let_def migration_deadline_def CNSA2_HNDL_DEADLINE_def
      CNSA2_FULL_DEADLINE_def split: option.splits if_splits)

lemma suggest_none_iff: "suggest alg cls = None \<longleftrightarrow> target_for alg = None"
  by (simp add: suggest_def Let_def split: option.splits)

section \<open>Enrichment\<close>

lemma snippet_for_nonempty: "snippet_for alg l = Some s \<Longrightarrow> s \<noteq> []"
  by (auto simp: snippet_for_def Let_def split: option.splits)

lemma attach_snippet_others:
  "attach_snippet f = f\<lparr>remediation := remediation (attach_snippet f)\<rparr>"
  "k \<noteq> ''snippet'' \<Longrightarrow> dict_get (remediation (attach_snippet f)) k = dict_get (remediation f) k"
  "get_truthy (remediation f) ''snippet'' = Some v \<Longrightarrow> attach_snippet f = f"
  "dict_wf (remediation f) \<Longrightarrow> dict_wf (remediation (attach_snippet f))"
  by (simp_all add: attach_snippet_def split: option.splits)

lemma attach_snippet_kept:
  "dict_get (remediation f) k = Some v \<Longrightarrow> k = ''snippet'' \<longrightarrow> truthy v \<Longrightarrow>
   dict_get (remediation (attach_snippet f)) k = Some v"
  using attach_snippet_others(2) [of k f] attach_snippet_others(3) [of f v]
  by (cases "k = ''snippet''") (auto simp: get_truthy_def)

lemma attach_snippet_idem: "attach_snippet (attach_snippet f) = attach_snippet f"
  using snippet_for_nonempty [of "algorithm f" "lang_from_probe_id (probe_id f)"]
  by (auto simp: attach_snippet_def get_truthy_def split: option.splits)

lemma attach_snippet_same [simp]:
  "algorithm (attach_snippet f) = algorithm f" "classification (attach_snippet f) = classification f"
  "probe_id (attach_snippet f) = probe_id f"
  by (simp_all add: attach_snippet_def split: option.splits)

lemma attach_snippet_cong:
  assumes "dict_get (remediation f) = dict_get (remediation g)" and "algorithm f = algorithm g"
    and "probe_id f = probe_id g"
  shows "dict_get (remediation (attach_snippet f)) = dict_get (remediation (attach_snippet g))"
  using assms by (simp add: attach_snippet_def get_truthy_def split: option.splits)

text \<open>A dictionary that already holds every entry of another absorbs it.\<close>

lemma dict_merge_absorbed:
  assumes "dict_wf e" and "\<And>k. dict_get e k = None \<Longrightarrow> dict_get d k = None"
  shows "dict_get (dict_merge d e) = dict_get e"
  using assms(2) by (auto simp: fun_eq_iff dict_get_merge [OF assms(1)] split: option.splits)

lemma enrich_cases:
  obtains (given) "get_truthy (remediation f) ''replacement'' \<noteq> None" "enrich f = attach_snippet f"
  | (safe) "classification f \<in> {PQC_READY, CLS_INFO, CLS_ERROR}" "get_truthy (remediation f) ''replacement'' = None" "enrich f = f"
  | (unknown) "get_truthy (remediation f) ''replacement'' = None"
      "classification f \<notin> {PQC_READY, CLS_INFO, CLS_ERROR}"
      "suggest (algorithm f) (Some (classification f)) = None" "enrich f = attach_snippet f"
  | (guided) d where "get_truthy (remediation f) ''replacement'' = None"
      "classification f \<notin> {PQC_READY, CLS_INFO, CLS_ERROR}"
      "suggest (algorithm f) (Some (classification f)) = Some d"
      "enrich f = attach_snippet (f\<lparr>remediation := dict_merge d (remediation f)\<rparr>)"
  by (cases "suggest (algorithm f) (Some (classification f))";
      cases "get_truthy (remediation f) ''replacement''") (auto simp: enrich_def split: if_splits)

lemma enrich_frame: "enrich f = f\<lparr>remediation := remediation (enrich f)\<rparr>"
  by (cases rule: enrich_cases [of f]) (simp_all add: attach_snippet_def split: option.splits)

lemma enrich_wf: "dict_wf (remediation f) \<Longrightarrow> dict_wf (remediation (enrich f))"
  by (cases rule: enrich_cases [of f])
    (simp_all add: attach_snippet_others(4) dict_wf_merge dict_wf_suggest)

lemma enrich_keeps:
  assumes "dict_wf (remediation f)" and "dict_get (remediation f) k = Some v" and "k = ''snippet'' \<longrightarrow> truthy v"
  shows "dict_get (remediation (enrich f)) k = Some v"
  using assms by (cases rule: enrich_cases [of f]) (simp_all add: attach_snippet_kept dict_get_merge)

lemma enrich_idem:
  assumes wf: "dict_wf (remediation f)"
  shows "dict_get (remediation (enrich (enrich f))) = dict_get (remediation (enrich f))"
proof (cases rule: enrich_cases [of f])
  case given
  then show ?thesis using attach_snippet_others(2) [of "''replacement''" f]
    by (simp add: enrich_def [of "attach_snippet f"] get_truthy_def attach_snippet_idem)
next
  case unknown
  then show ?thesis using attach_snippet_others(2) [of "''replacement''" f]
    by (simp add: enrich_def [of "attach_snippet f"] get_truthy_def attach_snippet_idem)
next
  case (guided d)
  define g where "g = attach_snippet (f\<lparr>remediation := dict_merge d (remediation f)\<rparr>)"
  have m: "dict_get (dict_merge d (remediation f)) k = None \<Longrightarrow> dict_get d k = None" for k
    by (simp add: dict_get_merge [OF wf] split: option.splits)
  have "dict_get (remediation g) k = None \<Longrightarrow> dict_get d k = None" for k
    using m [of k] by (auto simp: g_def attach_snippet_def split: option.splits if_splits)
  moreover have "dict_wf (remediation g)"
    unfolding g_def by (rule attach_snippet_others(4)) (simp add: dict_wf_merge dict_wf_suggest [OF guided(3)])
  ultimately have "dict_get (dict_merge d (remediation g)) = dict_get (remediation g)"
    by (intro dict_merge_absorbed)
  then have "dict_get (remediation (attach_snippet (g\<lparr>remediation := dict_merge d (remediation g)\<rparr>))) =
      dict_get (remediation (attach_snippet g))"
    by (intro attach_snippet_cong) simp_all
  moreover have "attach_snippet g = g" unfolding g_def by (rule attach_snippet_idem)
  moreover have "algorithm g = algorithm f" "classification g = classification f" by (simp_all add: g_def)
  ultimately show ?thesis
    using guided(2,3) by (simp add: guided(4) g_def [symmetric] enrich_def [of g])
qed simp

lemma enrich_guides:
  assumes wf: "dict_wf (remediation f)" and cls: "classification f \<notin> {PQC_READY, CLS_INFO, CLS_ERROR}"
    and t: "target_for (algorithm f) \<noteq> None" and none: "dict_get (remediation f) ''replacement'' = None"
  shows "\<exists>r. dict_get (remediation (enrich f)) ''replacement'' = Some (JStr r) \<and> r \<noteq> []"
    and "\<And>dl. migration_deadline (algorithm f) (Some (classification f)) = Some dl \<Longrightarrow>
      dict_get (remediation f) ''deadline'' = None \<Longrightarrow>
      dict_get (remediation (enrich f)) ''deadline'' = Some (JStr dl)"
proof -
  obtain d where d: "suggest (algorithm f) (Some (classification f)) = Some d"
    using t suggest_none_iff [of "algorithm f" "Some (classification f)"] by auto
  then have e: "enrich f = attach_snippet (f\<lparr>remediation := dict_merge d (remediation f)\<rparr>)"
    using cls none by (simp add: enrich_def get_truthy_def)
  show "\<exists>r. dict_get (remediation (enrich f)) ''replacement'' = Some (JStr r) \<and> r \<noteq> []"
    using suggest_replacement [OF d] none by (simp add: e attach_snippet_others(2) dict_get_merge [OF wf])
  show "dict_get (remediation (enrich f)) ''deadline'' = Some (JStr dl)"
    if "migration_deadline (algorithm f) (Some (classification f)) = Some dl"
      and "dict_get (remediation f) ''deadline'' = None" for dl
    using suggest_deadline [OF d that(1)] that(2) by (simp add: e attach_snippet_others(2) dict_get_merge [OF wf])
qed

section \<open>Properties\<close>

text \<open>Enrichment only fills gaps: it changes nothing of a finding but its remediation, keeps every
  entry the probe wrote (a snippet counts as written when it is not empty), and doing it twice is
  the same as doing it once. A vulnerable finding with a known replacement that carries none ends up
  with one, and with its migration deadline unless the probe wrote a deadline itself.\<close>

theorem enrich_fills_gaps:
  assumes "dict_wf (remediation f)"
  shows "enrich f = f\<lparr>remediation := remediation (enrich f)\<rparr> \<and> dict_wf (remediation (enrich f)) \<and>
    (\<forall>k v. dict_get (remediation f) k = Some v \<and> (k = ''snippet'' \<longrightarrow> truthy v) \<longrightarrow>
       dict_get (remediation (enrich f)) k = Some v) \<and>
    dict_get (remediation (enrich (enrich f))) = dict_get (remediation (enrich f)) \<and>
    (classification f \<notin> {PQC_READY, CLS_INFO, CLS_ERROR} \<and> target_for (algorithm f) \<noteq> None \<and>
       dict_get (remediation f) ''replacement'' = None \<longrightarrow>
     (\<exists>r. dict_get (remediation (enrich f)) ''replacement'' = Some (JStr r) \<and> r \<noteq> []) \<and>
     (\<forall>dl. migration_deadline (algorithm f) (Some (classification f)) = Some dl \<and>
        dict_get (remediation f) ''deadline'' = None \<longrightarrow>
        dict_get (remediation (enrich f)) ''deadline'' = Some (JStr dl)))"
  using enrich_frame enrich_wf [OF assms] enrich_keeps [OF assms] enrich_idem [OF assms] enrich_guides [OF assms] by blast

definition ecdh_finding :: finding where
  "ecdh_finding = \<lparr>probe_id = ''net.tls'', algorithm = ''ECDH-P256'', classification = SANGAT_TINGGI, severity = CRIT,
     title = ''weak key exchange'', component_purl = None, evidence = [], remediation = [(''snippet'', JStr ''use a hybrid group'')],
     confidence = ''high'', created_at = 0\<rparr>"

theorem enrich_fills_gaps_witness:
  "dict_get (remediation (enrich ecdh_finding)) ''snippet'' = Some (JStr ''use a hybrid group'') \<and>
   (\<exists>r. dict_get (remediation (enrich ecdh_finding)) ''replacement'' = Some (JStr r) \<and> r \<noteq> [])"
proof -
  let ?f = ecdh_finding and ?v = "JStr ''use a hybrid group''"
  have t: "target_for (algorithm ?f) \<noteq> None" by code_simp
  have f: "classification ?f \<notin> {PQC_READY, CLS_INFO, CLS_ERROR}" "dict_wf (remediation ?f)"
    "dict_get (remediation ?f) ''replacement'' = None" "dict_get (remediation ?f) ''snippet'' = Some ?v" "truthy ?v"
    by (simp_all add: ecdh_finding_def dict_wf_def)
  show ?thesis using enrich_fills_gaps [OF f(2)] f(1,3-5) t by blast
qed

end
