(* ===== verification/Event_Bus.thy ===== *)
theory Event_Bus
  imports Prelude "HOL-Library.Sublist"
begin

text \<open>
  \<^verbatim>\<open>runner/event_bus.py\<close>: the publish/subscribe bus between a scan and the clients that watch
  it. Queues and event loops are numbers (object identities). A loop runs the callbacks handed to it
  by \<^verbatim>\<open>call_soon_threadsafe\<close> in order; handing one to a closed loop raises and is ignored, and a
  loop that closes drops what it has not run. One loop publishes (the scan's), the subscribers live
  on any loop. A publication takes its list of subscribers first and serves them one by one, so the
  other loops run in between. The fields \<open>got\<close> and \<open>sent\<close> are history, read by no operation:
  what a subscriber's client has received, and what was published to it.
\<close>

section \<open>State and operations\<close>

datatype event =
    StageStarted nat string
  | StageCompleted nat string
  | FindingDiscovered nat string string string string string
  | ScanCompleted nat

definition QUEUE_MAX :: nat where
  "QUEUE_MAX = 2000"

record bus =
  subscribers :: "(nat \<times> nat) list"
  queues :: "nat \<Rightarrow> event list"
  ready :: "nat \<Rightarrow> (nat \<times> event) list"
  closed :: "nat set"
  flight :: "(event \<times> (nat \<times> nat) list) option"
  next_q :: nat
  owner :: "nat \<Rightarrow> nat"
  got :: "nat \<Rightarrow> event list"
  sent :: "nat \<Rightarrow> event list"

definition init_bus :: bus where
  "init_bus = \<lparr>subscribers = [], queues = (\<lambda>_. []), ready = (\<lambda>_. []), closed = {}, flight = None, next_q = 0,
     owner = (\<lambda>_. 0), got = (\<lambda>_. []), sent = (\<lambda>_. [])\<rparr>"

text \<open>\<^verbatim>\<open>put_nowait\<close> on a full queue raises, and the event is dropped.\<close>

definition offer :: "nat \<Rightarrow> event \<Rightarrow> bus \<Rightarrow> bus" where
  "offer q ev b = (if length (queues b q) < QUEUE_MAX then b\<lparr>queues := (queues b)(q := queues b q @ [ev])\<rparr> else b)"

definition publish_begin :: "event \<Rightarrow> bus \<Rightarrow> bus" where
  "publish_begin ev b = b\<lparr>flight := Some (ev, subscribers b)\<rparr>"

text \<open>One turn of the loop of \<^verbatim>\<open>publish\<close>, on the running loop \<open>current\<close>.\<close>

definition deliver :: "nat \<Rightarrow> event \<Rightarrow> nat \<times> nat \<Rightarrow> bus \<Rightarrow> bus" where
  "deliver current ev sub b =
     (case sub of (q, l) \<Rightarrow>
        let b = b\<lparr>sent := (sent b)(q := sent b q @ [ev])\<rparr> in
        if l = current then offer q ev b
        else if l \<in> closed b then b
        else b\<lparr>ready := (ready b)(l := ready b l @ [(q, ev)])\<rparr>)"

text \<open>The whole of \<^verbatim>\<open>publish\<close>, undisturbed.\<close>

definition publish :: "nat \<Rightarrow> event \<Rightarrow> bus \<Rightarrow> bus" where
  "publish current ev b = foldl (\<lambda>b sub. deliver current ev sub b) b (subscribers b)"

definition subscribe :: "nat \<Rightarrow> bus \<Rightarrow> nat \<times> bus" where
  "subscribe l b =
     (let q = next_q b in
      (q, b\<lparr>next_q := Suc q, owner := (owner b)(q := l), subscribers := subscribers b @ [(q, l)]\<rparr>))"

definition unsubscribe :: "nat \<Rightarrow> bus \<Rightarrow> bus" where
  "unsubscribe q b = b\<lparr>subscribers := filter (\<lambda>(sq, sl). sq \<noteq> q) (subscribers b)\<rparr>"

text \<open>\<^verbatim>\<open>yield await q.get()\<close>: the client receives the oldest event of its queue.\<close>

definition receive :: "nat \<Rightarrow> bus \<Rightarrow> bus" where
  "receive q b =
     (case queues b q of
        [] \<Rightarrow> b
      | ev # evs \<Rightarrow> b\<lparr>queues := (queues b)(q := evs), got := (got b)(q := got b q @ [ev])\<rparr>)"

definition run_callback :: "nat \<Rightarrow> bus \<Rightarrow> bus" where
  "run_callback l b =
     (case ready b l of
        [] \<Rightarrow> b
      | (q, ev) # cbs \<Rightarrow> offer q ev (b\<lparr>ready := (ready b)(l := cbs)\<rparr>))"

definition close_loop :: "nat \<Rightarrow> bus \<Rightarrow> bus" where
  "close_loop l b = b\<lparr>closed := insert l (closed b), ready := (ready b)(l := [])\<rparr>"

section \<open>Steps\<close>

inductive bus_step :: "nat \<Rightarrow> bus \<Rightarrow> bus \<Rightarrow> bool" for pub :: nat where
  bs_begin: "flight b = None \<Longrightarrow> bus_step pub b (publish_begin ev b)"
| bs_deliver: "flight b = Some (ev, sub # subs) \<Longrightarrow>
    bus_step pub b ((deliver pub ev sub b)\<lparr>flight := Some (ev, subs)\<rparr>)"
| bs_end: "flight b = Some (ev, []) \<Longrightarrow> bus_step pub b (b\<lparr>flight := None\<rparr>)"
| bs_subscribe: "l \<notin> closed b \<Longrightarrow> bus_step pub b (snd (subscribe l b))"
| bs_unsubscribe: "bus_step pub b (unsubscribe q b)"
| bs_receive: "bus_step pub b (receive q b)"
| bs_callback: "bus_step pub b (run_callback l b)"
| bs_close: "l \<noteq> pub \<Longrightarrow> bus_step pub b (close_loop l b)"

inductive bus_reachable :: "nat \<Rightarrow> bus \<Rightarrow> bool" for pub :: nat where
  "bus_reachable pub init_bus"
| "bus_reachable pub b \<Longrightarrow> bus_step pub b b' \<Longrightarrow> bus_reachable pub b'"

section \<open>Invariant\<close>

text \<open>What is on its way to the queue \<open>q\<close>, and all that has not been dropped.\<close>

definition pending :: "bus \<Rightarrow> nat \<Rightarrow> event list" where
  "pending b q = map snd (filter (\<lambda>c. fst c = q) (ready b (owner b q)))"

definition kept :: "bus \<Rightarrow> nat \<Rightarrow> event list" where
  "kept b q = got b q @ queues b q @ pending b q"

definition known :: "bus \<Rightarrow> nat \<times> nat \<Rightarrow> bool" where
  "known b sub \<longleftrightarrow> fst sub < next_q b \<and> owner b (fst sub) = snd sub"

definition in_flight :: "bus \<Rightarrow> (nat \<times> nat) list" where
  "in_flight b = (case flight b of None \<Rightarrow> [] | Some (ev, subs) \<Rightarrow> subs)"

definition wiring_ok :: "nat \<Rightarrow> bus \<Rightarrow> bool" where
  "wiring_ok pub b \<longleftrightarrow>
     list_all (known b) (subscribers b) \<and> list_all (known b) (in_flight b) \<and>
     (\<forall>l. list_all (\<lambda>(q, ev). known b (q, l)) (ready b l)) \<and> ready b pub = [] \<and> pub \<notin> closed b \<and>
     (\<forall>q \<ge> next_q b. sent b q = [] \<and> got b q = [] \<and> queues b q = [])"

definition delivery_ok :: "bus \<Rightarrow> nat \<Rightarrow> bool" where
  "delivery_ok b q \<longleftrightarrow>
     length (queues b q) \<le> QUEUE_MAX \<and> subseq (kept b q) (sent b q) \<and>
     (length (sent b q) \<le> QUEUE_MAX \<and> owner b q \<notin> closed b \<longrightarrow> kept b q = sent b q)"

lemmas bus_ops = offer_def publish_begin_def deliver_def subscribe_def unsubscribe_def receive_def
  run_callback_def close_loop_def

lemma subseq_drop_mid: "subseq (xs @ y # zs) ws \<Longrightarrow> subseq (xs @ zs) ws"
  using list_emb_append_mono [of "(=)" xs xs zs "y # zs"] by (auto intro: subseq_order.trans)

lemma subseq_snoc: "subseq xs ws \<Longrightarrow> subseq (xs @ [y]) (ws @ [y])"
  by simp

lemma known_mono:
  "known b sub \<Longrightarrow> next_q b' = next_q b \<Longrightarrow> owner b' = owner b \<Longrightarrow> known b' sub"
  by (simp add: known_def)

lemma wiring_step:
  assumes "bus_step pub b b'" and ok: "wiring_ok pub b"
  shows "wiring_ok pub b'"
  using assms(1)
proof cases
  case (bs_begin ev)
  then show ?thesis using ok by (auto simp: wiring_ok_def publish_begin_def in_flight_def known_def list_all_iff)
next
  case (bs_deliver ev sub subs)
  then show ?thesis using ok
    by (auto simp: wiring_ok_def deliver_def offer_def in_flight_def known_def list_all_iff Let_def split: prod.splits)
next
  case (bs_end ev)
  then show ?thesis using ok by (auto simp: wiring_ok_def in_flight_def known_def list_all_iff)
next
  case (bs_subscribe l)
  then show ?thesis using ok
    by (fastforce simp: wiring_ok_def subscribe_def in_flight_def known_def list_all_iff Let_def)
next
  case (bs_unsubscribe q)
  then show ?thesis using ok by (auto simp: wiring_ok_def unsubscribe_def in_flight_def known_def list_all_iff)
next
  case (bs_receive q)
  then show ?thesis using ok
    by (auto simp: wiring_ok_def receive_def in_flight_def known_def list_all_iff split: list.splits)
next
  case (bs_callback l)
  have "q < next_q b" if "ready b l = (q, ev) # cbs" for q ev cbs
    using ok that by (auto simp: wiring_ok_def known_def list_all_iff dest!: spec [of _ l])
  with bs_callback show ?thesis using ok
    by (auto simp: wiring_ok_def run_callback_def offer_def in_flight_def known_def list_all_iff split: list.splits)
next
  case (bs_close l)
  then show ?thesis using ok by (auto simp: wiring_ok_def close_loop_def in_flight_def known_def list_all_iff)
qed

lemma delivery_offer:
  assumes "length (queues b q) \<le> QUEUE_MAX"
  shows "length (queues (offer p ev b) q) \<le> QUEUE_MAX"
  using assms by (simp add: offer_def)

lemma offer_sel [simp]:
  "got (offer p ev b) = got b" "sent (offer p ev b) = sent b" "owner (offer p ev b) = owner b"
  "ready (offer p ev b) = ready b" "closed (offer p ev b) = closed b" "pending (offer p ev b) = pending b"
  "flight (offer p ev b) = flight b"
  by (simp_all add: offer_def pending_def fun_eq_iff)

text \<open>An event handed straight to a queue with nothing pending.\<close>

lemma delivery_direct:
  assumes "delivery_ok b q" and "pending b q = []"
  shows "delivery_ok (offer q ev (b\<lparr>sent := (sent b)(q := sent b q @ [ev])\<rparr>)) q"
proof -
  let ?b = "offer q ev (b\<lparr>sent := (sent b)(q := sent b q @ [ev])\<rparr>)"
  have sub: "subseq (kept b q) (sent b q)" and len: "length (queues b q) \<le> length (sent b q)"
    using assms(1) list_emb_length [of "(=)" "kept b q" "sent b q"] by (simp_all add: delivery_ok_def kept_def)
  have k: "kept ?b q = (if length (queues b q) < QUEUE_MAX then kept b q @ [ev] else kept b q)"
    using assms(2) by (simp add: kept_def offer_def pending_def)
  then have "subseq (kept ?b q) (sent b q @ [ev])"
    using subseq_snoc [OF sub, of ev] subseq_rev_drop_many [OF sub] by simp
  with k len show ?thesis using assms(1) by (auto simp: delivery_ok_def offer_def)
qed

text \<open>An event handed to the loop of the subscriber.\<close>

lemma delivery_scheduled:
  assumes "delivery_ok b q" and "l = owner b q"
  shows "delivery_ok (b\<lparr>sent := (sent b)(q := sent b q @ [ev]), ready := (ready b)(l := ready b l @ [(q, ev)])\<rparr>) q"
    (is "delivery_ok ?b q")
proof -
  have "kept ?b q = kept b q @ [ev]" using assms(2) by (simp add: kept_def pending_def)
  with assms(1) show ?thesis by (auto simp: delivery_ok_def)
qed

text \<open>An event for a closed loop.\<close>

lemma delivery_closed:
  assumes "delivery_ok b q" and "owner b q \<in> closed b"
  shows "delivery_ok (b\<lparr>sent := (sent b)(q := sent b q @ [ev])\<rparr>) q"
  using assms subseq_rev_drop_many [of "kept b q" "sent b q" "[ev]"]
  by (simp add: delivery_ok_def kept_def pending_def)

lemma delivery_callback:
  assumes ok: "delivery_ok b q" and r: "ready b l = (q, ev) # cbs" and l: "l = owner b q"
  shows "delivery_ok (offer q ev (b\<lparr>ready := (ready b)(l := cbs)\<rparr>)) q"
proof -
  let ?b = "offer q ev (b\<lparr>ready := (ready b)(l := cbs)\<rparr>)" and ?p = "map snd (filter (\<lambda>c. fst c = q) cbs)"
  have kb: "kept b q = (got b q @ queues b q) @ ev # ?p"
    using r l by (simp add: kept_def pending_def)
  have k: "kept ?b q = (if length (queues b q) < QUEUE_MAX then kept b q else (got b q @ queues b q) @ ?p)"
    unfolding kb using l by (simp add: kept_def pending_def offer_def)
  have "subseq (kept ?b q) (sent b q)"
    using ok subseq_drop_mid [of "got b q @ queues b q" ev ?p "sent b q"] by (simp add: k kb delivery_ok_def)
  moreover have "length (queues b q) < length (kept b q)" by (simp add: kb)
  then have "length (sent b q) \<le> QUEUE_MAX \<Longrightarrow> owner b q \<notin> closed b \<Longrightarrow> kept ?b q = sent b q"
    using ok k by (auto simp: delivery_ok_def)
  ultimately show ?thesis using ok by (auto simp: delivery_ok_def offer_def)
qed

lemma delivery_elsewhere:
  assumes "delivery_ok b q" and "got b' q = got b q" "sent b' q = sent b q" "queues b' q = queues b q"
    "pending b' q = pending b q" "owner b' q = owner b q" "closed b \<subseteq> closed b'"
  shows "delivery_ok b' q"
  using assms by (auto simp: delivery_ok_def kept_def)

lemma ready_known: "wiring_ok pub b \<Longrightarrow> (q, ev) \<in> set (ready b l) \<Longrightarrow> owner b q = l \<and> q < next_q b"
  by (auto simp: wiring_ok_def known_def list_all_iff dest!: spec [of _ l])

lemma delivery_deliver:
  assumes ok: "\<forall>q. delivery_ok b q" and w: "wiring_ok pub b" and known: "known b sub"
  shows "delivery_ok (deliver pub ev sub b) q"
proof -
  obtain p l where sub: "sub = (p, l)" by force
  then have own: "owner b p = l" using known by (simp add: known_def)
  show ?thesis
  proof (cases "q = p")
    case True
    consider "l = pub" | "l \<noteq> pub" "l \<in> closed b" | "l \<noteq> pub" "l \<notin> closed b" by blast
    then show ?thesis
    proof cases
      case 1
      then have "pending b p = []" using w own by (simp add: wiring_ok_def pending_def)
      then show ?thesis using delivery_direct [of b p ev] ok 1 True by (simp add: sub deliver_def Let_def)
    next
      case 2
      then show ?thesis using delivery_closed [of b p ev] ok own True by (simp add: sub deliver_def Let_def)
    next
      case 3
      then show ?thesis using delivery_scheduled [of b p l ev] ok own True by (simp add: sub deliver_def Let_def)
    qed
  next
    case False
    show ?thesis
      by (rule delivery_elsewhere [of b]) (use ok False in \<open>auto simp: sub deliver_def Let_def pending_def offer_def\<close>)
  qed
qed

lemma delivery_step:
  assumes "bus_step pub b b'" and w: "wiring_ok pub b" and ok: "\<forall>q. delivery_ok b q"
  shows "delivery_ok b' q"
  using assms(1)
proof cases
  case (bs_begin ev)
  then show ?thesis using ok by (auto intro: delivery_elsewhere [of b] simp: publish_begin_def pending_def)
next
  case (bs_deliver ev sub subs)
  have "known b sub" using w bs_deliver(2) by (simp add: wiring_ok_def in_flight_def)
  then have "delivery_ok (deliver pub ev sub b) q" using ok w by (intro delivery_deliver)
  then show ?thesis
    unfolding bs_deliver(1) by (rule delivery_elsewhere) (simp_all add: pending_def)
next
  case (bs_end ev)
  then show ?thesis using ok by (auto intro: delivery_elsewhere [of b] simp: pending_def)
next
  case (bs_subscribe l)
  show ?thesis
  proof (cases "q = next_q b")
    case True
    have "(q, ev) \<notin> set (ready b l)" for ev using ready_known [OF w] True by blast
    then have "filter (\<lambda>c. fst c = q) (ready b l) = []" by (auto simp: filter_empty_conv)
    then show ?thesis using w True bs_subscribe
      by (simp add: subscribe_def Let_def delivery_ok_def kept_def pending_def wiring_ok_def)
  next
    case False
    then show ?thesis using ok bs_subscribe
      by (auto intro: delivery_elsewhere [of b] simp: subscribe_def Let_def pending_def)
  qed
next
  case (bs_unsubscribe p)
  then show ?thesis using ok by (auto intro: delivery_elsewhere [of b] simp: unsubscribe_def pending_def)
next
  case (bs_receive p)
  have "delivery_ok b q" using ok by blast
  then show ?thesis unfolding bs_receive
    by (cases "queues b p"; cases "q = p") (auto simp: receive_def delivery_ok_def kept_def pending_def)
next
  case (bs_callback l)
  show ?thesis
  proof (cases "ready b l")
    case Nil
    then show ?thesis using bs_callback ok by (simp add: run_callback_def)
  next
    case (Cons c cbs)
    obtain p ev where c: "c = (p, ev)" by force
    have own: "owner b p = l" using ready_known [OF w, of p ev l] Cons c by simp
    show ?thesis
    proof (cases "q = p")
      case True
      have "delivery_ok (offer p ev (b\<lparr>ready := (ready b)(l := cbs)\<rparr>)) p"
        by (rule delivery_callback) (use ok Cons c own in blast)+
      with True show ?thesis by (simp add: bs_callback run_callback_def Cons c)
    next
      case False
      have "run_callback l b = offer p ev (b\<lparr>ready := (ready b)(l := cbs)\<rparr>)" by (simp add: run_callback_def Cons c)
      moreover have "pending (b\<lparr>ready := (ready b)(l := cbs)\<rparr>) q = pending b q"
        using False Cons c by (simp add: pending_def)
      moreover have "queues (offer p ev (b\<lparr>ready := (ready b)(l := cbs)\<rparr>)) q = queues b q"
        using False by (simp add: offer_def)
      ultimately show ?thesis
        unfolding bs_callback by - (rule delivery_elsewhere [of b], simp_all add: ok)
    qed
  qed
next
  case (bs_close l)
  have "subseq (got b q @ queues b q) (sent b q)"
    using ok subseq_order.trans [of "got b q @ queues b q" "kept b q" "sent b q"]
      subseq_rev_drop_many [of "got b q @ queues b q" "got b q @ queues b q" "pending b q"]
    by (simp add: delivery_ok_def kept_def)
  then show ?thesis
    using spec [OF ok, of q] bs_close by (auto simp: close_loop_def delivery_ok_def kept_def pending_def)
qed

lemma bus_invariant: "bus_reachable pub b \<Longrightarrow> wiring_ok pub b \<and> (\<forall>q. delivery_ok b q)"
proof (induction rule: bus_reachable.induct)
  case 1
  show ?case by (simp add: init_bus_def wiring_ok_def in_flight_def delivery_ok_def kept_def pending_def)
next
  case (2 b b')
  then show ?case using wiring_step delivery_step by blast
qed

section \<open>Publishing\<close>

lemma flight_deliver [simp]: "flight (deliver pub ev sub b) = flight b"
  by (simp add: deliver_def Let_def split: prod.split)

lemma deliver_flight: "deliver pub ev sub (b\<lparr>flight := x\<rparr>) = (deliver pub ev sub b)\<lparr>flight := x\<rparr>"
  by (simp add: deliver_def offer_def Let_def split: prod.split)

lemma deliver_all_steps:
  "(bus_step pub)\<^sup>*\<^sup>* (b\<lparr>flight := Some (ev, subs)\<rparr>) ((foldl (\<lambda>b sub. deliver pub ev sub b) b subs)\<lparr>flight := Some (ev, [])\<rparr>)"
proof (induction subs arbitrary: b)
  case (Cons sub subs)
  have "bus_step pub (b\<lparr>flight := Some (ev, sub # subs)\<rparr>) ((deliver pub ev sub b)\<lparr>flight := Some (ev, subs)\<rparr>)"
    using bs_deliver [of "b\<lparr>flight := Some (ev, sub # subs)\<rparr>" ev sub subs pub] by (simp add: deliver_flight)
  with Cons.IH show ?case by (auto intro: converse_rtranclp_into_rtranclp)
qed simp

lemma flight_foldl_deliver: "flight (foldl (\<lambda>b sub. deliver pub ev sub b) b subs) = flight b"
  by (induction subs arbitrary: b) simp_all

text \<open>A publication never waits for a subscriber: whatever the queues and loops hold, the publisher's
  own steps complete it, with the result of \<^verbatim>\<open>publish\<close>.\<close>

lemma publish_steps:
  assumes "flight b = None"
  shows "(bus_step pub)\<^sup>*\<^sup>* b (publish pub ev b)"
proof -
  let ?r = "foldl (\<lambda>b sub. deliver pub ev sub b) b (subscribers b)"
  have "bus_step pub b (b\<lparr>flight := Some (ev, subscribers b)\<rparr>)"
    using bs_begin [OF assms, of pub ev] by (simp add: publish_begin_def)
  also have "(bus_step pub)\<^sup>*\<^sup>* (b\<lparr>flight := Some (ev, subscribers b)\<rparr>) (?r\<lparr>flight := Some (ev, [])\<rparr>)"
    by (rule deliver_all_steps)
  also have "bus_step pub (?r\<lparr>flight := Some (ev, [])\<rparr>) (?r\<lparr>flight := None\<rparr>)"
    using bs_end [of "?r\<lparr>flight := Some (ev, [])\<rparr>" ev pub] by simp
  also have "?r\<lparr>flight := None\<rparr> = ?r"
    using flight_foldl_deliver [of pub ev b "subscribers b"] assms by (cases ?r) simp
  finally show ?thesis by (simp add: publish_def)
qed

section \<open>Properties\<close>

text \<open>C13. What a watcher of a scan can rely on, over every interleaving of the scan's loop with the
  subscribers' loops: its backlog never exceeds 2000 events; what it received, what waits in its queue
  and what is on its way, in this order, is a subsequence of what was published to it, so that events
  are neither duplicated nor reordered; and nothing at all is missing as long as no more than 2000
  events were published to it and its loop is open.\<close>

theorem event_bus_delivery:
  assumes "bus_reachable pub b"
  shows "length (queues b q) \<le> 2000 \<and> subseq (got b q @ queues b q @ pending b q) (sent b q) \<and>
    (length (sent b q) \<le> 2000 \<and> owner b q \<notin> closed b \<longrightarrow>
       got b q @ queues b q @ pending b q = sent b q)"
  using bus_invariant [OF assms] by (auto simp: delivery_ok_def kept_def QUEUE_MAX_def)

theorem event_bus_delivery_witness:
  "\<exists>b. bus_reachable 0 b \<and> got b 0 = [ScanCompleted 7] \<and> got b 0 @ queues b 0 @ pending b 0 = sent b 0"
proof -
  define b1 where "b1 = snd (subscribe 1 init_bus)"
  have b1: "bus_reachable 0 b1" unfolding b1_def
    by (rule bus_reachable.intros(2) [OF bus_reachable.intros(1)]) (simp add: bs_subscribe init_bus_def)
  have "(bus_step 0)\<^sup>*\<^sup>* b1 (publish 0 (ScanCompleted 7) b1)"
    by (rule publish_steps) (simp add: b1_def subscribe_def init_bus_def Let_def)
  then have "bus_reachable 0 (publish 0 (ScanCompleted 7) b1)"
    by (induction rule: rtranclp_induct) (use b1 in \<open>auto intro: bus_reachable.intros(2)\<close>)
  then have "bus_reachable 0 (run_callback 1 (publish 0 (ScanCompleted 7) b1))"
    using bus_reachable.intros(2) bs_callback by blast
  then have r: "bus_reachable 0 (receive 0 (run_callback 1 (publish 0 (ScanCompleted 7) b1)))" (is "bus_reachable 0 ?b")
    using bus_reachable.intros(2) bs_receive by blast
  have e: "got ?b 0 = [ScanCompleted 7]" "sent ?b 0 = [ScanCompleted 7]" "owner ?b 0 = 1" "closed ?b = {}"
    by (simp_all add: b1_def subscribe_def init_bus_def Let_def publish_def deliver_def run_callback_def receive_def
        offer_def QUEUE_MAX_def)
  show ?thesis using event_bus_delivery [OF r, of 0] r e by auto
qed

end
