(* ===== verification/Runner.thy ===== *)
theory Runner
  imports Store Confidence Compliance Remediation Targets Event_Bus
begin

text \<open>
  \<^verbatim>\<open>probes/_registry.py\<close> and \<^verbatim>\<open>runner/runner.py\<close>: a scan runs every registered probe, family by
  family, the probes of one family concurrently, and stores what they emit. A probe's own code is a
  parameter: what its \<^verbatim>\<open>applies\<close> answers, and for its \<^verbatim>\<open>run\<close> a script, the findings it emits one by
  one, each continued according to whether the emission raised, and how it ends. A call may hang; the
  time limit of \<^verbatim>\<open>asyncio.wait_for\<close> may then (or at any other moment) end it. Each step of a probe
  between two suspensions is one step of the model, so any interleaving of the probes is a sequence
  of steps. Exceptions are the timeout and the others, by their text.
\<close>

section \<open>Probes and the scan context\<close>

datatype exn = Timeout_Error | Exn string

datatype answer = Answer bool | Fails exn | Hangs

datatype script = Return | Raise exn | Hang | Emit finding "match_error option \<Rightarrow> script"

record sniff_config =
  sf_interface :: "string option"
  sf_seconds :: string
  sf_max_packets :: int

record scan_context =
  cx_scan_id :: nat
  cx_mode :: string
  cx_capabilities :: "capability set"
  cx_scan_paths :: "string list"
  cx_server_target :: "string option"
  cx_ot_targets :: "ot_target list"
  cx_sniff :: "sniff_config option"

text \<open>The attributes \<^verbatim>\<open>roots\<close> and \<^verbatim>\<open>host\<close> are \<^const>\<open>None\<close> where the probe has none, or not a list,
  respectively a string. The code of a probe reads them, and the context.\<close>

record probe =
  pr_id :: string
  pr_family :: probe_family
  pr_requires :: "capability set"
  pr_version :: string
  pr_roots :: "string list option"
  pr_host :: "string option"
  pr_applies :: "string list option \<Rightarrow> string option \<Rightarrow> scan_context \<Rightarrow> answer"
  pr_run :: "string list option \<Rightarrow> string option \<Rightarrow> scan_context \<Rightarrow> script"

definition probe_applies :: "probe \<Rightarrow> scan_context \<Rightarrow> answer" where
  "probe_applies p ctx = pr_applies p (pr_roots p) (pr_host p) ctx"

definition probe_run :: "probe \<Rightarrow> scan_context \<Rightarrow> script" where
  "probe_run p ctx = pr_run p (pr_roots p) (pr_host p) ctx"

section \<open>The registry\<close>

datatype registry_error = Empty_Id | Duplicate_Id

type_synonym registry = "probe dict"

definition register :: "probe \<Rightarrow> registry \<Rightarrow> registry_error + registry" where
  "register p reg =
     (if pr_id p = [] then Inl Empty_Id
      else if dict_get reg (pr_id p) \<noteq> None then Inl Duplicate_Id
      else Inr (reg @ [(pr_id p, p)]))"

definition registry_all :: "registry \<Rightarrow> probe list" where
  "registry_all reg = map snd reg"

definition registry_family :: "probe_family \<Rightarrow> registry \<Rightarrow> probe list" where
  "registry_family fam reg = filter (\<lambda>p. pr_family p = fam) (registry_all reg)"

text \<open>What the compliance engine reads of the registry.\<close>

definition registry_index :: "registry \<Rightarrow> (string \<times> probe_family) list" where
  "registry_index reg = map (\<lambda>p. (pr_id p, pr_family p)) (registry_all reg)"

section \<open>What the process may do\<close>

text \<open>\<^verbatim>\<open>runner/capabilities.py\<close>. The platform, the answer of the Windows administrator check (\<^const>\<open>None\<close>
  when it raises), the effective user id and the tools on the path are arguments.\<close>

definition current_mode :: "bool \<Rightarrow> bool option \<Rightarrow> nat \<Rightarrow> string" where
  "current_mode win32 admin euid =
     (if win32 then (case admin of Some True \<Rightarrow> ''root'' | _ \<Rightarrow> ''user'')
      else if euid = 0 then ''root'' else ''user'')"

definition detect_capabilities :: "string \<Rightarrow> (string \<Rightarrow> bool) \<Rightarrow> capability set" where
  "detect_capabilities mode which =
     (if mode = ''root'' then {ROOT, NET_RAW, DAC_READ_SEARCH} else {}) \<union>
     (if which ''kubectl'' then {KUBECTL} else {}) \<union>
     (if which ''docker'' \<or> which ''podman'' \<or> which ''nerdctl'' then {CONTAINER_RT} else {})"

section \<open>Binding a probe to a scan\<close>

definition target_host :: "string \<Rightarrow> string" where
  "target_host server_target =
     (if startswith server_target ''['' then fst (partition_char (CHR '']'') (tl server_target))
      else fst (partition_char (CHR '':'') server_target))"

definition bind_context :: "probe \<Rightarrow> scan_context \<Rightarrow> probe" where
  "bind_context p ctx =
     (let want_roots = (cx_scan_paths ctx \<noteq> [] \<and> pr_roots p \<noteq> None);
          want_host = (cx_server_target ctx \<notin> {None, Some []} \<and> pr_host p \<noteq> None \<and> pr_family p = NETWORK);
          p = (if want_roots then p\<lparr>pr_roots := Some (cx_scan_paths ctx)\<rparr> else p);
          new_host = target_host (case cx_server_target ctx of None \<Rightarrow> [] | Some t \<Rightarrow> t)
      in if want_host \<and> new_host \<noteq> [] then p\<lparr>pr_host := Some new_host\<rparr> else p)"

section \<open>Storing what a probe emits\<close>

text \<open>\<^verbatim>\<open>sorted(c.value for c in probe.requires)\<close>: the capabilities in the order of their values.\<close>

definition sorted_capabilities :: "capability set \<Rightarrow> capability list" where
  "sorted_capabilities caps = filter (\<lambda>c. c \<in> caps) [CONTAINER_RT, DAC_READ_SEARCH, KUBECTL, NET_RAW, ROOT]"

definition skip_finding :: "env \<Rightarrow> probe \<Rightarrow> finding" where
  "skip_finding e p =
     \<lparr>probe_id = pr_id p, algorithm = ''N/A'', classification = CLS_INFO, severity = SEV_INFO,
      title = ''skipped: probe requires '' @ py_repr (JList (map (JStr \<circ> capability_value) (sorted_capabilities (pr_requires p)))),
      component_purl = None, evidence = [(''reason'', JStr ''skipped_privilege''), (''confidence'', JStr ''high'')],
      remediation = [], confidence = ''high'', created_at = env_now e\<rparr>"

definition prepare :: "finding \<Rightarrow> finding" where
  "prepare f =
     (let f = enrich f; c = assess (probe_id f) (evidence f)
      in f\<lparr>confidence := c, evidence := dict_set ''confidence'' (JStr c) (evidence f)\<rparr>)"

definition store_finding :: "env \<Rightarrow> nat \<Rightarrow> finding \<Rightarrow> db \<Rightarrow> nat \<times> db" where
  "store_finding e sid f d = insert_finding e (row_of_finding sid f) d"

definition view_of_verdict :: "nat \<Rightarrow> framework_verdict \<Rightarrow> nat \<Rightarrow> framework_view" where
  "view_of_verdict fid v i =
     \<lparr>vw_id = i, vw_finding_id = fid, vw_framework = fv_framework v, vw_clause = fv_clause v,
      vw_verdict = fv_verdict v, vw_deadline = fv_deadline v\<rparr>"

definition store_views :: "env \<Rightarrow> nat \<Rightarrow> framework_verdict list \<Rightarrow> db \<Rightarrow> db" where
  "store_views e fid vs d = foldl (\<lambda>d v. snd (insert_view e (view_of_verdict fid v) d)) d vs"

definition discovered :: "nat \<Rightarrow> finding \<Rightarrow> event" where
  "discovered sid f = FindingDiscovered sid (probe_id f) (title f) (algorithm f)
     (classification_value (classification f)) (severity_value (severity f))"

definition emit :: "env \<Rightarrow> registry \<Rightarrow> framework_rules list \<Rightarrow> nat \<Rightarrow> finding \<Rightarrow> db \<Rightarrow> match_error option \<times> event list \<times> db" where
  "emit e reg fws sid f0 d =
     (let f = prepare f0; (fid, d1) = store_finding e sid f d; (vs, err) = evaluate (registry_index reg) fws f
      in (err, if err = None then [discovered sid f] else [], store_views e fid vs d1))"

section \<open>One probe\<close>

datatype outcome = Skipped | Not_Applicable | Failed string | Completed

definition record_outcome :: "env \<Rightarrow> nat \<Rightarrow> probe \<Rightarrow> outcome \<Rightarrow> db \<Rightarrow> db" where
  "record_outcome e sid p oc d =
     (case oc of
        Skipped \<Rightarrow> snd (store_finding e sid (skip_finding e p) d)
      | Failed message \<Rightarrow> (case record_probe_error e sid (pr_id p) message d of Inl _ \<Rightarrow> d | Inr (_, d') \<Rightarrow> d')
      | _ \<Rightarrow> d)"

datatype task = Waiting probe | Applying probe | Running probe script | Ended probe outcome

text \<open>How a step goes: the probe moves on by itself, or its time limit expires.\<close>

datatype choice = Go | Expire

definition applies_end :: "choice \<Rightarrow> answer \<Rightarrow> outcome option" where
  "applies_end c a =
     (if c = Expire then Some (Failed ''applies() timeout'')
      else
        (case a of
           Answer b \<Rightarrow> if b then None else Some Not_Applicable
         | Fails Timeout_Error \<Rightarrow> Some (Failed ''applies() timeout'')
         | Fails (Exn m) \<Rightarrow> Some (Failed (''applies() failed: '' @ m))
         | Hangs \<Rightarrow> None))"

definition run_end :: "choice \<Rightarrow> script \<Rightarrow> outcome option" where
  "run_end c s =
     (if c = Expire then Some (Failed ''timeout'')
      else
        (case s of
           Return \<Rightarrow> Some Completed
         | Raise Timeout_Error \<Rightarrow> Some (Failed ''timeout'')
         | Raise (Exn m) \<Rightarrow> Some (Failed m)
         | _ \<Rightarrow> None))"

text \<open>A step of one probe: its new state, the events it starts to publish, and the database. A
  task that cannot move by itself (it hangs, or has ended) has no \<^const>\<open>Go\<close> step.\<close>

definition task_step ::
  "env \<Rightarrow> registry \<Rightarrow> framework_rules list \<Rightarrow> scan_context \<Rightarrow> choice \<Rightarrow> task \<Rightarrow> db \<Rightarrow> (task \<times> event list \<times> db) option" where
  "task_step e reg fws ctx c t d =
     (let sid = cx_scan_id ctx; finished = (\<lambda>p oc. Some (Ended p oc, [], record_outcome e sid p oc d)) in
      case t of
        Waiting p0 \<Rightarrow>
          if c = Expire then None
          else
            (let p = bind_context p0 ctx in
             if \<not> pr_requires p \<subseteq> cx_capabilities ctx then finished p Skipped else Some (Applying p, [], d))
      | Applying p \<Rightarrow>
          (case applies_end c (probe_applies p ctx) of
             Some oc \<Rightarrow> finished p oc
           | None \<Rightarrow> if probe_applies p ctx = Hangs then None else Some (Running p (probe_run p ctx), [], d))
      | Running p s \<Rightarrow>
          (case run_end c s of
             Some oc \<Rightarrow> finished p oc
           | None \<Rightarrow>
               (case s of
                  Emit f k \<Rightarrow> (case emit e reg fws sid f d of (err, evs, d') \<Rightarrow> Some (Running p (k err), evs, d'))
                | _ \<Rightarrow> None))
      | Ended p oc \<Rightarrow> None)"

section \<open>The scan\<close>

text \<open>\<^verbatim>\<open>by_family[p.family.value].append(p)\<close>, in order of first appearance.\<close>

definition family_append :: "probe list dict \<Rightarrow> probe \<Rightarrow> probe list dict" where
  "family_append g p =
     (let fam = probe_family_value (pr_family p) in
      dict_set fam ((case dict_get g fam of None \<Rightarrow> [] | Some ps \<Rightarrow> ps) @ [p]) g)"

definition by_family :: "probe list \<Rightarrow> probe list dict" where
  "by_family ps = foldl family_append [] ps"

definition scan_metadata :: "string \<Rightarrow> registry \<Rightarrow> pydict \<times> pydict" where
  "scan_metadata py_version reg =
     (foldl (\<lambda>m p. dict_set (pr_id p) (JStr (pr_version p)) m) [] (registry_all reg), [(''python'', JStr py_version)])"

text \<open>\<^verbatim>\<open>socket.gethostname() or None\<close>\<close>

definition fingerprint :: "string \<Rightarrow> string option" where
  "fingerprint hostname = (if hostname = [] then None else Some hostname)"

definition runner_begin_scan :: "env \<Rightarrow> string \<Rightarrow> string \<Rightarrow> registry \<Rightarrow> string \<Rightarrow> nat option session" where
  "runner_begin_scan e py_version hostname reg mode d =
     (case scan_metadata py_version reg of (pv, tv) \<Rightarrow> begin_scan_if_idle e mode pv tv (fingerprint hostname) None d)"

text \<open>The state of a scan under way. \<open>rs_ended\<close> is history: how each probe of the closed families
  ended.\<close>

record run_state =
  rs_db :: db
  rs_todo :: "probe list dict"
  rs_stage :: "string option"
  rs_tasks :: "task list"
  rs_ended :: "(string \<times> outcome) list"
  rs_background :: "event list"
  rs_published :: "event list"
  rs_result :: "(repo_error + nat) option"

text \<open>The beginning of \<^verbatim>\<open>run\<close>, up to its first suspension: the scan row (unless the caller made
  it), the context, the grouping by family.\<close>

definition run_begin ::
  "env \<Rightarrow> string \<Rightarrow> string \<Rightarrow> registry \<Rightarrow> string \<Rightarrow> capability set \<Rightarrow> string list option \<Rightarrow> string option \<Rightarrow>
   ot_target list option \<Rightarrow> sniff_config option \<Rightarrow> nat option \<Rightarrow> db \<Rightarrow> repo_error + scan_context \<times> run_state" where
  "run_begin e py_version hostname reg mode caps paths server ots sniff scan_id d =
     (case (case scan_id of
              Some i \<Rightarrow> Inr (i, d)
            | None \<Rightarrow> (case scan_metadata py_version reg of
                (pv, tv) \<Rightarrow> create_scan e mode pv tv (fingerprint hostname) None d)) of
        Inl err \<Rightarrow> Inl err
      | Inr (i, d') \<Rightarrow>
          Inr (\<lparr>cx_scan_id = i, cx_mode = mode, cx_capabilities = caps,
                cx_scan_paths = (case paths of None \<Rightarrow> [] | Some ps \<Rightarrow> ps), cx_server_target = server,
                cx_ot_targets = (case ots of None \<Rightarrow> [] | Some ts \<Rightarrow> ts), cx_sniff = sniff\<rparr>,
            \<lparr>rs_db = d', rs_todo = by_family (registry_all reg), rs_stage = None, rs_tasks = [], rs_ended = [],
             rs_background = [], rs_published = [], rs_result = None\<rparr>))"

definition task_ended :: "task \<Rightarrow> bool" where
  "task_ended t = (case t of Ended p oc \<Rightarrow> True | _ \<Rightarrow> False)"

fun task_log :: "task \<Rightarrow> (string \<times> outcome) list" where
  "task_log (Ended p oc) = [(pr_id p, oc)]"
| "task_log t = []"

definition open_stage :: "nat \<Rightarrow> string \<Rightarrow> probe list \<Rightarrow> probe list dict \<Rightarrow> run_state \<Rightarrow> run_state" where
  "open_stage sid fam ps rest s =
     s\<lparr>rs_todo := rest, rs_stage := Some fam, rs_tasks := map Waiting ps, rs_published := rs_published s @ [StageStarted sid fam]\<rparr>"

definition close_stage :: "nat \<Rightarrow> string \<Rightarrow> run_state \<Rightarrow> run_state" where
  "close_stage sid fam s =
     s\<lparr>rs_stage := None, rs_tasks := [], rs_ended := rs_ended s @ concat (map task_log (rs_tasks s)),
       rs_published := rs_published s @ [StageCompleted sid fam]\<rparr>"

definition run_finish :: "env \<Rightarrow> nat \<Rightarrow> run_state \<Rightarrow> run_state" where
  "run_finish e sid s =
     (case finish_scan e sid ''done'' (rs_db s) of
        Inl err \<Rightarrow> s\<lparr>rs_result := Some (Inl err)\<rparr>
      | Inr (_, d) \<Rightarrow>
          s\<lparr>rs_db := d, rs_published := rs_published s @ [ScanCompleted sid], rs_result := Some (Inr sid)\<rparr>)"

text \<open>The steps of a scan: a family is opened, its probes move in any order, a finished family is
  closed, a publication started by an emission takes place, the scan ends. Each session has its own
  clock reading and key choice.\<close>

inductive run_step :: "registry \<Rightarrow> framework_rules list \<Rightarrow> scan_context \<Rightarrow> run_state \<Rightarrow> run_state \<Rightarrow> bool"
  for reg :: registry and fws :: "framework_rules list" and ctx :: scan_context where
  st_open: "rs_stage s = None \<Longrightarrow> rs_todo s = (fam, ps) # rest \<Longrightarrow>
    run_step reg fws ctx s (open_stage (cx_scan_id ctx) fam ps rest s)"
| st_task: "i < length (rs_tasks s) \<Longrightarrow> env_ok e \<Longrightarrow>
    task_step e reg fws ctx c (rs_tasks s ! i) (rs_db s) = Some (t, evs, d) \<Longrightarrow>
    run_step reg fws ctx s (s\<lparr>rs_tasks := (rs_tasks s)[i := t], rs_background := rs_background s @ evs, rs_db := d\<rparr>)"
| st_close: "rs_stage s = Some fam \<Longrightarrow> list_all task_ended (rs_tasks s) \<Longrightarrow>
    run_step reg fws ctx s (close_stage (cx_scan_id ctx) fam s)"
| st_publish: "rs_background s = ev # evs \<Longrightarrow>
    run_step reg fws ctx s (s\<lparr>rs_background := evs, rs_published := rs_published s @ [ev]\<rparr>)"
| st_finish: "rs_stage s = None \<Longrightarrow> rs_todo s = [] \<Longrightarrow> rs_result s = None \<Longrightarrow> env_ok e \<Longrightarrow>
    run_step reg fws ctx s (run_finish e (cx_scan_id ctx) s)"

inductive_cases run_stepE: "run_step reg fws ctx s s'"

end
