(* ===== verification/Runner_Laws.thy ===== *)
theory Runner_Laws
  imports Runner Fleet_Laws "HOL-Library.Multiset"
begin

text \<open>
  The laws of a scan: what every interleaving of its probes keeps of the database, that it cannot run
  forever, and that it ends with the scan marked done and every probe accounted for.
\<close>

section \<open>What a step adds to the database\<close>

lemma row_of_finding_sel [simp]:
  "fr_id (row_of_finding sid f i) = i" "fr_scan_id (row_of_finding sid f i) = sid"
  by (simp_all add: row_of_finding_def)

lemma store_finding_extends: "env_ok e \<Longrightarrow> extends sid d (snd (store_finding e sid f d))"
  by (simp add: store_finding_def insert_finding_extends)

lemma store_finding_row:
  "store_finding e sid f d = (fid, d') \<Longrightarrow> row_of_finding sid f fid \<in> set (findings d')"
  by (rule insert_finding_row) (simp_all add: store_finding_def)

lemma store_views_extends:
  assumes "env_ok e" and "fid \<in> fr_id ` {r \<in> set (findings d). fr_scan_id r = sid}"
  shows "extends sid d (store_views e fid vs d)"
  using assms(2)
proof (induction vs arbitrary: d)
  case (Cons v vs)
  let ?d = "snd (insert_view e (view_of_verdict fid v) d)"
  have 1: "extends sid d ?d"
    using Cons.prems by (intro insert_view_extends [OF assms(1)]) (simp_all add: view_of_verdict_def)
  have "fid \<in> fr_id ` {r \<in> set (findings ?d). fr_scan_id r = sid}"
    using Cons.prems extends_findings_mono [OF 1] by blast
  with Cons.IH have "extends sid ?d (store_views e fid vs ?d)" .
  with 1 have "extends sid d (store_views e fid vs ?d)" by (rule extends_trans)
  then show ?case by (simp add: store_views_def)
qed (simp add: store_views_def)

text \<open>The event a stored row corresponds to.\<close>

definition row_event :: "finding_row \<Rightarrow> event" where
  "row_event r = FindingDiscovered (fr_scan_id r) (fr_probe_id r) (fr_title r) (fr_algorithm r)
     (fr_classification r) (fr_severity r)"

lemma emit_effect:
  assumes "env_ok e" and "emit e reg fws sid f d = (err, evs, d')"
  shows "extends sid d d'" and "set evs \<subseteq> row_event ` set (findings d')"
    and "\<exists>i. row_of_finding sid (prepare f) i \<in> set (findings d')" and "length evs \<le> 1"
proof -
  obtain fid d1 vs where s: "store_finding e sid (prepare f) d = (fid, d1)"
      "evaluate (registry_index reg) fws (prepare f) = (vs, err)" "d' = store_views e fid vs d1"
      "evs = (if err = None then [discovered sid (prepare f)] else [])"
    using assms(2) by (auto simp: emit_def Let_def split: prod.splits)
  have row: "row_of_finding sid (prepare f) fid \<in> set (findings d1)" using s(1) by (rule store_finding_row)
  then have "fid \<in> fr_id ` {r \<in> set (findings d1). fr_scan_id r = sid}" by force
  then have x: "extends sid d1 d'" unfolding s(3) by (rule store_views_extends [OF assms(1)])
  with row have row': "row_of_finding sid (prepare f) fid \<in> set (findings d')" using extends_findings_mono by blast
  then show "\<exists>i. row_of_finding sid (prepare f) i \<in> set (findings d')" ..
  have "discovered sid (prepare f) = row_event (row_of_finding sid (prepare f) fid)"
    by (simp add: discovered_def row_event_def row_of_finding_def)
  with row' show "set evs \<subseteq> row_event ` set (findings d')" by (auto simp: s(4))
  show "extends sid d d'" using store_finding_extends [OF assms(1), of sid d "prepare f"] x extends_trans s(1) by fastforce
  show "length evs \<le> 1" by (simp add: s(4))
qed

text \<open>How the database shows the outcome of a probe.\<close>

definition error_row :: "nat \<Rightarrow> string \<Rightarrow> string \<Rightarrow> finding_row \<Rightarrow> bool" where
  "error_row sid pid m r \<longleftrightarrow>
     fr_scan_id r = sid \<and> fr_probe_id r = pid \<and> fr_classification r = ''error'' \<and> fr_title r = ''probe error: '' @ m"

definition skip_row :: "nat \<Rightarrow> string \<Rightarrow> finding_row \<Rightarrow> bool" where
  "skip_row sid pid r \<longleftrightarrow>
     fr_scan_id r = sid \<and> fr_probe_id r = pid \<and> fr_classification r = ''info'' \<and>
     dict_get (fr_evidence r) ''reason'' = Some (JStr ''skipped_privilege'')"

definition accounted :: "nat \<Rightarrow> db \<Rightarrow> string \<times> outcome \<Rightarrow> bool" where
  "accounted sid d entry =
     (case entry of
        (pid, Failed m) \<Rightarrow> \<exists>r \<in> set (findings d). error_row sid pid m r
      | (pid, Skipped) \<Rightarrow> \<exists>r \<in> set (findings d). skip_row sid pid r
      | _ \<Rightarrow> True)"

lemma accounted_mono: "accounted sid d x \<Longrightarrow> set (findings d) \<subseteq> set (findings d') \<Longrightarrow> accounted sid d' x"
  by (auto simp: accounted_def split: prod.splits outcome.splits)

definition error_finding_row :: "env \<Rightarrow> nat \<Rightarrow> string \<Rightarrow> string \<Rightarrow> nat \<Rightarrow> finding_row" where
  "error_finding_row e sid pid m i =
     \<lparr>fr_id = i, fr_scan_id = sid, fr_component_id = None, fr_probe_id = pid, fr_algorithm = ''N/A'',
      fr_classification = ''error'', fr_severity = ''info'', fr_title = ''probe error: '' @ m,
      fr_evidence = [(''error'', JStr m)], fr_remediation = [], fr_created_at = env_now e\<rparr>"

lemma record_outcome_row:
  "record_outcome e sid p oc d =
     (case oc of
        Skipped \<Rightarrow> snd (insert_finding e (row_of_finding sid (skip_finding e p)) d)
      | Failed m \<Rightarrow> snd (insert_finding e (error_finding_row e sid (pr_id p) m) d)
      | _ \<Rightarrow> d)"
  by (simp add: record_outcome_def store_finding_def record_probe_error_def error_finding_row_def [abs_def]
      split: outcome.split prod.split)

lemma record_outcome_effect:
  assumes "env_ok e"
  shows "extends sid d (record_outcome e sid p oc d)" and "accounted sid (record_outcome e sid p oc d) (pr_id p, oc)"
proof -
  show "extends sid d (record_outcome e sid p oc d)"
    unfolding record_outcome_row
    by (auto intro!: insert_finding_extends [OF assms] simp: error_finding_row_def split: outcome.split)
  show "accounted sid (record_outcome e sid p oc d) (pr_id p, oc)"
    unfolding record_outcome_row
    by (auto simp: accounted_def insert_finding_def Let_def error_finding_row_def error_row_def skip_row_def
        row_of_finding_def skip_finding_def split: outcome.split)
qed

text \<open>A step of a task adds rows of its own scan; when the task ends, its outcome is on record.\<close>

lemma task_step_effect:
  assumes e: "env_ok e" and "task_step e reg fws ctx c t d = Some (t', evs, d')"
  shows "extends (cx_scan_id ctx) d d' \<and> set evs \<subseteq> row_event ` set (findings d') \<and>
    list_all (accounted (cx_scan_id ctx) d') (task_log t')"
  using assms(2) record_outcome_effect [OF e] emit_effect(1,2) [OF e]
  by (auto simp: task_step_def Let_def split: task.splits if_splits option.splits script.splits prod.splits)

section \<open>Termination\<close>

primrec script_size :: "script \<Rightarrow> nat" where
  "script_size Return = 0"
| "script_size (Raise x) = 0"
| "script_size Hang = 0"
| "script_size (Emit f k) =
     2 + script_size (k None) + script_size (k (Some ValueError)) + script_size (k (Some TypeError))"

lemma script_size_continue: "script_size (k err) + 2 \<le> script_size (Emit f k)"
proof (cases err)
  case (Some x)
  then show ?thesis by (cases x) simp_all
qed simp

fun task_size :: "scan_context \<Rightarrow> task \<Rightarrow> nat" where
  "task_size ctx (Ended p oc) = 0"
| "task_size ctx (Running p s) = 1 + script_size s"
| "task_size ctx (Applying p) = 2 + script_size (probe_run p ctx)"
| "task_size ctx (Waiting p) = 3 + script_size (probe_run (bind_context p ctx) ctx)"

lemma task_step_decreases:
  assumes "env_ok e" and "task_step e reg fws ctx c t d = Some (t', evs, d')"
  shows "task_size ctx t' + length evs < task_size ctx t"
proof (cases t)
  case (Running p s)
  show ?thesis
  proof (cases "run_end c s")
    case None
    then obtain f k err where s: "s = Emit f k" "t' = Running p (k err)" "emit e reg fws (cx_scan_id ctx) f d = (err, evs, d')"
      using assms(2) Running by (auto simp: task_step_def Let_def split: script.splits prod.splits)
    then show ?thesis
      using emit_effect(4) [OF assms(1) s(3)] script_size_continue [of k err f] by (simp add: Running)
  next
    case (Some oc)
    then show ?thesis using assms(2) Running by (auto simp: task_step_def Let_def)
  qed
qed (use assms(2) in \<open>auto simp: task_step_def Let_def split: option.splits if_splits\<close>)

definition stage_size :: "scan_context \<Rightarrow> string \<times> probe list \<Rightarrow> nat" where
  "stage_size ctx st = 2 + sum_list (map (\<lambda>p. task_size ctx (Waiting p)) (snd st))"

definition run_size :: "scan_context \<Rightarrow> run_state \<Rightarrow> nat" where
  "run_size ctx s =
     sum_list (map (stage_size ctx) (rs_todo s)) + sum_list (map (task_size ctx) (rs_tasks s)) +
     length (rs_background s) + (if rs_stage s = None then 0 else 1) + (if rs_result s = None then 1 else 0)"

lemma sum_list_update_less:
  assumes "i < length xs" and "f y + n < f (xs ! i)"
  shows "sum_list (map f (xs[i := y])) + n < (sum_list (map f xs) :: nat)"
proof -
  have "sum_list (map f xs) = sum_list (map f (take i xs)) + (f (xs ! i) + sum_list (map f (drop (Suc i) xs)))"
    by (subst id_take_nth_drop [OF assms(1)]) simp
  moreover have "sum_list (map f (xs[i := y])) = sum_list (map f (take i xs)) + (f y + sum_list (map f (drop (Suc i) xs)))"
    by (subst upd_conv_take_nth_drop [OF assms(1)]) simp
  ultimately show ?thesis using assms(2) by simp
qed

lemma run_step_decreases: "run_step reg fws ctx s s' \<Longrightarrow> run_size ctx s' < run_size ctx s"
proof (induction rule: run_step.induct)
  case (st_open s fam ps rest)
  then show ?case
    by (simp add: run_size_def open_stage_def stage_size_def o_def del: task_size.simps)
next
  case (st_task i s e c t evs d)
  then have "sum_list (map (task_size ctx) ((rs_tasks s)[i := t])) + length evs < sum_list (map (task_size ctx) (rs_tasks s))"
    by (intro sum_list_update_less task_step_decreases)
  then show ?case by (simp add: run_size_def)
next
  case (st_close s fam)
  then show ?case by (simp add: run_size_def close_stage_def)
next
  case (st_publish s ev evs)
  then show ?case by (simp add: run_size_def)
next
  case (st_finish s e)
  then show ?case by (simp add: run_size_def run_finish_def split: sum.split prod.split)
qed

section \<open>Accounting for every probe\<close>

fun task_id :: "task \<Rightarrow> string" where
  "task_id (Waiting p) = pr_id p"
| "task_id (Applying p) = pr_id p"
| "task_id (Running p s) = pr_id p"
| "task_id (Ended p oc) = pr_id p"

lemma bind_context_id [simp]: "pr_id (bind_context p ctx) = pr_id p"
  by (simp add: bind_context_def Let_def)

lemma task_step_id: "task_step e reg fws ctx c t d = Some (t', evs, d') \<Longrightarrow> task_id t' = task_id t"
  by (auto simp: task_step_def Let_def split: task.splits if_splits option.splits script.splits prod.splits)

lemma task_log_ended: "list_all task_ended ts \<Longrightarrow> map fst (concat (map task_log ts)) = map task_id ts"
  by (induction ts) (auto simp: task_ended_def split: task.splits)

lemma mset_dict_set:
  assumes "dict_wf g"
  shows "mset (concat (map snd (dict_set k (v @ [p]) g))) + mset (case dict_get g k of None \<Rightarrow> [] | Some ps \<Rightarrow> ps) =
    mset (concat (map snd g)) + mset (v @ [p])"
  using assms by (induction g) (auto simp: dict_wf_def map_of_eq_None_iff split: option.splits)

lemma by_family_mset: "mset (concat (map snd (by_family ps))) = mset ps"
proof -
  have "dict_wf g \<Longrightarrow> mset (concat (map snd (foldl family_append g ps))) = mset (concat (map snd g)) + mset ps" for g
  proof (induction ps arbitrary: g)
    case (Cons p ps)
    let ?fam = "probe_family_value (pr_family p)"
    have "mset (concat (map snd (family_append g p))) = mset (concat (map snd g)) + mset [p]"
      using mset_dict_set [OF Cons.prems, of ?fam "case dict_get g ?fam of None \<Rightarrow> [] | Some ps \<Rightarrow> ps" p]
      by (simp add: family_append_def Let_def)
    moreover have "dict_wf (family_append g p)" using Cons.prems by (simp add: family_append_def Let_def)
    ultimately show ?case using Cons.IH [of "family_append g p"] by simp
  qed simp
  from this [of "[]"] show ?thesis by (simp add: by_family_def dict_wf_def)
qed

section \<open>Invariant\<close>

text \<open>Where the database of a scan stands: rows added for the scan, and at the end its row marked done.\<close>

definition db_progress :: "nat \<Rightarrow> db \<Rightarrow> run_state \<Rightarrow> bool" where
  "db_progress sid d0 s \<longleftrightarrow>
     (\<exists>d1. extends sid d0 d1 \<and>
        (rs_result s = None \<and> rs_db s = d1 \<or>
         rs_result s = Some (Inr sid) \<and> (\<exists>e. finish_scan e sid ''done'' d1 = Inr ((), rs_db s))))"

definition phases_ok :: "run_state \<Rightarrow> bool" where
  "phases_ok s \<longleftrightarrow>
     (rs_stage s = None \<longrightarrow> rs_tasks s = []) \<and> (rs_result s \<noteq> None \<longrightarrow> rs_stage s = None \<and> rs_todo s = [])"

definition probes_accounted :: "registry \<Rightarrow> nat \<Rightarrow> run_state \<Rightarrow> bool" where
  "probes_accounted reg sid s \<longleftrightarrow>
     list_all (accounted sid (rs_db s)) (rs_ended s @ concat (map task_log (rs_tasks s))) \<and>
     mset (map fst (rs_ended s)) + mset (map task_id (rs_tasks s)) + mset (map pr_id (concat (map snd (rs_todo s)))) =
       mset (map pr_id (registry_all reg))"

definition events_backed :: "run_state \<Rightarrow> bool" where
  "events_backed s \<longleftrightarrow>
     set (rs_background s) \<subseteq> row_event ` set (findings (rs_db s)) \<and>
     (\<forall>ev \<in> set (rs_published s). (\<forall>i pid t a c v. ev = FindingDiscovered i pid t a c v \<longrightarrow>
        ev \<in> row_event ` set (findings (rs_db s))))"

lemma finish_scan_findings: "finish_scan e sid st d = Inr (u, d') \<Longrightarrow> findings d' = findings d \<and> fviews d' = fviews d"
  by (auto simp: finish_scan_def split: option.splits)

lemma finish_scan_ok:
  assumes "db_ok d" and "sid \<in> sc_id ` set (scans d)"
  shows "\<exists>d'. finish_scan e sid st d = Inr ((), d')"
proof -
  have "get_row sc_id sid (scans d) \<noteq> None"
    using assms scan_t.get_None_iff [of "scans d" sid] by (simp add: db_okD)
  then show ?thesis by (auto simp: finish_scan_def)
qed

lemma phases_step: "run_step reg fws ctx s s' \<Longrightarrow> phases_ok s \<Longrightarrow> phases_ok s'"
  by (induction rule: run_step.induct)
    (auto simp: phases_ok_def open_stage_def close_stage_def run_finish_def split: sum.splits)

lemma db_progress_step:
  assumes "run_step reg fws ctx s s'" and "phases_ok s" and "db_ok d0" and "cx_scan_id ctx \<in> sc_id ` set (scans d0)"
    and "db_progress (cx_scan_id ctx) d0 s"
  shows "db_progress (cx_scan_id ctx) d0 s'"
  using assms
proof (induction rule: run_step.induct)
  case (st_task i s e c t evs d)
  then have "rs_result s = None" by (auto simp: phases_ok_def)
  then have "extends (cx_scan_id ctx) d0 (rs_db s)" using st_task.prems(4) by (auto simp: db_progress_def)
  then have "extends (cx_scan_id ctx) d0 d"
    using task_step_effect [OF st_task(2,3)] extends_trans by blast
  then show ?case using \<open>rs_result s = None\<close> by (simp add: db_progress_def)
next
  case (st_finish s e)
  then have x: "extends (cx_scan_id ctx) d0 (rs_db s)" by (auto simp: db_progress_def)
  then obtain d' where "finish_scan e (cx_scan_id ctx) ''done'' (rs_db s) = Inr ((), d')"
    using finish_scan_ok [of "rs_db s" "cx_scan_id ctx" e "''done''"] extends_db_ok [OF x st_finish.prems(2)]
      extends_same [OF x] st_finish.prems(3) by auto
  with x show ?case by (auto simp: db_progress_def run_finish_def)
qed (auto simp: db_progress_def open_stage_def close_stage_def)

lemma probes_accounted_step:
  assumes "run_step reg' fws ctx s s'" and "phases_ok s" and "probes_accounted reg (cx_scan_id ctx) s"
  shows "probes_accounted reg (cx_scan_id ctx) s'"
  using assms
proof (induction rule: run_step.induct)
  case (st_open s fam ps rest)
  have "map task_id (map Waiting ps) = map pr_id ps" "concat (map task_log (map Waiting ps)) = []" by simp_all
  with st_open show ?case by (auto simp: phases_ok_def probes_accounted_def open_stage_def o_def list_all_iff add.assoc)
next
  case (st_task i s e c t evs d)
  let ?sid = "cx_scan_id ctx" and ?ts = "(rs_tasks s)[i := t]"
  have ids: "map task_id ?ts = map task_id (rs_tasks s)"
    using task_step_id [OF st_task(3)] st_task(1) by (simp add: map_update list_update_same_conv)
  note x = task_step_effect [OF st_task(2,3)]
  have "set (concat (map task_log ?ts)) \<subseteq> set (task_log t) \<union> set (concat (map task_log (rs_tasks s)))"
    using set_update_subset_insert [of "rs_tasks s" i t] by fastforce
  moreover have "accounted ?sid d y" if "accounted ?sid (rs_db s) y" for y
    using that x extends_findings_mono by (blast intro: accounted_mono)
  ultimately have "list_all (accounted ?sid d) (rs_ended s @ concat (map task_log ?ts))"
    using st_task.prems(2) x unfolding probes_accounted_def list_all_iff set_append by blast
  then show ?case using st_task.prems(2) ids by (simp add: probes_accounted_def)
next
  case (st_close s fam)
  then have "map fst (concat (map task_log (rs_tasks s))) = map task_id (rs_tasks s)" by (intro task_log_ended)
  with st_close show ?case by (simp add: probes_accounted_def close_stage_def)
next
  case (st_finish s e)
  let ?sid = "cx_scan_id ctx"
  have "accounted ?sid d' y" if "finish_scan e ?sid ''done'' (rs_db s) = Inr (u, d')" "accounted ?sid (rs_db s) y" for u d' y
    using that(2) finish_scan_findings [OF that(1)] by (auto intro: accounted_mono)
  with st_finish show ?case
    by (auto simp: probes_accounted_def run_finish_def list_all_iff split: sum.splits)
qed (simp add: probes_accounted_def)

lemma events_backed_step:
  assumes "run_step reg fws ctx s s'" and "events_backed s"
  shows "events_backed s'"
  using assms
proof (induction rule: run_step.induct)
  case (st_task i s e c t evs d)
  have "row_event ` set (findings (rs_db s)) \<subseteq> row_event ` set (findings d)" "set evs \<subseteq> row_event ` set (findings d)"
    using task_step_effect [OF st_task(2,3)] extends_findings_mono by blast+
  then show ?case using st_task.prems unfolding events_backed_def by simp (blast dest: subsetD)
next
  case (st_finish s e)
  have "findings d' = findings (rs_db s)" if "finish_scan e (cx_scan_id ctx) ''done'' (rs_db s) = Inr (u, d')" for u d'
    using finish_scan_findings [OF that] by simp
  then show ?case using st_finish.prems by (auto simp: events_backed_def run_finish_def split: sum.splits)
next
  case (st_publish s ev evs)
  then show ?case unfolding events_backed_def by simp blast
qed (auto simp: events_backed_def open_stage_def close_stage_def)

definition run_inv :: "registry \<Rightarrow> scan_context \<Rightarrow> db \<Rightarrow> run_state \<Rightarrow> bool" where
  "run_inv reg ctx d0 s \<longleftrightarrow>
     phases_ok s \<and> db_progress (cx_scan_id ctx) d0 s \<and> probes_accounted reg (cx_scan_id ctx) s \<and> events_backed s"

lemma run_inv_reachable:
  assumes "(run_step reg' fws ctx)\<^sup>*\<^sup>* s0 s" and "run_inv reg ctx d0 s0" and "db_ok d0"
    and "cx_scan_id ctx \<in> sc_id ` set (scans d0)"
  shows "run_inv reg ctx d0 s"
  using assms(1)
proof (induction rule: rtranclp_induct)
  case (step s s')
  then show ?case
    using assms(3,4) unfolding run_inv_def
    by (blast intro: phases_step db_progress_step probes_accounted_step events_backed_step)
qed (rule assms(2))

text \<open>A scan that begins: its row exists, and everything else in the database is as before.\<close>

lemma run_begin_state:
  assumes "run_begin e py_version hostname reg mode caps paths server ots sniff scan_id d = Inr (ctx, s0)"
    and "env_ok e" and "db_ok d" and "refs_ok d" and "\<And>i. scan_id = Some i \<Longrightarrow> i \<in> sc_id ` set (scans d)"
  shows "run_inv reg ctx (rs_db s0) s0" and "db_ok (rs_db s0)" and "refs_ok (rs_db s0)"
    and "cx_scan_id ctx \<in> sc_id ` set (scans (rs_db s0))"
    and "\<exists>ss. rs_db s0 = d\<lparr>scans := scans d @ ss\<rparr> \<and> (\<forall>x \<in> set ss. sc_id x = cx_scan_id ctx)"
proof -
  obtain i d1 where b: "cx_scan_id ctx = i" "rs_db s0 = d1"
      "(case scan_id of Some i \<Rightarrow> Inr (i, d)
        | None \<Rightarrow> (case scan_metadata py_version reg of
            (pv, tv) \<Rightarrow> create_scan e mode pv tv (fingerprint hostname) None d)) = Inr (i, d1)"
      "s0 = \<lparr>rs_db = d1, rs_todo = by_family (registry_all reg), rs_stage = None, rs_tasks = [], rs_ended = [],
             rs_background = [], rs_published = [], rs_result = None\<rparr>"
    using assms(1) by (auto simp: run_begin_def split: sum.splits prod.splits)
  show "run_inv reg ctx (rs_db s0) s0"
    by (auto simp: b run_inv_def phases_ok_def db_progress_def probes_accounted_def events_backed_def
        mset_map by_family_mset map_concat [symmetric])
  have "db_ok d1 \<and> refs_ok d1 \<and> i \<in> sc_id ` set (scans d1) \<and>
      (\<exists>ss. d1 = d\<lparr>scans := scans d @ ss\<rparr> \<and> (\<forall>x \<in> set ss. sc_id x = i))"
  proof (cases scan_id)
    case (Some j)
    then show ?thesis using b(3) assms(3-5) by (auto intro!: exI [of _ "[]"])
  next
    case None
    define mk where "mk = new_running_scan e mode (fst (scan_metadata py_version reg)) (snd (scan_metadata py_version reg))
      (fingerprint hostname) None"
    have id: "sc_id (mk k) = k" "sc_host_id (mk k) = None" for k by (simp_all add: mk_def new_running_scan_def)
    have i: "insert_scan e mk d = Inr (i, d1)"
      using b(3) None by (simp add: mk_def create_scan_def split: prod.splits)
    then show ?thesis
      using insert_scan_ok [OF i assms(2) id(1) assms(3)] insert_scan_refs [OF i assms(2) id(1) assms(4)]
        insert_scan_cases(2) [OF i assms(2) id(1)] id by (auto simp: add_row_def)
  qed
  then show "db_ok (rs_db s0)" "refs_ok (rs_db s0)" "cx_scan_id ctx \<in> sc_id ` set (scans (rs_db s0))"
    "\<exists>ss. rs_db s0 = d\<lparr>scans := scans d @ ss\<rparr> \<and> (\<forall>x \<in> set ss. sc_id x = cx_scan_id ctx)"
    by (simp_all add: b(1,2))
qed

section \<open>Progress\<close>

lemma task_can_step:
  assumes "\<not> task_ended t"
  shows "\<exists>c x. task_step e reg fws ctx c t d = Some x"
proof (cases t)
  case (Waiting p)
  then show ?thesis by (intro exI [of _ Go]) (simp add: task_step_def Let_def)
next
  case (Applying p)
  then show ?thesis by (intro exI [of _ Expire]) (simp add: task_step_def applies_end_def Let_def)
next
  case (Running p s)
  then show ?thesis by (intro exI [of _ Expire]) (simp add: task_step_def run_end_def Let_def)
qed (use assms in \<open>simp add: task_ended_def\<close>)

lemma run_progress:
  assumes "rs_result s = None \<or> rs_background s \<noteq> []"
  shows "\<exists>s'. run_step reg fws ctx s s'"
proof (cases "rs_background s")
  case (Cons ev evs)
  then show ?thesis using st_publish by blast
next
  case Nil
  with assms have r: "rs_result s = None" by simp
  show ?thesis
  proof (cases "rs_stage s")
    case None
    then show ?thesis
      using r st_open [OF None] st_finish [OF None _ r sqlite_env_ok] by (cases "rs_todo s") (auto, blast)
  next
    case (Some fam)
    show ?thesis
    proof (cases "list_all task_ended (rs_tasks s)")
      case True
      then show ?thesis using st_close [OF Some] by blast
    next
      case False
      then obtain i where i: "i < length (rs_tasks s)" "\<not> task_ended (rs_tasks s ! i)"
        by (auto simp: list_all_length)
      then obtain c t evs d where "task_step sqlite_env reg fws ctx c (rs_tasks s ! i) (rs_db s) = Some (t, evs, d)"
        using task_can_step by (metis prod_cases3)
      then show ?thesis using st_task [OF i(1) sqlite_env_ok] by blast
    qed
  qed
qed

lemma run_terminal: "\<exists>s. (run_step reg fws ctx)\<^sup>*\<^sup>* s0 s \<and> (\<nexists>s'. run_step reg fws ctx s s')"
proof (induction "run_size ctx s0" arbitrary: s0 rule: less_induct)
  case less
  show ?case
  proof (cases "\<exists>s'. run_step reg fws ctx s0 s'")
    case True
    then obtain s' where s': "run_step reg fws ctx s0 s'" by blast
    from less [OF run_step_decreases [OF s']] obtain s where
      "(run_step reg fws ctx)\<^sup>*\<^sup>* s' s" "\<nexists>s''. run_step reg fws ctx s s''" by blast
    with s' show ?thesis by (meson converse_rtranclp_into_rtranclp)
  qed blast
qed

lemma finish_scan_done:
  assumes "finish_scan e sid st d = Inr ((), d')" and "db_ok d"
  shows "\<exists>r. get_scan sid d' = Some r \<and> sc_status r = st \<and> sc_finished_at r \<noteq> None"
    and "j \<noteq> sid \<Longrightarrow> get_scan j d' = get_scan j d"
    and "db_ok d'" and "refs_ok d \<Longrightarrow> refs_ok d'" and "hosts d' = hosts d" and "baselines d' = baselines d"
proof -
  define f where "f = (\<lambda>s. s\<lparr>sc_status := st, sc_finished_at := Some (env_now e)\<rparr> :: scan)"
  obtain r where r: "get_row sc_id sid (scans d) = Some r" and d': "d' = d\<lparr>scans := update_where (\<lambda>s. sc_id s = sid) f (scans d)\<rparr>"
    using assms(1) by (auto simp: finish_scan_def f_def split: option.splits)
  have keys: "keys_ok sc_id (scans d)" using assms(2) by (rule db_okD)
  have get: "get_scan j d' = map_option (\<lambda>s. if sc_id s = sid then f s else s) (get_row sc_id j (scans d))" for j
    unfolding get_scan_def d' using scan_t.get_upd [OF keys, of "\<lambda>s. sc_id s = sid" f j] by (simp add: f_def)
  have "sc_id r = sid" using r scan_t.get_iff [OF keys] by blast
  then show "\<exists>r. get_scan sid d' = Some r \<and> sc_status r = st \<and> sc_finished_at r \<noteq> None"
    using get [of sid] r by (simp add: f_def)
  have "sc_id s = j" if "get_row sc_id j (scans d) = Some s" for s
    using that scan_t.get_iff [OF keys] by blast
  then show "j \<noteq> sid \<Longrightarrow> get_scan j d' = get_scan j d"
    unfolding get by (cases "get_row sc_id j (scans d)") (simp_all add: get_scan_def)
  show "db_ok d'" "refs_ok d \<Longrightarrow> refs_ok d'" "hosts d' = hosts d" "baselines d' = baselines d"
    using update_scan_ok [of f d "\<lambda>s. sc_id s = sid"] assms(2) by (simp_all add: d' f_def)
qed

section \<open>Properties\<close>

text \<open>The state of a running scan, relative to the database it started from.\<close>

lemma run_state_spec:
  assumes "run_begin e py_version hostname reg mode caps paths server ots sniff scan_id d = Inr (ctx, s0)"
    and "env_ok e" and "db_ok d" and "refs_ok d" and "\<And>i. scan_id = Some i \<Longrightarrow> i \<in> sc_id ` set (scans d)"
    and "(run_step reg fws ctx)\<^sup>*\<^sup>* s0 s"
  obtains d1 where "run_inv reg ctx (rs_db s0) s" "extends (cx_scan_id ctx) (rs_db s0) d1" "db_ok d1" "refs_ok d1"
    "rs_result s = None \<and> rs_db s = d1 \<or>
     rs_result s = Some (Inr (cx_scan_id ctx)) \<and> (\<exists>e. finish_scan e (cx_scan_id ctx) ''done'' d1 = Inr ((), rs_db s))"
proof -
  note b = run_begin_state [OF assms(1-5)]
  have inv: "run_inv reg ctx (rs_db s0) s"
    by (rule run_inv_reachable [OF assms(6) b(1,2,4)])
  then obtain d1 where d1: "extends (cx_scan_id ctx) (rs_db s0) d1"
      "rs_result s = None \<and> rs_db s = d1 \<or>
       rs_result s = Some (Inr (cx_scan_id ctx)) \<and> (\<exists>e. finish_scan e (cx_scan_id ctx) ''done'' d1 = Inr ((), rs_db s))"
    unfolding run_inv_def db_progress_def by blast
  show thesis
    using that [OF inv d1(1) extends_db_ok [OF d1(1) b(2)] extends_refs_ok [OF d1(1) b(3,4)] d1(2)] .
qed

text \<open>C4. A scan keeps to itself. Whatever its probes emit, in whatever order they are interleaved, time
  out or crash, at every moment the database invariant and the references hold, every other scan and
  its findings, the hosts and the baselines are as they were before the scan, and every finding that was
  announced to the watchers is a stored row.\<close>

theorem scan_isolated:
  assumes "run_begin e py_version hostname reg mode caps paths server ots sniff scan_id d = Inr (ctx, s0)"
    and "env_ok e" and "db_ok d" and "refs_ok d" and "\<And>i. scan_id = Some i \<Longrightarrow> i \<in> sc_id ` set (scans d)"
    and "(run_step reg fws ctx)\<^sup>*\<^sup>* s0 s"
  shows "db_ok (rs_db s) \<and> refs_ok (rs_db s) \<and> hosts (rs_db s) = hosts d \<and> baselines (rs_db s) = baselines d \<and>
    (\<forall>j. j \<noteq> cx_scan_id ctx \<longrightarrow>
       list_findings j (rs_db s) = list_findings j d \<and> get_scan j (rs_db s) = get_scan j d) \<and>
    (\<forall>i pid t a c v. FindingDiscovered i pid t a c v \<in> set (rs_published s) \<longrightarrow>
       (\<exists>r \<in> set (findings (rs_db s)). fr_scan_id r = i \<and> fr_probe_id r = pid \<and> fr_title r = t \<and>
          fr_algorithm r = a \<and> fr_classification r = c \<and> fr_severity r = v))"
proof -
  let ?sid = "cx_scan_id ctx"
  obtain d1 where inv: "run_inv reg ctx (rs_db s0) s" and x: "extends ?sid (rs_db s0) d1" and ok: "db_ok d1" "refs_ok d1"
      and res: "rs_result s = None \<and> rs_db s = d1 \<or>
        rs_result s = Some (Inr ?sid) \<and> (\<exists>e. finish_scan e ?sid ''done'' d1 = Inr ((), rs_db s))"
    using run_state_spec [OF assms] by metis
  obtain ss where ss: "rs_db s0 = d\<lparr>scans := scans d @ ss\<rparr>" "\<forall>x \<in> set ss. sc_id x = ?sid"
    using run_begin_state(5) [OF assms(1-5)] by blast
  have other: "list_findings j d1 = list_findings j d" "get_scan j d1 = get_scan j d" if "j \<noteq> ?sid" for j
  proof -
    show "list_findings j d1 = list_findings j d"
      using extends_list_findings [OF x that] ss(1) by (simp add: list_findings_def)
    have "find (\<lambda>r. sc_id r = j) (xs @ ss) = find (\<lambda>r. sc_id r = j) xs" for xs
      using ss(2) that by (induction xs) (auto simp: find_None_iff)
    then show "get_scan j d1 = get_scan j d" using extends_same [OF x] ss(1) by (simp add: get_scan_def get_row_def)
  qed
  have "events_backed s" using inv by (simp add: run_inv_def)
  then have "\<forall>i pid t a c v. FindingDiscovered i pid t a c v \<in> set (rs_published s) \<longrightarrow>
       (\<exists>r \<in> set (findings (rs_db s)). fr_scan_id r = i \<and> fr_probe_id r = pid \<and> fr_title r = t \<and>
          fr_algorithm r = a \<and> fr_classification r = c \<and> fr_severity r = v)"
    by (fastforce simp: events_backed_def row_event_def)
  moreover have "db_ok (rs_db s) \<and> refs_ok (rs_db s) \<and> hosts (rs_db s) = hosts d1 \<and> baselines (rs_db s) = baselines d1 \<and>
      findings (rs_db s) = findings d1 \<and> (\<forall>j. j \<noteq> ?sid \<longrightarrow> get_scan j (rs_db s) = get_scan j d1)"
    using res ok finish_scan_done(2-6) [of _ ?sid "''done''" d1 "rs_db s"] finish_scan_findings by blast
  ultimately show ?thesis
    using other extends_same [OF x] ss(1) by (simp add: list_findings_def)
qed


text \<open>C3. A scan always ends well. However its probes fail, a scan that can go no further has returned
  its id, its row is marked done with an end time, all events were published, and each registered probe
  has ended exactly once: the failed ones with an error row of their own message, the skipped ones with a
  row that says so.\<close>

theorem scan_completes:
  assumes "run_begin e py_version hostname reg mode caps paths server ots sniff scan_id d = Inr (ctx, s0)"
    and "env_ok e" and "db_ok d" and "refs_ok d" and "\<And>i. scan_id = Some i \<Longrightarrow> i \<in> sc_id ` set (scans d)"
    and "(run_step reg fws ctx)\<^sup>*\<^sup>* s0 s" and "\<nexists>s'. run_step reg fws ctx s s'"
  shows "rs_result s = Some (Inr (cx_scan_id ctx)) \<and>
    (\<exists>r. get_scan (cx_scan_id ctx) (rs_db s) = Some r \<and> sc_status r = ''done'' \<and> sc_finished_at r \<noteq> None) \<and>
    rs_background s = [] \<and> mset (map fst (rs_ended s)) = mset (map pr_id (registry_all reg)) \<and>
    list_all (accounted (cx_scan_id ctx) (rs_db s)) (rs_ended s)"
proof -
  obtain d1 where inv: "run_inv reg ctx (rs_db s0) s" and ok: "db_ok d1"
      and res: "rs_result s = None \<and> rs_db s = d1 \<or>
        rs_result s = Some (Inr (cx_scan_id ctx)) \<and> (\<exists>e. finish_scan e (cx_scan_id ctx) ''done'' d1 = Inr ((), rs_db s))"
    using run_state_spec [OF assms(1-6)] by metis
  have "\<not> (rs_result s = None \<or> rs_background s \<noteq> [])" using run_progress assms(7) by blast
  then have stop: "rs_result s \<noteq> None" "rs_background s = []" by simp_all
  then obtain e' where r: "rs_result s = Some (Inr (cx_scan_id ctx))" "finish_scan e' (cx_scan_id ctx) ''done'' d1 = Inr ((), rs_db s)"
    using res by auto
  have "rs_tasks s = []" "rs_todo s = []" using inv r(1) by (auto simp: run_inv_def phases_ok_def)
  then show ?thesis
    using inv r stop(2) finish_scan_done(1) [OF r(2) ok] by (simp add: run_inv_def probes_accounted_def)
qed

definition crashing_probe :: probe where
  "crashing_probe = \<lparr>pr_id = ''fs.demo'', pr_family = FILESYSTEM, pr_requires = {}, pr_version = ''0.1.0'', pr_roots = None,
     pr_host = None, pr_applies = (\<lambda>_ _ _. Answer True), pr_run = (\<lambda>_ _ _. Emit rsa_finding (\<lambda>_. Raise (Exn ''boom'')))\<rparr>"

lemma crashing_begin:
  "\<exists>ctx s0. run_begin sqlite_env ''3.12'' ''h'' [(''fs.demo'', crashing_probe)] ''user'' {} None None None None None empty_db = Inr (ctx, s0)"
  by (simp add: run_begin_def scan_metadata_def create_scan_def insert_scan_def new_running_scan_def uuid_taken_def
      empty_db_def Let_def)

theorem scan_isolated_witness:
  "\<exists>ctx s0. run_begin sqlite_env ''3.12'' ''h'' [(''fs.demo'', crashing_probe)] ''user'' {} None None None None None empty_db = Inr (ctx, s0) \<and>
     db_ok (rs_db s0)"
proof -
  from crashing_begin obtain ctx s0 where
    b: "run_begin sqlite_env ''3.12'' ''h'' [(''fs.demo'', crashing_probe)] ''user'' {} None None None None None empty_db = Inr (ctx, s0)"
    by blast
  have "db_ok (rs_db s0)"
    using scan_isolated [OF b sqlite_env_ok db_ok_empty refs_ok_empty _ rtranclp.rtrancl_refl] by simp
  with b show ?thesis by blast
qed

theorem scan_completes_witness:
  "\<exists>ctx s0 s. run_begin sqlite_env ''3.12'' ''h'' [(''fs.demo'', crashing_probe)] ''user'' {} None None None None None empty_db = Inr (ctx, s0) \<and>
     (run_step [(''fs.demo'', crashing_probe)] [cnsa_sample] ctx)\<^sup>*\<^sup>* s0 s \<and> rs_result s = Some (Inr (cx_scan_id ctx)) \<and>
     map fst (rs_ended s) = [''fs.demo'']"
proof -
  from crashing_begin obtain ctx s0 where
    b: "run_begin sqlite_env ''3.12'' ''h'' [(''fs.demo'', crashing_probe)] ''user'' {} None None None None None empty_db = Inr (ctx, s0)"
    by blast
  obtain s where s: "(run_step [(''fs.demo'', crashing_probe)] [cnsa_sample] ctx)\<^sup>*\<^sup>* s0 s"
      "\<nexists>s'. run_step [(''fs.demo'', crashing_probe)] [cnsa_sample] ctx s s'"
    using run_terminal by blast
  have "rs_result s = Some (Inr (cx_scan_id ctx)) \<and> mset (map fst (rs_ended s)) = mset [''fs.demo'']"
    using scan_completes [OF b sqlite_env_ok db_ok_empty refs_ok_empty _ s]
    by (simp add: registry_all_def crashing_probe_def)
  then show ?thesis using b s(1) by (metis mset_single_iff mset.simps(1,2) add_mset_eq_single)
qed

end
