(* ===== verification/Daemon.thy ===== *)
theory Daemon
  imports Runner_Laws Fleet_Rollup
begin

text \<open>
  \<^verbatim>\<open>daemon/app.py\<close>: the guard in front of every route, the login sessions, and the routes that start
  scans, set baselines, compare scans and export them. A request is its method, path, headers (by
  lower-case name) and cookies; a response is an HTTP status or a result, an exception that no handler
  catches being status 500. The renderers are an argument of the export, as is whether the temporary
  file could be created. IP address syntax and name resolution (\<^verbatim>\<open>ipaddress\<close>, \<^verbatim>\<open>getaddrinfo\<close>) are arguments.
\<close>

section \<open>The guard\<close>

record request =
  rq_method :: string
  rq_path :: string
  rq_headers :: "string dict"
  rq_cookies :: "string dict"

definition header_or :: "request \<Rightarrow> string \<Rightarrow> string \<Rightarrow> string" where
  "header_or rq name dflt = (case dict_get (rq_headers rq) name of None \<Rightarrow> dflt | Some v \<Rightarrow> v)"

definition SESSION_COOKIE :: string where
  "SESSION_COOKIE = ''pqcscan_session''"

definition LOOPBACK_HOSTS :: "string set" where
  "LOOPBACK_HOSTS = {''localhost'', ''127.0.0.1'', ''::1'', ''[::1]''}"

definition FLEET_BEARER_PATHS :: "string list" where
  "FLEET_BEARER_PATHS = [''/api/ingest'', ''/api/agents/enroll'']"

text \<open>\<open>parse_ip\<close> says whether an address literal is loopback, \<^const>\<open>None\<close> when the text is not one;
  \<open>resolve\<close> gives the addresses of a name.\<close>

definition is_loopback :: "(string \<Rightarrow> bool option) \<Rightarrow> (string \<Rightarrow> string list option) \<Rightarrow> string \<Rightarrow> bool" where
  "is_loopback parse_ip resolve bind_addr =
     (if bind_addr = [] then False
      else
        (case parse_ip (rstrip_set (\<lambda>c. c \<in> {CHR ''['', CHR '']''}) (lstrip_set (\<lambda>c. c \<in> {CHR ''['', CHR '']''}) bind_addr)) of
           Some b \<Rightarrow> b
         | None \<Rightarrow>
             (case resolve bind_addr of
                None \<Rightarrow> False
              | Some infos \<Rightarrow> infos \<noteq> [] \<and> list_all (\<lambda>a. parse_ip a = Some True) infos)))"

definition host_only :: "string \<Rightarrow> string" where
  "host_only netloc0 =
     (let netloc = py_lower netloc0 in
      if startswith netloc ''['' then fst (partition_char (CHR '']'') netloc) @ '']''
      else fst (partition_char (CHR '':'') netloc))"

text \<open>\<^verbatim>\<open>urlsplit(url).netloc\<close>: leading controls and blanks go, tabs and line breaks go anywhere, a scheme
  is a letter and scheme characters before the first colon. An unpaired bracket raises; what stands
  between paired ones is checked by \<open>bracket_ok\<close> (\<^verbatim>\<open>ipaddress\<close>).\<close>

definition scheme_char :: "char \<Rightarrow> bool" where
  "scheme_char c \<longleftrightarrow> is_upper c \<or> is_lower c \<or> is_digit c \<or> c \<in> {CHR ''+'', CHR ''-'', CHR ''.''}"

definition after_scheme :: "string \<Rightarrow> string" where
  "after_scheme url =
     (let s = takeWhile (\<lambda>c. c \<noteq> CHR '':'') url in
      if s \<noteq> [] \<and> length s < length url \<and> (is_upper (hd s) \<or> is_lower (hd s)) \<and> list_all scheme_char s
      then drop (length s + 1) url else url)"

definition url_netloc :: "(string \<Rightarrow> bool) \<Rightarrow> string \<Rightarrow> string option" where
  "url_netloc bracket_ok raw =
     (let url = filter (\<lambda>c. c \<notin> {CHR 0x09, CHR 0x0D, newline}) (dropWhile (\<lambda>c. char_code c \<le> 32) raw);
          rest = after_scheme url in
      if startswith rest ''//'' then
        (let netloc = takeWhile (\<lambda>c. c \<notin> {CHR ''/'', CHR ''?'', CHR ''#''}) (drop 2 rest);
             l = (CHR ''['' \<in> set netloc); r = (CHR '']'' \<in> set netloc)
         in if l \<noteq> r \<or> l \<and> \<not> bracket_ok netloc then None else Some netloc)
      else Some [])"

definition origin_matches_host :: "(string \<Rightarrow> bool) \<Rightarrow> request \<Rightarrow> bool option" where
  "origin_matches_host bracket_ok rq =
     (case dict_get (rq_headers rq) ''origin'' of
        None \<Rightarrow> Some True
      | Some origin \<Rightarrow>
          if origin = [] then Some True
          else if origin = ''null'' then Some False
          else map_option (\<lambda>n. py_lower n = py_lower (header_or rq ''host'' [])) (url_netloc bracket_ok origin))"

definition host_allowed :: "string set \<Rightarrow> request \<Rightarrow> bool" where
  "host_allowed allowed rq \<longleftrightarrow> host_only (header_or rq ''host'' []) \<in> allowed"

record daemon_config =
  dc_token :: "string option"
  dc_hosts :: "string set"

definition daemon_config_of :: "string option \<Rightarrow> string option \<Rightarrow> string list \<Rightarrow> daemon_config" where
  "daemon_config_of token env_token allowed =
     \<lparr>dc_token = (case token of Some t \<Rightarrow> Some t
        | None \<Rightarrow> (case env_token of None \<Rightarrow> None | Some t \<Rightarrow> if t = [] then None else Some t)),
      dc_hosts = LOOPBACK_HOSTS \<union> host_only ` {h \<in> set allowed. h \<noteq> []}\<rparr>"

definition token_set :: "daemon_config \<Rightarrow> bool" where
  "token_set cf \<longleftrightarrow> dc_token cf \<notin> {None, Some []}"

definition open_path :: "string \<Rightarrow> bool" where
  "open_path path \<longleftrightarrow> path \<in> {''/api/health'', ''/login''} \<or> path \<in> set FLEET_BEARER_PATHS"

text \<open>The credential of a request: a bearer token, else the session cookie.\<close>

definition bearer :: "request \<Rightarrow> string option" where
  "bearer rq =
     (let auth = header_or rq ''authorization'' [] in
      if startswith (py_lower auth) ''bearer '' then Some (py_strip (drop 7 auth)) else None)"

definition session_id :: "request \<Rightarrow> string" where
  "session_id rq = (case dict_get (rq_cookies rq) SESSION_COOKIE of None \<Rightarrow> [] | Some v \<Rightarrow> v)"

definition authorised :: "daemon_config \<Rightarrow> string set \<Rightarrow> request \<Rightarrow> bool" where
  "authorised cf sessions rq =
     (case bearer rq of Some tok \<Rightarrow> dc_token cf = Some tok | None \<Rightarrow> session_id rq \<in> sessions)"

datatype verdict = Call_Next | Status nat | Redirect string

definition guard :: "(string \<Rightarrow> bool) \<Rightarrow> daemon_config \<Rightarrow> string set \<Rightarrow> request \<Rightarrow> verdict" where
  "guard bracket_ok cf sessions rq =
     (if \<not> host_allowed (dc_hosts cf) rq then Status 400
      else
        (let checked = rq_method rq \<notin> {''GET'', ''HEAD'', ''OPTIONS''} in
         if checked \<and> origin_matches_host bracket_ok rq = None then Status 500
         else if checked \<and> origin_matches_host bracket_ok rq = Some False then Status 403
         else if token_set cf \<and> \<not> open_path (rq_path rq) \<and> \<not> authorised cf sessions rq then
           (if contains (header_or rq ''accept'' []) ''text/html'' then Redirect ''/login'' else Status 401)
         else Call_Next))"

text \<open>\<^verbatim>\<open>POST /login\<close>: the new session id is random, an argument here.\<close>

definition login :: "daemon_config \<Rightarrow> string \<Rightarrow> string \<Rightarrow> string set \<Rightarrow> (nat + string) \<times> string set" where
  "login cf token_form sid sessions =
     (if \<not> token_set cf \<or> dc_token cf \<noteq> Some token_form then (Inl 401, sessions)
      else (Inr sid, insert sid sessions))"

section \<open>Scans and baselines\<close>

definition post_scan ::
  "env \<Rightarrow> string \<Rightarrow> string \<Rightarrow> registry \<Rightarrow> string \<Rightarrow> capability set \<Rightarrow> string option \<Rightarrow> string list option \<Rightarrow> string list option \<Rightarrow>
   db \<Rightarrow> (nat + scan_context \<times> run_state) \<times> db" where
  "post_scan e py_version hostname reg mode caps target paths ots d =
     (case parse_scan_inputs target paths ots of (scan_paths, server, ot_targets) \<Rightarrow>
        (case runner_begin_scan e py_version hostname reg mode d of
           Inl _ \<Rightarrow> (Inl 500, d)
         | Inr (None, d') \<Rightarrow> (Inl 409, d')
         | Inr (Some i, d') \<Rightarrow>
             (case run_begin e py_version hostname reg mode caps (Some scan_paths) server (Some ot_targets) None (Some i) d' of
                Inl _ \<Rightarrow> (Inl 500, d')
              | Inr started \<Rightarrow> (Inr started, d'))))"

text \<open>A scan id in a JSON body: Python's \<^verbatim>\<open>isinstance(x, int)\<close> holds of booleans too. A negative id names
  no scan.\<close>

definition json_id :: "json option \<Rightarrow> int option" where
  "json_id v = (case v of Some (JInt i) \<Rightarrow> Some i | Some (JBool b) \<Rightarrow> Some (if b then 1 else 0) | _ \<Rightarrow> None)"

definition post_baseline :: "env \<Rightarrow> pydict \<Rightarrow> string option \<Rightarrow> db \<Rightarrow> (nat + nat) \<times> db" where
  "post_baseline e body notes d =
     (case (json_id (dict_get body ''scan_id''), dict_get body ''label'') of
        (Some i, Some (JStr lbl)) \<Rightarrow>
          if lbl = [] then (Inl 400, d)
          else if i < 0 then (Inl 404, d)
          else (case create_baseline e (nat i) lbl notes d of Inl _ \<Rightarrow> (Inl 404, d) | Inr (bid, d') \<Rightarrow> (Inr bid, d'))
      | _ \<Rightarrow> (Inl 400, d))"

definition diff_scan :: "nat \<Rightarrow> nat \<Rightarrow> db \<Rightarrow> nat + finding_diff" where
  "diff_scan sid base d =
     (if get_scan sid d = None \<or> get_scan base d = None then Inl 404 else Inr (diff_findings sid base False d))"

section \<open>Exports\<close>

definition MAX_CONCURRENT_RENDERS :: nat where
  "MAX_CONCURRENT_RENDERS = 2"

definition is_fleet_ref :: "string \<Rightarrow> bool" where
  "is_fleet_ref ref \<longleftrightarrow> py_lower (py_strip ref) = ''fleet''"

text \<open>Suffix, content type and base name per format.\<close>

definition FORMATS :: "(string \<times> string \<times> string) dict" where
  "FORMATS =
     [(''cbom'', ''.cdx.json'', ''application/vnd.cyclonedx+json'', ''cbom''),
      (''sarif'', ''.sarif'', ''application/sarif+json'', ''findings''),
      (''pdf-tech'', ''.pdf'', ''application/pdf'', ''report-technical''),
      (''pdf-exec'', ''.pdf'', ''application/pdf'', ''report-executive''),
      (''xlsx-bukukerja'', ''.xlsx'', ''application/vnd.openxmlformats-officedocument.spreadsheetml.sheet'', ''report-bukukerja''),
      (''xlsx-generic'', ''.xlsx'', ''application/vnd.openxmlformats-officedocument.spreadsheetml.sheet'', ''report-findings'')]"

record app_state =
  as_db :: db
  as_slots :: nat

definition acquire_render_slot :: "app_state \<Rightarrow> app_state option" where
  "acquire_render_slot st = (if as_slots st = 0 then None else Some (st\<lparr>as_slots := as_slots st - 1\<rparr>))"

definition release_slot :: "app_state \<Rightarrow> app_state" where
  "release_slot st = st\<lparr>as_slots := as_slots st + 1\<rparr>"

record export_file =
  ef_content :: "byte list"
  ef_type :: string
  ef_name :: string

definition export_name :: "bool \<Rightarrow> nat \<Rightarrow> string \<Rightarrow> string \<Rightarrow> string \<Rightarrow> string \<Rightarrow> string" where
  "export_name is_fleet sid fmt lang base_name sfx =
     ''pqcscan-'' @ (if is_fleet then ''fleet'' else ''scan'' @ show_nat sid) @ ''-'' @ base_name @
     (if fmt = ''xlsx-bukukerja'' \<and> lang = ''en'' then ''-en'' else []) @ sfx"

text \<open>The \<^verbatim>\<open>try ... finally\<close> of the export: the rollup of a fleet export, the rendering, and the cleanup
  that runs whatever happened.\<close>

definition export_body ::
  "env \<Rightarrow> (string \<Rightarrow> string \<Rightarrow> nat \<Rightarrow> db \<Rightarrow> nat + byte list) \<Rightarrow> bool \<Rightarrow> nat \<Rightarrow> string \<Rightarrow> string \<Rightarrow> app_state \<Rightarrow>
   (nat + nat \<times> byte list) \<times> app_state" where
  "export_body e render is_fleet sid fmt lang st =
     (if is_fleet then
        (case materialize_fleet_rollup e (as_db st) of
           Inl _ \<Rightarrow> (Inl 500, release_slot st)
         | Inr (None, d) \<Rightarrow> (Inl 404, release_slot (st\<lparr>as_db := d\<rparr>))
         | Inr (Some rid, d) \<Rightarrow>
             (map_sum id (Pair rid) (render fmt lang rid d), release_slot (st\<lparr>as_db := delete_scan rid d\<rparr>)))
      else (map_sum id (Pair sid) (render fmt lang sid (as_db st)), release_slot st))"

definition export_scan ::
  "env \<Rightarrow> bool \<Rightarrow> (string \<Rightarrow> string \<Rightarrow> nat \<Rightarrow> db \<Rightarrow> nat + byte list) \<Rightarrow> string \<Rightarrow> string \<Rightarrow> string \<Rightarrow> app_state \<Rightarrow>
   (nat + export_file) \<times> app_state" where
  "export_scan e tmp_ok render ref fmt lang st =
     (let is_fleet = is_fleet_ref ref; sid = (if is_fleet then 0 else nat_of_digits ref) in
      if \<not> is_fleet \<and> \<not> all_digits ref then (Inl 422, st)
      else if \<not> is_fleet \<and> get_scan sid (as_db st) = None then (Inl 404, st)
      else
        (case dict_get FORMATS fmt of
           None \<Rightarrow> (Inl 400, st)
         | Some (sfx, content_type, base_name) \<Rightarrow>
             (case acquire_render_slot st of
                None \<Rightarrow> (Inl 429, st)
              | Some st1 \<Rightarrow>
                  if \<not> tmp_ok then (Inl 500, st1)
                  else
                    (case export_body e render is_fleet sid fmt lang st1 of
                       (Inl status, st2) \<Rightarrow> (Inl status, st2)
                     | (Inr (rid, content), st2) \<Rightarrow>
                         (Inr \<lparr>ef_content = content, ef_type = content_type,
                               ef_name = export_name is_fleet rid fmt lang base_name sfx\<rparr>, st2)))))"

section \<open>Sessions\<close>

text \<open>The sessions of a running daemon, with the successful logins so far: what was presented, and the
  session id that was handed out.\<close>

inductive sessions_after :: "daemon_config \<Rightarrow> string set \<Rightarrow> (string \<times> string) list \<Rightarrow> bool" for cf :: daemon_config where
  started: "sessions_after cf {} []"
| refused: "sessions_after cf ss logins \<Longrightarrow> login cf form sid ss = (Inl status, ss') \<Longrightarrow> sessions_after cf ss' logins"
| accepted: "sessions_after cf ss logins \<Longrightarrow> login cf form sid ss = (Inr out, ss') \<Longrightarrow> sessions_after cf ss' ((form, out) # logins)"

lemma sessions_after_token:
  "sessions_after cf ss logins \<Longrightarrow> sid \<in> ss \<Longrightarrow> \<exists>form. (form, sid) \<in> set logins \<and> dc_token cf = Some form"
  by (induction rule: sessions_after.induct) (auto simp: login_def split: if_splits)

section \<open>Properties\<close>

text \<open>C5. What reaches a route. A request is passed on only if its Host header names the daemon (no rebound
  domain) and, when it may change something, it has no foreign Origin; with a token configured, a
  request for anything but the health check, the login and the two agent routes carries the token itself
  or a session id that an earlier login handed out in exchange for that token.\<close>

theorem guard_sound:
  assumes "sessions_after cf sessions logins" and "guard bracket_ok cf sessions rq = Call_Next"
  shows "host_only (header_or rq ''host'' []) \<in> dc_hosts cf \<and>
    (rq_method rq \<in> {''GET'', ''HEAD'', ''OPTIONS''} \<or> dict_get (rq_headers rq) ''origin'' \<in> {None, Some []} \<or>
     (\<exists>origin netloc. dict_get (rq_headers rq) ''origin'' = Some origin \<and> url_netloc bracket_ok origin = Some netloc \<and>
        py_lower netloc = py_lower (header_or rq ''host'' []))) \<and>
    (token_set cf \<and> \<not> open_path (rq_path rq) \<longrightarrow>
       (\<exists>tok. dc_token cf = Some tok \<and> (bearer rq = Some tok \<or> bearer rq = None \<and> (tok, session_id rq) \<in> set logins)))"
proof -
  have host: "host_allowed (dc_hosts cf) rq"
    using assms(2) by (auto simp: guard_def split: if_splits)
  have origin: "rq_method rq \<in> {''GET'', ''HEAD'', ''OPTIONS''} \<or> origin_matches_host bracket_ok rq = Some True"
    using assms(2) host by (cases "origin_matches_host bracket_ok rq") (auto simp: guard_def Let_def split: if_splits)
  have auth: "token_set cf \<Longrightarrow> \<not> open_path (rq_path rq) \<Longrightarrow> authorised cf sessions rq"
    using assms(2) host by (auto simp: guard_def Let_def split: if_splits)
  have "\<exists>tok. dc_token cf = Some tok \<and> (bearer rq = Some tok \<or> bearer rq = None \<and> (tok, session_id rq) \<in> set logins)"
    if "token_set cf" "\<not> open_path (rq_path rq)"
    using auth [OF that] sessions_after_token [OF assms(1), of "session_id rq"]
    by (cases "bearer rq") (auto simp: authorised_def)
  moreover have "dict_get (rq_headers rq) ''origin'' \<in> {None, Some []} \<or>
     (\<exists>origin netloc. dict_get (rq_headers rq) ''origin'' = Some origin \<and> url_netloc bracket_ok origin = Some netloc \<and>
        py_lower netloc = py_lower (header_or rq ''host'' []))" if "origin_matches_host bracket_ok rq = Some True"
    using that by (auto simp: origin_matches_host_def split: option.splits if_splits)
  ultimately show ?thesis using host origin unfolding host_allowed_def by blast
qed

text \<open>A scan is started only when none is running: an accepted request leaves exactly the new scan
  running, so that the next request is refused and changes nothing, and the scan is run under the id
  the client was given.\<close>

theorem post_scan_exclusive:
  assumes "store_inv d" and "env_ok e"
    and "post_scan e py_version hostname reg mode caps target paths ots d = (Inr (ctx, s0), d')"
  shows "store_inv d' \<and> \<not> has_running_scan d \<and> rs_db s0 = d' \<and>
    (\<exists>r. get_scan (cx_scan_id ctx) d' = Some r \<and> running r) \<and>
    (\<forall>e' py_version' hostname' reg' mode' caps' target' paths' ots'.
       post_scan e' py_version' hostname' reg' mode' caps' target' paths' ots' d' = (Inl 409, d'))"
proof -
  obtain pv tv where m: "scan_metadata py_version reg = (pv, tv)" by force
  obtain i where b: "begin_scan_if_idle e mode pv tv (fingerprint hostname) None d = Inr (Some i, d')"
      "cx_scan_id ctx = i" "rs_db s0 = d'"
    using assms(3) by (auto simp: post_scan_def runner_begin_scan_def run_begin_def m
        split: prod.splits sum.splits option.splits)
  let ?mk = "new_running_scan e mode pv tv (fingerprint hostname) None"
  have idle: "\<not> has_running_scan d" and ins: "insert_scan e ?mk d = Inr (i, d')"
    using b(1) by (auto simp: begin_scan_if_idle_def has_running_scan_def split: if_splits sum.splits)
  have id: "sc_id (?mk k) = k" "running (?mk k)" for k by (simp_all add: new_running_scan_def running_def)
  note c = insert_scan_cases [OF ins assms(2) id(1)]
  have inv: "store_inv d'" by (rule begin_scan_inv [OF b(1) assms(2,1)])
  have row: "?mk i \<in> set (scans d')" using c(2) by (simp add: add_row_def)
  then have "get_scan i d' = Some (?mk i)"
    using scan_t.get_iff [OF db_okD(1) [OF store_invD(1) [OF inv]]] id by (simp add: get_scan_def)
  moreover have busy: "list_ex running (scans d')" using row id(2) by (auto simp: list_ex_iff)
  ultimately show ?thesis
    using inv idle b(2,3) id(2)
    by (simp add: post_scan_def runner_begin_scan_def begin_scan_if_idle_def split: prod.split)
qed

text \<open>C24. An export leaves no trace, provided the temporary file could be created: whatever the renderer
  does, the number of free render slots is what it was before, and so is the database, the temporary rollup
  of a fleet export included.\<close>

theorem export_restores:
  assumes "env_ok e" and "db_ok (as_db st)" and "refs_ok (as_db st)"
    and "export_scan e True render ref fmt lang st = (res, st')"
  shows "st' = st"
proof -
  have body: "snd (export_body e render is_fleet sid fmt lang (st\<lparr>as_slots := as_slots st - 1\<rparr>)) = st"
    if slots: "as_slots st \<noteq> 0" for is_fleet sid
  proof -
    have "release_slot (st\<lparr>as_slots := as_slots st - 1\<rparr>) = st" using slots by (simp add: release_slot_def)
    moreover have "d = as_db st" if "materialize_fleet_rollup e (as_db st) = Inr (None, d)" for d
      using that by (auto simp: materialize_fleet_rollup_def Let_def split: if_splits sum.splits)
    moreover have "delete_scan rid d = as_db st" if "materialize_fleet_rollup e (as_db st) = Inr (Some rid, d)" for rid d
      using rollup_deleted [OF assms(1-3) that] by simp
    ultimately show ?thesis by (auto simp: export_body_def split: sum.split option.split)
  qed
  then show ?thesis
    using assms(4) by (auto simp: export_scan_def acquire_render_slot_def Let_def
        split: if_splits option.splits prod.splits sum.splits) (metis snd_conv)+
qed

lemma digits_not_fleet:
  assumes "all_digits ref"
  shows "\<not> is_fleet_ref ref"
proof
  assume f: "is_fleet_ref ref"
  have "set (py_strip ref) \<subseteq> set ref"
    by (auto simp: py_strip_def lstrip_set_def rstrip_set_def dest!: set_dropWhileD)
  then have "list_all is_digit (py_strip ref)" using assms by (auto simp: all_digits_def list_all_iff)
  then have "list_all is_digit ''fleet''" using f by (simp add: is_fleet_ref_def)
  then show False by (simp add: is_digit_def char_code_def)
qed

lemma sarif_format: "dict_get FORMATS ''sarif'' = Some (''.sarif'', ''application/sarif+json'', ''findings'')"
  by (simp add: FORMATS_def)

text \<open>A render slot leaks when the temporary file cannot be created: it is taken before the file is made
  and released only in the clause after it, so that two such failures (a full disk) leave no slot and
  every later export is refused with 429, until the daemon is restarted.\<close>

theorem export_slot_leak:
  assumes "get_scan sid d \<noteq> None"
  shows "let st = \<lparr>as_db = d, as_slots = MAX_CONCURRENT_RENDERS\<rparr>;
             failed = (\<lambda>st. snd (export_scan e False render (show_nat sid) ''sarif'' ''ms'' st))
         in as_slots (failed (failed st)) = 0 \<and>
            export_scan e' True render' (show_nat sid) ''sarif'' ''ms'' (failed (failed st)) = (Inl 429, failed (failed st))"
  using assms digits_not_fleet [OF all_digits_show_nat]
  by (simp add: export_scan_def acquire_render_slot_def sarif_format MAX_CONCURRENT_RENDERS_def Let_def)

theorem guard_sound_witness:
  "\<exists>logins. sessions_after \<lparr>dc_token = Some ''t'', dc_hosts = LOOPBACK_HOSTS\<rparr> {''s''} logins \<and> (''t'', ''s'') \<in> set logins"
proof -
  let ?cf = "\<lparr>dc_token = Some ''t'', dc_hosts = LOOPBACK_HOSTS\<rparr>"
  let ?rq = "\<lparr>rq_method = ''GET'', rq_path = ''/api/scans'', rq_headers = [(''host'', ''localhost:8765'')],
    rq_cookies = [(''pqcscan_session'', ''s'')]\<rparr>"
  have "login ?cf ''t'' ''s'' {} = (Inr ''s'', {''s''})" by (simp add: login_def token_set_def)
  then have s: "sessions_after ?cf {''s''} [(''t'', ''s'')]" by (rule accepted [OF started])
  have h: "host_only ''localhost:8765'' = ''localhost''" by (simp add: host_only_def py_simps partition_char_def)
  have r: "bearer ?rq = None" "session_id ?rq = ''s''"
    by (simp_all add: bearer_def session_id_def header_or_def SESSION_COOKIE_def py_simps)
  have o: "\<not> open_path ''/api/scans''" "token_set ?cf" by (simp_all add: open_path_def FLEET_BEARER_PATHS_def token_set_def)
  have "guard (\<lambda>_. True) ?cf {''s''} ?rq = Call_Next"
    using h r o by (simp add: guard_def host_allowed_def header_or_def LOOPBACK_HOSTS_def authorised_def Let_def)
  from guard_sound [OF s this] r o s show ?thesis by auto
qed

theorem post_scan_exclusive_witness:
  "\<exists>ctx s0 d'. post_scan sqlite_env ''3.12'' ''h'' [] ''user'' {} None None None empty_db = (Inr (ctx, s0), d') \<and>
     post_scan sqlite_env ''3.12'' ''h'' [] ''user'' {} None None None d' = (Inl 409, d')"
proof -
  have inv: "store_inv empty_db" by (simp add: store_inv_def one_running_def tokens_ok_def) (simp add: empty_db_def)
  have "\<exists>ctx s0 d'. post_scan sqlite_env ''3.12'' ''h'' [] ''user'' {} None None None empty_db = (Inr (ctx, s0), d')"
    by (simp add: post_scan_def runner_begin_scan_def run_begin_def begin_scan_if_idle_def insert_scan_def uuid_taken_def
        new_running_scan_def scan_metadata_def empty_db_def Let_def split: prod.split)
  then obtain ctx s0 d' where p: "post_scan sqlite_env ''3.12'' ''h'' [] ''user'' {} None None None empty_db = (Inr (ctx, s0), d')"
    by blast
  from post_scan_exclusive [OF inv sqlite_env_ok p] p show ?thesis by blast
qed

theorem export_restores_witness:
  "snd (export_scan sqlite_env True (\<lambda>_ _ _ _. Inl 500) ''fleet'' ''cbom'' ''ms'' \<lparr>as_db = reporting_db, as_slots = 2\<rparr>) =
     \<lparr>as_db = reporting_db, as_slots = 2\<rparr>"
proof -
  let ?st = "\<lparr>as_db = reporting_db, as_slots = 2\<rparr>" and ?r = "\<lambda>_ _ _ _. Inl 500"
  obtain res st' where x: "export_scan sqlite_env True ?r ''fleet'' ''cbom'' ''ms'' ?st = (res, st')" by force
  have "db_ok (as_db ?st)" "refs_ok (as_db ?st)" using reporting_db_ok by simp_all
  from export_restores [OF sqlite_env_ok this x] x show ?thesis by simp
qed

theorem export_slot_leak_witness:
  "as_slots (snd (export_scan sqlite_env False (\<lambda>_ _ _ _. Inl 500) (show_nat 1) ''sarif'' ''ms''
     (snd (export_scan sqlite_env False (\<lambda>_ _ _ _. Inl 500) (show_nat 1) ''sarif'' ''ms''
        \<lparr>as_db = sample_db, as_slots = MAX_CONCURRENT_RENDERS\<rparr>)))) = 0"
proof -
  have "get_scan 1 sample_db \<noteq> None" by (simp add: get_scan_def get_row_def sample_db_def sample_scan_def)
  from export_slot_leak [OF this, of sqlite_env "\<lambda>_ _ _ _. Inl 500" sqlite_env "\<lambda>_ _ _ _. Inl 500"]
  show ?thesis by (simp add: Let_def)
qed

end
