(* ===== verification/Pyast.thy ===== *)
theory Pyast
  imports Prelude "HOL-Library.Multiset"
begin

text \<open>
  \<^verbatim>\<open>core/pyast.py\<close>: the analyzer of Python syntax trees. A tree has the node kinds the analyzer tells
  apart; every other kind of node is its children in field order (a node that only marks a context,
  such as \<^verbatim>\<open>Load\<close>, is left out: it has no children and gives no hit). The parser of the language is an
  argument of \<open>analyze\<close>.
\<close>

section \<open>Trees\<close>

datatype py_const = Const_Str string | Const_Int int | Const_Bool bool | Const_Other

datatype node =
    Name string
  | Attribute nat node string
  | Call nat node "node list" "node list"
  | Keyword "string option" node
  | Constant py_const
  | Import "(string \<times> string option) list"
  | Import_From "string option" "(string \<times> string option) list"
  | Other "node list"

fun child_nodes :: "node \<Rightarrow> node list" where
  "child_nodes (Attribute l v a) = [v]"
| "child_nodes (Call l f args kws) = f # args @ kws"
| "child_nodes (Keyword a v) = [v]"
| "child_nodes (Other ns) = ns"
| "child_nodes _ = []"

text \<open>\<^verbatim>\<open>ast.walk\<close>: breadth first, with the queue of nodes still to visit.\<close>

function walk_queue :: "node list \<Rightarrow> node list" where
  "walk_queue [] = []"
| "walk_queue (n # queue) = n # walk_queue (queue @ child_nodes n)"
  by pat_completeness auto
termination
proof (relation "measure (\<lambda>q. sum_list (map (\<lambda>n. Suc (size n)) q))")
  fix n queue
  have l: "sum_list (map (\<lambda>n. Suc (size n)) ns) = size_list size ns" for ns :: "node list"
    by (induction ns) simp_all
  have "sum_list (map (\<lambda>n. Suc (size n)) (child_nodes n)) < Suc (size n)"
    by (cases n) (simp_all add: l)
  then show "(queue @ child_nodes n, n # queue) \<in> measure (\<lambda>q. sum_list (map (\<lambda>n. Suc (size n)) q))" by simp
qed simp

definition walk :: "node \<Rightarrow> node list" where
  "walk tree = walk_queue [tree]"

section \<open>Tables\<close>

definition WEAK_NEW_HASHES :: "string list" where
  "WEAK_NEW_HASHES = [''md5'', ''sha1'', ''md4'', ''md2'']"

definition PYCRYPTO_CIPHERS :: "(string \<times> string) dict" where
  "PYCRYPTO_CIPHERS =
     [(''DES'', ''DES'', ''des_cipher''), (''DES3'', ''3DES'', ''des_cipher''), (''ARC4'', ''RC4'', ''rc4_cipher''),
      (''Blowfish'', ''Blowfish'', ''blowfish_cipher'')]"

definition HAZMAT_ALGORITHMS :: "(string \<times> string) dict" where
  "HAZMAT_ALGORITHMS =
     [(''TripleDES'', ''3DES'', ''des_cipher''), (''ARC4'', ''RC4'', ''rc4_cipher''),
      (''Blowfish'', ''Blowfish'', ''blowfish_cipher'')]"

definition WEAK_TLS_PROTOCOLS :: "string dict" where
  "WEAK_TLS_PROTOCOLS =
     [(''PROTOCOL_TLSv1'', ''TLSv1''), (''PROTOCOL_TLSv1_1'', ''TLSv1.1''), (''PROTOCOL_SSLv3'', ''SSLv3''),
      (''PROTOCOL_SSLv23'', ''SSLv23'')]"

record ast_hit =
  ah_lineno :: nat
  ah_algorithm :: string
  ah_kind :: string
  ah_detail :: string
  ah_weak :: bool

definition ast_hit_of :: "nat \<Rightarrow> string \<Rightarrow> string \<Rightarrow> string \<Rightarrow> ast_hit" where
  "ast_hit_of l alg kind detail = \<lparr>ah_lineno = l, ah_algorithm = alg, ah_kind = kind, ah_detail = detail, ah_weak = True\<rparr>"

section \<open>Imports\<close>

text \<open>\<^verbatim>\<open>alias.asname or alias.name\<close>\<close>

definition local_name :: "string \<times> string option \<Rightarrow> string" where
  "local_name al = (case snd al of Some a \<Rightarrow> if a = [] then fst al else a | None \<Rightarrow> fst al)"

definition import_names :: "node \<Rightarrow> (string \<times> string) list" where
  "import_names n =
     (case n of
        Import als \<Rightarrow> map (\<lambda>al. (local_name al, fst al)) als
      | Import_From (Some m) als \<Rightarrow>
          if m = [] then []
          else map (\<lambda>al. (local_name al, m @ ''.'' @ fst al)) (filter (\<lambda>al. fst al \<noteq> ''*'') als)
      | _ \<Rightarrow> [])"

definition collect_imports :: "node \<Rightarrow> string dict" where
  "collect_imports tree = foldl (\<lambda>m (k, v). dict_set k v m) [] (concat (map import_names (walk tree)))"

fun resolve :: "string dict \<Rightarrow> node \<Rightarrow> string option" where
  "resolve syms (Name i) = Some (case dict_get syms i of Some s \<Rightarrow> s | None \<Rightarrow> i)"
| "resolve syms (Attribute l v a) = (case resolve syms v of None \<Rightarrow> None | Some p \<Rightarrow> Some (p @ ''.'' @ a))"
| "resolve syms _ = None"

section \<open>Hits\<close>

definition const_str :: "node \<Rightarrow> string option" where
  "const_str n = (case n of Constant (Const_Str s) \<Rightarrow> Some s | _ \<Rightarrow> None)"

definition const_int :: "node \<Rightarrow> int option" where
  "const_int n = (case n of Constant (Const_Int i) \<Rightarrow> Some i | _ \<Rightarrow> None)"

text \<open>\<^verbatim>\<open>tuple(canon.split(".")[-n:])\<close>\<close>

definition dotted_tail :: "string \<Rightarrow> nat \<Rightarrow> string list" where
  "dotted_tail canon n = (let ps = split_on (CHR ''.'') canon in drop (length ps - n) ps)"

definition visit_attribute :: "string dict \<Rightarrow> nat \<Rightarrow> node \<Rightarrow> string \<Rightarrow> ast_hit list" where
  "visit_attribute syms l v attr =
     (case dict_get WEAK_TLS_PROTOCOLS attr of
        None \<Rightarrow> []
      | Some alg \<Rightarrow>
          (case resolve syms (Attribute l v attr) of
             None \<Rightarrow> []
           | Some canon \<Rightarrow>
               if dotted_tail canon 2 = [''ssl'', attr] then
                 [ast_hit_of l alg ''weak_tls_proto'' (''legacy TLS/SSL protocol constant ssl.'' @ attr @ '' ('' @ alg @ '')'')]
               else []))"

text \<open>The last keyword argument of the name that is an integer literal, as the loop leaves it: a later
  argument of the same name overwrites.\<close>

definition keyword_int :: "string \<Rightarrow> node list \<Rightarrow> int option" where
  "keyword_int k kws =
     foldl (\<lambda>bits kw. case kw of Keyword (Some a) v \<Rightarrow> if a = k then const_int v else bits | _ \<Rightarrow> bits) None kws"

definition emit_rsa :: "nat \<Rightarrow> int option \<Rightarrow> ast_hit list" where
  "emit_rsa l bits =
     (case bits of
        Some b \<Rightarrow> [ast_hit_of l (''RSA-'' @ show_int b) ''rsa_keygen'' (''RSA key generation, key_size='' @ show_int b)]
      | None \<Rightarrow> [ast_hit_of l ''RSA'' ''rsa_keygen'' ''RSA key generation (non-literal key_size)''])"

definition ec_curve :: "node list \<Rightarrow> string option" where
  "ec_curve args =
     (case args of
        [] \<Rightarrow> None
      | a # _ \<Rightarrow>
          (case (case a of Call l f as ks \<Rightarrow> f | _ \<Rightarrow> a) of
             Attribute l v attr \<Rightarrow> Some attr
           | Name i \<Rightarrow> Some i
           | _ \<Rightarrow> None))"

definition has_mode_cbc :: "node list \<Rightarrow> node list \<Rightarrow> bool" where
  "has_mode_cbc args kws =
     list_ex (\<lambda>a. case a of Attribute l v attr \<Rightarrow> attr = ''MODE_CBC'' | _ \<Rightarrow> False)
       (args @ map (\<lambda>kw. case kw of Keyword k v \<Rightarrow> v | _ \<Rightarrow> kw) kws)"

definition call_hits :: "string \<Rightarrow> string \<Rightarrow> string \<Rightarrow> nat \<Rightarrow> node list \<Rightarrow> node list \<Rightarrow> ast_hit list" where
  "call_hits canon obj lst l args kws =
     (if canon \<in> {''hashlib.md5'', ''hashlib.sha1''} then
        [ast_hit_of l (py_upper lst) ''weak_hash'' (py_upper lst @ '' weak hash via hashlib.'' @ lst @ ''()'')]
      else if canon = ''hashlib.new'' then
        (case (case args of [] \<Rightarrow> None | a # _ \<Rightarrow> const_str a) of
           None \<Rightarrow> []
         | Some nm \<Rightarrow>
             if nm \<noteq> [] \<and> py_lower nm \<in> set WEAK_NEW_HASHES then
               [ast_hit_of l (py_upper nm) ''weak_hash'' (py_upper nm @ '' weak hash via hashlib.new('' @ [CHR 0x22] @ nm @ [CHR 0x22] @ '')'')]
             else [])
      else if obj = ''rsa'' \<and> lst = ''generate_private_key'' then emit_rsa l (keyword_int ''key_size'' kws)
      else if obj = ''RSA'' \<and> lst = ''generate'' then emit_rsa l (case args of [] \<Rightarrow> None | a # _ \<Rightarrow> const_int a)
      else if obj = ''dsa'' \<and> lst = ''generate_private_key'' then
        [ast_hit_of l ''DSA'' ''dsa_keygen'' ''DSA key generation (cryptography)'']
      else if obj = ''DSA'' \<and> lst = ''generate'' then
        [ast_hit_of l ''DSA'' ''dsa_keygen'' ''DSA key generation (PyCryptodome)'']
      else if obj = ''ec'' \<and> lst = ''generate_private_key'' then
        (let alg = (case ec_curve args of None \<Rightarrow> ''EC'' | Some c \<Rightarrow> if c = [] then ''EC'' else ''EC-'' @ c)
         in [ast_hit_of l alg ''ecdsa_keygen'' (''classical EC key generation ('' @ alg @ '') '' @ DASH @ '' quantum-vulnerable'')])
      else if lst = ''new'' \<and> dict_get PYCRYPTO_CIPHERS obj \<noteq> None then
        (case the (dict_get PYCRYPTO_CIPHERS obj) of
           (alg, kind) \<Rightarrow> [ast_hit_of l alg kind (alg @ '' cipher via '' @ obj @ ''.new()'')])
      else if lst = ''new'' \<and> obj = ''AES'' then
        (if has_mode_cbc args kws then [ast_hit_of l ''AES-CBC'' ''aes_cbc'' ''AES-CBC mode (prefer AES-GCM)''] else [])
      else if obj = ''algorithms'' \<and> dict_get HAZMAT_ALGORITHMS lst \<noteq> None then
        (case the (dict_get HAZMAT_ALGORITHMS lst) of
           (alg, kind) \<Rightarrow> [ast_hit_of l alg kind (alg @ '' cipher via algorithms.'' @ lst @ ''()'')])
      else if obj = ''modes'' \<and> lst = ''CBC'' then
        [ast_hit_of l ''AES-CBC'' ''aes_cbc'' ''AES-CBC mode via modes.CBC() (prefer AES-GCM)'']
      else [])"

definition visit_call :: "string dict \<Rightarrow> nat \<Rightarrow> node \<Rightarrow> node list \<Rightarrow> node list \<Rightarrow> ast_hit list" where
  "visit_call syms l f args kws =
     (case resolve syms f of
        None \<Rightarrow> []
      | Some canon \<Rightarrow>
          (let parts = split_on (CHR ''.'') canon; lst = last parts;
               obj = (if length parts \<ge> 2 then parts ! (length parts - 2) else [])
           in call_hits canon obj lst l args kws))"

definition visit :: "string dict \<Rightarrow> node \<Rightarrow> ast_hit list" where
  "visit syms n =
     (case n of
        Call l f args kws \<Rightarrow> visit_call syms l f args kws
      | Attribute l v attr \<Rightarrow> visit_attribute syms l v attr
      | _ \<Rightarrow> [])"

definition analyze_tree :: "node \<Rightarrow> ast_hit list" where
  "analyze_tree tree = (let syms = collect_imports tree in concat (map (visit syms) (walk tree)))"

definition analyze :: "(string \<Rightarrow> node option) \<Rightarrow> string \<Rightarrow> ast_hit list option" where
  "analyze parse source = map_option analyze_tree (parse source)"

section \<open>Every node is visited once\<close>

text \<open>The nodes of a tree, by structural recursion.\<close>

function nodes :: "node \<Rightarrow> node list" where
  "nodes n = n # concat (map nodes (child_nodes n))"
  by pat_completeness auto
termination
proof (relation "measure size")
  fix n c
  assume "c \<in> set (child_nodes n)"
  then show "(c, n) \<in> measure size"
    by (cases n) (auto dest!: size_list_estimation' [of _ _ _ size, OF _ order_refl] simp: less_Suc_eq_le)
qed simp

declare nodes.simps [simp del]

lemma mset_walk_queue: "mset (walk_queue q) = mset (concat (map nodes q))"
proof (induction q rule: walk_queue.induct)
  case (2 n queue)
  then show ?case by (simp add: nodes.simps [of n] ac_simps)
qed simp

lemma mset_walk: "mset (walk tree) = mset (nodes tree)"
  using mset_walk_queue [of "[tree]"] by (simp add: walk_def)

lemma set_walk: "set (walk tree) = set (nodes tree)"
  using mset_walk by (metis set_mset_mset)

lemma mset_concat_map: "mset (concat (map f xs)) = sum_mset (image_mset (\<lambda>x. mset (f x)) (mset xs))"
  by (induction xs) simp_all

lemma analyze_mset: "mset (analyze_tree tree) = mset (concat (map (visit (collect_imports tree)) (nodes tree)))"
  by (simp add: analyze_tree_def Let_def mset_concat_map mset_walk)

section \<open>Imports are resolved\<close>

text \<open>The import table of a tree: some import gives the local name this meaning, and none another.\<close>

definition bound_to :: "node \<Rightarrow> string \<Rightarrow> string \<Rightarrow> bool" where
  "bound_to tree h s \<longleftrightarrow>
     (\<exists>n \<in> set (nodes tree). (h, s) \<in> set (import_names n)) \<and>
     (\<forall>n \<in> set (nodes tree). \<forall>s'. (h, s') \<in> set (import_names n) \<longrightarrow> s' = s)"

lemma foldl_dict_set:
  "dict_get (foldl (\<lambda>m (k, v). dict_set k v m) m ps) k = Some v \<Longrightarrow> (k, v) \<in> set ps \<or> dict_get m k = Some v"
proof (induction ps arbitrary: m)
  case (Cons p ps)
  obtain a b where p: "p = (a, b)" by force
  with Cons.prems have "(k, v) \<in> set ps \<or> dict_get (dict_set a b m) k = Some v" by (intro Cons.IH) simp
  with p show ?case by (auto split: if_splits)
qed simp

lemma foldl_dict_dom:
  "k \<in> fst ` set ps \<or> dict_get m k \<noteq> None \<Longrightarrow> dict_get (foldl (\<lambda>m (k, v). dict_set k v m) m ps) k \<noteq> None"
  by (induction ps arbitrary: m) (auto split: if_splits)

lemma collect_imports_bound:
  assumes "bound_to tree h s"
  shows "dict_get (collect_imports tree) h = Some s"
proof -
  let ?ps = "concat (map import_names (walk tree))"
  have "(h, s) \<in> set ?ps" and only: "(h, s') \<in> set ?ps \<Longrightarrow> s' = s" for s'
    using assms by (auto simp: bound_to_def set_walk)
  then have "h \<in> fst ` set ?ps" by force
  then obtain s' where "dict_get (collect_imports tree) h = Some s'"
    using foldl_dict_dom [of h ?ps "[]"] by (auto simp: collect_imports_def)
  moreover from this have "s' = s" using foldl_dict_set [of "[]" ?ps h s'] only by (simp add: collect_imports_def)
  ultimately show ?thesis by simp
qed

text \<open>The two ways to write a call of an imported function: through the module, or by its own name.\<close>

definition names_symbol :: "node \<Rightarrow> node \<Rightarrow> string \<Rightarrow> string \<Rightarrow> bool" where
  "names_symbol tree f m a \<longleftrightarrow>
     (\<exists>h. f = Name h \<and> bound_to tree h (m @ ''.'' @ a)) \<or>
     (\<exists>l h. f = Attribute l (Name h) a \<and> bound_to tree h m)"

lemma resolve_symbol: "names_symbol tree f m a \<Longrightarrow> resolve (collect_imports tree) f = Some (m @ ''.'' @ a)"
  by (auto simp: names_symbol_def collect_imports_bound)

lemma visit_in_analysis: "n \<in> set (nodes tree) \<Longrightarrow> set (visit (collect_imports tree) n) \<subseteq> set (analyze_tree tree)"
  using set_walk [of tree] by (auto simp: analyze_tree_def Let_def)

lemma call_hits_line: "list_all (\<lambda>h. ah_lineno h = l) (call_hits canon obj lst l args kws)"
proof -
  have rsa: "list_all (\<lambda>h. ah_lineno h = l) (emit_rsa l bits)" for bits
    by (simp add: emit_rsa_def ast_hit_of_def split: option.split)
  have opt: "list_all P (case x of None \<Rightarrow> [] | Some y \<Rightarrow> g y)" if "\<And>y. list_all P (g y)" for P x and g :: "string \<Rightarrow> ast_hit list"
    using that by (simp split: option.split)
  have pair: "list_all P (case x of (a, b) \<Rightarrow> g a b)" if "\<And>a b. list_all P (g a b)" for P x and g :: "string \<Rightarrow> string \<Rightarrow> ast_hit list"
    using that by (simp split: prod.split)
  have ite: "list_all P x \<Longrightarrow> list_all P y \<Longrightarrow> list_all P (if c then x else y)" for P c and x y :: "ast_hit list"
    by simp
  show ?thesis
    unfolding call_hits_def Let_def
    by (intro ite rsa opt pair) (simp_all add: ast_hit_of_def)
qed

section \<open>Properties\<close>


text \<open>Weak hashes are found under any import: a call that names \<^verbatim>\<open>hashlib.md5\<close>, through the module or the
  function, under its own name or an alias, anywhere in the tree, is reported on its line.\<close>

theorem weak_hash_found:
  assumes "Call l f args kws \<in> set (nodes tree)" and "names_symbol tree f ''hashlib'' ''md5''"
  shows "ast_hit_of l ''MD5'' ''weak_hash'' ''MD5 weak hash via hashlib.md5()'' \<in> set (analyze_tree tree)"
proof -
  have "visit (collect_imports tree) (Call l f args kws) = [ast_hit_of l ''MD5'' ''weak_hash'' ''MD5 weak hash via hashlib.md5()'']"
    using resolve_symbol [OF assms(2)] by (simp add: visit_def visit_call_def call_hits_def py_simps Let_def)
  then show ?thesis using visit_in_analysis [OF assms(1)] by simp
qed

definition aliased_tree :: node where
  "aliased_tree = Other [Import [(''hashlib'', Some ''h'')], Other [Call 2 (Attribute 2 (Name ''h'') ''md5'') [Name ''data''] []]]"

theorem weak_hash_found_witness:
  "ast_hit_of 2 ''MD5'' ''weak_hash'' ''MD5 weak hash via hashlib.md5()'' \<in> set (analyze_tree aliased_tree)"
  by (rule weak_hash_found [where f = "Attribute 2 (Name ''h'') ''md5''" and args = "[Name ''data'']" and kws = "[]"])
    (simp_all add: aliased_tree_def nodes.simps names_symbol_def bound_to_def import_names_def local_name_def)


end
