(* ===== verification/Ssh_Config.thy ===== *)
theory Ssh_Config
  imports Suite_Class
begin

text \<open>
  \<^verbatim>\<open>probes/_ssh_parser.py\<close>: the parser of \<^verbatim>\<open>sshd_config\<close> and \<^verbatim>\<open>ssh_config\<close> that the SSH probes share,
  with the round trip of a rendered configuration and what becomes of a removal list. Reading the files
  is I/O: a file is its name, its path and its text. The clock reading of the findings is an argument.
\<close>

section \<open>Tables\<close>

definition SSH_ALG_ALIASES :: "string dict" where
  "SSH_ALG_ALIASES =
     [(''diffie-hellman-group1-sha1'', ''DH-1024''), (''diffie-hellman-group14-sha1'', ''DH-2048''),
      (''diffie-hellman-group14-sha256'', ''DH-2048''), (''diffie-hellman-group16-sha512'', ''DH-4096''),
      (''diffie-hellman-group18-sha512'', ''DH-8192''), (''ssh-rsa'', ''RSA-2048''), (''ssh-dss'', ''DSA''),
      (''rsa-sha2-256'', ''RSA-SHA256''), (''rsa-sha2-512'', ''RSA-SHA512''), (''ecdsa-sha2-nistp256'', ''ECDSA-SHA256''),
      (''ecdsa-sha2-nistp384'', ''ECDSA-SHA384''), (''ecdsa-sha2-nistp521'', ''ECDSA-SHA512''), (''ssh-ed25519'', ''Ed25519''),
      (''hmac-md5'', ''MD5''), (''hmac-sha1'', ''SHA-1''), (''hmac-sha2-256'', ''SHA-256''), (''hmac-sha2-512'', ''SHA-512'')]"

definition SSH_KEYWORDS :: "string list" where
  "SSH_KEYWORDS = [''Ciphers'', ''KexAlgorithms'', ''MACs'', ''HostKeyAlgorithms'', ''PubkeyAcceptedAlgorithms'',
     ''PubkeyAcceptedKeyTypes'']"

section \<open>Parsing\<close>

text \<open>\<^verbatim>\<open>re.match(rf"^{kw}\s+(.+)$", line, re.IGNORECASE)\<close> on a stripped line, its group stripped: the keyword, a
  blank, and the rest, which is not empty because the line does not end in a blank.\<close>

definition keyword_values :: "string \<Rightarrow> string \<Rightarrow> string option" where
  "keyword_values kw line =
     (let rest = drop (length kw) line in
      if py_lower (take (length kw) line) = py_lower kw \<and> rest \<noteq> [] \<and> is_space (hd rest)
      then Some (py_strip rest) else None)"

definition strip_modifier :: "string \<Rightarrow> string" where
  "strip_modifier values =
     (case values of
        [] \<Rightarrow> []
      | c # cs \<Rightarrow> if c \<in> {CHR ''+'', CHR ''-'', CHR ''^''} then cs else values)"

definition value_tokens :: "string \<Rightarrow> string list" where
  "value_tokens values = filter (\<lambda>t. t \<noteq> []) (map py_strip (split_on (CHR '','') values))"

record config_file =
  cg_name :: string
  cg_path :: string
  cg_text :: string

definition canonical_alg :: "string \<Rightarrow> string" where
  "canonical_alg token = (case dict_get SSH_ALG_ALIASES token of Some a \<Rightarrow> a | None \<Rightarrow> normalise token)"

definition ssh_finding :: "int \<Rightarrow> string \<Rightarrow> config_file \<Rightarrow> nat \<Rightarrow> string \<Rightarrow> string \<Rightarrow> finding" where
  "ssh_finding now pid f line_no kw token =
     (let canonical = canonical_alg token; cls = classify canonical in
      \<lparr>probe_id = pid, algorithm = canonical, classification = cls, severity = sev_for cls,
       title = cg_name f @ '' '' @ kw @ '' contains '' @ token, component_purl = None,
       evidence = [(''path'', JStr (cg_path f)), (''line'', JInt (int line_no)), (''keyword'', JStr kw), (''token'', JStr token)],
       remediation = [(''snippet'', JStr (''# Review '' @ kw @ '' list; remove tokens flagged Tinggi/Sangat Tinggi''))],
       confidence = ''high'', created_at = now\<rparr>)"

text \<open>The keyword and tokens of one line; at most one keyword matches.\<close>

definition line_entries :: "string \<Rightarrow> (string \<times> string) list" where
  "line_entries raw =
     (let line = py_strip (hd (split_on (CHR ''#'') raw)) in
      if line = [] then []
      else concat (map (\<lambda>kw. case keyword_values kw line of
                          None \<Rightarrow> []
                        | Some vs \<Rightarrow> map (Pair kw) (value_tokens (strip_modifier vs))) SSH_KEYWORDS))"

definition parse_ssh_config :: "int \<Rightarrow> string \<Rightarrow> config_file \<Rightarrow> finding list" where
  "parse_ssh_config now pid f =
     concat (map (\<lambda>(n, raw). map (\<lambda>(kw, token). ssh_finding now pid f n kw token) (line_entries raw))
       (zip [1..<length (splitlines (cg_text f)) + 1] (splitlines (cg_text f))))"

text \<open>\<^verbatim>\<open>parse_paths\<close>, over the files that could be read.\<close>

definition parse_paths :: "int \<Rightarrow> string \<Rightarrow> config_file option list \<Rightarrow> finding list" where
  "parse_paths now pid files = concat (map (\<lambda>f. case f of None \<Rightarrow> [] | Some c \<Rightarrow> parse_ssh_config now pid c) files)"

section \<open>Rendered configurations\<close>

text \<open>A token as a configuration writes it, and a list of them under a keyword.\<close>

definition token_char :: "char \<Rightarrow> bool" where
  "token_char c \<longleftrightarrow> \<not> is_space c \<and> c \<noteq> CHR '','' \<and> c \<noteq> CHR ''#''"

definition token_ok :: "string \<Rightarrow> bool" where
  "token_ok t \<longleftrightarrow> t \<noteq> [] \<and> list_all token_char t \<and> hd t \<notin> {CHR ''+'', CHR ''-'', CHR ''^''}"

definition render_entry :: "string \<times> string list \<Rightarrow> string" where
  "render_entry e = fst e @ '' '' @ join_with '','' (snd e)"

definition entry_ok :: "string \<times> string list \<Rightarrow> bool" where
  "entry_ok e \<longleftrightarrow> fst e \<in> set SSH_KEYWORDS \<and> snd e \<noteq> [] \<and> list_all token_ok (snd e)"

definition render_config :: "(string \<times> string list) list \<Rightarrow> string" where
  "render_config es = concat (map (\<lambda>e. render_entry e @ [newline]) es)"

lemma token_okD:
  assumes "token_ok t"
  shows "t \<noteq> []" "CHR '','' \<notin> set t" "CHR ''#'' \<notin> set t" "\<forall>c \<in> set t. \<not> is_space c" "py_strip t = t"
    "hd t \<notin> {CHR ''+'', CHR ''-'', CHR ''^''}"
proof -
  show t: "t \<noteq> []" "CHR '','' \<notin> set t" "CHR ''#'' \<notin> set t" "\<forall>c \<in> set t. \<not> is_space c" "hd t \<notin> {CHR ''+'', CHR ''-'', CHR ''^''}"
    using assms by (auto simp: token_ok_def token_char_def list_all_iff)
  then show "py_strip t = t" by (intro py_strip_ends) simp_all
qed

text \<open>The tokens of a rendered list.\<close>

lemma value_tokens_join:
  assumes "ts \<noteq> []" and "list_all token_ok ts"
  shows "value_tokens (join_with '','' ts) = ts"
proof -
  have ok: "\<forall>t \<in> set ts. token_ok t" using assms(2) by (simp add: list_all_iff)
  have "split_on (CHR '','') (join_with '','' ts) = ts"
    using assms(1) ok token_okD(2) by (intro split_on_join) (auto simp: list_all_iff)
  moreover have "map py_strip ts = ts" using ok token_okD(5) by (simp add: map_idI)
  ultimately show ?thesis using ok token_okD(1) by (auto simp: value_tokens_def intro!: filter_True)
qed

lemma keyword_chars: "kw \<in> set SSH_KEYWORDS \<Longrightarrow> list_all (\<lambda>c. is_upper c \<or> is_lower c) kw \<and> kw \<noteq> []"
  by (auto simp: SSH_KEYWORDS_def py_simps)

lemma letter_chars: "is_upper c \<or> is_lower c \<Longrightarrow> \<not> is_space c \<and> c \<noteq> CHR ''#'' \<and> \<not> line_break c"
  by (auto simp: is_upper_def is_lower_def is_space_def line_break_def char_code_def)

lemma keyword_no_space: "kw \<in> set SSH_KEYWORDS \<Longrightarrow> \<forall>c \<in> set kw. \<not> is_space c"
  using keyword_chars letter_chars by (fastforce simp: list_all_iff)

lemma keywords_distinct: "distinct (map py_lower SSH_KEYWORDS)"
  by code_simp

lemma keywords_lower: "kw \<in> set SSH_KEYWORDS \<Longrightarrow> kw' \<in> set SSH_KEYWORDS \<Longrightarrow> py_lower kw = py_lower kw' \<Longrightarrow> kw = kw'"
  using keywords_distinct by (auto simp: distinct_map dest: inj_onD)

lemma py_lower_nth: "i < length s \<Longrightarrow> py_lower s ! i = lower_char (s ! i)"
  by (simp add: py_lower_def)

lemma lower_char_space: "is_space (lower_char c) \<longleftrightarrow> is_space c"
  by (auto simp: lower_char_def is_upper_def is_space_def char_code_def)

text \<open>Only its own keyword matches a rendered line.\<close>

lemma keyword_values_render:
  assumes kw: "kw \<in> set SSH_KEYWORDS" and kw': "kw' \<in> set SSH_KEYWORDS"
  shows "keyword_values kw' (kw @ '' '' @ v) = (if kw' = kw then Some (py_strip v) else None)"
proof (cases "length kw' = length kw")
  case True
  then show ?thesis
    using keywords_lower [OF kw kw'] by (auto simp: keyword_values_def Let_def py_simps py_strip_blank)
next
  case False
  then have ne: "kw' \<noteq> kw" by auto
  show ?thesis
  proof (cases "length kw' < length kw")
    case True
    then have "hd (drop (length kw') (kw @ '' '' @ v)) = kw ! length kw'" by (simp add: hd_append hd_drop_conv_nth)
    then show ?thesis using ne True keyword_no_space [OF kw] by (simp add: keyword_values_def Let_def)
  next
    case longer: False
    with False have l: "length kw < length kw'" by simp
    have "py_lower (take (length kw') (kw @ '' '' @ v)) \<noteq> py_lower kw'"
    proof
      assume e: "py_lower (take (length kw') (kw @ '' '' @ v)) = py_lower kw'"
      have "py_lower (take (length kw') (kw @ '' '' @ v)) ! length kw = lower_char (CHR '' '')"
        using l by (simp add: py_lower_nth nth_append)
      with e have "lower_char (kw' ! length kw) = lower_char (CHR '' '')" using l by (simp add: py_lower_nth)
      then have "is_space (kw' ! length kw)" using lower_char_space by (metis is_space_Char)
      then show False using keyword_no_space [OF kw'] l by simp
    qed
    then show ?thesis using ne by (simp add: keyword_values_def Let_def)
  qed
qed

lemma concat_only:
  "distinct ks \<Longrightarrow> k \<in> set ks \<Longrightarrow> concat (map (\<lambda>x. if x = k then f x else []) ks) = f k"
proof (induction ks)
  case (Cons a ks)
  have "concat (map (\<lambda>x. if x = k then f x else []) ks) = []" if "k \<notin> set ks"
    using that by (auto intro!: concat_eq_Nil_conv [THEN iffD2])
  with Cons show ?case by auto
qed simp

text \<open>A rendered line whose value list may start with a modifier.\<close>

lemma line_entries_render:
  assumes kw: "kw \<in> set SSH_KEYWORDS" and ts: "ts \<noteq> []" "list_all token_ok ts"
    and m: "m \<in> {[], ''+'', ''-'', ''^''}"
  shows "line_entries (kw @ '' '' @ m @ join_with '','' ts) = map (Pair kw) ts"
proof -
  let ?j = "join_with '','' ts" and ?l = "kw @ '' '' @ m @ join_with '','' ts"
  have ok: "\<forall>t \<in> set ts. token_ok t" using ts(2) by (simp add: list_all_iff)
  have ends: "?j \<noteq> []" "hd ?j = hd (hd ts)" "last ?j = last (last ts)"
    using join_ends [of ts "CHR '',''"] ts(1) ok token_okD(1) by blast+
  have chars: "\<forall>c \<in> set ?j. \<not> is_space c \<and> c \<noteq> CHR ''#''"
    using join_chars [of "CHR '',''" ts] ok token_okD(3,4) by (fastforce simp: is_space_Char)
  have mc: "\<forall>c \<in> set m. \<not> is_space c \<and> c \<noteq> CHR ''#''" using m by (auto simp: is_space_Char)
  have kc: "\<forall>c \<in> set kw. \<not> is_space c \<and> c \<noteq> CHR ''#''" "kw \<noteq> []"
    using keyword_chars [OF kw] letter_chars by (auto simp: list_all_iff)
  have "CHR ''#'' \<notin> set ?l" using chars mc kc by auto
  then have h: "hd (split_on (CHR ''#'') ?l) = ?l" using split_on_no_sep [of "CHR ''#''" ?l] by simp
  have l: "py_strip ?l = ?l" using ends(1) chars kc by (intro py_strip_ends) auto
  have v: "py_strip (m @ ?j) = m @ ?j"
    using ends(1) chars mc by (intro py_strip_ends) (auto simp: hd_append)
  have "hd ?j \<notin> {CHR ''+'', CHR ''-'', CHR ''^''}" using ends(2) ts(1) ok token_okD(6) by (cases ts) auto
  then have s: "strip_modifier (m @ ?j) = ?j"
    using m ends(1) by (cases ?j) (auto simp: strip_modifier_def)
  have "(case keyword_values k ?l of None \<Rightarrow> [] | Some vs \<Rightarrow> map (Pair k) (value_tokens (strip_modifier vs))) =
      (if k = kw then map (Pair k) ts else [])" if "k \<in> set SSH_KEYWORDS" for k
    using keyword_values_render [OF kw that, of "m @ ?j"] value_tokens_join [OF ts] by (simp add: v s)
  then have "line_entries ?l = concat (map (\<lambda>k. if k = kw then map (Pair k) ts else []) SSH_KEYWORDS)"
    using kc(2) unfolding line_entries_def h l Let_def by (auto intro!: arg_cong [of _ _ concat] map_cong)
  also have "\<dots> = map (Pair kw) ts"
    using keywords_distinct kw by (intro concat_only) (auto simp: distinct_map)
  finally show ?thesis .
qed

lemma lines_render:
  assumes "list_all entry_ok es"
  shows "splitlines (render_config es) = map render_entry es"
  using assms unfolding splitlines_def
proof (induction es)
  case (Cons e es)
  have ok: "fst e \<in> set SSH_KEYWORDS" "list_all token_ok (snd e)" using Cons.prems by (simp_all add: entry_ok_def)
  have "\<not> line_break (CHR '','')" by (simp add: line_break_def char_code_def)
  moreover have "\<forall>t \<in> set (snd e). \<forall>c \<in> set t. \<not> line_break c"
    using ok(2) token_okD(4) line_break_space unfolding list_all_iff by blast
  ultimately have "\<forall>c \<in> set (join_with '','' (snd e)). \<not> line_break c"
    using join_chars [of "CHR '',''" "snd e"] by blast
  moreover have "\<forall>c \<in> set (fst e). \<not> line_break c"
    using keyword_chars [OF ok(1)] letter_chars by (auto simp: list_all_iff)
  ultimately have "list_all (\<lambda>c. \<not> line_break c) (render_entry e)"
    by (auto simp: render_entry_def list_all_iff line_break_def char_code_def)
  then show ?case using Cons lines_from_line [of "render_entry e" "[]" "render_config es"] by (simp add: render_config_def)
qed (simp add: render_config_def)

section \<open>Properties\<close>

lemma parse_rendered:
  assumes "list_all entry_ok es" and "cg_text f = render_config es"
  shows "parse_ssh_config now pid f =
    concat (map (\<lambda>(n, kw, ts). map (ssh_finding now pid f n kw) ts) (zip [1..<length es + 1] es))"
proof -
  have e: "line_entries (render_entry (kw, ts)) = map (Pair kw) ts" if "(kw, ts) \<in> set es" for kw ts
    using line_entries_render [of kw ts "[]"] assms(1) that by (auto simp: list_all_iff entry_ok_def render_entry_def)
  have "map (\<lambda>(kw, token). ssh_finding now pid f n kw token) (line_entries (render_entry x)) =
      (case x of (kw, ts) \<Rightarrow> map (ssh_finding now pid f n kw) ts)" if "x \<in> set es" for n x
    using e [of "fst x" "snd x"] that by (simp add: case_prod_beta o_def)
  then show ?thesis
    unfolding parse_ssh_config_def assms(2) lines_render [OF assms(1)]
    by (auto simp: zip_map2 case_prod_beta intro!: arg_cong [of _ _ concat] dest!: set_zip_rightD)
qed

text \<open>Reading an SSH configuration back: for any sequence of algorithm lists, each under one of the six
  keywords, the parser reports exactly the algorithms listed, in order, each with the number of its line,
  its keyword, its token as written and the classification of its canonical name.\<close>

theorem ssh_config_roundtrip:
  assumes "list_all entry_ok es" and "cg_text f = render_config es"
  shows "parse_ssh_config now pid f =
    concat (map (\<lambda>(n, kw, ts). map (ssh_finding now pid f n kw) ts) (zip [1..<length es + 1] es))"
  using assms by (rule parse_rendered)

text \<open>A removal list is reported as if it were in use: a value list that begins with a minus takes the
  algorithms out of the default set, yet the parser drops the minus and reports each of them as contained in
  the configuration.\<close>

theorem ssh_removed_reported_as_used:
  assumes "kw \<in> set SSH_KEYWORDS" and "ts \<noteq> []" and "list_all token_ok ts"
  shows "line_entries (kw @ '' -'' @ join_with '','' ts) = line_entries (kw @ '' '' @ join_with '','' ts) \<and>
    set (line_entries (kw @ '' -'' @ join_with '','' ts)) = Pair kw ` set ts"
  using line_entries_render [OF assms, of "''-''"] line_entries_render [OF assms, of "[]"] by simp

definition sample_config :: "(string \<times> string list) list" where
  "sample_config = [(''Ciphers'', [''aes256-ctr'', ''3des-cbc'']), (''KexAlgorithms'', [''curve25519-sha256''])]"

lemma sample_config_ok: "list_all entry_ok sample_config"
  by (simp add: sample_config_def entry_ok_def SSH_KEYWORDS_def token_ok_def token_char_def py_simps)

theorem ssh_config_roundtrip_witness:
  "length (parse_ssh_config 0 ''fs.conf.sshd'' \<lparr>cg_name = ''sshd_config'', cg_path = ''/etc/ssh/sshd_config'',
     cg_text = render_config sample_config\<rparr>) = 3"
  by (subst ssh_config_roundtrip [OF sample_config_ok]) (simp_all add: sample_config_def upt_rec)

theorem ssh_removed_reported_as_used_witness:
  "(''Ciphers'', ''3des-cbc'') \<in> set (line_entries (''Ciphers'' @ '' -'' @ join_with '','' [''3des-cbc'']))"
proof -
  have ok: "''Ciphers'' \<in> set SSH_KEYWORDS" "[''3des-cbc''] \<noteq> []" "list_all token_ok [''3des-cbc'']"
    by (simp_all add: SSH_KEYWORDS_def token_ok_def token_char_def py_simps)
  from conjunct2 [OF ssh_removed_reported_as_used [OF ok]] show ?thesis by auto
qed

end
