(* ===== verification/Binary.thy ===== *)
theory Binary
  imports Bytes Suite_Class
begin

text \<open>
  The container parsers of \<^verbatim>\<open>probes/fs_binary_crypto.py\<close>: needed libraries and imported symbols of ELF
  files, imported DLLs of PE files, linked dylibs of Mach-O files, the library table, the version banners and
  the constant tables of \<^verbatim>\<open>probes/_crypto_constants.py\<close>. A file is its bytes; Python's slices never fail and
  every short slice is a branch of the code.
\<close>

section \<open>The library table\<close>

definition LIB_RULES :: "(string \<times> string) list" where
  "LIB_RULES =
     [(''libssl'', ''openssl''), (''libcrypto'', ''openssl''), (''libeay32'', ''openssl''), (''ssleay32'', ''openssl''),
      (''boringssl'', ''boringssl''), (''gnutls'', ''gnutls''), (''libnss3'', ''nss''), (''nss3.dll'', ''nss''), (''libnss'', ''nss''),
      (''libsodium'', ''libsodium''), (''mbedcrypto'', ''mbedtls''), (''mbedtls'', ''mbedtls''), (''libwolfssl'', ''wolfssl''),
      (''wolfssl'', ''wolfssl''), (''libs2n'', ''s2n-tls''), (''libgcrypt'', ''libgcrypt''), (''libbotan'', ''botan''),
      (''botan'', ''botan''), (''commoncrypto'', ''commoncrypto''), (''security.framework'', ''security-framework''),
      (''bcrypt.dll'', ''bcrypt''), (''ncrypt.dll'', ''ncrypt''), (''crypt32.dll'', ''crypt32'')]"

definition match_lib :: "string \<Rightarrow> string option" where
  "match_lib raw = map_option snd (find (\<lambda>(needle, _). contains (py_lower raw) needle) LIB_RULES)"

definition OPENSSL_SYMBOL_PREFIXES :: "string list" where
  "OPENSSL_SYMBOL_PREFIXES =
     [''EVP_'', ''SSL_'', ''RSA_'', ''EC_'', ''ECDSA_'', ''DH_'', ''DSA_'', ''SHA1'', ''MD5'', ''X509_'', ''PEM_'', ''BN_'',
      ''CRYPTO_'', ''OPENSSL_'', ''TLS_'']"

definition CRYPTO_SYMBOL_PREFIXES :: "string list dict" where
  "CRYPTO_SYMBOL_PREFIXES =
     [(''openssl'', OPENSSL_SYMBOL_PREFIXES), (''boringssl'', OPENSSL_SYMBOL_PREFIXES), (''gnutls'', [''gnutls_'']),
      (''nss'', [''PK11_'', ''NSS_'', ''SEC_'']), (''libsodium'', [''crypto_'']), (''mbedtls'', [''mbedtls_'']),
      (''wolfssl'', [''wolfSSL_'', ''wc_'']), (''s2n-tls'', [''s2n_'']), (''aws-lc'', OPENSSL_SYMBOL_PREFIXES)]"

section \<open>Versions\<close>

text \<open>\<^verbatim>\<open>re.findall(r"\d+", v)\<close> as numbers.\<close>

fun number_runs :: "string \<Rightarrow> string \<Rightarrow> nat list" where
  "number_runs acc [] = (if acc = [] then [] else [nat_of_digits (rev acc)])"
| "number_runs acc (c # s) =
     (if is_digit c then number_runs (c # acc) s
      else (if acc = [] then [] else [nat_of_digits (rev acc)]) @ number_runs [] s)"

definition parse_ver :: "string \<Rightarrow> nat \<times> nat" where
  "parse_ver v = (let parts = number_runs [] v in
     (if parts \<noteq> [] then parts ! 0 else 0, if length parts > 1 then parts ! 1 else 0))"

definition classify_lib :: "string \<Rightarrow> string option \<Rightarrow> classification \<times> string" where
  "classify_lib lib_id version =
     (if lib_id = ''openssl'' \<and> version \<noteq> None \<and> (3, 5) \<le> parse_ver (the version)
      then (PQC_READY, ''OpenSSL >= 3.5 ships the hybrid X25519MLKEM768 group by default'')
      else (SEDERHANA, ''classical crypto stack, no PQC by default''))"

section \<open>Bytes\<close>

text \<open>\<^verbatim>\<open>decode("ascii", "ignore")\<close> and \<^verbatim>\<open>decode("latin-1")\<close>.\<close>

definition char_of_byte :: "byte \<Rightarrow> char" where
  "char_of_byte b = char_of (unat b)"

definition decode_ascii :: "byte list \<Rightarrow> string" where
  "decode_ascii bs = map char_of_byte (filter (\<lambda>b. b < 128) bs)"

definition cstr :: "byte list \<Rightarrow> nat \<Rightarrow> nat option \<Rightarrow> string" where
  "cstr buf start stop =
     (if start \<ge> length buf then []
      else decode_ascii (takeWhile (\<lambda>b. b \<noteq> 0)
             (slice start (case stop of None \<Rightarrow> length buf | Some e \<Rightarrow> min e (length buf)) buf)))"

section \<open>ELF\<close>

definition SHT_DYNAMIC :: nat where "SHT_DYNAMIC = 6"
definition DT_NEEDED :: nat where "DT_NEEDED = 1"
definition SHT_DYNSYM :: nat where "SHT_DYNSYM = 11"
definition SHN_UNDEF :: nat where "SHN_UNDEF = 0"
definition MAX_DYNSYM :: nat where "MAX_DYNSYM = 100000"
definition MAX_SECTIONS :: nat where "MAX_SECTIONS = 4096"
definition MAX_DYNAMIC :: nat where "MAX_DYNAMIC = 8192"

text \<open>The formats: file header after the identification, section header, dynamic entry, symbol.\<close>

definition ehdr_format :: "bool \<Rightarrow> nat list" where
  "ehdr_format is64 = (if is64 then [2, 2, 4, 8, 8, 8, 4, 2, 2, 2, 2, 2, 2] else [2, 2, 4, 4, 4, 4, 4, 2, 2, 2, 2, 2, 2])"

definition shdr_format :: "bool \<Rightarrow> nat list" where
  "shdr_format is64 = (if is64 then [4, 4, 8, 8, 8, 8, 4, 4, 8, 8] else [4, 4, 4, 4, 4, 4, 4, 4, 4, 4])"

definition dyn_width :: "bool \<Rightarrow> nat" where
  "dyn_width is64 = (if is64 then 8 else 4)"

definition sym_format :: "bool \<Rightarrow> nat list" where
  "sym_format is64 = (if is64 then [4, 1, 1, 2, 8, 8] else [4, 4, 4, 1, 1, 2])"

record elf_head =
  eh_big :: bool
  eh_64 :: bool
  eh_shoff :: nat
  eh_shentsize :: nat
  eh_shnum :: nat

definition elf_header :: "byte list \<Rightarrow> elf_head option" where
  "elf_header data =
     (if length data < 64 \<or> take 4 data \<noteq> [0x7F, 0x45, 0x4C, 0x46] then None
      else if data ! 4 \<notin> {1, 2} then None
      else
        (let big = (data ! 5 = 2); is64 = (data ! 4 = 2) in
         case struct_unpack big (ehdr_format is64) (slice 16 (if is64 then 64 else 52) data) of
           None \<Rightarrow> None
         | Some fs \<Rightarrow> Some \<lparr>eh_big = big, eh_64 = is64, eh_shoff = fs ! 5, eh_shentsize = fs ! 10, eh_shnum = fs ! 11\<rparr>))"

text \<open>Type, offset, size and link of a section.\<close>

type_synonym elf_section = "nat \<times> nat \<times> nat \<times> nat"

fun elf_sections :: "elf_head \<Rightarrow> byte list \<Rightarrow> nat \<Rightarrow> nat \<Rightarrow> elf_section list" where
  "elf_sections h data i 0 = []"
| "elf_sections h data i (Suc n) =
     (let base = eh_shoff h + i * eh_shentsize h; w = sum_list (shdr_format (eh_64 h)); chunk = slice base (base + w) data in
      if length chunk < w then []
      else
        (case struct_unpack (eh_big h) (shdr_format (eh_64 h)) chunk of
           None \<Rightarrow> elf_sections h data (i + 1) n
         | Some fs \<Rightarrow> (fs ! 1, fs ! 4, fs ! 5, fs ! 6) # elf_sections h data (i + 1) n))"

text \<open>The first section of a type, and the offset and size of the string table it links to.\<close>

definition elf_table :: "elf_head \<Rightarrow> byte list \<Rightarrow> nat \<Rightarrow> (nat \<times> nat \<times> nat \<times> nat) option" where
  "elf_table h data ty =
     (let sections = elf_sections h data 0 (min (eh_shnum h) MAX_SECTIONS) in
      case find (\<lambda>(t, _). t = ty) sections of
        None \<Rightarrow> None
      | Some (_, off, sz, link) \<Rightarrow>
          if link < length sections
          then (case sections ! link of (_, str_off, str_size, _) \<Rightarrow> Some (off, sz, str_off, str_size))
          else None)"

fun needed_loop :: "elf_head \<Rightarrow> byte list \<Rightarrow> nat \<Rightarrow> nat \<Rightarrow> nat \<Rightarrow> nat \<Rightarrow> nat \<Rightarrow> string list" where
  "needed_loop h data off str_off str_size i 0 = []"
| "needed_loop h data off str_off str_size i (Suc n) =
     (let w = dyn_width (eh_64 h); base = off + i * (2 * w); chunk = slice base (base + 2 * w) data in
      if length chunk < 2 * w then []
      else
        (case struct_unpack (eh_big h) [w, w] chunk of
           None \<Rightarrow> []
         | Some fs \<Rightarrow>
             (let d_tag = signed_field w (fs ! 0); d_val = fs ! 1 in
              if d_tag = 0 then []
              else
                (let name = (if d_tag = int DT_NEEDED then cstr data (str_off + d_val) (Some (str_off + str_size)) else []) in
                 (if name \<noteq> [] then [name] else []) @ needed_loop h data off str_off str_size (i + 1) n))))"

definition elf_needed :: "byte list \<Rightarrow> string list" where
  "elf_needed data =
     (case elf_header data of
        None \<Rightarrow> []
      | Some h \<Rightarrow>
          (case elf_table h data SHT_DYNAMIC of
             None \<Rightarrow> []
           | Some (off, sz, str_off, str_size) \<Rightarrow>
               needed_loop h data off str_off str_size 0 (min (sz div (2 * dyn_width (eh_64 h))) MAX_DYNAMIC)))"

fun symbols_loop :: "elf_head \<Rightarrow> byte list \<Rightarrow> nat \<Rightarrow> nat \<Rightarrow> nat \<Rightarrow> nat \<Rightarrow> nat \<Rightarrow> string list" where
  "symbols_loop h data off str_off str_size i 0 = []"
| "symbols_loop h data off str_off str_size i (Suc n) =
     (let w = sum_list (sym_format (eh_64 h)); base = off + i * w; chunk = slice base (base + w) data in
      if length chunk < w then []
      else
        (case struct_unpack (eh_big h) (sym_format (eh_64 h)) chunk of
           None \<Rightarrow> []
         | Some fs \<Rightarrow>
             (let st_name = fs ! 0; st_shndx = (if eh_64 h then fs ! 3 else fs ! 5) in
              if st_shndx \<noteq> SHN_UNDEF \<or> st_name = 0 then symbols_loop h data off str_off str_size (i + 1) n
              else
                (let name = cstr data (str_off + st_name) (Some (str_off + str_size)) in
                 (if name \<noteq> [] then [name] else []) @ symbols_loop h data off str_off str_size (i + 1) n))))"

text \<open>A set of names, as the list of its elements.\<close>

definition elf_dynsym_imports :: "byte list \<Rightarrow> string list" where
  "elf_dynsym_imports data =
     (case elf_header data of
        None \<Rightarrow> []
      | Some h \<Rightarrow>
          (case elf_table h data SHT_DYNSYM of
             None \<Rightarrow> []
           | Some (off, sz, str_off, str_size) \<Rightarrow>
               dedupe (symbols_loop h data off str_off str_size 0 (min (sz div sum_list (sym_format (eh_64 h))) MAX_DYNSYM))))"

section \<open>PE\<close>

text \<open>Address, virtual size, file offset and file size of a section.\<close>

type_synonym pe_section = "nat \<times> nat \<times> nat \<times> nat"

fun pe_sections :: "byte list \<Rightarrow> nat \<Rightarrow> nat \<Rightarrow> nat \<Rightarrow> pe_section list" where
  "pe_sections data sec_off i 0 = []"
| "pe_sections data sec_off i (Suc n) =
     (let chunk = slice (sec_off + i * 40) (sec_off + i * 40 + 24) data in
      if length chunk < 24 then []
      else
        (case struct_unpack False [8, 4, 4, 4, 4] chunk of
           None \<Rightarrow> []
         | Some fs \<Rightarrow> (fs ! 2, fs ! 1, fs ! 4, fs ! 3) # pe_sections data sec_off (i + 1) n))"

fun rva_to_off :: "pe_section list \<Rightarrow> nat \<Rightarrow> nat option" where
  "rva_to_off [] rva = None"
| "rva_to_off ((vaddr, vsize, rawptr, rawsize) # ss) rva =
     (if vaddr \<le> rva \<and> rva < vaddr + max vsize rawsize then Some (rawptr + (rva - vaddr)) else rva_to_off ss rva)"

fun import_loop :: "byte list \<Rightarrow> pe_section list \<Rightarrow> nat \<Rightarrow> nat \<Rightarrow> nat \<Rightarrow> string list" where
  "import_loop data ss table i 0 = []"
| "import_loop data ss table i (Suc n) =
     (let base = table + i * 20; desc = slice base (base + 20) data in
      if length desc < 20 then []
      else
        (case struct_unpack False [4, 4, 4, 4, 4] desc of
           None \<Rightarrow> []
         | Some fs \<Rightarrow>
             if fs ! 0 = 0 \<and> fs ! 3 = 0 \<and> fs ! 4 = 0 then []
             else
               (let nm = (case rva_to_off ss (fs ! 3) of None \<Rightarrow> [] | Some noff \<Rightarrow> cstr data noff None) in
                (if nm \<noteq> [] then [nm] else []) @ import_loop data ss table (i + 1) n)))"

definition pe_imports :: "byte list \<Rightarrow> string list" where
  "pe_imports data =
     (if length data < 0x40 \<or> take 2 data \<noteq> [0x4D, 0x5A] then []
      else case struct_unpack False [4] (slice 0x3C 0x40 data) of
        None \<Rightarrow> []
      | Some l \<Rightarrow>
     (let e_lfanew = l ! 0; coff = e_lfanew + 4; opt = coff + 20 in
      if slice e_lfanew (e_lfanew + 4) data \<noteq> [0x50, 0x45, 0, 0] then []
      else case struct_unpack False [2, 2, 4, 4, 4, 2, 2] (slice coff (coff + 20) data) of
        None \<Rightarrow> []
      | Some c \<Rightarrow>
     (let num_sections = c ! 1; opt_size = c ! 5 in
      case struct_unpack False [2] (slice opt (opt + 2) data) of
        None \<Rightarrow> []
      | Some m \<Rightarrow>
      if m ! 0 \<notin> {0x20B, 0x10B} then []
      else
     (let dd_base = (if m ! 0 = 0x20B then opt + 112 else opt + 96) in
      case struct_unpack False [4, 4] (slice (dd_base + 8) (dd_base + 16) data) of
        None \<Rightarrow> []
      | Some d \<Rightarrow>
      if d ! 0 = 0 then []
      else
     (let ss = pe_sections data (opt + opt_size) 0 (min num_sections 96) in
      case rva_to_off ss (d ! 0) of
        None \<Rightarrow> []
      | Some table \<Rightarrow> import_loop data ss table 0 1024)))))"

section \<open>Mach-O\<close>

definition MACHO_LE64 :: "byte list" where "MACHO_LE64 = [0xCF, 0xFA, 0xED, 0xFE]"
definition MACHO_LE32 :: "byte list" where "MACHO_LE32 = [0xCE, 0xFA, 0xED, 0xFE]"
definition MACHO_BE64 :: "byte list" where "MACHO_BE64 = [0xFE, 0xED, 0xFA, 0xCF]"
definition MACHO_BE32 :: "byte list" where "MACHO_BE32 = [0xFE, 0xED, 0xFA, 0xCE]"
definition MACHO_FAT :: "byte list" where "MACHO_FAT = [0xCA, 0xFE, 0xBA, 0xBE]"

definition MACHO_THIN_MAGICS :: "byte list list" where
  "MACHO_THIN_MAGICS = [MACHO_LE64, MACHO_LE32, MACHO_BE64, MACHO_BE32]"

definition LC_DYLIB_CMDS :: "nat list" where
  "LC_DYLIB_CMDS = [0x0C, 0x1F, 0x80000018, 0x80000023]"

fun command_loop :: "bool \<Rightarrow> byte list \<Rightarrow> nat \<Rightarrow> nat \<Rightarrow> string list" where
  "command_loop big data off 0 = []"
| "command_loop big data off (Suc n) =
     (if off + 8 > length data then []
      else case struct_unpack big [4, 4] (slice off (off + 8) data) of
        None \<Rightarrow> []
      | Some fs \<Rightarrow>
          (let cmd = fs ! 0; cmdsize = fs ! 1 in
           if cmdsize < 8 then []
           else
             (let nm =
                (if cmd \<in> set LC_DYLIB_CMDS \<and> off + 12 \<le> length data
                 then (let name_off = (case struct_unpack big [4] (slice (off + 8) (off + 12) data) of None \<Rightarrow> 0 | Some o' \<Rightarrow> o' ! 0)
                       in if 0 < name_off \<and> name_off < cmdsize then cstr data (off + name_off) (Some (off + cmdsize)) else [])
                 else [])
              in (if nm \<noteq> [] then [nm] else []) @ command_loop big data (off + cmdsize) n)))"

definition macho_thin :: "byte list \<Rightarrow> string list" where
  "macho_thin data =
     (if length data < 28 then []
      else
        (let magic = take 4 data in
         if magic \<notin> set MACHO_THIN_MAGICS then []
         else
           (let big = (magic \<notin> {MACHO_LE64, MACHO_LE32}); is64 = (magic \<in> {MACHO_LE64, MACHO_BE64}) in
            case struct_unpack big [4, 4, 4, 4, 4, 4] (slice 4 28 data) of
              None \<Rightarrow> []
            | Some fs \<Rightarrow> command_loop big data (if is64 then 32 else 28) (min (fs ! 3) 10000))))"

definition macho_dylibs :: "byte list \<Rightarrow> string list" where
  "macho_dylibs data =
     (if take 4 data = MACHO_FAT
      then (case struct_unpack True [4] (slice 4 8 data) of
              None \<Rightarrow> []
            | Some nfat \<Rightarrow>
                if nfat ! 0 = 0 then []
                else (case struct_unpack True [4, 4, 4, 4, 4] (slice 8 28 data) of
                        None \<Rightarrow> []
                      | Some fs \<Rightarrow>
                          if fs ! 2 = 0 \<or> fs ! 2 \<ge> length data then []
                          else macho_thin (slice (fs ! 2) (fs ! 2 + fs ! 3) data)))
      else macho_thin data)"

section \<open>Formats and banners\<close>

definition detect_format :: "byte list \<Rightarrow> string option" where
  "detect_format data =
     (if take 4 data = [0x7F, 0x45, 0x4C, 0x46] then Some ''elf''
      else if take 2 data = [0x4D, 0x5A] then Some ''pe''
      else if take 4 data = MACHO_FAT \<or> take 4 data \<in> set MACHO_THIN_MAGICS then Some ''macho''
      else None)"

text \<open>\<^verbatim>\<open>\s\<close> on text below U+0100: the ASCII blanks, U+0085 and U+00A0.\<close>

definition latin_space :: "char \<Rightarrow> bool" where
  "latin_space c \<longleftrightarrow> is_space c \<or> c = CHR 0x85 \<or> c = CHR 0xA0"

text \<open>\<^verbatim>\<open>\d+\.\d+\.\d+\<close> at the start of a text, with the rest; the runs of digits are maximal.\<close>

definition digits_at :: "string \<Rightarrow> (string \<times> string) option" where
  "digits_at s = (if takeWhile is_digit s = [] then None else Some (takeWhile is_digit s, dropWhile is_digit s))"

definition dot_at :: "string \<Rightarrow> string option" where
  "dot_at s = (case s of c # r \<Rightarrow> if c = CHR ''.'' then Some r else None | [] \<Rightarrow> None)"

definition triple_at :: "string \<Rightarrow> (string \<times> string) option" where
  "triple_at s = do {
     (a, s1) \<leftarrow> digits_at s; s2 \<leftarrow> dot_at s1; (b, s3) \<leftarrow> digits_at s2; s4 \<leftarrow> dot_at s3; (c, s5) \<leftarrow> digits_at s4;
     Some (a @ ''.'' @ b @ ''.'' @ c, s5) }"

definition after_text :: "string \<Rightarrow> string \<Rightarrow> string option" where
  "after_text p s = (if prefix p s then Some (drop (length p) s) else None)"

text \<open>\<^verbatim>\<open>OpenSSL\s+(\d+\.\d+\.\d+[a-z]?)\<close>; a match with its group.\<close>

definition openssl_banner :: "string \<Rightarrow> string option option" where
  "openssl_banner s = do {
     r \<leftarrow> after_text ''OpenSSL'' s;
     (if r \<noteq> [] \<and> latin_space (hd r)
      then do {
        (v, r') \<leftarrow> triple_at (dropWhile latin_space r);
        Some (Some (v @ (if r' \<noteq> [] \<and> is_lower (hd r') then [hd r'] else []))) }
      else None) }"

text \<open>\<^verbatim>\<open>(?:[ /]?(\d+\.\d+\.\d+))?\<close> after a name.\<close>

definition optional_version :: "string \<Rightarrow> string option" where
  "optional_version s =
     map_option fst (triple_at (if s \<noteq> [] \<and> (hd s = CHR '' '' \<or> hd s = CHR ''/'') then tl s else s))"

fun named_banner :: "string list \<Rightarrow> string \<Rightarrow> string option option" where
  "named_banner [] s = None"
| "named_banner (p # ps) s =
     (case after_text p s of Some r \<Rightarrow> Some (optional_version r) | None \<Rightarrow> named_banner ps s)"

definition plain_banner :: "string \<Rightarrow> string \<Rightarrow> string option option" where
  "plain_banner p s = map_option (\<lambda>_. None) (after_text p s)"

definition BANNER_PATTERNS :: "(string \<times> (string \<Rightarrow> string option option)) list" where
  "BANNER_PATTERNS =
     [(''openssl'', openssl_banner), (''boringssl'', plain_banner ''BoringSSL''), (''gnutls'', named_banner [''GnuTLS'']),
      (''libsodium'', named_banner [''libsodium'']),
      (''mbedtls'', named_banner [''MbedTLS'', ''Mbed TLS'', ''mbedTLS'', ''mbed TLS'']),
      (''wolfssl'', named_banner [''wolfSSL'']), (''aws-lc'', named_banner [''AWS-LC''])]"

text \<open>\<^verbatim>\<open>rx.search\<close>: the leftmost position where the pattern matches.\<close>

fun search_text :: "(string \<Rightarrow> 'a option) \<Rightarrow> string \<Rightarrow> 'a option" where
  "search_text m [] = m []"
| "search_text m (c # s) = (case m (c # s) of Some v \<Rightarrow> Some v | None \<Rightarrow> search_text m s)"

definition STRING_SCAN_BYTES :: nat where "STRING_SCAN_BYTES = 2 * 1024 * 1024"

definition scan_banners :: "byte list \<Rightarrow> (string \<times> string option) list" where
  "scan_banners data =
     (let txt = map char_of_byte (take STRING_SCAN_BYTES data) in
      concat (map (\<lambda>(lib_id, rx). case search_text rx txt of None \<Rightarrow> [] | Some version \<Rightarrow> [(lib_id, version)]) BANNER_PATTERNS))"

section \<open>Constant tables\<close>

definition be_words :: "nat list \<Rightarrow> nat \<Rightarrow> byte list" where
  "be_words ws sz = concat (map (endian_bytes True sz) ws)"

definition le_words :: "nat list \<Rightarrow> nat \<Rightarrow> byte list" where
  "le_words ws sz = concat (map (endian_bytes False sz) ws)"

definition AES_SBOX :: "byte list" where
  "AES_SBOX =
     [0x63, 0x7C, 0x77, 0x7B, 0xF2, 0x6B, 0x6F, 0xC5, 0x30, 0x01, 0x67, 0x2B, 0xFE, 0xD7, 0xAB, 0x76,
      0xCA, 0x82, 0xC9, 0x7D, 0xFA, 0x59, 0x47, 0xF0, 0xAD, 0xD4, 0xA2, 0xAF, 0x9C, 0xA4, 0x72, 0xC0]"

definition AES_INV_SBOX :: "byte list" where
  "AES_INV_SBOX =
     [0x52, 0x09, 0x6A, 0xD5, 0x30, 0x36, 0xA5, 0x38, 0xBF, 0x40, 0xA3, 0x9E, 0x81, 0xF3, 0xD7, 0xFB,
      0x7C, 0xE3, 0x39, 0x82, 0x9B, 0x2F, 0xFF, 0x87, 0x34, 0x8E, 0x43, 0x44, 0xC4, 0xDE, 0xE9, 0xCB]"

definition SHA256_K :: "nat list" where
  "SHA256_K = [0x428A2F98, 0x71374491, 0xB5C0FBCF, 0xE9B5DBA5, 0x3956C25B, 0x59F111F1, 0x923F82A4, 0xAB1C5ED5]"
definition SHA512_K :: "nat list" where
  "SHA512_K = [0x428A2F98D728AE22, 0x7137449123EF65CD, 0xB5C0FBCFEC4D3B2F]"
definition SHA1_K :: "nat list" where "SHA1_K = [0x5A827999, 0x6ED9EBA1, 0x8F1BBCDC, 0xCA62C1D6]"
definition MD5_T :: "nat list" where "MD5_T = [0xD76AA478, 0xE8C7B756, 0x242070DB, 0xC1BDCEEE]"
definition BLOWFISH_P :: "nat list" where "BLOWFISH_P = [0x243F6A88, 0x85A308D3, 0x13198A2E, 0x03707344]"
definition KECCAK_RC :: "nat list" where "KECCAK_RC = [0x0000000000000001, 0x0000000000008082, 0x800000000000808A]"

definition text_bytes :: "string \<Rightarrow> byte list" where
  "text_bytes s = map (\<lambda>c. byte_of (char_code c)) s"

definition SIGNATURES :: "(string \<times> byte list \<times> string) list" where
  "SIGNATURES =
     [(''AES'', AES_SBOX, ''AES S-box''),
      (''AES'', AES_INV_SBOX, ''AES inverse S-box''),
      (''SHA-256'', be_words SHA256_K 4, ''SHA-256 round constants (BE)''),
      (''SHA-256'', le_words SHA256_K 4, ''SHA-256 round constants (LE)''),
      (''SHA-512'', be_words SHA512_K 8, ''SHA-512 round constants (BE)''),
      (''SHA-512'', le_words SHA512_K 8, ''SHA-512 round constants (LE)''),
      (''SHA-1'', be_words SHA1_K 4, ''SHA-1 round constants (BE)''),
      (''SHA-1'', le_words SHA1_K 4, ''SHA-1 round constants (LE)''),
      (''MD5'', be_words MD5_T 4, ''MD5 T-table (BE)''),
      (''MD5'', le_words MD5_T 4, ''MD5 T-table (LE)''),
      (''Blowfish'', be_words BLOWFISH_P 4, ''Blowfish P-array / pi (BE)''),
      (''Blowfish'', le_words BLOWFISH_P 4, ''Blowfish P-array / pi (LE)''),
      (''ChaCha20'', text_bytes ''expand 32-byte k'', ''ChaCha20/Salsa20 sigma''),
      (''ChaCha20'', text_bytes ''expand 16-byte k'', ''ChaCha20/Salsa20 tau''),
      (''SHA-3'', be_words KECCAK_RC 8, ''Keccak round constants (BE)''),
      (''SHA-3'', le_words KECCAK_RC 8, ''Keccak round constants (LE)'')]"

definition scan_crypto_constants :: "byte list \<Rightarrow> (string \<times> string) list" where
  "scan_crypto_constants data =
     foldl (\<lambda>found (algo, needle, note).
              if dict_get found algo \<noteq> None then found
              else if sublist needle data then dict_set algo note found else found) [] SIGNATURES"

end
