(* ===== verification/Binary_Scan.thy ===== *)
theory Binary_Scan
  imports Binary
begin

text \<open>
  The probe of \<^verbatim>\<open>probes/fs_binary_crypto.py\<close>: what one file yields, the findings made of it, and the sweep
  over the files with its two caps. The directory listing, the readable bytes of each file and the clock are
  arguments. A file is read twice, its first four bytes and then a bounded prefix of it.
\<close>

section \<open>Hits\<close>

record bin_hit =
  bh_library :: string
  bh_fmt :: string
  bh_origin :: string
  bh_confidence :: string
  bh_kind :: string
  bh_version :: "string option"
  bh_detail :: "string option"
  bh_reachability :: string
  bh_symbols :: "string list option"

definition library_hit :: "string \<Rightarrow> string \<Rightarrow> string \<Rightarrow> string \<Rightarrow> string option \<Rightarrow> string option \<Rightarrow> bin_hit" where
  "library_hit lib fmt origin conf version detail =
     \<lparr>bh_library = lib, bh_fmt = fmt, bh_origin = origin, bh_confidence = conf, bh_kind = ''library'', bh_version = version,
      bh_detail = detail, bh_reachability = ''unknown'', bh_symbols = None\<rparr>"

definition constant_hit :: "string \<Rightarrow> string \<Rightarrow> string \<Rightarrow> bin_hit" where
  "constant_hit algo fmt note =
     \<lparr>bh_library = algo, bh_fmt = fmt, bh_origin = ''constant'', bh_confidence = ''medium'', bh_kind = ''constant'',
      bh_version = None, bh_detail = Some note, bh_reachability = ''unknown'', bh_symbols = None\<rparr>"

section \<open>One file\<close>

fun linked_hits :: "string \<Rightarrow> string list \<Rightarrow> bin_hit dict \<Rightarrow> bin_hit dict" where
  "linked_hits fmt [] hits = hits"
| "linked_hits fmt (raw # linked) hits =
     (case match_lib raw of
        None \<Rightarrow> linked_hits fmt linked hits
      | Some lib_id \<Rightarrow>
          if dict_get hits lib_id \<noteq> None then linked_hits fmt linked hits
          else linked_hits fmt linked
                 (dict_set lib_id (library_hit lib_id fmt ''linked'' ''high'' None (Some raw)) hits))"

definition assess_reach :: "string list \<Rightarrow> bin_hit \<Rightarrow> bin_hit" where
  "assess_reach imports hit =
     (case dict_get CRYPTO_SYMBOL_PREFIXES (bh_library hit) of
        None \<Rightarrow> hit
      | Some prefixes' \<Rightarrow>
          (let matched = sort (filter (\<lambda>s. startswith_any s prefixes') imports) in
           if matched \<noteq> [] then hit\<lparr>bh_reachability := ''invoked'', bh_symbols := Some (take 10 matched)\<rparr>
           else hit\<lparr>bh_reachability := ''linked-only''\<rparr>))"

definition reach_hits :: "string \<Rightarrow> byte list \<Rightarrow> bin_hit dict \<Rightarrow> bin_hit dict" where
  "reach_hits fmt data hits =
     (if fmt = ''elf'' \<and> hits \<noteq> []
      then (let imports = elf_dynsym_imports data in
            if imports \<noteq> [] then map (\<lambda>(k, hit). (k, assess_reach imports hit)) hits else hits)
      else hits)"

fun banner_hits :: "string \<Rightarrow> (string \<times> string option) list \<Rightarrow> bin_hit dict \<Rightarrow> bin_hit dict" where
  "banner_hits fmt [] hits = hits"
| "banner_hits fmt ((lib_id, version) # bs) hits =
     banner_hits fmt bs
       (case dict_get hits lib_id of
          Some existing \<Rightarrow>
            if bh_version existing = None \<and> version \<noteq> None
            then dict_set lib_id (existing\<lparr>bh_version := version\<rparr>) hits else hits
        | None \<Rightarrow> dict_set lib_id (library_hit lib_id fmt ''embedded'' ''medium'' version None) hits)"

definition constant_hits :: "string \<Rightarrow> byte list \<Rightarrow> bin_hit dict \<Rightarrow> bin_hit dict" where
  "constant_hits fmt data hits =
     (if hits = []
      then foldl (\<lambda>hs (algo, note). dict_set (''const:'' @ algo) (constant_hit algo fmt note) hs) hits (scan_crypto_constants data)
      else hits)"

definition linked_names :: "string \<Rightarrow> byte list \<Rightarrow> string list" where
  "linked_names fmt data =
     (if fmt = ''elf'' then elf_needed data else if fmt = ''pe'' then pe_imports data else macho_dylibs data)"

definition hits_of :: "string \<Rightarrow> byte list \<Rightarrow> bin_hit dict" where
  "hits_of fmt data =
     constant_hits fmt data
       (banner_hits fmt (scan_banners data)
         (reach_hits fmt data (linked_hits fmt (linked_names fmt data) [])))"

text \<open>A file: its name and path, the first four bytes and the prefix that a full read returns (\<^const>\<open>None\<close> when
  reading fails).\<close>

record bin_file =
  bf_name :: string
  bf_path :: string
  bf_head :: "byte list option"
  bf_data :: "byte list option"

definition scan_binary :: "bin_file \<Rightarrow> bin_hit list" where
  "scan_binary f =
     (case bf_head f of
        None \<Rightarrow> []
      | Some head \<Rightarrow>
          if detect_format head = None then []
          else (case bf_data f of
                  None \<Rightarrow> []
                | Some data \<Rightarrow>
                    (case detect_format data of
                       None \<Rightarrow> []
                     | Some fmt \<Rightarrow> map snd (hits_of fmt data))))"

section \<open>Findings\<close>

definition BINARY_PROBE :: string where "BINARY_PROBE = ''fs.binary.crypto''"

definition opt_json :: "string option \<Rightarrow> json" where
  "opt_json v = (case v of None \<Rightarrow> JNull | Some s \<Rightarrow> JStr s)"

definition text_or_none :: "string option \<Rightarrow> string" where
  "text_or_none v = (case v of None \<Rightarrow> ''None'' | Some s \<Rightarrow> s)"

definition constant_finding :: "int \<Rightarrow> bin_file \<Rightarrow> bin_hit \<Rightarrow> finding" where
  "constant_finding now f hit =
     (let cls = classify (bh_library hit) in
      \<lparr>probe_id = BINARY_PROBE, algorithm = bh_library hit, classification = cls, severity = sev_for cls,
       title = bf_name f @ '': embedded '' @ bh_library hit @ '' constant ('' @ text_or_none (bh_detail hit) @
         '') '' @ DASH @ '' statically-linked/stripped crypto'',
       component_purl = None,
       evidence = [(''path'', JStr (bf_path f)), (''format'', JStr (bh_fmt hit)), (''detection'', JStr ''constant-signature''),
         (''algorithm'', JStr (bh_library hit)), (''signature'', opt_json (bh_detail hit)), (''confidence'', JStr ''medium'')],
       remediation = [], confidence = ''medium'', created_at = now\<rparr>)"

definition binary_evidence :: "bin_file \<Rightarrow> bin_hit \<Rightarrow> string \<Rightarrow> string \<Rightarrow> pydict" where
  "binary_evidence f hit linked note =
     (let e0 = [(''path'', JStr (bf_path f)), (''format'', JStr (bh_fmt hit)), (''linked'', JStr linked),
            (''library'', JStr (bh_library hit)), (''version'', opt_json (bh_version hit)), (''note'', JStr note)];
          e1 = (case bh_detail hit of None \<Rightarrow> e0 | Some d \<Rightarrow> dict_set ''matched'' (JStr d) e0);
          e2 = (if bh_origin hit = ''embedded'' then dict_set ''confidence'' (JStr ''medium'') e1 else e1);
          e3 = dict_set ''reachability'' (JStr (bh_reachability hit)) e2
      in if bh_reachability hit = ''invoked'' \<and> bh_symbols hit \<noteq> None \<and> bh_symbols hit \<noteq> Some []
         then dict_set ''imported_crypto_symbols'' (JList (map JStr (the (bh_symbols hit)))) e3
         else if bh_reachability hit = ''linked-only'' then dict_set ''confidence'' (JStr ''low'') e3
         else e3)"

definition binary_confidence :: "bin_hit \<Rightarrow> string" where
  "binary_confidence hit =
     (if bh_reachability hit = ''invoked'' \<and> bh_symbols hit \<noteq> None \<and> bh_symbols hit \<noteq> Some [] then bh_confidence hit
      else if bh_reachability hit = ''linked-only'' then ''low'' else bh_confidence hit)"

definition binary_finding :: "int \<Rightarrow> bin_file \<Rightarrow> bin_hit \<Rightarrow> finding" where
  "binary_finding now f hit =
     (if bh_kind hit = ''constant'' then constant_finding now f hit
      else
        (let (cls, note) = classify_lib (bh_library hit) (bh_version hit);
             linked = (if bh_origin hit = ''linked'' then ''linked'' else ''embedded'');
             purl = ''pkg:generic/'' @ bh_library hit @ (case bh_version hit of None \<Rightarrow> [] | Some v \<Rightarrow> ''@'' @ v) in
         \<lparr>probe_id = BINARY_PROBE, algorithm = (if bh_version hit \<noteq> None then purl else bh_library hit), classification = cls,
          severity = sev_for cls,
          title = bf_name f @ '': '' @ bh_library hit @ '' crypto library ('' @ linked @ '') '' @ DASH @ '' '' @ note,
          component_purl = Some purl, evidence = binary_evidence f hit linked note, remediation = [],
          confidence = binary_confidence hit, created_at = now\<rparr>))"

section \<open>The sweep\<close>

definition EXCLUDE_DIRS :: "string list" where
  "EXCLUDE_DIRS = [''.git'', ''node_modules'', ''.venv'', ''venv'', ''__pycache__'', ''.mypy_cache'', ''.pytest_cache'', ''.gradle'',
     ''.m2'', ''.cargo'', ''.bundle'']"

definition DEFAULT_BINARY_ROOTS :: "string list" where
  "DEFAULT_BINARY_ROOTS = [''/usr/bin'', ''/usr/sbin'', ''/bin'', ''/sbin'', ''/usr/local/bin'', ''/usr/local/sbin'', ''/opt'']"

definition MAX_DEFAULT_FILES :: nat where "MAX_DEFAULT_FILES = 50000"
definition MAX_BINARY_FINDINGS :: nat where "MAX_BINARY_FINDINGS = 500"

text \<open>What the file system answers for a root: an entry below a directory has its path components and the two
  tests, \<^const>\<open>None\<close> when one of them raises \<^verbatim>\<open>OSError\<close>.\<close>

record fs_entry =
  fe_parts :: "string list"
  fe_symlink :: "bool option"
  fe_file :: "bool option"
  fe_content :: bin_file

datatype fs_root = Root_File bin_file | Root_Other | Root_Dir "fs_entry list"

definition entry_kept :: "fs_entry \<Rightarrow> bool" where
  "entry_kept p \<longleftrightarrow> \<not> list_ex (\<lambda>part. part \<in> set EXCLUDE_DIRS) (fe_parts p) \<and> fe_symlink p = Some False \<and> fe_file p = Some True"

fun iter_files :: "fs_root list \<Rightarrow> bin_file list" where
  "iter_files [] = []"
| "iter_files (Root_File f # rs) = f # iter_files rs"
| "iter_files (Root_Other # rs) = iter_files rs"
| "iter_files (Root_Dir es # rs) = map fe_content (filter entry_kept es) @ iter_files rs"

definition effective_roots :: "string list option \<Rightarrow> string list \<Rightarrow> (string \<Rightarrow> bool) \<Rightarrow> string list" where
  "effective_roots roots scan_paths exists' =
     (case roots of
        Some rs \<Rightarrow> rs
      | None \<Rightarrow> if scan_paths \<noteq> [] then scan_paths else filter exists' DEFAULT_BINARY_ROOTS)"

definition visit_budget :: "string list option \<Rightarrow> string list \<Rightarrow> nat option" where
  "visit_budget roots scan_paths = (if roots = None \<and> scan_paths = [] then Some MAX_DEFAULT_FILES else None)"

record sweep =
  sw_out :: "finding list"
  sw_emitted :: nat
  sw_visited :: nat
  sw_capped :: bool
  sw_truncated :: bool

fun emit_binary :: "int \<Rightarrow> bin_file \<Rightarrow> bin_hit list \<Rightarrow> sweep \<Rightarrow> sweep" where
  "emit_binary now f [] st = st"
| "emit_binary now f (hit # hits) st =
     (if sw_emitted st \<ge> MAX_BINARY_FINDINGS then st\<lparr>sw_capped := True\<rparr>
      else emit_binary now f hits
             (st\<lparr>sw_out := sw_out st @ [binary_finding now f hit], sw_emitted := sw_emitted st + 1\<rparr>))"

fun sweep_files :: "int \<Rightarrow> nat option \<Rightarrow> bin_file list \<Rightarrow> sweep \<Rightarrow> sweep" where
  "sweep_files now budget [] st = st"
| "sweep_files now budget (f # fs) st =
     (if sw_capped st then st
      else if (case budget of None \<Rightarrow> False | Some b \<Rightarrow> sw_visited st \<ge> b) then st\<lparr>sw_truncated := True\<rparr>
      else sweep_files now budget fs (emit_binary now f (scan_binary f) (st\<lparr>sw_visited := sw_visited st + 1\<rparr>)))"

definition capped_note :: "int \<Rightarrow> finding" where
  "capped_note now =
     \<lparr>probe_id = BINARY_PROBE, algorithm = ''N/A'', classification = CLS_INFO, severity = sev_for CLS_INFO,
      title = ''finding cap ('' @ show_nat MAX_BINARY_FINDINGS @ '') reached '' @ DASH @ '' binary crypto output truncated'',
      component_purl = None, evidence = [(''cap'', JInt (int MAX_BINARY_FINDINGS))], remediation = [],
      confidence = ''high'', created_at = now\<rparr>"

definition budget_note :: "int \<Rightarrow> string list \<Rightarrow> finding" where
  "budget_note now roots =
     \<lparr>probe_id = BINARY_PROBE, algorithm = ''N/A'', classification = CLS_INFO, severity = sev_for CLS_INFO,
      title = ''default-scan file budget ('' @ show_nat MAX_DEFAULT_FILES @
        '') reached '' @ DASH @ '' pass --path to scan a specific tree exhaustively'',
      component_purl = None,
      evidence = [(''file_budget'', JInt (int MAX_DEFAULT_FILES)), (''roots'', JList (map JStr roots))], remediation = [],
      confidence = ''high'', created_at = now\<rparr>"

text \<open>\<open>listing\<close> is what the file system answers for a root.\<close>

definition run_binary ::
  "int \<Rightarrow> string list option \<Rightarrow> string list \<Rightarrow> (string \<Rightarrow> bool) \<Rightarrow> (string \<Rightarrow> fs_root) \<Rightarrow> finding list" where
  "run_binary now roots scan_paths exists' listing =
     (let rs = effective_roots roots scan_paths exists';
          st = sweep_files now (visit_budget roots scan_paths) (iter_files (map listing rs))
                 \<lparr>sw_out = [], sw_emitted = 0, sw_visited = 0, sw_capped = False, sw_truncated = False\<rparr>
      in sw_out st @ (if sw_capped st then [capped_note now] else []) @ (if sw_truncated st then [budget_note now rs] else []))"

end
