(* ===== verification/Binary_Laws.thy ===== *)
theory Binary_Laws
  imports Binary_Scan
begin

text \<open>
  What \<open>Binary\<close> reads out of the files a linker writes, against writers of the three container formats, and
  what the probe makes of it.
\<close>

section \<open>Names in string tables\<close>

definition name_ok :: "string \<Rightarrow> bool" where
  "name_ok s \<longleftrightarrow> s \<noteq> [] \<and> list_all (\<lambda>c. 0 < char_code c \<and> char_code c < 128) s"

definition nul_name :: "string \<Rightarrow> byte list" where
  "nul_name s = text_bytes s @ [0]"

lemma length_nul_name [simp]: "length (nul_name s) = length s + 1" "length (text_bytes s) = length s"
  by (simp_all add: nul_name_def text_bytes_def)

lemma byte_of_code: "unat (byte_of (char_code c)) = char_code c"
  using char_code_less by (rule unat_byte_of)

lemma decode_text_bytes: "list_all (\<lambda>c. char_code c < 128) s \<Longrightarrow> decode_ascii (text_bytes s) = s"
proof (induction s)
  case (Cons c s)
  have "byte_of (char_code c) < 128" using Cons.prems byte_of_code [of c] by (simp add: word_less_nat_alt)
  with Cons show ?case by (simp add: decode_ascii_def text_bytes_def char_of_byte_def byte_of_code)
qed (simp add: decode_ascii_def text_bytes_def)

lemma text_bytes_no_nul: "list_all (\<lambda>c. 0 < char_code c) s \<Longrightarrow> b \<in> set (text_bytes s) \<Longrightarrow> b \<noteq> 0"
proof
  assume s: "list_all (\<lambda>c. 0 < char_code c) s" "b \<in> set (text_bytes s)" "b = 0"
  then obtain c where "c \<in> set s" "byte_of (char_code c) = 0" by (auto simp: text_bytes_def)
  with s byte_of_code [of c] show False by (auto simp: list_all_iff)
qed

lemma cstr_nul_name:
  assumes "block_at data p (nul_name s)" "name_ok s" "case e of None \<Rightarrow> True | Some e' \<Rightarrow> p + length s < e'"
  shows "cstr data p e = s"
proof -
  define m where "m = (case e of None \<Rightarrow> length data | Some e' \<Rightarrow> min e' (length data))"
  have b: "p + length s + 1 \<le> length data" using block_at_bound [OF assms(1)] by simp
  then have m: "p + length (nul_name s) \<le> m" using assms(3) by (simp add: m_def split: option.splits)
  have "slice p m data = slice p (p + length (nul_name s)) data @ slice (p + length (nul_name s)) m data"
    by (rule slice_split) (use m in simp_all)
  then have s: "slice p m data = text_bytes s @ 0 # slice (p + length (nul_name s)) m data"
    using block_at_slice [OF assms(1) refl] by (simp add: nul_name_def)
  have "takeWhile (\<lambda>b. b \<noteq> 0) (slice p m data) = text_bytes s"
    unfolding s using text_bytes_no_nul [of s] assms(2) by (auto simp: takeWhile_append name_ok_def list_all_iff)
  moreover have "decode_ascii (text_bytes s) = s"
    using assms(2) by (intro decode_text_bytes) (auto simp: name_ok_def list_all_iff)
  ultimately show ?thesis using b by (simp add: cstr_def m_def [symmetric])
qed

section \<open>ELF files\<close>

text \<open>A dynamic entry: a needed library, or another tag that does not end the table.\<close>

datatype dyn_entry = Needed string | Other_Entry nat nat

text \<open>Symbols have a name and a section index, 0 for an import.\<close>

record elf_desc =
  ed_big :: bool
  ed_64 :: bool
  ed_dyn :: "dyn_entry list"
  ed_syms :: "(string \<times> nat) list"

fun needed_names :: "dyn_entry list \<Rightarrow> string list" where
  "needed_names [] = []"
| "needed_names (Needed s # es) = s # needed_names es"
| "needed_names (Other_Entry t v # es) = needed_names es"

definition undefined_names :: "(string \<times> nat) list \<Rightarrow> string list" where
  "undefined_names syms = map fst (filter (\<lambda>(_, i). i = 0) syms)"

fun dyn_rows :: "nat \<Rightarrow> dyn_entry list \<Rightarrow> (nat \<times> nat) list" where
  "dyn_rows p [] = []"
| "dyn_rows p (Needed s # es) = (1, p) # dyn_rows (p + length s + 1) es"
| "dyn_rows p (Other_Entry t v # es) = (t, v) # dyn_rows p es"

fun sym_rows :: "nat \<Rightarrow> (string \<times> nat) list \<Rightarrow> (nat \<times> nat) list" where
  "sym_rows p [] = []"
| "sym_rows p ((s, i) # ss) = (p, i) # sym_rows (p + length s + 1) ss"

definition dyn_bytes :: "bool \<Rightarrow> bool \<Rightarrow> nat \<times> nat \<Rightarrow> byte list" where
  "dyn_bytes big is64 r = struct_pack big [(dyn_width is64, fst r), (dyn_width is64, snd r)]"

definition sym_bytes :: "bool \<Rightarrow> bool \<Rightarrow> nat \<times> nat \<Rightarrow> byte list" where
  "sym_bytes big is64 r =
     struct_pack big (zip (sym_format is64) (if is64 then [fst r, 0x12, 0, snd r, 0, 0] else [fst r, 0, 0, 0x12, 0, snd r]))"

definition shdr_bytes :: "bool \<Rightarrow> bool \<Rightarrow> elf_section \<Rightarrow> byte list" where
  "shdr_bytes big is64 s =
     (case s of (ty, off, sz, link) \<Rightarrow> struct_pack big (zip (shdr_format is64) [0, ty, 0, 0, off, sz, link, 0, 0, 0]))"

definition ehdr_bytes :: "bool \<Rightarrow> bool \<Rightarrow> nat \<Rightarrow> nat \<Rightarrow> byte list" where
  "ehdr_bytes big is64 shoff shnum =
     [0x7F, 0x45, 0x4C, 0x46, if is64 then 2 else 1, if big then 2 else 1, 1] @ zeros 9 @
     struct_pack big (zip (ehdr_format is64)
       [3, 62, 1, 0, 0, shoff, 0, if is64 then 64 else 52, 0, 0, sum_list (shdr_format is64), shnum, 0])"

definition ehdr_size :: "bool \<Rightarrow> nat" where
  "ehdr_size is64 = (if is64 then 64 else 52)"

definition strtab_bytes :: "elf_desc \<Rightarrow> byte list" where
  "strtab_bytes d = 0 # concat (map nul_name (needed_names (ed_dyn d) @ map fst (ed_syms d)))"

definition dynamic_bytes :: "elf_desc \<Rightarrow> byte list" where
  "dynamic_bytes d = concat (map (dyn_bytes (ed_big d) (ed_64 d)) (dyn_rows 1 (ed_dyn d) @ [(0, 0)]))"

definition sym_base :: "elf_desc \<Rightarrow> nat" where
  "sym_base d = 1 + length (concat (map nul_name (needed_names (ed_dyn d))))"

definition dynsym_bytes :: "elf_desc \<Rightarrow> byte list" where
  "dynsym_bytes d = concat (map (sym_bytes (ed_big d) (ed_64 d)) ((0, 0) # sym_rows (sym_base d) (ed_syms d)))"

definition elf_secs :: "elf_desc \<Rightarrow> elf_section list" where
  "elf_secs d =
     (let s0 = ehdr_size (ed_64 d); s1 = s0 + length (strtab_bytes d); s2 = s1 + length (dynamic_bytes d) in
      [(0, 0, 0, 0), (3, s0, length (strtab_bytes d), 0), (SHT_DYNAMIC, s1, length (dynamic_bytes d), 1),
       (SHT_DYNSYM, s2, length (dynsym_bytes d), 1)])"

definition elf_body :: "elf_desc \<Rightarrow> byte list" where
  "elf_body d = strtab_bytes d @ dynamic_bytes d @ dynsym_bytes d"

definition elf_image :: "elf_desc \<Rightarrow> byte list" where
  "elf_image d =
     ehdr_bytes (ed_big d) (ed_64 d) (ehdr_size (ed_64 d) + length (elf_body d)) (length (elf_secs d)) @ elf_body d @
     concat (map (shdr_bytes (ed_big d) (ed_64 d)) (elf_secs d))"

text \<open>What the writer needs: names that a string table can hold, tags that fit, counts below the caps of the
  reader, a file below 4 GiB.\<close>

fun dyn_entry_ok :: "bool \<Rightarrow> dyn_entry \<Rightarrow> bool" where
  "dyn_entry_ok is64 (Needed s) = name_ok s"
| "dyn_entry_ok is64 (Other_Entry t v) =
     (t \<noteq> 0 \<and> t \<noteq> DT_NEEDED \<and> t < 256 ^ dyn_width is64 \<and> v < 256 ^ dyn_width is64)"

definition elf_ok :: "elf_desc \<Rightarrow> bool" where
  "elf_ok d \<longleftrightarrow> list_all (dyn_entry_ok (ed_64 d)) (ed_dyn d) \<and> list_all (\<lambda>(s, i). name_ok s \<and> i < 65536) (ed_syms d) \<and>
     length (ed_dyn d) < MAX_DYNAMIC \<and> length (ed_syms d) < MAX_DYNSYM \<and> length (elf_image d) < 4294967296"

subsection \<open>The header and the sections\<close>

lemma format_widths [simp]:
  "sum_list (ehdr_format is64) = (if is64 then 48 else 36)" "sum_list (shdr_format is64) = (if is64 then 64 else 40)"
  "sum_list (sym_format is64) = (if is64 then 24 else 16)"
  by (simp_all add: ehdr_format_def shdr_format_def sym_format_def)

lemma length_rows [simp]:
  "length (dyn_bytes big is64 r) = 2 * dyn_width is64" "length (sym_bytes big is64 r) = (if is64 then 24 else 16)"
  "length (shdr_bytes big is64 s) = (if is64 then 64 else 40)" "length (ehdr_bytes big is64 shoff n) = ehdr_size is64"
  by (auto simp: dyn_bytes_def sym_bytes_def shdr_bytes_def ehdr_bytes_def ehdr_size_def sym_format_def shdr_format_def
        ehdr_format_def zeros_def split: prod.splits)

lemma elf_header_ehdr:
  assumes "block_at data 0 (ehdr_bytes big is64 shoff n)" "shoff < 4294967296" "n < 65536" "64 \<le> length data"
  shows "elf_header data = Some \<lparr>eh_big = big, eh_64 = is64, eh_shoff = shoff, eh_shentsize = sum_list (shdr_format is64), eh_shnum = n\<rparr>"
proof -
  define fs where "fs = zip (ehdr_format is64)
       [3, 62, 1, 0, 0, shoff, 0, if is64 then 64 else 52, 0, 0, sum_list (shdr_format is64), n, 0]"
  define ident where "ident = [0x7F, 0x45, 0x4C, 0x46, if is64 then 2 else 1, if big then 2 else 1, 1] @ zeros 9"
  have i: "length ident = 16" by (simp add: ident_def zeros_def)
  have b: "block_at data 0 (ident @ struct_pack big fs)"
    using assms(1) by (simp add: ehdr_bytes_def ident_def fs_def)
  have sl: "slice 0 16 data = ident" and f: "slice 16 (16 + length (struct_pack big fs)) data = struct_pack big fs"
    using b i by (simp_all add: block_at_append block_at_slice)
  have l: "length (struct_pack big fs) = (if is64 then 48 else 36)" by (simp add: fs_def ehdr_format_def)
  have t: "take 16 data = ident" using sl by (simp add: slice_def)
  have "take 4 data = take 4 ident" using t by (metis take_take min.absorb1 numeral_le_iff semiring_norm(69) semiring_norm(68) semiring_norm(71) semiring_norm(78))
  moreover have "data ! 4 = ident ! 4" "data ! 5 = ident ! 5" using t nth_take [of 4 16 data] nth_take [of 5 16 data] by simp_all
  moreover have "struct_unpack big (ehdr_format is64) (struct_pack big fs) = Some (map snd fs)"
    by (rule struct_unpack_pack) (use assms(2, 3) in \<open>simp_all add: fs_def ehdr_format_def\<close>)
  ultimately show ?thesis
    using assms(4) f l by (cases is64; cases big) (simp_all add: elf_header_def ident_def fs_def ehdr_format_def Let_def)
qed

definition sec_ok :: "elf_section \<Rightarrow> bool" where
  "sec_ok s = (case s of (ty, off, sz, link) \<Rightarrow> ty < 4294967296 \<and> off < 4294967296 \<and> sz < 4294967296 \<and> link < 4294967296)"

lemma elf_sections_shdrs:
  assumes "list_all sec_ok ss" "eh_shentsize h = sum_list (shdr_format (eh_64 h))"
    "block_at data (eh_shoff h + i * eh_shentsize h) (concat (map (shdr_bytes (eh_big h) (eh_64 h)) ss))"
  shows "elf_sections h data i (length ss) = ss"
  using assms(1, 3)
proof (induction ss arbitrary: i)
  case (Cons s ss)
  let ?w = "sum_list (shdr_format (eh_64 h))" and ?b = "eh_shoff h + i * eh_shentsize h"
  obtain ty off sz link where s: "s = (ty, off, sz, link)" by (cases s)
  have blk: "block_at data ?b (shdr_bytes (eh_big h) (eh_64 h) s)" and
    rest: "block_at data (eh_shoff h + (i + 1) * eh_shentsize h) (concat (map (shdr_bytes (eh_big h) (eh_64 h)) ss))"
    using Cons.prems(2) assms(2) by (simp_all add: block_at_append add.commute add.left_commute)
  have sl: "slice ?b (?b + ?w) data = shdr_bytes (eh_big h) (eh_64 h) s"
    using block_at_slice [OF blk] by simp
  have u: "struct_unpack (eh_big h) (shdr_format (eh_64 h)) (shdr_bytes (eh_big h) (eh_64 h) s) = Some [0, ty, 0, 0, off, sz, link, 0, 0, 0]"
    unfolding shdr_bytes_def s prod.case
    by (subst struct_unpack_pack) (use Cons.prems(1) s in \<open>auto simp: shdr_format_def sec_ok_def\<close>)
  have ok: "list_all sec_ok ss" using Cons.prems(1) by simp
  show ?case
    using Cons.IH [OF ok rest] u sl s by (cases "eh_64 h") (simp_all add: Let_def)
qed simp

subsection \<open>The dynamic table\<close>

definition dyn_name :: "byte list \<Rightarrow> nat \<Rightarrow> nat \<Rightarrow> nat \<times> nat \<Rightarrow> string list" where
  "dyn_name data so ssz r =
     (let name = (if fst r = DT_NEEDED then cstr data (so + snd r) (Some (so + ssz)) else []) in if name \<noteq> [] then [name] else [])"

lemma signed_field_small: "t < 256 ^ w \<Longrightarrow> signed_field w t = 0 \<longleftrightarrow> t = 0" "w \<noteq> 0 \<Longrightarrow> t < 256 ^ w \<Longrightarrow> signed_field w t = 1 \<longleftrightarrow> t = 1"
proof -
  assume t: "t < 256 ^ w"
  then have n: "int t < 256 ^ w" by (metis of_nat_less_iff of_nat_numeral of_nat_power)
  then show "signed_field w t = 0 \<longleftrightarrow> t = 0" by (auto simp: signed_field_def)
  assume "w \<noteq> 0"
  then have "256 ^ 1 \<le> (256 :: nat) ^ w" by (intro power_increasing) auto
  moreover have "int t - 256 ^ w \<noteq> 1" using n by linarith
  ultimately show "signed_field w t = 1 \<longleftrightarrow> t = 1" by (auto simp: signed_field_def)
qed

lemma needed_loop_rows:
  assumes "list_all (\<lambda>(t, v). t \<noteq> 0 \<and> t < 256 ^ dyn_width (eh_64 h) \<and> v < 256 ^ dyn_width (eh_64 h)) rs" "length rs < n"
    "block_at data (off + i * (2 * dyn_width (eh_64 h))) (concat (map (dyn_bytes (eh_big h) (eh_64 h)) (rs @ [(0, 0)])))"
  shows "needed_loop h data off so ssz i n = concat (map (dyn_name data so ssz) rs)"
  using assms
proof (induction rs arbitrary: i n)
  case Nil
  let ?w = "dyn_width (eh_64 h)"
  obtain m where n: "n = Suc m" using Nil.prems(2) by (cases n) auto
  have sl: "slice (off + i * (2 * ?w)) (off + i * (2 * ?w) + 2 * ?w) data = dyn_bytes (eh_big h) (eh_64 h) (0, 0)"
    using Nil.prems(3) by (intro block_at_slice) (simp_all)
  have u: "struct_unpack (eh_big h) [?w, ?w] (dyn_bytes (eh_big h) (eh_64 h) (0, 0)) = Some [0, 0]"
    unfolding dyn_bytes_def by (subst struct_unpack_pack) simp_all
  show ?case using u by (simp add: n Let_def sl signed_field_def)
next
  case (Cons r rs)
  let ?w = "dyn_width (eh_64 h)" and ?b = "off + i * (2 * dyn_width (eh_64 h))"
  obtain t v where r: "r = (t, v)" by (cases r)
  obtain m where n: "n = Suc m" "length rs < m" using Cons.prems(2) by (cases n) auto
  have tv: "t \<noteq> 0" "t < 256 ^ ?w" "v < 256 ^ ?w" using Cons.prems(1) r by simp_all
  have w: "?w \<noteq> 0" by (simp add: dyn_width_def)
  have blk: "block_at data ?b (dyn_bytes (eh_big h) (eh_64 h) r)" and
    rest: "block_at data (off + (i + 1) * (2 * ?w)) (concat (map (dyn_bytes (eh_big h) (eh_64 h)) (rs @ [(0, 0)])))"
    using Cons.prems(3) by (simp_all add: block_at_append algebra_simps)
  have sl: "slice ?b (?b + 2 * ?w) data = dyn_bytes (eh_big h) (eh_64 h) r"
    by (rule block_at_slice [OF blk]) simp
  have u: "struct_unpack (eh_big h) [?w, ?w] (dyn_bytes (eh_big h) (eh_64 h) r) = Some [t, v]"
    unfolding dyn_bytes_def by (subst struct_unpack_pack) (use tv r in simp_all)
  have ih: "needed_loop h data off so ssz (i + 1) m = concat (map (dyn_name data so ssz) rs)"
    using Cons.prems(1) by (intro Cons.IH n(2) rest) simp
  have "signed_field ?w t \<noteq> 0" "signed_field ?w t = int DT_NEEDED \<longleftrightarrow> t = DT_NEEDED"
    using signed_field_small(1) [OF tv(2)] signed_field_small(2) [OF w tv(2)] tv(1) by (simp_all add: DT_NEEDED_def)
  with ih u show ?case by (simp add: n(1) Let_def sl r dyn_name_def [where r = "(t, v)"])
qed

lemma dyn_rows_names:
  assumes "list_all (dyn_entry_ok is64) es" "block_at data (so + p) (concat (map nul_name (needed_names es)))"
    "p + length (concat (map nul_name (needed_names es))) \<le> ssz"
  shows "concat (map (dyn_name data so ssz) (dyn_rows p es)) = needed_names es"
  using assms
proof (induction p es rule: dyn_rows.induct)
  case (2 p s es)
  have "cstr data (so + p) (Some (so + ssz)) = s"
    by (rule cstr_nul_name) (use 2 in \<open>simp_all add: block_at_append\<close>)
  moreover have "s \<noteq> []" using "2.prems"(1) by (simp add: name_ok_def)
  moreover have "concat (map (dyn_name data so ssz) (dyn_rows (p + length s + 1) es)) = needed_names es"
    by (rule "2.IH") (use "2.prems" in \<open>simp_all add: block_at_append add.assoc\<close>)
  ultimately show ?case by (simp add: dyn_name_def [where r = "(Suc 0, p)"] DT_NEEDED_def)
next
  case (3 p t v es)
  then show ?case by (simp add: dyn_name_def [where r = "(t, v)"])
qed simp

lemma dyn_rows_fit:
  assumes "list_all (dyn_entry_ok is64) es" "p + length (concat (map nul_name (needed_names es))) < 4294967296"
  shows "list_all (\<lambda>(t, v). t \<noteq> 0 \<and> t < 256 ^ dyn_width is64 \<and> v < 256 ^ dyn_width is64) (dyn_rows p es)"
  using assms by (induction p es rule: dyn_rows.induct) (auto simp: dyn_width_def)

lemma length_dyn_rows [simp]: "length (dyn_rows p es) = length es"
  by (induction p es rule: dyn_rows.induct) simp_all

subsection \<open>The symbol table\<close>

definition sym_name :: "byte list \<Rightarrow> nat \<Rightarrow> nat \<Rightarrow> nat \<times> nat \<Rightarrow> string list" where
  "sym_name data so ssz r =
     (if snd r \<noteq> SHN_UNDEF \<or> fst r = 0 then []
      else (let name = cstr data (so + fst r) (Some (so + ssz)) in if name \<noteq> [] then [name] else []))"

lemma symbols_loop_rows:
  assumes "list_all (\<lambda>(p, i). p < 4294967296 \<and> i < 65536) rs"
    "block_at data (off + i * sum_list (sym_format (eh_64 h))) (concat (map (sym_bytes (eh_big h) (eh_64 h)) rs))"
  shows "symbols_loop h data off so ssz i (length rs) = concat (map (sym_name data so ssz) rs)"
  using assms
proof (induction rs arbitrary: i)
  case (Cons r rs)
  let ?w = "sum_list (sym_format (eh_64 h))"
  let ?b = "off + i * ?w"
  obtain p k where r: "r = (p, k)" by (cases r)
  have blk: "block_at data ?b (sym_bytes (eh_big h) (eh_64 h) r)" and
    rest: "block_at data (off + (i + 1) * ?w) (concat (map (sym_bytes (eh_big h) (eh_64 h)) rs))"
    using Cons.prems(2) by (simp_all add: block_at_append algebra_simps)
  have sl: "slice ?b (?b + ?w) data = sym_bytes (eh_big h) (eh_64 h) r"
    by (rule block_at_slice [OF blk]) simp
  have u: "struct_unpack (eh_big h) (sym_format (eh_64 h)) (sym_bytes (eh_big h) (eh_64 h) r) =
      Some (if eh_64 h then [p, 0x12, 0, k, 0, 0] else [p, 0, 0, 0x12, 0, k])"
    unfolding sym_bytes_def by (subst struct_unpack_pack) (use Cons.prems(1) r in \<open>auto simp: sym_format_def\<close>)
  have ih: "symbols_loop h data off so ssz (i + 1) (length rs) = concat (map (sym_name data so ssz) rs)"
    using Cons.prems(1) by (intro Cons.IH rest) simp
  show ?case
    using ih u sl by (cases "eh_64 h") (simp_all add: Let_def r sym_name_def [where r = "(p, k)"])
qed simp

lemma sym_rows_names:
  assumes "list_all (\<lambda>(s, i). name_ok s \<and> i < 65536) ss" "block_at data (so + p) (concat (map (nul_name \<circ> fst) ss))"
    "p + length (concat (map (nul_name \<circ> fst) ss)) \<le> ssz" "p \<noteq> 0"
  shows "concat (map (sym_name data so ssz) (sym_rows p ss)) = undefined_names ss"
  using assms
proof (induction p ss rule: sym_rows.induct)
  case (2 p s i ss)
  have "cstr data (so + p) (Some (so + ssz)) = s"
    by (rule cstr_nul_name) (use 2 in \<open>simp_all add: block_at_append\<close>)
  moreover have "s \<noteq> []" using "2.prems"(1) by (simp add: name_ok_def)
  moreover have "concat (map (sym_name data so ssz) (sym_rows (p + length s + 1) ss)) = undefined_names ss"
    by (rule "2.IH") (use "2.prems" in \<open>simp_all add: block_at_append add.assoc\<close>)
  ultimately show ?case using "2.prems"(4) by (simp add: sym_name_def [where r = "(p, i)"] SHN_UNDEF_def undefined_names_def)
qed (simp add: undefined_names_def)

lemma sym_rows_fit:
  assumes "list_all (\<lambda>(s, i). name_ok s \<and> i < 65536) ss" "p + length (concat (map (nul_name \<circ> fst) ss)) < 4294967296"
  shows "list_all (\<lambda>(p, i). p < 4294967296 \<and> i < 65536) (sym_rows p ss)"
  using assms by (induction p ss rule: sym_rows.induct) auto

lemma length_sym_rows [simp]: "length (sym_rows p ss) = length ss"
  by (induction p ss rule: sym_rows.induct) simp_all

subsection \<open>Reading back what was written\<close>

definition elf_head_of :: "elf_desc \<Rightarrow> elf_head" where
  "elf_head_of d =
     \<lparr>eh_big = ed_big d, eh_64 = ed_64 d, eh_shoff = ehdr_size (ed_64 d) + length (elf_body d),
      eh_shentsize = sum_list (shdr_format (ed_64 d)), eh_shnum = 4\<rparr>"

lemma length_elf_secs [simp]: "length (elf_secs d) = 4"
  by (simp add: elf_secs_def Let_def)

lemma length_concat_rows:
  "length (concat (map (dyn_bytes big is64) rs)) = length rs * (2 * dyn_width is64)"
  "length (concat (map (sym_bytes big is64) rs)) = length rs * sum_list (sym_format is64)"
  "length (concat (map (shdr_bytes big is64) ss)) = length ss * sum_list (shdr_format is64)"
  by (induction rs) (simp_all, (induction ss, simp_all))

lemma elf_image_blocks:
  defines "s0 \<equiv> \<lambda>d. ehdr_size (ed_64 d)"
  shows "block_at (elf_image d) 0 (ehdr_bytes (ed_big d) (ed_64 d) (s0 d + length (elf_body d)) 4)"
    "block_at (elf_image d) (s0 d) (strtab_bytes d)"
    "block_at (elf_image d) (s0 d + length (strtab_bytes d)) (dynamic_bytes d)"
    "block_at (elf_image d) (s0 d + length (strtab_bytes d) + length (dynamic_bytes d)) (dynsym_bytes d)"
    "block_at (elf_image d) (s0 d + length (elf_body d)) (concat (map (shdr_bytes (ed_big d) (ed_64 d)) (elf_secs d)))"
  using block_at_whole [of "elf_image d"]
  by (auto simp add: elf_image_def elf_body_def block_at_append s0_def add.assoc)

lemma elf_image_header:
  assumes "elf_ok d"
  shows "elf_header (elf_image d) = Some (elf_head_of d)"
proof -
  have l: "length (elf_image d) = ehdr_size (ed_64 d) + length (elf_body d) + 4 * (if ed_64 d then 64 else 40)"
    by (simp add: elf_image_def length_concat_rows)
  have "length (elf_image d) < 4294967296" using assms by (simp add: elf_ok_def)
  then show ?thesis
    unfolding elf_head_of_def by (intro elf_header_ehdr elf_image_blocks) (use l in \<open>auto simp: ehdr_size_def\<close>)
qed

lemma elf_image_sections:
  assumes "elf_ok d"
  shows "elf_sections (elf_head_of d) (elf_image d) 0 4 = elf_secs d"
proof -
  have "length (elf_image d) < 4294967296" using assms by (simp add: elf_ok_def)
  then have "ehdr_size (ed_64 d) + length (strtab_bytes d) + length (dynamic_bytes d) + length (dynsym_bytes d) < 4294967296"
    unfolding elf_image_def length_append length_rows length_concat_rows elf_body_def by linarith
  then have "list_all sec_ok (elf_secs d)"
    by (simp add: elf_secs_def Let_def sec_ok_def SHT_DYNAMIC_def SHT_DYNSYM_def)
  then show ?thesis
    using elf_sections_shdrs [of "elf_secs d" "elf_head_of d" "elf_image d" 0] elf_image_blocks(5) [of d]
    by (simp add: elf_head_of_def)
qed

lemma elf_image_tables:
  assumes "elf_ok d"
  shows "elf_table (elf_head_of d) (elf_image d) SHT_DYNAMIC =
      Some (ehdr_size (ed_64 d) + length (strtab_bytes d), length (dynamic_bytes d), ehdr_size (ed_64 d), length (strtab_bytes d))"
    "elf_table (elf_head_of d) (elf_image d) SHT_DYNSYM =
      Some (ehdr_size (ed_64 d) + length (strtab_bytes d) + length (dynamic_bytes d), length (dynsym_bytes d),
        ehdr_size (ed_64 d), length (strtab_bytes d))"
  using elf_image_sections [OF assms]
  by (simp_all add: elf_table_def elf_head_of_def MAX_SECTIONS_def elf_secs_def Let_def SHT_DYNAMIC_def SHT_DYNSYM_def)

lemma strtab_blocks:
  "block_at (elf_image d) (ehdr_size (ed_64 d) + 1) (concat (map nul_name (needed_names (ed_dyn d))))"
  "block_at (elf_image d) (ehdr_size (ed_64 d) + sym_base d) (concat (map (nul_name \<circ> fst) (ed_syms d)))"
proof -
  have "block_at (elf_image d) (ehdr_size (ed_64 d))
      ([0] @ concat (map nul_name (needed_names (ed_dyn d))) @ concat (map (nul_name \<circ> fst) (ed_syms d)))"
    using elf_image_blocks(2) [of d] by (simp add: strtab_bytes_def)
  then show "block_at (elf_image d) (ehdr_size (ed_64 d) + 1) (concat (map nul_name (needed_names (ed_dyn d))))"
    "block_at (elf_image d) (ehdr_size (ed_64 d) + sym_base d) (concat (map (nul_name \<circ> fst) (ed_syms d)))"
    by (simp_all only: block_at_append list.size sym_base_def add.assoc) simp_all
qed

lemma length_strtab: "length (strtab_bytes d) = sym_base d + length (concat (map (nul_name \<circ> fst) (ed_syms d)))"
  by (simp add: strtab_bytes_def sym_base_def)

lemma strtab_small: "elf_ok d \<Longrightarrow> length (strtab_bytes d) < 4294967296"
  unfolding elf_ok_def elf_image_def elf_body_def length_append by linarith

lemma elf_needed_image:
  assumes "elf_ok d"
  shows "elf_needed (elf_image d) = needed_names (ed_dyn d)"
proof -
  let ?rs = "dyn_rows 1 (ed_dyn d)" and ?so = "ehdr_size (ed_64 d)" and ?ssz = "length (strtab_bytes d)"
  have ok: "list_all (dyn_entry_ok (ed_64 d)) (ed_dyn d)" "length (ed_dyn d) < MAX_DYNAMIC" using assms by (simp_all add: elf_ok_def)
  have sz: "1 + length (concat (map nul_name (needed_names (ed_dyn d)))) \<le> ?ssz"
    by (simp add: length_strtab sym_base_def)
  have n: "length (dynamic_bytes d) div (2 * dyn_width (ed_64 d)) = length (ed_dyn d) + 1"
    unfolding dynamic_bytes_def length_concat_rows by (simp add: dyn_width_def)
  have "needed_loop (elf_head_of d) (elf_image d) (?so + ?ssz) ?so ?ssz 0 (min (length (ed_dyn d) + 1) MAX_DYNAMIC) =
      concat (map (dyn_name (elf_image d) ?so ?ssz) ?rs)"
    by (rule needed_loop_rows)
       (use dyn_rows_fit [OF ok(1), of 1] strtab_small [OF assms] sz ok(2) elf_image_blocks(3) [of d] in
        \<open>simp_all add: elf_head_of_def dynamic_bytes_def\<close>)
  also have "\<dots> = needed_names (ed_dyn d)"
    by (rule dyn_rows_names [OF ok(1) strtab_blocks(1) sz])
  finally show ?thesis
    using elf_image_header [OF assms] elf_image_tables [OF assms] n by (simp add: elf_needed_def elf_head_of_def)
qed

lemma elf_imports_image:
  assumes "elf_ok d"
  shows "elf_dynsym_imports (elf_image d) = dedupe (undefined_names (ed_syms d))"
proof -
  let ?rs = "sym_rows (sym_base d) (ed_syms d)" and ?so = "ehdr_size (ed_64 d)" and ?ssz = "length (strtab_bytes d)"
  let ?off = "?so + ?ssz + length (dynamic_bytes d)"
  have ok: "list_all (\<lambda>(s, i). name_ok s \<and> i < 65536) (ed_syms d)" "length (ed_syms d) < MAX_DYNSYM"
    using assms by (simp_all add: elf_ok_def)
  have sz: "sym_base d + length (concat (map (nul_name \<circ> fst) (ed_syms d))) \<le> ?ssz"
    by (simp add: length_strtab)
  have fit: "list_all (\<lambda>(p, i). p < 4294967296 \<and> i < 65536) ((0, 0) # ?rs)"
    using sym_rows_fit [OF ok(1), of "sym_base d"] strtab_small [OF assms] sz by simp
  have n: "length (dynsym_bytes d) div sum_list (sym_format (ed_64 d)) = length ((0, 0) # ?rs)"
    unfolding dynsym_bytes_def length_concat_rows by simp
  have "symbols_loop (elf_head_of d) (elf_image d) ?off ?so ?ssz 0 (length ((0, 0) # ?rs)) =
      concat (map (sym_name (elf_image d) ?so ?ssz) ((0, 0) # ?rs))"
    by (rule symbols_loop_rows [OF fit]) (use elf_image_blocks(4) [of d] in \<open>simp add: elf_head_of_def dynsym_bytes_def\<close>)
  also have "\<dots> = undefined_names (ed_syms d)"
    using sym_rows_names [OF ok(1) strtab_blocks(2) sz] by (simp add: sym_name_def [where r = "(0, 0)"] sym_base_def)
  finally have l: "symbols_loop (elf_head_of d) (elf_image d) ?off ?so ?ssz 0 (length (ed_syms d) + 1) = undefined_names (ed_syms d)"
    by simp
  have m: "min (length (dynsym_bytes d) div sum_list (sym_format (eh_64 (elf_head_of d)))) MAX_DYNSYM = length (ed_syms d) + 1"
    using ok(2) n by (simp only: elf_head_of_def elf_head.simps) simp
  show ?thesis
    unfolding elf_dynsym_imports_def elf_image_header [OF assms] elf_image_tables [OF assms] option.case prod.case m l ..
qed

end
