(* ===== verification/Container_Laws.thy ===== *)
theory Container_Laws
  imports Binary_Laws
begin

text \<open>
  The round trips of the other two container formats: load commands of Mach-O files, thin and fat, and the
  import directory of PE files.
\<close>

section \<open>Mach-O\<close>

text \<open>A dylib command with its kind, name and padding; any other command with its body.\<close>

datatype load_cmd = Dylib nat string nat | Other_Load nat "byte list"

fun cmd_bytes :: "bool \<Rightarrow> load_cmd \<Rightarrow> byte list" where
  "cmd_bytes big (Dylib k s pad) =
     struct_pack big [(4, k), (4, 25 + length s + pad)] @ struct_pack big [(4, 24)] @ zeros 12 @ nul_name s @ zeros pad"
| "cmd_bytes big (Other_Load k body) = struct_pack big [(4, k), (4, 8 + length body)] @ body"

fun dylib_names :: "load_cmd list \<Rightarrow> string list" where
  "dylib_names [] = []"
| "dylib_names (Dylib k s pad # cs) = s # dylib_names cs"
| "dylib_names (Other_Load k body # cs) = dylib_names cs"

fun load_cmd_ok :: "load_cmd \<Rightarrow> bool" where
  "load_cmd_ok (Dylib k s pad) \<longleftrightarrow> k \<in> set LC_DYLIB_CMDS \<and> name_ok s \<and> 25 + length s + pad < 4294967296"
| "load_cmd_ok (Other_Load k body) \<longleftrightarrow> k \<notin> set LC_DYLIB_CMDS \<and> k < 4294967296 \<and> 8 + length body < 4294967296"

definition macho_magic :: "bool \<Rightarrow> bool \<Rightarrow> byte list" where
  "macho_magic big is64 = (if big then (if is64 then MACHO_BE64 else MACHO_BE32) else (if is64 then MACHO_LE64 else MACHO_LE32))"

definition macho_image :: "bool \<Rightarrow> bool \<Rightarrow> load_cmd list \<Rightarrow> byte list \<Rightarrow> byte list" where
  "macho_image big is64 cmds rest =
     macho_magic big is64 @
     struct_pack big [(4, 7), (4, 3), (4, 6), (4, length cmds), (4, length (concat (map (cmd_bytes big) cmds))), (4, 0)] @
     zeros (if is64 then 4 else 0) @ concat (map (cmd_bytes big) cmds) @ rest"

definition macho_ok :: "load_cmd list \<Rightarrow> bool" where
  "macho_ok cmds \<longleftrightarrow> list_all load_cmd_ok cmds \<and> length cmds \<le> 10000 \<and> length (concat (map (cmd_bytes True) cmds)) < 4294967296"

definition fat_image :: "nat \<Rightarrow> byte list \<Rightarrow> byte list \<Rightarrow> byte list \<Rightarrow> byte list" where
  "fat_image nfat pad img rest =
     MACHO_FAT @ struct_pack True [(4, nfat)] @
     struct_pack True [(4, 7), (4, 3), (4, 28 + length pad), (4, length img), (4, 12)] @ pad @ img @ rest"

lemma struct_unpackI:
  "ws = map fst fs \<Longrightarrow> list_all (\<lambda>(w, n). n < 256 ^ w) fs \<Longrightarrow> map snd fs = r \<Longrightarrow> struct_unpack big ws (struct_pack big fs) = Some r"
  using struct_unpack_pack by simp

lemma LC_DYLIB_less: "k \<in> set LC_DYLIB_CMDS \<Longrightarrow> k < 4294967296"
  by (auto simp: LC_DYLIB_CMDS_def)

lemma command_loop_cmds:
  assumes "list_all load_cmd_ok cmds" "block_at data off (concat (map (cmd_bytes big) cmds))"
  shows "command_loop big data off (length cmds) = dylib_names cmds"
  using assms
proof (induction cmds arbitrary: off rule: dylib_names.induct)
  case (2 k s pad cs)
  let ?n = "25 + length s + pad"
  have "block_at data off (struct_pack big [(4, k), (4, ?n)] @ struct_pack big [(4, 24)] @ zeros 12 @ nul_name s @ zeros pad)" and
    rest: "block_at data (off + ?n) (concat (map (cmd_bytes big) cs))"
    using "2.prems"(2) by (simp_all add: block_at_append ac_simps)
  then have b: "block_at data off (struct_pack big [(4, k), (4, ?n)])" "block_at data (off + 8) (struct_pack big [(4, 24)])"
    "block_at data (off + 24) (nul_name s)"
    by (simp_all add: block_at_append ac_simps del: struct_pack.simps)
  have sl: "slice off (off + 8) data = struct_pack big [(4, k), (4, ?n)]" "slice (off + 8) (off + 12) data = struct_pack big [(4, 24)]"
    by (rule block_at_slice [OF b(1)], simp) (rule block_at_slice [OF b(2)], simp)
  have u: "struct_unpack big [4, 4] (struct_pack big [(4, k), (4, ?n)]) = Some [k, ?n]"
    "struct_unpack big [4] (struct_pack big [(4, 24)]) = Some [24]"
    by (rule struct_unpackI; use "2.prems"(1) LC_DYLIB_less in simp)+
  have l: "off + 24 + length s + 1 \<le> length data" using block_at_bound [OF b(3)] by simp
  have c: "cstr data (off + 24) (Some (off + ?n)) = s"
    by (rule cstr_nul_name [OF b(3)]) (use "2.prems"(1) in simp_all)
  have ih: "command_loop big data (off + ?n) (length cs) = dylib_names cs"
    by (rule "2.IH"[OF _ rest]) (use "2.prems"(1) in simp)
  have "s \<noteq> []" "k \<in> set LC_DYLIB_CMDS" using "2.prems"(1) by (simp_all add: name_ok_def)
  then show ?case
    using ih l c by (simp only: command_loop.simps list.size sl u Let_def option.case add_Suc_right add_0_right dylib_names.simps)
      (simp add: c)
next
  case (3 k body cs)
  let ?n = "8 + length body"
  have b: "block_at data off (struct_pack big [(4, k), (4, ?n)])" and
    rest: "block_at data (off + ?n) (concat (map (cmd_bytes big) cs))"
    using "3.prems"(2) by (simp_all add: block_at_append add.assoc)
  have sl: "slice off (off + 8) data = struct_pack big [(4, k), (4, ?n)]"
    by (rule block_at_slice [OF b(1)], simp)
  have u: "struct_unpack big [4, 4] (struct_pack big [(4, k), (4, ?n)]) = Some [k, ?n]"
    by (rule struct_unpackI; use "3.prems"(1) in simp)
  have l: "off + 8 \<le> length data" using block_at_bound [OF b] by simp
  have ih: "command_loop big data (off + ?n) (length cs) = dylib_names cs"
    by (rule "3.IH"[OF _ rest]) (use "3.prems"(1) in simp)
  have "k \<notin> set LC_DYLIB_CMDS" using "3.prems"(1) by simp
  then show ?case
    using ih l by (simp only: command_loop.simps list.size sl u Let_def option.case add_Suc_right add_0_right dylib_names.simps) simp
qed simp

lemma length_cmd_bytes: "length (cmd_bytes big c) = length (cmd_bytes True c)"
  by (cases c) simp_all

lemma length_cmds: "length (concat (map (cmd_bytes big) cmds)) = length (concat (map (cmd_bytes True) cmds))"
  by (induction cmds) (use length_cmd_bytes in auto)

lemma magic_facts:
  "length (macho_magic big is64) = 4" "macho_magic big is64 \<in> set MACHO_THIN_MAGICS"
  "macho_magic big is64 \<noteq> MACHO_FAT"
  "macho_magic big is64 \<in> {MACHO_LE64, MACHO_LE32} \<longleftrightarrow> \<not> big" "macho_magic big is64 \<in> {MACHO_LE64, MACHO_BE64} \<longleftrightarrow> is64"
  by (cases big; cases is64; simp add: macho_magic_def MACHO_THIN_MAGICS_def MACHO_LE64_def MACHO_LE32_def MACHO_BE64_def
      MACHO_BE32_def MACHO_FAT_def)+

lemma macho_thin_image:
  assumes "macho_ok cmds"
  shows "macho_thin (macho_image big is64 cmds rest) = dylib_names cmds"
proof -
  let ?d = "macho_image big is64 cmds rest" and ?c = "concat (map (cmd_bytes big) cmds)"
  define hd where "hd = struct_pack big [(4, 7), (4, 3), (4, 6), (4, length cmds), (4, length ?c), (4, 0)]"
  have lh: "length hd = 24" by (simp add: hd_def)
  have ok: "list_all load_cmd_ok cmds" "length cmds \<le> 10000" "length ?c < 4294967296"
    using assms length_cmds [of big cmds] by (simp_all only: macho_ok_def)
  have b: "block_at ?d 0 (macho_magic big is64 @ hd @ zeros (if is64 then 4 else 0) @ ?c @ rest)"
    by (simp add: macho_image_def hd_def block_at_whole)
  have l: "28 \<le> length ?d" using block_at_bound [OF b] lh by (simp add: magic_facts)
  have m: "take 4 ?d = macho_magic big is64" by (simp add: macho_image_def magic_facts)
  have b2: "block_at ?d 4 hd" "block_at ?d (if is64 then 32 else 28) ?c"
    using b lh magic_facts(1) [of big is64] by (simp_all add: block_at_append del: struct_pack.simps split: if_splits)
  have sl: "slice 4 28 ?d = hd" by (rule block_at_slice [OF b2(1)]) (simp add: lh)
  have u: "struct_unpack big [4, 4, 4, 4, 4, 4] hd = Some [7, 3, 6, length cmds, length ?c, 0]"
    unfolding hd_def by (subst struct_unpack_pack) (use ok in simp_all)
  have e: "macho_thin ?d = command_loop big ?d (if is64 then 32 else 28) (min (length cmds) 10000)"
    using l magic_facts [of big is64] by (simp add: macho_thin_def m sl u Let_def)
  show ?thesis
    unfolding e min.absorb1 [OF ok(2)] by (rule command_loop_cmds [OF ok(1) b2(2)])
qed

lemma macho_dylibs_image:
  assumes "macho_ok cmds"
  shows "macho_dylibs (macho_image big is64 cmds rest) = dylib_names cmds"
proof -
  have "take 4 (macho_image big is64 cmds rest) \<noteq> MACHO_FAT"
    using magic_facts(1, 3) [of big is64] by (simp add: macho_image_def)
  then show ?thesis using macho_thin_image [OF assms] by (simp add: macho_dylibs_def)
qed

lemma macho_dylibs_fat:
  assumes "macho_ok cmds" "0 < nfat" "nfat < 4294967296" "28 + length pad < 4294967296"
    "length (macho_image big is64 cmds rest) < 4294967296"
  shows "macho_dylibs (fat_image nfat pad (macho_image big is64 cmds rest) rest') = dylib_names cmds"
proof -
  let ?i = "macho_image big is64 cmds rest"
  let ?d = "fat_image nfat pad ?i rest'"
  define h1 where "h1 = struct_pack True [(4, nfat)]"
  define h2 where "h2 = struct_pack True [(4, 7), (4, 3), (4, 28 + length pad), (4, length ?i), (4, 12)]"
  have lh: "length h1 = 4" "length h2 = 20" "length MACHO_FAT = 4" by (simp_all add: h1_def h2_def MACHO_FAT_def)
  have li: "length ?i \<noteq> 0" using magic_facts(1) [of big is64] by (auto simp: macho_image_def)
  have b: "block_at ?d 0 (MACHO_FAT @ h1 @ h2 @ pad @ ?i @ rest')"
    by (simp add: fat_image_def h1_def h2_def block_at_whole)
  have b2: "block_at ?d 4 h1" "block_at ?d 8 h2" "block_at ?d (28 + length pad) ?i"
    using b lh by (simp_all add: block_at_append)
  have sl: "slice 4 8 ?d = h1" "slice 8 28 ?d = h2" "slice (28 + length pad) (28 + length pad + length ?i) ?d = ?i"
    by (rule block_at_slice [OF b2(1)], simp add: lh) (rule block_at_slice [OF b2(2)], simp add: lh, rule block_at_slice [OF b2(3) refl])
  have u: "struct_unpack True [4] h1 = Some [nfat]" "struct_unpack True [4, 4, 4, 4, 4] h2 = Some [7, 3, 28 + length pad, length ?i, 12]"
    unfolding h1_def h2_def by (rule struct_unpackI; use assms(3, 4, 5) in simp)+
  have t: "take 4 ?d = MACHO_FAT" by (simp add: fat_image_def lh)
  have l: "28 + length pad < length ?d" using block_at_bound [OF b2(3)] li by linarith
  have "macho_dylibs ?d = macho_thin ?i"
    unfolding macho_dylibs_def t sl(1, 2) u using assms(2) l sl(3) by simp
  then show ?thesis by (simp add: macho_thin_image [OF assms(1)])
qed

section \<open>PE\<close>

text \<open>An image with one section that holds the import descriptors and the names they point to.\<close>

record pe_desc =
  pd_plus :: bool
  pd_vaddr :: nat
  pd_dlls :: "string list"

fun name_rvas :: "nat \<Rightarrow> string list \<Rightarrow> nat list" where
  "name_rvas p [] = []"
| "name_rvas p (s # ss) = p # name_rvas (p + length s + 1) ss"

definition desc_bytes :: "nat \<Rightarrow> nat \<Rightarrow> byte list" where
  "desc_bytes vaddr rva = struct_pack False [(4, vaddr), (4, 0), (4, 0), (4, rva), (4, vaddr)]"

definition desc_end :: "byte list" where
  "desc_end = struct_pack False [(4, 0), (4, 0), (4, 0), (4, 0), (4, 0)]"

definition name_base :: "pe_desc \<Rightarrow> nat" where
  "name_base d = pd_vaddr d + (length (pd_dlls d) + 1) * 20"

definition section_bytes :: "pe_desc \<Rightarrow> byte list" where
  "section_bytes d =
     concat (map (desc_bytes (pd_vaddr d)) (name_rvas (name_base d) (pd_dlls d)) @ [desc_end]) @ concat (map nul_name (pd_dlls d))"

definition opt_size_of :: "bool \<Rightarrow> nat" where
  "opt_size_of wide = (if wide then 128 else 112)"

definition raw_base :: "pe_desc \<Rightarrow> nat" where
  "raw_base d = 128 + opt_size_of (pd_plus d)"

definition dos_bytes :: "byte list" where
  "dos_bytes = [0x4D, 0x5A] @ zeros 58 @ struct_pack False [(4, 64)]"

definition coff_bytes :: "pe_desc \<Rightarrow> byte list" where
  "coff_bytes d = struct_pack False [(2, 0x8664), (2, 1), (4, 0), (4, 0), (4, 0), (2, opt_size_of (pd_plus d)), (2, 0x22)]"

definition import_dir :: "pe_desc \<Rightarrow> byte list" where
  "import_dir d = struct_pack False [(4, pd_vaddr d), (4, length (section_bytes d))]"

definition section_header :: "pe_desc \<Rightarrow> byte list" where
  "section_header d =
     struct_pack False [(8, 0), (4, length (section_bytes d)), (4, pd_vaddr d), (4, length (section_bytes d)), (4, raw_base d)]"

definition pe_image :: "pe_desc \<Rightarrow> byte list" where
  "pe_image d =
     dos_bytes @ [0x50, 0x45, 0, 0] @ coff_bytes d @
     struct_pack False [(2, if pd_plus d then 0x20B else 0x10B)] @ zeros (if pd_plus d then 118 else 102) @ import_dir d @
     section_header d @ zeros 16 @ section_bytes d"

definition pe_ok :: "pe_desc \<Rightarrow> bool" where
  "pe_ok d \<longleftrightarrow> list_all name_ok (pd_dlls d) \<and> length (pd_dlls d) < 1024 \<and> 0 < pd_vaddr d \<and>
     pd_vaddr d + length (section_bytes d) < 4294967296"

lemma length_name_rvas [simp]: "length (name_rvas p ss) = length ss"
  by (induction p ss rule: name_rvas.induct) simp_all

lemma length_desc [simp]: "length (desc_bytes v r) = 20" "length desc_end = 20"
  by (simp_all add: desc_bytes_def desc_end_def)

lemma length_descs: "length (concat (map (desc_bytes v) rs)) = 20 * length rs"
  by (induction rs) simp_all

lemma length_section: "length (section_bytes d) = (length (pd_dlls d) + 1) * 20 + length (concat (map nul_name (pd_dlls d)))"
  by (simp only: section_bytes_def map_append concat_append length_append length_descs) simp

definition import_name :: "byte list \<Rightarrow> pe_section list \<Rightarrow> nat \<Rightarrow> string list" where
  "import_name data ss rva =
     (let nm = (case rva_to_off ss rva of None \<Rightarrow> [] | Some noff \<Rightarrow> cstr data noff None) in if nm \<noteq> [] then [nm] else [])"

lemma import_loop_rows:
  assumes "list_all (\<lambda>r. r < 4294967296) rs" "0 < v" "v < 4294967296" "length rs < n"
    "block_at data (table + i * 20) (concat (map (desc_bytes v) rs @ [desc_end]))"
  shows "import_loop data ss table i n = concat (map (import_name data ss) rs)"
  using assms(1, 4, 5)
proof (induction rs arbitrary: i n)
  case Nil
  obtain m where n: "n = Suc m" using Nil.prems(2) by (cases n) auto
  have sl: "slice (table + i * 20) (table + i * 20 + 20) data = desc_end"
    by (rule block_at_slice) (use Nil.prems(3) in simp_all)
  have u: "struct_unpack False [4, 4, 4, 4, 4] desc_end = Some [0, 0, 0, 0, 0]"
    unfolding desc_end_def by (rule struct_unpackI) simp_all
  show ?case by (simp add: n Let_def sl u)
next
  case (Cons r rs)
  obtain m where n: "n = Suc m" "length rs < m" using Cons.prems(2) by (cases n) auto
  let ?b = "table + i * 20"
  have blk: "block_at data ?b (desc_bytes v r)" and
    rest: "block_at data (table + (i + 1) * 20) (concat (map (desc_bytes v) rs @ [desc_end]))"
    using Cons.prems(3) by (simp_all add: block_at_append algebra_simps)
  have sl: "slice ?b (?b + 20) data = desc_bytes v r"
    by (rule block_at_slice [OF blk]) simp
  have u: "struct_unpack False [4, 4, 4, 4, 4] (desc_bytes v r) = Some [v, 0, 0, r, v]"
    unfolding desc_bytes_def by (rule struct_unpackI) (use Cons.prems(1) assms(3) in simp_all)
  have ih: "import_loop data ss table (i + 1) m = concat (map (import_name data ss) rs)"
    using Cons.prems(1) by (intro Cons.IH n(2) rest) simp
  show ?case
    using ih assms(2) by (simp add: n(1) Let_def sl u import_name_def [where rva = r])
qed

lemma name_rvas_names:
  assumes "list_all name_ok ss" "block_at data (raw + p) (concat (map nul_name ss))"
    "p + length (concat (map nul_name ss)) \<le> max vsize rawsize"
  shows "concat (map (import_name data [(vaddr, vsize, raw, rawsize)]) (name_rvas (vaddr + p) ss)) = ss"
  using assms
proof (induction ss arbitrary: p)
  case (Cons s ss)
  have o': "rva_to_off [(vaddr, vsize, raw, rawsize)] (vaddr + p) = Some (raw + p)"
    using Cons.prems(3) by simp
  have c: "cstr data (raw + p) None = s"
    by (rule cstr_nul_name) (use Cons.prems in \<open>simp_all add: block_at_append\<close>)
  have "concat (map (import_name data [(vaddr, vsize, raw, rawsize)]) (name_rvas (vaddr + (p + length s + 1)) ss)) = ss"
    by (rule Cons.IH) (use Cons.prems in \<open>simp_all add: block_at_append add.assoc\<close>)
  moreover have "s \<noteq> []" using Cons.prems(1) by (simp add: name_ok_def)
  ultimately show ?case
    using o' c by (simp add: import_name_def [where rva = "vaddr + p"] add.assoc del: rva_to_off.simps)
qed simp

lemma name_rvas_less:
  "p + length (concat (map nul_name ss)) < b \<Longrightarrow> list_all (\<lambda>r. r < b) (name_rvas p ss)"
  by (induction p ss rule: name_rvas.induct) auto

lemma length_pe_parts [simp]:
  "length dos_bytes = 64" "length (coff_bytes d) = 20" "length (import_dir d) = 8" "length (section_header d) = 24"
  by (simp_all add: dos_bytes_def coff_bytes_def import_dir_def section_header_def)

lemma pe_image_blocks:
  fixes d :: pe_desc
  defines "dd \<equiv> 88 + (if pd_plus d then 112 else 96)"
  shows "block_at (pe_image d) 0 dos_bytes" "block_at (pe_image d) 64 [0x50, 0x45, 0, 0]" "block_at (pe_image d) 68 (coff_bytes d)"
    "block_at (pe_image d) 88 (struct_pack False [(2, if pd_plus d then 0x20B else 0x10B)])"
    "block_at (pe_image d) (dd + 8) (import_dir d)" "block_at (pe_image d) (88 + opt_size_of (pd_plus d)) (section_header d)"
    "block_at (pe_image d) (raw_base d) (section_bytes d)"
  using block_at_whole [of "pe_image d"]
  by (auto simp add: pe_image_def block_at_append dd_def raw_base_def opt_size_of_def simp del: struct_pack.simps append_Cons split: if_splits)

lemma pe_imports_image:
  assumes "pe_ok d"
  shows "pe_imports (pe_image d) = pd_dlls d"
proof -
  let ?d = "pe_image d" and ?v = "pd_vaddr d" and ?sz = "length (section_bytes d)"
  let ?ss = "[(?v, ?sz, raw_base d, ?sz)]"
  note b = pe_image_blocks [of d]
  have ok: "list_all name_ok (pd_dlls d)" "length (pd_dlls d) < 1024" "0 < ?v" "?v + ?sz < 4294967296"
    using assms by (simp_all add: pe_ok_def)
  have l: "64 \<le> length ?d" using block_at_bound [OF b(1)] by simp
  have t: "take 2 ?d = [0x4D, 0x5A]" by (simp add: pe_image_def dos_bytes_def)
  have "block_at ?d 0 ([0x4D, 0x5A] @ zeros 58 @ struct_pack False [(4, 64)])"
    using b(1) by (simp only: dos_bytes_def)
  then have b0: "block_at ?d 0x3C (struct_pack False [(4, 64)])"
    by (simp only: block_at_append) simp
  have sl: "slice 0x3C 0x40 ?d = struct_pack False [(4, 64)]" "slice 64 (64 + 4) ?d = [0x50, 0x45, 0, 0]"
    "slice 68 (68 + 20) ?d = coff_bytes d" "slice 88 (88 + 2) ?d = struct_pack False [(2, if pd_plus d then 0x20B else 0x10B)]"
    by (rule block_at_slice [OF b0], simp) (rule block_at_slice [OF b(2)], simp, rule block_at_slice [OF b(3)], simp,
        rule block_at_slice [OF b(4)], simp)
  have sl5: "slice ((if pd_plus d then 88 + 112 else 88 + 96) + 8) ((if pd_plus d then 88 + 112 else 88 + 96) + 16) ?d = import_dir d"
    by (rule block_at_slice) (use b(5) in \<open>auto split: if_splits\<close>)
  have sl6: "slice (88 + opt_size_of (pd_plus d)) (88 + opt_size_of (pd_plus d) + 24) ?d = section_header d"
    by (rule block_at_slice [OF b(6)]) simp
  have u: "struct_unpack False [4] (struct_pack False [(4, 64)]) = Some [64]"
    "struct_unpack False [2, 2, 4, 4, 4, 2, 2] (coff_bytes d) = Some [0x8664, 1, 0, 0, 0, opt_size_of (pd_plus d), 0x22]"
    "struct_unpack False [2] (struct_pack False [(2, if pd_plus d then 0x20B else 0x10B)]) = Some [if pd_plus d then 0x20B else 0x10B]"
    "struct_unpack False [4, 4] (import_dir d) = Some [?v, ?sz]"
    "struct_unpack False [8, 4, 4, 4, 4] (section_header d) = Some [0, ?sz, ?v, ?sz, raw_base d]"
    unfolding coff_bytes_def import_dir_def section_header_def
    by (rule struct_unpackI; use ok(4) in \<open>simp add: opt_size_of_def raw_base_def\<close>)+
  have ss: "pe_sections ?d (88 + opt_size_of (pd_plus d)) 0 (min 1 96) = ?ss"
    using sl6 u(5) by (simp add: Let_def)
  have e: "pe_imports ?d = import_loop ?d ?ss (raw_base d) 0 1024"
  proof -
    have "rva_to_off ?ss ?v = Some (raw_base d)" by (simp add: length_section)
    moreover have "(if pd_plus d then 0x20B else 0x10B) \<in> {0x20B, 0x10B :: nat}" by simp
    moreover have "((if pd_plus d then 0x20B else 0x10B) = (0x20B :: nat)) = pd_plus d" by simp
    moreover have "(64 :: nat) + 4 = 68" "(68 :: nat) + 20 = 88" by simp_all
    ultimately show ?thesis
      using l t sl sl5 u ss ok(3) unfolding pe_imports_def
      by (simp del: pe_sections.simps rva_to_off.simps import_loop.simps struct_pack.simps cong: if_cong)
  qed
  have nb: "name_base d = ?v + (length (pd_dlls d) + 1) * 20" by (simp add: name_base_def)
  have rows: "import_loop ?d ?ss (raw_base d) 0 1024 = concat (map (import_name ?d ?ss) (name_rvas (name_base d) (pd_dlls d)))"
  proof (rule import_loop_rows)
    show "list_all (\<lambda>r. r < 4294967296) (name_rvas (name_base d) (pd_dlls d))"
      by (rule name_rvas_less) (use ok(4) nb length_section [of d] in linarith)
    show "block_at ?d (raw_base d + 0 * 20) (concat (map (desc_bytes ?v) (name_rvas (name_base d) (pd_dlls d)) @ [desc_end]))"
      using b(7) by (simp add: section_bytes_def block_at_append)
  qed (use ok in simp_all)
  also have "\<dots> = pd_dlls d"
    unfolding nb
  proof (rule name_rvas_names [OF ok(1)])
    have "block_at ?d (raw_base d) (concat (map (desc_bytes ?v) (name_rvas (name_base d) (pd_dlls d)) @ [desc_end]) @
        concat (map nul_name (pd_dlls d)))"
      using b(7) by (simp only: section_bytes_def)
    then show "block_at ?d (raw_base d + (length (pd_dlls d) + 1) * 20) (concat (map nul_name (pd_dlls d)))"
      by (simp add: block_at_append length_descs ac_simps)
  qed (simp add: length_section)
  finally show ?thesis using e by simp
qed

end
