(* ===== verification/Binary_Scan_Laws.thy ===== *)
theory Binary_Scan_Laws
  imports Container_Laws
begin

text \<open>
  What the binary probe reports: one row per library of a file, the reachability of a linked library from the
  symbols that are really imported, and the sweep as a bounded reference without counters.
\<close>

section \<open>The dictionary of hits\<close>

lemma linked_hits_get:
  "dict_get (linked_hits fmt ls hits) k =
     (case dict_get hits k of
        Some h \<Rightarrow> Some h
      | None \<Rightarrow> map_option (\<lambda>raw. library_hit k fmt ''linked'' ''high'' None (Some raw)) (find (\<lambda>raw. match_lib raw = Some k) ls))"
  by (induction fmt ls hits rule: linked_hits.induct) (auto split: option.splits)

lemma banner_hits_keep:
  "dict_get hits k = Some h \<Longrightarrow> \<exists>v. dict_get (banner_hits fmt bs hits) k = Some (h\<lparr>bh_version := v\<rparr>)"
proof (induction fmt bs hits arbitrary: h rule: banner_hits.induct)
  case (1 fmt hits)
  have "h = h\<lparr>bh_version := bh_version h\<rparr>" by simp
  with 1 show ?case by (metis banner_hits.simps(1))
next
  case (2 fmt lib_id version bs hits)
  show ?case
  proof (cases "lib_id = k \<and> bh_version h = None \<and> version \<noteq> None")
    case True
    then show ?thesis
      using "2.IH" [of "h\<lparr>bh_version := version\<rparr>"] "2.prems" by auto
  next
    case False
    then have "dict_get (case dict_get hits lib_id of
          Some existing \<Rightarrow> if bh_version existing = None \<and> version \<noteq> None then dict_set lib_id (existing\<lparr>bh_version := version\<rparr>) hits else hits
        | None \<Rightarrow> dict_set lib_id (library_hit lib_id fmt ''embedded'' ''medium'' version None) hits) k = Some h"
      using "2.prems" by (auto split: option.splits)
    from "2.IH" [OF this] show ?thesis by simp
  qed
qed

definition hit_keys :: "bin_hit dict \<Rightarrow> bool" where
  "hit_keys hits \<longleftrightarrow> dict_wf hits \<and> list_all (\<lambda>(k, h). bh_library h = k \<and> bh_kind h = ''library'') hits"

lemma hit_keys_set: "hit_keys hits \<Longrightarrow> bh_library h = k \<Longrightarrow> bh_kind h = ''library'' \<Longrightarrow> hit_keys (dict_set k h hits)"
proof -
  assume h: "hit_keys hits" "bh_library h = k" "bh_kind h = ''library''"
  have "set (dict_set k h hits) \<subseteq> insert (k, h) (set hits)"
    by (induction hits) auto
  with h show ?thesis by (fastforce simp: hit_keys_def list_all_iff)
qed

lemma hit_keys_get: "hit_keys hits \<Longrightarrow> dict_get hits k = Some h \<Longrightarrow> bh_library h = k \<and> bh_kind h = ''library''"
  by (auto simp: hit_keys_def list_all_iff dest: map_of_SomeD)

lemma hit_keys_version: "hit_keys hits \<Longrightarrow> dict_get hits k = Some h \<Longrightarrow> hit_keys (dict_set k (h\<lparr>bh_version := v\<rparr>) hits)"
  by (rule hit_keys_set) (auto dest: hit_keys_get)

lemma library_hit_fields [simp]:
  "bh_library (library_hit lib fmt origin conf v d) = lib" "bh_kind (library_hit lib fmt origin conf v d) = ''library''"
  by (simp_all add: library_hit_def)

lemma hit_keys_linked: "hit_keys hits \<Longrightarrow> hit_keys (linked_hits fmt ls hits)"
  by (induction fmt ls hits rule: linked_hits.induct) (auto split: option.splits simp: hit_keys_set)

lemma assess_reach_fields [simp]:
  "bh_library (assess_reach im h) = bh_library h" "bh_kind (assess_reach im h) = bh_kind h" "bh_origin (assess_reach im h) = bh_origin h"
  "bh_confidence (assess_reach im h) = bh_confidence h" "bh_fmt (assess_reach im h) = bh_fmt h" "bh_version (assess_reach im h) = bh_version h"
  "bh_detail (assess_reach im h) = bh_detail h"
  by (auto simp: assess_reach_def Let_def split: option.splits)

lemma hit_keys_reach: "hit_keys hits \<Longrightarrow> hit_keys (reach_hits fmt data hits)"
  by (auto simp: reach_hits_def Let_def hit_keys_def dict_wf_def list_all_iff comp_def case_prod_beta)

lemma hit_keys_banner: "hit_keys hits \<Longrightarrow> hit_keys (banner_hits fmt bs hits)"
  by (induction fmt bs hits rule: banner_hits.induct)
     (auto split: option.splits simp: hit_keys_set hit_keys_version)

lemma constants_distinct: "distinct (map fst (scan_crypto_constants data))"
proof -
  have "distinct (map fst found) \<Longrightarrow> distinct (map fst (foldl (\<lambda>found (algo, needle, note).
      if dict_get found algo \<noteq> None then found else if sublist needle data then dict_set algo note found else found) found sigs))"
    for found :: "string dict" and sigs
    by (induction sigs arbitrary: found) (auto simp: distinct_update)
  from this [of "[]"] show ?thesis by (simp add: scan_crypto_constants_def)
qed

lemma dict_set_fresh: "k \<notin> fst ` set d \<Longrightarrow> dict_set k v d = d @ [(k, v)]"
  by (induction d) auto

lemma constant_fold:
  "distinct (map fst cs) \<Longrightarrow> (\<forall>a\<in>fst ` set cs. ''const:'' @ a \<notin> fst ` set hits) \<Longrightarrow>
   foldl (\<lambda>hs (algo, note). dict_set (''const:'' @ algo) (constant_hit algo fmt note) hs) hits cs =
     hits @ map (\<lambda>(algo, note). (''const:'' @ algo, constant_hit algo fmt note)) cs"
proof (induction cs arbitrary: hits)
  case (Cons c cs)
  obtain a n where c: "c = (a, n)" by force
  have "dict_set (''const:'' @ a) (constant_hit a fmt n) hits = hits @ [(''const:'' @ a, constant_hit a fmt n)]"
    by (rule dict_set_fresh) (use Cons.prems(2) c in auto)
  moreover have "\<forall>a'\<in>fst ` set cs. ''const:'' @ a' \<notin> fst ` set (hits @ [(''const:'' @ a, constant_hit a fmt n)])"
    using Cons.prems c by auto
  ultimately show ?case using Cons.IH [of "hits @ [(''const:'' @ a, constant_hit a fmt n)]"] Cons.prems(1) c by simp
qed simp

definition library_hits :: "string \<Rightarrow> byte list \<Rightarrow> bin_hit dict" where
  "library_hits fmt data =
     banner_hits fmt (scan_banners data) (reach_hits fmt data (linked_hits fmt (linked_names fmt data) []))"

lemma library_hits_keys: "hit_keys (library_hits fmt data)"
  unfolding library_hits_def by (intro hit_keys_banner hit_keys_reach hit_keys_linked) (simp add: hit_keys_def dict_wf_def)

lemma hits_of_cases:
  "map snd (hits_of fmt data) =
     (if library_hits fmt data = [] then map (\<lambda>(a, n). constant_hit a fmt n) (scan_crypto_constants data)
      else map snd (library_hits fmt data))"
  using constant_fold [OF constants_distinct, where hits = "[]" and fmt = fmt and data1 = data]
  by (simp add: hits_of_def constant_hits_def library_hits_def [symmetric] case_prod_beta)

text \<open>A file yields at most one row for each library and algorithm; algorithms only where no library was found.\<close>

lemma hits_distinct: "distinct (map bh_library (map snd (hits_of fmt data)))"
proof (cases "library_hits fmt data = []")
  case True
  have "map bh_library (map snd (hits_of fmt data)) = map fst (scan_crypto_constants data)"
    using True by (auto simp: hits_of_cases constant_hit_def)
  then show ?thesis using constants_distinct by simp
next
  case False
  have "map bh_library (map snd (library_hits fmt data)) = map fst (library_hits fmt data)"
    using library_hits_keys [of fmt data] by (auto simp: hit_keys_def list_all_iff)
  moreover have "map snd (hits_of fmt data) = map snd (library_hits fmt data)"
    using False by (simp add: hits_of_cases)
  ultimately show ?thesis
    using library_hits_keys [of fmt data] by (simp only: hit_keys_def dict_wf_def)
qed

lemma scan_binary_hits:
  "scan_binary f \<noteq> [] \<Longrightarrow> \<exists>fmt data. bf_data f = Some data \<and> detect_format data = Some fmt \<and> scan_binary f = map snd (hits_of fmt data)"
  by (auto simp: scan_binary_def split: option.splits if_splits)

text \<open>Each library or algorithm is reported at most once for a file, and algorithms recognised by their
  constant tables only when the file shows no library at all.\<close>

theorem scan_binary_unique:
  "distinct (map bh_library (scan_binary f)) \<and>
   ((\<forall>h\<in>set (scan_binary f). bh_kind h = ''library'') \<or> (\<forall>h\<in>set (scan_binary f). bh_kind h = ''constant''))"
proof (cases "scan_binary f = []")
  case False
  then obtain fmt data where s: "scan_binary f = map snd (hits_of fmt data)"
    using scan_binary_hits by blast
  have "(\<forall>h\<in>snd ` set (library_hits fmt data). bh_kind h = ''library'')"
    using library_hits_keys [of fmt data] by (auto simp: hit_keys_def list_all_iff)
  then show ?thesis
    using hits_distinct [of fmt data] hits_of_cases [of fmt data] by (auto simp: s constant_hit_def split: if_splits)
qed simp

section \<open>Reachability\<close>

lemma reach_hits_get:
  "dict_get (reach_hits fmt data hits) k =
     (if fmt = ''elf'' \<and> elf_dynsym_imports data \<noteq> [] then map_option (assess_reach (elf_dynsym_imports data)) (dict_get hits k)
      else dict_get hits k)"
  by (cases "hits = []") (auto simp: reach_hits_def Let_def map_of_map)

lemma sort_Nil_iff: "sort xs = [] \<longleftrightarrow> xs = []"
  by (metis set_sort set_empty)

lemma assess_reach_invoked:
  "dict_get CRYPTO_SYMBOL_PREFIXES (bh_library h) = Some ps \<Longrightarrow> bh_reachability h = ''unknown'' \<Longrightarrow>
   bh_reachability (assess_reach im h) = (if list_ex (\<lambda>s. startswith_any s ps) im then ''invoked'' else ''linked-only'')"
  by (auto simp: assess_reach_def Let_def sort_Nil_iff filter_empty_conv list_ex_iff)

lemma find_exists: "x \<in> set xs \<Longrightarrow> P x \<Longrightarrow> \<exists>y. find P xs = Some y"
  by (cases "find P xs") (auto simp: find_None_iff)

text \<open>An ELF file, as the file system shows it.\<close>

definition elf_file :: "string \<Rightarrow> string \<Rightarrow> elf_desc \<Rightarrow> bin_file" where
  "elf_file name path d = \<lparr>bf_name = name, bf_path = path, bf_head = Some (take 4 (elf_image d)), bf_data = Some (elf_image d)\<rparr>"

lemma elf_format: "detect_format (elf_image d) = Some ''elf''" "detect_format (take 4 (elf_image d)) = Some ''elf''"
  by (simp_all add: elf_image_def ehdr_bytes_def detect_format_def)

lemma elf_hit:
  assumes "elf_ok d" "s \<in> set (needed_names (ed_dyn d))" "match_lib s = Some lib"
    "dict_get CRYPTO_SYMBOL_PREFIXES lib = Some ps" "undefined_names (ed_syms d) \<noteq> []"
  shows "\<exists>h\<in>set (scan_binary (elf_file name path d)). bh_library h = lib \<and> bh_kind h = ''library'' \<and> bh_origin h = ''linked'' \<and>
      bh_confidence h = ''high'' \<and>
      bh_reachability h = (if list_ex (\<lambda>s. startswith_any s ps) (undefined_names (ed_syms d)) then ''invoked'' else ''linked-only'')"
proof -
  let ?data = "elf_image d"
  obtain raw where r: "find (\<lambda>raw. match_lib raw = Some lib) (elf_needed ?data) = Some raw"
    using find_exists [of s "elf_needed ?data" "\<lambda>raw. match_lib raw = Some lib"] assms(2, 3) elf_needed_image [OF assms(1)] by metis
  define h0 where "h0 = library_hit lib ''elf'' ''linked'' ''high'' None (Some raw)"
  define h1 where "h1 = assess_reach (elf_dynsym_imports ?data) h0"
  have im: "elf_dynsym_imports ?data \<noteq> []" "set (elf_dynsym_imports ?data) = set (undefined_names (ed_syms d))"
    using assms(5) elf_imports_image [OF assms(1)] by (metis set_dedupe set_empty, simp)
  have "dict_get (reach_hits ''elf'' ?data (linked_hits ''elf'' (linked_names ''elf'' ?data) [])) lib = Some h1"
    using im(1) r by (simp add: reach_hits_get linked_hits_get linked_names_def h1_def h0_def)
  then obtain v where v: "dict_get (library_hits ''elf'' ?data) lib = Some (h1\<lparr>bh_version := v\<rparr>)"
    using banner_hits_keep unfolding library_hits_def by blast
  then have ne: "library_hits ''elf'' ?data \<noteq> []" by auto
  have "h1\<lparr>bh_version := v\<rparr> \<in> set (scan_binary (elf_file name path d))"
    using map_of_SomeD [OF v] ne by (force simp: scan_binary_def elf_file_def elf_format hits_of_cases)
  moreover have "bh_reachability h1 = (if list_ex (\<lambda>s. startswith_any s ps) (undefined_names (ed_syms d)) then ''invoked'' else ''linked-only'')"
    using assess_reach_invoked [of h0 ps] assms(4) im(2) by (simp add: h1_def h0_def library_hit_def list_ex_iff)
  moreover have "bh_library h1 = lib" "bh_kind h1 = ''library''" "bh_origin h1 = ''linked''" "bh_confidence h1 = ''high''"
    by (simp_all add: h1_def h0_def library_hit_def)
  ultimately show ?thesis by (intro bexI) auto
qed

text \<open>The rows of a file.\<close>

definition binary_rows :: "int \<Rightarrow> bin_file \<Rightarrow> finding list" where
  "binary_rows now f = map (binary_finding now f) (scan_binary f)"

lemma binary_evidence_library: "dict_get (binary_evidence f h linked note) ''library'' = Some (JStr (bh_library h))"
  by (simp add: binary_evidence_def Let_def split: option.split)

lemma library_row_confidence:
  assumes "bh_kind h = ''library''" "bh_confidence h = ''high''" "bh_reachability h = (if b then ''invoked'' else ''linked-only'')"
  shows "confidence (binary_finding now f h) = (if b then ''high'' else ''low'')"
    "dict_get (evidence (binary_finding now f h)) ''library'' = Some (JStr (bh_library h))"
proof -
  have f: "binary_finding now f h =
      (let (cls, note) = classify_lib (bh_library h) (bh_version h) in
       binary_finding now f h\<lparr>evidence := binary_evidence f h (if bh_origin h = ''linked'' then ''linked'' else ''embedded'') note,
         confidence := binary_confidence h\<rparr>)"
    using assms(1) by (simp add: binary_finding_def split_beta Let_def)
  have c: "binary_confidence h = (if b then ''high'' else ''low'')"
    using assms(2, 3) by (simp add: binary_confidence_def)
  show "confidence (binary_finding now f h) = (if b then ''high'' else ''low'')"
    by (subst f) (simp add: split_beta c)
  show "dict_get (evidence (binary_finding now f h)) ''library'' = Some (JStr (bh_library h))"
    by (subst f) (simp add: split_beta binary_evidence_library)
qed


section \<open>The sweep\<close>

lemma emit_binary_ref:
  assumes "sw_emitted st = length (sw_out st)" "length (sw_out st) \<le> MAX_BINARY_FINDINGS" "\<not> sw_capped st"
  shows "emit_binary now f hs st =
     (let all = sw_out st @ map (binary_finding now f) hs in
      st\<lparr>sw_out := take MAX_BINARY_FINDINGS all, sw_emitted := length (take MAX_BINARY_FINDINGS all),
         sw_capped := length all > MAX_BINARY_FINDINGS\<rparr>)"
  using assms
proof (induction now f hs st rule: emit_binary.induct)
  case (2 now f hit hits st)
  show ?case
  proof (cases "sw_emitted st \<ge> MAX_BINARY_FINDINGS")
    case True
    then have "length (sw_out st) = MAX_BINARY_FINDINGS" using "2.prems" by simp
    then show ?thesis using True "2.prems" by (simp add: Let_def)
  next
    case False
    then show ?thesis using "2.IH" [OF False] "2.prems" by (simp add: Let_def)
  qed
qed (simp add: Let_def)

text \<open>The rows that the first \<open>b\<close> files would give without a cap.\<close>

definition sweep_rows :: "int \<Rightarrow> nat option \<Rightarrow> bin_file list \<Rightarrow> finding list" where
  "sweep_rows now budget files =
     concat (map (binary_rows now) (case budget of None \<Rightarrow> files | Some b \<Rightarrow> take b files))"

definition over_budget :: "nat option \<Rightarrow> nat \<Rightarrow> bool" where
  "over_budget budget n \<longleftrightarrow> (case budget of None \<Rightarrow> False | Some b \<Rightarrow> n > b)"

definition sweep_start :: sweep where
  "sweep_start = \<lparr>sw_out = [], sw_emitted = 0, sw_visited = 0, sw_capped = False, sw_truncated = False\<rparr>"

lemma sweep_files_stopped: "sw_capped st \<Longrightarrow> sweep_files now budget fs st = st"
  by (cases fs) simp_all

lemma sweep_files_ref:
  assumes "sw_emitted st = length (sw_out st)" "length (sw_out st) \<le> MAX_BINARY_FINDINGS" "\<not> sw_capped st" "\<not> sw_truncated st"
    "case budget of None \<Rightarrow> True | Some b \<Rightarrow> sw_visited st \<le> b"
    "all = sw_out st @ sweep_rows now (map_option (\<lambda>b. b - sw_visited st) budget) fs"
  shows "sw_out (sweep_files now budget fs st) = take MAX_BINARY_FINDINGS all \<and>
     sw_capped (sweep_files now budget fs st) = (length all > MAX_BINARY_FINDINGS) \<and>
     sw_truncated (sweep_files now budget fs st) =
       (length all \<le> MAX_BINARY_FINDINGS \<and> over_budget (map_option (\<lambda>b. b - sw_visited st) budget) (length fs))"
  using assms
proof (induction now budget fs st arbitrary: all rule: sweep_files.induct)
  case (1 now budget st)
  then show ?case by (auto simp: sweep_rows_def over_budget_def split: option.splits)
next
  case (2 now budget f fs st)
  show ?case
  proof (cases "case budget of None \<Rightarrow> False | Some b \<Rightarrow> sw_visited st \<ge> b")
    case True
    then obtain b where b: "budget = Some b" "sw_visited st = b" using "2.prems"(5) by (auto split: option.splits)
    then show ?thesis using "2.prems" by (simp add: sweep_rows_def over_budget_def)
  next
    case False
    let ?rows = "binary_rows now f" and ?b = "map_option (\<lambda>b. b - sw_visited st) budget"
    define st1 where "st1 = emit_binary now f (scan_binary f) (st\<lparr>sw_visited := sw_visited st + 1\<rparr>)"
    have st1: "st1 = (let a = sw_out st @ ?rows in
        st\<lparr>sw_visited := sw_visited st + 1, sw_out := take MAX_BINARY_FINDINGS a, sw_emitted := length (take MAX_BINARY_FINDINGS a),
           sw_capped := length a > MAX_BINARY_FINDINGS\<rparr>)"
      unfolding st1_def using "2.prems"(1-3) by (subst emit_binary_ref) (simp_all add: binary_rows_def Let_def)
    have step: "sweep_files now budget (f # fs) st = sweep_files now budget fs st1"
      using False "2.prems"(3) by (simp add: st1_def)
    have rows: "sweep_rows now ?b (f # fs) = ?rows @ sweep_rows now (map_option (\<lambda>b. b - sw_visited st1) budget) fs"
      using False by (auto simp: sweep_rows_def st1 Let_def take_Cons' split: option.splits)
    have over: "over_budget ?b (length (f # fs)) = over_budget (map_option (\<lambda>b. b - sw_visited st1) budget) (length fs)"
      using False by (auto simp: over_budget_def st1 Let_def split: option.splits)
    show ?thesis
    proof (cases "length (sw_out st @ ?rows) > MAX_BINARY_FINDINGS")
      case True
      then have "sw_capped st1" by (simp add: st1 Let_def)
      then have "sweep_files now budget (f # fs) st = st1" unfolding step by (rule sweep_files_stopped)
      then show ?thesis using True "2.prems" rows by (simp add: st1 Let_def)
    next
      case fits: False
      have "sw_out st1 = sw_out st @ ?rows" "sw_emitted st1 = length (sw_out st1)" "\<not> sw_capped st1" "\<not> sw_truncated st1"
        "sw_visited st1 = sw_visited st + 1"
        using fits "2.prems"(4) by (simp_all add: st1 Let_def)
      moreover from this have "case budget of None \<Rightarrow> True | Some b \<Rightarrow> sw_visited st1 \<le> b"
        using False by (auto split: option.splits)
      ultimately show ?thesis
        using "2.IH" [OF _ False, of all] "2.prems"(3, 6) fits unfolding step rows over st1_def [symmetric] by simp
    qed
  qed
qed

text \<open>C25. 
  A sweep reports the first 500 rows that the files give in order, looking at the first 50,000 files of an
  implicit sweep and at all of an explicit one, and says so when it stopped early: with the cap note when there
  are more rows, with the budget note when the rows fit and there are more files.
\<close>

theorem run_binary_reference:
  "run_binary now roots scan_paths exists' listing =
     (let rs = effective_roots roots scan_paths exists'; files = iter_files (map listing rs);
          budget = visit_budget roots scan_paths; rows = sweep_rows now budget files in
      take 500 rows @
      (if length rows > 500 then [capped_note now]
       else if over_budget budget (length files) then [budget_note now rs] else []))"
proof -
  define files where "files = iter_files (map listing (effective_roots roots scan_paths exists'))"
  let ?b = "visit_budget roots scan_paths"
  have "map_option (\<lambda>b. b - sw_visited sweep_start) ?b = ?b" by (simp add: sweep_start_def option.map_ident)
  then have "sw_out (sweep_files now ?b files sweep_start) = take MAX_BINARY_FINDINGS (sweep_rows now ?b files) \<and>
     sw_capped (sweep_files now ?b files sweep_start) = (length (sweep_rows now ?b files) > MAX_BINARY_FINDINGS) \<and>
     sw_truncated (sweep_files now ?b files sweep_start) =
       (length (sweep_rows now ?b files) \<le> MAX_BINARY_FINDINGS \<and> over_budget ?b (length files))"
    using sweep_files_ref [of sweep_start ?b "sweep_rows now ?b files" now files]
    by (simp add: sweep_start_def split: option.splits)
  then show ?thesis
    unfolding run_binary_def Let_def files_def [symmetric] sweep_start_def [symmetric] by (simp add: MAX_BINARY_FINDINGS_def)
qed

section \<open>Round trips and samples\<close>

text \<open>
  The parsers recover the libraries that the three container formats name, and the imported symbols of an
  ELF file, from what the writers of the formats produce: either word size and byte order, thin and fat files.
\<close>

theorem container_names_roundtrip:
  assumes "elf_ok e" "pe_ok p" "macho_ok cmds" "0 < nfat" "nfat < 4294967296" "28 + length pad < 4294967296"
    "length (macho_image big is64 cmds rest) < 4294967296"
  shows "linked_names ''elf'' (elf_image e) = needed_names (ed_dyn e) \<and>
    elf_dynsym_imports (elf_image e) = dedupe (undefined_names (ed_syms e)) \<and>
    linked_names ''pe'' (pe_image p) = pd_dlls p \<and>
    linked_names ''macho'' (macho_image big is64 cmds rest) = dylib_names cmds \<and>
    linked_names ''macho'' (fat_image nfat pad (macho_image big is64 cmds rest) rest') = dylib_names cmds"
  using elf_needed_image [OF assms(1)] elf_imports_image [OF assms(1)] pe_imports_image [OF assms(2)]
    macho_dylibs_image [OF assms(3)] macho_dylibs_fat [OF assms(3-7)]
  by (simp add: linked_names_def)

definition sample_elf :: elf_desc where
  "sample_elf = \<lparr>ed_big = False, ed_64 = True, ed_dyn = [Needed ''libssl.so.3'', Other_Entry 14 1, Needed ''libc.so.6''],
     ed_syms = [(''puts'', 0), (''main'', 12)]\<rparr>"

definition sample_pe :: pe_desc where
  "sample_pe = \<lparr>pd_plus = True, pd_vaddr = 4096, pd_dlls = [''KERNEL32.dll'', ''bcrypt.dll'']\<rparr>"

definition sample_cmds :: "load_cmd list" where
  "sample_cmds = [Other_Load 25 (zeros 8), Dylib 12 ''/usr/lib/libcrypto.dylib'' 3]"

lemma sample_names_ok:
  "list_all name_ok [''libssl.so.3'', ''libc.so.6'', ''puts'', ''main'', ''KERNEL32.dll'', ''bcrypt.dll'', ''/usr/lib/libcrypto.dylib'']"
  by code_simp

lemma sample_elf_ok: "elf_ok sample_elf"
proof -
  have "length (elf_image sample_elf) < 4294967296"
    by (simp add: elf_image_def length_concat_rows elf_body_def strtab_bytes_def dynamic_bytes_def dynsym_bytes_def ehdr_size_def
        dyn_width_def sample_elf_def)
  with sample_names_ok show ?thesis
    by (simp add: elf_ok_def) (simp add: sample_elf_def dyn_width_def DT_NEEDED_def MAX_DYNAMIC_def MAX_DYNSYM_def)
qed

lemma sample_pe_ok: "pe_ok sample_pe"
  using sample_names_ok by (simp add: pe_ok_def length_section) (simp add: sample_pe_def)

lemma sample_cmds_ok: "macho_ok sample_cmds"
  using sample_names_ok by (simp add: macho_ok_def sample_cmds_def LC_DYLIB_CMDS_def)

theorem container_names_roundtrip_witness:
  "linked_names ''elf'' (elf_image sample_elf) = [''libssl.so.3'', ''libc.so.6''] \<and>
   elf_dynsym_imports (elf_image sample_elf) = [''puts''] \<and>
   linked_names ''pe'' (pe_image sample_pe) = [''KERNEL32.dll'', ''bcrypt.dll''] \<and>
   linked_names ''macho'' (macho_image False True sample_cmds []) = [''/usr/lib/libcrypto.dylib''] \<and>
   linked_names ''macho'' (fat_image 2 (zeros 4) (macho_image False True sample_cmds []) []) = [''/usr/lib/libcrypto.dylib'']"
proof -
  have l: "length (macho_image False True sample_cmds []) < 4294967296"
    by (simp add: macho_image_def magic_facts sample_cmds_def)
  have v: "needed_names (ed_dyn sample_elf) = [''libssl.so.3'', ''libc.so.6'']"
    "dedupe (undefined_names (ed_syms sample_elf)) = [''puts'']" "pd_dlls sample_pe = [''KERNEL32.dll'', ''bcrypt.dll'']"
    "dylib_names sample_cmds = [''/usr/lib/libcrypto.dylib'']"
    by code_simp+
  show ?thesis
    using container_names_roundtrip [OF sample_elf_ok sample_pe_ok sample_cmds_ok, of 2 "zeros 4" False True "[]" "[]"] l
    by (simp only: v) simp
qed


text \<open>A module of the C library's name service switch is taken for the NSS crypto library.\<close>

lemma name_service_matched: "match_lib ''libnss_systemd.so.2'' = Some ''nss''"
  by code_simp

end
