(* ===== verification/Tls_Client.thy ===== *)
theory Tls_Client
  imports Tls_Hello Suite_Class Compliance
begin

text \<open>
  What the raw TLS probes share (\<^verbatim>\<open>probes/net_tls_cert_chain.py\<close>, \<^verbatim>\<open>net_tls_cert_chain_tls13.py\<close>,
  \<^verbatim>\<open>net_tls_kex_groups.py\<close>, \<^verbatim>\<open>net_tls_versions.py\<close> each carry a copy): the target, the writers of vectors,
  extensions and ClientHellos, the fields of a ServerHello, and the naming of keys and chains. The writers
  return an option: \<^const>\<open>None\<close> is the \<^verbatim>\<open>struct.error\<close> of a length that does not fit, or the
  \<^verbatim>\<open>UnicodeError\<close> of a host name that is no domain name.
\<close>

section \<open>Targets\<close>

definition resolve_target :: "string option \<Rightarrow> string option \<Rightarrow> (string \<times> int) option" where
  "resolve_target target server_target =
     (case (if target \<noteq> None \<and> target \<noteq> Some [] then target else server_target) of
        None \<Rightarrow> None
      | Some raw \<Rightarrow>
          if raw = [] then None
          else
            (let (host, port) = partition_char (CHR '':'') raw in
             if host = [] then None
             else if port = [] then Some (host, 443)
             else (case int_of_text port of Inr p \<Rightarrow> Some (host, p) | Inl _ \<Rightarrow> None)))"

section \<open>Writers\<close>

definition FIXED_RANDOM :: "byte list" where
  "FIXED_RANDOM = map byte_of [0..<32]"

definition u24 :: "nat \<Rightarrow> byte list option" where
  "u24 n = map_option tl (pack_I n)"

definition vec16 :: "byte list \<Rightarrow> byte list option" where
  "vec16 body = map_option (\<lambda>l. l @ body) (pack_H (length body))"

definition ext :: "nat \<Rightarrow> byte list \<Rightarrow> byte list option" where
  "ext t body = do { h \<leftarrow> pack_H t; v \<leftarrow> vec16 body; Some (h @ v) }"

definition u16s :: "nat list \<Rightarrow> byte list option" where
  "u16s ns = map_option concat (collect pack_H ns)"

text \<open>\<^verbatim>\<open>s.encode("idna")\<close> of ASCII text: the text itself, when each label but an empty last one has 1 to 63
  characters.\<close>

definition idna_ascii :: "string \<Rightarrow> byte list option" where
  "idna_ascii s =
     (let labels = split_on (CHR ''.'') s in
      if list_all (\<lambda>l. l \<noteq> [] \<and> length l < 64) (butlast labels) \<and> length (last labels) < 64
      then Some (map (\<lambda>c. byte_of (char_code c)) s) else None)"

text \<open>The server_name extension, when there is a name.\<close>

definition sni_ext :: "string option \<Rightarrow> byte list option" where
  "sni_ext server_name =
     (case server_name of
        None \<Rightarrow> Some []
      | Some name \<Rightarrow>
          if name = [] then Some []
          else do { host \<leftarrow> idna_ascii name; v \<leftarrow> vec16 host; w \<leftarrow> vec16 (0 # v); ext 0x0000 w })"

text \<open>Version, random, empty session id, suites, null compression and extensions, in a handshake record.\<close>

definition hello_record :: "nat \<Rightarrow> byte list \<Rightarrow> nat list \<Rightarrow> byte list \<Rightarrow> byte list option" where
  "hello_record version rnd suites exts = do {
     ver \<leftarrow> pack_H version; cs \<leftarrow> u16s suites; csv \<leftarrow> vec16 cs; xv \<leftarrow> vec16 exts;
     let body = ver @ rnd @ [0] @ csv @ [1, 0] @ xv;
     l \<leftarrow> u24 (length body); hs \<leftarrow> vec16 ([1] @ l @ body);
     Some ([0x16, 0x03, 0x01] @ hs) }"

section \<open>ServerHello\<close>

text \<open>The cipher suite and the extension block of a ServerHello body. \<^term>\<open>Some None\<close> is the caught
  \<^verbatim>\<open>IndexError\<close>; \<^const>\<open>None\<close> is a \<^verbatim>\<open>struct.error\<close>, which the code does not catch.\<close>

definition server_hello_fields :: "byte list \<Rightarrow> (nat \<times> byte list) option option" where
  "server_hello_fields body =
     (case at body 34 of
        None \<Rightarrow> Some None
      | Some sid_len \<Rightarrow>
          (let off = 35 + unat sid_len in do {
             cipher \<leftarrow> u16_at body off;
             ext_total \<leftarrow> u16_at body (off + 3);
             Some (Some (cipher, slice (off + 5) (off + 5 + ext_total) body)) }))"

section \<open>Keys and certificates\<close>

text \<open>A public key as the \<^verbatim>\<open>cryptography\<close> package presents it, and what is read of a certificate; the hash is
  \<^const>\<open>None\<close> when its property raises and \<^term>\<open>Some None\<close> when there is none.\<close>

datatype pub_key = RSA_Key nat | EC_Key string | DSA_Key nat | Ed25519_Key | Ed448_Key | Other_Key string

fun key_algorithm :: "pub_key \<Rightarrow> string" where
  "key_algorithm (RSA_Key n) = ''RSA-'' @ show_nat n"
| "key_algorithm (EC_Key c) = ''ECDSA-'' @ c"
| "key_algorithm (DSA_Key n) = ''DSA-'' @ show_nat n"
| "key_algorithm Ed25519_Key = ''Ed25519''"
| "key_algorithm Ed448_Key = ''Ed448''"
| "key_algorithm (Other_Key t) = t"

record cert_view =
  cv_key :: pub_key
  cv_hash :: "string option option"
  cv_subject :: string

definition sig_hash :: "cert_view \<Rightarrow> string option" where
  "sig_hash c = (case cv_hash c of Some (Some name) \<Rightarrow> Some (py_upper name) | _ \<Rightarrow> None)"

definition badness :: "classification \<Rightarrow> nat" where
  "badness c =
     (case c of PQC_READY \<Rightarrow> 0 | CLS_INFO \<Rightarrow> 1 | CLS_ERROR \<Rightarrow> 1 | RENDAH \<Rightarrow> 2 | SEDERHANA \<Rightarrow> 3 | TINGGI \<Rightarrow> 4 | SANGAT_TINGGI \<Rightarrow> 5)"

definition worst :: "classification \<Rightarrow> classification \<Rightarrow> classification" where
  "worst a b = (if badness a \<ge> badness b then a else b)"

text \<open>\<^verbatim>\<open>f"0x{n:04x}"\<close>.\<close>

definition hex4 :: "nat \<Rightarrow> string" where
  "hex4 n = (let h = show_hex n in ''0x'' @ replicate (4 - length h) (CHR ''0'') @ h)"

text \<open>The class, algorithm and role of one certificate of a served chain.\<close>

definition chain_class :: "cert_view \<Rightarrow> classification" where
  "chain_class c =
     worst (classify (key_algorithm (cv_key c)))
       (case sig_hash c of Some s \<Rightarrow> if s \<noteq> [] then classify s else CLS_INFO | None \<Rightarrow> CLS_INFO)"

definition chain_role :: "nat \<Rightarrow> string" where
  "chain_role depth = (if depth = 0 then ''leaf'' else ''intermediate/root'')"

definition sig_name :: "cert_view \<Rightarrow> string" where
  "sig_name c = (case sig_hash c of Some s \<Rightarrow> if s \<noteq> [] then s else ''unknown'' | None \<Rightarrow> ''unknown'')"

definition sig_json :: "cert_view \<Rightarrow> json" where
  "sig_json c = (case sig_hash c of Some s \<Rightarrow> JStr s | None \<Rightarrow> JNull)"

definition endpoint :: "string \<times> int \<Rightarrow> string" where
  "endpoint tgt = fst tgt @ '':'' @ show_int (snd tgt)"

text \<open>Certificates with their depth; those that do not load are passed over.\<close>

definition loaded_chain :: "(byte list \<Rightarrow> cert_view option) \<Rightarrow> byte list list \<Rightarrow> (nat \<times> cert_view) list" where
  "loaded_chain load ders =
     concat (map (\<lambda>(depth, der). case load der of None \<Rightarrow> [] | Some c \<Rightarrow> [(depth, c)]) (zip [0..<length ders] ders))"

section \<open>Reading from the peer\<close>

text \<open>What one read returns: bytes (none at the end of the stream), or a timeout or socket error.\<close>

type_synonym read_result = "byte list option"

section \<open>Probes of services\<close>

text \<open>
  What the service probes share: the target with the service's own default port, and a finding with the defaults
  of its class.
\<close>

definition resolve_port :: "int \<Rightarrow> string option \<Rightarrow> string option \<Rightarrow> (string \<times> int) option" where
  "resolve_port dflt target server_target =
     (case (if target \<noteq> None \<and> target \<noteq> Some [] then target else server_target) of
        None \<Rightarrow> None
      | Some raw \<Rightarrow>
          if raw = [] then None
          else
            (let (host, port) = partition_char (CHR '':'') raw in
             if host = [] then None
             else if port = [] then Some (host, dflt)
             else (case int_of_text port of Inr p \<Rightarrow> Some (host, p) | Inl _ \<Rightarrow> None)))"

definition mk_finding ::
  "string \<Rightarrow> string \<Rightarrow> classification \<Rightarrow> severity \<Rightarrow> string \<Rightarrow> pydict \<Rightarrow> pydict \<Rightarrow> int \<Rightarrow> finding" where
  "mk_finding pid alg cls sev ttl ev rem now =
     \<lparr>probe_id = pid, algorithm = alg, classification = cls, severity = sev, title = ttl, component_purl = None,
      evidence = ev, remediation = rem, confidence = ''high'', created_at = now\<rparr>"

lemma mk_finding_sel [simp]:
  "algorithm (mk_finding pid alg cls sev ttl ev rem now) = alg"
  "classification (mk_finding pid alg cls sev ttl ev rem now) = cls"
  "severity (mk_finding pid alg cls sev ttl ev rem now) = sev"
  "title (mk_finding pid alg cls sev ttl ev rem now) = ttl"
  "evidence (mk_finding pid alg cls sev ttl ev rem now) = ev"
  by (simp_all add: mk_finding_def)

definition opt_int :: "int option \<Rightarrow> json" where
  "opt_int x = (case x of None \<Rightarrow> JNull | Some i \<Rightarrow> JInt i)"

definition hex_text :: "byte list \<Rightarrow> string" where
  "hex_text bs = concat (map (\<lambda>b. [hex_digit (unat b div 16), hex_digit (unat b mod 16)]) bs)"

text \<open>\<^verbatim>\<open>s.encode("ascii")\<close> raises on any other text.\<close>

definition ascii_only :: "string \<Rightarrow> bool" where
  "ascii_only s \<longleftrightarrow> (\<forall>c\<in>set s. char_code c < 128)"

end
