(* ===== verification/Tls13_Chain.thy ===== *)
theory Tls13_Chain
  imports Tls_Client Key_Schedule
begin

text \<open>
  \<^verbatim>\<open>probes/net_tls_cert_chain_tls13.py\<close>: the certificate chain of a TLS 1.3 server, recovered by a key
  exchange and by opening the encrypted flight. X25519, the digest, HMAC and AEAD, the certificate parser and
  what the socket delivers are arguments. An option is used as in \<open>Tls_Client\<close>: the outer \<^const>\<open>None\<close> of a
  result is an exception that is not caught where it is raised.
\<close>

section \<open>Tables\<close>

definition SIG_ALGS :: "nat list" where
  "SIG_ALGS = [0x0403, 0x0503, 0x0603, 0x0804, 0x0805, 0x0806, 0x0809, 0x080A, 0x080B, 0x0401, 0x0501, 0x0601, 0x0807, 0x0808]"

definition SCHEMES :: "(nat \<times> string \<times> string) list" where
  "SCHEMES =
     [(0x0401, ''rsa_pkcs1_sha256'', ''RSA-SHA256''), (0x0501, ''rsa_pkcs1_sha384'', ''RSA-SHA384''),
      (0x0601, ''rsa_pkcs1_sha512'', ''RSA-SHA512''), (0x0403, ''ecdsa_secp256r1_sha256'', ''ECDSA-SHA256''),
      (0x0503, ''ecdsa_secp384r1_sha384'', ''ECDSA-SHA384''), (0x0603, ''ecdsa_secp521r1_sha512'', ''ECDSA-SHA512''),
      (0x0804, ''rsa_pss_rsae_sha256'', ''RSA-PSS''), (0x0805, ''rsa_pss_rsae_sha384'', ''RSA-PSS''),
      (0x0806, ''rsa_pss_rsae_sha512'', ''RSA-PSS''), (0x0809, ''rsa_pss_pss_sha256'', ''RSA-PSS''),
      (0x080A, ''rsa_pss_pss_sha384'', ''RSA-PSS''), (0x080B, ''rsa_pss_pss_sha512'', ''RSA-PSS''),
      (0x0807, ''ed25519'', ''Ed25519''), (0x0808, ''ed448'', ''Ed448''), (0x0201, ''rsa_pkcs1_sha1'', ''RSA-SHA1''),
      (0x0203, ''ecdsa_sha1'', ''ECDSA-SHA1'')]"

section \<open>The ClientHello\<close>

definition build_client_hello_tls13 :: "string option \<Rightarrow> byte list \<Rightarrow> byte list \<Rightarrow> byte list option" where
  "build_client_hello_tls13 server_name public_key rnd = do {
     g \<leftarrow> pack_H 0x001D; kv \<leftarrow> vec16 public_key; let key_share = g @ kv;
     sigalgs \<leftarrow> u16s SIG_ALGS;
     gv \<leftarrow> vec16 g; ksv \<leftarrow> vec16 key_share; sv \<leftarrow> vec16 sigalgs;
     e1 \<leftarrow> ext 0x002B [0x02, 0x03, 0x04]; e2 \<leftarrow> ext 0x000A gv; e3 \<leftarrow> ext 0x0033 ksv; e4 \<leftarrow> ext 0x000D sv;
     sni \<leftarrow> sni_ext server_name;
     hello_record 0x0303 rnd [0x1301, 0x1302, 0x1303] (e1 @ e2 @ e3 @ e4 @ sni) }"

section \<open>Records and messages\<close>

function split_records_from :: "byte list \<Rightarrow> nat \<Rightarrow> (byte \<times> byte list) list" where
  "split_records_from data off =
     (if off + 5 \<le> length data then
        (let rec_len = be_nat (slice (off + 3) (off + 5) data) in
         if off + 5 + rec_len > length data then []
         else (data ! off, slice off (off + 5 + rec_len) data) # split_records_from data (off + 5 + rec_len))
      else [])"
  by pat_completeness auto
termination
  by (relation "measure (\<lambda>(data, off). length data - off)") auto

declare split_records_from.simps [simp del]

definition split_records :: "byte list \<Rightarrow> (byte \<times> byte list) list" where
  "split_records data = split_records_from data 0"

definition handshake_message :: "byte list \<Rightarrow> byte list" where
  "handshake_message r = drop 5 r"

record hello_info =
  hi_version :: nat
  hi_cipher :: nat
  hi_pub :: "byte list"

definition tls13_ext :: "nat \<Rightarrow> byte list \<Rightarrow> nat \<times> byte list option \<Rightarrow> (nat \<times> byte list option) option" where
  "tls13_ext et ev acc =
     (if et = 0x002B \<and> length ev \<ge> 2 then map_option (\<lambda>v. (v, snd acc)) (u16_at ev 0)
      else if et = 0x0033 \<and> length ev \<ge> 4 then do {
        g \<leftarrow> u16_at ev 0; klen \<leftarrow> u16_at ev 2;
        Some (if g = 0x001D then (fst acc, Some (slice 4 (4 + klen) ev)) else acc) }
      else Some acc)"

definition parse_server_hello_tls13 :: "byte list \<Rightarrow> hello_info option option" where
  "parse_server_hello_tls13 hs =
     (if length hs < 4 \<or> hs ! 0 \<noteq> 0x02 then Some None
      else
        (case server_hello_fields (slice 4 (4 + be_nat (slice 1 4 hs)) hs) of
           None \<Rightarrow> None
         | Some None \<Rightarrow> Some None
         | Some (Some (cipher, exts)) \<Rightarrow>
             (case ext_loop tls13_ext exts 0 (0x0303, None) of
                None \<Rightarrow> None
              | Some (version, pub) \<Rightarrow>
                  Some (case pub of
                          None \<Rightarrow> None
                        | Some k \<Rightarrow>
                            if cipher \<notin> fst ` set CIPHER_SUITES then None
                            else Some \<lparr>hi_version = version, hi_cipher = cipher, hi_pub = k\<rparr>))))"

function reassemble_from :: "byte list \<Rightarrow> nat \<Rightarrow> (byte \<times> byte list) list" where
  "reassemble_from pl off =
     (if off + 4 \<le> length pl then
        (let mlen = be_nat (slice (off + 1) (off + 4) pl); body = slice (off + 4) (off + 4 + mlen) pl in
         if length body < mlen then []
         else (pl ! off, body) # reassemble_from pl (off + 4 + mlen))
      else [])"
  by pat_completeness auto
termination
  by (relation "measure (\<lambda>(pl, off). length pl - off)") auto

declare reassemble_from.simps [simp del]

definition reassemble :: "byte list \<Rightarrow> (byte \<times> byte list) list" where
  "reassemble pl = reassemble_from pl 0"

text \<open>The certificate list between two offsets.\<close>

function cert_entries :: "byte list \<Rightarrow> nat \<Rightarrow> nat \<Rightarrow> byte list list" where
  "cert_entries body e p =
     (if p + 3 \<le> e then
        (let clen = be_nat (slice p (p + 3) body); cert = slice (p + 3) (p + 3 + clen) body; q = p + 3 + clen;
             found = (if length cert = clen \<and> cert \<noteq> [] then [cert] else []) in
         if q + 2 > e then found
         else found @ cert_entries body e (q + 2 + be_nat (slice q (q + 2) body)))
      else [])"
  by pat_completeness auto
termination
  by (relation "measure (\<lambda>(body, e, p). e - p)") (auto simp: Let_def)

declare cert_entries.simps [simp del]

definition extract_certificates_tls13 :: "byte list \<Rightarrow> byte list list" where
  "extract_certificates_tls13 body =
     (if body = [] then []
      else
        (let p = 1 + unat (body ! 0) in
         if p + 3 > length body then []
         else cert_entries body (min (p + 3 + be_nat (slice p (p + 3) body)) (length body)) (p + 3)))"

section \<open>The encrypted flight\<close>

record flight =
  fl_version :: nat
  fl_cipher :: nat
  fl_certs :: "byte list list"
  fl_scheme :: "nat option"

text \<open>The loop over the records; \<open>open seq record\<close> is \<open>aead_open\<close> under the server's handshake key.\<close>

fun open_records :: "(nat \<Rightarrow> byte list \<Rightarrow> byte list option option) \<Rightarrow> nat \<Rightarrow> (byte \<times> byte list) list \<Rightarrow> byte list option" where
  "open_records open_rec seq [] = Some []"
| "open_records open_rec seq ((ctype, r) # rs) =
     (if ctype \<noteq> 0x17 then open_records open_rec seq rs
      else do {
        opened \<leftarrow> open_rec seq r;
        rest \<leftarrow> open_records open_rec (seq + 1) rs;
        Some ((case opened of None \<Rightarrow> [] | Some p \<Rightarrow> p) @ rest) })"

definition flight_step :: "byte \<times> byte list \<Rightarrow> byte list list \<times> nat option \<Rightarrow> byte list list \<times> nat option" where
  "flight_step m acc =
     (if fst m = 0x0B then (extract_certificates_tls13 (snd m), snd acc)
      else if fst m = 0x0F \<and> length (snd m) \<ge> 2 then (fst acc, Some (be_nat (take 2 (snd m))))
      else acc)"

definition recover_handshake ::
  "digest_fn \<Rightarrow> hmac_fn \<Rightarrow> aead_fn \<Rightarrow> aead_fn \<Rightarrow> (byte list \<Rightarrow> byte list option) \<Rightarrow> byte list \<Rightarrow> byte list \<Rightarrow> flight option option" where
  "recover_handshake digest hmac aesgcm chacha exchange client_hello_record server_data =
     (let records = split_records server_data in
      case find (\<lambda>(ctype, _). ctype = 0x16) records of
        None \<Rightarrow> Some None
      | Some (_, sh_record) \<Rightarrow>
          (case parse_server_hello_tls13 (handshake_message sh_record) of
             None \<Rightarrow> None
           | Some None \<Rightarrow> Some None
           | Some (Some sh) \<Rightarrow>
               (case exchange (hi_pub sh) of
                  None \<Rightarrow> Some None
                | Some shared \<Rightarrow> do {
                    keys \<leftarrow> handshake_traffic_keys digest hmac shared
                              (handshake_message client_hello_record @ handshake_message sh_record) (hi_cipher sh);
                    pl \<leftarrow> open_records
                            (\<lambda>seq r. aead_open aesgcm chacha (hk_server_key keys) (hk_server_iv keys) seq r (hk_is_chacha keys)) 0 records;
                    let (certs, scheme) = foldl (\<lambda>acc m. flight_step m acc) ([], None) (reassemble pl);
                    Some (Some \<lparr>fl_version = hi_version sh, fl_cipher = hi_cipher sh, fl_certs = certs, fl_scheme = scheme\<rparr>) })))"

text \<open>The loop of \<^verbatim>\<open>_handshake\<close> over what the socket delivers.\<close>

definition TLS13_BUFFER :: nat where "TLS13_BUFFER = 262144"

fun read_flight :: "(byte list \<Rightarrow> flight option option) \<Rightarrow> byte list \<Rightarrow> read_result list \<Rightarrow> flight option option" where
  "read_flight recover buf [] = recover buf"
| "read_flight recover buf (chunk # chunks) =
     (if length buf \<ge> TLS13_BUFFER then recover buf
      else
        (case chunk of
           None \<Rightarrow> recover buf
         | Some c \<Rightarrow>
             if c = [] then recover buf
             else
               (case recover (buf @ c) of
                  None \<Rightarrow> None
                | Some (Some fl) \<Rightarrow> if fl_certs fl \<noteq> [] then Some (Some fl) else read_flight recover (buf @ c) chunks
                | Some None \<Rightarrow> read_flight recover (buf @ c) chunks)))"

section \<open>Findings\<close>

definition TLS13_PROBE :: string where "TLS13_PROBE = ''net.tls.cert_chain_tls13''"

definition tls13_base :: "string \<times> int \<Rightarrow> pydict" where
  "tls13_base tgt = [(''host'', JStr (fst tgt)), (''port'', JInt (snd tgt))]"

definition no_chain_finding :: "int \<Rightarrow> string \<times> int \<Rightarrow> flight \<Rightarrow> finding" where
  "no_chain_finding now tgt fl =
     \<lparr>probe_id = TLS13_PROBE, algorithm = ''TLS1.3'', classification = CLS_INFO, severity = SEV_INFO,
      title = endpoint tgt @ '' negotiated TLS 1.3 (cipher '' @ hex4 (fl_cipher fl) @ '') but served chain could not be decrypted'',
      component_purl = None,
      evidence = tls13_base tgt @ [(''tls_version'', JStr (hex4 (fl_version fl))), (''cipher'', JStr (hex4 (fl_cipher fl)))],
      remediation = [], confidence = ''high'', created_at = now\<rparr>"

definition tls13_cert_finding :: "int \<Rightarrow> string \<times> int \<Rightarrow> flight \<Rightarrow> nat \<times> cert_view \<Rightarrow> finding" where
  "tls13_cert_finding now tgt fl dc =
     (let (depth, c) = dc; key_alg = key_algorithm (cv_key c); cls = chain_class c in
      \<lparr>probe_id = TLS13_PROBE, algorithm = normalise key_alg, classification = cls, severity = sev_for cls,
       title = endpoint tgt @ '' TLS 1.3 served-chain '' @ chain_role depth @ '' cert: '' @ key_alg @ '' signed with '' @ sig_name c,
       component_purl = None,
       evidence = tls13_base tgt @ [(''depth'', JInt (int depth)), (''role'', JStr (chain_role depth)), (''subject'', JStr (cv_subject c)),
         (''key_algorithm'', JStr key_alg), (''signature_hash'', sig_json c), (''tls_version'', JStr (hex4 (fl_version fl))),
         (''cipher'', JStr (hex4 (fl_cipher fl)))],
       remediation = [], confidence = ''high'', created_at = now\<rparr>)"

definition scheme_finding :: "int \<Rightarrow> string \<times> int \<Rightarrow> nat \<Rightarrow> finding" where
  "scheme_finding now tgt scheme =
     (let (pretty, alg) = (case map_of SCHEMES scheme of Some p \<Rightarrow> p | None \<Rightarrow> (''unknown-'' @ hex4 scheme, []));
          cls = (if alg \<noteq> [] then classify alg else CLS_INFO) in
      \<lparr>probe_id = TLS13_PROBE, algorithm = (if alg \<noteq> [] then normalise alg else pretty), classification = cls, severity = sev_for cls,
       title = endpoint tgt @ '' TLS 1.3 CertificateVerify signed with '' @ pretty, component_purl = None,
       evidence = tls13_base tgt @ [(''signature_scheme'', JStr pretty), (''scheme_code'', JStr (hex4 scheme))],
       remediation = [], confidence = ''high'', created_at = now\<rparr>)"

text \<open>What \<^verbatim>\<open>run\<close> emits for the outcome of the handshake.\<close>

definition flight_findings :: "int \<Rightarrow> (byte list \<Rightarrow> cert_view option) \<Rightarrow> string \<times> int \<Rightarrow> flight option option \<Rightarrow> finding list" where
  "flight_findings now load tgt result =
     (case result of
        None \<Rightarrow> []
      | Some None \<Rightarrow> []
      | Some (Some fl) \<Rightarrow>
          if fl_certs fl = [] then [no_chain_finding now tgt fl]
          else map (tls13_cert_finding now tgt fl) (loaded_chain load (fl_certs fl)) @
               (case fl_scheme fl of None \<Rightarrow> [] | Some s \<Rightarrow> [scheme_finding now tgt s]))"

text \<open>The probe: \<open>public\<close> is the fresh key pair's public half, \<open>exchange\<close> its key agreement and \<open>conn\<close> what the
  socket delivers, \<^const>\<open>None\<close> when the connection cannot be opened.\<close>

definition run_tls13 ::
  "digest_fn \<Rightarrow> hmac_fn \<Rightarrow> aead_fn \<Rightarrow> aead_fn \<Rightarrow> (byte list \<Rightarrow> cert_view option) \<Rightarrow> (byte list \<Rightarrow> byte list option) \<Rightarrow>
   byte list \<Rightarrow> int \<Rightarrow> string option \<Rightarrow> string option \<Rightarrow> read_result list option \<Rightarrow> finding list" where
  "run_tls13 digest hmac aesgcm chacha load exchange public now target server_target conn =
     (case resolve_target target server_target of
        None \<Rightarrow> []
      | Some tgt \<Rightarrow>
          flight_findings now load tgt
            (case conn of
               None \<Rightarrow> Some None
             | Some chunks \<Rightarrow>
                 (case build_client_hello_tls13 (Some (fst tgt)) public FIXED_RANDOM of
                    None \<Rightarrow> None
                  | Some client_hello \<Rightarrow>
                      read_flight (recover_handshake digest hmac aesgcm chacha exchange client_hello) [] chunks)))"

end
