(* ===== verification/Tls_Sweep.thy ===== *)
theory Tls_Sweep
  imports Tls_Client
begin

text \<open>
  The three raw TLS probes without decryption: \<^verbatim>\<open>probes/net_tls_cert_chain.py\<close> (the cleartext chain of TLS
  1.2), \<^verbatim>\<open>net_tls_kex_groups.py\<close> (the group a server selects) and \<^verbatim>\<open>net_tls_versions.py\<close> (the versions it
  accepts). What a server sends is an argument; a read that fails is \<^const>\<open>None\<close>. The outer \<^const>\<open>None\<close> of
  a run is an exception that leaves the probe.
\<close>

section \<open>The chain of TLS 1.2\<close>

definition TLS12_CIPHERS :: "nat list" where
  "TLS12_CIPHERS = [0xC02B, 0xC02C, 0xC02F, 0xC030, 0x009C, 0x009D, 0xC013, 0xC014, 0x002F, 0x0035]"

definition build_client_hello_tls12 :: "string option \<Rightarrow> byte list \<Rightarrow> byte list option" where
  "build_client_hello_tls12 server_name rnd = do {
     g \<leftarrow> u16s [0x001D, 0x0017, 0x0018]; gv \<leftarrow> vec16 g; e1 \<leftarrow> ext 0x000A gv;
     e2 \<leftarrow> ext 0x000B [1, 0];
     s \<leftarrow> u16s [0x0403, 0x0804, 0x0401, 0x0503, 0x0805, 0x0601]; sv \<leftarrow> vec16 s; e3 \<leftarrow> ext 0x000D sv;
     sni \<leftarrow> sni_ext server_name;
     hello_record 0x0303 rnd TLS12_CIPHERS (e1 @ e2 @ e3 @ sni) }"

function handshake_bytes :: "byte list \<Rightarrow> nat \<Rightarrow> byte list" where
  "handshake_bytes data off =
     (if off + 5 \<le> length data then
        (let rec_len = be_nat (slice (off + 3) (off + 5) data) in
         (if data ! off = 0x16 then slice (off + 5) (off + 5 + rec_len) data else []) @ handshake_bytes data (off + 5 + rec_len))
      else [])"
  by pat_completeness auto
termination
  by (relation "measure (\<lambda>(data, off). length data - off)") auto

declare handshake_bytes.simps [simp del]

definition reassemble_handshake :: "byte list \<Rightarrow> byte list" where
  "reassemble_handshake data = handshake_bytes data 0"

function chain_entries :: "byte list \<Rightarrow> nat \<Rightarrow> nat \<Rightarrow> byte list list" where
  "chain_entries body e p =
     (if p + 3 \<le> e \<and> p + 3 \<le> length body then
        (let clen = be_nat (slice p (p + 3) body); cert = slice (p + 3) (p + 3 + clen) body in
         (if length cert = clen \<and> cert \<noteq> [] then [cert] else []) @ chain_entries body e (p + 3 + clen))
      else [])"
  by pat_completeness auto
termination
  by (relation "measure (\<lambda>(body, e, p). e - p)") auto

declare chain_entries.simps [simp del]

function certificate_message :: "byte list \<Rightarrow> nat \<Rightarrow> byte list list" where
  "certificate_message hs off =
     (if off + 4 \<le> length hs then
        (let msg_len = be_nat (slice (off + 1) (off + 4) hs); body = slice (off + 4) (off + 4 + msg_len) hs in
         if hs ! off \<noteq> 0x0B then certificate_message hs (off + 4 + msg_len)
         else if length body < 3 then []
         else chain_entries body (3 + be_nat (slice 0 3 body)) 3)
      else [])"
  by pat_completeness auto
termination
  by (relation "measure (\<lambda>(hs, off). length hs - off)") auto

declare certificate_message.simps [simp del]

definition extract_certificates :: "byte list \<Rightarrow> byte list list" where
  "extract_certificates data = certificate_message (reassemble_handshake data) 0"

definition TLS12_BUFFER :: nat where "TLS12_BUFFER = 65536"

fun fetch_chain :: "byte list \<Rightarrow> read_result list \<Rightarrow> byte list" where
  "fetch_chain buf [] = buf"
| "fetch_chain buf (chunk # chunks) =
     (if length buf \<ge> TLS12_BUFFER then buf
      else
        (case chunk of
           None \<Rightarrow> buf
         | Some c \<Rightarrow>
             if c = [] then buf
             else if extract_certificates (buf @ c) \<noteq> [] then buf @ c
             else fetch_chain (buf @ c) chunks))"

definition tls12_cert_finding :: "int \<Rightarrow> string \<times> int \<Rightarrow> nat \<times> cert_view \<Rightarrow> finding" where
  "tls12_cert_finding now tgt dc =
     (let (depth, c) = dc; key_alg = key_algorithm (cv_key c); cls = chain_class c in
      \<lparr>probe_id = ''net.tls.cert_chain'', algorithm = normalise key_alg, classification = cls, severity = sev_for cls,
       title = endpoint tgt @ '' served-chain '' @ chain_role depth @ '' cert: '' @ key_alg @ '' signed with '' @ sig_name c,
       component_purl = None,
       evidence = [(''host'', JStr (fst tgt)), (''port'', JInt (snd tgt)), (''depth'', JInt (int depth)), (''role'', JStr (chain_role depth)),
         (''subject'', JStr (cv_subject c)), (''key_algorithm'', JStr key_alg), (''signature_hash'', sig_json c)],
       remediation = [], confidence = ''high'', created_at = now\<rparr>)"

definition tls12_chain_findings :: "int \<Rightarrow> (byte list \<Rightarrow> cert_view option) \<Rightarrow> string \<times> int \<Rightarrow> byte list \<Rightarrow> finding list" where
  "tls12_chain_findings now load tgt raw = map (tls12_cert_finding now tgt) (loaded_chain load (extract_certificates raw))"

definition run_tls12 ::
  "int \<Rightarrow> (byte list \<Rightarrow> cert_view option) \<Rightarrow> string option \<Rightarrow> string option \<Rightarrow> read_result list option \<Rightarrow> finding list option" where
  "run_tls12 now load target server_target conn =
     (case resolve_target target server_target of
        None \<Rightarrow> Some []
      | Some tgt \<Rightarrow>
          (case conn of
             None \<Rightarrow> Some []
           | Some chunks \<Rightarrow>
               map_option (\<lambda>_. tls12_chain_findings now load tgt (fetch_chain [] chunks)) (build_client_hello_tls12 (Some (fst tgt)) FIXED_RANDOM)))"

section \<open>The selected group\<close>

definition KEX_GROUPS :: "(nat \<times> string \<times> bool) list" where
  "KEX_GROUPS =
     [(0x001D, ''x25519'', False), (0x0017, ''secp256r1'', False), (0x0018, ''secp384r1'', False), (0x0019, ''secp521r1'', False),
      (0x0100, ''ffdhe2048'', False), (0x0101, ''ffdhe3072'', False), (0x0102, ''ffdhe4096'', False),
      (0x11EC, ''X25519MLKEM768'', True), (0x11EB, ''SecP256r1MLKEM768'', True), (0x11ED, ''SecP384r1MLKEM1024'', True),
      (0x6399, ''X25519Kyber768Draft00'', True), (0x639A, ''SecP256r1Kyber768Draft00'', True)]"

definition OFFER_ORDER :: "nat list" where
  "OFFER_ORDER = [0x11EC, 0x11EB, 0x6399, 0x001D, 0x0017, 0x0018, 0x0019, 0x0101, 0x0100]"

definition build_client_hello_kex :: "string option \<Rightarrow> byte list \<Rightarrow> byte list option" where
  "build_client_hello_kex server_name rnd = do {
     groups \<leftarrow> u16s OFFER_ORDER;
     gv \<leftarrow> vec16 groups; kv \<leftarrow> vec16 [];
     s \<leftarrow> u16s [0x0403, 0x0804, 0x0401, 0x0805, 0x0806]; sv \<leftarrow> vec16 s;
     e1 \<leftarrow> ext 0x002B [0x02, 0x03, 0x04]; e2 \<leftarrow> ext 0x000A gv; e3 \<leftarrow> ext 0x0033 kv; e4 \<leftarrow> ext 0x000D sv;
     sni \<leftarrow> sni_ext server_name;
     hello_record 0x0303 rnd [0x1301, 0x1302, 0x1303] (e1 @ e2 @ e3 @ e4 @ sni) }"

record kex_result =
  kx_version :: nat
  kx_cipher :: nat
  kx_code :: nat
  kx_name :: string
  kx_pqc :: bool

definition kex_ext :: "nat \<Rightarrow> byte list \<Rightarrow> nat \<times> nat option \<Rightarrow> (nat \<times> nat option) option" where
  "kex_ext et ev acc =
     (if et = 0x002B \<and> length ev \<ge> 2 then map_option (\<lambda>v. (v, snd acc)) (u16_at ev 0)
      else if et = 0x0033 \<and> length ev \<ge> 2 then map_option (\<lambda>g. (fst acc, Some g)) (u16_at ev 0)
      else Some acc)"

definition parse_server_hello_kex :: "byte list \<Rightarrow> kex_result option option" where
  "parse_server_hello_kex data =
     (if length data < 5 \<or> data ! 0 \<noteq> 0x16 then Some None
      else
        (let hs = slice 5 (5 + be_nat (slice 3 5 data)) data in
         if length hs < 4 \<or> hs ! 0 \<noteq> 0x02 then Some None
         else
           (case server_hello_fields (slice 4 (4 + be_nat (slice 1 4 hs)) hs) of
              None \<Rightarrow> None
            | Some None \<Rightarrow> Some None
            | Some (Some (cipher, exts)) \<Rightarrow>
                (case ext_loop kex_ext exts 0 (0x0303, None) of
                   None \<Rightarrow> None
                 | Some (version, group_code) \<Rightarrow>
                     Some (map_option (\<lambda>g.
                       (let (name, is_pqc) = (case map_of KEX_GROUPS g of Some p \<Rightarrow> p | None \<Rightarrow> (''unknown-'' @ hex4 g, False)) in
                        \<lparr>kx_version = version, kx_cipher = cipher, kx_code = g, kx_name = name, kx_pqc = is_pqc\<rparr>)) group_code)))))"

definition kex_evidence :: "string \<times> int \<Rightarrow> kex_result \<Rightarrow> pydict" where
  "kex_evidence tgt r =
     [(''host'', JStr (fst tgt)), (''port'', JInt (snd tgt)), (''group'', JStr (kx_name r)), (''group_code'', JStr (hex4 (kx_code r))),
      (''tls_version'', JStr (hex4 (kx_version r)))]"

definition kex_finding :: "int \<Rightarrow> string \<times> int \<Rightarrow> kex_result \<Rightarrow> finding" where
  "kex_finding now tgt r =
     (if kx_pqc r then
        \<lparr>probe_id = ''net.tls.kex_groups'', algorithm = kx_name r, classification = PQC_READY, severity = SEV_INFO,
         title = endpoint tgt @ '' negotiates post-quantum hybrid key exchange ('' @ kx_name r @ '')'', component_purl = None,
         evidence = kex_evidence tgt r, remediation = [], confidence = ''high'', created_at = now\<rparr>
      else
        \<lparr>probe_id = ''net.tls.kex_groups'', algorithm = kx_name r, classification = SEDERHANA, severity = MED,
         title = endpoint tgt @ '' selects classical key exchange ('' @ kx_name r @ '') '' @ DASH @ '' harvest-now-decrypt-later exposed'',
         component_purl = None,
         evidence = kex_evidence tgt r @ [(''note'', JStr (''Server chose a classical ECDHE/FFDHE group despite '' @
           ''being offered hybrid ML-KEM groups; recorded TLS '' @ ''traffic is decryptable once a CRQC exists.''))],
         remediation = [], confidence = ''high'', created_at = now\<rparr>)"

text \<open>One connection, \<^const>\<open>None\<close> when it cannot be opened, and the result of the one read.\<close>

definition run_kex :: "int \<Rightarrow> string option \<Rightarrow> string option \<Rightarrow> read_result option \<Rightarrow> finding list option" where
  "run_kex now target server_target conn =
     (case resolve_target target server_target of
        None \<Rightarrow> Some []
      | Some tgt \<Rightarrow>
          (case conn of
             None \<Rightarrow> Some []
           | Some reply \<Rightarrow> do {
               _ \<leftarrow> build_client_hello_kex (Some (fst tgt)) FIXED_RANDOM;
               r \<leftarrow> (case reply of None \<Rightarrow> Some None | Some data \<Rightarrow> parse_server_hello_kex data);
               Some (case r of None \<Rightarrow> [] | Some k \<Rightarrow> [kex_finding now tgt k]) }))"

section \<open>The version sweep\<close>

definition VERSION_NAMES :: "(nat \<times> string) list" where
  "VERSION_NAMES = [(0x0300, ''SSL 3.0''), (0x0301, ''TLS 1.0''), (0x0302, ''TLS 1.1''), (0x0303, ''TLS 1.2''), (0x0304, ''TLS 1.3'')]"

definition SWEEP_ORDER :: "nat list" where
  "SWEEP_ORDER = [0x0300, 0x0301, 0x0302, 0x0303, 0x0304]"

definition SWEEP_SUITES :: "nat list" where
  "SWEEP_SUITES = [0x1301, 0x1302, 0x1303, 0xC02F, 0xC030, 0x009C, 0x0035, 0x000A]"

definition build_client_hello_version :: "nat \<Rightarrow> string option \<Rightarrow> byte list \<Rightarrow> byte list option" where
  "build_client_hello_version version server_name rnd = do {
     let is_tls13 = version \<ge> 0x0304;
     let legacy = (if is_tls13 then 0x0303 else version);
     e1 \<leftarrow> (if is_tls13 then ext 0x002B [0x02, 0x03, 0x04] else Some []);
     g \<leftarrow> u16s [0x001D, 0x0017, 0x0018, 0x11EC]; gv \<leftarrow> vec16 g; e2 \<leftarrow> ext 0x000A gv;
     s \<leftarrow> u16s [0x0403, 0x0804, 0x0401, 0x0805, 0x0806]; sv \<leftarrow> vec16 s; e3 \<leftarrow> ext 0x000D sv;
     kv \<leftarrow> vec16 []; e4 \<leftarrow> (if is_tls13 then ext 0x0033 kv else Some []);
     sni \<leftarrow> sni_ext server_name;
     hello_record legacy rnd SWEEP_SUITES (e1 @ e2 @ e3 @ e4 @ sni) }"

definition detect_accept :: "byte list \<Rightarrow> bool" where
  "detect_accept data =
     (if length data < 6 \<or> data ! 0 \<noteq> 0x16 then False
      else (let hs = slice 5 (5 + be_nat (slice 3 5 data)) data in length hs \<ge> 1 \<and> hs ! 0 = 0x02))"

definition version_name :: "nat \<Rightarrow> string" where
  "version_name v = the (map_of VERSION_NAMES v)"

definition old_version_finding :: "int \<Rightarrow> string \<times> int \<Rightarrow> nat \<Rightarrow> finding list" where
  "old_version_finding now tgt v =
     (let f = (\<lambda>cls sv words.
        [\<lparr>probe_id = ''net.tls.versions'', algorithm = version_name v, classification = cls, severity = sv,
          title = endpoint tgt @ '' accepts '' @ version_name v @ words, component_purl = None,
          evidence = [(''host'', JStr (fst tgt)), (''port'', JInt (snd tgt)), (''version'', JStr (version_name v)), (''version_code'', JStr (hex4 v))],
          remediation = [(''snippet'', JStr (''# Disable '' @ version_name v @ '' on the server (require TLS 1.2+)''))],
          confidence = ''high'', created_at = now\<rparr>])
      in if v \<in> {0x0300, 0x0301} then f TINGGI HIGH '' (broken/deprecated TLS version)''
         else if v = 0x0302 then f SEDERHANA MED '' (deprecated TLS version)''
         else [])"

definition tls13_version_finding :: "int \<Rightarrow> string \<times> int \<Rightarrow> (nat \<Rightarrow> bool) \<Rightarrow> finding" where
  "tls13_version_finding now tgt accepted =
     (if accepted 0x0304 then
        \<lparr>probe_id = ''net.tls.versions'', algorithm = ''TLS 1.3'', classification = CLS_INFO, severity = SEV_INFO,
         title = endpoint tgt @ '' supports TLS 1.3 (PQC-capable transport available)'', component_purl = None,
         evidence = [(''host'', JStr (fst tgt)), (''port'', JInt (snd tgt)), (''version'', JStr ''TLS 1.3''), (''version_code'', JStr ''0x0304'')],
         remediation = [], confidence = ''high'', created_at = now\<rparr>
      else
        \<lparr>probe_id = ''net.tls.versions'', algorithm = ''TLS 1.3'', classification = SEDERHANA, severity = MED,
         title = endpoint tgt @ '' does not support TLS 1.3 '' @ DASH @ '' no PQC-capable transport'', component_purl = None,
         evidence = [(''host'', JStr (fst tgt)), (''port'', JInt (snd tgt)),
           (''supported'', JList (map (JStr \<circ> version_name) (filter accepted SWEEP_ORDER))),
           (''note'', JStr (''TLS 1.3 is required for hybrid ML-KEM key exchange; a '' @
             ''TLS-1.2-only server cannot negotiate post-quantum KEX.''))],
         remediation = [], confidence = ''high'', created_at = now\<rparr>)"

definition version_findings :: "int \<Rightarrow> string \<times> int \<Rightarrow> (nat \<Rightarrow> bool) \<Rightarrow> finding list" where
  "version_findings now tgt accepted =
     concat (map (old_version_finding now tgt) (filter (\<lambda>v. v \<noteq> 0x0304 \<and> accepted v) SWEEP_ORDER)) @
     [tls13_version_finding now tgt accepted]"

text \<open>\<open>peer v\<close> is the connection opened for a version, \<^const>\<open>None\<close> when it cannot be opened: what the server
  sends back to a hello, \<^const>\<open>None\<close> when the exchange fails.\<close>

type_synonym tls_peer = "nat \<Rightarrow> (byte list \<Rightarrow> read_result) option"

definition probe_version :: "tls_peer \<Rightarrow> string \<Rightarrow> nat \<Rightarrow> bool option" where
  "probe_version peer host v =
     (case peer v of
        None \<Rightarrow> Some False
      | Some reply \<Rightarrow> do {
          hello \<leftarrow> build_client_hello_version v (Some host) FIXED_RANDOM;
          Some (case reply hello of None \<Rightarrow> False | Some data \<Rightarrow> detect_accept data) })"

fun accepted_versions :: "tls_peer \<Rightarrow> string \<Rightarrow> nat list \<Rightarrow> (nat \<times> bool) list option" where
  "accepted_versions peer host [] = Some []"
| "accepted_versions peer host (v # vs) = do {
     b \<leftarrow> probe_version peer host v;
     rest \<leftarrow> accepted_versions peer host vs;
     Some ((v, b) # rest) }"

definition run_versions :: "tls_peer \<Rightarrow> int \<Rightarrow> string option \<Rightarrow> string option \<Rightarrow> finding list option" where
  "run_versions peer now target server_target =
     (case resolve_target target server_target of
        None \<Rightarrow> Some []
      | Some tgt \<Rightarrow>
          map_option (\<lambda>acc. version_findings now tgt (\<lambda>v. map_of acc v = Some True)) (accepted_versions peer (fst tgt) SWEEP_ORDER))"

end
