(* ===== verification/Tls_Client_Laws.thy ===== *)
theory Tls_Client_Laws
  imports Tls13_Chain Tls_Sweep Tls_Laws
begin

text \<open>
  The hellos that the raw TLS probes send are ClientHellos of the standard: the inventory of a capture file that
  contains one shows exactly the groups, versions and suites the probe offered.
\<close>

section \<open>The writers are the reference encoders\<close>

lemma pack_H_enc: "n < 65536 \<Longrightarrow> pack_H n = Some (enc16 n)"
  by (simp add: pack_H_def enc16_def)

lemma vec16_enc: "length b < 65536 \<Longrightarrow> vec16 b = Some (enc16 (length b) @ b)"
  by (simp add: vec16_def pack_H_enc)

lemma ext_enc: "ext_ok (t, b) \<Longrightarrow> ext t b = Some (enc_ext (t, b))"
  by (simp add: ext_def ext_ok_def pack_H_enc vec16_enc enc_ext_def)

lemma u16s_enc: "words_ok ns \<Longrightarrow> u16s ns = Some (enc_words ns)"
proof -
  assume "words_ok ns"
  then have "collect pack_H ns = Some (map enc16 ns)"
    by (induction ns) (simp_all add: words_ok_def pack_H_enc)
  then show ?thesis by (simp add: u16s_def enc_words_def)
qed

lemma u24_enc: "n < 16777216 \<Longrightarrow> u24 n = Some (enc24 n)"
proof -
  assume n: "n < 16777216"
  then have "n div 65536 < 256" by (simp add: less_mult_imp_div_less)
  with n show ?thesis by (simp add: u24_def pack_I_def enc24_def)
qed

lemma length_enc24 [simp]: "length (enc24 n) = 3"
  by (rule enc24_facts)

definition exts_bytes :: "hello_ext list \<Rightarrow> byte list" where
  "exts_bytes xs = concat (map (\<lambda>x. enc_ext (raw_ext x)) xs)"

lemma exts_bytes_simps [simp]: "exts_bytes [] = []" "exts_bytes (x # xs) = enc_ext (raw_ext x) @ exts_bytes xs"
  by (simp_all add: exts_bytes_def)

lemma hello_record_enc:
  assumes "ver < 65536" "words_ok cs" "length rnd = 32" "2 * length cs + length (exts_bytes xs) < 65400"
  shows "hello_record ver rnd cs (exts_bytes xs) = Some (handshake_record 0x01 (client_hello_bytes ver rnd [] cs [0] xs))"
proof -
  let ?b = "client_hello_bytes ver rnd [] cs [0] xs"
  have b: "enc16 ver @ rnd @ [0] @ (enc16 (length (enc_words cs)) @ enc_words cs) @ [1, 0] @ enc16 (length (exts_bytes xs)) @ exts_bytes xs = ?b"
    by (simp add: client_hello_bytes_def Let_def exts_bytes_def byte_of_def)
  have l: "length ?b = 41 + 2 * length cs + length (exts_bytes xs)"
    using assms(3) by (simp add: client_hello_bytes_def Let_def exts_bytes_def)
  have "hello_record ver rnd cs (exts_bytes xs) =
      do { l \<leftarrow> u24 (length ?b); hs \<leftarrow> vec16 ([1] @ l @ ?b); Some ([0x16, 0x03, 0x01] @ hs) }"
    unfolding hello_record_def using assms b l by (simp add: pack_H_enc u16s_enc vec16_enc Let_def add.assoc)
  also have "\<dots> = Some ([0x16, 0x03, 0x01] @ enc16 (length ([1] @ enc24 (length ?b) @ ?b)) @ [1] @ enc24 (length ?b) @ ?b)"
    using assms(4) l by (simp add: u24_enc vec16_enc)
  finally show ?thesis by (simp add: handshake_record_def Let_def)
qed

text \<open>A host name as an extension.\<close>

definition sni_body :: "string \<Rightarrow> byte list" where
  "sni_body name = (let h = map (\<lambda>c. byte_of (char_code c)) name in enc16 (length h + 3) @ 0 # enc16 (length h) @ h)"

definition dns_name :: "string \<Rightarrow> bool" where
  "dns_name name \<longleftrightarrow> name \<noteq> [] \<and> idna_ascii name \<noteq> None \<and> length name < 256"

lemma sni_ext_enc:
  assumes "dns_name name"
  shows "sni_ext (Some name) = Some (enc_ext (0, sni_body name))" "ext_ok (0, sni_body name)" "length (sni_body name) = length name + 5"
proof -
  let ?h = "map (\<lambda>c. byte_of (char_code c)) name"
  have i: "idna_ascii name = Some ?h" using assms by (simp add: dns_name_def idna_ascii_def Let_def split: if_splits)
  show l: "length (sni_body name) = length name + 5" by (simp add: sni_body_def Let_def)
  show ok: "ext_ok (0, sni_body name)" using assms l by (simp add: ext_ok_def dns_name_def)
  have "vec16 (0 # enc16 (length name) @ ?h) = Some (sni_body name)"
    using assms by (subst vec16_enc) (simp_all add: dns_name_def sni_body_def Let_def numeral_3_eq_3)
  moreover have "vec16 ?h = Some (enc16 (length name) @ ?h)"
    using assms by (subst vec16_enc) (simp_all add: dns_name_def)
  ultimately show "sni_ext (Some name) = Some (enc_ext (0, sni_body name))"
    using assms i ext_enc [OF ok] by (simp add: sni_ext_def dns_name_def)
qed

section \<open>The hellos\<close>

definition kex_exts :: "string \<Rightarrow> hello_ext list" where
  "kex_exts host =
     [SupportedVersions [0x0304], SupportedGroups OFFER_ORDER, KeyShares [],
      OtherExt 0x000D (enc16 10 @ enc_words [0x0403, 0x0804, 0x0401, 0x0805, 0x0806]), OtherExt 0 (sni_body host)]"

definition tls13_exts :: "string \<Rightarrow> byte list \<Rightarrow> hello_ext list" where
  "tls13_exts host key =
     [SupportedVersions [0x0304], SupportedGroups [0x001D], KeyShares [(0x001D, key)],
      OtherExt 0x000D (enc16 (2 * length SIG_ALGS) @ enc_words SIG_ALGS), OtherExt 0 (sni_body host)]"

lemma kex_hello:
  assumes "dns_name host" "length rnd = 32"
  shows "build_client_hello_kex (Some host) rnd =
     Some (handshake_record 0x01 (client_hello_bytes 0x0303 rnd [] [0x1301, 0x1302, 0x1303] [0] (kex_exts host)))"
proof -
  have v: "enc_ext (0x002B, [2, 3, 4]) = enc_ext (raw_ext (SupportedVersions [0x0304]))"
    by (simp add: enc_words_def enc16_def byte_of_def)
  have g: "u16s OFFER_ORDER = Some (enc_words OFFER_ORDER)" "vec16 (enc_words OFFER_ORDER) = Some (enc16 18 @ enc_words OFFER_ORDER)"
    by (simp_all add: OFFER_ORDER_def u16s_enc words_ok_def vec16_enc)
  have s: "u16s [0x0403, 0x0804, 0x0401, 0x0805, 0x0806] = Some (enc_words [0x0403, 0x0804, 0x0401, 0x0805, 0x0806])"
    "vec16 (enc_words [0x0403, 0x0804, 0x0401, 0x0805, 0x0806]) = Some (enc16 10 @ enc_words [0x0403, 0x0804, 0x0401, 0x0805, 0x0806])"
    by (simp_all add: u16s_enc words_ok_def vec16_enc)
  have k: "vec16 [] = Some (enc16 0)" by (simp add: vec16_enc)
  have e: "ext 0x002B [2, 3, 4] = Some (enc_ext (raw_ext (SupportedVersions [0x0304])))"
    "ext 0x000A (enc16 18 @ enc_words OFFER_ORDER) = Some (enc_ext (raw_ext (SupportedGroups OFFER_ORDER)))"
    "ext 0x0033 (enc16 0) = Some (enc_ext (raw_ext (KeyShares [])))"
    "ext 0x000D (enc16 10 @ enc_words [0x0403, 0x0804, 0x0401, 0x0805, 0x0806]) =
       Some (enc_ext (raw_ext (OtherExt 0x000D (enc16 10 @ enc_words [0x0403, 0x0804, 0x0401, 0x0805, 0x0806]))))"
    unfolding v [symmetric] by (subst ext_enc; simp add: ext_ok_def OFFER_ORDER_def)+
  have l: "length (exts_bytes (kex_exts host)) < 60000"
    using assms(1) sni_ext_enc(3) [OF assms(1)] by (simp add: kex_exts_def OFFER_ORDER_def enc_ext_def dns_name_def)
  have "build_client_hello_kex (Some host) rnd = hello_record 0x0303 rnd [0x1301, 0x1302, 0x1303] (exts_bytes (kex_exts host))"
    unfolding build_client_hello_kex_def by (simp only: g s k e sni_ext_enc(1) [OF assms(1)] Option.bind.bind_lunit) (simp add: kex_exts_def)
  then show ?thesis
    using hello_record_enc [of "0x0303" "[0x1301, 0x1302, 0x1303]" rnd "kex_exts host"] assms(2) l by (simp add: words_ok_def)
qed

lemma tls13_hello:
  assumes "dns_name host" "length rnd = 32" "length key < 60000"
  shows "build_client_hello_tls13 (Some host) key rnd =
     Some (handshake_record 0x01 (client_hello_bytes 0x0303 rnd [] [0x1301, 0x1302, 0x1303] [0] (tls13_exts host key)))"
proof -
  have v: "enc_ext (0x002B, [2, 3, 4]) = enc_ext (raw_ext (SupportedVersions [0x0304]))"
    by (simp add: enc_words_def enc16_def byte_of_def)
  let ?k = "enc_ext (0x001D, key)" and ?s = "enc16 (2 * length SIG_ALGS) @ enc_words SIG_ALGS"
  have w: "pack_H 0x001D = Some (enc16 0x001D)" "vec16 key = Some (enc16 (length key) @ key)" "u16s SIG_ALGS = Some (enc_words SIG_ALGS)"
    "vec16 (enc16 0x001D) = Some (enc16 2 @ enc_words [0x001D])" "vec16 ?k = Some (enc16 (length ?k) @ ?k)"
    "vec16 (enc_words SIG_ALGS) = Some ?s"
    using assms(3) by (simp_all add: pack_H_enc vec16_enc u16s_enc words_ok_def SIG_ALGS_def enc_words_def enc_ext_def)
  have k: "enc16 0x001D @ enc16 (length key) @ key = ?k" by (simp add: enc_ext_def)
  have e: "ext 0x002B [2, 3, 4] = Some (enc_ext (raw_ext (SupportedVersions [0x0304])))"
    "ext 0x000A (enc16 2 @ enc_words [0x001D]) = Some (enc_ext (raw_ext (SupportedGroups [0x001D])))"
    "ext 0x0033 (enc16 (length ?k) @ ?k) = Some (enc_ext (raw_ext (KeyShares [(0x001D, key)])))"
    "ext 0x000D ?s = Some (enc_ext (raw_ext (OtherExt 0x000D ?s)))"
    unfolding v [symmetric] using assms(3) by (subst ext_enc; simp add: ext_ok_def SIG_ALGS_def enc_ext_def)+
  have l: "length (exts_bytes (tls13_exts host key)) < 65000"
    using assms sni_ext_enc(3) [OF assms(1)] by (simp add: tls13_exts_def SIG_ALGS_def enc_ext_def dns_name_def)
  have "build_client_hello_tls13 (Some host) key rnd = hello_record 0x0303 rnd [0x1301, 0x1302, 0x1303] (exts_bytes (tls13_exts host key))"
    unfolding build_client_hello_tls13_def
    by (simp only: w Option.bind.bind_lunit Let_def k e sni_ext_enc(1) [OF assms(1)]) (simp add: tls13_exts_def)
  then show ?thesis
    using hello_record_enc [of "0x0303" "[0x1301, 0x1302, 0x1303]" rnd "tls13_exts host key"] assms(2) l by (simp add: words_ok_def)
qed

lemma version_hello:
  assumes "dns_name host" "v < 65536" "length rnd = 32"
  shows "\<exists>q. build_client_hello_version v (Some host) rnd = Some q"
proof -
  let ?xs = "(if v \<ge> 0x0304 then [SupportedVersions [0x0304]] else []) @
      [SupportedGroups [0x001D, 0x0017, 0x0018, 0x11EC], OtherExt 0x000D (enc16 10 @ enc_words [0x0403, 0x0804, 0x0401, 0x0805, 0x0806])] @
      (if v \<ge> 0x0304 then [KeyShares []] else []) @ [OtherExt 0 (sni_body host)]"
  have vv: "enc_ext (0x002B, [2, 3, 4]) = enc_ext (raw_ext (SupportedVersions [0x0304]))"
    by (simp add: enc_words_def enc16_def byte_of_def)
  have w: "u16s [0x001D, 0x0017, 0x0018, 0x11EC] = Some (enc_words [0x001D, 0x0017, 0x0018, 0x11EC])"
    "vec16 (enc_words [0x001D, 0x0017, 0x0018, 0x11EC]) = Some (enc16 8 @ enc_words [0x001D, 0x0017, 0x0018, 0x11EC])"
    "u16s [0x0403, 0x0804, 0x0401, 0x0805, 0x0806] = Some (enc_words [0x0403, 0x0804, 0x0401, 0x0805, 0x0806])"
    "vec16 (enc_words [0x0403, 0x0804, 0x0401, 0x0805, 0x0806]) = Some (enc16 10 @ enc_words [0x0403, 0x0804, 0x0401, 0x0805, 0x0806])"
    "vec16 [] = Some (enc16 0)"
    by (simp_all add: u16s_enc words_ok_def vec16_enc)
  have e: "ext 0x002B [2, 3, 4] = Some (enc_ext (raw_ext (SupportedVersions [0x0304])))"
    "ext 0x000A (enc16 8 @ enc_words [0x001D, 0x0017, 0x0018, 0x11EC]) = Some (enc_ext (raw_ext (SupportedGroups [0x001D, 0x0017, 0x0018, 0x11EC])))"
    "ext 0x0033 (enc16 0) = Some (enc_ext (raw_ext (KeyShares [])))"
    "ext 0x000D (enc16 10 @ enc_words [0x0403, 0x0804, 0x0401, 0x0805, 0x0806]) =
       Some (enc_ext (raw_ext (OtherExt 0x000D (enc16 10 @ enc_words [0x0403, 0x0804, 0x0401, 0x0805, 0x0806]))))"
    unfolding vv [symmetric] by (subst ext_enc; simp add: ext_ok_def)+
  have l: "length (exts_bytes ?xs) < 60000"
    using assms(1) sni_ext_enc(3) [OF assms(1)] by (auto simp: enc_ext_def dns_name_def)
  have "build_client_hello_version v (Some host) rnd = hello_record (if v \<ge> 0x0304 then 0x0303 else v) rnd SWEEP_SUITES (exts_bytes ?xs)"
    unfolding build_client_hello_version_def Let_def
    by (cases "v \<ge> 0x0304"; simp only: w e if_True if_False sni_ext_enc(1) [OF assms(1)] Option.bind.bind_lunit; simp)
  moreover have "words_ok SWEEP_SUITES" "length SWEEP_SUITES = 8" by (simp_all add: SWEEP_SUITES_def words_ok_def)
  ultimately show ?thesis
    using hello_record_enc [of "if v \<ge> 0x0304 then 0x0303 else v" SWEEP_SUITES rnd ?xs] assms(2, 3) l by simp
qed

text \<open>
  What the two TLS 1.3 probes offer is what a capture of their traffic shows: for every host name, the group
  probe's hello is read back as a TLS 1.3 hello with its nine groups in order of preference and no key share, and
  the chain probe's as one with an X25519 key share.
\<close>

theorem probe_hellos_recognised:
  assumes "dns_name host" "length rnd = 32" "length key < 60000"
  shows "(\<exists>r. build_client_hello_kex (Some host) rnd = Some r \<and>
      parse_tls_handshake (r @ rest) = Some (ClientHello \<lparr>ch_legacy_version = 0x0303, ch_cipher_suites = [0x1301, 0x1302, 0x1303],
        ch_versions = [0x0304], ch_groups = OFFER_ORDER, ch_key_share_groups = []\<rparr>)) \<and>
    (\<exists>r. build_client_hello_tls13 (Some host) key rnd = Some r \<and>
      parse_tls_handshake (r @ rest) = Some (ClientHello \<lparr>ch_legacy_version = 0x0303, ch_cipher_suites = [0x1301, 0x1302, 0x1303],
        ch_versions = [0x0304], ch_groups = [0x001D], ch_key_share_groups = [0x001D]\<rparr>))"
proof -
  have sn: "ext_ok (0, sni_body host)" "length (sni_body host) \<le> 260"
    using sni_ext_enc(2, 3) [OF assms(1)] assms(1) by (simp_all add: dns_name_def)
  have w: "words_ok [0x1301, 0x1302, 0x1303]" by (simp add: words_ok_def)
  have k1: "list_all hello_ext_ok (kex_exts host)" using sn(1) by (simp add: kex_exts_def OFFER_ORDER_def words_ok_def ext_ok_def)
  have k2: "length (client_hello_bytes 0x0303 rnd [] [0x1301, 0x1302, 0x1303] [0] (kex_exts host)) < 65532"
    using sn(2) assms(2) by (simp add: client_hello_bytes_def Let_def kex_exts_def OFFER_ORDER_def enc_ext_def)
  have k3: "foldl (\<lambda>a x. hello_ext_acc x a) ([], [], []) (kex_exts host) = ([0x0304], OFFER_ORDER, [])" by (simp add: kex_exts_def)
  have t1: "list_all hello_ext_ok (tls13_exts host key)"
    using sn(1) assms(3) by (simp add: tls13_exts_def SIG_ALGS_def words_ok_def ext_ok_def enc_ext_def)
  have t2: "length (client_hello_bytes 0x0303 rnd [] [0x1301, 0x1302, 0x1303] [0] (tls13_exts host key)) < 65532"
    using sn(2) assms(2, 3) by (simp add: client_hello_bytes_def Let_def tls13_exts_def SIG_ALGS_def enc_ext_def)
  have t3: "foldl (\<lambda>a x. hello_ext_acc x a) ([], [], []) (tls13_exts host key) = ([0x0304], [0x001D], [0x001D])"
    by (simp add: tls13_exts_def)
  have d: "dedupe OFFER_ORDER = OFFER_ORDER" "dedupe [0x001D, 0x001D] = [0x001D :: nat]"
    by (simp_all add: OFFER_ORDER_def dedupe_def)
  show ?thesis
    using kex_hello [OF assms(1, 2)] tls13_hello [OF assms]
      parse_client_record [where ver = "0x0303" and rnd = rnd and sid = "[]" and cm = "[0]" and rest = rest, OF _ assms(2) _ w _ _ k1 k2 k3]
      parse_client_record [where ver = "0x0303" and rnd = rnd and sid = "[]" and cm = "[0]" and rest = rest, OF _ assms(2) _ w _ _ t1 t2 t3]
    by (simp add: d)
qed

theorem probe_hellos_recognised_witness:
  "\<exists>r. build_client_hello_kex (Some ''example.org'') FIXED_RANDOM = Some r \<and>
      parse_tls_handshake r = Some (ClientHello \<lparr>ch_legacy_version = 0x0303, ch_cipher_suites = [0x1301, 0x1302, 0x1303],
        ch_versions = [0x0304], ch_groups = OFFER_ORDER, ch_key_share_groups = []\<rparr>)"
proof -
  have "dns_name ''example.org''" by (simp add: dns_name_def idna_ascii_def)
  moreover have "length FIXED_RANDOM = 32" by (simp add: FIXED_RANDOM_def)
  ultimately show ?thesis using probe_hellos_recognised [of "''example.org''" FIXED_RANDOM "[]" "[]"] by simp
qed

end
