(* ===== verification/Tls13_Laws.thy ===== *)
theory Tls13_Laws
  imports Tls_Client_Laws
begin

text \<open>
  What the TLS 1.3 chain probe recovers of a server's flight, for a writer of the flight that seals handshake
  messages in records cut at arbitrary places, and what it loses when the flight arrives in several reads.
\<close>

section \<open>Writers\<close>

text \<open>A record with its type and payload, a handshake message, and a ServerHello body.\<close>

definition tls_record :: "byte \<times> byte list \<Rightarrow> byte list" where
  "tls_record r = fst r # [0x03, 0x03] @ enc16 (length (snd r)) @ snd r"

definition tls_record_ok :: "byte \<times> byte list \<Rightarrow> bool" where
  "tls_record_ok r \<longleftrightarrow> length (snd r) < 65536"

definition enc_message :: "byte \<times> byte list \<Rightarrow> byte list" where
  "enc_message m = fst m # enc24 (length (snd m)) @ snd m"

definition message_ok :: "byte \<times> byte list \<Rightarrow> bool" where
  "message_ok m \<longleftrightarrow> length (snd m) < 16777216"

definition server_hello_bytes :: "byte list \<Rightarrow> byte list \<Rightarrow> nat \<Rightarrow> (nat \<times> byte list) list \<Rightarrow> byte list" where
  "server_hello_bytes rnd sid cipher xs =
     enc16 0x0303 @ rnd @ [byte_of (length sid)] @ sid @ enc16 cipher @ [0] @
     enc16 (length (concat (map enc_ext xs))) @ concat (map enc_ext xs)"

text \<open>A Certificate message body: context, then certificates with their extensions.\<close>

definition cert_entry_bytes :: "byte list \<times> byte list \<Rightarrow> byte list" where
  "cert_entry_bytes c = enc24 (length (fst c)) @ fst c @ enc16 (length (snd c)) @ snd c"

definition certificate_body :: "byte list \<Rightarrow> (byte list \<times> byte list) list \<Rightarrow> byte list" where
  "certificate_body ctx cs =
     byte_of (length ctx) # ctx @ enc24 (length (concat (map cert_entry_bytes cs))) @ concat (map cert_entry_bytes cs)"

definition cert_entry_ok :: "byte list \<times> byte list \<Rightarrow> bool" where
  "cert_entry_ok c \<longleftrightarrow> fst c \<noteq> [] \<and> length (fst c) < 16777216 \<and> length (snd c) < 65536"

section \<open>Records and messages\<close>

lemma be_nat_mid:
  "i = length pre \<Longrightarrow> n < 65536 \<Longrightarrow> j = i + 2 \<Longrightarrow> be_nat (slice i j (pre @ enc16 n @ post)) = n"
  "i = length pre \<Longrightarrow> n < 16777216 \<Longrightarrow> j = i + 3 \<Longrightarrow> be_nat (slice i j (pre @ enc24 n @ post)) = n"
  using slice_mid [of pre i "enc16 n" j post] slice_mid [of pre i "enc24 n" j post] enc24_facts by simp_all

lemma split_records_enc:
  assumes "list_all tls_record_ok rs"
  shows "split_records_from (pre @ concat (map tls_record rs)) (length pre) = map (\<lambda>r. (fst r, tls_record r)) rs"
  using assms
proof (induction rs arbitrary: pre)
  case (Cons r rs)
  let ?post = "concat (map tls_record rs)"
  let ?d = "pre @ tls_record r @ ?post" and ?i = "length pre" and ?n = "length (snd r)"
  have d: "?d = (pre @ [fst r, 3, 3]) @ enc16 ?n @ (snd r @ ?post)" by (simp add: tls_record_def)
  have n: "be_nat (slice (?i + 3) (?i + 5) ?d) = ?n"
    unfolding d by (rule be_nat_mid) (use Cons.prems in \<open>simp_all add: tls_record_ok_def\<close>)
  have l: "length (tls_record r) = 5 + ?n" by (simp add: tls_record_def)
  have s: "slice ?i (?i + 5 + ?n) ?d = tls_record r" by (rule slice_mid) (simp_all add: l)
  have "split_records_from ?d (?i + 5 + ?n) = map (\<lambda>r. (fst r, tls_record r)) rs"
    using Cons.IH [of "pre @ tls_record r"] Cons.prems l by (simp add: add.assoc)
  moreover have "?d ! ?i = fst r" by (simp add: tls_record_def)
  ultimately show ?case
    using n s l by (simp add: split_records_from.simps [of ?d ?i] Let_def)
qed (simp add: split_records_from.simps)

lemma reassemble_enc:
  assumes "list_all message_ok ms"
  shows "reassemble_from (pre @ concat (map enc_message ms)) (length pre) = ms"
  using assms
proof (induction ms arbitrary: pre)
  case (Cons m ms)
  let ?post = "concat (map enc_message ms)"
  let ?d = "pre @ enc_message m @ ?post" and ?i = "length pre" and ?n = "length (snd m)"
  have d: "?d = (pre @ [fst m]) @ enc24 ?n @ (snd m @ ?post)" by (simp add: enc_message_def)
  have n: "be_nat (slice (?i + 1) (?i + 4) ?d) = ?n"
    unfolding d by (rule be_nat_mid) (use Cons.prems in \<open>simp_all add: message_ok_def\<close>)
  have l: "length (enc_message m) = 4 + ?n" by (simp add: enc_message_def)
  have s: "slice (?i + 4) (?i + 4 + ?n) ?d = snd m"
    using slice_mid [of "pre @ fst m # enc24 ?n" "?i + 4" "snd m" "?i + 4 + ?n" ?post] by (simp add: enc_message_def)
  have "reassemble_from ?d (?i + 4 + ?n) = ms"
    using Cons.IH [of "pre @ enc_message m"] Cons.prems l by (simp add: add.assoc)
  moreover have "?d ! ?i = fst m" by (simp add: enc_message_def)
  ultimately show ?case
    using n s l by (simp add: reassemble_from.simps [of ?d ?i] Let_def)
qed (simp add: reassemble_from.simps)

lemma reassemble_messages: "list_all message_ok ms \<Longrightarrow> reassemble (concat (map enc_message ms)) = ms"
  using reassemble_enc [of ms "[]"] by (simp add: reassemble_def)

lemma cert_entries_enc:
  assumes "list_all cert_entry_ok cs" "e = length pre + length (concat (map cert_entry_bytes cs))"
  shows "cert_entries (pre @ concat (map cert_entry_bytes cs)) e (length pre) = map fst cs"
  using assms
proof (induction cs arbitrary: pre)
  case (Cons c cs)
  let ?post = "concat (map cert_entry_bytes cs)" and ?n = "length (fst c)" and ?k = "length (snd c)"
  let ?d = "pre @ cert_entry_bytes c @ ?post" and ?i = "length pre"
  have c: "fst c \<noteq> []" "?n < 16777216" "?k < 65536" using Cons.prems(1) by (simp_all add: cert_entry_ok_def)
  have d1: "?d = pre @ enc24 ?n @ (fst c @ enc16 ?k @ snd c @ ?post)" by (simp add: cert_entry_bytes_def)
  have d2: "?d = (pre @ enc24 ?n @ fst c) @ enc16 ?k @ (snd c @ ?post)" by (simp add: cert_entry_bytes_def)
  have n: "be_nat (slice ?i (?i + 3) ?d) = ?n" unfolding d1 by (rule be_nat_mid) (use c in simp_all)
  have k: "be_nat (slice (?i + 3 + ?n) (?i + 3 + ?n + 2) ?d) = ?k" unfolding d2 by (rule be_nat_mid) (use c in simp_all)
  have s: "slice (?i + 3) (?i + 3 + ?n) ?d = fst c"
    using slice_mid [of "pre @ enc24 ?n" "?i + 3" "fst c" "?i + 3 + ?n" "enc16 ?k @ snd c @ ?post"] by (simp add: cert_entry_bytes_def)
  have l: "length (cert_entry_bytes c) = 5 + ?n + ?k" by (simp add: cert_entry_bytes_def)
  have "cert_entries ?d e (?i + 3 + ?n + 2 + ?k) = map fst cs"
    using Cons.IH [of "pre @ cert_entry_bytes c"] Cons.prems l by (simp add: ac_simps)
  moreover have "?i + 3 \<le> e" "\<not> ?i + 3 + ?n + 2 > e" using Cons.prems(2) l by simp_all
  ultimately show ?case
    using n k s c(1) by (simp add: cert_entries.simps [of ?d e ?i] Let_def)
qed (simp add: cert_entries.simps)

lemma extract_certificates_body:
  assumes "length ctx < 256" "list_all cert_entry_ok cs" "length (concat (map cert_entry_bytes cs)) < 16777216"
  shows "extract_certificates_tls13 (certificate_body ctx cs) = map fst cs"
proof -
  let ?c = "concat (map cert_entry_bytes cs)" and ?p = "1 + length ctx"
  let ?b = "certificate_body ctx cs"
  have b: "?b = (byte_of (length ctx) # ctx) @ enc24 (length ?c) @ ?c" by (simp add: certificate_body_def)
  have n: "be_nat (slice ?p (?p + 3) ?b) = length ?c"
    unfolding b by (rule be_nat_mid) (use assms in simp_all)
  have p: "1 + unat (?b ! 0) = ?p" using assms(1) by (simp add: b unat_byte_of)
  have l: "length ?b = ?p + 3 + length ?c" by (simp add: b)
  have "cert_entries ?b (min (?p + 3 + length ?c) (length ?b)) (?p + 3) = map fst cs"
    using cert_entries_enc [OF assms(2), of "?p + 3 + length ?c" "byte_of (length ctx) # ctx @ enc24 (length ?c)"] l
    by (simp add: b)
  moreover have "?b \<noteq> []" by (simp add: b)
  ultimately show ?thesis
    using l by (simp only: extract_certificates_tls13_def Let_def p n) simp
qed

section \<open>The ServerHello\<close>

lemma server_hello_fields_enc:
  assumes "length rnd = 32" "length sid < 256" "cipher < 65536" "length (concat (map enc_ext xs)) < 65536"
  shows "server_hello_fields (server_hello_bytes rnd sid cipher xs) = Some (Some (cipher, concat (map enc_ext xs)))"
proof -
  let ?e = "concat (map enc_ext xs)" and ?s = "length sid"
  let ?p1 = "enc16 0x0303 @ rnd" and ?d = "server_hello_bytes rnd sid cipher xs"
  let ?p2 = "?p1 @ [byte_of ?s] @ sid"
  have d: "?d = ?p2 @ enc16 cipher @ [0] @ enc16 (length ?e) @ ?e" by (simp add: server_hello_bytes_def)
  have 1: "at ?d 34 = Some (byte_of ?s)" unfolding d using at_mid [of ?p1 34 "byte_of ?s"] assms(1) by simp
  have 2: "u16_at ?d (35 + ?s) = Some cipher" unfolding d by (rule u16_at_enc16) (use assms in simp_all)
  have 3: "u16_at ?d (35 + ?s + 3) = Some (length ?e)" unfolding d
    using u16_at_enc16 [of "length ?e" "?p2 @ enc16 cipher @ [0]" "35 + ?s + 3" ?e] assms by simp
  have 4: "slice (35 + ?s + 5) (35 + ?s + 5 + length ?e) ?d = ?e" unfolding d
    using slice_mid [of "?p2 @ enc16 cipher @ [0] @ enc16 (length ?e)" "35 + ?s + 5" ?e "35 + ?s + 5 + length ?e" "[]"] assms(1) by simp
  show ?thesis
    using 1 2 3 4 assms(2) by (simp add: server_hello_fields_def unat_byte_of Let_def)
qed

lemma message_fields:
  assumes "message_ok m"
  shows "enc_message m ! 0 = fst m" "slice 4 (4 + be_nat (slice 1 4 (enc_message m))) (enc_message m) = snd m" "length (enc_message m) = 4 + length (snd m)"
proof -
  have n: "be_nat (slice 1 4 (enc_message m)) = length (snd m)"
    using be_nat_mid(2) [of 1 "[fst m]" "length (snd m)" 4 "snd m"] assms by (simp add: enc_message_def message_ok_def)
  show "slice 4 (4 + be_nat (slice 1 4 (enc_message m))) (enc_message m) = snd m"
    unfolding n using slice_mid [of "fst m # enc24 (length (snd m))" 4 "snd m" "4 + length (snd m)" "[]"] by (simp add: enc_message_def)
qed (simp_all add: enc_message_def)

lemma parse_server_hello_enc:
  assumes "length rnd = 32" "length sid < 256" "length (concat (map enc_ext xs)) < 65536" "list_all ext_ok xs"
    "run_exts tls13_ext xs (0x0303, None) = Some (version, Some pub)" "cipher \<in> fst ` set CIPHER_SUITES"
  shows "parse_server_hello_tls13 (enc_message (0x02, server_hello_bytes rnd sid cipher xs)) =
     Some (Some \<lparr>hi_version = version, hi_cipher = cipher, hi_pub = pub\<rparr>)"
proof -
  let ?b = "server_hello_bytes rnd sid cipher xs"
  have c: "cipher < 65536" using assms(6) by (auto simp: CIPHER_SUITES_def)
  have m: "message_ok (0x02, ?b)" using assms(1-3) by (simp add: message_ok_def server_hello_bytes_def)
  have x: "ext_loop tls13_ext (concat (map enc_ext xs)) 0 (0x0303, None) = Some (version, Some pub)"
    using ext_loop_enc [OF assms(4), of tls13_ext "[]" "(0x0303, None)"] assms(5) by simp
  show ?thesis
    using message_fields [OF m] server_hello_fields_enc [OF assms(1, 2) c assms(3)] x assms(6)
    by (simp add: parse_server_hello_tls13_def)
qed

section \<open>The flight\<close>

text \<open>One encrypted record of the server: the fragment, its content type and padding, sealed with the header as
  associated data; the seal adds \<open>tag\<close> bytes.\<close>

type_synonym seal_fn = "byte list \<Rightarrow> byte list \<Rightarrow> byte list \<Rightarrow> byte list \<Rightarrow> byte list"

definition sealed_payload :: "seal_fn \<Rightarrow> nat \<Rightarrow> handshake_keys \<Rightarrow> nat \<Rightarrow> byte list \<times> nat \<Rightarrow> byte list" where
  "sealed_payload seal tag keys seq fp =
     (let pt = fst fp @ 0x16 # zeros (snd fp) in
      seal (hk_server_key keys) (the (record_nonce (hk_server_iv keys) seq)) pt ([0x17, 0x03, 0x03] @ enc16 (length pt + tag)))"

fun sealed_records :: "seal_fn \<Rightarrow> nat \<Rightarrow> handshake_keys \<Rightarrow> nat \<Rightarrow> (byte list \<times> nat) list \<Rightarrow> (byte \<times> byte list) list" where
  "sealed_records seal tag keys seq [] = []"
| "sealed_records seal tag keys seq (fp # fps) = (0x17, sealed_payload seal tag keys seq fp) # sealed_records seal tag keys (seq + 1) fps"

definition server_records ::
  "seal_fn \<Rightarrow> nat \<Rightarrow> handshake_keys \<Rightarrow> byte list \<Rightarrow> byte list list \<Rightarrow> (byte list \<times> nat) list \<Rightarrow> (byte \<times> byte list) list" where
  "server_records seal tag keys hello ccs fps = (0x16, hello) # map (Pair 0x14) ccs @ sealed_records seal tag keys 0 fps"

definition fragment_ok :: "nat \<Rightarrow> byte list \<times> nat \<Rightarrow> bool" where
  "fragment_ok tag fp \<longleftrightarrow> length (fst fp) + snd fp + tag < 65535"

text \<open>What the AEAD of the suite does with what its counterpart sealed.\<close>

definition aead_inverse :: "aead_fn \<Rightarrow> seal_fn \<Rightarrow> nat \<Rightarrow> bool" where
  "aead_inverse open_fn seal tag \<longleftrightarrow>
     (\<forall>k n p a. open_fn k n (seal k n p a) a = Some p \<and> length (seal k n p a) = length p + tag)"

lemma open_sealed_record:
  assumes "aead_inverse (if hk_is_chacha keys then chacha else aesgcm) seal tag" "record_nonce (hk_server_iv keys) seq = Some nonce"
  shows "aead_open aesgcm chacha (hk_server_key keys) (hk_server_iv keys) seq (tls_record (0x17, sealed_payload seal tag keys seq fp)) (hk_is_chacha keys) =
     Some (Some (fst fp))"
proof -
  let ?pt = "fst fp @ 0x16 # zeros (snd fp)"
  let ?h = "[0x17, 0x03, 0x03] @ enc16 (length ?pt + tag)"
  let ?ct = "seal (hk_server_key keys) nonce ?pt ?h"
  have l: "length ?ct = length ?pt + tag" and o': "(if hk_is_chacha keys then chacha else aesgcm) (hk_server_key keys) nonce ?ct ?h = Some ?pt"
    using assms(1) unfolding aead_inverse_def by simp_all
  have p: "sealed_payload seal tag keys seq fp = ?ct" using assms(2) by (simp add: sealed_payload_def Let_def)
  have r: "tls_record (0x17, ?ct) = ?h @ ?ct" by (simp only: tls_record_def fst_conv snd_conv l) simp
  have t: "take 5 (?h @ ?ct) = ?h" "drop 5 (?h @ ?ct) = ?ct" by simp_all
  show ?thesis
    unfolding aead_open_def p r t
    using assms(2) o' strip_inner_padded [where ct = "0x16" and pt = "fst fp" and k = "snd fp"] by simp
qed

lemma open_records_skip:
  "list_all (\<lambda>r. fst r \<noteq> 0x17) rs \<Longrightarrow> open_records f seq (rs @ rest) = open_records f seq rest"
  by (induction rs) auto

lemma open_records_sealed:
  assumes "\<And>seq fp. seq < m \<Longrightarrow> f seq (tls_record (0x17, sealed_payload seal tag keys seq fp)) = Some (Some (fst fp))" "seq + length fps \<le> m"
  shows "open_records f seq (map (\<lambda>r. (fst r, tls_record r)) (sealed_records seal tag keys seq fps)) = Some (concat (map fst fps))"
  using assms(2)
proof (induction fps arbitrary: seq)
  case (Cons fp fps)
  then show ?case using assms(1) [of seq fp] by simp
qed simp

lemma sealed_records_ok:
  assumes "aead_inverse op seal tag" "list_all (fragment_ok tag) fps"
  shows "list_all tls_record_ok (sealed_records seal tag keys seq fps)"
  using assms(2)
proof (induction fps arbitrary: seq)
  case (Cons fp fps)
  have "length (sealed_payload seal tag keys seq fp) = length (fst fp) + 1 + snd fp + tag"
    using assms(1) by (simp add: sealed_payload_def aead_inverse_def Let_def)
  with Cons show ?case by (simp add: fragment_ok_def tls_record_ok_def)
qed simp

definition flight_of :: "nat \<Rightarrow> nat \<Rightarrow> (byte \<times> byte list) list \<Rightarrow> flight" where
  "flight_of version cipher ms =
     (let (certs, scheme) = foldl (\<lambda>acc m. flight_step m acc) ([], None) ms in
      \<lparr>fl_version = version, fl_cipher = cipher, fl_certs = certs, fl_scheme = scheme\<rparr>)"

lemma recover_flight:
  fixes rnd :: "byte list"
  defines "hello \<equiv> \<lambda>sid cipher xs. enc_message (0x02, server_hello_bytes rnd sid cipher xs)"
  assumes "length rnd = 32" "length sid < 256" "length (concat (map enc_ext xs)) < 60000" "list_all ext_ok xs"
    and "run_exts tls13_ext xs (0x0303, None) = Some (version, Some pub)" "cipher \<in> fst ` set CIPHER_SUITES"
    and "exchange pub = Some shared"
    and "handshake_traffic_keys digest hmac shared (drop 5 client_hello @ hello sid cipher xs) cipher = Some keys"
    and "aead_inverse (if hk_is_chacha keys then chacha else aesgcm) seal tag"
    and "length fps \<le> 256 ^ length (hk_server_iv keys)" "list_all (fragment_ok tag) fps" "list_all (\<lambda>c. length c < 65536) ccs"
  shows "recover_handshake digest hmac aesgcm chacha exchange client_hello
      (concat (map tls_record (server_records seal tag keys (hello sid cipher xs) ccs fps))) =
    Some (Some (flight_of version cipher (reassemble (concat (map fst fps)))))"
proof -
  let ?h = "hello sid cipher xs"
  let ?rs = "server_records seal tag keys ?h ccs fps"
  have lh: "length ?h < 65536" using assms(2-4) by (simp add: hello_def enc_message_def server_hello_bytes_def)
  have ok: "list_all tls_record_ok ?rs"
    using lh assms(13) sealed_records_ok [OF assms(10, 12)]
    by (auto simp: server_records_def tls_record_ok_def list_all_iff)
  have sp: "split_records (concat (map tls_record ?rs)) = map (\<lambda>r. (fst r, tls_record r)) ?rs"
    using split_records_enc [OF ok, of "[]"] by (simp add: split_records_def)
  have fi: "find (\<lambda>(ctype, _). ctype = 0x16) (map (\<lambda>r. (fst r, tls_record r)) ?rs) = Some (0x16, tls_record (0x16, ?h))"
    by (simp add: server_records_def)
  have hm: "handshake_message (tls_record (0x16, ?h)) = ?h" by (simp add: handshake_message_def tls_record_def)
  have ps: "parse_server_hello_tls13 ?h = Some (Some \<lparr>hi_version = version, hi_cipher = cipher, hi_pub = pub\<rparr>)"
    unfolding hello_def by (rule parse_server_hello_enc) (use assms in simp_all)
  have op: "open_records (\<lambda>seq r. aead_open aesgcm chacha (hk_server_key keys) (hk_server_iv keys) seq r (hk_is_chacha keys)) 0
      (map (\<lambda>r. (fst r, tls_record r)) ?rs) = Some (concat (map fst fps))"
  proof -
    have "list_all (\<lambda>r. fst r \<noteq> 0x17) ((0x16, tls_record (0x16, ?h)) # map (\<lambda>r. (fst r, tls_record r)) (map (Pair 0x14) ccs))"
      by (simp add: list_all_iff)
    moreover have "map (\<lambda>r. (fst r, tls_record r)) ?rs =
        ((0x16, tls_record (0x16, ?h)) # map (\<lambda>r. (fst r, tls_record r)) (map (Pair 0x14) ccs)) @
        map (\<lambda>r. (fst r, tls_record r)) (sealed_records seal tag keys 0 fps)"
      by (simp add: server_records_def)
    moreover have "aead_open aesgcm chacha (hk_server_key keys) (hk_server_iv keys) seq
        (tls_record (0x17, sealed_payload seal tag keys seq fp)) (hk_is_chacha keys) = Some (Some (fst fp))"
      if s: "seq < 256 ^ length (hk_server_iv keys)" for seq fp
    proof -
      obtain nonce where "record_nonce (hk_server_iv keys) seq = Some nonce" using s by (simp add: record_nonce_def to_bytes_def)
      then show ?thesis by (rule open_sealed_record [OF assms(10)])
    qed
    ultimately show ?thesis
      using open_records_skip open_records_sealed [where m = "256 ^ length (hk_server_iv keys)" and seq = 0] assms(11)
      by (smt (verit, best) add_0)
  qed
  show ?thesis
    unfolding recover_handshake_def Let_def sp fi option.case prod.case hm ps
    using assms(8, 9) op by (simp add: handshake_message_def flight_of_def split: prod.split)
qed

section \<open>What is recovered\<close>

text \<open>A server flight: messages before the Certificate, the Certificate, the CertificateVerify, messages after it.\<close>

definition plain_message :: "byte \<times> byte list \<Rightarrow> bool" where
  "plain_message m \<longleftrightarrow> message_ok m \<and> fst m \<noteq> 0x0B \<and> fst m \<noteq> 0x0F"

definition chain_messages ::
  "(byte \<times> byte list) list \<Rightarrow> byte list \<Rightarrow> (byte list \<times> byte list) list \<Rightarrow> nat \<Rightarrow> byte list \<Rightarrow> (byte \<times> byte list) list \<Rightarrow> (byte \<times> byte list) list" where
  "chain_messages before ctx cs scheme sig after =
     before @ [(0x0B, certificate_body ctx cs), (0x0F, enc16 scheme @ sig)] @ after"

definition chain_ok :: "byte list \<Rightarrow> (byte list \<times> byte list) list \<Rightarrow> nat \<Rightarrow> byte list \<Rightarrow> bool" where
  "chain_ok ctx cs scheme sig \<longleftrightarrow>
     length ctx < 256 \<and> list_all cert_entry_ok cs \<and> length (concat (map cert_entry_bytes cs)) < 16000000 \<and>
     scheme < 65536 \<and> length sig < 65536"

lemma flight_plain: "list_all plain_message ms \<Longrightarrow> foldl (\<lambda>acc m. flight_step m acc) acc ms = acc"
  by (induction ms arbitrary: acc) (auto simp: plain_message_def flight_step_def)

lemma flight_of_chain:
  assumes "list_all plain_message before" "list_all plain_message after" "chain_ok ctx cs scheme sig"
  shows "flight_of version cipher (chain_messages before ctx cs scheme sig after) =
      \<lparr>fl_version = version, fl_cipher = cipher, fl_certs = map fst cs, fl_scheme = Some scheme\<rparr>"
    "flight_of version cipher (before @ [(0x0B, certificate_body ctx cs)]) =
      \<lparr>fl_version = version, fl_cipher = cipher, fl_certs = map fst cs, fl_scheme = None\<rparr>"
  using assms flight_plain extract_certificates_body [of ctx cs]
  by (simp_all add: chain_ok_def flight_of_def chain_messages_def flight_step_def)

lemma chain_messages_ok:
  assumes "list_all plain_message before" "list_all plain_message after" "chain_ok ctx cs scheme sig"
  shows "list_all message_ok (chain_messages before ctx cs scheme sig after)" "list_all message_ok (before @ [(0x0B, certificate_body ctx cs)])"
  using assms by (auto simp: chain_messages_def chain_ok_def plain_message_def message_ok_def certificate_body_def list_all_iff)

text \<open>C10. 
  The served chain is recovered: for every supported suite, whatever extensions the ServerHello carries beside its
  X25519 key share, and however the server cuts its encrypted messages into padded records, the probe that has read
  the flight returns the certificates in the order served and the signature scheme of the CertificateVerify.
\<close>

theorem recover_chain_any_fragmentation:
  assumes "length rnd = 32" "length sid < 256" "length (concat (map enc_ext xs)) < 60000" "list_all ext_ok xs"
    and "run_exts tls13_ext xs (0x0303, None) = Some (version, Some pub)" "cipher \<in> fst ` set CIPHER_SUITES"
    and "exchange pub = Some shared"
    and "handshake_traffic_keys digest hmac shared (drop 5 client_hello @ enc_message (0x02, server_hello_bytes rnd sid cipher xs)) cipher = Some keys"
    and "aead_inverse (if hk_is_chacha keys then chacha else aesgcm) seal tag"
    and "length fps \<le> 256 ^ length (hk_server_iv keys)" "list_all (fragment_ok tag) fps" "list_all (\<lambda>c. length c < 65536) ccs"
    and "list_all plain_message before" "list_all plain_message after" "chain_ok ctx cs scheme sig"
    and "concat (map fst fps) = concat (map enc_message (chain_messages before ctx cs scheme sig after))"
  shows "recover_handshake digest hmac aesgcm chacha exchange client_hello
      (concat (map tls_record (server_records seal tag keys (enc_message (0x02, server_hello_bytes rnd sid cipher xs)) ccs fps))) =
    Some (Some \<lparr>fl_version = version, fl_cipher = cipher, fl_certs = map fst cs, fl_scheme = Some scheme\<rparr>)"
  using recover_flight [where exchange = exchange and pub = pub, OF assms(1-12)] reassemble_messages [OF chain_messages_ok(1) [OF assms(13-15)]] flight_of_chain(1) [OF assms(13-15)] assms(16)
  by simp

lemma read_flight_first:
  "c \<noteq> [] \<Longrightarrow> recover c = Some (Some fl) \<Longrightarrow> fl_certs fl \<noteq> [] \<Longrightarrow> read_flight recover [] (Some c # chunks) = Some (Some fl)"
  by (simp add: TLS13_BUFFER_def)

text \<open>
  The signature scheme is lost when the flight comes in two reads, the Certificate in the first and the
  CertificateVerify in the second: the probe stops at the first read that shows certificates, although the bytes it
  would have read next complete the flight.
\<close>

theorem scheme_lost_on_split_read:
  assumes "length rnd = 32" "length sid < 256" "length (concat (map enc_ext xs)) < 60000" "list_all ext_ok xs"
    and "run_exts tls13_ext xs (0x0303, None) = Some (version, Some pub)" "cipher \<in> fst ` set CIPHER_SUITES"
    and "exchange pub = Some shared"
    and "handshake_traffic_keys digest hmac shared (drop 5 client_hello @ enc_message (0x02, server_hello_bytes rnd sid cipher xs)) cipher = Some keys"
    and "aead_inverse (if hk_is_chacha keys then chacha else aesgcm) seal tag"
    and "length fps + length fps' \<le> 256 ^ length (hk_server_iv keys)" "list_all (fragment_ok tag) (fps @ fps')"
    and "list_all plain_message before" "list_all plain_message after" "chain_ok ctx cs scheme sig" "cs \<noteq> []"
    and "concat (map fst fps) = concat (map enc_message (before @ [(0x0B, certificate_body ctx cs)]))"
    and "concat (map fst fps') = concat (map enc_message ((0x0F, enc16 scheme @ sig) # after))"
  shows "let hello = enc_message (0x02, server_hello_bytes rnd sid cipher xs);
             first = concat (map tls_record (server_records seal tag keys hello [] fps));
             second = concat (map tls_record (sealed_records seal tag keys (length fps) fps'));
             recover = recover_handshake digest hmac aesgcm chacha exchange client_hello
         in read_flight recover [] [Some first, Some second] =
              Some (Some \<lparr>fl_version = version, fl_cipher = cipher, fl_certs = map fst cs, fl_scheme = None\<rparr>) \<and>
            recover (first @ second) =
              Some (Some \<lparr>fl_version = version, fl_cipher = cipher, fl_certs = map fst cs, fl_scheme = Some scheme\<rparr>)"
proof -
  let ?h = "enc_message (0x02, server_hello_bytes rnd sid cipher xs)"
  let ?recover = "recover_handshake digest hmac aesgcm chacha exchange client_hello"
  let ?first = "concat (map tls_record (server_records seal tag keys ?h [] fps))"
  let ?second = "concat (map tls_record (sealed_records seal tag keys (length fps) fps'))"
  have sr: "sealed_records seal tag keys n (as @ bs) = sealed_records seal tag keys n as @ sealed_records seal tag keys (n + length as) bs" for n as bs
    by (induction as arbitrary: n) simp_all
  have f: "length fps \<le> 256 ^ length (hk_server_iv keys)" "list_all (fragment_ok tag) fps" using assms(10, 11) by simp_all
  have 1: "?recover ?first = Some (Some (flight_of version cipher (reassemble (concat (map fst fps)))))"
    by (rule recover_flight [where exchange = exchange and pub = pub, OF assms(1-9) f]) simp
  have 2: "?recover (concat (map tls_record (server_records seal tag keys ?h [] (fps @ fps')))) =
      Some (Some (flight_of version cipher (reassemble (concat (map fst (fps @ fps'))))))"
    by (rule recover_flight [where exchange = exchange and pub = pub, OF assms(1-9)]) (use assms(10, 11) in simp_all)
  have r1: "reassemble (concat (map fst fps)) = before @ [(0x0B, certificate_body ctx cs)]"
    unfolding assms(16) by (rule reassemble_messages [OF chain_messages_ok(2) [OF assms(12-14)]])
  have r2: "reassemble (concat (map fst (fps @ fps'))) = chain_messages before ctx cs scheme sig after"
    using reassemble_messages [OF chain_messages_ok(1) [OF assms(12-14)]] assms(16, 17) by (simp add: chain_messages_def)
  have j: "concat (map tls_record (server_records seal tag keys ?h [] (fps @ fps'))) = ?first @ ?second"
    by (simp add: server_records_def sr)
  have ne: "?first \<noteq> []" by (simp add: server_records_def tls_record_def)
  have "read_flight ?recover [] [Some ?first, Some ?second] =
      Some (Some \<lparr>fl_version = version, fl_cipher = cipher, fl_certs = map fst cs, fl_scheme = None\<rparr>)"
    by (rule read_flight_first [OF ne]) (use 1 assms(15) in \<open>simp_all add: r1 flight_of_chain(2) [OF assms(12-14)]\<close>)
  moreover have "?recover (?first @ ?second) =
      Some (Some \<lparr>fl_version = version, fl_cipher = cipher, fl_certs = map fst cs, fl_scheme = Some scheme\<rparr>)"
    using 2 unfolding j r2 flight_of_chain(1) [OF assms(12-14)] .
  ultimately show ?thesis by (simp add: Let_def)
qed

section \<open>A sample server\<close>

text \<open>The primitives instantiated: digests and authentication codes of zeros, a seal that appends a tag of zeros.\<close>

definition zero_digest :: digest_fn where "zero_digest h m = zeros (digest_size h)"
definition zero_hmac :: hmac_fn where "zero_hmac h k m = zeros (digest_size h)"
definition tag_seal :: seal_fn where "tag_seal k n p a = p @ zeros 16"
definition tag_open :: aead_fn where "tag_open k n c a = Some (take (length c - 16) c)"

definition sample_server_exts :: "(nat \<times> byte list) list" where
  "sample_server_exts = [(0x002B, enc16 0x0304), (0x0033, enc16 0x001D @ enc16 32 @ zeros 32)]"

lemma tag_seal_inverse: "aead_inverse tag_open tag_seal 16"
  by (simp add: aead_inverse_def tag_open_def tag_seal_def)

lemma sample_server_exts_facts:
  "length (concat (map enc_ext sample_server_exts)) < 60000" "list_all ext_ok sample_server_exts"
  "run_exts tls13_ext sample_server_exts (0x0303, None) = Some (0x0304, Some (zeros 32))"
proof -
  have u: "u16_at (enc16 n @ bs) 0 = Some n" "u16_at (enc16 m @ enc16 n @ bs) 2 = Some n" if "n < 65536" for m n bs
    using u16_at_enc16 [OF that, of "[]" 0 bs] u16_at_enc16 [OF that, of "enc16 m" 2 bs] by simp_all
  have s: "slice 4 36 (enc16 0x001D @ enc16 32 @ zeros 32) = zeros 32"
    using slice_mid [of "enc16 0x001D @ enc16 32" 4 "zeros 32" 36 "[]"] by simp
  show "run_exts tls13_ext sample_server_exts (0x0303, None) = Some (0x0304, Some (zeros 32))"
    using u(1) [of "0x0304" "[]"] u(1) [of "0x001D" "enc16 32 @ zeros 32"] u(2) [of 32 "0x001D" "zeros 32"] s
    by (simp add: sample_server_exts_def tls13_ext_def)
qed (simp_all add: sample_server_exts_def enc_ext_def ext_ok_def)

lemma sample_keys:
  "\<exists>keys. handshake_traffic_keys zero_digest zero_hmac [1] tr 0x1301 = Some keys \<and> length (hk_server_iv keys) = 12"
proof -
  have ok: "\<exists>okm. hkdf_expand_label zero_hmac secret label ctxt len ''sha256'' = Some okm \<and> length okm = len"
    if "len \<le> 48" "length label < 250" "length ctxt < 256" for secret label ctxt len
    by (rule hkdf_expand_label_ok) (use that in \<open>simp_all add: zero_hmac_def\<close>)
  have d: "\<exists>okm. derive_secret zero_hmac secret label (zero_digest ''sha256'' m) ''sha256'' = Some okm" if "length label < 250" for secret label m
    using ok [of 32 label "zero_digest ''sha256'' m" secret] that by (auto simp: derive_secret_def digest_size_def zero_digest_def)
  obtain d1 where d1: "derive_secret zero_hmac (hkdf_extract zero_hmac [] (zeros 32) ''sha256'') ''derived'' (zero_digest ''sha256'' []) ''sha256'' = Some d1"
    using d by fastforce
  obtain c where c: "derive_secret zero_hmac (hkdf_extract zero_hmac d1 [1] ''sha256'') ''c hs traffic'' (zero_digest ''sha256'' tr) ''sha256'' = Some c"
    using d by fastforce
  obtain s where s: "derive_secret zero_hmac (hkdf_extract zero_hmac d1 [1] ''sha256'') ''s hs traffic'' (zero_digest ''sha256'' tr) ''sha256'' = Some s"
    using d by fastforce
  have k: "\<exists>okm. hkdf_expand_label zero_hmac x ''key'' [] 16 ''sha256'' = Some okm" "\<exists>okm. hkdf_expand_label zero_hmac x ''iv'' [] 12 ''sha256'' = Some okm \<and> length okm = 12" for x
    using ok [of 16 "''key''" "[]" x] ok [of 12 "''iv''" "[]" x] by auto
  show ?thesis
    using d1 c s k(1) [of c] k(2) [of c] k(1) [of s] k(2) [of s]
    by (auto simp: handshake_traffic_keys_def CIPHER_SUITES_def digest_size_def Let_def)
qed

lemma sample_chain: "chain_ok [] [([0x30, 0x01], [])] 0x0804 [7]"
  by (simp add: chain_ok_def cert_entry_ok_def cert_entry_bytes_def)

theorem recover_chain_any_fragmentation_witness:
  "\<exists>data. recover_handshake zero_digest zero_hmac tag_open tag_open (\<lambda>_. Some [1]) [] data =
     Some (Some \<lparr>fl_version = 0x0304, fl_cipher = 0x1301, fl_certs = [[0x30, 0x01]], fl_scheme = Some 0x0804\<rparr>)"
proof -
  let ?h = "enc_message (0x02, server_hello_bytes (zeros 32) [] 0x1301 sample_server_exts)"
  let ?ms = "concat (map enc_message (chain_messages [(8, [0, 0])] [] [([0x30, 0x01], [])] 0x0804 [7] [(20, zeros 32)]))"
  obtain keys where k: "handshake_traffic_keys zero_digest zero_hmac [1] (drop 5 [] @ ?h) 0x1301 = Some keys" "length (hk_server_iv keys) = 12"
    using sample_keys by blast
  have a: "aead_inverse (if hk_is_chacha keys then tag_open else tag_open) tag_seal 16" by (simp add: tag_seal_inverse)
  have f: "list_all (fragment_ok 16) [(take 5 ms, 0), (drop 5 ms, 3)]" if "length ms < 1000" for ms :: "byte list"
    using that by (auto simp: fragment_ok_def)
  have l: "length ?ms < 1000"
    by (simp add: chain_messages_def enc_message_def certificate_body_def cert_entry_bytes_def)
  have "recover_handshake zero_digest zero_hmac tag_open tag_open (\<lambda>_. Some [1]) []
      (concat (map tls_record (server_records tag_seal 16 keys ?h [[1]] [(take 5 ?ms, 0), (drop 5 ?ms, 3)]))) =
    Some (Some \<lparr>fl_version = 0x0304, fl_cipher = 0x1301, fl_certs = map fst [([0x30 :: byte, 0x01], [] :: byte list)], fl_scheme = Some 0x0804\<rparr>)"
  proof (rule recover_chain_any_fragmentation [where exchange = "\<lambda>_. Some [1]" and pub = "zeros 32", OF _ _ sample_server_exts_facts _ _ k(1) a _ _ _ _ _ sample_chain])
    show "list_all (fragment_ok 16) [(take 5 ?ms, 0), (drop 5 ?ms, 3)]" using f [OF l] .
  qed (use k(2) in \<open>simp_all add: CIPHER_SUITES_def plain_message_def message_ok_def\<close>)
  then show ?thesis by auto
qed

theorem scheme_lost_on_split_read_witness:
  "\<exists>recover first second. read_flight recover [] [Some first, Some second] =
       Some (Some \<lparr>fl_version = 0x0304, fl_cipher = 0x1301, fl_certs = [[0x30, 0x01]], fl_scheme = None\<rparr>) \<and>
     recover (first @ second) =
       Some (Some \<lparr>fl_version = 0x0304, fl_cipher = 0x1301, fl_certs = [[0x30, 0x01]], fl_scheme = Some 0x0804\<rparr>)"
proof -
  let ?h = "enc_message (0x02, server_hello_bytes (zeros 32) [] 0x1301 sample_server_exts)"
  let ?m1 = "concat (map enc_message ([(8, [0, 0])] @ [(0x0B, certificate_body [] [([0x30, 0x01], [])])]))"
  let ?m2 = "concat (map enc_message ((0x0F, enc16 0x0804 @ [7]) # []))"
  obtain keys where k: "handshake_traffic_keys zero_digest zero_hmac [1] (drop 5 [] @ ?h) 0x1301 = Some keys" "length (hk_server_iv keys) = 12"
    using sample_keys by blast
  have a: "aead_inverse (if hk_is_chacha keys then tag_open else tag_open) tag_seal 16" by (simp add: tag_seal_inverse)
  have l: "list_all (fragment_ok 16) ([(?m1, 0)] @ [(?m2, 0)])"
    by (simp add: enc_message_def certificate_body_def cert_entry_bytes_def fragment_ok_def)
  let ?r = "recover_handshake zero_digest zero_hmac tag_open tag_open (\<lambda>_. Some [1]) []"
  let ?f = "concat (map tls_record (server_records tag_seal 16 keys ?h [] [(?m1, 0)]))"
  let ?s = "concat (map tls_record (sealed_records tag_seal 16 keys (length [(?m1, 0 :: nat)]) [(?m2, 0)]))"
  have "let hello = ?h; first = concat (map tls_record (server_records tag_seal 16 keys hello [] [(?m1, 0)]));
      second = concat (map tls_record (sealed_records tag_seal 16 keys (length [(?m1, 0 :: nat)]) [(?m2, 0)])); recover = ?r
    in read_flight recover [] [Some first, Some second] =
         Some (Some \<lparr>fl_version = 0x0304, fl_cipher = 0x1301, fl_certs = map fst [([0x30 :: byte, 0x01], [] :: byte list)], fl_scheme = None\<rparr>) \<and>
       recover (first @ second) =
         Some (Some \<lparr>fl_version = 0x0304, fl_cipher = 0x1301, fl_certs = map fst [([0x30 :: byte, 0x01], [] :: byte list)], fl_scheme = Some 0x0804\<rparr>)"
  proof (rule scheme_lost_on_split_read [where exchange = "\<lambda>_. Some [1]" and pub = "zeros 32" and before = "[(8, [0, 0])]"
        and after = "[]" and sig = "[7]" and ctx = "[]", OF _ _ sample_server_exts_facts _ _ k(1) a _ l _ _ sample_chain])
    show "length [(?m1, 0 :: nat)] + length [(?m2, 0 :: nat)] \<le> 256 ^ length (hk_server_iv keys)" using k(2) by simp
  qed (simp_all add: CIPHER_SUITES_def plain_message_def message_ok_def)
  then have "read_flight ?r [] [Some ?f, Some ?s] =
       Some (Some \<lparr>fl_version = 0x0304, fl_cipher = 0x1301, fl_certs = [[0x30, 0x01]], fl_scheme = None\<rparr>) \<and>
     ?r (?f @ ?s) = Some (Some \<lparr>fl_version = 0x0304, fl_cipher = 0x1301, fl_certs = [[0x30, 0x01]], fl_scheme = Some 0x0804\<rparr>)"
    unfolding Let_def list.map fst_conv .
  then show ?thesis by (intro exI)
qed

end
