(* ===== verification/Tls_Sweep_Laws.thy ===== *)
theory Tls_Sweep_Laws
  imports Tls13_Laws
begin

text \<open>
  What the probes of \<open>Tls_Sweep\<close> read of complete answers, and where they go wrong: on a chain or a ServerHello
  that arrives in pieces, and on a server that answers a TLS 1.3 hello with TLS 1.2.
\<close>

lemma sample_name: "dns_name ''example.org''"
  by (simp add: dns_name_def idna_ascii_def)

section \<open>The cleartext chain\<close>

definition chain_body :: "byte list list \<Rightarrow> byte list" where
  "chain_body cs = (let l = concat (map (\<lambda>c. enc24 (length c) @ c) cs) in enc24 (length l) @ l)"

definition chain_certs_ok :: "byte list list \<Rightarrow> bool" where
  "chain_certs_ok cs \<longleftrightarrow> list_all (\<lambda>c. c \<noteq> []) cs \<and> length (chain_body cs) < 16777216"

lemma chain_cert_bound:
  "chain_certs_ok cs \<Longrightarrow> length (concat (map (\<lambda>c. enc24 (length c) @ c) cs)) < 16777216"
  by (simp add: chain_certs_ok_def chain_body_def Let_def)

lemma handshake_bytes_enc:
  assumes "list_all tls_record_ok rs"
  shows "handshake_bytes (pre @ concat (map tls_record rs)) (length pre) = concat (map snd (filter (\<lambda>r. fst r = 0x16) rs))"
  using assms
proof (induction rs arbitrary: pre)
  case (Cons r rs)
  let ?post = "concat (map tls_record rs)"
  let ?d = "pre @ tls_record r @ ?post" and ?i = "length pre" and ?n = "length (snd r)"
  have d: "?d = (pre @ [fst r, 3, 3]) @ enc16 ?n @ (snd r @ ?post)" by (simp add: tls_record_def)
  have n: "be_nat (slice (?i + 3) (?i + 5) ?d) = ?n"
    unfolding d by (rule be_nat_mid) (use Cons.prems in \<open>simp_all add: tls_record_ok_def\<close>)
  have l: "length (tls_record r) = 5 + ?n" by (simp add: tls_record_def)
  have s: "slice (?i + 5) (?i + 5 + ?n) ?d = snd r"
    using slice_mid [of "pre @ [fst r, 3, 3] @ enc16 ?n" "?i + 5" "snd r" "?i + 5 + ?n" ?post] by (simp add: tls_record_def)
  have "handshake_bytes ?d (?i + 5 + ?n) = concat (map snd (filter (\<lambda>r. fst r = 0x16) rs))"
    using Cons.IH [of "pre @ tls_record r"] Cons.prems l by (simp add: add.assoc)
  moreover have "?d ! ?i = fst r" by (simp add: tls_record_def)
  ultimately show ?case
    using n s l by (simp add: handshake_bytes.simps [of ?d ?i] Let_def)
qed (simp add: handshake_bytes.simps)

lemma chain_entries_enc:
  assumes "list_all (\<lambda>c. c \<noteq> []) cs" "length (concat (map (\<lambda>c. enc24 (length c) @ c) cs)) < 16777216"
    "e = length pre + length (concat (map (\<lambda>c. enc24 (length c) @ c) cs))"
  shows "chain_entries (pre @ concat (map (\<lambda>c. enc24 (length c) @ c) cs)) e (length pre) = cs"
  using assms
proof (induction cs arbitrary: pre)
  case (Cons c cs)
  let ?post = "concat (map (\<lambda>c. enc24 (length c) @ c) cs)" and ?n = "length c"
  let ?d = "pre @ enc24 ?n @ c @ ?post" and ?i = "length pre"
  have n: "be_nat (slice ?i (?i + 3) ?d) = ?n" by (rule be_nat_mid) (use Cons.prems in simp_all)
  have s: "slice (?i + 3) (?i + 3 + ?n) ?d = c"
    using slice_mid [of "pre @ enc24 ?n" "?i + 3" c "?i + 3 + ?n" ?post] by simp
  have "chain_entries ?d e (?i + 3 + ?n) = cs"
    using Cons.IH [of "pre @ enc24 ?n @ c"] Cons.prems by (simp add: ac_simps)
  moreover have "?i + 3 \<le> e" "?i + 3 \<le> length ?d" using Cons.prems(3) by simp_all
  ultimately show ?case
    using n s Cons.prems(1) by (simp add: chain_entries.simps [of ?d e ?i] Let_def)
qed (simp add: chain_entries.simps)

lemma certificate_message_enc:
  assumes "list_all (\<lambda>m. message_ok m \<and> fst m \<noteq> 0x0B) before" "chain_certs_ok cs"
  shows "certificate_message (pre @ concat (map enc_message before) @ enc_message (0x0B, chain_body cs) @ post) (length pre) = cs"
  using assms(1)
proof (induction before arbitrary: pre)
  case Nil
  let ?b = "chain_body cs" and ?i = "length pre" and ?l = "concat (map (\<lambda>c. enc24 (length c) @ c) cs)"
  let ?d = "pre @ enc_message (0x0B, ?b) @ post"
  have ok: "length ?b < 16777216" "length ?l < 16777216" "list_all (\<lambda>c. c \<noteq> []) cs"
    using assms(2) chain_cert_bound by (simp_all add: chain_certs_ok_def)
  have d: "?d = (pre @ [0x0B]) @ enc24 (length ?b) @ (?b @ post)" by (simp add: enc_message_def)
  have n: "be_nat (slice (?i + 1) (?i + 4) ?d) = length ?b"
    unfolding d by (rule be_nat_mid) (use ok in simp_all)
  have s: "slice (?i + 4) (?i + 4 + length ?b) ?d = ?b"
    using slice_mid [of "pre @ 0x0B # enc24 (length ?b)" "?i + 4" ?b "?i + 4 + length ?b" post] by (simp add: enc_message_def)
  have t: "be_nat (slice 0 3 ?b) = length ?l"
    using be_nat_mid(2) [of 0 "[]" "length ?l" 3 ?l] ok(2) by (simp add: chain_body_def Let_def)
  have "chain_entries ?b (3 + length ?l) 3 = cs"
    using chain_entries_enc [OF ok(3, 2), of "3 + length ?l" "enc24 (length ?l)"] by (simp add: chain_body_def Let_def)
  moreover have "?d ! ?i = 0x0B" "3 \<le> length ?b" "?i + 4 \<le> length ?d" by (simp_all add: enc_message_def chain_body_def Let_def)
  ultimately have "certificate_message ?d ?i = cs"
    using n s t by (subst certificate_message.simps) (simp add: Let_def)
  then show ?case by simp
next
  case (Cons m before)
  let ?post = "concat (map enc_message before) @ enc_message (0x0B, chain_body cs) @ post"
  let ?d = "pre @ enc_message m @ ?post" and ?i = "length pre" and ?n = "length (snd m)"
  have d: "?d = (pre @ [fst m]) @ enc24 ?n @ (snd m @ ?post)" by (simp add: enc_message_def)
  have n: "be_nat (slice (?i + 1) (?i + 4) ?d) = ?n"
    unfolding d by (rule be_nat_mid) (use Cons.prems in \<open>simp_all add: message_ok_def\<close>)
  have l: "length (enc_message m) = 4 + ?n" by (simp add: enc_message_def)
  have "certificate_message ?d (?i + 4 + ?n) = cs"
    using Cons.IH [of "pre @ enc_message m"] Cons.prems l by (simp add: add.assoc)
  moreover have "?d ! ?i = fst m" by (simp add: enc_message_def)
  ultimately show ?case
    using n l Cons.prems by (simp add: certificate_message.simps [of ?d ?i] Let_def)
qed

lemma extract_certificates_records:
  assumes "list_all tls_record_ok rs" "list_all (\<lambda>m. message_ok m \<and> fst m \<noteq> 0x0B) before" "chain_certs_ok cs"
    "concat (map snd (filter (\<lambda>r. fst r = 0x16) rs)) = concat (map enc_message before) @ enc_message (0x0B, chain_body cs) @ post"
  shows "extract_certificates (concat (map tls_record rs)) = cs"
  using handshake_bytes_enc [OF assms(1), of "[]"] certificate_message_enc [OF assms(2, 3), of "[]" post] assms(4)
  by (simp add: extract_certificates_def reassemble_handshake_def)

text \<open>The first read ends behind the first certificate.\<close>

definition first_read :: "byte list list \<Rightarrow> byte list" where
  "first_read cs = take (15 + length (hd cs)) (tls_record (0x16, enc_message (0x0B, chain_body cs)))"

definition second_read :: "byte list list \<Rightarrow> byte list" where
  "second_read cs = drop (15 + length (hd cs)) (tls_record (0x16, enc_message (0x0B, chain_body cs)))"

lemma take_front: "xs = a @ b \<Longrightarrow> length a = n \<Longrightarrow> take n xs = a"
  by simp

lemma first_read_certs:
  assumes "chain_certs_ok (c # cs)" "length (enc_message (0x0B, chain_body (c # cs))) < 65536" "cs \<noteq> []"
  shows "extract_certificates (first_read (c # cs)) = [c]"
proof -
  let ?l = "concat (map (\<lambda>c. enc24 (length c) @ c) (c # cs))" and ?r = "concat (map (\<lambda>c. enc24 (length c) @ c) cs)"
  let ?b = "chain_body (c # cs)"
  let ?m = "enc_message (0x0B, ?b)"
  let ?p = "enc24 (length ?l) @ enc24 (length c) @ c"
  let ?hs = "0x0B # enc24 (length ?b) @ ?p"
  let ?d = "0x16 # [3, 3] @ enc16 (length ?m) @ ?hs"
  have b: "?b = ?p @ ?r" by (simp add: chain_body_def Let_def)
  have ok: "c \<noteq> []" "length ?b < 16777216" "length ?l < 16777216" "length c < 16777216"
    using assms(1) chain_cert_bound [OF assms(1)] by (simp_all add: chain_certs_ok_def)
  obtain x xs where "cs = x # xs" using assms(3) by (cases cs) auto
  then have r: "0 < length ?r" by simp
  have "tls_record (0x16, ?m) = ?d @ ?r" by (simp add: tls_record_def enc_message_def b)
  moreover have "length ?d = 15 + length c" by simp
  ultimately have f: "first_read (c # cs) = ?d" unfolding first_read_def list.sel by (rule take_front)
  have lm: "length ?m = 4 + length ?b" by (simp add: enc_message_def)
  have n1: "be_nat (slice 3 5 ?d) = length ?m"
    using be_nat_mid(1) [of 3 "[0x16, 3, 3]" "length ?m" 5 ?hs] assms(2) by simp
  have s1: "slice 5 (5 + length ?m) ?d = ?hs"
    by (simp add: slice_def enc_message_def b)
  have e1: "handshake_bytes ?d (5 + length ?m) = []"
    using r by (simp add: handshake_bytes.simps enc_message_def b)
  have h: "handshake_bytes ?d 0 = ?hs"
    using n1 s1 e1 by (subst handshake_bytes.simps) (simp add: Let_def)
  have n2: "be_nat (slice 1 4 ?hs) = length ?b"
    using be_nat_mid(2) [of 1 "[0x0B]" "length ?b" 4 ?p] ok(2) by simp
  have s2: "slice 4 (4 + length ?b) ?hs = ?p" unfolding b by (simp add: slice_def)
  have n3: "be_nat (slice 0 3 ?p) = length ?l" using be_nat_mid(2) [of 0 "[]" "length ?l" 3 "enc24 (length c) @ c"] ok(3) by simp
  have n4: "be_nat (slice 3 6 ?p) = length c" using be_nat_mid(2) [of 3 "enc24 (length ?l)" "length c" 6 c] ok(4) by simp
  have s4: "slice 6 (6 + length c) ?p = c" using slice_mid [of "enc24 (length ?l) @ enc24 (length c)" 6 c "6 + length c" "[]"] by simp
  have e2: "chain_entries ?p (3 + length ?l) (6 + length c) = []" by (simp add: chain_entries.simps)
  have "chain_entries ?p (3 + length ?l) 3 = [c]"
    using n4 s4 e2 ok(1) by (subst chain_entries.simps) (simp add: Let_def)
  then have "certificate_message ?hs 0 = [c]"
    using n2 s2 n3 by (subst certificate_message.simps) (simp add: Let_def)
  then show ?thesis unfolding f by (simp only: extract_certificates_def reassemble_handshake_def h)
qed

text \<open>
  A TLS 1.2 chain is read completely whatever the server does with record boundaries, as long as it arrives in one
  read; when a read ends behind the first certificate, the probe stops there and reports the leaf alone, although
  the rest of the same record would follow.
\<close>

theorem served_chain_cut:
  assumes "chain_certs_ok (c # cs)" "length (enc_message (0x0B, chain_body (c # cs))) < 65536" "cs \<noteq> []"
  shows "extract_certificates (first_read (c # cs) @ second_read (c # cs)) = c # cs \<and>
    extract_certificates (fetch_chain [] [Some (first_read (c # cs)), Some (second_read (c # cs))]) = [c] \<and>
    length (tls12_chain_findings now load tgt (fetch_chain [] [Some (first_read (c # cs)), Some (second_read (c # cs))])) \<le> 1"
proof -
  have whole: "first_read (c # cs) @ second_read (c # cs) = concat (map tls_record [(0x16, enc_message (0x0B, chain_body (c # cs)))])"
    by (simp add: first_read_def second_read_def)
  have 1: "extract_certificates (first_read (c # cs) @ second_read (c # cs)) = c # cs"
    unfolding whole by (rule extract_certificates_records [where before = "[]" and post = "[]"]) (use assms in \<open>simp_all add: tls_record_ok_def\<close>)
  have f: "first_read (c # cs) \<noteq> []" by (simp add: first_read_def tls_record_def)
  have 2: "fetch_chain [] [Some (first_read (c # cs)), Some (second_read (c # cs))] = first_read (c # cs)"
    using f first_read_certs [OF assms] by (simp add: TLS12_BUFFER_def)
  have "length (tls12_chain_findings now load tgt (first_read (c # cs))) \<le> 1"
    by (simp add: tls12_chain_findings_def first_read_certs [OF assms] loaded_chain_def split: option.split)
  with 1 2 first_read_certs [OF assms] show ?thesis by simp
qed

theorem served_chain_cut_witness:
  "\<exists>d1 d2. extract_certificates (d1 @ d2) = [[0x30, 1], [0x30, 2]] \<and> extract_certificates (fetch_chain [] [Some d1, Some d2]) = [[0x30, 1]]"
proof -
  have "chain_certs_ok [[0x30, 1], [0x30, 2]]" "length (enc_message (0x0B, chain_body [[0x30, 1], [0x30, 2]])) < 65536"
    by (simp_all add: chain_certs_ok_def chain_body_def Let_def enc_message_def)
  from served_chain_cut [OF this, where now = 0 and load = "\<lambda>_. None" and tgt = "(''h'', 443)"]
  have "extract_certificates (first_read [[0x30, 1], [0x30, 2]] @ second_read [[0x30, 1], [0x30, 2]]) = [[0x30, 1], [0x30, 2]] \<and>
      extract_certificates (fetch_chain [] [Some (first_read [[0x30, 1], [0x30, 2]]), Some (second_read [[0x30, 1], [0x30, 2]])]) = [[0x30, 1]]"
    by blast
  then show ?thesis by (intro exI)
qed

section \<open>The selected group\<close>

lemma length_handshake_record [simp]: "length (handshake_record t body) = 9 + length body"
  by (simp add: handshake_record_def Let_def)

lemma handshake_record_fields:
  assumes "length body < 65000"
  shows "be_nat (slice 3 5 (handshake_record t body @ rest)) = 4 + length body"
    "slice 5 (5 + (4 + length body)) (handshake_record t body @ rest) = enc_message (t, body)"
    "(handshake_record t body @ rest) ! 0 = 0x16"
proof -
  let ?hs = "t # enc24 (length body) @ body"
  have r: "handshake_record t body @ rest = [0x16, 3, 1] @ enc16 (length ?hs) @ ?hs @ rest" by (simp add: handshake_record_def Let_def)
  show "be_nat (slice 3 5 (handshake_record t body @ rest)) = 4 + length body"
    unfolding r using be_nat_mid(1) [of 3 "[0x16, 3, 1]" "length ?hs" 5 "?hs @ rest"] assms by simp
  show "slice 5 (5 + (4 + length body)) (handshake_record t body @ rest) = enc_message (t, body)"
    unfolding r enc_message_def using slice_mid [of "[0x16, 3, 1] @ enc16 (length ?hs)" 5 ?hs "5 + (4 + length body)" rest] by simp
qed (simp_all add: handshake_record_def Let_def)

definition kex_of :: "nat \<Rightarrow> nat \<Rightarrow> nat \<Rightarrow> kex_result" where
  "kex_of version cipher g =
     (let (name, is_pqc) = (case map_of KEX_GROUPS g of Some p \<Rightarrow> p | None \<Rightarrow> (''unknown-'' @ hex4 g, False)) in
      \<lparr>kx_version = version, kx_cipher = cipher, kx_code = g, kx_name = name, kx_pqc = is_pqc\<rparr>)"

lemma parse_kex_enc:
  assumes "length rnd = 32" "length sid < 256" "cipher < 65536" "length (concat (map enc_ext xs)) < 60000" "list_all ext_ok xs"
    "run_exts kex_ext xs (0x0303, None) = Some (version, Some g)"
  shows "parse_server_hello_kex (handshake_record 0x02 (server_hello_bytes rnd sid cipher xs) @ rest) = Some (Some (kex_of version cipher g))"
proof -
  let ?b = "server_hello_bytes rnd sid cipher xs"
  have l: "length ?b < 65000" using assms(1, 2, 4) by (simp add: server_hello_bytes_def)
  have m: "message_ok (0x02, ?b)" using l by (simp add: message_ok_def)
  have x: "ext_loop kex_ext (concat (map enc_ext xs)) 0 (0x0303, None) = Some (version, Some g)"
    using ext_loop_enc [OF assms(5), of kex_ext "[]" "(0x0303, None)"] assms(6) by simp
  have f: "server_hello_fields ?b = Some (Some (cipher, concat (map enc_ext xs)))"
    by (rule server_hello_fields_enc) (use assms in simp_all)
  show ?thesis
    using handshake_record_fields [OF l, of "0x02" rest] message_fields [OF m] f x
    by (simp add: parse_server_hello_kex_def Let_def kex_of_def)
qed

lemma server_hello_fields_cut:
  assumes "length rnd = 32" "length sid < 256" "35 + length sid \<le> m" "m < 40 + length sid"
  shows "server_hello_fields (take m (server_hello_bytes rnd sid cipher xs)) = None"
proof -
  let ?d = "take m (server_hello_bytes rnd sid cipher xs)" and ?s = "length sid"
  have "server_hello_bytes rnd sid cipher xs = (enc16 0x0303 @ rnd) @ byte_of ?s # (sid @ enc16 cipher @ [0] @
      enc16 (length (concat (map enc_ext xs))) @ concat (map enc_ext xs))"
    by (simp add: server_hello_bytes_def)
  then have "at (server_hello_bytes rnd sid cipher xs) 34 = Some (byte_of ?s)"
    using at_mid [of "enc16 0x0303 @ rnd" 34 "byte_of ?s"] assms(1) by simp
  then have a: "at ?d 34 = Some (byte_of ?s)" using assms(3) by (simp add: at_def split: if_splits)
  have l: "length ?d \<le> m" by simp
  have u: "u16_at ?d (35 + ?s + 3) = None"
    using l assms(4) by (auto simp: u16_at_def unpack_be_def slice_def)
  then show ?thesis
    using a assms(2) by (cases "u16_at ?d (35 + ?s)") (simp_all add: server_hello_fields_def unat_byte_of Let_def)
qed

text \<open>
  A ServerHello is understood when it arrives whole, with the group the server selected. When the one read of the
  probe ends between its session id and its extension block, the parser raises an error that nothing catches,
  although it is meant to answer that the bytes are no ServerHello: the probe fails instead of reporting nothing.
\<close>

theorem truncated_server_hello_raises:
  assumes "length rnd = 32" "length sid < 256" "cipher < 65536" "length (concat (map enc_ext xs)) < 60000" "list_all ext_ok xs"
    "run_exts kex_ext xs (0x0303, None) = Some (version, Some g)" "44 + length sid \<le> n" "n < 49 + length sid"
    "resolve_target target server_target = Some (host, port)" "dns_name host"
  shows "let r = handshake_record 0x02 (server_hello_bytes rnd sid cipher xs) in
     run_kex now target server_target (Some (Some r)) = Some [kex_finding now (host, port) (kex_of version cipher g)] \<and>
     run_kex now target server_target (Some (Some (take n r))) = None"
proof -
  let ?b = "server_hello_bytes rnd sid cipher xs"
  let ?r = "handshake_record 0x02 ?b" and ?m = "enc_message (0x02, ?b)"
  have l: "length ?b < 65000" "40 + length sid \<le> length ?b" using assms(1, 2, 4) by (simp_all add: server_hello_bytes_def)
  have m: "message_ok (0x02, ?b)" using l by (simp add: message_ok_def)
  note f = handshake_record_fields [OF l(1), of "0x02" "[]", simplified]
  have hello: "\<exists>q. build_client_hello_kex (Some host) FIXED_RANDOM = Some q"
    using kex_hello [OF assms(10), of FIXED_RANDOM] by (simp add: FIXED_RANDOM_def)
  have whole: "parse_server_hello_kex ?r = Some (Some (kex_of version cipher g))"
    using parse_kex_enc [OF assms(1-6), of "[]"] by simp
  have sp: "?r = take 5 ?r @ ?m"
  proof -
    have "length ?r = 9 + length ?b" by simp
    then have "drop 5 ?r = slice 5 (5 + (4 + length ?b)) ?r" by (simp add: slice_def)
    then show ?thesis using f(2) append_take_drop_id [of 5 ?r] by simp
  qed
  have t5: "take 5 (take n ?r) = take 5 ?r" using assms(7) by (simp add: min_def)
  have n: "be_nat (slice 3 5 (take n ?r)) = 4 + length ?b" using f(1) t5 by (simp add: slice_def take_drop)
  have hs: "slice 5 (5 + (4 + length ?b)) (take n ?r) = take (n - 5) ?m"
    using f(2) length_handshake_record [of "0x02" ?b] assms(7, 8) l(2) by (simp add: slice_def drop_take min_def)
  have hm: "take (n - 5) ?m = 0x02 # enc24 (length ?b) @ take (n - 9) ?b"
  proof -
    obtain k where k: "n = 9 + k" using assms(7) le_Suc_ex [of 9 n] by auto
    then have e: "n - 5 = Suc (3 + k)" "n - 9 = k" by simp_all
    show ?thesis unfolding e enc_message_def by (simp only: take_Suc_Cons fst_conv snd_conv take_append length_enc24) simp
  qed
  have bn: "be_nat (slice 1 4 (0x02 # enc24 (length ?b) @ take (n - 9) ?b)) = length ?b"
    using be_nat_mid(2) [of 1 "[0x02]" "length ?b" 4 "take (n - 9) ?b"] l(1) by simp
  have bs: "slice 4 (4 + length ?b) (0x02 # enc24 (length ?b) @ take (n - 9) ?b) = take (n - 9) ?b"
    by (simp add: slice_def min_def)
  have cut: "server_hello_fields (take (n - 9) ?b) = None"
    by (rule server_hello_fields_cut [OF assms(1, 2)]) (use assms(7, 8) in simp_all)
  have z: "take n ?r ! 0 = 0x16" "5 \<le> length (take n ?r)" using f(3) assms(7) l(2) by simp_all
  have "parse_server_hello_kex (take n ?r) = None"
    using z(2) l(2) assms(7) bn bs cut by (simp add: parse_server_hello_kex_def z(1) n hs [simplified] hm Let_def)
  with hello whole show ?thesis
    using assms(9) by (auto simp: run_kex_def Let_def)
qed

section \<open>The version sweep\<close>

lemma parse_server_record:
  assumes "length rnd = 32" "length sid < 256" "cipher < 65536" "length (concat (map enc_ext xs)) < 60000" "list_all ext_ok xs"
    "run_exts server_ext xs (None, None) = Some (v, g)"
  shows "parse_tls_handshake (handshake_record 0x02 (server_hello_bytes rnd sid cipher xs)) =
     Some (ServerHello \<lparr>sh_legacy_version = 0x0303, sh_cipher = cipher, sh_selected_version = v, sh_group = g\<rparr>)"
proof -
  let ?d = "server_hello_bytes rnd sid cipher xs" and ?e = "concat (map enc_ext xs)" and ?s = "length sid"
  let ?p2 = "enc16 0x0303 @ rnd @ [byte_of ?s] @ sid" and ?r = "handshake_record 0x02 (server_hello_bytes rnd sid cipher xs)"
  have d: "?d = ?p2 @ enc16 cipher @ [0] @ enc16 (length ?e) @ ?e" by (simp add: server_hello_bytes_def)
  have l: "length ?d = 40 + ?s + length ?e" using assms(1) by (simp add: d)
  have 0: "u16_at ?d 0 = Some 0x0303" unfolding d using u16_at_enc16 [of "0x0303" "[]" 0] by simp
  have 1: "at ?d 34 = Some (byte_of ?s)" unfolding d using at_mid [of "enc16 0x0303 @ rnd" 34 "byte_of ?s"] assms(1) by simp
  have 2: "u16_at ?d (35 + ?s) = Some cipher" unfolding d using u16_at_enc16 [of cipher ?p2 "35 + ?s"] assms(1, 3) by simp
  have 3: "u16_at ?d (35 + ?s + 3) = Some (length ?e)" unfolding d
    using u16_at_enc16 [of "length ?e" "?p2 @ enc16 cipher @ [0]" "35 + ?s + 3" ?e] assms(1, 4) by simp
  have 4: "slice (35 + ?s + 3 + 2) (35 + ?s + 3 + 2 + length ?e) ?d = ?e" unfolding d
    using slice_mid [of "?p2 @ enc16 cipher @ [0] @ enc16 (length ?e)" "35 + ?s + 3 + 2" ?e "35 + ?s + 3 + 2 + length ?e" "[]"] assms(1) by simp
  have x: "parse_server_extensions ?e = Some (v, g)"
    using ext_loop_enc [OF assms(5), of server_ext "[]" "(None, None)"] assms(6) by (simp add: parse_server_extensions_def)
  have sid: "unat (byte_of ?s) = ?s" using assms(2) by (simp add: unat_byte_of)
  have n: "\<not> length ?d < 35" "\<not> length ?d < 35 + ?s + 3" "35 + ?s + 3 + 2 \<le> length ?d" using l by simp_all
  have p: "parse_server_hello ?d = Some (Some \<lparr>sh_legacy_version = 0x0303, sh_cipher = cipher, sh_selected_version = v, sh_group = g\<rparr>)"
    unfolding parse_server_hello_def
    by (simp only: n if_False if_True Let_def 0 1 Option.bind.bind_lunit sid 2 3 4 x prod.case)
  have small: "length ?d < 65000" using l assms(2, 4) by simp
  have m: "message_ok (0x02, ?d)" using small by (simp add: message_ok_def)
  note f = handshake_record_fields [OF small, of "0x02" "[]", simplified]
  have u: "u16_at ?r 3 = Some (4 + length ?d)"
    using f(1) by (simp add: u16_at_def unpack_be_def length_slice)
  have n2: "\<not> (length ?r < 9 \<or> ?r ! 0 \<noteq> 0x16)" "\<not> length (enc_message (0x02, ?d)) < 4" "at (enc_message (0x02, ?d)) 0 = Some 0x02"
    using f(3) message_fields [OF m] by (simp_all add: at_def)
  have "tls_handshake_body ?r = Some (Some (ServerHello \<lparr>sh_legacy_version = 0x0303, sh_cipher = cipher, sh_selected_version = v, sh_group = g\<rparr>))"
    using n2 u f(2) message_fields [OF m] p by (simp add: tls_handshake_body_def Let_def)
  then show ?thesis by (simp add: parse_tls_handshake_def)
qed

lemma detect_accept_hello:
  "length body < 65000 \<Longrightarrow> detect_accept (handshake_record 0x02 body @ rest)"
  using handshake_record_fields [of body "0x02" rest] by (simp add: detect_accept_def Let_def enc_message_def)

lemma accepted_versions_get:
  "accepted_versions peer host vs = Some acc \<Longrightarrow> v \<in> set vs \<Longrightarrow> distinct vs \<Longrightarrow> map_of acc v = probe_version peer host v"
  by (induction vs arbitrary: acc) (auto split: bind_splits)

text \<open>
  The sweep takes any ServerHello for acceptance of the offered version. A server that speaks TLS 1.2 at most
  answers the TLS 1.3 hello, which also offers TLS 1.2 suites, with a ServerHello of version 1.2 and no
  supported_versions extension; the sweep then reports that it supports TLS 1.3, and the finding that it does not
  is missing.
\<close>

theorem tls12_server_reported_as_tls13:
  assumes "peer 0x0304 = Some reply" "\<And>hello. reply hello = Some (handshake_record 0x02 (server_hello_bytes rnd sid cipher xs))"
    "length rnd = 32" "length sid < 256" "cipher < 65536" "length (concat (map enc_ext xs)) < 60000" "list_all ext_ok xs"
    "run_exts server_ext xs (None, None) = Some (None, g)"
    "resolve_target target server_target = Some tgt" "run_versions peer now target server_target = Some fs"
  shows "parse_tls_handshake (handshake_record 0x02 (server_hello_bytes rnd sid cipher xs)) =
      Some (ServerHello \<lparr>sh_legacy_version = 0x0303, sh_cipher = cipher, sh_selected_version = None, sh_group = g\<rparr>) \<and>
    (\<exists>f\<in>set fs. algorithm f = ''TLS 1.3'' \<and> title f = endpoint tgt @ '' supports TLS 1.3 (PQC-capable transport available)'') \<and>
    (\<forall>f\<in>set fs. algorithm f = ''TLS 1.3'' \<longrightarrow> classification f = CLS_INFO)"
proof -
  let ?r = "handshake_record 0x02 (server_hello_bytes rnd sid cipher xs)"
  obtain acc where acc: "accepted_versions peer (fst tgt) SWEEP_ORDER = Some acc"
    and fs: "fs = version_findings now tgt (\<lambda>v. map_of acc v = Some True)"
    using assms(9, 10) by (auto simp: run_versions_def)
  have "map_of acc 0x0304 = probe_version peer (fst tgt) 0x0304"
    by (rule accepted_versions_get [OF acc]) (simp_all add: SWEEP_ORDER_def)
  moreover obtain b where b: "probe_version peer (fst tgt) 0x0304 = Some b"
    using acc by (auto simp: SWEEP_ORDER_def split: bind_splits)
  moreover have "b"
    using b assms(1, 2) detect_accept_hello [of "server_hello_bytes rnd sid cipher xs" "[]"] assms(3-6)
    by (auto simp: probe_version_def server_hello_bytes_def split: bind_splits)
  ultimately have a: "map_of acc 0x0304 = Some True" by simp
  have n: "algorithm f \<noteq> ''TLS 1.3''" if "f \<in> set (old_version_finding now tgt v)" "v \<noteq> 0x0304" for f v
    using that by (auto simp: old_version_finding_def Let_def version_name_def VERSION_NAMES_def split: if_splits)
  have "fs = concat (map (old_version_finding now tgt) (filter (\<lambda>v. v \<noteq> 0x0304 \<and> map_of acc v = Some True) SWEEP_ORDER)) @
      [tls13_version_finding now tgt (\<lambda>v. map_of acc v = Some True)]"
    by (simp add: fs version_findings_def)
  moreover have "tls13_version_finding now tgt (\<lambda>v. map_of acc v = Some True) =
      \<lparr>probe_id = ''net.tls.versions'', algorithm = ''TLS 1.3'', classification = CLS_INFO, severity = SEV_INFO,
       title = endpoint tgt @ '' supports TLS 1.3 (PQC-capable transport available)'', component_purl = None,
       evidence = [(''host'', JStr (fst tgt)), (''port'', JInt (snd tgt)), (''version'', JStr ''TLS 1.3''), (''version_code'', JStr ''0x0304'')],
       remediation = [], confidence = ''high'', created_at = now\<rparr>" (is "_ = ?f")
    using a by (simp add: tls13_version_finding_def)
  ultimately have set: "set fs = insert ?f (\<Union>v\<in>{v \<in> set SWEEP_ORDER. v \<noteq> 0x0304 \<and> map_of acc v = Some True}. set (old_version_finding now tgt v))"
    by auto
  show ?thesis
  proof (intro conjI)
    show "parse_tls_handshake ?r =
        Some (ServerHello \<lparr>sh_legacy_version = 0x0303, sh_cipher = cipher, sh_selected_version = None, sh_group = g\<rparr>)"
      by (rule parse_server_record) (use assms in simp_all)
    show "\<exists>f\<in>set fs. algorithm f = ''TLS 1.3'' \<and> title f = endpoint tgt @ '' supports TLS 1.3 (PQC-capable transport available)''"
      unfolding set by (rule bexI [of _ ?f]) (simp_all only: finding.simps insert_iff simp_thms)
    show "\<forall>f\<in>set fs. algorithm f = ''TLS 1.3'' \<longrightarrow> classification f = CLS_INFO"
      unfolding set using n by (simp only: ball_simps) (auto simp only: finding.simps)
  qed
qed

text \<open>A server of the sample: TLS 1.2 with an RSA suite and a renegotiation_info extension.\<close>

theorem tls12_server_reported_as_tls13_witness:
  "\<exists>fs. run_versions (\<lambda>v. Some (\<lambda>hello. Some (handshake_record 0x02 (server_hello_bytes (zeros 32) [] 0xC02F [(0xFF01, [0])]))))
      0 (Some ''example.org'') None = Some fs \<and>
    (\<exists>f\<in>set fs. algorithm f = ''TLS 1.3'' \<and> title f = endpoint (''example.org'', 443) @ '' supports TLS 1.3 (PQC-capable transport available)'')"
proof -
  let ?peer = "\<lambda>v :: nat. Some (\<lambda>hello :: byte list. Some (handshake_record 0x02 (server_hello_bytes (zeros 32) [] 0xC02F [(0xFF01, [0])])))"
  have b: "\<exists>q. build_client_hello_version v (Some ''example.org'') FIXED_RANDOM = Some q" if "v \<in> set SWEEP_ORDER" for v
    using version_hello [OF sample_name, of v FIXED_RANDOM] that by (auto simp: FIXED_RANDOM_def SWEEP_ORDER_def)
  have p: "\<exists>b. probe_version ?peer ''example.org'' v = Some b" if "v \<in> set SWEEP_ORDER" for v
    using b [OF that] by (auto simp: probe_version_def)
  have "\<exists>acc. accepted_versions ?peer ''example.org'' vs = Some acc" if "set vs \<subseteq> set SWEEP_ORDER" for vs
    using that
  proof (induction vs)
    case (Cons v vs)
    then obtain acc b where "accepted_versions ?peer ''example.org'' vs = Some acc" "probe_version ?peer ''example.org'' v = Some b"
      using p by fastforce
    then show ?case by simp
  qed simp
  then obtain acc where acc: "accepted_versions ?peer ''example.org'' SWEEP_ORDER = Some acc" by blast
  have t: "resolve_target (Some ''example.org'') None = Some (''example.org'', 443)"
    by (simp add: resolve_target_def partition_char_def)
  then have r: "\<exists>fs. run_versions ?peer 0 (Some ''example.org'') None = Some fs"
    using acc by (simp add: run_versions_def)
  then obtain fs where fs: "run_versions ?peer 0 (Some ''example.org'') None = Some fs" by blast
  have "(\<exists>f\<in>set fs. algorithm f = ''TLS 1.3'' \<and> title f = endpoint (''example.org'', 443) @ '' supports TLS 1.3 (PQC-capable transport available)'')"
    using tls12_server_reported_as_tls13 [OF refl refl _ _ _ _ _ _ t fs, of None]
    by (simp add: enc_ext_def ext_ok_def server_ext_def)
  with fs show ?thesis by blast
qed

theorem truncated_server_hello_raises_witness:
  "\<exists>data. run_kex 0 (Some ''example.org'') None (Some (Some data)) = Some [kex_finding 0 (''example.org'', 443) (kex_of 0x0304 0x1301 0x001D)] \<and>
     run_kex 0 (Some ''example.org'') None (Some (Some (take 46 data))) = None"
proof -
  have u: "u16_at (enc16 n @ bs) 0 = Some n" if "n < 65536" for n bs
    using u16_at_enc16 [OF that, of "[]" 0 bs] by simp
  have x: "run_exts kex_ext sample_server_exts (0x0303, None) = Some (0x0304, Some 0x001D)"
    using u [of "0x0304" "[]"] u [of "0x001D" "enc16 32 @ zeros 32"] by (simp add: sample_server_exts_def kex_ext_def)
  have t: "resolve_target (Some ''example.org'') None = Some (''example.org'', 443)"
    by (simp add: resolve_target_def partition_char_def)
  have "let r = handshake_record 0x02 (server_hello_bytes (zeros 32) [] 0x1301 sample_server_exts) in
     run_kex 0 (Some ''example.org'') None (Some (Some r)) = Some [kex_finding 0 (''example.org'', 443) (kex_of 0x0304 0x1301 0x001D)] \<and>
     run_kex 0 (Some ''example.org'') None (Some (Some (take 46 r))) = None"
    by (rule truncated_server_hello_raises [OF _ _ _ sample_server_exts_facts(1, 2) x _ _ t sample_name]) simp_all
  then show ?thesis unfolding Let_def by (intro exI)
qed

end
