(* ===== verification/Sniff.thy ===== *)
theory Sniff
  imports Capture Tls_Sweep
begin

text \<open>
  \<^verbatim>\<open>probes/net_sniff_live.py\<close>: the passive TLS sensor. What the raw socket answers, the parser of DER
  certificates and the clock are arguments; the capture window's length is carried as the text that
  \<^verbatim>\<open>f"{seconds:g}"\<close> writes. The loops of the probe cannot raise on the frames they are given, so its
  \<^verbatim>\<open>except\<close> clauses concern the socket alone.
\<close>

section \<open>Configuration and constants\<close>

record sniff_config =
  sc_interface :: "string option"
  sc_window :: string
  sc_max_packets :: nat

definition MAX_STREAM_BYTES :: nat where "MAX_STREAM_BYTES = 262144"

definition SEQ_MODULUS :: int where "SEQ_MODULUS = 4294967296"

definition MAX_SNIFF_FINDINGS :: nat where "MAX_SNIFF_FINDINGS = 500"

definition SNIFF_PROBE :: string where "SNIFF_PROBE = ''net.sniff.live''"

definition iface_label :: "sniff_config \<Rightarrow> string" where
  "iface_label cfg = (case sc_interface cfg of Some i \<Rightarrow> if i \<noteq> [] then i else ''all interfaces'' | None \<Rightarrow> ''all interfaces'')"

definition applies_sniff :: "sniff_config option \<Rightarrow> string \<Rightarrow> capability set \<Rightarrow> bool" where
  "applies_sniff cfg platform caps \<longleftrightarrow> cfg \<noteq> None \<and> startswith platform ''linux'' \<and> NET_RAW \<in> caps"

section \<open>Capturing\<close>

text \<open>What one \<^verbatim>\<open>recv\<close> before the deadline does; the list of them ends when the deadline has passed.\<close>

datatype recv_result = Timed_Out | Recv_Error | Received "byte list"

fun capture_loop :: "nat \<Rightarrow> recv_result list \<Rightarrow> byte list list \<Rightarrow> byte list list" where
  "capture_loop max_packets [] frames = frames"
| "capture_loop max_packets (r # rs) frames =
     (if length frames \<ge> max_packets then frames
      else
        (case r of
           Timed_Out \<Rightarrow> capture_loop max_packets rs frames
         | Recv_Error \<Rightarrow> frames
         | Received fr \<Rightarrow> capture_loop max_packets rs (if fr \<noteq> [] then frames @ [fr] else frames)))"

text \<open>\<^const>\<open>None\<close>: the socket cannot be opened or bound.\<close>

definition capture :: "sniff_config \<Rightarrow> recv_result list option \<Rightarrow> byte list list option" where
  "capture cfg sock = map_option (\<lambda>rs. capture_loop (sc_max_packets cfg) rs []) sock"

section \<open>Reassembly of flows\<close>

text \<open>\<^verbatim>\<open>(seq - base) & 0xFFFFFFFF\<close>.\<close>

definition seq_off :: "nat \<Rightarrow> nat \<Rightarrow> nat" where
  "seq_off base sq = nat ((int sq - int base) mod SEQ_MODULUS)"

fun stream_loop :: "nat \<Rightarrow> (nat \<times> byte list) list \<Rightarrow> byte list \<Rightarrow> nat \<Rightarrow> byte list" where
  "stream_loop base [] buf nxt = buf"
| "stream_loop base ((sq, pl) # segs) buf nxt =
     (let off = seq_off base sq in
      if off > nxt then buf
      else
        (let e = off + length pl in
         if e \<le> nxt then stream_loop base segs buf nxt
         else
           (let buf' = buf @ drop (nxt - off) pl in
            if length buf' \<ge> MAX_STREAM_BYTES then take MAX_STREAM_BYTES buf' else stream_loop base segs buf' e)))"

definition reassemble_stream :: "(nat \<times> byte list) list \<Rightarrow> byte list" where
  "reassemble_stream segs =
     (if segs = [] then []
      else
        (let base = Min (set (map fst segs));
             ordered = sort_key (\<lambda>sp. seq_off base (fst sp)) segs
         in stream_loop base ordered [] 0))"

type_synonym flow_key = "string \<times> nat \<times> string \<times> nat"

fun add_to_flow :: "flow_key \<Rightarrow> nat \<times> byte list \<Rightarrow> (flow_key \<times> (nat \<times> byte list) list) list \<Rightarrow>
    (flow_key \<times> (nat \<times> byte list) list) list" where
  "add_to_flow k x [] = [(k, [x])]"
| "add_to_flow k x ((k', xs) # flows) = (if k = k' then (k', xs @ [x]) # flows else (k', xs) # add_to_flow k x flows)"

definition seg_key :: "segment \<Rightarrow> flow_key" where
  "seg_key s = (src_ip s, src_port s, dst_ip s, dst_port s)"

definition tcp_segment :: "byte list \<Rightarrow> segment option" where
  "tcp_segment fr =
     (case decode_packet fr 1 of
        None \<Rightarrow> None
      | Some s \<Rightarrow> if proto s \<noteq> ''tcp'' \<or> payload s = [] then None else Some s)"

fun collect_flows :: "byte list list \<Rightarrow> (flow_key \<times> (nat \<times> byte list) list) list \<Rightarrow> (flow_key \<times> (nat \<times> byte list) list) list" where
  "collect_flows [] flows = flows"
| "collect_flows (fr # frs) flows =
     (case tcp_segment fr of
        None \<Rightarrow> collect_flows frs flows
      | Some s \<Rightarrow> collect_flows frs (add_to_flow (seg_key s) (seq_no s, payload s) flows))"

definition flow_segment :: "flow_key \<times> (nat \<times> byte list) list \<Rightarrow> segment list" where
  "flow_segment f =
     (case f of ((sip, sport, dip, dport), segs) \<Rightarrow>
        let stream = reassemble_stream segs in
        if stream \<noteq> []
        then [\<lparr>proto = ''tcp'', src_ip = sip, src_port = sport, dst_ip = dip, dst_port = dport, payload = stream, seq_no = 0\<rparr>]
        else [])"

definition reassemble_flows :: "byte list list \<Rightarrow> segment list" where
  "reassemble_flows frames = concat (map flow_segment (collect_flows frames []))"

section \<open>Observations\<close>

record observation =
  ob_kind :: string
  ob_alg :: string
  ob_class :: classification
  ob_confidence :: string
  ob_advertised :: bool
  ob_key_share :: bool

function message_loop :: "byte list \<Rightarrow> nat \<Rightarrow> (byte \<times> byte list) list" where
  "message_loop hs off =
     (if off + 4 \<le> length hs then
        (let msg_len = be_nat (slice (off + 1) (off + 4) hs); m = slice off (off + 4 + msg_len) hs in
         if length m < 4 + msg_len then [] else (hs ! off, m) # message_loop hs (off + 4 + msg_len))
      else [])"
  by pat_completeness auto
termination
  by (relation "measure (\<lambda>(hs, off). length hs - off)") auto

declare message_loop.simps [simp del]

definition iter_handshake_messages :: "byte list \<Rightarrow> (byte \<times> byte list) list" where
  "iter_handshake_messages stream = message_loop (reassemble_handshake stream) 0"

definition wrap_record :: "byte list \<Rightarrow> byte list" where
  "wrap_record m =
     (if length m > 0xFFFF then []
      else [0x16, 0x03, 0x03, byte_of (length m div 256), byte_of (length m mod 256)] @ m)"

definition group_class :: "bool \<Rightarrow> classification" where
  "group_class is_pqc = (if is_pqc then PQC_READY else TINGGI)"

definition offered_obs :: "nat list \<Rightarrow> nat \<Rightarrow> observation list" where
  "offered_obs key_share code =
     (case map_of TLS_GROUPS code of
        None \<Rightarrow> []
      | Some (name, is_pqc) \<Rightarrow>
          (let offered = code \<in> set key_share in
           [\<lparr>ob_kind = ''client_hello'', ob_alg = name, ob_class = group_class is_pqc,
             ob_confidence = (if offered then ''medium'' else ''low''), ob_advertised = True, ob_key_share = offered\<rparr>]))"

definition client_hello_obs :: "client_hello \<Rightarrow> observation list" where
  "client_hello_obs ch = concat (map (offered_obs (ch_key_share_groups ch)) (ch_groups ch))"

definition server_obs :: "string \<Rightarrow> classification \<Rightarrow> observation" where
  "server_obs alg cls =
     \<lparr>ob_kind = ''server_hello'', ob_alg = alg, ob_class = cls, ob_confidence = ''medium'', ob_advertised = False, ob_key_share = False\<rparr>"

definition server_hello_obs :: "server_hello \<Rightarrow> observation list" where
  "server_hello_obs sh =
     (case map_of SUITE_NAMES (sh_cipher sh) of
        None \<Rightarrow> []
      | Some name \<Rightarrow> (let cls = classify_suite name in if cls \<noteq> CLS_INFO then [server_obs name cls] else [])) @
     (case sh_group sh of
        None \<Rightarrow> []
      | Some g \<Rightarrow>
          (case map_of TLS_GROUPS g of
             None \<Rightarrow> []
           | Some (gname, is_pqc) \<Rightarrow> [server_obs gname (group_class is_pqc)]))"

text \<open>\<open>sig_oid\<close> answers the signature algorithm's object identifier, \<^const>\<open>None\<close> when the certificate does not load.\<close>

definition certificate_obs :: "(byte list \<Rightarrow> string option) \<Rightarrow> byte list \<Rightarrow> observation list" where
  "certificate_obs sig_oid stream =
     (case extract_certificates stream of
        [] \<Rightarrow> []
      | der # _ \<Rightarrow>
          (case sig_oid der of
             None \<Rightarrow> []
           | Some oid \<Rightarrow>
               (let alg = normalise oid in
                [\<lparr>ob_kind = ''certificate'', ob_alg = alg, ob_class = classify alg, ob_confidence = ''high'',
                  ob_advertised = False, ob_key_share = False\<rparr>])))"

definition message_obs :: "byte \<times> byte list \<Rightarrow> observation list" where
  "message_obs tm =
     (if fst tm = 0x01 then
        (case parse_tls_handshake (wrap_record (snd tm)) of Some (ClientHello ch) \<Rightarrow> client_hello_obs ch | _ \<Rightarrow> [])
      else if fst tm = 0x02 then
        (case parse_tls_handshake (wrap_record (snd tm)) of Some (ServerHello sh) \<Rightarrow> server_hello_obs sh | _ \<Rightarrow> [])
      else [])"

definition analyze_stream :: "(byte list \<Rightarrow> string option) \<Rightarrow> byte list \<Rightarrow> observation list" where
  "analyze_stream sig_oid stream = concat (map message_obs (iter_handshake_messages stream)) @ certificate_obs sig_oid stream"

section \<open>Findings\<close>

definition sniff_verb :: "observation \<Rightarrow> string" where
  "sniff_verb ob =
     (if ob_key_share ob then ''offered key_share for''
      else if ob_advertised ob then ''advertised''
      else if ob_kind ob = ''server_hello'' then ''negotiated''
      else ''served'')"

definition sniff_finding :: "int \<Rightarrow> segment \<times> observation \<Rightarrow> finding" where
  "sniff_finding now so =
     (case so of (seg, ob) \<Rightarrow>
        \<lparr>probe_id = SNIFF_PROBE, algorithm = ob_alg ob, classification = ob_class ob, severity = sev_for (ob_class ob),
         title = ''live: '' @ ob_kind ob @ '' '' @ sniff_verb ob @ '' '' @ ob_alg ob @ '' ('' @ seg_src seg @ '' -> '' @ seg_dst seg @ '')'',
         component_purl = None,
         evidence = [(''src'', JStr (seg_src seg)), (''dst'', JStr (seg_dst seg)), (''dst_port'', JInt (int (dst_port seg))),
           (''record'', JStr (ob_kind ob)), (''algorithm'', JStr (ob_alg ob)), (''confidence'', JStr (ob_confidence ob))] @
           (if ob_advertised ob \<and> \<not> ob_key_share ob then [(''advertised'', JBool True)] else []) @
           (if ob_key_share ob then [(''key_share_offered'', JBool True)] else []),
         remediation = [], confidence = ob_confidence ob, created_at = now\<rparr>)"

definition sniff_note :: "int \<Rightarrow> string \<Rightarrow> finding" where
  "sniff_note now message =
     \<lparr>probe_id = SNIFF_PROBE, algorithm = ''N/A'', classification = CLS_INFO, severity = SEV_INFO, title = message,
      component_purl = None, evidence = [(''note'', JStr message)], remediation = [], confidence = ''high'', created_at = now\<rparr>"

type_synonym obs_key = "string \<times> string \<times> nat \<times> string \<times> string"

definition obs_key :: "segment \<times> observation \<Rightarrow> obs_key" where
  "obs_key so = (src_ip (fst so), dst_ip (fst so), dst_port (fst so), ob_alg (snd so), ob_kind (snd so))"

record sniff_state =
  sn_seen :: "obs_key list"
  sn_out :: "finding list"
  sn_emitted :: nat
  sn_crypto :: bool
  sn_capped :: bool

fun emit_obs :: "int \<Rightarrow> segment \<Rightarrow> observation list \<Rightarrow> sniff_state \<Rightarrow> sniff_state" where
  "emit_obs now seg [] st = st"
| "emit_obs now seg (ob # obs) st =
     (let k = obs_key (seg, ob) in
      if k \<in> set (sn_seen st) then emit_obs now seg obs st
      else
        (let st1 = st\<lparr>sn_seen := k # sn_seen st, sn_crypto := True\<rparr> in
         if sn_emitted st \<ge> MAX_SNIFF_FINDINGS then st1\<lparr>sn_capped := True\<rparr>
         else emit_obs now seg obs (st1\<lparr>sn_out := sn_out st @ [sniff_finding now (seg, ob)], sn_emitted := sn_emitted st + 1\<rparr>)))"

fun emit_flows :: "int \<Rightarrow> (byte list \<Rightarrow> string option) \<Rightarrow> segment list \<Rightarrow> sniff_state \<Rightarrow> sniff_state" where
  "emit_flows now sig_oid [] st = st"
| "emit_flows now sig_oid (seg # segs) st =
     (let st' = emit_obs now seg (analyze_stream sig_oid (payload seg)) st in
      if sn_capped st' then st' else emit_flows now sig_oid segs st')"

definition capped_message :: "sniff_config \<Rightarrow> string" where
  "capped_message cfg = ''finding cap ('' @ show_nat MAX_SNIFF_FINDINGS @ '') reached on '' @ iface_label cfg @ '' '' @ DASH @ '' output truncated''"

definition quiet_message :: "sniff_config \<Rightarrow> string" where
  "quiet_message cfg = ''no TLS handshakes observed in '' @ sc_window cfg @ ''s on '' @ iface_label cfg"

definition process_frames :: "int \<Rightarrow> (byte list \<Rightarrow> string option) \<Rightarrow> byte list list \<Rightarrow> sniff_config \<Rightarrow> finding list" where
  "process_frames now sig_oid frames cfg =
     (let st = emit_flows now sig_oid (reassemble_flows frames)
                 \<lparr>sn_seen = [], sn_out = [], sn_emitted = 0, sn_crypto = False, sn_capped = False\<rparr>
      in sn_out st @ (if sn_capped st then [sniff_note now (capped_message cfg)] else []) @
         (if \<not> sn_crypto st then [sniff_note now (quiet_message cfg)] else []))"

definition run_sniff :: "int \<Rightarrow> (byte list \<Rightarrow> string option) \<Rightarrow> sniff_config option \<Rightarrow> recv_result list option \<Rightarrow> finding list" where
  "run_sniff now sig_oid cfg sock =
     (case cfg of
        None \<Rightarrow> []
      | Some c \<Rightarrow>
          (case capture c sock of
             None \<Rightarrow> [sniff_note now (''live capture unavailable on '' @ iface_label c)]
           | Some frames \<Rightarrow> process_frames now sig_oid frames c))"

end
