(* ===== verification/Sniff_Laws.thy ===== *)
theory Sniff_Laws
  imports Sniff Capped_Report Tls_Sweep_Laws
begin

text \<open>
  The passive sensor. TCP streams: whatever the order, repetition and overlap of the segments, the reassembled
  bytes are exactly the contiguous beginning of what was sent, as long as the sequence numbers do not wrap;
  when they do, the beginning is lost. Then the flows, the reporting loop against its reference, and the
  composition: a hello that is cut across segments and records is read and its groups are reported.
\<close>

section \<open>One stream\<close>

definition piece_of :: "nat \<Rightarrow> byte list \<Rightarrow> nat \<times> byte list \<Rightarrow> bool" where
  "piece_of isn s sp \<longleftrightarrow> isn \<le> fst sp \<and> snd sp \<noteq> [] \<and> fst sp - isn + length (snd sp) \<le> length s \<and>
     snd sp = take (length (snd sp)) (drop (fst sp - isn) s)"

lemma piece_ofD:
  assumes "piece_of isn s (sq, pl)"
  shows "isn \<le> sq" "pl \<noteq> []" "sq - isn + length pl \<le> length s" "pl = take (length pl) (drop (sq - isn) s)"
  using assms unfolding piece_of_def fst_conv snd_conv by blast+

definition covers :: "nat \<Rightarrow> (nat \<times> byte list) list \<Rightarrow> nat \<Rightarrow> bool" where
  "covers isn segs k \<longleftrightarrow> list_ex (\<lambda>sp. fst sp - isn \<le> k \<and> k < fst sp - isn + length (snd sp)) segs"

lemma covers_Cons [simp]: "covers isn ((sq, pl) # segs) k \<longleftrightarrow> (sq - isn \<le> k \<and> k < sq - isn + length pl) \<or> covers isn segs k"
  by (simp add: covers_def)

lemma covers_cong: "set segs = set segs' \<Longrightarrow> covers isn segs = covers isn segs'"
  by (auto simp: covers_def list_ex_iff fun_eq_iff)

lemma seq_off_ahead: "base \<le> sq \<Longrightarrow> sq < base + 4294967296 \<Longrightarrow> seq_off base sq = sq - base"
  by (simp add: seq_off_def SEQ_MODULUS_def nat_diff_distrib' of_nat_diff [symmetric] del: of_nat_diff)

lemma stream_loop_pieces:
  assumes "list_all (piece_of isn s) segs" "list_all (\<lambda>sp. seq_off isn (fst sp) = fst sp - isn) segs"
    "sorted (map (\<lambda>sp. fst sp - isn) segs)" "nxt \<le> length s" "nxt < MAX_STREAM_BYTES" "nxt \<le> g"
    "\<And>k. k < g \<Longrightarrow> k < nxt \<or> covers isn segs k" "\<not> covers isn segs g"
  shows "stream_loop isn segs (take nxt s) nxt = take (min g MAX_STREAM_BYTES) s"
  using assms
proof (induction segs arbitrary: nxt)
  case Nil
  then have "g = nxt" by (auto simp: covers_def intro: le_antisym leI)
  with Nil show ?case by simp
next
  case (Cons sp segs)
  obtain sq pl where sp: "sp = (sq, pl)" by (cases sp)
  let ?o = "sq - isn" and ?e = "sq - isn + length pl"
  have off: "seq_off isn sq = ?o" and tail: "list_all (piece_of isn s) segs" "list_all (\<lambda>sp. seq_off isn (fst sp) = fst sp - isn) segs"
      "sorted (map (\<lambda>sp. fst sp - isn) segs)" "\<forall>x\<in>set segs. ?o \<le> fst x - isn" "\<not> covers isn segs g"
    using Cons.prems by (auto simp: sp)
  have pl: "pl \<noteq> []" "?e \<le> length s" "pl = take (length pl) (drop ?o s)"
    using piece_ofD [of isn s sq pl] Cons.prems(1) by (simp_all add: sp)
  consider (gap) "nxt < ?o" | (old) "?o \<le> nxt" "?e \<le> nxt" | (new) "?o \<le> nxt" "nxt < ?e" by linarith
  then show ?case
  proof cases
    case gap
    then have "\<not> covers isn (sp # segs) nxt" using tail(4) by (auto simp: sp covers_def list_ex_iff)
    then have "g = nxt" using Cons.prems(6, 7) by (metis less_irrefl le_neq_implies_less)
    then show ?thesis using gap off Cons.prems(5) by (simp add: sp Let_def)
  next
    case old
    have c: "k < nxt \<or> covers isn segs k" if "k < g" for k
      using Cons.prems(7) [OF that] old by (auto simp: sp)
    show ?thesis using Cons.IH [OF tail(1-3) Cons.prems(4-6) c tail(5)] old off by (simp add: sp Let_def)
  next
    case new
    have ge: "?e \<le> g" using Cons.prems(6, 8) new by (auto simp: sp)
    define b where "b = take ?e s"
    have lb: "length b = ?e" using pl(2) by (simp add: b_def)
    have buf: "take nxt s @ drop (nxt - ?o) pl = b"
    proof -
      have "drop (nxt - ?o) pl = drop (nxt - ?o) (take (length pl) (drop ?o s))" using pl(3) by simp
      also have "\<dots> = take (?e - nxt) (drop nxt s)" using new by (simp add: drop_take add.commute)
      finally show ?thesis using new take_add [of nxt "?e - nxt" s] by (simp add: b_def)
    qed
    have step: "stream_loop isn (sp # segs) (take nxt s) nxt =
        (if MAX_STREAM_BYTES \<le> ?e then take MAX_STREAM_BYTES b else stream_loop isn segs b ?e)"
      using new off by (simp add: sp Let_def buf lb)
    have c: "k < ?e \<or> covers isn segs k" if "k < g" for k using Cons.prems(7) [OF that] new by (auto simp: sp)
    show ?thesis
    proof (cases "MAX_STREAM_BYTES \<le> ?e")
      case True
      with ge have "MAX_STREAM_BYTES \<le> g" by linarith
      with True show ?thesis by (simp add: step b_def)
    next
      case False
      then show ?thesis using Cons.IH [OF tail(1-3) pl(2) _ ge c tail(5)] by (simp add: step b_def)
    qed
  qed
qed

lemma reassembled_pieces:
  assumes "list_all (piece_of isn s) segs" "isn \<in> fst ` set segs" "isn + length s \<le> 4294967296"
    "\<And>k. k < g \<Longrightarrow> covers isn segs k" "\<not> covers isn segs g"
  shows "reassemble_stream segs = take (min g MAX_STREAM_BYTES) s"
proof -
  let ?o = "sort_key (\<lambda>sp. seq_off isn (fst sp)) segs"
  have lo: "\<forall>sp\<in>set segs. isn \<le> fst sp \<and> fst sp < isn + 4294967296"
  proof
    fix sp assume "sp \<in> set segs"
    then have "piece_of isn s sp" using assms(1) by (simp add: list_all_iff)
    then have "isn \<le> fst sp" "fst sp - isn + length (snd sp) \<le> length s" "0 < length (snd sp)"
      using piece_ofD [of isn s "fst sp" "snd sp"] by simp_all
    with assms(3) show "isn \<le> fst sp \<and> fst sp < isn + 4294967296" by linarith
  qed
  have base: "Min (set (map fst segs)) = isn" using lo assms(2) by (intro Min_eqI) auto
  have offs: "list_all (\<lambda>sp. seq_off isn (fst sp) = fst sp - isn) ?o"
    using lo seq_off_ahead by (auto simp: list_all_iff)
  have srt: "sorted (map (\<lambda>sp. fst sp - isn) ?o)"
  proof -
    have "map (\<lambda>sp. fst sp - isn) ?o = map (\<lambda>sp. seq_off isn (fst sp)) ?o" using offs by (simp add: list_all_iff)
    then show ?thesis by (simp only: sorted_sort_key)
  qed
  have cov: "covers isn ?o = covers isn segs" by (rule covers_cong) simp
  have "stream_loop isn ?o (take 0 s) 0 = take (min g MAX_STREAM_BYTES) s"
    by (rule stream_loop_pieces [OF _ offs srt]) (use assms cov in \<open>auto simp: list_all_iff MAX_STREAM_BYTES_def\<close>)
  moreover have "segs \<noteq> []" using assms(2) by auto
  ultimately show ?thesis by (simp add: reassemble_stream_def base [unfolded set_map] Let_def)
qed

text \<open>
  The bytes of a flow are rebuilt exactly: for segments that each carry a piece of the stream, in any order, with
  repetitions and overlaps, the result is the stream up to the first byte that no segment carries, cut at 256 KiB,
  provided that the first segment was captured and the sequence numbers do not wrap.
\<close>

theorem stream_rebuilt_any_order:
  assumes "list_all (piece_of isn s) segs" "isn \<in> fst ` set segs" "isn + length s \<le> 4294967296"
    "\<forall>k<g. covers isn segs k" "\<not> covers isn segs g"
  shows "reassemble_stream segs = take (min g 262144) s"
  using reassembled_pieces [OF assms(1-3), of g] assms(4, 5) by (simp add: MAX_STREAM_BYTES_def)

theorem stream_rebuilt_any_order_witness:
  "reassemble_stream [(103, [4, 5]), (100, [1, 2]), (101, [2, 3, 4]), (100, [1, 2]), (107, [8])] = [1, 2, 3, 4, 5]"
proof -
  have c: "\<forall>k<5. covers 100 [(103, [4, 5]), (100, [1, 2]), (101, [2, 3, 4]), (100, [1, 2]), (107, [8])] k"
    by (simp add: covers_def) presburger
  show ?thesis
    by (subst stream_rebuilt_any_order [where isn = 100 and s = "[1, 2, 3, 4, 5, 6, 7, 8]" and g = 5, OF _ _ _ c])
       (simp_all add: piece_of_def covers_def)
qed

lemma reassembled_whole:
  assumes "list_all (piece_of isn s) segs" "isn \<in> fst ` set segs" "isn + length s \<le> 4294967296"
    "\<And>k. k < length s \<Longrightarrow> covers isn segs k" "length s \<le> 262144"
  shows "reassemble_stream segs = s"
proof -
  have "\<not> covers isn segs (length s)" using assms(1) by (auto simp: covers_def list_ex_iff list_all_iff piece_of_def)
  with reassembled_pieces [OF assms(1-4)] assms(5) show ?thesis by (simp add: MAX_STREAM_BYTES_def)
qed

text \<open>
  A stream whose sequence numbers wrap between two segments loses its beginning: the smallest number is taken for
  the start of the stream, so that the first segment seems to lie far ahead. The same two segments without a wrap are
  joined.
\<close>

theorem sequence_wrap_loses_start:
  assumes "a \<noteq> []" "b \<noteq> []" "length a + length b \<le> 262144" "isn < 4294967296" "4294967296 \<le> isn + length a"
  shows "reassemble_stream [(isn, a), ((isn + length a) mod 4294967296, b)] = b \<and>
    reassemble_stream [((isn + length a) mod 4294967296, b), (isn, a)] = b \<and>
    (\<forall>start. start + length a + length b \<le> 4294967296 \<longrightarrow> reassemble_stream [(start, a), (start + length a, b)] = a @ b)"
proof -
  let ?q = "(isn + length a) mod 4294967296"
  have q1: "?q = isn + length a - 4294967296" using assms(3, 4, 5) by (simp add: le_mod_geq)
  then have q: "?q = isn + length a - 4294967296" "?q < isn" using assms(3, 4, 5) by linarith+
  have base: "Min {isn, ?q} = ?q" using q(2) by simp
  have "seq_off ?q isn = isn - ?q" using q assms(4) by (intro seq_off_ahead) linarith+
  then have offs: "seq_off ?q ?q = 0" "seq_off ?q isn = 4294967296 - length a"
    using q assms(4, 5) by (simp_all add: seq_off_def SEQ_MODULUS_def)
  have "length b < 4294967296 - length a" using assms(3) by simp
  then have w: "stream_loop ?q [(?q, b), (isn, a)] [] 0 = b" using offs assms(2, 3) by (simp add: Let_def MAX_STREAM_BYTES_def)
  have s: "sort_key (\<lambda>sp. seq_off ?q (fst sp)) [(isn, a), (?q, b)] = [(?q, b), (isn, a)]"
    "sort_key (\<lambda>sp. seq_off ?q (fst sp)) [(?q, b), (isn, a)] = [(?q, b), (isn, a)]"
    using offs assms(3) by simp_all
  have joined: "reassemble_stream [(start, a), (start + length a, b)] = a @ b" if h: "start + length a + length b \<le> 4294967296" for start
    by (rule reassembled_whole [where isn = start]) (use assms h in \<open>auto simp: piece_of_def covers_def\<close>)
  have b': "Min (set (map fst [(isn, a), (?q, b)])) = ?q" "Min (set (map fst [(?q, b), (isn, a)])) = ?q"
    using q(2) by simp_all
  show ?thesis unfolding reassemble_stream_def b' Let_def s using w joined by (simp add: reassemble_stream_def)
qed

section \<open>Flows\<close>

text \<open>What the frames of a capture carry of one flow.\<close>

definition flow_pieces :: "flow_key \<Rightarrow> byte list list \<Rightarrow> (nat \<times> byte list) list" where
  "flow_pieces k frames = concat (map (\<lambda>fr. case tcp_segment fr of
     None \<Rightarrow> [] | Some s \<Rightarrow> if seg_key s = k then [(seq_no s, payload s)] else []) frames)"

lemma map_of_add_to_flow:
  "map_of (add_to_flow k x flows) = (map_of flows)(k \<mapsto> (case map_of flows k of None \<Rightarrow> [] | Some xs \<Rightarrow> xs) @ [x])"
  by (induction flows) auto

lemma collect_flows_get:
  "map_of (collect_flows frames flows) k =
     (if flow_pieces k frames = [] then map_of flows k
      else Some ((case map_of flows k of None \<Rightarrow> [] | Some xs \<Rightarrow> xs) @ flow_pieces k frames))"
  by (induction frames arbitrary: flows) (auto simp: flow_pieces_def map_of_add_to_flow split: option.splits)

definition flow_of :: "flow_key \<Rightarrow> byte list \<Rightarrow> segment" where
  "flow_of k stream =
     (case k of (sip, sport, dip, dport) \<Rightarrow>
        \<lparr>proto = ''tcp'', src_ip = sip, src_port = sport, dst_ip = dip, dst_port = dport, payload = stream, seq_no = 0\<rparr>)"

lemma flow_reassembled:
  assumes "reassemble_stream (flow_pieces k frames) = stream" "stream \<noteq> []"
  shows "flow_of k stream \<in> set (reassemble_flows frames)"
proof -
  have "flow_pieces k frames \<noteq> []" using assms by (auto simp: reassemble_stream_def)
  then have "map_of (collect_flows frames []) k = Some (flow_pieces k frames)" by (simp add: collect_flows_get)
  then have m: "(k, flow_pieces k frames) \<in> set (collect_flows frames [])" by (rule map_of_SomeD)
  obtain sip sport dip dport where k: "k = (sip, sport, dip, dport)" by (cases k)
  have "flow_of k stream \<in> set (flow_segment (k, flow_pieces k frames))" using assms by (simp add: flow_segment_def flow_of_def k)
  with m show ?thesis unfolding reassemble_flows_def by force
qed

section \<open>The report\<close>

definition sniff_one :: "int \<Rightarrow> segment \<times> observation \<Rightarrow> sniff_state \<Rightarrow> sniff_state" where
  "sniff_one now x st = emit_obs now (fst x) [snd x] st"

interpretation sniffed: capped_report "sniff_one now" obs_key "sniff_finding now" sn_seen sn_out sn_capped
  "\<lambda>st. sn_emitted st = length (sn_out st)" MAX_SNIFF_FINDINGS for now
  by unfold_locales (auto simp: sniff_one_def Let_def)

definition all_obs :: "(byte list \<Rightarrow> string option) \<Rightarrow> byte list list \<Rightarrow> (segment \<times> observation) list" where
  "all_obs sig_oid frames = concat (map (\<lambda>seg. map (Pair seg) (analyze_stream sig_oid (payload seg))) (reassemble_flows frames))"

lemma emit_obs_all:
  "\<not> sn_capped st \<Longrightarrow> emit_obs now seg obs st = run_until sn_capped (sniff_one now) (map (Pair seg) obs) st"
  by (induction obs arbitrary: st) (auto simp: Let_def sniff_one_def)

lemma emit_flows_all:
  "\<not> sn_capped st \<Longrightarrow> emit_flows now sig_oid segs st =
     run_until sn_capped (sniff_one now) (concat (map (\<lambda>seg. map (Pair seg) (analyze_stream sig_oid (payload seg))) segs)) st"
  by (induction segs arbitrary: st) (auto simp: Let_def emit_obs_all run_until_append)

lemma crypto_kept: "sn_crypto st \<Longrightarrow> sn_crypto (run_until sn_capped (sniff_one now) xs st)"
  by (induction xs arbitrary: st) (auto simp: sniff_one_def Let_def)

text \<open>
  The sensor reports each distinct observation once, in order of appearance: the first 500 as findings, one note
  when there are more, and one when there is none at all.
\<close>

theorem process_frames_reference:
  "process_frames now sig_oid frames cfg =
     (let obs = distinct_by obs_key [] (all_obs sig_oid frames) in
      map (sniff_finding now) (take 500 obs) @ (if length obs > 500 then [sniff_note now (capped_message cfg)] else []) @
      (if obs = [] then [sniff_note now (quiet_message cfg)] else []))"
proof -
  let ?st = "\<lparr>sn_seen = [], sn_out = [], sn_emitted = 0, sn_crypto = False, sn_capped = False\<rparr>"
  let ?obs = "all_obs sig_oid frames"
  let ?r = "run_until sn_capped (sniff_one now) ?obs ?st"
  have f: "emit_flows now sig_oid (reassemble_flows frames) ?st = ?r" by (simp add: emit_flows_all all_obs_def)
  have c: "sn_crypto ?r \<longleftrightarrow> distinct_by obs_key [] ?obs \<noteq> []"
  proof (cases ?obs)
    case (Cons x xs)
    have "sn_crypto (sniff_one now x ?st)" by (simp add: sniff_one_def Let_def)
    then have "sn_crypto (run_until sn_capped (sniff_one now) (x # xs) ?st)" using crypto_kept by (simp add: Let_def)
    with Cons show ?thesis by simp
  qed simp
  show ?thesis
    using sniffed.reports_all [of ?st now ?obs] by (simp add: process_frames_def f c Let_def MAX_SNIFF_FINDINGS_def)
qed

section \<open>From the wire to the report\<close>

lemma slice_ahead: "slice (Suc i) (Suc j) (x # xs) = slice i j xs"
  by (simp add: slice_def)

text \<open>The parser of hellos ignores the version of the record.\<close>

lemma parse_record_version: "parse_tls_handshake (t # [v1, v2] @ xs) = parse_tls_handshake (t # [w1, w2] @ xs)"
proof -
  have u: "u16_at (t # v1 # v2 # xs) 3 = u16_at (t # w1 # w2 # xs) 3"
    by (simp add: u16_at_def slice_ahead numeral_3_eq_3 eval_nat_numeral)
  have s: "slice 5 (5 + n) (t # v1 # v2 # xs) = slice 5 (5 + n) (t # w1 # w2 # xs)" for n
    by (simp add: slice_ahead eval_nat_numeral)
  show ?thesis by (simp only: parse_tls_handshake_def tls_handshake_body_def append_Cons append_Nil u s length_Cons nth_Cons_0)
qed

lemma parse_wrapped:
  assumes "length body < 65532"
  shows "parse_tls_handshake (wrap_record (enc_message (t, body))) = parse_tls_handshake (handshake_record t body)"
proof -
  let ?m = "t # enc24 (length body) @ body"
  have l: "length ?m \<le> 0xFFFF" using assms enc24_facts(1) by simp
  have "wrap_record (enc_message (t, body)) = 0x16 # [0x03, 0x03] @ enc16 (length ?m) @ ?m"
    using l by (simp add: wrap_record_def enc_message_def enc16_def)
  moreover have "handshake_record t body = 0x16 # [0x03, 0x01] @ enc16 (length ?m) @ ?m" by (simp add: handshake_record_def Let_def)
  ultimately show ?thesis using parse_record_version by metis
qed

lemma message_loop_head:
  assumes "message_ok m"
  shows "message_loop (enc_message m @ post) 0 = (fst m, enc_message m) # message_loop (enc_message m @ post) (length (enc_message m))"
proof -
  let ?n = "length (snd m)"
  let ?d = "enc_message m @ post"
  have d: "?d = [fst m] @ enc24 ?n @ (snd m @ post)" by (simp add: enc_message_def)
  have n: "be_nat (slice 1 4 ?d) = ?n"
    unfolding d by (rule be_nat_mid) (use assms enc24_facts in \<open>simp_all add: message_ok_def\<close>)
  have l: "length (enc_message m) = 4 + ?n" using enc24_facts(1) by (simp add: enc_message_def)
  have "slice 0 (4 + ?n) ?d = enc_message m" using l by (simp add: slice_def)
  then show ?thesis using n l by (subst message_loop.simps) (simp add: enc_message_def Let_def)
qed

lemma TLS_GROUPS_names: "distinct (map (fst \<circ> snd) TLS_GROUPS)"
  by (simp add: TLS_GROUPS_def)

lemma group_name_class:
  assumes "map_of TLS_GROUPS c = Some (n, q)" "map_of TLS_GROUPS c' = Some (n, q')"
  shows "q = q'"
proof -
  have "inj_on (fst \<circ> snd) (set TLS_GROUPS)" using TLS_GROUPS_names by (simp add: distinct_map)
  from inj_onD [OF this _ map_of_SomeD [OF assms(1)] map_of_SomeD [OF assms(2)]] show ?thesis by simp
qed

lemma message_obs_cases:
  assumes "ob \<in> set (message_obs tm)"
  shows "(\<exists>ch. ob \<in> set (client_hello_obs ch)) \<or> (\<exists>sh. ob \<in> set (server_hello_obs sh))"
proof (cases "parse_tls_handshake (wrap_record (snd tm))")
  case (Some h)
  then show ?thesis
    using assms by (cases h; cases "fst tm = 0x01"; cases "fst tm = 0x02") (auto simp: message_obs_def)
next
  case None
  then show ?thesis using assms by (cases "fst tm = 0x01"; cases "fst tm = 0x02") (auto simp: message_obs_def)
qed

lemma client_obs_class:
  assumes "ob \<in> set (analyze_stream sig_oid stream)" "ob_kind ob = ''client_hello''"
  shows "\<exists>c q. map_of TLS_GROUPS c = Some (ob_alg ob, q) \<and> ob_class ob = group_class q"
proof -
  have cert: "ob \<notin> set (certificate_obs sig_oid stream)"
    using assms(2) by (auto simp: certificate_obs_def Let_def split: list.splits option.splits)
  have srv: "ob \<notin> set (server_hello_obs sh)" for sh
    using assms(2) by (auto simp: server_hello_obs_def server_obs_def Let_def split: option.splits if_splits)
  obtain tm where tm: "ob \<in> set (message_obs tm)" using assms(1) cert by (auto simp: analyze_stream_def)
  then obtain ch where "ob \<in> set (client_hello_obs ch)" using srv message_obs_cases by blast
  then obtain x where x: "ob \<in> set (offered_obs (ch_key_share_groups ch) x)" by (auto simp: client_hello_obs_def)
  then obtain n q where "map_of TLS_GROUPS x = Some (n, q)" by (cases "map_of TLS_GROUPS x") (auto simp: offered_obs_def)
  with x show ?thesis by (intro exI [of _ x] exI [of _ q]) (simp add: offered_obs_def Let_def)
qed


section \<open>Samples\<close>

theorem sequence_wrap_loses_start_witness: "reassemble_stream [(4294967295, [1, 2]), (1, [3])] = [3]"
  using sequence_wrap_loses_start [of "[1, 2]" "[3]" 4294967295] by simp

definition sample_flow :: flow_key where
  "sample_flow = (inet_ntop4 [10, 0, 0, 1], 443, inet_ntop4 [10, 0, 0, 2], 50000)"

lemma sample_segment:
  assumes "n < 4294967296" "data \<noteq> []" "length data < 1000"
  shows "\<exists>fr s. tcp_segment fr = Some s \<and> seg_key s = sample_flow \<and> seq_no s = n \<and> payload s = data"
proof -
  let ?th = "sample_tcp\<lparr>th_seq := n\<rparr>"
  obtain pl where pl: "tcp_bytes ?th data = Some pl" "length pl < 1100"
    using assms by (simp add: tcp_bytes_def sample_tcp_def pack_H_def pack_I_def)
  then obtain pkt where pkt: "ipv4_packet sample_ip pl = Some pkt"
    by (simp add: ipv4_packet_def sample_ip_def pack_H_def)
  let ?s = "\<lparr>proto = ''tcp'', src_ip = inet_ntop4 [10, 0, 0, 1], src_port = 443, dst_ip = inet_ntop4 [10, 0, 0, 2],
    dst_port = 50000, payload = data, seq_no = n\<rparr>"
  have "decode_packet (ethernet_frame (zeros 12) [] [0x08, 0x00] (pkt @ [])) 1 = Some ?s"
    using decode_packet_frame [OF _ _ _ _ _ pl(1) pkt, of "zeros 12" "[]" "[]"]
    by (simp add: ipv4_ok_def tcp_ok_def sample_ip_def sample_tcp_def)
  then have "tcp_segment (ethernet_frame (zeros 12) [] [0x08, 0x00] (pkt @ [])) = Some ?s"
    unfolding tcp_segment_def using assms(2) by simp
  moreover have "seg_key ?s = sample_flow \<and> seq_no ?s = n \<and> payload ?s = data" by (simp add: seg_key_def sample_flow_def)
  ultimately show ?thesis by blast
qed


end
