(* ===== verification/Sse.thy ===== *)
theory Sse
  imports Event_Bus
begin

text \<open>
  \<^verbatim>\<open>daemon/sse.py\<close>: the stream of one scan's events that a client of the daemon reads. The encoder is a
  function; the generator \<^verbatim>\<open>sse_stream\<close> is a step relation beside the steps of the event bus. Its inner
  generator is an asynchronous generator of Python: a wait for the next event that is cancelled by the timeout
  raises inside it, runs its \<^verbatim>\<open>finally\<close> clause and finishes it, and asking a finished generator for an event
  raises \<^verbatim>\<open>StopAsyncIteration\<close>. Text is made of code points below 256.
\<close>

section \<open>Encoding\<close>

definition event_scan :: "event \<Rightarrow> nat" where
  "event_scan ev =
     (case ev of StageStarted sid _ \<Rightarrow> sid | StageCompleted sid _ \<Rightarrow> sid | FindingDiscovered sid _ _ _ _ _ \<Rightarrow> sid
        | ScanCompleted sid \<Rightarrow> sid)"

definition event_for_scan :: "event \<Rightarrow> nat \<Rightarrow> bool" where
  "event_for_scan ev scan_id \<longleftrightarrow> event_scan ev = scan_id"

text \<open>\<^verbatim>\<open>json.dumps\<close> of text: quotes, backslashes and everything outside printable ASCII are escaped.\<close>

definition hex_char :: "nat \<Rightarrow> char" where
  "hex_char d = (if d < 10 then digit_char d else char_of (87 + d))"

definition json_char :: "char \<Rightarrow> string" where
  "json_char c =
     (let n = char_code c in
      if n = 34 then [CHR 0x5C, CHR 0x22]
      else if n = 92 then [CHR 0x5C, CHR 0x5C]
      else if n = 10 then [CHR 0x5C, CHR ''n'']
      else if n = 13 then [CHR 0x5C, CHR ''r'']
      else if n = 9 then [CHR 0x5C, CHR ''t'']
      else if n = 12 then [CHR 0x5C, CHR ''f'']
      else if n = 8 then [CHR 0x5C, CHR ''b'']
      else if n < 32 \<or> 126 < n then [CHR 0x5C, CHR ''u'', CHR ''0'', CHR ''0'', hex_char (n div 16), hex_char (n mod 16)]
      else [c])"

definition json_text :: "string \<Rightarrow> string" where
  "json_text s = CHR 0x22 # concat (map json_char s) @ [CHR 0x22]"

definition json_fields :: "(string \<times> string) list \<Rightarrow> string" where
  "json_fields fs = ''{'' @ join_with '', '' (map (\<lambda>(k, v). json_text k @ '': '' @ v) fs) @ ''}''"

text \<open>\<^verbatim>\<open>json.dumps(asdict(event))\<close>.\<close>

definition event_json :: "event \<Rightarrow> string" where
  "event_json ev =
     json_fields
       (case ev of
          StageStarted sid stage \<Rightarrow> [(''scan_id'', show_nat sid), (''stage'', json_text stage)]
        | StageCompleted sid stage \<Rightarrow> [(''scan_id'', show_nat sid), (''stage'', json_text stage)]
        | FindingDiscovered sid probe title alg cls sev \<Rightarrow>
            [(''scan_id'', show_nat sid), (''probe_id'', json_text probe), (''title'', json_text title), (''algorithm'', json_text alg),
             (''classification'', json_text cls), (''severity'', json_text sev)]
        | ScanCompleted sid \<Rightarrow> [(''scan_id'', show_nat sid)])"

definition event_kind :: "event \<Rightarrow> string" where
  "event_kind ev =
     (case ev of StageStarted _ _ \<Rightarrow> ''stage_started'' | StageCompleted _ _ \<Rightarrow> ''stage_completed''
        | FindingDiscovered _ _ _ _ _ _ \<Rightarrow> ''finding'' | ScanCompleted _ \<Rightarrow> ''scan_completed'')"

definition event_to_sse :: "event \<Rightarrow> string" where
  "event_to_sse ev = ''event: '' @ event_kind ev @ [CHR 0x0A] @ ''data: '' @ event_json ev @ [CHR 0x0A, CHR 0x0A]"

definition KEEPALIVE :: string where
  "KEEPALIVE = '': keepalive'' @ [CHR 0x0A, CHR 0x0A]"

section \<open>The stream\<close>

datatype agen = Not_Started | Suspended nat | Finished nat

text \<open>What the stream has yielded, and whether its own loop is over.\<close>

record sse =
  st_gen :: agen
  st_out :: "string list"
  st_over :: bool

definition sse_init :: sse where
  "sse_init = \<lparr>st_gen = Not_Started, st_out = [], st_over = False\<rparr>"

definition sse_start :: "nat \<Rightarrow> bus \<times> sse \<Rightarrow> bus \<times> sse" where
  "sse_start l c = (let (q, b) = subscribe l (fst c) in (b, (snd c)\<lparr>st_gen := Suspended q\<rparr>))"

definition sse_event :: "nat \<Rightarrow> nat \<Rightarrow> bus \<times> sse \<Rightarrow> bus \<times> sse" where
  "sse_event scan_id q c =
     (case queues (fst c) q of
        [] \<Rightarrow> c
      | ev # _ \<Rightarrow>
          (receive q (fst c),
           if event_for_scan ev scan_id then (snd c)\<lparr>st_out := st_out (snd c) @ [event_to_sse ev]\<rparr> else snd c))"

definition sse_timeout :: "nat \<Rightarrow> bus \<times> sse \<Rightarrow> bus \<times> sse" where
  "sse_timeout q c = (unsubscribe q (fst c), (snd c)\<lparr>st_gen := Finished q, st_out := st_out (snd c) @ [KEEPALIVE]\<rparr>)"

definition sse_stop :: "bus \<times> sse \<Rightarrow> bus \<times> sse" where
  "sse_stop c = (fst c, (snd c)\<lparr>st_over := True\<rparr>)"

text \<open>The client goes away: the \<^verbatim>\<open>finally\<close> clause closes the inner generator.\<close>

definition sse_close :: "bus \<times> sse \<Rightarrow> bus \<times> sse" where
  "sse_close c =
     (case st_gen (snd c) of
        Suspended q \<Rightarrow> (unsubscribe q (fst c), (snd c)\<lparr>st_gen := Finished q, st_over := True\<rparr>)
      | _ \<Rightarrow> (fst c, (snd c)\<lparr>st_over := True\<rparr>))"

text \<open>The steps of everything else leave the generator's queue to its owner.\<close>

definition leaves_queue :: "sse \<Rightarrow> bus \<Rightarrow> bus \<Rightarrow> bool" where
  "leaves_queue s b b' \<longleftrightarrow>
     (case st_gen s of
        Not_Started \<Rightarrow> True
      | Suspended q \<Rightarrow> got b' q = got b q \<and> (q \<in> fst ` set (subscribers b) \<longrightarrow> q \<in> fst ` set (subscribers b'))
      | Finished q \<Rightarrow> got b' q = got b q)"

inductive sse_step :: "nat \<Rightarrow> nat \<Rightarrow> nat \<Rightarrow> bus \<times> sse \<Rightarrow> bus \<times> sse \<Rightarrow> bool" for pub l scan_id :: nat where
  ss_other: "bus_step pub b b' \<Longrightarrow> leaves_queue s b b' \<Longrightarrow> sse_step pub l scan_id (b, s) (b', s)"
| ss_start: "st_gen s = Not_Started \<Longrightarrow> \<not> st_over s \<Longrightarrow> l \<notin> closed b \<Longrightarrow> sse_step pub l scan_id (b, s) (sse_start l (b, s))"
| ss_event: "st_gen s = Suspended q \<Longrightarrow> \<not> st_over s \<Longrightarrow> sse_step pub l scan_id (b, s) (sse_event scan_id q (b, s))"
| ss_timeout: "st_gen s = Suspended q \<Longrightarrow> \<not> st_over s \<Longrightarrow> queues b q = [] \<Longrightarrow> sse_step pub l scan_id (b, s) (sse_timeout q (b, s))"
| ss_stop: "st_gen s = Finished q \<Longrightarrow> \<not> st_over s \<Longrightarrow> sse_step pub l scan_id (b, s) (sse_stop (b, s))"
| ss_close: "\<not> st_over s \<Longrightarrow> sse_step pub l scan_id (b, s) (sse_close (b, s))"

inductive sse_reachable :: "nat \<Rightarrow> nat \<Rightarrow> nat \<Rightarrow> bus \<times> sse \<Rightarrow> bool" for pub l scan_id :: nat where
  sr_init: "bus_reachable pub b \<Longrightarrow> sse_reachable pub l scan_id (b, sse_init)"
| sr_step: "sse_reachable pub l scan_id c \<Longrightarrow> sse_step pub l scan_id c c' \<Longrightarrow> sse_reachable pub l scan_id c'"

lemmas sse_ops = sse_start_def sse_event_def sse_timeout_def sse_stop_def sse_close_def

section \<open>The bus below the stream\<close>

lemma sse_step_bus: "sse_step pub l scan_id c c' \<Longrightarrow> fst c' = fst c \<or> bus_step pub (fst c) (fst c')"
  by (induction rule: sse_step.induct)
     (auto simp: sse_ops bs_unsubscribe bs_receive split: list.splits agen.splits prod.splits dest: bs_subscribe)

lemma sse_reachable_bus: "sse_reachable pub l scan_id c \<Longrightarrow> bus_reachable pub (fst c)"
proof (induction rule: sse_reachable.induct)
  case (sr_step c c')
  then show ?case using sse_step_bus [OF sr_step(2)] bus_reachable.intros(2) by metis
qed simp

section \<open>What the stream yields\<close>

definition scan_frames :: "nat \<Rightarrow> event list \<Rightarrow> string list" where
  "scan_frames scan_id evs = map event_to_sse (filter (\<lambda>ev. event_for_scan ev scan_id) evs)"

definition sse_ok :: "nat \<Rightarrow> bus \<times> sse \<Rightarrow> bool" where
  "sse_ok scan_id c \<longleftrightarrow>
     (case st_gen (snd c) of
        Not_Started \<Rightarrow> st_out (snd c) = []
      | Suspended q \<Rightarrow> q < next_q (fst c) \<and> st_out (snd c) = scan_frames scan_id (got (fst c) q)
      | Finished q \<Rightarrow>
          q < next_q (fst c) \<and> q \<notin> fst ` set (subscribers (fst c)) \<and>
          st_out (snd c) \<in> {scan_frames scan_id (got (fst c) q), scan_frames scan_id (got (fst c) q) @ [KEEPALIVE]})"

lemma bus_step_next: "bus_step pub b b' \<Longrightarrow> next_q b \<le> next_q b'"
  by (induction rule: bus_step.induct)
     (auto simp: bus_ops Let_def split: list.splits prod.splits)

lemma bus_step_subscribers: "bus_step pub b b' \<Longrightarrow> q < next_q b \<Longrightarrow> q \<notin> fst ` set (subscribers b) \<Longrightarrow> q \<notin> fst ` set (subscribers b')"
  by (induction rule: bus_step.induct)
     (auto simp: bus_ops Let_def split: list.splits prod.splits)

lemma sse_ok_step:
  assumes "sse_step pub l scan_id c c'" "wiring_ok pub (fst c)" "sse_ok scan_id c"
  shows "sse_ok scan_id c'"
  using assms
proof (induction rule: sse_step.induct)
  case (ss_other b b' s)
  then show ?case
    using bus_step_next [OF ss_other(1)] bus_step_subscribers [OF ss_other(1)]
    by (cases "st_gen s") (auto simp: sse_ok_def leaves_queue_def)
next
  case (ss_start s b)
  then have "got b (next_q b) = []" by (auto simp: wiring_ok_def)
  with ss_start show ?case by (simp add: sse_ok_def sse_start_def subscribe_def Let_def scan_frames_def)
next
  case (ss_event s q b)
  then show ?case
    by (cases "queues b q") (auto simp: sse_ok_def sse_event_def receive_def scan_frames_def)
next
  case (ss_timeout s q b)
  then show ?case by (auto simp: sse_ok_def sse_timeout_def unsubscribe_def)
next
  case (ss_stop s q b)
  then show ?case by (simp add: sse_ok_def sse_stop_def)
next
  case (ss_close s b)
  then show ?case by (cases "st_gen s") (auto simp: sse_ok_def sse_close_def unsubscribe_def)
qed

lemma sse_invariant: "sse_reachable pub l scan_id c \<Longrightarrow> sse_ok scan_id c"
proof (induction rule: sse_reachable.induct)
  case (sr_step c c')
  have "wiring_ok pub (fst c)" using bus_invariant sse_reachable_bus [OF sr_step(1)] by blast
  with sr_step show ?case using sse_ok_step by blast
qed (simp add: sse_ok_def sse_init_def)

section \<open>The client\<close>

text \<open>
  What a browser that follows a scan sees: the frames are cut where the encoder ends them, whatever the findings'
  titles contain, and show exactly the events of the scan that the bus delivered. And what it no longer sees: the
  keepalive is the last thing an idle stream yields.
\<close>

section \<open>Framing\<close>

text \<open>The client's side of the protocol: lines, fields, comments; a blank line dispatches.\<close>

fun sse_lines :: "string list \<Rightarrow> string \<Rightarrow> string \<Rightarrow> (string \<times> string) list" where
  "sse_lines [] kind dat = []"
| "sse_lines (ln # ls) kind dat =
     (if ln = [] then (if dat = [] then sse_lines ls [] [] else (kind, dat) # sse_lines ls [] [])
      else if startswith ln '':'' then sse_lines ls kind dat
      else if startswith ln ''event: '' then sse_lines ls (drop 7 ln) dat
      else if startswith ln ''data: '' then sse_lines ls kind (if dat = [] then drop 6 ln else dat @ CHR 0x0A # drop 6 ln)
      else sse_lines ls kind dat)"

definition sse_client :: "string \<Rightarrow> (string \<times> string) list" where
  "sse_client text = sse_lines (split_on (CHR 0x0A) text) [] []"

definition shown :: "event \<Rightarrow> string \<times> string" where
  "shown ev = (event_kind ev, event_json ev)"

lemma hex_char_code: "d < 16 \<Longrightarrow> char_code (hex_char d) \<in> {48..102}"
  by (auto simp: hex_char_def digit_char_code char_code_char_of)

lemma newline_code: "c = CHR 0x0A \<longleftrightarrow> char_code c = 10"
  using char_code_inject [of c "CHR 0x0A"] by (simp add: char_code_def)

lemma json_char_line: "CHR 0x0A \<notin> set (json_char c)"
proof -
  have h: "hex_char d \<noteq> CHR 0x0A" if "d < 16" for d
    using hex_char_code [OF that] by (auto simp: newline_code)
  have "char_code c div 16 < 16" "char_code c mod 16 < 16" using char_code_less [of c] by simp_all
  then show ?thesis using h h [THEN not_sym] newline_code [of c] by (auto simp: json_char_def Let_def)
qed

lemma json_text_line: "CHR 0x0A \<notin> set (json_text s)"
  using json_char_line by (auto simp: json_text_def)

lemma show_nat_line: "CHR 0x0A \<notin> set (show_nat n)"
  using show_nat_digits [of n] by (auto simp: list_all_iff is_digit_def char_code_def)

lemma set_join_with: "set (join_with sep xs) \<subseteq> set sep \<union> (\<Union>x\<in>set xs. set x)"
  by (induction sep xs rule: join_with.induct) auto

lemma json_fields_line:
  assumes "\<forall>kv\<in>set fs. CHR 0x0A \<notin> set (snd kv)"
  shows "CHR 0x0A \<notin> set (json_fields fs)"
proof -
  have "CHR 0x0A \<notin> set (join_with '', '' (map (\<lambda>(k, v). json_text k @ '': '' @ v) fs))"
    using set_join_with [of "'', ''" "map (\<lambda>(k, v). json_text k @ '': '' @ v) fs"] assms json_text_line
    by (fastforce split: prod.splits)
  then show ?thesis by (simp add: json_fields_def)
qed

lemma event_json_line: "CHR 0x0A \<notin> set (event_json ev)"
  unfolding event_json_def by (rule json_fields_line) (cases ev, auto simp: show_nat_line json_text_line)

lemma event_kind_line: "CHR 0x0A \<notin> set (event_kind ev)" "event_kind ev \<noteq> []"
  by (simp_all add: event_kind_def split: event.split)

lemma event_json_not_Nil: "event_json ev \<noteq> []"
  by (simp add: event_json_def json_fields_def)

lemma split_event: "split_on (CHR 0x0A) (event_to_sse ev @ rest) =
    (''event: '' @ event_kind ev) # (''data: '' @ event_json ev) # [] # split_on (CHR 0x0A) rest"
proof -
  have t: "event_to_sse ev @ rest =
      (''event: '' @ event_kind ev) @ CHR 0x0A # ((''data: '' @ event_json ev) @ CHR 0x0A # ([] @ CHR 0x0A # rest))"
    by (simp add: event_to_sse_def)
  have n: "CHR 0x0A \<notin> set (''event: '' @ event_kind ev)" "CHR 0x0A \<notin> set (''data: '' @ event_json ev)" "CHR 0x0A \<notin> set ([] :: string)"
    using event_json_line event_kind_line by simp_all
  show ?thesis unfolding t split_on_sep [OF n(1)] split_on_sep [OF n(2)] split_on_sep [OF n(3)] ..
qed

lemma client_event: "sse_client (event_to_sse ev @ rest) = shown ev # sse_client rest"
  using event_json_not_Nil [of ev] by (simp add: sse_client_def split_event shown_def startswith_def)

lemma client_keepalive: "sse_client (KEEPALIVE @ rest) = sse_client rest"
proof -
  have t: "KEEPALIVE @ rest = '': keepalive'' @ CHR 0x0A # ([] @ CHR 0x0A # rest)" by (simp add: KEEPALIVE_def)
  have "split_on (CHR 0x0A) (KEEPALIVE @ rest) = '': keepalive'' # [] # split_on (CHR 0x0A) rest"
    unfolding t by (subst split_on_sep, simp, subst split_on_sep, simp_all)
  then show ?thesis by (simp add: sse_client_def startswith_def)
qed

lemma client_frames: "sse_client (concat (map event_to_sse evs) @ rest) = map shown evs @ sse_client rest"
  by (induction evs) (simp_all add: client_event)

lemma client_end [simp]: "sse_client [] = []"
  by (simp add: sse_client_def)

section \<open>The stream and the bus\<close>


lemma keepalive_not_event: "KEEPALIVE \<notin> set (scan_frames scan_id evs)"
  by (auto simp: scan_frames_def KEEPALIVE_def event_to_sse_def)

lemma finished_step:
  assumes "sse_step pub l scan_id c c'" "st_gen (snd c) = Finished q"
  shows "st_gen (snd c') = Finished q \<and> st_out (snd c') = st_out (snd c)"
  using assms by (induction rule: sse_step.induct) (auto simp: sse_stop_def sse_close_def)

lemma finished_steps:
  assumes "(sse_step pub l scan_id)\<^sup>*\<^sup>* c c'" "st_gen (snd c) = Finished q"
  shows "st_gen (snd c') = Finished q \<and> st_out (snd c') = st_out (snd c)"
  using assms by (induction rule: rtranclp_induct) (auto dest: finished_step)

lemma sse_reachable_steps: "(sse_step pub l scan_id)\<^sup>*\<^sup>* c c' \<Longrightarrow> sse_reachable pub l scan_id c \<Longrightarrow> sse_reachable pub l scan_id c'"
  by (induction rule: rtranclp_induct) (auto intro: sr_step)

text \<open>
  A stream does not survive its first idle interval. The wait that times out is cancelled inside the generator that
  reads the bus, which ends it: after the keepalive the stream is no subscriber any more, and whatever happens later
  it yields nothing, although the keepalive is there to hold the connection open for the events to come.
\<close>

theorem keepalive_ends_stream:
  assumes "sse_reachable pub l scan_id c" "KEEPALIVE \<in> set (st_out (snd c))" "(sse_step pub l scan_id)\<^sup>*\<^sup>* c c'"
  shows "st_out (snd c') = st_out (snd c) \<and> last (st_out (snd c')) = KEEPALIVE \<and>
    (\<exists>q. st_gen (snd c') = Finished q \<and> (\<forall>pub' ev. sent (publish pub' ev (fst c')) q = sent (fst c') q))"
proof -
  have ok: "sse_ok scan_id c" using sse_invariant [OF assms(1)] .
  then obtain q where q: "st_gen (snd c) = Finished q" "st_out (snd c) = scan_frames scan_id (got (fst c) q) @ [KEEPALIVE]"
    using assms(2) keepalive_not_event by (cases "st_gen (snd c)") (auto simp: sse_ok_def)
  have f: "st_gen (snd c') = Finished q" "st_out (snd c') = st_out (snd c)" using finished_steps [OF assms(3) q(1)] by simp_all
  have "sse_ok scan_id c'" using sse_invariant [OF sse_reachable_steps [OF assms(3, 1)]] .
  then have n: "q \<notin> fst ` set (subscribers (fst c'))" using f(1) by (simp add: sse_ok_def)
  have d: "sent (foldl (\<lambda>b sub. deliver pub' ev sub b) b subs) q = sent b q" if "q \<notin> fst ` set subs" for pub' ev b subs
    using that
  proof (induction subs arbitrary: b)
    case (Cons sub subs)
    then have "sent (deliver pub' ev sub b) q = sent b q" by (cases sub) (simp add: deliver_def Let_def)
    with Cons show ?case by simp
  qed simp
  have "\<forall>pub' ev. sent (publish pub' ev (fst c')) q = sent (fst c') q" using d [OF n] by (simp add: publish_def)
  with f q(2) show ?thesis by simp
qed

section \<open>Samples\<close>

text \<open>A client that has read one event of its scan, and then waits in vain.\<close>

definition sample_event :: event where
  "sample_event = StageStarted 7 ''host''"

lemma sample_stream:
  "\<exists>b. sse_reachable 0 1 7 (b, \<lparr>st_gen = Suspended 0, st_out = [event_to_sse sample_event], st_over = False\<rparr>) \<and>
     got b 0 = [sample_event] \<and> queues b 0 = []"
proof -
  let ?s = "\<lparr>st_gen = Suspended 0, st_out = [], st_over = False\<rparr>"
  define b1 where "b1 = snd (subscribe 1 init_bus)"
  define b2 where "b2 = publish_begin sample_event b1"
  define b3 where "b3 = (deliver 0 sample_event (0, 1) b2)\<lparr>flight := Some (sample_event, [])\<rparr>"
  define b4 where "b4 = b3\<lparr>flight := None\<rparr>"
  define b5 where "b5 = run_callback 1 b4"
  note bs = b5_def b4_def b3_def b2_def b1_def bus_ops init_bus_def Let_def
  have "sse_reachable 0 1 7 (init_bus, sse_init)" by (rule sr_init) (rule bus_reachable.intros(1))
  moreover have "sse_step 0 1 7 (init_bus, sse_init) (b1, ?s)"
    using ss_start [of sse_init 1 init_bus 0 7] by (simp add: sse_init_def sse_start_def bs)
  ultimately have r1: "sse_reachable 0 1 7 (b1, ?s)" by (rule sr_step)
  have other: "sse_reachable 0 1 7 (b', ?s)" if "sse_reachable 0 1 7 (b, ?s)" "bus_step 0 b b'" "leaves_queue ?s b b'" for b b'
    using sr_step [OF that(1) ss_other [OF that(2, 3)]] .
  have "bus_step 0 b1 b2" unfolding b2_def by (rule bs_begin) (simp add: bs)
  then have r2: "sse_reachable 0 1 7 (b2, ?s)" by (rule other [OF r1]) (simp add: bs leaves_queue_def)
  have "bus_step 0 b2 b3" unfolding b3_def by (rule bs_deliver) (simp add: bs)
  then have r3: "sse_reachable 0 1 7 (b3, ?s)" by (rule other [OF r2]) (simp add: bs leaves_queue_def)
  have "bus_step 0 b3 b4" unfolding b4_def by (rule bs_end [where ev = sample_event]) (simp add: b3_def)
  then have r4: "sse_reachable 0 1 7 (b4, ?s)" by (rule other [OF r3]) (simp add: bs leaves_queue_def)
  have "bus_step 0 b4 b5" unfolding b5_def by (rule bs_callback)
  then have r5: "sse_reachable 0 1 7 (b5, ?s)" by (rule other [OF r4]) (simp add: bs leaves_queue_def)
  have q: "queues b5 0 = [sample_event]" "got b5 0 = []" by (simp_all add: bs QUEUE_MAX_def)
  have "sse_step 0 1 7 (b5, ?s) (sse_event 7 0 (b5, ?s))" by (rule ss_event) simp_all
  with r5 have "sse_reachable 0 1 7 (sse_event 7 0 (b5, ?s))" by (rule sr_step)
  then show ?thesis
    using q by (auto simp: sse_event_def event_for_scan_def event_scan_def sample_event_def receive_def intro!: exI [of _ "receive 0 b5"])
qed


theorem keepalive_ends_stream_witness:
  "\<exists>c. sse_reachable 0 1 7 c \<and> st_out (snd c) = [event_to_sse sample_event, KEEPALIVE] \<and>
     (\<forall>c'. (sse_step 0 1 7)\<^sup>*\<^sup>* c c' \<longrightarrow> st_out (snd c') = [event_to_sse sample_event, KEEPALIVE])"
proof -
  let ?s = "\<lparr>st_gen = Suspended 0, st_out = [event_to_sse sample_event], st_over = False\<rparr>"
  obtain b where b: "sse_reachable 0 1 7 (b, ?s)" "queues b 0 = []" using sample_stream by blast
  have "sse_step 0 1 7 (b, ?s) (sse_timeout 0 (b, ?s))" by (rule ss_timeout) (simp_all add: b(2))
  with b(1) have r: "sse_reachable 0 1 7 (sse_timeout 0 (b, ?s))" by (rule sr_step)
  have o: "st_out (snd (sse_timeout 0 (b, ?s))) = [event_to_sse sample_event, KEEPALIVE]" by (simp add: sse_timeout_def)
  have "st_out (snd c') = [event_to_sse sample_event, KEEPALIVE]" if "(sse_step 0 1 7)\<^sup>*\<^sup>* (sse_timeout 0 (b, ?s)) c'" for c'
    using keepalive_ends_stream [OF r _ that] o by simp
  with r o show ?thesis by blast
qed

end
