(* ===== verification/Ike_Probe.thy ===== *)
theory Ike_Probe
  imports Ike Tls_Client
begin

text \<open>
  \<^verbatim>\<open>probes/net_ike_transforms.py\<close>: one IKE_SA_INIT exchange and what the responder's choice shows. The reply
  is an argument, \<^const>\<open>None\<close> for a timeout, a socket error or any other fault of the exchange; an exception of
  the parsers is caught and leaves no transforms.
\<close>

definition IKE_PROBE :: string where "IKE_PROBE = ''net.ike.transforms''"

definition TYPE_LABEL :: "(nat \<times> string) list" where
  "TYPE_LABEL = [(1, ''ENCR''), (2, ''PRF''), (3, ''INTEG''), (4, ''DH'')]"

definition type_label :: "nat \<Rightarrow> string" where
  "type_label t = (case map_of TYPE_LABEL t of Some l \<Rightarrow> l | None \<Rightarrow> ''transform'')"

definition reply_transforms :: "byte list option \<Rightarrow> ike_transform list" where
  "reply_transforms reply =
     (case reply of
        None \<Rightarrow> []
      | Some r \<Rightarrow>
          (case extract_sa_payload r of
             Some (Some sa) \<Rightarrow> (case parse_sa_payload sa of Some ts \<Rightarrow> ts | None \<Rightarrow> [])
           | _ \<Rightarrow> []))"

definition ike_finding :: "int \<Rightarrow> string \<times> int \<Rightarrow> ike_transform \<Rightarrow> finding" where
  "ike_finding now tgt tf =
     mk_finding IKE_PROBE (it_name tf) (it_classification tf) (sev_for (it_classification tf))
       (''IKEv2 '' @ endpoint tgt @ '' negotiated '' @ type_label (it_type tf) @ '' '' @ it_name tf)
       [(''host'', JStr (fst tgt)), (''port'', JInt (snd tgt)), (''transform_type'', JInt (int (it_type tf))),
        (''transform_id'', JInt (int (it_id tf))), (''key_length'', opt_int (map_option int (it_key_len tf))), (''name'', JStr (it_name tf))]
       [] now"

definition ike_no_response :: "int \<Rightarrow> string \<times> int \<Rightarrow> byte list option \<Rightarrow> finding" where
  "ike_no_response now tgt reply =
     mk_finding IKE_PROBE ''IKEv2/IKE_SA_INIT'' CLS_INFO SEV_INFO
       (''IKEv2 '' @ endpoint tgt @ '' '' @ DASH @ '' no SA transforms parsed (offered '' @ show_nat (length offered_transforms) @ '' transforms)'')
       [(''host'', JStr (fst tgt)), (''port'', JInt (snd tgt)),
        (''response_bytes'', JInt (case reply of None \<Rightarrow> 0 | Some r \<Rightarrow> int (length r))),
        (''offered'', JList (map (\<lambda>t. JObj [(''name'', JStr (it_name t)), (''classification'', JStr (classification_value (it_classification t)))])
           offered_transforms)),
        (''note'', JStr (''No parseable SAr1 returned (IKE responders are commonly filtered or reject '' @
           ''an incomplete initiator). Reporting the offered proposal so the client-side '' @ ''posture is still visible.''))]
       [] now"

definition run_ike :: "int \<Rightarrow> string option \<Rightarrow> string option \<Rightarrow> byte list option \<Rightarrow> finding list" where
  "run_ike now target server_target reply =
     (case resolve_port 500 target server_target of
        None \<Rightarrow> []
      | Some tgt \<Rightarrow>
          (let ts = reply_transforms reply in
           if ts = [] then [ike_no_response now tgt reply] else map (ike_finding now tgt) ts))"

section \<open>What the responder chose is what is reported\<close>

text \<open>Payloads in front of the SA payload, each naming the type of its successor.\<close>

fun payload_chain :: "(nat \<times> byte list) list \<Rightarrow> byte list option" where
  "payload_chain [] = Some []"
| "payload_chain ((t, body) # ps) = do {
     p \<leftarrow> generic_payload (case ps of [] \<Rightarrow> PAYLOAD_SA | (t', _) # _ \<Rightarrow> t') body;
     rest \<leftarrow> payload_chain ps;
     Some (p @ rest) }"

definition first_type :: "(nat \<times> byte list) list \<Rightarrow> nat" where
  "first_type ps = (case ps of [] \<Rightarrow> PAYLOAD_SA | (t, _) # _ \<Rightarrow> t)"

lemma walk_payloads_chain:
  assumes "payload_chain ps = Some chain" "\<forall>(t, b)\<in>set ps. t \<noteq> PAYLOAD_SA \<and> t \<noteq> PAYLOAD_NONE \<and> t < 256"
    "build_sa_payload specs np = Some sa" "length pre = off"
  shows "walk_payloads (pre @ chain @ sa @ post) (first_type ps) off = Some (Some sa)"
  using assms
proof (induction ps arbitrary: pre chain off)
  case Nil
  then show ?case using walk_payloads_sa [OF Nil(3, 4)] by (simp add: first_type_def)
next
  case (Cons tb ps)
  obtain t body where tb: "tb = (t, body)" by (cases tb)
  let ?next = "case ps of [] \<Rightarrow> PAYLOAD_SA | (t', _) # _ \<Rightarrow> t'"
  obtain p rest where p: "generic_payload ?next body = Some p" and rest: "payload_chain ps = Some rest" "chain = p @ rest"
    using Cons.prems(1) by (auto simp: tb bind_eq_Some_conv)
  obtain h where h: "pack_BxH ?next (4 + length body) = Some h" "p = h @ body"
    using p by (auto simp: generic_payload_def bind_eq_Some_conv)
  note d = pack_BxH_SomeD [OF h(1)]
  let ?msg = "pre @ chain @ sa @ post"
  have s: "slice off (off + 4) ?msg = h" using Cons.prems(4) d rest(2) h(2) by (simp add: slice_def)
  have lp: "length p = 4 + length body" using h(2) d by simp
  have n: "unat (h ! 0) = first_type ps" "be_nat (slice 2 4 h) = 4 + length body"
    using d by (simp_all add: first_type_def)
  have t: "t \<noteq> PAYLOAD_SA" "t \<noteq> PAYLOAD_NONE" using Cons.prems(2) by (simp_all add: tb)
  have "walk_payloads ?msg t off = walk_payloads ?msg (first_type ps) (off + length p)"
    using s d n t lp Cons.prems(4) rest(2) by (subst walk_payloads.simps) (simp add: Let_def)
  also have "\<dots> = Some (Some sa)"
    using Cons.IH [OF rest(1) _ Cons.prems(3), of "pre @ p" "off + length p"] Cons.prems(2, 4) rest(2) by simp
  finally show ?case by (simp add: first_type_def tb)
qed

text \<open>
  What the responder chose is what is reported: whatever payloads come before its SA payload and whatever follows, a
  reply whose SA payload encodes a list of transforms yields exactly one finding for each of them, in order, with its
  name, class and key length; and a reply without an SA payload, or none, yields the one note with the offer.
\<close>

theorem ike_choice_reported:
  assumes "resolve_port 500 target server_target = Some tgt"
    "length header = 28" "unat (header ! 16) = first_type ps" "payload_chain ps = Some chain"
    "\<forall>(t, b)\<in>set ps. t \<noteq> PAYLOAD_SA \<and> t \<noteq> PAYLOAD_NONE \<and> t < 256"
    "build_sa_payload specs np = Some sa" "specs \<noteq> []"
  shows "run_ike now target server_target (Some (header @ chain @ sa @ post)) =
      map (\<lambda>(t, i, k). ike_finding now tgt (describe_transform t i k)) specs \<and>
    run_ike now target server_target None = [ike_no_response now tgt None]"
proof -
  have "(header @ chain @ sa @ post) ! 16 = header ! 16" using assms(2) by (simp add: nth_append)
  then have "extract_sa_payload (header @ chain @ sa @ post) = Some (Some sa)"
    using walk_payloads_chain [OF assms(4, 5, 6, 2), of post] assms(2, 3) by (simp add: extract_sa_payload_def)
  then have "reply_transforms (Some (header @ chain @ sa @ post)) = map (\<lambda>(t, i, k). describe_transform t i k) specs"
    using parse_build_sa_payload [OF assms(6)] by (simp add: reply_transforms_def)
  then show ?thesis
    using assms(1, 7) by (auto simp: run_ike_def reply_transforms_def [of None] split: prod.splits)
qed

theorem ike_choice_reported_witness:
  "\<exists>reply. run_ike 0 (Some ''vpn.example'') None (Some reply) =
     [ike_finding 0 (''vpn.example'', 500) (describe_transform 1 20 (Some 256)), ike_finding 0 (''vpn.example'', 500) (describe_transform 4 36 None)]"
proof -
  have t: "resolve_port 500 (Some ''vpn.example'') None = Some (''vpn.example'', 500)"
    by (simp add: resolve_port_def partition_char_def)
  obtain sa where sa: "build_sa_payload [(1, 20, Some 256), (4, 36, None)] 0 = Some sa"
    by (simp add: build_sa_payload_def proposal_def transform_bytes_def generic_payload_def pack_BxH_def pack_B_def pack_H_def
        ATTR_KEY_LENGTH_def PROTO_IKE_def zeros_def)
  obtain chain where chain: "payload_chain [(41, [1, 2])] = Some chain"
    by (simp add: generic_payload_def pack_BxH_def pack_B_def pack_H_def PAYLOAD_SA_def)
  have h: "length (zeros 16 @ [41] @ zeros 11 :: byte list) = 28" "unat ((zeros 16 @ [41] @ zeros 11 :: byte list) ! 16) = first_type [(41, [1, 2])]"
    by (simp_all add: first_type_def nth_append)
  have "run_ike 0 (Some ''vpn.example'') None (Some ((zeros 16 @ [41] @ zeros 11) @ chain @ sa @ [])) =
      map (\<lambda>(t, i, k). ike_finding 0 (''vpn.example'', 500) (describe_transform t i k)) [(1, 20, Some 256), (4, 36, None)]"
    using ike_choice_reported [OF t h chain _ sa, of 0 "[]"] by (simp add: PAYLOAD_SA_def PAYLOAD_NONE_def)
  then show ?thesis by auto
qed

end
