(* ===== verification/Krb_Probe.thy ===== *)
theory Krb_Probe
  imports Krb Tls_Client
begin

text \<open>
  \<^verbatim>\<open>probes/net_kerberos_etypes.py\<close>: one AS-REQ to a KDC over TCP and the encryption types its reply names. The
  peer is the list of the bytes it sends before it closes, fails or falls silent (\<^const>\<open>None\<close> when the connection
  is refused); a realm or principal that is not ASCII raises, so the run returns an option.
\<close>

section \<open>The encryption types\<close>

definition KRB_PROBE :: string where "KRB_PROBE = ''net.kerberos.etypes''"

definition ETYPE_NAMES :: "(int \<times> string) list" where
  "ETYPE_NAMES = [(1, ''des-cbc-crc''), (2, ''des-cbc-md4''), (3, ''des-cbc-md5''), (16, ''des3-cbc-sha1''),
     (17, ''aes128-cts-hmac-sha1-96''), (18, ''aes256-cts-hmac-sha1-96''), (19, ''aes128-cts-hmac-sha256-128''),
     (20, ''aes256-cts-hmac-sha384-192''), (23, ''rc4-hmac''), (24, ''rc4-hmac-exp'')]"

definition OFFERED_ETYPES :: "int list" where
  "OFFERED_ETYPES = [18, 20, 17, 19, 16, 23, 3, 2, 1, 24]"

definition KRB_BODY_MAX :: nat where "KRB_BODY_MAX = 1048576"

definition classify_etype :: "int \<Rightarrow> classification" where
  "classify_etype e =
     (if e \<in> {1, 2, 3, 23, 24} then SANGAT_TINGGI
      else if e = 16 then TINGGI
      else if e \<in> {17, 19} then SEDERHANA
      else if e \<in> {18, 20} then RENDAH
      else CLS_INFO)"

definition etype_name :: "int \<Rightarrow> string" where
  "etype_name e = (case map_of ETYPE_NAMES e of Some n \<Rightarrow> n | None \<Rightarrow> ''etype-'' @ show_int e)"

section \<open>The exchange\<close>

definition krb_request :: "string \<Rightarrow> string \<Rightarrow> byte list option" where
  "krb_request realm princ =
     (if ascii_only realm \<and> ascii_only princ then do {
        msg \<leftarrow> build_as_req realm princ OFFERED_ETYPES;
        hdr \<leftarrow> pack_I (length msg);
        Some (hdr @ msg) }
      else None)"

text \<open>The two exact reads: the length, then as many bytes, never more than a mebibyte.\<close>

definition krb_reply :: "byte list option \<Rightarrow> kdc_reply option" where
  "krb_reply peer =
     (case peer of
        None \<Rightarrow> None
      | Some bs \<Rightarrow>
          if length bs < 4 then None
          else
            (let n = min (be_nat (take 4 bs)) KRB_BODY_MAX; rest = drop 4 bs in
             if length rest < n then None else Some (parse_kdc_reply (take n rest))))"

definition krb_finding :: "int \<Rightarrow> string \<times> int \<Rightarrow> string \<Rightarrow> int option \<Rightarrow> int \<Rightarrow> finding" where
  "krb_finding now tgt realm mt e =
     mk_finding KRB_PROBE (''kerberos-etype/'' @ etype_name e) (classify_etype e) (sev_for (classify_etype e))
       (endpoint tgt @ '' Kerberos KDC supports etype '' @ show_int e @ '' ('' @ etype_name e @ '')'')
       [(''host'', JStr (fst tgt)), (''port'', JInt (snd tgt)), (''realm'', JStr realm), (''etype'', JInt e),
        (''etype_name'', JStr (etype_name e)), (''msg_type'', opt_int mt), (''source'', JStr ''as-rep/etype-info2'')]
       [] now"

definition krb_note :: "int \<Rightarrow> string \<times> int \<Rightarrow> string \<Rightarrow> kdc_reply \<Rightarrow> finding" where
  "krb_note now tgt realm r =
     mk_finding KRB_PROBE ''Kerberos'' CLS_INFO SEV_INFO
       (endpoint tgt @ '' Kerberos KDC reachable (error_code='' @
          (case error_code r of None \<Rightarrow> ''None'' | Some i \<Rightarrow> show_int i) @ ''); etypes offered but not echoed'')
       [(''host'', JStr (fst tgt)), (''port'', JInt (snd tgt)), (''realm'', JStr realm), (''msg_type'', opt_int (msg_type r)),
        (''error_code'', opt_int (error_code r)),
        (''etypes_offered'', JList (map (\<lambda>e. JObj [(''etype'', JInt e), (''name'', JStr (etype_name e)),
           (''classification'', JStr (classification_value (classify_etype e)))]) OFFERED_ETYPES)),
        (''note'', JStr (''KDC parsed the AS-REQ but did not return an ETYPE-INFO2 '' @
           ''(unknown principal or no pre-auth data); the offered list '' @ ''shows which weak etypes this client would accept.''))]
       [] now"

definition krb_emit :: "int \<Rightarrow> string \<times> int \<Rightarrow> string \<Rightarrow> kdc_reply option \<Rightarrow> finding list" where
  "krb_emit now tgt realm reply =
     (case reply of
        None \<Rightarrow> []
      | Some r \<Rightarrow>
          if etypes r \<noteq> [] then map (krb_finding now tgt realm (msg_type r)) (etypes r) else [krb_note now tgt realm r])"

definition krb_realm :: "string option \<Rightarrow> string \<Rightarrow> string" where
  "krb_realm realm host = (case realm of Some r \<Rightarrow> if r \<noteq> [] then r else py_upper host | None \<Rightarrow> py_upper host)"

definition run_krb ::
  "int \<Rightarrow> string option \<Rightarrow> string option \<Rightarrow> string option \<Rightarrow> string \<Rightarrow> byte list option \<Rightarrow> finding list option" where
  "run_krb now target server_target realm princ peer =
     (case resolve_port 88 target server_target of
        None \<Rightarrow> Some []
      | Some tgt \<Rightarrow>
          (let rl = krb_realm realm (fst tgt) in
           case krb_request rl princ of
             None \<Rightarrow> None
           | Some _ \<Rightarrow> Some (krb_emit now tgt rl (krb_reply peer))))"

section \<open>What a KDC sends\<close>

text \<open>
  A preauthentication error as RFC 4120 encodes it: error code in [6], METHOD-DATA in the octet string of [12], each
  entry of which is an ETYPE-INFO2 list or some other preauthentication datum.
\<close>

datatype pa_entry = Etype_Info2 "(nat \<times> (nat \<times> byte list) list) list" | Other_Pa nat "byte list"

definition TAG_OCTETS :: byte where "TAG_OCTETS = 0x04"

abbreviation der_nat :: "nat \<Rightarrow> byte list" where
  "der_nat n \<equiv> tlv TAG_INTEGER (int_body n)"

abbreviation fields_der :: "(nat \<times> byte list) list \<Rightarrow> byte list" where
  "fields_der items \<equiv> concat (map (\<lambda>(n, v). ctx n v) items)"

definition info_fields :: "nat \<times> (nat \<times> byte list) list \<Rightarrow> (nat \<times> byte list) list" where
  "info_fields ie = (0, der_nat (fst ie)) # snd ie"

definition info_der :: "(nat \<times> (nat \<times> byte list) list) list \<Rightarrow> byte list" where
  "info_der es = tlv TAG_SEQUENCE (concat (map (\<lambda>ie. tlv TAG_SEQUENCE (fields_der (info_fields ie))) es))"

fun pa_fields :: "pa_entry \<Rightarrow> (nat \<times> byte list) list" where
  "pa_fields (Etype_Info2 es) = [(1, der_nat 19), (2, tlv TAG_OCTETS (info_der es))]"
| "pa_fields (Other_Pa t v) = [(1, der_nat t), (2, tlv TAG_OCTETS v)]"

definition methods_der :: "pa_entry list \<Rightarrow> byte list" where
  "methods_der pas = tlv TAG_SEQUENCE (concat (map (\<lambda>p. tlv TAG_SEQUENCE (fields_der (pa_fields p))) pas))"

definition krb_error :: "(nat \<times> byte list) list \<Rightarrow> nat \<Rightarrow> pa_entry list \<Rightarrow> byte list" where
  "krb_error items ec pas =
     tlv TAG_APP_KRB_ERROR (tlv TAG_SEQUENCE (fields_der (items @ [(6, der_nat ec), (12, tlv TAG_OCTETS (methods_der pas))])))"

fun pa_ok :: "pa_entry \<Rightarrow> bool" where
  "pa_ok (Etype_Info2 es) \<longleftrightarrow> (\<forall>(e, items)\<in>set es. e < 2 ^ 31 \<and> (\<forall>(n, v)\<in>set items. 0 < n \<and> n < 32))"
| "pa_ok (Other_Pa t v) \<longleftrightarrow> t < 2 ^ 31 \<and> t \<noteq> 11 \<and> t \<noteq> 19"

fun pa_listed :: "pa_entry \<Rightarrow> int list" where
  "pa_listed (Etype_Info2 es) = map (int \<circ> fst) es"
| "pa_listed (Other_Pa t v) = []"

section \<open>Reading it back\<close>

abbreviation fields_of :: "(nat \<times> byte list) list \<Rightarrow> (nat \<times> byte list) list" where
  "fields_of items \<equiv> foldl (\<lambda>m (n, v). AList.update n v m) [] items"

lemma small_appendD: "small (a @ b) \<Longrightarrow> small a \<and> small b"
  by (simp add: small_def)

lemma small_nat: "(n :: nat) < 2 ^ 31 \<Longrightarrow> n < 256 ^ 1000"
  by (rule less_le_trans [where y = "2 ^ 31"]) simp_all

lemma decode_nat: "n < 2 ^ 31 \<Longrightarrow> decode_int (der_nat n) = Some (int n)"
  using decode_int_body [OF small_nat] .

lemma foldl_update_notin:
  "\<forall>(n, v)\<in>set items. n \<noteq> k \<Longrightarrow> map_of (foldl (\<lambda>m (n, v). AList.update n v m) m items) k = map_of m k"
  by (induction items arbitrary: m) (auto simp: update_conv')

lemma info_loop_der:
  assumes "small (concat (map (\<lambda>ie. tlv TAG_SEQUENCE (fields_der (info_fields ie))) es))" "pa_ok (Etype_Info2 es)"
  shows "info_loop (pre @ concat (map (\<lambda>ie. tlv TAG_SEQUENCE (fields_der (info_fields ie))) es)) (length pre) out =
    Some (out @ map (int \<circ> fst) es)"
  using assms
proof (induction es arbitrary: pre out)
  case (Cons ie es)
  let ?t = "tlv TAG_SEQUENCE (fields_der (info_fields ie))"
  let ?rest = "concat (map (\<lambda>ie. tlv TAG_SEQUENCE (fields_der (info_fields ie))) es)"
  obtain e items where ie: "ie = (e, items)" by (cases ie)
  have e: "e < 2 ^ 31" and it: "\<forall>(n, v)\<in>set items. 0 < n \<and> n < 32" using Cons.prems(2) by (simp_all add: ie)
  have sm: "small ?t" "small ?rest" using Cons.prems(1) by (auto dest: small_appendD)
  have sf: "small (fields_der (info_fields ie))" by (rule small_tlvD [OF sm(1)])
  have cf: "context_fields (fields_der (info_fields ie)) = Some (fields_of (info_fields ie))"
    by (rule read_seq_ctx [OF _ sf]) (use it in \<open>auto simp: info_fields_def ie\<close>)
  have m: "map_of (fields_of (info_fields ie)) 0 = Some (der_nat e)"
    using foldl_update_notin [of items 0 "[(0, der_nat e)]"] it by (auto simp: info_fields_def ie)
  have r: "read_tlv (pre @ ?t @ ?rest) (length pre) = Some (TAG_SEQUENCE, fields_der (info_fields ie), length (pre @ ?t))"
    using read_tlv_tlv [OF sf] by simp
  have lt: "length pre < length (pre @ ?t @ ?rest)" by (simp add: tlv_def)
  have "info_loop (pre @ ?t @ ?rest) (length pre) out = info_loop ((pre @ ?t) @ ?rest) (length (pre @ ?t)) (out @ [int e])"
    by (subst info_loop.simps) (simp only: r cf m lt decode_nat [OF e] if_True option.case prod.case append_assoc)
  also have "\<dots> = Some ((out @ [int e]) @ map (int \<circ> fst) es)"
    by (rule Cons.IH [OF sm(2)]) (use Cons.prems(2) in simp)
  finally show ?case by (simp add: ie)
qed (simp add: info_loop.simps)

lemma etypes_from_info_der:
  "small (info_der es) \<Longrightarrow> pa_ok (Etype_Info2 es) \<Longrightarrow> etypes_from_info (info_der es) = Some (map (int \<circ> fst) es)"
  using info_loop_der [of es "[]" "[]"] read_tlv_head [of "concat (map (\<lambda>ie. tlv TAG_SEQUENCE (fields_der (info_fields ie))) es)"]
  by (simp add: etypes_from_info_def info_der_def small_tlvD del: pa_ok.simps)

lemma padata_etypes_der:
  assumes "small (fields_der (pa_fields p))" "pa_ok p"
  shows "padata_etypes (fields_of (pa_fields p)) = Some (pa_listed p)"
proof (cases p)
  case (Etype_Info2 es)
  have "small (ctx 2 (tlv TAG_OCTETS (info_der es)))" using assms(1) by (auto simp: Etype_Info2 dest: small_appendD)
  then have s: "small (info_der es)" using small_ctxD small_tlvD by blast
  show ?thesis
    using etypes_from_info_der [OF s] assms(2) read_tlv_head [OF s, of TAG_OCTETS] decode_nat [of 19]
    by (simp add: Etype_Info2 padata_etypes_def PA_ETYPE_INFO_def PA_ETYPE_INFO2_def)
next
  case (Other_Pa t v)
  then show ?thesis
    using assms(2) decode_nat [of t] by (simp add: padata_etypes_def PA_ETYPE_INFO_def PA_ETYPE_INFO2_def)
qed

lemma method_loop_der:
  assumes "small (concat (map (\<lambda>p. tlv TAG_SEQUENCE (fields_der (pa_fields p))) pas))" "\<forall>p\<in>set pas. pa_ok p"
  shows "method_loop (pre @ concat (map (\<lambda>p. tlv TAG_SEQUENCE (fields_der (pa_fields p))) pas)) (length pre) out =
    Some (out @ concat (map pa_listed pas))"
  using assms
proof (induction pas arbitrary: pre out)
  case (Cons p pas)
  let ?t = "tlv TAG_SEQUENCE (fields_der (pa_fields p))"
  let ?rest = "concat (map (\<lambda>p. tlv TAG_SEQUENCE (fields_der (pa_fields p))) pas)"
  have sm: "small ?t" "small ?rest" using Cons.prems(1) by (auto dest: small_appendD)
  have sf: "small (fields_der (pa_fields p))" by (rule small_tlvD [OF sm(1)])
  have cf: "context_fields (fields_der (pa_fields p)) = Some (fields_of (pa_fields p))"
    by (rule read_seq_ctx [OF _ sf]) (cases p; simp)
  have pe: "padata_etypes (fields_of (pa_fields p)) = Some (pa_listed p)"
    by (rule padata_etypes_der [OF sf]) (use Cons.prems(2) in simp)
  have r: "read_tlv (pre @ ?t @ ?rest) (length pre) = Some (TAG_SEQUENCE, fields_der (pa_fields p), length (pre @ ?t))"
    using read_tlv_tlv [OF sf] by simp
  have lt: "length pre < length (pre @ ?t @ ?rest)" by (simp add: tlv_def)
  have "method_loop (pre @ ?t @ ?rest) (length pre) out = method_loop ((pre @ ?t) @ ?rest) (length (pre @ ?t)) (out @ pa_listed p)"
    by (subst method_loop.simps) (simp only: r cf pe lt if_True option.case prod.case append_assoc)
  also have "\<dots> = Some ((out @ pa_listed p) @ concat (map pa_listed pas))"
    by (rule Cons.IH [OF sm(2)]) (use Cons.prems(2) in simp)
  finally show ?case by simp
qed (simp add: method_loop.simps)

lemma etypes_from_methods_der:
  "small (methods_der pas) \<Longrightarrow> \<forall>p\<in>set pas. pa_ok p \<Longrightarrow> etypes_from_methoddata (methods_der pas) = Some (concat (map pa_listed pas))"
  using method_loop_der [of pas "[]" "[]"] read_tlv_head [of "concat (map (\<lambda>p. tlv TAG_SEQUENCE (fields_der (pa_fields p))) pas)"]
  by (simp add: etypes_from_methoddata_def methods_der_def small_tlvD)

lemma parse_krb_error_der:
  assumes "small (krb_error items ec pas)" "\<forall>(n, v)\<in>set items. n < 32 \<and> n \<noteq> 6 \<and> n \<noteq> 12" "ec < 2 ^ 31" "\<forall>p\<in>set pas. pa_ok p"
  shows "parse_kdc_reply (krb_error items ec pas) =
    \<lparr>msg_type = Some 30, etypes = dedupe (concat (map pa_listed pas)), error_code = Some (int ec)\<rparr>"
proof -
  let ?F = "items @ [(6, der_nat ec), (12, tlv TAG_OCTETS (methods_der pas))]"
  let ?S = "tlv TAG_SEQUENCE (fields_der ?F)"
  have s1: "small ?S" using assms(1) unfolding krb_error_def by (rule small_tlvD)
  then have s2: "small (fields_der ?F)" by (rule small_tlvD)
  have "small (ctx 12 (tlv TAG_OCTETS (methods_der pas)))" by (rule small_mono [OF _ s2]) simp
  then have s3: "small (methods_der pas)" using small_ctxD small_tlvD by blast
  have r: "read_tlv (krb_error items ec pas) 0 = Some (TAG_APP_KRB_ERROR, ?S, length (krb_error items ec pas))"
    "read_tlv ?S 0 = Some (TAG_SEQUENCE, fields_der ?F, length ?S)"
    "read_tlv (tlv TAG_OCTETS (methods_der pas)) 0 = Some (TAG_OCTETS, methods_der pas, length (tlv TAG_OCTETS (methods_der pas)))"
    using read_tlv_head [OF s1] read_tlv_head [OF s2] read_tlv_head [OF s3] by (simp_all add: krb_error_def)
  have cf: "context_fields (fields_der ?F) = Some (fields_of ?F)"
    by (rule read_seq_ctx [OF _ s2]) (use assms(2) in auto)
  have m: "map_of (fields_of ?F) 6 = Some (der_nat ec)" "map_of (fields_of ?F) 12 = Some (tlv TAG_OCTETS (methods_der pas))"
    by (simp_all add: update_conv')
  have "parse_krb_error (fields_of ?F) =
      \<lparr>msg_type = Some 30, etypes = dedupe (concat (map pa_listed pas)), error_code = Some (int ec)\<rparr>"
    unfolding parse_krb_error_def Let_def m option.case option.map decode_nat [OF assms(3)] r(3) prod.case
      etypes_from_methods_der [OF s3 assms(4)]
    by (simp add: no_reply_def MSG_TYPE_KRB_ERROR_def)
  then show ?thesis
    by (simp only: parse_kdc_reply_def r(1, 2) cf option.case prod.case simp_thms if_True)
qed

lemma krb_reply_framed:
  "length msg \<le> KRB_BODY_MAX \<Longrightarrow> krb_reply (Some (be_digits 4 (length msg) @ msg @ post)) = Some (parse_kdc_reply msg)"
  using be_nat_be_digits [of "length msg" 4] by (simp add: krb_reply_def KRB_BODY_MAX_def)

lemma small_framed: "length msg \<le> KRB_BODY_MAX \<Longrightarrow> small msg"
  unfolding small_def by (rule le_less_trans [where y = KRB_BODY_MAX]) (simp_all add: KRB_BODY_MAX_def)



end
