(* ===== verification/Tds_Probe.thy ===== *)
theory Tds_Probe
  imports Tls_Sweep_Laws Tls_Client
begin

text \<open>
  \<^verbatim>\<open>probes/net_db_mssql_tls.py\<close>: the PRELOGIN exchange with SQL Server and the TLS hello tunnelled through it.
  What the peer sends is one stream of bytes and how it ends; a run is the findings emitted and whether an exception
  left the probe after them.
\<close>

section \<open>Packets\<close>

definition TDS_PROBE :: string where "TDS_PROBE = ''net.db.mssql_tls''"

definition ENCRYPT_LABEL :: "(nat \<times> string) list" where
  "ENCRYPT_LABEL = [(0, ''ENCRYPT_OFF (optional)''), (1, ''ENCRYPT_ON''), (2, ''ENCRYPT_NOT_SUP (plaintext only)''), (3, ''ENCRYPT_REQ (required)'')]"

definition wrap_tds :: "byte list \<Rightarrow> byte list option" where
  "wrap_tds body = do { l \<leftarrow> pack_H (length body + 8); Some ([0x12, 0x01] @ l @ [0, 0, 1, 0] @ body) }"

definition unwrap_tds :: "byte list \<Rightarrow> byte list option" where
  "unwrap_tds pkt =
     (if length pkt < 8 then None
      else (let n = be_nat (slice 2 4 pkt) in if n < 8 \<or> n > length pkt then None else Some (slice 8 n pkt)))"

definition build_prelogin :: "byte list option" where
  "build_prelogin =
     (let version_data = [0x10, 0x00, 0x0B, 0xE2, 0x00, 0x00]; encryption_data = [0x01];
          off_version = 5 + 5 + 1; off_encryption = off_version + length version_data in do {
        vo \<leftarrow> pack_H off_version; vl \<leftarrow> pack_H (length version_data);
        eo \<leftarrow> pack_H off_encryption; el \<leftarrow> pack_H (length encryption_data);
        wrap_tds ((0x00 # vo @ vl) @ (0x01 # eo @ el) @ [0xFF] @ version_data @ encryption_data) })"

text \<open>The option table up to the terminator; \<^const>\<open>None\<close> when an entry is cut short.\<close>

function option_table :: "byte list \<Rightarrow> nat \<Rightarrow> (byte \<times> nat \<times> nat) list \<Rightarrow> (byte \<times> nat \<times> nat) list option" where
  "option_table body i opts =
     (if i < length body then
        (if body ! i = 0xFF then Some opts
         else if i + 5 > length body then None
         else option_table body (i + 5)
           (AList.update (body ! i) (be_nat (slice (i + 1) (i + 3) body), be_nat (slice (i + 3) (i + 5) body)) opts))
      else Some opts)"
  by pat_completeness auto
termination
  by (relation "measure (\<lambda>(body, i, opts). length body - i)") auto

declare option_table.simps [simp del]

definition parse_prelogin_response :: "byte list \<Rightarrow> nat option" where
  "parse_prelogin_response body =
     (case option_table body 0 [] of
        None \<Rightarrow> None
      | Some opts \<Rightarrow>
          (case map_of opts 0x01 of
             None \<Rightarrow> None
           | Some (off, len) \<Rightarrow> if len < 1 \<or> off \<ge> length body then None else Some (unat (body ! off))))"

section \<open>The connection\<close>

text \<open>A stream ends by silence or a close, or by a reset, which no reader of this probe catches.\<close>

datatype stream_end = Ended | Reset

type_synonym tds_stream = "byte list \<times> stream_end"

text \<open>\<^verbatim>\<open>readexactly\<close> with its time limit.\<close>

datatype 'a read_outcome = Read 'a tds_stream | Short | Raised

definition read_exactly :: "nat \<Rightarrow> tds_stream \<Rightarrow> byte list read_outcome" where
  "read_exactly n st =
     (if n \<le> length (fst st) then Read (take n (fst st)) (drop n (fst st), snd st)
      else (case snd st of Ended \<Rightarrow> Short | Reset \<Rightarrow> Raised))"

text \<open>One packet: its body, \<^const>\<open>None\<close> when there is none to read.\<close>

definition read_tds :: "tds_stream \<Rightarrow> (byte list option \<times> tds_stream) option" where
  "read_tds st =
     (case read_exactly 8 st of
        Raised \<Rightarrow> None
      | Short \<Rightarrow> Some (None, ([], snd st))
      | Read hdr st' \<Rightarrow>
          (let n = be_nat (slice 2 4 hdr) in
           if n < 8 then Some (None, st')
           else
             (case read_exactly (n - 8) st' of
                Raised \<Rightarrow> None
              | Short \<Rightarrow> Some (None, ([], snd st'))
              | Read body st'' \<Rightarrow> Some (Some body, st''))))"

definition is_ip :: "string \<Rightarrow> bool" where
  "is_ip host = (let parts = split_on (CHR ''.'') host in length parts = 4 \<and> list_all all_digits parts)"

definition tds_target :: "string option \<Rightarrow> int \<Rightarrow> string option \<Rightarrow> string \<times> int" where
  "tds_target host port server_target =
     (case (if host \<noteq> None \<and> host \<noteq> Some [] then host else None) of
        Some h \<Rightarrow> (h, port)
      | None \<Rightarrow>
          (case server_target of
             None \<Rightarrow> (''127.0.0.1'', port)
           | Some t \<Rightarrow> (let h = fst (partition_char (CHR '':'') t) in if h \<noteq> [] then (h, port) else (''127.0.0.1'', port))))"

section \<open>Findings\<close>

definition stance_label :: "nat \<Rightarrow> string" where
  "stance_label e = (case map_of ENCRYPT_LABEL e of Some l \<Rightarrow> l | None \<Rightarrow> ''unknown('' @ show_nat e @ '')'')"

definition tds_note :: "int \<Rightarrow> string \<Rightarrow> string \<Rightarrow> finding" where
  "tds_note now ep ttl = mk_finding TDS_PROBE ''N/A'' CLS_INFO SEV_INFO ttl [(''endpoint'', JStr ep)] [] now"

definition tds_plaintext :: "int \<Rightarrow> string \<Rightarrow> nat \<Rightarrow> finding" where
  "tds_plaintext now ep e =
     mk_finding TDS_PROBE ''PLAINTEXT'' SANGAT_TINGGI CRIT (''SQL Server at '' @ ep @ '' does not support TLS (login in cleartext)'')
       [(''endpoint'', JStr ep), (''encryption'', JStr (stance_label e)), (''verified'', JBool True)]
       [(''snippet'', JStr (''Enable Force Encryption in SQL Server '' @ ''Configuration Manager and install a TLS cert.''))] now"

definition tds_optional :: "int \<Rightarrow> string \<Rightarrow> nat \<Rightarrow> finding" where
  "tds_optional now ep e =
     mk_finding TDS_PROBE ''TLS-OPTIONAL'' TINGGI HIGH (''SQL Server at '' @ ep @ '' makes TLS optional (downgradable)'')
       [(''endpoint'', JStr ep), (''encryption'', JStr (stance_label e)), (''verified'', JBool True)]
       [(''snippet'', JStr (''Set Force Encryption = Yes so clients '' @ ''cannot negotiate plaintext.''))] now"

definition tds_unread :: "int \<Rightarrow> string \<Rightarrow> nat \<Rightarrow> finding" where
  "tds_unread now ep e =
     mk_finding TDS_PROBE ''TLS'' CLS_INFO SEV_INFO (''SQL Server at '' @ ep @ '' encrypts ('' @ stance_label e @ ''); selected group unread'')
       [(''endpoint'', JStr ep), (''encryption'', JStr (stance_label e))] [] now"

definition tds_group :: "int \<Rightarrow> string \<Rightarrow> kex_result \<Rightarrow> finding" where
  "tds_group now ep k =
     (if kx_pqc k then
        mk_finding TDS_PROBE (kx_name k) PQC_READY SEV_INFO (''SQL Server at '' @ ep @ '' negotiated PQC-hybrid group '' @ kx_name k)
          [(''endpoint'', JStr ep), (''group'', JStr (kx_name k)), (''verified'', JBool True)] [] now
      else
        mk_finding TDS_PROBE (kx_name k) SEDERHANA MED (''SQL Server at '' @ ep @ '' negotiated classical group '' @ kx_name k)
          [(''endpoint'', JStr ep), (''group'', JStr (kx_name k)), (''verified'', JBool True), (''hndl'', JBool True),
           (''note'', JStr (''TDS key exchange is harvest-now-decrypt-later exposed; '' @ ''move to a hybrid ML-KEM group.''))] [] now)"

section \<open>The run\<close>

text \<open>After the stance: the tunnelled hello and its answer.\<close>

definition tds_hello :: "string \<Rightarrow> byte list option" where
  "tds_hello host = build_client_hello_kex (if is_ip host then None else Some host) FIXED_RANDOM \<bind> wrap_tds"

definition tds_tunnel :: "int \<Rightarrow> string \<times> int \<Rightarrow> nat \<Rightarrow> tds_stream \<Rightarrow> finding list \<times> bool" where
  "tds_tunnel now tgt e st =
     (case tds_hello (fst tgt) of
        None \<Rightarrow> ([], True)
      | Some _ \<Rightarrow>
          (case read_tds st of
             None \<Rightarrow> ([], True)
           | Some (sh, _) \<Rightarrow>
               (case (case sh of Some b \<Rightarrow> if b \<noteq> [] then parse_server_hello_kex b else Some None | None \<Rightarrow> Some None) of
                  None \<Rightarrow> ([], True)
                | Some None \<Rightarrow> ([tds_unread now (endpoint tgt) e], False)
                | Some (Some k) \<Rightarrow> ([tds_group now (endpoint tgt) k], False))))"

definition tds_session :: "int \<Rightarrow> string \<times> int \<Rightarrow> tds_stream \<Rightarrow> finding list \<times> bool" where
  "tds_session now tgt st =
     (case read_tds st of
        None \<Rightarrow> ([], True)
      | Some (resp, st') \<Rightarrow>
          (case (case resp of Some b \<Rightarrow> parse_prelogin_response b | None \<Rightarrow> None) of
             None \<Rightarrow> ([tds_note now (endpoint tgt) (''SQL Server at '' @ endpoint tgt @ '' gave no readable PRELOGIN response'')], False)
           | Some e \<Rightarrow>
               if e = 2 then ([tds_plaintext now (endpoint tgt) e], False)
               else
                 (let (fs, raised) = tds_tunnel now tgt e st' in
                  ((if e = 0 then [tds_optional now (endpoint tgt) e] else []) @ fs, raised))))"

text \<open>The connection attempt: the text of its error, or the stream.\<close>

definition run_tds ::
  "int \<Rightarrow> string option \<Rightarrow> int \<Rightarrow> string option \<Rightarrow> string + tds_stream \<Rightarrow> finding list \<times> bool" where
  "run_tds now host port server_target conn =
     (let tgt = tds_target host port server_target in
      case conn of
        Inl e \<Rightarrow> ([tds_note now (endpoint tgt) (''SQL Server connection failed at '' @ endpoint tgt @ '': '' @ e)], False)
      | Inr st \<Rightarrow> (case build_prelogin of None \<Rightarrow> ([], True) | Some _ \<Rightarrow> tds_session now tgt st))"

section \<open>What a server sends\<close>

text \<open>A PRELOGIN body: the table, its terminator and the data of the options in the same order.\<close>

fun opt_entries :: "nat \<Rightarrow> (byte \<times> byte list) list \<Rightarrow> byte list" where
  "opt_entries off [] = []"
| "opt_entries off ((t, d) # os) = (t # enc16 off @ enc16 (length d)) @ opt_entries (off + length d) os"

definition prelogin_bytes :: "(byte \<times> byte list) list \<Rightarrow> byte list" where
  "prelogin_bytes opts = opt_entries (5 * length opts + 1) opts @ 0xFF # concat (map snd opts)"

fun table_of :: "nat \<Rightarrow> (byte \<times> byte list) list \<Rightarrow> (byte \<times> nat \<times> nat) list \<Rightarrow> (byte \<times> nat \<times> nat) list" where
  "table_of off [] acc = acc"
| "table_of off ((t, d) # os) acc = table_of (off + length d) os (AList.update t (off, length d) acc)"

definition tds_packet :: "byte list \<Rightarrow> byte list" where
  "tds_packet body = [0x04, 0x01] @ enc16 (length body + 8) @ [0, 0, 1, 0] @ body"

lemma length_opt_entries [simp]: "length (opt_entries off opts) = 5 * length opts"
  by (induction off opts rule: opt_entries.induct) auto

lemma option_table_enc:
  assumes "list_all (\<lambda>(t, d). t \<noteq> 0xFF) opts" "off + length (concat (map snd opts)) < 65536"
  shows "option_table (pre @ opt_entries off opts @ 0xFF # post) (length pre) acc = Some (table_of off opts acc)"
  using assms
proof (induction off opts acc arbitrary: pre rule: table_of.induct)
  case (2 off t d os acc)
  let ?e = "t # enc16 off @ enc16 (length d)" and ?rest = "opt_entries (off + length d) os @ 0xFF # post"
  let ?b = "pre @ ?e @ ?rest"
  have o: "be_nat (slice (length pre + 1) (length pre + 3) ?b) = off"
    using be_nat_mid(1) [of "length pre + 1" "pre @ [t]" off "length pre + 3" "enc16 (length d) @ ?rest"] "2.prems"(2) by simp
  have l: "be_nat (slice (length pre + 3) (length pre + 5) ?b) = length d"
    using be_nat_mid(1) [of "length pre + 3" "pre @ t # enc16 off" "length d" "length pre + 5" ?rest] "2.prems"(2) by simp
  have "option_table ?b (length pre) acc = option_table ((pre @ ?e) @ ?rest) (length (pre @ ?e)) (AList.update t (off, length d) acc)"
    using "2.prems"(1) o l by (subst option_table.simps) (simp add: nth_append)
  also have "\<dots> = Some (table_of (off + length d) os (AList.update t (off, length d) acc))"
    using "2.IH" [of "pre @ ?e"] "2.prems" by simp
  finally show ?case by simp
qed (subst option_table.simps, simp add: nth_append)

lemma table_of_other: "list_all (\<lambda>(t, d). t \<noteq> k) opts \<Longrightarrow> map_of (table_of off opts acc) k = map_of acc k"
  by (induction off opts acc rule: table_of.induct) (auto simp: update_conv')

lemma table_of_append:
  "table_of off (xs @ ys) acc = table_of (off + length (concat (map snd xs))) ys (table_of off xs acc)"
  by (induction off xs acc rule: table_of.induct) (simp_all add: add.assoc)

lemma prelogin_stance:
  assumes "opts = xs @ (0x01, e # d) # ys" "list_all (\<lambda>(t, d). t \<noteq> 0x01 \<and> t \<noteq> 0xFF) (xs @ ys)"
    "5 * length opts + 1 + length (concat (map snd opts)) < 65536"
  shows "parse_prelogin_response (prelogin_bytes opts) = Some (unat e)"
proof -
  let ?off = "5 * length opts + 1" and ?m = "length (concat (map snd xs))"
  have ff: "list_all (\<lambda>(t, d). t \<noteq> 0xFF) opts" using assms(1, 2) by (auto simp: list_all_iff)
  have t: "option_table (prelogin_bytes opts) 0 [] = Some (table_of ?off opts [])"
    using option_table_enc [OF ff assms(3), of "[]" "concat (map snd opts)" "[]"] by (simp add: prelogin_bytes_def)
  have o: "list_all (\<lambda>(t, d). t \<noteq> 0x01) ys" using assms(2) by (auto simp: list_all_iff)
  have m: "map_of (table_of ?off opts []) 0x01 = Some (?off + ?m, Suc (length d))"
    unfolding assms(1) by (simp add: table_of_append table_of_other [OF o] update_conv')
  have "prelogin_bytes opts = (opt_entries ?off opts @ 0xFF # concat (map snd xs)) @ e # d @ concat (map snd ys)"
    by (simp add: prelogin_bytes_def assms(1))
  moreover have "length (opt_entries ?off opts @ 0xFF # concat (map snd xs)) = ?off + ?m" by simp
  ultimately have "prelogin_bytes opts ! (?off + ?m) = e" "?off + ?m < length (prelogin_bytes opts)"
    by (metis nth_append_length) (simp add: prelogin_bytes_def assms(1))
  with t m show ?thesis by (simp add: parse_prelogin_response_def)
qed

lemma read_tds_packet:
  "length body + 8 < 65536 \<Longrightarrow> read_tds (tds_packet body @ rest, fin) = Some (Some body, (rest, fin))"
  using be_nat_mid(1) [of 2 "[0x04, 0x01]" "length body + 8" 4 "[0, 0, 1, 0]"]
  by (simp add: read_tds_def read_exactly_def tds_packet_def enc16_def)

section \<open>The posture of a server\<close>

lemma build_prelogin_some: "build_prelogin \<noteq> None"
  by (simp add: build_prelogin_def wrap_tds_def pack_H_def)



end
