(* ===== verification/Udp_Probes.thy ===== *)
theory Udp_Probes
  imports Krb Tls_Client Runner
begin

text \<open>
  The datagram probes: the payloads of \<^verbatim>\<open>probes/_udp_payloads.py\<close>, the port scan \<^verbatim>\<open>net_ports_udp.py\<close>, the
  version probe \<^verbatim>\<open>net_snmp_version.py\<close> and the OT probes \<^verbatim>\<open>ot_bacnet.py\<close> and \<^verbatim>\<open>ot_gtp.py\<close>. What happens to a
  datagram is an argument; the text of an exception is a string.
\<close>

section \<open>Payloads\<close>

record udp_payload =
  up_port :: nat
  up_name :: string
  up_bytes :: "byte list"
  up_expect :: bool

definition ntp_client :: "byte list" where
  "ntp_client = 0x23 # zeros 47"

definition snmp_v2c_get_sysdescr :: "byte list" where
  "snmp_v2c_get_sysdescr =
     [0x30, 0x29, 0x02, 0x01, 0x01, 0x04, 0x06, 0x70, 0x75, 0x62, 0x6C, 0x69, 0x63, 0xA0, 0x1C, 0x02, 0x04,
      0x12, 0x34, 0x56, 0x78, 0x02, 0x01, 0x00, 0x02, 0x01, 0x00, 0x30, 0x10, 0x3E, 0x0E, 0x06, 0x0A, 0x2B,
      0x06, 0x01, 0x02, 0x01, 0x01, 0x01, 0x00, 0x05, 0x00, 0x00]"

definition ike_isakmp_init :: "byte list" where
  "ike_isakmp_init = replicate 8 0x11 @ zeros 8 @ [0x00, 0x10, 0x02, 0x00, 0x00, 0x00, 0x00, 0x00, 0x00, 0x00, 0x00, 0x1C]"

definition dns_root_query :: "byte list" where
  "dns_root_query = [0x12, 0x34, 0x01, 0x00, 0x00, 0x01, 0x00, 0x00, 0x00, 0x00, 0x00, 0x00, 0x00, 0x00, 0x01, 0x00, 0x01]"

definition bacnet_who_is :: "byte list" where
  "bacnet_who_is = [0x81, 0x0B, 0x00, 0x0C] @ [0x01, 0x20] @ [0x10, 0x08]"

definition dnp3_link_status :: "byte list" where
  "dnp3_link_status = [0x05, 0x64, 0x05, 0x09, 0x01, 0x00, 0x00, 0x00, 0x00, 0x00]"

definition gtpv2c_echo :: "byte list" where
  "gtpv2c_echo = [0x48, 0x01, 0x00, 0x04, 0x00, 0x00, 0x00, 0x01]"

definition coap_get_well_known_core :: "byte list" where
  "coap_get_well_known_core = [0x40, 0x01, 0xBE, 0xEF] @ (0xBB # ascii ''.well-known'') @ (0x04 # ascii ''core'')"

definition coaps_dtls_clienthello :: "byte list" where
  "coaps_dtls_clienthello =
     [0x16, 0xFE, 0xFD, 0x00, 0x00, 0x00, 0x00, 0x00, 0x00, 0x00, 0x00, 0x00, 0x3A, 0x01, 0x00, 0x00,
      0x2E, 0x00, 0x00, 0x00, 0x00, 0x00, 0x00, 0x00, 0x00, 0xFE, 0xFD, 0x00, 0x00, 0x00, 0x00, 0x00] @
     zeros 16 @ zeros 13 @ [0x00, 0x02, 0x00, 0x14, 0x01, 0x00]"

definition sip_options :: "byte list" where
  "sip_options = ascii ''OPTIONS sip:probe@127.0.0.1 SIP/2.0'' @ [0x0D, 0x0A, 0x0D, 0x0A]"

definition udp :: "nat \<Rightarrow> string \<Rightarrow> byte list \<Rightarrow> udp_payload" where
  "udp p n b = \<lparr>up_port = p, up_name = n, up_bytes = b, up_expect = True\<rparr>"

definition silent :: "nat \<Rightarrow> string \<Rightarrow> udp_payload" where
  "silent p n = \<lparr>up_port = p, up_name = n, up_bytes = [], up_expect = False\<rparr>"

definition DEFAULT_UDP_PORTS :: "udp_payload list" where
  "DEFAULT_UDP_PORTS =
     [udp 53 ''DNS'' dns_root_query, udp 123 ''NTP'' ntp_client, udp 161 ''SNMP'' snmp_v2c_get_sysdescr,
      udp 500 ''IKEv1/2'' ike_isakmp_init, silent 514 ''syslog'',
      udp 1812 ''RADIUS'' ([0x01, 0x01, 0x00, 0x14] @ zeros 16), silent 1813 ''RADIUS-acct'',
      udp 4500 ''IKE-NAT-T'' (zeros 4 @ ike_isakmp_init), silent 4789 ''VXLAN'', udp 5060 ''SIP'' sip_options,
      udp 5353 ''mDNS'' dns_root_query, udp 5683 ''CoAP'' coap_get_well_known_core, udp 5684 ''CoAPS-DTLS'' coaps_dtls_clienthello,
      silent 6343 ''sFlow'', udp 20000 ''DNP3'' dnp3_link_status, udp 2123 ''GTP-C'' gtpv2c_echo, udp 2152 ''GTP-U'' gtpv2c_echo,
      udp 47808 ''BACnet'' bacnet_who_is]"

definition SNMPV2C_PROBE :: "byte list" where
  "SNMPV2C_PROBE =
     [0x30, 0x26, 0x02, 0x01, 0x01, 0x04, 0x06, 0x70, 0x75, 0x62, 0x6C, 0x69, 0x63, 0xA0, 0x19, 0x02, 0x04, 0x75, 0x69, 0x69,
      0x69, 0x02, 0x01, 0x00, 0x02, 0x01, 0x00, 0x30, 0x20, 0x30, 0x0E, 0x06, 0x0A, 0x2B, 0x06, 0x01, 0x02, 0x01, 0x01, 0x01,
      0x05, 0x00, 0x05, 0x00, 0x05, 0x00]"

section \<open>The port scan\<close>

text \<open>The fate of a datagram: no socket, an answer, an error delivered to the socket, or nothing in time.\<close>

datatype udp_outcome = No_Socket string | Answer "byte list" | Socket_Error string | Silence

definition payload_for :: "nat \<Rightarrow> udp_payload" where
  "payload_for p =
     (case find (\<lambda>u. up_port u = p) DEFAULT_UDP_PORTS of
        Some u \<Rightarrow> u
      | None \<Rightarrow> \<lparr>up_port = p, up_name = ''unknown-'' @ show_nat p, up_bytes = ascii ''PROBE'', up_expect = True\<rparr>)"

definition probe_targeted :: "string \<Rightarrow> nat \<Rightarrow> udp_outcome \<Rightarrow> string \<times> pydict" where
  "probe_targeted timeout p out =
     (let u = payload_for p; port = (''port'', JInt (int p)); name = (''name'', JStr (up_name u)) in
      case out of
        No_Socket e \<Rightarrow> (''filtered'', [port, (''error'', JStr e), name])
      | _ \<Rightarrow>
          if \<not> up_expect u then (''open|filtered'', [port, name, (''no_response_expected'', JBool True)])
          else
            (case out of
               Answer resp \<Rightarrow> (''open'', [port, name, (''response_len'', JInt (int (length resp))), (''response_head_hex'', JStr (hex_text (take 32 resp)))])
             | Socket_Error e \<Rightarrow> (''closed'', [port, name, (''error'', JStr e)])
             | _ \<Rightarrow> (''open|filtered'', [port, name, (''timeout_s'', JFloat timeout)])))"

definition udp_finding :: "int \<Rightarrow> string \<Rightarrow> string \<Rightarrow> nat \<Rightarrow> udp_outcome \<Rightarrow> finding" where
  "udp_finding now host timeout p out =
     (let (state, ev) = probe_targeted timeout p out in
      mk_finding ''net.ports.udp'' ''N/A'' CLS_INFO (if state \<in> {''closed'', ''filtered''} then SEV_INFO else LOW)
        (''UDP '' @ host @ '':'' @ show_nat p @ '' '' @ state)
        ([(''state'', JStr state), (''mode'', JStr ''targeted'')] @ ev) [] now)"

text \<open>The tasks run side by side: the findings appear in the order in which they end.\<close>

definition run_ports_udp :: "int \<Rightarrow> string \<Rightarrow> string \<Rightarrow> nat list option \<Rightarrow> (nat \<Rightarrow> udp_outcome) \<Rightarrow> finding list" where
  "run_ports_udp now host timeout ports net =
     map (\<lambda>p. udp_finding now host timeout p (net p))
       (case ports of Some ps \<Rightarrow> if ps \<noteq> [] then ps else map up_port DEFAULT_UDP_PORTS | None \<Rightarrow> map up_port DEFAULT_UDP_PORTS)"

definition run_snmp :: "int \<Rightarrow> string \<times> int \<Rightarrow> udp_outcome \<Rightarrow> finding list" where
  "run_snmp now tgt out =
     (let failed = (\<lambda>e. [mk_finding ''net.snmp.version'' ''N/A'' CLS_INFO SEV_INFO (''SNMP probe failed at '' @ endpoint tgt @ '': '' @ e) [] [] now]) in
      case out of
        No_Socket e \<Rightarrow> failed e
      | Socket_Error e \<Rightarrow> failed e
      | Silence \<Rightarrow> []
      | Answer data \<Rightarrow>
          if length data < 5 \<or> data ! 0 \<noteq> 0x30 then []
          else [mk_finding ''net.snmp.version'' ''SNMPv2c-community'' SANGAT_TINGGI CRIT
            (''SNMPv2c community-based authentication at '' @ endpoint tgt)
            [(''endpoint'', JStr (endpoint tgt)), (''response_bytes'', JInt (int (length data)))]
            [(''snippet'', JStr ''# Migrate to SNMPv3 with USM (auth+priv)'')] now])"

section \<open>The OT datagram probes\<close>

definition ot_hinted :: "string \<Rightarrow> ot_target list \<Rightarrow> ot_target list" where
  "ot_hinted hint ts = filter (\<lambda>t. proto_hint t = None \<or> proto_hint t = Some hint) ts"

definition ot_applies :: "string \<Rightarrow> scan_context \<Rightarrow> bool" where
  "ot_applies hint cx \<longleftrightarrow> ot_hinted hint (cx_ot_targets cx) \<noteq> [] \<or> cx_ot_targets cx = []"

definition ot_endpoint :: "ot_target \<Rightarrow> string" where
  "ot_endpoint t = ot_host t @ '':'' @ show_nat (ot_port t)"

text \<open>An error delivered to the socket is ignored by these protocols: the wait goes on to its time limit.\<close>

definition ot_reply :: "udp_outcome \<Rightarrow> byte list" where
  "ot_reply out = (case out of Answer resp \<Rightarrow> resp | _ \<Rightarrow> [])"

definition bacnet_one :: "int \<Rightarrow> ot_target \<Rightarrow> udp_outcome \<Rightarrow> finding" where
  "bacnet_one now t out =
     (case out of
        No_Socket e \<Rightarrow> mk_finding ''ot.bacnet.bvlc'' ''N/A'' CLS_INFO SEV_INFO (''BACnet unreachable at '' @ ot_endpoint t)
          [(''reachable'', JBool False), (''error'', JStr e)] [] now
      | _ \<Rightarrow>
          (let resp = ot_reply out in
           mk_finding ''ot.bacnet.bvlc'' ''plain-BACnet'' SANGAT_TINGGI HIGH (''plain BACnet/IP at '' @ ot_endpoint t)
             [(''endpoint'', JStr (''udp://'' @ ot_endpoint t)), (''transport'', JStr ''UDP/47808''),
              (''plain_bacnet'', JBool (length resp \<ge> 4 \<and> resp ! 0 = 0x81)), (''no_crypto'', JBool True),
              (''bacnet_sc_detected'', JBool False), (''response_len'', JInt (int (length resp)))] [] now))"

definition run_bacnet :: "int \<Rightarrow> scan_context \<Rightarrow> (ot_target \<Rightarrow> udp_outcome) \<Rightarrow> finding list" where
  "run_bacnet now cx net =
     (let ts = ot_hinted ''bacnet'' (cx_ot_targets cx) in
      map (\<lambda>t. bacnet_one now t (net t))
        (if ts = [] then [\<lparr>ot_host = ''127.0.0.1'', ot_port = 47808, proto_hint = Some ''bacnet''\<rparr>] else ts))"

definition gtp_one :: "int \<Rightarrow> ot_target \<Rightarrow> udp_outcome \<Rightarrow> finding" where
  "gtp_one now t out =
     (case out of
        No_Socket e \<Rightarrow> mk_finding ''ot.gtp.cu'' ''N/A'' CLS_INFO SEV_INFO (''GTP unreachable at '' @ ot_endpoint t)
          [(''reachable'', JBool False), (''error'', JStr e)] [] now
      | _ \<Rightarrow>
          (let resp = ot_reply out in
           mk_finding ''ot.gtp.cu'' ''plain-GTP'' SANGAT_TINGGI HIGH (''plain GTP at '' @ ot_endpoint t)
             [(''endpoint'', JStr (''udp://'' @ ot_endpoint t)), (''transport'', JStr ''UDP''),
              (''plain_gtp'', JBool (length resp \<ge> 1 \<and> unat (resp ! 0) div 32 \<in> {1, 2})), (''no_crypto'', JBool True),
              (''ipsec_tunnel_detected_externally'', JBool False), (''response_len'', JInt (int (length resp))),
              (''note'', JStr ''Confirm IPsec wrap separately via net.ike.v1v2'')] [] now))"

definition run_gtp :: "int \<Rightarrow> scan_context \<Rightarrow> (ot_target \<Rightarrow> udp_outcome) \<Rightarrow> finding list" where
  "run_gtp now cx net =
     (let ts = ot_hinted ''gtp'' (cx_ot_targets cx) in
      map (\<lambda>t. gtp_one now t (net t))
        (if ts = [] then [\<lparr>ot_host = ''127.0.0.1'', ot_port = 2123, proto_hint = Some ''gtp''\<rparr>,
           \<lparr>ot_host = ''127.0.0.1'', ot_port = 2152, proto_hint = Some ''gtp''\<rparr>] else ts))"

section \<open>Silence is reported as an exposure\<close>

text \<open>
  A host that never answers is reported as an unencrypted OT service: a datagram socket can always be opened, and what
  the probes report does not depend on the answer. So a scan without any OT target reports plain BACnet and GTP of the
  highest class at the local host, from the silence of ports nothing listens on.
\<close>

theorem silent_host_reported_as_ot_service:
  assumes "cx_ot_targets cx = []" "\<And>t. net t = Silence"
  shows "ot_applies ''bacnet'' cx \<and> ot_applies ''gtp'' cx \<and>
    map (\<lambda>f. (title f, classification f, severity f, dict_get (evidence f) ''response_len'')) (run_bacnet now cx net @ run_gtp now cx net) =
      map (\<lambda>s. (s, SANGAT_TINGGI, HIGH, Some (JInt 0)))
        [''plain BACnet/IP at 127.0.0.1:47808'', ''plain GTP at 127.0.0.1:2123'', ''plain GTP at 127.0.0.1:2152'']"
  using assms by (simp add: ot_applies_def run_bacnet_def run_gtp_def ot_hinted_def bacnet_one_def gtp_one_def ot_reply_def ot_endpoint_def
      show_nat.simps digit_char_eval)

theorem silent_host_reported_as_ot_service_witness:
  "\<exists>cx. map classification (run_bacnet 0 cx (\<lambda>t. Silence) @ run_gtp 0 cx (\<lambda>t. Silence)) = [SANGAT_TINGGI, SANGAT_TINGGI, SANGAT_TINGGI]"
proof -
  let ?cx = "\<lparr>cx_scan_id = 1, cx_mode = ''user'', cx_capabilities = {}, cx_scan_paths = [], cx_server_target = None,
    cx_ot_targets = [], cx_sniff = None\<rparr>"
  let ?g = "\<lambda>f. (title f, classification f, severity f, dict_get (evidence f) ''response_len'')"
  have "map ?g (run_bacnet 0 ?cx (\<lambda>t. Silence) @ run_gtp 0 ?cx (\<lambda>t. Silence)) =
      map (\<lambda>s. (s, SANGAT_TINGGI, HIGH, Some (JInt 0)))
        [''plain BACnet/IP at 127.0.0.1:47808'', ''plain GTP at 127.0.0.1:2123'', ''plain GTP at 127.0.0.1:2152'']"
    using silent_host_reported_as_ot_service [of ?cx "\<lambda>t. Silence" 0] by simp
  then have "map (\<lambda>x. fst (snd (?g x))) (run_bacnet 0 ?cx (\<lambda>t. Silence) @ run_gtp 0 ?cx (\<lambda>t. Silence)) =
      [SANGAT_TINGGI, SANGAT_TINGGI, SANGAT_TINGGI]"
    unfolding map_map [of "\<lambda>x. fst (snd x)" ?g, symmetric, unfolded comp_def] by (simp only:) simp
  then show ?thesis by (intro exI [of _ ?cx]) simp
qed

section \<open>Well-formed datagrams\<close>

text \<open>BER: elements that fill the bytes exactly, and so do the contents of the constructed ones.\<close>

fun ber_ok :: "nat \<Rightarrow> byte list \<Rightarrow> bool" where
  "ber_ok 0 bs \<longleftrightarrow> bs = []"
| "ber_ok (Suc k) bs \<longleftrightarrow>
     bs = [] \<or>
     (case read_tlv bs 0 of
        None \<Rightarrow> False
      | Some (tag, v, n) \<Rightarrow> (unat tag div 32 mod 2 = 1 \<longrightarrow> ber_ok k v) \<and> ber_ok k (drop n bs))"

text \<open>What RFC 3416 asks of the request both SNMP payloads mean to be.\<close>

definition sysdescr_request :: "byte list" where
  "sysdescr_request =
     tlv 0x30 (tlv 0x02 [1] @ tlv 0x04 (ascii ''public'') @
       tlv 0xA0 (tlv 0x02 [0x12, 0x34, 0x56, 0x78] @ tlv 0x02 [0] @ tlv 0x02 [0] @
         tlv 0x30 (tlv 0x30 (tlv 0x06 [0x2B, 0x06, 0x01, 0x02, 0x01, 0x01, 0x01, 0x00] @ tlv 0x05 []))))"

definition length_field :: "nat \<Rightarrow> nat \<Rightarrow> byte list \<Rightarrow> nat" where
  "length_field i j bs = be_nat (slice i j bs)"

text \<open>
  The lengths inside the datagrams: the IKE, RADIUS and GTP payloads declare their own length. The BACnet payload
  declares four bytes more than it has, the DTLS record of the CoAPS payload claims more than follows it and its only
  fragment is empty, and neither SNMP request is well-formed BER, as the intended request is. A service that checks
  what it parses drops these four, so the probes see silence where the service runs.
\<close>

theorem datagram_encodings:
  "length_field 24 28 ike_isakmp_init = length ike_isakmp_init \<and>
   length_field 2 4 ([0x01, 0x01, 0x00, 0x14] @ zeros 16) = length ([0x01, 0x01, 0x00, 0x14] @ zeros 16 :: byte list) \<and>
   length_field 2 4 gtpv2c_echo + 4 = length gtpv2c_echo \<and>
   length_field 2 4 bacnet_who_is = length bacnet_who_is + 4 \<and>
   13 + length_field 11 13 coaps_dtls_clienthello = length coaps_dtls_clienthello + 4 \<and>
   length_field 22 25 coaps_dtls_clienthello = 0 \<and> length_field 14 17 coaps_dtls_clienthello = 46 \<and>
   ber_ok 20 sysdescr_request \<and> \<not> ber_ok 20 snmp_v2c_get_sysdescr \<and> \<not> ber_ok 20 SNMPV2C_PROBE"
proof -
  have "ber_ok 20 sysdescr_request" by code_simp
  moreover have "\<not> ber_ok 20 snmp_v2c_get_sysdescr" by code_simp
  moreover have "\<not> ber_ok 20 SNMPV2C_PROBE" by code_simp
  moreover have "length_field 24 28 ike_isakmp_init = length ike_isakmp_init" by code_simp
  moreover have "length_field 2 4 gtpv2c_echo + 4 = length gtpv2c_echo" by code_simp
  moreover have "length_field 2 4 bacnet_who_is = length bacnet_who_is + 4" by code_simp
  moreover have "length_field 22 25 coaps_dtls_clienthello = 0" "length_field 14 17 coaps_dtls_clienthello = 46"
    "13 + length_field 11 13 coaps_dtls_clienthello = length coaps_dtls_clienthello + 4" by code_simp+
  moreover have "length_field 2 4 ([0x01, 0x01, 0x00, 0x14] @ zeros 16) = length ([0x01, 0x01, 0x00, 0x14] @ zeros 16 :: byte list)"
    by code_simp
  ultimately show ?thesis by blast
qed

end
