(* ===== verification/Starttls.thy ===== *)
theory Starttls
  imports Krb Tls_Client
begin

text \<open>
  The TLS client probes: \<^verbatim>\<open>probes/_tls_probe.py\<close> (the \<^verbatim>\<open>net.tls.*\<close> probes), \<^verbatim>\<open>_starttls_probe.py\<close> (SMTP,
  IMAP, POP3 and FTP) and \<^verbatim>\<open>net_starttls_ldap.py\<close>. The handshake of the ssl module and the certificate loader
  are arguments, as is what each read returns; a run is the findings and whether an exception left it.
\<close>

section \<open>The negotiated session\<close>

record tls_cert =
  tc_key :: pub_key
  tc_subject :: string
  tc_not_after :: string

text \<open>The cipher with its version, and the certificate bytes.\<close>

type_synonym tls_session = "(string \<times> string) option \<times> byte list option"

type_synonym run_result = "finding list \<times> bool"

definition session_findings ::
  "(string \<times> string \<Rightarrow> finding) \<Rightarrow> (tls_cert \<Rightarrow> finding) \<Rightarrow> (byte list \<Rightarrow> tls_cert option) \<Rightarrow> tls_session \<Rightarrow> run_result" where
  "session_findings on_cipher on_cert load s =
     (let cs = (case fst s of Some c \<Rightarrow> [on_cipher c] | None \<Rightarrow> []) in
      case snd s of
        None \<Rightarrow> (cs, False)
      | Some der \<Rightarrow>
          if der = [] then (cs, False)
          else (case load der of None \<Rightarrow> (cs, True) | Some c \<Rightarrow> (cs @ [on_cert c], False)))"

definition na_note :: "int \<Rightarrow> string \<Rightarrow> string \<Rightarrow> finding" where
  "na_note now pid ttl = mk_finding pid ''N/A'' CLS_INFO SEV_INFO ttl [] [] now"

section \<open>Direct TLS\<close>

definition tls_cipher_finding :: "int \<Rightarrow> string \<Rightarrow> string \<times> int \<Rightarrow> string \<times> string \<Rightarrow> finding" where
  "tls_cipher_finding now pid tgt cv =
     (let (cname, ver) = cv; cls = classify cname in
      mk_finding pid (normalise cname) cls (sev_for cls) (ver @ '' negotiated cipher '' @ cname)
        [(''endpoint'', JStr (endpoint tgt)), (''version'', JStr ver)] [] now)"

definition tls_cert_finding :: "int \<Rightarrow> string \<Rightarrow> string \<times> int \<Rightarrow> tls_cert \<Rightarrow> finding" where
  "tls_cert_finding now pid tgt c =
     (let alg = key_algorithm (tc_key c); cls = classify alg in
      mk_finding pid alg cls (sev_for cls) (''server cert uses '' @ alg)
        [(''endpoint'', JStr (endpoint tgt)), (''subject'', JStr (tc_subject c)), (''not_after'', JStr (tc_not_after c))] [] now)"

definition run_tls_probe ::
  "int \<Rightarrow> string \<Rightarrow> string \<times> int \<Rightarrow> (byte list \<Rightarrow> tls_cert option) \<Rightarrow> string + tls_session \<Rightarrow> run_result" where
  "run_tls_probe now pid tgt load conn =
     (case conn of
        Inl e \<Rightarrow> ([na_note now pid (''TLS connection failed at '' @ endpoint tgt @ '': '' @ e)], False)
      | Inr s \<Rightarrow> session_findings (tls_cipher_finding now pid tgt) (tls_cert_finding now pid tgt) load s)"

definition https_target :: "string option \<Rightarrow> int \<Rightarrow> string option \<Rightarrow> string \<times> int" where
  "https_target host port server_target =
     (case (if host \<noteq> None \<and> host \<noteq> Some [] then host else None) of
        Some h \<Rightarrow> (h, port)
      | None \<Rightarrow>
          (case server_target of
             None \<Rightarrow> (''127.0.0.1'', port)
           | Some t \<Rightarrow>
               (let (h, p) = partition_char (CHR '':'') t in
                if h = [] then (''127.0.0.1'', port)
                else if p = [] then (h, 443)
                else (case int_of_text p of Inr n \<Rightarrow> (h, n) | Inl _ \<Rightarrow> (''127.0.0.1'', port)))))"

section \<open>Protocols\<close>

record starttls_protocol =
  sp_name :: string
  sp_pre_lines :: "string list"
  sp_starttls_line :: string
  sp_success_marker :: string
  sp_greeting_lines :: nat

definition SMTP :: starttls_protocol where
  "SMTP = \<lparr>sp_name = ''smtp'', sp_pre_lines = [''EHLO {host}''], sp_starttls_line = ''STARTTLS'', sp_success_marker = ''220'', sp_greeting_lines = 1\<rparr>"

definition IMAP :: starttls_protocol where
  "IMAP = \<lparr>sp_name = ''imap'', sp_pre_lines = [], sp_starttls_line = ''a001 STARTTLS'', sp_success_marker = ''a001 ok'', sp_greeting_lines = 1\<rparr>"

definition POP3 :: starttls_protocol where
  "POP3 = \<lparr>sp_name = ''pop3'', sp_pre_lines = [], sp_starttls_line = ''STLS'', sp_success_marker = ''+ok'', sp_greeting_lines = 1\<rparr>"

definition FTP :: starttls_protocol where
  "FTP = \<lparr>sp_name = ''ftp'', sp_pre_lines = [], sp_starttls_line = ''AUTH TLS'', sp_success_marker = ''234'', sp_greeting_lines = 1\<rparr>"

section \<open>The dialogue\<close>

text \<open>
  What one \<^verbatim>\<open>readline\<close> returns: a line, nothing within the time limit, or an exception that nothing catches (a
  reset, a line beyond the buffer). When the peer has closed, it is an empty line each time.
\<close>

datatype line_event = Line "byte list" | No_Line | Line_Error

fun read_line :: "line_event list \<Rightarrow> (byte list option \<times> line_event list) option" where
  "read_line [] = Some (Some [], [])"
| "read_line (Line l # es) = Some (Some l, es)"
| "read_line (No_Line # es) = Some (None, es)"
| "read_line (Line_Error # es) = None"

fun read_greeting :: "nat \<Rightarrow> line_event list \<Rightarrow> line_event list option" where
  "read_greeting 0 es = Some es"
| "read_greeting (Suc n) es =
     (case read_line es of
        None \<Rightarrow> None
      | Some (None, es') \<Rightarrow> Some es'
      | Some (Some _, es') \<Rightarrow> read_greeting n es')"

definition final_prefixes :: "byte list list" where
  "final_prefixes = [ascii ''250 '', ascii ''220 '', ascii ''234 '']"

fun drain_reply :: "nat \<Rightarrow> line_event list \<Rightarrow> line_event list option" where
  "drain_reply 0 es = Some es"
| "drain_reply (Suc n) es =
     (case read_line es of
        None \<Rightarrow> None
      | Some (None, es') \<Rightarrow> Some es'
      | Some (Some raw, es') \<Rightarrow> if raw = [] \<or> take 4 raw \<in> set final_prefixes then Some es' else drain_reply n es')"

text \<open>\<^verbatim>\<open>line.format(host=host)\<close>.\<close>

function format_host :: "string \<Rightarrow> string \<Rightarrow> string" where
  "format_host host s =
     (if startswith s ''{host}'' then host @ format_host host (drop 6 s)
      else (case s of [] \<Rightarrow> [] | c # cs \<Rightarrow> c # format_host host cs))"
  by pat_completeness auto
termination
  by (relation "measure (\<lambda>(host, s). length s)") (auto simp: startswith_def dest: prefix_length_le)

declare format_host.simps [simp del]

definition starttls_refused :: "int \<Rightarrow> string \<Rightarrow> string \<times> int \<Rightarrow> starttls_protocol \<Rightarrow> byte list \<Rightarrow> finding" where
  "starttls_refused now pid tgt p raw =
     na_note now pid (''STARTTLS('' @ sp_name p @ '') refused by '' @ endpoint tgt @ '': '' @ py_strip (decode_text raw))"

definition starttls_cipher_finding :: "int \<Rightarrow> string \<Rightarrow> string \<times> int \<Rightarrow> starttls_protocol \<Rightarrow> string \<times> string \<Rightarrow> finding" where
  "starttls_cipher_finding now pid tgt p cv =
     (let (cname, ver) = cv; cls = classify cname in
      mk_finding pid (normalise cname) cls (sev_for cls) (''STARTTLS('' @ sp_name p @ '') '' @ ver @ '' negotiated cipher '' @ cname)
        [(''endpoint'', JStr (endpoint tgt)), (''version'', JStr ver), (''protocol'', JStr (sp_name p))] [] now)"

definition starttls_cert_finding :: "int \<Rightarrow> string \<Rightarrow> string \<times> int \<Rightarrow> starttls_protocol \<Rightarrow> tls_cert \<Rightarrow> finding" where
  "starttls_cert_finding now pid tgt p c =
     (let alg = key_algorithm (tc_key c); cls = classify alg in
      mk_finding pid alg cls (sev_for cls) (''STARTTLS('' @ sp_name p @ '') server cert uses '' @ alg)
        [(''endpoint'', JStr (endpoint tgt)), (''subject'', JStr (tc_subject c)), (''not_after'', JStr (tc_not_after c)),
         (''protocol'', JStr (sp_name p))] [] now)"

text \<open>What follows the answer to the STARTTLS command: the handshake fails, gives no transport (an assertion error)
  or a session.\<close>

definition starttls_answer ::
  "int \<Rightarrow> string \<Rightarrow> string \<times> int \<Rightarrow> starttls_protocol \<Rightarrow> (byte list \<Rightarrow> tls_cert option) \<Rightarrow> byte list \<Rightarrow> string + tls_session option \<Rightarrow> run_result" where
  "starttls_answer now pid tgt p load raw upgrade =
     (if \<not> contains (py_lower (py_strip (decode_text raw))) (sp_success_marker p) then ([starttls_refused now pid tgt p raw], False)
      else
        (case upgrade of
           Inl e \<Rightarrow> ([na_note now pid (''STARTTLS('' @ sp_name p @ '') TLS handshake failed at '' @ endpoint tgt @ '': '' @ e)], False)
         | Inr None \<Rightarrow> ([], True)
         | Inr (Some s) \<Rightarrow> session_findings (starttls_cipher_finding now pid tgt p) (starttls_cert_finding now pid tgt p) load s))"

text \<open>The greeting, the lines before the command and the drained reply to them, when there are any.\<close>

definition starttls_prepare :: "string \<Rightarrow> starttls_protocol \<Rightarrow> line_event list \<Rightarrow> line_event list option" where
  "starttls_prepare host p es =
     (case read_greeting (sp_greeting_lines p) es of
        None \<Rightarrow> None
      | Some es1 \<Rightarrow>
          if sp_pre_lines p = [] then Some es1
          else if list_all (\<lambda>l. ascii_only (format_host host l)) (sp_pre_lines p) then drain_reply 20 es1
          else None)"

definition run_starttls_probe ::
  "int \<Rightarrow> string \<Rightarrow> string \<times> int \<Rightarrow> starttls_protocol \<Rightarrow> (byte list \<Rightarrow> tls_cert option) \<Rightarrow>
   string + line_event list \<times> (string + tls_session option) \<Rightarrow> run_result" where
  "run_starttls_probe now pid tgt p load conn =
     (case conn of
        Inl e \<Rightarrow> ([na_note now pid (''STARTTLS('' @ sp_name p @ '') connection failed at '' @ endpoint tgt @ '': '' @ e)], False)
      | Inr (es, upgrade) \<Rightarrow>
          (case starttls_prepare (fst tgt) p es of
             None \<Rightarrow> ([], True)
           | Some es1 \<Rightarrow>
               (case read_line es1 of
                  None \<Rightarrow> ([], True)
                | Some (raw, _) \<Rightarrow> starttls_answer now pid tgt p load (case raw of Some l \<Rightarrow> l | None \<Rightarrow> []) upgrade)))"

section \<open>LDAP\<close>

definition LDAP_STARTTLS_REQ :: "byte list" where
  "LDAP_STARTTLS_REQ = [0x30, 0x1D, 0x02, 0x01, 0x01, 0x77, 0x18, 0x80, 0x16] @ ascii ''1.3.6.1.4.1.1466.20037''"

definition LDAP_PROBE :: string where "LDAP_PROBE = ''net.starttls.ldap''"

definition ldap_cipher_finding :: "int \<Rightarrow> string \<times> int \<Rightarrow> string \<times> string \<Rightarrow> finding" where
  "ldap_cipher_finding now tgt cv =
     (let (cname, ver) = cv; cls = classify cname in
      mk_finding LDAP_PROBE (normalise cname) cls (sev_for cls) (''LDAP STARTTLS '' @ ver @ '' cipher '' @ cname)
        [(''endpoint'', JStr (endpoint tgt)), (''version'', JStr ver)] [] now)"

definition ldap_cert_finding :: "int \<Rightarrow> string \<times> int \<Rightarrow> tls_cert \<Rightarrow> finding" where
  "ldap_cert_finding now tgt c =
     (let alg = key_algorithm (tc_key c); cls = classify alg in
      mk_finding LDAP_PROBE alg cls (sev_for cls) (''LDAP STARTTLS cert '' @ alg)
        [(''endpoint'', JStr (endpoint tgt)), (''subject'', JStr (tc_subject c))] [] now)"

definition ldap_refused :: "int \<Rightarrow> string \<times> int \<Rightarrow> byte list \<Rightarrow> finding" where
  "ldap_refused now tgt resp =
     mk_finding LDAP_PROBE ''N/A'' CLS_INFO SEV_INFO (''LDAP at '' @ endpoint tgt @ '' did not accept STARTTLS'')
       [(''endpoint'', JStr (endpoint tgt)), (''response_bytes'', JInt (int (length resp)))] [] now"

text \<open>The answer is one read of at most 256 bytes, with the outcomes of a line; silence ends the run.\<close>

definition run_ldap ::
  "int \<Rightarrow> string \<times> int \<Rightarrow> (byte list \<Rightarrow> tls_cert option) \<Rightarrow> string + line_event \<times> (string + tls_session option) \<Rightarrow> run_result" where
  "run_ldap now tgt load conn =
     (case conn of
        Inl e \<Rightarrow> ([na_note now LDAP_PROBE (''LDAP STARTTLS connection failed at '' @ endpoint tgt @ '': '' @ e)], False)
      | Inr (No_Line, _) \<Rightarrow> ([], False)
      | Inr (Line_Error, _) \<Rightarrow> ([], True)
      | Inr (Line bytes, upgrade) \<Rightarrow>
          (let resp = take 256 bytes in
           if length resp < 12 \<or> 0x0A \<notin> set (take 32 resp) then ([ldap_refused now tgt resp], False)
           else
             (case upgrade of
                Inl e \<Rightarrow> ([na_note now LDAP_PROBE (''LDAP STARTTLS handshake failed at '' @ endpoint tgt @ '': '' @ e)], False)
              | Inr None \<Rightarrow> ([], True)
              | Inr (Some s) \<Rightarrow> session_findings (ldap_cipher_finding now tgt) (ldap_cert_finding now tgt) load s)))"

section \<open>Conforming servers\<close>

text \<open>
  What the STARTTLS probes report: the session of every server that greets in one line, a refusal for servers with
  longer greetings, and no refusal of an LDAP server at all.
\<close>

section \<open>Servers that greet in one line\<close>

definition final_line :: "byte list \<Rightarrow> bool" where
  "final_line l \<longleftrightarrow> take 4 l \<in> set final_prefixes"

lemma drain_reply_lines:
  "list_all (\<lambda>l. l \<noteq> [] \<and> \<not> final_line l) conts \<Longrightarrow> final_line l \<Longrightarrow> length conts < n \<Longrightarrow>
   drain_reply n (map Line conts @ Line l # es) = Some es"
proof (induction conts arbitrary: n)
  case Nil
  then show ?case by (cases n) (simp_all add: final_line_def)
next
  case (Cons c conts)
  then obtain m where n: "n = Suc m" by (cases n) auto
  with Cons show ?case by (simp add: final_line_def)
qed

definition accepts :: "starttls_protocol \<Rightarrow> byte list \<Rightarrow> bool" where
  "accepts p l \<longleftrightarrow> contains (py_lower (py_strip (decode_text l))) (sp_success_marker p)"

text \<open>The lines a server sends before its answer: the greeting, and the reply to EHLO where the protocol has one.\<close>

definition reply_ok :: "starttls_protocol \<Rightarrow> byte list list \<Rightarrow> bool" where
  "reply_ok p reply \<longleftrightarrow>
     (if sp_pre_lines p = [] then reply = []
      else reply \<noteq> [] \<and> list_all (\<lambda>l. l \<noteq> [] \<and> \<not> final_line l) (butlast reply) \<and> final_line (last reply) \<and> length reply \<le> 20)"

lemma protocols_greet_once: "p \<in> {SMTP, IMAP, POP3, FTP} \<Longrightarrow> sp_greeting_lines p = 1"
  by (auto simp: SMTP_def IMAP_def POP3_def FTP_def)

lemma format_host_plain: "CHR ''{'' \<notin> set s \<Longrightarrow> format_host host s = s"
proof (induction s)
  case Nil
  show ?case by (subst format_host.simps) (simp add: startswith_def)
next
  case (Cons c s)
  then show ?case by (subst format_host.simps) (simp add: startswith_def)
qed

lemma format_ehlo: "format_host host ''EHLO {host}'' = ''EHLO '' @ host"
  by (simp add: format_host.simps [of host "CHR ''E'' # _"] format_host.simps [of host "CHR ''H'' # _"]
      format_host.simps [of host "CHR ''L'' # _"] format_host.simps [of host "CHR ''O'' # _"]
      format_host.simps [of host "CHR '' '' # _"] format_host.simps [of host "CHR ''{'' # _"] format_host_plain startswith_def)

lemma ascii_ehlo: "p \<in> {SMTP, IMAP, POP3, FTP} \<Longrightarrow> ascii_only host \<Longrightarrow> list_all (\<lambda>l. ascii_only (format_host host l)) (sp_pre_lines p)"
  by (auto simp: SMTP_def IMAP_def POP3_def FTP_def format_ehlo ascii_only_def char_code_def)

lemma starttls_prepare_ok:
  assumes "p \<in> {SMTP, IMAP, POP3, FTP}" "ascii_only host" "reply_ok p reply"
  shows "starttls_prepare host p (Line greet # map Line reply @ es) = Some es"
proof (cases "sp_pre_lines p = []")
  case True
  then show ?thesis using assms(3) by (simp add: starttls_prepare_def protocols_greet_once [OF assms(1)] reply_ok_def)
next
  case False
  then have r: "reply \<noteq> []" "list_all (\<lambda>l. l \<noteq> [] \<and> \<not> final_line l) (butlast reply)" "final_line (last reply)" "length reply \<le> 20"
    using assms(3) by (simp_all add: reply_ok_def)
  have "map Line reply @ es = map Line (butlast reply @ [last reply]) @ es" using r(1) by simp
  also have "\<dots> = map Line (butlast reply) @ Line (last reply) # es" by simp
  finally have "map Line reply @ es = map Line (butlast reply) @ Line (last reply) # es" .
  moreover have "drain_reply 20 (map Line (butlast reply) @ Line (last reply) # es) = Some es"
    by (rule drain_reply_lines [OF r(2, 3)]) (use r(1, 4) in \<open>cases reply; simp\<close>)
  ultimately show ?thesis
    using False ascii_ehlo [OF assms(1, 2)] by (simp add: starttls_prepare_def protocols_greet_once [OF assms(1), simplified])
qed

text \<open>C30. 
  Every server that greets in one line is reported: for each of the four protocols, whatever the greeting says and
  however many capability lines (up to the nineteen before the last that the probe reads) it lists, a server whose
  answer to the command carries the protocol's success mark is reported with the cipher and the certificate of the
  session it then negotiates, and one whose answer does not, with that answer as a refusal.
\<close>

theorem starttls_server_reported:
  assumes "p \<in> {SMTP, IMAP, POP3, FTP}" "ascii_only host" "reply_ok p reply"
  shows "run_starttls_probe now pid (host, port) p load (Inr (Line greet # map Line reply @ Line ans # es, Inr (Some s))) =
    (if accepts p ans
     then session_findings (starttls_cipher_finding now pid (host, port) p) (starttls_cert_finding now pid (host, port) p) load s
     else ([starttls_refused now pid (host, port) p ans], False))"
  using starttls_prepare_ok [OF assms, of greet "Line ans # es"]
  by (simp add: run_starttls_probe_def starttls_answer_def accepts_def)

theorem starttls_server_reported_witness:
  "run_starttls_probe 0 ''net.starttls.smtp'' (''mx'', 25) SMTP (\<lambda>d. None)
     (Inr (map Line [ascii ''220 mx ESMTP'', ascii ''250-mx'', ascii ''250 STARTTLS'', ascii ''220 go''],
       Inr (Some (Some (''AES256-SHA'', ''TLSv1.2''), None)))) =
   ([starttls_cipher_finding 0 ''net.starttls.smtp'' (''mx'', 25) SMTP (''AES256-SHA'', ''TLSv1.2'')], False)"
proof -
  have r: "reply_ok SMTP [ascii ''250-mx'', ascii ''250 STARTTLS'']" by code_simp
  have a: "accepts SMTP (ascii ''220 go'')" by code_simp
  have h: "ascii_only ''mx''" by (simp add: ascii_only_def char_code_def)
  show ?thesis
    using starttls_server_reported [OF _ h r, of 0 "''net.starttls.smtp''" 25 "\<lambda>d. None" "ascii ''220 mx ESMTP''" "ascii ''220 go''" "[]"
        "(Some (''AES256-SHA'', ''TLSv1.2''), None)"] a
    by (simp add: session_findings_def)
qed

section \<open>Servers that greet in several lines\<close>

text \<open>
  A server that greets in several lines is reported as refusing STARTTLS although it would accept: the probe reads one
  greeting line, whatever its form. In FTP the second line of the greeting is taken for the answer to the command. In
  SMTP the rest of the greeting is taken for the reply to EHLO, so that the first capability line of the true reply is
  taken for the answer. The answer itself is never read.
\<close>

theorem long_greeting_reported_as_refusal:
  assumes "ascii_only host" "list_all (\<lambda>l. l \<noteq> [] \<and> \<not> final_line l) conts" "final_line last_line" "length conts < 20"
    "\<not> accepts FTP (hd (conts @ [last_line]))" "\<not> accepts SMTP caps"
  shows "run_starttls_probe now pid (host, port) FTP load (Inr (Line first # map Line conts @ Line last_line # es, up)) =
      ([starttls_refused now pid (host, port) FTP (hd (conts @ [last_line]))], False) \<and>
    run_starttls_probe now pid (host, port) SMTP load (Inr (Line first # map Line conts @ Line last_line # Line caps # es, up)) =
      ([starttls_refused now pid (host, port) SMTP caps], False)"
proof
  have "read_line (map Line conts @ Line last_line # es) = Some (Some (hd (conts @ [last_line])), tl (map Line (conts @ [last_line])) @ es)"
    by (cases conts) simp_all
  then show "run_starttls_probe now pid (host, port) FTP load (Inr (Line first # map Line conts @ Line last_line # es, up)) =
      ([starttls_refused now pid (host, port) FTP (hd (conts @ [last_line]))], False)"
    using assms(5) by (simp add: run_starttls_probe_def starttls_prepare_def FTP_def [THEN arg_cong [of _ _ sp_greeting_lines]]
        FTP_def [THEN arg_cong [of _ _ sp_pre_lines]] starttls_answer_def accepts_def)
next
  have "list_all (\<lambda>l. ascii_only (format_host host l)) (sp_pre_lines SMTP)" by (rule ascii_ehlo [OF _ assms(1)]) simp
  then show "run_starttls_probe now pid (host, port) SMTP load (Inr (Line first # map Line conts @ Line last_line # Line caps # es, up)) =
      ([starttls_refused now pid (host, port) SMTP caps], False)"
    using assms(6) drain_reply_lines [OF assms(2, 3, 4), of "Line caps # es"]
    by (simp add: run_starttls_probe_def starttls_prepare_def SMTP_def [THEN arg_cong [of _ _ sp_greeting_lines]]
        SMTP_def [THEN arg_cong [of _ _ sp_pre_lines]] starttls_answer_def accepts_def)
qed

theorem long_greeting_reported_as_refusal_witness:
  "run_starttls_probe 0 ''net.starttls.ftp'' (''ftp'', 21) FTP (\<lambda>d. None)
     (Inr (map Line [ascii ''220-Welcome'', ascii ''220 ready'', ascii ''234 go''], Inr (Some (Some (''AES256-SHA'', ''TLSv1.2''), None)))) =
   ([starttls_refused 0 ''net.starttls.ftp'' (''ftp'', 21) FTP (ascii ''220 ready'')], False)"
proof -
  have f: "final_line (ascii ''220 ready'')" by code_simp
  have a: "\<not> accepts FTP (hd ([] @ [ascii ''220 ready'']))" "\<not> accepts SMTP (ascii ''250-ftp'')" by code_simp+
  have h: "ascii_only ''ftp''" by (simp add: ascii_only_def char_code_def)
  show ?thesis
    using long_greeting_reported_as_refusal [OF h _ f _ a, of 0 "''net.starttls.ftp''" 21 "\<lambda>d. None" "ascii ''220-Welcome''"
        "[Line (ascii ''234 go'')]" "Inr (Some (Some (''AES256-SHA'', ''TLSv1.2''), None))"] by simp
qed

section \<open>LDAP\<close>

text \<open>An ExtendedResponse with its result code, texts and optional fields.\<close>

definition ldap_response :: "byte \<Rightarrow> byte \<Rightarrow> byte list \<Rightarrow> byte list \<Rightarrow> byte list \<Rightarrow> byte list" where
  "ldap_response mid rc matched diag opts =
     tlv 0x30 (tlv 0x02 [mid] @ tlv 0x78 (tlv 0x0A [rc] @ tlv 0x04 matched @ tlv 0x04 diag @ opts))"

lemma length_der_len: "n < 256 \<Longrightarrow> length (der_len n) \<le> 2"
  by (simp add: der_len_def Let_def len_digits.simps)

lemma length_tlv_ge: "length v + 2 \<le> length (tlv t v)"
  by (simp add: tlv_def der_len_def Let_def Suc_le_eq)

lemma in_set_take: "length pre < n \<Longrightarrow> x \<in> set (take n (pre @ x # post))"
  by (simp add: take_Cons')

text \<open>
  No refusal is recognised: an LDAP server's answer is taken for acceptance when a byte of the value ten is among its
  first bytes, and that is the tag in front of every result code. Whatever the code, the texts and the referrals, the
  probe goes on to the handshake, and reports a refusing server as one whose handshake failed.
\<close>

theorem ldap_refusal_taken_as_acceptance:
  assumes "resp = ldap_response mid rc matched diag opts" "length resp \<le> 250"
  shows "run_ldap now tgt load (Inr (Line resp, Inl e)) =
    ([na_note now LDAP_PROBE (''LDAP STARTTLS handshake failed at '' @ endpoint tgt @ '': '' @ e)], False)"
proof -
  let ?r = "tlv 0x0A [rc] @ tlv 0x04 matched @ tlv 0x04 diag @ opts"
  let ?m = "tlv 0x02 [mid] @ tlv 0x78 ?r"
  have l: "length ?m < 250" "length ?r < 250" using assms by (simp_all add: ldap_response_def tlv_def)
  have d: "length (der_len (length ?m)) \<le> 2" "length (der_len (length ?r)) \<le> 2" using l by (simp_all only: length_der_len)
  let ?pre = "0x30 # der_len (length ?m) @ tlv 0x02 [mid] @ 0x78 # der_len (length ?r)"
  have resp: "resp = ?pre @ 0x0A # (der_len 1 @ [rc] @ tlv 0x04 matched @ tlv 0x04 diag @ opts)"
    by (simp add: assms(1) ldap_response_def tlv_def)
  have "length ?pre < 32" using d by (simp add: tlv_def der_len_def)
  then have "0x0A \<in> set (take 32 resp)" unfolding resp by (rule in_set_take)
  moreover have "take 256 resp = resp" using assms(2) by simp
  ultimately have ten: "0x0A \<in> set (take 32 (take 256 resp))" by (simp only:)
  have "12 \<le> length resp"
    unfolding assms(1) ldap_response_def
    using length_tlv_ge [of ?m "0x30"] length_tlv_ge [of "[mid]" "0x02"] length_tlv_ge [of ?r "0x78"] length_tlv_ge [of "[rc]" "0x0A"]
      length_tlv_ge [of matched "0x04"] length_tlv_ge [of diag "0x04"] by simp
  with ten assms(2) show ?thesis by (simp add: run_ldap_def Let_def)
qed

theorem ldap_refusal_taken_as_acceptance_witness:
  "run_ldap 0 (''dc'', 389) (\<lambda>d. None) (Inr (Line (ldap_response 1 2 [] [] []), Inl ''eof'')) =
    ([na_note 0 LDAP_PROBE (''LDAP STARTTLS handshake failed at '' @ endpoint (''dc'', 389) @ '': '' @ ''eof'')], False)"
  by (rule ldap_refusal_taken_as_acceptance [OF refl]) (simp add: ldap_response_def tlv_def der_len_def)

end
