(* ===== verification/Cbom.thy ===== *)
theory Cbom
  imports Store_Laws Finding_Parity
begin

text \<open>
  \<^verbatim>\<open>cbom/builder.py\<close>: the CycloneDX document of a scan, as the JSON value the exporter writes. The random serial
  number and the time stamp are arguments.
\<close>

section \<open>Vocabulary of the standard\<close>

definition CURVE_ENUM :: "(string \<times> string) list" where
  "CURVE_ENUM =
    [(''BRAINPOOLP160R1'', ''brainpool/brainpoolP160r1''), (''BRAINPOOLP160T1'', ''brainpool/brainpoolP160t1''),
     (''BRAINPOOLP192R1'', ''brainpool/brainpoolP192r1''), (''BRAINPOOLP192T1'', ''brainpool/brainpoolP192t1''),
     (''BRAINPOOLP224R1'', ''brainpool/brainpoolP224r1''), (''BRAINPOOLP224T1'', ''brainpool/brainpoolP224t1''),
     (''BRAINPOOLP256R1'', ''brainpool/brainpoolP256r1''), (''BRAINPOOLP256T1'', ''brainpool/brainpoolP256t1''),
     (''BRAINPOOLP320R1'', ''brainpool/brainpoolP320r1''), (''BRAINPOOLP320T1'', ''brainpool/brainpoolP320t1''),
     (''BRAINPOOLP384R1'', ''brainpool/brainpoolP384r1''), (''BRAINPOOLP384T1'', ''brainpool/brainpoolP384t1''),
     (''BRAINPOOLP512R1'', ''brainpool/brainpoolP512r1''), (''BRAINPOOLP512T1'', ''brainpool/brainpoolP512t1''),
     (''PRIME256V1'', ''x962/prime256v1''), (''SECP256K1'', ''secg/secp256k1''), (''SECP256R1'', ''secg/secp256r1''),
     (''SECP384R1'', ''secg/secp384r1''), (''SECP521R1'', ''secg/secp521r1''), (''NISTP256'', ''nist/P-256''),
     (''NISTP384'', ''nist/P-384''), (''NISTP521'', ''nist/P-521''), (''CURVE25519'', ''other/Curve25519''),
     (''CURVE448'', ''other/Curve448''), (''ED25519'', ''other/Ed25519''), (''ED448'', ''other/Ed448''),
     (''X25519'', ''other/Curve25519''), (''X448'', ''other/Curve448''), (''P-256'', ''nist/P-256''),
     (''P256'', ''nist/P-256''), (''P-384'', ''nist/P-384''), (''P384'', ''nist/P-384''), (''P-521'', ''nist/P-521''),
     (''P521'', ''nist/P-521'')]"

definition asset_type_for :: "string \<Rightarrow> string" where
  "asset_type_for pid =
     (if startswith pid ''net.'' then ''protocol''
      else if startswith pid ''fs.cert'' then ''certificate''
      else if startswith pid ''fs.privkey'' \<or> endswith pid ''.privkey'' then ''key''
      else ''algorithm'')"

definition primitive_for :: "string \<Rightarrow> string" where
  "primitive_for alg =
     (let a = py_upper alg in
      if startswith_any a [''ML-KEM'', ''X25519MLKEM'', ''KYBER''] then ''kem''
      else if startswith_any a [''RSA'', ''ECDSA'', ''DSA'', ''ED25519'', ''ED448'', ''ML-DSA'', ''SLH-DSA'', ''FALCON''] then ''signature''
      else if startswith a ''AES'' then ''block-cipher''
      else if startswith a ''CHACHA'' then ''stream-cipher''
      else if startswith_any a [''SHA'', ''MD''] then ''hash''
      else if startswith_any a [''X25519'', ''X448'', ''ECDH'', ''DH''] then ''key-agree''
      else ''other'')"

definition algorithm_family_for :: "string \<Rightarrow> string option" where
  "algorithm_family_for alg =
     (let a = py_upper alg in
      if startswith a ''ECDSA'' then Some ''ECDSA''
      else if startswith a ''ECDH'' then Some ''ECDH''
      else if startswith_any a [''ED25519'', ''ED448''] then Some ''EdDSA''
      else if startswith_any a [''X25519'', ''X448''] then Some ''ECDH''
      else if startswith a ''ML-KEM'' then Some ''ML-KEM''
      else if startswith a ''ML-DSA'' then Some ''ML-DSA''
      else if startswith a ''SLH-DSA'' then Some ''SLH-DSA''
      else if startswith a ''AES'' then Some ''AES''
      else if startswith a ''CHACHA'' then Some ''ChaCha20''
      else if startswith_any a [''SHA-3'', ''SHA3''] then Some ''SHA-3''
      else if startswith_any a [''SHA-1'', ''SHA1''] then Some ''SHA-1''
      else if startswith a ''SHA'' then Some ''SHA-2''
      else if startswith a ''3DES'' then Some ''3DES''
      else if startswith a ''DES'' then Some ''DES''
      else if startswith a ''DSA'' then Some ''DSA''
      else if startswith a ''DH'' then Some ''FFDH''
      else None)"

text \<open>The string values of the evidence keys that may name a curve, then the algorithm.\<close>

definition curve_tokens :: "string \<Rightarrow> pydict \<Rightarrow> string list" where
  "curve_tokens alg ev =
     concat (map (\<lambda>k. case dict_get ev k of Some (JStr v) \<Rightarrow> if v = [] then [] else [v] | _ \<Rightarrow> [])
       [''curve'', ''crv'', ''ec_curve'', ''group'']) @ [alg]"

definition curve_of_token :: "string \<Rightarrow> string option" where
  "curve_of_token token = map_option snd (find (\<lambda>(needle, _). contains (py_upper token) needle) CURVE_ENUM)"

fun first_curve :: "string list \<Rightarrow> string option" where
  "first_curve [] = None"
| "first_curve (token # tokens) = (case curve_of_token token of Some v \<Rightarrow> Some v | None \<Rightarrow> first_curve tokens)"

definition elliptic_curve_for :: "string \<Rightarrow> pydict \<Rightarrow> string option" where
  "elliptic_curve_for alg ev = first_curve (curve_tokens alg ev)"

definition nist_level_for :: "string \<Rightarrow> int" where
  "nist_level_for cls =
     (case map_of [(''pqc-ready'', 3), (''rendah'', 2), (''sederhana'', 1), (''tinggi'', 0), (''sangat-tinggi'', 0), (''info'', 0),
        (''error'', 0)] cls of Some n \<Rightarrow> n | None \<Rightarrow> 0)"

section \<open>The document\<close>

definition is_asset :: "finding_row \<Rightarrow> bool" where
  "is_asset f \<longleftrightarrow> \<not> (fr_algorithm f = ''N/A'' \<or> fr_probe_id f = DRIFT_PROBE)"

definition opt_field :: "string \<Rightarrow> string option \<Rightarrow> pydict" where
  "opt_field k v = (case v of None \<Rightarrow> [] | Some s \<Rightarrow> [(k, JStr s)])"

definition algo_props :: "finding_row \<Rightarrow> pydict" where
  "algo_props f =
     [(''primitive'', JStr (primitive_for (fr_algorithm f)))] @
     opt_field ''algorithmFamily'' (algorithm_family_for (fr_algorithm f)) @
     [(''parameterSetIdentifier'', JStr (fr_algorithm f))] @
     opt_field ''ellipticCurve'' (elliptic_curve_for (fr_algorithm f) (fr_evidence f)) @
     [(''executionEnvironment'', JStr ''software-plain-ram''),
      (''nistQuantumSecurityLevel'', JInt (nist_level_for (fr_classification f)))]"

definition name_value :: "string \<Rightarrow> json \<Rightarrow> json" where
  "name_value n v = JObj [(''name'', JStr n), (''value'', v)]"

text \<open>Host attribution comes from the server-only key, and only from a dictionary with non-empty texts.\<close>

definition fleet_props :: "pydict \<Rightarrow> json list" where
  "fleet_props ev =
     concat (map (\<lambda>k.
       case dict_get ev ''_fleet'' of
         Some (JObj fleet) \<Rightarrow>
           (case dict_get fleet k of Some (JStr s) \<Rightarrow> if s = [] then [] else [name_value (''pqcscan:'' @ k) (JStr s)] | _ \<Rightarrow> [])
       | _ \<Rightarrow> []) [''host'', ''machine_id''])"

definition asset_path :: "pydict \<Rightarrow> string option" where
  "asset_path ev =
     (case (case get_truthy ev ''path'' of Some v \<Rightarrow> Some v | None \<Rightarrow> dict_get ev ''file'') of
        Some (JStr s) \<Rightarrow> if s = [] then None else Some s
      | _ \<Rightarrow> None)"

definition cbom_component :: "finding_row \<Rightarrow> json" where
  "cbom_component f =
     JObj ([(''type'', JStr ''cryptographic-asset''), (''bom-ref'', JStr (''finding-'' @ show_nat (fr_id f))),
        (''name'', JStr (fr_algorithm f)), (''description'', JStr (fr_title f)),
        (''cryptoProperties'', JObj [(''assetType'', JStr (asset_type_for (fr_probe_id f))), (''algorithmProperties'', JObj (algo_props f))]),
        (''properties'', JList ([name_value ''pqcscan:confidence'' (case dict_get (fr_evidence f) ''confidence'' of Some v \<Rightarrow> v | None \<Rightarrow> JStr ''high''),
           name_value ''pqcscan:probe'' (JStr (fr_probe_id f))] @ fleet_props (fr_evidence f)))] @
       (case asset_path (fr_evidence f) of
          None \<Rightarrow> []
        | Some p \<Rightarrow> [(''evidence'', JObj [(''occurrences'', JList [JObj [(''location'', JStr p)]])])]))"

text \<open>The loop over the findings, appending to the list of components.\<close>

fun cbom_components :: "json list \<Rightarrow> finding_row list \<Rightarrow> json list" where
  "cbom_components out [] = out"
| "cbom_components out (f # fs) = cbom_components (if is_asset f then out @ [cbom_component f] else out) fs"

definition VERSION :: string where "VERSION = ''0.10.2''"

definition host_ref :: "nat \<Rightarrow> string" where
  "host_ref sid = ''host-scan-'' @ show_nat sid"

definition build_cbom :: "string \<Rightarrow> string \<Rightarrow> nat \<Rightarrow> db \<Rightarrow> json option" where
  "build_cbom uuid now sid d =
     (case get_scan sid d of
        None \<Rightarrow> None
      | Some s \<Rightarrow> Some (JObj
          [(''$schema'', JStr ''http://cyclonedx.org/schema/bom-1.7.schema.json''), (''bomFormat'', JStr ''CycloneDX''),
           (''specVersion'', JStr ''1.7''), (''serialNumber'', JStr (''urn:uuid:'' @ uuid)), (''version'', JInt 1),
           (''metadata'', JObj
             [(''timestamp'', JStr now),
              (''tools'', JList [JObj [(''vendor'', JStr ''pqcscan''), (''name'', JStr ''pqcscan''), (''version'', JStr VERSION)]]),
              (''component'', JObj [(''type'', JStr ''device''),
                (''name'', JStr (case sc_host_fingerprint s of Some h \<Rightarrow> if h = [] then ''host'' else h | None \<Rightarrow> ''host'')),
                (''bom-ref'', JStr (host_ref sid))])]),
           (''components'', JList (cbom_components [] (list_findings sid d)))]))"

section \<open>What the document promises\<close>

text \<open>
  What the CycloneDX export promises: one component for each cryptographic asset of the scan and for nothing else,
  references that identify them, values from the enumerations of the standard; and the places where it misnames an asset.
\<close>

section \<open>Reading the document\<close>

definition field :: "string \<Rightarrow> json \<Rightarrow> json option" where
  "field k j = (case j of JObj d \<Rightarrow> dict_get d k | _ \<Rightarrow> None)"

fun fields_at :: "string list \<Rightarrow> json \<Rightarrow> json option" where
  "fields_at [] j = Some j"
| "fields_at (k # ks) j = (case field k j of None \<Rightarrow> None | Some v \<Rightarrow> fields_at ks v)"

declare fields_at.simps [simp del]

lemma fields_at_single: "fields_at [k] j = field k j"
  by (simp add: fields_at.simps split: option.split)

definition doc_components :: "json \<Rightarrow> json list" where
  "doc_components doc = (case field ''components'' doc of Some (JList cs) \<Rightarrow> cs | _ \<Rightarrow> [])"

text \<open>All the references of a document: the host's and the components'.\<close>

definition doc_refs :: "json \<Rightarrow> json option list" where
  "doc_refs doc = fields_at [''metadata'', ''component'', ''bom-ref''] doc # map (field ''bom-ref'') (doc_components doc)"

section \<open>The enumerations of CycloneDX 1.7\<close>

definition PRIMITIVES :: "string list" where
  "PRIMITIVES = [''drbg'', ''mac'', ''block-cipher'', ''stream-cipher'', ''signature'', ''hash'', ''pke'', ''xof'', ''kdf'',
     ''key-agree'', ''kem'', ''ae'', ''combiner'', ''key-wrap'', ''other'', ''unknown'']"

definition FAMILIES :: "string list" where
  "FAMILIES = [''ECDSA'', ''ECDH'', ''EdDSA'', ''ML-KEM'', ''ML-DSA'', ''SLH-DSA'', ''AES'', ''ChaCha20'', ''SHA-3'', ''SHA-1'',
     ''SHA-2'', ''3DES'', ''DES'', ''DSA'', ''FFDH'']"

definition member :: "string list \<Rightarrow> json option \<Rightarrow> bool" where
  "member vs j = (case j of Some (JStr s) \<Rightarrow> s \<in> set vs | _ \<Rightarrow> False)"

definition algo_ok :: "json \<Rightarrow> bool" where
  "algo_ok c \<longleftrightarrow>
     (let get = (\<lambda>k. fields_at [''cryptoProperties'', ''algorithmProperties'', k] c) in
      member PRIMITIVES (get ''primitive'') \<and>
      (get ''algorithmFamily'' \<noteq> None \<longrightarrow> member FAMILIES (get ''algorithmFamily'')) \<and>
      (get ''ellipticCurve'' \<noteq> None \<longrightarrow> member (map snd CURVE_ENUM) (get ''ellipticCurve'')) \<and>
      (\<exists>n. get ''nistQuantumSecurityLevel'' = Some (JInt n) \<and> 0 \<le> n \<and> n \<le> 6))"

lemma primitive_for_member: "primitive_for a \<in> set PRIMITIVES"
  by (simp add: primitive_for_def PRIMITIVES_def Let_def)

lemma algorithm_family_member: "algorithm_family_for a = Some v \<Longrightarrow> v \<in> set FAMILIES"
  by (auto simp: algorithm_family_for_def FAMILIES_def Let_def split: if_splits)

lemma first_curve_member: "first_curve ts = Some v \<Longrightarrow> v \<in> set (map snd CURVE_ENUM)"
proof (induction ts)
  case (Cons t ts)
  have "v \<in> set (map snd CURVE_ENUM)" if "curve_of_token t = Some v" for v
    using that by (auto simp: curve_of_token_def find_Some_iff intro: rev_image_eqI [OF nth_mem])
  with Cons show ?case by (auto split: option.splits)
qed simp

lemma nist_level_bound: "0 \<le> nist_level_for c \<and> nist_level_for c \<le> 6"
  by (simp add: nist_level_for_def)

section \<open>One component for each asset\<close>

lemma cbom_components_map: "cbom_components out fs = out @ map cbom_component (filter is_asset fs)"
  by (induction out fs rule: cbom_components.induct) simp_all

lemma field_component:
  "field ''bom-ref'' (cbom_component f) = Some (JStr (''finding-'' @ show_nat (fr_id f)))"
  "field ''name'' (cbom_component f) = Some (JStr (fr_algorithm f))"
  "field ''description'' (cbom_component f) = Some (JStr (fr_title f))"
  "fields_at (''cryptoProperties'' # ''algorithmProperties'' # ks) (cbom_component f) = fields_at ks (JObj (algo_props f))"
  "fields_at [''cryptoProperties'', ''assetType''] (cbom_component f) = Some (JStr (asset_type_for (fr_probe_id f)))"
  by (simp_all add: cbom_component_def field_def fields_at.simps)

lemma field_algo_props:
  "field ''primitive'' (JObj (algo_props f)) = Some (JStr (primitive_for (fr_algorithm f)))"
  "field ''algorithmFamily'' (JObj (algo_props f)) = map_option JStr (algorithm_family_for (fr_algorithm f))"
  "field ''ellipticCurve'' (JObj (algo_props f)) = map_option JStr (elliptic_curve_for (fr_algorithm f) (fr_evidence f))"
  "field ''nistQuantumSecurityLevel'' (JObj (algo_props f)) = Some (JInt (nist_level_for (fr_classification f)))"
  by (simp_all add: field_def algo_props_def opt_field_def split: option.split)

lemma algo_ok_component: "algo_ok (cbom_component f)"
  using primitive_for_member algorithm_family_member first_curve_member nist_level_bound
  by (auto simp: algo_ok_def Let_def field_component fields_at_single field_algo_props member_def elliptic_curve_for_def)

lemma build_cbom_components:
  assumes "build_cbom uuid now sid d = Some doc"
  shows "doc_components doc = map cbom_component (filter is_asset (list_findings sid d))"
    and "fields_at [''metadata'', ''component'', ''bom-ref''] doc = Some (JStr (host_ref sid))"
  using assms by (auto simp: build_cbom_def doc_components_def field_def fields_at.simps cbom_components_map split: option.splits)

lemma show_nat_inject [simp]: "show_nat m = show_nat n \<longleftrightarrow> m = n"
  by (metis nat_of_digits_show_nat)

lemma list_findings_keys: "db_ok d \<Longrightarrow> distinct (map fr_id (list_findings sid d))"
  by (auto simp: list_findings_def db_ok_def keys_ok_def strict_sorted_iff distinct_map intro: inj_on_subset)


definition cbom_db :: db where
  "cbom_db = sample_db\<lparr>findings := [
     row_of_finding 1 \<lparr>probe_id = ''net.tls.https'', algorithm = ''ECDSA-P256'', classification = TINGGI, severity = HIGH,
       title = ''cert'', component_purl = None, evidence = [], remediation = [], confidence = ''high'', created_at = 5\<rparr> 1,
     row_of_finding 1 \<lparr>probe_id = ''net.tls.https'', algorithm = ''N/A'', classification = CLS_INFO, severity = SEV_INFO,
       title = ''note'', component_purl = None, evidence = [], remediation = [], confidence = ''high'', created_at = 3\<rparr> 2]\<rparr>"


section \<open>The curve table\<close>

text \<open>
  The table is ordered so that every name means itself: whatever its letter case, a token that is one of the names of
  the table is mapped to the value beside that name, although the short names are contained in the long ones.
\<close>

theorem curve_table_exact:
  assumes "(needle, v) \<in> set CURVE_ENUM" "py_upper token = needle"
  shows "curve_of_token token = Some v"
proof -
  have "list_all (\<lambda>(n, v). map_option snd (find (\<lambda>(needle, _). contains n needle) CURVE_ENUM) = Some v) CURVE_ENUM"
    by code_simp
  with assms show ?thesis by (auto simp: curve_of_token_def list_all_iff)
qed

theorem curve_table_exact_witness:
  "curve_of_token ''secp256r1'' = Some ''secg/secp256r1'' \<and> curve_of_token ''p256'' = Some ''nist/P-256''"
proof -
  have "py_upper ''secp256r1'' = ''SECP256R1''" "py_upper ''p256'' = ''P256''" by (simp_all add: py_simps)
  then show ?thesis
    using curve_table_exact [of "''SECP256R1''" "''secg/secp256r1''" "''secp256r1''"]
      curve_table_exact [of "''P256''" "''nist/P-256''" "''p256''"] by (simp add: CURVE_ENUM_def)
qed

section \<open>Misnamed assets\<close>

text \<open>
  Private keys are exported as certificates: the probe that finds them is \<^verbatim>\<open>fs.cert.privkey\<close>, and the test for the
  prefix of the certificate probes comes before the test for the suffix of the key probes. So no finding of that probe
  ever gets the asset type of a key.
\<close>

theorem private_keys_exported_as_certificates:
  "fr_probe_id f = ''fs.cert.privkey'' \<longrightarrow>
     fields_at [''cryptoProperties'', ''assetType''] (cbom_component f) = Some (JStr ''certificate'')"
  by (simp add: field_component asset_type_for_def py_simps)

theorem private_keys_exported_as_certificates_witness:
  "\<exists>f. fr_probe_id f = ''fs.cert.privkey'' \<and> fields_at [''cryptoProperties'', ''assetType''] (cbom_component f) = Some (JStr ''certificate'')"
proof -
  let ?f = "row_of_finding 1 \<lparr>probe_id = ''fs.cert.privkey'', algorithm = ''RSA-2048'', classification = TINGGI, severity = HIGH,
       title = ''key'', component_purl = None, evidence = [], remediation = [], confidence = ''high'', created_at = 5\<rparr> 1"
  have "fr_probe_id ?f = ''fs.cert.privkey''" by (simp add: row_of_finding_def)
  then show ?thesis using private_keys_exported_as_certificates [of ?f] by blast
qed

text \<open>
  A hybrid group is exported with the family and the curve of its classical half: every algorithm whose name starts
  with the hybrid's is a key encapsulation mechanism of the family of elliptic-curve Diffie-Hellman over Curve25519,
  and the draft hybrid is not even a key encapsulation mechanism.
\<close>

theorem hybrid_groups_exported_as_ecdh:
  "primitive_for (''X25519MLKEM'' @ s) = ''kem'' \<and> algorithm_family_for (''X25519MLKEM'' @ s) = Some ''ECDH'' \<and>
   elliptic_curve_for ''X25519MLKEM768'' [] = Some ''other/Curve25519'' \<and> primitive_for ''X25519Kyber768Draft00'' = ''key-agree''"
  by (simp add: primitive_for_def algorithm_family_for_def elliptic_curve_for_def curve_tokens_def curve_of_token_def CURVE_ENUM_def py_simps)

end
