(* ===== verification/Sarif.thy ===== *)
theory Sarif
  imports Cbom
begin

text \<open>
  \<^verbatim>\<open>renderers/sarif.py\<close>: the SARIF log of a scan as a JSON value.
\<close>

definition INFO_URI :: string where "INFO_URI = ''https://github.com/orengacademy/pqc-scanner2''"

definition level_of :: "string \<Rightarrow> string" where
  "level_of sev = (case map_of [(''crit'', ''error''), (''high'', ''error''), (''med'', ''warning''), (''low'', ''note''), (''info'', ''note'')] sev of
     Some l \<Rightarrow> l | None \<Rightarrow> ''note'')"

definition security_severity :: "string \<Rightarrow> string" where
  "security_severity sev = (case map_of [(''crit'', ''9.5''), (''high'', ''8.0''), (''med'', ''5.5''), (''low'', ''3.0''), (''info'', ''1.0'')] sev of
     Some l \<Rightarrow> l | None \<Rightarrow> ''1.0'')"

definition capitalize :: "string \<Rightarrow> string" where
  "capitalize s = (case s of [] \<Rightarrow> [] | c # cs \<Rightarrow> upper_char c # py_lower cs)"

definition text_obj :: "string \<Rightarrow> json" where
  "text_obj s = JObj [(''text'', JStr s)]"

definition rule_for :: "string \<Rightarrow> json" where
  "rule_for pid =
     JObj [(''id'', JStr pid),
       (''name'', JStr (concat (map capitalize (split_on (CHR ''_'') (map (\<lambda>c. if c = CHR ''.'' then CHR ''_'' else c) pid))))),
       (''shortDescription'', text_obj (''pqcscan probe '' @ pid)),
       (''fullDescription'', text_obj (''Post-quantum readiness finding from the '' @ pid @ '' probe. '' @
          ''See the finding message for the affected algorithm and the '' @ ''recommended NIST PQC migration target.'')),
       (''helpUri'', JStr (INFO_URI @ ''/blob/main/docs/STATUS.md'')),
       (''defaultConfiguration'', JObj [(''level'', JStr ''warning'')])]"

definition as_uri :: "string \<Rightarrow> string" where
  "as_uri path = (if startswith_any path [''/'', [CHR 0x5C]] then ''file://'' @ path else path)"

definition sarif_message :: "finding_row \<Rightarrow> string" where
  "sarif_message f =
     (case get_truthy (fr_remediation f) ''replacement'' of
        None \<Rightarrow> fr_title f
      | Some r \<Rightarrow>
          fr_title f @ ''  '' @ ARROW @ '' migrate to '' @ py_str r @
          (case get_truthy (fr_remediation f) ''deadline'' of None \<Rightarrow> [] | Some t \<Rightarrow> '' by '' @ py_str t))"

definition fix_props :: "pydict \<Rightarrow> pydict" where
  "fix_props rem =
     (case dict_get rem ''snippet'' of
        Some (JObj sn) \<Rightarrow>
          (case get_truthy sn ''after'' of
             Some a \<Rightarrow> [(''pqc_fix_before'', case dict_get sn ''before'' of Some b \<Rightarrow> b | None \<Rightarrow> JStr []), (''pqc_fix_after'', a)]
           | None \<Rightarrow> [])
      | _ \<Rightarrow> [])"

definition kept_prop :: "string \<Rightarrow> pydict \<Rightarrow> string \<Rightarrow> pydict" where
  "kept_prop k rem k' = (case get_truthy rem k of Some v \<Rightarrow> [(k', v)] | None \<Rightarrow> [])"

definition sarif_props :: "finding_row \<Rightarrow> pydict" where
  "sarif_props f =
     [(''algorithm'', JStr (fr_algorithm f)), (''classification'', JStr (fr_classification f)),
      (''security-severity'', JStr (security_severity (fr_severity f))),
      (''confidence'', case dict_get (fr_evidence f) ''confidence'' of Some v \<Rightarrow> v | None \<Rightarrow> JStr ''high'')] @
     kept_prop ''replacement'' (fr_remediation f) ''pqc_replacement'' @
     kept_prop ''deadline'' (fr_remediation f) ''migration_deadline'' @
     (if get_truthy (fr_remediation f) ''hndl'' \<noteq> None then [(''harvest_now_decrypt_later'', JBool True)] else []) @
     fix_props (fr_remediation f)"

definition sarif_locations :: "pydict \<Rightarrow> pydict" where
  "sarif_locations ev =
     (case dict_get ev ''path'' of
        Some (JStr p) \<Rightarrow>
          if p = [] then []
          else [(''locations'', JList [JObj [(''physicalLocation'', JObj [(''artifactLocation'', JObj [(''uri'', JStr (as_uri p))])])]])]
      | _ \<Rightarrow> [])"

definition result_for :: "finding_row \<Rightarrow> pydict" where
  "result_for f =
     [(''ruleId'', JStr (fr_probe_id f)), (''level'', JStr (level_of (fr_severity f))), (''message'', text_obj (sarif_message f)),
      (''properties'', JObj (sarif_props f))] @ sarif_locations (fr_evidence f)"

section \<open>The loop over the findings\<close>

record sarif_state =
  rules :: "json dict"
  rule_index :: "nat dict"
  results :: "json list"

definition sarif_init :: sarif_state where
  "sarif_init = \<lparr>rules = [], rule_index = [], results = []\<rparr>"

definition add_rule :: "string \<Rightarrow> sarif_state \<Rightarrow> sarif_state" where
  "add_rule pid st =
     (if dict_get (rules st) pid = None
      then st\<lparr>rule_index := dict_set pid (length (rules st)) (rule_index st), rules := dict_set pid (rule_for pid) (rules st)\<rparr>
      else st)"

text \<open>\<^verbatim>\<open>rule_index[f.probe_id]\<close>: a missing key would raise.\<close>

definition add_result :: "finding_row \<Rightarrow> sarif_state \<Rightarrow> sarif_state option" where
  "add_result f st =
     (case dict_get (rule_index st) (fr_probe_id f) of
        None \<Rightarrow> None
      | Some i \<Rightarrow> Some (st\<lparr>results := results st @ [JObj (result_for f @ [(''ruleIndex'', JInt (int i))])]\<rparr>))"

fun sarif_loop :: "finding_row list \<Rightarrow> sarif_state \<Rightarrow> sarif_state option" where
  "sarif_loop [] st = Some st"
| "sarif_loop (f # fs) st = (case add_result f (add_rule (fr_probe_id f) st) of None \<Rightarrow> None | Some st' \<Rightarrow> sarif_loop fs st')"

definition build_sarif :: "nat \<Rightarrow> db \<Rightarrow> json option" where
  "build_sarif sid d =
     (case sarif_loop (list_findings sid d) sarif_init of
        None \<Rightarrow> None
      | Some st \<Rightarrow> Some (JObj
          [(''$schema'', JStr ''https://json.schemastore.org/sarif-2.1.0.json''), (''version'', JStr ''2.1.0''),
           (''runs'', JList [JObj
             [(''tool'', JObj [(''driver'', JObj
                [(''name'', JStr ''pqcscan''), (''version'', JStr VERSION), (''informationUri'', JStr INFO_URI),
                 (''rules'', JList (map snd (rules st)))])]),
              (''results'', JList (results st))]])]))"

section \<open>Rules and results\<close>

lemma update_new: "k \<notin> fst ` set xs \<Longrightarrow> AList.update k v xs = xs @ [(k, v)]"
  by (induction xs) auto

definition add_pid :: "string list \<Rightarrow> string \<Rightarrow> string list" where
  "add_pid ps p = (if p \<in> set ps then ps else ps @ [p])"

lemma set_add_pid [simp]: "set (add_pid ps p) = insert p (set ps)"
  by (auto simp: add_pid_def)

lemma distinct_add_pid: "distinct ps \<Longrightarrow> distinct (add_pid ps p)"
  by (simp add: add_pid_def)

definition indexed_result :: "string list \<Rightarrow> finding_row \<Rightarrow> json \<Rightarrow> bool" where
  "indexed_result ps f r \<longleftrightarrow>
     (\<exists>i < length ps. ps ! i = fr_probe_id f \<and> r = JObj (result_for f @ [(''ruleIndex'', JInt (int i))]))"

lemma indexed_result_mono: "indexed_result ps f r \<Longrightarrow> indexed_result (ps @ [p]) f r"
  unfolding indexed_result_def by (metis length_append_singleton less_SucI nth_append)

text \<open>
  The invariant of the loop: the rules are those of the probes seen, in the order of their first finding, and the
  index of a probe is the position of its rule.
\<close>

definition sarif_inv :: "string list \<Rightarrow> finding_row list \<Rightarrow> sarif_state \<Rightarrow> bool" where
  "sarif_inv ps fs st \<longleftrightarrow>
     distinct ps \<and> map fst (rules st) = ps \<and> map snd (rules st) = map rule_for ps \<and>
     (\<forall>p i. dict_get (rule_index st) p = Some i \<longleftrightarrow> i < length ps \<and> ps ! i = p) \<and>
     list_all2 (indexed_result ps) fs (results st)"

lemma sarif_invD:
  assumes "sarif_inv ps fs st"
  shows "distinct ps" "map fst (rules st) = ps" "map snd (rules st) = map rule_for ps"
    "\<And>p i. dict_get (rule_index st) p = Some i \<longleftrightarrow> i < length ps \<and> ps ! i = p"
    "list_all2 (indexed_result ps) fs (results st)"
  using assms unfolding sarif_inv_def by blast+

lemma sarif_inv_init: "sarif_inv [] [] sarif_init"
  by (simp add: sarif_inv_def sarif_init_def)

lemma add_rule_inv:
  assumes "sarif_inv ps fs st"
  shows "sarif_inv (add_pid ps p) fs (add_rule p st)"
proof (cases "p \<in> set ps")
  case False
  note d = sarif_invD [OF assms]
  have n: "p \<notin> fst ` set (rules st)" using False d(2) by (metis set_map)
  then have g: "dict_get (rules st) p = None" by (simp add: map_of_eq_None_iff)
  have l: "length (rules st) = length ps" using d(2) by (metis length_map)
  have idx: "dict_get (dict_set p (length ps) (rule_index st)) q = Some i \<longleftrightarrow> i < length (ps @ [p]) \<and> (ps @ [p]) ! i = q" for q i
    using d(4) [of q i] False by (auto simp: nth_append less_Suc_eq)
  have "list_all2 (indexed_result (ps @ [p])) fs (results st)"
    by (rule list_all2_mono [OF d(5)]) (rule indexed_result_mono)
  then show ?thesis
    using d(1, 2, 3) False idx by (simp add: sarif_inv_def add_pid_def add_rule_def g l update_new [OF n])
next
  case True
  have "dict_get (rules st) p \<noteq> None"
    using True sarif_invD(2) [OF assms] by (metis map_of_eq_None_iff set_map)
  with True assms show ?thesis by (auto simp: add_pid_def add_rule_def)
qed

lemma add_result_inv:
  assumes "sarif_inv ps fs st" "fr_probe_id f \<in> set ps"
  shows "\<exists>st'. add_result f st = Some st' \<and> sarif_inv ps (fs @ [f]) st'"
proof -
  note d = sarif_invD [OF assms(1)]
  obtain i where i: "i < length ps" "ps ! i = fr_probe_id f" using assms(2) by (auto simp: in_set_conv_nth)
  let ?r = "JObj (result_for f @ [(''ruleIndex'', JInt (int i))])"
  have "dict_get (rule_index st) (fr_probe_id f) = Some i" using d(4) i by blast
  then have "add_result f st = Some (st\<lparr>results := results st @ [?r]\<rparr>)" by (simp add: add_result_def)
  moreover have "list_all2 (indexed_result ps) (fs @ [f]) (results st @ [?r])"
    using d(5) i by (auto simp: indexed_result_def intro!: list_all2_appendI)
  ultimately show ?thesis using d(1, 2, 3, 4) by (simp add: sarif_inv_def)
qed

lemma sarif_loop_inv: "sarif_inv ps fs st \<Longrightarrow>
    \<exists>st' ps'. sarif_loop gs st = Some st' \<and> set ps' = set ps \<union> fr_probe_id ` set gs \<and> sarif_inv ps' (fs @ gs) st'"
proof (induction gs arbitrary: ps fs st)
  case (Cons g gs)
  have "sarif_inv (add_pid ps (fr_probe_id g)) fs (add_rule (fr_probe_id g) st)" by (rule add_rule_inv [OF Cons.prems])
  then obtain st' where st': "add_result g (add_rule (fr_probe_id g) st) = Some st'"
    "sarif_inv (add_pid ps (fr_probe_id g)) (fs @ [g]) st'"
    using add_result_inv [of "add_pid ps (fr_probe_id g)" fs "add_rule (fr_probe_id g) st" g] by auto
  show ?case using Cons.IH [OF st'(2)] st'(1) by simp
qed auto

section \<open>The document\<close>

definition sarif_run :: "json \<Rightarrow> json" where
  "sarif_run doc = (case field ''runs'' doc of Some (JList [r]) \<Rightarrow> r | _ \<Rightarrow> JNull)"

definition run_rules :: "json \<Rightarrow> json list" where
  "run_rules r = (case fields_at [''tool'', ''driver'', ''rules''] r of Some (JList rs) \<Rightarrow> rs | _ \<Rightarrow> [])"

definition run_results :: "json \<Rightarrow> json list" where
  "run_results r = (case field ''results'' r of Some (JList rs) \<Rightarrow> rs | _ \<Rightarrow> [])"

definition linked :: "json list \<Rightarrow> finding_row \<Rightarrow> json \<Rightarrow> bool" where
  "linked rs f r \<longleftrightarrow>
     (\<exists>i < length rs. field ''ruleIndex'' r = Some (JInt (int i)) \<and> field ''id'' (rs ! i) = Some (JStr (fr_probe_id f)) \<and>
        field ''ruleId'' r = Some (JStr (fr_probe_id f)) \<and> fields_at [''message'', ''text''] r = Some (JStr (sarif_message f)))"

lemma field_result:
  "field ''ruleIndex'' (JObj (result_for f @ [(''ruleIndex'', v)])) = Some v"
  "field ''ruleId'' (JObj (result_for f @ [(''ruleIndex'', v)])) = Some (JStr (fr_probe_id f))"
  "fields_at [''message'', ''text''] (JObj (result_for f @ [(''ruleIndex'', v)])) = Some (JStr (sarif_message f))"
  "field ''id'' (rule_for p) = Some (JStr p)"
  by (auto simp: field_def fields_at.simps result_for_def sarif_locations_def text_obj_def rule_for_def split: option.split json.split)

text \<open>C21. 
  The log is always built and its references hold: for every store and scan there is one result for each finding, in
  order, whose rule identifier is the finding's probe, whose rule index points at the rule with that identifier, and
  whose message is the finding's; the rules are those of the probes that reported, each exactly once.
\<close>

theorem sarif_rules_resolve:
  "\<exists>doc. build_sarif sid d = Some doc \<and>
     list_all2 (linked (run_rules (sarif_run doc))) (list_findings sid d) (run_results (sarif_run doc)) \<and>
     distinct (map (field ''id'') (run_rules (sarif_run doc))) \<and>
     set (map (field ''id'') (run_rules (sarif_run doc))) = (\<lambda>f. Some (JStr (fr_probe_id f))) ` set (list_findings sid d)"
proof -
  let ?fs = "list_findings sid d"
  obtain st ps where st: "sarif_loop ?fs sarif_init = Some st" "set ps = fr_probe_id ` set ?fs" "sarif_inv ps ?fs st"
    using sarif_loop_inv [OF sarif_inv_init, of ?fs] by auto
  note r = sarif_invD [OF st(3)]
  have "list_all2 (linked (map rule_for ps)) ?fs (results st)"
    by (rule list_all2_mono [OF r(5)]) (auto simp: indexed_result_def linked_def field_result)
  moreover have "distinct (map (field ''id'') (map rule_for ps))"
    using r(1) by (simp add: distinct_map field_result comp_def inj_on_def)
  moreover have "set (map (field ''id'') (map rule_for ps)) = (\<lambda>f. Some (JStr (fr_probe_id f))) ` set ?fs"
    by (simp add: field_result st(2) image_image)
  moreover obtain doc where "build_sarif sid d = Some doc" "run_rules (sarif_run doc) = map rule_for ps"
    "run_results (sarif_run doc) = results st"
    using r(3) by (simp add: build_sarif_def st(1) run_rules_def run_results_def sarif_run_def field_def fields_at.simps)
  ultimately show ?thesis by metis
qed

end
