(* ===== verification/Zeek.thy ===== *)
theory Zeek
  imports Suite_Class Capture Tls_Client
begin

text \<open>
  \<^verbatim>\<open>probes/fs_zeek_logs.py\<close>: the TLS and certificate observations in the logs of Zeek and Suricata. The listing of
  the log directories, the lines of a log (decoded, line ends translated) and the JSON parser are arguments.
\<close>

section \<open>Vocabulary\<close>

definition ZEEK_PROBE :: string where "ZEEK_PROBE = ''fs.zeek.logs''"

definition LOG_GLOBS :: "(string \<times> string) list" where
  "LOG_GLOBS = [(''zeek:x509.log'', ''x509*.log''), (''zeek:ssl.log'', ''ssl*.log''), (''suricata:eve.json'', ''eve*.json'')]"

definition DEFAULT_LOG_ROOTS :: "string list" where
  "DEFAULT_LOG_ROOTS = [''/opt/zeek/logs'', ''/usr/local/zeek/logs'', ''/var/log/zeek'', ''/var/log/suricata'', ''/nsm/zeek/logs'']"

definition log_roots :: "string list option \<Rightarrow> string list" where
  "log_roots roots = (case roots of Some rs \<Rightarrow> rs | None \<Rightarrow> DEFAULT_LOG_ROOTS)"

text \<open>\<^const>\<open>None\<close> for a root whose existence cannot be told.\<close>

definition applies_zeek :: "(string \<Rightarrow> bool option) \<Rightarrow> string list option \<Rightarrow> bool" where
  "applies_zeek exists' roots \<longleftrightarrow> list_ex (\<lambda>r. exists' r = Some True) (log_roots roots)"

definition MAX_LOG_FILES :: nat where "MAX_LOG_FILES = 200"

definition MAX_LINES_PER_FILE :: nat where "MAX_LINES_PER_FILE = 500000"

definition MAX_ZEEK_FINDINGS :: nat where "MAX_ZEEK_FINDINGS = 500"

definition WEAK_VERSION_TOKENS :: "string list" where
  "WEAK_VERSION_TOKENS = [''ssl2'', ''ssl3'', ''tls10'', ''tls11'']"

definition PQC_CURVE_FRAGMENTS :: "string list" where
  "PQC_CURVE_FRAGMENTS = [''mlkem'', ''ml-kem'', ''kyber'', ''frodo'', ''bike'', ''hqc'', ''sntrup'']"

definition should_emit :: "classification \<Rightarrow> bool" where
  "should_emit cls \<longleftrightarrow> cls \<in> {SANGAT_TINGGI, TINGGI, PQC_READY}"

definition norm_version :: "string \<Rightarrow> string" where
  "norm_version v = filter (\<lambda>c. c \<notin> {CHR '' '', CHR ''.'', CHR ''-'', CHR ''v''}) (py_lower v)"

definition classify_version :: "string \<Rightarrow> classification option" where
  "classify_version v = (if norm_version v \<in> set WEAK_VERSION_TOKENS then Some SANGAT_TINGGI else None)"

definition classify_curve :: "string \<Rightarrow> classification" where
  "classify_curve name =
     (let low = py_lower name in
      if contains_any low PQC_CURVE_FRAGMENTS then PQC_READY
      else
        (let direct = classify name in
         if direct \<noteq> CLS_INFO then direct
         else if contains low ''25519'' \<or> contains low ''448'' then TINGGI
         else CLS_INFO))"

section \<open>Reading a log\<close>

definition hex_value :: "char \<Rightarrow> nat option" where
  "hex_value c =
     (let n = char_code c in
      if 48 \<le> n \<and> n \<le> 57 then Some (n - 48)
      else if 65 \<le> n \<and> n \<le> 70 then Some (n - 55)
      else if 97 \<le> n \<and> n \<le> 102 then Some (n - 87)
      else None)"

definition oct_value :: "char \<Rightarrow> nat option" where
  "oct_value c = (let n = char_code c in if 48 \<le> n \<and> n \<le> 55 then Some (n - 48) else None)"

definition simple_escape :: "char \<Rightarrow> nat option" where
  "simple_escape c = map_of [(CHR 0x5C, 92), (CHR 0x27, 39), (CHR 0x22, 34), (CHR ''a'', 7), (CHR ''b'', 8), (CHR ''f'', 12),
     (CHR ''n'', 10), (CHR ''r'', 13), (CHR ''t'', 9), (CHR ''v'', 11)] c"

text \<open>The value of exactly \<open>n\<close> hexadecimal digits, and the value of the octal digits at the front, three at most.\<close>

definition hex_run :: "nat \<Rightarrow> string \<Rightarrow> nat option" where
  "hex_run n s =
     (if length s < n \<or> list_ex (\<lambda>c. hex_value c = None) (take n s) then None
      else Some (foldl (\<lambda>v c. 16 * v + the (hex_value c)) 0 (take n s)))"

definition oct_run :: "string \<Rightarrow> string" where
  "oct_run s = takeWhile (\<lambda>c. oct_value c \<noteq> None) (take 3 s)"

definition hex_width :: "char \<Rightarrow> nat option" where
  "hex_width c = map_of [(CHR ''x'', 2), (CHR ''u'', 4), (CHR ''U'', 8)] c"

text \<open>
  The codec \<^verbatim>\<open>unicode_escape\<close>, \<^const>\<open>None\<close> where it fails. A character is a byte of the text here: an escape
  beyond ASCII and a \<^verbatim>\<open>\N\<close> escape, which needs the table of character names, are taken as failures.
\<close>

function unescape :: "string \<Rightarrow> string option" where
  "unescape s =
     (case s of
        [] \<Rightarrow> Some []
      | c # cs \<Rightarrow>
          if c \<noteq> CHR 0x5C then map_option ((#) c) (unescape cs)
          else
            (case cs of
               [] \<Rightarrow> None
             | e # es \<Rightarrow>
                 (case (simple_escape e, hex_width e) of
                    (Some n, _) \<Rightarrow> map_option ((#) (char_of n)) (unescape es)
                  | (None, Some w) \<Rightarrow>
                      (case hex_run w es of
                         Some v \<Rightarrow> if v < 128 then map_option ((#) (char_of v)) (unescape (drop w es)) else None
                       | None \<Rightarrow> None)
                  | (None, None) \<Rightarrow>
                      if e = CHR ''N'' then None
                      else if oct_value e \<noteq> None then
                        (let v = foldl (\<lambda>v c. 8 * v + the (oct_value c)) 0 (oct_run (e # es)) in
                         if v < 128 then map_option ((#) (char_of v)) (unescape (drop (length (oct_run (e # es)) - 1) es)) else None)
                      else map_option (\<lambda>t. c # e # t) (unescape es))))"
  by pat_completeness auto
termination
  by (relation "measure length") auto

declare unescape.simps [simp del]

definition decode_separator :: "string \<Rightarrow> string" where
  "decode_separator raw = (case unescape raw of Some s \<Rightarrow> s | None \<Rightarrow> [CHR 0x09])"

text \<open>\<^verbatim>\<open>s.split(sep)\<close> for a separator that is not empty.\<close>

function split_str :: "string \<Rightarrow> string \<Rightarrow> string \<Rightarrow> string list" where
  "split_str sep acc s =
     (if s = [] \<or> sep = [] then [acc @ s]
      else if startswith s sep then acc # split_str sep [] (drop (length sep) s)
      else split_str sep (acc @ [hd s]) (tl s))"
  by pat_completeness auto
termination
  by (relation "measure (\<lambda>(sep, acc, s). length s)") (auto simp: neq_Nil_conv)

declare split_str.simps [simp del]

definition row_of :: "string list \<Rightarrow> string list \<Rightarrow> pydict" where
  "row_of hdr cols = foldl (\<lambda>d (k, v). dict_set k (JStr v) d) [] (zip hdr cols)"

definition chomp :: "string \<Rightarrow> string" where
  "chomp raw = rstrip_set (\<lambda>c. c = CHR 0x0D) (rstrip_set (\<lambda>c. c = CHR 0x0A) raw)"

definition opens_json :: "bool option \<Rightarrow> string \<Rightarrow> bool" where
  "opens_json mode line = (case mode of None \<Rightarrow> startswith (lstrip_set is_space line) ''{'' | Some b \<Rightarrow> b)"

definition separator_of :: "string \<Rightarrow> string \<Rightarrow> string" where
  "separator_of line sep =
     (if CHR '' '' \<in> set line then decode_separator (py_strip (snd (partition_char (CHR '' '') line))) else sep)"

text \<open>The rows of a log, and whether splitting at an empty separator raised.\<close>

fun log_rows ::
  "(string \<Rightarrow> json option) \<Rightarrow> string list \<Rightarrow> bool option \<Rightarrow> string \<Rightarrow> string list option \<Rightarrow> pydict list \<times> bool" where
  "log_rows ld [] mode sep hdr = ([], False)"
| "log_rows ld (raw # raws) mode sep hdr =
     (let line = chomp raw; js = opens_json mode line;
          row = (\<lambda>r. (let (rs, e) = log_rows ld raws (Some js) sep hdr in (r # rs, e))) in
      if line = [] then log_rows ld raws mode sep hdr
      else if js then
        (case ld line of Some (JObj d) \<Rightarrow> row d | _ \<Rightarrow> log_rows ld raws (Some js) sep hdr)
      else if startswith line ''#'' then
        (if startswith line ''#separator'' then log_rows ld raws (Some js) (separator_of line sep) hdr
         else if startswith line ''#fields'' then
           (if sep = [] then ([], True) else log_rows ld raws (Some js) sep (Some (tl (split_str sep [] line))))
         else log_rows ld raws (Some js) sep hdr)
      else
        (case hdr of
           None \<Rightarrow> log_rows ld raws (Some js) sep hdr
         | Some fs \<Rightarrow> if sep = [] then ([], True) else row (row_of fs (split_str sep [] line))))"

section \<open>Observations\<close>

definition cell :: "pydict \<Rightarrow> string \<Rightarrow> string option" where
  "cell row key =
     (case dict_get row key of
        None \<Rightarrow> None
      | Some JNull \<Rightarrow> None
      | Some v \<Rightarrow> (let s = py_strip (py_str v) in if s \<in> {[], ''-'', ''(empty)''} then None else Some s))"

record zeek_obs =
  zo_alg :: string
  zo_class :: classification
  zo_observed :: string

definition obs_if :: "(string \<Rightarrow> string) \<Rightarrow> (string \<Rightarrow> classification) \<Rightarrow> string option \<Rightarrow> zeek_obs list" where
  "obs_if name cls v =
     (case v of
        None \<Rightarrow> []
      | Some s \<Rightarrow> if should_emit (cls s) then [\<lparr>zo_alg = name s, zo_class = cls s, zo_observed = s\<rparr>] else [])"

definition version_obs :: "string option \<Rightarrow> zeek_obs list" where
  "version_obs v =
     (case v of
        None \<Rightarrow> []
      | Some s \<Rightarrow> (case classify_version s of Some c \<Rightarrow> [\<lparr>zo_alg = s, zo_class = c, zo_observed = s\<rparr>] | None \<Rightarrow> []))"

definition analyze_ssl :: "pydict \<Rightarrow> zeek_obs list" where
  "analyze_ssl row =
     version_obs (cell row ''version'') @ obs_if id classify_suite (cell row ''cipher'') @ obs_if id classify_curve (cell row ''curve'')"

definition analyze_x509 :: "pydict \<Rightarrow> zeek_obs list" where
  "analyze_x509 row =
     obs_if normalise classify (cell row ''certificate.sig_alg'') @ obs_if normalise classify (cell row ''certificate.key_alg'') @
     obs_if id classify_curve (cell row ''certificate.curve'')"

definition analyze_suricata :: "pydict \<Rightarrow> zeek_obs list" where
  "analyze_suricata obj =
     (if dict_get obj ''event_type'' \<noteq> Some (JStr ''tls'') then []
      else
        (case dict_get obj ''tls'' of
           Some (JObj tls) \<Rightarrow> version_obs (cell tls ''version'') @ obs_if id classify_suite (cell tls ''cipher_suite'')
         | _ \<Rightarrow> []))"

definition analyze_row :: "string \<Rightarrow> pydict \<Rightarrow> zeek_obs list" where
  "analyze_row source =
     (if source = ''zeek:ssl.log'' then analyze_ssl else if source = ''zeek:x509.log'' then analyze_x509 else analyze_suricata)"

text \<open>Server name, responder address and port of a row.\<close>

definition row_context :: "string \<Rightarrow> pydict \<Rightarrow> string option \<times> string option \<times> string option" where
  "row_context source row =
     (if source = ''suricata:eve.json'' then
        (let tls = (case dict_get row ''tls'' of Some (JObj d) \<Rightarrow> d | _ \<Rightarrow> []) in
         (cell tls ''sni'', cell row ''dest_ip'', cell row ''dest_port''))
      else if source = ''zeek:x509.log'' then (cell row ''san.dns'', None, None)
      else (cell row ''server_name'', cell row ''id.resp_h'', cell row ''id.resp_p''))"

definition row_endpoint :: "string \<Rightarrow> string option \<times> string option \<times> string option \<Rightarrow> string" where
  "row_endpoint none cx = (case cx of (Some s, _, _) \<Rightarrow> s | (None, Some h, _) \<Rightarrow> h | (None, None, _) \<Rightarrow> none)"

section \<open>Findings\<close>

text \<open>\<open>zf_lines\<close> is \<^const>\<open>None\<close> for a file that cannot be opened; \<open>zf_broken\<close>: reading failed after these lines.\<close>

record zeek_file =
  zf_name :: string
  zf_path :: string
  zf_is_file :: bool
  zf_lines :: "string list option"
  zf_broken :: bool

definition opt_entry :: "string \<Rightarrow> string option \<Rightarrow> pydict" where
  "opt_entry k v = (case v of Some s \<Rightarrow> [(k, JStr s)] | None \<Rightarrow> [])"

definition zeek_finding ::
  "int \<Rightarrow> string \<Rightarrow> zeek_file \<Rightarrow> (string option \<times> string option \<times> string option) \<times> zeek_obs \<Rightarrow> finding" where
  "zeek_finding now source f co =
     (let ((server, resp_h, resp_p), ob) = co in
      (mk_finding ZEEK_PROBE (zo_alg ob) (zo_class ob) (sev_for (zo_class ob))
         (zf_name f @ '': '' @ source @ '' '' @ zo_alg ob @ '' observed ('' @ row_endpoint ''unknown'' (fst co) @ '')'')
         ([(''source'', JStr source), (''path'', JStr (zf_path f)), (''observed'', JStr (zo_observed ob)), (''confidence'', JStr ''medium'')] @
          opt_entry (if source \<noteq> ''suricata:eve.json'' then ''server_name'' else ''sni'') server @ opt_entry ''resp_h'' resp_h @
          opt_entry ''resp_p'' resp_p) [] now)\<lparr>confidence := ''medium''\<rparr>)"

definition rows_note :: "int \<Rightarrow> string \<Rightarrow> zeek_file \<Rightarrow> nat \<Rightarrow> nat \<Rightarrow> finding" where
  "rows_note now source f rows eps =
     (mk_finding ZEEK_PROBE ''N/A'' CLS_INFO SEV_INFO
        (zf_name f @ '': ingested '' @ show_nat rows @ '' '' @ source @ '' rows, '' @ show_nat eps @ '' distinct endpoints'')
        [(''source'', JStr source), (''path'', JStr (zf_path f)), (''rows'', JInt (int rows)), (''endpoints'', JInt (int eps))] []
        now)\<lparr>confidence := ''medium''\<rparr>"

definition truncation_finding :: "int \<Rightarrow> finding" where
  "truncation_finding now =
     (mk_finding ZEEK_PROBE ''N/A'' CLS_INFO SEV_INFO
        (''finding cap ('' @ show_nat MAX_ZEEK_FINDINGS @ '') reached '' @ DASH @ '' output truncated'')
        [(''cap'', JInt (int MAX_ZEEK_FINDINGS)), (''confidence'', JStr ''medium'')] [] now)\<lparr>confidence := ''medium''\<rparr>"

section \<open>The scan\<close>

type_synonym zeek_key = "string \<times> string \<times> string"

text \<open>The keys seen, the count of all files, the findings of this file, and whether the cap stopped it.\<close>

record zeek_state =
  zk_seen :: "zeek_key list"
  zk_emitted :: nat
  zk_out :: "finding list"
  zk_full :: bool

definition zeek_key :: "string \<Rightarrow> (string option \<times> string option \<times> string option) \<times> zeek_obs \<Rightarrow> zeek_key" where
  "zeek_key source co = (row_endpoint ''-'' (fst co), zo_alg (snd co), source)"

fun emit_row ::
  "int \<Rightarrow> string \<Rightarrow> zeek_file \<Rightarrow> string option \<times> string option \<times> string option \<Rightarrow> zeek_obs list \<Rightarrow> zeek_state \<Rightarrow> zeek_state" where
  "emit_row now source f cx [] st = st"
| "emit_row now source f cx (ob # obs) st =
     (let k = zeek_key source (cx, ob) in
      if k \<in> set (zk_seen st) then emit_row now source f cx obs st
      else
        (let st1 = st\<lparr>zk_seen := k # zk_seen st\<rparr> in
         if zk_emitted st \<ge> MAX_ZEEK_FINDINGS then st1\<lparr>zk_full := True\<rparr>
         else emit_row now source f cx obs
           (st1\<lparr>zk_out := zk_out st @ [zeek_finding now source f (cx, ob)], zk_emitted := zk_emitted st + 1\<rparr>)))"

fun emit_rows :: "int \<Rightarrow> string \<Rightarrow> zeek_file \<Rightarrow> pydict list \<Rightarrow> zeek_state \<Rightarrow> zeek_state" where
  "emit_rows now source f [] st = st"
| "emit_rows now source f (row # rows) st =
     (let st' = emit_row now source f (row_context source row) (analyze_row source row) st in
      if zk_full st' then st' else emit_rows now source f rows st')"

definition file_rows :: "(string \<Rightarrow> json option) \<Rightarrow> zeek_file \<Rightarrow> pydict list \<times> bool" where
  "file_rows ld f = (case zf_lines f of None \<Rightarrow> ([], False) | Some ls \<Rightarrow> log_rows ld (take MAX_LINES_PER_FILE ls) None [CHR 0x09] None)"

text \<open>One file: its findings, the keys and the count after it, and whether an exception left it. A log that breaks off
  with an \<^verbatim>\<open>OSError\<close> has no note.\<close>

definition scan_log ::
  "(string \<Rightarrow> json option) \<Rightarrow> int \<Rightarrow> string \<Rightarrow> zeek_file \<Rightarrow> zeek_key list \<Rightarrow> nat \<Rightarrow> finding list \<times> zeek_key list \<times> nat \<times> bool" where
  "scan_log ld now source f seen emitted =
     (let (rows, raised) = file_rows ld f;
          st = emit_rows now source f rows \<lparr>zk_seen = seen, zk_emitted = emitted, zk_out = [], zk_full = False\<rparr>;
          eps = remdups (map (\<lambda>row. row_endpoint ''-'' (row_context source row)) rows) in
      if zk_full st then (zk_out st, zk_seen st, zk_emitted st, False)
      else if raised then (zk_out st, zk_seen st, zk_emitted st, True)
      else (zk_out st @ (if rows \<noteq> [] \<and> \<not> zf_broken f then [rows_note now source f (length rows) (length eps)] else []),
            zk_seen st, zk_emitted st, False))"

fun scan_logs ::
  "(string \<Rightarrow> json option) \<Rightarrow> int \<Rightarrow> (string \<times> zeek_file) list \<Rightarrow> zeek_key list \<Rightarrow> nat \<Rightarrow> finding list \<times> bool" where
  "scan_logs ld now [] seen emitted = ([], False)"
| "scan_logs ld now ((source, f) # fs) seen emitted =
     (let (out, seen', emitted', raised) = scan_log ld now source f seen emitted in
      if raised then (out, True)
      else if emitted' \<ge> MAX_ZEEK_FINDINGS then (out @ [truncation_finding now], False)
      else (let (out', r) = scan_logs ld now fs seen' emitted' in (out @ out', r)))"

text \<open>A root: what each pattern hits_of, in order; \<^const>\<open>None\<close> for no directory or an unreadable one.\<close>

type_synonym zeek_root = "(string \<Rightarrow> zeek_file list option) option"

definition root_logs :: "zeek_root \<Rightarrow> (string \<times> zeek_file) list" where
  "root_logs root =
     (case root of
        None \<Rightarrow> []
      | Some hits_of \<Rightarrow>
          concat (map (\<lambda>(source, pattern). case hits_of pattern of None \<Rightarrow> [] | Some fs \<Rightarrow> map (Pair source) (filter zf_is_file fs)) LOG_GLOBS))"

definition iter_log_files :: "zeek_root list \<Rightarrow> (string \<times> zeek_file) list" where
  "iter_log_files roots = take MAX_LOG_FILES (concat (map root_logs roots))"

definition run_zeek :: "(string \<Rightarrow> json option) \<Rightarrow> int \<Rightarrow> zeek_root list \<Rightarrow> finding list \<times> bool" where
  "run_zeek ld now roots = scan_logs ld now (iter_log_files roots) [] 0"

end
