(* ===== verification/Zeek_Laws.thy ===== *)
theory Zeek_Laws
  imports Zeek Capped_Report
begin

text \<open>
  The reader of sensor logs: tab-separated logs are read by their header whatever the order of the columns, and what
  they show is reported once for each endpoint, unless the report is cut at its cap and says so.
\<close>

section \<open>Splitting a line\<close>

lemma split_str_char: "split_str [c] acc s = (acc @ hd (split_on c s)) # tl (split_on c s)"
proof (induction s arbitrary: acc)
  case (Cons x xs)
  obtain p ps where "split_on c xs = p # ps" by (cases "split_on c xs") auto
  with Cons show ?case by (subst split_str.simps) (auto simp: startswith_def)
qed (subst split_str.simps, simp)

lemma split_str_join: "cells \<noteq> [] \<Longrightarrow> list_all (\<lambda>s. c \<notin> set s) cells \<Longrightarrow> split_str [c] [] (join_with [c] cells) = cells"
  by (simp add: split_str_char split_on_join)

lemma join_hd: "cells \<noteq> [] \<Longrightarrow> hd cells \<noteq> [] \<Longrightarrow> join_with [c] cells \<noteq> [] \<and> hd (join_with [c] cells) = hd (hd cells)"
  by (cases "([c], cells)" rule: join_with.cases) auto

section \<open>A tab-separated log\<close>

abbreviation tab :: char where
  "tab \<equiv> CHR 0x09"

text \<open>A cell has no tab and no line end; the first cell of a row is not empty and does not begin a comment.\<close>

definition plain_cell :: "string \<Rightarrow> bool" where
  "plain_cell s \<longleftrightarrow> tab \<notin> set s \<and> CHR 0x0A \<notin> set s \<and> CHR 0x0D \<notin> set s"

definition table_row :: "string list \<Rightarrow> bool" where
  "table_row cells \<longleftrightarrow> cells \<noteq> [] \<and> list_all plain_cell cells \<and> hd cells \<noteq> [] \<and> hd (hd cells) \<noteq> CHR ''#''"

definition remark :: "string \<Rightarrow> bool" where
  "remark l \<longleftrightarrow> startswith l ''#'' \<and> \<not> startswith l ''#separator'' \<and> \<not> startswith l ''#fields'' \<and>
     CHR 0x0A \<notin> set l \<and> CHR 0x0D \<notin> set l"

definition tsv_log :: "string list \<Rightarrow> string list \<Rightarrow> string list list \<Rightarrow> string list" where
  "tsv_log hdr remarks rows =
     map (\<lambda>l. l @ [newline])
       ((''#separator '' @ [CHR 0x5C] @ ''x09'') # join_with [tab] (''#fields'' # hdr) # remarks @ map (join_with [tab]) rows)"

lemma length_tsv_log [simp]: "length (tsv_log hdr remarks rows) = 2 + length remarks + length rows"
  by (simp add: tsv_log_def)

lemma chomp_line: "CHR 0x0A \<notin> set l \<Longrightarrow> CHR 0x0D \<notin> set l \<Longrightarrow> chomp (l @ [newline]) = l"
  by (cases l rule: rev_cases) (auto simp: chomp_def rstrip_set_def)

lemma join_plain: "cells \<noteq> [] \<Longrightarrow> list_all plain_cell cells \<Longrightarrow>
    CHR 0x0A \<notin> set (join_with [tab] cells) \<and> CHR 0x0D \<notin> set (join_with [tab] cells)"
  using join_chars [of tab cells] by (fastforce simp: plain_cell_def list_all_iff)

lemma plain_no_tab: "list_all plain_cell cells \<Longrightarrow> list_all (\<lambda>s. tab \<notin> set s) cells"
  by (auto simp: plain_cell_def list_all_iff)

lemma read_separator: "separator_of (''#separator '' @ [CHR 0x5C] @ ''x09'') sep = [tab]"
proof -
  have "unescape ([CHR 0x5C] @ ''x09'') = Some [tab]"
    by code_simp
  then show ?thesis
    by (simp add: separator_of_def partition_char_def decode_separator_def py_strip_def lstrip_set_def rstrip_set_def is_space_Char)
qed

lemma read_rows:
  "list_all table_row rows \<Longrightarrow>
   log_rows ld (map (\<lambda>l. l @ [newline]) (map (join_with [tab]) rows)) (Some False) [tab] (Some hdr) = (map (row_of hdr) rows, False)"
proof (induction rows)
  case (Cons r rows)
  then have r: "r \<noteq> []" "list_all plain_cell r" "hd r \<noteq> []" "hd (hd r) \<noteq> CHR ''#''"
    by (simp_all add: table_row_def)
  let ?l = "join_with [tab] r"
  have "\<not> startswith ?l ''#''" "?l \<noteq> []"
    using join_hd [OF r(1, 3), of tab] r(4) by (auto simp: startswith_def prefix_def)
  with Cons r show ?case
    by (simp add: chomp_line join_plain opens_json_def split_str_join plain_no_tab)
qed simp

lemma read_remarks:
  "list_all remark ls \<Longrightarrow>
   log_rows ld (map (\<lambda>l. l @ [newline]) ls @ raws) (Some False) sep hdr = log_rows ld raws (Some False) sep hdr"
  by (induction ls) (auto simp: remark_def chomp_line opens_json_def startswith_def)

lemma read_tsv_log:
  assumes "list_all plain_cell hdr" "list_all remark remarks" "list_all table_row rows"
  shows "log_rows ld (tsv_log hdr remarks rows) None [tab] None = (map (row_of hdr) rows, False)"
proof -
  have plain: "list_all plain_cell (''#fields'' # hdr)"
    using assms(1) by (simp add: plain_cell_def)
  let ?h = "join_with [tab] (''#fields'' # hdr)"
  have h: "startswith ?h ''#fields''" "?h \<noteq> []"
    by (cases hdr; simp add: startswith_def)+
  then have "startswith ?h ''#''" "\<not> startswith ?h ''#separator''"
    by (auto simp: startswith_def prefix_def)
  then have fl: "log_rows ld ((?h @ [newline]) # raws) (Some False) [tab] None = log_rows ld raws (Some False) [tab] (Some hdr)" for raws
    using h join_plain [OF _ plain] split_str_join [OF _ plain_no_tab [OF plain]]
    by (simp add: chomp_line opens_json_def)
  have sp: "log_rows ld (((''#separator '' @ [CHR 0x5C] @ ''x09'') @ [newline]) # raws) None [tab] None = log_rows ld raws (Some False) [tab] None" for raws
    by (subst log_rows.simps, subst chomp_line; simp add: opens_json_def read_separator [simplified] startswith_def lstrip_set_def is_space_Char)
  show ?thesis
    by (simp only: tsv_log_def list.map map_append sp fl read_remarks [OF assms(2)] read_rows [OF assms(3)])
qed

section \<open>Rows by name\<close>

lemma dict_get_build: "distinct (map fst kvs) \<Longrightarrow>
    map_of (foldl (\<lambda>d (k, v). dict_set k (JStr v) d) d kvs) = map_of d ++ (map_option JStr \<circ> map_of kvs)"
proof (induction kvs arbitrary: d)
  case (Cons kv kvs)
  obtain k v where kv: "kv = (k, v)" by force
  with Cons.prems have "map_of kvs k = None" by (force simp: map_of_eq_None_iff)
  with Cons kv show ?case by (auto simp: map_add_def fun_eq_iff split: option.splits)
qed (auto simp: map_add_def)

lemma dict_get_row:
  assumes "distinct hdr"
  shows "dict_get (row_of hdr cells) k = map_option JStr (map_of (zip hdr cells) k)"
proof -
  have "distinct (map fst (zip hdr cells))"
    using assms by (simp add: map_fst_zip_take distinct_take)
  from dict_get_build [OF this, of "[]"] show ?thesis
    by (simp add: row_of_def map_add_def split: option.splits)
qed

lemma cell_cong: "dict_get r = dict_get r' \<Longrightarrow> cell r = cell r'"
  by (auto simp: cell_def fun_eq_iff)

lemma analyze_cong:
  assumes "dict_get r = dict_get r'"
  shows "analyze_row source r = analyze_row source r'" and "row_context source r = row_context source r'"
  using assms cell_cong [OF assms]
  by (simp_all add: analyze_row_def analyze_ssl_def analyze_x509_def analyze_suricata_def row_context_def)

text \<open>The same columns in another order.\<close>

definition same_columns :: "string list \<Rightarrow> string list \<Rightarrow> string list list \<Rightarrow> string list list \<Rightarrow> bool" where
  "same_columns hdr hdr' rows rows' \<longleftrightarrow> list_all2 (\<lambda>r r'. set (zip hdr r) = set (zip hdr' r')) rows rows'"

lemma reordered_row:
  assumes "distinct hdr" "distinct hdr'" "set (zip hdr r) = set (zip hdr' r')"
  shows "dict_get (row_of hdr r) = dict_get (row_of hdr' r')"
proof -
  have "distinct (map fst (zip hdr r))" "distinct (map fst (zip hdr' r'))"
    using assms(1, 2) by (simp_all add: map_fst_zip_take distinct_take)
  then have "map_of (zip hdr r) = map_of (zip hdr' r')"
    using assms(3) by (simp add: map_of_inject_set)
  then show ?thesis
    using assms(1, 2) by (simp add: dict_get_row fun_eq_iff)
qed

section \<open>The report\<close>

definition zeek_step ::
  "int \<Rightarrow> string \<Rightarrow> zeek_file \<Rightarrow> (string option \<times> string option \<times> string option) \<times> zeek_obs \<Rightarrow> zeek_state \<Rightarrow> zeek_state" where
  "zeek_step now source f x = emit_row now source f (fst x) [snd x]"

interpretation zeek: capped_report "zeek_step now source f" "zeek_key source" "zeek_finding now source f" zk_seen zk_out zk_full
  "\<lambda>st. zk_emitted st = base + length (zk_out st)" "MAX_ZEEK_FINDINGS - base" for now source f base
  by unfold_locales (auto simp: zeek_step_def Let_def)

definition row_items :: "string \<Rightarrow> pydict list \<Rightarrow> ((string option \<times> string option \<times> string option) \<times> zeek_obs) list" where
  "row_items source rows = concat (map (\<lambda>r. map (Pair (row_context source r)) (analyze_row source r)) rows)"

lemma emit_row_all: "\<not> zk_full st \<Longrightarrow> emit_row now source f cx obs st = run_until zk_full (zeek_step now source f) (map (Pair cx) obs) st"
  by (induction obs arbitrary: st) (auto simp: zeek_step_def Let_def)

lemma emit_rows_all:
  "\<not> zk_full st \<Longrightarrow> emit_rows now source f rows st = run_until zk_full (zeek_step now source f) (row_items source rows) st"
proof (induction rows arbitrary: st)
  case (Cons r rows)
  let ?xs = "map (Pair (row_context source r)) (analyze_row source r)"
  have "row_items source (r # rows) = ?xs @ row_items source rows"
    by (simp add: row_items_def)
  with Cons show ?case
    by (simp add: run_until_append emit_row_all Let_def)
qed (simp add: row_items_def)

lemma full_at_cap: "zk_full (emit_row now source f cx obs st) \<Longrightarrow> zk_full st \<or> MAX_ZEEK_FINDINGS \<le> zk_emitted (emit_row now source f cx obs st)"
proof (induction obs arbitrary: st)
  case (Cons ob obs)
  show ?case
  proof (cases "zeek_key source (cx, ob) \<in> set (zk_seen st) \<or> MAX_ZEEK_FINDINGS \<le> zk_emitted st")
    case True
    with Cons.prems Cons.IH [of st] show ?thesis by (cases "zeek_key source (cx, ob) \<in> set (zk_seen st)") simp_all
  next
    case False
    with Cons.prems Cons.IH [of "st\<lparr>zk_seen := zeek_key source (cx, ob) # zk_seen st,
        zk_out := zk_out st @ [zeek_finding now source f (cx, ob)], zk_emitted := zk_emitted st + 1\<rparr>"]
    show ?thesis by (simp add: Let_def)
  qed
qed simp

lemma rows_full_at_cap:
  "zk_full (emit_rows now source f rows st) \<Longrightarrow> zk_full st \<or> MAX_ZEEK_FINDINGS \<le> zk_emitted (emit_rows now source f rows st)"
  by (induction rows arbitrary: st) (auto simp: Let_def dest: full_at_cap split: if_splits)

text \<open>What one log leaves behind when the cap was not reached.\<close>

lemma scan_log_uncapped:
  assumes "scan_log ld now source f seen emitted = (outs, seen', emitted', False)" and "emitted' < MAX_ZEEK_FINDINGS"
  shows "set seen' = set seen \<union> zeek_key source ` set (row_items source (fst (file_rows ld f)))"
    and "zeek_finding now source f ` set (distinct_by (zeek_key source) seen (row_items source (fst (file_rows ld f)))) \<subseteq> set outs"
proof -
  obtain rows raised where fr: "file_rows ld f = (rows, raised)" by force
  let ?init = "\<lparr>zk_seen = seen, zk_emitted = emitted, zk_out = [], zk_full = False\<rparr>"
  let ?st = "emit_rows now source f rows ?init"
  have out: "seen' = zk_seen ?st" "emitted' = zk_emitted ?st" "set (zk_out ?st) \<subseteq> set outs"
    using assms(1) by (auto simp: scan_log_def fr Let_def split: if_splits)
  have nf: "\<not> zk_full ?st"
  proof
    assume "zk_full ?st"
    from rows_full_at_cap [OF this] assms(2) out(2) show False by simp
  qed
  have st: "?st = run_until zk_full (zeek_step now source f) (row_items source rows) ?init"
    by (rule emit_rows_all) simp
  note un = zeek.uncapped [where base = emitted and st = ?init and now = now and source = source and f = f and xs = "row_items source rows", folded st]
  show "set seen' = set seen \<union> zeek_key source ` set (row_items source (fst (file_rows ld f)))"
    using un nf by (simp add: fr out(1))
  have rep: "zk_out ?st = map (zeek_finding now source f) (take (MAX_ZEEK_FINDINGS - emitted) (distinct_by (zeek_key source) seen (row_items source rows)))
    \<and> \<not> MAX_ZEEK_FINDINGS - emitted < length (distinct_by (zeek_key source) seen (row_items source rows))"
    using zeek.reports [where base = emitted and st = ?init and now = now and source = source and f = f and xs = "row_items source rows", folded st] nf by simp
  show "zeek_finding now source f ` set (distinct_by (zeek_key source) seen (row_items source (fst (file_rows ld f)))) \<subseteq> set outs"
    using rep out(3) by (simp add: fr not_less)
qed

text \<open>Some finding of the report stands for the observation with this key.\<close>

definition stands_for ::
  "(string \<Rightarrow> json option) \<Rightarrow> int \<Rightarrow> (string \<times> zeek_file) list \<Rightarrow> finding list \<Rightarrow> zeek_key \<Rightarrow> bool" where
  "stands_for ld now logs outs k \<longleftrightarrow>
     (\<exists>(source, f)\<in>set logs. \<exists>x\<in>set (row_items source (fst (file_rows ld f))). zeek_key source x = k \<and> zeek_finding now source f x \<in> set outs)"

lemma stands_for_mono:
  "stands_for ld now logs outs k \<Longrightarrow> set logs \<subseteq> set logs' \<Longrightarrow> set outs \<subseteq> set outs' \<Longrightarrow> stands_for ld now logs' outs' k"
  unfolding stands_for_def by blast

lemma scan_logs_report:
  assumes "scan_logs ld now logs seen emitted = (outs, False)" and "truncation_finding now \<notin> set outs"
    and "(source, f) \<in> set logs" "x \<in> set (row_items source (fst (file_rows ld f)))" "zeek_key source x \<notin> set seen"
  shows "stands_for ld now logs outs (zeek_key source x)"
  using assms
proof (induction logs arbitrary: seen emitted outs)
  case (Cons log logs)
  obtain src g where log: "log = (src, g)" by force
  obtain o1 seen' emitted' raised where sl: "scan_log ld now src g seen emitted = (o1, seen', emitted', raised)"
    by (cases "scan_log ld now src g seen emitted")
  obtain o2 r where rest: "scan_logs ld now logs seen' emitted' = (o2, r)" by force
  from Cons.prems(1, 2) have low: "\<not> raised" "emitted' < MAX_ZEEK_FINDINGS" "outs = o1 @ o2" "\<not> r"
    by (auto simp: log sl rest split: if_splits)
  note here = scan_log_uncapped [OF sl [unfolded eq_False [THEN iffD2, OF low(1)]] low(2)]
  let ?items = "row_items src (fst (file_rows ld g))"
  show ?case
  proof (cases "zeek_key source x \<in> zeek_key src ` set ?items")
    case True
    then have "zeek_key source x \<in> zeek_key src ` set (distinct_by (zeek_key src) seen ?items)"
      using Cons.prems(5) by (simp add: distinct_by_keys)
    then obtain y where y: "y \<in> set (distinct_by (zeek_key src) seen ?items)" "zeek_key src y = zeek_key source x" by force
    then have "y \<in> set ?items" "zeek_finding now src g y \<in> set outs"
      using here(2) distinct_by_subset [of "zeek_key src" seen ?items] low(3) by auto
    with y(2) show ?thesis unfolding stands_for_def log by force
  next
    case False
    then have "(source, f) \<in> set logs"
      using Cons.prems(3, 4) log by auto
    moreover have "zeek_key source x \<notin> set seen'"
      using here(1) False Cons.prems(5) by simp
    ultimately have "stands_for ld now logs o2 (zeek_key source x)"
      using Cons.IH [of seen' emitted' o2] rest low Cons.prems(2, 4) by simp
    then show ?thesis
      by (rule stands_for_mono) (auto simp: low(3))
  qed
qed simp

lemma scan_log_accounted:
  assumes "scan_log ld now source f seen emitted = (outs, seen', emitted', raised)" and "fi \<in> set outs"
  shows "(\<exists>rows eps. fi = rows_note now source f rows eps) \<or> fi \<in> zeek_finding now source f ` set (row_items source (fst (file_rows ld f)))"
proof -
  obtain rows e where fr: "file_rows ld f = (rows, e)" by force
  let ?init = "\<lparr>zk_seen = seen, zk_emitted = emitted, zk_out = [], zk_full = False\<rparr>"
  let ?st = "emit_rows now source f rows ?init"
  have st: "?st = run_until zk_full (zeek_step now source f) (row_items source rows) ?init"
    by (rule emit_rows_all) simp
  have "zk_out ?st = map (zeek_finding now source f) (take (MAX_ZEEK_FINDINGS - emitted) (distinct_by (zeek_key source) seen (row_items source rows)))"
    using zeek.reports [where base = emitted and st = ?init and now = now and source = source and f = f and xs = "row_items source rows", folded st] by simp
  then have "set (zk_out ?st) \<subseteq> zeek_finding now source f ` set (row_items source rows)"
    using distinct_by_subset [of "zeek_key source" seen "row_items source rows"] by (auto dest: in_set_takeD)
  moreover have "fi \<in> set (zk_out ?st) \<or> (\<exists>n m. fi = rows_note now source f n m)"
    using assms by (auto simp: scan_log_def fr Let_def split: if_splits)
  ultimately show ?thesis by (auto simp: fr)
qed

text \<open>Nothing else is in the report.\<close>

definition accounted :: "(string \<Rightarrow> json option) \<Rightarrow> int \<Rightarrow> (string \<times> zeek_file) list \<Rightarrow> finding \<Rightarrow> bool" where
  "accounted ld now logs fi \<longleftrightarrow>
     fi = truncation_finding now \<or>
     (\<exists>(source, f)\<in>set logs. (\<exists>rows eps. fi = rows_note now source f rows eps) \<or>
        fi \<in> zeek_finding now source f ` set (row_items source (fst (file_rows ld f))))"

lemma scan_logs_accounted: "fi \<in> set (fst (scan_logs ld now logs seen emitted)) \<Longrightarrow> accounted ld now logs fi"
proof (induction logs arbitrary: seen emitted)
  case (Cons log logs)
  obtain src g where log: "log = (src, g)" by force
  obtain o1 seen' emitted' raised where sl: "scan_log ld now src g seen emitted = (o1, seen', emitted', raised)"
    by (cases "scan_log ld now src g seen emitted")
  from Cons.prems consider "fi \<in> set o1" | "fi = truncation_finding now" | "fi \<in> set (fst (scan_logs ld now logs seen' emitted'))"
    by (auto simp: log sl split: if_splits prod.splits)
  then show ?case
  proof cases
    case 1
    from scan_log_accounted [OF sl this] show ?thesis by (auto simp: accounted_def log)
  next
    case 3
    from Cons.IH [OF this] show ?thesis by (auto simp: accounted_def)
  qed (simp add: accounted_def)
qed simp

lemma row_items_Cons: "row_items source (r # rows) = map (Pair (row_context source r)) (analyze_row source r) @ row_items source rows"
  by (simp add: row_items_def)

lemma row_items_columns:
  assumes "distinct hdr" "distinct hdr'" and "same_columns hdr hdr' rows rows'"
  shows "row_items source (map (row_of hdr) rows) = row_items source (map (row_of hdr') rows')"
  using assms(3) unfolding same_columns_def
proof (induction rule: list_all2_induct)
  case (Cons r rs r' rs')
  note eq = analyze_cong [OF reordered_row [OF assms(1, 2) Cons.hyps(1)], of source]
  show ?case
    by (simp only: list.map row_items_Cons eq Cons.IH)
qed simp

lemma row_itemsI: "row \<in> set rows \<Longrightarrow> ob \<in> set (analyze_row source row) \<Longrightarrow> (row_context source row, ob) \<in> set (row_items source rows)"
  by (auto simp: row_items_def)

lemma scan_log_total: "\<not> snd (file_rows ld f) \<Longrightarrow> \<not> snd (snd (snd (scan_log ld now source f seen emitted)))"
  by (auto simp: scan_log_def Let_def split: prod.splits)

lemma scan_logs_total: "\<forall>(source, f)\<in>set logs. \<not> snd (file_rows ld f) \<Longrightarrow> \<not> snd (scan_logs ld now logs seen emitted)"
proof (induction logs arbitrary: seen emitted)
  case (Cons log logs)
  obtain src g where log: "log = (src, g)" by force
  obtain o1 seen' emitted' raised where sl: "scan_log ld now src g seen emitted = (o1, seen', emitted', raised)"
    by (cases "scan_log ld now src g seen emitted")
  have "\<not> raised"
    using scan_log_total [of ld g now src seen emitted] Cons.prems log sl by simp
  with Cons show ?case by (simp add: log sl split: prod.splits) (metis snd_conv)
qed simp

section \<open>Properties\<close>

text \<open>A tab-separated sensor log is read by its header: for any columns, any remarks between header and rows and any
  rows, reading gives exactly the rows, and each field of a row is the cell under its name. Two logs with the same
  columns in another order show the same observations for the same endpoints, as the module promises across versions
  of the sensor.\<close>

theorem sensor_log_columns:
  assumes "distinct hdr" "distinct hdr'" "list_all plain_cell hdr" "list_all plain_cell hdr'"
    and "list_all remark remarks" "list_all remark remarks'" "list_all table_row rows" "list_all table_row rows'"
    and "same_columns hdr hdr' rows rows'"
  shows "log_rows ld (tsv_log hdr remarks rows) None [tab] None = (map (row_of hdr) rows, False) \<and>
    (\<forall>r\<in>set rows. \<forall>k. dict_get (row_of hdr r) k = map_option JStr (map_of (zip hdr r) k)) \<and>
    row_items source (fst (log_rows ld (tsv_log hdr remarks rows) None [tab] None)) =
    row_items source (fst (log_rows ld (tsv_log hdr' remarks' rows') None [tab] None))"
proof (intro conjI ballI allI)
  show "log_rows ld (tsv_log hdr remarks rows) None [tab] None = (map (row_of hdr) rows, False)"
    by (rule read_tsv_log [OF assms(3, 5, 7)])
  show "dict_get (row_of hdr r) k = map_option JStr (map_of (zip hdr r) k)" for r k
    by (rule dict_get_row [OF assms(1)])
  show "row_items source (fst (log_rows ld (tsv_log hdr remarks rows) None [tab] None)) =
      row_items source (fst (log_rows ld (tsv_log hdr' remarks' rows') None [tab] None))"
    unfolding read_tsv_log [OF assms(3, 5, 7)] read_tsv_log [OF assms(4, 6, 8)] fst_conv
    by (rule row_items_columns [OF assms(1, 2, 9)])
qed

theorem sensor_log_columns_witness:
  "row_items ''zeek:ssl.log'' (fst (log_rows (\<lambda>_. None)
      (tsv_log [''ts'', ''cipher''] [''#types''] [[''1'', ''TLS_RSA_WITH_RC4_128_MD5'']]) None [tab] None)) =
   row_items ''zeek:ssl.log'' (fst (log_rows (\<lambda>_. None)
      (tsv_log [''cipher'', ''ts''] [] [[''TLS_RSA_WITH_RC4_128_MD5'', ''1'']]) None [tab] None))"
  by (rule sensor_log_columns [THEN conjunct2, THEN conjunct2])
    (simp_all add: plain_cell_def remark_def table_row_def same_columns_def startswith_def insert_commute)


definition sensor_root :: zeek_root where
  "sensor_root = Some (\<lambda>p. Some (if p = ''ssl*.log'' then
     [\<lparr>zf_name = ''ssl.log'', zf_path = ''/z/ssl.log'', zf_is_file = True,
       zf_lines = Some (tsv_log [''ts'', ''server_name'', ''cipher''] [] [[''1'', ''a.my'', ''TLS_RSA_WITH_AES_128_CBC_SHA'']]),
       zf_broken = False\<rparr>] else []))"


lemma empty_separator_raises:
  "log_rows ld ((''#separator '' @ [newline]) # (''#fields'' @ [newline]) # raws) None [tab] None = ([], True)"
  by (simp add: chomp_def rstrip_set_def opens_json_def lstrip_set_def is_space_Char startswith_def separator_of_def
      partition_char_def decode_separator_def py_strip_def unescape.simps)

end
