(* ===== verification/Java_Security.thy ===== *)
theory Java_Security
  imports Finding_Parity Tls_Client
begin

text \<open>
  \<^verbatim>\<open>probes/host_java_security.py\<close>: the algorithms that the security properties of a Java runtime disable. The
  files found under a root, with the text of each, are an argument.
\<close>

section \<open>Properties files\<close>

definition JAVA_PROBE :: string where "JAVA_PROBE = ''host.java.security''"

definition PROP_TLS :: string where "PROP_TLS = ''jdk.tls.disabledAlgorithms''"

definition PROP_CERTPATH :: string where "PROP_CERTPATH = ''jdk.certpath.disabledAlgorithms''"

definition PROP_JAR :: string where "PROP_JAR = ''jdk.jar.disabledAlgorithms''"

definition PROP_LEGACY :: string where "PROP_LEGACY = ''jdk.security.legacyAlgorithms''"

definition WANTED_PROPS :: "string list" where
  "WANTED_PROPS = [PROP_TLS, PROP_CERTPATH, PROP_JAR, PROP_LEGACY]"

definition EXPECTED_PROTOCOLS :: "(string \<times> string) list" where
  "EXPECTED_PROTOCOLS = [(''TLSV1'', ''TLSv1.0''), (''TLSV1.1'', ''TLSv1.1'')]"

definition EXPECTED_WEAK :: "(string \<times> string) list" where
  "EXPECTED_WEAK = [(''RC4'', ''RC4''), (''3DES'', ''3DES''), (''MD5'', ''MD5'')]"

definition KEYSIZE_FLOORS :: "(string \<times> nat) list" where
  "KEYSIZE_FLOORS = [(''RSA'', 2048), (''DH'', 2048), (''EC'', 224)]"

definition MAX_JAVA_FINDINGS :: nat where "MAX_JAVA_FINDINGS = 50"

definition MAX_JAVA_FILES :: nat where "MAX_JAVA_FILES = 40"

abbreviation backslash :: char where
  "backslash \<equiv> CHR 0x5C"

definition has_continuation :: "string \<Rightarrow> bool" where
  "has_continuation line \<longleftrightarrow> odd (length (takeWhile (\<lambda>c. c = backslash) (rev line)))"

text \<open>A line that opens nothing: blank, or a comment.\<close>

definition skipped_line :: "string \<Rightarrow> bool" where
  "skipped_line line \<longleftrightarrow> (case lstrip_set is_space line of [] \<Rightarrow> True | c # _ \<Rightarrow> c = CHR ''#'' \<or> c = CHR ''!'')"

text \<open>The loop over the physical lines; \<open>acc\<close> holds the pieces of an open logical line.\<close>

fun fold_lines :: "string list \<Rightarrow> string list \<Rightarrow> string list" where
  "fold_lines acc [] = (if acc = [] then [] else [concat acc])"
| "fold_lines acc (raw # raws) =
     (let line = rstrip_set (\<lambda>c. c = CHR 0x0D) raw in
      if acc = [] \<and> skipped_line line then fold_lines [] raws
      else
        (let line' = (if acc = [] then line else lstrip_set is_space line) in
         if has_continuation line' then fold_lines (acc @ [butlast line']) raws
         else concat (acc @ [line']) # fold_lines [] raws))"

definition logical_lines :: "string \<Rightarrow> string list" where
  "logical_lines body = fold_lines [] (splitlines body)"

definition kv_sep :: "char \<Rightarrow> bool" where
  "kv_sep c \<longleftrightarrow> c = CHR ''='' \<or> c = CHR '':''"

definition split_kv :: "string \<Rightarrow> (string \<times> string) option" where
  "split_kv line =
     (case dropWhile (\<lambda>c. \<not> kv_sep c) line of
        [] \<Rightarrow> None
      | _ # rest \<Rightarrow> Some (py_strip (takeWhile (\<lambda>c. \<not> kv_sep c) line), py_strip rest))"

definition java_tokens :: "string \<Rightarrow> string list" where
  "java_tokens val = filter (\<lambda>t. t \<noteq> []) (map py_strip (split_on (CHR '','') val))"

definition parse_step :: "string list dict \<Rightarrow> string \<Rightarrow> string list dict" where
  "parse_step out line =
     (case split_kv line of
        None \<Rightarrow> out
      | Some (key, val) \<Rightarrow> if key \<in> set WANTED_PROPS then dict_set key (java_tokens val) out else out)"

definition parse_policy :: "string \<Rightarrow> string list dict" where
  "parse_policy body = foldl parse_step [] (logical_lines body)"

section \<open>Key-size constraints\<close>

definition KEYSIZE_FAMILIES :: "string list" where
  "KEYSIZE_FAMILIES = [''RSA'', ''DH'', ''DSA'', ''EC'']"

text \<open>\<^verbatim>\<open>(RSA|DH|DSA|EC)\s+KEYSIZE\s*<\s*(\d+)\<close> at the front of a text: family, number and what follows. No family is the
  beginning of another and no part can end before the next begins, so there is one way to match.\<close>

definition drop_text :: "string \<Rightarrow> string \<Rightarrow> string option" where
  "drop_text p s = (if startswith s p then Some (drop (length p) s) else None)"

definition keysize_tail :: "string \<Rightarrow> (nat \<times> string) option" where
  "keysize_tail s =
     (if s = [] \<or> \<not> is_space (hd s) then None
      else
        (case drop_text ''KEYSIZE'' (lstrip_set is_space s) of
           None \<Rightarrow> None
         | Some s1 \<Rightarrow>
             (case drop_text ''<'' (lstrip_set is_space s1) of
                None \<Rightarrow> None
              | Some s2 \<Rightarrow>
                  (let s3 = lstrip_set is_space s2; ds = takeWhile is_digit s3 in
                   if ds = [] then None else Some (nat_of_digits ds, drop (length ds) s3)))))"

definition keysize_at :: "string \<Rightarrow> ((string \<times> nat) \<times> string) option" where
  "keysize_at s =
     (case find (startswith s) KEYSIZE_FAMILIES of
        None \<Rightarrow> None
      | Some f \<Rightarrow> (case keysize_tail (drop (length f) s) of None \<Rightarrow> None | Some (n, rest) \<Rightarrow> Some ((f, n), rest)))"

text \<open>\<^verbatim>\<open>finditer\<close>: the word boundary in front looks at the character before, \<open>skip\<close> counts what a match has used.\<close>

fun keysizes :: "bool \<Rightarrow> nat \<Rightarrow> string \<Rightarrow> (string \<times> nat) list" where
  "keysizes after_word skip [] = []"
| "keysizes after_word skip (c # s) =
     (if skip > 0 then keysizes (is_word c) (skip - 1) s
      else
        (case (if after_word then None else keysize_at (c # s)) of
           None \<Rightarrow> keysizes (is_word c) 0 s
         | Some (fn, rest) \<Rightarrow> fn # keysizes (is_word c) (length s - length rest) s))"

definition floors :: "string \<Rightarrow> nat dict" where
  "floors joined = foldl (\<lambda>d (f, n). dict_set f n d) [] (keysizes False 0 joined)"

section \<open>Findings\<close>

record java_file =
  jf_key :: string
  jf_path :: string
  jf_text :: "string option"

definition str_list :: "string list \<Rightarrow> json" where
  "str_list xs = JList (map JStr xs)"

definition gap_evidence :: "java_file \<Rightarrow> string list \<Rightarrow> string \<Rightarrow> pydict" where
  "gap_evidence f disabled note =
     [(''path'', JStr (jf_path f)), (''property'', JStr PROP_TLS), (''value'', str_list disabled), (''note'', JStr note)]"

definition protocol_gaps :: "int \<Rightarrow> java_file \<Rightarrow> string list \<Rightarrow> finding list" where
  "protocol_gaps now f disabled =
     concat (map (\<lambda>(tok, label).
       if tok \<in> set (map py_upper disabled) then []
       else [mk_finding JAVA_PROBE label TINGGI HIGH (label @ '' not disabled in JVM policy ('' @ jf_path f @ '')'')
         (gap_evidence f disabled (label @ '' is not present in '' @ PROP_TLS @ ''; the JVM may negotiate it.'')) [] now])
       EXPECTED_PROTOCOLS)"

definition weak_gaps :: "int \<Rightarrow> java_file \<Rightarrow> string list \<Rightarrow> finding list" where
  "weak_gaps now f disabled =
     concat (map (\<lambda>(needle, label).
       if contains (py_upper (join_with '' '' disabled)) needle then []
       else [mk_finding JAVA_PROBE label (classify label) (sev_for (classify label)) (label @ '' not disabled in JVM policy ('' @ jf_path f @ '')'')
         (gap_evidence f disabled (label @ '' is not constrained by '' @ PROP_TLS @ ''.'')) [] now])
       EXPECTED_WEAK)"

definition floor_gap :: "int \<Rightarrow> java_file \<Rightarrow> string list \<Rightarrow> nat option \<Rightarrow> string \<times> nat \<Rightarrow> finding list" where
  "floor_gap now f disabled found fm =
     (let (family, minimum) = fm in
      case found of
        None \<Rightarrow>
          [mk_finding JAVA_PROBE family SEDERHANA MED (''No '' @ family @ '' keySize floor in JVM policy ('' @ jf_path f @ '')'')
            (gap_evidence f disabled (PROP_TLS @ '' has no '' @ [CHR 0x27] @ family @ '' keySize < N'' @ [CHR 0x27] @ '' constraint; weak '' @
               family @ '' key sizes (< '' @ show_nat minimum @ '') are not refused.'') @ [(''confidence'', JStr ''medium'')]) [] now]
      | Some n \<Rightarrow>
          if n < minimum then
            [mk_finding JAVA_PROBE family TINGGI HIGH (family @ '' keySize floor too low in JVM policy ('' @ jf_path f @ '')'')
              (gap_evidence f disabled (''policy disables '' @ family @ '' keySize < '' @ show_nat n @ '', but the safe floor is '' @
                 show_nat minimum @ ''; sizes '' @ show_nat n @ ''..'' @ show_nat (minimum - 1) @ '' stay enabled.'')) [] now]
          else [])"

definition floor_gaps :: "int \<Rightarrow> java_file \<Rightarrow> string list \<Rightarrow> finding list" where
  "floor_gaps now f disabled =
     (let fl = floors (py_upper (join_with '' '' disabled)) in
      concat (map (\<lambda>fm. floor_gap now f disabled (dict_get fl (fst fm)) fm) KEYSIZE_FLOORS))"

definition emit_gaps :: "int \<Rightarrow> java_file \<Rightarrow> string list \<Rightarrow> finding list" where
  "emit_gaps now f disabled = protocol_gaps now f disabled @ weak_gaps now f disabled @ floor_gaps now f disabled"

definition prop_list :: "string list dict \<Rightarrow> string \<Rightarrow> string list" where
  "prop_list props key = (case dict_get props key of Some ts \<Rightarrow> ts | None \<Rightarrow> [])"

definition policy_finding :: "int \<Rightarrow> java_file \<Rightarrow> string list dict \<Rightarrow> finding" where
  "policy_finding now f props =
     (let tls = prop_list props PROP_TLS; cp = prop_list props PROP_CERTPATH; jar = prop_list props PROP_JAR in
      mk_finding JAVA_PROBE ''jvm-crypto-policy'' CLS_INFO SEV_INFO
        (''JVM crypto policy at '' @ jf_path f @ '': '' @ show_nat (length tls + length cp + length jar) @ '' algorithms disabled'')
        [(''path'', JStr (jf_path f)), (''disabled_tls'', str_list tls), (''disabled_certpath'', str_list cp), (''disabled_jar'', str_list jar)]
        [] now)"

definition reminder_finding :: "int \<Rightarrow> java_file \<Rightarrow> finding" where
  "reminder_finding now f =
     mk_finding JAVA_PROBE ''classical-kex-quantum'' CLS_INFO SEV_INFO
       ''JVM classical KEX/signatures remain quantum-vulnerable regardless of policy''
       [(''path'', JStr (jf_path f)),
        (''note'', JStr (''disabledAlgorithms constrains weak/legacy crypto but does not add '' @
           ''PQC; all RSA/DH/ECDH key establishment stays harvest-now-decrypt-later '' @ ''exposed. Migrate to ML-KEM hybrid key exchange.'')),
        (''confidence'', JStr ''medium'')] [] now"

text \<open>The findings of one file pass through \<^verbatim>\<open>send\<close>, which keeps the first fifty.\<close>

definition scan_policy :: "int \<Rightarrow> java_file \<Rightarrow> string \<Rightarrow> finding list" where
  "scan_policy now f body =
     (let props = parse_policy body in
      take MAX_JAVA_FINDINGS
        ([policy_finding now f props] @ emit_gaps now f (prop_list props PROP_TLS) @ [reminder_finding now f]))"

section \<open>The files\<close>

text \<open>The places looked at when no roots are given, the environment's Java first.\<close>

definition default_java_roots :: "string option \<Rightarrow> string list" where
  "default_java_roots java_home =
     (case java_home of
        None \<Rightarrow> []
      | Some h \<Rightarrow> if h = [] then [] else [h @ ''/conf/security/java.security'', h @ ''/lib/security/java.security'']) @
     [''/usr/lib/jvm'', ''/opt/java'', ''/etc/alternatives/java.security'']"

text \<open>What a root is: a directory with the policies under it in order, a file, or nothing to read.\<close>

datatype java_root = Policy_Dir "java_file list" | Policy_File java_file | No_Policy

definition add_file :: "java_file \<Rightarrow> string list \<times> java_file list \<Rightarrow> string list \<times> java_file list" where
  "add_file f st = (let (seen, files) = st in if jf_key f \<in> set seen then st else (jf_key f # seen, files @ [f]))"

fun add_files :: "java_file list \<Rightarrow> string list \<times> java_file list \<Rightarrow> string list \<times> java_file list" where
  "add_files [] st = st"
| "add_files (f # fs) st = (let st' = add_file f st in if length (snd st') \<ge> MAX_JAVA_FILES then st' else add_files fs st')"

fun discover_from :: "java_root list \<Rightarrow> string list \<times> java_file list \<Rightarrow> string list \<times> java_file list" where
  "discover_from [] st = st"
| "discover_from (root # roots) st =
     (let st' = (case root of Policy_Dir fs \<Rightarrow> add_files fs st | Policy_File f \<Rightarrow> add_file f st | No_Policy \<Rightarrow> st) in
      if length (snd st') \<ge> MAX_JAVA_FILES then st' else discover_from roots st')"

definition discover :: "java_root list \<Rightarrow> java_file list" where
  "discover roots = snd (discover_from roots ([], []))"

definition run_java :: "int \<Rightarrow> java_root list \<Rightarrow> finding list" where
  "run_java now roots =
     concat (map (\<lambda>f. case jf_text f of None \<Rightarrow> [] | Some body \<Rightarrow> scan_policy now f body) (discover roots))"

end
