(* ===== verification/Java_Laws.thy ===== *)
theory Java_Laws
  imports Java_Security Capped_Report
begin

text \<open>
  Reading a runtime's security policy: a policy in which lists are folded over lines in any way is read as it
  was written, its constraints on key sizes are found, and there is a finding exactly for what is left enabled.
\<close>

section \<open>Policies as text\<close>

text \<open>A token with what follows its comma: nothing, or a line break and the blanks that indent the next line.\<close>

fun layout :: "string \<Rightarrow> (string \<times> string option) list \<Rightarrow> string list" where
  "layout front [] = [front]"
| "layout front [(t, _)] = [front @ t]"
| "layout front ((t, None) # ts) = layout (front @ t @ '', '') ts"
| "layout front ((t, Some indent) # ts) = (front @ t @ '','' @ [backslash]) # layout indent ts"

fun unfolded :: "(string \<times> string option) list \<Rightarrow> string" where
  "unfolded [] = []"
| "unfolded [(t, _)] = t"
| "unfolded ((t, None) # ts) = t @ '', '' @ unfolded ts"
| "unfolded ((t, Some _) # ts) = t @ '','' @ unfolded ts"

definition blank :: "string \<Rightarrow> bool" where
  "blank s \<longleftrightarrow> list_all (\<lambda>c. is_space c \<and> \<not> line_break c) s"

definition java_token :: "string \<Rightarrow> bool" where
  "java_token t \<longleftrightarrow> t \<noteq> [] \<and> \<not> is_space (hd t) \<and> \<not> is_space (last t) \<and> last t \<noteq> backslash \<and>
     list_all (\<lambda>c. c \<noteq> CHR '','' \<and> \<not> line_break c) t"

definition token_list :: "(string \<times> string option) list \<Rightarrow> bool" where
  "token_list ts \<longleftrightarrow> ts \<noteq> [] \<and> list_all (\<lambda>(t, br). java_token t \<and> (case br of None \<Rightarrow> True | Some indent \<Rightarrow> blank indent)) ts"

definition policy_key :: "string \<Rightarrow> bool" where
  "policy_key k \<longleftrightarrow> k \<noteq> [] \<and> \<not> is_space (hd k) \<and> \<not> is_space (last k) \<and> hd k \<notin> {CHR ''#'', CHR ''!''} \<and>
     list_all (\<lambda>c. \<not> kv_sep c \<and> \<not> line_break c) k"

datatype policy_item = Remark string | Entry string "(string \<times> string option) list"

fun item_lines :: "policy_item \<Rightarrow> string list" where
  "item_lines (Remark l) = [l]"
| "item_lines (Entry k ts) = layout (k @ ''='') ts"

fun item_ok :: "policy_item \<Rightarrow> bool" where
  "item_ok (Remark l) \<longleftrightarrow> skipped_line l \<and> list_all (\<lambda>c. \<not> line_break c) l"
| "item_ok (Entry k ts) \<longleftrightarrow> policy_key k \<and> token_list ts"

fun item_entry :: "policy_item \<Rightarrow> (string \<times> (string \<times> string option) list) list" where
  "item_entry (Remark l) = []"
| "item_entry (Entry k ts) = [(k, ts)]"

definition policy_text :: "policy_item list \<Rightarrow> string" where
  "policy_text items = concat (map (\<lambda>l. l @ [newline]) (concat (map item_lines items)))"

definition policy_entries :: "policy_item list \<Rightarrow> (string \<times> string list) list" where
  "policy_entries items = map (\<lambda>(k, ts). (k, map fst ts)) (concat (map item_entry items))"

section \<open>Folding\<close>

definition content :: "string list \<Rightarrow> string \<Rightarrow> string" where
  "content acc line = (if acc = [] then line else lstrip_set is_space line)"

definition starts_line :: "string list \<Rightarrow> string \<Rightarrow> bool" where
  "starts_line acc front \<longleftrightarrow> acc = [] \<longrightarrow> front \<noteq> [] \<and> \<not> is_space (hd front) \<and> hd front \<notin> {CHR ''#'', CHR ''!''}"

lemma content_append: "u \<noteq> [] \<Longrightarrow> \<not> is_space (hd u) \<Longrightarrow> content acc (front @ u) = content acc front @ u"
  by (simp add: content_def lstrip_append)

lemma blank_stripped: "blank s \<Longrightarrow> lstrip_set is_space s = []"
  by (simp add: blank_def lstrip_set_def list_all_iff)

lemma not_skipped: "starts_line acc front \<Longrightarrow> acc = [] \<Longrightarrow> \<not> skipped_line (front @ u)"
  by (cases front) (auto simp: starts_line_def skipped_line_def lstrip_set_def)

lemma fold_last:
  assumes "java_token t" "starts_line acc front"
  shows "fold_lines acc ((front @ t) # rest) = (concat acc @ content acc front @ t) # fold_lines [] rest"
proof -
  have t: "t \<noteq> []" "\<not> is_space (hd t)" "last t \<noteq> backslash" "last t \<noteq> CHR 0x0D"
    using assms(1) by (auto simp: java_token_def is_space_Char)
  then have "rstrip_set (\<lambda>c. c = CHR 0x0D) (front @ t) = front @ t"
    by (intro rstrip_set_id) simp_all
  moreover have "\<not> has_continuation (content acc front @ t)"
    using t(1, 3) by (cases t rule: rev_cases) (auto simp: has_continuation_def)
  ultimately show ?thesis
    using assms(2) t(1, 2) not_skipped [of acc front t] by (auto simp: Let_def content_def lstrip_append)
qed

lemma fold_broken:
  assumes "java_token t" "starts_line acc front"
  shows "fold_lines acc ((front @ t @ '','' @ [backslash]) # rest) = fold_lines (acc @ [content acc front @ t @ '','']) rest"
proof -
  have t: "t \<noteq> []" "\<not> is_space (hd t)"
    using assms(1) by (auto simp: java_token_def)
  have "rstrip_set (\<lambda>c. c = CHR 0x0D) (front @ t @ '','' @ [backslash]) = front @ t @ '','' @ [backslash]"
    by (intro rstrip_set_id) simp_all
  moreover have "has_continuation (s @ t @ '','' @ [backslash])" for s
    by (simp add: has_continuation_def)
  moreover have "lstrip_set is_space (front @ t @ '','' @ [backslash]) = lstrip_set is_space front @ t @ '','' @ [backslash]"
    using t by (intro lstrip_append) simp_all
  ultimately show ?thesis
    using assms(2) t not_skipped [of acc front "t @ '','' @ [backslash]"] by (auto simp: Let_def content_def butlast_append)
qed

lemma fold_layout:
  "token_list ts \<Longrightarrow> starts_line acc front \<Longrightarrow>
   fold_lines acc (layout front ts @ rest) = (concat acc @ content acc front @ unfolded ts) # fold_lines [] rest"
proof (induction front ts arbitrary: acc rule: layout.induct)
  case (1 front)
  then show ?case by (simp add: token_list_def)
next
  case (2 front t br)
  then show ?case using fold_last [of t acc front rest] by (simp add: token_list_def)
next
  case (3 front t v vs)
  then have t: "java_token t" "token_list (v # vs)" by (simp_all add: token_list_def)
  then have ne: "t \<noteq> []" "\<not> is_space (hd t)" by (simp_all add: java_token_def)
  then have "starts_line acc (front @ t @ '', '')"
    using 3(3) by (auto simp: starts_line_def hd_append)
  from 3(1) [OF t(2) this] ne show ?case
    using content_append [of "t @ '', ''" acc front] by simp
next
  case (4 front t indent v vs)
  then have t: "java_token t" "blank indent" "token_list (v # vs)" by (simp_all add: token_list_def)
  have "fold_lines (acc @ [content acc front @ t @ '','']) (layout indent (v # vs) @ rest) =
      (concat acc @ content acc front @ t @ '','' @ unfolded (v # vs)) # fold_lines [] rest"
    using 4(1) [OF t(3), of "acc @ [content acc front @ t @ '','']"] blank_stripped [OF t(2)]
    by (simp add: starts_line_def content_def)
  with fold_broken [OF t(1) 4(3)] show ?case by simp
qed

lemma fold_items:
  "list_all item_ok items \<Longrightarrow>
   fold_lines [] (concat (map item_lines items)) = map (\<lambda>(k, ts). k @ ''='' @ unfolded ts) (concat (map item_entry items))"
proof (induction items)
  case (Cons it items)
  show ?case
  proof (cases it)
    case (Remark l)
    with Cons.prems have l: "skipped_line l" "list_all (\<lambda>c. \<not> line_break c) l" by simp_all
    then have "rstrip_set (\<lambda>c. c = CHR 0x0D) l = l"
      by (cases l rule: rev_cases) (auto simp: rstrip_set_def line_break_def char_code_def)
    with l Cons Remark show ?thesis by simp
  next
    case (Entry k ts)
    with Cons.prems have k: "token_list ts" "starts_line [] (k @ ''='')"
      by (auto simp: policy_key_def starts_line_def hd_append)
    with Cons Entry show ?thesis
      by (simp add: fold_layout content_def)
  qed
qed simp

section \<open>Tokens\<close>

lemma java_tokenD:
  "java_token t \<Longrightarrow> t \<noteq> [] \<and> py_strip t = t \<and> CHR '','' \<notin> set t \<and> \<not> is_space (hd t) \<and> \<not> is_space (last t)"
  by (auto simp: java_token_def list_all_iff py_strip_ends)

lemma unfolded_ends:
  "token_list ts \<Longrightarrow> unfolded ts \<noteq> [] \<and> \<not> is_space (hd (unfolded ts)) \<and> \<not> is_space (last (unfolded ts))"
proof (induction ts rule: unfolded.induct)
  case (3 t v vs)
  then show ?case by (auto simp: token_list_def hd_append dest!: java_tokenD)
next
  case (4 t indent v vs)
  then show ?case by (auto simp: token_list_def hd_append dest!: java_tokenD)
qed (auto simp: token_list_def dest!: java_tokenD)

lemma split_unfolded: "token_list ts \<Longrightarrow> map py_strip (split_on (CHR '','') (unfolded ts)) = map fst ts"
proof (induction ts rule: unfolded.induct)
  case (2 t br)
  then show ?case by (auto simp: token_list_def split_on_no_sep dest!: java_tokenD)
next
  case (3 t v vs)
  then have t: "java_token t" "token_list (v # vs)" by (simp_all add: token_list_def)
  obtain p ps where p: "split_on (CHR '','') (unfolded (v # vs)) = p # ps" by (cases "split_on (CHR '','') (unfolded (v # vs))") auto
  show ?case
    using 3(1) [OF t(2)] java_tokenD [OF t(1)] p split_on_sep [of "CHR '',''" t "'' '' @ unfolded (v # vs)"]
    by (simp add: py_strip_blank is_space_Char)
next
  case (4 t indent v vs)
  then have t: "java_token t" "token_list (v # vs)" by (simp_all add: token_list_def)
  show ?case
    using 4(1) [OF t(2)] java_tokenD [OF t(1)] split_on_sep [of "CHR '',''" t "unfolded (v # vs)"] by simp
qed (simp add: token_list_def)

lemma tokens_unfolded: "token_list ts \<Longrightarrow> java_tokens (unfolded ts) = map fst ts"
proof -
  assume ts: "token_list ts"
  have "\<forall>t\<in>set (map fst ts). t \<noteq> []"
  proof
    fix t assume "t \<in> set (map fst ts)"
    then obtain br where "(t, br) \<in> set ts" by auto
    with ts have "java_token t" unfolding token_list_def list_all_iff by blast
    then show "t \<noteq> []" by (simp add: java_token_def)
  qed
  then have "filter (\<lambda>t. t \<noteq> []) (map fst ts) = map fst ts" by (rule filter_True)
  then show ?thesis by (simp only: java_tokens_def split_unfolded [OF ts])
qed

lemma cut_at:
  "list_all (\<lambda>c. \<not> P c) k \<Longrightarrow> P c \<Longrightarrow> takeWhile (\<lambda>c. \<not> P c) (k @ c # s) = k \<and> dropWhile (\<lambda>c. \<not> P c) (k @ c # s) = c # s"
  by (induction k) simp_all

lemma split_entry:
  assumes "policy_key k" "token_list ts"
  shows "split_kv (k @ ''='' @ unfolded ts) = Some (k, unfolded ts)"
proof -
  have "list_all (\<lambda>c. \<not> kv_sep c) k" "kv_sep (CHR ''='')"
    using assms(1) by (simp_all add: policy_key_def list_all_iff kv_sep_def)
  note cut = cut_at [OF this, of "unfolded ts"]
  have strip: "py_strip k = k" "py_strip (unfolded ts) = unfolded ts"
    using assms unfolded_ends [OF assms(2)] by (simp_all add: policy_key_def py_strip_ends)
  show ?thesis
    by (simp only: split_kv_def append_Cons append_Nil cut [THEN conjunct1] cut [THEN conjunct2] list.case strip)
qed

lemma plain_chars: "\<not> line_break (CHR '','')" "\<not> line_break (CHR '' '')" "\<not> line_break backslash" "\<not> line_break (CHR ''='')"
  by (simp_all add: line_break_def char_code_def)

lemma java_token_plain: "java_token t \<Longrightarrow> list_all (\<lambda>c. \<not> line_break c) t"
  by (simp add: java_token_def list_all_iff)

lemma blank_plain: "blank s \<Longrightarrow> list_all (\<lambda>c. \<not> line_break c) s"
  by (simp add: blank_def list_all_iff)

lemma layout_plain:
  "token_list ts \<Longrightarrow> list_all (\<lambda>c. \<not> line_break c) front \<Longrightarrow> list_all (list_all (\<lambda>c. \<not> line_break c)) (layout front ts)"
  by (induction front ts rule: layout.induct)
    (simp_all add: token_list_def java_token_plain blank_plain plain_chars)

lemma items_plain: "list_all item_ok items \<Longrightarrow> list_all (list_all (\<lambda>c. \<not> line_break c)) (concat (map item_lines items))"
proof (induction items)
  case (Cons it items)
  have "list_all (list_all (\<lambda>c. \<not> line_break c)) (item_lines it)"
  proof (cases it)
    case (Entry k ts)
    with Cons.prems have "token_list ts" "list_all (\<lambda>c. \<not> line_break c) (k @ ''='')"
      by (auto simp: policy_key_def list_all_iff line_break_def char_code_def)
    with layout_plain Entry show ?thesis by simp
  qed (use Cons.prems in simp)
  with Cons show ?case by simp
qed simp

text \<open>What was written is what is read.\<close>

lemma parse_entries:
  assumes "list_all item_ok items"
  shows "parse_policy (policy_text items) =
    foldl (\<lambda>out (k, ts). if k \<in> set WANTED_PROPS then dict_set k ts out else out) [] (policy_entries items)"
proof -
  let ?es = "concat (map item_entry items)"
  have ok: "policy_key k \<and> token_list ts" if "(k, ts) \<in> set ?es" for k ts
  proof -
    from that obtain it where it: "it \<in> set items" "(k, ts) \<in> set (item_entry it)" by auto
    with assms have "item_ok it" by (simp add: list_all_iff)
    with it(2) show ?thesis by (cases it) auto
  qed
  have "foldl parse_step d (map (\<lambda>(k, ts). k @ ''='' @ unfolded ts) es) =
      foldl (\<lambda>out (k, ts). if k \<in> set WANTED_PROPS then dict_set k ts out else out) d (map (\<lambda>(k, ts). (k, map fst ts)) es)"
    if "set es \<subseteq> set ?es" for es d
    using that
  proof (induction es arbitrary: d)
    case (Cons e es)
    obtain k ts where e: "e = (k, ts)" by force
    with Cons.prems ok have "policy_key k" "token_list ts" by auto
    then have "parse_step d (k @ ''='' @ unfolded ts) = (if k \<in> set WANTED_PROPS then dict_set k (map fst ts) d else d)"
      unfolding parse_step_def by (simp only: split_entry option.case prod.case tokens_unfolded)
    with Cons e show ?case by simp
  qed simp
  then show ?thesis
    by (simp add: parse_policy_def logical_lines_def policy_text_def splitlines_lines items_plain fold_items assms policy_entries_def)
qed

lemma foldl_wanted:
  "map_of (foldl (\<lambda>out (k, ts). if k \<in> set ks then dict_set k ts out else out) d es) k =
   (if k \<in> set ks then (map_of d ++ map_of (rev es)) k else map_of d k)"
  by (induction es arbitrary: d) (auto simp: map_add_def split: option.splits)

lemma parse_get:
  "list_all item_ok items \<Longrightarrow> k \<in> set WANTED_PROPS \<Longrightarrow> dict_get (parse_policy (policy_text items)) k = map_of (rev (policy_entries items)) k"
  by (simp add: parse_entries foldl_wanted)

section \<open>Key-size constraints\<close>

text \<open>A constraint of a policy: a name and its qualifiers, or a floor for the key sizes of a family.\<close>

datatype constraint = Named "string list" | Floor string nat

fun constraint_words :: "constraint \<Rightarrow> string list" where
  "constraint_words (Named ws) = ws"
| "constraint_words (Floor f n) = [f @ '' keySize < '' @ show_nat n]"

definition constraint_text :: "constraint \<Rightarrow> string" where
  "constraint_text c = join_with '' '' (constraint_words c)"

definition plain_word :: "string \<Rightarrow> bool" where
  "plain_word w \<longleftrightarrow> w \<noteq> [] \<and> list_all (\<lambda>c. \<not> is_space c) w \<and> \<not> prefix ''KEYSIZE'' (py_upper w)"

fun constraint_ok :: "constraint \<Rightarrow> bool" where
  "constraint_ok (Named ws) \<longleftrightarrow> ws \<noteq> [] \<and> list_all plain_word ws"
| "constraint_ok (Floor f n) \<longleftrightarrow> f \<in> set KEYSIZE_FAMILIES"

fun constraint_floor :: "constraint \<Rightarrow> (string \<times> nat) list" where
  "constraint_floor (Named ws) = []"
| "constraint_floor (Floor f n) = [(f, n)]"

definition policy_floors :: "constraint list \<Rightarrow> (string \<times> nat) list" where
  "policy_floors cs = concat (map constraint_floor cs)"

text \<open>The words of a policy in capitals, a floor being one piece.\<close>

fun piece_text :: "string + (string \<times> nat) \<Rightarrow> string" where
  "piece_text (Inl w) = w"
| "piece_text (Inr (f, n)) = f @ '' KEYSIZE < '' @ show_nat n"

fun piece_ok :: "string + (string \<times> nat) \<Rightarrow> bool" where
  "piece_ok (Inl w) \<longleftrightarrow> w \<noteq> [] \<and> list_all (\<lambda>c. \<not> is_space c) w \<and> \<not> prefix ''KEYSIZE'' w"
| "piece_ok (Inr (f, n)) \<longleftrightarrow> f \<in> set KEYSIZE_FAMILIES"

fun piece_floor :: "string + (string \<times> nat) \<Rightarrow> (string \<times> nat) list" where
  "piece_floor (Inl w) = []"
| "piece_floor (Inr fn) = [fn]"

fun pieces :: "constraint \<Rightarrow> (string + (string \<times> nat)) list" where
  "pieces (Named ws) = map (Inl \<circ> py_upper) ws"
| "pieces (Floor f n) = [Inr (f, n)]"

text \<open>What may follow a piece: the end, or a blank and something that does not continue a match.\<close>

definition piece_end :: "string \<Rightarrow> bool" where
  "piece_end s \<longleftrightarrow> s = [] \<or> (\<exists>s'. s = CHR '' '' # s' \<and> s' \<noteq> [] \<and> \<not> is_space (hd s') \<and> \<not> prefix ''KEYSIZE'' s')"

lemma family_chars: "f \<in> set KEYSIZE_FAMILIES \<Longrightarrow> f \<noteq> [] \<and> CHR '' '' \<notin> set f \<and> hd f \<noteq> CHR ''K'' \<and> \<not> is_space (hd f)"
  by (auto simp: KEYSIZE_FAMILIES_def is_space_Char)

lemma prefix_before: "c \<notin> set p \<Longrightarrow> prefix p (u @ c # s) \<longleftrightarrow> prefix p u"
  by (auto simp: prefix_append prefix_Cons)

lemma prefix_piece: "piece_end s \<Longrightarrow> CHR '' '' \<notin> set p \<Longrightarrow> prefix p (u @ s) \<longleftrightarrow> prefix p u"
  by (auto simp: piece_end_def prefix_before)

lemma no_tail_end: "piece_end s \<Longrightarrow> keysize_tail s = None"
  by (auto simp: piece_end_def keysize_tail_def lstrip_set_def is_space_Char drop_text_def startswith_def neq_Nil_conv)

lemma no_tail_word: "v \<noteq> [] \<Longrightarrow> \<not> is_space (hd v) \<Longrightarrow> keysize_tail (v @ s) = None"
  by (cases v) (simp_all add: keysize_tail_def)

lemma no_keysize:
  assumes "piece_end s" "list_all (\<lambda>c. \<not> is_space c) v"
  shows "keysize_at (v @ s) = None"
proof (cases "find (startswith (v @ s)) KEYSIZE_FAMILIES")
  case (Some f)
  then have f: "f \<in> set KEYSIZE_FAMILIES" "prefix f (v @ s)"
    by (auto simp: find_Some_iff startswith_def)
  then obtain u where v: "v = f @ u"
    using prefix_piece [OF assms(1)] family_chars by (auto simp: prefix_def)
  have "keysize_tail (u @ s) = None"
    using assms no_tail_end no_tail_word [of u s] by (cases u) (simp_all add: v)
  then show ?thesis using Some by (simp add: keysize_at_def v)
qed (simp add: keysize_at_def)

lemma keysizes_word:
  "piece_end s \<Longrightarrow> list_all (\<lambda>c. \<not> is_space c) v \<Longrightarrow> \<exists>aw'. keysizes aw 0 (v @ s) = keysizes aw' 0 s"
proof (induction v arbitrary: aw)
  case (Cons c v)
  then have "keysizes aw 0 ((c # v) @ s) = keysizes (is_word c) 0 (v @ s)"
    using no_keysize [of s "c # v"] by simp
  with Cons show ?case by simp
qed auto

lemma keysizes_skip: "\<exists>aw'. keysizes aw (length u) (u @ s) = keysizes aw' 0 s"
proof (induction u arbitrary: aw)
  case (Cons c u)
  from Cons [of "is_word c"] show ?case by simp
qed auto

lemma keysizes_blank: "keysizes aw 0 (CHR '' '' # s) = keysizes False 0 s"
proof -
  have "find (startswith (CHR '' '' # s)) KEYSIZE_FAMILIES = None"
    by (simp add: KEYSIZE_FAMILIES_def startswith_def)
  then show ?thesis by (simp add: keysize_at_def is_word_def is_alnum_def is_digit_Char is_upper_Char is_lower_Char)
qed

lemma keysize_floor:
  assumes "f \<in> set KEYSIZE_FAMILIES" "piece_end s"
  shows "keysize_at ((f @ '' KEYSIZE < '' @ show_nat n) @ s) = Some ((f, n), s)"
proof -
  have d: "takeWhile is_digit (show_nat n @ s) = show_nat n"
    using assms(2) show_nat_digits [of n] by (auto simp: piece_end_def takeWhile_append2 list_all_iff is_digit_Char)
  obtain c cs where c: "show_nat n = c # cs" by (cases "show_nat n") simp_all
  have "\<not> is_space c"
    using show_nat_digits [of n] by (simp add: c is_digit_def is_space_def)
  then have l: "lstrip_set is_space (CHR '' '' # show_nat n @ s) = show_nat n @ s"
    by (simp add: c lstrip_set_def is_space_Char)
  have t: "keysize_tail ('' KEYSIZE < '' @ show_nat n @ s) = Some (n, s)"
    using d l by (simp add: keysize_tail_def drop_text_def startswith_def lstrip_set_def is_space_Char)
  have "find (startswith (f @ '' KEYSIZE < '' @ show_nat n @ s)) KEYSIZE_FAMILIES = Some f"
    using assms(1) by (auto simp: KEYSIZE_FAMILIES_def startswith_def)
  with t show ?thesis by (simp add: keysize_at_def)
qed

lemma keysizes_piece:
  assumes "piece_ok p" "piece_end s"
  shows "\<exists>aw'. keysizes False 0 (piece_text p @ s) = piece_floor p @ keysizes aw' 0 s"
proof (cases p)
  case (Inl w)
  with assms keysizes_word [of s w False] show ?thesis by simp
next
  case (Inr fn)
  obtain f n where fn: "fn = (f, n)" by force
  with assms Inr have f: "f \<in> set KEYSIZE_FAMILIES" by simp
  obtain c u where u: "f @ '' KEYSIZE < '' @ show_nat n = c # u" using family_chars [OF f] by (cases f) auto
  obtain aw' where "keysizes (is_word c) (length u) (u @ s) = keysizes aw' 0 s" using keysizes_skip by blast
  moreover have "keysize_at (c # u @ s) = Some ((f, n), s)" using keysize_floor [OF f assms(2), of n] unfolding u by simp
  ultimately have "keysizes False 0 (piece_text p @ s) = piece_floor p @ keysizes aw' 0 s"
    using u by (simp add: Inr fn)
  then show ?thesis by blast
qed

lemma piece_start: "piece_ok p \<Longrightarrow> piece_text p \<noteq> [] \<and> \<not> is_space (hd (piece_text p)) \<and> \<not> prefix ''KEYSIZE'' (piece_text p)"
proof (cases p)
  case (Inr fn)
  obtain f n where fn: "fn = (f, n)" by force
  assume "piece_ok p"
  then have "f \<noteq> []" "hd f \<noteq> CHR ''K''" "\<not> is_space (hd f)" using family_chars Inr fn by auto
  then show ?thesis by (cases f) (auto simp: Inr fn)
qed (auto simp: neq_Nil_conv)

lemma keysizes_pieces: "list_all piece_ok ps \<Longrightarrow> keysizes False 0 (join_with '' '' (map piece_text ps)) = concat (map piece_floor ps)"
proof (induction ps)
  case (Cons p ps)
  let ?s = "if ps = [] then [] else CHR '' '' # join_with '' '' (map piece_text ps)"
  have j: "join_with '' '' (map piece_text (p # ps)) = piece_text p @ ?s"
    by (cases ps) simp_all
  have e: "piece_end ?s"
  proof (cases ps)
    case (Cons q qs)
    then have q: "piece_ok q" using Cons.prems by simp
    let ?r = "if qs = [] then [] else CHR '' '' # join_with '' '' (map piece_text qs)"
    have jq: "join_with '' '' (map piece_text ps) = piece_text q @ ?r" using Cons by (cases qs) simp_all
    have "\<not> prefix ''KEYSIZE'' (piece_text q @ ?r)"
      using piece_start [OF q] prefix_before [of "CHR '' ''" "''KEYSIZE''"] by simp
    moreover have "?s = CHR '' '' # piece_text q @ ?r" using jq Cons by simp
    ultimately show ?thesis using piece_start [OF q] unfolding piece_end_def by (auto simp: hd_append)
  qed (simp add: piece_end_def)
  have "keysizes aw 0 ?s = concat (map piece_floor ps)" for aw
  proof (cases "ps = []")
    case False
    with Cons keysizes_blank [of aw "join_with '' '' (map piece_text ps)"] show ?thesis by (simp del: keysizes.simps)
  qed simp
  with keysizes_piece [of p ?s] Cons.prems e j show ?case by auto
qed simp

lemma join_concat: "list_all (\<lambda>ws. ws \<noteq> []) wss \<Longrightarrow> join_with sep (map (join_with sep) wss) = join_with sep (concat wss)"
proof (induction wss)
  case (Cons ws wss)
  have j: "vs \<noteq> [] \<Longrightarrow> us \<noteq> [] \<Longrightarrow> join_with sep (us @ vs) = join_with sep us @ sep @ join_with sep vs" for us vs
    by (induction sep us rule: join_with.induct) (auto simp: neq_Nil_conv)
  show ?case
    using Cons j [of "concat wss" ws] by (cases wss) auto
qed simp

lemma upper_join: "py_upper (join_with '' '' ws) = join_with '' '' (map py_upper ws)"
  by (induction "'' ''" ws rule: join_with.induct) (simp_all add: py_simps)

lemma upper_words:
  assumes "constraint_ok c"
  shows "map py_upper (constraint_words c) = map piece_text (pieces c)" and "list_all piece_ok (pieces c)" and "constraint_words c \<noteq> []"
    and "concat (map piece_floor (pieces c)) = constraint_floor c"
proof -
  have "\<not> is_space (upper_char ch)" if "\<not> is_space ch" for ch
    using that by (auto simp: upper_char_def is_lower_def is_space_def char_code_char_of)
  then have up: "list_all (\<lambda>ch. \<not> is_space ch) (py_upper w)" if "list_all (\<lambda>ch. \<not> is_space ch) w" for w
    using that by (simp add: py_upper_def list_all_iff)
  have fam: "py_upper f = f" if "f \<in> set KEYSIZE_FAMILIES" for f
    using that by (auto simp: KEYSIZE_FAMILIES_def py_simps)
  show "map py_upper (constraint_words c) = map piece_text (pieces c)"
    using assms fam by (cases c) (simp_all add: py_upper_Cons upper_char_Char is_lower_Char)
  show "list_all piece_ok (pieces c)"
    using assms up by (cases c) (auto simp: list_all_iff plain_word_def py_upper_def)
  show "constraint_words c \<noteq> []" using assms by (cases c) auto
  show "concat (map piece_floor (pieces c)) = constraint_floor c" by (cases c) (simp_all add: o_def)
qed

lemma floors_policy:
  assumes "list_all constraint_ok cs"
  shows "dict_get (floors (py_upper (join_with '' '' (map constraint_text cs)))) f = map_of (rev (policy_floors cs)) f"
proof -
  have ok: "c \<in> set cs \<Longrightarrow> constraint_ok c" for c using assms by (simp add: list_all_iff)
  have "join_with '' '' (map constraint_text cs) = join_with '' '' (concat (map constraint_words cs))"
    using join_concat [of "map constraint_words cs" "'' ''"] ok upper_words(3)
    by (simp add: constraint_text_def [abs_def] o_def list_all_iff)
  then have "py_upper (join_with '' '' (map constraint_text cs)) = join_with '' '' (map py_upper (concat (map constraint_words cs)))"
    by (simp only: upper_join)
  also have "map py_upper (concat (map constraint_words cs)) = map piece_text (concat (map pieces cs))"
    using ok upper_words(1) by (simp add: map_concat o_def cong: map_cong)
  finally have up: "py_upper (join_with '' '' (map constraint_text cs)) = join_with '' '' (map piece_text (concat (map pieces cs)))" .
  have "keysizes False 0 (py_upper (join_with '' '' (map constraint_text cs))) = concat (map piece_floor (concat (map pieces cs)))"
  proof -
    have "list_all piece_ok (concat (map pieces cs))"
      using ok upper_words(2) by (auto simp: list_all_iff)
    from keysizes_pieces [OF this] show ?thesis
      by (simp only: up)
  qed
  also have "\<dots> = policy_floors cs"
    using assms by (induction cs) (simp_all add: policy_floors_def upper_words(4))
  finally have k: "keysizes False 0 (py_upper (join_with '' '' (map constraint_text cs))) = policy_floors cs" .
  have "map_of (foldl (\<lambda>d (f, n). dict_set f n d) d fs) = map_of d ++ map_of (rev fs)" for d :: "nat dict" and fs
    by (induction fs arbitrary: d) auto
  then show ?thesis by (simp add: floors_def k)
qed

section \<open>The report\<close>

lemma length_floor_gap: "length (floor_gap now f disabled found fm) \<le> 1"
  by (auto simp: floor_gap_def Let_def split: prod.splits option.splits)

lemma length_gaps: "length (emit_gaps now f disabled) \<le> 8"
proof -
  have "length (protocol_gaps now f disabled) \<le> 2" "length (weak_gaps now f disabled) \<le> 3"
    by (simp_all add: protocol_gaps_def weak_gaps_def EXPECTED_PROTOCOLS_def EXPECTED_WEAK_def)
  moreover have "length (floor_gaps now f disabled) \<le> 3"
    using length_floor_gap [of now f disabled "dict_get (floors (py_upper (join_with '' '' disabled))) ''RSA''" "(''RSA'', 2048)"]
      length_floor_gap [of now f disabled "dict_get (floors (py_upper (join_with '' '' disabled))) ''DH''" "(''DH'', 2048)"]
      length_floor_gap [of now f disabled "dict_get (floors (py_upper (join_with '' '' disabled))) ''EC''" "(''EC'', 224)"]
    by (simp add: floor_gaps_def KEYSIZE_FLOORS_def Let_def)
  ultimately show ?thesis by (simp add: emit_gaps_def)
qed

text \<open>The limit of \<^verbatim>\<open>send\<close> is never reached.\<close>

lemma scan_policy_all:
  "scan_policy now f body =
   [policy_finding now f (parse_policy body)] @ emit_gaps now f (prop_list (parse_policy body) PROP_TLS) @ [reminder_finding now f]"
  using length_gaps [of now f "prop_list (parse_policy body) PROP_TLS"]
  by (simp add: scan_policy_def Let_def MAX_JAVA_FINDINGS_def)

text \<open>The algorithms of the gaps and their classes.\<close>

lemma algs_gaps:
  assumes "\<And>l. algorithm (g l) = l"
  shows "algorithm ` set (concat (map (\<lambda>(a, l). if P a then [] else [g l]) xs)) = {l. \<exists>a. (a, l) \<in> set xs \<and> \<not> P a}"
proof (induction xs)
  case (Cons x xs)
  obtain a l where "x = (a, l)" by force
  with Cons assms show ?case by (cases "P a") (auto simp: image_Un simp del: set_concat set_map)
qed simp

lemma algs_protocol:
  "algorithm ` set (protocol_gaps now f disabled) = {label. \<exists>tok. (tok, label) \<in> set EXPECTED_PROTOCOLS \<and> tok \<notin> set (map py_upper disabled)}"
  unfolding protocol_gaps_def by (rule algs_gaps) simp

lemma algs_weak:
  "algorithm ` set (weak_gaps now f disabled) =
   {label. \<exists>needle. (needle, label) \<in> set EXPECTED_WEAK \<and> \<not> contains (py_upper (join_with '' '' disabled)) needle}"
  unfolding weak_gaps_def by (rule algs_gaps) simp

lemma floors_gap:
  "fi \<in> set (floor_gaps now f disabled) \<longleftrightarrow>
   (\<exists>fm\<in>set KEYSIZE_FLOORS. fi \<in> set (floor_gap now f disabled (dict_get (floors (py_upper (join_with '' '' disabled))) (fst fm)) fm))"
  by (auto simp: floor_gaps_def Let_def)

lemma floor_gap_kind:
  "(\<exists>fi\<in>set (floor_gap now f disabled found fm). algorithm fi = a \<and> classification fi = c) \<longleftrightarrow>
   a = fst fm \<and> (c = SEDERHANA \<and> found = None \<or> c = TINGGI \<and> (\<exists>n < snd fm. found = Some n))"
  by (cases fm) (auto simp: floor_gap_def split: option.splits)

text \<open>The names of all findings of a file differ.\<close>

lemma names_differ:
  "distinct (map snd EXPECTED_PROTOCOLS @ map snd EXPECTED_WEAK @ map fst KEYSIZE_FLOORS @ [''jvm-crypto-policy'', ''classical-kex-quantum''])"
  by code_simp

lemma names_apart:
  "\<forall>l\<in>set (map snd EXPECTED_PROTOCOLS). l \<noteq> ''jvm-crypto-policy'' \<and> l \<noteq> ''classical-kex-quantum'' \<and>
     l \<notin> set (map snd EXPECTED_WEAK) \<and> l \<notin> set (map fst KEYSIZE_FLOORS)"
  "\<forall>l\<in>set (map snd EXPECTED_WEAK). l \<noteq> ''jvm-crypto-policy'' \<and> l \<noteq> ''classical-kex-quantum'' \<and>
     l \<notin> set (map snd EXPECTED_PROTOCOLS) \<and> l \<notin> set (map fst KEYSIZE_FLOORS)"
  "\<forall>l\<in>set (map fst KEYSIZE_FLOORS). l \<noteq> ''jvm-crypto-policy'' \<and> l \<noteq> ''classical-kex-quantum'' \<and>
     l \<notin> set (map snd EXPECTED_PROTOCOLS) \<and> l \<notin> set (map snd EXPECTED_WEAK)"
  by code_simp+

lemma snd_unique: "distinct (map snd xs) \<Longrightarrow> (a, l) \<in> set xs \<Longrightarrow> (b, l) \<in> set xs \<Longrightarrow> a = b"
  by (induction xs) (auto simp: rev_image_eqI)

lemma distinct_labels: "distinct (map snd EXPECTED_PROTOCOLS)" "distinct (map snd EXPECTED_WEAK)" "distinct (map fst KEYSIZE_FLOORS)"
  using names_differ by simp_all

lemma floor_unique: "(family, m) \<in> set KEYSIZE_FLOORS \<Longrightarrow> (family, m') \<in> set KEYSIZE_FLOORS \<Longrightarrow> m = m'"
  using eq_key_imp_eq_value [OF distinct_labels(3)] by blast

lemma floor_gap_found:
  assumes "(family, minimum) \<in> set KEYSIZE_FLOORS"
  shows "(\<exists>fi\<in>set (floor_gaps now f disabled). algorithm fi = family \<and> classification fi = c) \<longleftrightarrow>
    c = SEDERHANA \<and> dict_get (floors (py_upper (join_with '' '' disabled))) family = None \<or>
    c = TINGGI \<and> (\<exists>n < minimum. dict_get (floors (py_upper (join_with '' '' disabled))) family = Some n)"
proof -
  let ?get = "dict_get (floors (py_upper (join_with '' '' disabled)))"
  have "(\<exists>fi\<in>set (floor_gaps now f disabled). algorithm fi = family \<and> classification fi = c) \<longleftrightarrow>
      (\<exists>fm\<in>set KEYSIZE_FLOORS. \<exists>fi\<in>set (floor_gap now f disabled (?get (fst fm)) fm). algorithm fi = family \<and> classification fi = c)"
    unfolding Bex_def floors_gap by blast
  also have "\<dots> \<longleftrightarrow> (\<exists>fm\<in>set KEYSIZE_FLOORS. family = fst fm \<and> (c = SEDERHANA \<and> ?get (fst fm) = None \<or> c = TINGGI \<and> (\<exists>n < snd fm. ?get (fst fm) = Some n)))"
    unfolding floor_gap_kind ..
  also have "\<dots> \<longleftrightarrow> c = SEDERHANA \<and> ?get family = None \<or> c = TINGGI \<and> (\<exists>n < minimum. ?get family = Some n)" (is "?l \<longleftrightarrow> ?r")
  proof
    show "?l \<Longrightarrow> ?r" using floor_unique [OF assms] by auto
    show "?r \<Longrightarrow> ?l" using assms by (intro bexI [of _ "(family, minimum)"]) simp_all
  qed
  finally show ?thesis .
qed

text \<open>What is left enabled, over the findings of a file; the other findings have other names.\<close>

definition reports_gap :: "finding list \<Rightarrow> string \<Rightarrow> bool" where
  "reports_gap outs a \<longleftrightarrow> (\<exists>fi\<in>set outs. algorithm fi = a)"

definition reports_floor :: "finding list \<Rightarrow> string \<Rightarrow> classification \<Rightarrow> bool" where
  "reports_floor outs a c \<longleftrightarrow> (\<exists>fi\<in>set outs. algorithm fi = a \<and> classification fi = c)"

lemma floor_algs: "algorithm ` set (floor_gaps now f disabled) \<subseteq> set (map fst KEYSIZE_FLOORS)"
proof
  fix a assume "a \<in> algorithm ` set (floor_gaps now f disabled)"
  then obtain fi where a: "a = algorithm fi" "fi \<in> set (floor_gaps now f disabled)" by blast
  then obtain fm where fi: "fm \<in> set KEYSIZE_FLOORS" "fi \<in> set (floor_gap now f disabled (dict_get (floors (py_upper (join_with '' '' disabled))) (fst fm)) fm)"
    unfolding floors_gap by blast
  then have "a = fst fm" using a(1) floor_gap_kind [of now f disabled _ fm a "classification fi"] by blast
  with fi(1) show "a \<in> set (map fst KEYSIZE_FLOORS)" by simp
qed

lemma protocol_algs: "algorithm ` set (protocol_gaps now f disabled) \<subseteq> set (map snd EXPECTED_PROTOCOLS)"
  unfolding algs_protocol by (auto simp: rev_image_eqI)

lemma weak_algs: "algorithm ` set (weak_gaps now f disabled) \<subseteq> set (map snd EXPECTED_WEAK)"
  unfolding algs_weak by (auto simp: rev_image_eqI)

lemma frame_algs:
  "algorithm (policy_finding now f props) = ''jvm-crypto-policy''" "algorithm (reminder_finding now f) = ''classical-kex-quantum''"
  by (simp_all add: policy_finding_def reminder_finding_def Let_def)

lemma report_split:
  assumes "prop_list (parse_policy body) PROP_TLS = disabled"
  shows "reports_gap (scan_policy now f body) l \<longleftrightarrow>
      l = ''jvm-crypto-policy'' \<or> l = ''classical-kex-quantum'' \<or>
      l \<in> algorithm ` set (protocol_gaps now f disabled) \<or> l \<in> algorithm ` set (weak_gaps now f disabled) \<or> l \<in> algorithm ` set (floor_gaps now f disabled)"
proof -
  have "reports_gap (scan_policy now f body) l \<longleftrightarrow> l \<in> algorithm ` set (scan_policy now f body)"
    unfolding reports_gap_def by blast
  then show ?thesis
    unfolding scan_policy_all emit_gaps_def assms by (simp only: set_append image_Un list.set image_insert frame_algs image_empty Un_iff insert_iff empty_iff) blast
qed

lemma report_protocol:
  assumes "(tok, l) \<in> set EXPECTED_PROTOCOLS" and "prop_list (parse_policy body) PROP_TLS = disabled"
  shows "reports_gap (scan_policy now f body) l \<longleftrightarrow> tok \<notin> set (map py_upper disabled)"
proof -
  have "l \<in> set (map snd EXPECTED_PROTOCOLS)" using assms(1) by (auto simp: rev_image_eqI)
  note apart = names_apart(1) [rule_format, OF this]
  have "l \<notin> algorithm ` set (weak_gaps now f disabled)" by (rule contra_subsetD [OF weak_algs]) (simp only: apart not_False_eq_True)
  moreover have "l \<notin> algorithm ` set (floor_gaps now f disabled)" by (rule contra_subsetD [OF floor_algs]) (simp only: apart not_False_eq_True)
  moreover have "l \<in> algorithm ` set (protocol_gaps now f disabled) \<longleftrightarrow> tok \<notin> set (map py_upper disabled)"
    unfolding algs_protocol using assms(1) snd_unique [OF distinct_labels(1), of _ l] by blast
  ultimately show ?thesis by (simp only: report_split [OF assms(2)] apart simp_thms)
qed

lemma report_weak:
  assumes "(needle, l) \<in> set EXPECTED_WEAK" and "prop_list (parse_policy body) PROP_TLS = disabled"
  shows "reports_gap (scan_policy now f body) l \<longleftrightarrow> \<not> contains (py_upper (join_with '' '' disabled)) needle"
proof -
  have "l \<in> set (map snd EXPECTED_WEAK)" using assms(1) by (auto simp: rev_image_eqI)
  note apart = names_apart(2) [rule_format, OF this]
  have "l \<notin> algorithm ` set (protocol_gaps now f disabled)" by (rule contra_subsetD [OF protocol_algs]) (simp only: apart not_False_eq_True)
  moreover have "l \<notin> algorithm ` set (floor_gaps now f disabled)" by (rule contra_subsetD [OF floor_algs]) (simp only: apart not_False_eq_True)
  moreover have "l \<in> algorithm ` set (weak_gaps now f disabled) \<longleftrightarrow> \<not> contains (py_upper (join_with '' '' disabled)) needle"
    unfolding algs_weak using assms(1) snd_unique [OF distinct_labels(2), of _ l] by blast
  ultimately show ?thesis by (simp only: report_split [OF assms(2)] apart simp_thms)
qed

lemma report_floor:
  assumes "(l, minimum) \<in> set KEYSIZE_FLOORS" and "prop_list (parse_policy body) PROP_TLS = disabled"
  shows "reports_floor (scan_policy now f body) l c \<longleftrightarrow> reports_floor (floor_gaps now f disabled) l c"
proof -
  have "l \<in> set (map fst KEYSIZE_FLOORS)" using assms(1) by (auto simp: rev_image_eqI)
  note apart = names_apart(3) [rule_format, OF this]
  have w: "l \<notin> algorithm ` set (weak_gaps now f disabled)" by (rule contra_subsetD [OF weak_algs]) (simp only: apart not_False_eq_True)
  have p: "l \<notin> algorithm ` set (protocol_gaps now f disabled)" by (rule contra_subsetD [OF protocol_algs]) (simp only: apart not_False_eq_True)
  have fr: "algorithm (policy_finding now f (parse_policy body)) \<noteq> l" "algorithm (reminder_finding now f) \<noteq> l"
    unfolding frame_algs by (rule apart [THEN conjunct1, THEN not_sym], rule apart [THEN conjunct2, THEN conjunct1, THEN not_sym])
  have "fi \<in> set (scan_policy now f body) \<and> algorithm fi = l \<longleftrightarrow> fi \<in> set (floor_gaps now f disabled) \<and> algorithm fi = l" for fi
    using w p fr unfolding scan_policy_all emit_gaps_def assms(2) by auto
  then show ?thesis unfolding reports_floor_def by blast
qed

section \<open>The files\<close>

fun root_files :: "java_root \<Rightarrow> java_file list" where
  "root_files (Policy_Dir fs) = fs"
| "root_files (Policy_File f) = [f]"
| "root_files No_Policy = []"

definition found_ok :: "string list \<times> java_file list \<Rightarrow> bool" where
  "found_ok st \<longleftrightarrow> set (fst st) = jf_key ` set (snd st) \<and> distinct (map jf_key (snd st))"

lemma add_file_ok: "found_ok st \<Longrightarrow> found_ok (add_file f st) \<and> jf_key f \<in> set (fst (add_file f st)) \<and> set (fst st) \<subseteq> set (fst (add_file f st))"
  by (cases st) (auto simp: found_ok_def add_file_def)

lemma add_files_ok:
  "found_ok st \<Longrightarrow> found_ok (add_files fs st) \<and> set (fst st) \<subseteq> set (fst (add_files fs st)) \<and>
   (MAX_JAVA_FILES \<le> length (snd (add_files fs st)) \<or> jf_key ` set fs \<subseteq> set (fst (add_files fs st)))"
proof (induction fs arbitrary: st)
  case (Cons f fs)
  note a = add_file_ok [OF Cons.prems, of f]
  from Cons.IH [of "add_file f st"] a show ?case by (auto simp: Let_def)
qed simp

lemma discover_from_ok:
  "found_ok st \<Longrightarrow> found_ok (discover_from roots st) \<and> set (fst st) \<subseteq> set (fst (discover_from roots st)) \<and>
   (MAX_JAVA_FILES \<le> length (snd (discover_from roots st)) \<or>
    (\<forall>root\<in>set roots. jf_key ` set (root_files root) \<subseteq> set (fst (discover_from roots st))))"
proof (induction roots arbitrary: st)
  case (Cons root roots)
  let ?st = "case root of Policy_Dir fs \<Rightarrow> add_files fs st | Policy_File f \<Rightarrow> add_file f st | No_Policy \<Rightarrow> st"
  have st: "found_ok ?st \<and> set (fst st) \<subseteq> set (fst ?st) \<and>
      (MAX_JAVA_FILES \<le> length (snd ?st) \<or> jf_key ` set (root_files root) \<subseteq> set (fst ?st))"
    using add_files_ok [OF Cons.prems] add_file_ok [OF Cons.prems] Cons.prems by (cases root) auto
  with Cons.IH [of ?st] show ?case by (auto simp: Let_def)
qed simp

lemma discover_complete:
  "distinct (map jf_key (discover roots)) \<and>
   (MAX_JAVA_FILES \<le> length (discover roots) \<or>
    (\<forall>root\<in>set roots. \<forall>f\<in>set (root_files root). \<exists>g\<in>set (discover roots). jf_key g = jf_key f))"
  using discover_from_ok [of "([], [])" roots] by (fastforce simp: discover_def found_ok_def)

section \<open>Properties\<close>


definition sample_policy :: "policy_item list" where
  "sample_policy = [Remark ''# hardened'', Entry PROP_TLS [(''SSLv3'', None), (''TLSv1'', Some ''    ''), (''RC4'', None), (''RSA keySize < 1024'', None)]]"

definition sample_constraints :: "constraint list" where
  "sample_constraints = [Named [''SSLv3''], Named [''TLSv1''], Named [''RC4''], Floor ''RSA'' 1024]"

definition sample_file :: java_file where
  "sample_file = \<lparr>jf_key = ''/j'', jf_path = ''/j'', jf_text = Some (policy_text sample_policy)\<rparr>"


text \<open>Of several floors for one family only the last is seen, though each of them is in force.\<close>

lemma later_floor_hides_earlier:
  "map_of (rev (policy_floors [Floor ''RSA'' 2048, Floor ''RSA'' 1024])) ''RSA'' = Some 1024"
  by (simp add: policy_floors_def)

end
