(* ===== verification/Sbom_Map.thy ===== *)
theory Sbom_Map
  imports Finding_Parity Tls_Client Capped_Report
begin

text \<open>
  \<^verbatim>\<open>probes/sbom_crypto_map.py\<close>: crypto libraries among the dependencies that manifests declare. The files under a root,
  with the text of each, and the parsers of JSON, TOML and XML are arguments; a TOML document is the JSON value of
  the same shape, an XML document a tree of tags and texts.
\<close>

section \<open>The corpus\<close>

record lib_info =
  lib_primitives :: "string list"
  lib_class :: classification
  lib_note :: string
  lib_pqc :: bool

definition lib :: "string list \<Rightarrow> classification \<Rightarrow> string \<Rightarrow> bool \<Rightarrow> lib_info" where
  "lib prims cls note pqc = \<lparr>lib_primitives = prims, lib_class = cls, lib_note = note, lib_pqc = pqc\<rparr>"

definition PYPI_LIBS :: "lib_info dict" where
  "PYPI_LIBS =
  [(''cryptography'', lib [''RSA'', ''ECDSA'', ''Ed25519'', ''AES''] TINGGI ''provides RSA/ECDSA (Shor-breakable)'' False),
   (''pycryptodome'', lib [''RSA'', ''AES'', ''DES'', ''3DES''] TINGGI ''RSA plus legacy DES/3DES available'' False),
   (''pycryptodomex'', lib [''RSA'', ''AES'', ''DES'', ''3DES''] TINGGI ''RSA plus legacy DES/3DES available'' False),
   (''pyopenssl'', lib [''RSA'', ''ECDSA'', ''DH''] TINGGI ''OpenSSL binding: RSA/ECDSA/DH'' False),
   (''pynacl'', lib [''X25519'', ''Ed25519''] TINGGI ''libsodium binding: X25519/Ed25519 (Shor-breakable)'' False),
   (''paramiko'', lib [''RSA'', ''ECDSA'', ''Ed25519''] TINGGI ''SSH client keys: RSA/ECDSA/Ed25519'' False),
   (''rsa'', lib [''RSA''] TINGGI ''pure-Python RSA'' False),
   (''ecdsa'', lib [''ECDSA'', ''ECDH''] TINGGI ''pure-Python ECDSA/ECDH'' False),
   (''bcrypt'', lib [''bcrypt''] RENDAH ''password hashing (not quantum-critical)'' False),
   (''argon2-cffi'', lib [''Argon2''] CLS_INFO ''password hashing (not quantum-critical)'' False),
   (''passlib'', lib [''bcrypt'', ''PBKDF2''] RENDAH ''password hashing toolkit'' False),
   (''oqs'', lib [''ML-KEM'', ''ML-DSA''] PQC_READY ''liboqs binding: ML-KEM/ML-DSA'' True),
   (''liboqs-python'', lib [''ML-KEM'', ''ML-DSA''] PQC_READY ''liboqs binding: ML-KEM/ML-DSA'' True),
   (''pqcrypto'', lib [''ML-KEM'', ''ML-DSA'', ''SPHINCS+''] PQC_READY ''PQClean binding'' True),
   (''kyber-py'', lib [''ML-KEM''] PQC_READY ''pure-Python ML-KEM (Kyber)'' True),
   (''dilithium-py'', lib [''ML-DSA''] PQC_READY ''pure-Python ML-DSA (Dilithium)'' True)]"

definition NPM_LIBS :: "lib_info dict" where
  "NPM_LIBS =
  [(''node-forge'', lib [''RSA'', ''AES'', ''DES'', ''3DES''] TINGGI ''RSA plus legacy DES/3DES available'' False),
   (''crypto-js'', lib [''MD5'', ''DES'', ''RC4'', ''AES''] TINGGI ''broken MD5/DES/RC4 available'' False),
   (''elliptic'', lib [''ECDSA'', ''ECDH''] TINGGI ''secp256k1/EC (Shor-breakable)'' False),
   (''tweetnacl'', lib [''X25519'', ''Ed25519''] TINGGI ''NaCl port: X25519/Ed25519'' False),
   (''jsrsasign'', lib [''RSA'', ''ECDSA''] TINGGI ''RSA/ECDSA JWT+X.509 toolkit'' False),
   (''bcryptjs'', lib [''bcrypt''] CLS_INFO ''password hashing (not quantum-critical)'' False),
   (''bcrypt'', lib [''bcrypt''] CLS_INFO ''password hashing (not quantum-critical)'' False),
   (''pqclean'', lib [''ML-KEM'', ''ML-DSA'', ''SPHINCS+''] PQC_READY ''PQClean WASM/native bindings'' True),
   (''kyber-crystals'', lib [''ML-KEM''] PQC_READY ''ML-KEM (Kyber)'' True),
   (''@noble/post-quantum'', lib [''ML-KEM'', ''ML-DSA'', ''SLH-DSA''] PQC_READY ''audited PQC: ML-KEM/ML-DSA/SLH-DSA'' True)]"

definition GOLANG_LIBS :: "lib_info dict" where
  "GOLANG_LIBS =
  [(''golang.org/x/crypto'', lib [''curve25519'', ''ed25519''] TINGGI ''curve25519/ed25519 (Shor-breakable)'' False),
   (''github.com/cloudflare/circl'', lib [''ML-KEM'', ''ML-DSA'', ''X25519'', ''ECDSA''] PQC_READY ''PQC (ML-KEM/ML-DSA) plus classical curves'' True),
   (''filippo.io/edwards25519'', lib [''ed25519''] TINGGI ''edwards25519 group ops (Shor-breakable)'' False),
   (''filippo.io/mlkem768'', lib [''ML-KEM''] PQC_READY ''ML-KEM-768'' True)]"

definition CARGO_LIBS :: "lib_info dict" where
  "CARGO_LIBS =
  [(''ring'', lib [''RSA'', ''ECDSA'', ''Ed25519'', ''AES''] TINGGI ''RSA/ECDSA/Ed25519 (Shor-breakable)'' False),
   (''openssl'', lib [''RSA'', ''ECDSA'', ''DH''] TINGGI ''OpenSSL binding: RSA/ECDSA/DH'' False),
   (''rsa'', lib [''RSA''] TINGGI ''pure-Rust RSA'' False),
   (''ed25519-dalek'', lib [''Ed25519''] TINGGI ''Ed25519 signatures (Shor-breakable)'' False),
   (''x25519-dalek'', lib [''X25519''] TINGGI ''X25519 key agreement (Shor-breakable)'' False),
   (''p256'', lib [''ECDSA'', ''ECDH''] TINGGI ''NIST P-256 ECDSA/ECDH'' False),
   (''pqcrypto'', lib [''ML-KEM'', ''ML-DSA'', ''SPHINCS+''] PQC_READY ''PQClean crates: ML-KEM/ML-DSA'' True),
   (''oqs'', lib [''ML-KEM'', ''ML-DSA''] PQC_READY ''liboqs binding: ML-KEM/ML-DSA'' True),
   (''ml-kem'', lib [''ML-KEM''] PQC_READY ''RustCrypto ML-KEM'' True)]"

definition MAVEN_LIBS :: "lib_info dict" where
  "MAVEN_LIBS =
  [(''bcpqc'', lib [''ML-KEM'', ''ML-DSA'', ''SPHINCS+''] PQC_READY ''BouncyCastle PQC provider'' True),
   (''bcprov'', lib [''RSA'', ''ECDSA'', ''DH'', ''AES''] TINGGI ''RSA/ECDSA by default; PQC available only via the bcpqc provider'' False),
   (''bcpkix'', lib [''RSA'', ''ECDSA''] TINGGI ''X.509/CMS over RSA/ECDSA'' False),
   (''bctls'', lib [''RSA'', ''ECDSA'', ''DH''] TINGGI ''TLS over RSA/ECDSA/DH'' False),
   (''bouncycastle'', lib [''RSA'', ''ECDSA'', ''DH''] TINGGI ''RSA/ECDSA by default; PQC available only via the bcpqc provider'' False)]"

definition CRYPTO_LIBRARY_MAP :: "lib_info dict dict" where
  "CRYPTO_LIBRARY_MAP = [(''pypi'', PYPI_LIBS), (''npm'', NPM_LIBS), (''golang'', GOLANG_LIBS), (''cargo'', CARGO_LIBS), (''maven'', MAVEN_LIBS)]"

definition norm_name :: "string \<Rightarrow> string" where
  "norm_name name = map (\<lambda>c. if c = CHR ''_'' then CHR ''-'' else c) (py_lower (py_strip name))"

definition lookup_lib :: "string \<Rightarrow> string \<Rightarrow> (string \<times> lib_info) option" where
  "lookup_lib ecosystem name =
     (case dict_get CRYPTO_LIBRARY_MAP ecosystem of
        None \<Rightarrow> None
      | Some table \<Rightarrow>
          (let n = norm_name name in
           case dict_get table n of
             Some hit \<Rightarrow> Some (n, hit)
           | None \<Rightarrow> if ecosystem = ''maven'' then find (\<lambda>(key, info). startswith n key) table else None))"

section \<open>Manifests\<close>

type_synonym dep = "string \<times> string option"

definition name_char :: "char \<Rightarrow> bool" where
  "name_char c \<longleftrightarrow> is_alnum c \<or> c \<in> set ''._-''"

definition version_char :: "char \<Rightarrow> bool" where
  "version_char c \<longleftrightarrow> is_alnum c \<or> c \<in> set ''.-_+*''"

text \<open>An optional \<^verbatim>\<open>[...]\<close> at the front.\<close>

definition skip_bracket :: "string \<Rightarrow> string" where
  "skip_bracket s =
     (case s of
        [] \<Rightarrow> []
      | c # cs \<Rightarrow> if c = CHR ''['' \<and> CHR '']'' \<in> set cs then tl (dropWhile (\<lambda>x. x \<noteq> CHR '']'') cs) else s)"

text \<open>Name and rest of a requirement; the rest may not contain a line feed, which the dot does not match.\<close>

definition req_match :: "string \<Rightarrow> (string \<times> string) option" where
  "req_match line =
     (if line = [] \<or> \<not> is_alnum (hd line) then None
      else
        (let name = takeWhile name_char line;
             rest = lstrip_set is_space (skip_bracket (lstrip_set is_space (dropWhile name_char line))) in
         if newline \<in> set rest then None else Some (name, rest)))"

fun req_version :: "string \<Rightarrow> string option" where
  "req_version [] = None"
| "req_version (c # s) =
     (let v = lstrip_set is_space (drop 2 (c # s)) in
      if startswith (c # s) ''=='' \<and> v \<noteq> [] \<and> is_alnum (hd v) then Some (takeWhile version_char v) else req_version s)"

definition req_dep :: "string \<Rightarrow> dep list" where
  "req_dep line = (case req_match line of None \<Rightarrow> [] | Some (name, rest) \<Rightarrow> [(name, req_version rest)])"

definition requirement_line :: "string \<Rightarrow> dep list" where
  "requirement_line raw =
     (let line = py_strip (fst (partition_char (CHR ''#'') raw)) in
      if line = [] \<or> startswith line ''-'' \<or> contains line ''://'' then [] else req_dep line)"

definition parse_requirements :: "string \<Rightarrow> dep list" where
  "parse_requirements body = concat (map requirement_line (splitlines body))"

definition parse_pep508_list :: "json list \<Rightarrow> dep list" where
  "parse_pep508_list items = concat (map (\<lambda>item. case item of JStr s \<Rightarrow> req_dep (py_strip s) | _ \<Rightarrow> []) items)"

definition obj_entries :: "json option \<Rightarrow> pydict" where
  "obj_entries v = (case v of Some (JObj d) \<Rightarrow> d | _ \<Rightarrow> [])"

definition list_items :: "json option \<Rightarrow> json list" where
  "list_items v = (case v of Some (JList xs) \<Rightarrow> xs | _ \<Rightarrow> [])"

definition str_or_none :: "json \<Rightarrow> string option" where
  "str_or_none v = (case v of JStr s \<Rightarrow> Some s | _ \<Rightarrow> None)"

text \<open>A value of another type than the one expected stands for an empty one: each of the nested tests skips it.\<close>

definition parse_pyproject :: "pydict \<Rightarrow> dep list" where
  "parse_pyproject data =
     (let project = obj_entries (dict_get data ''project'');
          poetry = obj_entries (dict_get (obj_entries (dict_get data ''tool'')) ''poetry'') in
      parse_pep508_list (list_items (dict_get project ''dependencies'')) @
      concat (map (\<lambda>(_, g). parse_pep508_list (list_items (Some g))) (obj_entries (dict_get project ''optional-dependencies''))) @
      map (\<lambda>(name, spec). (name, str_or_none spec)) (obj_entries (dict_get poetry ''dependencies'')))"

definition parse_package_json :: "json \<Rightarrow> dep list" where
  "parse_package_json data =
     concat (map (\<lambda>key. map (\<lambda>(name, ver). (name, str_or_none ver)) (obj_entries (dict_get (obj_entries (Some data)) key)))
       [''dependencies'', ''devDependencies'', ''optionalDependencies'', ''peerDependencies''])"

definition cargo_dep_version :: "json \<Rightarrow> string option" where
  "cargo_dep_version spec =
     (case spec of
        JStr s \<Rightarrow> Some s
      | JObj d \<Rightarrow> (case dict_get d ''version'' of Some v \<Rightarrow> str_or_none v | None \<Rightarrow> None)
      | _ \<Rightarrow> None)"

definition parse_cargo_toml :: "pydict \<Rightarrow> dep list" where
  "parse_cargo_toml data =
     concat (map (\<lambda>key. map (\<lambda>(name, spec). (name, cargo_dep_version spec)) (obj_entries (dict_get data key)))
       [''dependencies'', ''dev-dependencies'', ''build-dependencies''])"

fun before_comment :: "string \<Rightarrow> string" where
  "before_comment [] = []"
| "before_comment (c # s) = (if startswith (c # s) ''//'' then [] else c # before_comment s)"

definition module_char :: "char \<Rightarrow> bool" where
  "module_char c \<longleftrightarrow> is_alnum c \<or> c \<in> set ''.-_/''"

definition gomod_match :: "string \<Rightarrow> dep list" where
  "gomod_match line =
     (let m = takeWhile module_char line; rest = dropWhile module_char line; v = lstrip_set is_space rest;
          ver = takeWhile (\<lambda>c. \<not> is_space c) (tl v) in
      if CHR ''.'' \<in> set (butlast (tl m)) \<and> rest \<noteq> [] \<and> is_space (hd rest) \<and> v \<noteq> [] \<and> hd v = CHR ''v'' \<and> ver \<noteq> []
      then [(m, Some ver)] else [])"

definition gomod_line :: "string \<Rightarrow> dep list" where
  "gomod_line raw =
     (let line = py_strip (before_comment raw) in
      if line = [] \<or> line = ''require ('' \<or> line = '')'' then []
      else gomod_match (py_strip (if startswith line ''require '' then drop (length ''require '') line else line)))"

definition parse_go_mod :: "string \<Rightarrow> dep list" where
  "parse_go_mod body = concat (map gomod_line (splitlines body))"

datatype xml = Element string "string option" "xml list"

fun xml_iter :: "xml \<Rightarrow> xml list" where
  "xml_iter (Element tag body kids) = Element tag body kids # concat (map xml_iter kids)"

definition local_tag :: "string \<Rightarrow> string" where
  "local_tag tag = after_last (CHR ''}'') tag"

definition text_of :: "string option \<Rightarrow> string" where
  "text_of body = py_strip (case body of Some s \<Rightarrow> s | None \<Rightarrow> [])"

fun pom_child :: "string option \<times> string option \<Rightarrow> xml \<Rightarrow> string option \<times> string option" where
  "pom_child (artifact, version) (Element tag body kids) =
     (if local_tag tag = ''artifactId'' then (Some (text_of body), version)
      else if local_tag tag = ''version'' then (artifact, if text_of body = [] then None else Some (text_of body))
      else (artifact, version))"

fun pom_dep :: "xml \<Rightarrow> dep list" where
  "pom_dep (Element tag body kids) =
     (if local_tag tag \<noteq> ''dependency'' then []
      else (case foldl pom_child (None, None) kids of (Some a, version) \<Rightarrow> if a = [] then [] else [(a, version)] | (None, _) \<Rightarrow> []))"

definition parse_pom :: "xml \<Rightarrow> dep list" where
  "parse_pom root = concat (map pom_dep (xml_iter root))"

section \<open>The probe\<close>

text \<open>The parsers of the three formats, \<^const>\<open>None\<close> where they raise.\<close>

record loaders =
  ld_json :: "string \<Rightarrow> json option"
  ld_toml :: "string \<Rightarrow> pydict option"
  ld_xml :: "string \<Rightarrow> xml option"

type_synonym manifest = "string \<times> string \<times> (loaders \<Rightarrow> string \<Rightarrow> dep list option)"

definition MANIFESTS :: "manifest list" where
  "MANIFESTS =
    [(''requirements.txt'', ''pypi'', \<lambda>ld body. Some (parse_requirements body)),
     (''pyproject.toml'', ''pypi'', \<lambda>ld body. map_option parse_pyproject (ld_toml ld body)),
     (''package.json'', ''npm'', \<lambda>ld body. map_option parse_package_json (ld_json ld body)),
     (''go.mod'', ''golang'', \<lambda>ld body. Some (parse_go_mod body)),
     (''Cargo.toml'', ''cargo'', \<lambda>ld body. map_option parse_cargo_toml (ld_toml ld body)),
     (''pom.xml'', ''maven'', \<lambda>ld body. map_option parse_pom (ld_xml ld body))]"

definition SBOM_PROBE :: string where "SBOM_PROBE = ''sbom.crypto_map''"

text \<open>A dependency in a manifest, with what the corpus says of it.\<close>

record lib_use =
  lu_path :: string
  lu_ecosystem :: string
  lu_name :: string
  lu_version :: "string option"
  lu_info :: lib_info

definition dep_purl :: "lib_use \<Rightarrow> string" where
  "dep_purl u = ''pkg:'' @ lu_ecosystem u @ ''/'' @ lu_name u"

definition dep_key :: "lib_use \<Rightarrow> string \<times> string" where
  "dep_key u = (lu_path u, dep_purl u)"

definition dep_finding :: "int \<Rightarrow> lib_use \<Rightarrow> finding" where
  "dep_finding now u =
     (let info = lu_info u in
      (mk_finding SBOM_PROBE (dep_purl u) (lib_class info) (sev_for (lib_class info))
         (''dependency `'' @ lu_name u @ ''` provides '' @ (if lib_pqc info then ''post-quantum'' else ''classical'') @
            '' crypto primitives ('' @ join_with ''/'' (lib_primitives info) @ '')'')
         [(''path'', JStr (lu_path u)), (''ecosystem'', JStr (lu_ecosystem u)),
          (''version'', case lu_version u of Some v \<Rightarrow> JStr v | None \<Rightarrow> JNull),
          (''primitives'', JList (map JStr (lib_primitives info))), (''note'', JStr (lib_note info)), (''pqc'', JBool (lib_pqc info))]
         [] now)\<lparr>component_purl := Some (dep_purl u)\<rparr>)"

type_synonym sbom_state = "(string \<times> string) list \<times> finding list"

fun emit_deps :: "int \<Rightarrow> string \<Rightarrow> string \<Rightarrow> dep list \<Rightarrow> sbom_state \<Rightarrow> sbom_state" where
  "emit_deps now ecosystem path [] st = st"
| "emit_deps now ecosystem path ((name, version) # deps) (seen, outs) =
     (case lookup_lib ecosystem name of
        None \<Rightarrow> emit_deps now ecosystem path deps (seen, outs)
      | Some (_, info) \<Rightarrow>
          (let u = \<lparr>lu_path = path, lu_ecosystem = ecosystem, lu_name = name, lu_version = version, lu_info = info\<rparr> in
           if dep_key u \<in> set seen then emit_deps now ecosystem path deps (seen, outs)
           else emit_deps now ecosystem path deps (dep_key u # seen, outs @ [dep_finding now u])))"

text \<open>A root is the listing of each file name under it, with the text of each file that can be read; \<^const>\<open>None\<close> if it
  is no directory.\<close>

type_synonym sbom_root = "(string \<Rightarrow> (string \<times> string option) list) option"

definition emit_file :: "loaders \<Rightarrow> int \<Rightarrow> string \<Rightarrow> (loaders \<Rightarrow> string \<Rightarrow> dep list option) \<Rightarrow> string \<times> string option \<Rightarrow> sbom_state \<Rightarrow> sbom_state" where
  "emit_file ld now ecosystem parser file st =
     (case snd file of
        None \<Rightarrow> st
      | Some body \<Rightarrow> (case parser ld body of None \<Rightarrow> st | Some deps \<Rightarrow> emit_deps now ecosystem (fst file) deps st))"

definition emit_manifests :: "loaders \<Rightarrow> int \<Rightarrow> (string \<Rightarrow> (string \<times> string option) list) \<Rightarrow> sbom_state \<Rightarrow> sbom_state" where
  "emit_manifests ld now listing st =
     foldl (\<lambda>st (fname, ecosystem, parser). foldl (\<lambda>st file. emit_file ld now ecosystem parser file st) st (listing fname)) st MANIFESTS"

definition run_sbom :: "loaders \<Rightarrow> int \<Rightarrow> sbom_root list \<Rightarrow> finding list" where
  "run_sbom ld now roots =
     snd (foldl (\<lambda>st root. case root of None \<Rightarrow> st | Some listing \<Rightarrow> emit_manifests ld now listing st) ([], []) roots)"

section \<open>Requirements files\<close>

text \<open>
  The dependency probe reports each catalogued library once for each manifest, with the class the corpus gives it, and
  a requirements file as people write it is read back: names, extras, pinned versions, comments.
\<close>

section \<open>The report as a list\<close>

definition uses_of :: "string \<Rightarrow> string \<Rightarrow> dep list \<Rightarrow> lib_use list" where
  "uses_of ecosystem path deps =
     concat (map (\<lambda>(name, version).
       case lookup_lib ecosystem name of
         None \<Rightarrow> []
       | Some (_, info) \<Rightarrow> [\<lparr>lu_path = path, lu_ecosystem = ecosystem, lu_name = name, lu_version = version, lu_info = info\<rparr>]) deps)"

definition file_uses :: "loaders \<Rightarrow> string \<Rightarrow> (loaders \<Rightarrow> string \<Rightarrow> dep list option) \<Rightarrow> string \<times> string option \<Rightarrow> lib_use list" where
  "file_uses ld ecosystem parser file =
     (case snd file of None \<Rightarrow> [] | Some body \<Rightarrow> (case parser ld body of None \<Rightarrow> [] | Some deps \<Rightarrow> uses_of ecosystem (fst file) deps))"

definition listing_uses :: "loaders \<Rightarrow> (string \<Rightarrow> (string \<times> string option) list) \<Rightarrow> lib_use list" where
  "listing_uses ld listing = concat (map (\<lambda>(fname, ecosystem, parser). concat (map (file_uses ld ecosystem parser) (listing fname))) MANIFESTS)"

definition all_uses :: "loaders \<Rightarrow> sbom_root list \<Rightarrow> lib_use list" where
  "all_uses ld roots = concat (map (\<lambda>root. case root of None \<Rightarrow> [] | Some listing \<Rightarrow> listing_uses ld listing) roots)"

fun use_step :: "int \<Rightarrow> sbom_state \<Rightarrow> lib_use \<Rightarrow> sbom_state" where
  "use_step now (seen, outs) u = (if dep_key u \<in> set seen then (seen, outs) else (dep_key u # seen, outs @ [dep_finding now u]))"

lemma foldl_concat: "foldl f st (concat xss) = foldl (foldl f) st xss"
  by (induction xss arbitrary: st) simp_all

lemma foldl_nested: "foldl (\<lambda>st x. foldl f st (g x)) st xs = foldl f st (concat (map g xs))"
  by (induction xs arbitrary: st) simp_all

lemma emit_deps_fold: "emit_deps now ecosystem path deps st = foldl (use_step now) st (uses_of ecosystem path deps)"
  by (induction now ecosystem path deps st rule: emit_deps.induct)
    (auto simp: uses_of_def Let_def split: option.splits)

lemma emit_file_fold: "emit_file ld now ecosystem parser file st = foldl (use_step now) st (file_uses ld ecosystem parser file)"
  by (simp add: emit_file_def file_uses_def emit_deps_fold split: option.splits)

lemma emit_manifests_fold: "emit_manifests ld now listing st = foldl (use_step now) st (listing_uses ld listing)"
proof -
  have "foldl (\<lambda>st (fname, ecosystem, parser). foldl (\<lambda>st file. emit_file ld now ecosystem parser file st) st (listing fname)) st ms =
      foldl (use_step now) st (concat (map (\<lambda>(fname, ecosystem, parser). concat (map (file_uses ld ecosystem parser) (listing fname))) ms))" for ms
    by (induction ms arbitrary: st) (auto simp: emit_file_fold foldl_nested)
  then show ?thesis by (simp add: emit_manifests_def listing_uses_def)
qed

lemma use_fold: "snd (foldl (use_step now) (seen, outs) us) = outs @ map (dep_finding now) (distinct_by dep_key seen us)"
  by (induction us arbitrary: seen outs) simp_all

lemma run_sbom_uses: "run_sbom ld now roots = map (dep_finding now) (distinct_by dep_key [] (all_uses ld roots))"
proof -
  have "foldl (\<lambda>st root. case root of None \<Rightarrow> st | Some listing \<Rightarrow> emit_manifests ld now listing st) st roots =
      foldl (use_step now) st (all_uses ld roots)" for st
    by (induction roots arbitrary: st) (auto simp: all_uses_def emit_manifests_fold split: option.splits)
  then show ?thesis by (simp add: run_sbom_def use_fold)
qed

section \<open>Requirements as text\<close>

record requirement =
  rq_name :: string
  rq_extras :: "string option"
  rq_version :: "string option"
  rq_remark :: "string option"

definition opt_text :: "string \<Rightarrow> string option \<Rightarrow> string \<Rightarrow> string" where
  "opt_text l v r = (case v of None \<Rightarrow> [] | Some s \<Rightarrow> l @ s @ r)"

definition req_core :: "requirement \<Rightarrow> string" where
  "req_core r = rq_name r @ opt_text ''['' (rq_extras r) '']'' @ opt_text ''=='' (rq_version r) []"

definition req_text :: "requirement \<Rightarrow> string" where
  "req_text r = req_core r @ opt_text '' #'' (rq_remark r) []"

definition requirements_text :: "requirement list \<Rightarrow> string" where
  "requirements_text rs = concat (map (\<lambda>l. l @ [newline]) (map req_text rs))"

definition extras_char :: "char \<Rightarrow> bool" where
  "extras_char c \<longleftrightarrow> c \<notin> {CHR '']'', CHR ''#'', CHR '':''} \<and> \<not> line_break c"

definition req_ok :: "requirement \<Rightarrow> bool" where
  "req_ok r \<longleftrightarrow> rq_name r \<noteq> [] \<and> is_alnum (hd (rq_name r)) \<and> list_all name_char (rq_name r) \<and>
     (case rq_extras r of None \<Rightarrow> True | Some e \<Rightarrow> list_all extras_char e) \<and>
     (case rq_version r of None \<Rightarrow> True | Some v \<Rightarrow> v \<noteq> [] \<and> is_alnum (hd v) \<and> list_all version_char v) \<and>
     (case rq_remark r of None \<Rightarrow> True | Some m \<Rightarrow> list_all (\<lambda>c. \<not> line_break c) m)"

lemma alnum_char: "is_alnum c \<Longrightarrow> \<not> is_space c \<and> \<not> line_break c \<and> c \<notin> {CHR ''#'', CHR '':'', CHR ''-'', CHR ''['', CHR '']'', CHR ''=''}"
  by (auto simp: is_alnum_def is_digit_def is_upper_def is_lower_def is_space_def line_break_def char_code_def)

lemma name_char_plain: "name_char c \<Longrightarrow> \<not> is_space c \<and> \<not> line_break c \<and> c \<notin> {CHR ''#'', CHR '':''}"
  using alnum_char by (auto simp: name_char_def is_space_Char line_break_def char_code_def)

lemma version_char_plain: "version_char c \<Longrightarrow> \<not> is_space c \<and> \<not> line_break c \<and> c \<notin> {CHR ''#'', CHR '':''}"
  using alnum_char by (auto simp: version_char_def is_space_Char line_break_def char_code_def)

lemma not_name_char: "\<not> name_char (CHR ''['')" "\<not> name_char (CHR ''='')"
  using alnum_char by (auto simp: name_char_def)

lemma not_version_char: "\<not> version_char newline"
  by (simp add: version_char_def is_alnum_def is_digit_Char is_upper_Char is_lower_Char)

lemma core_chars:
  assumes "req_ok r" "c \<in> set (req_core r)"
  shows "c \<noteq> CHR ''#'' \<and> c \<noteq> CHR '':'' \<and> \<not> line_break c"
proof -
  have p: "\<not> line_break (CHR ''['')" "\<not> line_break (CHR '']'')" "\<not> line_break (CHR ''='')"
    by (simp_all add: line_break_def char_code_def)
  show ?thesis
    using assms p name_char_plain version_char_plain unfolding req_core_def opt_text_def req_ok_def list_all_iff extras_char_def
    by (fastforce split: option.splits)
qed

lemma core_ends:
  assumes "req_ok r"
  shows "req_core r \<noteq> []" "is_alnum (hd (req_core r))" "\<not> is_space (last (req_core r))" "\<not> is_space (hd (req_core r))"
proof -
  have n: "rq_name r \<noteq> []" "is_alnum (hd (rq_name r))" "\<forall>c\<in>set (rq_name r). \<not> is_space c"
    using assms name_char_plain by (auto simp: req_ok_def list_all_iff)
  show "req_core r \<noteq> []" "is_alnum (hd (req_core r))" using n by (simp_all add: req_core_def)
  then show "\<not> is_space (hd (req_core r))" using alnum_char by blast
  show "\<not> is_space (last (req_core r))"
  proof (cases "rq_version r")
    case (Some v)
    then have "v \<noteq> []" "\<forall>c\<in>set v. \<not> is_space c" using assms version_char_plain by (auto simp: req_ok_def list_all_iff)
    with Some show ?thesis by (simp add: req_core_def opt_text_def)
  next
    case None
    with n show ?thesis by (cases "rq_extras r") (simp_all add: req_core_def opt_text_def is_space_Char)
  qed
qed

lemma pinned_version: "v \<noteq> [] \<Longrightarrow> is_alnum (hd v) \<Longrightarrow> list_all version_char v \<Longrightarrow> req_version (''=='' @ v) = Some v"
  using alnum_char [of "hd v"] by (cases v) (auto simp: startswith_def lstrip_set_def list_all_iff)

lemma req_match_core:
  assumes "req_ok r"
  shows "req_match (req_core r) = Some (rq_name r, opt_text ''=='' (rq_version r) [])"
proof -
  let ?n = "rq_name r" and ?v = "opt_text ''=='' (rq_version r) []"
  let ?t = "opt_text ''['' (rq_extras r) '']'' @ ?v"
  have n: "?n \<noteq> []" "is_alnum (hd ?n)" "\<And>c. c \<in> set ?n \<Longrightarrow> name_char c" using assms by (auto simp: req_ok_def list_all_iff)
  have stop: "?t = [] \<or> \<not> name_char (hd ?t)"
    using not_name_char by (auto simp: opt_text_def split: option.splits)
  have tw: "takeWhile name_char (?n @ ?t) = ?n" "dropWhile name_char (?n @ ?t) = ?t"
    using n(3) stop by (cases ?t; simp add: takeWhile_append2 dropWhile_append2)+
  have v: "lstrip_set is_space ?v = ?v" "skip_bracket ?v = ?v" "newline \<notin> set ?v"
    using assms not_version_char by (auto simp: opt_text_def lstrip_set_def skip_bracket_def is_space_Char req_ok_def list_all_iff split: option.splits)
  have t: "lstrip_set is_space ?t = ?t"
    by (auto simp: opt_text_def lstrip_set_def is_space_Char split: option.splits)
  have b: "skip_bracket ?t = ?v"
  proof (cases "rq_extras r")
    case None
    then show ?thesis using v(2) by (simp add: opt_text_def)
  next
    case (Some e)
    then have "CHR '']'' \<notin> set e" using assms by (auto simp: req_ok_def list_all_iff extras_char_def)
    then have "dropWhile (\<lambda>x. x \<noteq> CHR '']'') (e @ CHR '']'' # ?v) = CHR '']'' # ?v" by (induction e) auto
    then show ?thesis by (simp add: Some opt_text_def skip_bracket_def)
  qed
  show ?thesis
    using n(1, 2) v by (simp add: req_match_def req_core_def tw t b Let_def)
qed

lemma py_strip_end_blank:
  assumes "s \<noteq> []" "\<not> is_space (hd s)" "\<not> is_space (last s)" "is_space c"
  shows "py_strip (s @ [c]) = s"
proof -
  have "dropWhile is_space (rev s) = rev s" using assms(1, 3) by (simp add: dropWhile_eq_self_iff hd_rev)
  moreover have "dropWhile is_space (s @ [c]) = s @ [c]" using assms(1, 2) by (simp add: dropWhile_eq_self_iff)
  ultimately show ?thesis using assms(4) by (simp add: py_strip_def lstrip_set_def rstrip_set_def)
qed

lemma requirement_line_text:
  assumes "req_ok r"
  shows "requirement_line (req_text r) = [(rq_name r, rq_version r)]"
proof -
  let ?c = "req_core r"
  have h: "CHR ''#'' \<notin> set ?c" using core_chars [OF assms] by blast
  have tw: "takeWhile (\<lambda>x. x \<noteq> CHR ''#'') (?c @ u) = ?c @ takeWhile (\<lambda>x. x \<noteq> CHR ''#'') u" for u
    using h by (intro takeWhile_append2) auto
  have "fst (partition_char (CHR ''#'') (req_text r)) = ?c @ opt_text '' '' (map_option (\<lambda>_. []) (rq_remark r)) []"
    by (auto simp: partition_char_def req_text_def opt_text_def tw tw [of "[]", simplified] split: option.splits)
  then have l: "py_strip (fst (partition_char (CHR ''#'') (req_text r))) = ?c"
    using core_ends [OF assms] by (cases "rq_remark r") (simp_all add: opt_text_def py_strip_ends py_strip_end_blank is_space_Char)
  have "\<not> startswith ?c ''-''"
    using core_ends(1, 2) [OF assms] alnum_char by (cases ?c) (auto simp: startswith_def)
  moreover have "\<not> contains ?c ''://''"
    using core_chars [OF assms] set_mono_sublist [of "''://''" ?c] by (auto simp: contains_def)
  moreover have "req_version (opt_text ''=='' (rq_version r) []) = rq_version r"
    using assms pinned_version by (auto simp: opt_text_def req_ok_def split: option.splits)
  ultimately show ?thesis
    using core_ends(1) [OF assms] by (simp add: requirement_line_def l req_dep_def req_match_core [OF assms])
qed

lemma parse_requirements_text:
  assumes "list_all req_ok rs"
  shows "parse_requirements (requirements_text rs) = map (\<lambda>r. (rq_name r, rq_version r)) rs"
proof -
  have "list_all (\<lambda>c. \<not> line_break c) (req_text r)" if "req_ok r" for r
    using core_chars [OF that] that
    by (auto simp: list_all_iff req_text_def opt_text_def req_ok_def line_break_def char_code_def split: option.splits)
  then have "splitlines (requirements_text rs) = map req_text rs"
    using assms unfolding requirements_text_def by (intro splitlines_lines) (auto simp: list_all_iff)
  then show ?thesis
    using assms by (simp add: parse_requirements_def o_def list_all_iff requirement_line_text cong: map_cong)
qed

lemma use_info:
  assumes "w \<in> set (all_uses ld roots)"
  shows "(\<exists>k. lookup_lib (lu_ecosystem w) (lu_name w) = Some (k, lu_info w)) \<and> lu_ecosystem w \<in> set (map fst CRYPTO_LIBRARY_MAP)"
proof -
  obtain ecosystem path deps where "w \<in> set (uses_of ecosystem path deps)"
    using assms unfolding all_uses_def listing_uses_def file_uses_def by (fastforce split: option.splits)
  then have "\<exists>k. lookup_lib (lu_ecosystem w) (lu_name w) = Some (k, lu_info w)"
    by (auto simp: uses_of_def split: option.splits) metis
  moreover from this have "dict_get CRYPTO_LIBRARY_MAP (lu_ecosystem w) \<noteq> None"
    by (auto simp: lookup_lib_def split: option.splits)
  then have "lu_ecosystem w \<in> fst ` set CRYPTO_LIBRARY_MAP"
    by (simp add: map_of_eq_None_iff)
  ultimately show ?thesis by simp
qed

lemma pypi_purl: "e \<in> set (map fst CRYPTO_LIBRARY_MAP) \<Longrightarrow> ''pkg:'' @ e @ ''/'' @ n = ''pkg:pypi/'' @ m \<Longrightarrow> e = ''pypi'' \<and> n = m"
  by (auto simp: CRYPTO_LIBRARY_MAP_def)

section \<open>Properties\<close>

text \<open>C32. The dependency probe reports each use of a catalogued library once for each manifest and package URL, in the order
  of the manifests, and nothing else. A requirements file is read as people write it, with extras, pinned versions and
  remarks, and each of its packages whose name is in the catalogue in any capitalisation or spelling of the dashes has a
  finding for that manifest with the class that the catalogue gives it.\<close>

theorem dependencies_reported:
  assumes "Some listing \<in> set roots" and "(path, Some (requirements_text rs)) \<in> set (listing ''requirements.txt'')" and "list_all req_ok rs"
  shows "run_sbom ld now roots = map (dep_finding now) (distinct_by dep_key [] (all_uses ld roots)) \<and>
    parse_requirements (requirements_text rs) = map (\<lambda>r. (rq_name r, rq_version r)) rs \<and>
    (\<forall>r\<in>set rs. \<forall>info. dict_get PYPI_LIBS (norm_name (rq_name r)) = Some info \<longrightarrow>
       (\<exists>fi\<in>set (run_sbom ld now roots). component_purl fi = Some (''pkg:pypi/'' @ rq_name r) \<and>
          dict_get (evidence fi) ''path'' = Some (JStr path) \<and> classification fi = lib_class info))"
proof (intro conjI ballI allI impI)
  show "run_sbom ld now roots = map (dep_finding now) (distinct_by dep_key [] (all_uses ld roots))"
    by (rule run_sbom_uses)
  show deps: "parse_requirements (requirements_text rs) = map (\<lambda>r. (rq_name r, rq_version r)) rs"
    by (rule parse_requirements_text [OF assms(3)])
  fix r info assume r: "r \<in> set rs" and info: "dict_get PYPI_LIBS (norm_name (rq_name r)) = Some info"
  let ?u = "\<lparr>lu_path = path, lu_ecosystem = ''pypi'', lu_name = rq_name r, lu_version = rq_version r, lu_info = info\<rparr>"
  have look: "lookup_lib ''pypi'' (rq_name r) = Some (norm_name (rq_name r), info)"
    using info by (simp add: lookup_lib_def CRYPTO_LIBRARY_MAP_def Let_def)
  have "?u \<in> set (uses_of ''pypi'' path (map (\<lambda>r. (rq_name r, rq_version r)) rs))"
    using r look by (force simp: uses_of_def)
  then have "?u \<in> set (file_uses ld ''pypi'' (\<lambda>ld body. Some (parse_requirements body)) (path, Some (requirements_text rs)))"
    by (simp add: file_uses_def deps)
  then have "?u \<in> set (all_uses ld roots)"
    using assms(1, 2) by (force simp: all_uses_def listing_uses_def MANIFESTS_def)
  then have "dep_key ?u \<in> dep_key ` set (distinct_by dep_key [] (all_uses ld roots))"
    by (simp add: distinct_by_keys)
  then obtain w where w: "w \<in> set (distinct_by dep_key [] (all_uses ld roots))" "dep_key w = dep_key ?u" by force
  have "lu_path w = path \<and> dep_purl w = dep_purl ?u" using w(2) by (simp add: dep_key_def)
  moreover have "w \<in> set (all_uses ld roots)" using w(1) distinct_by_subset [of dep_key "[]"] by blast
  note use = use_info [OF this]
  have "lu_ecosystem w = ''pypi'' \<and> lu_name w = rq_name r"
    using w(2) use by (intro pypi_purl) (simp_all add: dep_key_def dep_purl_def)
  with use look have i: "lu_info w = info" by simp
  have "dep_finding now w \<in> set (run_sbom ld now roots)"
    using w(1) by (simp add: run_sbom_uses)
  moreover have "component_purl (dep_finding now w) = Some (''pkg:pypi/'' @ rq_name r) \<and>
      dict_get (evidence (dep_finding now w)) ''path'' = Some (JStr path) \<and> classification (dep_finding now w) = lib_class info"
    using w(2) i by (simp add: dep_key_def dep_purl_def dep_finding_def Let_def)
  ultimately show "\<exists>fi\<in>set (run_sbom ld now roots). component_purl fi = Some (''pkg:pypi/'' @ rq_name r) \<and>
      dict_get (evidence fi) ''path'' = Some (JStr path) \<and> classification fi = lib_class info"
    by blast
qed

definition sample_requirements :: "requirement list" where
  "sample_requirements = [\<lparr>rq_name = ''Cryptography'', rq_extras = Some ''ssh'', rq_version = Some ''42.0.5'', rq_remark = Some '' pinned''\<rparr>]"

definition sample_root :: sbom_root where
  "sample_root = Some (\<lambda>f. [(''/a'', Some (requirements_text sample_requirements))])"

definition no_loaders :: loaders where
  "no_loaders = \<lparr>ld_json = \<lambda>_. None, ld_toml = \<lambda>_. None, ld_xml = \<lambda>_. None\<rparr>"

theorem dependencies_reported_witness:
  "\<exists>fi\<in>set (run_sbom no_loaders 0 [sample_root]). component_purl fi = Some ''pkg:pypi/Cryptography'' \<and> classification fi = TINGGI"
proof -
  have 1: "Some (\<lambda>f. [(''/a'', Some (requirements_text sample_requirements))]) \<in> set [sample_root]" by (simp add: sample_root_def)
  have 2: "(''/a'', Some (requirements_text sample_requirements)) \<in> set ((\<lambda>f. [(''/a'', Some (requirements_text sample_requirements))]) ''requirements.txt'')" by simp
  have 3: "list_all req_ok sample_requirements" by code_simp
  have "map_option lib_class (dict_get PYPI_LIBS (norm_name ''Cryptography'')) = Some TINGGI" by code_simp
  then obtain info where "dict_get PYPI_LIBS (norm_name ''Cryptography'') = Some info" "lib_class info = TINGGI" by auto
  with dependencies_reported [OF 1 2 3, of no_loaders 0, THEN conjunct2, THEN conjunct2]
  have "\<exists>fi\<in>set (run_sbom no_loaders 0 [sample_root]). component_purl fi = Some ''pkg:pypi/Cryptography'' \<and>
      dict_get (evidence fi) ''path'' = Some (JStr ''/a'') \<and> classification fi = TINGGI"
    by (simp add: sample_requirements_def)
  then show ?thesis by blast
qed

text \<open>Every entry of the corpus can be reached: its key is in the form the lookup looks for.\<close>

lemma corpus_reachable:
  "list_all (\<lambda>(ecosystem, table). list_all (\<lambda>(key, info). lookup_lib ecosystem key = Some (key, info)) table) CRYPTO_LIBRARY_MAP"
  by code_simp

text \<open>Modules that a go.mod excludes are reported as dependencies.\<close>

lemma excluded_module_reported:
  "parse_go_mod (''exclude ('' @ [newline, CHR 0x09] @ ''golang.org/x/crypto v0.1.0'' @ [newline] @ '')'') = [(''golang.org/x/crypto'', Some ''0.1.0'')]"
  by code_simp

end
