(* ===== verification/Db_Crypto.thy ===== *)
theory Db_Crypto
  imports Finding_Parity Tls_Client Binary
begin

text \<open>
  \<^verbatim>\<open>probes/fs_db_crypto.py\<close>: keys and certificates stored in the columns of databases. What the database engine returns
  for a file and the parsers of certificates and keys are arguments; a character is a byte of the text, so whether a
  text fits Latin-1 is an argument too.
\<close>

section \<open>Vocabulary\<close>

definition DB_PROBE :: string where "DB_PROBE = ''fs.db.crypto''"

definition SQLITE_MAGIC :: "byte list" where
  "SQLITE_MAGIC = text_bytes ''SQLite format 3'' @ [0]"

definition SQLITE_EXTS :: "string list" where "SQLITE_EXTS = [''.db'', ''.sqlite'', ''.sqlite3'']"

definition SQL_TEXT_EXTS :: "string list" where "SQL_TEXT_EXTS = [''.sql'', ''.dump'']"

definition MAX_FINDINGS_PER_DB :: nat where "MAX_FINDINGS_PER_DB = 200"

definition MAX_VALUE_BYTES :: nat where "MAX_VALUE_BYTES = 1024 * 1024"

definition MAX_ROWS_PER_TABLE :: nat where "MAX_ROWS_PER_TABLE = 50000"

definition MAX_TABLES :: nat where "MAX_TABLES = 4096"

definition MAX_TEXT_BYTES :: nat where "MAX_TEXT_BYTES = 64 * 1024 * 1024"

definition DB_EXCLUDE_DIRS :: "string list" where
  "DB_EXCLUDE_DIRS = [''.git'', ''node_modules'', ''.venv'', ''venv'', ''__pycache__'', ''.mypy_cache'', ''.pytest_cache'']"

definition PRIV_LABEL_MAP :: "string dict" where
  "PRIV_LABEL_MAP =
    [(''RSA PRIVATE KEY'', ''RSA''), (''EC PRIVATE KEY'', ''EC''), (''DSA PRIVATE KEY'', ''DSA''),
     (''ENCRYPTED PRIVATE KEY'', ''encrypted-PKCS8''), (''PRIVATE KEY'', ''PKCS8''), (''OPENSSH PRIVATE KEY'', ''OpenSSH'')]"

definition SSH_ALG_MAP :: "string dict" where
  "SSH_ALG_MAP = [(''ssh-rsa'', ''RSA''), (''ssh-ed25519'', ''Ed25519''), (''ssh-dss'', ''DSA'')]"

section \<open>Material in a text\<close>

text \<open>Where a text first contains another.\<close>

fun find_sub :: "string \<Rightarrow> string \<Rightarrow> nat option" where
  "find_sub p [] = (if p = [] then Some 0 else None)"
| "find_sub p (c # s) = (if startswith (c # s) p then Some 0 else map_option Suc (find_sub p s))"

definition label_char :: "char \<Rightarrow> bool" where
  "label_char c \<longleftrightarrow> is_upper c \<or> is_digit c \<or> c = CHR '' ''"

definition dashes :: string where "dashes = ''-----''"

definition pem_begin :: string where "pem_begin = dashes @ ''BEGIN ''"

definition pem_end :: "string \<Rightarrow> string" where
  "pem_end label = dashes @ ''END '' @ label @ dashes"

text \<open>A PEM block at the front of a text: its label and its length. The label ends at the first dash; the block at the
  first end line for this label.\<close>

definition pem_at :: "string \<Rightarrow> (string \<times> nat) option" where
  "pem_at s =
     (if \<not> startswith s pem_begin then None
      else
        (let s1 = drop (length pem_begin) s; label = takeWhile label_char s1; s2 = drop (length label) s1 in
         if label = [] \<or> \<not> startswith s2 dashes then None
         else
           (case find_sub (pem_end label) (drop (length dashes) s2) of
              None \<Rightarrow> None
            | Some i \<Rightarrow> Some (label, length pem_begin + length label + length dashes + i + length (pem_end label)))))"

text \<open>\<^verbatim>\<open>finditer\<close>: labels with their blocks; \<open>skip\<close> counts what a match has used.\<close>

fun pem_blocks :: "nat \<Rightarrow> string \<Rightarrow> (string \<times> string) list" where
  "pem_blocks skip [] = []"
| "pem_blocks skip (c # s) =
     (if skip > 0 then pem_blocks (skip - 1) s
      else
        (case pem_at (c # s) of
           None \<Rightarrow> pem_blocks 0 s
         | Some (label, n) \<Rightarrow> (label, take n (c # s)) # pem_blocks (n - 1) s))"

definition ecdsa_char :: "char \<Rightarrow> bool" where
  "ecdsa_char c \<longleftrightarrow> is_lower c \<or> is_digit c \<or> c = CHR ''-''"

definition blob_char :: "char \<Rightarrow> bool" where
  "blob_char c \<longleftrightarrow> is_alnum c \<or> c \<in> set ''+/=''"

text \<open>\<^verbatim>\<open>\w\<close> on Latin-1.\<close>

definition latin_word :: "char \<Rightarrow> bool" where
  "latin_word c \<longleftrightarrow> is_word c \<or>
     (let n = char_code c in n \<in> {0xAA, 0xB2, 0xB3, 0xB5, 0xB9, 0xBA, 0xBC, 0xBD, 0xBE} \<or> (0xC0 \<le> n \<and> n \<noteq> 0xD7 \<and> n \<noteq> 0xF7))"

text \<open>The key type at the front of a text.\<close>

definition ssh_token :: "string \<Rightarrow> string option" where
  "ssh_token s =
     (case find (startswith s) [''ssh-rsa'', ''ssh-ed25519'', ''ssh-dss''] of
        Some t \<Rightarrow> Some t
      | None \<Rightarrow>
          if startswith s ''ecdsa-sha2-'' then
            (let w = takeWhile ecdsa_char (drop (length ''ecdsa-sha2-'') s) in if w = [] then None else Some (''ecdsa-sha2-'' @ w))
          else None)"

definition ssh_at :: "string \<Rightarrow> (string \<times> nat) option" where
  "ssh_at s =
     (case ssh_token s of
        None \<Rightarrow> None
      | Some t \<Rightarrow>
          (let s1 = drop (length t) s; sp = takeWhile latin_space s1; blob = takeWhile blob_char (drop (length sp) s1) in
           if sp = [] \<or> length blob < 20 then None else Some (t, length t + length sp + length blob)))"

fun ssh_keys :: "bool \<Rightarrow> nat \<Rightarrow> string \<Rightarrow> string list" where
  "ssh_keys after_word skip [] = []"
| "ssh_keys after_word skip (c # s) =
     (if skip > 0 then ssh_keys (latin_word c) (skip - 1) s
      else
        (case (if after_word then None else ssh_at (c # s)) of
           None \<Rightarrow> ssh_keys (latin_word c) 0 s
         | Some (t, n) \<Rightarrow> t # ssh_keys (latin_word c) (n - 1) s))"

datatype hit_kind = Cert_Hit | Private_Key | Public_Key | Ssh_Key

fun kind_text :: "hit_kind \<Rightarrow> string" where
  "kind_text Cert_Hit = ''cert''"
| "kind_text Private_Key = ''private_key''"
| "kind_text Public_Key = ''public_key''"
| "kind_text Ssh_Key = ''ssh_key''"

record db_hit =
  dh_kind :: hit_kind
  dh_algorithm :: string
  dh_class :: classification
  dh_key_type :: string
  dh_dedup :: string
  dh_fingerprint :: "string option"

text \<open>What the parsers say of a block: key and fingerprint of a certificate, a private key (OpenSSH or not), a public
  key.\<close>

record key_loaders =
  kl_cert :: "string \<Rightarrow> (pub_key \<times> string) option"
  kl_private :: "bool \<Rightarrow> string \<Rightarrow> pub_key option"
  kl_public :: "string \<Rightarrow> pub_key option"
  kl_latin :: "string \<Rightarrow> bool"

definition cert_hit :: "key_loaders \<Rightarrow> bool \<Rightarrow> string \<Rightarrow> db_hit option" where
  "cert_hit kl encodes block =
     (case (if encodes then kl_cert kl block else None) of
        None \<Rightarrow> None
      | Some (key, fp) \<Rightarrow>
          (let alg = key_algorithm key in
           Some \<lparr>dh_kind = Cert_Hit, dh_algorithm = alg, dh_class = classify alg, dh_key_type = ''certificate'',
                 dh_dedup = ''cert:'' @ fp, dh_fingerprint = Some fp\<rparr>))"

definition family_name :: "string \<Rightarrow> string" where
  "family_name key_type =
     (case map_of [(''RSA'', ''RSA''), (''EC'', ''ECDSA''), (''DSA'', ''DSA'')] key_type of Some a \<Rightarrow> a | None \<Rightarrow> key_type)"

definition private_alg :: "key_loaders \<Rightarrow> string \<Rightarrow> string \<Rightarrow> string" where
  "private_alg kl block key_type =
     (case kl_private kl (key_type = ''OpenSSH'') block of Some key \<Rightarrow> key_algorithm key | None \<Rightarrow> family_name key_type)"

definition private_type :: "string \<Rightarrow> string" where
  "private_type label = (case dict_get PRIV_LABEL_MAP label of Some t \<Rightarrow> t | None \<Rightarrow> ''private-key'')"

text \<open>\<^const>\<open>None\<close>: a block outside Latin-1 raises here, before the \<^verbatim>\<open>try\<close>.\<close>

definition private_key_hit :: "key_loaders \<Rightarrow> bool \<Rightarrow> string \<Rightarrow> string \<Rightarrow> db_hit option" where
  "private_key_hit kl encodes label block =
     (if \<not> encodes then None
      else
        Some \<lparr>dh_kind = Private_Key, dh_algorithm = private_alg kl block (private_type label), dh_class = SANGAT_TINGGI,
          dh_key_type = private_type label, dh_dedup = ''privkey:'' @ private_type label, dh_fingerprint = None\<rparr>)"

definition public_key_hit :: "key_loaders \<Rightarrow> bool \<Rightarrow> string \<Rightarrow> db_hit option" where
  "public_key_hit kl encodes block =
     (case (if encodes then kl_public kl block else None) of
        None \<Rightarrow> None
      | Some key \<Rightarrow>
          (let alg = key_algorithm key in
           Some \<lparr>dh_kind = Public_Key, dh_algorithm = alg, dh_class = classify alg, dh_key_type = ''public-key'',
                 dh_dedup = ''pubkey:'' @ alg, dh_fingerprint = None\<rparr>))"

definition ssh_alg :: "string \<Rightarrow> string" where
  "ssh_alg token =
     (if startswith token ''ecdsa-sha2-'' then ''ECDSA'' else (case dict_get SSH_ALG_MAP token of Some a \<Rightarrow> a | None \<Rightarrow> token))"

definition ssh_hit :: "string \<Rightarrow> db_hit" where
  "ssh_hit token =
     \<lparr>dh_kind = Ssh_Key, dh_algorithm = ssh_alg token, dh_class = classify (ssh_alg token), dh_key_type = ''ssh:'' @ token,
      dh_dedup = ''sshkey:'' @ token, dh_fingerprint = None\<rparr>"

text \<open>The hits of one block; \<^const>\<open>None\<close> when it raises.\<close>

definition block_hits :: "key_loaders \<Rightarrow> (string \<Rightarrow> bool) \<Rightarrow> string \<times> string \<Rightarrow> db_hit list option" where
  "block_hits kl latin lb =
     (let label = py_strip (fst lb); block = snd lb; opt = (\<lambda>h. case h of None \<Rightarrow> [] | Some x \<Rightarrow> [x]) in
      if label = ''CERTIFICATE'' then Some (opt (cert_hit kl (latin block) block))
      else if endswith label ''PRIVATE KEY'' then map_option (\<lambda>h. [h]) (private_key_hit kl (latin block) label block)
      else if label = ''PUBLIC KEY'' then Some (opt (public_key_hit kl (latin block) block))
      else Some [])"

fun blocks_hits :: "key_loaders \<Rightarrow> (string \<Rightarrow> bool) \<Rightarrow> (string \<times> string) list \<Rightarrow> db_hit list option" where
  "blocks_hits kl latin [] = Some []"
| "blocks_hits kl latin (b # bs) =
     (case block_hits kl latin b of None \<Rightarrow> None | Some hs \<Rightarrow> map_option ((@) hs) (blocks_hits kl latin bs))"

definition scan_value :: "key_loaders \<Rightarrow> (string \<Rightarrow> bool) \<Rightarrow> string \<Rightarrow> db_hit list option" where
  "scan_value kl latin body =
     (let window = take MAX_VALUE_BYTES body in
      map_option (\<lambda>hs. hs @ map ssh_hit (ssh_keys False 0 window)) (blocks_hits kl latin (pem_blocks 0 window)))"

section \<open>Sources\<close>

datatype db_cell = Text_Cell string | Blob_Cell "byte list" | Other_Cell

text \<open>A cell as text, with the test whether a part of it fits Latin-1: what was decoded from bytes does.\<close>

fun cell_to_text :: "key_loaders \<Rightarrow> db_cell \<Rightarrow> ((string \<Rightarrow> bool) \<times> string) option" where
  "cell_to_text kl (Text_Cell s) = Some (kl_latin kl, s)"
| "cell_to_text kl (Blob_Cell bs) = Some (\<lambda>_. True, map char_of_byte bs)"
| "cell_to_text kl Other_Cell = None"

text \<open>A table: whether the query runs, the columns it names, its rows, and whether reading fails after them.\<close>

record db_table =
  tb_name :: string
  tb_opens :: bool
  tb_columns :: "string list"
  tb_rows :: "db_cell list list"
  tb_breaks :: bool

type_synonym located = "(string option \<times> string option) \<times> db_hit"

text \<open>The hits of a source with whether it raised after them.\<close>

type_synonym source = "located list \<times> bool"

definition then_source :: "source \<Rightarrow> source \<Rightarrow> source" where
  "then_source a b = (if snd a then a else (fst a @ fst b, snd b))"

fun chain_sources :: "source list \<Rightarrow> source" where
  "chain_sources [] = ([], False)"
| "chain_sources (a # as) = then_source a (chain_sources as)"

definition value_source :: "string option \<times> string option \<Rightarrow> db_hit list option \<Rightarrow> source" where
  "value_source place hits = (case hits of None \<Rightarrow> ([], True) | Some hs \<Rightarrow> (map (Pair place) hs, False))"

definition column_name :: "string list \<Rightarrow> nat \<Rightarrow> string" where
  "column_name columns i = (if i < length columns then columns ! i else ''col'' @ show_nat i)"

definition row_source :: "key_loaders \<Rightarrow> db_table \<Rightarrow> db_cell list \<Rightarrow> source" where
  "row_source kl t row =
     chain_sources (map (\<lambda>(i, cell).
       case cell_to_text kl cell of
         None \<Rightarrow> ([], False)
       | Some (latin, body) \<Rightarrow> value_source (Some (tb_name t), Some (column_name (tb_columns t) i)) (scan_value kl latin body))
       (zip [0..<length row] row))"

definition table_source :: "key_loaders \<Rightarrow> db_table \<Rightarrow> source" where
  "table_source kl t =
     (if \<not> tb_opens t then ([], False)
      else then_source (chain_sources (map (row_source kl t) (take MAX_ROWS_PER_TABLE (tb_rows t))))
             ([], tb_breaks t \<and> length (tb_rows t) \<le> MAX_ROWS_PER_TABLE))"

text \<open>\<^const>\<open>None\<close>: the database cannot be opened or its catalogue not be read.\<close>

definition sqlite_source :: "key_loaders \<Rightarrow> db_table list option \<Rightarrow> source" where
  "sqlite_source kl tables =
     (case tables of None \<Rightarrow> ([], False) | Some ts \<Rightarrow> chain_sources (map (table_source kl) (take MAX_TABLES ts)))"

definition text_source :: "key_loaders \<Rightarrow> byte list option \<Rightarrow> source" where
  "text_source kl raw =
     (case raw of
        None \<Rightarrow> ([], False)
      | Some bs \<Rightarrow> value_source (None, None) (scan_value kl (\<lambda>_. True) (map char_of_byte (take MAX_TEXT_BYTES bs))))"

section \<open>The probe\<close>

record db_file =
  df_path :: string
  df_suffix :: string
  df_content :: "byte list option"
  df_tables :: "db_table list option"

definition opt_text_json :: "string option \<Rightarrow> json" where
  "opt_text_json v = (case v of None \<Rightarrow> JNull | Some s \<Rightarrow> JStr s)"

definition db_location :: "string option \<times> string option \<Rightarrow> string" where
  "db_location place =
     (case place of
        (None, _) \<Rightarrow> ''(sql-dump)''
      | (Some t, c) \<Rightarrow> t @ ''.'' @ (case c of Some s \<Rightarrow> s | None \<Rightarrow> ''None''))"

definition db_evidence :: "db_file \<Rightarrow> located \<Rightarrow> pydict" where
  "db_evidence f lh =
     [(''path'', JStr (df_path f)), (''table'', opt_text_json (fst (fst lh))), (''column'', opt_text_json (snd (fst lh))),
      (''key_type'', JStr (dh_key_type (snd lh)))] @
     (if dh_kind (snd lh) = Private_Key then []
      else (case dh_fingerprint (snd lh) of None \<Rightarrow> [] | Some fp \<Rightarrow> [(''fingerprint'', JStr fp)]))"

definition db_finding :: "int \<Rightarrow> db_file \<Rightarrow> located \<Rightarrow> finding" where
  "db_finding now f lh =
     (let h = snd lh; loc = db_location (fst lh) in
      mk_finding DB_PROBE (dh_algorithm h) (dh_class h) (sev_for (dh_class h))
        (if dh_kind h = Private_Key then ''private key material stored in DB column '' @ loc @ '' ('' @ dh_key_type h @ '')''
         else kind_text (dh_kind h) @ '' in DB column '' @ loc @ '': '' @ dh_algorithm h)
        (db_evidence f lh) [] now)"

definition db_capped_note :: "int \<Rightarrow> db_file \<Rightarrow> finding" where
  "db_capped_note now f =
     mk_finding DB_PROBE ''N/A'' CLS_INFO (sev_for CLS_INFO)
       (''finding cap ('' @ show_nat MAX_FINDINGS_PER_DB @ '') reached '' @ DASH @ '' DB crypto output truncated'')
       [(''path'', JStr (df_path f)), (''cap'', JInt (int MAX_FINDINGS_PER_DB))] [] now"

definition located_key :: "located \<Rightarrow> (string option \<times> string option) \<times> string" where
  "located_key lh = (fst lh, dh_dedup (snd lh))"

record emit_state =
  em_seen :: "((string option \<times> string option) \<times> string) list"
  em_count :: nat
  em_out :: "finding list"
  em_capped :: bool

definition emit_located :: "int \<Rightarrow> db_file \<Rightarrow> located \<Rightarrow> emit_state \<Rightarrow> emit_state" where
  "emit_located now f lh st =
     (let k = located_key lh in
      if k \<in> set (em_seen st) then st
      else
        (let st1 = st\<lparr>em_seen := k # em_seen st\<rparr> in
         if em_count st \<ge> MAX_FINDINGS_PER_DB then st1\<lparr>em_capped := True\<rparr>
         else st1\<lparr>em_out := em_out st @ [db_finding now f lh], em_count := em_count st + 1\<rparr>))"

fun emit_all :: "int \<Rightarrow> db_file \<Rightarrow> located list \<Rightarrow> emit_state \<Rightarrow> emit_state" where
  "emit_all now f [] st = st"
| "emit_all now f (lh # lhs) st = (let st' = emit_located now f lh st in if em_capped st' then st' else emit_all now f lhs st')"

text \<open>The note follows only a loop that the cap has ended; a source that raises ends the file.\<close>

definition emit_source :: "int \<Rightarrow> db_file \<Rightarrow> source \<Rightarrow> finding list" where
  "emit_source now f src =
     (let st = emit_all now f (fst src) \<lparr>em_seen = [], em_count = 0, em_out = [], em_capped = False\<rparr> in
      em_out st @ (if em_capped st then [db_capped_note now f] else []))"

definition db_source :: "key_loaders \<Rightarrow> db_file \<Rightarrow> source" where
  "db_source kl f =
     (case df_content f of
        None \<Rightarrow> ([], False)
      | Some bs \<Rightarrow>
          if take 16 bs = SQLITE_MAGIC then sqlite_source kl (df_tables f)
          else if py_lower (df_suffix f) \<in> set SQLITE_EXTS then sqlite_source kl (df_tables f)
          else if py_lower (df_suffix f) \<in> set SQL_TEXT_EXTS then text_source kl (Some bs)
          else ([], False))"

definition scan_db :: "key_loaders \<Rightarrow> int \<Rightarrow> db_file \<Rightarrow> finding list" where
  "scan_db kl now f = emit_source now f (db_source kl f)"

text \<open>The walk: \<^const>\<open>None\<close> in an entry where the file system raises.\<close>

record db_entry =
  de_parts :: "string list"
  de_plain :: "bool option"
  de_file :: db_file

datatype db_root = Db_File db_file | Db_Dir "db_entry list" | Db_None

definition db_entry_kept :: "db_entry \<Rightarrow> bool" where
  "db_entry_kept p \<longleftrightarrow> \<not> list_ex (\<lambda>part. part \<in> set DB_EXCLUDE_DIRS) (de_parts p) \<and> de_plain p = Some True"

fun db_files :: "db_root list \<Rightarrow> db_file list" where
  "db_files [] = []"
| "db_files (Db_File f # rs) = f # db_files rs"
| "db_files (Db_Dir es # rs) = map de_file (filter db_entry_kept es) @ db_files rs"
| "db_files (Db_None # rs) = db_files rs"

definition run_db :: "key_loaders \<Rightarrow> int \<Rightarrow> db_root list \<Rightarrow> finding list" where
  "run_db kl now roots = concat (map (scan_db kl now) (db_files roots))"

end
