(* ===== verification/Db_Laws.thy ===== *)
theory Db_Laws
  imports Db_Crypto Capped_Report
begin

text \<open>
  The database probe finds all the material that a text holds, reports each piece or says that its report is cut, and
  nothing of a private key but its kind enters a finding.
\<close>

section \<open>Texts that hold material\<close>

text \<open>Words without dashes, a PEM block with a body without dashes, a line with an SSH key.\<close>

datatype segment = Words string | Pem string string | Ssh string string

definition SSH_TOKENS :: "string list" where
  "SSH_TOKENS = [''ssh-rsa'', ''ssh-ed25519'', ''ssh-dss'', ''ecdsa-sha2-nistp256'', ''ecdsa-sha2-nistp384'', ''ecdsa-sha2-nistp521'']"

definition pem_block :: "string \<Rightarrow> string \<Rightarrow> string" where
  "pem_block label body = pem_begin @ label @ dashes @ (body @ [newline]) @ pem_end label"

fun segment_text :: "segment \<Rightarrow> string" where
  "segment_text (Words s) = s @ [newline]"
| "segment_text (Pem label body) = pem_block label body @ [newline]"
| "segment_text (Ssh token blob) = token @ '' '' @ blob @ [newline]"

definition dashless :: "string \<Rightarrow> bool" where
  "dashless s \<longleftrightarrow> CHR ''-'' \<notin> set s"

fun segment_ok :: "segment \<Rightarrow> bool" where
  "segment_ok (Words s) \<longleftrightarrow> dashless s"
| "segment_ok (Pem label body) \<longleftrightarrow> label \<noteq> [] \<and> list_all label_char label \<and> dashless body"
| "segment_ok (Ssh token blob) \<longleftrightarrow> token \<in> set SSH_TOKENS \<and> 20 \<le> length blob \<and> list_all blob_char blob"

definition document :: "segment list \<Rightarrow> string" where
  "document segs = concat (map segment_text segs)"

fun segment_pem :: "segment \<Rightarrow> (string \<times> string) list" where
  "segment_pem (Pem label body) = [(label, pem_block label body)]"
| "segment_pem _ = []"

fun segment_ssh :: "segment \<Rightarrow> string list" where
  "segment_ssh (Ssh token blob) = [token]"
| "segment_ssh _ = []"

section \<open>Finding PEM blocks\<close>

text \<open>No two dashes stand together and none at the end, so that no begin line can start here.\<close>

definition single_dashes :: "string \<Rightarrow> bool" where
  "single_dashes s \<longleftrightarrow> (s \<noteq> [] \<longrightarrow> last s \<noteq> CHR ''-'') \<and> \<not> sublist ''--'' s"

lemma single_dashes_Cons: "single_dashes (c # s) \<Longrightarrow> single_dashes s \<and> \<not> prefix ''--'' ((c # s) @ t)"
  by (cases s) (auto simp: single_dashes_def sublist_Cons_right)

lemma not_pem: "\<not> prefix ''--'' s \<Longrightarrow> pem_at s = None"
  by (auto simp: pem_at_def startswith_def pem_begin_def dashes_def prefix_def)

lemma pem_skip: "pem_blocks (length u) (u @ s) = pem_blocks 0 s"
  by (induction u) simp_all

lemma pem_blocks_single: "single_dashes u \<Longrightarrow> pem_blocks 0 (u @ s) = pem_blocks 0 s"
proof (induction u)
  case (Cons c u)
  from single_dashes_Cons [OF Cons.prems, of s] Cons.IH not_pem show ?case by simp
qed simp

lemma dashless_single: "dashless s \<Longrightarrow> single_dashes (s @ [c])" if "c \<noteq> CHR ''-''"
  using that set_mono_sublist [of "''--''" "s @ [c]"] by (auto simp: dashless_def single_dashes_def)

lemma find_sub_dashless:
  "dashless s \<Longrightarrow> prefix ''-'' p \<Longrightarrow> find_sub p (s @ p @ t) = Some (length s)"
proof (induction s)
  case Nil
  then show ?case by (cases "p @ t") (auto simp: startswith_def prefix_def)
next
  case (Cons c s)
  then have "\<not> startswith ((c # s) @ p @ t) p" by (auto simp: startswith_def dashless_def prefix_def)
  with Cons show ?case by (simp add: dashless_def)
qed

lemma label_stop: "list_all label_char label \<Longrightarrow> takeWhile label_char (label @ dashes @ s) = label"
  by (simp add: list_all_iff takeWhile_append2 dashes_def label_char_def is_upper_Char is_digit_Char)

lemma pem_at_block:
  assumes "label \<noteq> []" "list_all label_char label" "dashless body"
  shows "pem_at (pem_block label body @ s) = Some (label, length (pem_block label body))"
proof -
  let ?rest = "(body @ [newline]) @ pem_end label @ s"
  have b: "pem_block label body @ s = pem_begin @ label @ dashes @ ?rest"
    by (simp add: pem_block_def)
  have f: "find_sub (pem_end label) ?rest = Some (length (body @ [newline]))"
    using assms(3) by (intro find_sub_dashless) (simp_all add: dashless_def pem_end_def dashes_def)
  have st: "startswith (p @ u) p" for p u by simp
  have dp: "drop (length p) (p @ u) = u" for p u :: string by simp
  have "pem_at (pem_begin @ label @ dashes @ ?rest) =
      Some (label, length pem_begin + length label + length dashes + length (body @ [newline]) + length (pem_end label))"
    unfolding pem_at_def Let_def
    by (simp only: st dp label_stop [OF assms(2)] assms(1) f option.case simp_thms if_False if_True)
  then show ?thesis
    unfolding b by (simp add: pem_block_def)
qed

lemma pem_blocks_block:
  assumes "label \<noteq> []" "list_all label_char label" "dashless body"
  shows "pem_blocks 0 (pem_block label body @ s) = (label, pem_block label body) # pem_blocks 0 s"
proof -
  obtain c u where u: "pem_block label body = c # u"
    by (cases "pem_block label body") (simp_all add: pem_block_def pem_begin_def dashes_def)
  have "pem_at (c # u @ s) = Some (label, length (c # u))"
    using pem_at_block [OF assms, of s] by (simp only: u append_Cons)
  then show ?thesis
    by (simp add: u pem_skip)
qed

lemma pem_document: "list_all segment_ok segs \<Longrightarrow> pem_blocks 0 (document segs) = concat (map segment_pem segs)"
proof (induction segs)
  case (Cons g segs)
  have nl: "pem_at (newline # s) = None" for s
    by (simp add: not_pem)
  show ?case
  proof (cases g)
    case (Words s)
    with Cons.prems dashless_single [of newline s] have "single_dashes (s @ [newline])" by simp
    from pem_blocks_single [OF this, of "document segs"] Cons Words show ?thesis by (simp add: document_def)
  next
    case (Pem label body)
    with Cons pem_blocks_block [of label body "newline # document segs"] show ?thesis by (simp add: document_def nl)
  next
    case (Ssh token blob)
    with Cons.prems have ok: "token \<in> set SSH_TOKENS" "list_all blob_char blob" by simp_all
    have "CHR ''-'' \<notin> set blob"
      using ok(2) by (auto simp: list_all_iff blob_char_def is_alnum_def is_digit_Char is_upper_Char is_lower_Char)
    then have "dashless ('' '' @ blob)" by (simp add: dashless_def)
    moreover have "pem_blocks 0 (token @ s) = pem_blocks 0 s" if "\<not> prefix ''-'' s" for s
      using ok(1) that by (auto simp: SSH_TOKENS_def not_pem prefix_def)
    ultimately show ?thesis
      using Cons Ssh pem_blocks_single [OF dashless_single, of newline "'' '' @ blob" "document segs"]
      by (simp add: document_def)
  qed
qed (simp add: document_def)

section \<open>Finding SSH keys\<close>

definition token_starts :: "string list" where
  "token_starts = [''ssh-rsa'', ''ssh-ed25519'', ''ssh-dss'', ''ecdsa-sha2-'']"

lemma ssh_at_none: "\<forall>p\<in>set token_starts. \<not> prefix p s \<Longrightarrow> ssh_at s = None"
  by (simp add: token_starts_def ssh_at_def ssh_token_def startswith_def)

lemma token_start_chars: "p \<in> set token_starts \<Longrightarrow> CHR ''-'' \<in> set p \<and> newline \<notin> set p \<and> p \<noteq> [] \<and> hd p \<in> {CHR ''s'', CHR ''e''}"
  by (auto simp: token_starts_def)

lemma newline_not_word: "\<not> latin_word newline"
  by (simp add: latin_word_def is_word_def is_alnum_def is_digit_Char is_upper_Char is_lower_Char char_code_def)

text \<open>A line without dashes holds no key, whatever comes before and after it.\<close>

lemma ssh_words: "dashless w \<Longrightarrow> ssh_keys aw 0 (w @ newline # s) = ssh_keys False 0 s"
proof (induction w arbitrary: aw)
  case Nil
  have "ssh_at (newline # s) = None"
    using token_start_chars by (intro ssh_at_none) (force simp: neq_Nil_conv)
  then show ?case by (simp add: newline_not_word)
next
  case (Cons c w)
  have "\<not> prefix p ((c # w) @ newline # s)" if "p \<in> set token_starts" for p
  proof
    assume "prefix p ((c # w) @ newline # s)"
    then obtain r where "(c # w) @ newline # s = p @ r" by (auto simp: prefix_def)
    then consider "\<exists>u. p @ u = c # w" | "\<exists>u. p = (c # w) @ newline # u"
      by (auto simp: append_eq_append_conv2 append_eq_Cons_conv Cons_eq_append_conv)
    then show False
    proof cases
      case 1
      then have "set p \<subseteq> set (c # w)" by (metis set_append Un_upper1)
      with token_start_chars [OF that] Cons.prems show ?thesis by (auto simp: dashless_def)
    next
      case 2
      with token_start_chars [OF that] show ?thesis by auto
    qed
  qed
  then have "ssh_at ((c # w) @ newline # s) = None" by (intro ssh_at_none) blast
  moreover have "dashless w" using Cons.prems by (simp add: dashless_def)
  ultimately show ?case using Cons.IH by simp
qed

lemma ssh_upper:
  "list_all (\<lambda>c. c \<noteq> CHR ''s'' \<and> c \<noteq> CHR ''e'') u \<Longrightarrow> \<exists>aw'. ssh_keys aw 0 (u @ s) = ssh_keys aw' 0 s"
proof (induction u arbitrary: aw)
  case (Cons c u)
  then have "ssh_at (c # u @ s) = None"
    using token_start_chars by (intro ssh_at_none) (force simp: neq_Nil_conv)
  with Cons show ?case by simp
qed auto

lemma ssh_skip: "\<exists>aw'. ssh_keys aw (length u) (u @ s) = ssh_keys aw' 0 s"
proof (induction u arbitrary: aw)
  case (Cons c u)
  from Cons [of "latin_word c"] show ?case by simp
qed auto

lemma label_no_lower: "list_all label_char label \<Longrightarrow> list_all (\<lambda>c. c \<noteq> CHR ''s'' \<and> c \<noteq> CHR ''e'') label"
  by (auto simp: list_all_iff label_char_def is_upper_Char is_digit_Char)

lemma ssh_block:
  assumes "list_all label_char label" "dashless body"
  shows "ssh_keys aw 0 (pem_block label body @ newline # s) = ssh_keys False 0 s"
proof -
  let ?front = "pem_begin @ label @ dashes" and ?rest = "pem_end label @ newline # s"
  have up: "list_all (\<lambda>c. c \<noteq> CHR ''s'' \<and> c \<noteq> CHR ''e'') ?front" "list_all (\<lambda>c. c \<noteq> CHR ''s'' \<and> c \<noteq> CHR ''e'') (pem_end label)"
    using label_no_lower [OF assms(1)] by (simp_all add: pem_begin_def pem_end_def dashes_def)
  obtain aw1 where "ssh_keys aw 0 (?front @ body @ newline # ?rest) = ssh_keys aw1 0 (body @ newline # ?rest)"
    using ssh_upper [OF up(1)] by blast
  moreover obtain aw2 where "ssh_keys False 0 (pem_end label @ newline # s) = ssh_keys aw2 0 (newline # s)"
    using ssh_upper [OF up(2)] by blast
  ultimately show ?thesis
    using ssh_words [OF assms(2), of aw1 ?rest] ssh_words [of "[]" aw2 s] by (simp add: pem_block_def dashless_def)
qed

lemma ssh_token_at: "token \<in> set SSH_TOKENS \<Longrightarrow> ssh_token (token @ CHR '' '' # s) = Some token"
  unfolding SSH_TOKENS_def list.set insert_iff empty_iff
  by (elim disjE) (simp_all add: ssh_token_def startswith_def ecdsa_char_def is_lower_Char is_digit_Char)

lemma blob_stop: "list_all blob_char blob \<Longrightarrow> takeWhile blob_char (blob @ newline # s) = blob"
  by (simp add: list_all_iff takeWhile_append2 blob_char_def is_alnum_def is_digit_Char is_upper_Char is_lower_Char)

lemma ssh_line:
  assumes "token \<in> set SSH_TOKENS" "20 \<le> length blob" "list_all blob_char blob"
  shows "ssh_keys False 0 (token @ CHR '' '' # blob @ newline # s) = token # ssh_keys False 0 s"
proof -
  let ?u = "token @ CHR '' '' # blob"
  have "blob \<noteq> []" using assms(2) by auto
  then have "\<not> latin_space (hd blob)"
    using assms(3) by (cases blob) (auto simp: blob_char_def is_alnum_def is_digit_def is_upper_def is_lower_def latin_space_def is_space_def char_code_def)
  then have sp: "takeWhile latin_space (CHR '' '' # blob @ newline # s) = '' ''"
    using \<open>blob \<noteq> []\<close> by (cases blob) (simp_all add: latin_space_def is_space_Char)
  have dp: "drop (length p) (p @ u) = u" "drop (length '' '') (CHR '' '' # u) = u" for p u :: string by simp_all
  have "ssh_at (token @ CHR '' '' # blob @ newline # s) = Some (token, length token + length '' '' + length blob)"
    unfolding ssh_at_def ssh_token_at [OF assms(1)] option.case Let_def dp sp blob_stop [OF assms(3)] using assms(2) by simp
  then have at: "ssh_at (?u @ newline # s) = Some (token, length ?u)" by simp
  obtain c u where u: "?u = c # u" using assms(1) by (cases ?u) simp_all
  obtain aw where "ssh_keys (latin_word c) (length u) (u @ newline # s) = ssh_keys aw 0 (newline # s)"
    using ssh_skip by blast
  then have "ssh_keys False 0 (?u @ newline # s) = token # ssh_keys False 0 s"
    using at ssh_words [of "[]" aw s] unfolding u by (simp add: dashless_def)
  then show ?thesis by simp
qed

lemma ssh_document: "list_all segment_ok segs \<Longrightarrow> ssh_keys False 0 (document segs) = concat (map segment_ssh segs)"
proof (induction segs)
  case (Cons g segs)
  then have IH: "ssh_keys False 0 (document segs) = concat (map segment_ssh segs)" by simp
  have "document (g # segs) = segment_text g @ document segs" by (simp add: document_def)
  with Cons.prems IH show ?case
    by (cases g) (simp_all add: ssh_words ssh_block ssh_line)
qed (simp add: document_def)

section \<open>What a text is found to hold\<close>

lemma scan_document:
  assumes "list_all segment_ok segs" "length (document segs) \<le> MAX_VALUE_BYTES"
  shows "scan_value kl latin (document segs) =
    map_option (\<lambda>hs. hs @ map ssh_hit (concat (map segment_ssh segs))) (blocks_hits kl latin (concat (map segment_pem segs)))"
  using assms by (simp add: scan_value_def pem_document ssh_document)

section \<open>The report of a source\<close>

interpretation db: capped_report "emit_located now f" located_key "db_finding now f" em_seen em_out em_capped
  "\<lambda>st. em_count st = length (em_out st)" MAX_FINDINGS_PER_DB for now f
  by unfold_locales (auto simp: emit_located_def Let_def)

lemma emit_all_until: "emit_all now f lhs st = run_until em_capped (emit_located now f) lhs st"
  by (induction lhs arbitrary: st) (simp_all add: Let_def)

lemma emit_source_report:
  "emit_source now f src =
   map (db_finding now f) (take MAX_FINDINGS_PER_DB (distinct_by located_key [] (fst src))) @
   (if MAX_FINDINGS_PER_DB < length (distinct_by located_key [] (fst src)) then [db_capped_note now f] else [])"
  by (simp add: emit_source_def emit_all_until Let_def db.reports_all)

lemma hit_reported:
  assumes "lh \<in> set (fst src)"
  shows "db_capped_note now f \<in> set (emit_source now f src) \<or>
    (\<exists>g. located_key g = located_key lh \<and> db_finding now f g \<in> set (emit_source now f src))"
proof (cases "MAX_FINDINGS_PER_DB < length (distinct_by located_key [] (fst src))")
  case False
  have "located_key lh \<in> located_key ` set (distinct_by located_key [] (fst src))"
    using assms by (simp add: distinct_by_keys)
  then obtain g where g: "located_key g = located_key lh" "g \<in> set (distinct_by located_key [] (fst src))" by force
  with False have "db_finding now f g \<in> set (emit_source now f src)" by (simp add: emit_source_report)
  with g(1) show ?thesis by blast
qed (simp add: emit_source_report)

section \<open>Where hits come from\<close>

lemma chain_raised: "snd (chain_sources ss) \<longleftrightarrow> (\<exists>s\<in>set ss. snd s)"
  by (induction ss) (auto simp: then_source_def)

lemma chain_all: "\<not> snd (chain_sources ss) \<Longrightarrow> fst (chain_sources ss) = concat (map fst ss)"
  by (induction ss) (auto simp: then_source_def split: if_splits)

lemma chain_member: "\<not> snd (chain_sources ss) \<Longrightarrow> s \<in> set ss \<Longrightarrow> \<not> snd s \<and> set (fst s) \<subseteq> set (fst (chain_sources ss))"
  by (auto simp: chain_raised chain_all)

definition segment_hits :: "key_loaders \<Rightarrow> (string \<Rightarrow> bool) \<Rightarrow> segment \<Rightarrow> db_hit list" where
  "segment_hits kl latin seg =
     concat (map (\<lambda>b. case block_hits kl latin b of Some hs \<Rightarrow> hs | None \<Rightarrow> []) (segment_pem seg)) @ map ssh_hit (segment_ssh seg)"

lemma blocks_hits_all:
  "blocks_hits kl latin bs = Some hs \<Longrightarrow> b \<in> set bs \<Longrightarrow> \<exists>h. block_hits kl latin b = Some h \<and> set h \<subseteq> set hs"
proof (induction bs arbitrary: hs)
  case (Cons a bs)
  then obtain x zs where x: "block_hits kl latin a = Some x" "blocks_hits kl latin bs = Some zs" "hs = x @ zs"
    by (auto split: option.splits)
  with Cons.IH [OF x(2)] Cons.prems(2) show ?case by fastforce
qed simp

lemma document_hits:
  assumes "list_all segment_ok segs" "length (document segs) \<le> MAX_VALUE_BYTES"
    and "scan_value kl latin (document segs) = Some hs" "seg \<in> set segs"
  shows "set (segment_hits kl latin seg) \<subseteq> set hs"
proof -
  obtain ps where ps: "blocks_hits kl latin (concat (map segment_pem segs)) = Some ps" "hs = ps @ map ssh_hit (concat (map segment_ssh segs))"
    using assms by (auto simp: scan_document)
  have "set (case block_hits kl latin b of Some hs \<Rightarrow> hs | None \<Rightarrow> []) \<subseteq> set hs" if "b \<in> set (segment_pem seg)" for b
  proof -
    have "b \<in> set (concat (map segment_pem segs))" using assms(4) that by auto
    from blocks_hits_all [OF ps(1) this] ps(2) show ?thesis by auto
  qed
  moreover have "ssh_hit ` set (segment_ssh seg) \<subseteq> set hs" using assms(4) ps(2) by auto
  ultimately show ?thesis by (simp add: segment_hits_def UN_subset_iff)
qed

text \<open>The hits of a cell are among those of its database, at the place of the cell.\<close>

lemma cell_in_source:
  assumes "\<not> snd (sqlite_source kl (Some ts))" "t \<in> set (take MAX_TABLES ts)" "tb_opens t"
    and "row \<in> set (take MAX_ROWS_PER_TABLE (tb_rows t))" "i < length row" "cell_to_text kl (row ! i) = Some (latin, body)"
  shows "\<exists>hs. scan_value kl latin body = Some hs \<and>
    Pair (Some (tb_name t), Some (column_name (tb_columns t) i)) ` set hs \<subseteq> set (fst (sqlite_source kl (Some ts)))"
proof -
  let ?place = "(Some (tb_name t), Some (column_name (tb_columns t) i))"
  have table: "\<not> snd (table_source kl t)" "set (fst (table_source kl t)) \<subseteq> set (fst (sqlite_source kl (Some ts)))"
    using chain_member [of "map (table_source kl) (take MAX_TABLES ts)" "table_source kl t"] assms(1, 2) by (auto simp: sqlite_source_def)
  let ?rows = "chain_sources (map (row_source kl t) (take MAX_ROWS_PER_TABLE (tb_rows t)))"
  have rows: "\<not> snd ?rows" "set (fst ?rows) \<subseteq> set (fst (table_source kl t))"
    using table(1) assms(3) by (auto simp: table_source_def then_source_def split: if_splits)
  have row: "\<not> snd (row_source kl t row)" "set (fst (row_source kl t row)) \<subseteq> set (fst ?rows)"
    using chain_member [OF rows(1), of "row_source kl t row"] assms(4) by auto
  have "(i, row ! i) \<in> set (zip [0..<length row] row)"
    using assms(5) by (force simp: set_zip)
  then have "value_source ?place (scan_value kl latin body) \<in> set (map (\<lambda>(i, cell).
       case cell_to_text kl cell of
         None \<Rightarrow> ([], False)
       | Some (latin, body) \<Rightarrow> value_source (Some (tb_name t), Some (column_name (tb_columns t) i)) (scan_value kl latin body))
       (zip [0..<length row] row))"
    using assms(6) by force
  then have "\<not> snd (value_source ?place (scan_value kl latin body)) \<and>
      set (fst (value_source ?place (scan_value kl latin body))) \<subseteq> set (fst (row_source kl t row))"
    using chain_member row(1) unfolding row_source_def by blast
  with row(2) rows(2) table(2) show ?thesis
    by (auto simp: value_source_def split: option.splits)
qed

section \<open>Properties\<close>


text \<open>Two texts that differ only in the bodies of private keys, of which the parser says the same.\<close>

definition same_but_keys :: "key_loaders \<Rightarrow> segment \<Rightarrow> segment \<Rightarrow> bool" where
  "same_but_keys kl g g' \<longleftrightarrow> g = g' \<or>
     (\<exists>label body body'. g = Pem label body \<and> g' = Pem label body' \<and> endswith (py_strip label) ''PRIVATE KEY'' \<and>
        (\<forall>ssh. kl_private kl ssh (pem_block label body) = kl_private kl ssh (pem_block label body')))"

lemma same_block_hits:
  "endswith (py_strip label) ''PRIVATE KEY'' \<Longrightarrow> \<forall>ssh. kl_private kl ssh b = kl_private kl ssh b' \<Longrightarrow>
   block_hits kl (\<lambda>_. True) (label, b) = block_hits kl (\<lambda>_. True) (label, b')"
  by (auto simp: block_hits_def Let_def private_key_hit_def private_alg_def endswith_def suffix_def)

lemma same_blocks:
  "list_all2 (same_but_keys kl) segs segs' \<Longrightarrow>
   blocks_hits kl (\<lambda>_. True) (concat (map segment_pem segs)) = blocks_hits kl (\<lambda>_. True) (concat (map segment_pem segs')) \<and>
   concat (map segment_ssh segs) = concat (map segment_ssh segs')"
proof (induction rule: list_all2_induct)
  case (Cons g segs g' segs')
  consider "g = g'" | label body body' where "g = Pem label body" "g' = Pem label body'" "endswith (py_strip label) ''PRIVATE KEY''"
      "\<forall>ssh. kl_private kl ssh (pem_block label body) = kl_private kl ssh (pem_block label body')"
    using Cons.hyps(1) unfolding same_but_keys_def by blast
  then show ?case
  proof cases
    case 1
    with Cons.IH show ?thesis by (cases g') (simp_all only: list.map concat.simps segment_pem.simps segment_ssh.simps append_Cons append_Nil blocks_hits.simps)
  next
    case 2
    with Cons.IH same_block_hits [OF 2(3, 4)] show ?thesis by (simp split: option.split)
  qed
qed simp

text \<open>C19. Nothing of a private key but its kind enters the report. Two texts that differ only in the bodies of private-key
  blocks of which the key parser says the same give the same hits, and the evidence of a private-key finding is
  exactly path, table, column and key type.\<close>

theorem private_key_redacted:
  assumes "list_all segment_ok segs" "list_all segment_ok segs'" "list_all2 (same_but_keys kl) segs segs'"
    and "length (document segs) \<le> MAX_VALUE_BYTES" "length (document segs') \<le> MAX_VALUE_BYTES"
  shows "scan_value kl (\<lambda>_. True) (document segs) = scan_value kl (\<lambda>_. True) (document segs') \<and>
    (\<forall>lh. dh_kind (snd lh) = Private_Key \<longrightarrow>
       evidence (db_finding now f lh) = [(''path'', JStr (df_path f)), (''table'', opt_text_json (fst (fst lh))),
         (''column'', opt_text_json (snd (fst lh))), (''key_type'', JStr (dh_key_type (snd lh)))])"
  using assms(1, 2, 4, 5) same_blocks [OF assms(3)]
  by (simp add: scan_document db_finding_def db_evidence_def Let_def)

text \<open>One character outside Latin-1 in a private-key block silences a database: if the first cell of its first table
  holds such a block the file has no findings at all, whatever else is stored in it, because the block is encoded
  outside the handler that guards the parser.\<close>

theorem unencodable_key_ends_database:
  assumes "df_content f = Some bs" "take 16 bs = SQLITE_MAGIC" "df_tables f = Some (t # ts)" "tb_opens t"
    and "tb_rows t = (Text_Cell (document segs) # cells) # rows"
    and "list_all segment_ok segs" "length (document segs) \<le> MAX_VALUE_BYTES"
    and "Pem label body \<in> set segs" "endswith (py_strip label) ''PRIVATE KEY''" "\<not> kl_latin kl (pem_block label body)"
  shows "scan_db kl now f = []"
proof -
  have "block_hits kl (kl_latin kl) (label, pem_block label body) = None"
    using assms(9, 10) by (auto simp: block_hits_def Let_def private_key_hit_def endswith_def suffix_def)
  moreover have "(label, pem_block label body) \<in> set (concat (map segment_pem segs))"
    using assms(8) by force
  ultimately have "blocks_hits kl (kl_latin kl) (concat (map segment_pem segs)) = None"
    using blocks_hits_all [of kl "kl_latin kl" "concat (map segment_pem segs)"] by (cases "blocks_hits kl (kl_latin kl) (concat (map segment_pem segs))") fastforce+
  then have "scan_value kl (kl_latin kl) (document segs) = None"
    using assms(6, 7) by (simp add: scan_document)
  then have row: "row_source kl t (Text_Cell (document segs) # cells) = ([], True)"
    by (simp add: row_source_def upt_rec value_source_def then_source_def del: upt_Suc)
  have "table_source kl t = ([], True)"
    using assms(4, 5) row by (simp add: table_source_def MAX_ROWS_PER_TABLE_def then_source_def)
  then have "db_source kl f = ([], True)"
    using assms(1-3) by (simp add: db_source_def sqlite_source_def MAX_TABLES_def then_source_def)
  then show ?thesis by (simp add: scan_db_def emit_source_report)
qed

section \<open>Witnesses\<close>

definition sample_loaders :: key_loaders where
  "sample_loaders = \<lparr>kl_cert = \<lambda>_. None, kl_private = \<lambda>_ _. Some (RSA_Key 2048), kl_public = \<lambda>_. None, kl_latin = \<lambda>s. list_all (\<lambda>c. char_code c < 128) s\<rparr>"

definition sample_key :: segment where
  "sample_key = Pem ''RSA PRIVATE KEY'' [newline, CHR ''M'', CHR ''I'']"

definition sample_table :: "segment list \<Rightarrow> db_table" where
  "sample_table segs = \<lparr>tb_name = ''secrets'', tb_opens = True, tb_columns = [''pem''], tb_rows = [[Text_Cell (document segs)]], tb_breaks = False\<rparr>"

definition sample_db :: "segment list \<Rightarrow> db_file" where
  "sample_db segs = \<lparr>df_path = ''/a.db'', df_suffix = ''.db'', df_content = Some SQLITE_MAGIC, df_tables = Some [sample_table segs]\<rparr>"

lemma magic_length: "take 16 SQLITE_MAGIC = SQLITE_MAGIC"
  by (simp add: SQLITE_MAGIC_def text_bytes_def)

lemma sample_key_ok: "list_all segment_ok [sample_key]" "length (document [sample_key]) \<le> MAX_VALUE_BYTES"
  by (simp_all add: sample_key_def dashless_def label_char_def is_upper_Char is_digit_Char document_def pem_block_def
      pem_begin_def pem_end_def dashes_def MAX_VALUE_BYTES_def)


theorem private_key_redacted_witness:
  "scan_value sample_loaders (\<lambda>_. True) (document [sample_key]) =
   scan_value sample_loaders (\<lambda>_. True) (document [Pem ''RSA PRIVATE KEY'' [CHR ''Q'']])"
proof -
  have ok: "list_all segment_ok [Pem ''RSA PRIVATE KEY'' [CHR ''Q'']]" "length (document [Pem ''RSA PRIVATE KEY'' [CHR ''Q'']]) \<le> MAX_VALUE_BYTES"
    by (simp_all add: dashless_def label_char_def is_upper_Char is_digit_Char document_def pem_block_def
      pem_begin_def pem_end_def dashes_def MAX_VALUE_BYTES_def)
  have "py_strip ''RSA PRIVATE KEY'' = ''RSA PRIVATE KEY''" by code_simp
  then have "list_all2 (same_but_keys sample_loaders) [sample_key] [Pem ''RSA PRIVATE KEY'' [CHR ''Q'']]"
    by (auto simp: same_but_keys_def sample_key_def sample_loaders_def endswith_def suffix_to_prefix)
  from private_key_redacted [OF sample_key_ok(1) ok(1) this sample_key_ok(2) ok(2), of 0 "sample_db []"] show ?thesis by blast
qed

theorem unencodable_key_ends_database_witness:
  "scan_db sample_loaders 0 (sample_db [Pem ''RSA PRIVATE KEY'' [CHR 0xE2]]) = []"
proof -
  have ok: "list_all segment_ok [Pem ''RSA PRIVATE KEY'' [CHR 0xE2]]" "length (document [Pem ''RSA PRIVATE KEY'' [CHR 0xE2]]) \<le> MAX_VALUE_BYTES"
    by (simp_all add: dashless_def label_char_def is_upper_Char is_digit_Char document_def pem_block_def
      pem_begin_def pem_end_def dashes_def MAX_VALUE_BYTES_def)
  have 1: "endswith (py_strip ''RSA PRIVATE KEY'') ''PRIVATE KEY''" "\<not> kl_latin sample_loaders (pem_block ''RSA PRIVATE KEY'' [CHR 0xE2])"
    by code_simp+
  let ?segs = "[Pem ''RSA PRIVATE KEY'' [CHR 0xE2]]"
  have 2: "df_content (sample_db ?segs) = Some SQLITE_MAGIC" "df_tables (sample_db ?segs) = Some [sample_table ?segs]"
    "tb_opens (sample_table ?segs)" "tb_rows (sample_table ?segs) = [[Text_Cell (document ?segs)]]"
    by (simp_all add: sample_db_def sample_table_def)
  show ?thesis
    by (rule unencodable_key_ends_database [OF 2(1) magic_length 2(2-4) ok _ 1]) simp
qed

end
