(* ===== verification/Cert_Chain.thy ===== *)
theory Cert_Chain
  imports Tls_Client
begin

text \<open>
  \<^verbatim>\<open>probes/fs_cert_chain.py\<close>: the certificates found under the roots, the chain of issuers above each leaf with its
  weakest link, and keys that several certificates share. The two parsers of certificates and the listings are
  arguments. A certificate is what the probe reads of it; an outer \<^const>\<open>None\<close> is an attribute whose access raises, which
  ends the run with the findings emitted so far. Names are their RFC 4514 text; whether a certificate is self-issued
  compares the names themselves and is an attribute of its own.
\<close>

section \<open>Certificates\<close>

record x509 =
  xc_subject :: string
  xc_issuer :: string
  xc_self_issued :: bool
  xc_key :: "pub_key option"
  xc_hash :: "string option"
  xc_ski :: "byte list option option"
  xc_aki :: "byte list option option"
  xc_constraints :: "bool option option"
  xc_spki :: "byte list option"

text \<open>Path and file name of a certificate.\<close>

type_synonym cert_file = "(string \<times> string) \<times> x509"

definition CHAIN_PROBE :: string where "CHAIN_PROBE = ''fs.cert.chain''"

definition CERT_EXTS :: "string list" where "CERT_EXTS = [''.pem'', ''.crt'', ''.cer'']"

fun RANK :: "classification \<Rightarrow> nat" where
  "RANK SANGAT_TINGGI = 0"
| "RANK TINGGI = 1"
| "RANK SEDERHANA = 2"
| "RANK RENDAH = 3"
| "RANK PQC_READY = 4"
| "RANK CLS_INFO = 5"
| "RANK CLS_ERROR = 5"

type_synonym cert_parser = "byte list \<Rightarrow> x509 option"

definition load_cert :: "cert_parser \<Rightarrow> cert_parser \<Rightarrow> byte list option \<Rightarrow> x509 option" where
  "load_cert pem der content =
     (case content of
        None \<Rightarrow> None
      | Some bs \<Rightarrow> (case pem bs of Some c \<Rightarrow> Some c | None \<Rightarrow> der bs))"

definition sig_hash_alg :: "x509 \<Rightarrow> string option" where
  "sig_hash_alg c =
     (case xc_hash c of
        None \<Rightarrow> None
      | Some h \<Rightarrow>
          (let name = py_upper h in
           Some (if startswith name ''SHA'' \<and> \<not> startswith name ''SHA-'' \<and> all_digits (drop 3 name)
                 then ''SHA-'' @ drop 3 name else name)))"

definition cert_is_ca :: "x509 \<Rightarrow> bool option" where
  "cert_is_ca c = map_option (\<lambda>bc. bc = Some True) (xc_constraints c)"

definition chain_classifications :: "x509 \<Rightarrow> (string \<times> classification) list option" where
  "chain_classifications c =
     (case xc_key c of
        None \<Rightarrow> None
      | Some key \<Rightarrow>
          Some ((key_algorithm key, classify (key_algorithm key)) #
                (case sig_hash_alg c of None \<Rightarrow> [] | Some sig \<Rightarrow> [(sig, classify sig)])))"

section \<open>Chains\<close>

text \<open>\<^verbatim>\<open>d.setdefault(k, v)\<close>\<close>

definition set_default :: "'k \<Rightarrow> 'v \<Rightarrow> ('k \<times> 'v) list \<Rightarrow> ('k \<times> 'v) list" where
  "set_default k v d = (if map_of d k = None then d @ [(k, v)] else d)"

record cert_index =
  by_ski :: "(byte list \<times> cert_file) list"
  by_subject :: "(string \<times> cert_file) list"

fun index_certs :: "cert_file list \<Rightarrow> cert_index \<Rightarrow> cert_index option" where
  "index_certs [] ix = Some ix"
| "index_certs (c # cs) ix =
     (case xc_ski (snd c) of
        None \<Rightarrow> None
      | Some ski \<Rightarrow>
          index_certs cs
            (ix\<lparr>by_ski := (case ski of None \<Rightarrow> by_ski ix | Some k \<Rightarrow> set_default k c (by_ski ix)),
                by_subject := set_default (xc_subject (snd c)) c (by_subject ix)\<rparr>))"

definition issued_subjects :: "cert_file list \<Rightarrow> string list" where
  "issued_subjects cs = map (\<lambda>c. xc_issuer (snd c)) (filter (\<lambda>c. xc_issuer (snd c) \<noteq> xc_subject (snd c)) cs)"

definition parent_of :: "cert_index \<Rightarrow> x509 \<Rightarrow> byte list option \<Rightarrow> cert_file option" where
  "parent_of ix cur aki =
     (case (case aki of None \<Rightarrow> None | Some k \<Rightarrow> map_of (by_ski ix) k) of
        Some p \<Rightarrow> Some p
      | None \<Rightarrow> map_of (by_subject ix) (xc_issuer cur))"

text \<open>The walk up; it takes a certificate with a subject not seen before in each round.\<close>

definition indexed :: "cert_index \<Rightarrow> string set" where
  "indexed ix = (\<lambda>c. xc_subject (snd c)) ` (snd ` set (by_ski ix) \<union> snd ` set (by_subject ix))"

lemma parent_indexed: "parent_of ix cur aki = Some p \<Longrightarrow> xc_subject (snd p) \<in> indexed ix"
  by (force simp: parent_of_def indexed_def split: option.splits dest!: map_of_SomeD)

function walk_chain :: "cert_index \<Rightarrow> cert_file list \<Rightarrow> string list \<Rightarrow> x509 \<Rightarrow> cert_file list option" where
  "walk_chain ix chain seen cur =
     (if xc_self_issued cur then Some chain
      else
        (case xc_aki cur of
           None \<Rightarrow> None
         | Some aki \<Rightarrow>
             (case parent_of ix cur aki of
                None \<Rightarrow> Some chain
              | Some p \<Rightarrow>
                  if xc_subject (snd p) \<in> set seen then Some chain
                  else walk_chain ix (chain @ [p]) (xc_subject (snd p) # seen) (snd p))))"
  by pat_completeness auto
termination
proof (relation "measure (\<lambda>(ix, chain, seen, cur). card (indexed ix - set seen))", goal_cases)
  case (2 ix chain seen cur aki p)
  then have "indexed ix - set (xc_subject (snd p) # seen) \<subset> indexed ix - set seen"
    using parent_indexed [of ix cur aki p] by auto
  then have "card (indexed ix - set (xc_subject (snd p) # seen)) < card (indexed ix - set seen)"
    by (intro psubset_card_mono) (simp_all add: indexed_def)
  then show ?case by (simp only: in_measure prod.case)
qed simp

declare walk_chain.simps [simp del]

text \<open>The weakest link so far: its algorithm, classification and file.\<close>

type_synonym weak_link = "string \<times> classification \<times> (string \<times> string)"

definition weaker :: "string \<times> string \<Rightarrow> string \<times> classification \<Rightarrow> weak_link \<Rightarrow> weak_link" where
  "weaker file ac w = (if RANK (snd ac) < RANK (fst (snd w)) then (fst ac, snd ac, file) else w)"

fun weakest_link :: "cert_file list \<Rightarrow> weak_link \<Rightarrow> weak_link option" where
  "weakest_link [] w = Some w"
| "weakest_link (c # cs) w =
     (case chain_classifications (snd c) of
        None \<Rightarrow> None
      | Some acs \<Rightarrow> weakest_link cs (foldl (\<lambda>w ac. weaker (fst c) ac w) w acs))"

definition chain_finding :: "int \<Rightarrow> cert_file \<Rightarrow> cert_file list \<Rightarrow> weak_link \<Rightarrow> finding" where
  "chain_finding now leaf chain w =
     (let alg = fst w; cls = fst (snd w); file = snd (snd w) in
      mk_finding CHAIN_PROBE alg cls (sev_for cls)
        (''chain weakest link: '' @ alg @ '' ('' @ snd file @ '')'')
        [(''leaf'', JStr (fst (fst leaf))), (''leaf_subject'', JStr (xc_subject (snd leaf))),
         (''chain_length'', JInt (int (length chain))), (''chain'', JList (map (\<lambda>c. JStr (fst (fst c))) chain)),
         (''weakest_link'', JStr (fst file)), (''weakest_algorithm'', JStr alg)]
        [] now)"

definition walk_and_emit :: "int \<Rightarrow> cert_index \<Rightarrow> cert_file \<Rightarrow> finding list option" where
  "walk_and_emit now ix leaf =
     (case walk_chain ix [leaf] [xc_subject (snd leaf)] (snd leaf) of
        None \<Rightarrow> None
      | Some chain \<Rightarrow>
          (case weakest_link chain ([], PQC_READY, fst leaf) of
             None \<Rightarrow> None
           | Some w \<Rightarrow> Some (if fst w = [] then [] else [chain_finding now leaf chain w])))"

text \<open>The findings of a step and whether an exception ends the run after them.\<close>

type_synonym cert_outcome = "finding list \<times> bool"

fun emit_leaves :: "int \<Rightarrow> cert_index \<Rightarrow> string list \<Rightarrow> cert_file list \<Rightarrow> cert_outcome" where
  "emit_leaves now ix issued [] = ([], False)"
| "emit_leaves now ix issued (c # cs) =
     (case (if xc_subject (snd c) \<in> set issued then cert_is_ca (snd c) else Some False) of
        None \<Rightarrow> ([], True)
      | Some True \<Rightarrow> emit_leaves now ix issued cs
      | Some False \<Rightarrow>
          (case walk_and_emit now ix c of
             None \<Rightarrow> ([], True)
           | Some fs \<Rightarrow> (let r = emit_leaves now ix issued cs in (fs @ fst r, snd r))))"

definition emit_chains :: "int \<Rightarrow> cert_file list \<Rightarrow> cert_outcome" where
  "emit_chains now certs =
     (case index_certs certs \<lparr>by_ski = [], by_subject = []\<rparr> of
        None \<Rightarrow> ([], True)
      | Some ix \<Rightarrow> emit_leaves now ix (issued_subjects certs) certs)"

section \<open>Key reuse\<close>

fun add_member :: "byte list \<Rightarrow> cert_file \<Rightarrow> (byte list \<times> cert_file list) list \<Rightarrow> (byte list \<times> cert_file list) list" where
  "add_member k c [] = [(k, [c])]"
| "add_member k c ((k', ms) # gs) = (if k' = k then (k', ms @ [c]) # gs else (k', ms) # add_member k c gs)"

definition key_groups :: "cert_file list \<Rightarrow> (byte list \<times> cert_file list) list" where
  "key_groups certs = foldl (\<lambda>gs c. case xc_spki (snd c) of None \<Rightarrow> gs | Some k \<Rightarrow> add_member k c gs) [] certs"

definition group_subjects :: "cert_file list \<Rightarrow> string list" where
  "group_subjects ms = sort (dedupe (map (\<lambda>c. xc_subject (snd c)) ms))"

definition reuse_finding :: "int \<Rightarrow> byte list \<Rightarrow> cert_file list \<Rightarrow> string \<Rightarrow> finding" where
  "reuse_finding now k ms alg =
     mk_finding CHAIN_PROBE alg SEDERHANA MED
       (''public-key reuse across '' @ show_nat (length ms) @ '' certs ('' @ alg @ '')'')
       [(''algorithm'', JStr alg), (''count'', JInt (int (length ms))),
        (''paths'', JList (map JStr (sort (map (\<lambda>c. fst (fst c)) ms)))),
        (''subjects'', JList (map JStr (group_subjects ms))), (''spki_sha_prefix'', JStr (hex_text (take 16 k)))]
       [(''snippet'', JStr ''# Issue a fresh, unique key pair per certificate'')] now"

fun emit_groups :: "int \<Rightarrow> (byte list \<times> cert_file list) list \<Rightarrow> cert_outcome" where
  "emit_groups now [] = ([], False)"
| "emit_groups now ((k, ms) # gs) =
     (if length ms < 2 \<or> length (group_subjects ms) < 2 then emit_groups now gs
      else
        (case xc_key (snd (hd ms)) of
           None \<Rightarrow> ([], True)
         | Some key \<Rightarrow> (let r = emit_groups now gs in (reuse_finding now k ms (key_algorithm key) # fst r, snd r))))"

section \<open>The probe\<close>

record cert_entry =
  ce_path :: string
  ce_name :: string
  ce_suffix :: string
  ce_is_file :: bool
  ce_content :: "byte list option"

text \<open>A root is \<^const>\<open>None\<close> when it does not exist.\<close>

definition certs_under :: "cert_parser \<Rightarrow> cert_parser \<Rightarrow> cert_entry list option list \<Rightarrow> cert_file list" where
  "certs_under pem der roots =
     concat (map (\<lambda>root. case root of
         None \<Rightarrow> []
       | Some es \<Rightarrow> concat (map (\<lambda>e.
           if ce_is_file e \<and> py_lower (ce_suffix e) \<in> set CERT_EXTS
           then (case load_cert pem der (ce_content e) of None \<Rightarrow> [] | Some c \<Rightarrow> [((ce_path e, ce_name e), c)])
           else []) es)) roots)"

definition chain_applies :: "cert_entry list option list \<Rightarrow> bool" where
  "chain_applies roots \<longleftrightarrow> list_ex (\<lambda>r. r \<noteq> None) roots"

definition run_chain :: "int \<Rightarrow> cert_file list \<Rightarrow> cert_outcome" where
  "run_chain now certs =
     (if length certs < 2 then ([], False)
      else
        (let a = emit_chains now certs in
         if snd a then a
         else (let b = emit_groups now (key_groups certs) in (fst a @ fst b, snd b))))"

definition run_cert_chain ::
  "cert_parser \<Rightarrow> cert_parser \<Rightarrow> int \<Rightarrow> cert_entry list option list \<Rightarrow> cert_outcome" where
  "run_cert_chain pem der now roots = run_chain now (certs_under pem der roots)"

section \<open>The index\<close>

lemma map_of_set_default: "map_of (set_default k v d) = (if map_of d k = None then (map_of d)(k \<mapsto> v) else map_of d)"
  by (auto simp: set_default_def map_of_append fun_eq_iff map_add_def split: option.split)

definition has_ski :: "byte list \<Rightarrow> cert_file \<Rightarrow> bool" where
  "has_ski k c \<longleftrightarrow> xc_ski (snd c) = Some (Some k)"

definition named :: "string \<Rightarrow> cert_file \<Rightarrow> bool" where
  "named s c \<longleftrightarrow> xc_subject (snd c) = s"

lemma index_certs_find:
  "index_certs cs ix = Some ix' \<Longrightarrow>
   map_of (by_ski ix') k = (case map_of (by_ski ix) k of None \<Rightarrow> find (has_ski k) cs | Some c \<Rightarrow> Some c) \<and>
   map_of (by_subject ix') s = (case map_of (by_subject ix) s of None \<Rightarrow> find (named s) cs | Some c \<Rightarrow> Some c)"
proof (induction cs ix rule: index_certs.induct)
  case (2 c cs ix)
  then obtain ski where ski: "xc_ski (snd c) = Some ski" by (auto split: option.splits)
  show ?case
    using 2(1) [OF ski] 2(2)
    by (auto simp: ski map_of_set_default has_ski_def named_def split: option.splits if_splits)
qed (simp split: option.split)

lemma index_certs_total: "list_all (\<lambda>c. xc_ski (snd c) \<noteq> None) cs \<Longrightarrow> \<exists>ix'. index_certs cs ix = Some ix'"
  by (induction cs ix rule: index_certs.induct) auto

lemma index_certs_raises: "c \<in> set cs \<Longrightarrow> xc_ski (snd c) = None \<Longrightarrow> index_certs cs ix = None"
  by (induction cs ix rule: index_certs.induct) (auto split: option.split)

text \<open>The index of a list of certificates, when all their identifiers can be read.\<close>

definition cert_index_of :: "cert_file list \<Rightarrow> cert_index" where
  "cert_index_of certs = the (index_certs certs \<lparr>by_ski = [], by_subject = []\<rparr>)"

definition cert_readable :: "cert_file \<Rightarrow> bool" where
  "cert_readable c \<longleftrightarrow> xc_ski (snd c) \<noteq> None \<and> xc_aki (snd c) \<noteq> None \<and> xc_constraints (snd c) \<noteq> None \<and> xc_key (snd c) \<noteq> None"

lemma cert_index_of:
  assumes "list_all cert_readable certs"
  shows "index_certs certs \<lparr>by_ski = [], by_subject = []\<rparr> = Some (cert_index_of certs)"
    and "map_of (by_ski (cert_index_of certs)) k = find (has_ski k) certs"
    and "map_of (by_subject (cert_index_of certs)) s = find (named s) certs"
proof -
  obtain ix where ix: "index_certs certs \<lparr>by_ski = [], by_subject = []\<rparr> = Some ix"
    using index_certs_total [of certs] assms by (auto simp: list_all_iff cert_readable_def)
  then have c: "cert_index_of certs = ix" by (simp add: cert_index_of_def)
  show "index_certs certs \<lparr>by_ski = [], by_subject = []\<rparr> = Some (cert_index_of certs)" by (simp add: ix c)
  show "map_of (by_ski (cert_index_of certs)) k = find (has_ski k) certs"
    using index_certs_find [OF ix, of k s] by (simp add: c)
  show "map_of (by_subject (cert_index_of certs)) s = find (named s) certs"
    using index_certs_find [OF ix, of k s] by (simp add: c)
qed

lemma find_in: "find P xs = Some x \<Longrightarrow> x \<in> set xs \<and> P x"
  by (induction xs) (auto split: if_splits)

lemma find_only:
  assumes "x \<in> set xs" "P x" and only: "\<And>y. y \<in> set xs \<Longrightarrow> P y \<Longrightarrow> y = x"
  shows "find P xs = Some x"
proof (cases "find P xs")
  case None
  with assms(1,2) show ?thesis by (auto simp: find_None_iff)
next
  case (Some y)
  with find_in [OF Some] only [of y] show ?thesis by blast
qed

lemma parent_in:
  assumes "list_all cert_readable certs" and "parent_of (cert_index_of certs) cur aki = Some p"
  shows "p \<in> set certs"
  using assms(2) by (auto simp: parent_of_def cert_index_of [OF assms(1)] split: option.splits dest: find_in)

section \<open>The walk\<close>

text \<open>The walk never raises on readable certificates, and it ends with certificates of the list.\<close>

lemma walk_chain_total:
  assumes "list_all cert_readable certs" and "xc_aki cur \<noteq> None"
  shows "\<exists>ch. walk_chain (cert_index_of certs) chain seen cur = Some ch \<and> set ch \<subseteq> set chain \<union> set certs"
  using assms(2)
proof (induction "cert_index_of certs" chain seen cur rule: walk_chain.induct)
  case (1 chain seen cur)
  then obtain aki where aki: "xc_aki cur = Some aki" by blast
  show ?case
  proof (cases "xc_self_issued cur")
    case False
    show ?thesis
    proof (cases "parent_of (cert_index_of certs) cur aki")
      case None
      then show ?thesis by (subst walk_chain.simps) (auto simp: aki)
    next
      case (Some p)
      then have p: "p \<in> set certs" by (rule parent_in [OF assms(1)])
      then have "xc_aki (snd p) \<noteq> None" using assms(1) by (auto simp: list_all_iff cert_readable_def)
      with 1(1) [OF False aki Some] p show ?thesis
        by (subst walk_chain.simps) (auto simp: aki Some False)
    qed
  qed (subst walk_chain.simps, auto)
qed

text \<open>A hierarchy: each certificate names its issuer by the key identifier or, without one, by its name; the last
  one is a root.\<close>

definition vouches :: "cert_file \<Rightarrow> cert_file \<Rightarrow> bool" where
  "vouches c p \<longleftrightarrow>
     (case xc_aki (snd c) of
        None \<Rightarrow> False
      | Some None \<Rightarrow> named (xc_issuer (snd c)) p
      | Some (Some k) \<Rightarrow> has_ski k p)"

fun hierarchy :: "cert_file list \<Rightarrow> bool" where
  "hierarchy [] = False"
| "hierarchy [c] = xc_self_issued (snd c)"
| "hierarchy (c # p # cs) \<longleftrightarrow> \<not> xc_self_issued (snd c) \<and> vouches c p \<and> hierarchy (p # cs)"

text \<open>Names and key identifiers each belong to one certificate.\<close>

definition identified :: "cert_file list \<Rightarrow> bool" where
  "identified certs \<longleftrightarrow>
     (\<forall>c \<in> set certs. \<forall>d \<in> set certs.
        (xc_subject (snd c) = xc_subject (snd d) \<longrightarrow> c = d) \<and>
        (\<forall>k. has_ski k c \<and> has_ski k d \<longrightarrow> c = d))"

lemma vouches_parent:
  assumes "list_all cert_readable certs" "identified certs" "p \<in> set certs" "vouches c p"
  shows "\<exists>aki. xc_aki (snd c) = Some aki \<and> parent_of (cert_index_of certs) (snd c) aki = Some p"
proof -
  have ski: "find (has_ski k) certs = Some p" if "has_ski k p" for k
    by (rule find_only [where P = "has_ski k"]) (use assms(2,3) that in \<open>(unfold identified_def, blast)+\<close>)
  have nm: "find (named s) certs = Some p" if "named s p" for s
    by (rule find_only [where P = "named s"]) (use assms(2,3) that in \<open>(unfold identified_def named_def, blast)+\<close>)
  show ?thesis
    using assms(4) ski nm by (auto simp: vouches_def parent_of_def cert_index_of [OF assms(1)] split: option.splits)
qed

lemma walk_hierarchy:
  assumes "list_all cert_readable certs" "identified certs"
  shows "hierarchy (c # ps) \<Longrightarrow> set ps \<subseteq> set certs \<Longrightarrow> distinct (map (\<lambda>c. xc_subject (snd c)) ps) \<Longrightarrow>
    set seen \<inter> (\<lambda>c. xc_subject (snd c)) ` set ps = {} \<Longrightarrow>
    walk_chain (cert_index_of certs) chain seen (snd c) = Some (chain @ ps)"
proof (induction ps arbitrary: c chain seen)
  case Nil
  then show ?case by (subst walk_chain.simps) simp
next
  case (Cons p ps)
  obtain aki where "xc_aki (snd c) = Some aki" "parent_of (cert_index_of certs) (snd c) aki = Some p"
    using vouches_parent [OF assms, of p c] Cons.prems by auto
  moreover have "walk_chain (cert_index_of certs) (chain @ [p]) (xc_subject (snd p) # seen) (snd p) = Some ((chain @ [p]) @ ps)"
    using Cons.prems by (intro Cons.IH) auto
  ultimately show ?case using Cons.prems by (subst walk_chain.simps) auto
qed

lemma walk_chain_prefix: "walk_chain ix chain seen cur = Some ch \<Longrightarrow> \<exists>ps. ch = chain @ ps"
proof (induction ix chain seen cur rule: walk_chain.induct)
  case (1 ix chain seen cur)
  from 1(2) show ?case
    by (subst (asm) walk_chain.simps) (use 1(1) in \<open>fastforce split: if_splits option.splits\<close>)
qed

section \<open>The weakest link\<close>

lemma classify_empty: "classify [] = CLS_INFO"
  by code_simp

definition cert_links :: "cert_file \<Rightarrow> weak_link list" where
  "cert_links c = map (\<lambda>ac. (fst ac, snd ac, fst c)) (the (chain_classifications (snd c)))"

definition weaker_of :: "weak_link \<Rightarrow> weak_link \<Rightarrow> weak_link" where
  "weaker_of w l = (if RANK (fst (snd l)) < RANK (fst (snd w)) then l else w)"

lemma weakest_link_fold:
  "list_all (\<lambda>c. xc_key (snd c) \<noteq> None) cs \<Longrightarrow>
   weakest_link cs w = Some (foldl weaker_of w (concat (map cert_links cs)))"
proof (induction cs w rule: weakest_link.induct)
  case (2 c cs w)
  then obtain acs where acs: "chain_classifications (snd c) = Some acs"
    by (auto simp: chain_classifications_def)
  have "foldl (\<lambda>w ac. weaker (fst c) ac w) w acs = foldl weaker_of w (cert_links c)"
    by (simp add: cert_links_def acs foldl_map weaker_def weaker_of_def)
  with 2 acs show ?case by simp
qed simp

lemma foldl_weaker:
  "foldl weaker_of w ls \<in> insert w (set ls) \<and> RANK (fst (snd (foldl weaker_of w ls))) \<le> RANK (fst (snd w)) \<and>
   (\<forall>l \<in> set ls. RANK (fst (snd (foldl weaker_of w ls))) \<le> RANK (fst (snd l)))"
proof (induction ls arbitrary: w)
  case (Cons l ls)
  show ?case using Cons [of "weaker_of w l"] by (auto simp: weaker_of_def split: if_splits)
qed simp

lemma cert_links_class: "(a, cls, file) \<in> set (cert_links c) \<Longrightarrow> xc_key (snd c) \<noteq> None \<Longrightarrow> cls = classify a \<and> file = fst c"
  by (auto simp: cert_links_def chain_classifications_def split: option.splits)

section \<open>The report\<close>

lemma weakest_link_class:
  assumes "list_all (\<lambda>c. xc_key (snd c) \<noteq> None) cs" and "weakest_link cs ([], PQC_READY, file) = Some w"
  shows "fst w = [] \<longleftrightarrow> (\<forall>l \<in> set (concat (map cert_links cs)). 4 \<le> RANK (fst (snd l)))"
    and "\<forall>l \<in> set (concat (map cert_links cs)). RANK (fst (snd w)) \<le> RANK (fst (snd l))"
    and "fst w \<noteq> [] \<Longrightarrow> w \<in> set (concat (map cert_links cs))"
proof -
  let ?ls = "concat (map cert_links cs)"
  have w: "w = foldl weaker_of ([], PQC_READY, file) ?ls" using weakest_link_fold [OF assms(1)] assms(2) by simp
  have cls: "l \<in> set ?ls \<Longrightarrow> fst (snd l) = classify (fst l)" for l
    using assms(1) cert_links_class [of "fst l" "fst (snd l)" "snd (snd l)"] by (fastforce simp: list_all_iff)
  have empty: "l \<in> set ?ls \<Longrightarrow> fst l = [] \<Longrightarrow> RANK (fst (snd l)) = 5" for l
    using cls [of l] by (simp add: classify_empty)
  note f = foldl_weaker [of "([], PQC_READY, file)" ?ls, folded w]
  show "\<forall>l \<in> set ?ls. RANK (fst (snd w)) \<le> RANK (fst (snd l))" using f by blast
  show "fst w \<noteq> [] \<Longrightarrow> w \<in> set ?ls" using f by auto
  have "RANK (fst (snd w)) \<le> 4" using f by simp
  then have "fst w = [] \<Longrightarrow> w = ([], PQC_READY, file)" using f empty [of w] by auto
  moreover have "RANK (fst (snd w)) < 4" if "fst w \<noteq> []"
  proof -
    have step: "foldl weaker_of v ls = v \<or> RANK (fst (snd (foldl weaker_of v ls))) < RANK (fst (snd v))" for v ls
    proof (induction ls arbitrary: v)
      case (Cons l ls)
      show ?case using Cons [of "weaker_of v l"] by (auto simp: weaker_of_def split: if_splits)
    qed simp
    from step [of "([], PQC_READY, file)" ?ls] that show ?thesis by (auto simp: w)
  qed
  ultimately show "fst w = [] \<longleftrightarrow> (\<forall>l \<in> set ?ls. 4 \<le> RANK (fst (snd l)))" using f by force
qed

definition leaf_findings :: "int \<Rightarrow> cert_file list \<Rightarrow> cert_file \<Rightarrow> finding list" where
  "leaf_findings now certs c =
     (if xc_subject (snd c) \<in> set (issued_subjects certs) \<and> xc_constraints (snd c) = Some (Some True) then []
      else the (walk_and_emit now (cert_index_of certs) c))"

lemma walk_and_emit_total:
  assumes "list_all cert_readable certs" "c \<in> set certs"
  shows "\<exists>fs. walk_and_emit now (cert_index_of certs) c = Some fs"
proof -
  have "xc_aki (snd c) \<noteq> None" using assms by (auto simp: list_all_iff cert_readable_def)
  then obtain ch where ch: "walk_chain (cert_index_of certs) [c] [xc_subject (snd c)] (snd c) = Some ch" "set ch \<subseteq> set certs"
    using walk_chain_total [OF assms(1), of "snd c" "[c]"] assms(2) by fastforce
  then have "list_all (\<lambda>c. xc_key (snd c) \<noteq> None) ch"
    using assms(1) by (auto simp: list_all_iff cert_readable_def)
  from weakest_link_fold [OF this] ch(1) show ?thesis by (simp add: walk_and_emit_def)
qed

lemma emit_leaves_all:
  assumes "list_all cert_readable certs"
  shows "set cs \<subseteq> set certs \<Longrightarrow>
    emit_leaves now (cert_index_of certs) (issued_subjects certs) cs = (concat (map (leaf_findings now certs) cs), False)"
proof (induction cs)
  case (Cons c cs)
  then obtain fs where fs: "walk_and_emit now (cert_index_of certs) c = Some fs"
    using walk_and_emit_total [OF assms, of c] by auto
  have "xc_constraints (snd c) \<noteq> None" using Cons.prems assms by (auto simp: list_all_iff cert_readable_def)
  then show ?case
    using Cons fs by (auto simp: leaf_findings_def cert_is_ca_def split: option.split bool.split)
qed simp

text \<open>The certificates with one key, in the order of the listing.\<close>

definition sharing :: "byte list \<Rightarrow> cert_file list \<Rightarrow> cert_file list" where
  "sharing k certs = filter (\<lambda>c. xc_spki (snd c) = Some k) certs"

lemma add_member_map:
  "map_of (add_member k c gs) k' =
     (if k' = k then Some ((case map_of gs k of None \<Rightarrow> [] | Some ms \<Rightarrow> ms) @ [c]) else map_of gs k')"
  by (induction k c gs rule: add_member.induct) auto

lemma add_member_keys: "set (map fst (add_member k c gs)) = insert k (set (map fst gs))"
  by (induction k c gs rule: add_member.induct) auto

lemma add_member_distinct: "distinct (map fst gs) \<Longrightarrow> distinct (map fst (add_member k c gs))"
  by (induction k c gs rule: add_member.induct) (use add_member_keys in auto)

lemma key_groups_snoc:
  "key_groups (cs @ [c]) = (case xc_spki (snd c) of None \<Rightarrow> key_groups cs | Some k \<Rightarrow> add_member k c (key_groups cs))"
  by (simp add: key_groups_def split: option.split)

lemma key_groups_distinct: "distinct (map fst (key_groups cs))"
  by (induction cs rule: rev_induct)
    (auto simp: key_groups_snoc add_member_distinct key_groups_def [of "[]"] split: option.split)

lemma key_groups_map: "map_of (key_groups cs) k = (if sharing k cs = [] then None else Some (sharing k cs))"
proof (induction cs rule: rev_induct)
  case (snoc c cs)
  then show ?case
    by (auto simp: key_groups_snoc add_member_map sharing_def simp del: map_of_eq_Some_iff split: option.split)
qed (simp add: key_groups_def sharing_def)

lemma key_groups_in: "(k, ms) \<in> set (key_groups cs) \<longleftrightarrow> ms = sharing k cs \<and> ms \<noteq> []"
  using key_groups_map [of cs k] map_of_eq_Some_iff [OF key_groups_distinct, of cs k ms] by (auto split: if_splits)

definition shared_key :: "byte list \<Rightarrow> cert_file list \<Rightarrow> bool" where
  "shared_key k certs \<longleftrightarrow> 2 \<le> card ((\<lambda>c. xc_subject (snd c)) ` set (sharing k certs))"

lemma length_group_subjects: "length (group_subjects ms) = card ((\<lambda>c. xc_subject (snd c)) ` set ms)"
proof -
  have "length (group_subjects ms) = card (set (dedupe (map (\<lambda>c. xc_subject (snd c)) ms)))"
    by (simp add: group_subjects_def distinct_card del: set_dedupe)
  then show ?thesis by simp
qed

lemma group_small: "length ms < 2 \<or> length (group_subjects ms) < 2 \<longleftrightarrow> card ((\<lambda>c. xc_subject (snd c)) ` set ms) < 2"
  using card_image_le [of "set ms" "\<lambda>c. xc_subject (snd c)"] card_length [of ms] by (auto simp: length_group_subjects)

lemma emit_groups_all:
  "\<forall>(k, ms) \<in> set gs. ms \<noteq> [] \<and> (\<forall>c \<in> set ms. xc_key (snd c) \<noteq> None) \<Longrightarrow>
   \<not> snd (emit_groups now gs) \<and>
   set (fst (emit_groups now gs)) =
     {reuse_finding now k ms (key_algorithm key) | k ms key.
        (k, ms) \<in> set gs \<and> 2 \<le> card ((\<lambda>c. xc_subject (snd c)) ` set ms) \<and> xc_key (snd (hd ms)) = Some key}"
proof (induction now gs rule: emit_groups.induct)
  case (2 now k ms gs)
  then have "xc_key (snd (hd ms)) \<noteq> None" by auto
  then obtain key where key: "xc_key (snd (hd ms)) = Some key" by blast
  show ?case
  proof (cases "card ((\<lambda>c. xc_subject (snd c)) ` set ms) < 2")
    case True
    with 2 show ?thesis by (auto simp: group_small)
  next
    case False
    then have "\<not> (length ms < 2 \<or> length (group_subjects ms) < 2)" by (simp add: group_small)
    with 2 key False show ?thesis
      by (auto simp: Let_def) (rule exI [of _ k], rule exI [of _ ms], rule exI [of _ key], simp)
  qed
qed simp

lemma run_chain_readable:
  assumes "list_all cert_readable certs" "2 \<le> length certs"
  shows "run_chain now certs =
    (concat (map (leaf_findings now certs) certs) @ fst (emit_groups now (key_groups certs)), False)"
    and "set (fst (emit_groups now (key_groups certs))) =
      {reuse_finding now k (sharing k certs) (key_algorithm key) | k key.
         shared_key k certs \<and> xc_key (snd (hd (sharing k certs))) = Some key}"
proof -
  have "\<forall>(k, ms) \<in> set (key_groups certs). ms \<noteq> [] \<and> (\<forall>c \<in> set ms. xc_key (snd c) \<noteq> None)"
    using assms(1) by (auto simp: key_groups_in sharing_def list_all_iff cert_readable_def)
  note g = emit_groups_all [OF this, of now]
  show "run_chain now certs = (concat (map (leaf_findings now certs) certs) @ fst (emit_groups now (key_groups certs)), False)"
    using assms(2) g by (simp add: run_chain_def emit_chains_def cert_index_of(1) [OF assms(1)] emit_leaves_all [OF assms(1)])
  show "set (fst (emit_groups now (key_groups certs))) =
      {reuse_finding now k (sharing k certs) (key_algorithm key) | k key.
         shared_key k certs \<and> xc_key (snd (hd (sharing k certs))) = Some key}"
    using g by (auto simp: key_groups_in shared_key_def) (metis card.empty image_empty not_numeral_le_zero set_empty)
qed

section \<open>Properties\<close>


text \<open>Reuse of a key is reported exactly: with the certificates that hold a key, in the order of the listing, if and
  only if they name at least two subjects; and no exception ends a run over readable certificates.\<close>

theorem shared_key_reported:
  assumes "list_all cert_readable certs" "2 \<le> length certs" "xc_key (snd (hd (sharing k certs))) = Some key"
  shows "(reuse_finding now k (sharing k certs) (key_algorithm key) \<in> set (fst (run_chain now certs)) \<longleftrightarrow> shared_key k certs) \<and>
    \<not> snd (run_chain now certs)"
proof -
  have other: "reuse_finding now k ms a \<noteq> chain_finding now leaf ch w" for ms a leaf ch w
  proof
    assume "reuse_finding now k ms a = chain_finding now leaf ch w"
    then have "hd (title (reuse_finding now k ms a)) = hd (title (chain_finding now leaf ch w))" by simp
    then show False by (simp add: reuse_finding_def chain_finding_def Let_def)
  qed
  have "f \<noteq> reuse_finding now k ms a" if "f \<in> set (concat (map (leaf_findings now certs) certs))" for f ms a
  proof -
    from that obtain c where c: "c \<in> set certs" "f \<in> set (leaf_findings now certs c)" by auto
    obtain fs where "walk_and_emit now (cert_index_of certs) c = Some fs" using walk_and_emit_total [OF assms(1) c(1)] by blast
    with c(2) obtain ch w where "f = chain_finding now c ch w"
      by (auto simp: leaf_findings_def walk_and_emit_def split: if_splits option.splits)
    then show ?thesis using other by metis
  qed
  moreover have "shared_key k certs" if "shared_key k' certs"
    "reuse_finding now k (sharing k certs) a = reuse_finding now k' (sharing k' certs) a'" for k' a a'
  proof -
    have "evidence (reuse_finding now k (sharing k certs) a) = evidence (reuse_finding now k' (sharing k' certs) a')"
      using that(2) by simp
    then have "map JStr (group_subjects (sharing k certs)) = map JStr (group_subjects (sharing k' certs))"
      by (simp add: reuse_finding_def)
    then show ?thesis using that(1) unfolding shared_key_def length_group_subjects [symmetric] by (metis length_map)
  qed
  ultimately show ?thesis
    using assms(3) unfolding run_chain_readable(1) [OF assms(1,2)] fst_conv snd_conv set_append Un_iff
      run_chain_readable(2) [OF assms(1,2)] by blast
qed


text \<open>One certificate with an extension that cannot be parsed silences the probe: only the absence of an extension is
  caught, so the run ends before the first finding, whatever the other certificates are.\<close>

theorem malformed_extension_silences_probe:
  assumes "c \<in> set certs" "xc_ski (snd c) = None" "2 \<le> length certs"
  shows "run_chain now certs = ([], True)"
  using index_certs_raises [OF assms(1,2)] assms(3) by (simp add: run_chain_def emit_chains_def)

section \<open>A store of three certificates\<close>

definition sample_cert :: "string \<Rightarrow> string \<Rightarrow> nat \<Rightarrow> string \<Rightarrow> byte \<Rightarrow> byte option \<Rightarrow> bool \<Rightarrow> byte list \<Rightarrow> x509" where
  "sample_cert subj iss bits hash ski aki ca spki =
     \<lparr>xc_subject = subj, xc_issuer = iss, xc_self_issued = (subj = iss), xc_key = Some (RSA_Key bits), xc_hash = Some hash,
      xc_ski = Some (Some [ski]), xc_aki = Some (map_option (\<lambda>k. [k]) aki), xc_constraints = Some (Some ca), xc_spki = Some spki\<rparr>"

definition sample_anchor :: cert_file where
  "sample_anchor = ((''/etc/root.pem'', ''root.pem''), sample_cert ''CN=root'' ''CN=root'' 2048 ''sha1'' 1 None True [7])"

definition sample_ca :: cert_file where
  "sample_ca = ((''/etc/ca.pem'', ''ca.pem''), sample_cert ''CN=ca'' ''CN=root'' 2048 ''sha256'' 2 (Some 1) True [8])"

definition sample_leaf :: cert_file where
  "sample_leaf = ((''/etc/www.pem'', ''www.pem''), sample_cert ''CN=www'' ''CN=ca'' 2048 ''sha256'' 3 (Some 2) False [7])"

definition sample_store :: "cert_file list" where "sample_store = [sample_leaf, sample_anchor, sample_ca]"

lemmas sample_store_defs = sample_store_def sample_leaf_def sample_ca_def sample_anchor_def sample_cert_def

lemma sample_store_ok: "list_all cert_readable sample_store" "identified sample_store" "length sample_store = 3"
  by (simp_all add: sample_store_defs cert_readable_def identified_def has_ski_def)


theorem shared_key_reported_witness:
  "reuse_finding 0 [7] [sample_leaf, sample_anchor] ''RSA-2048'' \<in> set (fst (run_chain 0 sample_store))"
proof -
  have s: "sharing [7] sample_store = [sample_leaf, sample_anchor]" by (simp add: sharing_def sample_store_defs)
  moreover have "shared_key [7] sample_store" unfolding shared_key_def s by (simp add: sample_store_defs)
  moreover have "key_algorithm (RSA_Key 2048) = ''RSA-2048''" by code_simp
  moreover have "xc_key (snd (hd (sharing [7] sample_store))) = Some (RSA_Key 2048)" unfolding s by (simp add: sample_store_defs)
  ultimately show ?thesis
    using shared_key_reported [OF sample_store_ok(1), of "[7]" "RSA_Key 2048" 0] sample_store_ok(3) by simp
qed

theorem malformed_extension_silences_probe_witness:
  "run_chain 0 [((''a.pem'', ''a.pem''), (snd sample_leaf)\<lparr>xc_ski := None\<rparr>), sample_anchor] = ([], True)"
  by (rule malformed_extension_silences_probe [where c = "((''a.pem'', ''a.pem''), (snd sample_leaf)\<lparr>xc_ski := None\<rparr>)"]) simp_all


end
