(* ===== verification/Wire_Probes.thy ===== *)
theory Wire_Probes
  imports Tds_Probe Ssh_Config Binary Targets
begin

text \<open>
  Four probes of one exchange each: \<^verbatim>\<open>probes/net_ssh_handshake.py\<close> (the algorithms an SSH server offers),
  \<^verbatim>\<open>net_smb_dialect.py\<close>, \<^verbatim>\<open>net_rdp_negotiation.py\<close> and \<^verbatim>\<open>_dtls_probe.py\<close> (what \<^verbatim>\<open>openssl s_client\<close> prints of a
  DTLS handshake). What the peer or the process sends is an argument. A run is the findings emitted and whether an
  exception left the probe after them.
\<close>

section \<open>SSH\<close>

definition SSH_PROBE :: string where "SSH_PROBE = ''net.ssh.handshake''"

definition NAMELIST_LABELS :: "string list" where
  "NAMELIST_LABELS =
     [''kex_algorithms'', ''server_host_key_algorithms'', ''encryption_c2s'', ''encryption_s2c'', ''mac_c2s'', ''mac_s2c'',
      ''compression_c2s'', ''compression_s2c'', ''languages_c2s'', ''languages_s2c'']"

text \<open>A connection is refused with the text of the error, or is the stream that the peer sends.\<close>

datatype 'a connection = Refused string | Connected 'a

definition connect_failed :: "string \<Rightarrow> string \<Rightarrow> int \<Rightarrow> string \<times> int \<Rightarrow> string \<Rightarrow> finding" where
  "connect_failed pid label now tgt err =
     mk_finding pid ''N/A'' CLS_INFO SEV_INFO (label @ '' connection failed at '' @ endpoint tgt @ '': '' @ err) [] [] now"

text \<open>\<^verbatim>\<open>readuntil(b"\n")\<close>: a line longer than the limit of the reader raises.\<close>

definition READER_LIMIT :: nat where "READER_LIMIT = 2 ^ 16"

definition read_banner :: "tds_stream \<Rightarrow> byte list read_outcome" where
  "read_banner st =
     (let n = length (takeWhile (\<lambda>b. b \<noteq> 0x0A) (fst st)) in
      if n > READER_LIMIT then Raised
      else if n < length (fst st) then Read (take (n + 1) (fst st)) (drop (n + 1) (fst st), snd st)
      else (case snd st of Ended \<Rightarrow> Short | Reset \<Rightarrow> Raised))"

text \<open>\<^verbatim>\<open>xs[:n]\<close> for any \<open>n\<close>: a negative end counts from the end.\<close>

definition take_int :: "int \<Rightarrow> 'a list \<Rightarrow> 'a list" where
  "take_int n xs = (if 0 \<le> n then take (nat n) xs else take (length xs - nat (- n)) xs)"

text \<open>\<^const>\<open>None\<close> raises; a packet of length 0 asks for \<open>- 1\<close> bytes, which raises too.\<close>

fun read_until_kexinit :: "nat \<Rightarrow> tds_stream \<Rightarrow> byte list option option" where
  "read_until_kexinit 0 st = Some None"
| "read_until_kexinit (Suc n) st =
     (case read_exactly 5 st of
        Raised \<Rightarrow> None
      | Short \<Rightarrow> Some None
      | Read hdr st' \<Rightarrow>
          (let pkt_len = be_nat (take 4 hdr); pad_len = unat (hdr ! 4) in
           if pkt_len = 0 then None
           else
             (case read_exactly (pkt_len - 1) st' of
                Raised \<Rightarrow> None
              | Short \<Rightarrow> Some None
              | Read rest st'' \<Rightarrow>
                  (let body = take_int (int pkt_len - 1 - int pad_len) rest in
                   if body = [] then read_until_kexinit n st''
                   else if body ! 0 = 20 then Some (Some body)
                   else read_until_kexinit n st''))))"

declare read_until_kexinit.simps [simp del]

definition MAX_PACKETS :: nat where "MAX_PACKETS = 5"

definition ssh_offer :: "int \<Rightarrow> string \<times> int \<Rightarrow> string \<Rightarrow> string \<Rightarrow> finding list" where
  "ssh_offer now tgt label token =
     (let canonical = canonical_alg token; cls = classify canonical in
      if cls = SANGAT_TINGGI \<or> cls = TINGGI then
        [mk_finding SSH_PROBE canonical cls (sev_for cls) (''SSH server offers '' @ label @ ''='' @ token)
           [(''endpoint'', JStr (endpoint tgt)), (''namelist'', JStr label), (''token'', JStr token)] [] now]
      else [])"

fun namelist_findings :: "int \<Rightarrow> string \<times> int \<Rightarrow> byte list \<Rightarrow> nat \<Rightarrow> string list \<Rightarrow> finding list" where
  "namelist_findings now tgt pl i [] = []"
| "namelist_findings now tgt pl i (label # labels) =
     (if i + 4 > length pl then []
      else
        (let ln = be_nat (slice i (i + 4) pl) in
         concat (map (ssh_offer now tgt label) (name_list (decode_text (slice (i + 4) (i + 4 + ln) pl))))
         @ namelist_findings now tgt pl (i + 4 + ln) labels))"

definition ssh_banner_finding :: "int \<Rightarrow> string \<times> int \<Rightarrow> byte list \<Rightarrow> finding" where
  "ssh_banner_finding now tgt line =
     (let text = py_strip (decode_text line) in
      mk_finding SSH_PROBE ''N/A'' CLS_INFO SEV_INFO (''SSH banner: '' @ text)
        [(''endpoint'', JStr (endpoint tgt)), (''banner'', JStr text)] [] now)"

definition emit_namelists :: "int \<Rightarrow> string \<times> int \<Rightarrow> byte list \<Rightarrow> byte list \<Rightarrow> finding list" where
  "emit_namelists now tgt pl line =
     ssh_banner_finding now tgt line # namelist_findings now tgt pl 17 NAMELIST_LABELS"

definition run_ssh :: "int \<Rightarrow> string \<times> int \<Rightarrow> tds_stream connection \<Rightarrow> finding list \<times> bool" where
  "run_ssh now tgt conn =
     (case conn of
        Refused err \<Rightarrow> ([connect_failed SSH_PROBE ''SSH'' now tgt err], False)
      | Connected st \<Rightarrow>
          (case read_banner st of
             Raised \<Rightarrow> ([], True)
           | Short \<Rightarrow> ([], False)
           | Read line st' \<Rightarrow>
               (case read_until_kexinit MAX_PACKETS st' of
                  None \<Rightarrow> ([], True)
                | Some None \<Rightarrow> ([], False)
                | Some (Some pl) \<Rightarrow> (emit_namelists now tgt pl line, False))))"

section \<open>SMB\<close>

definition SMB_PROBE :: string where "SMB_PROBE = ''net.smb.dialect''"

definition SMB2_MAGIC :: "byte list" where "SMB2_MAGIC = [0xFE, 0x53, 0x4D, 0x42]"

definition SMB1_MAGIC :: "byte list" where "SMB1_MAGIC = [0xFF, 0x53, 0x4D, 0x42]"

definition smb2_negotiate :: "byte list" where
  "smb2_negotiate =
     (let header = SMB2_MAGIC @ [0x40, 0] @ zeros 2 @ zeros 4 @ zeros 2 @ zeros 2 @ zeros 4 @ zeros 4 @ zeros 8 @ zeros 4 @
            zeros 4 @ zeros 8 @ zeros 16;
          dialects = [2, 2, 0x10, 2, 0, 3, 2, 3, 0x11, 3];
          body = [0x24, 0] @ [5, 0] @ [1, 0] @ zeros 2 @ zeros 4 @ zeros 16 @ zeros 8 @ dialects;
          smb2 = header @ body
      in [0] @ drop 1 (be_digits 4 (length smb2)) @ smb2)"

text \<open>The reply of one \<^verbatim>\<open>read\<close>: its bytes, a timeout, or a fault that no handler catches.\<close>

datatype single_read = Got "byte list" | Timed_Out | Read_Fault

definition hex4 :: "nat \<Rightarrow> string" where
  "hex4 n = ''0x'' @ map hex_digit [n div 4096 mod 16, n div 256 mod 16, n div 16 mod 16, n mod 16]"

definition smb_v1 :: "int \<Rightarrow> string \<times> int \<Rightarrow> finding" where
  "smb_v1 now tgt =
     mk_finding SMB_PROBE ''SMBv1'' SANGAT_TINGGI CRIT (''SMBv1 detected at '' @ endpoint tgt) [(''endpoint'', JStr (endpoint tgt))] [] now"

definition smb_dialect :: "int \<Rightarrow> string \<times> int \<Rightarrow> nat \<Rightarrow> finding" where
  "smb_dialect now tgt d =
     (let cls = (if d < 0x0300 then SANGAT_TINGGI else TINGGI) in
      mk_finding SMB_PROBE (''SMB-dialect-'' @ hex4 d) cls (if cls = SANGAT_TINGGI then CRIT else HIGH)
        (''SMB dialect '' @ hex4 d @ '' at '' @ endpoint tgt)
        [(''endpoint'', JStr (endpoint tgt)), (''dialect_hex'', JStr (hex4 d))] [] now)"

definition smb_reply :: "int \<Rightarrow> string \<times> int \<Rightarrow> byte list \<Rightarrow> finding list" where
  "smb_reply now tgt resp =
     (if length resp < 80 \<or> slice 4 8 resp \<noteq> SMB2_MAGIC
      then (if slice 4 8 resp = SMB1_MAGIC then [smb_v1 now tgt] else [])
      else [smb_dialect now tgt (endian_nat False (slice 68 70 resp))])"

definition run_smb :: "int \<Rightarrow> string \<times> int \<Rightarrow> single_read connection \<Rightarrow> finding list \<times> bool" where
  "run_smb now tgt conn =
     (case conn of
        Refused err \<Rightarrow> ([connect_failed SMB_PROBE ''SMB'' now tgt err], False)
      | Connected (Got resp) \<Rightarrow> (smb_reply now tgt resp, False)
      | Connected Timed_Out \<Rightarrow> ([], False)
      | Connected Read_Fault \<Rightarrow> ([], True))"

section \<open>RDP\<close>

definition RDP_PROBE :: string where "RDP_PROBE = ''net.rdp.negotiation''"

definition RDP_CR :: "byte list" where
  "RDP_CR = [3, 0, 0, 0x13, 0x0E, 0xE0, 0, 0, 0, 0, 0, 1, 0, 8, 0, 0x0B, 0, 0, 0]"

definition rdp_selected :: "int \<Rightarrow> string \<times> int \<Rightarrow> nat \<Rightarrow> finding" where
  "rdp_selected now tgt p =
     mk_finding RDP_PROBE (''RDP-protocol-'' @ show_nat p) (if p = 0 then SANGAT_TINGGI else TINGGI) (if p = 0 then CRIT else HIGH)
       (''RDP at '' @ endpoint tgt @ '' selected protocol='' @ show_nat p)
       [(''endpoint'', JStr (endpoint tgt)), (''selected_protocol'', JInt (int p))] [] now"

definition rdp_refused :: "int \<Rightarrow> string \<times> int \<Rightarrow> nat \<Rightarrow> finding" where
  "rdp_refused now tgt code =
     mk_finding RDP_PROBE ''RDP-NEG-FAILURE'' CLS_INFO SEV_INFO
       (''RDP at '' @ endpoint tgt @ '' negotiation failure code='' @ show_nat code)
       [(''endpoint'', JStr (endpoint tgt)), (''failure_code'', JInt (int code))] [] now"

definition rdp_reply :: "int \<Rightarrow> string \<times> int \<Rightarrow> byte list \<Rightarrow> finding list" where
  "rdp_reply now tgt resp =
     (if length resp < 19 then []
      else if resp ! 11 = 2 then [rdp_selected now tgt (endian_nat False (slice 15 19 resp))]
      else if resp ! 11 = 3 then [rdp_refused now tgt (endian_nat False (slice 15 19 resp))]
      else [])"

definition run_rdp :: "int \<Rightarrow> string \<times> int \<Rightarrow> single_read connection \<Rightarrow> finding list \<times> bool" where
  "run_rdp now tgt conn =
     (case conn of
        Refused err \<Rightarrow> ([connect_failed RDP_PROBE ''RDP'' now tgt err], False)
      | Connected (Got resp) \<Rightarrow> (rdp_reply now tgt resp, False)
      | Connected Timed_Out \<Rightarrow> ([], False)
      | Connected Read_Fault \<Rightarrow> ([], True))"

section \<open>DTLS\<close>

text \<open>\<^verbatim>\<open>re.search\<close> of a pattern that starts with \<^verbatim>\<open>^\<close>, where each line starts: the flag says that this position is one.\<close>

fun search_line :: "(string \<Rightarrow> 'a option) \<Rightarrow> bool \<Rightarrow> string \<Rightarrow> 'a option" where
  "search_line m here [] = (if here then m [] else None)"
| "search_line m here (c # s) =
     (case (if here then m (c # s) else None) of
        Some v \<Rightarrow> Some v
      | None \<Rightarrow> search_line m (c = newline) s)"

text \<open>\<^verbatim>\<open>\s*Name\s*:\s*(\S+)\<close>\<close>

definition named_value :: "string \<Rightarrow> string \<Rightarrow> string option" where
  "named_value name s = do {
     r \<leftarrow> after_text name (dropWhile is_space s);
     r2 \<leftarrow> after_text '':'' (dropWhile is_space r);
     (let w = takeWhile (\<lambda>c. \<not> is_space c) (dropWhile is_space r2) in if w = [] then None else Some w) }"

text \<open>\<^verbatim>\<open>\s*subject=([^\n]+)\<close>\<close>

definition subject_value :: "string \<Rightarrow> string option" where
  "subject_value s = do {
     r \<leftarrow> after_text ''subject='' (dropWhile is_space s);
     (let w = takeWhile (\<lambda>c. c \<noteq> newline) r in if w = [] then None else Some w) }"

record dtls_result =
  dr_version :: "string option"
  dr_cipher :: "string option"
  dr_subject :: "string option"
  dr_algorithms :: "string list"

definition TOKEN_MAP :: "string dict" where
  "TOKEN_MAP =
     [(''AES256'', ''AES-256''), (''AES128'', ''AES-128''), (''3DES'', ''3DES''), (''RC4'', ''RC4''),
      (''SHA384'', ''SHA-384''), (''SHA256'', ''SHA-256''), (''SHA1'', ''SHA-1''), (''MD5'', ''MD5'')]"

definition token_algorithms :: "string \<Rightarrow> string list" where
  "token_algorithms token =
     (case dict_get TOKEN_MAP token of
        Some a \<Rightarrow> [a]
      | None \<Rightarrow> if token \<in> {''RSA'', ''ECDSA'', ''ECDHE'', ''DHE''} then [token] else [])"

definition parse_dtls_handshake :: "string \<Rightarrow> dtls_result" where
  "parse_dtls_handshake text =
     (let cipher = search_line (named_value ''Cipher'') True text in
      \<lparr>dr_version = search_line (named_value ''Protocol'') True text, dr_cipher = cipher,
       dr_subject = map_option py_strip (search_line subject_value True text),
       dr_algorithms = (case cipher of None \<Rightarrow> [] | Some c \<Rightarrow> concat (map token_algorithms (split_on (CHR ''-'') c)))\<rparr>)"

text \<open>What became of the process; the time limit is its \<^verbatim>\<open>repr\<close>.\<close>

datatype dtls_process = No_Openssl | Spawn_Fault | Killed string | Output "byte list" "byte list"

definition udp_endpoint :: "string \<times> int \<Rightarrow> json" where
  "udp_endpoint tgt = JStr (''udp://'' @ endpoint tgt)"

definition dtls_args :: "string \<times> int \<Rightarrow> string \<Rightarrow> string list" where
  "dtls_args tgt version =
     [''openssl'', ''s_client'', ''-dtls'' @ map (\<lambda>c. if c = CHR ''.'' then CHR ''_'' else c) version, ''-connect'', endpoint tgt]"

definition opt_text_value :: "string option \<Rightarrow> json" where
  "opt_text_value v = (case v of None \<Rightarrow> JNull | Some s \<Rightarrow> JStr s)"

definition dtls_finding :: "string \<Rightarrow> int \<Rightarrow> string \<times> int \<Rightarrow> string \<Rightarrow> dtls_result \<Rightarrow> string \<Rightarrow> finding" where
  "dtls_finding pid now tgt version r alg =
     (let cls = classify alg in
      mk_finding pid (normalise alg) cls (sev_for cls)
        (''DTLS '' @ (case dr_version r of Some v \<Rightarrow> v | None \<Rightarrow> version) @ '' cipher '' @
         (case dr_cipher r of Some c \<Rightarrow> c | None \<Rightarrow> ''None'') @ '' -> '' @ alg)
        [(''endpoint'', udp_endpoint tgt), (''dtls_version'', opt_text_value (dr_version r)),
         (''cipher_suite'', opt_text_value (dr_cipher r)), (''peer_subject'', opt_text_value (dr_subject r))] [] now)"

definition run_dtls_probe :: "string \<Rightarrow> int \<Rightarrow> string \<times> int \<Rightarrow> string \<Rightarrow> dtls_process \<Rightarrow> finding list \<times> bool" where
  "run_dtls_probe pid now tgt version proc =
     (case proc of
        No_Openssl \<Rightarrow>
          ([mk_finding pid ''N/A'' CLS_INFO SEV_INFO (''DTLS probe skipped at '' @ endpoint tgt @ '': openssl not on PATH'')
              [(''endpoint'', udp_endpoint tgt)] [] now], False)
      | Spawn_Fault \<Rightarrow> ([], True)
      | Killed limit \<Rightarrow>
          ([mk_finding pid ''N/A'' CLS_INFO SEV_INFO (''DTLS probe timeout at '' @ endpoint tgt)
              [(''endpoint'', udp_endpoint tgt), (''timeout_s'', JFloat limit), (''version'', JStr version)] [] now], False)
      | Output out err \<Rightarrow>
          (let text = decode_text out @ [newline] @ decode_text err; r = parse_dtls_handshake text in
           if dr_cipher r = None \<and> dr_algorithms r = []
           then ([mk_finding pid ''N/A'' CLS_INFO SEV_INFO (''DTLS handshake produced no cipher at '' @ endpoint tgt)
                    [(''endpoint'', udp_endpoint tgt), (''raw_head'', JStr (take 400 text))] [] now], False)
           else (map (dtls_finding pid now tgt version r) (dr_algorithms r), False)))"

text \<open>\<^verbatim>\<open>ot_coap_dtls.py\<close>: the probe of every target that may speak CoAP over DTLS, in turn; an exception ends the run.\<close>

definition COAP_DTLS :: string where "COAP_DTLS = ''ot.coap.dtls''"

definition coap_hint :: "ot_target \<Rightarrow> bool" where
  "coap_hint t \<longleftrightarrow> proto_hint t = None \<or> proto_hint t = Some ''coap_dtls''"

definition coap_applies :: "ot_target list \<Rightarrow> bool" where
  "coap_applies ts \<longleftrightarrow> list_ex coap_hint ts \<or> ts = []"

definition coap_targets :: "ot_target list \<Rightarrow> ot_target list" where
  "coap_targets ts =
     (let hs = filter coap_hint ts in
      if hs = [] then [\<lparr>ot_host = ''127.0.0.1'', ot_port = 5684, proto_hint = Some ''coap_dtls''\<rparr>] else hs)"

fun probe_targets :: "int \<Rightarrow> (string \<times> int \<Rightarrow> dtls_process) \<Rightarrow> ot_target list \<Rightarrow> finding list \<times> bool" where
  "probe_targets now world [] = ([], False)"
| "probe_targets now world (t # ts) =
     (let tgt = (ot_host t, int (ot_port t)); a = run_dtls_probe COAP_DTLS now tgt ''1.2'' (world tgt) in
      if snd a then a else (let b = probe_targets now world ts in (fst a @ fst b, snd b)))"

definition run_coap :: "int \<Rightarrow> (string \<times> int \<Rightarrow> dtls_process) \<Rightarrow> ot_target list \<Rightarrow> finding list \<times> bool" where
  "run_coap now world ts = probe_targets now world (coap_targets ts)"

section \<open>SSH servers\<close>

text \<open>The messages of a server as RFC 4253 frames them: packets with their padding, the name-lists of KEXINIT.\<close>

definition ssh_packet :: "byte list \<times> byte list \<Rightarrow> byte list" where
  "ssh_packet pb = be_digits 4 (1 + length (snd pb) + length (fst pb)) @ [byte_of (length (fst pb))] @ snd pb @ fst pb"

definition packet_fits :: "byte list \<times> byte list \<Rightarrow> bool" where
  "packet_fits pb \<longleftrightarrow> length (fst pb) < 256 \<and> 1 + length (snd pb) + length (fst pb) < 256 ^ 4"

definition name_bytes :: "string list \<Rightarrow> byte list" where
  "name_bytes ts = text_bytes (join_with '','' ts)"

definition name_list_enc :: "string list \<Rightarrow> byte list" where
  "name_list_enc ts = be_digits 4 (length (name_bytes ts)) @ name_bytes ts"

definition kexinit :: "byte list \<Rightarrow> string list list \<Rightarrow> byte list \<Rightarrow> byte list" where
  "kexinit cookie nls post = [20] @ cookie @ concat (map name_list_enc nls) @ post"

definition ssh_token_ok :: "string \<Rightarrow> bool" where
  "ssh_token_ok t \<longleftrightarrow> t \<noteq> [] \<and> list_all (\<lambda>c. char_code c < 128 \<and> \<not> is_space c \<and> c \<noteq> CHR '','') t"

lemma decode_text_ascii: "list_all (\<lambda>c. char_code c < 128) s \<Longrightarrow> decode_text (text_bytes s) = s"
proof -
  have "unat (byte_of (char_code c)) = char_code c" if "char_code c < 128" for c
    using that by (simp add: unat_byte_of)
  then show "list_all (\<lambda>c. char_code c < 128) s \<Longrightarrow> decode_text (text_bytes s) = s"
    by (induction s) (simp_all add: decode_text_def text_bytes_def)
qed

lemma name_list_join:
  assumes "list_all ssh_token_ok ts"
  shows "name_list (join_with '','' ts) = ts"
proof (cases "ts = []")
  case False
  have strip: "ssh_token_ok t \<Longrightarrow> py_strip t = t" for t
    by (rule py_strip_ends) (auto simp: ssh_token_ok_def list_all_iff)
  have "split_on (CHR '','') (join_with '','' ts) = ts"
    using assms by (intro split_on_join [OF False]) (auto simp: ssh_token_ok_def list_all_iff)
  moreover have "map py_strip ts = ts" "filter (\<lambda>t. t \<noteq> []) ts = ts"
    using assms strip by (induction ts) (auto simp: ssh_token_ok_def)
  ultimately show ?thesis by (simp add: name_list_def)
qed (simp add: name_list_def py_strip_def lstrip_set_def rstrip_set_def)

lemma decode_name_bytes: "list_all ssh_token_ok ts \<Longrightarrow> decode_text (name_bytes ts) = join_with '','' ts"
  unfolding name_bytes_def
proof (rule decode_text_ascii)
  assume "list_all ssh_token_ok ts"
  then have "\<Union> (set ` set ts) \<subseteq> {c. char_code c < 128}" by (auto simp: list_all_iff ssh_token_ok_def)
  moreover have "char_code (CHR '','') < 128" by (simp add: char_code_def)
  ultimately show "list_all (\<lambda>c. char_code c < 128) (join_with '','' ts)"
    using join_chars [of "CHR '',''" ts] by (fastforce simp: list_all_iff)
qed

lemma namelist_findings_enc:
  "length nls = length labels \<Longrightarrow> list_all (list_all ssh_token_ok) nls \<Longrightarrow>
   list_all (\<lambda>ts. length (name_bytes ts) < 256 ^ 4) nls \<Longrightarrow>
   namelist_findings now tgt (pre @ concat (map name_list_enc nls) @ post) (length pre) labels =
     concat (map (\<lambda>(label, ts). concat (map (ssh_offer now tgt label) ts)) (zip labels nls))"
proof (induction nls arbitrary: labels pre)
  case (Cons ts nls)
  then obtain label labels' where labels: "labels = label # labels'" by (cases labels) auto
  let ?b = "name_bytes ts" and ?rest = "concat (map name_list_enc nls) @ post"
  let ?pl = "pre @ concat (map name_list_enc (ts # nls)) @ post"
  have pl: "?pl = pre @ be_digits 4 (length ?b) @ ?b @ ?rest" by (simp add: name_list_enc_def)
  have ln: "be_nat (slice (length pre) (length pre + 4) ?pl) = length ?b"
    unfolding pl using Cons.prems by (subst slice_block) (simp_all add: be_nat_be_digits)
  have b: "slice (length pre + 4) (length pre + 4 + length ?b) ?pl = ?b"
    using slice_block [of _ "pre @ be_digits 4 (length ?b)" _ ?b ?rest] unfolding pl by simp
  have "namelist_findings now tgt ((pre @ name_list_enc ts) @ ?rest) (length (pre @ name_list_enc ts)) labels' =
      concat (map (\<lambda>(label, ts). concat (map (ssh_offer now tgt label) ts)) (zip labels' nls))"
    using Cons.prems labels by (intro Cons.IH) simp_all
  then have rest: "namelist_findings now tgt ?pl (length pre + 4 + length ?b) labels' =
      concat (map (\<lambda>(label, ts). concat (map (ssh_offer now tgt label) ts)) (zip labels' nls))"
    by (simp add: name_list_enc_def add.assoc)
  have fits: "length pre + 4 \<le> length ?pl" unfolding pl by simp
  show ?case
    unfolding labels namelist_findings.simps Let_def ln b rest
    using fits Cons.prems by (simp add: decode_name_bytes name_list_join)
qed simp

lemma read_exactly_front: "n = length a \<Longrightarrow> read_exactly n (a @ b, e) = Read a (b, e)"
  by (simp add: read_exactly_def)

lemma read_packet:
  assumes "packet_fits (pad, body)"
  shows "read_until_kexinit (Suc n) (ssh_packet (pad, body) @ rest, e) =
    (if body \<noteq> [] \<and> body ! 0 = 20 then Some (Some body) else read_until_kexinit n (rest, e))"
proof -
  let ?n = "1 + length body + length pad"
  let ?hdr = "be_digits 4 ?n @ [byte_of (length pad)]"
  have st: "(ssh_packet (pad, body) @ rest, e) = (?hdr @ (body @ pad) @ rest, e)" by (simp add: ssh_packet_def)
  have h: "be_nat (take 4 ?hdr) = ?n" "unat (?hdr ! 4) = length pad"
    using assms by (simp_all add: packet_fits_def be_nat_be_digits nth_append unat_byte_of)
  have t: "take_int (int ?n - 1 - int (length pad)) (body @ pad) = body" by (simp add: take_int_def)
  have r1: "read_exactly 5 (?hdr @ (body @ pad) @ rest, e) = Read ?hdr ((body @ pad) @ rest, e)"
    by (rule read_exactly_front) simp
  have r2: "read_exactly (?n - 1) ((body @ pad) @ rest, e) = Read (body @ pad) (rest, e)"
    by (rule read_exactly_front) simp
  have nz: "?n \<noteq> 0" by simp
  show ?thesis
    unfolding st read_until_kexinit.simps r1 read_outcome.case Let_def h r2 t if_not_P [OF nz] by simp
qed

lemma read_packets:
  assumes "packet_fits (pad, body)" "body \<noteq> []" "body ! 0 = 20"
  shows "list_all packet_fits others \<Longrightarrow> list_all (\<lambda>pb. snd pb = [] \<or> snd pb ! 0 \<noteq> 20) others \<Longrightarrow> length others < n \<Longrightarrow>
    read_until_kexinit n (concat (map ssh_packet others) @ ssh_packet (pad, body) @ rest, e) = Some (Some body)"
proof (induction others arbitrary: n)
  case Nil
  then obtain m where "n = Suc m" by (cases n) auto
  with assms show ?case by (simp add: read_packet)
next
  case (Cons pb others)
  then obtain m where "n = Suc m" by (cases n) auto
  moreover obtain p b where "pb = (p, b)" by (cases pb)
  ultimately show ?case using Cons by (auto simp: read_packet)
qed

section \<open>OpenSSL's output\<close>

definition quiet :: "string \<Rightarrow> string \<Rightarrow> bool" where
  "quiet name l \<longleftrightarrow> newline \<notin> set l \<and> dropWhile is_space l \<noteq> [] \<and> \<not> prefix name (dropWhile is_space l)"

lemma dropWhile_stop: "dropWhile P l \<noteq> [] \<Longrightarrow> dropWhile P (l @ s) = dropWhile P l @ s"
  by (induction l) auto

lemma quiet_no_value:
  assumes "quiet name l" "newline \<notin> set name"
  shows "named_value name (l @ newline # s) = None"
proof -
  have "\<not> prefix name (dropWhile is_space l @ newline # s)"
    using assms by (auto simp: quiet_def prefix_append prefix_Cons)
  then show ?thesis using assms(1) by (simp add: named_value_def after_text_def dropWhile_stop quiet_def)
qed

lemma search_line_within: "newline \<notin> set l \<Longrightarrow> search_line m False (l @ newline # s) = search_line m True s"
  by (induction l) auto

lemma search_line_skip:
  assumes "newline \<notin> set l" "m (l @ newline # s) = None"
  shows "search_line m True (l @ newline # s) = search_line m True s"
  using assms search_line_within [of "tl l" m s] by (cases l) auto

lemma search_quiet:
  assumes "newline \<notin> set name"
  shows "list_all (quiet name) ls \<Longrightarrow>
    search_line (named_value name) True (concat (map (\<lambda>l. l @ [newline]) ls) @ s) = search_line (named_value name) True s"
proof (induction ls)
  case (Cons l ls)
  then have q: "quiet name l" by simp
  have "newline \<notin> set l" using q by (simp add: quiet_def)
  from search_line_skip [where m = "named_value name", OF this quiet_no_value [OF q assms]] Cons show ?case by simp
qed simp

lemma dropWhile_run: "list_all P b \<Longrightarrow> r \<noteq> [] \<Longrightarrow> \<not> P (hd r) \<Longrightarrow> dropWhile P (b @ r) = r"
  by (induction b) (auto simp: neq_Nil_conv)

lemma named_value_line:
  assumes "list_all is_space i" "list_all is_space b1" "list_all is_space b2"
    and "name \<noteq> []" "\<not> is_space (hd name)" "w \<noteq> []" "list_all (\<lambda>c. \<not> is_space c) w"
  shows "named_value name (i @ name @ b1 @ '':'' @ b2 @ w @ newline # s) = Some w"
proof -
  have nl: "is_space newline" by (simp add: is_space_def char_code_def)
  have colon: "\<not> is_space (CHR '':'')" by (simp add: is_space_def char_code_def)
  have "dropWhile is_space (i @ name @ b1 @ '':'' @ b2 @ w @ newline # s) = name @ b1 @ '':'' @ b2 @ w @ newline # s"
    using assms(1,4,5) by (intro dropWhile_run) auto
  moreover have "dropWhile is_space (b1 @ '':'' @ b2 @ w @ newline # s) = '':'' @ b2 @ w @ newline # s"
    using assms(2) colon by (intro dropWhile_run) auto
  moreover have "dropWhile is_space (b2 @ w @ newline # s) = w @ newline # s"
    using assms(3,6,7) by (intro dropWhile_run) (auto simp: neq_Nil_conv)
  moreover have "takeWhile (\<lambda>c. \<not> is_space c) (w @ newline # s) = w"
    using assms(7) nl by (induction w) auto
  ultimately show ?thesis using assms(6) by (simp add: named_value_def after_text_def Let_def)
qed

lemma search_line_here: "m s = Some v \<Longrightarrow> search_line m True s = Some v"
  by (cases s) simp_all

section \<open>Properties\<close>

text \<open>C16. What an SSH server offers is what is reported: whatever its banner, its cookie, the padding of its packets and
  up to four other packets before the KEXINIT, the report is the banner and, for each of the ten name-lists, in order,
  the tokens that are weak, as the server spelled them.\<close>

theorem ssh_offers_reported:
  assumes "0x0A \<notin> set line" "length line \<le> READER_LIMIT"
    and "list_all packet_fits others" "list_all (\<lambda>pb. snd pb = [] \<or> snd pb ! 0 \<noteq> 20) others" "length others < MAX_PACKETS"
    and "length cookie = 16" "length nls = 10" "list_all (list_all ssh_token_ok) nls"
    and "list_all (\<lambda>ts. length (name_bytes ts) < 256 ^ 4) nls" "packet_fits (pad, kexinit cookie nls post)"
  shows "run_ssh now tgt (Connected
      (line @ [0x0A] @ concat (map ssh_packet others) @ ssh_packet (pad, kexinit cookie nls post) @ rest, e)) =
    (ssh_banner_finding now tgt (line @ [0x0A]) #
       concat (map (\<lambda>(label, ts). concat (map (ssh_offer now tgt label) ts)) (zip NAMELIST_LABELS nls)), False)"
proof -
  let ?tail = "concat (map ssh_packet others) @ ssh_packet (pad, kexinit cookie nls post) @ rest"
  have tw: "takeWhile (\<lambda>b. b \<noteq> 0x0A) (line @ 0x0A # ?tail) = line"
    using assms(1) by (subst takeWhile_append2) auto
  have l: "read_banner (line @ [0x0A] @ ?tail, e) = Read (line @ [0x0A]) (?tail, e)"
    using assms(2) tw by (simp add: read_banner_def Let_def)
  have k: "read_until_kexinit MAX_PACKETS (?tail, e) = Some (Some (kexinit cookie nls post))"
    using assms(3-5,10) by (intro read_packets) (simp_all add: kexinit_def)
  have "namelist_findings now tgt (([20] @ cookie) @ concat (map name_list_enc nls) @ post) (length ([20] @ cookie)) NAMELIST_LABELS =
      concat (map (\<lambda>(label, ts). concat (map (ssh_offer now tgt label) ts)) (zip NAMELIST_LABELS nls))"
    using assms(7-9) by (intro namelist_findings_enc) (simp_all add: NAMELIST_LABELS_def)
  then show ?thesis
    unfolding run_ssh_def connection.case l read_outcome.case k option.case emit_namelists_def
    using assms(6) by (simp add: kexinit_def)
qed

text \<open>C40. Every SMB2 server is reported as a deprecated dialect: the probe reads the structure size of the negotiate
  response, which is 65 whatever the server chose, instead of the dialect four bytes further on.\<close>

theorem smb_dialect_misread:
  assumes "length nbss = 4" "length header = 60" "length mode = 2" "dialect < 256 ^ 2" "6 \<le> length rest"
  shows "run_smb now tgt (Connected (Got (nbss @ SMB2_MAGIC @ header @ endian_bytes False 2 65 @ mode @ endian_bytes False 2 dialect @ rest))) =
    ([mk_finding SMB_PROBE ''SMB-dialect-0x0041'' SANGAT_TINGGI CRIT (''SMB dialect 0x0041 at '' @ endpoint tgt)
        [(''endpoint'', JStr (endpoint tgt)), (''dialect_hex'', JStr ''0x0041'')] [] now], False)"
proof -
  let ?resp = "nbss @ SMB2_MAGIC @ header @ endian_bytes False 2 65 @ mode @ endian_bytes False 2 dialect @ rest"
  have len: "length SMB2_MAGIC = 4" by (simp add: SMB2_MAGIC_def)
  have m: "slice 4 8 ?resp = SMB2_MAGIC" using assms(1) len by (intro slice_block) simp_all
  have "slice 68 70 ?resp = endian_bytes False 2 65"
    using assms(1,2) len slice_block [of 68 "nbss @ SMB2_MAGIC @ header" 70 "endian_bytes False 2 65"] by simp
  then have d: "endian_nat False (slice 68 70 ?resp) = 65" by (simp add: endian_nat_bytes)
  have h: "hex4 65 = ''0x0041''" by code_simp
  have "\<not> length ?resp < 80" using assms len by simp
  then show ?thesis
    unfolding run_smb_def connection.case single_read.case smb_reply_def m d by (simp add: smb_dialect_def h)
qed

text \<open>The protocol an RDP server selects is reported with its number, the failure code of one that refuses likewise.\<close>

theorem rdp_answer_reported:
  assumes "p < 256 ^ 4" "length ref = 6"
  shows "run_rdp now tgt (Connected (Got ([3, 0, 0, 0x13, 0x0E] @ ref @ [2, flags, 8, 0] @ endian_bytes False 4 p))) = ([rdp_selected now tgt p], False)"
    and "run_rdp now tgt (Connected (Got ([3, 0, 0, 0x13, 0x0E] @ ref @ [3, flags, 8, 0] @ endian_bytes False 4 p))) = ([rdp_refused now tgt p], False)"
proof -
  have r: "slice 15 19 ([3, 0, 0, 0x13, 0x0E] @ ref @ [t, flags, 8, 0] @ endian_bytes False 4 p) = endian_bytes False 4 p" for t
    using assms(2) slice_block [of 15 "[3, 0, 0, 0x13, 0x0E] @ ref @ [t, flags, 8, 0]" 19 "endian_bytes False 4 p" "[]"] by simp
  have t: "([3, 0, 0, 0x13, 0x0E] @ ref @ [t, flags, 8, 0] @ endian_bytes False 4 p) ! 11 = t" for t
    using assms(2) by (simp add: nth_append)
  show "run_rdp now tgt (Connected (Got ([3, 0, 0, 0x13, 0x0E] @ ref @ [2, flags, 8, 0] @ endian_bytes False 4 p))) = ([rdp_selected now tgt p], False)"
    unfolding run_rdp_def connection.case single_read.case rdp_reply_def r t using assms by (simp add: endian_nat_bytes)
  show "run_rdp now tgt (Connected (Got ([3, 0, 0, 0x13, 0x0E] @ ref @ [3, flags, 8, 0] @ endian_bytes False 4 p))) = ([rdp_refused now tgt p], False)"
    unfolding run_rdp_def connection.case single_read.case rdp_reply_def r t using assms by (simp add: endian_nat_bytes)
qed

text \<open>A DTLS handshake with a suite none of whose words the probe knows ends with nothing: neither a finding nor the
  note that there was no cipher. OpenSSL's name of the 3DES suite is such a one.\<close>

theorem dtls_unknown_suite_silent:
  assumes "list_all (quiet ''Cipher'') ls" "list_all is_space i" "list_all is_space b1" "list_all is_space b2"
    and "suite \<noteq> []" "list_all (\<lambda>c. \<not> is_space c) suite" "list_all (\<lambda>t. token_algorithms t = []) (split_on (CHR ''-'') suite)"
    and "decode_text out = concat (map (\<lambda>l. l @ [newline]) ls) @ i @ ''Cipher'' @ b1 @ '':'' @ b2 @ suite @ newline # post"
  shows "run_dtls_probe pid now tgt version (Output out err) = ([], False)"
proof -
  let ?text = "decode_text out @ [newline] @ decode_text err"
  have name: "newline \<notin> set ''Cipher''" "\<not> is_space (hd ''Cipher'')" by code_simp+
  have "named_value ''Cipher'' (i @ ''Cipher'' @ b1 @ '':'' @ b2 @ suite @ newline # post @ [newline] @ decode_text err) = Some suite"
    by (rule named_value_line) (use assms name in simp_all)
  from search_line_here [where m = "named_value ''Cipher''", OF this] have "search_line (named_value ''Cipher'') True ?text = Some suite"
    using search_quiet [OF name(1) assms(1), of "i @ ''Cipher'' @ b1 @ '':'' @ b2 @ suite @ newline # post @ [newline] @ decode_text err"]
    unfolding assms(8) by simp
  moreover have "concat (map token_algorithms (split_on (CHR ''-'') suite)) = []"
    using assms(7) by (simp add: list_all_iff)
  ultimately have "dr_cipher (parse_dtls_handshake ?text) = Some suite" "dr_algorithms (parse_dtls_handshake ?text) = []"
    by (simp_all add: parse_dtls_handshake_def Let_def)
  then show ?thesis by (simp add: run_dtls_probe_def Let_def)
qed

section \<open>Witnesses\<close>

definition sample_names :: "string list list" where
  "sample_names = [[''diffie-hellman-group14-sha1''], [''ssh-rsa'', ''ssh-ed25519'']] @ replicate 8 []"

theorem ssh_offers_reported_witness:
  "length (fst (run_ssh 0 (''host'', 22) (Connected (text_bytes ''SSH-2.0-x'' @ [0x0A] @ ssh_packet ([], [4]) @
      ssh_packet ([0, 0], kexinit (zeros 16) sample_names [0]), Ended)))) \<ge> 1"
proof -
  have "run_ssh 0 (''host'', 22) (Connected (text_bytes ''SSH-2.0-x'' @ [0x0A] @ concat (map ssh_packet [([], [4])]) @
      ssh_packet ([0, 0], kexinit (zeros 16) sample_names [0]) @ [], Ended)) =
    (ssh_banner_finding 0 (''host'', 22) (text_bytes ''SSH-2.0-x'' @ [0x0A]) #
       concat (map (\<lambda>(label, ts). concat (map (ssh_offer 0 (''host'', 22) label) ts)) (zip NAMELIST_LABELS sample_names)), False)"
  proof (rule ssh_offers_reported)
    have len: "length (text_bytes t) = length t" for t by (simp add: text_bytes_def)
    show "0x0A \<notin> set (text_bytes ''SSH-2.0-x'')" "length (zeros 16) = 16" "length sample_names = 10"
      "list_all (list_all ssh_token_ok) sample_names"
      "list_all (\<lambda>pb. snd pb = [] \<or> snd pb ! 0 \<noteq> 20) [([] :: byte list, [4 :: byte])]"
      by code_simp+
    show "length (text_bytes ''SSH-2.0-x'') \<le> READER_LIMIT" by (simp add: len READER_LIMIT_def)
    show "list_all (\<lambda>ts. length (name_bytes ts) < 256 ^ 4) sample_names" by (simp add: sample_names_def name_bytes_def len list_all_iff)
    show "list_all packet_fits [([], [4])]" by (simp add: packet_fits_def)
    show "length [([] :: byte list, [4 :: byte])] < MAX_PACKETS" by (simp add: MAX_PACKETS_def)
    show "packet_fits ([0, 0], kexinit (zeros 16) sample_names [0])"
      by (simp add: packet_fits_def kexinit_def sample_names_def name_list_enc_def name_bytes_def len length_concat sum_list_replicate)
  qed
  then show ?thesis by simp
qed

theorem smb_dialect_misread_witness:
  "fst (run_smb 0 (''host'', 445) (Connected (Got (zeros 4 @ SMB2_MAGIC @ zeros 60 @ endian_bytes False 2 65 @ [1, 0] @
      endian_bytes False 2 0x0311 @ zeros 58)))) \<noteq> []"
  using smb_dialect_misread [where nbss = "zeros 4" and header = "zeros 60" and mode = "[1, 0]" and dialect = "0x0311" and rest = "zeros 58"] by simp

definition sample_dtls_output :: string where
  "sample_dtls_output =
     concat (map (\<lambda>l. l @ [newline]) [''CONNECTED(00000003)'', ''---'', ''SSL-Session:'', ''    Protocol  : DTLSv1.2'']) @
     ''    '' @ ''Cipher'' @ ''    '' @ '':'' @ '' '' @ ''DES-CBC3-SHA'' @ newline # ''---''"

theorem dtls_unknown_suite_silent_witness:
  "run_dtls_probe ''ot.coap.dtls'' 0 (''10.0.0.7'', 5684) ''1.2'' (Output (text_bytes sample_dtls_output) []) = ([], False)"
proof (rule dtls_unknown_suite_silent)
  show "decode_text (text_bytes sample_dtls_output) =
      concat (map (\<lambda>l. l @ [newline]) [''CONNECTED(00000003)'', ''---'', ''SSL-Session:'', ''    Protocol  : DTLSv1.2'']) @
      ''    '' @ ''Cipher'' @ ''    '' @ '':'' @ '' '' @ ''DES-CBC3-SHA'' @ newline # ''---''"
    unfolding sample_dtls_output_def by (rule decode_text_ascii) code_simp
qed code_simp+

end
