(* ===== verification/Host_Policy.thy ===== *)
theory Host_Policy
  imports Tls_Client Binary
begin

text \<open>
  Two probes of a host's own configuration: \<^verbatim>\<open>probes/host_pam_hashing.py\<close> (how passwords are hashed) and
  \<^verbatim>\<open>host_windows_schannel.py\<close> (what the registry enables for TLS). The texts of the files, the directory listing and
  the registry hive are arguments. A run is the findings emitted and whether an exception left the probe after them.
\<close>

section \<open>Password hashing\<close>

definition PAM_PROBE :: string where "PAM_PROBE = ''host.pam.hashing''"

definition LOGIN_DEFS_WEAK :: "classification dict" where
  "LOGIN_DEFS_WEAK = [(''DES'', SANGAT_TINGGI), (''MD5'', SANGAT_TINGGI), (''SHA256'', SEDERHANA)]"

definition SHADOW_WEAK_PREFIXES :: "(string \<times> string \<times> classification) list" where
  "SHADOW_WEAK_PREFIXES = [(''$1$'', ''MD5'', SANGAT_TINGGI), (''$5$'', ''SHA256'', SEDERHANA)]"

definition SHADOW_SAFE_PREFIXES :: "string list" where
  "SHADOW_SAFE_PREFIXES = [''$2'', ''$6$'', ''$y$'', ''$7$'']"

definition config_line :: "string \<Rightarrow> bool" where
  "config_line l \<longleftrightarrow> l \<noteq> [] \<and> \<not> startswith l ''#''"

definition pam_finding :: "int \<Rightarrow> string \<Rightarrow> classification \<Rightarrow> string \<Rightarrow> pydict \<Rightarrow> string \<Rightarrow> finding" where
  "pam_finding now scheme cls ttl ev snippet =
     mk_finding PAM_PROBE (''crypt/'' @ scheme) cls (sev_for cls) ttl ev [(''snippet'', JStr snippet)] now"

definition login_defs_finding :: "int \<Rightarrow> string \<Rightarrow> string \<Rightarrow> finding list" where
  "login_defs_finding now path raw =
     (let line = py_strip raw; parts = split_ws line in
      if \<not> config_line line \<or> length parts < 2 \<or> py_upper (parts ! 0) \<noteq> ''ENCRYPT_METHOD'' then []
      else
        (case dict_get LOGIN_DEFS_WEAK (py_upper (parts ! 1)) of
           None \<Rightarrow> []
         | Some cls \<Rightarrow>
             [pam_finding now (py_upper (parts ! 1)) cls (''login.defs ENCRYPT_METHOD is '' @ py_upper (parts ! 1))
                [(''path'', JStr path), (''encrypt_method'', JStr (py_upper (parts ! 1)))] ''ENCRYPT_METHOD YESCRYPT   # or SHA512'']))"

text \<open>A text that cannot be read is \<^const>\<open>None\<close>.\<close>

definition check_login_defs :: "int \<Rightarrow> string \<Rightarrow> string option \<Rightarrow> finding list" where
  "check_login_defs now path text =
     (case text of None \<Rightarrow> [] | Some t \<Rightarrow> concat (map (login_defs_finding now path) (splitlines t)))"

text \<open>An entry of the PAM directory; the test for a plain file may raise.\<close>

record pam_entry =
  pe_name :: string
  pe_path :: string
  pe_is_file :: "bool option"
  pe_text :: "string option"

datatype pam_dir = No_Dir | Unlistable | Dir "pam_entry list"

definition pam_line_finding :: "int \<Rightarrow> pam_entry \<Rightarrow> string \<Rightarrow> finding list" where
  "pam_line_finding now e raw =
     (let line = py_strip raw in
      if config_line line \<and> contains line ''pam_unix.so'' \<and> ''md5'' \<in> set (split_ws line) then
        [pam_finding now ''MD5'' SANGAT_TINGGI (''pam_unix.so uses md5 password hashing in '' @ pe_name e)
           [(''path'', JStr (pe_path e)), (''module'', JStr ''pam_unix.so''), (''option'', JStr ''md5'')]
           ''# Replace `md5` with `yescrypt` (or `sha512`) on the pam_unix.so line'']
      else [])"

fun pam_entries :: "int \<Rightarrow> pam_entry list \<Rightarrow> finding list \<times> bool" where
  "pam_entries now [] = ([], False)"
| "pam_entries now (e # es) =
     (case pe_is_file e of
        None \<Rightarrow> ([], True)
      | Some plain \<Rightarrow>
          (let fs = (if plain then (case pe_text e of None \<Rightarrow> [] | Some t \<Rightarrow> concat (map (pam_line_finding now e) (splitlines t))) else []);
               r = pam_entries now es
           in (fs @ fst r, snd r)))"

definition check_pam_dir :: "int \<Rightarrow> pam_dir \<Rightarrow> finding list \<times> bool" where
  "check_pam_dir now d =
     (case d of
        No_Dir \<Rightarrow> ([], False)
      | Unlistable \<Rightarrow> ([], True)
      | Dir es \<Rightarrow> pam_entries now (sort_key pe_name es))"

definition classify_hash :: "string \<Rightarrow> (string \<times> classification) option" where
  "classify_hash cell =
     (let v = lstrip_set (\<lambda>c. c = CHR ''!'') cell in
      if v = [] \<or> startswith v ''*'' then None
      else
        (case find (\<lambda>(p, _). startswith v p) SHADOW_WEAK_PREFIXES of
           Some (_, nc) \<Rightarrow> Some nc
         | None \<Rightarrow>
             if startswith_any v SHADOW_SAFE_PREFIXES then None
             else if \<not> startswith v ''$'' then Some (''DES'', SANGAT_TINGGI)
             else None))"

definition line_scheme :: "string \<Rightarrow> (string \<times> classification) option" where
  "line_scheme line =
     (let cells = split_on (CHR '':'') line in if length cells < 2 then None else classify_hash (cells ! 1))"

definition count_scheme :: "(classification \<times> nat) dict \<Rightarrow> string \<Rightarrow> (classification \<times> nat) dict" where
  "count_scheme counts line =
     (case line_scheme line of
        None \<Rightarrow> counts
      | Some (name, cls) \<Rightarrow> dict_set name (cls, (case dict_get counts name of None \<Rightarrow> 0 | Some (_, n) \<Rightarrow> n) + 1) counts)"

definition shadow_finding :: "int \<Rightarrow> string \<Rightarrow> string \<times> classification \<times> nat \<Rightarrow> finding" where
  "shadow_finding now path entry =
     (case entry of (name, cls, n) \<Rightarrow>
        pam_finding now name cls (''shadow contains '' @ name @ ''-crypt password hashes'')
          [(''path'', JStr path), (''scheme'', JStr name), (''accounts'', JInt (int n))]
          (''# Re-hash on next login after fixing ENCRYPT_METHOD, or force with:'' @ [newline] @ ''sudo passwd --expire <user>''))"

definition check_shadow :: "int \<Rightarrow> string \<Rightarrow> string option \<Rightarrow> finding list" where
  "check_shadow now path text =
     (case text of None \<Rightarrow> [] | Some t \<Rightarrow> map (shadow_finding now path) (foldl count_scheme [] (splitlines t)))"

definition pam_applies :: "bool \<Rightarrow> bool \<Rightarrow> bool \<Rightarrow> bool" where
  "pam_applies login_defs_exists pam_dir_exists shadow_exists \<longleftrightarrow> login_defs_exists \<or> pam_dir_exists \<or> shadow_exists"

definition run_pam :: "int \<Rightarrow> string \<times> string option \<Rightarrow> pam_dir \<Rightarrow> string \<times> string option \<Rightarrow> finding list \<times> bool" where
  "run_pam now login_defs d shadow =
     (let a = check_login_defs now (fst login_defs) (snd login_defs); b = check_pam_dir now d in
      if snd b then (a @ fst b, True) else (a @ fst b @ check_shadow now (fst shadow) (snd shadow), False))"

section \<open>SCHANNEL\<close>

definition SCHANNEL_PROBE :: string where "SCHANNEL_PROBE = ''host.windows.schannel''"

definition WEAK_PROTOCOLS :: "string list" where
  "WEAK_PROTOCOLS = [''SSL 2.0'', ''SSL 3.0'', ''TLS 1.0'', ''TLS 1.1'', ''PCT 1.0'', ''MULTI-PROTOCOL UNIFIED HELLO'']"

definition is_enabled :: "json option \<Rightarrow> bool" where
  "is_enabled v = (case v of None \<Rightarrow> False | Some j \<Rightarrow> (case py_int j of Inr i \<Rightarrow> i \<noteq> 0 | Inl _ \<Rightarrow> False))"

definition entry_get :: "string \<Rightarrow> json \<Rightarrow> json option" where
  "entry_get k entry = (case entry of JObj d \<Rightarrow> dict_get d k | _ \<Rightarrow> None)"

definition entry_enabled :: "json \<Rightarrow> bool" where
  "entry_enabled entry \<longleftrightarrow> is_enabled (entry_get ''Enabled'' entry)"

definition protocol_enabled_sides :: "json \<Rightarrow> string list" where
  "protocol_enabled_sides entry =
     (if entry_enabled entry then [''Root''] else []) @
     filter (\<lambda>side. case entry_get side entry of None \<Rightarrow> False | Some sub \<Rightarrow> entry_enabled sub) [''Client'', ''Server'']"

definition CIPHER_WORTH :: "classification list" where "CIPHER_WORTH = [SANGAT_TINGGI, TINGGI, SEDERHANA]"

text \<open>\<^verbatim>\<open>AES\s*(\d+)\<close>\<close>

definition aes_bits :: "string \<Rightarrow> string option" where
  "aes_bits s = do {
     r \<leftarrow> after_text ''AES'' s;
     (let d = takeWhile is_digit (dropWhile is_space r) in if d = [] then None else Some d) }"

definition worth :: "classification \<Rightarrow> classification option" where
  "worth cls = (if cls \<in> set CIPHER_WORTH then Some cls else None)"

definition classify_cipher :: "string \<Rightarrow> classification option" where
  "classify_cipher name =
     (let up = py_upper name in
      if contains up ''RC4'' \<or> contains up ''RC2'' then Some SANGAT_TINGGI
      else if contains up ''TRIPLE DES'' \<or> contains up ''3DES'' then Some TINGGI
      else if contains up ''DES'' then Some SANGAT_TINGGI
      else if contains up ''NULL'' then Some SANGAT_TINGGI
      else if contains up ''EXPORT'' \<or> startswith up ''EXP'' then Some SANGAT_TINGGI
      else if contains up ''AES'' then
        worth (classify (case search_text aes_bits up of Some bits \<Rightarrow> ''AES-'' @ bits | None \<Rightarrow> ''AES''))
      else worth (classify (normalise name)))"

definition classify_hash_name :: "string \<Rightarrow> classification option" where
  "classify_hash_name name =
     (let up = py_upper (py_strip name) in
      if up = ''MD5'' then Some SANGAT_TINGGI
      else if up \<in> {''SHA'', ''SHA1'', ''SHA-1'', ''SHA 1''} then Some TINGGI
      else None)"

definition BACKSLASH :: string where "BACKSLASH = [CHR 0x5C]"

definition schannel_finding :: "int \<Rightarrow> string \<Rightarrow> string \<Rightarrow> classification \<Rightarrow> string \<Rightarrow> string \<Rightarrow> pydict \<Rightarrow> finding" where
  "schannel_finding now sect name cls ttl note extra =
     (let alg = ''SCHANNEL/'' @ sect @ ''/'' @ name in
      mk_finding SCHANNEL_PROBE alg cls (sev_for cls) ttl
        ([(''registry_key'', JStr alg), (''section'', JStr sect), (''name'', JStr name), (''note'', JStr note)] @ extra)
        [(''snippet'', JStr (''# Disable in the SCHANNEL registry hive (reboot to apply):'' @ [newline] @
           ''# HKLM'' @ BACKSLASH @ ''SYSTEM'' @ BACKSLASH @ ''CurrentControlSet'' @ BACKSLASH @ ''Control'' @ BACKSLASH @
           ''SecurityProviders'' @ BACKSLASH @ ''SCHANNEL'' @ BACKSLASH @ sect @ BACKSLASH @ name @ [newline] @
           ''# set Enabled = 0x00000000 (DWORD)''))] now)"

definition protocol_finding :: "int \<Rightarrow> string \<times> json \<Rightarrow> finding list" where
  "protocol_finding now ne =
     (let name = fst ne; sides = protocol_enabled_sides (snd ne) in
      if sides = [] \<or> py_upper (py_strip name) \<notin> set WEAK_PROTOCOLS then []
      else
        [schannel_finding now ''Protocols'' name SANGAT_TINGGI
           (''SCHANNEL protocol '' @ name @ '' is enabled ('' @ join_with '', '' sides @ '')'')
           (name @ '' is cryptographically broken and enabled host-wide; any app using the OS TLS stack can negotiate it.'')
           [(''sides'', JList (map JStr sides))]])"

definition cipher_finding :: "int \<Rightarrow> string \<times> json \<Rightarrow> finding list" where
  "cipher_finding now ne =
     (if \<not> entry_enabled (snd ne) then []
      else
        (case classify_cipher (fst ne) of
           None \<Rightarrow> []
         | Some cls \<Rightarrow>
             [schannel_finding now ''Ciphers'' (fst ne) cls (''SCHANNEL cipher '' @ fst ne @ '' is enabled'')
                (''Enabled cipher '' @ fst ne @ '' classified '' @ classification_value cls @ ''.'') []]))"

definition hash_finding :: "int \<Rightarrow> string \<times> json \<Rightarrow> finding list" where
  "hash_finding now ne =
     (if \<not> entry_enabled (snd ne) then []
      else
        (case classify_hash_name (fst ne) of
           None \<Rightarrow> []
         | Some cls \<Rightarrow>
             [schannel_finding now ''Hashes'' (fst ne) cls (''SCHANNEL hash '' @ fst ne @ '' is enabled'')
                (''Enabled hash '' @ fst ne @ '' classified '' @ classification_value cls @ ''.'') []]))"

definition exchange_finding :: "int \<Rightarrow> string \<times> json \<Rightarrow> finding list" where
  "exchange_finding now ne =
     (if \<not> entry_enabled (snd ne) then []
      else
        [schannel_finding now ''KeyExchangeAlgorithms'' (fst ne) TINGGI
           (''SCHANNEL key exchange '' @ fst ne @ '' is classical (quantum-vulnerable)'')
           (fst ne @ '' is a classical key-establishment primitive with no PQC hybrid '' @ DASH @ '' harvest-now-decrypt-later exposed.'') []])"

definition walk_section :: "(string \<times> json \<Rightarrow> finding list) \<Rightarrow> json option \<Rightarrow> finding list" where
  "walk_section report sect = (case sect of Some (JObj d) \<Rightarrow> concat (map report d) | _ \<Rightarrow> [])"

text \<open>The registry: values and subkeys by name; a key may not open. A binary value is the text of its bytes.\<close>

datatype reg_key = Reg_Key bool "(string \<times> json) list" "(string \<times> reg_key) list"

fun read_key :: "reg_key \<Rightarrow> pydict" where
  "read_key (Reg_Key opens vals subs) =
     (if \<not> opens then []
      else dict_merge (dict_merge [] vals) (map (\<lambda>(n, k). (n, JObj (read_key k))) subs))"

declare read_key.simps [simp del]

definition SECTIONS :: "string list" where
  "SECTIONS = [''Protocols'', ''Ciphers'', ''Hashes'', ''KeyExchangeAlgorithms'']"

text \<open>The key of each section, where there is one; \<^const>\<open>None\<close>: nothing was read.\<close>

definition read_registry :: "bool \<Rightarrow> (string \<Rightarrow> reg_key option) \<Rightarrow> pydict option" where
  "read_registry windows hive =
     (if \<not> windows then None
      else
        (let config = concat (map (\<lambda>s. let sub = (case hive s of None \<Rightarrow> [] | Some k \<Rightarrow> read_key k) in
                                       if sub = [] then [] else [(s, JObj sub)]) SECTIONS)
         in if config = [] then None else Some config))"

definition schannel_applies :: "json option \<Rightarrow> bool \<Rightarrow> bool" where
  "schannel_applies injected windows \<longleftrightarrow> injected \<noteq> None \<or> windows"

definition schannel_report :: "int \<Rightarrow> pydict \<Rightarrow> finding list" where
  "schannel_report now d =
     walk_section (protocol_finding now) (dict_get d ''Protocols'') @ walk_section (cipher_finding now) (dict_get d ''Ciphers'') @
     walk_section (hash_finding now) (dict_get d ''Hashes'') @
     walk_section (exchange_finding now) (dict_get d ''KeyExchangeAlgorithms'')"

definition run_schannel :: "int \<Rightarrow> json option \<Rightarrow> bool \<Rightarrow> (string \<Rightarrow> reg_key option) \<Rightarrow> finding list" where
  "run_schannel now injected windows hive =
     (case injected of
        Some (JObj d) \<Rightarrow> schannel_report now d
      | Some _ \<Rightarrow> []
      | None \<Rightarrow> (case read_registry windows hive of None \<Rightarrow> [] | Some d \<Rightarrow> schannel_report now d))"

section \<open>Counting schemes\<close>

definition schemes :: "string \<Rightarrow> (string \<times> classification) list" where
  "schemes text = List.map_filter line_scheme (splitlines text)"

definition scheme_class :: "string \<Rightarrow> classification" where
  "scheme_class name = (if name = ''SHA256'' then SEDERHANA else SANGAT_TINGGI)"

definition counted :: "string list \<Rightarrow> (classification \<times> nat) dict" where
  "counted names = map (\<lambda>n. (n, scheme_class n, length (filter ((=) n) names))) (dedupe names)"

lemma line_scheme_class: "line_scheme l = Some (name, cls) \<Longrightarrow> cls = scheme_class name"
  by (auto simp: line_scheme_def classify_hash_def SHADOW_WEAK_PREFIXES_def scheme_class_def Let_def
      split: if_splits option.splits)

lemma dedupe_aux_snoc: "dedupe_aux seen (xs @ [x]) = dedupe_aux seen xs @ (if x \<in> set xs \<union> set seen then [] else [x])"
  by (induction seen xs rule: dedupe_aux.induct) auto

lemma dedupe_snoc: "dedupe (xs @ [x]) = (if x \<in> set xs then dedupe xs else dedupe xs @ [x])"
  by (simp add: dedupe_def dedupe_aux_snoc)

lemma update_map: "distinct ns \<Longrightarrow>
    AList.update n v (map (\<lambda>m. (m, g m)) ns) = map (\<lambda>m. (m, if m = n then v else g m)) (if n \<in> set ns then ns else ns @ [n])"
  by (induction ns) auto

lemma map_of_keys: "map_of (map (\<lambda>m. (m, g m)) ns) n = (if n \<in> set ns then Some (g n) else None)"
  by (induction ns) auto

lemma counted_snoc:
  "counted (names @ [n]) =
     dict_set n (scheme_class n, (case dict_get (counted names) n of None \<Rightarrow> 0 | Some (_, k) \<Rightarrow> k) + 1) (counted names)"
  unfolding counted_def map_of_keys
  by (subst update_map) (auto simp: dedupe_snoc filter_empty_conv)

lemma count_schemes: "foldl count_scheme [] ls = counted (map fst (List.map_filter line_scheme ls))"
proof (induction ls rule: rev_induct)
  case (snoc l ls)
  show ?case
  proof (cases "line_scheme l")
    case None
    with snoc show ?thesis by (simp add: count_scheme_def List.map_filter_def)
  next
    case (Some nc)
    obtain n cls where nc: "nc = (n, cls)" by (cases nc)
    with Some have "cls = scheme_class n" by (auto dest: line_scheme_class)
    with snoc Some nc show ?thesis by (simp add: count_scheme_def List.map_filter_def counted_snoc)
  qed
qed (simp add: counted_def List.map_filter_def dedupe_def)

section \<open>Properties\<close>

text \<open>C20. The report on a shadow file counts exactly, and discloses nothing else: there is one finding for each weak scheme
  in use, with the number of accounts that use it, and two files whose accounts use the same schemes, whatever
  their user names and hashes, have the same report.\<close>

theorem shadow_report_counts:
  "check_shadow now path (Some text) =
     map (\<lambda>n. shadow_finding now path (n, scheme_class n, length (filter (\<lambda>s. fst s = n) (schemes text))))
       (dedupe (map fst (schemes text))) \<and>
   (schemes text = schemes other \<longrightarrow> check_shadow now path (Some text) = check_shadow now path (Some other))"
proof -
  have "check_shadow now path (Some t) =
     map (\<lambda>n. shadow_finding now path (n, scheme_class n, length (filter (\<lambda>s. fst s = n) (schemes t))))
       (dedupe (map fst (schemes t)))" for t
  proof -
    have "length (filter ((=) n) (map fst ss)) = length (filter (\<lambda>s. fst s = n) ss)" for n :: string and ss :: "(string \<times> classification) list"
      by (induction ss) auto
    then show ?thesis by (simp add: check_shadow_def count_schemes counted_def schemes_def)
  qed
  then show ?thesis by simp
qed

theorem shadow_report_counts_witness:
  "check_shadow 0 ''/etc/shadow'' (Some (''alice:$1$salt$hash:19000:'' @ [newline] @ ''bob:!$1$other$one:19000:'' @ [newline])) =
   check_shadow 0 ''/etc/shadow'' (Some (''carol:$1$x$y:1:'' @ [newline] @ ''dave:$1$p$q:2:'' @ [newline]))"
proof -
  have "schemes (''alice:$1$salt$hash:19000:'' @ [newline] @ ''bob:!$1$other$one:19000:'' @ [newline]) =
      schemes (''carol:$1$x$y:1:'' @ [newline] @ ''dave:$1$p$q:2:'' @ [newline])"
    by code_simp
  with shadow_report_counts show ?thesis by blast
qed

lemma read_key_get:
  assumes "distinct (map fst vals)" "distinct (map fst subs)"
  shows "dict_get (read_key (Reg_Key True vals subs)) n =
    (case map_of subs n of Some k \<Rightarrow> Some (JObj (read_key k)) | None \<Rightarrow> map_of vals n)"
proof -
  have keys: "map fst (map (\<lambda>(n, k). (n, JObj (read_key k))) subs) = map fst subs" by (induction subs) auto
  have wf: "dict_wf (map (\<lambda>(n, k). (n, JObj (read_key k))) subs)" "dict_wf vals"
    unfolding dict_wf_def keys using assms by simp_all
  have "map_of (map (\<lambda>(n, k). (n, JObj (read_key k))) subs) n = map_option (\<lambda>k. JObj (read_key k)) (map_of subs n)"
    by (induction subs) auto
  then show ?thesis by (simp add: read_key.simps dict_get_merge wf split: option.split)
qed

lemma protocol_finding_shape:
  "protocol_enabled_sides e \<noteq> [] \<Longrightarrow> py_upper (py_strip p) \<in> set WEAK_PROTOCOLS \<Longrightarrow>
   \<exists>ttl note. protocol_finding now (p, e) =
     [schannel_finding now ''Protocols'' p SANGAT_TINGGI ttl note [(''sides'', JList (map JStr (protocol_enabled_sides e)))]]"
  by (simp add: protocol_finding_def Let_def) blast

text \<open>A broken protocol that the registry enables for clients or servers is reported, with the side it is enabled for.\<close>

theorem schannel_protocol_reported:
  assumes "hive ''Protocols'' = Some (Reg_Key True vs protos)" "distinct (map fst vs)" "distinct (map fst protos)"
    and "map_of protos p = Some (Reg_Key True pvals sides)" "py_upper (py_strip p) \<in> set WEAK_PROTOCOLS"
    and "distinct (map fst pvals)" "distinct (map fst sides)"
    and "map_of sides side = Some (Reg_Key True svals ssubs)" "side = ''Client'' \<or> side = ''Server''"
    and "distinct (map fst svals)" "distinct (map fst ssubs)"
    and "map_of ssubs ''Enabled'' = None" "map_of svals ''Enabled'' = Some (JInt n)" "n \<noteq> 0"
  shows "\<exists>sides ttl note.
    schannel_finding now ''Protocols'' p SANGAT_TINGGI ttl note [(''sides'', JList (map JStr sides))] \<in> set (run_schannel now None True hive) \<and>
    side \<in> set sides"
proof -
  let ?entry = "JObj (read_key (Reg_Key True pvals sides))" and ?sect = "read_key (Reg_Key True vs protos)"
  have p: "dict_get ?sect p = Some ?entry" unfolding read_key_get [OF assms(2,3)] assms(4) by simp
  have "entry_enabled (JObj (read_key (Reg_Key True svals ssubs)))"
    unfolding entry_enabled_def entry_get_def json.case read_key_get [OF assms(10,11)] assms(12,13) is_enabled_def
    using assms(14) by simp
  moreover have "entry_get side ?entry = Some (JObj (read_key (Reg_Key True svals ssubs)))"
    unfolding entry_get_def json.case read_key_get [OF assms(6,7)] assms(8) by simp
  ultimately have s: "side \<in> set (protocol_enabled_sides ?entry)"
    using assms(9) by (auto simp: protocol_enabled_sides_def)
  then have "protocol_enabled_sides ?entry \<noteq> []" by auto
  from protocol_finding_shape [OF this assms(5), of now] obtain f where f: "f \<in> set (protocol_finding now (p, ?entry))"
    and shape: "\<exists>ttl note. f = schannel_finding now ''Protocols'' p SANGAT_TINGGI ttl note
      [(''sides'', JList (map JStr (protocol_enabled_sides ?entry)))]"
    by (metis list.set_intros(1))
  have "(p, ?entry) \<in> set ?sect" using p by (rule map_of_SomeD)
  then have ne: "?sect \<noteq> []" and w: "f \<in> set (walk_section (protocol_finding now) (Some (JObj ?sect)))"
    using f by (auto simp: walk_section_def)
  obtain d where d: "read_registry True hive = Some d" "dict_get d ''Protocols'' = Some (JObj ?sect)"
    using ne assms(1) by (simp add: read_registry_def SECTIONS_def Let_def)
  have "f \<in> set (run_schannel now None True hive)"
    using w by (simp add: run_schannel_def schannel_report_def d)
  with shape s show ?thesis by blast
qed

definition sample_hive :: "string \<Rightarrow> reg_key option" where
  "sample_hive s =
     (if s = ''Protocols'' then
        Some (Reg_Key True [] [(''TLS 1.0'', Reg_Key True [] [(''Server'', Reg_Key True [(''Enabled'', JInt 0xFFFFFFFF)] [])])])
      else None)"

theorem schannel_protocol_reported_witness:
  "run_schannel 0 None True sample_hive \<noteq> []"
proof -
  have "py_upper (py_strip ''TLS 1.0'') \<in> set WEAK_PROTOCOLS" by code_simp
  then show ?thesis
    using schannel_protocol_reported [where hive = sample_hive and p = "''TLS 1.0''" and side = "''Server''" and vs = "[]" and
        protos = "[(''TLS 1.0'', Reg_Key True [] [(''Server'', Reg_Key True [(''Enabled'', JInt 0xFFFFFFFF)] [])])]" and pvals = "[]" and
        sides = "[(''Server'', Reg_Key True [(''Enabled'', JInt 0xFFFFFFFF)] [])]" and svals = "[(''Enabled'', JInt 0xFFFFFFFF)]" and
        ssubs = "[]" and n = "0xFFFFFFFF" and now = 0]
    by (auto simp: sample_hive_def)
qed

end
