(* ===== verification/Spec2Isabelle.thy ===== *)
theory Spec2Isabelle
  imports Agility Migration_Score Exposure Mosca Confidence Key_Health Targets Compliance Alg Fleet_Rollup
    Fleet_Laws Bundle_Transfer Merge Ike Krb Pcap_Laws Tls_Laws Key_Schedule Quic_Laws Capture_Laws Srcstrip Daemon Pyast Ssh_Config
    Binary_Scan_Laws Tls_Sweep_Laws Sniff_Laws Sse Ike_Probe Krb_Probe Tds_Probe Udp_Probes Starttls Sarif
    Zeek_Laws Java_Laws Sbom_Map Db_Laws Cert_Chain Wire_Probes Host_Policy
begin

text \<open>
  A verification development for \<^verbatim>\<open>pqcscan\<close>, a scanner that inventories the cryptography of
  hosts and networks and grades its readiness for post-quantum migration. Paths below are relative to
  \<^verbatim>\<open>src/src/pqcscan\<close>.

  \<^bold>\<open>The program.\<close> Probes (\<^verbatim>\<open>probes/\<close>) look at files, packets and services and emit findings. The
  runner (\<^verbatim>\<open>runner/runner.py\<close>) drives them family by family, enriches each finding with migration
  guidance and a confidence level, stores it with the verdicts of the compliance engine, and announces
  it on the event bus. The store (\<^verbatim>\<open>store/\<close>) keeps scans, findings, framework views, baselines and
  hosts; agents export their scans as bundles, which the fleet collector (\<^verbatim>\<open>daemon/fleet.py\<close>)
  authenticates and ingests, and databases can be merged offline. The pure layer (\<^verbatim>\<open>core/\<close>)
  classifies algorithms and computes scores, registers and drift from stored findings.

  \<^bold>\<open>Foundations.\<close> \<open>Prelude\<close>: Python's text, numbers and dictionaries (association lists in insertion
  order), with the shared lemmas. \<open>Py_Float\<close>: double arithmetic by exact rationals rounded to 53 bits,
  \<^verbatim>\<open>round\<close>. \<open>Bytes\<close>: slices and big-endian numbers of byte strings (\<open>8 word list\<close>), fixed-width fields in either byte order. \<open>Core_Types\<close>:
  \<^verbatim>\<open>core/types.py\<close>, JSON values, findings and finding rows. \<open>Row_Table\<close>: the locale \<open>row_table\<close>, what
  the store relies on of a database table, interpreted for every table in \<open>Store_Laws\<close>. \<open>Capped_Report\<close>: the
  locale \<open>capped_report\<close>, a report without repetitions cut at a cap, interpreted by the capture probe, the
  passive sensor, the reader of sensor logs and the database probe.

  \<^bold>\<open>Pure layer.\<close> \<open>Alg\<close> (\<^verbatim>\<open>alg.py\<close>: tables, \<^verbatim>\<open>classify\<close>, \<^verbatim>\<open>migration_deadline\<close>), \<open>Finding_Parity\<close>
  (\<^verbatim>\<open>parity.py\<close>: host-independent titles, drift), \<open>Bands\<close>, \<open>Agility\<close>, \<open>Migration_Score\<close>, \<open>Exposure\<close>,
  \<open>Mosca\<close>, \<open>Confidence\<close>, \<open>Key_Health\<close> (the ROCA fingerprint), \<open>Compliance\<close> (\<^verbatim>\<open>compliance/engine.py\<close>),
  \<open>Targets\<close> (\<^verbatim>\<open>runner/targets.py\<close>), \<open>Srcstrip\<close> (comment and literal blanking),
  \<open>Snippets\<close>, \<open>Remediation\<close>, \<open>Pyast\<close> (\<^verbatim>\<open>pyast.py\<close>, on syntax trees). The lemmas show score ranges and calibration, exact drift counts,
  ordering and caps of registers, that verdicts are exactly those of the rules that fire, that blanking
  keeps offsets and hides exactly the comments and literals, that enrichment only fills gaps, that the
  analysis of a syntax tree sees each node once and resolves imports.

  \<^bold>\<open>Store and fleet.\<close> \<open>Store\<close> and \<open>Store_Fleet\<close> model every session of \<^verbatim>\<open>store/repo.py\<close> as a function
  on \<open>db\<close>, one row list per table, returning an error (the session rolls back) or a result with the new
  database. An \<open>env\<close> carries what a session takes from outside: the key of a new row (\<open>env_ok\<close>: larger
  than the keys in use, as SQLite assigns them), one clock reading, a fresh UUID, the ISO date parsers.
  \<open>Scan_Bundle\<close>, \<open>Bundle_Transfer\<close>: \<^verbatim>\<open>store/bundle.py\<close>; \<open>Merge\<close>: \<^verbatim>\<open>store/merge.py\<close>; \<open>Fleet\<close>:
  \<^verbatim>\<open>daemon/fleet.py\<close>. \<open>Store_Laws\<close>, \<open>Ingest_Laws\<close>, \<open>Fleet_Rollup\<close>, \<open>Fleet_Laws\<close> prove the database
  invariant and its preservation (rule induction over \<open>collector_step\<close>), isolation and idempotence of
  ingest, retention, exact deletion, authentication and revocation, the rollup and its removal, and the
  bundle round trip from one database to another.

  \<^bold>\<open>Scans.\<close> \<open>Event_Bus\<close>: \<^verbatim>\<open>runner/event_bus.py\<close> as a step relation over loops, callbacks and bounded
  queues; no duplication, no reordering, no loss below the bound. \<open>Runner\<close>: \<^verbatim>\<open>runner/runner.py\<close>, the
  registry and the capabilities. A probe's code is a parameter: the answer of \<^verbatim>\<open>applies\<close> and a script
  for \<^verbatim>\<open>run\<close>; time limits may strike at any step. \<open>Runner_Laws\<close>: every interleaving keeps the database
  invariant and touches no other scan, no scan runs forever (a measure decreases, so no fuel is needed),
  and a scan that stops is marked done with every probe accounted for. \<open>Daemon\<close>: the guard of
  \<^verbatim>\<open>daemon/app.py\<close>, its login sessions (\<open>sessions_after\<close>), starting scans, and exports with their render
  slots and cleanup; what gets past the guard, one scan at a time, exports that leave no trace. \<open>Sse\<close>:
  the event stream of \<^verbatim>\<open>daemon/sse.py\<close> as steps beside the bus; its client reads exactly the
  events of its scan, and the stream ends with its first keepalive.

  \<^bold>\<open>Exports.\<close> \<open>Cbom\<close>: the CycloneDX document of \<^verbatim>\<open>cbom/builder.py\<close> as a JSON value; one component for
  each cryptographic asset, distinct references, values of the standard. \<open>Sarif\<close>: the log of
  \<^verbatim>\<open>renderers/sarif.py\<close>, whose rule indices resolve (an invariant of the loop over the findings).

  \<^bold>\<open>Wire formats.\<close> \<open>Ike\<close> (\<^verbatim>\<open>_ike_packet.py\<close>), \<open>Krb\<close> (\<^verbatim>\<open>_krb_asn1.py\<close>), \<open>Pcap\<close>, \<open>Tls_Hello\<close>
  (\<^verbatim>\<open>_pcap.py\<close>), \<open>Key_Schedule\<close> (\<^verbatim>\<open>_tls13_keyschedule.py\<close>), \<open>Quic\<close> (\<^verbatim>\<open>_quic.py\<close>), \<open>Suite_Class\<close>
  (\<^verbatim>\<open>_severity.py\<close>), \<open>Ssh_Config\<close> (\<^verbatim>\<open>_ssh_parser.py\<close>) and \<open>Capture\<close> (\<^verbatim>\<open>fs_pcap_crypto.py\<close>), with the encoders of the corresponding
  standards and the round trips in the theories named \<open>_Laws\<close>. Parsers are total functions; every
  \<^verbatim>\<open>struct.error\<close> or \<^verbatim>\<open>IndexError\<close> the code catches is a branch. \<open>Capture_Laws\<close> composes them: a capture
  file with a TLS hello yields a finding for each group it offers, and the loop with its limits refines a
  reference that has none. Loops over a buffer are \<open>function\<close>s whose measure is what is left of it.

  \<^bold>\<open>Binaries.\<close> \<open>Binary\<close>, \<open>Binary_Scan\<close>: \<^verbatim>\<open>fs_binary_crypto.py\<close> (ELF, PE and Mach-O tables, banners, constant
  tables, the sweep with its budget). \<open>Container_Laws\<close> writes containers and reads their names back,
  \<open>Binary_Laws\<close> and \<open>Binary_Scan_Laws\<close> follow a linked library into the report and refine the capped sweep.

  \<^bold>\<open>Probes of services.\<close> \<open>Tls_Client\<close>, \<open>Tls13_Chain\<close>, \<open>Tls_Sweep\<close>: the raw TLS probes
  (\<^verbatim>\<open>net_tls_cert_chain*.py\<close>, \<^verbatim>\<open>net_tls_kex_groups.py\<close>, \<^verbatim>\<open>net_tls_versions.py\<close>), with the chain recovered from the
  encrypted TLS 1.3 flight under every fragmentation. \<open>Sniff\<close>, \<open>Sniff_Laws\<close>: \<^verbatim>\<open>net_sniff_live.py\<close>; streams are rebuilt
  from segments in every order, and a hello fragmented anywhere is reported. \<open>Starttls\<close> (\<^verbatim>\<open>_tls_probe.py\<close>,
  \<^verbatim>\<open>_starttls_probe.py\<close>, \<^verbatim>\<open>net_starttls_ldap.py\<close>), \<open>Ike_Probe\<close>, \<open>Krb_Probe\<close>, \<open>Tds_Probe\<close> and \<open>Udp_Probes\<close> model the
  probes that compose the wire formats, \<open>Wire_Probes\<close> the SSH, SMB, RDP and DTLS handshakes
  (\<^verbatim>\<open>net_ssh_handshake.py\<close>, \<^verbatim>\<open>net_smb_dialect.py\<close>, \<^verbatim>\<open>net_rdp_negotiation.py\<close>, \<^verbatim>\<open>_dtls_probe.py\<close>); what a peer sends is an argument: a list of reads or lines, a byte stream
  with its end, or the fate of a datagram. A run returns its findings, and where an exception can leave the probe,
  whether it did. Their theorems take a conforming peer, written with the encoders of the standard, to the findings
  about it, or exhibit a peer that is misreported.

  \<^bold>\<open>Files of hosts.\<close> \<open>Zeek\<close>, \<open>Zeek_Laws\<close> (\<^verbatim>\<open>fs_zeek_logs.py\<close>: sensor logs by their header, observations, the capped
  report), \<open>Db_Crypto\<close>, \<open>Db_Laws\<close> (\<^verbatim>\<open>fs_db_crypto.py\<close>: PEM blocks and SSH keys in the cells of a database),
  \<open>Java_Security\<close>, \<open>Java_Laws\<close> (\<^verbatim>\<open>host_java_security.py\<close>: folded properties files and what they leave enabled),
  \<open>Sbom_Map\<close> (\<^verbatim>\<open>sbom_crypto_map.py\<close>: the library catalogue and the parsers of six manifests),
  \<open>Cert_Chain\<close> (\<^verbatim>\<open>fs_cert_chain.py\<close>: the chain of issuers above a leaf, whose walk ends because each round sees a new
  subject, its weakest link, shared keys), \<open>Host_Policy\<close> (\<^verbatim>\<open>host_pam_hashing.py\<close>, \<^verbatim>\<open>host_windows_schannel.py\<close>: password
  schemes, the registry of the TLS stack). Listings,
  file contents, the database engine and the parsers of JSON, TOML, XML, keys and certificates are arguments. Each
  regular expression is a recogniser at one position inside a loop that counts what a match has used. The theorems
  write a log, policy, manifest, hierarchy or document from its parts and follow every part into the report.

  \<^bold>\<open>Choices.\<close> Text is ASCII where the code folds case or strips blanks; bytes above 127 decoded with
  \<^verbatim>\<open>errors="ignore"\<close> or \<^verbatim>\<open>"replace"\<close> are one stand-in character; other text outside ASCII is its UTF-8 bytes.
  Points in time are integers (microseconds), dates their ISO text, floats in JSON their \<^verbatim>\<open>repr\<close>.
  Python's limit on converting very long digit strings is not modelled. Hash functions, HMAC, AEAD and
  block ciphers, gzip and the JSON codec come from outside: they are
  arguments, with what a theorem needs of them as hypotheses (an AEAD opens what it sealed).

  \<^bold>\<open>Not modelled.\<close> The probes of hosts, containers, databases and files other than those above (subprocesses,
  third-party parsers), the sockets, files and processes themselves, HTTP routes that only serialise rows,
  templates and the command line, the spreadsheet and PDF renderers (third-party object models), reading of the
  YAML rule files, DDL and PRAGMAs of the database, logging. Another process that changes the database while a scan
  or an export runs is modelled for enrollment and revocation only.
\<close>

end
